(* ===== verification/Korvun_Prelude.thy ===== *)
theory Korvun_Prelude
  imports Main "HOL-Library.Word"
begin

text \<open>
  Shared vocabulary of the development: Go values that several packages use (errors and
  \<open>errors.Is\<close>, instants, the part of package \<open>strings\<close> the code calls), and the
  list and option lemmas the component proofs rest on.

  Go strings are byte sequences, so a Go \<open>string\<close> is a HOL \<^typ>\<open>string\<close> (a list of
  8-bit characters) and \<open>len\<close> is \<^const>\<open>length\<close>. An instant is the number of
  nanoseconds since Go's zero time, so that \<open>t.IsZero()\<close> is \<open>t = 0\<close>,
  \<open>t.Before(u)\<close> is \<open>t < u\<close> and \<open>t.Sub(u)\<close> is \<open>t - u\<close>.
\<close>

named_theorems kernel_defs \<open>definitions of the action kernel\<close>
named_theorems policy_defs \<open>definitions of the policy engine\<close>
named_theorems store_defs \<open>definitions of the stores\<close>

section \<open>Instants and durations\<close>

type_synonym time = int
type_synonym duration = int

definition IsZero :: "time \<Rightarrow> bool" where
  "IsZero t \<longleftrightarrow> t = 0"

text \<open>\<open>at\<close> lies in the half-open window that starts at \<open>from\<close> and ends before
  \<open>until\<close>, where a zero \<open>until\<close> never ends.\<close>

definition in_window :: "time \<Rightarrow> time \<Rightarrow> time \<Rightarrow> bool" where
  "in_window from until at \<longleftrightarrow> \<not> at < from \<and> (IsZero until \<or> at < until)"

definition Millisecond :: duration where "Millisecond = 1000000"
definition Second :: duration where "Second = 1000000000"
definition Minute :: duration where "Minute = 60 * Second"

lemma duration_values [simp]:
  "Millisecond = 1000000" "Second = 1000000000" "Minute = 60000000000"
  by (simp_all add: Millisecond_def Second_def Minute_def)

section \<open>Go errors\<close>

text \<open>
  A package-level \<open>var ErrX = errors.New(...)\<close> is \<open>Sentinel\<close> of its text; these texts are
  pairwise different in the packages modelled, so equality of sentinels is the pointer equality
  of the source. \<open>Errorf\<close> is \<open>fmt.Errorf\<close> with the errors its \<open>%w\<close> verbs wrap,
  \<open>Join\<close> is \<open>errors.Join\<close>, and \<open>RateLimitError\<close> is the one concrete error type
  the code recovers with \<open>errors.As\<close>.
\<close>

datatype go_error =
    Sentinel string
  | ErrorString string
  | Errorf string "go_error list"
  | Join "go_error list"
  | RateLimitError string duration

definition ErrRateLimited :: go_error where
  "ErrRateLimited = Sentinel ''model: provider rate-limited the caller''"

text \<open>\<open>errors.Is err target\<close>: some error of the unwrap tree of \<open>err\<close> is the
  target.\<close>

fun errors_Is :: "go_error \<Rightarrow> go_error \<Rightarrow> bool" where
  "errors_Is (Sentinel s) t = (Sentinel s = t)"
| "errors_Is (ErrorString s) t = (ErrorString s = t)"
| "errors_Is (Errorf s es) t = (Errorf s es = t \<or> list_ex (\<lambda>e. errors_Is e t) es)"
| "errors_Is (Join es) t = (Join es = t \<or> list_ex (\<lambda>e. errors_Is e t) es)"
| "errors_Is (RateLimitError p d) t = (RateLimitError p d = t \<or> ErrRateLimited = t)"

text \<open>\<open>errors.As(err, &rle)\<close> for \<open>rle *RateLimitError\<close>: the first one of the
  unwrap tree, depth first.\<close>

fun errors_As_RateLimit :: "go_error \<Rightarrow> (string \<times> duration) option"
  and errors_As_RateLimit_list :: "go_error list \<Rightarrow> (string \<times> duration) option" where
  "errors_As_RateLimit (RateLimitError p d) = Some (p, d)"
| "errors_As_RateLimit (Errorf s es) = errors_As_RateLimit_list es"
| "errors_As_RateLimit (Join es) = errors_As_RateLimit_list es"
| "errors_As_RateLimit (Sentinel s) = None"
| "errors_As_RateLimit (ErrorString s) = None"
| "errors_As_RateLimit_list [] = None"
| "errors_As_RateLimit_list (e # es) =
     (case errors_As_RateLimit e of Some r \<Rightarrow> Some r | None \<Rightarrow> errors_As_RateLimit_list es)"

lemma errors_Is_refl [simp]: "errors_Is e e"
  by (cases e) auto

lemma errors_Is_Errorf1 [simp]:
  "errors_Is (Errorf s [e]) (Sentinel t) = errors_Is e (Sentinel t)"
  by simp

lemma errors_Is_Join_member: "e \<in> set es \<Longrightarrow> errors_Is e t \<Longrightarrow> errors_Is (Join es) t"
  by (auto simp: list_ex_iff)

definition context_Canceled :: go_error where
  "context_Canceled = Sentinel ''context canceled''"

definition context_DeadlineExceeded :: go_error where
  "context_DeadlineExceeded = Sentinel ''context deadline exceeded''"

section \<open>Package strings\<close>

text \<open>
  \<open>strings.TrimSpace\<close> removes the code points with the Unicode property White Space at
  both ends. On bytes these are the ASCII spaces and the UTF-8 sequences below; since UTF-8 is
  self-synchronising, removing a rune at the end is removing one of these as a suffix.
\<close>

definition byte :: "nat \<Rightarrow> char" where
  "byte n = char_of n"

definition space_runes :: "string list" where
  "space_runes = map (map byte)
     ([[9], [10], [11], [12], [13], [32], [194, 133], [194, 160], [225, 154, 128]]
      @ map (\<lambda>k. [226, 128, k]) ([128..<139] @ [168, 169, 175])
      @ [[226, 129, 159], [227, 128, 128]])"

definition strip_one :: "string list \<Rightarrow> string \<Rightarrow> string option" where
  "strip_one rs s =
     (case filter (\<lambda>r. r = take (length r) s) rs of [] \<Rightarrow> None | r # _ \<Rightarrow> Some (drop (length r) s))"

lemma strip_one_shorter:
  assumes "strip_one rs s = Some s'" and "[] \<notin> set rs"
  shows "length s' < length s"
proof -
  from assms(1) obtain r rest where f: "filter (\<lambda>r. r = take (length r) s) rs = r # rest"
    and s': "s' = drop (length r) s"
    by (auto simp: strip_one_def split: list.splits)
  from f have "r \<in> set (filter (\<lambda>r. r = take (length r) s) rs)" by simp
  then have "r \<in> set rs" and r: "r = take (length r) s" by auto
  with assms(2) have "r \<noteq> []" by auto
  then have pos: "0 < length r" by simp
  from r have "length r = min (length r) (length s)"
    by (metis length_take min.commute)
  with pos have "length s - length r < length s" by linarith
  with s' show ?thesis by simp
qed

fun trim_left_fuel :: "nat \<Rightarrow> string list \<Rightarrow> string \<Rightarrow> string" where
  "trim_left_fuel 0 rs s = s"
| "trim_left_fuel (Suc n) rs s =
     (case strip_one rs s of None \<Rightarrow> s | Some s' \<Rightarrow> trim_left_fuel n rs s')"

text \<open>Each step removes at least one byte, so \<open>length s\<close> steps are always enough.\<close>

definition trim_left :: "string list \<Rightarrow> string \<Rightarrow> string" where
  "trim_left rs s = trim_left_fuel (length s) rs s"

definition TrimSpace :: "string \<Rightarrow> string" where
  "TrimSpace s = rev (trim_left (map rev space_runes) (rev (trim_left space_runes s)))"

lemma trim_left_fuel_done:
  assumes "[] \<notin> set rs" and "length s \<le> n"
  shows "strip_one rs (trim_left_fuel n rs s) = None"
  using assms(2)
proof (induction n arbitrary: s)
  case 0
  then show ?case
    using strip_one_shorter [OF _ assms(1), of s] by (cases "strip_one rs s") auto
next
  case (Suc n)
  show ?case
  proof (cases "strip_one rs s")
    case None
    then show ?thesis by simp
  next
    case (Some s')
    with strip_one_shorter [OF Some assms(1)] Suc show ?thesis by simp
  qed
qed

lemma space_runes_nonempty [simp]: "[] \<notin> set space_runes" "[] \<notin> set (map rev space_runes)"
  by (auto simp: space_runes_def)

text \<open>\<open>strings.Cut(s, sep)\<close> for a one-byte separator.\<close>

definition Cut :: "string \<Rightarrow> char \<Rightarrow> string \<times> string \<times> bool" where
  "Cut s c = (if c \<in> set s
     then (takeWhile (\<lambda>x. x \<noteq> c) s, tl (dropWhile (\<lambda>x. x \<noteq> c) s), True)
     else (s, [], False))"

lemma split_at_first: "c \<in> set s \<Longrightarrow>
    s = takeWhile (\<lambda>x. x \<noteq> c) s @ c # tl (dropWhile (\<lambda>x. x \<noteq> c) s)"
  by (induction s) auto

lemma Cut_append: "Cut s c = (a, b, True) \<Longrightarrow> s = a @ c # b"
  using split_at_first [of c s] by (auto simp: Cut_def split: if_splits)

text \<open>\<open>strings.HasPrefix\<close> and \<open>strings.CutPrefix\<close>.\<close>

definition HasPrefix :: "string \<Rightarrow> string \<Rightarrow> bool" where
  "HasPrefix s p \<longleftrightarrow> take (length p) s = p"

definition CutPrefix :: "string \<Rightarrow> string \<Rightarrow> string option" where
  "CutPrefix s p = (if HasPrefix s p then Some (drop (length p) s) else None)"

lemma HasPrefix_iff: "HasPrefix s p \<longleftrightarrow> (\<exists>r. s = p @ r)"
  by (auto simp: HasPrefix_def) (metis append_take_drop_id)

text \<open>\<open>strings.Join\<close>, and the decimal form \<open>%d\<close> prints.\<close>

fun strings_Join :: "string list \<Rightarrow> string \<Rightarrow> string" where
  "strings_Join [] sep = ''''"
| "strings_Join [x] sep = x"
| "strings_Join (x # y # ys) sep = x @ sep @ strings_Join (y # ys) sep"

lemma strings_Join_empty:
  "sep \<noteq> '''' \<Longrightarrow> strings_Join xs sep = '''' \<longleftrightarrow> (xs = [] \<or> xs = [''''])"
  by (cases "(xs, sep)" rule: strings_Join.cases) auto

fun decimal_nat :: "nat \<Rightarrow> string" where
  "decimal_nat n = (if n < 10 then [char_of (48 + n)]
     else decimal_nat (n div 10) @ [char_of (48 + n mod 10)])"

declare decimal_nat.simps [simp del]

definition decimal :: "int \<Rightarrow> string" where
  "decimal k = (if k < 0 then ''-'' @ decimal_nat (nat (- k)) else decimal_nat (nat k))"

text \<open>\<open>strings.ToLower\<close> on a byte string whose bytes are all ASCII.\<close>

definition is_ascii :: "string \<Rightarrow> bool" where
  "is_ascii s \<longleftrightarrow> list_all (\<lambda>c. of_char c < (128 :: nat)) s"

definition ascii_lower :: "char \<Rightarrow> char" where
  "ascii_lower c = (if (65 :: nat) \<le> of_char c \<and> of_char c \<le> (90 :: nat)
     then char_of (of_char c + (32 :: nat)) else c)"

text \<open>\<open>strings.ToLower\<close>; \<open>uni\<close> is the Unicode case mapping, which is consulted for
  strings with other bytes only.\<close>

definition ToLower :: "(string \<Rightarrow> string) \<Rightarrow> string \<Rightarrow> string" where
  "ToLower uni s = (if is_ascii s then map ascii_lower s else uni s)"

section \<open>Lists\<close>

text \<open>The position of the first element that satisfies a test.\<close>

fun first_index :: "('a \<Rightarrow> bool) \<Rightarrow> 'a list \<Rightarrow> nat option" where
  "first_index P [] = None"
| "first_index P (x # xs) = (if P x then Some 0 else map_option Suc (first_index P xs))"

lemma first_index_Some:
  "first_index P xs = Some i \<Longrightarrow> i < length xs \<and> P (xs ! i) \<and> (\<forall>j<i. \<not> P (xs ! j))"
proof (induction xs arbitrary: i)
  case Nil
  then show ?case by simp
next
  case (Cons x xs)
  show ?case
  proof (cases "P x")
    case True
    with Cons.prems show ?thesis by simp
  next
    case False
    with Cons.prems obtain k where k: "first_index P xs = Some k" and i: "i = Suc k"
      by auto
    from Cons.IH [OF k] i False show ?thesis
      by (auto simp: nth_Cons less_Suc_eq_0_disj split: nat.splits)
  qed
qed

lemma first_index_None: "first_index P xs = None \<longleftrightarrow> (\<forall>x\<in>set xs. \<not> P x)"
  by (induction xs) auto

text \<open>The last \<open>n\<close> elements, as the slices \<open>xs[len(xs)-n:]\<close> of the source.\<close>

definition take_last :: "nat \<Rightarrow> 'a list \<Rightarrow> 'a list" where
  "take_last n xs = drop (length xs - n) xs"

lemma length_take_last [simp]: "length (take_last n xs) = min n (length xs)"
  by (simp add: take_last_def min_def)

lemma take_last_all [simp]: "length xs \<le> n \<Longrightarrow> take_last n xs = xs"
  by (simp add: take_last_def)

lemma take_last_suffix: "\<exists>ys. xs = ys @ take_last n xs"
  by (metis append_take_drop_id take_last_def)

lemma set_take_last: "set (take_last n xs) \<subseteq> set xs"
  by (simp add: take_last_def set_drop_subset)

lemma take_last_append: "length ys \<le> n \<Longrightarrow> take_last n (xs @ ys) = take_last (n - length ys) xs @ ys"
  by (simp add: take_last_def)

text \<open>Filling an empty slot of a list of optional values adds just that value.\<close>

lemma fill_slot:
  assumes "i < length xs" and "xs ! i = None"
  shows "Some x \<in> set (xs[i := Some y]) \<longleftrightarrow> x = y \<or> Some x \<in> set xs"
  using assms
proof (induction xs arbitrary: i)
  case (Cons a xs)
  then show ?case by (cases i) auto
qed simp

end
