(* ===== verification/Model_Dispatch.thy ===== *)
theory Model_Dispatch
  imports Korvun_Prelude
begin

text \<open>
  The model-dispatch mechanism: the request data and its validation
  (\<open>internal/model/model.go\<close>, \<open>errors.go\<close>), the per-call primitive, the parallel
  fan-out (\<open>internal/model/fanout\<close>) and the serial fail-over
  (\<open>internal/model/sequential\<close>).

  A provider adapter is code behind the interface \<open>model.Model\<close>; it is a parameter here, a
  record of what its two methods do. Panics are values, so that the \<open>recover\<close> of
  \<open>CallOne\<close> is a case distinction. What the environment decides for one call (the state of
  the caller's context, the clock readings) is the record \<open>call_env\<close>; the order in which
  the goroutines of a fan-out finish is an explicit list of slots, and \<open>ce_sees_cancel\<close>
  says whether a call is still in flight when a sibling's success cancels the shared context.
\<close>

section \<open>Requests and responses\<close>

datatype Role = RoleSystem | RoleUser | RoleAssistant | RoleTool | RoleInvalid int

text \<open>A value of type \<open>any\<close> as \<open>encoding/json\<close> decodes it; a map is the list of its entries.\<close>

datatype go_any = AnyNil | AnyBool bool | AnyNumber string | AnyString string | AnyList "go_any list"
  | AnyMap "(string \<times> go_any) list"

record ToolCall =
  tc_ID :: string
  tc_Name :: string
  tc_Arguments :: "(string \<times> go_any) list"

record Message =
  msg_Role :: Role
  msg_Content :: string
  msg_ToolCalls :: "ToolCall list"
  msg_ToolName :: string
  msg_ToolCallID :: string

record Request =
  req_Model :: string
  req_Messages :: "Message list"

record Response =
  resp_Message :: Message
  resp_Provider :: string
  resp_ModelName :: string

definition ErrNilRequest :: go_error where
  "ErrNilRequest = Sentinel ''model: request is nil''"
definition ErrEmptyModel :: go_error where
  "ErrEmptyModel = Sentinel ''model: request model name is empty''"
definition ErrEmptyMessages :: go_error where
  "ErrEmptyMessages = Sentinel ''model: request has no messages''"
definition ErrInvalidRole :: go_error where
  "ErrInvalidRole = Sentinel ''model: message has invalid role''"
definition ErrEmptyContent :: go_error where
  "ErrEmptyContent = Sentinel ''model: message content is empty''"
definition ErrProviderUnavailable :: go_error where
  "ErrProviderUnavailable = Sentinel ''model: provider unavailable''"
definition ErrNoModels :: go_error where
  "ErrNoModels = Sentinel ''fanout: no models''"
definition ErrNilModel :: go_error where
  "ErrNilModel = Sentinel ''fanout: nil model entry''"

text \<open>\<open>ValidateRequest\<close>: the body of the message loop, then the function itself.
  \<open>None\<close> is the nil error.\<close>

definition validate_message :: "Message \<Rightarrow> go_error option" where
  "validate_message m =
     (let role_err =
        (case msg_Role m of
           RoleSystem \<Rightarrow>
             (if msg_ToolCalls m \<noteq> [] \<or> msg_ToolName m \<noteq> ''''
              then Some (Errorf ''system turn carries tool-calling fields'' [ErrInvalidRole]) else None)
         | RoleUser \<Rightarrow>
             (if msg_ToolCalls m \<noteq> [] \<or> msg_ToolName m \<noteq> ''''
              then Some (Errorf ''user turn carries tool-calling fields'' [ErrInvalidRole]) else None)
         | RoleAssistant \<Rightarrow>
             (if msg_ToolName m \<noteq> ''''
              then Some (Errorf ''assistant turn carries a tool result attribution'' [ErrInvalidRole])
              else None)
         | RoleTool \<Rightarrow>
             (if msg_ToolName m = '''' \<or> msg_ToolCalls m \<noteq> [] then Some ErrInvalidRole else None)
         | RoleInvalid _ \<Rightarrow> Some ErrInvalidRole)
      in case role_err of
           Some e \<Rightarrow> Some e
         | None \<Rightarrow>
             (if msg_Content m = '''' \<and> \<not> (msg_Role m = RoleAssistant \<and> msg_ToolCalls m \<noteq> [])
              then Some ErrEmptyContent else None))"

fun validate_messages :: "Message list \<Rightarrow> go_error option" where
  "validate_messages [] = None"
| "validate_messages (m # ms) =
     (case validate_message m of Some e \<Rightarrow> Some e | None \<Rightarrow> validate_messages ms)"

definition ValidateRequest :: "Request option \<Rightarrow> go_error option" where
  "ValidateRequest r =
     (case r of
        None \<Rightarrow> Some ErrNilRequest
      | Some req \<Rightarrow>
          (if req_Model req = '''' then Some ErrEmptyModel
           else if req_Messages req = [] then Some ErrEmptyMessages
           else validate_messages (req_Messages req)))"

text \<open>What a request that passes validation is, stated without the code's order of checks.\<close>

definition well_formed_message :: "Message \<Rightarrow> bool" where
  "well_formed_message m \<longleftrightarrow>
     (case msg_Role m of
        RoleSystem \<Rightarrow> msg_ToolCalls m = [] \<and> msg_ToolName m = '''' \<and> msg_Content m \<noteq> ''''
      | RoleUser \<Rightarrow> msg_ToolCalls m = [] \<and> msg_ToolName m = '''' \<and> msg_Content m \<noteq> ''''
      | RoleAssistant \<Rightarrow> msg_ToolName m = '''' \<and> (msg_Content m \<noteq> '''' \<or> msg_ToolCalls m \<noteq> [])
      | RoleTool \<Rightarrow> msg_ToolName m \<noteq> '''' \<and> msg_ToolCalls m = [] \<and> msg_Content m \<noteq> ''''
      | RoleInvalid _ \<Rightarrow> False)"

lemma validate_message_iff: "validate_message m = None \<longleftrightarrow> well_formed_message m"
  by (auto simp: validate_message_def well_formed_message_def split: Role.splits)

lemma validate_messages_iff: "validate_messages ms = None \<longleftrightarrow> list_all well_formed_message ms"
  by (induction ms) (auto simp: validate_message_iff [symmetric] split: option.splits)

text \<open>Every refusal of a message is one of the two message sentinels.\<close>

lemma validate_message_error:
  "validate_message m = Some e \<Longrightarrow> errors_Is e ErrInvalidRole \<or> e = ErrEmptyContent"
  by (auto simp: validate_message_def Let_def ErrInvalidRole_def split: Role.splits if_splits)

section \<open>Provider adapters\<close>

datatype panic_value = PanicError go_error | PanicOther string

datatype 'a go_call = Returned 'a | Panicked panic_value

record ctx =
  ctx_Err :: "go_error option"
  ctx_Deadline :: "time option"

record Model =
  m_Name :: "string go_call"
  m_Generate :: "ctx \<Rightarrow> Request \<Rightarrow> (Response option \<times> go_error option) go_call"

text \<open>\<open>context.WithTimeout(ctx, d)\<close> at wall time \<open>now\<close>: the earlier deadline
  wins.\<close>

definition WithTimeout :: "ctx \<Rightarrow> time \<Rightarrow> duration \<Rightarrow> ctx" where
  "WithTimeout c now d =
     c\<lparr>ctx_Deadline := Some (case ctx_Deadline c of None \<Rightarrow> now + d | Some t \<Rightarrow> min t (now + d))\<rparr>"

record Outcome =
  oc_Provider :: string
  oc_Response :: "Response option"
  oc_Err :: "go_error option"
  oc_Latency :: duration

record call_env =
  ce_before :: "go_error option"
  ce_ctx :: ctx
  ce_wall :: time
  ce_start :: time
  ce_end :: time
  ce_sees_cancel :: bool

definition panic_err :: "panic_value \<Rightarrow> go_error" where
  "panic_err v = (case v of
     PanicError e \<Rightarrow> Errorf ''model dispatch: provider panicked'' [e]
   | PanicOther s \<Rightarrow> ErrorString (''model dispatch: provider panicked: '' @ s))"

definition CallOne :: "ctx \<Rightarrow> Request \<Rightarrow> Model \<Rightarrow> duration \<Rightarrow> call_env \<Rightarrow> Outcome" where
  "CallOne c req m tmo env =
     (case m_Name m of
        Panicked v \<Rightarrow>
          \<lparr>oc_Provider = '''', oc_Response = None, oc_Err = Some (panic_err v), oc_Latency = 0\<rparr>
      | Returned name \<Rightarrow>
          (let callCtx = (if tmo > 0 then WithTimeout c (ce_wall env) tmo else c);
               latency = ce_end env - ce_start env
           in case m_Generate m callCtx req of
                Panicked v \<Rightarrow>
                  \<lparr>oc_Provider = name, oc_Response = None, oc_Err = Some (panic_err v),
                   oc_Latency = latency\<rparr>
              | Returned (resp, err) \<Rightarrow>
                  (case err of
                     Some e \<Rightarrow>
                       \<lparr>oc_Provider = name, oc_Response = None, oc_Err = Some e,
                        oc_Latency = latency\<rparr>
                   | None \<Rightarrow>
                       \<lparr>oc_Provider = name, oc_Response = resp, oc_Err = None,
                        oc_Latency = latency\<rparr>)))"

text \<open>The usability test of the reducers.\<close>

definition usable :: "Outcome \<Rightarrow> bool" where
  "usable oc \<longleftrightarrow> oc_Err oc = None \<and> oc_Response oc \<noteq> None"

lemma CallOne_not_both: "oc_Response (CallOne c req m tmo env) = None \<or> oc_Err (CallOne c req m tmo env) = None"
  by (auto simp: CallOne_def Let_def split: go_call.splits option.splits)

text \<open>The provider of a usable outcome is the name of the model that was called, and its
  response is what that model's \<open>Generate\<close> returned.\<close>

lemma CallOne_usable:
  assumes "usable (CallOne c req m tmo env)"
  shows "\<exists>c'. m_Name m = Returned (oc_Provider (CallOne c req m tmo env)) \<and>
     m_Generate m c' req = Returned (oc_Response (CallOne c req m tmo env), None)"
  using assms
  by (auto simp: CallOne_def usable_def Let_def split: go_call.splits option.splits if_splits)

lemma CallOne_provider:
  "m_Name m = Returned n \<Longrightarrow> oc_Provider (CallOne c req m tmo env) = n"
  by (auto simp: CallOne_def Let_def split: go_call.splits option.splits)

lemma CallOne_panic_Is:
  assumes "m_Name m = Panicked (PanicError e)"
  shows "errors_Is (the (oc_Err (CallOne c req m tmo env))) e"
  using assms by (auto simp: CallOne_def panic_err_def)

section \<open>The fan-out coordinator\<close>

record Coordinator =
  perModelTimeout :: duration
  cancelOnFirstUsableSuccess :: bool

definition New_Coordinator :: Coordinator where
  "New_Coordinator = \<lparr>perModelTimeout = 0, cancelOnFirstUsableSuccess = False\<rparr>"

definition WithPerModelTimeout :: "duration \<Rightarrow> Coordinator \<Rightarrow> Coordinator" where
  "WithPerModelTimeout d c = (if d > 0 then c\<lparr>perModelTimeout := d\<rparr> else c)"

definition WithCancelOnFirstUsableSuccess :: "Coordinator \<Rightarrow> Coordinator" where
  "WithCancelOnFirstUsableSuccess c = c\<lparr>cancelOnFirstUsableSuccess := True\<rparr>"

definition ValidateRunInputs ::
    "ctx option \<Rightarrow> Request option \<Rightarrow> Model option list \<Rightarrow> go_error option" where
  "ValidateRunInputs c r models =
     (case c of
        None \<Rightarrow> Some (ErrorString ''model dispatch: nil ctx'')
      | Some cx \<Rightarrow>
          (case ValidateRequest r of
             Some e \<Rightarrow> Some e
           | None \<Rightarrow>
               (if models = [] then Some ErrNoModels
                else if None \<in> set models then Some ErrNilModel
                else ctx_Err cx)))"

text \<open>The state the goroutines share: the pre-allocated slots, and whether the derived context
  was cancelled by a first usable success.\<close>

record fan_state =
  fs_slots :: "Outcome option list"
  fs_cancelled :: bool

definition cancelled_ctx :: "ctx \<Rightarrow> ctx" where
  "cancelled_ctx c = (case ctx_Err c of None \<Rightarrow> c\<lparr>ctx_Err := Some context_Canceled\<rparr> | Some _ \<Rightarrow> c)"

text \<open>One goroutine: call, write the own slot, then cancel the siblings after a success.\<close>

definition callOne ::
    "Coordinator \<Rightarrow> Request \<Rightarrow> Model list \<Rightarrow> (nat \<Rightarrow> call_env) \<Rightarrow> nat \<Rightarrow> fan_state \<Rightarrow> fan_state" where
  "callOne co req ms env i s =
     (let runCtx = (if fs_cancelled s \<and> ce_sees_cancel (env i)
                    then cancelled_ctx (ce_ctx (env i)) else ce_ctx (env i));
          oc = CallOne runCtx req (ms ! i) (perModelTimeout co) (env i)
      in s\<lparr>fs_slots := (fs_slots s)[i := Some oc],
           fs_cancelled := fs_cancelled s \<or> (cancelOnFirstUsableSuccess co \<and> oc_Err oc = None)\<rparr>)"

definition fan_init :: "Model list \<Rightarrow> fan_state" where
  "fan_init ms = \<lparr>fs_slots = replicate (length ms) None, fs_cancelled = False\<rparr>"

definition fan_exec ::
    "Coordinator \<Rightarrow> Request \<Rightarrow> Model list \<Rightarrow> (nat \<Rightarrow> call_env) \<Rightarrow> nat list \<Rightarrow> fan_state" where
  "fan_exec co req ms env order = fold (callOne co req ms env) order (fan_init ms)"

text \<open>
  \<open>Coordinator.Run\<close>. \<open>order\<close> is the order in which the goroutines finish; \<open>wg.Wait\<close>
  returns only when every slot is written, so an incomplete order is \<open>None\<close>: still waiting.
\<close>

definition fanout_Run ::
    "Coordinator \<Rightarrow> ctx option \<Rightarrow> Request option \<Rightarrow> Model option list \<Rightarrow> (nat \<Rightarrow> call_env) \<Rightarrow>
     nat list \<Rightarrow> (go_error + Outcome list) option" where
  "fanout_Run co c r models env order =
     (case ValidateRunInputs c r models of
        Some e \<Rightarrow> Some (Inl e)
      | None \<Rightarrow>
          (let s = fan_exec co (the r) (map the models) env order
           in if None \<in> set (fs_slots s) then None else Some (Inr (map the (fs_slots s)))))"

text \<open>A finishing order in which every goroutine returns exactly once.\<close>

definition complete_order :: "nat \<Rightarrow> nat list \<Rightarrow> bool" where
  "complete_order n order \<longleftrightarrow> distinct order \<and> set order = {0..<n}"

lemma callOne_slots [simp]: "length (fs_slots (callOne co req ms env i s)) = length (fs_slots s)"
  by (simp add: callOne_def Let_def)

lemma fold_callOne_length [simp]:
  "length (fs_slots (fold (callOne co req ms env) order s)) = length (fs_slots s)"
  by (induction order arbitrary: s) auto

lemma fold_callOne_other:
  "i \<notin> set order \<Longrightarrow> fs_slots (fold (callOne co req ms env) order s) ! i = fs_slots s ! i"
  by (induction order arbitrary: s) (auto simp: callOne_def Let_def)

text \<open>What a slot holds once its goroutine has run: the outcome of one call to its model, with
  the caller's context or a cancelled copy of it.\<close>

definition slot_of ::
    "Coordinator \<Rightarrow> Request \<Rightarrow> Model list \<Rightarrow> (nat \<Rightarrow> call_env) \<Rightarrow> nat \<Rightarrow> bool \<Rightarrow> Outcome" where
  "slot_of co req ms env i cancelled =
     CallOne (if cancelled then cancelled_ctx (ce_ctx (env i)) else ce_ctx (env i))
       req (ms ! i) (perModelTimeout co) (env i)"

lemma callOne_slot:
  "i < length (fs_slots s) \<Longrightarrow>
   fs_slots (callOne co req ms env i s) ! i = Some (slot_of co req ms env i (fs_cancelled s \<and> ce_sees_cancel (env i)))"
  by (simp add: callOne_def slot_of_def Let_def)

lemma fold_callOne_slot:
  assumes "i \<in> set order" and "distinct order" and "set order \<subseteq> {0..<length (fs_slots s)}"
  shows "\<exists>b. fs_slots (fold (callOne co req ms env) order s) ! i = Some (slot_of co req ms env i b)
     \<and> (b \<longrightarrow> fs_cancelled s \<or> cancelOnFirstUsableSuccess co)"
  using assms
proof (induction order arbitrary: s)
  case Nil
  then show ?case by simp
next
  case (Cons k order)
  let ?s = "callOne co req ms env k s"
  show ?case
  proof (cases "i = k")
    case True
    with Cons.prems have "fs_slots (fold (callOne co req ms env) order ?s) ! i = fs_slots ?s ! i"
      by (intro fold_callOne_other) simp
    with True Cons.prems show ?thesis by (auto simp: callOne_slot)
  next
    case False
    with Cons.prems have "i \<in> set order" "distinct order" "set order \<subseteq> {0..<length (fs_slots ?s)}"
      by auto
    from Cons.IH [OF this] show ?thesis
      by (auto simp: callOne_def Let_def)
  qed
qed

lemma fan_exec_slot:
  assumes "complete_order (length ms) order" and "i < length ms"
  shows "\<exists>b. fs_slots (fan_exec co req ms env order) ! i = Some (slot_of co req ms env i b)
     \<and> (b \<longrightarrow> cancelOnFirstUsableSuccess co)"
  using assms fold_callOne_slot [of i order "fan_init ms" co req ms env]
  by (auto simp: fan_exec_def fan_init_def complete_order_def)

lemma fan_exec_complete:
  assumes "complete_order (length ms) order"
  shows "None \<notin> set (fs_slots (fan_exec co req ms env order))"
proof
  assume "None \<in> set (fs_slots (fan_exec co req ms env order))"
  then obtain i where "i < length (fs_slots (fan_exec co req ms env order))"
    and n: "fs_slots (fan_exec co req ms env order) ! i = None"
    by (auto simp: in_set_conv_nth)
  then have "i < length ms" by (simp add: fan_exec_def fan_init_def)
  from fan_exec_slot [OF assms this, of co req env] n show False by auto
qed

lemma map_the_Some_models: "None \<notin> set models \<Longrightarrow> map Some (map the models) = models"
  by (induction models) auto

lemma ValidateRunInputs_None:
  assumes "ValidateRunInputs c r models = None"
  shows "\<exists>cx req. c = Some cx \<and> r = Some req \<and> ctx_Err cx = None \<and> models \<noteq> [] \<and> None \<notin> set models"
  using assms
  by (auto simp: ValidateRunInputs_def ValidateRequest_def split: option.splits if_splits)

lemma fanout_Run_valid:
  assumes "ValidateRunInputs c r models = None" and "complete_order (length models) order"
  shows "fanout_Run co c r models env order =
    Some (Inr (map the (fs_slots (fan_exec co (the r) (map the models) env order))))"
proof -
  have "None \<notin> set (fs_slots (fan_exec co (the r) (map the models) env order))"
    by (rule fan_exec_complete) (use assms(2) in simp)
  with assms(1) show ?thesis by (simp add: fanout_Run_def Let_def)
qed

section \<open>The sequential coordinator\<close>

fun seq_loop ::
    "duration \<Rightarrow> Request \<Rightarrow> (nat \<Rightarrow> call_env) \<Rightarrow> nat \<Rightarrow> Model list \<Rightarrow> Outcome list" where
  "seq_loop tmo req env k [] = []"
| "seq_loop tmo req env k (m # ms) =
     (if ce_before (env k) \<noteq> None then []
      else let oc = CallOne (ce_ctx (env k)) req m tmo (env k)
           in if oc_Err oc = None then [oc] else oc # seq_loop tmo req env (Suc k) ms)"

definition sequential_Run ::
    "duration \<Rightarrow> ctx option \<Rightarrow> Request option \<Rightarrow> Model option list \<Rightarrow> (nat \<Rightarrow> call_env) \<Rightarrow>
     go_error + Outcome list" where
  "sequential_Run tmo c r models env =
     (case ValidateRunInputs c r models of
        Some e \<Rightarrow> Inl e
      | None \<Rightarrow> Inr (seq_loop tmo (the r) env 0 (map the models)))"

lemma seq_loop_length: "length (seq_loop tmo req env k ms) \<le> length ms"
  by (induction ms arbitrary: k) (auto simp: Let_def)

lemma seq_loop_nth:
  "i < length (seq_loop tmo req env k ms) \<Longrightarrow>
   seq_loop tmo req env k ms ! i =
     CallOne (ce_ctx (env (k + i))) req (ms ! i) tmo (env (k + i))"
proof (induction ms arbitrary: k i)
  case Nil
  then show ?case by simp
next
  case (Cons m ms)
  show ?case
  proof (cases i)
    case 0
    with Cons.prems show ?thesis by (auto simp: Let_def split: if_splits)
  next
    case (Suc j)
    with Cons.prems Cons.IH [of j "Suc k"] show ?thesis
      by (auto simp: Let_def split: if_splits)
  qed
qed

text \<open>Only the last call of a sequential run can have succeeded.\<close>

lemma seq_loop_fail_before_last:
  "Suc i < length (seq_loop tmo req env k ms) \<Longrightarrow> oc_Err (seq_loop tmo req env k ms ! i) \<noteq> None"
proof (induction ms arbitrary: k i)
  case Nil
  then show ?case by simp
next
  case (Cons m ms)
  then show ?case
    by (cases i) (auto simp: Let_def split: if_splits)
qed

lemma seq_loop_stops:
  assumes "length (seq_loop tmo req env k ms) < length ms"
  shows "(seq_loop tmo req env k ms \<noteq> [] \<and> oc_Err (last (seq_loop tmo req env k ms)) = None) \<or>
     ce_before (env (k + length (seq_loop tmo req env k ms))) \<noteq> None"
  using assms
proof (induction ms arbitrary: k)
  case Nil
  then show ?case by simp
next
  case (Cons m ms)
  let ?rest = "seq_loop tmo req env (Suc k) ms"
  let ?oc = "CallOne (ce_ctx (env k)) req m tmo (env k)"
  consider "ce_before (env k) \<noteq> None"
    | "ce_before (env k) = None" "oc_Err ?oc = None"
    | "ce_before (env k) = None" "oc_Err ?oc \<noteq> None" by blast
  then show ?case
  proof cases
    case 3
    then have eq: "seq_loop tmo req env k (m # ms) = ?oc # ?rest" by (auto simp: Let_def)
    with Cons.prems have "length ?rest < length ms" by simp
    from Cons.IH [OF this] eq show ?thesis by auto
  qed (auto simp: Let_def)
qed

section \<open>What a policy may assume of a dispatch\<close>

text \<open>An outcome that one call to the model produced.\<close>

definition called_by :: "duration \<Rightarrow> Request \<Rightarrow> Model \<Rightarrow> Outcome \<Rightarrow> bool" where
  "called_by tmo req m oc \<longleftrightarrow> (\<exists>c env. oc = CallOne c req m tmo env)"

text \<open>
  The interface \<open>brain.Coordinator\<close>: whatever the dispatch shape, the outcomes are results of
  calls to a prefix of the given models, in their order.
\<close>

locale dispatcher =
  fixes dispatch :: "Request \<Rightarrow> Model list \<Rightarrow> Outcome list \<Rightarrow> bool"
    and tmo :: duration
  assumes dispatch_length: "dispatch req ms ocs \<Longrightarrow> length ocs \<le> length ms"
    and dispatch_called:
      "dispatch req ms ocs \<Longrightarrow> i < length ocs \<Longrightarrow> called_by tmo req (ms ! i) (ocs ! i)"
begin

lemma outcome_of_given_model:
  assumes "dispatch req ms ocs" and "oc \<in> set ocs"
  shows "\<exists>m\<in>set ms. called_by tmo req m oc"
proof -
  from assms(2) obtain i where i: "i < length ocs" "oc = ocs ! i"
    by (auto simp: in_set_conv_nth)
  with dispatch_length [OF assms(1)] have "ms ! i \<in> set ms" by simp
  with dispatch_called [OF assms(1) i(1)] i(2) show ?thesis by blast
qed

lemma usable_of_given_model:
  assumes "dispatch req ms ocs" and "oc \<in> set ocs" and "usable oc"
  shows "\<exists>m\<in>set ms. \<exists>c. m_Name m = Returned (oc_Provider oc) \<and>
     m_Generate m c req = Returned (oc_Response oc, None)"
  using outcome_of_given_model [OF assms(1,2)] assms(3) CallOne_usable
  by (fastforce simp: called_by_def)

end

definition fan_dispatch :: "Coordinator \<Rightarrow> Request \<Rightarrow> Model list \<Rightarrow> Outcome list \<Rightarrow> bool" where
  "fan_dispatch co req ms ocs \<longleftrightarrow>
     (\<exists>c env order. complete_order (length ms) order \<and>
        fanout_Run co (Some c) (Some req) (map Some ms) env order = Some (Inr ocs))"

definition seq_dispatch :: "duration \<Rightarrow> Request \<Rightarrow> Model list \<Rightarrow> Outcome list \<Rightarrow> bool" where
  "seq_dispatch tmo req ms ocs \<longleftrightarrow>
     (\<exists>c env. sequential_Run tmo (Some c) (Some req) (map Some ms) env = Inr ocs)"

lemma fanout_Run_Inr:
  assumes "complete_order (length ms) order"
    and "fanout_Run co (Some c) (Some req) (map Some ms) env order = Some (Inr ocs)"
  shows "length ocs = length ms" and
    "i < length ms \<Longrightarrow> \<exists>b. ocs ! i = slot_of co req ms env i b \<and> (b \<longrightarrow> cancelOnFirstUsableSuccess co)"
proof -
  from assms(2) have v: "ValidateRunInputs (Some c) (Some req) (map Some ms) = None"
    by (auto simp: fanout_Run_def Let_def split: option.splits if_splits)
  have "fanout_Run co (Some c) (Some req) (map Some ms) env order =
      Some (Inr (map the (fs_slots (fan_exec co req ms env order))))"
    using fanout_Run_valid [OF v, of order co env] assms(1) by (simp add: comp_def)
  with assms(2) have ocs: "ocs = map the (fs_slots (fan_exec co req ms env order))" by simp
  then show "length ocs = length ms" by (simp add: fan_exec_def fan_init_def)
  show "\<exists>b. ocs ! i = slot_of co req ms env i b \<and> (b \<longrightarrow> cancelOnFirstUsableSuccess co)"
    if "i < length ms"
    using fan_exec_slot [OF assms(1) that, of co req env] ocs that
    by (auto simp: fan_exec_def fan_init_def)
qed

interpretation fan: dispatcher "fan_dispatch co" "perModelTimeout co" for co
proof
  fix req ms ocs
  assume "fan_dispatch co req ms ocs"
  then obtain c env order where o: "complete_order (length ms) order"
    and r: "fanout_Run co (Some c) (Some req) (map Some ms) env order = Some (Inr ocs)"
    by (auto simp: fan_dispatch_def)
  note shape = fanout_Run_Inr [OF o r]
  show "length ocs \<le> length ms" using shape(1) by simp
  show "called_by (perModelTimeout co) req (ms ! i) (ocs ! i)" if "i < length ocs" for i
    using shape(2) [of i] that shape(1) by (fastforce simp: called_by_def slot_of_def)
qed

interpretation seq: dispatcher "seq_dispatch tmo" tmo for tmo
proof
  fix req ms ocs
  assume "seq_dispatch tmo req ms ocs"
  then obtain c env where
    r: "sequential_Run tmo (Some c) (Some req) (map Some ms) env = Inr ocs"
    by (auto simp: seq_dispatch_def)
  then have ocs: "ocs = seq_loop tmo req env 0 ms"
    by (auto simp: sequential_Run_def comp_def split: option.splits)
  show "length ocs \<le> length ms" unfolding ocs by (rule seq_loop_length)
  show "called_by tmo req (ms ! i) (ocs ! i)" if "i < length ocs" for i
    using seq_loop_nth [of i tmo req env 0 ms] that
    unfolding ocs called_by_def by auto
qed

section \<open>Properties of the coordinators\<close>

text \<open>Concrete data for the witnesses: a request, a healthy context, an adapter that answers
  unless its context is done, and one that always fails.\<close>

definition sample_message :: "string \<Rightarrow> Message" where
  "sample_message t = \<lparr>msg_Role = RoleUser, msg_Content = t, msg_ToolCalls = [],
     msg_ToolName = '''', msg_ToolCallID = ''''\<rparr>"

definition sample_request :: Request where
  "sample_request = \<lparr>req_Model = ''llama'', req_Messages = [sample_message ''hi'']\<rparr>"

definition sample_ctx :: ctx where
  "sample_ctx = \<lparr>ctx_Err = None, ctx_Deadline = None\<rparr>"

definition sample_env :: "nat \<Rightarrow> call_env" where
  "sample_env k = \<lparr>ce_before = None, ce_ctx = sample_ctx, ce_wall = 1, ce_start = 1, ce_end = 6,
     ce_sees_cancel = True\<rparr>"

definition sample_response :: "string \<Rightarrow> string \<Rightarrow> Response" where
  "sample_response p t = \<lparr>resp_Message = (sample_message t)\<lparr>msg_Role := RoleAssistant\<rparr>,
     resp_Provider = p, resp_ModelName = ''llama''\<rparr>"

definition answering :: "string \<Rightarrow> string \<Rightarrow> Model" where
  "answering p t = \<lparr>m_Name = Returned p, m_Generate = (\<lambda>c req. Returned
     (case ctx_Err c of None \<Rightarrow> (Some (sample_response p t), None) | Some e \<Rightarrow> (None, Some e)))\<rparr>"

definition failing :: "string \<Rightarrow> go_error \<Rightarrow> Model" where
  "failing p e = \<lparr>m_Name = Returned p, m_Generate = (\<lambda>c req. Returned (None, Some e))\<rparr>"

lemmas sample_defs = sample_message_def sample_request_def sample_ctx_def sample_env_def
  sample_response_def answering_def failing_def

lemma sample_valid_models:
  "models \<noteq> [] \<Longrightarrow> None \<notin> set models \<Longrightarrow>
   ValidateRunInputs (Some sample_ctx) (Some sample_request) models = None"
  by (auto simp: ValidateRunInputs_def ValidateRequest_def validate_message_def sample_defs)

lemma sample_valid:
  "ms \<noteq> [] \<Longrightarrow> ValidateRunInputs (Some sample_ctx) (Some sample_request) (map Some ms) = None"
  by (rule sample_valid_models) auto

lemma complete_order_2 [simp]: "complete_order 2 [Suc 0, 0]" "complete_order (Suc (Suc 0)) [Suc 0, 0]"
  by (auto simp: complete_order_def)

lemma fanout_returns:
  assumes "ValidateRunInputs (Some c) (Some req) (map Some ms) = None"
    and "complete_order (length ms) order"
  shows "fanout_Run co (Some c) (Some req) (map Some ms) env order =
    Some (Inr (map the (fs_slots (fan_exec co req ms env order))))"
  using fanout_Run_valid [OF assms(1), of order co env] assms(2) by (simp add: comp_def)

text \<open>
  Wait-all fan-out. On valid inputs and without cancel-on-first-success, \<open>Coordinator.Run\<close>
  returns, whatever the order in which its goroutines finish, exactly one outcome per model in
  the order of the input slice, each the result of one call to that model.
\<close>

theorem fanout_wait_all:
  assumes "ValidateRunInputs (Some c) (Some req) (map Some ms) = None"
    and "complete_order (length ms) order"
    and "\<not> cancelOnFirstUsableSuccess co"
  shows "fanout_Run co (Some c) (Some req) (map Some ms) env order =
    Some (Inr (map (\<lambda>i. CallOne (ce_ctx (env i)) req (ms ! i) (perModelTimeout co) (env i))
                 [0..<length ms]))"
proof -
  let ?ocs = "map the (fs_slots (fan_exec co req ms env order))"
  note run = fanout_returns [OF assms(1,2), of co env]
  have "?ocs = map (\<lambda>i. CallOne (ce_ctx (env i)) req (ms ! i) (perModelTimeout co) (env i)) [0..<length ms]"
  proof (rule nth_equalityI)
    show "length ?ocs = length (map (\<lambda>i. CallOne (ce_ctx (env i)) req (ms ! i) (perModelTimeout co) (env i))
        [0..<length ms])"
      using fanout_Run_Inr(1) [OF assms(2) run] by simp
    show "?ocs ! i = map (\<lambda>i. CallOne (ce_ctx (env i)) req (ms ! i) (perModelTimeout co) (env i))
        [0..<length ms] ! i" if "i < length ?ocs" for i
      using fanout_Run_Inr [OF assms(2) run] that assms(3) by (fastforce simp: slot_of_def)
  qed
  with run show ?thesis by simp
qed

theorem fanout_wait_all_witness:
  "fanout_Run New_Coordinator (Some sample_ctx) (Some sample_request)
     (map Some [failing ''groq'' ErrProviderUnavailable, answering ''ollama'' ''hello'']) sample_env [1, 0] =
   Some (Inr [\<lparr>oc_Provider = ''groq'', oc_Response = None, oc_Err = Some ErrProviderUnavailable,
                oc_Latency = 5\<rparr>,
              \<lparr>oc_Provider = ''ollama'', oc_Response = Some (sample_response ''ollama'' ''hello''),
                oc_Err = None, oc_Latency = 5\<rparr>])"
proof -
  let ?ms = "[failing ''groq'' ErrProviderUnavailable, answering ''ollama'' ''hello'']"
  have "fanout_Run New_Coordinator (Some sample_ctx) (Some sample_request) (map Some ?ms) sample_env [1, 0] =
    Some (Inr (map (\<lambda>i. CallOne (ce_ctx (sample_env i)) sample_request (?ms ! i)
      (perModelTimeout New_Coordinator) (sample_env i)) [0..<length ?ms]))"
    by (rule fanout_wait_all [OF sample_valid]) (simp_all add: New_Coordinator_def)
  then show ?thesis
    by (simp add: CallOne_def New_Coordinator_def answering_def failing_def sample_env_def sample_ctx_def)
qed

subsection \<open>Cancelling on the first success\<close>

text \<open>The shared state says cancelled exactly when the option is on and some slot holds a
  success.\<close>

definition cancel_inv :: "Coordinator \<Rightarrow> fan_state \<Rightarrow> bool" where
  "cancel_inv co s \<longleftrightarrow> (fs_cancelled s \<longleftrightarrow>
     cancelOnFirstUsableSuccess co \<and> (\<exists>oc. Some oc \<in> set (fs_slots s) \<and> oc_Err oc = None))"

lemma callOne_cancel_inv:
  assumes "cancel_inv co s" and "i < length (fs_slots s)" and "fs_slots s ! i = None"
  shows "cancel_inv co (callOne co req ms env i s)"
  using assms by (auto simp: cancel_inv_def callOne_def Let_def fill_slot)

lemma fold_cancel_inv:
  assumes "cancel_inv co s" and "distinct order" and "set order \<subseteq> {0..<length (fs_slots s)}"
    and "\<And>i. i \<in> set order \<Longrightarrow> fs_slots s ! i = None"
  shows "cancel_inv co (fold (callOne co req ms env) order s)"
  using assms
proof (induction order arbitrary: s)
  case Nil
  then show ?case by simp
next
  case (Cons k order)
  let ?s = "callOne co req ms env k s"
  have "cancel_inv co ?s"
    using Cons.prems by (intro callOne_cancel_inv) auto
  moreover have "fs_slots ?s ! i = None" if "i \<in> set order" for i
    using Cons.prems that by (auto simp: callOne_def Let_def nth_list_update)
  ultimately have "cancel_inv co (fold (callOne co req ms env) order ?s)"
    using Cons.prems by (intro Cons.IH) auto
  then show ?case by simp
qed

lemma cancelled_mono:
  "fs_cancelled s \<Longrightarrow> fs_cancelled (fold (callOne co req ms env) order s)"
  by (induction order arbitrary: s) (auto simp: callOne_def Let_def)

text \<open>If the run ends without a cancellation, no call saw one.\<close>

lemma fold_uncancelled_slot:
  assumes "\<not> fs_cancelled (fold (callOne co req ms env) order s)"
    and "i \<in> set order" and "distinct order" and "set order \<subseteq> {0..<length (fs_slots s)}"
  shows "fs_slots (fold (callOne co req ms env) order s) ! i = Some (slot_of co req ms env i False)"
  using assms
proof (induction order arbitrary: s)
  case Nil
  then show ?case by simp
next
  case (Cons k order)
  let ?s = "callOne co req ms env k s"
  have nc: "\<not> fs_cancelled s" using Cons.prems(1) cancelled_mono [of s co req ms env "k # order"] by auto
  show ?case
  proof (cases "i = k")
    case True
    with Cons.prems have "fs_slots (fold (callOne co req ms env) order ?s) ! i = fs_slots ?s ! i"
      by (intro fold_callOne_other) simp
    with True Cons.prems nc show ?thesis by (auto simp: callOne_slot)
  next
    case False
    with Cons.prems Cons.IH [of ?s] show ?thesis by auto
  qed
qed

text \<open>
  Cancel-on-first-success never loses the answer. If some model of a valid run would succeed
  when called with the caller's context, then for every finishing order, whichever calls the
  cancellation reaches, and whether the option is on or off, the run returns one outcome per
  model and at least one of them is a success. (A cancelled sibling may fail, but the call that
  cancelled it succeeded.)
\<close>

theorem fanout_cancel_keeps_an_answer:
  assumes "ValidateRunInputs (Some c) (Some req) (map Some ms) = None"
    and "complete_order (length ms) order"
    and "i < length ms"
    and "oc_Err (CallOne (ce_ctx (env i)) req (ms ! i) (perModelTimeout co) (env i)) = None"
  shows "\<exists>ocs. fanout_Run co (Some c) (Some req) (map Some ms) env order = Some (Inr ocs) \<and>
     length ocs = length ms \<and> (\<exists>oc\<in>set ocs. oc_Err oc = None)"
proof -
  let ?s = "fan_exec co req ms env order"
  let ?ocs = "map the (fs_slots ?s)"
  note run = fanout_returns [OF assms(1,2), of co env]
  have ord: "distinct order" "set order \<subseteq> {0..<length (fs_slots (fan_init ms))}" "i \<in> set order"
    using assms(2,3) by (auto simp: complete_order_def fan_init_def)
  have inv: "cancel_inv co ?s"
    unfolding fan_exec_def using ord
    by (intro fold_cancel_inv) (auto simp: cancel_inv_def fan_init_def)
  have "\<exists>oc\<in>set ?ocs. oc_Err oc = None"
  proof (cases "fs_cancelled ?s")
    case True
    with inv obtain oc where "Some oc \<in> set (fs_slots ?s)" "oc_Err oc = None"
      by (auto simp: cancel_inv_def)
    then show ?thesis by force
  next
    case False
    then have "fs_slots ?s ! i = Some (slot_of co req ms env i False)"
      unfolding fan_exec_def using ord by (intro fold_uncancelled_slot) auto
    moreover have "i < length (fs_slots ?s)" using assms(3) by (simp add: fan_exec_def fan_init_def)
    ultimately have "slot_of co req ms env i False \<in> set ?ocs"
      by (metis length_map nth_map nth_mem option.sel)
    with assms(4) show ?thesis by (auto simp: slot_of_def)
  qed
  with run fanout_Run_Inr(1) [OF assms(2) run] show ?thesis by blast
qed

theorem fanout_cancel_keeps_an_answer_witness:
  "\<exists>ocs. fanout_Run (WithCancelOnFirstUsableSuccess New_Coordinator) (Some sample_ctx) (Some sample_request)
     (map Some [answering ''groq'' ''slow'', answering ''ollama'' ''hello'']) sample_env [1, 0] = Some (Inr ocs) \<and>
     length ocs = 2 \<and> (\<exists>oc\<in>set ocs. oc_Err oc = None)"
proof -
  let ?ms = "[answering ''groq'' ''slow'', answering ''ollama'' ''hello'']"
  have "\<exists>ocs. fanout_Run (WithCancelOnFirstUsableSuccess New_Coordinator) (Some sample_ctx)
      (Some sample_request) (map Some ?ms) sample_env [1, 0] = Some (Inr ocs) \<and>
      length ocs = length ?ms \<and> (\<exists>oc\<in>set ocs. oc_Err oc = None)"
    by (rule fanout_cancel_keeps_an_answer [OF sample_valid, where i = 1])
      (simp_all add: CallOne_def sample_env_def sample_ctx_def answering_def Let_def
        WithCancelOnFirstUsableSuccess_def New_Coordinator_def)
  then show ?thesis by (simp add: numeral_2_eq_2)
qed

subsection \<open>Sequential fail-over\<close>

text \<open>
  Serial fail-over. On valid inputs \<open>sequential.Coordinator.Run\<close> calls a prefix of the
  models in their order; every outcome before the last one is a failure; and it leaves models
  uncalled only because the last call succeeded or because the caller's context was done before
  the next one.
\<close>

theorem sequential_stops_at_first_success:
  assumes "ValidateRunInputs (Some c) (Some req) (map Some ms) = None"
  shows "\<exists>ocs. sequential_Run tmo (Some c) (Some req) (map Some ms) env = Inr ocs \<and>
     length ocs \<le> length ms \<and>
     (\<forall>i<length ocs. ocs ! i = CallOne (ce_ctx (env i)) req (ms ! i) tmo (env i)) \<and>
     (\<forall>i. Suc i < length ocs \<longrightarrow> oc_Err (ocs ! i) \<noteq> None) \<and>
     (length ocs < length ms \<longrightarrow>
        (ocs \<noteq> [] \<and> oc_Err (last ocs) = None) \<or> ce_before (env (length ocs)) \<noteq> None)"
proof (intro exI conjI allI impI)
  let ?ocs = "seq_loop tmo req env 0 ms"
  show "sequential_Run tmo (Some c) (Some req) (map Some ms) env = Inr ?ocs"
    using assms by (simp add: sequential_Run_def comp_def)
  show "length ?ocs \<le> length ms" by (rule seq_loop_length)
  show "?ocs ! i = CallOne (ce_ctx (env i)) req (ms ! i) tmo (env i)" if "i < length ?ocs" for i
    using seq_loop_nth [OF that] by simp
  show "oc_Err (?ocs ! i) \<noteq> None" if "Suc i < length ?ocs" for i
    using that by (rule seq_loop_fail_before_last)
  show "(?ocs \<noteq> [] \<and> oc_Err (last ?ocs) = None) \<or> ce_before (env (length ?ocs)) \<noteq> None"
    if "length ?ocs < length ms"
    using seq_loop_stops [OF that] by simp
qed

theorem sequential_stops_at_first_success_witness:
  "\<exists>ocs. sequential_Run 0 (Some sample_ctx) (Some sample_request)
     (map Some [failing ''groq'' ErrProviderUnavailable, answering ''ollama'' ''hello'', answering ''b'' ''x''])
     sample_env = Inr ocs \<and> length ocs \<le> 3"
  using sequential_stops_at_first_success [OF sample_valid,
    of "[failing ''groq'' ErrProviderUnavailable, answering ''ollama'' ''hello'', answering ''b'' ''x'']"
      0 sample_env]
  by (auto simp: numeral_3_eq_3)

text \<open>
  A provider that returns neither a response nor an error is recorded as an outcome with
  both fields nil, which the documentation of \<open>Outcome\<close> rules out, and
  \<open>sequential.Coordinator.Run\<close> then stops at it: the remaining models are not tried
  although no usable answer exists.
\<close>

theorem sequential_stops_at_empty_success:
  "let silent = \<lparr>m_Name = Returned ''silent'', m_Generate = (\<lambda>c r. Returned (None, None))\<rparr>
   in \<exists>oc. sequential_Run 0 (Some sample_ctx) (Some sample_request)
        (map Some [silent, answering ''ollama'' ''hello'']) sample_env = Inr [oc] \<and>
      oc_Response oc = None \<and> oc_Err oc = None \<and> \<not> usable oc"
  by (simp add: Let_def sequential_Run_def sample_valid_models CallOne_def usable_def sample_env_def)

subsection \<open>Requests\<close>

text \<open>
  \<open>ValidateRequest\<close> accepts exactly the requests whose model name is not empty, which
  have at least one message, and whose messages are all well formed for their role: system and
  user turns carry text and no tool fields, an assistant turn carries text or tool calls and no
  tool-result attribution, a tool turn names its tool, carries text and no tool calls.
\<close>

theorem ValidateRequest_iff:
  "ValidateRequest r = None \<longleftrightarrow>
   (\<exists>req. r = Some req \<and> req_Model req \<noteq> '''' \<and> req_Messages req \<noteq> [] \<and>
      list_all well_formed_message (req_Messages req))"
  by (auto simp: ValidateRequest_def validate_messages_iff split: option.splits)

end
