(* ===== verification/Retry.thy ===== *)
theory Retry
  imports Model_Dispatch
begin

text \<open>
  The retry decorator (\<open>internal/model/retry/retry.go\<close>): the back-off step computed on
  64-bit integers with the shift the source writes, the clamp of the \<open>Retry-After\<close> hint,
  the classification of an error and the retry loop.

  What the environment decides at each attempt is the record \<open>attempt_env\<close>: the parent
  context at the call and after it, the wall clock, the time left until the parent's deadline,
  what \<open>Clock.Sleep\<close> returned, and the jitter. The jitter source, a draw in [0,1) that is
  multiplied with the step in floating point and truncated, is the function \<open>ae_jitter\<close> from
  the step to the wait.
\<close>

section \<open>Back-off\<close>

definition BackoffBase :: "64 word" where
  "BackoffBase = 200 * word_of_int Millisecond"

definition MaxBackoffPerWait :: "64 word" where
  "MaxBackoffPerWait = 2 * word_of_int Second"

definition RetryAfterCap :: duration where
  "RetryAfterCap = 30 * Second"

text \<open>The step before jitter: \<open>BackoffBase << attempt\<close> and the clamp, on signed 64-bit
  values.\<close>

definition backoff_step :: "nat \<Rightarrow> 64 word" where
  "backoff_step attempt =
     (let step = push_bit attempt BackoffBase
      in if step \<le>s 0 \<or> MaxBackoffPerWait <s step then MaxBackoffPerWait else step)"

definition backoff :: "(duration \<Rightarrow> duration) \<Rightarrow> nat \<Rightarrow> duration" where
  "backoff jitter attempt = jitter (sint (backoff_step attempt))"

definition cappedRetryAfter :: "duration \<Rightarrow> duration" where
  "cappedRetryAfter ra = (if ra \<le> 0 then 0 else if ra > RetryAfterCap then RetryAfterCap else ra)"

definition maxDuration :: "duration \<Rightarrow> duration \<Rightarrow> duration" where
  "maxDuration a b = (if a > b then a else b)"

definition waitFor :: "(duration \<Rightarrow> duration) \<Rightarrow> go_error \<Rightarrow> nat \<Rightarrow> duration \<times> bool" where
  "waitFor jitter err attempt =
     (case errors_As_RateLimit err of
        Some (p, ra) \<Rightarrow> (maxDuration (backoff jitter attempt) (cappedRetryAfter ra), True)
      | None \<Rightarrow>
          (if errors_Is err ErrProviderUnavailable then (backoff jitter attempt, True) else (0, False)))"

text \<open>The shift in the unbounded integers, and what the 64-bit one makes of it. The base is
  \<open>2^9 * 5^8\<close>: up to 21 doublings fit, and from the 22nd on every value is a multiple of
  \<open>2^31\<close>, so a wrapped one is never in the range the clamp lets through.\<close>

lemma backoff_base_value: "BackoffBase = 200000000" "MaxBackoffPerWait = 2000000000"
  by (simp_all add: BackoffBase_def MaxBackoffPerWait_def)

lemma sint_64: "sint (w :: 64 word) = (if uint w < 2 ^ 63 then uint w else uint w - 2 ^ 64)"
proof -
  have b: "0 \<le> uint w" "uint w < 2 ^ 64" using uint_lt2p [of w] by simp_all
  have "sint w = (uint w + 2 ^ 63) mod 2 ^ 64 - 2 ^ 63"
    by (simp add: sint_uint signed_take_bit_eq_take_bit_shift take_bit_eq_mod)
  also have "\<dots> = (if uint w < 2 ^ 63 then uint w else uint w - 2 ^ 64)"
  proof (cases "uint w < 2 ^ 63")
    case True
    with b show ?thesis by (simp add: mod_pos_pos_trivial)
  next
    case False
    then have "(uint w + 2 ^ 63) mod 2 ^ 64 = (uint w + 2 ^ 63 - 2 ^ 64) mod 2 ^ 64"
      by (simp only: minus_mod_self2)
    also have "\<dots> = uint w + 2 ^ 63 - 2 ^ 64"
      using b False by (intro mod_pos_pos_trivial) auto
    finally show ?thesis using False by simp
  qed
  finally show ?thesis .
qed

lemma uint_shifted_base: "uint (push_bit n BackoffBase) = (200000000 * 2 ^ n) mod 2 ^ 64"
proof -
  have "push_bit n BackoffBase = word_of_int (200000000 * 2 ^ n)"
    by (simp add: backoff_base_value push_bit_eq_mult)
  then have "uint (push_bit n BackoffBase) = uint (word_of_int (200000000 * 2 ^ n) :: 64 word)"
    by (simp only:)
  also have "\<dots> = (200000000 * 2 ^ n) mod 2 ^ 64" by (simp only: uint_word_of_int) simp
  finally show ?thesis .
qed

lemma backoff_step_small: "n < 22 \<Longrightarrow> sint (backoff_step n) = min 2000000000 (200000000 * 2 ^ n)"
proof -
  assume n: "n < 22"
  have le: "(2::int) ^ n \<le> 2 ^ 21" using n by (intro power_increasing) auto
  have pos: "(0::int) < 2 ^ n" by simp
  have u: "uint (push_bit n BackoffBase) = 200000000 * 2 ^ n"
    unfolding uint_shifted_base using le pos by (intro mod_pos_pos_trivial) auto
  then have s: "sint (push_bit n BackoffBase) = 200000000 * 2 ^ n"
    using le by (simp add: sint_64)
  show ?thesis
    using s pos by (auto simp: backoff_step_def Let_def word_sle_eq word_sless_alt backoff_base_value min_def)
qed

lemma backoff_step_large: "22 \<le> n \<Longrightarrow> backoff_step n = MaxBackoffPerWait"
proof -
  assume n: "22 \<le> n"
  let ?v = "uint (push_bit n BackoffBase)"
  have "(200000000::int) * 2 ^ n = 2 ^ 31 * (390625 * 2 ^ (n - 22))"
    using power_add [of "2::int" 22 "n - 22"] n by simp
  then have "2 ^ 31 dvd (200000000 * 2 ^ n :: int)" by simp
  moreover have "(2::int) ^ 31 dvd 2 ^ 64" by (simp add: le_imp_power_dvd)
  ultimately have dvd: "2 ^ 31 dvd ?v"
    unfolding uint_shifted_base by (rule dvd_mod)
  have "?v = 0 \<or> 2 ^ 31 \<le> ?v" using zdvd_imp_le [OF dvd] uint_ge_0 [of "push_bit n BackoffBase"] by linarith
  moreover have "?v < 2 ^ 64" using uint_lt2p [of "push_bit n BackoffBase"] by simp
  ultimately have "sint (push_bit n BackoffBase) \<le> 0 \<or> 2000000000 < sint (push_bit n BackoffBase)"
    by (auto simp: sint_64)
  then show ?thesis
    by (auto simp: backoff_step_def Let_def word_sle_eq word_sless_alt backoff_base_value)
qed

section \<open>The retry loop\<close>

record Config =
  PerAttempt :: duration
  MaxRetries :: int

record attempt_env =
  ae_ctx :: ctx
  ae_wall :: time
  ae_after :: "go_error option"
  ae_until :: "duration option"
  ae_sleep :: "go_error option"
  ae_jitter :: "duration \<Rightarrow> duration"

text \<open>What an observer of the loop sees: the calls, the metrics and the waits.\<close>

datatype retry_event =
    Attempt ctx
  | IncProviderRetryBudgetExhausted
  | IncProviderRetry
  | Sleep duration

type_synonym reply = "(Response option \<times> go_error option) go_call"

definition attempt_ctx :: "Config \<Rightarrow> attempt_env \<Rightarrow> ctx" where
  "attempt_ctx cfg e =
     (if PerAttempt cfg \<le> 0 then ae_ctx e else WithTimeout (ae_ctx e) (ae_wall e) (PerAttempt cfg))"

definition attemptCall ::
    "Config \<Rightarrow> attempt_env \<Rightarrow> (ctx \<Rightarrow> reply) \<Rightarrow> retry_event list \<times> reply" where
  "attemptCall cfg e call = ([Attempt (attempt_ctx cfg e)], call (attempt_ctx cfg e))"

text \<open>\<open>retryLoop\<close> from attempt number \<open>attempt\<close> on. \<open>call attempt\<close> is the
  wrapped call as it behaves at that attempt; a panic of the wrapped model leaves the loop.\<close>

function retryLoop ::
    "Config \<Rightarrow> (nat \<Rightarrow> ctx \<Rightarrow> reply) \<Rightarrow> (nat \<Rightarrow> attempt_env) \<Rightarrow> nat \<Rightarrow> retry_event list \<times> reply" where
  "retryLoop cfg call env attempt =
     (let e = env attempt; (ev, r) = attemptCall cfg e (call attempt)
      in case r of
           Panicked v \<Rightarrow> (ev, Panicked v)
         | Returned (resp, None) \<Rightarrow> (ev, Returned (resp, None))
         | Returned (resp, Some err) \<Rightarrow>
             (if ae_after e \<noteq> None then (ev, Returned (None, Some err))
              else if errors_Is err context_DeadlineExceeded then (ev, Returned (None, Some err))
              else (let (wait, retryable) = waitFor (ae_jitter e) err attempt
                    in if \<not> retryable then (ev, Returned (None, Some err))
                       else if int attempt \<ge> MaxRetries cfg
                         then (ev @ [IncProviderRetryBudgetExhausted], Returned (None, Some err))
                       else if (case ae_until e of None \<Rightarrow> False | Some u \<Rightarrow> wait > u)
                         then (ev @ [IncProviderRetryBudgetExhausted], Returned (None, Some err))
                       else if ae_sleep e \<noteq> None
                         then (ev @ [IncProviderRetry, Sleep wait], Returned (None, Some err))
                       else (let (ev', r') = retryLoop cfg call env (Suc attempt)
                             in (ev @ [IncProviderRetry, Sleep wait] @ ev', r')))))"
  by pat_completeness auto

termination
  by (relation "measure (\<lambda>(cfg, call, env, attempt). nat (MaxRetries cfg - int attempt))") auto

declare retryLoop.simps [simp del]

text \<open>The decorator as a model: the wrapped name, and \<open>Generate\<close> through the loop.
  \<open>inner k\<close> is the wrapped adapter as it behaves at its \<open>k\<close>-th call.\<close>

definition retry_New :: "(nat \<Rightarrow> Model) \<Rightarrow> Config \<Rightarrow> (nat \<Rightarrow> attempt_env) \<Rightarrow> Model" where
  "retry_New inner cfg env =
     \<lparr>m_Name = m_Name (inner 0),
      m_Generate = (\<lambda>c req. snd (retryLoop cfg (\<lambda>k c'. m_Generate (inner k) c' req)
         (\<lambda>k. (env k)\<lparr>ae_ctx := c\<rparr>) 0))\<rparr>"

definition attempts :: "retry_event list \<Rightarrow> nat" where
  "attempts evs = length (filter (\<lambda>ev. case ev of Attempt _ \<Rightarrow> True | _ \<Rightarrow> False) evs)"

definition waits :: "retry_event list \<Rightarrow> duration list" where
  "waits evs = List.map_filter (\<lambda>ev. case ev of Sleep d \<Rightarrow> Some d | _ \<Rightarrow> None) evs"

lemma attempts_simps [simp]:
  "attempts [] = 0" "attempts (Attempt c # evs) = Suc (attempts evs)"
  "attempts (IncProviderRetry # evs) = attempts evs" "attempts (Sleep d # evs) = attempts evs"
  "attempts (IncProviderRetryBudgetExhausted # evs) = attempts evs"
  by (simp_all add: attempts_def)

lemma waits_simps [simp]:
  "waits [] = []" "waits (Attempt c # evs) = waits evs" "waits (Sleep d # evs) = d # waits evs"
  "waits (IncProviderRetry # evs) = waits evs"
  "waits (IncProviderRetryBudgetExhausted # evs) = waits evs"
  by (simp_all add: waits_def List.map_filter_def)

text \<open>One unfolding of the loop as a case distinction: it ends after this attempt (with the
  reply of the attempt, its response dropped on an error), or it commits to a retry.\<close>

definition retry_again :: "Config \<Rightarrow> attempt_env \<Rightarrow> nat \<Rightarrow> go_error \<Rightarrow> bool" where
  "retry_again cfg e attempt err \<longleftrightarrow>
     ae_after e = None \<and> \<not> errors_Is err context_DeadlineExceeded \<and>
     snd (waitFor (ae_jitter e) err attempt) \<and> int attempt < MaxRetries cfg \<and>
     (\<forall>u. ae_until e = Some u \<longrightarrow> fst (waitFor (ae_jitter e) err attempt) \<le> u) \<and> ae_sleep e = None"

lemma retryLoop_again:
  assumes "call attempt (attempt_ctx cfg (env attempt)) = Returned (resp, Some err)"
    and "retry_again cfg (env attempt) attempt err"
  shows "retryLoop cfg call env attempt =
    (Attempt (attempt_ctx cfg (env attempt)) # IncProviderRetry #
       Sleep (fst (waitFor (ae_jitter (env attempt)) err attempt)) #
       fst (retryLoop cfg call env (Suc attempt)), snd (retryLoop cfg call env (Suc attempt)))"
  using assms
  by (subst retryLoop.simps)
    (auto simp: Let_def attemptCall_def retry_again_def split: prod.splits option.splits)

definition drop_response :: "reply \<Rightarrow> reply" where
  "drop_response r = (case r of Returned (resp, Some err) \<Rightarrow> Returned (None, Some err) | _ \<Rightarrow> r)"

definition will_retry ::
    "Config \<Rightarrow> (nat \<Rightarrow> ctx \<Rightarrow> reply) \<Rightarrow> (nat \<Rightarrow> attempt_env) \<Rightarrow> nat \<Rightarrow> bool" where
  "will_retry cfg call env k \<longleftrightarrow>
     (\<exists>resp err. call k (attempt_ctx cfg (env k)) = Returned (resp, Some err) \<and>
        retry_again cfg (env k) k err)"

lemma retryLoop_stop_events:
  assumes "\<not> will_retry cfg call env attempt"
  shows "\<exists>evs. retryLoop cfg call env attempt =
      (Attempt (attempt_ctx cfg (env attempt)) # evs,
       drop_response (call attempt (attempt_ctx cfg (env attempt)))) \<and>
    (evs = [] \<or> evs = [IncProviderRetryBudgetExhausted] \<or>
     (\<exists>err. evs = [IncProviderRetry, Sleep (fst (waitFor (ae_jitter (env attempt)) err attempt))] \<and>
        int attempt < MaxRetries cfg))"
proof (cases "call attempt (attempt_ctx cfg (env attempt))")
  case (Panicked v)
  then show ?thesis
    by (subst retryLoop.simps) (simp add: Let_def attemptCall_def drop_response_def)
next
  case (Returned reply)
  obtain resp err where reply: "reply = (resp, err)" by (cases reply)
  show ?thesis
  proof (cases err)
    case None
    with Returned reply show ?thesis
      by (subst retryLoop.simps) (simp add: Let_def attemptCall_def drop_response_def)
  next
    case (Some e)
    obtain w b where w: "waitFor (ae_jitter (env attempt)) e attempt = (w, b)" by fastforce
    have "\<exists>err. w = fst (waitFor (ae_jitter (env attempt)) err attempt)" using w by (metis fst_conv)
    moreover    have "\<not> retry_again cfg (env attempt) attempt e"
      using assms Returned reply Some by (auto simp: will_retry_def)
    ultimately show ?thesis using Returned reply Some w
      by (subst retryLoop.simps)
        (cases "ae_until (env attempt)", auto simp: Let_def attemptCall_def drop_response_def retry_again_def)
  qed
qed

lemma retryLoop_stop:
  assumes "\<not> will_retry cfg call env attempt"
  shows "attempts (fst (retryLoop cfg call env attempt)) = 1"
    and "snd (retryLoop cfg call env attempt) =
      drop_response (call attempt (attempt_ctx cfg (env attempt)))"
    and "waits (fst (retryLoop cfg call env attempt)) = [] \<or>
      (\<exists>err. waits (fst (retryLoop cfg call env attempt)) =
         [fst (waitFor (ae_jitter (env attempt)) err attempt)] \<and> int attempt < MaxRetries cfg)"
  using retryLoop_stop_events [OF assms] by auto

lemma retryLoop_shape:
  "1 \<le> attempts (fst (retryLoop cfg call env a)) \<and>
   int (attempts (fst (retryLoop cfg call env a))) \<le> max 1 (MaxRetries cfg - int a + 1) \<and>
   snd (retryLoop cfg call env a) =
     drop_response (call (a + attempts (fst (retryLoop cfg call env a)) - 1)
       (attempt_ctx cfg (env (a + attempts (fst (retryLoop cfg call env a)) - 1)))) \<and>
   (\<forall>k. a \<le> k \<and> Suc k < a + attempts (fst (retryLoop cfg call env a)) \<longrightarrow>
      will_retry cfg call env k)"
proof (induction "nat (MaxRetries cfg - int a)" arbitrary: a rule: less_induct)
  case less
  show ?case
  proof (cases "will_retry cfg call env a")
    case False
    then have st: "attempts (fst (retryLoop cfg call env a)) = 1"
      "snd (retryLoop cfg call env a) = drop_response (call a (attempt_ctx cfg (env a)))"
      using retryLoop_stop by auto
    then show ?thesis by auto
  next
    case True
    then obtain resp err where c: "call a (attempt_ctx cfg (env a)) = Returned (resp, Some err)"
      and r: "retry_again cfg (env a) a err" by (auto simp: will_retry_def)
    let ?n = "attempts (fst (retryLoop cfg call env (Suc a)))"
    note again = retryLoop_again [of call a cfg env, OF c r]
    from r have lt: "int a < MaxRetries cfg" by (simp add: retry_again_def)
    then have "nat (MaxRetries cfg - int (Suc a)) < nat (MaxRetries cfg - int a)" by simp
    note ih = less.hyps [OF this]
    have n: "attempts (fst (retryLoop cfg call env a)) = Suc ?n" using again by simp
    have "\<forall>k. a \<le> k \<and> Suc k < a + Suc ?n \<longrightarrow>
      will_retry cfg call env k"
      using ih True by (metis Suc_leI add_Suc add_Suc_right le_neq_implies_less)
    then show ?thesis using ih again lt unfolding n by auto
  qed
qed

text \<open>Every wait is between zero and the cap, provided the jitter stays within its step.\<close>

definition jitter_ok :: "(duration \<Rightarrow> duration) \<Rightarrow> bool" where
  "jitter_ok j \<longleftrightarrow> (\<forall>s>0. 0 \<le> j s \<and> j s < s)"

lemma backoff_step_min: "sint (backoff_step n) = min (2 * Second) (200 * Millisecond * 2 ^ n)"
proof (cases "n < 22")
  case True
  then show ?thesis using backoff_step_small [OF True] by simp
next
  case False
  then have "(2::int) ^ 22 \<le> 2 ^ n" by (intro power_increasing) auto
  with False show ?thesis by (simp add: backoff_step_large backoff_base_value min_def)
qed

lemma backoff_bounds:
  assumes "jitter_ok j"
  shows "0 \<le> backoff j n \<and> backoff j n < min (2 * Second) (200 * Millisecond * 2 ^ n)"
  using assms backoff_step_min [of n] by (simp add: backoff_def jitter_ok_def min_def split: if_splits)

lemma waitFor_bounds:
  assumes "jitter_ok j"
  shows "0 \<le> fst (waitFor j err n) \<and> fst (waitFor j err n) \<le> RetryAfterCap"
  using backoff_bounds [OF assms, of n]
  by (auto simp: waitFor_def maxDuration_def cappedRetryAfter_def RetryAfterCap_def split: option.splits)

lemma retryLoop_waits:
  assumes "\<And>k. jitter_ok (ae_jitter (env k))"
  shows "list_all (\<lambda>d. 0 \<le> d \<and> d \<le> RetryAfterCap) (waits (fst (retryLoop cfg call env a))) \<and>
     length (waits (fst (retryLoop cfg call env a))) \<le> nat (MaxRetries cfg - int a)"
proof (induction "nat (MaxRetries cfg - int a)" arbitrary: a rule: less_induct)
  case less
  note wb = waitFor_bounds [OF assms [of a]]
  show ?case
  proof (cases "will_retry cfg call env a")
    case False
    then have "waits (fst (retryLoop cfg call env a)) = [] \<or>
      (\<exists>err. waits (fst (retryLoop cfg call env a)) =
         [fst (waitFor (ae_jitter (env a)) err a)] \<and> int a < MaxRetries cfg)"
      by (rule retryLoop_stop(3))
    with wb show ?thesis by auto
  next
    case True
    then obtain resp err where c: "call a (attempt_ctx cfg (env a)) = Returned (resp, Some err)"
      and r: "retry_again cfg (env a) a err" by (auto simp: will_retry_def)
    from r have lt: "int a < MaxRetries cfg" by (simp add: retry_again_def)
    then have "nat (MaxRetries cfg - int (Suc a)) < nat (MaxRetries cfg - int a)" by simp
    from less.hyps [OF this] wb [of err a] lt show ?thesis
      by (simp add: retryLoop_again [of call a cfg env, OF c r]) linarith
  qed
qed

section \<open>Properties of the retry decorator\<close>

text \<open>
  The back-off schedule is right for every attempt number, overflow included: the step the
  64-bit shift and the clamp compute is the mathematical \<open>min(cap, base * 2^n)\<close>, also when
  the shift wraps around or drops every bit.
\<close>

theorem backoff_step_is_min:
  "sint (backoff_step n) = min (2 * Second) (200 * Millisecond * 2 ^ n)"
  by (rule backoff_step_min)

text \<open>
  C35: The retry loop always returns, after at least one and at most \<open>MaxRetries + 1\<close> calls
  to the wrapped model. What it returns is the reply of the last call (without the response when
  that reply is an error), and every earlier call failed with an error that may be retried: the
  parent context was alive, the error is no expired deadline and is a rate limit or an
  unavailable provider, and the wait fitted in the parent's remaining time.
\<close>

theorem retryLoop_correct:
  "\<exists>n. attempts (fst (retryLoop cfg call env 0)) = n \<and> 1 \<le> n \<and> int n \<le> max 0 (MaxRetries cfg) + 1 \<and>
    snd (retryLoop cfg call env 0) = drop_response (call (n - 1) (attempt_ctx cfg (env (n - 1)))) \<and>
    (\<forall>k. Suc k < n \<longrightarrow>
      (\<exists>resp err. call k (attempt_ctx cfg (env k)) = Returned (resp, Some err) \<and>
         retry_again cfg (env k) k err))"
  using retryLoop_shape [of cfg call env 0] by (auto simp: will_retry_def)

definition sample_attempt :: "nat \<Rightarrow> attempt_env" where
  "sample_attempt k = \<lparr>ae_ctx = sample_ctx, ae_wall = 0, ae_after = None, ae_until = None,
     ae_sleep = None, ae_jitter = (\<lambda>s. s div 2)\<rparr>"

definition flaky :: "nat \<Rightarrow> ctx \<Rightarrow> reply" where
  "flaky k c = (if k = 0 then Returned (None, Some (RateLimitError ''groq'' (3600 * Second)))
     else Returned (Some (sample_response ''groq'' ''hello''), None))"

theorem retryLoop_correct_witness:
  "attempts (fst (retryLoop \<lparr>PerAttempt = Second, MaxRetries = 2\<rparr> flaky sample_attempt 0)) \<le> 3"
  using retryLoop_correct [of "\<lparr>PerAttempt = Second, MaxRetries = 2\<rparr>" flaky sample_attempt]
  by simp

text \<open>
  The time spent waiting is bounded: if the jitter source draws below its step, the loop
  sleeps at most \<open>MaxRetries\<close> times and each wait is between zero and
  \<open>RetryAfterCap\<close>, however large the \<open>Retry-After\<close> a provider sends.
\<close>

theorem retryLoop_waits_bounded:
  assumes "\<And>k. jitter_ok (ae_jitter (env k))"
  shows "list_all (\<lambda>d. 0 \<le> d \<and> d \<le> RetryAfterCap) (waits (fst (retryLoop cfg call env 0))) \<and>
     length (waits (fst (retryLoop cfg call env 0))) \<le> nat (MaxRetries cfg)"
  using retryLoop_waits [of env cfg call 0, OF assms] by simp

theorem retryLoop_waits_bounded_witness:
  "list_all (\<lambda>d. 0 \<le> d \<and> d \<le> RetryAfterCap)
     (waits (fst (retryLoop \<lparr>PerAttempt = Second, MaxRetries = 2\<rparr> flaky sample_attempt 0)))"
proof -
  have "jitter_ok (ae_jitter (sample_attempt k))" for k
    by (auto simp: jitter_ok_def sample_attempt_def)
  then have "list_all (\<lambda>d. 0 \<le> d \<and> d \<le> RetryAfterCap)
      (waits (fst (retryLoop \<lparr>PerAttempt = Second, MaxRetries = 2\<rparr> flaky sample_attempt 0))) \<and>
    length (waits (fst (retryLoop \<lparr>PerAttempt = Second, MaxRetries = 2\<rparr> flaky sample_attempt 0)))
      \<le> nat (MaxRetries \<lparr>PerAttempt = Second, MaxRetries = 2\<rparr>)"
    by (rule retryLoop_waits_bounded)
  then show ?thesis by blast
qed

end
