(* ===== verification/Policy.thy ===== *)
theory Policy
  imports Model_Dispatch
begin

text \<open>
  The policy engine (\<open>internal/policy\<close>): the privacy selector over the model catalog
  (\<open>selector.go\<close>), the tool gate (\<open>tools.go\<close>), and the two reducers that turn the
  outcomes of a dispatch into a decision (\<open>priority.go\<close>, \<open>consensus.go\<close>).

  A Go map is an association list with distinct keys; where the code ranges over a map, the order
  is a parameter and the theorems hold for every order. \<open>strings.ToLower\<close> is exact on ASCII;
  its Unicode case tables are the parameter \<open>uni\<close> of \<open>defaultNormalize\<close>.
\<close>

section \<open>The privacy selector\<close>

datatype Sensitivity = Public | Private | SensitivityInvalid int
datatype Locality = Local | Cloud | LocalityInvalid int

record CatalogEntry =
  cat_Model :: "Model option"
  cat_Locality :: Locality

definition ErrNilResult :: go_error where
  "ErrNilResult = Sentinel ''policy: nil result''"
definition ErrNoUsableOutcome :: go_error where
  "ErrNoUsableOutcome = Sentinel ''policy: no usable outcome''"
definition ErrNoConsensus :: go_error where
  "ErrNoConsensus = Sentinel ''policy: no consensus''"
definition ErrNoEligibleModels :: go_error where
  "ErrNoEligibleModels = Sentinel ''policy: no eligible models''"
definition ErrUnknownSensitivity :: go_error where
  "ErrUnknownSensitivity = Sentinel ''policy: unknown sensitivity''"
definition ErrUnknownLocality :: go_error where
  "ErrUnknownLocality = Sentinel ''policy: unknown locality''"
definition ErrUnknownToolMode :: go_error where
  "ErrUnknownToolMode = Sentinel ''policy: unknown tool mode''"
definition ErrDuplicateToolGrant :: go_error where
  "ErrDuplicateToolGrant = Sentinel ''policy: duplicate tool grant''"
definition ErrInvalidToolGrant :: go_error where
  "ErrInvalidToolGrant = Sentinel ''policy: invalid tool grant''"

definition select_keep :: "Sensitivity \<Rightarrow> (Locality \<Rightarrow> bool) option" where
  "select_keep s = (case s of
     Public \<Rightarrow> Some (\<lambda>l. True)
   | Private \<Rightarrow> Some (\<lambda>l. l = Local)
   | SensitivityInvalid _ \<Rightarrow> None)"

definition SelectModels :: "CatalogEntry list \<Rightarrow> Sensitivity \<Rightarrow> go_error + Model option list" where
  "SelectModels catalog s =
     (case select_keep s of
        None \<Rightarrow> Inl (Errorf ''%w: %d'' [ErrUnknownSensitivity])
      | Some keep \<Rightarrow>
          (let selected = map cat_Model (filter (\<lambda>e. keep (cat_Locality e)) catalog)
           in if selected = [] then Inl ErrNoEligibleModels else Inr selected))"

lemma SelectModels_Private:
  assumes "SelectModels catalog Private = Inr ms"
  shows "ms = map cat_Model (filter (\<lambda>e. cat_Locality e = Local) catalog)" and "ms \<noteq> []"
  using assms by (auto simp: SelectModels_def select_keep_def Let_def split: if_splits)

section \<open>The tool gate\<close>

datatype ToolMode = ToolAllow | ToolShadow | ToolDeny | ToolModeInvalid int

record ToolAttrs =
  ta_Sensitive :: bool
  ta_Network :: bool

record ToolGrant =
  tg_Name :: string
  tg_Mode :: ToolMode
  tg_Channels :: "string list"

datatype ToolRule = ToolRuleNone | ToolRuleDenyGrant | ToolRuleNotGranted | ToolRuleChannel
  | ToolRuleSensitiveLocality | ToolRulePrivateShield | ToolRuleCage

record ToolDecision =
  td_Mode :: ToolMode
  td_Rule :: ToolRule
  td_Shield :: bool

record ToolQuery =
  tq_Channel :: string
  tq_Sensitivity :: Sensitivity
  tq_Locality :: Locality

fun containsChannel :: "string list \<Rightarrow> string \<Rightarrow> bool" where
  "containsChannel [] channel = False"
| "containsChannel (c # cs) channel = (if c = channel then True else containsChannel cs channel)"

definition decideTool :: "ToolGrant \<Rightarrow> ToolAttrs \<Rightarrow> ToolQuery \<Rightarrow> ToolDecision" where
  "decideTool g a q =
     (if tg_Mode g = ToolDeny
        then \<lparr>td_Mode = ToolDeny, td_Rule = ToolRuleDenyGrant, td_Shield = False\<rparr>
      else if tg_Channels g \<noteq> [] \<and> \<not> containsChannel (tg_Channels g) (tq_Channel q)
        then \<lparr>td_Mode = ToolDeny, td_Rule = ToolRuleChannel, td_Shield = False\<rparr>
      else if ta_Sensitive a \<and> tq_Locality q = Cloud
        then \<lparr>td_Mode = ToolDeny, td_Rule = ToolRuleSensitiveLocality, td_Shield = False\<rparr>
      else \<lparr>td_Mode = tg_Mode g, td_Rule = ToolRuleNone,
            td_Shield = ta_Network a \<and> tq_Sensitivity q = Private\<rparr>)"

definition zero_attrs :: ToolAttrs where
  "zero_attrs = \<lparr>ta_Sensitive = False, ta_Network = False\<rparr>"

text \<open>\<open>attrs[name]\<close>: a missing key reads as the zero value.\<close>

definition attrs_of :: "(string \<times> ToolAttrs) list \<Rightarrow> string \<Rightarrow> ToolAttrs" where
  "attrs_of attrs name = (case map_of attrs name of None \<Rightarrow> zero_attrs | Some a \<Rightarrow> a)"

fun select_grants ::
    "(string \<times> ToolAttrs) list \<Rightarrow> ToolQuery \<Rightarrow> ToolGrant list \<Rightarrow> (string \<rightharpoonup> ToolDecision) \<Rightarrow>
     go_error + (string \<rightharpoonup> ToolDecision)" where
  "select_grants attrs q [] ds = Inr ds"
| "select_grants attrs q (g # gs) ds =
     (if tg_Name g = '''' then Inl (Errorf ''%w: empty tool name'' [ErrInvalidToolGrant])
      else if ds (tg_Name g) \<noteq> None then Inl (Errorf ''%w: %q'' [ErrDuplicateToolGrant])
      else (case tg_Mode g of
              ToolModeInvalid _ \<Rightarrow> Inl (Errorf ''%w: grant %q: %d'' [ErrUnknownToolMode])
            | _ \<Rightarrow> select_grants attrs q gs
                     (ds(tg_Name g \<mapsto> decideTool g (attrs_of attrs (tg_Name g)) q))))"

fun deny_ungranted :: "string list \<Rightarrow> (string \<rightharpoonup> ToolDecision) \<Rightarrow> (string \<rightharpoonup> ToolDecision)" where
  "deny_ungranted [] ds = ds"
| "deny_ungranted (n # ns) ds =
     deny_ungranted ns
       (if ds n = None
        then ds(n \<mapsto> \<lparr>td_Mode = ToolDeny, td_Rule = ToolRuleNotGranted, td_Shield = False\<rparr>)
        else ds)"

definition SelectTools ::
    "ToolGrant list \<Rightarrow> (string \<times> ToolAttrs) list \<Rightarrow> ToolQuery \<Rightarrow> go_error + (string \<rightharpoonup> ToolDecision)" where
  "SelectTools grants attrs q =
     (case tq_Sensitivity q of
        SensitivityInvalid _ \<Rightarrow> Inl (Errorf ''%w: %d'' [ErrUnknownSensitivity])
      | _ \<Rightarrow>
          (case tq_Locality q of
             LocalityInvalid _ \<Rightarrow> Inl (Errorf ''%w: %d'' [ErrUnknownLocality])
           | _ \<Rightarrow>
               (case select_grants attrs q grants Map.empty of
                  Inl e \<Rightarrow> Inl e
                | Inr ds \<Rightarrow> Inr (deny_ungranted (map fst attrs) ds))))"

text \<open>What the gate answers, as a function of the grants and of the declared attributes.\<close>

definition grants_ok :: "ToolGrant list \<Rightarrow> bool" where
  "grants_ok gs \<longleftrightarrow> list_all (\<lambda>g. tg_Name g \<noteq> '''' \<and> (\<forall>k. tg_Mode g \<noteq> ToolModeInvalid k)) gs \<and>
     distinct (map tg_Name gs)"

definition query_ok :: "ToolQuery \<Rightarrow> bool" where
  "query_ok q \<longleftrightarrow> tq_Sensitivity q \<in> {Public, Private} \<and> tq_Locality q \<in> {Local, Cloud}"

definition gate_spec ::
    "ToolGrant list \<Rightarrow> (string \<times> ToolAttrs) list \<Rightarrow> ToolQuery \<Rightarrow> string \<Rightarrow> ToolDecision option" where
  "gate_spec gs attrs q n =
     (case find (\<lambda>g. tg_Name g = n) gs of
        Some g \<Rightarrow> Some (decideTool g (attrs_of attrs n) q)
      | None \<Rightarrow>
          (if n \<in> fst ` set attrs
           then Some \<lparr>td_Mode = ToolDeny, td_Rule = ToolRuleNotGranted, td_Shield = False\<rparr> else None))"

lemma containsChannel_iff [simp]: "containsChannel cs c \<longleftrightarrow> c \<in> set cs"
  by (induction cs) auto

lemma deny_ungranted_eq:
  "deny_ungranted ns ds n = (case ds n of Some d \<Rightarrow> Some d | None \<Rightarrow>
     (if n \<in> set ns then Some \<lparr>td_Mode = ToolDeny, td_Rule = ToolRuleNotGranted, td_Shield = False\<rparr> else None))"
  by (induction ns arbitrary: ds) (auto split: option.splits)

lemma select_grants_Inr:
  "(\<exists>ds'. select_grants attrs q gs ds = Inr ds') \<longleftrightarrow> grants_ok gs \<and> (\<forall>g\<in>set gs. ds (tg_Name g) = None)"
proof (induction gs arbitrary: ds)
  case Nil
  then show ?case by (simp add: grants_ok_def)
next
  case (Cons g gs)
  then show ?case by (cases "tg_Mode g") (auto simp: grants_ok_def image_iff)
qed

lemma select_grants_eq:
  "select_grants attrs q gs ds = Inr ds' \<Longrightarrow>
   ds' n = (case find (\<lambda>g. tg_Name g = n) gs of
      Some g \<Rightarrow> Some (decideTool g (attrs_of attrs n) q) | None \<Rightarrow> ds n)"
proof (induction gs arbitrary: ds)
  case Nil
  then show ?case by simp
next
  case (Cons g gs)
  let ?ds = "ds(tg_Name g \<mapsto> decideTool g (attrs_of attrs (tg_Name g)) q)"
  from Cons.prems have r: "select_grants attrs q gs ?ds = Inr ds'"
    by (cases "tg_Mode g") (auto split: if_splits)
  have "\<forall>h\<in>set gs. tg_Name h \<noteq> tg_Name g"
    using select_grants_Inr [of attrs q gs ?ds] r by (auto split: if_splits)
  then have "find (\<lambda>h. tg_Name h = tg_Name g) gs = None" by (simp add: find_None_iff)
  with Cons.IH [OF r] show ?case by (auto split: option.splits)
qed

lemma SelectTools_Inr:
  "SelectTools grants attrs q = Inr ds \<longleftrightarrow>
   query_ok q \<and> grants_ok grants \<and> ds = gate_spec grants attrs q"
proof -
  have ok: "SelectTools grants attrs q = Inr ds \<Longrightarrow> query_ok q \<and> grants_ok grants"
    using select_grants_Inr [of attrs q grants Map.empty]
    by (auto simp: SelectTools_def query_ok_def split: Sensitivity.splits Locality.splits sum.splits)
  have "SelectTools grants attrs q = Inr (gate_spec grants attrs q)" if "query_ok q" "grants_ok grants"
  proof -
    obtain ds' where r: "select_grants attrs q grants Map.empty = Inr ds'"
      using select_grants_Inr [of attrs q grants Map.empty] \<open>grants_ok grants\<close> by auto
    have "deny_ungranted (map fst attrs) ds' = gate_spec grants attrs q"
      by (rule ext) (auto simp: deny_ungranted_eq gate_spec_def select_grants_eq [OF r] split: option.splits)
    with r \<open>query_ok q\<close> show ?thesis by (auto simp: SelectTools_def query_ok_def)
  qed
  with ok show ?thesis by auto
qed

text \<open>
  The tool gate fails closed and answers exactly one decision per known tool.
  \<open>SelectTools\<close> succeeds exactly when the query's sensitivity and locality are recognised,
  every grant has a name and a recognised mode, and no tool is granted twice; its answer then is
  the decision of the tool's grant, \<open>not_granted\<close> for a catalog tool without a grant, and
  nothing for any other name.
\<close>

theorem SelectTools_iff:
  "SelectTools grants attrs q = Inr ds \<longleftrightarrow>
   query_ok q \<and> grants_ok grants \<and> ds = gate_spec grants attrs q"
  by (rule SelectTools_Inr)

lemma SelectTools_granted:
  assumes "SelectTools grants attrs q = Inr ds" and "ds n = Some d" and "td_Mode d \<noteq> ToolDeny"
  shows "\<exists>g\<in>set grants. tg_Name g = n \<and> td_Mode d = tg_Mode g \<and> tg_Mode g \<in> {ToolAllow, ToolShadow} \<and>
     (tg_Channels g = [] \<or> tq_Channel q \<in> set (tg_Channels g)) \<and>
     (ta_Sensitive (attrs_of attrs n) \<longrightarrow> tq_Locality q = Local) \<and>
     (td_Shield d \<longleftrightarrow> ta_Network (attrs_of attrs n) \<and> tq_Sensitivity q = Private)"
proof -
  from assms(1) have q: "query_ok q" and gs: "grants_ok grants" and ds: "ds = gate_spec grants attrs q"
    by (auto simp: SelectTools_Inr)
  from ds assms(2,3) obtain g where f: "find (\<lambda>g. tg_Name g = n) grants = Some g"
    and d: "d = decideTool g (attrs_of attrs n) q"
    by (auto simp: gate_spec_def split: option.splits if_splits)
  from f have g: "g \<in> set grants" "tg_Name g = n"
    by (auto simp: find_Some_iff in_set_conv_nth)
  with gs have m: "\<forall>k. tg_Mode g \<noteq> ToolModeInvalid k" by (auto simp: grants_ok_def list_all_iff)
  show ?thesis
  proof (rule bexI [OF _ g(1)])
    show "tg_Name g = n \<and> td_Mode d = tg_Mode g \<and> tg_Mode g \<in> {ToolAllow, ToolShadow} \<and>
     (tg_Channels g = [] \<or> tq_Channel q \<in> set (tg_Channels g)) \<and>
     (ta_Sensitive (attrs_of attrs n) \<longrightarrow> tq_Locality q = Local) \<and>
     (td_Shield d \<longleftrightarrow> ta_Network (attrs_of attrs n) \<and> tq_Sensitivity q = Private)"
      using g(2) m q assms(3) d
      by (cases "tg_Mode g") (auto simp: decideTool_def query_ok_def split: if_splits)
  qed
qed

text \<open>
  C32: The tool gate never widens a grant. A tool that is not denied was granted by name with
  exactly the mode the decision carries, the message came over a channel the grant admits, a
  sensitive tool runs on a local model only, and the private-network shield is armed exactly for
  a network tool of a private brain.
\<close>

theorem SelectTools_never_widens:
  assumes "SelectTools grants attrs q = Inr ds" and "ds n = Some d" and "td_Mode d \<noteq> ToolDeny"
  shows "\<exists>g\<in>set grants. tg_Name g = n \<and> td_Mode d = tg_Mode g \<and> tg_Mode g \<in> {ToolAllow, ToolShadow} \<and>
     (tg_Channels g = [] \<or> tq_Channel q \<in> set (tg_Channels g)) \<and>
     (ta_Sensitive (attrs_of attrs n) \<longrightarrow> tq_Locality q = Local) \<and>
     (td_Shield d \<longleftrightarrow> ta_Network (attrs_of attrs n) \<and> tq_Sensitivity q = Private)"
  using assms by (rule SelectTools_granted)

theorem SelectTools_never_widens_witness:
  "let q = \<lparr>tq_Channel = ''telegram'', tq_Sensitivity = Private, tq_Locality = Local\<rparr>;
       g = \<lparr>tg_Name = ''http_fetch'', tg_Mode = ToolShadow, tg_Channels = [''telegram'']\<rparr>;
       attrs = [(''http_fetch'', \<lparr>ta_Sensitive = True, ta_Network = True\<rparr>)]
   in td_Shield (the (gate_spec [g] attrs q ''http_fetch''))"
proof -
  let ?q = "\<lparr>tq_Channel = ''telegram'', tq_Sensitivity = Private, tq_Locality = Local\<rparr>"
  let ?g = "\<lparr>tg_Name = ''http_fetch'', tg_Mode = ToolShadow, tg_Channels = [''telegram'']\<rparr>"
  let ?attrs = "[(''http_fetch'', \<lparr>ta_Sensitive = True, ta_Network = True\<rparr>)]"
  have r: "SelectTools [?g] ?attrs ?q = Inr (gate_spec [?g] ?attrs ?q)"
    by (simp add: SelectTools_Inr query_ok_def grants_ok_def)
  have d: "gate_spec [?g] ?attrs ?q ''http_fetch'' = Some (decideTool ?g (attrs_of ?attrs ''http_fetch'') ?q)"
    by (simp add: gate_spec_def)
  have m: "td_Mode (decideTool ?g (attrs_of ?attrs ''http_fetch'') ?q) \<noteq> ToolDeny"
    by (simp add: decideTool_def)
  show ?thesis using SelectTools_never_widens [OF r d m] d by (simp add: attrs_of_def)
qed

section \<open>Decisions and the contract of a reducer\<close>

record Contribution =
  con_Provider :: string
  con_Used :: bool
  con_Err :: "go_error option"

record ProviderCost =
  pc_Provider :: string
  pc_Latency :: duration

record Decision =
  dec_Response :: "Response option"
  dec_Considered :: "Contribution list"
  dec_Accounting :: "ProviderCost list"

text \<open>The provenance and accounting both reducers write, with the outcomes whose index is in
  \<open>used\<close> marked.\<close>

definition contribution :: "bool \<Rightarrow> Outcome \<Rightarrow> Contribution" where
  "contribution u oc = \<lparr>con_Provider = oc_Provider oc, con_Used = u, con_Err = oc_Err oc\<rparr>"

definition considered :: "nat set \<Rightarrow> Outcome list \<Rightarrow> Contribution list" where
  "considered used ocs = map (\<lambda>(i, oc). contribution (i \<in> used) oc) (enumerate 0 ocs)"

definition accounting :: "Outcome list \<Rightarrow> ProviderCost list" where
  "accounting ocs = map (\<lambda>oc. \<lparr>pc_Provider = oc_Provider oc, pc_Latency = oc_Latency oc\<rparr>) ocs"

definition all_failed :: "Outcome list \<Rightarrow> go_error" where
  "all_failed ocs = Join (ErrNoUsableOutcome # List.map_filter oc_Err ocs)"

lemma considered_nth [simp]:
  "i < length ocs \<Longrightarrow> considered used ocs ! i = contribution (i \<in> used) (ocs ! i)"
  by (simp add: considered_def nth_enumerate_eq)

lemma length_considered [simp]: "length (considered used ocs) = length ocs"
  by (simp add: considered_def)

text \<open>The joined error answers both for the sentinel and for every provider's failure.\<close>

lemma all_failed_Is:
  "errors_Is (all_failed ocs) ErrNoUsableOutcome"
  "oc \<in> set ocs \<Longrightarrow> oc_Err oc = Some e \<Longrightarrow> errors_Is e t \<Longrightarrow> errors_Is (all_failed ocs) t"
  by (auto simp: all_failed_def ErrNoUsableOutcome_def list_ex_iff List.map_filter_def)

text \<open>
  The interface \<open>policy.Policy\<close> as the brain uses it: \<open>Apply\<close> on a non-nil result always
  gives a decision; a decision without an error carries the response of a usable outcome that is
  marked used, a decision with an error carries no response, and only usable outcomes are ever
  marked used.
\<close>

locale reducer =
  fixes apply_policy :: "Outcome list \<Rightarrow> Decision \<times> go_error option"
  assumes ok_response: "apply_policy ocs = (d, None) \<Longrightarrow>
      \<exists>i<length ocs. usable (ocs ! i) \<and> con_Used (dec_Considered d ! i) \<and>
        dec_Response d = oc_Response (ocs ! i)"
    and err_response: "apply_policy ocs = (d, Some e) \<Longrightarrow> dec_Response d = None"
    and provenance: "apply_policy ocs = (d, oe) \<Longrightarrow> \<exists>used. used \<subseteq> {i. i < length ocs \<and> usable (ocs ! i)} \<and>
        dec_Considered d = considered used ocs \<and> dec_Accounting d = accounting ocs"
begin

lemma response_iff_ok: "apply_policy ocs = (d, e) \<Longrightarrow> dec_Response d = None \<longleftrightarrow> e \<noteq> None"
  using ok_response [of ocs d] err_response [of ocs d] by (cases e) (auto simp: usable_def)

lemma no_usable_fails:
  assumes "\<forall>oc\<in>set ocs. \<not> usable oc"
  shows "snd (apply_policy ocs) \<noteq> None \<and> dec_Response (fst (apply_policy ocs)) = None"
proof (cases "apply_policy ocs")
  case (Pair d e)
  show ?thesis
  proof (cases e)
    case None
    with Pair ok_response [of ocs d] assms show ?thesis by auto
  next
    case (Some e')
    with Pair err_response [of ocs d e'] show ?thesis by simp
  qed
qed

end

section \<open>Ranking\<close>

fun rankByOrder :: "string list \<Rightarrow> string \<Rightarrow> nat" where
  "rankByOrder [] provider = 0"
| "rankByOrder (n # ns) provider = (if n = provider then 0 else Suc (rankByOrder ns provider))"

lemma rankByOrder_le: "rankByOrder order p \<le> length order"
  by (induction order) auto

lemma rankByOrder_listed: "rankByOrder order p < length order \<longleftrightarrow> p \<in> set order"
  by (induction order) auto

lemma rankByOrder_nth: "p \<in> set order \<Longrightarrow> order ! rankByOrder order p = p"
  by (induction order) auto

text \<open>The comparison both reducers use: a strictly lower rank replaces the current choice.\<close>

definition better :: "(nat \<Rightarrow> nat) \<Rightarrow> nat \<Rightarrow> nat \<times> nat \<Rightarrow> nat \<times> nat" where
  "better rank i best = (if rank i < snd best then (i, rank i) else best)"

definition is_best :: "(nat \<Rightarrow> nat) \<Rightarrow> nat set \<Rightarrow> nat \<Rightarrow> bool" where
  "is_best rank S r \<longleftrightarrow> r \<in> S \<and> (\<forall>j\<in>S. rank r < rank j \<or> (rank r = rank j \<and> r \<le> j))"

lemma fold_better:
  assumes "sorted_wrt (<) (b # js)"
  shows "\<exists>r. fold (better rank) js (b, rank b) = (r, rank r) \<and> is_best rank (set (b # js)) r"
  using assms
proof (induction js rule: rev_induct)
  case Nil
  then show ?case by (simp add: is_best_def)
next
  case (snoc j js)
  then obtain r where r: "fold (better rank) js (b, rank b) = (r, rank r)"
    and best: "is_best rank (set (b # js)) r"
    by (auto simp: sorted_wrt_append)
  have lt: "\<forall>k\<in>set (b # js). k < j" using snoc.prems by (auto simp: sorted_wrt_append)
  show ?case
  proof (cases "rank j < rank r")
    case True
    with r have "fold (better rank) (js @ [j]) (b, rank b) = (j, rank j)" by (simp add: better_def)
    moreover have "is_best rank (set (b # js @ [j])) j"
      using True best lt unfolding is_best_def by fastforce
    ultimately show ?thesis by auto
  next
    case False
    with r have "fold (better rank) (js @ [j]) (b, rank b) = (r, rank r)" by (simp add: better_def)
    moreover have "is_best rank (set (b # js @ [j])) r"
      using False best lt unfolding is_best_def by fastforce
    ultimately show ?thesis by auto
  qed
qed

section \<open>The priority reducer\<close>

text \<open>One step of the loop: the best usable outcome so far, with its rank.\<close>

definition priority_step ::
    "string list \<Rightarrow> nat \<times> Outcome \<Rightarrow> (nat \<times> nat) option \<Rightarrow> (nat \<times> nat) option" where
  "priority_step order ioc best =
     (case ioc of (i, oc) \<Rightarrow>
        if \<not> usable oc then best
        else (let rank = rankByOrder order (oc_Provider oc)
              in case best of
                   None \<Rightarrow> Some (i, rank)
                 | Some (bi, br) \<Rightarrow> if rank < br then Some (i, rank) else best))"

definition priority_Apply :: "string list \<Rightarrow> Outcome list option \<Rightarrow> Decision option \<times> go_error option" where
  "priority_Apply order result =
     (case result of
        None \<Rightarrow> (None, Some ErrNilResult)
      | Some ocs \<Rightarrow>
          (case fold (priority_step order) (enumerate 0 ocs) None of
             None \<Rightarrow>
               (Some \<lparr>dec_Response = None, dec_Considered = considered {} ocs,
                      dec_Accounting = accounting ocs\<rparr>, Some (all_failed ocs))
           | Some (bestIdx, bestRank) \<Rightarrow>
               (Some \<lparr>dec_Response = oc_Response (ocs ! bestIdx),
                      dec_Considered = considered {bestIdx} ocs,
                      dec_Accounting = accounting ocs\<rparr>, None)))"

definition usable_indices :: "Outcome list \<Rightarrow> nat list" where
  "usable_indices ocs = filter (\<lambda>i. usable (ocs ! i)) [0..<length ocs]"

definition rank_at :: "string list \<Rightarrow> Outcome list \<Rightarrow> nat \<Rightarrow> nat" where
  "rank_at order ocs i = rankByOrder order (oc_Provider (ocs ! i))"

lemma set_usable_indices [simp]: "set (usable_indices ocs) = {i. i < length ocs \<and> usable (ocs ! i)}"
  by (auto simp: usable_indices_def)

lemma sorted_filter_upt: "sorted_wrt (<) (filter P [0..<n])"
  by (simp add: sorted_wrt_filter)

lemma filter_nth_snoc:
  "filter (\<lambda>i. P ((ocs @ [oc]) ! i)) [0..<length (ocs @ [oc])] =
   filter (\<lambda>i. P (ocs ! i)) [0..<length ocs] @ (if P oc then [length ocs] else [])"
  by (auto simp: nth_append intro!: filter_cong)

lemma priority_fold:
  "fold (priority_step order) (enumerate 0 ocs) None =
   (case usable_indices ocs of
      [] \<Rightarrow> None
    | b # js \<Rightarrow> Some (fold (better (rank_at order ocs)) js (b, rank_at order ocs b)))"
proof (induction ocs rule: rev_induct)
  case Nil
  then show ?case by (simp add: usable_indices_def)
next
  case (snoc oc ocs)
  have ui: "usable_indices (ocs @ [oc]) = usable_indices ocs @ (if usable oc then [length ocs] else [])"
    unfolding usable_indices_def by (rule filter_nth_snoc)
  have cong: "fold (better (rank_at order (ocs @ [oc]))) js (b, rank_at order (ocs @ [oc]) b) =
      fold (better (rank_at order ocs)) js (b, rank_at order ocs b)"
    if "set (b # js) \<subseteq> {i. i < length ocs}" for b js
  proof -
    have "\<forall>i\<in>set (b # js). rank_at order (ocs @ [oc]) i = rank_at order ocs i"
      using that by (auto simp: rank_at_def nth_append)
    then show ?thesis by (auto simp: better_def intro!: fold_cong)
  qed
  have sub: "set (usable_indices ocs) \<subseteq> {i. i < length ocs}" by auto
  show ?case
  proof (cases "usable_indices ocs")
    case Nil
    with snoc ui show ?thesis by (simp add: enumerate_append_eq priority_step_def rank_at_def)
  next
    case (Cons b js)
    with sub cong [of b js] snoc ui show ?thesis
      by (auto simp: enumerate_append_eq priority_step_def better_def rank_at_def Let_def split: prod.splits)
  qed
qed

lemma usable_indices_empty: "usable_indices ocs = [] \<longleftrightarrow> (\<forall>oc\<in>set ocs. \<not> usable oc)"
  by (auto simp: usable_indices_def filter_empty_conv all_set_conv_all_nth)

lemma priority_fold_best:
  "fold (priority_step order) (enumerate 0 ocs) None = Some (i, r) \<Longrightarrow>
   is_best (rank_at order ocs) {i. i < length ocs \<and> usable (ocs ! i)} i"
proof -
  assume a: "fold (priority_step order) (enumerate 0 ocs) None = Some (i, r)"
  then obtain b js where ui: "usable_indices ocs = b # js"
    by (auto simp: priority_fold split: list.splits)
  have "sorted_wrt (<) (b # js)" using sorted_filter_upt ui unfolding usable_indices_def by metis
  from fold_better [OF this, of "rank_at order ocs"] a ui show ?thesis
    using set_usable_indices [of ocs] by (auto simp: priority_fold simp del: set_usable_indices)
qed

text \<open>
  The priority reducer picks the best answer. On any list of outcomes with a usable one, the
  decision carries the response of the usable outcome whose provider comes first in the operator's
  order (unlisted providers last, ties to the lower index), and marks that outcome and no other
  as used. Without a usable outcome it returns a decision with no response and the joined error
  that answers for \<open>ErrNoUsableOutcome\<close> and for every provider's failure.
\<close>

theorem priority_Apply_correct:
  "if \<exists>oc\<in>set ocs. usable oc
   then \<exists>i. is_best (rank_at order ocs) {i. i < length ocs \<and> usable (ocs ! i)} i \<and>
      priority_Apply order (Some ocs) =
        (Some \<lparr>dec_Response = oc_Response (ocs ! i), dec_Considered = considered {i} ocs,
               dec_Accounting = accounting ocs\<rparr>, None)
   else priority_Apply order (Some ocs) =
        (Some \<lparr>dec_Response = None, dec_Considered = considered {} ocs,
               dec_Accounting = accounting ocs\<rparr>, Some (all_failed ocs))"
proof (cases "fold (priority_step order) (enumerate 0 ocs) None")
  case None
  then have "usable_indices ocs = []" by (auto simp: priority_fold split: list.splits)
  with None show ?thesis by (simp add: usable_indices_empty priority_Apply_def)
next
  case (Some ir)
  obtain i r where ir: "ir = (i, r)" by fastforce
  have b: "is_best (rank_at order ocs) {i. i < length ocs \<and> usable (ocs ! i)} i"
    using Some ir by (auto intro: priority_fold_best)
  then have "\<exists>oc\<in>set ocs. usable oc" by (auto simp: is_best_def)
  with Some ir b show ?thesis by (auto simp: priority_Apply_def)
qed

definition priority_policy :: "string list \<Rightarrow> Outcome list \<Rightarrow> Decision \<times> go_error option" where
  "priority_policy order ocs = (the (fst (priority_Apply order (Some ocs))), snd (priority_Apply order (Some ocs)))"

interpretation priority: reducer "priority_policy order" for order
proof
  fix ocs d
  assume "priority_policy order ocs = (d, None)"
  then show "\<exists>i<length ocs. usable (ocs ! i) \<and> con_Used (dec_Considered d ! i) \<and>
      dec_Response d = oc_Response (ocs ! i)"
    by (auto simp: priority_policy_def priority_Apply_def contribution_def is_best_def
        dest!: priority_fold_best split: option.splits)
next
  fix ocs d e
  assume "priority_policy order ocs = (d, Some e)"
  then show "dec_Response d = None"
    by (auto simp: priority_policy_def priority_Apply_def split: option.splits)
next
  fix ocs d oe
  assume "priority_policy order ocs = (d, oe)"
  then show "\<exists>used. used \<subseteq> {i. i < length ocs \<and> usable (ocs ! i)} \<and>
      dec_Considered d = considered used ocs \<and> dec_Accounting d = accounting ocs"
    by (cases "fold (priority_step order) (enumerate 0 ocs) None")
      (auto simp: priority_policy_def priority_Apply_def is_best_def
        dest!: priority_fold_best intro: exI [of _ "{}"] exI [of _ "{_}"])
qed

section \<open>The consensus reducer\<close>

definition defaultNormalize :: "(string \<Rightarrow> string) \<Rightarrow> string \<Rightarrow> string" where
  "defaultNormalize uni s = ToLower uni (TrimSpace s)"

record ConsensusReducer =
  cr_Order :: "string list"
  cr_Normalize :: "(string \<Rightarrow> string) option"

definition normalizer :: "(string \<Rightarrow> string) \<Rightarrow> ConsensusReducer \<Rightarrow> string \<Rightarrow> string" where
  "normalizer uni r = (case cr_Normalize r of None \<Rightarrow> defaultNormalize uni | Some f \<Rightarrow> f)"

text \<open>\<open>votes[key] = append(votes[key], i)\<close>.\<close>

fun vote :: "string \<Rightarrow> nat \<Rightarrow> (string \<times> nat list) list \<Rightarrow> (string \<times> nat list) list" where
  "vote k i [] = [(k, [i])]"
| "vote k i ((k', js) # vs) = (if k' = k then (k', js @ [i]) # vs else (k', js) # vote k i vs)"

definition vote_key :: "(string \<Rightarrow> string) \<Rightarrow> Outcome \<Rightarrow> string" where
  "vote_key norm oc = norm (msg_Content (resp_Message (the (oc_Response oc))))"

definition tally :: "(string \<Rightarrow> string) \<Rightarrow> Outcome list \<Rightarrow> (string \<times> nat list) list" where
  "tally norm ocs = fold (\<lambda>(i, oc) votes. if usable oc then vote (vote_key norm oc) i votes else votes)
     (enumerate 0 ocs) []"

definition majority :: "nat \<Rightarrow> nat list \<Rightarrow> bool" where
  "majority n idxs \<longleftrightarrow> length idxs \<ge> 2 \<and> length idxs * 2 > n"

text \<open>\<open>Apply\<close>; \<open>iter\<close> is the order in which \<open>range votes\<close> visits the map.\<close>

definition consensus_Apply ::
    "(string \<Rightarrow> string) \<Rightarrow> ((string \<times> nat list) list \<Rightarrow> (string \<times> nat list) list) \<Rightarrow> ConsensusReducer \<Rightarrow>
     Outcome list option \<Rightarrow> Decision option \<times> go_error option" where
  "consensus_Apply uni iter r result =
     (case result of
        None \<Rightarrow> (None, Some ErrNilResult)
      | Some ocs \<Rightarrow>
          (let votes = tally (normalizer uni r) ocs;
               n = length (filter usable ocs);
               decision = \<lparr>dec_Response = None, dec_Considered = considered {} ocs,
                           dec_Accounting = accounting ocs\<rparr>
           in if n = 0 then (Some decision, Some (all_failed ocs))
              else (case find (\<lambda>(k, idxs). majority n idxs) (iter votes) of
                      None \<Rightarrow> (Some decision, Some ErrNoConsensus)
                    | Some (k, winners) \<Rightarrow>
                        (let (repIdx, bestRank) = fold (better (rank_at (cr_Order r) ocs)) (tl winners)
                               (hd winners, rank_at (cr_Order r) ocs (hd winners))
                         in (Some \<lparr>dec_Response = oc_Response (ocs ! repIdx),
                                   dec_Considered = considered (set winners) ocs,
                                   dec_Accounting = accounting ocs\<rparr>, None)))))"

text \<open>The indices of one class, in fan-out order.\<close>

definition class_of :: "(string \<Rightarrow> string) \<Rightarrow> Outcome list \<Rightarrow> string \<Rightarrow> nat list" where
  "class_of norm ocs k =
     filter (\<lambda>i. usable (ocs ! i) \<and> vote_key norm (ocs ! i) = k) [0..<length ocs]"

lemma vote_keys: "fst ` set (vote k i vs) = insert k (fst ` set vs)"
  by (induction k i vs rule: vote.induct) (simp_all add: insert_commute)

lemma vote_distinct: "distinct (map fst vs) \<Longrightarrow> distinct (map fst (vote k i vs))"
proof (induction vs)
  case (Cons v vs)
  then show ?case using vote_keys [of k i vs] by (cases v) auto
qed simp

lemma vote_map_of:
  "distinct (map fst vs) \<Longrightarrow> map_of (vote k i vs) k' =
     (if k' = k then Some ((case map_of vs k of None \<Rightarrow> [] | Some js \<Rightarrow> js) @ [i]) else map_of vs k')"
proof (induction vs)
  case (Cons v vs)
  then show ?case by (cases v) auto
qed simp

lemma class_of_snoc:
  "class_of norm (ocs @ [oc]) k =
   class_of norm ocs k @ (if usable oc \<and> vote_key norm oc = k then [length ocs] else [])"
  unfolding class_of_def
  by (rule filter_nth_snoc [where P = "\<lambda>oc. usable oc \<and> vote_key norm oc = k"])

lemma tally_snoc:
  "tally norm (ocs @ [oc]) =
   (if usable oc then vote (vote_key norm oc) (length ocs) (tally norm ocs) else tally norm ocs)"
  by (simp add: tally_def enumerate_append_eq)

lemma tally_distinct: "distinct (map fst (tally norm ocs))"
proof (induction ocs rule: rev_induct)
  case Nil
  then show ?case by (simp add: tally_def)
next
  case (snoc oc ocs)
  then show ?case by (simp add: tally_snoc vote_distinct)
qed

lemma tally_classes:
  "map_of (tally norm ocs) k = (if class_of norm ocs k = [] then None else Some (class_of norm ocs k))"
proof (induction ocs arbitrary: k rule: rev_induct)
  case Nil
  then show ?case by (simp add: tally_def class_of_def)
next
  case (snoc oc ocs)
  then show ?case
    by (simp add: tally_snoc class_of_snoc vote_map_of tally_distinct del: map_of_eq_Some_iff)
qed

lemma tally_member: "(k, js) \<in> set (tally norm ocs) \<longleftrightarrow> js = class_of norm ocs k \<and> js \<noteq> []"
  using tally_classes [of norm ocs k] tally_distinct [of norm ocs]
  by (metis (no_types) map_of_eq_Some_iff option.distinct(1) option.inject)

lemma class_of_sorted: "sorted_wrt (<) (class_of norm ocs k)"
  unfolding class_of_def by (rule sorted_filter_upt)

lemma length_filter_usable: "length (filter usable ocs) = card {i. i < length ocs \<and> usable (ocs ! i)}"
  by (simp add: length_filter_conv_card)

lemma length_class_of:
  "length (class_of norm ocs k) = card {i. i < length ocs \<and> usable (ocs ! i) \<and> vote_key norm (ocs ! i) = k}"
proof -
  have "distinct (class_of norm ocs k)" by (simp add: class_of_def)
  then have "length (class_of norm ocs k) = card (set (class_of norm ocs k))" by (simp add: distinct_card)
  also have "set (class_of norm ocs k) =
      {i. i < length ocs \<and> usable (ocs ! i) \<and> vote_key norm (ocs ! i) = k}"
    by (auto simp: class_of_def)
  finally show ?thesis .
qed

text \<open>Two different classes cannot both hold more than half of the usable outcomes.\<close>

lemma majority_unique:
  assumes "majority (length (filter usable ocs)) (class_of norm ocs k)"
    and "majority (length (filter usable ocs)) (class_of norm ocs k')"
  shows "k = k'"
proof (rule ccontr)
  assume ne: "k \<noteq> k'"
  let ?C = "\<lambda>k. {i. i < length ocs \<and> usable (ocs ! i) \<and> vote_key norm (ocs ! i) = k}"
  let ?U = "{i. i < length ocs \<and> usable (ocs ! i)}"
  have "card (?C k) + card (?C k') = card (?C k \<union> ?C k')"
    using ne by (intro card_Un_disjoint [symmetric]) auto
  also have "\<dots> \<le> card ?U" by (intro card_mono) auto
  finally show False using assms
    by (simp add: majority_def length_class_of length_filter_usable)
qed

definition iteration :: "('a list \<Rightarrow> 'a list) \<Rightarrow> bool" where
  "iteration iter \<longleftrightarrow> (\<forall>xs. set (iter xs) = set xs)"

lemma find_majority:
  assumes "iteration iter"
  shows "find (\<lambda>(k, idxs). majority (length (filter usable ocs)) idxs) (iter (tally norm ocs)) = Some (k, w)
    \<longleftrightarrow> w = class_of norm ocs k \<and> majority (length (filter usable ocs)) w"
    (is "find ?P ?vs = _ \<longleftrightarrow> _")
proof
  assume "find ?P ?vs = Some (k, w)"
  then have "(k, w) \<in> set ?vs \<and> ?P (k, w)"
    by (metis find_Some_iff nth_mem)
  then show "w = class_of norm ocs k \<and> majority (length (filter usable ocs)) w"
    using assms tally_member by (auto simp: iteration_def)
next
  assume a: "w = class_of norm ocs k \<and> majority (length (filter usable ocs)) w"
  then have "w \<noteq> []" by (auto simp: majority_def)
  with a have mem: "(k, w) \<in> set ?vs" using assms by (simp add: iteration_def tally_member)
  then obtain k' w' where f: "find ?P ?vs = Some (k', w')"
    using a by (cases "find ?P ?vs") (auto simp: find_None_iff)
  then have "(k', w') \<in> set ?vs \<and> ?P (k', w')" by (metis find_Some_iff nth_mem)
  then have "w' = class_of norm ocs k' \<and> majority (length (filter usable ocs)) w'"
    using assms tally_member by (auto simp: iteration_def)
  with a majority_unique [of ocs norm k k'] f show "find ?P ?vs = Some (k, w)" by auto
qed

lemma winners_best:
  assumes "class_of norm ocs k = w" and "w \<noteq> []"
  shows "\<exists>r. fold (better rank) (tl w) (hd w, rank (hd w)) = (r, rank r) \<and> is_best rank (set w) r"
proof -
  have "sorted_wrt (<) (hd w # tl w)" using class_of_sorted [of norm ocs k] assms by simp
  from fold_better [OF this, of rank] assms(2) show ?thesis by simp
qed

text \<open>What the reducer decides, with no mention of the map's iteration order.\<close>

lemma consensus_cases:
  assumes "iteration iter"
  shows "consensus_Apply uni iter r (Some ocs) =
     (Some \<lparr>dec_Response = None, dec_Considered = considered {} ocs, dec_Accounting = accounting ocs\<rparr>,
      Some (if \<exists>oc\<in>set ocs. usable oc then ErrNoConsensus else all_failed ocs)) \<and>
     (\<nexists>k. majority (length (filter usable ocs)) (class_of (normalizer uni r) ocs k))
   \<or> (\<exists>k i. majority (length (filter usable ocs)) (class_of (normalizer uni r) ocs k) \<and>
      is_best (rank_at (cr_Order r) ocs) (set (class_of (normalizer uni r) ocs k)) i \<and>
      consensus_Apply uni iter r (Some ocs) =
       (Some \<lparr>dec_Response = oc_Response (ocs ! i),
              dec_Considered = considered (set (class_of (normalizer uni r) ocs k)) ocs,
              dec_Accounting = accounting ocs\<rparr>, None))"
proof -
  let ?n = "length (filter usable ocs)" and ?norm = "normalizer uni r"
  let ?find = "find (\<lambda>(k, idxs). majority ?n idxs) (iter (tally ?norm ocs))"
  show ?thesis
  proof (cases "\<exists>k. majority ?n (class_of ?norm ocs k)")
    case True
    then obtain k where k: "majority ?n (class_of ?norm ocs k)" by auto
    then have f: "?find = Some (k, class_of ?norm ocs k)" by (simp add: find_majority [OF assms])
    from k have ne: "class_of ?norm ocs k \<noteq> []" by (auto simp: majority_def)
    then have "set (class_of ?norm ocs k) \<noteq> {}" by simp
    then have "?n \<noteq> 0" by (fastforce simp: class_of_def filter_empty_conv in_set_conv_nth)
    obtain i where i: "fold (better (rank_at (cr_Order r) ocs)) (tl (class_of ?norm ocs k))
        (hd (class_of ?norm ocs k), rank_at (cr_Order r) ocs (hd (class_of ?norm ocs k))) =
        (i, rank_at (cr_Order r) ocs i)"
      and best: "is_best (rank_at (cr_Order r) ocs) (set (class_of ?norm ocs k)) i"
      using winners_best [OF refl ne] by blast
    with f k \<open>?n \<noteq> 0\<close> show ?thesis by (intro disjI2 exI [of _ k] exI [of _ i]) (simp add: consensus_Apply_def)
  next
    case False
    then have "?find \<noteq> Some (k, w)" for k w by (auto simp: find_majority [OF assms])
    then have "?find = None" by (cases ?find) auto
    moreover have "?n = 0 \<longleftrightarrow> \<not> (\<exists>oc\<in>set ocs. usable oc)" by (auto simp: filter_empty_conv)
    ultimately show ?thesis using False by (auto simp: consensus_Apply_def Let_def)
  qed
qed

lemma is_best_unique: "is_best rank S r \<Longrightarrow> is_best rank S r' \<Longrightarrow> r = r'"
  unfolding is_best_def by (metis antisym less_irrefl less_trans)

lemma class_of_usable: "i \<in> set (class_of norm ocs k) \<Longrightarrow> i < length ocs \<and> usable (ocs ! i)"
  by (auto simp: class_of_def)

text \<open>
  C33: The consensus reducer decides by strict majority. Whatever order the vote map is iterated
  in: either some class of normalised replies is held by at least two usable outcomes and by more
  than half of them, and the decision carries the best-ranked reply of that class and marks
  exactly its members as used; or there is no such class, and the decision carries no response
  and the error is \<open>ErrNoConsensus\<close> when there were usable outcomes and the joined
  \<open>ErrNoUsableOutcome\<close> when there were none.
\<close>

theorem consensus_Apply_correct:
  assumes "iteration iter"
  shows "consensus_Apply uni iter r (Some ocs) =
     (Some \<lparr>dec_Response = None, dec_Considered = considered {} ocs, dec_Accounting = accounting ocs\<rparr>,
      Some (if \<exists>oc\<in>set ocs. usable oc then ErrNoConsensus else all_failed ocs)) \<and>
     (\<nexists>k. majority (length (filter usable ocs)) (class_of (normalizer uni r) ocs k))
   \<or> (\<exists>k i. majority (length (filter usable ocs)) (class_of (normalizer uni r) ocs k) \<and>
      is_best (rank_at (cr_Order r) ocs) (set (class_of (normalizer uni r) ocs k)) i \<and>
      consensus_Apply uni iter r (Some ocs) =
       (Some \<lparr>dec_Response = oc_Response (ocs ! i),
              dec_Considered = considered (set (class_of (normalizer uni r) ocs k)) ocs,
              dec_Accounting = accounting ocs\<rparr>, None))"
  using assms by (rule consensus_cases)

definition sample_outcome :: "string \<Rightarrow> string \<Rightarrow> Outcome" where
  "sample_outcome p t = \<lparr>oc_Provider = p, oc_Response = Some (sample_response p t), oc_Err = None, oc_Latency = 1\<rparr>"

definition sample_votes :: "Outcome list" where
  "sample_votes = [sample_outcome ''groq'' ''no'', sample_outcome ''ollama'' ''yes'', sample_outcome ''openai'' ''yes'']"

lemma sample_class: "class_of (\<lambda>s. s) sample_votes ''yes'' = [1, 2]"
  by (simp add: class_of_def sample_votes_def sample_outcome_def usable_def vote_key_def
      sample_response_def sample_message_def upt_rec)

theorem consensus_Apply_correct_witness:
  "\<exists>d. consensus_Apply (\<lambda>s. s) rev \<lparr>cr_Order = [], cr_Normalize = Some (\<lambda>s. s)\<rparr> (Some sample_votes) = (Some d, None)"
proof -
  have it: "iteration rev" by (simp add: iteration_def)
  have "majority (length (filter usable sample_votes)) (class_of (\<lambda>s. s) sample_votes ''yes'')"
    unfolding sample_class by (simp add: majority_def sample_votes_def sample_outcome_def usable_def)
  then show ?thesis
    using consensus_Apply_correct [OF it, of "\<lambda>s. s" "\<lparr>cr_Order = [], cr_Normalize = Some (\<lambda>s. s)\<rparr>" sample_votes]
    by (auto simp: normalizer_def)
qed

text \<open>
  C34: The consensus reducer is deterministic although it ranges over a Go map: two iteration
  orders of the vote map give the same decision and the same error.
\<close>

theorem consensus_Apply_deterministic:
  assumes "iteration iter" and "iteration iter'"
  shows "consensus_Apply uni iter r res = consensus_Apply uni iter' r res"
proof (cases res)
  case None
  then show ?thesis by (simp add: consensus_Apply_def)
next
  case (Some ocs)
  let ?maj = "\<lambda>k. majority (length (filter usable ocs)) (class_of (normalizer uni r) ocs k)"
  show ?thesis
  proof (cases "\<exists>k. ?maj k")
    case True
    then obtain k where k: "?maj k" by blast
    have only: "k' = k" if "?maj k'" for k' using majority_unique [OF that k] .
    from True consensus_cases [OF assms(1), of uni r ocs] only
    obtain i where i: "is_best (rank_at (cr_Order r) ocs) (set (class_of (normalizer uni r) ocs k)) i"
      "consensus_Apply uni iter r (Some ocs) =
         (Some \<lparr>dec_Response = oc_Response (ocs ! i),
                dec_Considered = considered (set (class_of (normalizer uni r) ocs k)) ocs,
                dec_Accounting = accounting ocs\<rparr>, None)"
      by blast
    from True consensus_cases [OF assms(2), of uni r ocs] only
    obtain j where j: "is_best (rank_at (cr_Order r) ocs) (set (class_of (normalizer uni r) ocs k)) j"
      "consensus_Apply uni iter' r (Some ocs) =
         (Some \<lparr>dec_Response = oc_Response (ocs ! j),
                dec_Considered = considered (set (class_of (normalizer uni r) ocs k)) ocs,
                dec_Accounting = accounting ocs\<rparr>, None)"
      by blast
    show ?thesis using i(2) j(2) is_best_unique [OF i(1) j(1)] unfolding Some by simp
  next
    case False
    then show ?thesis
      using consensus_cases [OF assms(1), of uni r ocs] consensus_cases [OF assms(2), of uni r ocs]
      unfolding Some by force
  qed
qed

theorem consensus_Apply_deterministic_witness:
  "consensus_Apply (\<lambda>s. s) rev \<lparr>cr_Order = [], cr_Normalize = None\<rparr> (Some sample_votes) =
   consensus_Apply (\<lambda>s. s) (\<lambda>xs. xs) \<lparr>cr_Order = [], cr_Normalize = None\<rparr> (Some sample_votes)"
  by (rule consensus_Apply_deterministic) (simp_all add: iteration_def)

definition consensus_policy ::
    "(string \<Rightarrow> string) \<Rightarrow> ConsensusReducer \<Rightarrow> Outcome list \<Rightarrow> Decision \<times> go_error option" where
  "consensus_policy uni r ocs =
     (the (fst (consensus_Apply uni id r (Some ocs))), snd (consensus_Apply uni id r (Some ocs)))"

lemma iteration_id [simp]: "iteration id"
  by (simp add: iteration_def)

interpretation consensus: reducer "consensus_policy uni r" for uni r
proof
  fix ocs d
  assume "consensus_policy uni r ocs = (d, None)"
  then show "\<exists>i<length ocs. usable (ocs ! i) \<and> con_Used (dec_Considered d ! i) \<and>
      dec_Response d = oc_Response (ocs ! i)"
    using consensus_cases [OF iteration_id, of uni r ocs]
    by (auto simp: consensus_policy_def is_best_def) (metis class_of_usable considered_nth
        contribution_def Contribution.select_convs(2))
next
  fix ocs d e
  assume "consensus_policy uni r ocs = (d, Some e)"
  then show "dec_Response d = None"
    using consensus_cases [OF iteration_id, of uni r ocs] by (auto simp: consensus_policy_def)
next
  fix ocs d oe
  assume "consensus_policy uni r ocs = (d, oe)"
  then show "\<exists>used. used \<subseteq> {i. i < length ocs \<and> usable (ocs ! i)} \<and>
      dec_Considered d = considered used ocs \<and> dec_Accounting d = accounting ocs"
    using consensus_cases [OF iteration_id, of uni r ocs]
  proof (elim disjE)
    assume "\<exists>k i. majority (length (filter usable ocs)) (class_of (normalizer uni r) ocs k) \<and>
      is_best (rank_at (cr_Order r) ocs) (set (class_of (normalizer uni r) ocs k)) i \<and>
      consensus_Apply uni id r (Some ocs) =
       (Some \<lparr>dec_Response = oc_Response (ocs ! i),
              dec_Considered = considered (set (class_of (normalizer uni r) ocs k)) ocs,
              dec_Accounting = accounting ocs\<rparr>, None)"
      and "consensus_policy uni r ocs = (d, oe)"
    then obtain k where "dec_Considered d = considered (set (class_of (normalizer uni r) ocs k)) ocs"
      "dec_Accounting d = accounting ocs" by (auto simp: consensus_policy_def)
    then show ?thesis using class_of_usable [of _ "normalizer uni r" ocs k] by blast
  qed (auto simp: consensus_policy_def intro!: exI [of _ "{}"])
qed

section \<open>Dispatch and policy together\<close>

text \<open>A dispatcher and a reducer wired together, as the brain wires them: a reply without an
  error was produced by one of the models handed to the dispatcher.\<close>

locale answering_pipeline = dispatcher dispatch tmo + reducer apply_policy
  for dispatch :: "Request \<Rightarrow> Model list \<Rightarrow> Outcome list \<Rightarrow> bool" and tmo :: duration
    and apply_policy :: "Outcome list \<Rightarrow> Decision \<times> go_error option"
begin

lemma reply_of_given_model:
  assumes "dispatch req ms ocs" and "apply_policy ocs = (d, None)"
  shows "\<exists>m\<in>set ms. \<exists>c. m_Generate m c req = Returned (dec_Response d, None) \<and> dec_Response d \<noteq> None"
proof -
  from ok_response [OF assms(2)] obtain i where i: "i < length ocs" "usable (ocs ! i)"
    and d: "dec_Response d = oc_Response (ocs ! i)" by auto
  from usable_of_given_model [OF assms(1) nth_mem [OF i(1)] i(2)] d i(2) show ?thesis
    by (auto simp: usable_def)
qed

end

interpretation fan_priority: answering_pipeline "fan_dispatch co" "perModelTimeout co" "priority_policy order"
  for co order by unfold_locales

interpretation fan_consensus: answering_pipeline "fan_dispatch co" "perModelTimeout co" "consensus_policy uni r"
  for co uni r by unfold_locales

interpretation seq_priority: answering_pipeline "seq_dispatch tmo" tmo "priority_policy order"
  for tmo order by unfold_locales

interpretation seq_consensus: answering_pipeline "seq_dispatch tmo" tmo "consensus_policy uni r"
  for tmo uni r by unfold_locales

end
