(* ===== verification/Action_State.thy ===== *)
theory Action_State
  imports Korvun_Prelude
begin

text \<open>
  The state machines of the action kernel: the action states and their transition table
  (\<open>internal/action/state.go\<close>), the lifecycle of intents and grants
  (\<open>internal/action/contract.go\<close>), and the classifier that names the state a tool run closes
  on (\<open>internal/tool/outcome.go\<close>). Both machines are instances of one interface, a
  fail-closed machine of bounded height.
\<close>

section \<open>Fail-closed machines\<close>

text \<open>
  A finite acyclic machine whose terminal states have no exits and whose other reachable states
  have one: every run is bounded, can always be completed, and stops for good once terminal.
\<close>

locale fail_closed_machine =
  fixes edge :: "'s \<Rightarrow> 's \<Rightarrow> bool" and terminal :: "'s \<Rightarrow> bool" and initial :: 's
    and height :: "'s \<Rightarrow> nat"
  assumes edge_height: "edge s t \<Longrightarrow> height t < height s"
    and terminal_closed: "terminal s \<Longrightarrow> \<not> edge s t"
    and progress: "edge\<^sup>*\<^sup>* initial s \<Longrightarrow> \<not> terminal s \<Longrightarrow> \<exists>t. edge s t"
begin

lemma path_height: "(edge ^^ n) s t \<Longrightarrow> n + height t \<le> height s"
proof (induction n arbitrary: t)
  case 0
  then show ?case by simp
next
  case (Suc n)
  then obtain u where "(edge ^^ n) s u" "edge u t" by auto
  with Suc.IH [of u] edge_height [of u t] show ?case by simp
qed

lemma runs_bounded: "(edge ^^ n) initial t \<Longrightarrow> n \<le> height initial"
  using path_height by fastforce

lemma no_return: "\<not> edge\<^sup>+\<^sup>+ s s"
proof
  assume "edge\<^sup>+\<^sup>+ s s"
  then obtain n where "n > 0" "(edge ^^ n) s s" by (auto simp: tranclp_power)
  with path_height [of n s s] show False by simp
qed

lemma terminal_stays: "terminal s \<Longrightarrow> edge\<^sup>*\<^sup>* s t \<Longrightarrow> t = s"
  using terminal_closed by (auto elim: converse_rtranclpE)

lemma can_complete: "edge\<^sup>*\<^sup>* initial s \<Longrightarrow> \<exists>t. edge\<^sup>*\<^sup>* s t \<and> terminal t"
proof (induction "height s" arbitrary: s rule: less_induct)
  case less
  show ?case
  proof (cases "terminal s")
    case True
    then show ?thesis by blast
  next
    case False
    then obtain t where t: "edge s t" using progress less.prems by blast
    then have "edge\<^sup>*\<^sup>* initial t" using less.prems by auto
    with less.hyps [OF edge_height [OF t]] t show ?thesis by (meson converse_rtranclp_into_rtranclp)
  qed
qed

end

section \<open>Action states\<close>

datatype State =
    StateReceived | StateNormalized | StateDenied | StateShadowed | StateAuthorized
  | StateSucceeded | StateFailed
  | StatePendingApproval | StateRejected | StateApproved
  | StatePreparing | StatePrepareFailed | StatePrepared | StateCommitting
  | StateOutcomeUnknown | StateCompensating | StateCompensated | StateCompensationFailed
  | StateOther string

definition ErrInvalidTransition :: go_error where
  "ErrInvalidTransition = Sentinel ''action: invalid state transition''"

definition transitions :: "State \<Rightarrow> State list" where
  "transitions from =
     (case from of
        StateReceived \<Rightarrow> [StateNormalized]
      | StateNormalized \<Rightarrow> [StateDenied, StateShadowed, StateAuthorized, StatePendingApproval]
      | StateAuthorized \<Rightarrow> [StateSucceeded, StateFailed, StateOutcomeUnknown]
      | StatePendingApproval \<Rightarrow> [StateRejected, StateApproved]
      | StateApproved \<Rightarrow> [StateSucceeded, StateFailed, StateOutcomeUnknown]
      | _ \<Rightarrow> [])"

definition Transition :: "State \<Rightarrow> State \<Rightarrow> go_error option" where
  "Transition from to' =
     (if to' \<in> set (transitions from) then None
      else Some (Errorf ''action: invalid state transition'' [ErrInvalidTransition]))"

definition Terminal :: "State \<Rightarrow> bool" where
  "Terminal s \<longleftrightarrow> s \<in> {StateDenied, StateShadowed, StateSucceeded, StateFailed, StateRejected, StateOutcomeUnknown}"

text \<open>One step of an action: an edge the table admits.\<close>

inductive action_step :: "State \<Rightarrow> State \<Rightarrow> bool" where
  action_step: "Transition s t = None \<Longrightarrow> action_step s t"

inductive_simps action_step_iff: "action_step s t"

definition state_height :: "State \<Rightarrow> nat" where
  "state_height s =
     (case s of StateReceived \<Rightarrow> 4 | StateNormalized \<Rightarrow> 3 | StatePendingApproval \<Rightarrow> 2
      | StateAuthorized \<Rightarrow> 1 | StateApproved \<Rightarrow> 1 | _ \<Rightarrow> 0)"

definition reachable_states :: "State set" where
  "reachable_states = {StateReceived, StateNormalized, StateDenied, StateShadowed, StateAuthorized,
     StateSucceeded, StateFailed, StatePendingApproval, StateRejected, StateApproved, StateOutcomeUnknown}"

lemma Transition_None: "Transition s t = None \<longleftrightarrow> t \<in> set (transitions s)"
  by (simp add: Transition_def)

lemma Transition_error: "Transition s t = Some e \<Longrightarrow> errors_Is e ErrInvalidTransition"
  by (auto simp: Transition_def ErrInvalidTransition_def split: if_splits)

lemma step_closed: "s \<in> reachable_states \<Longrightarrow> action_step s t \<Longrightarrow> t \<in> reachable_states"
  by (auto simp: reachable_states_def action_step_iff Transition_None transitions_def split: State.splits)

lemma reach_sound: "action_step\<^sup>*\<^sup>* StateReceived s \<Longrightarrow> s \<in> reachable_states"
proof (induction rule: rtranclp_induct)
  case base
  then show ?case by (simp add: reachable_states_def)
next
  case (step s t)
  from step.IH step.hyps(2) show ?case by (rule step_closed)
qed

interpretation action_machine: fail_closed_machine action_step Terminal StateReceived state_height
proof
  show "action_step s t \<Longrightarrow> state_height t < state_height s" for s t
    by (auto simp: action_step_iff Transition_None transitions_def state_height_def split: State.splits)
  show "Terminal s \<Longrightarrow> \<not> action_step s t" for s t
    by (auto simp: Terminal_def action_step_iff Transition_None transitions_def)
  show "action_step\<^sup>*\<^sup>* StateReceived s \<Longrightarrow> \<not> Terminal s \<Longrightarrow> \<exists>t. action_step s t" for s
    by (drule reach_sound)
      (auto simp: reachable_states_def Terminal_def action_step_iff Transition_None transitions_def)
qed

section \<open>The lifecycle of intents and grants\<close>

datatype LifecycleStatus = LifecycleDraft | LifecycleActive | LifecycleExpired | LifecycleRevoked
  | LifecycleOther string

definition ErrInvalidLifecycleTransition :: go_error where
  "ErrInvalidLifecycleTransition = Sentinel ''action: invalid lifecycle transition''"

definition lifecycleTransitions :: "LifecycleStatus \<Rightarrow> LifecycleStatus list" where
  "lifecycleTransitions from =
     (case from of
        LifecycleDraft \<Rightarrow> [LifecycleActive]
      | LifecycleActive \<Rightarrow> [LifecycleExpired, LifecycleRevoked]
      | _ \<Rightarrow> [])"

definition LifecycleTransition :: "LifecycleStatus \<Rightarrow> LifecycleStatus \<Rightarrow> go_error option" where
  "LifecycleTransition from to' =
     (if to' \<in> set (lifecycleTransitions from) then None
      else Some (Errorf ''%w: %s -> %s'' [ErrInvalidLifecycleTransition]))"

definition Lifecycle_Terminal :: "LifecycleStatus \<Rightarrow> bool" where
  "Lifecycle_Terminal s \<longleftrightarrow> s \<in> {LifecycleExpired, LifecycleRevoked}"

inductive lifecycle_step :: "LifecycleStatus \<Rightarrow> LifecycleStatus \<Rightarrow> bool" where
  lifecycle_step: "LifecycleTransition s t = None \<Longrightarrow> lifecycle_step s t"

inductive_simps lifecycle_step_iff: "lifecycle_step s t"

definition lifecycle_height :: "LifecycleStatus \<Rightarrow> nat" where
  "lifecycle_height s = (case s of LifecycleDraft \<Rightarrow> 2 | LifecycleActive \<Rightarrow> 1 | _ \<Rightarrow> 0)"

lemma LifecycleTransition_None: "LifecycleTransition s t = None \<longleftrightarrow> t \<in> set (lifecycleTransitions s)"
  by (simp add: LifecycleTransition_def)

lemma lifecycle_reach:
  "lifecycle_step\<^sup>*\<^sup>* LifecycleDraft s \<Longrightarrow>
   s \<in> {LifecycleDraft, LifecycleActive, LifecycleExpired, LifecycleRevoked}"
  by (induction rule: rtranclp_induct)
    (auto simp: lifecycle_step_iff LifecycleTransition_None lifecycleTransitions_def)

interpretation lifecycle_machine:
  fail_closed_machine lifecycle_step Lifecycle_Terminal LifecycleDraft lifecycle_height
proof
  show "lifecycle_step s t \<Longrightarrow> lifecycle_height t < lifecycle_height s" for s t
    by (auto simp: lifecycle_step_iff LifecycleTransition_None lifecycleTransitions_def
        lifecycle_height_def split: LifecycleStatus.splits)
  show "Lifecycle_Terminal s \<Longrightarrow> \<not> lifecycle_step s t" for s t
    by (auto simp: Lifecycle_Terminal_def lifecycle_step_iff LifecycleTransition_None lifecycleTransitions_def)
  show "lifecycle_step\<^sup>*\<^sup>* LifecycleDraft s \<Longrightarrow> \<not> Lifecycle_Terminal s \<Longrightarrow> \<exists>t. lifecycle_step s t" for s
    by (drule lifecycle_reach)
      (auto simp: Lifecycle_Terminal_def lifecycle_step_iff LifecycleTransition_None lifecycleTransitions_def)
qed

section \<open>The state a tool run closes on\<close>

definition ErrCageViolation :: go_error where
  "ErrCageViolation = Sentinel ''tool: cage violation''"
definition ErrShieldViolation :: go_error where
  "ErrShieldViolation = Sentinel ''tool: private network shield violation''"
definition ErrRedirectRefused :: go_error where
  "ErrRedirectRefused = Sentinel ''tool: redirect refused by the cage''"
definition ErrEffectDelivered :: go_error where
  "ErrEffectDelivered = Sentinel ''tool: the receiver answered and the answer was not a usable success''"
definition ErrDeliveryUnknown :: go_error where
  "ErrDeliveryUnknown = Sentinel ''tool: a connection was obtained and no answer was read; whether the request left is not known''"
definition ErrNotSent :: go_error where
  "ErrNotSent = Sentinel ''tool: no connection was obtained; nothing was sent''"

definition CloseStateAfterRun :: "go_error option \<Rightarrow> State" where
  "CloseStateAfterRun err =
     (case err of
        None \<Rightarrow> StateSucceeded
      | Some e \<Rightarrow>
          (if errors_Is e ErrEffectDelivered \<or> errors_Is e ErrDeliveryUnknown then StateOutcomeUnknown
           else if errors_Is e ErrNotSent then StateFailed
           else if errors_Is e context_DeadlineExceeded \<or> errors_Is e context_Canceled
             then StateOutcomeUnknown
           else StateFailed))"

section \<open>Properties of the action machine\<close>

lemma reach_step: "action_step\<^sup>*\<^sup>* StateReceived s \<Longrightarrow> t \<in> set (transitions s) \<Longrightarrow> action_step\<^sup>*\<^sup>* StateReceived t"
  by (metis Transition_None action_step rtranclp.rtrancl_into_rtrancl)

lemma reach_complete: "s \<in> reachable_states \<Longrightarrow> action_step\<^sup>*\<^sup>* StateReceived s"
proof -
  have n: "action_step\<^sup>*\<^sup>* StateReceived StateNormalized"
    by (rule reach_step [of StateReceived]) (simp_all add: transitions_def)
  have a: "action_step\<^sup>*\<^sup>* StateReceived StateAuthorized"
    by (rule reach_step [OF n]) (simp add: transitions_def)
  have p: "action_step\<^sup>*\<^sup>* StateReceived StatePendingApproval"
    by (rule reach_step [OF n]) (simp add: transitions_def)
  assume "s \<in> reachable_states"
  then show ?thesis
    using n a p reach_step [OF n, of s] reach_step [OF a, of s] reach_step [OF p, of s]
    by (auto simp: reachable_states_def transitions_def)
qed

text \<open>
  The reachable action states are exactly the eleven that the table wakes; the reserved
  states of later stages and any unknown state name are unreachable from \<open>RECEIVED\<close>.
\<close>

theorem action_states_reachable: "{s. action_step\<^sup>*\<^sup>* StateReceived s} = reachable_states"
  using reach_sound reach_complete by blast

text \<open>
  Every action can be closed and is closed once. From a state reachable from
  \<open>RECEIVED\<close> a terminal state is reachable; a reachable state is terminal exactly when it has
  no outgoing edge; a run has at most four transitions and never returns to a state.
\<close>

theorem action_runs_close:
  "(\<forall>s. action_step\<^sup>*\<^sup>* StateReceived s \<longrightarrow>
      (\<exists>t. action_step\<^sup>*\<^sup>* s t \<and> Terminal t) \<and> (Terminal s \<longleftrightarrow> (\<nexists>t. action_step s t))) \<and>
   (\<forall>n t. (action_step ^^ n) StateReceived t \<longrightarrow> n \<le> 4) \<and> (\<forall>s. \<not> action_step\<^sup>+\<^sup>+ s s)"
  using action_machine.can_complete action_machine.progress action_machine.terminal_closed
    action_machine.runs_bounded action_machine.no_return
  by (auto simp: state_height_def) blast

theorem action_runs_close_witness:
  "\<exists>t. action_step\<^sup>*\<^sup>* StatePendingApproval t \<and> Terminal t"
  using action_runs_close reach_complete [of StatePendingApproval]
  by (auto simp: reachable_states_def)

text \<open>The states an action went through, as a list of consecutive edges.\<close>

fun action_path :: "State list \<Rightarrow> bool" where
  "action_path [] = True"
| "action_path [s] = True"
| "action_path (s # t # ss) = (Transition s t = None \<and> action_path (t # ss))"

lemma action_path_pred:
  "action_path (xs @ [t]) \<Longrightarrow> xs \<noteq> [] \<Longrightarrow> action_path xs \<and> Transition (last xs) t = None"
proof (induction xs rule: action_path.induct)
  case (3 s t ss)
  then show ?case by simp
qed auto

lemma transitions_into:
  "Transition s t = None \<Longrightarrow> t \<in> {StateSucceeded, StateFailed, StateOutcomeUnknown} \<Longrightarrow>
     s = StateAuthorized \<or> s = StateApproved"
  "Transition s StateApproved = None \<Longrightarrow> s = StatePendingApproval"
  by (auto simp: Transition_None transitions_def split: State.splits)

text \<open>
  Nothing runs unauthorised. Whenever the history of an action, from \<open>RECEIVED\<close> through
  valid transitions, ends in a state that an execution leaves (\<open>SUCCEEDED\<close>, \<open>FAILED\<close> or
  \<open>OUTCOME_UNKNOWN\<close>), it passed through \<open>AUTHORIZED\<close>, or it was parked in
  \<open>PENDING_APPROVAL\<close> and then \<open>APPROVED\<close>, immediately before.
\<close>

theorem executed_implies_authorised:
  assumes "action_path (StateReceived # p @ [t])"
    and "t \<in> {StateSucceeded, StateFailed, StateOutcomeUnknown}"
  shows "p \<noteq> [] \<and> (last p = StateAuthorized \<or>
     (last p = StateApproved \<and> (\<exists>q. p = q @ [StatePendingApproval, StateApproved])))"
proof -
  have 1: "action_path (StateReceived # p)" "Transition (last (StateReceived # p)) t = None"
    using action_path_pred [of "StateReceived # p" t] assms(1) by auto
  from transitions_into(1) [OF 1(2) assms(2)]
  have l: "last (StateReceived # p) = StateAuthorized \<or> last (StateReceived # p) = StateApproved" .
  then have ne: "p \<noteq> []" by auto
  moreover have "\<exists>q. p = q @ [StatePendingApproval, StateApproved]" if a: "last p = StateApproved"
  proof -
    let ?xs = "StateReceived # butlast p"
    have "action_path (?xs @ [StateApproved])" using 1(1) ne a
      by (metis append_Cons append_butlast_last_id)
    from action_path_pred [OF this] have "Transition (last ?xs) StateApproved = None" by simp
    from transitions_into(2) [OF this] have lb: "last ?xs = StatePendingApproval" .
    then have nb: "butlast p \<noteq> []" by auto
    with lb have "butlast p = butlast (butlast p) @ [StatePendingApproval]"
      by (metis append_butlast_last_id last_ConsR)
    with ne a have "p = butlast (butlast p) @ [StatePendingApproval, StateApproved]"
      by (metis append_Cons append_Nil append_assoc append_butlast_last_id)
    then show ?thesis by blast
  qed
  ultimately show ?thesis using l by auto
qed

text \<open>
  The outcome of a tool run is classified honestly and always fits the machine. The close
  state is an edge of the table from both \<open>AUTHORIZED\<close> and \<open>APPROVED\<close>; it is
  \<open>SUCCEEDED\<close> exactly for a nil error; and it is \<open>FAILED\<close> only when the tool reported
  neither that the receiver answered nor that delivery is unknown, and either proved that nothing
  was sent or did not end on a deadline or a cancellation.
\<close>

theorem CloseStateAfterRun_honest:
  "Transition StateAuthorized (CloseStateAfterRun err) = None \<and>
   Transition StateApproved (CloseStateAfterRun err) = None \<and>
   (CloseStateAfterRun err = StateSucceeded \<longleftrightarrow> err = None) \<and>
   (CloseStateAfterRun err = StateFailed \<longleftrightarrow>
      (\<exists>e. err = Some e \<and> \<not> errors_Is e ErrEffectDelivered \<and> \<not> errors_Is e ErrDeliveryUnknown \<and>
         (errors_Is e ErrNotSent \<or>
          \<not> errors_Is e context_DeadlineExceeded \<and> \<not> errors_Is e context_Canceled)))"
  by (auto simp: CloseStateAfterRun_def Transition_def transitions_def split: option.splits)

end
