(* ===== verification/Authority.thy ===== *)
theory Authority
  imports Action_State
begin

text \<open>
  Intents, grants and budgets of the action kernel: the effect ladder
  (\<open>internal/action/effect.go\<close>), the contract records (\<open>contract.go\<close>), delegation by
  attenuation (\<open>attenuation.go\<close>), validity at an instant (\<open>validity.go\<close>), the in-memory
  budget ledger (\<open>budget.go\<close>) and its durable form
  (\<open>internal/action/sqlite/budget.go\<close>).
\<close>

section \<open>The effect ladder\<close>

text \<open>An effect class is a string of the source; \<open>EffectOther\<close> is any string outside the six
  sealed ones, and \<open>EffectOther ''''\<close> the zero value.\<close>

datatype EffectClass = EffectPure | EffectReadExternal | EffectWriteReversible
  | EffectWriteCompensatable | EffectWriteIrreversible | EffectCritical | EffectOther string

definition effectRanks :: "EffectClass \<Rightarrow> nat option" where
  "effectRanks c = (case c of
     EffectPure \<Rightarrow> Some 0 | EffectReadExternal \<Rightarrow> Some 1 | EffectWriteReversible \<Rightarrow> Some 2
   | EffectWriteCompensatable \<Rightarrow> Some 3 | EffectWriteIrreversible \<Rightarrow> Some 4 | EffectCritical \<Rightarrow> Some 5
   | EffectOther _ \<Rightarrow> None)"

definition unknownEffectRank :: nat where "unknownEffectRank = 6"

definition OnLadder :: "EffectClass \<Rightarrow> bool" where
  "OnLadder c \<longleftrightarrow> effectRanks c \<noteq> None"

definition Rank :: "EffectClass \<Rightarrow> nat" where
  "Rank c = (case effectRanks c of Some r \<Rightarrow> r | None \<Rightarrow> unknownEffectRank)"

definition Known :: "EffectClass \<Rightarrow> bool" where
  "Known c \<longleftrightarrow> effectRanks c \<noteq> None"

record EffectDescriptor =
  ed_Class :: EffectClass
  ed_ReadsExternalState :: bool
  ed_WritesExternalState :: bool
  ed_DataEgress :: bool
  ed_Reversible :: bool
  ed_Compensatable :: bool

lemmas effect_defs = effectRanks_def unknownEffectRank_def OnLadder_def Rank_def Known_def

lemma Rank_unknown: "\<not> Known c \<Longrightarrow> Known d \<Longrightarrow> Rank d < Rank c"
  by (cases c; cases d) (auto simp: effect_defs)

lemma Rank_inj: "Known c \<Longrightarrow> Known d \<Longrightarrow> Rank c = Rank d \<Longrightarrow> c = d"
  by (cases c; cases d) (auto simp: effect_defs)

section \<open>Contracts\<close>

record Budgets =
  MaxActions :: int
  MaxActionsPerOperation :: "string \<rightharpoonup> int"

record IntentContract =
  int_IntentID :: string
  int_SchemaVersion :: int
  int_OwnerPrincipalID :: string
  int_Purpose :: string
  int_AllowedOperations :: "string list"
  int_AllowedResources :: "string list"
  int_Budgets :: Budgets
  int_ValidFrom :: time
  int_ExpiresAt :: time
  int_Status :: LifecycleStatus
  int_Version :: int

record AuthorityGrant =
  gr_GrantID :: string
  gr_IntentID :: string
  gr_IssuerPrincipalID :: string
  gr_SubjectPrincipalID :: string
  gr_ParentGrantID :: string
  gr_Operations :: "string list"
  gr_ResourceScope :: "string list"
  gr_Budgets :: Budgets
  gr_ValidFrom :: time
  gr_ExpiresAt :: time
  gr_DelegationDepthRemaining :: int
  gr_EffectCeiling :: EffectClass
  gr_Status :: LifecycleStatus

datatype PrincipalType = PrincipalOperatorHuman | PrincipalAgentBrain | PrincipalChannelPeer
  | PrincipalOther string

record Principal =
  pr_PrincipalID :: string
  pr_Type :: PrincipalType
  pr_DisplayName :: string
  pr_ResponsibleHumanID :: string
  pr_CreatedAt :: time
  pr_DisabledAt :: time

definition unlimited :: Budgets where
  "unlimited = \<lparr>MaxActions = 0, MaxActionsPerOperation = Map.empty\<rparr>"

section \<open>Validity at an instant\<close>

definition RuleIntentInactive :: string where "RuleIntentInactive = ''intent_inactive''"
definition RuleIntentExpired :: string where "RuleIntentExpired = ''intent_expired''"
definition RuleAuthorityExpired :: string where "RuleAuthorityExpired = ''authority_expired''"
definition RuleAuthorityRevoked :: string where "RuleAuthorityRevoked = ''authority_revoked''"
definition RuleAuthorityInactive :: string where "RuleAuthorityInactive = ''authority_inactive''"
definition RuleBudgetExhausted :: string where "RuleBudgetExhausted = ''budget_exhausted''"
definition RulePrincipalDisabled :: string where "RulePrincipalDisabled = ''principal_disabled''"

lemmas rule_defs = RuleIntentInactive_def RuleIntentExpired_def RuleAuthorityExpired_def
  RuleAuthorityRevoked_def RuleAuthorityInactive_def RuleBudgetExhausted_def RulePrincipalDisabled_def

definition ValidateIntentAt :: "IntentContract \<Rightarrow> time \<Rightarrow> string" where
  "ValidateIntentAt c at =
     (if int_Status c \<noteq> LifecycleActive then RuleIntentInactive
      else if at < int_ValidFrom c then RuleIntentInactive
      else if \<not> IsZero (int_ExpiresAt c) \<and> \<not> at < int_ExpiresAt c then RuleIntentExpired
      else '''')"

definition ValidateGrantAt :: "AuthorityGrant \<Rightarrow> time \<Rightarrow> string" where
  "ValidateGrantAt g at =
     (case gr_Status g of
        LifecycleRevoked \<Rightarrow> RuleAuthorityRevoked
      | LifecycleExpired \<Rightarrow> RuleAuthorityExpired
      | LifecycleActive \<Rightarrow>
          (if at < gr_ValidFrom g then RuleAuthorityInactive
           else if \<not> IsZero (gr_ExpiresAt g) \<and> \<not> at < gr_ExpiresAt g then RuleAuthorityExpired
           else '''')
      | _ \<Rightarrow> RuleAuthorityInactive)"

definition ValidatePrincipalAt :: "Principal \<Rightarrow> time \<Rightarrow> string" where
  "ValidatePrincipalAt p at =
     (if \<not> IsZero (pr_DisabledAt p) \<and> \<not> at < pr_DisabledAt p then RulePrincipalDisabled else '''')"

lemma ValidateIntentAt_iff:
  "ValidateIntentAt c at = '''' \<longleftrightarrow>
   int_Status c = LifecycleActive \<and> in_window (int_ValidFrom c) (int_ExpiresAt c) at"
  by (auto simp: ValidateIntentAt_def rule_defs in_window_def)

lemma ValidateGrantAt_iff:
  "ValidateGrantAt g at = '''' \<longleftrightarrow>
   gr_Status g = LifecycleActive \<and> in_window (gr_ValidFrom g) (gr_ExpiresAt g) at"
  by (auto simp: ValidateGrantAt_def rule_defs in_window_def split: LifecycleStatus.splits)

section \<open>Delegation by attenuation\<close>

definition ErrAttenuationViolated :: go_error where
  "ErrAttenuationViolated = Sentinel ''action: delegation widens authority''"

definition ErrAuthorityEvidenceCorrupt :: go_error where
  "ErrAuthorityEvidenceCorrupt = Sentinel ''action: authority evidence corrupt''"

definition widens :: "string \<Rightarrow> string \<Rightarrow> go_error" where
  "widens dimension detail = Errorf (dimension @ '' ('' @ detail @ '')'') [ErrAttenuationViolated]"

fun coveredBy :: "string \<Rightarrow> string list \<Rightarrow> bool" where
  "coveredBy item [] = False"
| "coveredBy item (s # ss) = (if s = item \<or> s = ''*'' then True else coveredBy item ss)"

definition ValidateAttenuation :: "AuthorityGrant \<Rightarrow> AuthorityGrant \<Rightarrow> go_error option" where
  "ValidateAttenuation parent child =
     (if gr_IntentID child \<noteq> gr_IntentID parent
        then Some (widens ''intent'' ''child leaves the parent's intent'')
      else if gr_ParentGrantID child \<noteq> gr_GrantID parent
        then Some (widens ''parent'' ''child does not name this grant as its delegation parent'')
      else if gr_IssuerPrincipalID child \<noteq> gr_SubjectPrincipalID parent
        then Some (widens ''issuer'' ''only the parent's subject may issue the child'')
      else if gr_DelegationDepthRemaining parent \<le> 0
        then Some (widens ''depth'' ''parent has no delegation depth remaining'')
      else if gr_DelegationDepthRemaining child \<ge> gr_DelegationDepthRemaining parent
        then Some (widens ''depth'' ''child depth must strictly decrease'')
      else (case find (\<lambda>op. \<not> coveredBy op (gr_Operations parent)) (gr_Operations child) of
        Some op \<Rightarrow> Some (widens ''operations'' (''operation '' @ op @ '' is not covered by the parent''))
      | None \<Rightarrow>
      (case find (\<lambda>r. \<not> coveredBy r (gr_ResourceScope parent)) (gr_ResourceScope child) of
        Some r \<Rightarrow> Some (widens ''resources'' (''resource '' @ r @ '' is not covered by the parent''))
      | None \<Rightarrow>
      (if MaxActions (gr_Budgets parent) \<noteq> 0 \<and>
          (MaxActions (gr_Budgets child) = 0 \<or>
           MaxActions (gr_Budgets child) > MaxActions (gr_Budgets parent))
        then Some (widens ''budget'' ''child max_actions must be limited within the parent's'')
      else if \<not> IsZero (gr_ExpiresAt parent) \<and>
          (IsZero (gr_ExpiresAt child) \<or> gr_ExpiresAt child > gr_ExpiresAt parent)
        then Some (widens ''expiry'' ''child must expire no later than the parent'')
      else if gr_EffectCeiling parent \<noteq> EffectOther '''' \<and> gr_EffectCeiling child = EffectOther ''''
        then Some (widens ''effect_ceiling'' ''child must carry a ceiling within the parent's'')
      else if gr_EffectCeiling parent \<noteq> EffectOther '''' \<and>
          Rank (gr_EffectCeiling child) > Rank (gr_EffectCeiling parent)
        then Some (widens ''effect_ceiling'' ''child ceiling exceeds the parent's on the effect ladder'')
      else if gr_ValidFrom child < gr_ValidFrom parent
        then Some (widens ''window'' ''child validity must not start before the parent's'')
      else None))))"

text \<open>What it means for one grant to stay within another, as sets of what they permit.\<close>

definition authority_within :: "AuthorityGrant \<Rightarrow> AuthorityGrant \<Rightarrow> bool" where
  "authority_within child anc \<longleftrightarrow>
     gr_IntentID child = gr_IntentID anc \<and>
     (\<forall>op. coveredBy op (gr_Operations child) \<longrightarrow> coveredBy op (gr_Operations anc)) \<and>
     (\<forall>r. coveredBy r (gr_ResourceScope child) \<longrightarrow> coveredBy r (gr_ResourceScope anc)) \<and>
     (\<forall>t. in_window (gr_ValidFrom child) (gr_ExpiresAt child) t \<longrightarrow>
          in_window (gr_ValidFrom anc) (gr_ExpiresAt anc) t) \<and>
     (MaxActions (gr_Budgets anc) \<noteq> 0 \<longrightarrow>
        MaxActions (gr_Budgets child) \<noteq> 0 \<and>
        MaxActions (gr_Budgets child) \<le> MaxActions (gr_Budgets anc)) \<and>
     (gr_EffectCeiling anc \<noteq> EffectOther '''' \<longrightarrow>
        gr_EffectCeiling child \<noteq> EffectOther '''' \<and>
        Rank (gr_EffectCeiling child) \<le> Rank (gr_EffectCeiling anc))"

lemma authority_within_refl [simp]: "authority_within g g"
  by (simp add: authority_within_def)

lemma authority_within_trans:
  "authority_within a b \<Longrightarrow> authority_within b c \<Longrightarrow> authority_within a c"
  unfolding authority_within_def by fastforce

lemma coveredBy_iff: "coveredBy item ss \<longleftrightarrow> item \<in> set ss \<or> ''*'' \<in> set ss"
  by (induction ss) auto

lemma coveredBy_mono:
  assumes "\<forall>s\<in>set cs. coveredBy s ps" and "coveredBy item cs"
  shows "coveredBy item ps"
  using assms by (auto simp: coveredBy_iff)

lemma find_uncovered: "find (\<lambda>x. \<not> coveredBy x ps) cs = None \<longleftrightarrow> (\<forall>s\<in>set cs. coveredBy s ps)"
  by (auto simp: find_None_iff)

lemma ValidateAttenuation_covered:
  assumes "ValidateAttenuation p c = None"
  shows "find (\<lambda>op. \<not> coveredBy op (gr_Operations p)) (gr_Operations c) = None"
    and "find (\<lambda>r. \<not> coveredBy r (gr_ResourceScope p)) (gr_ResourceScope c) = None"
  using assms unfolding ValidateAttenuation_def
  by (cases "find (\<lambda>op. \<not> coveredBy op (gr_Operations p)) (gr_Operations c)";
      cases "find (\<lambda>r. \<not> coveredBy r (gr_ResourceScope p)) (gr_ResourceScope c)"; simp split: if_split_asm)+

lemma ValidateAttenuation_dest:
  assumes "ValidateAttenuation p c = None"
  shows "gr_IntentID c = gr_IntentID p" "gr_ParentGrantID c = gr_GrantID p"
    "gr_IssuerPrincipalID c = gr_SubjectPrincipalID p"
    "0 < gr_DelegationDepthRemaining p"
    "gr_DelegationDepthRemaining c < gr_DelegationDepthRemaining p"
    "\<forall>s\<in>set (gr_Operations c). coveredBy s (gr_Operations p)"
    "\<forall>s\<in>set (gr_ResourceScope c). coveredBy s (gr_ResourceScope p)"
    "MaxActions (gr_Budgets p) \<noteq> 0 \<longrightarrow> MaxActions (gr_Budgets c) \<noteq> 0 \<and>
       MaxActions (gr_Budgets c) \<le> MaxActions (gr_Budgets p)"
    "\<not> IsZero (gr_ExpiresAt p) \<longrightarrow> \<not> IsZero (gr_ExpiresAt c) \<and> gr_ExpiresAt c \<le> gr_ExpiresAt p"
    "gr_EffectCeiling p \<noteq> EffectOther '''' \<longrightarrow> gr_EffectCeiling c \<noteq> EffectOther '''' \<and>
       Rank (gr_EffectCeiling c) \<le> Rank (gr_EffectCeiling p)"
    "gr_ValidFrom p \<le> gr_ValidFrom c"
  using assms ValidateAttenuation_covered [OF assms] unfolding find_uncovered
  by (simp_all add: ValidateAttenuation_def ValidateAttenuation_covered [OF assms] split: if_split_asm)
    (auto simp: not_less)

lemma ValidateAttenuation_within:
  assumes "ValidateAttenuation p c = None"
  shows "authority_within c p"
proof -
  note d = ValidateAttenuation_dest [OF assms]
  have "in_window (gr_ValidFrom c) (gr_ExpiresAt c) t \<Longrightarrow> in_window (gr_ValidFrom p) (gr_ExpiresAt p) t" for t
    using d(9,11) by (auto simp: in_window_def)
  then show ?thesis
    unfolding authority_within_def
    using d(1,8,10) coveredBy_mono [OF d(6)] coveredBy_mono [OF d(7)] by blast
qed

text \<open>A validated delegation edge, from parent to child.\<close>

definition delegates :: "AuthorityGrant \<Rightarrow> AuthorityGrant \<Rightarrow> bool" where
  "delegates p c \<longleftrightarrow> ValidateAttenuation p c = None"

lemma delegation_chain:
  "(delegates ^^ n) root leaf \<Longrightarrow>
   authority_within leaf root \<and>
   int n + gr_DelegationDepthRemaining leaf \<le> gr_DelegationDepthRemaining root \<and>
   (0 < n \<longrightarrow> int n \<le> gr_DelegationDepthRemaining root)"
proof (induction n arbitrary: leaf)
  case 0
  then show ?case by simp
next
  case (Suc n)
  then obtain g where g: "(delegates ^^ n) root g" "delegates g leaf" by auto
  from g(2) have v: "ValidateAttenuation g leaf = None" by (simp add: delegates_def)
  note edge = ValidateAttenuation_dest(4,5) [OF v]
  from Suc.IH [OF g(1)] ValidateAttenuation_within [OF v] edge show ?case
    by (auto intro: authority_within_trans)
qed

text \<open>
  Delegation never widens authority. Along any chain of validated delegation edges, the last
  grant permits only operations and resources the first one permits, is in its window only when
  the first one is, carries a budget and an effect ceiling within the first one's whenever that
  one is limited, and stays in the same intent; and a chain is at most as long as the depth the
  first grant may delegate.
\<close>

theorem delegation_never_widens:
  assumes "(delegates ^^ n) root leaf"
  shows "authority_within leaf root \<and>
    int n + gr_DelegationDepthRemaining leaf \<le> gr_DelegationDepthRemaining root \<and>
    (0 < n \<longrightarrow> int n \<le> gr_DelegationDepthRemaining root)"
  using assms by (rule delegation_chain)

definition sample_grant :: AuthorityGrant where
  "sample_grant = \<lparr>gr_GrantID = ''g1'', gr_IntentID = ''int_root'', gr_IssuerPrincipalID = ''op'',
     gr_SubjectPrincipalID = ''brain'', gr_ParentGrantID = '''', gr_Operations = [''*''],
     gr_ResourceScope = [''*''], gr_Budgets = unlimited\<lparr>MaxActions := 10\<rparr>, gr_ValidFrom = 5,
     gr_ExpiresAt = 100, gr_DelegationDepthRemaining = 2, gr_EffectCeiling = EffectWriteReversible,
     gr_Status = LifecycleActive\<rparr>"

definition sample_child :: AuthorityGrant where
  "sample_child = sample_grant\<lparr>gr_GrantID := ''g2'', gr_ParentGrantID := ''g1'',
     gr_IssuerPrincipalID := ''brain'', gr_SubjectPrincipalID := ''sub'', gr_Operations := [''echo''],
     gr_Budgets := unlimited\<lparr>MaxActions := 3\<rparr>, gr_ExpiresAt := 50, gr_DelegationDepthRemaining := 1,
     gr_EffectCeiling := EffectPure\<rparr>"

theorem delegation_never_widens_witness:
  "authority_within sample_child sample_grant"
proof -
  have "delegates sample_grant sample_child"
    by (simp add: delegates_def ValidateAttenuation_def sample_grant_def sample_child_def IsZero_def
        effect_defs unlimited_def)
  then have "(delegates ^^ 1) sample_grant sample_child" by (metis relpowp_1)
  from delegation_never_widens [OF this] show ?thesis by blast
qed

text \<open>
  Validity is decided by the clock and the lifecycle together. An intent or a grant
  authorises at an instant exactly when its status is \<open>ACTIVE\<close> and the instant lies in its
  half-open window; a grant withdrawn by a human is refused as revoked at every instant, inside
  or outside the window.
\<close>

theorem validity_at_instant:
  "(ValidateIntentAt c at = '''' \<longleftrightarrow>
     int_Status c = LifecycleActive \<and> in_window (int_ValidFrom c) (int_ExpiresAt c) at) \<and>
   (ValidateGrantAt g at = '''' \<longleftrightarrow>
     gr_Status g = LifecycleActive \<and> in_window (gr_ValidFrom g) (gr_ExpiresAt g) at) \<and>
   (ValidateGrantAt g at = RuleAuthorityRevoked \<longleftrightarrow> gr_Status g = LifecycleRevoked)"
  using ValidateIntentAt_iff ValidateGrantAt_iff
  by (auto simp: ValidateGrantAt_def rule_defs split: LifecycleStatus.splits)

end
