(* ===== verification/Budget.thy ===== *)
theory Budget
  imports Authority
begin

text \<open>
  Budget consumption: the in-memory ledger (\<open>internal/action/budget.go\<close>) and the durable
  counter table (\<open>internal/action/sqlite/budget.go\<close>). Both implement one interface, the
  conditional consumption of a limited counter, whose clients' lemmas are proved once.
\<close>

section \<open>The interface\<close>

text \<open>The caps of a contract that consuming one more \<open>operation\<close> would break.\<close>

definition cap_reached :: "Budgets \<Rightarrow> int \<Rightarrow> int \<Rightarrow> string \<Rightarrow> bool" where
  "cap_reached b spent per_op operation \<longleftrightarrow>
     (MaxActions b \<noteq> 0 \<and> spent \<ge> MaxActions b) \<or>
     (\<exists>c. MaxActionsPerOperation b operation = Some c \<and> c \<noteq> 0 \<and> per_op \<ge> c)"

text \<open>Any sequence of requests, each on the state the one before left: the serialised writers.\<close>

fun consume_all :: "('s \<Rightarrow> string \<Rightarrow> string \<times> 's) \<Rightarrow> 's \<Rightarrow> string list \<Rightarrow> string list \<times> 's" where
  "consume_all consume s [] = ([], s)"
| "consume_all consume s (operation # ops) =
     (let (r, s') = consume s operation; (rs, s'') = consume_all consume s' ops in (r # rs, s''))"

definition within_caps :: "Budgets \<Rightarrow> int \<Rightarrow> (string \<Rightarrow> int) \<Rightarrow> bool" where
  "within_caps b spent per_op \<longleftrightarrow> (MaxActions b > 0 \<longrightarrow> spent \<le> MaxActions b) \<and>
     (\<forall>operation c. operation \<noteq> '''' \<and> MaxActionsPerOperation b operation = Some c \<and> c > 0 \<longrightarrow>
        per_op operation \<le> c)"

text \<open>
  \<open>consume s op\<close> is a check-and-increment: granted exactly below both caps, it then counts
  one action in the spent and one for the operation; refused, it changes nothing. The laws are
  for operations with a name.
\<close>

locale budget_counter =
  fixes limits :: Budgets
    and consume :: "'s \<Rightarrow> string \<Rightarrow> string \<times> 's"
    and spent :: "'s \<Rightarrow> int"
    and per_op :: "'s \<Rightarrow> string \<Rightarrow> int"
    and valid :: "'s \<Rightarrow> bool"
  assumes consume_refused: "valid s \<Longrightarrow> operation \<noteq> '''' \<Longrightarrow> cap_reached limits (spent s) (per_op s operation) operation \<Longrightarrow>
      consume s operation = (RuleBudgetExhausted, s)"
    and consume_granted: "valid s \<Longrightarrow> operation \<noteq> '''' \<Longrightarrow> \<not> cap_reached limits (spent s) (per_op s operation) operation \<Longrightarrow>
      fst (consume s operation) = ''''"
    and granted_total: "valid s \<Longrightarrow> operation \<noteq> '''' \<Longrightarrow> fst (consume s operation) = '''' \<Longrightarrow>
      spent (snd (consume s operation)) = spent s + 1"
    and granted_per_op: "valid s \<Longrightarrow> operation \<noteq> '''' \<Longrightarrow> op' \<noteq> '''' \<Longrightarrow> fst (consume s operation) = '''' \<Longrightarrow>
      per_op (snd (consume s operation)) op' = (if op' = operation then per_op s op' + 1 else per_op s op')"
    and consume_valid: "valid s \<Longrightarrow> valid (snd (consume s operation))"
begin

lemma refused_iff: "valid s \<Longrightarrow> operation \<noteq> '''' \<Longrightarrow>
    fst (consume s operation) \<noteq> '''' \<longleftrightarrow> cap_reached limits (spent s) (per_op s operation) operation"
  using consume_refused [of s operation] consume_granted [of s operation] by (auto simp: rule_defs)

lemma consume_within:
  assumes "valid s" and "operation \<noteq> ''''" and "within_caps limits (spent s) (per_op s)"
  shows "within_caps limits (spent (snd (consume s operation))) (per_op (snd (consume s operation)))"
proof (cases "cap_reached limits (spent s) (per_op s operation) operation")
  case True
  with assms show ?thesis by (simp add: consume_refused)
next
  case False
  with assms have g: "fst (consume s operation) = ''''" by (simp add: consume_granted)
  show ?thesis
    unfolding within_caps_def
    using assms False granted_total [OF assms(1,2) g] granted_per_op [OF assms(1,2) _ g]
    by (auto simp: within_caps_def cap_reached_def)
qed

lemma consume_all_within:
  assumes "valid s" and "'''' \<notin> set ops" and "within_caps limits (spent s) (per_op s)"
  shows "within_caps limits (spent (snd (consume_all consume s ops))) (per_op (snd (consume_all consume s ops))) \<and> valid (snd (consume_all consume s ops))"
  using assms
proof (induction ops arbitrary: s)
  case Nil
  then show ?case by simp
next
  case (Cons operation ops)
  let ?s = "snd (consume s operation)"
  have "within_caps limits (spent ?s) (per_op ?s)" "valid ?s" using Cons.prems by (auto intro: consume_within consume_valid)
  with Cons.IH [of ?s] Cons.prems show ?case by (simp add: case_prod_beta Let_def)
qed

lemma consume_all_total:
  assumes "valid s" and "'''' \<notin> set ops"
  shows "spent (snd (consume_all consume s ops)) = spent s + int (length (filter (\<lambda>r. r = '''') (fst (consume_all consume s ops))))"
  using assms
proof (induction ops arbitrary: s)
  case Nil
  then show ?case by simp
next
  case (Cons operation ops)
  let ?s = "snd (consume s operation)"
  have v: "valid ?s" using Cons.prems by (simp add: consume_valid)
  have t: "spent ?s = spent s + (if fst (consume s operation) = '''' then 1 else 0)"
    using Cons.prems granted_total [of s operation] consume_refused [of s operation] refused_iff [of s operation]
    by auto
  from Cons.IH [OF v] Cons.prems t show ?case by (auto simp: case_prod_beta Let_def)
qed

end

section \<open>The in-memory ledger\<close>

record BudgetLedger =
  bl_limits :: Budgets
  bl_total :: int
  bl_perOp :: "string \<Rightarrow> int"

definition NewBudgetLedger :: "Budgets \<Rightarrow> BudgetLedger" where
  "NewBudgetLedger b = \<lparr>bl_limits = b, bl_total = 0, bl_perOp = (\<lambda>_. 0)\<rparr>"

definition Consume :: "BudgetLedger \<Rightarrow> string \<Rightarrow> string \<times> BudgetLedger" where
  "Consume l operation =
     (if MaxActions (bl_limits l) \<noteq> 0 \<and> bl_total l \<ge> MaxActions (bl_limits l)
        then (RuleBudgetExhausted, l)
      else if (case MaxActionsPerOperation (bl_limits l) operation of
                 None \<Rightarrow> False | Some opCap \<Rightarrow> opCap \<noteq> 0 \<and> bl_perOp l operation \<ge> opCap)
        then (RuleBudgetExhausted, l)
      else ('''', l\<lparr>bl_total := bl_total l + 1,
                   bl_perOp := (bl_perOp l)(operation := bl_perOp l operation + 1)\<rparr>))"

definition Spent :: "BudgetLedger \<Rightarrow> int" where
  "Spent l = bl_total l"

interpretation ledger: budget_counter b Consume Spent bl_perOp "\<lambda>l. bl_limits l = b" for b
  by unfold_locales
    (auto simp: Consume_def Spent_def cap_reached_def RuleBudgetExhausted_def split: option.splits if_splits)

section \<open>The durable counters\<close>

text \<open>
  The table \<open>budget_spent\<close>, keyed by scope and operation; the key with the empty operation
  is the scope's total. A call runs in one write transaction: \<open>fault\<close> says which of its
  statements fails, and a failure rolls everything back.
\<close>

type_synonym budget_spent = "string \<times> string \<rightharpoonup> int"

datatype fault = NoFault | FailBegin go_error | FailRead go_error | FailExec nat go_error
  | FailCommit go_error

definition budgetTotalKey :: string where "budgetTotalKey = ''''"

definition spent_at :: "budget_spent \<Rightarrow> string \<Rightarrow> string \<Rightarrow> int" where
  "spent_at tbl scope key = (case tbl (scope, key) of None \<Rightarrow> 0 | Some n \<Rightarrow> n)"

definition upsert_spent :: "string \<Rightarrow> string \<Rightarrow> budget_spent \<Rightarrow> budget_spent" where
  "upsert_spent scope key tbl = tbl((scope, key) \<mapsto> spent_at tbl scope key + 1)"

fun write_spent :: "fault \<Rightarrow> nat \<Rightarrow> string \<Rightarrow> string list \<Rightarrow> budget_spent \<Rightarrow> go_error + budget_spent" where
  "write_spent f k scope [] tbl = Inr tbl"
| "write_spent f k scope (key # keys) tbl =
     (case f of
        FailExec n e \<Rightarrow> if n = k then Inl e else write_spent f (Suc k) scope keys (upsert_spent scope key tbl)
      | _ \<Rightarrow> write_spent f (Suc k) scope keys (upsert_spent scope key tbl))"

definition ConsumeBudget ::
    "fault \<Rightarrow> string \<Rightarrow> Budgets \<Rightarrow> string \<Rightarrow> budget_spent \<Rightarrow> (string \<times> go_error option) \<times> budget_spent" where
  "ConsumeBudget f scope limits operation tbl =
     (case f of
        FailBegin e \<Rightarrow> (('''', Some (Errorf ''action/sqlite: begin consume'' [e])), tbl)
      | FailRead e \<Rightarrow> (('''', Some (Errorf ''action/sqlite: read budget'' [e])), tbl)
      | _ \<Rightarrow>
          (let spent = spent_at tbl scope budgetTotalKey; perOp = spent_at tbl scope operation
           in if MaxActions limits \<noteq> 0 \<and> spent \<ge> MaxActions limits
                then ((RuleBudgetExhausted, None), tbl)
              else if (case MaxActionsPerOperation limits operation of
                         None \<Rightarrow> False | Some opCap \<Rightarrow> opCap \<noteq> 0 \<and> perOp \<ge> opCap)
                then ((RuleBudgetExhausted, None), tbl)
              else (let keys = budgetTotalKey # (if operation \<noteq> budgetTotalKey then [operation] else [])
                    in case write_spent f 0 scope keys tbl of
                         Inl e \<Rightarrow> (('''', Some (Errorf ''action/sqlite: consume budget'' [e])), tbl)
                       | Inr tbl' \<Rightarrow>
                           (case f of
                              FailCommit e \<Rightarrow> (('''', Some (Errorf ''action/sqlite: commit consume'' [e])), tbl)
                            | _ \<Rightarrow> (('''', None), tbl')))))"

definition SpentBudget :: "string \<Rightarrow> budget_spent \<Rightarrow> int" where
  "SpentBudget scope tbl = spent_at tbl scope budgetTotalKey"

definition durable_consume :: "string \<Rightarrow> Budgets \<Rightarrow> budget_spent \<Rightarrow> string \<Rightarrow> string \<times> budget_spent" where
  "durable_consume scope limits tbl operation =
     (let r = ConsumeBudget NoFault scope limits operation tbl in (fst (fst r), snd r))"

lemma spent_at_upsert [simp]:
  "spent_at (upsert_spent scope key tbl) scope' key' =
     (if scope' = scope \<and> key' = key then spent_at tbl scope key + 1 else spent_at tbl scope' key')"
  by (simp add: spent_at_def upsert_spent_def)

interpretation durable: budget_counter limits "durable_consume scope limits" "SpentBudget scope"
  "\<lambda>tbl. spent_at tbl scope" "\<lambda>_. True" for scope limits
  by unfold_locales
    (auto simp: durable_consume_def ConsumeBudget_def SpentBudget_def cap_reached_def
      RuleBudgetExhausted_def budgetTotalKey_def Let_def split: option.splits if_splits)

text \<open>
  The in-memory ledger never exceeds its caps. Whatever operations are requested in whatever
  order on a new ledger, a positive total cap and every positive per-operation cap hold
  afterwards, and the amount spent is the number of requests that were granted: a refusal
  consumes nothing.
\<close>

theorem ledger_never_exceeds:
  assumes "'''' \<notin> set ops"
  shows "within_caps b (Spent (snd (consume_all Consume (NewBudgetLedger b) ops)))
      (bl_perOp (snd (consume_all Consume (NewBudgetLedger b) ops))) \<and>
    Spent (snd (consume_all Consume (NewBudgetLedger b) ops)) =
      int (length (filter (\<lambda>r. r = '''') (fst (consume_all Consume (NewBudgetLedger b) ops))))"
proof -
  let ?l = "NewBudgetLedger b"
  have v: "bl_limits ?l = b" "within_caps b (Spent ?l) (bl_perOp ?l)" "Spent ?l = 0"
    by (auto simp: NewBudgetLedger_def within_caps_def Spent_def)
  from ledger.consume_all_within [OF v(1) assms v(2)] ledger.consume_all_total [OF v(1) assms] v(3)
  show ?thesis by simp
qed

theorem ledger_never_exceeds_witness:
  "Spent (snd (consume_all Consume (NewBudgetLedger (unlimited\<lparr>MaxActions := 2\<rparr>)) [''echo'', ''calc'', ''echo''])) \<le> 2"
  using ledger_never_exceeds [of "[''echo'', ''calc'', ''echo'']" "unlimited\<lparr>MaxActions := 2\<rparr>"]
  by (simp add: within_caps_def unlimited_def)

text \<open>
  The durable counters never exceed the caps either, starting from any table in which the
  scope is within them.
\<close>

theorem durable_never_exceeds:
  assumes "'''' \<notin> set ops" and "within_caps limits (SpentBudget scope tbl) (spent_at tbl scope)"
  shows "within_caps limits (SpentBudget scope (snd (consume_all (durable_consume scope limits) tbl ops)))
      (spent_at (snd (consume_all (durable_consume scope limits) tbl ops)) scope) \<and>
    SpentBudget scope (snd (consume_all (durable_consume scope limits) tbl ops)) =
      SpentBudget scope tbl +
      int (length (filter (\<lambda>r. r = '''') (fst (consume_all (durable_consume scope limits) tbl ops))))"
  using durable.consume_all_within [OF TrueI assms] durable.consume_all_total [OF TrueI assms(1)] by simp

theorem durable_never_exceeds_witness:
  "SpentBudget ''int_1'' (snd (consume_all (durable_consume ''int_1'' (unlimited\<lparr>MaxActions := 1\<rparr>))
     Map.empty [''echo'', ''calc''])) \<le> 1"
  using durable_never_exceeds [of "[''echo'', ''calc'']" "unlimited\<lparr>MaxActions := 1\<rparr>" "''int_1''" Map.empty]
  by (simp add: within_caps_def unlimited_def SpentBudget_def spent_at_def)

section \<open>The durable counters refine the ledger\<close>

definition abs_ledger :: "Budgets \<Rightarrow> string \<Rightarrow> budget_spent \<Rightarrow> BudgetLedger" where
  "abs_ledger limits scope tbl =
     \<lparr>bl_limits = limits, bl_total = SpentBudget scope tbl,
      bl_perOp = (\<lambda>operation. if operation = '''' then 0 else spent_at tbl scope operation)\<rparr>"

lemma write_spent_Inr: "write_spent f k scope keys tbl = Inr tbl' \<Longrightarrow> tbl' = fold (upsert_spent scope) keys tbl"
  by (induction f k scope keys tbl rule: write_spent.induct) (auto split: fault.splits if_splits)

lemma write_spent_NoFault [simp]: "write_spent NoFault k scope keys tbl = Inr (fold (upsert_spent scope) keys tbl)"
  by (induction NoFault k scope keys tbl rule: write_spent.induct) auto

lemma ConsumeBudget_error:
  "ConsumeBudget f scope limits operation tbl = ((rule, Some e), tbl') \<Longrightarrow> rule = '''' \<and> tbl' = tbl"
  by (simp add: ConsumeBudget_def Let_def split: fault.splits if_split_asm sum.splits)

lemma ConsumeBudget_ok:
  "ConsumeBudget f scope limits operation tbl = ((rule, None), tbl') \<Longrightarrow>
   ConsumeBudget NoFault scope limits operation tbl = ((rule, None), tbl')"
  by (simp add: ConsumeBudget_def Let_def split: fault.splits if_split_asm sum.splits)
    (auto dest!: write_spent_Inr)

lemma ConsumeBudget_NoFault_refines:
  assumes "operation \<noteq> ''''"
  shows "Consume (abs_ledger limits scope tbl) operation =
    (fst (fst (ConsumeBudget NoFault scope limits operation tbl)),
     abs_ledger limits scope (snd (ConsumeBudget NoFault scope limits operation tbl)))"
  using assms
  by (cases "MaxActionsPerOperation limits operation")
    (auto simp: ConsumeBudget_def Consume_def abs_ledger_def SpentBudget_def budgetTotalKey_def Let_def fun_eq_iff)

lemma ConsumeBudget_other_scope:
  "scope' \<noteq> scope \<Longrightarrow>
   spent_at (snd (ConsumeBudget NoFault scope limits operation tbl)) scope' key = spent_at tbl scope' key"
  by (simp add: ConsumeBudget_def Let_def)

text \<open>
  C31: The durable store implements the ledger, atomically. For a named operation, a call of
  \<open>ConsumeBudget\<close> that reports no infrastructure error gives the rule the in-memory ledger
  gives and leaves the table the ledger's next state abstracts, and it leaves the counters of
  every other scope alone; a call that reports an error, at whichever statement, changed nothing.
\<close>

theorem ConsumeBudget_refines_ledger:
  assumes "operation \<noteq> ''''" and "ConsumeBudget f scope limits operation tbl = ((rule, err), tbl')"
  shows "(err = None \<longrightarrow>
      Consume (abs_ledger limits scope tbl) operation = (rule, abs_ledger limits scope tbl') \<and>
      (\<forall>scope' key. scope' \<noteq> scope \<longrightarrow> spent_at tbl' scope' key = spent_at tbl scope' key)) \<and>
    (err \<noteq> None \<longrightarrow> rule = '''' \<and> tbl' = tbl)"
proof (cases err)
  case None
  with assms(2) ConsumeBudget_ok [of f scope limits operation tbl rule tbl']
  have nf: "ConsumeBudget NoFault scope limits operation tbl = ((rule, None), tbl')" by simp
  show ?thesis
    using None ConsumeBudget_NoFault_refines [OF assms(1), of limits scope tbl]
      ConsumeBudget_other_scope [of _ scope limits operation tbl] nf by simp
next
  case (Some e)
  with assms(2) ConsumeBudget_error show ?thesis by blast
qed

theorem ConsumeBudget_refines_ledger_witness:
  "Consume (abs_ledger unlimited ''int_1'' Map.empty) ''echo'' =
     ('''', abs_ledger unlimited ''int_1'' (snd (ConsumeBudget NoFault ''int_1'' unlimited ''echo'' Map.empty)))"
proof -
  let ?r = "ConsumeBudget NoFault ''int_1'' unlimited ''echo'' Map.empty"
  have r: "?r = (('''', None), snd ?r)"
    by (simp add: ConsumeBudget_def unlimited_def budgetTotalKey_def Let_def)
  show ?thesis using ConsumeBudget_refines_ledger [OF _ r] by simp
qed

text \<open>
  For an operation with an empty name the two disagree: the durable store compares the
  operation's own cap with the scope's total, because both use the empty key, and so refuses a
  request that the in-memory ledger grants.
\<close>

theorem empty_operation_diverges:
  "let limits = unlimited\<lparr>MaxActionsPerOperation := [''''  \<mapsto> 1]\<rparr>
   in fst (Consume (snd (Consume (NewBudgetLedger limits) ''echo'')) '''') = '''' \<and>
      fst (durable_consume ''int_1'' limits (snd (durable_consume ''int_1'' limits Map.empty ''echo'')) '''')
        = RuleBudgetExhausted"
  by (simp add: Let_def Consume_def NewBudgetLedger_def unlimited_def durable_consume_def ConsumeBudget_def
      budgetTotalKey_def spent_at_def upsert_spent_def)

end
