(* ===== verification/Envelope.thy ===== *)
theory Envelope
  imports Korvun_Prelude
begin

text \<open>
  The canonical message (\<open>internal/envelope\<close>): its data (\<open>envelope.go\<close>,
  \<open>keyboard.go\<close>, \<open>operation.go\<close>), the builders (\<open>builder.go\<close>), the structural
  validation (\<open>validate.go\<close>) and the transcript rendering (\<open>transcript.go\<close>).

  The integer enumerations are datatypes whose last constructor holds every other value. The
  metadata map is a partial function. Decoding the JSON content of a location part is the
  parameter \<open>coords\<close>, true when the content is a JSON object with numeric \<open>lat\<close>
  and \<open>lon\<close>; its error text leaves out the quoted content. The opaque ingress capability, which no code of this package reads, is left out.
\<close>

section \<open>Data\<close>

datatype Direction = Inbound | Outbound | DirectionInvalid int

datatype PartType = Text | Image | Audio | Video | File | Location | Callback | Reaction
  | PartTypeInvalid int

datatype OperationKind = OpEditText | OpEditCaption | OpDelete | OpCallbackAck | OpSetReaction
  | OpInvalid int

record Participant =
  pp_ID :: string
  pp_Name :: string

record Part =
  pa_Type :: PartType
  pa_Content :: string
  pa_Source :: string
  pa_MIMEType :: string

record Button =
  bt_Text :: string
  bt_CallbackData :: string
  bt_URL :: string

record Keyboard =
  kb_Rows :: "Button list list"

record Operation =
  op_Kind :: OperationKind

record Envelope =
  en_ID :: string
  en_Channel :: string
  en_Direction :: Direction
  en_Sender :: Participant
  en_Parts :: "Part list"
  en_Timestamp :: time
  en_Meta :: "string \<rightharpoonup> string"
  en_Keyboard :: "Keyboard option"
  en_Operation :: "Operation option"

definition Direction_String :: "Direction \<Rightarrow> string" where
  "Direction_String d = (case d of Inbound \<Rightarrow> ''inbound'' | Outbound \<Rightarrow> ''outbound''
     | DirectionInvalid _ \<Rightarrow> ''unknown'')"

definition PartType_String :: "PartType \<Rightarrow> string" where
  "PartType_String t = (case t of
      Text \<Rightarrow> ''text'' | Image \<Rightarrow> ''image'' | Audio \<Rightarrow> ''audio'' | Video \<Rightarrow> ''video'' | File \<Rightarrow> ''file''
    | Location \<Rightarrow> ''location'' | Callback \<Rightarrow> ''callback'' | Reaction \<Rightarrow> ''reaction''
    | PartTypeInvalid _ \<Rightarrow> ''unknown'')"

definition OperationKind_String :: "OperationKind \<Rightarrow> string" where
  "OperationKind_String k = (case k of
      OpEditText \<Rightarrow> ''edit_text'' | OpEditCaption \<Rightarrow> ''edit_caption'' | OpDelete \<Rightarrow> ''delete''
    | OpCallbackAck \<Rightarrow> ''callback_ack'' | OpSetReaction \<Rightarrow> ''set_reaction'' | OpInvalid _ \<Rightarrow> ''unknown'')"

definition meta_get :: "Envelope \<Rightarrow> string \<Rightarrow> string" where
  "meta_get e k = (case en_Meta e k of None \<Rightarrow> '''' | Some v \<Rightarrow> v)"

section \<open>Metadata keys\<close>

definition MetaProviderEventID :: string where "MetaProviderEventID = ''provider.event_id''"
definition MetaAck :: string where "MetaAck = ''korvun.ack''"
definition AckSessionReset :: string where "AckSessionReset = ''session-reset''"
definition AckBrainFallback :: string where "AckBrainFallback = ''brain-fallback''"
definition AckToolsReport :: string where "AckToolsReport = ''tools-report''"
definition AckRecall :: string where "AckRecall = ''session-recall''"
definition AckNotesReport :: string where "AckNotesReport = ''notes-report''"

section \<open>Builders\<close>

text \<open>\<open>New\<close>; the generated identifier and the clock reading are arguments.\<close>

definition New :: "string \<Rightarrow> time \<Rightarrow> string \<Rightarrow> Direction \<Rightarrow> Participant \<Rightarrow> Envelope" where
  "New newID now channel dir sender =
     \<lparr>en_ID = newID, en_Channel = channel, en_Direction = dir, en_Sender = sender, en_Parts = [],
      en_Timestamp = now, en_Meta = Map.empty, en_Keyboard = None, en_Operation = None\<rparr>"

definition content_part :: "PartType \<Rightarrow> string \<Rightarrow> Part" where
  "content_part t c = \<lparr>pa_Type = t, pa_Content = c, pa_Source = '''', pa_MIMEType = ''''\<rparr>"

definition add_part :: "Part \<Rightarrow> Envelope \<Rightarrow> Envelope" where
  "add_part p e = e\<lparr>en_Parts := en_Parts e @ [p]\<rparr>"

definition AddText :: "string \<Rightarrow> Envelope \<Rightarrow> Envelope" where
  "AddText content e = add_part (content_part Text content) e"

definition AddMedia :: "PartType \<Rightarrow> string \<Rightarrow> string \<Rightarrow> Envelope \<Rightarrow> Envelope" where
  "AddMedia pt source mimeType e =
     add_part \<lparr>pa_Type = pt, pa_Content = '''', pa_Source = source, pa_MIMEType = mimeType\<rparr> e"

definition AddCallback :: "string \<Rightarrow> Envelope \<Rightarrow> Envelope" where
  "AddCallback data e = add_part (content_part Callback data) e"

definition AddReaction :: "string \<Rightarrow> Envelope \<Rightarrow> Envelope" where
  "AddReaction emoji e = add_part (content_part Reaction emoji) e"

definition CallbackButton :: "string \<Rightarrow> string \<Rightarrow> Button" where
  "CallbackButton body data = \<lparr>bt_Text = body, bt_CallbackData = data, bt_URL = ''''\<rparr>"

definition URLButton :: "string \<Rightarrow> string \<Rightarrow> Button" where
  "URLButton body url = \<lparr>bt_Text = body, bt_CallbackData = '''', bt_URL = url\<rparr>"

definition WithKeyboard :: "Button list list \<Rightarrow> Envelope \<Rightarrow> Envelope" where
  "WithKeyboard rows e = e\<lparr>en_Keyboard := Some \<lparr>kb_Rows = rows\<rparr>\<rparr>"

definition set_operation :: "OperationKind \<Rightarrow> Part list \<Rightarrow> Envelope \<Rightarrow> Envelope" where
  "set_operation k ps e = e\<lparr>en_Operation := Some \<lparr>op_Kind = k\<rparr>, en_Parts := ps\<rparr>"

definition SetEditText :: "string \<Rightarrow> Envelope \<Rightarrow> Envelope" where
  "SetEditText body e = set_operation OpEditText [content_part Text body] e"

definition SetEditCaption :: "string \<Rightarrow> Envelope \<Rightarrow> Envelope" where
  "SetEditCaption caption e = set_operation OpEditCaption [content_part Text caption] e"

definition SetDelete :: "Envelope \<Rightarrow> Envelope" where
  "SetDelete e = set_operation OpDelete [] e"

definition SetCallbackAck :: "string \<Rightarrow> Envelope \<Rightarrow> Envelope" where
  "SetCallbackAck toast e =
     set_operation OpCallbackAck (if toast = '''' then [] else [content_part Text toast]) e"

definition SetReactions :: "string list \<Rightarrow> Envelope \<Rightarrow> Envelope" where
  "SetReactions emojis e = set_operation OpSetReaction (map (content_part Text) emojis) e"

section \<open>Validation\<close>

text \<open>A Go loop that returns the first error of its body is \<open>first_error\<close> over the indexed
  elements.\<close>

fun first_error_from :: "nat \<Rightarrow> (nat \<Rightarrow> 'a \<Rightarrow> go_error option) \<Rightarrow> 'a list \<Rightarrow> go_error option" where
  "first_error_from i f [] = None"
| "first_error_from i f (x # xs) =
     (case f i x of Some err \<Rightarrow> Some err | None \<Rightarrow> first_error_from (Suc i) f xs)"

abbreviation first_error :: "(nat \<Rightarrow> 'a \<Rightarrow> go_error option) \<Rightarrow> 'a list \<Rightarrow> go_error option" where
  "first_error \<equiv> first_error_from 0"

definition validateExclusivePartTypes :: "Part list \<Rightarrow> go_error option" where
  "validateExclusivePartTypes parts =
     (if length parts \<le> 1 then None
      else if list_ex (\<lambda>p. pa_Type p = Callback) parts
        then Some (ErrorString (PartType_String Callback @ '' part must be the only part in the envelope''))
      else let hasReaction = list_ex (\<lambda>p. pa_Type p = Reaction) parts;
               hasNonReaction = list_ex (\<lambda>p. pa_Type p \<noteq> Reaction) parts
           in if hasReaction \<and> hasNonReaction
                then Some (ErrorString ''reaction parts must not coexist with other part types'')
              else None)"

text \<open>\<open>coords\<close> stands for the JSON decoding in \<open>Part.Location\<close>.\<close>

definition Part_Location_ok :: "(string \<Rightarrow> bool) \<Rightarrow> Part \<Rightarrow> bool" where
  "Part_Location_ok coords p \<longleftrightarrow> pa_Type p = Location \<and> pa_Content p \<noteq> '''' \<and> coords (pa_Content p)"

definition part_error :: "nat \<Rightarrow> string \<Rightarrow> go_error option" where
  "part_error idx msg = Some (ErrorString (''part '' @ decimal (int idx) @ '': '' @ msg))"

definition validatePart :: "(string \<Rightarrow> bool) \<Rightarrow> nat \<Rightarrow> Part \<Rightarrow> go_error option" where
  "validatePart coords idx p =
     (case pa_Type p of
        Text \<Rightarrow> if pa_Content p = '''' then part_error idx ''empty content for text part'' else None
      | Location \<Rightarrow>
          if pa_Content p = '''' then part_error idx ''empty content for location part''
          else if pa_Source p \<noteq> '''' then part_error idx ''location must not set source''
          else if pa_MIMEType p \<noteq> '''' then part_error idx ''location must not set mime type''
          else if \<not> Part_Location_ok coords p then part_error idx ''invalid location content''
          else None
      | Callback \<Rightarrow>
          if pa_Content p = '''' then part_error idx ''empty content for callback part''
          else if pa_Source p \<noteq> '''' then part_error idx ''callback must not set source''
          else if pa_MIMEType p \<noteq> '''' then part_error idx ''callback must not set mime type''
          else None
      | Reaction \<Rightarrow>
          if pa_Content p = '''' then part_error idx ''empty content for reaction part''
          else if pa_Source p \<noteq> '''' then part_error idx ''reaction must not set source''
          else if pa_MIMEType p \<noteq> '''' then part_error idx ''reaction must not set mime type''
          else None
      | PartTypeInvalid t \<Rightarrow> part_error idx (''unknown part type '' @ decimal t)
      | t \<Rightarrow> if pa_Source p = '''' then part_error idx (''empty source for '' @ PartType_String t @ '' part'')
             else None)"

definition got :: "Part list \<Rightarrow> string" where
  "got ps = '', got '' @ decimal (int (length ps))"

text \<open>The checks on one text part of an operation, with the operation's name and, where an
  empty content is refused, what its message adds.\<close>

definition text_part_error :: "string \<Rightarrow> string option \<Rightarrow> Part \<Rightarrow> go_error option" where
  "text_part_error who hint p =
     (if pa_Type p \<noteq> Text then Some (ErrorString (who @ '' must be Text, got '' @ PartType_String (pa_Type p)))
      else if hint \<noteq> None \<and> pa_Content p = ''''
        then Some (ErrorString (who @ '' must have non-empty Content'' @ the hint))
      else if pa_Source p \<noteq> '''' \<or> pa_MIMEType p \<noteq> ''''
        then Some (ErrorString (who @ '' must not set Source/MIMEType''))
      else None)"

definition no_keyboard :: "string \<Rightarrow> Envelope \<Rightarrow> go_error option" where
  "no_keyboard who e =
     (if en_Keyboard e \<noteq> None then Some (ErrorString (who @ '' must not carry a Keyboard'')) else None)"

definition validateOperation :: "Operation \<Rightarrow> Envelope \<Rightarrow> go_error option" where
  "validateOperation oper e =
     (case op_Kind oper of
        OpEditText \<Rightarrow>
          (case en_Parts e of
             [p] \<Rightarrow> text_part_error ''OpEditText part'' (Some '''') p
           | ps \<Rightarrow> Some (ErrorString (''OpEditText requires exactly 1 part'' @ got ps)))
      | OpEditCaption \<Rightarrow>
          (case en_Parts e of
             [p] \<Rightarrow> text_part_error ''OpEditCaption part'' None p
           | ps \<Rightarrow> Some (ErrorString (''OpEditCaption requires exactly 1 part'' @ got ps)))
      | OpDelete \<Rightarrow>
          if length (en_Parts e) \<noteq> 0
            then Some (ErrorString (''OpDelete requires empty parts'' @ got (en_Parts e)))
          else no_keyboard ''OpDelete'' e
      | OpCallbackAck \<Rightarrow>
          (case en_Parts e of
             [] \<Rightarrow> no_keyboard ''OpCallbackAck'' e
           | [p] \<Rightarrow>
               (case text_part_error ''OpCallbackAck part'' (Some '' (use empty Parts for silent ack)'') p of
                  Some err \<Rightarrow> Some err | None \<Rightarrow> no_keyboard ''OpCallbackAck'' e)
           | ps \<Rightarrow> Some (ErrorString (''OpCallbackAck requires 0 or 1 parts'' @ got ps)))
      | OpSetReaction \<Rightarrow>
          (case first_error (\<lambda>i. text_part_error (''OpSetReaction part '' @ decimal (int i)) (Some '''')) (en_Parts e) of
             Some err \<Rightarrow> Some err | None \<Rightarrow> no_keyboard ''OpSetReaction'' e)
      | OpInvalid k \<Rightarrow> Some (ErrorString (''unknown OperationKind: '' @ decimal k)))"

definition button_error :: "nat \<Rightarrow> nat \<Rightarrow> Button \<Rightarrow> go_error option" where
  "button_error ri bi b =
     (let at = ''keyboard row '' @ decimal (int ri) @ '' button '' @ decimal (int bi);
          hasCallback = bt_CallbackData b \<noteq> '''';
          hasURL = bt_URL b \<noteq> ''''
      in if bt_Text b = '''' then Some (ErrorString (at @ '': button text is empty''))
         else if hasCallback = hasURL
           then Some (ErrorString (at @ '': button must set exactly one of callback_data or url''))
         else None)"

definition validateKeyboard :: "Keyboard \<Rightarrow> go_error option" where
  "validateKeyboard k =
     (if kb_Rows k = [] then Some (ErrorString ''keyboard has no rows'')
      else first_error
        (\<lambda>ri row. if row = [] then Some (ErrorString (''keyboard row '' @ decimal (int ri) @ '' has no buttons''))
                  else first_error (button_error ri) row) (kb_Rows k))"

definition validate_body :: "(string \<Rightarrow> bool) \<Rightarrow> Envelope \<Rightarrow> go_error option" where
  "validate_body coords e =
     (case en_Operation e of
        Some oper \<Rightarrow> validateOperation oper e
      | None \<Rightarrow>
          if en_Parts e = [] then Some (ErrorString ''no parts'')
          else case validateExclusivePartTypes (en_Parts e) of
            Some err \<Rightarrow> Some err
          | None \<Rightarrow> first_error (validatePart coords) (en_Parts e))"

definition Validate :: "(string \<Rightarrow> bool) \<Rightarrow> Envelope \<Rightarrow> go_error option" where
  "Validate coords e =
     (if en_ID e = '''' then Some (ErrorString ''empty ID'')
      else if en_Channel e = '''' then Some (ErrorString ''empty channel'')
      else case en_Direction e of
        DirectionInvalid d \<Rightarrow> Some (ErrorString (''invalid direction: '' @ decimal d))
      | _ \<Rightarrow>
          if pp_ID (en_Sender e) = '''' then Some (ErrorString ''empty sender ID'')
          else if IsZero (en_Timestamp e) then Some (ErrorString ''zero timestamp'')
          else case validate_body coords e of
            Some err \<Rightarrow> Some err
          | None \<Rightarrow> (case en_Keyboard e of None \<Rightarrow> None | Some k \<Rightarrow> validateKeyboard k))"

section \<open>Transcript\<close>

definition marker :: "PartType \<Rightarrow> string list" where
  "marker t = (case t of Image \<Rightarrow> [''[image]''] | Audio \<Rightarrow> [''[audio]''] | Video \<Rightarrow> [''[video]'']
     | File \<Rightarrow> [''[file]''] | _ \<Rightarrow> [])"

fun transcript_loop :: "string list \<Rightarrow> string \<Rightarrow> Part list \<Rightarrow> string list \<times> string" where
  "transcript_loop pieces body [] = (pieces, body)"
| "transcript_loop pieces body (p # ps) =
     (if pa_Type p = Text
        then transcript_loop pieces (if TrimSpace (pa_Content p) \<noteq> '''' then pa_Content p else body) ps
      else transcript_loop (pieces @ marker (pa_Type p)) body ps)"

definition TranscriptText :: "Part list \<Rightarrow> string" where
  "TranscriptText parts =
     (let (pieces, body) = transcript_loop [] '''' parts
      in strings_Join (pieces @ (if body \<noteq> '''' then [body] else [])) '' '')"

section \<open>What validation accepts\<close>

lemma first_error_from_None:
  "first_error_from k f xs = None \<longleftrightarrow> (\<forall>i<length xs. f (k + i) (xs ! i) = None)"
proof (induction xs arbitrary: k)
  case (Cons x xs)
  show ?case
    by (cases "f k x") (auto simp: Cons.IH less_Suc_eq_0_disj)
qed simp

lemma first_error_uniform:
  assumes "\<And>i x. f i x = None \<longleftrightarrow> P x"
  shows "first_error_from k f xs = None \<longleftrightarrow> (\<forall>x\<in>set xs. P x)"
  by (simp add: first_error_from_None assms all_set_conv_all_nth)

text \<open>The error a loop returns is the one of the first offending element.\<close>

lemma first_error_from_Some:
  assumes "first_error_from k f xs = Some err"
  obtains i where "i < length xs" and "f (k + i) (xs ! i) = Some err"
    and "\<And>j. j < i \<Longrightarrow> f (k + j) (xs ! j) = None"
  using assms
proof (induction xs arbitrary: k thesis)
  case (Cons x xs)
  show ?case
  proof (cases "f k x")
    case None
    with Cons.prems(2) have "first_error_from (Suc k) f xs = Some err" by simp
    then obtain i where i: "i < length xs" "f (Suc k + i) (xs ! i) = Some err"
      "\<And>j. j < i \<Longrightarrow> f (Suc k + j) (xs ! j) = None"
      using Cons.IH by blast
    show ?thesis
    proof (rule Cons.prems(1) [of "Suc i"])
      fix j assume "j < Suc i"
      then show "f (k + j) ((x # xs) ! j) = None" using i(3) None by (cases j) auto
    qed (use i in auto)
  qed (use Cons.prems in \<open>auto intro: Cons.prems(1) [of 0]\<close>)
qed simp

definition bare :: "Part \<Rightarrow> bool" where
  "bare p \<longleftrightarrow> pa_Source p = '''' \<and> pa_MIMEType p = ''''"

definition part_ok :: "(string \<Rightarrow> bool) \<Rightarrow> Part \<Rightarrow> bool" where
  "part_ok coords p \<longleftrightarrow>
     (pa_Type p = Text \<and> pa_Content p \<noteq> '''' \<or>
      pa_Type p \<in> {Image, Audio, Video, File} \<and> pa_Source p \<noteq> '''' \<or>
      pa_Type p \<in> {Location, Callback, Reaction} \<and> pa_Content p \<noteq> '''' \<and> bare p \<and>
        (pa_Type p = Location \<longrightarrow> coords (pa_Content p)))"

definition parts_ok :: "(string \<Rightarrow> bool) \<Rightarrow> Part list \<Rightarrow> bool" where
  "parts_ok coords ps \<longleftrightarrow>
     ps \<noteq> [] \<and> (\<forall>p\<in>set ps. part_ok coords p) \<and>
     ((\<exists>p\<in>set ps. pa_Type p = Callback) \<longrightarrow> length ps = 1) \<and>
     ((\<exists>p\<in>set ps. pa_Type p = Reaction) \<longrightarrow> (\<forall>p\<in>set ps. pa_Type p = Reaction))"

definition text_ok :: "bool \<Rightarrow> Part \<Rightarrow> bool" where
  "text_ok may_be_empty p \<longleftrightarrow> pa_Type p = Text \<and> bare p \<and> (may_be_empty \<or> pa_Content p \<noteq> '''')"

definition operation_ok :: "OperationKind \<Rightarrow> Envelope \<Rightarrow> bool" where
  "operation_ok k e \<longleftrightarrow>
     (k = OpEditText \<and> (\<exists>p. en_Parts e = [p] \<and> text_ok False p) \<or>
      k = OpEditCaption \<and> (\<exists>p. en_Parts e = [p] \<and> text_ok True p) \<or>
      en_Keyboard e = None \<and>
        (k = OpDelete \<and> en_Parts e = [] \<or>
         k = OpCallbackAck \<and> length (en_Parts e) \<le> 1 \<and> list_all (text_ok False) (en_Parts e) \<or>
         k = OpSetReaction \<and> list_all (text_ok False) (en_Parts e)))"

definition button_ok :: "Button \<Rightarrow> bool" where
  "button_ok b \<longleftrightarrow> bt_Text b \<noteq> '''' \<and> (bt_CallbackData b = '''') \<noteq> (bt_URL b = '''')"

definition keyboard_ok :: "Keyboard \<Rightarrow> bool" where
  "keyboard_ok k \<longleftrightarrow> kb_Rows k \<noteq> [] \<and> (\<forall>row\<in>set (kb_Rows k). row \<noteq> [] \<and> list_all button_ok row)"

definition header_ok :: "Envelope \<Rightarrow> bool" where
  "header_ok e \<longleftrightarrow> en_ID e \<noteq> '''' \<and> en_Channel e \<noteq> '''' \<and> en_Direction e \<in> {Inbound, Outbound} \<and>
     pp_ID (en_Sender e) \<noteq> '''' \<and> en_Timestamp e \<noteq> 0"

definition well_formed :: "(string \<Rightarrow> bool) \<Rightarrow> Envelope \<Rightarrow> bool" where
  "well_formed coords e \<longleftrightarrow>
     header_ok e \<and>
     (case en_Operation e of None \<Rightarrow> parts_ok coords (en_Parts e) | Some oper \<Rightarrow> operation_ok (op_Kind oper) e) \<and>
     (case en_Keyboard e of None \<Rightarrow> True | Some k \<Rightarrow> keyboard_ok k)"

lemma validatePart_None: "validatePart coords i p = None \<longleftrightarrow> part_ok coords p"
  by (cases "pa_Type p") (auto simp: validatePart_def part_ok_def part_error_def Part_Location_ok_def bare_def)

lemma text_part_error_None:
  "text_part_error who hint p = None \<longleftrightarrow> text_ok (hint = None) p"
  by (auto simp: text_part_error_def text_ok_def bare_def)

lemma button_error_None: "button_error ri bi b = None \<longleftrightarrow> button_ok b"
  by (auto simp: button_error_def button_ok_def Let_def)

lemma validateKeyboard_None: "validateKeyboard k = None \<longleftrightarrow> keyboard_ok k"
proof -
  have row: "(if row = [] then Some (ErrorString (''keyboard row '' @ decimal (int ri) @ '' has no buttons''))
      else first_error (button_error ri) row) = None \<longleftrightarrow> row \<noteq> [] \<and> list_all button_ok row" for ri row
    by (auto simp: first_error_uniform [OF button_error_None] list_all_iff)
  show ?thesis
    by (auto simp: validateKeyboard_def keyboard_ok_def first_error_uniform [OF row])
qed

lemma validateExclusivePartTypes_None:
  "ps \<noteq> [] \<Longrightarrow> validateExclusivePartTypes ps = None \<longleftrightarrow>
     ((\<exists>p\<in>set ps. pa_Type p = Callback) \<longrightarrow> length ps = 1) \<and>
     ((\<exists>p\<in>set ps. pa_Type p = Reaction) \<longrightarrow> (\<forall>p\<in>set ps. pa_Type p = Reaction))"
proof (cases "length ps \<le> 1")
  case True
  moreover assume "ps \<noteq> []"
  ultimately obtain p where "ps = [p]" by (cases ps) auto
  then show ?thesis by (auto simp: validateExclusivePartTypes_def)
next
  case False
  then show ?thesis by (auto simp: validateExclusivePartTypes_def Let_def list_ex_iff)
qed

lemma no_keyboard_None: "no_keyboard who e = None \<longleftrightarrow> en_Keyboard e = None"
  by (simp add: no_keyboard_def)

lemma reaction_parts_None:
  "first_error (\<lambda>i. text_part_error (who i) (Some '''')) ps = None \<longleftrightarrow> list_all (text_ok False) ps"
  by (subst first_error_uniform [of _ "text_ok False"]) (auto simp: text_part_error_None list_all_iff)

lemma option_chain_None:
  "(case r of Some err \<Rightarrow> Some err | None \<Rightarrow> s) = None \<longleftrightarrow> r = None \<and> s = None"
  by (cases r) auto

lemma validateOperation_None: "validateOperation oper e = None \<longleftrightarrow> operation_ok (op_Kind oper) e"
  by (cases "op_Kind oper")
    (auto simp: validateOperation_def operation_ok_def no_keyboard_None text_part_error_None
      option_chain_None reaction_parts_None split: list.splits)

lemma validate_body_None:
  "validate_body coords e = None \<longleftrightarrow>
     (case en_Operation e of None \<Rightarrow> parts_ok coords (en_Parts e) | Some oper \<Rightarrow> operation_ok (op_Kind oper) e)"
  by (cases "en_Operation e")
    (simp_all add: validate_body_def validateOperation_None parts_ok_def option_chain_None
      validateExclusivePartTypes_None first_error_uniform [OF validatePart_None] conj_comms)

lemma Validate_None: "Validate coords e = None \<longleftrightarrow> well_formed coords e"
  by (cases "en_Direction e")
    (auto simp: Validate_def well_formed_def header_ok_def IsZero_def validate_body_None [symmetric]
      validateKeyboard_None split: option.splits)

text \<open>
  \<open>Validate\<close> accepts exactly the well-formed envelopes: identifier, channel, sender and
  timestamp are set and the direction is one of the two; without an operation there is at least
  one part, every part carries what its type asks for, a callback is alone and reactions only
  keep company with reactions; with an operation the parts and the keyboard have the shape of
  that operation; an attached keyboard has non-empty rows of buttons with a text and exactly one
  target.
\<close>

theorem Validate_iff: "Validate coords e = None \<longleftrightarrow> well_formed coords e"
  by (rule Validate_None)

text \<open>
  On a valid envelope an operation builder gives a valid envelope exactly when its arguments
  and the keyboard allow it: an edited text must not be empty, a caption may be, and deletion,
  acknowledgement and reactions forbid a keyboard, which none of the builders removes.
\<close>

theorem operation_builders_validate:
  assumes "Validate coords e = None"
  shows "(Validate coords (SetEditText t e) = None \<longleftrightarrow> t \<noteq> '''') \<and>
     Validate coords (SetEditCaption t e) = None \<and>
     (Validate coords (SetDelete e) = None \<longleftrightarrow> en_Keyboard e = None) \<and>
     (Validate coords (SetCallbackAck t e) = None \<longleftrightarrow> en_Keyboard e = None) \<and>
     (Validate coords (SetReactions ts e) = None \<longleftrightarrow> en_Keyboard e = None \<and> '''' \<notin> set ts)"
  using assms
  by (auto simp: Validate_None well_formed_def header_ok_def operation_ok_def text_ok_def bare_def
      SetEditText_def SetEditCaption_def SetDelete_def SetCallbackAck_def SetReactions_def
      set_operation_def content_part_def list_all_iff)

definition sample_envelope :: Envelope where
  "sample_envelope = AddText ''hello'' (New ''0-1'' 1 ''telegram'' Inbound \<lparr>pp_ID = ''7'', pp_Name = ''Ada''\<rparr>)"

lemma sample_envelope_valid: "Validate coords sample_envelope = None"
  by (simp add: Validate_None sample_envelope_def AddText_def add_part_def New_def well_formed_def header_ok_def
      parts_ok_def part_ok_def content_part_def)

theorem operation_builders_validate_witness:
  "Validate (\<lambda>_. False) (SetEditText ''bye'' sample_envelope) = None \<and>
   Validate (\<lambda>_. False) (SetEditText '''' sample_envelope) \<noteq> None \<and>
   Validate (\<lambda>_. False) (SetDelete sample_envelope) = None"
  using operation_builders_validate [OF sample_envelope_valid, of _ "''bye''"]
    operation_builders_validate [OF sample_envelope_valid, of _ "''''"]
  by (simp add: sample_envelope_def AddText_def add_part_def New_def)

text \<open>
  On a valid content envelope one more text or reaction part keeps it valid exactly when it is
  not empty and may sit beside the parts already there, and one more callback never does.
\<close>

theorem content_builders_validate:
  assumes "Validate coords e = None" and "en_Operation e = None"
  shows "(Validate coords (AddText t e) = None \<longleftrightarrow>
       t \<noteq> '''' \<and> (\<forall>p\<in>set (en_Parts e). pa_Type p \<notin> {Callback, Reaction})) \<and>
     (Validate coords (AddReaction t e) = None \<longleftrightarrow>
       t \<noteq> '''' \<and> (\<forall>p\<in>set (en_Parts e). pa_Type p = Reaction)) \<and>
     Validate coords (AddCallback t e) \<noteq> None"
  using assms
  by (auto simp: Validate_None well_formed_def header_ok_def parts_ok_def part_ok_def bare_def
      AddText_def AddReaction_def AddCallback_def add_part_def content_part_def)

theorem content_builders_validate_witness:
  "Validate (\<lambda>_. False) (AddText ''again'' sample_envelope) = None \<and>
   Validate (\<lambda>_. False) (AddReaction ''x'' sample_envelope) \<noteq> None \<and>
   Validate (\<lambda>_. False) (AddCallback ''x'' sample_envelope) \<noteq> None"
proof -
  have oper: "en_Operation sample_envelope = None"
    by (simp add: sample_envelope_def AddText_def add_part_def New_def)
  show ?thesis
    using content_builders_validate [OF sample_envelope_valid oper, of _ "''again''"]
      content_builders_validate [OF sample_envelope_valid oper, of _ "''x''"]
    by (simp add: sample_envelope_def AddText_def add_part_def New_def content_part_def)
qed

section \<open>What the transcript shows\<close>

definition shown_text :: "Part \<Rightarrow> bool" where
  "shown_text p \<longleftrightarrow> pa_Type p = Text \<and> TrimSpace (pa_Content p) \<noteq> ''''"

lemma TrimSpace_Nil [simp]: "TrimSpace '''' = ''''"
  by (simp add: TrimSpace_def trim_left_def)

lemma transcript_loop_eq:
  "transcript_loop pieces body ps =
     (pieces @ concat (map (marker \<circ> pa_Type) ps),
      case filter shown_text ps of [] \<Rightarrow> body | q # qs \<Rightarrow> pa_Content (last (q # qs)))"
proof (induction ps arbitrary: pieces body)
  case (Cons p ps)
  have "shown_text p \<longleftrightarrow> pa_Type p = Text \<and> TrimSpace (pa_Content p) \<noteq> ''''"
    by (rule shown_text_def)
  then show ?case
    by (cases "filter shown_text ps") (auto simp: Cons.IH marker_def)
qed simp

lemma shown_text_nonempty: "shown_text p \<Longrightarrow> pa_Content p \<noteq> ''''"
  by (auto simp: shown_text_def)

lemma transcript_pieces_nonempty:
  "'''' \<notin> set (concat (map (marker \<circ> pa_Type) ps) @
     (case rev (filter shown_text ps) of [] \<Rightarrow> [] | p # _ \<Rightarrow> [pa_Content p]))"
proof -
  have "'''' \<notin> set (concat (map (marker \<circ> pa_Type) ps))"
    by (auto simp: marker_def split: PartType.splits)
  moreover have "'''' \<notin> set (case rev (filter shown_text ps) of [] \<Rightarrow> [] | p # _ \<Rightarrow> [pa_Content p])"
  proof (cases "filter shown_text ps" rule: rev_cases)
    case (snoc qs q)
    then have "q \<in> set (filter shown_text ps)" by simp
    then have "pa_Content q \<noteq> ''''" using shown_text_nonempty by simp
    then show ?thesis using snoc by simp
  qed simp
  ultimately show ?thesis by simp
qed

lemma TranscriptText_facts:
  shows "TranscriptText ps = strings_Join
      (concat (map (marker \<circ> pa_Type) ps) @
       (case rev (filter shown_text ps) of [] \<Rightarrow> [] | p # _ \<Rightarrow> [pa_Content p])) '' ''"
    and "TranscriptText ps = '''' \<longleftrightarrow>
      (\<forall>p\<in>set ps. pa_Type p \<notin> {Image, Audio, Video, File} \<and> \<not> shown_text p)"
proof -
  let ?ms = "concat (map (marker \<circ> pa_Type) ps)"
  let ?ts = "case rev (filter shown_text ps) of [] \<Rightarrow> [] | p # _ \<Rightarrow> [pa_Content p]"
  have body: "(let t = case filter shown_text ps of [] \<Rightarrow> '''' | q # qs \<Rightarrow> pa_Content (last (q # qs))
      in if t \<noteq> '''' then [t] else []) = ?ts"
  proof (cases "filter shown_text ps" rule: rev_cases)
    case (snoc qs q)
    then have "q \<in> set (filter shown_text ps)" by simp
    then have "pa_Content q \<noteq> ''''" using shown_text_nonempty by auto
    then show ?thesis using snoc by (cases qs) auto
  qed simp
  show eq: "TranscriptText ps = strings_Join (?ms @ ?ts) '' ''"
    using body by (simp add: TranscriptText_def transcript_loop_eq Let_def)
  have "?ms @ ?ts \<noteq> ['''']"
    using transcript_pieces_nonempty [of ps] by (metis list.set_intros(1))
  then have "TranscriptText ps = '''' \<longleftrightarrow> ?ms @ ?ts = []"
    unfolding eq by (subst strings_Join_empty) simp_all
  moreover have "?ms = [] \<longleftrightarrow> (\<forall>p\<in>set ps. pa_Type p \<notin> {Image, Audio, Video, File})"
    by (auto simp: marker_def split: PartType.splits)
  moreover have "?ts = [] \<longleftrightarrow> (\<forall>p\<in>set ps. \<not> shown_text p)"
    using filter_empty_conv [of shown_text ps] by (cases "filter shown_text ps" rule: rev_cases) simp_all
  ultimately show "TranscriptText ps = '''' \<longleftrightarrow>
      (\<forall>p\<in>set ps. pa_Type p \<notin> {Image, Audio, Video, File} \<and> \<not> shown_text p)"
    by auto
qed

text \<open>
  The transcript of a message is the marker of each media part in order, followed by the last
  text that is not blank. It is empty exactly when the message has no media part and no such
  text: a location, a callback and a reaction leave no trace.
\<close>

theorem TranscriptText_correct:
  "TranscriptText ps = strings_Join
      (concat (map (marker \<circ> pa_Type) ps) @
       (case rev (filter shown_text ps) of [] \<Rightarrow> [] | p # _ \<Rightarrow> [pa_Content p])) '' '' \<and>
    (TranscriptText ps = '''' \<longleftrightarrow>
      (\<forall>p\<in>set ps. pa_Type p \<notin> {Image, Audio, Video, File} \<and> \<not> shown_text p))"
  using TranscriptText_facts by blast

theorem TranscriptText_correct_witness:
  "TranscriptText [content_part Location ''{}'', content_part Reaction ''x''] = '''' \<and>
   TranscriptText [content_part Image '''', content_part Text ''look''] = ''[image] look''"
proof -
  have "\<forall>p\<in>set [content_part Location ''{}'', content_part Reaction ''x''].
      pa_Type p \<notin> {Image, Audio, Video, File} \<and> \<not> shown_text p"
    by (simp add: content_part_def shown_text_def)
  moreover have "shown_text (content_part Text ''look'')" "\<not> shown_text (content_part Image '''')"
    by code_simp+
  ultimately show ?thesis
    using TranscriptText_correct [of "[content_part Location ''{}'', content_part Reaction ''x'']"]
      TranscriptText_correct [of "[content_part Image '''', content_part Text ''look'']"]
    by (simp add: content_part_def marker_def)
qed

end
