(* ===== verification/Bus.thy ===== *)
theory Bus
  imports Envelope "HOL-Library.Sublist"
begin

text \<open>
  The in-process event bus (\<open>internal/bus\<close>): best-effort publication to subscribers with
  bounded buffers.

  The goroutines of the source interleave, so the model is a step function over one state.
  \<open>Publish\<close> holds the read lock from the start to its last send, \<open>Subscribe\<close>, the removal
  half of \<open>unsubscribe\<close> and the first half of \<open>Close\<close> hold the write lock: a publication
  in progress is an entry of \<open>bs_publishing\<close> with the subscribers it has still to visit, and the
  writers are enabled only when there is none. Closing a channel happens outside the lock: a
  subscriber removed from the map waits in \<open>bs_closing\<close>. A send on a closed channel panics in
  Go, and sets \<open>bs_panic\<close>. A subscription is named by its position in \<open>bs_all\<close>; the
  fields \<open>su_offered\<close> and \<open>su_got\<close> record what \<open>Publish\<close> tried to send and what the
  handler received.
\<close>

section \<open>Data\<close>

datatype EventType = MessageReceived | ReplySent | MessageDropped | HandleFailed | ToolUsed | ToolDenied
  | ToolShadowed | EventTypeInvalid int

definition EventType_String :: "EventType \<Rightarrow> string" where
  "EventType_String t = (case t of
      MessageReceived \<Rightarrow> ''message_received'' | ReplySent \<Rightarrow> ''reply_sent'' | MessageDropped \<Rightarrow> ''message_dropped''
    | HandleFailed \<Rightarrow> ''handle_failed'' | ToolUsed \<Rightarrow> ''tool_used'' | ToolDenied \<Rightarrow> ''tool_denied''
    | ToolShadowed \<Rightarrow> ''tool_shadowed'' | EventTypeInvalid _ \<Rightarrow> ''unknown'')"

record Event =
  ev_Type :: EventType
  ev_Envelope :: "Envelope option"
  ev_Channel :: string
  ev_Brain :: string
  ev_Err :: "go_error option"
  ev_Tool :: string
  ev_Outcome :: string
  ev_Rule :: string
  ev_Latency :: duration

definition message_event :: "EventType \<Rightarrow> Envelope \<Rightarrow> string \<Rightarrow> string \<Rightarrow> go_error option \<Rightarrow> Event" where
  "message_event t env channel brain err =
     \<lparr>ev_Type = t, ev_Envelope = Some env, ev_Channel = channel, ev_Brain = brain, ev_Err = err,
      ev_Tool = '''', ev_Outcome = '''', ev_Rule = '''', ev_Latency = 0\<rparr>"

record subscription =
  su_ch :: "Event list"
  su_closed :: bool
  su_type :: EventType
  su_once :: bool
  su_offered :: "Event list"
  su_got :: "Event list"

record InMemoryBus =
  ib_buffer :: nat
  ib_subs :: "EventType \<Rightarrow> nat list"
  ib_closed :: bool
  ib_dropped :: "64 word"

record bus_state = InMemoryBus +
  bs_all :: "subscription list"
  bs_publishing :: "(Event \<times> nat list) list"
  bs_closing :: "nat list"
  bs_panic :: bool

definition DefaultSubscriberBuffer :: int where "DefaultSubscriberBuffer = 64"

text \<open>\<open>New\<close> with the values the \<open>WithSubscriberBuffer\<close> options carry, in order.\<close>

definition WithSubscriberBuffer :: "int \<Rightarrow> int \<Rightarrow> int" where
  "WithSubscriberBuffer n buffer = (if n > 0 then n else buffer)"

definition bus_New :: "int list \<Rightarrow> bus_state" where
  "bus_New opts =
     \<lparr>ib_buffer = nat (fold WithSubscriberBuffer opts DefaultSubscriberBuffer), ib_subs = (\<lambda>_. []),
      ib_closed = False, ib_dropped = 0, bs_all = [], bs_publishing = [], bs_closing = [], bs_panic = False\<rparr>"

section \<open>Operations\<close>

definition upd_sub :: "nat \<Rightarrow> (subscription \<Rightarrow> subscription) \<Rightarrow> bus_state \<Rightarrow> bus_state" where
  "upd_sub s f b = b\<lparr>bs_all := (bs_all b)[s := f (bs_all b ! s)]\<rparr>"

text \<open>The non-blocking send of \<open>Publish\<close> to one subscriber.\<close>

definition bus_send :: "Event \<Rightarrow> nat \<Rightarrow> bus_state \<Rightarrow> bus_state" where
  "bus_send ev s b =
     (if su_closed (bs_all b ! s) then b\<lparr>bs_panic := True\<rparr>
      else if length (su_ch (bs_all b ! s)) < ib_buffer b
        then upd_sub s (\<lambda>c. c\<lparr>su_offered := su_offered c @ [ev], su_ch := su_ch c @ [ev]\<rparr>) b
      else upd_sub s (\<lambda>c. c\<lparr>su_offered := su_offered c @ [ev]\<rparr>) (b\<lparr>ib_dropped := ib_dropped b + 1\<rparr>))"

text \<open>\<open>Publish\<close> takes the read lock and ranges over the subscribers of the event's type in
  some order.\<close>

definition Publish_start :: "Event \<Rightarrow> nat list \<Rightarrow> bus_state \<Rightarrow> bus_state option" where
  "Publish_start ev order b =
     (if distinct order \<and> set order = set (ib_subs b (ev_Type ev))
      then Some (b\<lparr>bs_publishing := bs_publishing b @ [(ev, order)]\<rparr>) else None)"

definition Publish_next :: "nat \<Rightarrow> bus_state \<Rightarrow> bus_state option" where
  "Publish_next i b =
     (if i < length (bs_publishing b)
      then (case bs_publishing b ! i of
              (ev, []) \<Rightarrow> Some (b\<lparr>bs_publishing := take i (bs_publishing b) @ drop (Suc i) (bs_publishing b)\<rparr>)
            | (ev, s # rest) \<Rightarrow>
                Some (bus_send ev s (b\<lparr>bs_publishing := (bs_publishing b)[i := (ev, rest)]\<rparr>)))
      else None)"

text \<open>A publication with no other goroutine in between.\<close>

definition Publish :: "Event \<Rightarrow> nat list \<Rightarrow> bus_state \<Rightarrow> bus_state" where
  "Publish ev order b = fold (bus_send ev) order b"

definition Subscribe :: "EventType \<Rightarrow> bus_state \<Rightarrow> bus_state option" where
  "Subscribe t b =
     (if bs_publishing b \<noteq> [] then None
      else if ib_closed b then Some b
      else Some (b\<lparr>bs_all := bs_all b @ [\<lparr>su_ch = [], su_closed = False, su_type = t, su_once = False,
                                      su_offered = [], su_got = []\<rparr>],
                  ib_subs := (ib_subs b)(t := ib_subs b t @ [length (bs_all b)])\<rparr>))"

text \<open>The function \<open>Subscribe\<close> returned for subscription \<open>s\<close>: a second call does
  nothing.\<close>

definition unsubscribe :: "nat \<Rightarrow> bus_state \<Rightarrow> bus_state option" where
  "unsubscribe s b =
     (if \<not> s < length (bs_all b) then None
      else let c = bs_all b ! s; t = su_type c
        in if su_once c then Some b
           else if bs_publishing b \<noteq> [] then None
           else Some (upd_sub s (\<lambda>c. c\<lparr>su_once := True\<rparr>)
                  (b\<lparr>ib_subs := (ib_subs b)(t := removeAll s (ib_subs b t)), bs_closing := bs_closing b @ [s]\<rparr>)))"

definition closeCh :: "nat \<Rightarrow> bus_state \<Rightarrow> bus_state option" where
  "closeCh s b =
     (if s \<in> set (bs_closing b)
      then Some (upd_sub s (\<lambda>c. c\<lparr>su_closed := True\<rparr>) (b\<lparr>bs_closing := remove1 s (bs_closing b)\<rparr>))
      else None)"

text \<open>\<open>Close\<close> up to the release of the lock; the drained subscribers are closed
  afterwards. The order in which it meets them is the order of creation here and does not matter
  below.\<close>

definition Close :: "bus_state \<Rightarrow> bus_state option" where
  "Close b =
     (if bs_publishing b \<noteq> [] then None
      else if ib_closed b then Some b
      else Some (b\<lparr>ib_closed := True,
                  bs_closing := bs_closing b @
                    filter (\<lambda>s. s \<in> set (ib_subs b (su_type (bs_all b ! s)))) [0..<length (bs_all b)],
                  ib_subs := (\<lambda>_. [])\<rparr>))"

text \<open>The subscriber's goroutine takes one event from its buffer and invokes the handler, whose
  panic is recovered.\<close>

definition drain :: "nat \<Rightarrow> bus_state \<Rightarrow> bus_state option" where
  "drain s b =
     (if \<not> s < length (bs_all b) then None
      else case su_ch (bs_all b ! s) of
          [] \<Rightarrow> None
        | ev # rest \<Rightarrow> Some (upd_sub s (\<lambda>c. c\<lparr>su_ch := rest, su_got := su_got c @ [ev]\<rparr>) b))"

definition DroppedCount :: "bus_state \<Rightarrow> 64 word" where
  "DroppedCount b = ib_dropped b"

datatype bus_op = OpPublish Event "nat list" | OpSend nat | OpSubscribe EventType | OpUnsubscribe nat
  | OpCloseCh nat | OpClose | OpDrain nat

definition bus_do :: "bus_op \<Rightarrow> bus_state \<Rightarrow> bus_state option" where
  "bus_do a b = (case a of
      OpPublish ev order \<Rightarrow> Publish_start ev order b | OpSend i \<Rightarrow> Publish_next i b
    | OpSubscribe t \<Rightarrow> Subscribe t b | OpUnsubscribe s \<Rightarrow> unsubscribe s b | OpCloseCh s \<Rightarrow> closeCh s b
    | OpClose \<Rightarrow> Close b | OpDrain s \<Rightarrow> drain s b)"

inductive bus_step :: "bus_state \<Rightarrow> bus_state \<Rightarrow> bool" where
  bus_step: "bus_do a b = Some b' \<Longrightarrow> bus_step b b'"

section \<open>The lock discipline\<close>

text \<open>A subscriber that can be reached, from the map or from a publication in progress, is open
  and not about to be closed.\<close>

definition live :: "bus_state \<Rightarrow> nat \<Rightarrow> bool" where
  "live b s \<longleftrightarrow> s < length (bs_all b) \<and> \<not> su_closed (bs_all b ! s) \<and> s \<notin> set (bs_closing b)"

definition lock_inv :: "bus_state \<Rightarrow> bool" where
  "lock_inv b \<longleftrightarrow>
     \<not> bs_panic b \<and>
     (\<forall>t. \<forall>s\<in>set (ib_subs b t). live b s \<and> su_type (bs_all b ! s) = t) \<and>
     (\<forall>p\<in>set (bs_publishing b). \<forall>s\<in>set (snd p). live b s) \<and>
     (\<forall>s\<in>set (bs_closing b). s < length (bs_all b)) \<and>
     (ib_closed b \<longrightarrow> (\<forall>t. ib_subs b t = []))"

lemma upd_sub_frame [simp]:
  "ib_subs (upd_sub s f b) = ib_subs b" "ib_closed (upd_sub s f b) = ib_closed b"
  "ib_buffer (upd_sub s f b) = ib_buffer b" "ib_dropped (upd_sub s f b) = ib_dropped b"
  "bs_publishing (upd_sub s f b) = bs_publishing b" "bs_closing (upd_sub s f b) = bs_closing b"
  "bs_panic (upd_sub s f b) = bs_panic b" "length (bs_all (upd_sub s f b)) = length (bs_all b)"
  by (simp_all add: upd_sub_def)

lemma upd_sub_nth:
  "k < length (bs_all b) \<Longrightarrow> bs_all (upd_sub s f b) ! k = (if k = s then f (bs_all b ! k) else bs_all b ! k)"
  by (auto simp: upd_sub_def nth_list_update)

lemma bus_send_frame [simp]:
  "ib_subs (bus_send ev s b) = ib_subs b" "ib_closed (bus_send ev s b) = ib_closed b"
  "bs_publishing (bus_send ev s b) = bs_publishing b" "bs_closing (bus_send ev s b) = bs_closing b"
  "length (bs_all (bus_send ev s b)) = length (bs_all b)" "ib_buffer (bus_send ev s b) = ib_buffer b"
  by (simp_all add: bus_send_def)

lemma bus_send_shape:
  assumes "k < length (bs_all b)"
  shows "su_closed (bs_all (bus_send ev s b) ! k) = su_closed (bs_all b ! k)"
    and "su_type (bs_all (bus_send ev s b) ! k) = su_type (bs_all b ! k)"
  using assms by (simp_all add: bus_send_def upd_sub_nth)

lemma bus_send_live [simp]: "live (bus_send ev s b) k = live b k"
  by (auto simp: live_def bus_send_shape)

lemma bus_send_panic: "live b s \<Longrightarrow> bs_panic (bus_send ev s b) = bs_panic b"
  by (simp add: bus_send_def live_def)

lemma live_publishing [simp]: "live (b\<lparr>bs_publishing := ps\<rparr>) = live b"
  by (simp add: live_def fun_eq_iff)

lemma lock_inv_Publish_start: "lock_inv b \<Longrightarrow> Publish_start ev order b = Some b' \<Longrightarrow> lock_inv b'"
  by (fastforce simp: lock_inv_def Publish_start_def split: if_splits)

lemma in_update_setD:
  "(\<forall>p\<in>set ps. \<forall>k\<in>set (snd p). P k) \<Longrightarrow> (\<forall>k\<in>set rest. P k) \<Longrightarrow>
   \<forall>p\<in>set (ps[i := (ev, rest)]). \<forall>k\<in>set (snd p). P k"
  using set_update_subset_insert [of ps i "(ev, rest)"] by auto

lemma lock_inv_Publish_next:
  assumes inv: "lock_inv b" and step: "Publish_next i b = Some b'"
  shows "lock_inv b'"
proof -
  obtain ev pending where i: "i < length (bs_publishing b)" "bs_publishing b ! i = (ev, pending)"
    using step by (cases "bs_publishing b ! i") (auto simp: Publish_next_def split: if_splits)
  have mem: "(ev, pending) \<in> set (bs_publishing b)" using i by (metis nth_mem)
  show ?thesis
  proof (cases pending)
    case Nil
    then have "b' = b\<lparr>bs_publishing := take i (bs_publishing b) @ drop (Suc i) (bs_publishing b)\<rparr>"
      using step i by (simp add: Publish_next_def)
    moreover have "set (take i (bs_publishing b) @ drop (Suc i) (bs_publishing b)) \<subseteq> set (bs_publishing b)"
      by (auto dest: in_set_takeD in_set_dropD)
    ultimately show ?thesis using inv by (auto simp: lock_inv_def)
  next
    case (Cons s rest)
    then have b': "b' = bus_send ev s (b\<lparr>bs_publishing := (bs_publishing b)[i := (ev, rest)]\<rparr>)"
      using step i by (simp add: Publish_next_def)
    have live: "live b s" "\<forall>k\<in>set rest. live b k" using inv mem Cons by (force simp: lock_inv_def)+
    have "\<forall>p\<in>set (bs_publishing b). \<forall>k\<in>set (snd p). live b k" using inv by (simp add: lock_inv_def)
    then have "\<forall>p\<in>set ((bs_publishing b)[i := (ev, rest)]). \<forall>k\<in>set (snd p). live b k"
      using live(2) by (rule in_update_setD)
    moreover have "su_type (bs_all b' ! k) = su_type (bs_all b ! k)" if "live b k" for k
      using that by (simp add: b' bus_send_shape live_def)
    ultimately show ?thesis using inv live by (simp add: b' lock_inv_def bus_send_panic)
  qed
qed

lemma lock_inv_Subscribe: "lock_inv b \<Longrightarrow> Subscribe t b = Some b' \<Longrightarrow> lock_inv b'"
  by (auto simp: lock_inv_def Subscribe_def live_def nth_append less_Suc_eq split: if_splits)

lemma lock_inv_unsubscribe: "lock_inv b \<Longrightarrow> unsubscribe s b = Some b' \<Longrightarrow> lock_inv b'"
  by (auto simp: lock_inv_def unsubscribe_def live_def Let_def upd_sub_nth split: if_splits)

lemma in_set_remove1D: "x \<in> set (remove1 y xs) \<Longrightarrow> x \<in> set xs"
  by (meson notin_set_remove1)

lemma lock_inv_closeCh: "lock_inv b \<Longrightarrow> closeCh s b = Some b' \<Longrightarrow> lock_inv b'"
  by (auto simp: lock_inv_def closeCh_def live_def upd_sub_nth split: if_splits
      dest: in_set_remove1D)

lemma lock_inv_Close: "lock_inv b \<Longrightarrow> Close b = Some b' \<Longrightarrow> lock_inv b'"
  by (auto simp: lock_inv_def Close_def live_def split: if_splits)

lemma lock_inv_drain: "lock_inv b \<Longrightarrow> drain s b = Some b' \<Longrightarrow> lock_inv b'"
  by (auto simp: lock_inv_def drain_def live_def upd_sub_nth split: if_splits list.splits)

lemmas lock_inv_ops = lock_inv_Publish_start lock_inv_Publish_next lock_inv_Subscribe lock_inv_unsubscribe
  lock_inv_closeCh lock_inv_Close lock_inv_drain

lemma lock_inv_step: "bus_step b b' \<Longrightarrow> lock_inv b \<Longrightarrow> lock_inv b'"
  by (erule bus_step.cases) (auto simp: bus_do_def intro: lock_inv_ops split: bus_op.splits)

lemma lock_inv_New: "lock_inv (bus_New opts)"
  by (simp add: lock_inv_def bus_New_def)

lemma reachable_lock_inv: "bus_step\<^sup>*\<^sup>* (bus_New opts) b \<Longrightarrow> lock_inv b"
  by (induction rule: rtranclp_induct) (auto intro: lock_inv_New lock_inv_step)

text \<open>
  C37: No interleaving of publishers, subscribers, unsubscriptions, \<open>Close\<close> and draining
  goroutines sends on a closed channel: in every reachable state no send has panicked, and every
  subscriber a publication in progress has still to visit is open. After \<open>Close\<close> no event
  type has a subscriber and a new subscription is not registered.
\<close>

theorem bus_never_sends_on_closed:
  assumes "bus_step\<^sup>*\<^sup>* (bus_New opts) b"
  shows "\<not> bs_panic b \<and>
    (\<forall>p\<in>set (bs_publishing b). \<forall>s\<in>set (snd p). s < length (bs_all b) \<and> \<not> su_closed (bs_all b ! s)) \<and>
    (ib_closed b \<longrightarrow> (\<forall>t. ib_subs b t = []) \<and> (\<forall>t b'. Subscribe t b = Some b' \<longrightarrow> b' = b))"
  using reachable_lock_inv [OF assms] by (auto simp: lock_inv_def live_def Subscribe_def)

section \<open>Delivery\<close>

definition ch_drops :: "subscription \<Rightarrow> nat" where
  "ch_drops c = length (su_offered c) - length (su_got c @ su_ch c)"

text \<open>What a subscriber has received and what waits in its buffer is a subsequence of what was
  offered to it, and the buffer is bounded.\<close>

definition sub_ok :: "nat \<Rightarrow> subscription \<Rightarrow> bool" where
  "sub_ok cap c \<longleftrightarrow> subseq (su_got c @ su_ch c) (su_offered c) \<and> length (su_ch c) \<le> cap \<and>
     (\<forall>ev\<in>set (su_offered c). ev_Type ev = su_type c)"

definition delivery_inv :: "bus_state \<Rightarrow> bool" where
  "delivery_inv b \<longleftrightarrow>
     (\<forall>c\<in>set (bs_all b). sub_ok (ib_buffer b) c) \<and>
     (\<forall>p\<in>set (bs_publishing b). \<forall>s\<in>set (snd p). su_type (bs_all b ! s) = ev_Type (fst p)) \<and>
     ib_dropped b = of_nat (sum_list (map ch_drops (bs_all b)))"

lemma subseq_length: "subseq xs ys \<Longrightarrow> length xs \<le> length ys"
  by (rule list_emb_length)

lemma sub_ok_keep:
  "sub_ok n c \<Longrightarrow> length (su_ch c) < n \<Longrightarrow> ev_Type ev = su_type c \<Longrightarrow>
   sub_ok n (c\<lparr>su_offered := su_offered c @ [ev], su_ch := su_ch c @ [ev]\<rparr>)"
  by (auto simp: sub_ok_def simp flip: append_assoc)

lemma sub_ok_drop:
  "sub_ok n c \<Longrightarrow> ev_Type ev = su_type c \<Longrightarrow> sub_ok n (c\<lparr>su_offered := su_offered c @ [ev]\<rparr>)"
  by (auto simp: sub_ok_def intro: subseq_rev_drop_many subseq_order.trans)

lemma ch_drops_keep: "ch_drops (c\<lparr>su_offered := su_offered c @ [ev], su_ch := su_ch c @ [ev]\<rparr>) = ch_drops c"
  by (simp add: ch_drops_def)

lemma ch_drops_drop:
  "sub_ok n c \<Longrightarrow> ch_drops (c\<lparr>su_offered := su_offered c @ [ev]\<rparr>) = Suc (ch_drops c)"
  by (auto simp: ch_drops_def sub_ok_def dest!: subseq_length)

lemma sum_list_update_nat:
  "s < length cs \<Longrightarrow> sum_list (map f (cs[s := c])) + f (cs ! s) = sum_list (map f cs) + (f c :: nat)"
  by (induction cs arbitrary: s) (auto split: nat.splits)

lemma upd_sub_delivery:
  assumes "delivery_inv b" and "s < length (bs_all b)" and "sub_ok (ib_buffer b) (f (bs_all b ! s))"
    and "su_type (f (bs_all b ! s)) = su_type (bs_all b ! s)"
    and "ch_drops (f (bs_all b ! s)) = ch_drops (bs_all b ! s)"
  shows "delivery_inv (upd_sub s f b)"
proof -
  have "sum_list (map ch_drops (bs_all (upd_sub s f b))) = sum_list (map ch_drops (bs_all b))"
    using sum_list_update_nat [OF assms(2), of ch_drops "f (bs_all b ! s)"] assms(5) by (simp add: upd_sub_def)
  moreover have "su_type (bs_all (upd_sub s f b) ! k) = su_type (bs_all b ! k)" for k
    using assms(4) by (cases "k = s") (simp_all add: upd_sub_def assms(2))
  moreover have "\<forall>c\<in>set (bs_all (upd_sub s f b)). sub_ok (ib_buffer b) c"
    using assms(1,3) set_update_subset_insert [of "bs_all b" s] by (auto simp: delivery_inv_def upd_sub_def)
  ultimately show ?thesis using assms(1) by (simp add: delivery_inv_def)
qed

lemma bus_send_delivery:
  assumes inv: "delivery_inv b" and live: "live b s" and ty: "su_type (bs_all b ! s) = ev_Type ev"
  shows "delivery_inv (bus_send ev s b)"
proof -
  let ?c = "bs_all b ! s"
  have s: "s < length (bs_all b)" "\<not> su_closed ?c" using live by (auto simp: live_def)
  have ok: "sub_ok (ib_buffer b) ?c" using inv s(1) by (simp add: delivery_inv_def)
  show ?thesis
  proof (cases "length (su_ch ?c) < ib_buffer b")
    case True
    then show ?thesis
      using upd_sub_delivery [OF inv s(1), of "\<lambda>c. c\<lparr>su_offered := su_offered c @ [ev], su_ch := su_ch c @ [ev]\<rparr>"]
        sub_ok_keep [OF ok True] ty s by (simp add: bus_send_def ch_drops_keep)
  next
    case False
    let ?f = "\<lambda>c. c\<lparr>su_offered := su_offered c @ [ev]\<rparr>"
    let ?b = "upd_sub s ?f (b\<lparr>ib_dropped := ib_dropped b + 1\<rparr>)"
    have "sum_list (map ch_drops (bs_all ?b)) = Suc (sum_list (map ch_drops (bs_all b)))"
      using sum_list_update_nat [OF s(1), of ch_drops "?f ?c"] ch_drops_drop [OF ok, of ev] by (simp add: upd_sub_def)
    moreover have "su_type (bs_all ?b ! k) = su_type (bs_all b ! k)" for k
      by (cases "k = s") (simp_all add: upd_sub_def s(1))
    moreover have "\<forall>c\<in>set (bs_all ?b). sub_ok (ib_buffer b) c"
      using inv sub_ok_drop [OF ok, of ev] ty set_update_subset_insert [of "bs_all b" s "?f ?c"]
      by (auto simp: delivery_inv_def upd_sub_def)
    ultimately have "delivery_inv ?b" using inv by (simp add: delivery_inv_def)
    then show ?thesis using False s by (simp add: bus_send_def)
  qed
qed

lemma delivery_publishing_subset:
  "delivery_inv b \<Longrightarrow> (\<And>p s. p \<in> set ps \<Longrightarrow> s \<in> set (snd p) \<Longrightarrow> su_type (bs_all b ! s) = ev_Type (fst p)) \<Longrightarrow>
   delivery_inv (b\<lparr>bs_publishing := ps\<rparr>)"
  by (simp add: delivery_inv_def)

lemma delivery_Publish_start:
  "lock_inv b \<Longrightarrow> delivery_inv b \<Longrightarrow> Publish_start ev order b = Some b' \<Longrightarrow> delivery_inv b'"
  by (auto simp: Publish_start_def lock_inv_def delivery_inv_def split: if_splits)

lemma delivery_Publish_next:
  assumes lock: "lock_inv b" and inv: "delivery_inv b" and step: "Publish_next i b = Some b'"
  shows "delivery_inv b'"
proof -
  obtain ev pending where i: "i < length (bs_publishing b)" "bs_publishing b ! i = (ev, pending)"
    using step by (cases "bs_publishing b ! i") (auto simp: Publish_next_def split: if_splits)
  have mem: "(ev, pending) \<in> set (bs_publishing b)" using i by (metis nth_mem)
  have ty: "su_type (bs_all b ! s) = ev_Type (fst p)" if "p \<in> set (bs_publishing b)" "s \<in> set (snd p)" for p s
    using inv that by (simp add: delivery_inv_def)
  show ?thesis
  proof (cases pending)
    case Nil
    have "delivery_inv (b\<lparr>bs_publishing := take i (bs_publishing b) @ drop (Suc i) (bs_publishing b)\<rparr>)"
      using inv by (rule delivery_publishing_subset) (auto intro: ty dest: in_set_takeD in_set_dropD)
    then show ?thesis using Nil step i by (simp add: Publish_next_def)
  next
    case (Cons s rest)
    let ?b = "b\<lparr>bs_publishing := (bs_publishing b)[i := (ev, rest)]\<rparr>"
    have rest: "su_type (bs_all b ! k) = ev_Type ev" if "k \<in> set (s # rest)" for k
      using ty [OF mem, of k] that Cons by simp
    have "delivery_inv ?b"
      using inv
    proof (rule delivery_publishing_subset)
      fix p k assume "p \<in> set ((bs_publishing b)[i := (ev, rest)])" "k \<in> set (snd p)"
      then have "p = (ev, rest) \<or> p \<in> set (bs_publishing b)"
        using set_update_subset_insert [of "bs_publishing b" i "(ev, rest)"] by auto
      then show "su_type (bs_all b ! k) = ev_Type (fst p)"
        using rest [of k] ty [of p k] \<open>k \<in> set (snd p)\<close> by auto
    qed
    moreover have "live b s" using lock mem Cons by (force simp: lock_inv_def)
    ultimately have "delivery_inv (bus_send ev s ?b)"
      using bus_send_delivery [of ?b s ev] rest [of s] by simp
    then show ?thesis using Cons step i by (simp add: Publish_next_def)
  qed
qed

lemma delivery_Subscribe: "delivery_inv b \<Longrightarrow> Subscribe t b = Some b' \<Longrightarrow> delivery_inv b'"
  by (auto simp: Subscribe_def delivery_inv_def sub_ok_def ch_drops_def split: if_splits)

lemma sub_fields_ok [simp]:
  "sub_ok n (c\<lparr>su_once := x\<rparr>) = sub_ok n c" "sub_ok n (c\<lparr>su_closed := x\<rparr>) = sub_ok n c"
  "ch_drops (c\<lparr>su_once := x\<rparr>) = ch_drops c" "ch_drops (c\<lparr>su_closed := x\<rparr>) = ch_drops c"
  by (simp_all add: sub_ok_def ch_drops_def)

lemma delivery_nth: "delivery_inv b \<Longrightarrow> s < length (bs_all b) \<Longrightarrow> sub_ok (ib_buffer b) (bs_all b ! s)"
  by (simp add: delivery_inv_def)

lemma delivery_unsubscribe:
  assumes "delivery_inv b" and "unsubscribe s b = Some b'"
  shows "delivery_inv b'"
proof -
  have "delivery_inv (upd_sub s (\<lambda>c. c\<lparr>su_once := True\<rparr>) (b\<lparr>ib_subs := subs, bs_closing := cl\<rparr>))"
    if "s < length (bs_all b)" for subs cl
    by (rule upd_sub_delivery) (use assms(1) that delivery_nth in \<open>auto simp: delivery_inv_def\<close>)
  then show ?thesis using assms by (auto simp: unsubscribe_def Let_def split: if_splits)
qed

lemma delivery_closeCh:
  assumes "lock_inv b" and "delivery_inv b" and "closeCh s b = Some b'"
  shows "delivery_inv b'"
proof -
  have s: "s < length (bs_all b)" using assms(1,3) by (auto simp: closeCh_def lock_inv_def split: if_splits)
  have "delivery_inv (upd_sub s (\<lambda>c. c\<lparr>su_closed := True\<rparr>) (b\<lparr>bs_closing := cl\<rparr>))" for cl
    by (rule upd_sub_delivery) (use assms(2) s delivery_nth in \<open>auto simp: delivery_inv_def\<close>)
  then show ?thesis using assms(3) by (auto simp: closeCh_def split: if_splits)
qed

lemma delivery_Close: "delivery_inv b \<Longrightarrow> Close b = Some b' \<Longrightarrow> delivery_inv b'"
  by (auto simp: Close_def delivery_inv_def split: if_splits)

lemma delivery_drain:
  assumes "delivery_inv b" and "drain s b = Some b'"
  shows "delivery_inv b'"
proof -
  obtain ev rest where c: "s < length (bs_all b)" "su_ch (bs_all b ! s) = ev # rest"
    and b': "b' = upd_sub s (\<lambda>c. c\<lparr>su_ch := rest, su_got := su_got c @ [ev]\<rparr>) b"
    using assms(2) by (auto simp: drain_def split: if_splits list.splits)
  have "sub_ok (ib_buffer b) (bs_all b ! s)" using assms(1) c(1) by (rule delivery_nth)
  then show ?thesis unfolding b'
    by (intro upd_sub_delivery assms(1) c(1)) (auto simp: sub_ok_def ch_drops_def c(2))
qed

lemma bus_step_invs:
  assumes "bus_step b b'" and "lock_inv b \<and> delivery_inv b"
  shows "lock_inv b' \<and> delivery_inv b'"
proof -
  from assms(1) obtain a where "bus_do a b = Some b'" by (auto elim: bus_step.cases)
  then have "delivery_inv b'"
    using assms(2)
    by (auto simp: bus_do_def intro: delivery_Publish_start delivery_Publish_next delivery_Subscribe
        delivery_unsubscribe delivery_closeCh delivery_Close delivery_drain split: bus_op.splits)
  then show ?thesis using assms lock_inv_step by blast
qed

lemma reachable_delivery_inv: "bus_step\<^sup>*\<^sup>* (bus_New opts) b \<Longrightarrow> lock_inv b \<and> delivery_inv b"
proof (induction rule: rtranclp_induct)
  case base
  show ?case using lock_inv_New by (simp add: delivery_inv_def bus_New_def)
qed (rule bus_step_invs)

text \<open>
  Delivery is at most once and in order, and every loss is counted. In every reachable state,
  what a subscriber received followed by what waits in its buffer is a subsequence of the events
  published to it while it was subscribed, all of its type; its buffer holds at most the
  configured number of events; and \<open>DroppedCount\<close> is, modulo \<open>2^64\<close>, the number of offers
  that neither reached a handler nor wait in a buffer.
\<close>

theorem bus_delivery:
  assumes "bus_step\<^sup>*\<^sup>* (bus_New opts) b"
  shows "(\<forall>c\<in>set (bs_all b).
      subseq (su_got c @ su_ch c) (su_offered c) \<and> (\<forall>ev\<in>set (su_offered c). ev_Type ev = su_type c) \<and>
      length (su_ch c) \<le> ib_buffer b) \<and>
    DroppedCount b = of_nat (\<Sum>c\<leftarrow>bs_all b. length (su_offered c) - length (su_got c @ su_ch c))"
  using reachable_delivery_inv [OF assms] by (simp add: delivery_inv_def sub_ok_def DroppedCount_def ch_drops_def [abs_def])

text \<open>A run with one subscriber whose buffer holds one event, and two publications.\<close>

definition sample_event :: Event where
  "sample_event = message_event ReplySent sample_envelope ''telegram'' '''' None"

fun bus_run :: "bus_op list \<Rightarrow> bus_state \<Rightarrow> bus_state option" where
  "bus_run [] b = Some b"
| "bus_run (a # as) b = (case bus_do a b of None \<Rightarrow> None | Some b' \<Rightarrow> bus_run as b')"

lemma bus_run_reach: "bus_run as b = Some b' \<Longrightarrow> bus_step\<^sup>*\<^sup>* b b'"
  by (induction as arbitrary: b)
    (auto split: option.splits intro: bus_step converse_rtranclp_into_rtranclp)

definition sample_ops :: "bus_op list" where
  "sample_ops = [OpSubscribe ReplySent, OpPublish sample_event [0], OpSend 0, OpSend 0,
     OpPublish sample_event [0], OpSend 0, OpSend 0, OpUnsubscribe 0, OpPublish sample_event [], OpCloseCh 0, OpClose]"

definition sample_bus :: bus_state where
  "sample_bus =
     \<lparr>ib_buffer = 1, ib_subs = (\<lambda>_. []), ib_closed = False, ib_dropped = 1,
      bs_all = [\<lparr>su_ch = [sample_event], su_closed = True, su_type = ReplySent, su_once = True,
                 su_offered = [sample_event, sample_event], su_got = []\<rparr>],
      bs_publishing = [(sample_event, [])], bs_closing = [], bs_panic = False\<rparr>"

lemma sample_bus_run: "bus_run (butlast sample_ops) (bus_New [1]) = Some sample_bus"
  by (simp add: sample_ops_def sample_bus_def bus_do_def Subscribe_def bus_New_def WithSubscriberBuffer_def
      Publish_start_def Publish_next_def bus_send_def upd_sub_def unsubscribe_def closeCh_def sample_event_def
      message_event_def fun_eq_iff)

theorem bus_never_sends_on_closed_witness:
  "bus_step\<^sup>*\<^sup>* (bus_New [1]) sample_bus \<and> su_closed (bs_all sample_bus ! 0) \<and>
   bs_publishing sample_bus \<noteq> [] \<and> \<not> bs_panic sample_bus"
  using bus_never_sends_on_closed [OF bus_run_reach [OF sample_bus_run]] bus_run_reach [OF sample_bus_run]
  by (simp add: sample_bus_def)

theorem bus_delivery_witness:
  "bus_step\<^sup>*\<^sup>* (bus_New [1]) sample_bus \<and> DroppedCount sample_bus = 1 \<and>
   su_ch (bs_all sample_bus ! 0) = [sample_event]"
  using bus_delivery [OF bus_run_reach [OF sample_bus_run]] bus_run_reach [OF sample_bus_run]
  by (simp add: sample_bus_def)

section \<open>One publication\<close>

text \<open>A publication that no other goroutine interrupts is the fold of its sends, and offers the
  event once to every subscriber of its type.\<close>

lemma bus_run_append:
  "bus_run (as @ bs) b = (case bus_run as b of None \<Rightarrow> None | Some b' \<Rightarrow> bus_run bs b')"
  by (induction as arbitrary: b) (auto split: option.splits)

lemma bus_send_commute:
  "bus_send ev s (b\<lparr>bs_publishing := ps\<rparr>) = (bus_send ev s b)\<lparr>bs_publishing := ps\<rparr>"
  by (simp add: bus_send_def upd_sub_def)

lemma Publish_commute:
  "Publish ev order (b\<lparr>bs_publishing := ps\<rparr>) = (Publish ev order b)\<lparr>bs_publishing := ps\<rparr>"
  by (induction order arbitrary: b) (simp_all add: Publish_def bus_send_commute)

lemma Publish_frame [simp]:
  "bs_publishing (Publish ev order b) = bs_publishing b" "length (bs_all (Publish ev order b)) = length (bs_all b)"
  "ib_buffer (Publish ev order b) = ib_buffer b"
  by (induction order arbitrary: b) (simp_all add: Publish_def)

lemma Publish_sends:
  "bus_run (replicate (Suc (length order)) (OpSend 0)) (b\<lparr>bs_publishing := [(ev, order)]\<rparr>) =
     Some ((Publish ev order b)\<lparr>bs_publishing := []\<rparr>)"
  by (induction order arbitrary: b)
    (simp_all add: bus_do_def Publish_next_def Publish_def bus_send_commute Publish_commute [unfolded Publish_def])

lemma Publish_uninterrupted:
  assumes "bs_publishing b = []" and "distinct order" and "set order = set (ib_subs b (ev_Type ev))"
  shows "bus_run (OpPublish ev order # replicate (Suc (length order)) (OpSend 0)) b = Some (Publish ev order b)"
proof -
  have "bus_do (OpPublish ev order) b = Some (b\<lparr>bs_publishing := [(ev, order)]\<rparr>)"
    using assms by (simp add: bus_do_def Publish_start_def)
  moreover have "(Publish ev order b)\<lparr>bs_publishing := []\<rparr> = Publish ev order b"
    using assms(1) by (intro bus_state.equality) simp_all
  ultimately show ?thesis using Publish_sends [where b = b and order = order and ev = ev]
    by (simp del: replicate.simps bus_run.simps add: bus_run.simps(2))
qed

end
