(* ===== verification/Conversation.thy ===== *)
theory Conversation
  imports Envelope "HOL-Library.AList" "HOL-Library.Multiset"
begin

text \<open>
  The conversation memory (\<open>internal/conversation\<close>): the conversation key
  (\<open>conversation.go\<close>), the in-memory store with its sessions (\<open>memstore.go\<close>) and the
  persistent notes (\<open>notes.go\<close>).

  Every store method runs under one mutex, so a concurrent execution is a sequence of whole
  operations. A Go map is an association list; where the code ranges over one, the order is the
  parameter \<open>iter\<close>. \<open>sort.Slice\<close>, which fixes no order between elements its
  comparison does not separate, is a parameter \<open>srt\<close> with its documented contract.
\<close>

section \<open>Data\<close>

record Turn =
  tn_Role :: string
  tn_Content :: string
  tn_Timestamp :: time
  tn_Seq :: int

record memSession =
  ss_id :: int
  ss_turns :: "Turn list"

record Note =
  nt_Seq :: int
  nt_Content :: string
  nt_Timestamp :: time

record MemStore =
  ms_m :: "(string \<times> memSession list) list"
  ms_notes :: "((string \<times> string) \<times> Note list) list"

record ConversationInfo =
  ci_Key :: string
  ci_ActiveSession :: int
  ci_SessionCount :: nat
  ci_TurnCount :: nat
  ci_LastActivity :: time
  ci_LastRole :: string

record SessionInfo =
  si_ID :: int
  si_TurnCount :: nat
  si_First :: time
  si_Last :: time

record SearchHit =
  sh_Key :: string
  sh_Session :: int
  sh_Seq :: int
  sh_Role :: string
  sh_Content :: string
  sh_Timestamp :: time

definition ErrNoConversationID :: go_error where
  "ErrNoConversationID = Sentinel ''conversation: envelope is missing Meta[\"conversation.id\"]''"
definition ErrActiveSession :: go_error where
  "ErrActiveSession = Sentinel ''conversation: cannot delete the active session''"
definition ErrNotesFull :: go_error where
  "ErrNotesFull = Sentinel ''conversation: note box full''"
definition ErrInvalidNoteScope :: go_error where
  "ErrInvalidNoteScope = Sentinel ''conversation: invalid note scope/key pair''"

section \<open>The conversation key\<close>

text \<open>\<open>KeyFromEnvelope\<close>; \<open>None\<close> is the nil envelope, and a missing metadata key reads
  as the empty string.\<close>

definition MetaConversationID :: string where "MetaConversationID = ''conversation.id''"

definition KeyFromEnvelope :: "Envelope option \<Rightarrow> go_error + string" where
  "KeyFromEnvelope env =
     (case env of
        None \<Rightarrow> Inl ErrNoConversationID
      | Some e \<Rightarrow>
          (let id = meta_get e MetaConversationID
           in if id = '''' then Inl ErrNoConversationID else Inr (en_Channel e @ ''::'' @ id)))"

lemma KeyFromEnvelope_Inr:
  "KeyFromEnvelope (Some e) = Inr k \<longleftrightarrow>
     meta_get e MetaConversationID \<noteq> '''' \<and> k = en_Channel e @ ''::'' @ meta_get e MetaConversationID"
  by (auto simp: KeyFromEnvelope_def Let_def)

text \<open>
  The conversation key identifies the conversation. Two envelopes get the same key only if
  they agree on channel and conversation id, provided the channel names contain no colon, and
  only an envelope with a conversation id gets a key.
\<close>

theorem KeyFromEnvelope_injective:
  assumes "KeyFromEnvelope (Some e) = Inr k" and "KeyFromEnvelope (Some e') = Inr k"
    and "CHR '':'' \<notin> set (en_Channel e)" and "CHR '':'' \<notin> set (en_Channel e')"
  shows "en_Channel e = en_Channel e' \<and>
    meta_get e MetaConversationID = meta_get e' MetaConversationID \<and>
    meta_get e MetaConversationID \<noteq> ''''"
proof -
  have k: "k = en_Channel e @ CHR '':'' # '':'' @ meta_get e MetaConversationID"
    and k': "k = en_Channel e' @ CHR '':'' # '':'' @ meta_get e' MetaConversationID"
    and ne: "meta_get e MetaConversationID \<noteq> ''''"
    using assms(1,2) by (auto simp: KeyFromEnvelope_Inr)
  have cut: "takeWhile (\<lambda>c. c \<noteq> CHR '':'') (ch @ CHR '':'' # r) = ch" if "CHR '':'' \<notin> set ch" for ch r
    using that by (subst takeWhile_append2) auto
  have "takeWhile (\<lambda>c. c \<noteq> CHR '':'') k = en_Channel e" unfolding k using assms(3) by (rule cut)
  moreover have "takeWhile (\<lambda>c. c \<noteq> CHR '':'') k = en_Channel e'" unfolding k' using assms(4) by (rule cut)
  ultimately show ?thesis using k k' ne by simp
qed

theorem KeyFromEnvelope_injective_witness:
  "KeyFromEnvelope (Some (sample_envelope\<lparr>en_Meta := [MetaConversationID \<mapsto> ''42'']\<rparr>)) = Inr ''telegram::42'' \<and>
   meta_get (sample_envelope\<lparr>en_Meta := [MetaConversationID \<mapsto> ''42'']\<rparr>) MetaConversationID \<noteq> ''''"
proof -
  let ?e = "sample_envelope\<lparr>en_Meta := [MetaConversationID \<mapsto> ''42'']\<rparr>"
  have ch: "en_Channel ?e = ''telegram''"
    by (simp add: sample_envelope_def AddText_def add_part_def New_def)
  have k: "KeyFromEnvelope (Some ?e) = Inr ''telegram::42''"
    using ch by (simp add: KeyFromEnvelope_def meta_get_def)
  show ?thesis using k KeyFromEnvelope_injective [OF k k] ch by simp
qed

section \<open>The store\<close>

definition NewMemStore :: MemStore where
  "NewMemStore = \<lparr>ms_m = [], ms_notes = []\<rparr>"

text \<open>\<open>s.m[key]\<close> and \<open>s.m[key] = v\<close>.\<close>

definition sessions :: "MemStore \<Rightarrow> string \<Rightarrow> memSession list" where
  "sessions s key = (case map_of (ms_m s) key of None \<Rightarrow> [] | Some ss \<Rightarrow> ss)"

definition put_sessions :: "string \<Rightarrow> memSession list \<Rightarrow> MemStore \<Rightarrow> MemStore" where
  "put_sessions key ss s = s\<lparr>ms_m := AList.update key ss (ms_m s)\<rparr>"

definition activeLocked :: "MemStore \<Rightarrow> string \<Rightarrow> memSession \<times> MemStore" where
  "activeLocked s key =
     (if sessions s key = [] then (let sess = \<lparr>ss_id = 1, ss_turns = []\<rparr> in (sess, put_sessions key [sess] s))
      else (last (sessions s key), s))"

definition seq_fill :: "int \<Rightarrow> Turn list \<Rightarrow> Turn list" where
  "seq_fill base turns = map (\<lambda>(i, t). t\<lparr>tn_Seq := base + int i\<rparr>) (enumerate 0 turns)"

definition AppendTurns :: "string \<Rightarrow> Turn list \<Rightarrow> MemStore \<Rightarrow> Turn list \<times> MemStore" where
  "AppendTurns key turns s =
     (if turns = [] then ([], s)
      else let (sess, s1) = activeLocked s key;
               out = seq_fill (int (length (ss_turns sess))) turns;
               sess' = sess\<lparr>ss_turns := ss_turns sess @ out\<rparr>
           in (out, put_sessions key (butlast (sessions s1 key) @ [sess']) s1))"

definition Append :: "string \<Rightarrow> Turn \<Rightarrow> MemStore \<Rightarrow> Turn \<times> MemStore" where
  "Append key turn s = (let (out, s') = AppendTurns key [turn] s in (out ! 0, s'))"

definition LoadRecent :: "string \<Rightarrow> int \<Rightarrow> MemStore \<Rightarrow> Turn list" where
  "LoadRecent key n s =
     (if n \<le> 0 then []
      else if sessions s key = [] then []
      else let turns = ss_turns (last (sessions s key))
           in if turns = [] then []
              else let start = int (length turns) - n; start' = (if start < 0 then 0 else start)
                   in drop (nat start') turns)"

definition NewSession :: "string \<Rightarrow> MemStore \<Rightarrow> int \<times> MemStore" where
  "NewSession key s =
     (if sessions s key = [] then (1, put_sessions key [\<lparr>ss_id = 1, ss_turns = []\<rparr>] s)
      else let active = last (sessions s key)
           in if ss_turns active = [] then (ss_id active, s)
              else (ss_id active + 1,
                    put_sessions key (sessions s key @ [\<lparr>ss_id = ss_id active + 1, ss_turns = []\<rparr>]) s))"

definition LoadSession :: "string \<Rightarrow> int \<Rightarrow> MemStore \<Rightarrow> Turn list" where
  "LoadSession key session s =
     (case find (\<lambda>sess. ss_id sess = session) (sessions s key) of None \<Rightarrow> [] | Some sess \<Rightarrow> ss_turns sess)"

definition LoadSessionTail :: "string \<Rightarrow> int \<Rightarrow> int \<Rightarrow> MemStore \<Rightarrow> Turn list" where
  "LoadSessionTail key session n s =
     (if n \<le> 0 then []
      else (case find (\<lambda>sess. ss_id sess = session) (sessions s key) of
              None \<Rightarrow> []
            | Some sess \<Rightarrow>
                (if int (length (ss_turns sess)) > n
                 then drop (nat (int (length (ss_turns sess)) - n)) (ss_turns sess) else ss_turns sess)))"

definition DeleteConversation :: "string \<Rightarrow> MemStore \<Rightarrow> MemStore" where
  "DeleteConversation key s = s\<lparr>ms_m := AList.delete key (ms_m s)\<rparr>"

definition DeleteSession :: "string \<Rightarrow> int \<Rightarrow> MemStore \<Rightarrow> go_error option \<times> MemStore" where
  "DeleteSession key session s =
     (if sessions s key = [] then (None, s)
      else if ss_id (last (sessions s key)) = session then (Some ErrActiveSession, s)
      else (None, put_sessions key (filter (\<lambda>sess. ss_id sess \<noteq> session) (sessions s key)) s))"

definition session_info :: "memSession \<Rightarrow> SessionInfo" where
  "session_info sess =
     \<lparr>si_ID = ss_id sess, si_TurnCount = length (ss_turns sess),
      si_First = (if ss_turns sess = [] then 0 else tn_Timestamp (hd (ss_turns sess))),
      si_Last = (if ss_turns sess = [] then 0 else tn_Timestamp (last (ss_turns sess)))\<rparr>"

definition ListSessions :: "string \<Rightarrow> MemStore \<Rightarrow> SessionInfo list" where
  "ListSessions key s = map session_info (sessions s key)"

text \<open>The scan for the last non-empty session, from the back.\<close>

fun last_turn :: "memSession list \<Rightarrow> Turn option" where
  "last_turn [] = None"
| "last_turn (sess # older) =
     (if ss_turns sess \<noteq> [] then Some (last (ss_turns sess)) else last_turn older)"

definition conversation_info :: "string \<times> memSession list \<Rightarrow> ConversationInfo" where
  "conversation_info kv =
     (case kv of (key, ss) \<Rightarrow>
        \<lparr>ci_Key = key, ci_ActiveSession = ss_id (last ss), ci_SessionCount = length ss,
         ci_TurnCount = sum_list (map (\<lambda>sess. length (ss_turns sess)) ss),
         ci_LastActivity = (case last_turn (rev ss) of None \<Rightarrow> 0 | Some t \<Rightarrow> tn_Timestamp t),
         ci_LastRole = (case last_turn (rev ss) of None \<Rightarrow> '''' | Some t \<Rightarrow> tn_Role t)\<rparr>)"

text \<open>The order of Go strings: bytewise lexicographic.\<close>

fun string_less :: "string \<Rightarrow> string \<Rightarrow> bool" where
  "string_less xs [] = False"
| "string_less [] (y # ys) = True"
| "string_less (x # xs) (y # ys) =
     ((of_char x :: nat) < of_char y \<or> x = y \<and> string_less xs ys)"

definition conversation_less :: "ConversationInfo \<Rightarrow> ConversationInfo \<Rightarrow> bool" where
  "conversation_less a b =
     (if ci_LastActivity a \<noteq> ci_LastActivity b then ci_LastActivity a > ci_LastActivity b
      else string_less (ci_Key a) (ci_Key b))"

text \<open>The contract of \<open>sort.Slice(xs, lt)\<close>: a permutation in which no element is less than
  one before it.\<close>

definition sorts :: "('a \<Rightarrow> 'a \<Rightarrow> bool) \<Rightarrow> ('a list \<Rightarrow> 'a list) \<Rightarrow> bool" where
  "sorts lt srt \<longleftrightarrow> (\<forall>xs. mset (srt xs) = mset xs \<and> sorted_wrt (\<lambda>a b. \<not> lt b a) (srt xs))"

definition permutes_list :: "('a list \<Rightarrow> 'a list) \<Rightarrow> bool" where
  "permutes_list iter \<longleftrightarrow> (\<forall>xs. mset (iter xs) = mset xs)"

definition ListConversations ::
    "((string \<times> memSession list) list \<Rightarrow> (string \<times> memSession list) list) \<Rightarrow>
     (ConversationInfo list \<Rightarrow> ConversationInfo list) \<Rightarrow> int \<Rightarrow> MemStore \<Rightarrow> ConversationInfo list" where
  "ListConversations iter srt limit s =
     (if limit \<le> 0 then []
      else let out = srt (map conversation_info (iter (ms_m s)))
           in if int (length out) > limit then take (nat limit) out else out)"

definition search_less :: "SearchHit \<Rightarrow> SearchHit \<Rightarrow> bool" where
  "search_less a b =
     (if sh_Timestamp a \<noteq> sh_Timestamp b then sh_Timestamp a > sh_Timestamp b
      else if sh_Key a \<noteq> sh_Key b then string_less (sh_Key a) (sh_Key b)
      else sh_Seq a > sh_Seq b)"

text \<open>\<open>strings.Contains\<close>.\<close>

fun str_contains :: "string \<Rightarrow> string \<Rightarrow> bool" where
  "str_contains [] sub = (sub = [])"
| "str_contains (c # cs) sub = (take (length sub) (c # cs) = sub \<or> str_contains cs sub)"

definition session_hits :: "(string \<Rightarrow> string) \<Rightarrow> string \<Rightarrow> string \<Rightarrow> memSession \<Rightarrow> SearchHit list" where
  "session_hits uni q key sess =
     map (\<lambda>t. \<lparr>sh_Key = key, sh_Session = ss_id sess, sh_Seq = tn_Seq t, sh_Role = tn_Role t,
              sh_Content = tn_Content t, sh_Timestamp = tn_Timestamp t\<rparr>)
       (filter (\<lambda>t. str_contains (ToLower uni (tn_Content t)) q) (ss_turns sess))"

definition SearchTurns ::
    "(string \<Rightarrow> string) \<Rightarrow> ((string \<times> memSession list) list \<Rightarrow> (string \<times> memSession list) list) \<Rightarrow>
     (SearchHit list \<Rightarrow> SearchHit list) \<Rightarrow> string \<Rightarrow> int \<Rightarrow> MemStore \<Rightarrow> SearchHit list" where
  "SearchTurns uni iter srt query limit s =
     (let q = ToLower uni (TrimSpace query)
      in if q = '''' \<or> limit \<le> 0 then []
         else let hits = srt (concat (map (\<lambda>(key, ss). concat (map (session_hits uni q key) ss)) (iter (ms_m s))))
              in if int (length hits) > limit then take (nat limit) hits else hits)"

section \<open>Notes\<close>

datatype NoteScope = ScopeConversation | ScopeBrainGlobal | ScopeInvalid int

definition EffectiveNoteScope :: "NoteScope \<Rightarrow> string \<Rightarrow> go_error + NoteScope \<times> string" where
  "EffectiveNoteScope configured key =
     (case configured of
        ScopeConversation \<Rightarrow>
          (if key = ''''
           then Inl (Errorf ''%w: conversation scope without a conversation key'' [ErrInvalidNoteScope])
           else Inr (ScopeConversation, key))
      | ScopeBrainGlobal \<Rightarrow> Inr (ScopeBrainGlobal, '''')
      | ScopeInvalid _ \<Rightarrow> Inl (Errorf ''%w: unknown scope %d'' [ErrInvalidNoteScope]))"

definition CheckNotePair :: "NoteScope \<Rightarrow> string \<Rightarrow> go_error option" where
  "CheckNotePair scope key =
     (case scope of
        ScopeConversation \<Rightarrow>
          (if key = '''' then Some (Errorf ''%w: conversation scope with an empty key'' [ErrInvalidNoteScope])
           else None)
      | ScopeBrainGlobal \<Rightarrow>
          (if key \<noteq> '''' then Some (Errorf ''%w: brain-global scope with a non-empty key %q'' [ErrInvalidNoteScope])
           else None)
      | ScopeInvalid _ \<Rightarrow> Some (Errorf ''%w: unknown scope %d'' [ErrInvalidNoteScope]))"

definition notes_of :: "MemStore \<Rightarrow> string \<Rightarrow> string \<Rightarrow> Note list" where
  "notes_of s brain key = (case map_of (ms_notes s) (brain, key) of None \<Rightarrow> [] | Some ns \<Rightarrow> ns)"

definition AppendNote ::
    "string \<Rightarrow> NoteScope \<Rightarrow> string \<Rightarrow> string \<Rightarrow> int \<Rightarrow> time \<Rightarrow> MemStore \<Rightarrow> (go_error + Note) \<times> MemStore" where
  "AppendNote brain scope key content maxNotes now s =
     (case CheckNotePair scope key of
        Some e \<Rightarrow> (Inl e, s)
      | None \<Rightarrow>
          (let existing = notes_of s brain key
           in if maxNotes > 0 \<and> int (length existing) \<ge> maxNotes then (Inl ErrNotesFull, s)
              else let note = \<lparr>nt_Seq = int (length existing) + 1, nt_Content = content, nt_Timestamp = now\<rparr>
                   in (Inr note, s\<lparr>ms_notes := AList.update (brain, key) (existing @ [note]) (ms_notes s)\<rparr>)))"

definition ListNotes :: "string \<Rightarrow> NoteScope \<Rightarrow> string \<Rightarrow> MemStore \<Rightarrow> Note list" where
  "ListNotes brain scope key s = notes_of s brain key"

definition ClearNotes :: "string \<Rightarrow> NoteScope \<Rightarrow> string \<Rightarrow> MemStore \<Rightarrow> MemStore" where
  "ClearNotes brain scope key s = s\<lparr>ms_notes := AList.delete (brain, key) (ms_notes s)\<rparr>"

section \<open>The invariant of the store\<close>

definition seq_ok :: "Turn list \<Rightarrow> bool" where
  "seq_ok ts \<longleftrightarrow> map tn_Seq ts = map int [0..<length ts]"

text \<open>The sessions of a key: at least one, ids from 1 upwards, sequence numbers that are
  positions, and no empty session except the active one.\<close>

definition sessions_ok :: "memSession list \<Rightarrow> bool" where
  "sessions_ok ss \<longleftrightarrow> ss \<noteq> [] \<and> sorted_wrt (<) (map ss_id ss) \<and> (\<forall>sess\<in>set ss. 1 \<le> ss_id sess \<and> seq_ok (ss_turns sess)) \<and>
     (\<forall>sess\<in>set (butlast ss). ss_turns sess \<noteq> [])"

definition notes_ok :: "Note list \<Rightarrow> bool" where
  "notes_ok ns \<longleftrightarrow> map nt_Seq ns = map int [1..<Suc (length ns)]"

definition store_inv :: "MemStore \<Rightarrow> bool" where
  "store_inv s \<longleftrightarrow> distinct (map fst (ms_m s)) \<and> (\<forall>k ss. map_of (ms_m s) k = Some ss \<longrightarrow> sessions_ok ss) \<and>
     (\<forall>k ns. map_of (ms_notes s) k = Some ns \<longrightarrow> notes_ok ns)"

lemma notes_ok_Nil [simp]: "notes_ok []"
  by (simp add: notes_ok_def)

lemma notes_ok_snoc: "notes_ok ns \<Longrightarrow> nt_Seq n = int (length ns) + 1 \<Longrightarrow> notes_ok (ns @ [n])"
  by (simp add: notes_ok_def)

lemma sessions_put [simp]: "sessions (put_sessions key ss s) k = (if k = key then ss else sessions s k)"
  by (simp add: sessions_def put_sessions_def AList.update_conv)

lemma put_sessions_put [simp]: "put_sessions key ss (put_sessions key ss' s) = put_sessions key ss s"
  by (simp add: put_sessions_def)

lemma notes_put [simp]: "ms_notes (put_sessions key ss s) = ms_notes s"
  by (simp add: put_sessions_def)

lemma sessions_delete [simp]: "sessions (DeleteConversation key s) k = (if k = key then [] else sessions s k)"
  by (simp add: sessions_def DeleteConversation_def AList.delete_conv)

lemma sessions_notes [simp]: "sessions (s\<lparr>ms_notes := ns\<rparr>) k = sessions s k"
  by (simp add: sessions_def)

lemma length_seq_fill [simp]: "length (seq_fill base ts) = length ts"
  by (simp add: seq_fill_def)

lemma seq_fill_Nil [simp]: "seq_fill base [] = []" "seq_fill base ts = [] \<longleftrightarrow> ts = []"
  by (simp_all add: seq_fill_def flip: length_0_conv)

lemma seq_fill_nth: "i < length ts \<Longrightarrow> seq_fill base ts ! i = (ts ! i)\<lparr>tn_Seq := base + int i\<rparr>"
  by (simp add: seq_fill_def nth_enumerate_eq)

lemma seq_ok_append:
  "seq_ok ts \<Longrightarrow> seq_ok (ts @ seq_fill (int (length ts)) us)"
  unfolding seq_ok_def
  by (rule nth_equalityI) (auto simp: nth_append seq_fill_nth dest: arg_cong [where f = "\<lambda>xs. xs ! _"])

text \<open>The active session after the operation that creates it on demand.\<close>

definition active_turns :: "MemStore \<Rightarrow> string \<Rightarrow> Turn list" where
  "active_turns s key = (if sessions s key = [] then [] else ss_turns (last (sessions s key)))"

lemma AppendTurns_sessions:
  assumes "turns \<noteq> []"
  shows "sessions (snd (AppendTurns key turns s)) k =
    (if k = key
     then (if sessions s key = [] then [\<lparr>ss_id = 1, ss_turns = seq_fill 0 turns\<rparr>]
           else butlast (sessions s key) @
             [(last (sessions s key))\<lparr>ss_turns := ss_turns (last (sessions s key)) @
                seq_fill (int (length (ss_turns (last (sessions s key))))) turns\<rparr>])
     else sessions s k)"
  using assms by (simp add: AppendTurns_def activeLocked_def Let_def)

lemma AppendTurns_out:
  "fst (AppendTurns key turns s) = seq_fill (int (length (active_turns s key))) turns"
  by (simp add: AppendTurns_def activeLocked_def Let_def active_turns_def)

lemma AppendTurns_active:
  "active_turns (snd (AppendTurns key turns s)) k =
    (if k = key then active_turns s key @ seq_fill (int (length (active_turns s key))) turns
     else active_turns s k)"
proof (cases "turns = []")
  case True
  then show ?thesis by (simp add: AppendTurns_def)
next
  case False
  then show ?thesis by (simp add: active_turns_def AppendTurns_sessions)
qed

lemma LoadRecent_active:
  "LoadRecent key n s = (if n \<le> 0 then [] else take_last (nat n) (active_turns s key))"
  by (auto simp: LoadRecent_def active_turns_def take_last_def Let_def nat_diff_distrib)

lemma NewSession_active:
  "active_turns (snd (NewSession key s)) k = (if k = key then [] else active_turns s k)"
  by (auto simp: NewSession_def active_turns_def Let_def)

lemma store_inv_sessions: "store_inv s \<Longrightarrow> sessions s k \<noteq> [] \<Longrightarrow> sessions_ok (sessions s k)"
  by (auto simp: store_inv_def sessions_def split: option.splits)

lemma store_inv_put: "store_inv s \<Longrightarrow> sessions_ok ss \<Longrightarrow> store_inv (put_sessions key ss s)"
  by (auto simp: store_inv_def put_sessions_def AList.update_conv distinct_update split: if_splits)

lemma sessions_ok_new: "seq_ok ts \<Longrightarrow> sessions_ok [\<lparr>ss_id = 1, ss_turns = ts\<rparr>]"
  by (simp add: sessions_ok_def)

lemma seq_ok_Nil [simp]: "seq_ok []"
  by (simp add: seq_ok_def)

lemma sessions_ok_replace_last:
  assumes "sessions_ok ss" and "ss_id sess = ss_id (last ss)" and "seq_ok (ss_turns sess)"
  shows "sessions_ok (butlast ss @ [sess])"
proof -
  have ne: "ss \<noteq> []" using assms(1) by (simp add: sessions_ok_def)
  then have ids: "map ss_id (butlast ss @ [sess]) = map ss_id ss"
    using assms(2) by (metis append_butlast_last_id list.map(1) list.map(2) map_append)
  have "1 \<le> ss_id sess" using assms(1,2) ne by (simp add: sessions_ok_def)
  moreover have "set (butlast ss) \<subseteq> set ss" by (meson in_set_butlastD subsetI)
  ultimately show ?thesis
    using assms(1,3) unfolding sessions_ok_def ids by auto
qed

lemma sessions_ok_append1:
  "sessions_ok (bs @ [l]) \<longleftrightarrow>
   sorted_wrt (<) (map ss_id bs) \<and> (\<forall>x\<in>set bs. ss_id x < ss_id l) \<and>
   (\<forall>x\<in>set bs. 1 \<le> ss_id x \<and> seq_ok (ss_turns x) \<and> ss_turns x \<noteq> []) \<and> 1 \<le> ss_id l \<and> seq_ok (ss_turns l)"
  by (auto simp: sessions_ok_def sorted_wrt_append)

lemma sessions_ok_snoc:
  assumes "sessions_ok ss" and "ss_turns (last ss) \<noteq> []"
  shows "sessions_ok (ss @ [\<lparr>ss_id = ss_id (last ss) + 1, ss_turns = []\<rparr>])"
proof (cases ss rule: rev_cases)
  case Nil
  with assms(1) show ?thesis by (simp add: sessions_ok_def)
next
  case (snoc bs l)
  with assms have "sessions_ok (bs @ [l])" "ss_turns l \<noteq> []" by simp_all
  then show ?thesis unfolding snoc
    by (subst sessions_ok_append1) (fastforce simp: sessions_ok_append1 sorted_wrt_append)
qed

lemma sessions_ok_filter:
  assumes "sessions_ok ss" and "ss_id (last ss) \<noteq> session"
  shows "sessions_ok (filter (\<lambda>sess. ss_id sess \<noteq> session) ss)"
proof (cases ss rule: rev_cases)
  case Nil
  with assms(1) show ?thesis by (simp add: sessions_ok_def)
next
  case (snoc bs l)
  with assms have ok: "sessions_ok (bs @ [l])" and ne: "ss_id l \<noteq> session" by simp_all
  have "sorted_wrt (<) (map ss_id (filter (\<lambda>sess. ss_id sess \<noteq> session) bs))"
    using ok unfolding sessions_ok_append1 sorted_wrt_map by (intro sorted_wrt_filter) auto
  with ok have "sessions_ok (filter (\<lambda>sess. ss_id sess \<noteq> session) bs @ [l])"
    by (auto simp: sessions_ok_append1)
  with snoc ne show ?thesis by simp
qed

lemma AppendTurns_inv: "store_inv s \<Longrightarrow> store_inv (snd (AppendTurns key turns s))"
proof (cases "turns = []")
  case True
  then show "store_inv s \<Longrightarrow> ?thesis" by (simp add: AppendTurns_def)
next
  case False
  assume inv: "store_inv s"
  show ?thesis
  proof (cases "sessions s key = []")
    case True
    have "seq_ok (seq_fill 0 turns)" using seq_ok_append [of "[]" turns] by simp
    with True False inv show ?thesis
      by (simp add: AppendTurns_def activeLocked_def Let_def store_inv_put sessions_ok_new)
  next
    case ne: False
    let ?l = "last (sessions s key)"
    have ok: "sessions_ok (sessions s key)" using inv ne by (rule store_inv_sessions)
    then have "seq_ok (ss_turns ?l)" using ne by (simp add: sessions_ok_def)
    then have "sessions_ok (butlast (sessions s key) @
        [?l\<lparr>ss_turns := ss_turns ?l @ seq_fill (int (length (ss_turns ?l))) turns\<rparr>])"
      by (intro sessions_ok_replace_last [OF ok]) (simp_all add: seq_ok_append)
    with False ne inv show ?thesis
      by (simp add: AppendTurns_def activeLocked_def Let_def store_inv_put)
  qed
qed

lemma NewSession_inv: "store_inv s \<Longrightarrow> store_inv (snd (NewSession key s))"
  by (auto simp: NewSession_def Let_def intro!: store_inv_put sessions_ok_new sessions_ok_snoc
      store_inv_sessions)

lemma DeleteSession_inv: "store_inv s \<Longrightarrow> store_inv (snd (DeleteSession key session s))"
  by (auto simp: DeleteSession_def intro!: store_inv_put sessions_ok_filter store_inv_sessions)

lemma DeleteConversation_inv: "store_inv s \<Longrightarrow> store_inv (DeleteConversation key s)"
  by (auto simp: store_inv_def DeleteConversation_def AList.delete_conv AList.distinct_delete split: if_splits)

lemma AppendNote_inv: "store_inv s \<Longrightarrow> store_inv (snd (AppendNote brain scope key content n now s))"
  by (auto simp: store_inv_def AppendNote_def notes_of_def Let_def AList.update_conv
      intro!: notes_ok_snoc [of "[]", simplified] notes_ok_snoc split: option.splits if_splits)

lemma ClearNotes_inv: "store_inv s \<Longrightarrow> store_inv (ClearNotes brain scope key s)"
  by (auto simp: store_inv_def ClearNotes_def AList.delete_conv split: if_splits)

section \<open>What the brain relies on\<close>

lemma seq_fill_append: "seq_fill b (xs @ ys) = seq_fill b xs @ seq_fill (b + int (length xs)) ys"
proof (rule nth_equalityI)
  fix i assume "i < length (seq_fill b (xs @ ys))"
  then show "seq_fill b (xs @ ys) ! i = (seq_fill b xs @ seq_fill (b + int (length xs)) ys) ! i"
    by (cases "i < length xs") (simp_all add: seq_fill_nth nth_append)
qed simp

text \<open>
  The interface \<open>conversation.Store\<close>, with the active history of a key as its abstract
  state: a load shows the end of the history, an append extends the history of its key by the
  whole group with consecutive sequence numbers, and a new session cuts it.
\<close>

locale conversation_store =
  fixes load :: "string \<Rightarrow> int \<Rightarrow> 's \<Rightarrow> Turn list"
    and append_turns :: "string \<Rightarrow> Turn list \<Rightarrow> 's \<Rightarrow> Turn list \<times> 's"
    and new_session :: "string \<Rightarrow> 's \<Rightarrow> int \<times> 's"
    and history :: "'s \<Rightarrow> string \<Rightarrow> Turn list"
  assumes load_history: "load key n s = (if n \<le> 0 then [] else take_last (nat n) (history s key))"
    and append_history: "history (snd (append_turns key turns s)) k =
      (if k = key then history s key @ seq_fill (int (length (history s key))) turns else history s k)"
    and append_result: "fst (append_turns key turns s) = seq_fill (int (length (history s key))) turns"
    and new_history: "history (snd (new_session key s)) k = (if k = key then [] else history s k)"
begin

lemma groups_contiguous:
  "history (fold (\<lambda>(k, turns) s. snd (append_turns k turns s)) groups s) key =
   history s key @ seq_fill (int (length (history s key)))
     (concat (map snd (filter (\<lambda>g. fst g = key) groups)))"
proof (induction groups arbitrary: s)
  case Nil
  then show ?case by simp
next
  case (Cons g groups)
  obtain k turns where g: "g = (k, turns)" by fastforce
  show ?case
    unfolding g using Cons.IH [of "snd (append_turns k turns s)"]
    by (auto simp: append_history seq_fill_append)
qed

lemma load_own_append:
  assumes "int (length turns) \<le> n" and "turns \<noteq> []"
  shows "\<exists>before. load key n (snd (append_turns key turns s)) = before @ fst (append_turns key turns s)"
proof -
  have "0 < n" using assms by (cases turns) auto
  moreover have "length turns \<le> nat n" using assms(1) by simp
  ultimately show ?thesis
    using take_last_append [of "seq_fill (int (length (history s key))) turns" "nat n" "history s key"]
    by (auto simp: load_history append_history append_result)
qed

end

interpretation mem: conversation_store LoadRecent AppendTurns NewSession active_turns
  by unfold_locales (simp_all add: LoadRecent_active AppendTurns_active AppendTurns_out NewSession_active)

text \<open>
  Groups of turns are never split or lost. Whatever groups are appended to whatever keys in
  whatever order, \<open>LoadRecent\<close> then shows the last turns of the earlier history of its key
  followed by the groups appended to that key, each whole and in the order of the appends, with
  consecutive sequence numbers.
\<close>

theorem AppendTurns_groups_contiguous:
  "LoadRecent key n (fold (\<lambda>(k, turns) s. snd (AppendTurns k turns s)) groups s) =
   (if n \<le> 0 then []
    else take_last (nat n) (active_turns s key @ seq_fill (int (length (active_turns s key)))
           (concat (map snd (filter (\<lambda>g. fst g = key) groups)))))"
  by (simp add: mem.load_history mem.groups_contiguous)

section \<open>Reachable stores\<close>

text \<open>One operation of a client; the mutex makes every execution a sequence of these.\<close>

inductive mem_step :: "MemStore \<Rightarrow> MemStore \<Rightarrow> bool" where
  step_append: "mem_step s (snd (AppendTurns key turns s))"
| step_new: "mem_step s (snd (NewSession key s))"
| step_delete_session: "mem_step s (snd (DeleteSession key session s))"
| step_delete: "mem_step s (DeleteConversation key s)"
| step_note: "mem_step s (snd (AppendNote brain scope key content maxNotes now s))"
| step_clear: "mem_step s (ClearNotes brain scope key s)"

lemma mem_step_inv: "mem_step s t \<Longrightarrow> store_inv s \<Longrightarrow> store_inv t"
  by (induction rule: mem_step.induct)
    (simp_all add: AppendTurns_inv NewSession_inv DeleteSession_inv DeleteConversation_inv
      AppendNote_inv ClearNotes_inv)

lemma store_inv_init: "store_inv NewMemStore"
  by (simp add: store_inv_def NewMemStore_def)

lemma reachable_store_inv: "mem_step\<^sup>*\<^sup>* NewMemStore s \<Longrightarrow> store_inv s"
  by (induction rule: rtranclp_induct) (auto intro: store_inv_init mem_step_inv)

text \<open>
  The shape of the store. In every store that operations can reach from a new one, each key
  with sessions has session ids that start at 1 or above and strictly increase, every turn's
  sequence number is its position in its session, only the active session of a key may be empty,
  and the notes of a scope are numbered from 1 without gaps.
\<close>

theorem reachable_store_shape:
  assumes "mem_step\<^sup>*\<^sup>* NewMemStore s"
  shows "(sessions s key \<noteq> [] \<longrightarrow>
      sorted_wrt (<) (map ss_id (sessions s key)) \<and>
      (\<forall>sess\<in>set (sessions s key). 1 \<le> ss_id sess \<and>
         map tn_Seq (ss_turns sess) = map int [0..<length (ss_turns sess)]) \<and>
      (\<forall>sess\<in>set (butlast (sessions s key)). ss_turns sess \<noteq> [])) \<and>
    map nt_Seq (notes_of s brain key) = map int [1..<Suc (length (notes_of s brain key))]"
proof -
  have inv: "store_inv s" using assms by (rule reachable_store_inv)
  have "notes_ok (notes_of s brain key)"
    using inv by (auto simp: store_inv_def notes_of_def split: option.splits)
  with store_inv_sessions [OF inv, of key] show ?thesis
    unfolding sessions_ok_def seq_ok_def notes_ok_def by blast
qed

lemma NewSession_nonempty: "sessions (snd (NewSession key s)) key \<noteq> []"
  by (auto simp: NewSession_def Let_def)

definition sample_turn :: "string \<Rightarrow> Turn" where
  "sample_turn c = \<lparr>tn_Role = ''user'', tn_Content = c, tn_Timestamp = 5, tn_Seq = 0\<rparr>"

theorem reachable_store_shape_witness:
  "sorted_wrt (<) (map ss_id (sessions (snd (NewSession ''k'' (snd (AppendTurns ''k'' [sample_turn ''hi''] NewMemStore)))) ''k''))"
proof -
  let ?s = "snd (AppendTurns ''k'' [sample_turn ''hi''] NewMemStore)"
  have "mem_step\<^sup>*\<^sup>* NewMemStore (snd (NewSession ''k'' ?s))"
    by (rule rtranclp.rtrancl_into_rtrancl [OF r_into_rtranclp [of mem_step, OF step_append] step_new])
  moreover have "sessions (snd (NewSession ''k'' ?s)) ''k'' \<noteq> []"
    by (rule NewSession_nonempty)
  ultimately show ?thesis using reachable_store_shape by blast
qed

section \<open>Sessions and deletion\<close>

lemma find_append_some: "find P xs = Some y \<Longrightarrow> find P (xs @ ys) = Some y"
  by (induction xs) (auto split: if_splits)

lemma find_filtered_out [simp]:
  "find (\<lambda>sess. ss_id sess = session) (filter (\<lambda>sess. ss_id sess \<noteq> session) ss) = None"
  by (auto simp: find_None_iff)

lemma find_filter_id:
  "session' \<noteq> session \<Longrightarrow> find (\<lambda>sess. ss_id sess = session') (filter (\<lambda>sess. ss_id sess \<noteq> session) ss) =
   find (\<lambda>sess. ss_id sess = session') ss"
  by (induction ss) auto

text \<open>
  A session reset is a hard cut that keeps the archive. After \<open>NewSession\<close> on a store
  that operations can reach, \<open>LoadRecent\<close> of the key shows nothing, the sessions that had
  turns still load in full under their ids, the new active session has a larger id than a
  non-empty one before it, and no other conversation changes.
\<close>

theorem NewSession_hard_cut:
  assumes "mem_step\<^sup>*\<^sup>* NewMemStore s"
  shows "LoadRecent key n (snd (NewSession key s)) = [] \<and>
    (\<forall>session. LoadSession key session s \<noteq> [] \<longrightarrow>
       LoadSession key session (snd (NewSession key s)) = LoadSession key session s) \<and>
    (active_turns s key \<noteq> [] \<longrightarrow> (\<forall>sess\<in>set (sessions s key). ss_id sess < fst (NewSession key s))) \<and>
    (\<forall>key'. key' \<noteq> key \<longrightarrow> sessions (snd (NewSession key s)) key' = sessions s key')"
proof (intro conjI allI impI)
  have inv: "store_inv s" using assms by (rule reachable_store_inv)
  show "LoadRecent key n (snd (NewSession key s)) = []"
    by (simp add: mem.load_history mem.new_history take_last_def)
  show "LoadSession key session (snd (NewSession key s)) = LoadSession key session s"
    if "LoadSession key session s \<noteq> []" for session
  proof -
    have "find (\<lambda>sess. ss_id sess = session) (sessions s key @ [x]) =
        find (\<lambda>sess. ss_id sess = session) (sessions s key)" for x
      using that by (cases "find (\<lambda>sess. ss_id sess = session) (sessions s key)")
        (auto simp: LoadSession_def find_append_some)
    with that show ?thesis by (auto simp: LoadSession_def NewSession_def Let_def)
  qed
  show "\<forall>sess\<in>set (sessions s key). ss_id sess < fst (NewSession key s)" if "active_turns s key \<noteq> []"
  proof (cases "sessions s key" rule: rev_cases)
    case (snoc bs l)
    with store_inv_sessions [OF inv, of key] have "\<forall>x\<in>set bs. ss_id x < ss_id l"
      by (simp add: sessions_ok_append1)
    with snoc that show ?thesis by (auto simp: NewSession_def Let_def active_turns_def)
  qed simp
  show "sessions (snd (NewSession key s)) key' = sessions s key'" if "key' \<noteq> key" for key'
    using that by (simp add: NewSession_def Let_def)
qed

theorem NewSession_hard_cut_witness:
  "LoadRecent ''k'' 10 (snd (NewSession ''k'' (snd (AppendTurns ''k'' [sample_turn ''hi''] NewMemStore)))) = []"
  using NewSession_hard_cut [OF r_into_rtranclp [of mem_step, OF step_append]] by blast

text \<open>
  Deletion is real and protects the active session. \<open>DeleteConversation\<close> leaves no
  session of its key and touches no other key; \<open>DeleteSession\<close> refuses the active session
  with \<open>ErrActiveSession\<close> and an unchanged store, and otherwise removes the turns of that
  session and of no other and leaves what \<open>LoadRecent\<close> shows alone.
\<close>

theorem deletion_exact:
  "(\<forall>k. sessions (DeleteConversation key s) k = (if k = key then [] else sessions s k)) \<and>
    (sessions s key \<noteq> [] \<and> session = ss_id (last (sessions s key)) \<longrightarrow>
       DeleteSession key session s = (Some ErrActiveSession, s)) \<and>
    (sessions s key \<noteq> [] \<and> session \<noteq> ss_id (last (sessions s key)) \<longrightarrow>
       fst (DeleteSession key session s) = None \<and>
       (\<forall>session'. LoadSession key session' (snd (DeleteSession key session s)) =
          (if session' = session then [] else LoadSession key session' s)) \<and>
       LoadRecent key n (snd (DeleteSession key session s)) = LoadRecent key n s)"
proof -
  have last_filter: "last (filter (\<lambda>sess. ss_id sess \<noteq> session) ss) = last ss"
    "filter (\<lambda>sess. ss_id sess \<noteq> session) ss \<noteq> []"
    if "ss \<noteq> []" "session \<noteq> ss_id (last ss)" for ss
    using that by (cases ss rule: rev_cases; simp)+
  have recent: "LoadRecent key n (put_sessions key (filter (\<lambda>sess. ss_id sess \<noteq> session) (sessions s key)) s) =
      LoadRecent key n s" if "sessions s key \<noteq> []" "session \<noteq> ss_id (last (sessions s key))"
    using last_filter [OF that] that by (simp add: mem.load_history active_turns_def)
  show ?thesis
    using recent by (auto simp: DeleteSession_def LoadSession_def find_filter_id)
qed

theorem deletion_exact_witness:
  "sessions (DeleteConversation ''k'' (snd (AppendTurns ''k'' [sample_turn ''hi''] NewMemStore))) ''k'' = []"
  using deletion_exact by auto

section \<open>Listings\<close>

lemma sorted_wrt_unique:
  assumes "mset xs = mset ys" and "sorted_wrt R xs" and "sorted_wrt R ys"
    and "\<And>a b. a \<in> set xs \<Longrightarrow> b \<in> set xs \<Longrightarrow> R a b \<Longrightarrow> R b a \<Longrightarrow> a = b"
  shows "xs = ys"
  using assms
proof (induction xs arbitrary: ys)
  case Nil
  then show ?case by simp
next
  case (Cons x xs)
  then obtain y ys' where ys: "ys = y # ys'" by (cases ys) auto
  have sets: "set (x # xs) = set ys" using Cons.prems(1) by (metis set_mset_mset)
  have "x = y"
  proof (rule ccontr)
    assume ne: "x \<noteq> y"
    with sets ys have "x \<in> set ys'" "y \<in> set xs" by auto
    with Cons.prems(2,3) ys have "R x y" "R y x" by auto
    with Cons.prems(4) sets ys ne show False by auto
  qed
  moreover from this Cons.prems ys have "xs = ys'" by (intro Cons.IH) auto
  ultimately show ?case using ys by simp
qed

lemma string_less_total: "xs \<noteq> ys \<Longrightarrow> string_less xs ys \<or> string_less ys xs"
proof (induction xs ys rule: string_less.induct)
  case (1 xs)
  then show ?case by (cases xs) auto
next
  case (3 x xs y ys)
  show ?case
  proof (cases "x = y")
    case True
    with 3 show ?thesis by auto
  next
    case False
    then have "(of_char x :: nat) \<noteq> of_char y" by simp
    then have "(of_char x :: nat) < of_char y \<or> (of_char y :: nat) < of_char x" by linarith
    then show ?thesis by auto
  qed
qed simp

lemma string_less_irrefl [simp]: "\<not> string_less xs xs"
  by (induction xs) auto

lemma conversation_less_total:
  "ci_Key a \<noteq> ci_Key b \<Longrightarrow> conversation_less a b \<or> conversation_less b a"
  using string_less_total by (auto simp: conversation_less_def)

lemma conversation_info_key [simp]: "ci_Key (conversation_info kv) = fst kv"
  by (simp add: conversation_info_def split: prod.splits)

lemma info_unique:
  assumes "distinct (map fst m)" and "a \<in> set (map conversation_info m)" and "b \<in> set (map conversation_info m)"
    and "ci_Key a = ci_Key b"
  shows "a = b"
proof -
  from assms(2,3) obtain x y where x: "x \<in> set m" "a = conversation_info x"
    and y: "y \<in> set m" "b = conversation_info y" by auto
  with assms(4) have "fst x = fst y" by simp
  with assms(1) x(1) y(1) have "x = y" by (metis distinct_map inj_onD)
  with x(2) y(2) show ?thesis by simp
qed

text \<open>
  The inbox listing is deterministic. In every reachable store, \<open>ListConversations\<close> gives
  the same list for every iteration order of the map and every sort that meets the contract of
  \<open>sort.Slice\<close>; the list has no more than \<open>limit\<close> rows and no conversation with more
  recent activity than a listed one is left out.
\<close>

theorem ListConversations_deterministic:
  assumes "mem_step\<^sup>*\<^sup>* NewMemStore s"
    and "permutes_list iter" and "permutes_list iter'"
    and "sorts conversation_less srt" and "sorts conversation_less srt'"
  shows "ListConversations iter srt limit s = ListConversations iter' srt' limit s \<and>
    int (length (ListConversations iter srt limit s)) \<le> max 0 limit \<and>
    (\<forall>a\<in>set (ListConversations iter srt limit s). \<forall>kv\<in>set (ms_m s).
       conversation_info kv \<notin> set (ListConversations iter srt limit s) \<and> 0 < limit \<longrightarrow>
       ci_LastActivity (conversation_info kv) \<le> ci_LastActivity a)"
proof -
  let ?xs = "srt (map conversation_info (iter (ms_m s)))"
  let ?ys = "srt' (map conversation_info (iter' (ms_m s)))"
  have d: "distinct (map fst (ms_m s))"
    using reachable_store_inv [OF assms(1)] by (simp add: store_inv_def)
  have m: "mset ?xs = mset (map conversation_info (ms_m s))" "mset ?ys = mset (map conversation_info (ms_m s))"
    using assms(2-5) by (simp_all add: sorts_def permutes_list_def)
  then have set: "set ?xs = set (map conversation_info (ms_m s))" by (metis set_mset_mset)
  have so: "sorted_wrt (\<lambda>a b. \<not> conversation_less b a) ?xs" "sorted_wrt (\<lambda>a b. \<not> conversation_less b a) ?ys"
    using assms(4,5) by (simp_all add: sorts_def)
  have eq: "?xs = ?ys"
  proof (rule sorted_wrt_unique [OF _ so])
    show "mset ?xs = mset ?ys" using m by simp
    show "a = b" if "a \<in> set ?xs" "b \<in> set ?xs" "\<not> conversation_less b a" "\<not> conversation_less a b" for a b
      using that conversation_less_total [of a b] info_unique [OF d] unfolding set by blast
  qed
  have top: "ci_LastActivity (conversation_info kv) \<le> ci_LastActivity a"
    if a: "a \<in> set (take n ?xs)" and kv: "kv \<in> set (ms_m s)" "conversation_info kv \<notin> set (take n ?xs)" for a kv n
  proof -
    have "conversation_info kv \<in> set (drop n ?xs)"
      using kv set by (metis Un_iff append_take_drop_id image_eqI list.set_map set_append)
    moreover have "sorted_wrt (\<lambda>a b. \<not> conversation_less b a) (take n ?xs @ drop n ?xs)" using so(1) by simp
    ultimately have "\<not> conversation_less (conversation_info kv) a"
      using a unfolding sorted_wrt_append by blast
    then show ?thesis by (auto simp: conversation_less_def split: if_splits)
  qed
  have shape: "ListConversations iter srt limit s = take (nat limit) ?xs"
    by (simp add: ListConversations_def Let_def)
  have "conversation_info kv \<notin> set (take (nat limit) ?xs) \<and> 0 < limit \<longrightarrow>
      ci_LastActivity (conversation_info kv) \<le> ci_LastActivity a"
    if "a \<in> set (take (nat limit) ?xs)" "kv \<in> set (ms_m s)" for a kv
    using top that by blast
  then show ?thesis unfolding shape using eq
    by (auto simp: ListConversations_def Let_def)
qed

text \<open>Insertion sort meets the contract, so the contract can be met.\<close>

fun insert_by :: "('a \<Rightarrow> 'a \<Rightarrow> bool) \<Rightarrow> 'a \<Rightarrow> 'a list \<Rightarrow> 'a list" where
  "insert_by lt x [] = [x]"
| "insert_by lt x (y # ys) = (if lt y x then y # insert_by lt x ys else x # y # ys)"

definition sort_by :: "('a \<Rightarrow> 'a \<Rightarrow> bool) \<Rightarrow> 'a list \<Rightarrow> 'a list" where
  "sort_by lt xs = foldr (insert_by lt) xs []"

lemma mset_insert_by [simp]: "mset (insert_by lt x ys) = add_mset x (mset ys)"
  by (induction ys) auto

lemma set_insert_by [simp]: "set (insert_by lt x ys) = insert x (set ys)"
  by (metis mset_insert_by set_mset_add_mset_insert set_mset_mset)

lemma sort_by_sorts:
  assumes "\<And>a b. lt a b \<Longrightarrow> \<not> lt b a" and "\<And>a b c. lt c a \<Longrightarrow> lt c b \<or> lt b a"
  shows "sorts lt (sort_by lt)"
proof -
  have ins: "sorted_wrt (\<lambda>a b. \<not> lt b a) ys \<Longrightarrow> sorted_wrt (\<lambda>a b. \<not> lt b a) (insert_by lt x ys)" for x ys
    by (induction ys) (use assms in \<open>auto, blast+\<close>)
  have "mset (sort_by lt xs) = mset xs \<and> sorted_wrt (\<lambda>a b. \<not> lt b a) (sort_by lt xs)" for xs
    by (induction xs) (simp_all add: sort_by_def ins)
  then show ?thesis by (simp add: sorts_def)
qed

lemma string_less_asym: "string_less xs ys \<Longrightarrow> \<not> string_less ys xs"
  by (induction xs ys rule: string_less.induct) auto

lemma string_less_split: "string_less c a \<Longrightarrow> string_less c b \<or> string_less b a"
proof (induction c a arbitrary: b rule: string_less.induct)
  case (2 y ys)
  then show ?case by (cases b) auto
next
  case (3 x xs y ys)
  show ?case
  proof (cases b)
    case Nil
    then show ?thesis by simp
  next
    case (Cons z zs)
    have "(of_char z :: nat) = of_char x \<longleftrightarrow> z = x" "(of_char z :: nat) = of_char y \<longleftrightarrow> z = y" by simp_all
    then have "(of_char x :: nat) < of_char z \<or> (of_char z :: nat) < of_char y \<or> x = z \<and> z = y"
      using 3 by (metis linorder_neqE_nat less_trans string_less.simps(3))
    with Cons 3 show ?thesis by auto
  qed
qed simp

lemma conversation_less_sortable: "sorts conversation_less (sort_by conversation_less)"
  by (rule sort_by_sorts)
    (auto simp: conversation_less_def split: if_splits dest: string_less_asym string_less_split)

theorem ListConversations_deterministic_witness:
  "ListConversations rev (sort_by conversation_less) 5 (snd (AppendTurns ''k'' [sample_turn ''hi''] NewMemStore)) =
   ListConversations (\<lambda>xs. xs) (sort_by conversation_less) 5 (snd (AppendTurns ''k'' [sample_turn ''hi''] NewMemStore))"
proof -
  have p: "permutes_list rev" "permutes_list (\<lambda>xs. xs)" by (simp_all add: permutes_list_def)
  from ListConversations_deterministic [OF r_into_rtranclp [of mem_step, OF step_append] p
      conversation_less_sortable conversation_less_sortable]
  show ?thesis by blast
qed

section \<open>Notes stay in their scope\<close>

text \<open>
  Notes respect their cap and their scope. A note is stored exactly when the pair of scope
  and key is coherent and the box is not full, and then it is the last note of that brain and
  key; a refusal changes nothing; no other brain's or key's notes change; in particular a note of
  a conversation never lands in the brain-global box; and what \<open>EffectiveNoteScope\<close>
  derives always passes the store's own check.
\<close>

theorem AppendNote_scoped:
  "(\<exists>note. AppendNote brain scope key content maxNotes now s =
      (Inr note, snd (AppendNote brain scope key content maxNotes now s)) \<and>
      ListNotes brain scope key (snd (AppendNote brain scope key content maxNotes now s)) =
        ListNotes brain scope key s @ [note] \<and> nt_Content note = content \<and>
      CheckNotePair scope key = None \<and>
      (maxNotes > 0 \<longrightarrow> int (length (ListNotes brain scope key s)) < maxNotes))
   \<or> (\<exists>e. AppendNote brain scope key content maxNotes now s = (Inl e, s) \<and>
      (errors_Is e ErrInvalidNoteScope \<longleftrightarrow> CheckNotePair scope key \<noteq> None) \<and>
      (CheckNotePair scope key = None \<longrightarrow>
         e = ErrNotesFull \<and> maxNotes > 0 \<and> maxNotes \<le> int (length (ListNotes brain scope key s))))"
  (is "?stored \<or> ?refused")
proof (cases "CheckNotePair scope key")
  case None
  then show ?thesis
    by (auto simp: AppendNote_def Let_def ListNotes_def notes_of_def AList.update_conv
        ErrNotesFull_def ErrInvalidNoteScope_def)
next
  case (Some e)
  then have "errors_Is e ErrInvalidNoteScope"
    by (auto simp: CheckNotePair_def ErrInvalidNoteScope_def split: NoteScope.splits if_splits)
  with Some show ?thesis by (auto simp: AppendNote_def)
qed

theorem AppendNote_scoped_witness:
  "ListNotes ''b'' ScopeBrainGlobal '''' (snd (AppendNote ''b'' ScopeBrainGlobal '''' ''tea'' 3 7 NewMemStore)) \<noteq> []"
  using AppendNote_scoped [of "''b''" ScopeBrainGlobal "''''" "''tea''" 3 7 NewMemStore]
  by (auto simp: CheckNotePair_def ListNotes_def notes_of_def NewMemStore_def)

lemma notes_of_AppendNote_other:
  "(b', k') \<noteq> (brain, key) \<Longrightarrow>
   notes_of (snd (AppendNote brain scope key content maxNotes now s)) b' k' = notes_of s b' k'"
  by (cases "CheckNotePair scope key") (auto simp: AppendNote_def notes_of_def Let_def AList.update_conv)

lemma notes_of_ClearNotes:
  "notes_of (ClearNotes brain scope key s) b' k' = (if (b', k') = (brain, key) then [] else notes_of s b' k')"
  by (simp add: ClearNotes_def notes_of_def AList.delete_conv)

lemma sessions_AppendNote: "sessions (snd (AppendNote brain scope key content maxNotes now s)) k = sessions s k"
  by (cases "CheckNotePair scope key") (simp_all add: AppendNote_def Let_def)

lemma EffectiveNoteScope_coherent:
  "EffectiveNoteScope configured ck = Inr (sc, ek) \<Longrightarrow>
   CheckNotePair sc ek = None \<and> (ek = '''' \<longleftrightarrow> configured = ScopeBrainGlobal)"
  by (cases configured) (auto simp: EffectiveNoteScope_def CheckNotePair_def split: if_splits)

text \<open>
  A note of one scope is invisible to every other: \<open>AppendNote\<close> and \<open>ClearNotes\<close>
  leave the notes of every other brain and key, and all conversations, as they were; and the
  effective scope derived from a configuration is always one the store accepts, with the empty
  key exactly for the brain-global scope.
\<close>

theorem notes_isolated:
  "((brain', key') \<noteq> (brain, key) \<longrightarrow>
      ListNotes brain' scope' key' (snd (AppendNote brain scope key content maxNotes now s)) = ListNotes brain' scope' key' s \<and>
      ListNotes brain' scope' key' (ClearNotes brain scope key s) = ListNotes brain' scope' key' s) \<and>
   ListNotes brain scope' key (ClearNotes brain scope key s) = [] \<and>
   sessions (snd (AppendNote brain scope key content maxNotes now s)) k = sessions s k \<and>
   (EffectiveNoteScope configured ck = Inr (sc, ek) \<longrightarrow>
      CheckNotePair sc ek = None \<and> (ek = '''' \<longleftrightarrow> configured = ScopeBrainGlobal))"
  using notes_of_AppendNote_other [of brain' key' brain key scope content maxNotes now s]
    notes_of_ClearNotes [of brain scope key s] sessions_AppendNote [of brain scope key content maxNotes now s k]
    EffectiveNoteScope_coherent [of configured ck sc ek]
  by (simp add: ListNotes_def)

theorem notes_isolated_witness:
  "ListNotes ''b'' ScopeBrainGlobal '''' (snd (AppendNote ''b'' ScopeConversation ''k'' ''tea'' 3 7 NewMemStore)) = []"
  using notes_isolated [of "''b''" "''''" "''b''" "''k''" ScopeBrainGlobal ScopeConversation "''tea''" 3 7 NewMemStore]
  by (simp add: ListNotes_def notes_of_def NewMemStore_def)

end
