(* ===== verification/Dedup.thy ===== *)
theory Dedup
  imports Envelope
begin

text \<open>
  The inbound deduplication window of the router (\<open>internal/router/dedup.go\<close>): a bounded
  memory of event ids with least-recently-seen eviction and a time to live. The linked list is a
  list of entries, most recent first; the index \<open>byKey\<close> is the set of keys it holds, kept
  beside the list and updated separately, as in the source; that the two agree is part of the
  invariant.
\<close>

section \<open>The window\<close>

definition DedupCapacity :: int where "DedupCapacity = 4096"
definition DedupTTL :: duration where "DedupTTL = 10 * Minute"

record dedupWindow =
  dw_cap :: int
  dw_ttl :: duration
  dw_order :: "(string \<times> time) list"
  dw_byKey :: "string set"

definition newDedupWindow :: "int \<Rightarrow> duration \<Rightarrow> dedupWindow" where
  "newDedupWindow capacity ttl = \<lparr>dw_cap = capacity, dw_ttl = ttl, dw_order = [], dw_byKey = {}\<rparr>"

text \<open>\<open>order.Remove\<close> of the element of a key, and \<open>entry.seen = now\<close> with
  \<open>MoveToFront\<close>.\<close>

definition remove_key :: "string \<Rightarrow> (string \<times> time) list \<Rightarrow> (string \<times> time) list" where
  "remove_key key order = filter (\<lambda>e. fst e \<noteq> key) order"

definition touch :: "string \<Rightarrow> time \<Rightarrow> dedupWindow \<Rightarrow> dedupWindow" where
  "touch key now w = w\<lparr>dw_order := (key, now) # remove_key key (dw_order w)\<rparr>"

definition evict_oldest :: "dedupWindow \<Rightarrow> dedupWindow" where
  "evict_oldest w =
     (if int (length (dw_order w)) \<ge> dw_cap w \<and> dw_order w \<noteq> []
      then w\<lparr>dw_order := butlast (dw_order w), dw_byKey := dw_byKey w - {fst (last (dw_order w))}\<rparr>
      else w)"

definition seen :: "string \<Rightarrow> time \<Rightarrow> dedupWindow \<Rightarrow> bool \<times> dedupWindow" where
  "seen key now w =
     (if key \<in> dw_byKey w
      then (case map_of (dw_order w) key of
              Some t \<Rightarrow> (now - t \<le> dw_ttl w, touch key now w)
            | None \<Rightarrow> (False, w))
      else let w1 = evict_oldest w
           in (False, w1\<lparr>dw_order := (key, now) # dw_order w1, dw_byKey := insert key (dw_byKey w1)\<rparr>))"

definition forget :: "string \<Rightarrow> dedupWindow \<Rightarrow> dedupWindow" where
  "forget key w =
     (if key \<in> dw_byKey w
      then w\<lparr>dw_order := remove_key key (dw_order w), dw_byKey := dw_byKey w - {key}\<rparr> else w)"

text \<open>\<open>dedupKey\<close>; the empty string means: do not deduplicate.\<close>

definition dedupKey :: "Envelope \<Rightarrow> string" where
  "dedupKey env =
     (let eid = meta_get env MetaProviderEventID
      in if eid = '''' then '''' else en_Channel env @ [CHR 0x00] @ eid)"

section \<open>The invariant\<close>

definition window_inv :: "dedupWindow \<Rightarrow> bool" where
  "window_inv w \<longleftrightarrow> distinct (map fst (dw_order w)) \<and> dw_byKey w = fst ` set (dw_order w) \<and>
     int (length (dw_order w)) \<le> max 1 (dw_cap w)"

lemma fst_remove_key: "fst ` set (remove_key key order) = fst ` set order - {key}"
  by (auto simp: remove_key_def)

lemma distinct_remove_key: "distinct (map fst order) \<Longrightarrow> distinct (map fst (remove_key key order))"
  by (simp add: remove_key_def distinct_map_filter)

lemma length_remove_key:
  "distinct (map fst order) \<Longrightarrow> key \<in> fst ` set order \<Longrightarrow> Suc (length (remove_key key order)) = length order"
proof (induction order)
  case Nil
  then show ?case by simp
next
  case (Cons e order)
  show ?case
  proof (cases "fst e = key")
    case True
    with Cons.prems have "\<forall>x\<in>set order. fst x \<noteq> key" by (auto simp: image_iff)
    then have "filter (\<lambda>e. fst e \<noteq> key) order = order" by (simp add: filter_id_conv)
    with True show ?thesis by (simp add: remove_key_def)
  next
    case False
    with Cons show ?thesis by (auto simp: remove_key_def)
  qed
qed

lemma remove_key_absent: "key \<notin> fst ` set order \<Longrightarrow> remove_key key order = order"
  by (auto simp: remove_key_def filter_id_conv image_iff)

lemma touch_inv:
  assumes "window_inv w" and "key \<in> dw_byKey w"
  shows "window_inv (touch key now w)"
proof -
  have d: "distinct (map fst (dw_order w))" and k: "key \<in> fst ` set (dw_order w)"
    using assms by (simp_all add: window_inv_def)
  have keys: "insert key (fst ` set (remove_key key (dw_order w))) = fst ` set (dw_order w)"
    using k unfolding fst_remove_key by blast
  have "key \<notin> fst ` set (remove_key key (dw_order w))" by (simp add: fst_remove_key)
  then show ?thesis
    using assms length_remove_key [OF d k] distinct_remove_key [OF d]
    unfolding window_inv_def touch_def by (simp add: keys)
qed

lemma evict_oldest_inv:
  assumes "window_inv w"
  shows "window_inv (evict_oldest w)" and "int (length (dw_order (evict_oldest w))) < max 1 (dw_cap w)"
    and "dw_byKey (evict_oldest w) \<subseteq> dw_byKey w"
proof -
  show "window_inv (evict_oldest w)"
    using assms
    by (cases "dw_order w" rule: rev_cases)
      (auto simp: window_inv_def evict_oldest_def image_Un)
  show "int (length (dw_order (evict_oldest w))) < max 1 (dw_cap w)"
    using assms by (auto simp: window_inv_def evict_oldest_def)
  show "dw_byKey (evict_oldest w) \<subseteq> dw_byKey w"
    by (auto simp: evict_oldest_def)
qed

lemma seen_inv: "window_inv w \<Longrightarrow> window_inv (snd (seen key now w))"
proof (cases "key \<in> dw_byKey w")
  case True
  assume inv: "window_inv w"
  with True obtain t where "map_of (dw_order w) key = Some t"
    by (auto simp: window_inv_def)
  with True inv touch_inv show ?thesis by (simp add: seen_def)
next
  case False
  assume inv: "window_inv w"
  note e = evict_oldest_inv [OF inv]
  have "key \<notin> dw_byKey (evict_oldest w)" using False e(3) by blast
  moreover have "dw_cap (evict_oldest w) = dw_cap w" by (simp add: evict_oldest_def)
  ultimately show ?thesis
    using False e(1,2) by (auto simp: seen_def Let_def window_inv_def)
qed

lemma forget_inv:
  assumes "window_inv w"
  shows "window_inv (forget key w)"
proof (cases "key \<in> dw_byKey w")
  case True
  have d: "distinct (map fst (dw_order w))" using assms by (simp add: window_inv_def)
  have "key \<in> fst ` set (dw_order w)" using assms True by (simp add: window_inv_def)
  note len = length_remove_key [OF d this]
  then have "length (remove_key key (dw_order w)) \<le> length (dw_order w)" by linarith
  with assms True distinct_remove_key [OF d] show ?thesis
    unfolding window_inv_def forget_def by (simp add: fst_remove_key)
qed (use assms in \<open>simp add: forget_def\<close>)

section \<open>Runs of the window\<close>

text \<open>What the router asks of the window, in the order the mutex admits it.\<close>

datatype dedup_op = Seen string time | Forget string

definition dedup_step :: "dedup_op \<Rightarrow> dedupWindow \<Rightarrow> dedupWindow" where
  "dedup_step ev w = (case ev of Seen key now \<Rightarrow> snd (seen key now w) | Forget key \<Rightarrow> forget key w)"

definition dedup_run :: "dedup_op list \<Rightarrow> dedupWindow \<Rightarrow> dedupWindow" where
  "dedup_run evs w = fold dedup_step evs w"

lemma dedup_run_simps [simp]:
  "dedup_run [] w = w" "dedup_run (evs @ [ev]) w = dedup_step ev (dedup_run evs w)"
  "dedup_run (evs @ evs') w = dedup_run evs' (dedup_run evs w)"
  by (simp_all add: dedup_run_def)

lemma dedup_step_inv: "window_inv w \<Longrightarrow> window_inv (dedup_step ev w)"
  by (auto simp: dedup_step_def seen_inv forget_inv split: dedup_op.splits)

lemma window_inv_new: "window_inv (newDedupWindow c ttl)"
  by (simp add: window_inv_def newDedupWindow_def)

lemma dedup_run_inv: "window_inv w \<Longrightarrow> window_inv (dedup_run evs w)"
  by (induction evs rule: rev_induct) (simp_all add: dedup_step_inv del: dedup_run_simps(3))

lemma dedup_cap_ttl [simp]:
  "dw_cap (dedup_step ev w) = dw_cap w" "dw_ttl (dedup_step ev w) = dw_ttl w"
  by (auto simp: dedup_step_def seen_def forget_def touch_def evict_oldest_def Let_def
      split: dedup_op.splits option.splits)

lemma dedup_run_cap_ttl [simp]:
  "dw_cap (dedup_run evs w) = dw_cap w" "dw_ttl (dedup_run evs w) = dw_ttl w"
  by (induction evs rule: rev_induct) (simp_all del: dedup_run_simps(3))

text \<open>The last time a key was seen and not forgotten since.\<close>

fun last_seen :: "string \<Rightarrow> dedup_op list \<Rightarrow> time option" where
  "last_seen key [] = None"
| "last_seen key (Seen k t # evs) =
     (case last_seen key evs of Some u \<Rightarrow> Some u
      | None \<Rightarrow> if k = key \<and> Forget key \<notin> set evs then Some t else None)"
| "last_seen key (Forget k # evs) = last_seen key evs"

lemma last_seen_snoc:
  "last_seen key (evs @ [ev]) =
     (case ev of
        Seen k t \<Rightarrow> if k = key then Some t else last_seen key evs
      | Forget k \<Rightarrow> if k = key then None else last_seen key evs)"
proof (induction key evs rule: last_seen.induct)
  case (1 key)
  then show ?case by (cases ev) auto
next
  case (2 key k t evs)
  then show ?case by (cases ev) (auto split: option.splits)
next
  case (3 key k evs)
  then show ?case by (cases ev) auto
qed

lemma seen_order:
  assumes "window_inv w" and "(k, u) \<in> set (dw_order (snd (seen key now w)))"
  shows "(k = key \<and> u = now) \<or> (k \<noteq> key \<and> (k, u) \<in> set (dw_order w))"
proof (cases "key \<in> dw_byKey w")
  case True
  with assms(1) obtain t where "map_of (dw_order w) key = Some t" by (auto simp: window_inv_def)
  with True assms(2) show ?thesis by (auto simp: seen_def touch_def remove_key_def)
next
  case False
  have "k \<noteq> key" if "(k, u) \<in> set (dw_order w)"
    using False assms(1) that by (force simp: window_inv_def)
  moreover have "set (dw_order (evict_oldest w)) \<subseteq> set (dw_order w)"
    by (auto simp: evict_oldest_def dest: in_set_butlastD)
  ultimately show ?thesis using False assms(2) by (auto simp: seen_def Let_def)
qed

text \<open>Every remembered instant is the last one at which its key was seen.\<close>

lemma order_last_seen:
  "(key, t) \<in> set (dw_order (dedup_run evs (newDedupWindow c ttl))) \<Longrightarrow> last_seen key evs = Some t"
proof (induction evs arbitrary: key t rule: rev_induct)
  case Nil
  then show ?case by (simp add: newDedupWindow_def)
next
  case (snoc ev evs)
  let ?w = "dedup_run evs (newDedupWindow c ttl)"
  have inv: "window_inv ?w" by (simp add: dedup_run_inv window_inv_new)
  show ?case
  proof (cases ev)
    case (Seen k u)
    with snoc.prems seen_order [OF inv, of key t k u] snoc.IH show ?thesis
      by (auto simp: dedup_step_def last_seen_snoc simp del: dedup_run_simps(3))
  next
    case (Forget k)
    have "(key, t) \<in> set (dw_order ?w) \<and> key \<noteq> k"
      using snoc.prems Forget inv
      by (auto simp: dedup_step_def forget_def remove_key_def window_inv_def image_iff
          simp del: dedup_run_simps(3) split: if_splits)
    with Forget snoc.IH show ?thesis by (auto simp: last_seen_snoc)
  qed
qed

text \<open>
  The window drops only real duplicates. After any run of the window, \<open>seen\<close> answers
  true for a key only if that key was seen before, was not forgotten since, and the last time was
  no longer ago than the time to live; in particular a delivery that was forgotten after a failed
  dispatch is accepted when it comes again.
\<close>

theorem seen_only_duplicates:
  assumes "fst (seen key now (dedup_run evs (newDedupWindow c ttl)))"
  shows "\<exists>t. last_seen key evs = Some t \<and> now - t \<le> ttl"
proof -
  let ?w = "dedup_run evs (newDedupWindow c ttl)"
  obtain t where t: "map_of (dw_order ?w) key = Some t" "now - t \<le> dw_ttl ?w"
    using assms by (auto simp: seen_def Let_def split: if_splits option.splits)
  from map_of_SomeD [OF t(1)] have "last_seen key evs = Some t" by (rule order_last_seen)
  moreover have "dw_ttl ?w = ttl" by (simp add: newDedupWindow_def)
  ultimately show ?thesis using t(2) by auto
qed

theorem seen_only_duplicates_witness:
  "\<exists>t. last_seen ''tg0'' [Seen ''tg0'' 10] = Some t \<and> 12 - t \<le> 5"
proof (rule seen_only_duplicates)
  show "fst (seen ''tg0'' 12 (dedup_run [Seen ''tg0'' 10] (newDedupWindow 4 5)))"
    by (simp add: dedup_run_def dedup_step_def seen_def newDedupWindow_def evict_oldest_def)
qed

section \<open>Duplicates within the capacity are caught\<close>

fun seen_keys :: "dedup_op list \<Rightarrow> string set" where
  "seen_keys [] = {}"
| "seen_keys (Seen k t # evs) = insert k (seen_keys evs)"
| "seen_keys (Forget k # evs) = seen_keys evs"

definition op_key :: "dedup_op \<Rightarrow> string" where
  "op_key ev = (case ev of Seen k _ \<Rightarrow> k | Forget k \<Rightarrow> k)"

lemma seen_keys_snoc: "seen_keys (evs @ [ev]) = (case ev of Seen k t \<Rightarrow> insert k (seen_keys evs) | Forget k \<Rightarrow> seen_keys evs)"
  by (induction evs rule: seen_keys.induct) (cases ev; auto)+

lemma finite_seen_keys [simp]: "finite (seen_keys evs)"
  by (induction evs rule: seen_keys.induct) auto

text \<open>Where a key sits while only other keys are used: behind no more entries than there were
  other keys seen.\<close>

definition holds_at :: "string \<Rightarrow> time \<Rightarrow> string set \<Rightarrow> dedupWindow \<Rightarrow> bool" where
  "holds_at key t K w \<longleftrightarrow>
     (\<exists>pre post. dw_order w = pre @ (key, t) # post \<and> fst ` set pre \<subseteq> K)"

lemma holds_atI: "dw_order w = pre @ (key, t) # post \<Longrightarrow> fst ` set pre \<subseteq> K \<Longrightarrow> holds_at key t K w"
  by (auto simp: holds_at_def)

lemma holds_at_remove:
  assumes "holds_at key t K w" and "k \<noteq> key"
  shows "\<exists>pre post. remove_key k (dw_order w) = pre @ (key, t) # post \<and> fst ` set pre \<subseteq> K - {k}"
proof -
  from assms(1) obtain pre post where w: "dw_order w = pre @ (key, t) # post" and sub: "fst ` set pre \<subseteq> K"
    by (auto simp: holds_at_def)
  have "remove_key k (dw_order w) = remove_key k pre @ (key, t) # remove_key k post"
    using assms(2) unfolding w by (auto simp: remove_key_def)
  moreover have "fst ` set (remove_key k pre) \<subseteq> K - {k}" using sub by (auto simp: fst_remove_key)
  ultimately show ?thesis by blast
qed

lemma holds_at_forget:
  assumes "holds_at key t K w" and "k \<noteq> key"
  shows "holds_at key t K (forget k w)"
proof (cases "k \<in> dw_byKey w")
  case True
  obtain pre post where "remove_key k (dw_order w) = pre @ (key, t) # post" "fst ` set pre \<subseteq> K - {k}"
    using holds_at_remove [OF assms] by blast
  with True show ?thesis by (intro holds_atI [of _ pre key t post]) (auto simp: forget_def)
qed (use assms in \<open>simp add: forget_def\<close>)

lemma holds_at_evict:
  assumes "window_inv w" and "holds_at key t K w" and "k \<notin> dw_byKey w" and "k \<in> K" and "finite K"
    and "int (card K) < dw_cap w"
  shows "holds_at key t K (evict_oldest w)"
proof -
  from assms(2) obtain pre post where w: "dw_order w = pre @ (key, t) # post" and sub: "fst ` set pre \<subseteq> K"
    by (auto simp: holds_at_def)
  show ?thesis
  proof (cases "post = []")
    case False
    then have "butlast (dw_order w) = pre @ (key, t) # butlast post" unfolding w by (simp add: butlast_append)
    with w sub show ?thesis by (auto simp: holds_at_def evict_oldest_def)
  next
    case True
    have "distinct (map fst pre)" using assms(1) w by (simp add: window_inv_def)
    then have "length pre = card (fst ` set pre)" by (metis distinct_card length_map list.set_map)
    moreover have "fst ` set pre \<subseteq> K - {k}" using sub assms(1,3) w by (auto simp: window_inv_def)
    then have "card (fst ` set pre) \<le> card (K - {k})" using assms(5) by (intro card_mono) auto
    moreover have "Suc (card (K - {k})) = card K" using assms(4,5) by (intro card_Suc_Diff1)
    ultimately have "int (length (dw_order w)) < dw_cap w" using True w assms(6) by simp
    with assms(2) show ?thesis by (simp add: evict_oldest_def)
  qed
qed

lemma holds_at_seen:
  assumes "window_inv w" and "holds_at key t K w" and "k \<noteq> key" and "finite K"
    and "int (card (insert k K)) < dw_cap w"
  shows "holds_at key t (insert k K) (snd (seen k now w))"
proof -
  have mono: "holds_at key t (insert k K) w" using assms(2) by (auto simp: holds_at_def)
  show ?thesis
  proof (cases "k \<in> dw_byKey w")
    case True
    with assms(1) obtain u where "map_of (dw_order w) k = Some u" by (auto simp: window_inv_def)
    moreover obtain pre post where "remove_key k (dw_order w) = pre @ (key, t) # post" "fst ` set pre \<subseteq> K - {k}"
      using holds_at_remove [OF assms(2,3)] by blast
    ultimately show ?thesis using True
      by (intro holds_atI [of _ "(k, now) # pre" key t post]) (auto simp: seen_def touch_def)
  next
    case False
    have "holds_at key t (insert k K) (evict_oldest w)"
      using assms(1) mono False assms(4,5) by (intro holds_at_evict [where k = k]) auto
    then obtain pre post where "dw_order (evict_oldest w) = pre @ (key, t) # post" "fst ` set pre \<subseteq> insert k K"
      by (auto simp: holds_at_def)
    with False show ?thesis
      by (intro holds_atI [of _ "(k, now) # pre" key t post]) (auto simp: seen_def Let_def)
  qed
qed

lemma holds_at_run:
  assumes "window_inv w" and "holds_at key t {} w" and "\<forall>ev\<in>set evs. op_key ev \<noteq> key"
    and "int (card (seen_keys evs)) < dw_cap w"
  shows "holds_at key t (seen_keys evs) (dedup_run evs w)"
  using assms(3,4)
proof (induction evs rule: rev_induct)
  case Nil
  then show ?case using assms(2) by simp
next
  case (snoc ev evs)
  let ?w = "dedup_run evs w"
  have inv: "window_inv ?w" using assms(1) by (rule dedup_run_inv)
  have "card (seen_keys evs) \<le> card (seen_keys (evs @ [ev]))"
    by (intro card_mono) (auto simp: seen_keys_snoc split: dedup_op.splits)
  with snoc have ih: "holds_at key t (seen_keys evs) ?w" by auto
  show ?case
  proof (cases ev)
    case (Seen k u)
    with snoc.prems holds_at_seen [OF inv ih, of k u] show ?thesis
      by (simp add: seen_keys_snoc dedup_step_def op_key_def del: dedup_run_simps(3))
  next
    case (Forget k)
    with snoc.prems holds_at_forget [OF ih, of k] show ?thesis
      by (simp add: seen_keys_snoc dedup_step_def op_key_def del: dedup_run_simps(3))
  qed
qed

lemma seen_front:
  assumes "window_inv w"
  shows "holds_at key t {} (snd (seen key t w))"
proof (cases "key \<in> dw_byKey w")
  case True
  with assms obtain u where "map_of (dw_order w) key = Some u" by (auto simp: window_inv_def)
  with True show ?thesis by (simp add: seen_def touch_def holds_at_def)
qed (simp add: seen_def Let_def holds_at_def)

text \<open>
  C36: A duplicate within the window is always caught. After any history, when a key is seen and
  then, while neither seen nor forgotten again, fewer than capacity many other keys are seen, a
  second delivery within the time to live is answered as a duplicate. (The least-recently-seen
  entry is evicted, never a more recent one.)
\<close>

theorem duplicate_within_capacity_caught:
  assumes "\<forall>ev\<in>set evs. op_key ev \<noteq> key"
    and "int (card (seen_keys evs)) < c"
    and "now - t \<le> ttl"
  shows "fst (seen key now (dedup_run (history @ [Seen key t] @ evs) (newDedupWindow c ttl)))"
proof -
  let ?before = "dedup_run history (newDedupWindow c ttl)"
  let ?after = "snd (seen key t ?before)" and ?w = "dedup_run (history @ [Seen key t] @ evs) (newDedupWindow c ttl)"
  have inv0: "window_inv ?before" by (simp add: dedup_run_inv window_inv_new)
  have w: "?w = dedup_run evs ?after" by (simp add: dedup_run_def dedup_step_def)
  have caps: "dw_cap ?before = c" "dw_ttl ?before = ttl" by (simp_all add: newDedupWindow_def)
  then have caps1: "dw_cap ?after = c" "dw_ttl ?after = ttl"
    using dedup_cap_ttl [of "Seen key t" ?before] by (simp_all add: dedup_step_def)
  have inv1: "window_inv ?after" using inv0 by (rule seen_inv)
  have "holds_at key t (seen_keys evs) ?w"
    unfolding w using assms(1,2) caps1 by (intro holds_at_run [OF inv1 seen_front [OF inv0]]) auto
  then have mem: "(key, t) \<in> set (dw_order ?w)" by (auto simp: holds_at_def)
  have inv: "window_inv ?w" unfolding w using inv1 by (rule dedup_run_inv)
  then have "map_of (dw_order ?w) key = Some t" "key \<in> dw_byKey ?w"
    using mem by (force simp: window_inv_def)+
  moreover have "dw_ttl ?w = ttl" unfolding w using caps1 by simp
  ultimately show ?thesis using assms(3) by (simp add: seen_def)
qed

theorem duplicate_within_capacity_caught_witness:
  "fst (seen ''tg0'' 12 (dedup_run ([] @ [Seen ''tg0'' 10] @ [Seen ''dc7'' 11]) (newDedupWindow 4096 (10 * Minute))))"
  by (rule duplicate_within_capacity_caught) (simp_all add: op_key_def)

text \<open>
  The window stays bounded and its two structures agree: after any run the list holds at
  most the capacity (at least one) of entries, no key twice, and the index holds exactly the keys
  of the list.
\<close>

theorem window_bounded:
  "int (length (dw_order (dedup_run evs (newDedupWindow c ttl)))) \<le> max 1 c \<and>
   distinct (map fst (dw_order (dedup_run evs (newDedupWindow c ttl)))) \<and>
   dw_byKey (dedup_run evs (newDedupWindow c ttl)) = fst ` set (dw_order (dedup_run evs (newDedupWindow c ttl)))"
  using dedup_run_inv [OF window_inv_new, of evs c ttl] by (simp add: window_inv_def newDedupWindow_def)

end
