(* ===== verification/Go_Text.thy ===== *)
theory Go_Text
  imports Korvun_Prelude
begin

text \<open>
  The text functions of Go's standard library that the command handling of the router uses, on byte
  strings: \<open>strings.Fields\<close>, \<open>strconv.Atoi\<close>, \<open>utf8.RuneCountInString\<close>
  and \<open>url.PathUnescape\<close>, with the few facts about them the proofs need.
\<close>

section \<open>Fields and integers\<close>

fun split_word :: "string \<Rightarrow> string \<times> string" where
  "split_word [] = ([], [])"
| "split_word (c # cs) =
     (if strip_one space_runes (c # cs) \<noteq> None then ([], c # cs)
      else (c # fst (split_word cs), snd (split_word cs)))"

lemma split_word_append: "fst (split_word s) @ snd (split_word s) = s"
  by (induction s) auto

fun fields_fuel :: "nat \<Rightarrow> string \<Rightarrow> string list" where
  "fields_fuel 0 s = []"
| "fields_fuel (Suc n) s =
     (let s' = trim_left space_runes s
      in if s' = [] then [] else fst (split_word s') # fields_fuel n (snd (split_word s')))"

text \<open>Every field takes at least one byte, so \<open>length s\<close> rounds are enough.\<close>

definition Fields :: "string \<Rightarrow> string list" where
  "Fields s = fields_fuel (length s) s"

definition digit_value :: "char \<Rightarrow> int option" where
  "digit_value c = (let n = (of_char c :: nat) in if 48 \<le> n \<and> n \<le> 57 then Some (int n - 48) else None)"

fun digits_value :: "int \<Rightarrow> string \<Rightarrow> int option" where
  "digits_value acc [] = Some acc"
| "digits_value acc (c # cs) =
     (case digit_value c of None \<Rightarrow> None | Some d \<Rightarrow> digits_value (10 * acc + d) cs)"

text \<open>\<open>strconv.Atoi\<close> for a 64-bit \<open>int\<close>: an optional sign, at least one digit, no
  other byte, and a value in range.\<close>

definition Atoi :: "string \<Rightarrow> int option" where
  "Atoi s =
     (let neg = HasPrefix s ''-'';
          body = (if neg \<or> HasPrefix s ''+'' then tl s else s)
      in if body = [] then None
         else case digits_value 0 body of
           None \<Rightarrow> None
         | Some v \<Rightarrow>
             (let w = (if neg then - v else v)
              in if - (2 ^ 63) \<le> w \<and> w < 2 ^ 63 then Some w else None))"

section \<open>Counting runes\<close>

definition cont :: "nat \<Rightarrow> nat \<Rightarrow> nat \<Rightarrow> bool" where
  "cont lo hi b \<longleftrightarrow> lo \<le> b \<and> b \<le> hi"

text \<open>The width of the first rune: one for an invalid byte.\<close>

definition rune_width :: "nat list \<Rightarrow> nat" where
  "rune_width bs = (case bs of
      b1 # b2 # r \<Rightarrow>
        if cont 0xC2 0xDF b1 \<and> cont 0x80 0xBF b2 then 2
        else (case r of
          b3 # r' \<Rightarrow>
            let lo = (if b1 = 0xE0 then 0xA0 else if b1 = 0xF0 then 0x90 else 0x80);
                hi = (if b1 = 0xED then 0x9F else if b1 = 0xF4 then 0x8F else 0xBF)
            in if cont 0xE0 0xEF b1 \<and> cont lo hi b2 \<and> cont 0x80 0xBF b3 then 3
               else (case r' of
                 b4 # _ \<Rightarrow> if cont 0xF0 0xF4 b1 \<and> cont lo hi b2 \<and> cont 0x80 0xBF b3 \<and> cont 0x80 0xBF b4 then 4
                           else 1
               | [] \<Rightarrow> 1)
        | [] \<Rightarrow> 1)
    | _ \<Rightarrow> 1)"

lemma rune_width_pos: "0 < rune_width bs"
  by (auto simp: rune_width_def Let_def split: list.splits)

function rune_count :: "nat list \<Rightarrow> nat" where
  "rune_count bs = (if bs = [] then 0 else Suc (rune_count (drop (rune_width bs) bs)))"
  by auto
termination
  by (relation "measure length") (auto simp: rune_width_pos)

declare rune_count.simps [simp del]

definition RuneCountInString :: "string \<Rightarrow> nat" where
  "RuneCountInString s = rune_count (map of_char s)"

lemma rune_count_le: "rune_count bs \<le> length bs"
proof (induction bs rule: rune_count.induct)
  case (1 bs)
  show ?case
  proof (cases "bs = []")
    case False
    have "rune_count (drop (rune_width bs) bs) \<le> length bs - rune_width bs" using 1 [OF False] by simp
    moreover have "0 < length bs" using False by simp
    ultimately have "Suc (rune_count (drop (rune_width bs) bs)) \<le> length bs"
      using rune_width_pos [of bs] by linarith
    then show ?thesis using False by (simp add: rune_count.simps [of bs])
  qed (simp add: rune_count.simps)
qed

lemma RuneCountInString_le: "RuneCountInString s \<le> length s"
  using rune_count_le [of "map of_char s"] by (simp add: RuneCountInString_def)

section \<open>Percent decoding\<close>

definition hex_value :: "char \<Rightarrow> nat option" where
  "hex_value c = (let n = of_char c in
     if 48 \<le> n \<and> n \<le> 57 then Some (n - 48)
     else if 97 \<le> n \<and> n \<le> 102 then Some (n - 87)
     else if 65 \<le> n \<and> n \<le> 70 then Some (n - 55) else None)"

fun PathUnescape :: "string \<Rightarrow> string option" where
  "PathUnescape [] = Some []"
| "PathUnescape (c # cs) =
     (if c = CHR ''%''
      then (case cs of
              h # l # r \<Rightarrow>
                (case (hex_value h, hex_value l, PathUnescape r) of
                   (Some a, Some b, Some t) \<Rightarrow> Some (char_of (16 * a + b) # t)
                 | _ \<Rightarrow> None)
            | _ \<Rightarrow> None)
      else map_option ((#) c) (PathUnescape cs))"

lemma PathUnescape_plain: "CHR ''%'' \<notin> set s \<Longrightarrow> PathUnescape s = Some s"
  by (induction s rule: PathUnescape.induct) auto

text \<open>\<open>strings.Split\<close> at a one-byte separator.\<close>

fun Split :: "char \<Rightarrow> string \<Rightarrow> string list" where
  "Split c [] = ['''']"
| "Split c (x # xs) =
     (if x = c then '''' # Split c xs
      else (case Split c xs of l # ls \<Rightarrow> (x # l) # ls | [] \<Rightarrow> [[x]]))"

end
