(* ===== verification/Router.thy ===== *)
theory Router
  imports Bus Conversation Dedup Go_Text
begin

text \<open>
  The router (\<open>internal/router\<close>), first part: its state, options and errors, the registration
  operations, the outbound path (\<open>sendReply\<close>, \<open>deliver\<close>, \<open>DispatchOutbound\<close>), the
  workers and the takeover gate. The inbound dispatch is in the next theory.

  A channel or brain worker is named by its position in \<open>ro_channelWorkers\<close> or
  \<open>ro_brainWorkers\<close>: registering a name again starts a new worker and leaves the old one
  running over its own queue. The optional seams are flags, and what flows through them is recorded:
  \<open>ro_published\<close> the events handed to the event publisher, \<open>ro_errors\<close> the errors handed to
  the error hook, \<open>ro_counted\<close> the channels handed to the deduplication counter.

  Which ready arm a \<open>select\<close> takes is the argument \<open>arm\<close> of the operation that runs it.
  The clock, fresh identifiers, and the replies of brains and channels are arguments too.
\<close>

section \<open>Errors\<close>

definition ErrNilEnvelope :: go_error where "ErrNilEnvelope = Sentinel ''router: envelope is nil''"
definition ErrNotInbound :: go_error where
  "ErrNotInbound = Sentinel ''router: envelope direction is not inbound''"
definition ErrNotOutbound :: go_error where
  "ErrNotOutbound = Sentinel ''router: envelope direction is not outbound''"
definition ErrNilChannel :: go_error where "ErrNilChannel = Sentinel ''router: channel is nil''"
definition ErrEmptyChannelName :: go_error where
  "ErrEmptyChannelName = Sentinel ''router: channel name is empty''"
definition ErrUnknownChannel :: go_error where "ErrUnknownChannel = Sentinel ''router: unknown channel''"
definition ErrNilBrain :: go_error where "ErrNilBrain = Sentinel ''router: brain is nil''"
definition ErrEmptyBrainName :: go_error where "ErrEmptyBrainName = Sentinel ''router: brain name is empty''"
definition ErrUnknownBrain :: go_error where "ErrUnknownBrain = Sentinel ''router: unknown brain''"
definition ErrNoRoute :: go_error where "ErrNoRoute = Sentinel ''router: no route registered for channel''"
definition ErrBrainSaturated :: go_error where "ErrBrainSaturated = Sentinel ''router: brain queue saturated''"
definition ErrShutdown :: go_error where "ErrShutdown = Sentinel ''router: shut down''"
definition ErrChannelSaturated :: go_error where
  "ErrChannelSaturated = Sentinel ''router: channel outbound queue saturated''"
definition ErrChannelReceive :: go_error where "ErrChannelReceive = Sentinel ''router: channel Receive failed''"
definition ErrDuplicateEvent :: go_error where "ErrDuplicateEvent = Sentinel ''router: duplicate event dropped''"

datatype ErrorKind = ErrKindHandle | ErrKindSend | ErrKindOutboundSaturated | ErrKindInboundDispatch
  | ErrKindSession | ErrKindUnknownReplyChannel | ErrKindInvalid int

fun ErrorKind_String :: "ErrorKind \<Rightarrow> string" where
  "ErrorKind_String ErrKindHandle = ''handle''"
| "ErrorKind_String ErrKindSend = ''send''"
| "ErrorKind_String ErrKindOutboundSaturated = ''outbound_saturated''"
| "ErrorKind_String ErrKindInboundDispatch = ''inbound_dispatch''"
| "ErrorKind_String ErrKindUnknownReplyChannel = ''unknown_reply_channel''"
| "ErrorKind_String ErrKindSession = ''unknown('' @ decimal 5 @ '')''"
| "ErrorKind_String (ErrKindInvalid k) = ''unknown('' @ decimal k @ '')''"

record RouterError =
  re_Kind :: ErrorKind
  re_Brain :: string
  re_Channel :: string
  re_Envelope :: "Envelope option"
  re_Err :: go_error

section \<open>State\<close>

record SessionPolicy =
  sp_Triggers :: "string list"
  sp_Daily :: bool
  sp_DailyHour :: int
  sp_DailyMin :: int
  sp_IdleMin :: int
  sp_RecallMax :: int

record brainWorker =
  bw_name :: string
  bw_queue :: "Envelope list"

record channelWorker =
  cw_name :: string
  cw_queue :: "Envelope list"

record Router =
  ro_channels :: "string \<rightharpoonup> nat"
  ro_channelWorkers :: "channelWorker list"
  ro_brains :: "string \<rightharpoonup> nat"
  ro_brainWorkers :: "brainWorker list"
  ro_routes :: "string \<rightharpoonup> string"
  ro_queueCapacity :: int
  ro_enqueueTimeout :: duration
  ro_sendTimeout :: duration
  ro_workersPerBrain :: int
  ro_brainHandlerTimeout :: duration
  ro_outboundQueueCapacity :: int
  ro_outboundEnqueueTimeout :: duration
  ro_errorHandler :: bool
  ro_eventPublisher :: bool
  ro_toolsChannel :: string
  ro_toolsReport :: bool
  ro_notesList :: bool
  ro_notesClear :: bool
  ro_directBrainChannel :: string
  ro_brainFallbackWarned :: "dedupWindow option"
  ro_sessionStore :: "MemStore option"
  ro_sessionPolicy :: SessionPolicy
  ro_takeover :: "string set"
  ro_dedup :: "dedupWindow option"
  ro_dedupCounter :: bool
  ro_shutdown :: bool
  ro_cancelled :: bool
  ro_published :: "Event list"
  ro_errors :: "RouterError list"
  ro_counted :: "string list"

definition DefaultQueueCapacity :: int where "DefaultQueueCapacity = 64"
definition DefaultEnqueueTimeout :: duration where "DefaultEnqueueTimeout = 250 * Millisecond"
definition DefaultSendTimeout :: duration where "DefaultSendTimeout = 5 * Second"
definition DefaultBrainWorkers :: int where "DefaultBrainWorkers = 1"
definition DefaultBrainHandlerTimeout :: duration where "DefaultBrainHandlerTimeout = 5 * Second"
definition DefaultOutboundQueueCapacity :: int where "DefaultOutboundQueueCapacity = 64"
definition DefaultOutboundEnqueueTimeout :: duration where
  "DefaultOutboundEnqueueTimeout = 250 * Millisecond"

datatype Option =
    WithQueueCapacity int | WithEnqueueTimeout duration | WithSendTimeout duration | WithBrainWorkers int
  | WithBrainHandlerTimeout duration | WithOutboundQueueCapacity int | WithOutboundEnqueueTimeout duration
  | WithErrorHandler bool | WithEventPublisher bool | WithToolsCommand string bool
  | WithDirectBrainChannel string | WithSessionStore "MemStore option" | WithSessionPolicy SessionPolicy
  | WithDedupCounter bool | WithNotesCommands bool bool

text \<open>The Boolean arguments say whether the function or interface passed is not nil.\<close>

fun apply_Option :: "Option \<Rightarrow> Router \<Rightarrow> Router" where
  "apply_Option (WithQueueCapacity n) r = r\<lparr>ro_queueCapacity := if n < 1 then 1 else n\<rparr>"
| "apply_Option (WithEnqueueTimeout d) r = r\<lparr>ro_enqueueTimeout := d\<rparr>"
| "apply_Option (WithSendTimeout d) r = r\<lparr>ro_sendTimeout := d\<rparr>"
| "apply_Option (WithBrainWorkers n) r = r\<lparr>ro_workersPerBrain := if n < 1 then 1 else n\<rparr>"
| "apply_Option (WithBrainHandlerTimeout d) r = r\<lparr>ro_brainHandlerTimeout := d\<rparr>"
| "apply_Option (WithOutboundQueueCapacity n) r = r\<lparr>ro_outboundQueueCapacity := if n < 1 then 1 else n\<rparr>"
| "apply_Option (WithOutboundEnqueueTimeout d) r = r\<lparr>ro_outboundEnqueueTimeout := d\<rparr>"
| "apply_Option (WithErrorHandler h) r = r\<lparr>ro_errorHandler := h\<rparr>"
| "apply_Option (WithEventPublisher p) r = r\<lparr>ro_eventPublisher := p\<rparr>"
| "apply_Option (WithToolsCommand channel report) r =
     (if channel \<noteq> '''' \<and> report then r\<lparr>ro_toolsChannel := channel, ro_toolsReport := True\<rparr> else r)"
| "apply_Option (WithDirectBrainChannel channel) r =
     (if channel \<noteq> '''' then r\<lparr>ro_directBrainChannel := channel\<rparr> else r)"
| "apply_Option (WithSessionStore s) r = r\<lparr>ro_sessionStore := s\<rparr>"
| "apply_Option (WithSessionPolicy p) r = r\<lparr>ro_sessionPolicy := p\<rparr>"
| "apply_Option (WithDedupCounter f) r = r\<lparr>ro_dedupCounter := f\<rparr>"
| "apply_Option (WithNotesCommands l c) r = r\<lparr>ro_notesList := l, ro_notesClear := c\<rparr>"

definition default_Router :: Router where
  "default_Router =
     \<lparr>ro_channels = Map.empty, ro_channelWorkers = [], ro_brains = Map.empty, ro_brainWorkers = [],
      ro_routes = Map.empty, ro_queueCapacity = DefaultQueueCapacity,
      ro_enqueueTimeout = DefaultEnqueueTimeout, ro_sendTimeout = DefaultSendTimeout,
      ro_workersPerBrain = DefaultBrainWorkers, ro_brainHandlerTimeout = DefaultBrainHandlerTimeout,
      ro_outboundQueueCapacity = DefaultOutboundQueueCapacity,
      ro_outboundEnqueueTimeout = DefaultOutboundEnqueueTimeout, ro_errorHandler = False,
      ro_eventPublisher = False, ro_toolsChannel = '''', ro_toolsReport = False, ro_notesList = False,
      ro_notesClear = False, ro_directBrainChannel = '''', ro_brainFallbackWarned = None,
      ro_sessionStore = None,
      ro_sessionPolicy = \<lparr>sp_Triggers = [], sp_Daily = False, sp_DailyHour = 0, sp_DailyMin = 0,
                          sp_IdleMin = 0, sp_RecallMax = 0\<rparr>,
      ro_takeover = {}, ro_dedup = None, ro_dedupCounter = False, ro_shutdown = False,
      ro_cancelled = False, ro_published = [], ro_errors = [], ro_counted = []\<rparr>"

definition router_New :: "Option list \<Rightarrow> Router" where
  "router_New opts = fold apply_Option opts default_Router"

section \<open>Seams\<close>

definition publishEvent :: "Event \<Rightarrow> Router \<Rightarrow> Router" where
  "publishEvent ev r = (if ro_eventPublisher r then r\<lparr>ro_published := ro_published r @ [ev]\<rparr> else r)"

definition publishReceived :: "Envelope \<Rightarrow> string \<Rightarrow> Router \<Rightarrow> Router" where
  "publishReceived env brainName r =
     publishEvent (message_event MessageReceived env (en_Channel env) brainName None) r"

definition notifyError :: "RouterError \<Rightarrow> Router \<Rightarrow> Router" where
  "notifyError re r =
     (if ro_cancelled r then r
      else if ro_errorHandler r then r\<lparr>ro_errors := ro_errors r @ [re]\<rparr> else r)"

definition session_error :: "Envelope \<Rightarrow> go_error \<Rightarrow> Router \<Rightarrow> Router" where
  "session_error env err r =
     notifyError \<lparr>re_Kind = ErrKindSession, re_Brain = '''', re_Channel = '''', re_Envelope = Some env,
                  re_Err = err\<rparr> r"

section \<open>Registration\<close>

text \<open>\<open>RegisterChannel\<close>: the channel's name, and the error its \<open>Receive\<close> returned;
  \<open>None\<close> is the nil channel.\<close>

definition RegisterChannel :: "(string \<times> go_error option) option \<Rightarrow> Router \<Rightarrow> go_error option \<times> Router" where
  "RegisterChannel ch r =
     (case ch of
        None \<Rightarrow> (Some ErrNilChannel, r)
      | Some (name, receive_err) \<Rightarrow>
          if name = '''' then (Some ErrEmptyChannelName, r)
          else (case receive_err of
             Some err \<Rightarrow> (Some (Errorf ''%w: channel %q: %w'' [ErrChannelReceive, err]), r)
           | None \<Rightarrow>
               if ro_shutdown r then (Some ErrShutdown, r)
               else (None, r\<lparr>ro_channelWorkers := ro_channelWorkers r @ [\<lparr>cw_name = name, cw_queue = []\<rparr>],
                             ro_channels := (ro_channels r)(name \<mapsto> length (ro_channelWorkers r))\<rparr>)))"

definition RegisterBrain :: "string \<Rightarrow> bool \<Rightarrow> Router \<Rightarrow> go_error option \<times> Router" where
  "RegisterBrain name brain_nil r =
     (if brain_nil then (Some ErrNilBrain, r)
      else if name = '''' then (Some ErrEmptyBrainName, r)
      else if ro_shutdown r then (Some ErrShutdown, r)
      else (None, r\<lparr>ro_brainWorkers := ro_brainWorkers r @ [\<lparr>bw_name = name, bw_queue = []\<rparr>],
                    ro_brains := (ro_brains r)(name \<mapsto> length (ro_brainWorkers r))\<rparr>))"

definition Route :: "string \<Rightarrow> string \<Rightarrow> Router \<Rightarrow> go_error option \<times> Router" where
  "Route channelName brainName r =
     (if ro_shutdown r then (Some ErrShutdown, r)
      else if ro_channels r channelName = None then (Some (Errorf ''%w: %q'' [ErrUnknownChannel]), r)
      else if ro_brains r brainName = None then (Some (Errorf ''%w: %q'' [ErrUnknownBrain]), r)
      else (None, r\<lparr>ro_routes := (ro_routes r)(channelName \<mapsto> brainName)\<rparr>))"

text \<open>\<open>Shutdown\<close> up to the wait for the workers; how the wait ends is the argument.\<close>

definition Shutdown :: "go_error option \<Rightarrow> Router \<Rightarrow> go_error option \<times> Router" where
  "Shutdown wait r = (wait, r\<lparr>ro_shutdown := True, ro_cancelled := True\<rparr>)"

section \<open>The outbound path\<close>

text \<open>The arms of the three \<open>select\<close> statements: of a reply, of an operator's reply, and
  of an inbound message.\<close>

datatype arm = ArmSend | ArmTimer | ArmRouterDone
datatype out_arm = OutArm arm | OutCtx go_error
datatype in_arm = InSend | InTimer | InCtx go_error

definition push_out :: "nat \<Rightarrow> Envelope \<Rightarrow> Router \<Rightarrow> Router" where
  "push_out i env r = r\<lparr>ro_channelWorkers := (ro_channelWorkers r)[i :=
     (ro_channelWorkers r ! i)\<lparr>cw_queue := cw_queue (ro_channelWorkers r ! i) @ [env]\<rparr>]\<rparr>"

definition push_in :: "nat \<Rightarrow> Envelope \<Rightarrow> Router \<Rightarrow> Router" where
  "push_in i env r = r\<lparr>ro_brainWorkers := (ro_brainWorkers r)[i :=
     (ro_brainWorkers r ! i)\<lparr>bw_queue := bw_queue (ro_brainWorkers r ! i) @ [env]\<rparr>]\<rparr>"

text \<open>The arms of the outbound \<open>select\<close> that can be taken.\<close>

definition out_ready :: "arm \<Rightarrow> string \<Rightarrow> Router \<Rightarrow> bool" where
  "out_ready a channel r = (case ro_channels r channel of
      None \<Rightarrow> True
    | Some i \<Rightarrow> (case a of
          ArmSend \<Rightarrow> int (length (cw_queue (ro_channelWorkers r ! i))) < ro_outboundQueueCapacity r
        | ArmTimer \<Rightarrow> 0 < ro_outboundEnqueueTimeout r
        | ArmRouterDone \<Rightarrow> ro_cancelled r))"

definition sendReply :: "arm \<Rightarrow> Envelope \<Rightarrow> Router \<Rightarrow> Router" where
  "sendReply a env r =
     (if ro_shutdown r then r
      else case ro_channels r (en_Channel env) of
        None \<Rightarrow>
          notifyError \<lparr>re_Kind = ErrKindUnknownReplyChannel, re_Brain = '''', re_Channel = en_Channel env,
            re_Envelope = Some env, re_Err = Errorf ''%w: %q (reply dropped)'' [ErrUnknownChannel]\<rparr> r
      | Some i \<Rightarrow>
          (case a of
             ArmSend \<Rightarrow> push_out i env r
           | ArmTimer \<Rightarrow>
               notifyError \<lparr>re_Kind = ErrKindOutboundSaturated, re_Brain = '''',
                 re_Channel = cw_name (ro_channelWorkers r ! i), re_Envelope = Some env,
                 re_Err = ErrChannelSaturated\<rparr> r
           | ArmRouterDone \<Rightarrow> r))"

text \<open>\<open>deliver\<close> with the error \<open>Channel.Send\<close> returned.\<close>

definition deliver :: "go_error option \<Rightarrow> string \<Rightarrow> Envelope \<Rightarrow> Router \<Rightarrow> Router" where
  "deliver send_err name env r =
     (case send_err of
        Some err \<Rightarrow>
          notifyError \<lparr>re_Kind = ErrKindSend, re_Brain = '''', re_Channel = name, re_Envelope = Some env,
            re_Err = err\<rparr> r
      | None \<Rightarrow> publishEvent (message_event ReplySent env name '''' None) r)"

text \<open>\<open>handleAndReply\<close> with what \<open>Brain.Handle\<close> returned and the arm of each
  reply.\<close>

definition handleAndReply ::
  "string \<Rightarrow> go_error + Envelope list \<Rightarrow> arm list \<Rightarrow> Envelope \<Rightarrow> Router \<Rightarrow> Router" where
  "handleAndReply brainName result arms env r =
     (case result of
        Inl err \<Rightarrow>
          notifyError \<lparr>re_Kind = ErrKindHandle, re_Brain = brainName, re_Channel = '''', re_Envelope = Some env,
            re_Err = err\<rparr> r
      | Inr out \<Rightarrow> fold (\<lambda>(a, reply). sendReply a reply) (zip arms out) r)"

section \<open>Workers\<close>

text \<open>One round of a brain worker and of a channel worker; \<open>None\<close> when there is nothing to
  take.\<close>

definition runBrainWorker ::
  "nat \<Rightarrow> go_error + Envelope list \<Rightarrow> arm list \<Rightarrow> Router \<Rightarrow> Router option" where
  "runBrainWorker i result arms r =
     (if ro_cancelled r \<or> \<not> i < length (ro_brainWorkers r) then None
      else let bw = ro_brainWorkers r ! i
        in case bw_queue bw of
             [] \<Rightarrow> None
           | env # rest \<Rightarrow>
               Some (handleAndReply (bw_name bw) result arms env
                 (r\<lparr>ro_brainWorkers := (ro_brainWorkers r)[i := bw\<lparr>bw_queue := rest\<rparr>]\<rparr>)))"

definition runChannelWorker :: "nat \<Rightarrow> go_error option \<Rightarrow> Router \<Rightarrow> Router option" where
  "runChannelWorker i send_err r =
     (if \<not> i < length (ro_channelWorkers r) then None
      else let cw = ro_channelWorkers r ! i
        in case cw_queue cw of
             [] \<Rightarrow> None
           | env # rest \<Rightarrow>
               Some (deliver send_err (cw_name cw) env
                 (r\<lparr>ro_channelWorkers := (ro_channelWorkers r)[i := cw\<lparr>cw_queue := rest\<rparr>]\<rparr>)))"

section \<open>Takeover and operator replies\<close>

definition TakeOver :: "string \<Rightarrow> Router \<Rightarrow> Router" where
  "TakeOver key r = r\<lparr>ro_takeover := insert key (ro_takeover r)\<rparr>"

definition Release :: "string \<Rightarrow> Router \<Rightarrow> Router" where
  "Release key r = r\<lparr>ro_takeover := ro_takeover r - {key}\<rparr>"

definition TakenOver :: "string \<Rightarrow> Router \<Rightarrow> bool" where
  "TakenOver key r \<longleftrightarrow> key \<in> ro_takeover r"

definition latestEnvelopeText :: "Part list \<Rightarrow> string" where
  "latestEnvelopeText parts =
     fold (\<lambda>p t. if pa_Type p = Text \<and> TrimSpace (pa_Content p) \<noteq> '''' then pa_Content p else t) parts ''''"

definition new_turn :: "string \<Rightarrow> string \<Rightarrow> time \<Rightarrow> Turn" where
  "new_turn role content now = \<lparr>tn_Role = role, tn_Content = content, tn_Timestamp = now, tn_Seq = 0\<rparr>"

text \<open>Persisting one turn in the session store; a store error leaves the store alone.\<close>

definition store_append :: "string \<Rightarrow> Turn \<Rightarrow> go_error option \<Rightarrow> Router \<Rightarrow> go_error option \<times> Router" where
  "store_append key t err r =
     (case (err, ro_sessionStore r) of
        (None, Some s) \<Rightarrow> (None, r\<lparr>ro_sessionStore := Some (snd (Append key t s))\<rparr>)
      | (_, _) \<Rightarrow> (err, r))"

definition persist_operator :: "time \<Rightarrow> go_error option \<Rightarrow> Envelope \<Rightarrow> Router \<Rightarrow> go_error option \<times> Router" where
  "persist_operator now append_err env r =
     (if ro_sessionStore r = None then (None, r)
      else case KeyFromEnvelope (Some env) of
        Inl _ \<Rightarrow> (None, r)
      | Inr key \<Rightarrow>
          (let body = latestEnvelopeText (en_Parts env)
           in if body = '''' then (None, r)
              else case store_append key (new_turn ''operator'' body now) append_err r of
                (Some err, r') \<Rightarrow> (Some (Errorf ''router: persist operator turn %q: %w'' [err]), r')
              | (None, r') \<Rightarrow> (None, r')))"

definition DispatchOutbound ::
  "time \<Rightarrow> go_error option \<Rightarrow> out_arm \<Rightarrow> Envelope option \<Rightarrow> Router \<Rightarrow> go_error option \<times> Router" where
  "DispatchOutbound now append_err a env r =
     (case env of
        None \<Rightarrow> (Some ErrNilEnvelope, r)
      | Some e \<Rightarrow>
          if en_Direction e \<noteq> Outbound then (Some ErrNotOutbound, r)
          else if ro_shutdown r then (Some ErrShutdown, r)
          else (case ro_channels r (en_Channel e) of
             None \<Rightarrow> (Some (Errorf ''%w: %q'' [ErrUnknownChannel]), r)
           | Some i \<Rightarrow>
               (case persist_operator now append_err e r of
                  (Some err, r') \<Rightarrow> (Some err, r')
                | (None, r') \<Rightarrow>
                    (case a of
                       OutArm ArmSend \<Rightarrow> (None, push_out i e r')
                     | OutArm ArmTimer \<Rightarrow> (Some (Errorf ''%w: %q'' [ErrChannelSaturated]), r')
                     | OutCtx err \<Rightarrow> (Some err, r')
                     | OutArm ArmRouterDone \<Rightarrow> (Some ErrShutdown, r')))))"

end
