(* ===== verification/Session_Dispatch.thy ===== *)
theory Session_Dispatch
  imports Router
begin

text \<open>
  The router, second part: the inbound dispatch (\<open>router.go\<close> \<open>DispatchInbound\<close>) with the
  direct-brain contract (\<open>direct_brain.go\<close>), the deduplication, and the session pipeline
  (\<open>session.go\<close>, \<open>recall.go\<close>, \<open>notes.go\<close>) that runs before the brain's queue.

  One call sees its surroundings through a \<open>dispatch_env\<close>: the clock readings in the order the
  code takes them, the errors the session store returns for each call, the answers of the
  closures behind \<open>/notes\<close> and \<open>/tools\<close>, the fresh identifiers of the replies it builds,
  and the arm each \<open>select\<close> takes. \<open>de_date\<close> is \<open>time.Date\<close> on the day of an
  instant in the clock's location, \<open>de_day_before\<close> is \<open>AddDate(0, 0, -1)\<close> there, and
  \<open>de_quote\<close> is the \<open>%q\<close> form of a string.
\<close>

section \<open>The surroundings of one call\<close>

record dispatch_env =
  de_now_fallback :: time
  de_now_dedup :: time
  de_now_expire :: time
  de_now_turn :: time
  de_date :: "time \<Rightarrow> int \<Rightarrow> int \<Rightarrow> time"
  de_day_before :: "time \<Rightarrow> time"
  de_quote :: "string \<Rightarrow> string"
  de_list_expire_err :: "go_error option"
  de_new_expire_err :: "go_error option"
  de_new_trigger_err :: "go_error option"
  de_list_recall_err :: "go_error option"
  de_tail_err :: "int \<Rightarrow> go_error option"
  de_append_err :: "go_error option"
  de_notesList :: "string \<Rightarrow> string \<Rightarrow> (Note list \<times> bool) \<times> go_error option"
  de_notesClear :: "string \<Rightarrow> string \<Rightarrow> bool \<times> go_error option"
  de_toolsReport :: "string \<Rightarrow> string"
  de_fallback_id :: "string \<times> time"
  de_reply_id :: "string \<times> time"
  de_fallback_arm :: arm
  de_reply_arm :: arm
  de_arm :: in_arm

section \<open>Replies the router builds\<close>

definition korvun :: Participant where "korvun = \<lparr>pp_ID = ''korvun'', pp_Name = ''Korvun''\<rparr>"

text \<open>An outbound reply on the inbound's channel that echoes its metadata and carries an
  acknowledgement mark.\<close>

definition ack_reply :: "string \<times> time \<Rightarrow> string \<Rightarrow> string \<Rightarrow> Envelope \<Rightarrow> Envelope" where
  "ack_reply fresh mark body env =
     (let out = AddText body (New (fst fresh) (snd fresh) (en_Channel env) Outbound korvun)
      in out\<lparr>en_Meta := (en_Meta out ++ en_Meta env)(MetaAck \<mapsto> mark)\<rparr>)"

definition em_dash :: string where "em_dash = map byte [226, 128, 148]"
definition ellipsis :: string where "ellipsis = map byte [226, 128, 166]"

definition SessionResetAck :: string where
  "SessionResetAck = ''New session '' @ em_dash @ '' previous context cleared.''"

definition triggerAck :: "string \<times> time \<Rightarrow> Envelope \<Rightarrow> Envelope" where
  "triggerAck fresh env = ack_reply fresh AckSessionReset SessionResetAck env"

definition rewriteEnvelopeText :: "Envelope \<Rightarrow> string \<Rightarrow> Envelope" where
  "rewriteEnvelopeText env body = env\<lparr>en_Parts := [content_part Text body]\<rparr>"

text \<open>The first token of the latest text and the rest.\<close>

definition first_token :: "Envelope \<Rightarrow> string \<times> string" where
  "first_token env =
     (let (first, rest, _) = Cut (TrimSpace (latestEnvelopeText (en_Parts env))) (CHR '' '') in (first, rest))"

section \<open>Expiry and reset triggers\<close>

definition session_expired :: "dispatch_env \<Rightarrow> SessionPolicy \<Rightarrow> time \<Rightarrow> bool" where
  "session_expired de p lst =
     (let now = de_now_expire de;
          boundary = de_date de now (sp_DailyHour p) (sp_DailyMin p)
      in sp_IdleMin p > 0 \<and> now - lst > sp_IdleMin p * Minute \<or>
         sp_Daily p \<and> lst < (if boundary > now then de_day_before de boundary else boundary))"

definition maybeExpireSession :: "dispatch_env \<Rightarrow> string \<Rightarrow> Envelope \<Rightarrow> MemStore \<Rightarrow> Router \<Rightarrow> Router" where
  "maybeExpireSession de key env store r =
     (let p = ro_sessionPolicy r
      in if \<not> sp_Daily p \<and> sp_IdleMin p \<le> 0 then r
         else case de_list_expire_err de of
           Some err \<Rightarrow> session_error env err r
         | None \<Rightarrow>
             (let ss = ListSessions key store
              in if ss = [] then r
                 else let lst = si_Last (last ss)
                   in if IsZero lst then r
                      else if \<not> session_expired de p lst then r
                      else case de_new_expire_err de of
                        Some err \<Rightarrow> session_error env err r
                      | None \<Rightarrow> r\<lparr>ro_sessionStore := Some (snd (NewSession key store))\<rparr>))"

definition maybeHandleTrigger ::
  "dispatch_env \<Rightarrow> string \<Rightarrow> Envelope \<Rightarrow> MemStore \<Rightarrow> Router \<Rightarrow> (Envelope option \<times> bool) \<times> Router" where
  "maybeHandleTrigger de key env store r =
     (if sp_Triggers (ro_sessionPolicy r) = [] then ((None, False), r)
      else let body = latestEnvelopeText (en_Parts env)
        in if body = '''' then ((None, False), r)
           else let (first, rest, _) = Cut (TrimSpace body) (CHR '' '')
             in if first \<notin> set (sp_Triggers (ro_sessionPolicy r)) then ((None, False), r)
                else case de_new_trigger_err de of
                  Some err \<Rightarrow> ((None, False), session_error env err r)
                | None \<Rightarrow>
                    (let r' = r\<lparr>ro_sessionStore := Some (snd (NewSession key store))\<rparr>
                     in if TrimSpace rest = ''''
                        then ((None, True), sendReply (de_reply_arm de) (triggerAck (de_reply_id de) env) r')
                        else ((Some (rewriteEnvelopeText env (TrimSpace rest)), False), r')))"

section \<open>Recall\<close>

definition RecallTailWindow :: int where "RecallTailWindow = 32"
definition RecallScanSessions :: nat where "RecallScanSessions = 5"
definition RecallBlockRunes :: nat where "RecallBlockRunes = 4000"

definition RecallBlockHeader :: "int \<Rightarrow> string" where
  "RecallBlockHeader src = ''[Recalled from session '' @ decimal src @ '' '' @ em_dash @
     '' quoted context, not new messages]''"
definition RecallBlockHeaderTruncated :: "int \<Rightarrow> string" where
  "RecallBlockHeaderTruncated src = ''[Recalled from session '' @ decimal src @ '' '' @ em_dash @
     '' quoted context, not new messages '' @ em_dash @ '' truncated: oldest lines dropped]''"
definition RecallAck :: "nat \<Rightarrow> int \<Rightarrow> string" where
  "RecallAck n src = ''Recalled '' @ decimal (int n) @ '' turns from session '' @ decimal src @ ''.''"
definition RecallNothingReply :: string where
  "RecallNothingReply = ''Nothing to recall '' @ em_dash @ '' no previous session with dialogue.''"
definition RecallRefusalReply :: string where
  "RecallRefusalReply = ''The active session already has messages '' @ em_dash @
     '' /recall works only on an empty session. Start one with /new.''"
definition RecallUsageReply :: string where
  "RecallUsageReply = ''Usage: /recall [n] '' @ em_dash @
     '' import the last n turns of the previous session into an empty one.''"
definition RecallErrorReply :: string where
  "RecallErrorReply = ''Recall failed '' @ em_dash @
     '' the conversation store returned an error. Nothing was imported.''"

definition nonSystemTurns :: "Turn list \<Rightarrow> Turn list" where
  "nonSystemTurns ts = filter (\<lambda>t. tn_Role t \<noteq> ''system'') ts"

definition newline :: string where "newline = [CHR 0x0A]"

definition composeRecallBlock :: "string \<Rightarrow> string list \<Rightarrow> string" where
  "composeRecallBlock header lines =
     (if lines = [] then header else header @ newline @ strings_Join lines newline)"

definition recallReply :: "dispatch_env \<Rightarrow> Envelope \<Rightarrow> string \<Rightarrow> Router \<Rightarrow> Router" where
  "recallReply de env body r = sendReply (de_reply_arm de) (ack_reply (de_reply_id de) AckRecall body env) r"

definition recallError :: "dispatch_env \<Rightarrow> Envelope \<Rightarrow> go_error \<Rightarrow> Router \<Rightarrow> Router" where
  "recallError de env err r =
     recallReply de env RecallErrorReply (session_error env (Errorf ''recall: %w'' [err]) r)"

text \<open>The count asked for: \<open>None\<close> is the usage reply.\<close>

definition recall_count :: "int \<Rightarrow> string \<Rightarrow> int option" where
  "recall_count mx rest =
     (if TrimSpace rest = '''' then Some mx
      else let fields = Fields (TrimSpace rest)
        in case Atoi (hd fields) of
             None \<Rightarrow> None
           | Some v \<Rightarrow> if length fields \<noteq> 1 \<or> v \<le> 0 then None else Some (if v < mx then v else mx))"

text \<open>The scan of the archived sessions, newest first, for at most \<open>probes\<close> of them. A found
  source is its id and dialogue; id 0 stands for none, as in the source.\<close>

fun recall_scan ::
  "(int \<Rightarrow> go_error option) \<Rightarrow> MemStore \<Rightarrow> string \<Rightarrow> nat \<Rightarrow> SessionInfo list \<Rightarrow> go_error + int \<times> Turn list" where
  "recall_scan errs store key 0 ss = Inr (0, [])"
| "recall_scan errs store key (Suc n) [] = Inr (0, [])"
| "recall_scan errs store key (Suc n) (i # ss) =
     (case errs (si_ID i) of
        Some err \<Rightarrow> Inl err
      | None \<Rightarrow>
          (let d = nonSystemTurns (LoadSessionTail key (si_ID i) RecallTailWindow store)
           in if d \<noteq> [] then Inr (si_ID i, d) else recall_scan errs store key n ss))"

fun drop_oldest_lines :: "string \<Rightarrow> string list \<Rightarrow> string list" where
  "drop_oldest_lines header [] = []"
| "drop_oldest_lines header (l # ls) =
     (if RuneCountInString (composeRecallBlock header (l # ls)) > RecallBlockRunes
      then drop_oldest_lines header ls else l # ls)"

definition recall_line :: "Turn \<Rightarrow> string" where
  "recall_line t =
     (if tn_Role t = ''assistant'' \<or> tn_Role t = ''operator'' then ''Assistant'' else ''User'') @ '': '' @ tn_Content t"

text \<open>The quoted block for a source session and its dialogue, with the number of lines in it.\<close>

definition recall_block :: "int \<Rightarrow> Turn list \<Rightarrow> string \<times> nat" where
  "recall_block src dialogue =
     (let lines = map recall_line dialogue;
          block = composeRecallBlock (RecallBlockHeader src) lines
      in if RuneCountInString block > RecallBlockRunes
         then let header = RecallBlockHeaderTruncated src;
                  kept = drop_oldest_lines header lines
              in (composeRecallBlock header kept, length kept)
         else (block, length lines))"

text \<open>Whether the active session refuses an import: a turn of dialogue in the tail window, or
  more turns than the window.\<close>

definition recall_refused :: "MemStore \<Rightarrow> string \<Rightarrow> SessionInfo \<Rightarrow> bool" where
  "recall_refused store key active \<longleftrightarrow>
     nonSystemTurns (LoadSessionTail key (si_ID active) RecallTailWindow store) \<noteq> [] \<or>
     int (si_TurnCount active) > RecallTailWindow"

definition recall_import ::
  "dispatch_env \<Rightarrow> string \<Rightarrow> Envelope \<Rightarrow> int \<Rightarrow> MemStore \<Rightarrow> SessionInfo list \<Rightarrow> Router \<Rightarrow> Router" where
  "recall_import de key env k store ss r =
     (case recall_scan (de_tail_err de) store key RecallScanSessions (rev (butlast ss)) of
        Inl err \<Rightarrow> recallError de env err r
      | Inr (src, dialogue) \<Rightarrow>
          if src = 0 then recallReply de env RecallNothingReply r
          else let (block, n) = recall_block src (take_last (nat k) dialogue)
            in case de_append_err de of
                 Some err \<Rightarrow> recallError de env err r
               | None \<Rightarrow>
                   recallReply de env (RecallAck n src)
                     (r\<lparr>ro_sessionStore :=
                         Some (snd (AppendTurns key [new_turn ''user'' block (de_now_turn de)] store))\<rparr>))"

definition maybeHandleRecall ::
  "dispatch_env \<Rightarrow> string \<Rightarrow> Envelope \<Rightarrow> string \<Rightarrow> MemStore \<Rightarrow> Router \<Rightarrow> bool \<times> Router" where
  "maybeHandleRecall de key env brainName store r =
     (if sp_RecallMax (ro_sessionPolicy r) \<le> 0 then (False, r)
      else let (first, rest) = first_token env
        in if first \<noteq> ''/recall'' then (False, r)
           else let r1 = publishReceived env brainName r
             in case recall_count (sp_RecallMax (ro_sessionPolicy r)) rest of
                  None \<Rightarrow> (True, recallReply de env RecallUsageReply r1)
                | Some k \<Rightarrow>
                    (case de_list_recall_err de of
                       Some err \<Rightarrow> (True, recallError de env err r1)
                     | None \<Rightarrow>
                         (let ss = ListSessions key store
                          in if ss \<noteq> []
                             then (case de_tail_err de (si_ID (last ss)) of
                                Some err \<Rightarrow> (True, recallError de env err r1)
                              | None \<Rightarrow>
                                  if recall_refused store key (last ss)
                                  then (True, recallReply de env RecallRefusalReply r1)
                                  else (True, recall_import de key env k store ss r1))
                             else (True, recall_import de key env k store ss r1))))"

section \<open>Notes and tools\<close>

definition NotesRenderCap :: nat where "NotesRenderCap = 20"
definition NotesReportHeader :: string where "NotesReportHeader = ''Stored notes:''"
definition NotesEmptyReply :: string where "NotesEmptyReply = ''No notes stored.''"
definition NotesClearedAck :: string where "NotesClearedAck = ''Notes cleared.''"
definition NotesUsageReply :: string where
  "NotesUsageReply = ''Usage: /notes '' @ em_dash @ '' list the stored notes; /notes clear '' @ em_dash @
     '' remove them.''"
definition NotesErrorReply :: string where
  "NotesErrorReply = ''Notes failed '' @ em_dash @ '' the store returned an error.''"

definition renderNotesReport :: "Note list \<Rightarrow> string" where
  "renderNotesReport notes =
     (if notes = [] then NotesEmptyReply
      else let shown = (if length notes > NotesRenderCap then NotesRenderCap else length notes);
               lines = concat (map (\<lambda>i. newline @ decimal (int i + 1) @ ''. '' @ nt_Content (notes ! i)) [0..<shown]);
               rest = length notes - shown
           in NotesReportHeader @ lines @
              (if rest > 0 then newline @ ellipsis @ '' +'' @ decimal (int rest) @ '' more'' else ''''))"

definition notesReply :: "dispatch_env \<Rightarrow> Envelope \<Rightarrow> string \<Rightarrow> Router \<Rightarrow> Router" where
  "notesReply de env body r =
     sendReply (de_reply_arm de) (ack_reply (de_reply_id de) AckNotesReport body env) r"

definition notesError :: "dispatch_env \<Rightarrow> Envelope \<Rightarrow> string \<Rightarrow> go_error \<Rightarrow> Router \<Rightarrow> Router" where
  "notesError de env brainName err r =
     notesReply de env NotesErrorReply
       (session_error env (Errorf ''notes: %w'' [err]) (publishReceived env brainName r))"

definition notes_answer ::
  "dispatch_env \<Rightarrow> Envelope \<Rightarrow> string \<Rightarrow> bool \<Rightarrow> go_error option \<Rightarrow> string \<Rightarrow> Router \<Rightarrow> bool \<times> Router" where
  "notes_answer de env brainName ok err body r =
     (case err of
        Some e \<Rightarrow> (True, notesError de env brainName e r)
      | None \<Rightarrow>
          if \<not> ok then (False, r)
          else (True, notesReply de env body (publishReceived env brainName r)))"

definition maybeHandleNotes ::
  "dispatch_env \<Rightarrow> string \<Rightarrow> Envelope \<Rightarrow> string \<Rightarrow> Router \<Rightarrow> bool \<times> Router" where
  "maybeHandleNotes de key env brainName r =
     (if \<not> ro_notesList r \<or> \<not> ro_notesClear r then (False, r)
      else let (first, rest) = first_token env
        in if first \<noteq> ''/notes'' then (False, r)
           else if TrimSpace rest = '''' then
             (let ((notes, ok), err) = de_notesList de brainName key
              in notes_answer de env brainName ok err (renderNotesReport notes) r)
           else if TrimSpace rest = ''clear'' then
             (let (ok, err) = de_notesClear de brainName key
              in notes_answer de env brainName ok err NotesClearedAck r)
           else
             (let ((_, ok), err) = de_notesList de brainName key
              in notes_answer de env brainName ok err NotesUsageReply r))"

definition maybeHandleToolsCommand ::
  "dispatch_env \<Rightarrow> Envelope \<Rightarrow> string \<Rightarrow> Router \<Rightarrow> bool \<times> Router" where
  "maybeHandleToolsCommand de env brainName r =
     (if \<not> ro_toolsReport r \<or> en_Channel env \<noteq> ro_toolsChannel r then (False, r)
      else if fst (first_token env) \<noteq> ''/tools'' then (False, r)
      else (True, sendReply (de_reply_arm de)
                    (ack_reply (de_reply_id de) AckToolsReport (de_toolsReport de brainName) env)
                    (publishReceived env brainName r)))"

section \<open>The session pipeline\<close>

text \<open>The steps that need the session store; \<open>Inl\<close> when the message was handled, \<open>Inr\<close>
  with the envelope that continues.\<close>

definition store_commands ::
  "dispatch_env \<Rightarrow> string \<Rightarrow> Envelope \<Rightarrow> string \<Rightarrow> Router \<Rightarrow> (unit + Envelope) \<times> Router" where
  "store_commands de key env brainName r =
     (case ro_sessionStore r of
        None \<Rightarrow> (Inr env, r)
      | Some s \<Rightarrow>
          (let r1 = maybeExpireSession de key env s r;
               s1 = (case ro_sessionStore r1 of Some s1 \<Rightarrow> s1 | None \<Rightarrow> s);
               ((out, handled), r2) = maybeHandleTrigger de key env s1 r1
           in if handled then (Inl (), r2)
              else let env1 = (case out of Some e \<Rightarrow> e | None \<Rightarrow> env);
                       s2 = (case ro_sessionStore r2 of Some s2 \<Rightarrow> s2 | None \<Rightarrow> s1);
                       (recalled, r3) = maybeHandleRecall de key env1 brainName s2 r2
                in if recalled then (Inl (), r3) else (Inr env1, r3)))"

definition takeover_gate :: "dispatch_env \<Rightarrow> string \<Rightarrow> Envelope \<Rightarrow> string \<Rightarrow> Router \<Rightarrow> Router" where
  "takeover_gate de key env brainName r =
     (let body = TranscriptText (en_Parts env);
          r1 = (if ro_sessionStore r \<noteq> None \<and> body \<noteq> ''''
                then (case store_append key (new_turn ''user'' body (de_now_turn de)) (de_append_err de) r of
                        (Some err, r') \<Rightarrow> session_error env err r'
                      | (None, r') \<Rightarrow> r')
                else r)
      in publishReceived env brainName r1)"

definition sessionPreDispatch ::
  "dispatch_env \<Rightarrow> Envelope \<Rightarrow> string \<Rightarrow> Router \<Rightarrow> (unit + Envelope) \<times> Router" where
  "sessionPreDispatch de env brainName r =
     (case KeyFromEnvelope (Some env) of
        Inl _ \<Rightarrow> (Inr env, r)
      | Inr key \<Rightarrow>
          (case store_commands de key env brainName r of
             (Inl _, r1) \<Rightarrow> (Inl (), r1)
           | (Inr env1, r1) \<Rightarrow>
               (let (noted, r2) = maybeHandleNotes de key env1 brainName r1
                in if noted then (Inl (), r2)
                   else let (tooled, r3) = maybeHandleToolsCommand de env1 brainName r2
                     in if tooled then (Inl (), r3)
                        else if TakenOver key r3 then (Inl (), takeover_gate de key env1 brainName r3)
                        else (Inr env1, r3))))"

section \<open>The direct-brain contract\<close>

definition directBrainFromConversationID :: "string \<Rightarrow> string option" where
  "directBrainFromConversationID cid =
     (case CutPrefix cid ''b:'' of
        None \<Rightarrow> None
      | Some rest \<Rightarrow>
          (let (enc, tail, found) = Cut rest (CHR '':'')
           in if \<not> found \<or> enc = '''' \<or> tail = '''' then None
              else case PathUnescape enc of
                None \<Rightarrow> None
              | Some name \<Rightarrow> if name = '''' then None else Some name))"

definition brainFallbackNotice :: "(string \<Rightarrow> string) \<Rightarrow> string \<Rightarrow> string" where
  "brainFallbackNotice quote name =
     ''El cerebro '' @ quote name @ '' ya no existe '' @ em_dash @ '' esta conversaci'' @ map byte [195, 179] @
     ''n contin'' @ map byte [195, 186] @ ''a con el cerebro por defecto.''"

definition maybeSendBrainFallback :: "dispatch_env \<Rightarrow> Envelope \<Rightarrow> string \<Rightarrow> Router \<Rightarrow> Router" where
  "maybeSendBrainFallback de env ghost r =
     (let w = (case ro_brainFallbackWarned r of Some w \<Rightarrow> w | None \<Rightarrow> newDedupWindow DedupCapacity DedupTTL);
          key = en_Channel env @ ''::'' @ meta_get env MetaConversationID;
          (dup, w') = seen key (de_now_fallback de) w;
          r1 = r\<lparr>ro_brainFallbackWarned := Some w'\<rparr>
      in if dup then r1
         else sendReply (de_fallback_arm de)
                (ack_reply (de_fallback_id de) AckBrainFallback (brainFallbackNotice (de_quote de) ghost) env) r1)"

section \<open>Inbound dispatch\<close>

text \<open>The brain a message goes to: the route's, or on the one enabled channel the brain its
  conversation id names; with the name of a brain that is not registered, if it names one.\<close>

definition choose_brain :: "Envelope \<Rightarrow> string \<Rightarrow> nat \<Rightarrow> Router \<Rightarrow> (string \<times> nat) \<times> string" where
  "choose_brain env brainName i r =
     (if ro_directBrainChannel r \<noteq> '''' \<and> en_Channel env = ro_directBrainChannel r
      then (case directBrainFromConversationID (meta_get env MetaConversationID) of
              None \<Rightarrow> ((brainName, i), '''')
            | Some name \<Rightarrow>
                (case ro_brains r name of
                   Some j \<Rightarrow> ((name, j), '''')
                 | None \<Rightarrow> ((brainName, i), name)))
      else ((brainName, i), ''''))"

definition dedupForget :: "string \<Rightarrow> Router \<Rightarrow> Router" where
  "dedupForget key r =
     (case ro_dedup r of
        None \<Rightarrow> r
      | Some w \<Rightarrow> if key = '''' then r else r\<lparr>ro_dedup := Some (forget key w)\<rparr>)"

text \<open>The deduplication step: whether the message is a duplicate, and the router with the
  window updated.\<close>

definition dedup_check :: "time \<Rightarrow> string \<Rightarrow> Router \<Rightarrow> bool \<times> Router" where
  "dedup_check now key r =
     (if key = '''' then (False, r)
      else let w = (case ro_dedup r of Some w \<Rightarrow> w | None \<Rightarrow> newDedupWindow DedupCapacity DedupTTL);
               (dup, w') = seen key now w
           in (dup, r\<lparr>ro_dedup := Some w'\<rparr>))"

definition drop_duplicate :: "Envelope \<Rightarrow> string \<Rightarrow> Router \<Rightarrow> Router" where
  "drop_duplicate env brainName r =
     (let r1 = publishEvent (message_event MessageDropped env (en_Channel env) brainName (Some ErrDuplicateEvent)) r
      in if ro_dedupCounter r1 then r1\<lparr>ro_counted := ro_counted r1 @ [en_Channel env]\<rparr> else r1)"

definition enqueue_inbound :: "in_arm \<Rightarrow> string \<Rightarrow> nat \<Rightarrow> string \<Rightarrow> Envelope \<Rightarrow> Router \<Rightarrow> go_error option \<times> Router" where
  "enqueue_inbound a brainName i key env r =
     (case a of
        InSend \<Rightarrow> (None, publishReceived env brainName (push_in i env r))
      | InTimer \<Rightarrow> (Some ErrBrainSaturated, dedupForget key r)
      | InCtx err \<Rightarrow> (Some err, dedupForget key r))"

text \<open>The part of the dispatch after the routing table was read.\<close>

definition dispatch_to :: "dispatch_env \<Rightarrow> Envelope \<Rightarrow> string \<Rightarrow> nat \<Rightarrow> Router \<Rightarrow> go_error option \<times> Router" where
  "dispatch_to de env brainName i r =
     (let key = dedupKey env;
          (dup, r1) = dedup_check (de_now_dedup de) key r
      in if dup then (None, drop_duplicate env brainName r1)
         else case sessionPreDispatch de env brainName r1 of
           (Inl _, r2) \<Rightarrow> (None, r2)
         | (Inr env1, r2) \<Rightarrow> enqueue_inbound (de_arm de) brainName i key env1 r2)"

definition DispatchInbound :: "dispatch_env \<Rightarrow> Envelope option \<Rightarrow> Router \<Rightarrow> go_error option \<times> Router" where
  "DispatchInbound de env r =
     (case env of
        None \<Rightarrow> (Some ErrNilEnvelope, r)
      | Some e \<Rightarrow>
          if en_Direction e \<noteq> Inbound then (Some ErrNotInbound, r)
          else if meta_get e MetaConversationID = '''' then (Some ErrNoConversationID, r)
          else if ro_shutdown r then (Some ErrShutdown, r)
          else if ro_channels r (en_Channel e) = None then (Some (Errorf ''%w: %q'' [ErrUnknownChannel]), r)
          else (case ro_routes r (en_Channel e) of
             None \<Rightarrow> (Some (Errorf ''%w: channel %q'' [ErrNoRoute]), r)
           | Some brainName \<Rightarrow>
               (case ro_brains r brainName of
                  None \<Rightarrow> (Some (Errorf ''%w: %q'' [ErrUnknownBrain]), r)
                | Some i \<Rightarrow>
                    (let ((target, j), ghost) = choose_brain e brainName i r;
                         r1 = (if ghost \<noteq> '''' then maybeSendBrainFallback de e ghost r else r)
                     in dispatch_to de e target j r1))))"

text \<open>The arms of the inbound \<open>select\<close>: there is room, the timeout is on, or the context is
  done.\<close>

definition in_ready :: "in_arm \<Rightarrow> nat \<Rightarrow> Router \<Rightarrow> bool" where
  "in_ready a i r = (case a of
      InSend \<Rightarrow> int (length (bw_queue (ro_brainWorkers r ! i))) < ro_queueCapacity r
    | InTimer \<Rightarrow> 0 < ro_enqueueTimeout r
    | InCtx _ \<Rightarrow> True)"

definition dispatchFromPump :: "dispatch_env \<Rightarrow> string \<Rightarrow> Envelope option \<Rightarrow> Router \<Rightarrow> Router" where
  "dispatchFromPump de channelName env r =
     (case DispatchInbound de env r of
        (None, r') \<Rightarrow> r'
      | (Some err, r') \<Rightarrow>
          notifyError \<lparr>re_Kind = ErrKindInboundDispatch, re_Brain = '''', re_Channel = channelName,
            re_Envelope = env, re_Err = err\<rparr> r')"

end
