(* ===== verification/Dispatch.thy ===== *)
theory Dispatch
  imports Session_Dispatch
begin

text \<open>
  What the router guarantees: which brain a message reaches, what a takeover silences, what the
  deduplication drops and forgets, what a shut down router refuses, the soundness of the routing
  tables in every reachable router, and what a recall may write.
\<close>

section \<open>What the pipeline leaves alone\<close>

text \<open>The \<open>core\<close> of a router is everything but the outbound queues, the session store, the
  fallback window and the records of the seams. Everything before the brain's queue and the
  deduplication window keeps it.\<close>

definition core :: "Router \<Rightarrow> Router" where
  "core r = r\<lparr>ro_channelWorkers := map (\<lambda>cw. cw\<lparr>cw_queue := []\<rparr>) (ro_channelWorkers r), ro_sessionStore := None,
     ro_brainFallbackWarned := None, ro_published := [], ro_errors := []\<rparr>"

lemma coreD:
  assumes "core r' = core r"
  shows "ro_brainWorkers r' = ro_brainWorkers r" "ro_brains r' = ro_brains r" "ro_routes r' = ro_routes r"
    "ro_channels r' = ro_channels r" "ro_dedup r' = ro_dedup r" "ro_takeover r' = ro_takeover r"
    "ro_shutdown r' = ro_shutdown r" "ro_cancelled r' = ro_cancelled r" "ro_queueCapacity r' = ro_queueCapacity r"
    "length (ro_channelWorkers r') = length (ro_channelWorkers r)" "ro_counted r' = ro_counted r"
    "ro_eventPublisher r' = ro_eventPublisher r" "ro_dedupCounter r' = ro_dedupCounter r"
    "map cw_name (ro_channelWorkers r') = map cw_name (ro_channelWorkers r)"
proof -
  have eq: "f (core r') = f (core r)" for f :: "Router \<Rightarrow> 'b" using assms by simp
  show "ro_brainWorkers r' = ro_brainWorkers r" using eq [of ro_brainWorkers] by (simp add: core_def)
  show "ro_brains r' = ro_brains r" using eq [of ro_brains] by (simp add: core_def)
  show "ro_routes r' = ro_routes r" using eq [of ro_routes] by (simp add: core_def)
  show "ro_channels r' = ro_channels r" using eq [of ro_channels] by (simp add: core_def)
  show "ro_dedup r' = ro_dedup r" using eq [of ro_dedup] by (simp add: core_def)
  show "ro_takeover r' = ro_takeover r" using eq [of ro_takeover] by (simp add: core_def)
  show "ro_shutdown r' = ro_shutdown r" using eq [of ro_shutdown] by (simp add: core_def)
  show "ro_cancelled r' = ro_cancelled r" using eq [of ro_cancelled] by (simp add: core_def)
  show "ro_queueCapacity r' = ro_queueCapacity r" using eq [of ro_queueCapacity] by (simp add: core_def)
  show "ro_counted r' = ro_counted r" using eq [of ro_counted] by (simp add: core_def)
  show "ro_eventPublisher r' = ro_eventPublisher r" using eq [of ro_eventPublisher] by (simp add: core_def)
  show "ro_dedupCounter r' = ro_dedupCounter r" using eq [of ro_dedupCounter] by (simp add: core_def)
  have "map cw_name (ro_channelWorkers (core x)) = map cw_name (ro_channelWorkers x)" for x
    by (simp add: core_def)
  then show names: "map cw_name (ro_channelWorkers r') = map cw_name (ro_channelWorkers r)"
    using eq [of "\<lambda>x. map cw_name (ro_channelWorkers x)"] by simp
  show "length (ro_channelWorkers r') = length (ro_channelWorkers r)"
    using names by (metis length_map)
qed

lemma core_updates [simp]:
  "core (r\<lparr>ro_sessionStore := s\<rparr>) = core r" "core (r\<lparr>ro_brainFallbackWarned := w\<rparr>) = core r"
  "core (r\<lparr>ro_published := es\<rparr>) = core r" "core (r\<lparr>ro_errors := xs\<rparr>) = core r"
  by (simp_all add: core_def)

lemma core_publishEvent [simp]: "core (publishEvent ev r) = core r"
  by (simp add: publishEvent_def)

lemma core_publishReceived [simp]: "core (publishReceived env b r) = core r"
  by (simp add: publishReceived_def)

lemma core_notifyError [simp]: "core (notifyError re r) = core r"
  by (simp add: notifyError_def)

lemma core_session_error [simp]: "core (session_error env err r) = core r"
  by (simp add: session_error_def)

lemma core_push_out [simp]: "core (push_out i env r) = core r"
proof -
  let ?c = "\<lambda>cw :: channelWorker. cw\<lparr>cw_queue := []\<rparr>"
  have "map ?c (cws[i := (cws ! i)\<lparr>cw_queue := q\<rparr>]) = map ?c cws" for cws q
    by (cases "i < length cws") (simp_all add: map_update list_update_same_conv list_update_beyond)
  then show ?thesis by (simp add: core_def push_out_def)
qed

lemma core_sendReply [simp]: "core (sendReply a env r) = core r"
  by (simp add: sendReply_def split: option.splits arm.splits)

lemma core_recallReply [simp]: "core (recallReply de env body r) = core r"
  by (simp add: recallReply_def)

lemma core_recallError [simp]: "core (recallError de env err r) = core r"
  by (simp add: recallError_def)

lemma core_notesReply [simp]: "core (notesReply de env body r) = core r"
  by (simp add: notesReply_def)

lemma core_notesError [simp]: "core (notesError de env b err r) = core r"
  by (simp add: notesError_def)

lemma core_notes_answer: "notes_answer de env b ok err body r = (h, r') \<Longrightarrow> core r' = core r"
  by (auto simp: notes_answer_def split: option.splits if_splits)

lemma core_maybeExpireSession [simp]: "core (maybeExpireSession de key env s r) = core r"
  by (simp add: maybeExpireSession_def Let_def split: option.splits)

lemma core_maybeHandleTrigger: "maybeHandleTrigger de key env s r = (x, r') \<Longrightarrow> core r' = core r"
  by (auto simp: maybeHandleTrigger_def Let_def split: option.splits if_splits prod.splits)

lemma core_recall_import [simp]: "core (recall_import de key env k s ss r) = core r"
  by (simp add: recall_import_def split: sum.splits prod.splits option.splits)

lemma core_maybeHandleRecall: "maybeHandleRecall de key env b s r = (h, r') \<Longrightarrow> core r' = core r"
  by (auto simp: maybeHandleRecall_def Let_def split: option.splits if_splits prod.splits)

lemma core_maybeHandleNotes: "maybeHandleNotes de key env b r = (h, r') \<Longrightarrow> core r' = core r"
  by (auto simp: maybeHandleNotes_def Let_def dest: core_notes_answer split: if_splits prod.splits)

lemma core_maybeHandleToolsCommand: "maybeHandleToolsCommand de env b r = (h, r') \<Longrightarrow> core r' = core r"
  by (auto simp: maybeHandleToolsCommand_def split: if_splits)

lemma core_store_commands: "store_commands de key env b r = (x, r') \<Longrightarrow> core r' = core r"
  by (auto simp: store_commands_def Let_def split: option.splits if_splits prod.splits
      dest!: core_maybeHandleTrigger core_maybeHandleRecall)

lemma core_store_append: "store_append key t err r = (x, r') \<Longrightarrow> core r' = core r"
  by (auto simp: store_append_def split: option.splits prod.splits)

lemma core_takeover_gate [simp]: "core (takeover_gate de key env b r) = core r"
  by (auto simp: takeover_gate_def Let_def dest: core_store_append split: prod.splits option.splits)

lemma core_sessionPreDispatch: "sessionPreDispatch de env b r = (x, r') \<Longrightarrow> core r' = core r"
  by (auto simp: sessionPreDispatch_def Let_def split: sum.splits prod.splits if_splits
      dest!: core_store_commands core_maybeHandleNotes core_maybeHandleToolsCommand)

lemma core_maybeSendBrainFallback [simp]: "core (maybeSendBrainFallback de env ghost r) = core r"
  by (simp add: maybeSendBrainFallback_def Let_def split: prod.splits)

text \<open>The envelope that continues is the message itself or the message with its text cut to what
  follows the trigger.\<close>

definition same_origin :: "Envelope \<Rightarrow> Envelope \<Rightarrow> bool" where
  "same_origin env1 env \<longleftrightarrow> en_Channel env1 = en_Channel env \<and> en_Meta env1 = en_Meta env \<and>
     en_ID env1 = en_ID env \<and> en_Sender env1 = en_Sender env \<and> en_Direction env1 = en_Direction env"

lemma same_origin_refl [simp]: "same_origin env env"
  by (simp add: same_origin_def)

lemma trigger_same_origin: "maybeHandleTrigger de key env s r = ((Some env1, h), r') \<Longrightarrow> same_origin env1 env"
  by (auto simp: maybeHandleTrigger_def Let_def same_origin_def rewriteEnvelopeText_def
      split: option.splits if_splits prod.splits)

lemma store_commands_same_origin: "store_commands de key env b r = (Inr env1, r') \<Longrightarrow> same_origin env1 env"
  by (auto simp: store_commands_def Let_def
      split: option.splits if_splits prod.splits dest: trigger_same_origin)

lemma sessionPreDispatch_same_origin:
  "sessionPreDispatch de env b r = (Inr env1, r') \<Longrightarrow> same_origin env1 env"
  by (auto simp: sessionPreDispatch_def Let_def
      split: sum.splits prod.splits if_splits dest: store_commands_same_origin)

lemma sessionPreDispatch_taken_over:
  assumes "KeyFromEnvelope (Some env) = Inr key" and "TakenOver key r"
  shows "\<exists>r'. sessionPreDispatch de env b r = (Inl (), r')"
proof -
  have "TakenOver key r'" if "core r' = core r" for r'
    using assms(2) coreD(6) [OF that] by (simp add: TakenOver_def)
  then show ?thesis
    using assms(1)
    by (auto simp: sessionPreDispatch_def Let_def split: sum.splits prod.splits
        dest!: core_store_commands core_maybeHandleNotes core_maybeHandleToolsCommand)
qed

lemma dedup_check_frame:
  assumes "dedup_check now key r = (d, r')"
  shows "\<exists>w. r' = r\<lparr>ro_dedup := w\<rparr>"
proof (cases "key = ''''")
  case True
  then have "r' = r\<lparr>ro_dedup := ro_dedup r\<rparr>" using assms by (simp add: dedup_check_def)
  then show ?thesis by blast
next
  case False
  then show ?thesis using assms by (auto simp: dedup_check_def Let_def split: prod.splits)
qed

lemma drop_duplicate_frame [simp]:
  "ro_brainWorkers (drop_duplicate env b r) = ro_brainWorkers r"
  "ro_sessionStore (drop_duplicate env b r) = ro_sessionStore r"
  "ro_channelWorkers (drop_duplicate env b r) = ro_channelWorkers r"
  by (simp_all add: drop_duplicate_def publishEvent_def Let_def)

lemma dedupForget_frame [simp]:
  "ro_brainWorkers (dedupForget key r) = ro_brainWorkers r" "ro_brains (dedupForget key r) = ro_brains r"
  by (simp_all add: dedupForget_def split: option.splits)

section \<open>Where a message goes\<close>

lemma dispatch_to_brains:
  assumes "dispatch_to de env b i r = (res, r')"
  shows "ro_brainWorkers r' = ro_brainWorkers r \<or>
    (res = None \<and> de_arm de = InSend \<and>
     (\<exists>env1. same_origin env1 env \<and> ro_brainWorkers r' = ro_brainWorkers (push_in i env1 r)))"
proof -
  obtain d r1 where d: "dedup_check (de_now_dedup de) (dedupKey env) r = (d, r1)" by fastforce
  then have bw1: "ro_brainWorkers r1 = ro_brainWorkers r" using dedup_check_frame by fastforce
  show ?thesis
  proof (cases d)
    case True
    then show ?thesis using assms d bw1 by (auto simp: dispatch_to_def)
  next
    case False
    obtain x r2 where s: "sessionPreDispatch de env b r1 = (x, r2)" by fastforce
    have bw2: "ro_brainWorkers r2 = ro_brainWorkers r" using coreD(1) [OF core_sessionPreDispatch [OF s]] bw1 by simp
    show ?thesis
    proof (cases x)
      case (Inl u)
      then show ?thesis using assms d False s bw2 by (auto simp: dispatch_to_def)
    next
      case (Inr env1)
      then have "same_origin env1 env" using sessionPreDispatch_same_origin s by blast
      then show ?thesis
        using assms d False s Inr bw2
        by (cases "de_arm de")
          (auto simp: dispatch_to_def enqueue_inbound_def publishReceived_def publishEvent_def push_in_def)
    qed
  qed
qed

text \<open>The route of a channel, read as the source does.\<close>

definition routed_brain :: "Router \<Rightarrow> string \<Rightarrow> string option" where
  "routed_brain r channel = (if ro_channels r channel = None then None else ro_routes r channel)"

lemma DispatchInbound_cases:
  assumes "DispatchInbound de (Some e) r = (res, r')"
  obtains (refused) err where "res = Some err" "r' = r"
  | (routed) brainName i target j ghost r1 where
      "en_Direction e = Inbound" "meta_get e MetaConversationID \<noteq> ''''" "\<not> ro_shutdown r"
      "routed_brain r (en_Channel e) = Some brainName" "ro_brains r brainName = Some i"
      "choose_brain e brainName i r = ((target, j), ghost)"
      "r1 = (if ghost \<noteq> '''' then maybeSendBrainFallback de e ghost r else r)"
      "dispatch_to de e target j r1 = (res, r')"
  using assms
  by (auto simp: DispatchInbound_def Let_def routed_brain_def split: if_splits option.splits prod.splits)

lemma choose_brain_target:
  assumes "choose_brain e brainName i r = ((target, j), ghost)" and "ro_brains r brainName = Some i"
  shows "ro_brains r target = Some j"
    and "target = brainName \<or> (en_Channel e = ro_directBrainChannel r \<and> ro_directBrainChannel r \<noteq> '''' \<and>
           directBrainFromConversationID (meta_get e MetaConversationID) = Some target)"
  using assms by (auto simp: choose_brain_def split: if_splits option.splits)

lemma DispatchInbound_brains:
  assumes "DispatchInbound de (Some e) r = (res, r')"
  shows "ro_brainWorkers r' = ro_brainWorkers r \<or>
    (\<exists>target j env1. res = None \<and> ro_brains r target = Some j \<and> same_origin env1 e \<and>
       ro_brainWorkers r' = ro_brainWorkers (push_in j env1 r) \<and>
       (routed_brain r (en_Channel e) = Some target \<or>
        en_Channel e = ro_directBrainChannel r \<and>
        directBrainFromConversationID (meta_get e MetaConversationID) = Some target))"
  using assms
proof (cases rule: DispatchInbound_cases)
  case (routed brainName i target j ghost r1)
  have bw: "ro_brainWorkers r1 = ro_brainWorkers r"
    using coreD(1) [OF core_maybeSendBrainFallback] by (simp add: routed(7))
  have push: "ro_brainWorkers (push_in j env1 r1) = ro_brainWorkers (push_in j env1 r)" for env1
    by (simp add: push_in_def bw)
  show ?thesis
    using dispatch_to_brains [OF routed(8)] choose_brain_target [OF routed(6,5)] routed(4) bw push by metis
qed simp

text \<open>
  C38: A message reaches at most one brain, and only the right one. A dispatch adds nothing to any
  brain's queue, or it succeeds and adds exactly one envelope, from the same sender and with the
  same channel and metadata, at the end of one queue; that brain is the one the channel is routed
  to, or the brain the conversation id names when the message came in over the one channel enabled
  for that. On every other channel a fabricated conversation id chooses nothing.
\<close>

theorem inbound_reaches_only_its_brain:
  assumes "DispatchInbound de (Some e) r = (res, r')"
  shows "ro_brainWorkers r' = ro_brainWorkers r \<or>
    (\<exists>target j env1. res = None \<and> ro_brains r target = Some j \<and> same_origin env1 e \<and>
       ro_brainWorkers r' = ro_brainWorkers (push_in j env1 r) \<and>
       (routed_brain r (en_Channel e) = Some target \<or>
        en_Channel e = ro_directBrainChannel r \<and>
        directBrainFromConversationID (meta_get e MetaConversationID) = Some target))"
  using assms by (rule DispatchInbound_brains)

section \<open>Takeover\<close>

lemma dispatch_to_taken_over:
  assumes "KeyFromEnvelope (Some env) = Inr key" and "TakenOver key r" and "dispatch_to de env b i r = (res, r')"
  shows "res = None \<and> ro_brainWorkers r' = ro_brainWorkers r"
proof -
  obtain d r1 where d: "dedup_check (de_now_dedup de) (dedupKey env) r = (d, r1)" by fastforce
  then have fr: "ro_brainWorkers r1 = ro_brainWorkers r" "TakenOver key r1"
    using dedup_check_frame [OF d] assms(2) by (auto simp: TakenOver_def)
  obtain r2 where s: "sessionPreDispatch de env b r1 = (Inl (), r2)"
    using sessionPreDispatch_taken_over [OF assms(1) fr(2)] by blast
  then show ?thesis
    using assms(3) d fr(1) coreD(1) [OF core_sessionPreDispatch [OF s]]
    by (auto simp: dispatch_to_def split: if_splits)
qed


section \<open>Deduplication\<close>

definition window_of :: "Router \<Rightarrow> dedupWindow" where
  "window_of r = (case ro_dedup r of Some w \<Rightarrow> w | None \<Rightarrow> newDedupWindow DedupCapacity DedupTTL)"

lemma dedup_check_seen:
  "key \<noteq> '''' \<Longrightarrow> dedup_check now key r = (fst (seen key now (window_of r)), r\<lparr>ro_dedup := Some (snd (seen key now (window_of r)))\<rparr>)"
  by (simp add: dedup_check_def window_of_def Let_def split: prod.splits)

lemma seen_after_forget: "key \<notin> dw_byKey w \<Longrightarrow> \<not> fst (seen key now w)"
  by (simp add: seen_def Let_def)

lemma forget_byKey [simp]: "key \<notin> dw_byKey (forget key w)"
  by (simp add: forget_def)

lemma dedupForget_check: "\<not> fst (dedup_check now key (dedupForget key r))"
proof (cases "key = ''''")
  case False
  then have "key \<notin> dw_byKey (window_of (dedupForget key r))"
    by (simp add: window_of_def dedupForget_def newDedupWindow_def split: option.splits)
  then show ?thesis using False by (simp add: dedup_check_seen seen_after_forget)
qed (simp add: dedup_check_def)

lemma dispatch_to_failure:
  assumes "dispatch_to de env b i r = (Some err, r')"
  shows "\<not> fst (dedup_check now (dedupKey env) r')"
proof -
  obtain d r1 where d: "dedup_check (de_now_dedup de) (dedupKey env) r = (d, r1)" by fastforce
  with assms have nd: "\<not> d" by (auto simp: dispatch_to_def)
  obtain x r2 where s: "sessionPreDispatch de env b r1 = (x, r2)" by fastforce
  with assms d nd obtain env1 where x: "x = Inr env1" by (cases x) (auto simp: dispatch_to_def)
  then have "r' = dedupForget (dedupKey env) r2"
    using assms d nd s by (cases "de_arm de") (auto simp: dispatch_to_def enqueue_inbound_def)
  then show ?thesis by (simp add: dedupForget_check)
qed

text \<open>
  C39: A delivery the router does not accept can be delivered again. When a dispatch fails, either
  it was refused before anything changed, or the event is no longer in the deduplication window, so
  that the next delivery of the same event is not taken for a duplicate at any later time.
\<close>

theorem failed_dispatch_can_be_retried:
  assumes "DispatchInbound de (Some e) r = (Some err, r')"
  shows "r' = r \<or> (\<forall>now. \<not> fst (dedup_check now (dedupKey e) r'))"
  using assms
proof (cases rule: DispatchInbound_cases)
  case (routed brainName i target j ghost r1)
  then show ?thesis using dispatch_to_failure [OF routed(8)] by blast
qed simp

text \<open>
  A duplicate has no effect but its trace. When the event of a routed message is still in the
  window, the dispatch succeeds, no brain's queue and no session changes, the drop is published as
  \<open>MessageDropped\<close> with \<open>ErrDuplicateEvent\<close> when there is a publisher, and counted when
  there is a counter.
\<close>

theorem duplicate_is_dropped:
  assumes "en_Direction e = Inbound" and "meta_get e MetaConversationID \<noteq> ''''" and "\<not> ro_shutdown r"
    and "routed_brain r (en_Channel e) = Some brainName" and "ro_brains r brainName = Some i"
    and "en_Channel e \<noteq> ro_directBrainChannel r"
    and "fst (dedup_check (de_now_dedup de) (dedupKey e) r)"
    and "DispatchInbound de (Some e) r = (res, r')"
  shows "res = None \<and> ro_brainWorkers r' = ro_brainWorkers r \<and> ro_sessionStore r' = ro_sessionStore r \<and>
    ro_published r' = ro_published r @ (if ro_eventPublisher r
      then [message_event MessageDropped e (en_Channel e) brainName (Some ErrDuplicateEvent)] else []) \<and>
    ro_counted r' = ro_counted r @ (if ro_dedupCounter r then [en_Channel e] else [])"
proof -
  obtain r1 where d: "dedup_check (de_now_dedup de) (dedupKey e) r = (True, r1)"
    using assms(7) by (cases "dedup_check (de_now_dedup de) (dedupKey e) r") auto
  then obtain w where r1: "r1 = r\<lparr>ro_dedup := w\<rparr>" using dedup_check_frame by blast
  have "DispatchInbound de (Some e) r = (None, drop_duplicate e brainName r1)"
    using assms(1-6) d
    by (auto simp: DispatchInbound_def routed_brain_def choose_brain_def dispatch_to_def split: if_splits option.splits)
  then show ?thesis
    using assms(8) by (auto simp: r1 drop_duplicate_def publishEvent_def Let_def)
qed

section \<open>After shutdown\<close>

text \<open>
  A router that was shut down takes nothing in. Every registration, route and dispatch is
  refused and changes nothing, and a reply is not queued.
\<close>

theorem shutdown_refuses:
  assumes "r = snd (Shutdown wait r0)"
  shows "(\<exists>err. RegisterChannel ch r = (Some err, r)) \<and> (\<exists>err. RegisterBrain name brain_nil r = (Some err, r)) \<and>
    Route channel name r = (Some ErrShutdown, r) \<and> (\<exists>err. DispatchInbound de env r = (Some err, r)) \<and>
    (\<exists>err. DispatchOutbound now aerr a env r = (Some err, r)) \<and> sendReply a' reply r = r"
proof -
  have r: "ro_shutdown r" using assms by (simp add: Shutdown_def)
  show ?thesis
    using r
    by (auto simp: RegisterChannel_def RegisterBrain_def Route_def DispatchInbound_def DispatchOutbound_def
        sendReply_def split: option.splits)
qed

section \<open>Reachable routers\<close>

definition channel_names :: "Router \<Rightarrow> string list" where
  "channel_names r = map cw_name (ro_channelWorkers r)"

lemma channel_names_frame [simp]:
  "channel_names (r\<lparr>ro_brainWorkers := x0\<rparr>) = channel_names r" "channel_names (r\<lparr>ro_brains := x1\<rparr>) = channel_names r"
  "channel_names (r\<lparr>ro_routes := x2\<rparr>) = channel_names r" "channel_names (r\<lparr>ro_shutdown := x3\<rparr>) = channel_names r"
  "channel_names (r\<lparr>ro_cancelled := x4\<rparr>) = channel_names r" "channel_names (r\<lparr>ro_takeover := x5\<rparr>) = channel_names r"
  "channel_names (r\<lparr>ro_dedup := x6\<rparr>) = channel_names r" "channel_names (r\<lparr>ro_counted := x7\<rparr>) = channel_names r"
  "channel_names (r\<lparr>ro_queueCapacity := x8\<rparr>) = channel_names r" "channel_names (r\<lparr>ro_enqueueTimeout := x9\<rparr>) = channel_names r"
  "channel_names (r\<lparr>ro_sendTimeout := x10\<rparr>) = channel_names r" "channel_names (r\<lparr>ro_workersPerBrain := x11\<rparr>) = channel_names r"
  "channel_names (r\<lparr>ro_brainHandlerTimeout := x12\<rparr>) = channel_names r" "channel_names (r\<lparr>ro_outboundQueueCapacity := x13\<rparr>) = channel_names r"
  "channel_names (r\<lparr>ro_outboundEnqueueTimeout := x14\<rparr>) = channel_names r" "channel_names (r\<lparr>ro_errorHandler := x15\<rparr>) = channel_names r"
  "channel_names (r\<lparr>ro_eventPublisher := x16\<rparr>) = channel_names r" "channel_names (r\<lparr>ro_toolsChannel := x17\<rparr>) = channel_names r"
  "channel_names (r\<lparr>ro_toolsReport := x18\<rparr>) = channel_names r" "channel_names (r\<lparr>ro_directBrainChannel := x19\<rparr>) = channel_names r"
  "channel_names (r\<lparr>ro_sessionStore := x20\<rparr>) = channel_names r" "channel_names (r\<lparr>ro_sessionPolicy := x21\<rparr>) = channel_names r"
  "channel_names (r\<lparr>ro_dedupCounter := x22\<rparr>) = channel_names r" "channel_names (r\<lparr>ro_notesList := x23\<rparr>) = channel_names r"
  "channel_names (r\<lparr>ro_notesClear := x24\<rparr>) = channel_names r" "channel_names (r\<lparr>ro_channels := x25\<rparr>) = channel_names r"
  by (simp_all add: channel_names_def)

definition router_inv :: "Router \<Rightarrow> bool" where
  "router_inv r \<longleftrightarrow>
     (\<forall>channel b. ro_routes r channel = Some b \<longrightarrow> ro_channels r channel \<noteq> None \<and> ro_brains r b \<noteq> None) \<and>
     (\<forall>name i. ro_brains r name = Some i \<longrightarrow> i < length (ro_brainWorkers r) \<and> bw_name (ro_brainWorkers r ! i) = name) \<and>
     (\<forall>name i. ro_channels r name = Some i \<longrightarrow> i < length (channel_names r) \<and> channel_names r ! i = name) \<and>
     (\<forall>bw\<in>set (ro_brainWorkers r). int (length (bw_queue bw)) \<le> ro_queueCapacity r) \<and>
     (\<forall>w. ro_dedup r = Some w \<longrightarrow> window_inv w \<and> dw_cap w = DedupCapacity) \<and>
     1 \<le> ro_queueCapacity r \<and> ro_cancelled r = ro_shutdown r"

text \<open>The brain worker the dispatch of a message would queue it at.\<close>

definition target_index :: "Envelope \<Rightarrow> Router \<Rightarrow> nat option" where
  "target_index e r =
     (case routed_brain r (en_Channel e) of
        None \<Rightarrow> None
      | Some b \<Rightarrow> (case ro_brains r b of None \<Rightarrow> None | Some i \<Rightarrow> Some (snd (fst (choose_brain e b i r)))))"

inductive router_step :: "Router \<Rightarrow> Router \<Rightarrow> bool" where
  register_channel: "router_step r (snd (RegisterChannel ch r))"
| register_brain: "router_step r (snd (RegisterBrain name brain_nil r))"
| route: "router_step r (snd (Route channel name r))"
| shutdown: "router_step r (snd (Shutdown wait r))"
| take_over: "router_step r (TakeOver key r)"
| release: "router_step r (Release key r)"
| brain_worker: "runBrainWorker i result arms r = Some r' \<Longrightarrow> router_step r r'"
| channel_worker: "runChannelWorker i send_err r = Some r' \<Longrightarrow> router_step r r'"
| dispatch_outbound: "router_step r (snd (DispatchOutbound now append_err a env r))"
| dispatch_inbound:
    "(\<And>j. target_index e r = Some j \<Longrightarrow> in_ready (de_arm de) j r) \<Longrightarrow>
     router_step r (dispatchFromPump de channelName (Some e) r)"

text \<open>The part of the state no dispatch changes.\<close>

definition table :: "Router \<Rightarrow> Router" where
  "table r = core (r\<lparr>ro_dedup := None, ro_brainWorkers := [], ro_counted := []\<rparr>)"

lemma core_table: "core r' = core r \<Longrightarrow> table r' = table r"
proof -
  have "table r = (core r)\<lparr>ro_dedup := None, ro_brainWorkers := [], ro_counted := []\<rparr>" for r
    by (simp add: table_def core_def)
  then show "core r' = core r \<Longrightarrow> table r' = table r" by simp
qed

lemma tableD:
  assumes "table r' = table r"
  shows "ro_brains r' = ro_brains r" "ro_routes r' = ro_routes r" "ro_channels r' = ro_channels r"
    "ro_shutdown r' = ro_shutdown r" "ro_cancelled r' = ro_cancelled r" "ro_queueCapacity r' = ro_queueCapacity r"
    "channel_names r' = channel_names r"
  using coreD [OF assms [unfolded table_def]] by (simp_all add: channel_names_def)

lemma table_updates [simp]:
  "table (r\<lparr>ro_dedup := w\<rparr>) = table r" "table (push_in i env r) = table r"
  "table (r\<lparr>ro_counted := cs\<rparr>) = table r" "table (r\<lparr>ro_brainWorkers := bs\<rparr>) = table r"
  by (simp_all add: table_def push_in_def core_def)

lemma table_dedupForget [simp]: "table (dedupForget key r) = table r"
  by (simp add: dedupForget_def split: option.splits)

lemma table_drop_duplicate [simp]: "table (drop_duplicate env b r) = table r"
  using core_table [OF core_publishEvent] by (simp add: drop_duplicate_def Let_def)

lemma table_dispatch_to:
  assumes "dispatch_to de env b i r = (res, r')"
  shows "table r' = table r"
proof -
  obtain d r1 where d: "dedup_check (de_now_dedup de) (dedupKey env) r = (d, r1)" by fastforce
  then obtain w where r1: "r1 = r\<lparr>ro_dedup := w\<rparr>" using dedup_check_frame by blast
  obtain x r2 where s: "sessionPreDispatch de env b r1 = (x, r2)" by fastforce
  have "table r2 = table r" using core_table [OF core_sessionPreDispatch [OF s]] r1 by simp
  moreover have "table (publishReceived env' b' q) = table q" for env' b' q by (rule core_table) simp
  ultimately show ?thesis
    using assms d r1 s
    by (cases x; cases "de_arm de") (auto simp: dispatch_to_def enqueue_inbound_def split: if_splits)
qed

lemma table_DispatchInbound:
  assumes "DispatchInbound de (Some e) r = (res, r')"
  shows "table r' = table r"
  using assms
proof (cases rule: DispatchInbound_cases)
  case (routed brainName i target j ghost r1)
  have "table r1 = table r" by (rule core_table) (simp add: routed(7))
  then show ?thesis using table_dispatch_to [OF routed(8)] by simp
qed simp

text \<open>The deduplication window stays well formed.\<close>

definition window_ok :: "Router \<Rightarrow> bool" where
  "window_ok r \<longleftrightarrow> (\<forall>w. ro_dedup r = Some w \<longrightarrow> window_inv w \<and> dw_cap w = DedupCapacity)"

lemma window_ok_core: "core r' = core r \<Longrightarrow> window_ok r' = window_ok r"
  using coreD(5) [of r' r] by (simp add: window_ok_def)

lemma seen_cap [simp]: "dw_cap (snd (seen key now w)) = dw_cap w"
  using dedup_cap_ttl(1) [of "Seen key now" w] by (simp add: dedup_step_def)

lemma forget_cap [simp]: "dw_cap (forget key w) = dw_cap w"
  by (simp add: forget_def)

lemma window_of_ok: "window_ok r \<Longrightarrow> window_inv (window_of r) \<and> dw_cap (window_of r) = DedupCapacity"
  using window_inv_new [of DedupCapacity DedupTTL]
  by (auto simp: window_ok_def window_of_def newDedupWindow_def split: option.splits)

lemma window_ok_dedup_check:
  assumes "window_ok r" and "dedup_check now key r = (d, r')"
  shows "window_ok r'"
proof (cases "key = ''''")
  case True
  then show ?thesis using assms by (simp add: dedup_check_def)
next
  case False
  then show ?thesis
    using assms window_of_ok [OF assms(1)] seen_inv [of "window_of r" key now]
    by (auto simp: dedup_check_seen window_ok_def)
qed

lemma window_ok_dedupForget: "window_ok r \<Longrightarrow> window_ok (dedupForget key r)"
  by (auto simp: window_ok_def dedupForget_def intro: forget_inv split: option.splits)

lemma window_ok_dispatch_to:
  assumes "window_ok r" and "dispatch_to de env b i r = (res, r')"
  shows "window_ok r'"
proof -
  obtain d r1 where d: "dedup_check (de_now_dedup de) (dedupKey env) r = (d, r1)" by fastforce
  have ok1: "window_ok r1" using assms(1) d by (rule window_ok_dedup_check)
  obtain x r2 where s: "sessionPreDispatch de env b r1 = (x, r2)" by fastforce
  have ok2: "window_ok r2" using window_ok_core [OF core_sessionPreDispatch [OF s]] ok1 by simp
  have drop: "window_ok (drop_duplicate env b r1)"
    using ok1 by (simp add: window_ok_def drop_duplicate_def publishEvent_def Let_def)
  have "window_ok (publishReceived env' b (push_in i env' r2))" for env'
    using ok2 by (simp add: window_ok_def publishReceived_def publishEvent_def push_in_def)
  then show ?thesis
    using assms(2) d s drop ok2 window_ok_dedupForget [OF ok2]
    by (cases x; cases "de_arm de") (auto simp: dispatch_to_def enqueue_inbound_def split: if_splits)
qed

lemma router_inv_window: "router_inv r \<Longrightarrow> window_ok r"
  by (simp add: router_inv_def window_ok_def)

text \<open>A step that keeps the tables and the brain workers' names, keeps their queues within the
  capacity and the window well formed, keeps the invariant.\<close>

lemma router_inv_table:
  assumes inv: "router_inv r" and tab: "table r' = table r" and win: "window_ok r'"
    and len: "length (ro_brainWorkers r') = length (ro_brainWorkers r)"
    and name: "\<And>i. i < length (ro_brainWorkers r) \<Longrightarrow> bw_name (ro_brainWorkers r' ! i) = bw_name (ro_brainWorkers r ! i)"
    and queue: "\<And>bw. bw \<in> set (ro_brainWorkers r') \<Longrightarrow> int (length (bw_queue bw)) \<le> ro_queueCapacity r"
  shows "router_inv r'"
  using inv win len name queue unfolding router_inv_def window_ok_def tableD [OF tab] by auto

lemma router_inv_core:
  assumes "router_inv r" and "core r' = core r"
  shows "router_inv r'"
proof -
  have "window_ok r'" using window_ok_core [OF assms(2)] router_inv_window [OF assms(1)] by simp
  then show ?thesis
    using assms(1) core_table [OF assms(2)] coreD(1) [OF assms(2)]
    by (intro router_inv_table [OF assms(1)]) (auto simp: router_inv_def)
qed

lemma push_in_bw:
  "ro_brainWorkers (push_in j env r) = (ro_brainWorkers r)[j := (ro_brainWorkers r ! j)\<lparr>bw_queue := bw_queue (ro_brainWorkers r ! j) @ [env]\<rparr>]"
  by (simp add: push_in_def)

lemma router_inv_brain_update:
  assumes inv: "router_inv r" and tab: "table r' = table r" and win: "window_ok r'"
    and bw: "ro_brainWorkers r' = (ro_brainWorkers r)[j := (ro_brainWorkers r ! j)\<lparr>bw_queue := q\<rparr>]"
    and len: "int (length q) \<le> ro_queueCapacity r"
  shows "router_inv r'"
proof (rule router_inv_table [OF inv tab win])
  show "length (ro_brainWorkers r') = length (ro_brainWorkers r)" by (simp add: bw)
  show "bw_name (ro_brainWorkers r' ! i) = bw_name (ro_brainWorkers r ! i)" if "i < length (ro_brainWorkers r)" for i
    using that by (cases "i = j") (simp_all add: bw)
  show "int (length (bw_queue w)) \<le> ro_queueCapacity r" if "w \<in> set (ro_brainWorkers r')" for w
    using that inv len set_update_subset_insert [of "ro_brainWorkers r" j] unfolding bw router_inv_def by fastforce
qed

lemma router_inv_DispatchInbound:
  assumes inv: "router_inv r" and ready: "\<And>j. target_index e r = Some j \<Longrightarrow> in_ready (de_arm de) j r"
    and step: "DispatchInbound de (Some e) r = (res, r')"
  shows "router_inv r'"
  using step
proof (cases rule: DispatchInbound_cases)
  case (refused err)
  then show ?thesis using inv by simp
next
  case (routed brainName i target j ghost r1)
  have core: "core r1 = core r" by (simp add: routed(7))
  have inv1: "router_inv r1" using inv core by (rule router_inv_core)
  have tab: "table r' = table r1" using routed(8) by (rule table_dispatch_to)
  have win: "window_ok r'" using router_inv_window [OF inv1] routed(8) by (rule window_ok_dispatch_to)
  have bw1: "ro_brainWorkers r1 = ro_brainWorkers r" "ro_queueCapacity r1 = ro_queueCapacity r"
    using coreD(1,9) [OF core] by simp_all
  have "target_index e r = Some j" using routed(4-6) by (simp add: target_index_def)
  note rd = ready [OF this]
  from dispatch_to_brains [OF routed(8)] show ?thesis
  proof
    assume "ro_brainWorkers r' = ro_brainWorkers r1"
    then show ?thesis using inv1 by (intro router_inv_table [OF inv1 tab win]) (auto simp: router_inv_def)
  next
    assume "res = None \<and> de_arm de = InSend \<and>
      (\<exists>env1. same_origin env1 e \<and> ro_brainWorkers r' = ro_brainWorkers (push_in j env1 r1))"
    then obtain env1 where "de_arm de = InSend" "ro_brainWorkers r' = ro_brainWorkers (push_in j env1 r1)" by blast
    then show ?thesis
      using router_inv_brain_update [OF inv1 tab win, of j "bw_queue (ro_brainWorkers r1 ! j) @ [env1]"] rd
      by (simp add: push_in_bw in_ready_def bw1)
  qed
qed

lemma router_inv_RegisterBrain: "router_inv r \<Longrightarrow> router_inv (snd (RegisterBrain name n r))"
  by (auto simp: RegisterBrain_def router_inv_def nth_append less_Suc_eq)

lemma router_inv_RegisterChannel: "router_inv r \<Longrightarrow> router_inv (snd (RegisterChannel ch r))"
proof -
  have new: "channel_names (r\<lparr>ro_channelWorkers := ro_channelWorkers r @ [\<lparr>cw_name = name, cw_queue = []\<rparr>]\<rparr>) =
      channel_names r @ [name]" for name
    by (simp add: channel_names_def)
  have "length (ro_channelWorkers r) = length (channel_names r)" by (simp add: channel_names_def)
  then show "router_inv r \<Longrightarrow> router_inv (snd (RegisterChannel ch r))"
    by (auto simp: RegisterChannel_def router_inv_def new nth_append less_Suc_eq split: option.splits)
qed

lemma router_inv_Route: "router_inv r \<Longrightarrow> router_inv (snd (Route channel name r))"
  by (auto simp: Route_def router_inv_def)

lemma router_inv_flags:
  "router_inv r \<Longrightarrow> router_inv (snd (Shutdown wait r))" "router_inv r \<Longrightarrow> router_inv (TakeOver key r)"
  "router_inv r \<Longrightarrow> router_inv (Release key r)"
  by (simp_all add: router_inv_def Shutdown_def TakeOver_def Release_def)

lemma core_handleAndReply [simp]: "core (handleAndReply b result arms env r) = core r"
proof -
  have "core (fold (\<lambda>(a, reply). sendReply a reply) xs r) = core r" for xs
    by (induction xs arbitrary: r) (auto split: prod.splits)
  then show ?thesis by (simp add: handleAndReply_def split: sum.splits)
qed

lemma core_deliver [simp]: "core (deliver err name env r) = core r"
  by (simp add: deliver_def split: option.splits)

lemma router_inv_runBrainWorker:
  assumes inv: "router_inv r" and step: "runBrainWorker i result arms r = Some r'"
  shows "router_inv r'"
proof -
  obtain env rest where i: "i < length (ro_brainWorkers r)" "bw_queue (ro_brainWorkers r ! i) = env # rest"
    and r': "r' = handleAndReply (bw_name (ro_brainWorkers r ! i)) result arms env
      (r\<lparr>ro_brainWorkers := (ro_brainWorkers r)[i := (ro_brainWorkers r ! i)\<lparr>bw_queue := rest\<rparr>]\<rparr>)"
    using step by (auto simp: runBrainWorker_def Let_def split: if_splits list.splits)
  let ?r = "r\<lparr>ro_brainWorkers := (ro_brainWorkers r)[i := (ro_brainWorkers r ! i)\<lparr>bw_queue := rest\<rparr>]\<rparr>"
  have "\<forall>bw\<in>set (ro_brainWorkers r). int (length (bw_queue bw)) \<le> ro_queueCapacity r"
    using inv by (simp add: router_inv_def)
  then have "int (length (bw_queue (ro_brainWorkers r ! i))) \<le> ro_queueCapacity r" using i(1) by simp
  then have "int (length (env # rest)) \<le> ro_queueCapacity r" using i(2) by simp
  then have "router_inv ?r"
    by (intro router_inv_brain_update [OF inv]) (use router_inv_window [OF inv] in \<open>auto simp: window_ok_def\<close>)
  then show ?thesis by (rule router_inv_core) (simp add: r')
qed

lemma core_channel_queue:
  "core (r\<lparr>ro_channelWorkers := (ro_channelWorkers r)[i := (ro_channelWorkers r ! i)\<lparr>cw_queue := q\<rparr>]\<rparr>) = core r"
proof -
  let ?c = "\<lambda>cw :: channelWorker. cw\<lparr>cw_queue := []\<rparr>"
  have "map ?c (cws[i := (cws ! i)\<lparr>cw_queue := q\<rparr>]) = map ?c cws" for cws
    by (cases "i < length cws") (simp_all add: map_update list_update_same_conv list_update_beyond)
  then show ?thesis by (simp add: core_def)
qed

lemma core_runChannelWorker: "runChannelWorker i err r = Some r' \<Longrightarrow> core r' = core r"
  by (auto simp: runChannelWorker_def Let_def core_channel_queue split: if_splits list.splits)

lemma core_DispatchOutbound: "core (snd (DispatchOutbound now err a env r)) = core r"
proof -
  have "core r' = core r" if "persist_operator now err e r = (x, r')" for e x r'
    using that by (auto simp: persist_operator_def Let_def dest: core_store_append
        split: if_splits sum.splits prod.splits option.splits)
  then show ?thesis
    by (auto simp: DispatchOutbound_def split: option.splits prod.splits out_arm.splits arm.splits)
qed

lemma router_step_inv: "router_step r r' \<Longrightarrow> router_inv r \<Longrightarrow> router_inv r'"
proof (induction rule: router_step.induct)
  case (dispatch_inbound e r de channelName)
  obtain res q where d: "DispatchInbound de (Some e) r = (res, q)" by fastforce
  have inv: "router_inv q" by (rule router_inv_DispatchInbound [OF dispatch_inbound(2,1) d])
  show ?case
  proof (cases res)
    case (Some err)
    show ?thesis using inv by (rule router_inv_core) (simp add: dispatchFromPump_def d Some)
  qed (use inv in \<open>simp add: dispatchFromPump_def d\<close>)
next
  case (channel_worker i send_err r r')
  then show ?case using router_inv_core core_runChannelWorker by blast
next
  case (dispatch_outbound r now append_err a env)
  then show ?case using router_inv_core core_DispatchOutbound by blast
qed (auto intro: router_inv_RegisterBrain router_inv_RegisterChannel router_inv_Route router_inv_flags
      router_inv_runBrainWorker)

lemma router_inv_New: "router_inv (router_New opts)"
proof -
  have "router_inv (apply_Option opt r)" if "router_inv r" "ro_brainWorkers r = []" for opt r
    using that by (cases opt) (auto simp: router_inv_def)
  moreover have "ro_brainWorkers (apply_Option opt r) = ro_brainWorkers r" for opt r
    by (cases opt) auto
  ultimately have opts: "router_inv (fold apply_Option opts r)" if "router_inv r" "ro_brainWorkers r = []" for r
    using that by (induction opts arbitrary: r) auto
  show ?thesis unfolding router_New_def
    by (rule opts) (simp_all add: default_Router_def router_inv_def DefaultQueueCapacity_def)
qed

lemma reachable_router_inv: "router_step\<^sup>*\<^sup>* (router_New opts) r \<Longrightarrow> router_inv r"
  by (induction rule: rtranclp_induct) (rule router_inv_New, rule router_step_inv)

lemma dispatch_to_error:
  "dispatch_to de env b i r = (Some err, r') \<Longrightarrow> err = ErrBrainSaturated \<or> de_arm de = InCtx err"
  by (auto simp: dispatch_to_def enqueue_inbound_def Let_def split: if_splits sum.splits prod.splits in_arm.splits)

lemma router_inv_route:
  assumes "router_inv r" and "ro_routes r channel = Some b"
  shows "ro_channels r channel \<noteq> None" and
    "\<exists>i<length (ro_brainWorkers r). ro_brains r b = Some i \<and> bw_name (ro_brainWorkers r ! i) = b"
proof -
  have "ro_channels r channel \<noteq> None \<and> ro_brains r b \<noteq> None"
    using assms unfolding router_inv_def by blast
  then show "ro_channels r channel \<noteq> None" by simp
  from \<open>ro_channels r channel \<noteq> None \<and> ro_brains r b \<noteq> None\<close> obtain i where i: "ro_brains r b = Some i"
    by blast
  then have "i < length (ro_brainWorkers r) \<and> bw_name (ro_brainWorkers r ! i) = b"
    using assms(1) unfolding router_inv_def by blast
  then show "\<exists>i<length (ro_brainWorkers r). ro_brains r b = Some i \<and> bw_name (ro_brainWorkers r ! i) = b"
    using i by blast
qed

lemma DispatchInbound_error:
  assumes inv: "router_inv r" and "DispatchInbound de env r = (Some err, r')"
  shows "err \<in> {ErrNilEnvelope, ErrNotInbound, ErrNoConversationID, ErrShutdown, ErrBrainSaturated,
      Errorf ''%w: %q'' [ErrUnknownChannel], Errorf ''%w: channel %q'' [ErrNoRoute]} \<or> de_arm de = InCtx err"
  using assms
  by (auto simp: DispatchInbound_def Let_def split: option.splits if_splits prod.splits
      dest: dispatch_to_error router_inv_route(2))

text \<open>
  The routing tables of a reachable router are sound. Every route joins a registered channel to
  a registered brain with a worker of that name, so that the only errors of an inbound dispatch are
  a malformed message, an unknown channel, a missing route, a shut down router, a full queue and a
  cancelled context, never an unknown brain; no brain's queue holds more than the configured
  capacity; and the deduplication window holds at most \<open>DedupCapacity\<close> events.
\<close>

theorem router_tables_sound:
  assumes "router_step\<^sup>*\<^sup>* (router_New opts) r"
  shows "(\<forall>channel b. ro_routes r channel = Some b \<longrightarrow> ro_channels r channel \<noteq> None \<and>
       (\<exists>i<length (ro_brainWorkers r). ro_brains r b = Some i \<and> bw_name (ro_brainWorkers r ! i) = b)) \<and>
     (\<forall>de env err r'. DispatchInbound de env r = (Some err, r') \<longrightarrow>
       err \<in> {ErrNilEnvelope, ErrNotInbound, ErrNoConversationID, ErrShutdown, ErrBrainSaturated,
         Errorf ''%w: %q'' [ErrUnknownChannel], Errorf ''%w: channel %q'' [ErrNoRoute]} \<or> de_arm de = InCtx err) \<and>
     (\<forall>bw\<in>set (ro_brainWorkers r). int (length (bw_queue bw)) \<le> ro_queueCapacity r) \<and>
     (\<forall>w. ro_dedup r = Some w \<longrightarrow> int (length (dw_order w)) \<le> DedupCapacity)"
proof -
  have inv: "router_inv r" using assms by (rule reachable_router_inv)
  have "\<forall>w. ro_dedup r = Some w \<longrightarrow> int (length (dw_order w)) \<le> DedupCapacity"
    using inv by (auto simp: router_inv_def window_inv_def DedupCapacity_def)
  moreover have "ro_channels r channel \<noteq> None \<and>
      (\<exists>i<length (ro_brainWorkers r). ro_brains r b = Some i \<and> bw_name (ro_brainWorkers r ! i) = b)"
    if "ro_routes r channel = Some b" for channel b
    using router_inv_route [OF inv that] by blast
  moreover have "\<forall>bw\<in>set (ro_brainWorkers r). int (length (bw_queue bw)) \<le> ro_queueCapacity r"
    using inv by (simp add: router_inv_def)
  ultimately show ?thesis using DispatchInbound_error [OF inv] by blast
qed

section \<open>What a recall imports\<close>

lemma decimal_nat_length: "n < 10 ^ k \<Longrightarrow> 0 < k \<Longrightarrow> length (decimal_nat n) \<le> k"
proof (induction n arbitrary: k rule: decimal_nat.induct)
  case (1 n)
  show ?case
  proof (cases "n < 10")
    case True
    then show ?thesis using 1(3) by (subst decimal_nat.simps) simp
  next
    case False
    then obtain l where k: "k = Suc l" "0 < l" using 1(2,3) by (cases k; cases "k - 1") auto
    then have "n div 10 < 10 ^ l" using 1(2) by (simp add: less_mult_imp_div_less)
    then have "length (decimal_nat (n div 10)) \<le> l" using 1(1) [OF False] k(2) by blast
    then show ?thesis using False k(1) by (subst decimal_nat.simps) simp
  qed
qed

lemma decimal_length:
  assumes "\<bar>x\<bar> < 10 ^ 19"
  shows "length (decimal x) \<le> 20"
proof -
  have "nat \<bar>x\<bar> < 10 ^ 19"
  proof -
    have "nat \<bar>x\<bar> < nat (10 ^ 19)" using assms by (subst nat_less_eq_zless) auto
    then show ?thesis by (simp add: nat_power_eq)
  qed
  then have "length (decimal_nat (nat \<bar>x\<bar>)) \<le> 19" by (rule decimal_nat_length) simp
  then show ?thesis by (auto simp: decimal_def abs_if split: if_splits)
qed

lemma header_runes:
  assumes "\<bar>src\<bar> < 10 ^ 19"
  shows "RuneCountInString (RecallBlockHeaderTruncated src) \<le> RecallBlockRunes"
proof -
  have "length (RecallBlockHeaderTruncated src) \<le> 200"
    using decimal_length [OF assms] by (simp add: RecallBlockHeaderTruncated_def em_dash_def)
  then show ?thesis
    using RuneCountInString_le [of "RecallBlockHeaderTruncated src"] by (simp add: RecallBlockRunes_def)
qed

lemma drop_oldest_lines_suffix: "\<exists>pre. ls = pre @ drop_oldest_lines header ls"
  by (induction ls) (simp, metis append_Cons append_Nil drop_oldest_lines.simps(2))

lemma drop_oldest_lines_fits:
  "RuneCountInString header \<le> RecallBlockRunes \<Longrightarrow>
   RuneCountInString (composeRecallBlock header (drop_oldest_lines header ls)) \<le> RecallBlockRunes"
  by (induction ls) (auto simp: composeRecallBlock_def [of header "[]"])

lemma recall_block_fits:
  assumes "\<bar>src\<bar> < 10 ^ 19" and "recall_block src d = (block, n)"
  shows "RuneCountInString block \<le> RecallBlockRunes" and "n \<le> length d"
proof -
  let ?h = "RecallBlockHeaderTruncated src"
  show "RuneCountInString block \<le> RecallBlockRunes"
    using assms(2) drop_oldest_lines_fits [OF header_runes [OF assms(1)], of "map recall_line d"]
    by (auto simp: recall_block_def Let_def split: if_splits)
  have "length (drop_oldest_lines ?h (map recall_line d)) \<le> length d"
    using drop_oldest_lines_suffix [of "map recall_line d" ?h] by (metis le_add2 length_append length_map)
  then show "n \<le> length d" using assms(2) by (auto simp: recall_block_def Let_def split: if_splits)
qed

lemma sessionStore_frame [simp]:
  "ro_sessionStore (publishEvent ev r) = ro_sessionStore r" "ro_sessionStore (notifyError re r) = ro_sessionStore r"
  "ro_sessionStore (sendReply a env r) = ro_sessionStore r"
  by (simp_all add: publishEvent_def notifyError_def sendReply_def push_out_def split: option.splits arm.splits)

lemma sessionStore_replies [simp]:
  "ro_sessionStore (publishReceived env b r) = ro_sessionStore r" "ro_sessionStore (recallReply de env body r) = ro_sessionStore r"
  "ro_sessionStore (recallError de env err r) = ro_sessionStore r"
  by (simp_all add: publishReceived_def recallReply_def recallError_def session_error_def)

lemma recall_scan_source:
  "recall_scan errs s key n ss = Inr (src, d) \<Longrightarrow> src \<noteq> 0 \<Longrightarrow>
   (\<exists>i\<in>set ss. si_ID i = src) \<and> d = nonSystemTurns (LoadSessionTail key src RecallTailWindow s) \<and> d \<noteq> []"
  by (induction errs s key n ss rule: recall_scan.induct)
    (auto simp: Let_def split: option.splits if_splits)

lemma recall_import_store:
  assumes "ro_sessionStore r = Some s"
  shows "ro_sessionStore (recall_import de key env k s ss r) = Some s \<or>
    (\<exists>src\<in>si_ID ` set (butlast ss).
       ro_sessionStore (recall_import de key env k s ss r) =
         Some (snd (AppendTurns key [new_turn ''user''
           (fst (recall_block src (take_last (nat k) (nonSystemTurns (LoadSessionTail key src RecallTailWindow s)))))
           (de_now_turn de)] s)))"
proof (cases "recall_scan (de_tail_err de) s key RecallScanSessions (rev (butlast ss))")
  case (Inl err)
  then show ?thesis using assms by (simp add: recall_import_def)
next
  case (Inr x)
  obtain src d where x: "x = (src, d)" by fastforce
  show ?thesis
  proof (cases "src = 0")
    case True
    then show ?thesis using assms Inr x by (simp add: recall_import_def)
  next
    case False
    have src: "src \<in> si_ID ` set (butlast ss)" and d: "d = nonSystemTurns (LoadSessionTail key src RecallTailWindow s)"
      using recall_scan_source [OF Inr [unfolded x] False] by auto
    obtain block n where b: "recall_block src (take_last (nat k) d) = (block, n)" by fastforce
    show ?thesis
    proof (cases "de_append_err de")
      case None
      then have "ro_sessionStore (recall_import de key env k s ss r) =
          Some (snd (AppendTurns key [new_turn ''user'' block (de_now_turn de)] s))"
        using Inr x False b by (simp add: recall_import_def)
      then show ?thesis using src b d by (metis fst_conv)
    next
      case (Some err)
      then show ?thesis using assms Inr x False b by (simp add: recall_import_def)
    qed
  qed
qed

lemma maybeHandleRecall_store:
  assumes "maybeHandleRecall de key env brainName s r = (True, r')" and "ro_sessionStore r = Some s"
  shows "ro_sessionStore r' = Some s \<or>
    (ListSessions key s \<noteq> [] \<longrightarrow> \<not> recall_refused s key (last (ListSessions key s))) \<and>
    (\<exists>k. r' = recall_import de key env k s (ListSessions key s) (publishReceived env brainName r))"
proof -
  let ?ss = "ListSessions key s"
  obtain rest where tok: "first_token env = (''/recall'', rest)" "\<not> sp_RecallMax (ro_sessionPolicy r) \<le> 0"
    using assms(1) by (cases "first_token env") (auto simp: maybeHandleRecall_def split: if_splits)
  show ?thesis
  proof (cases "recall_count (sp_RecallMax (ro_sessionPolicy r)) rest")
    case None
    then show ?thesis using assms tok by (simp add: maybeHandleRecall_def) auto
  next
    case (Some k)
    show ?thesis
    proof (cases "de_list_recall_err de = None \<and> (?ss = [] \<or>
        de_tail_err de (si_ID (last ?ss)) = None \<and> \<not> recall_refused s key (last ?ss))")
      case True
      then have "r' = recall_import de key env k s ?ss (publishReceived env brainName r)"
        using assms tok Some by (auto simp: maybeHandleRecall_def Let_def split: if_splits)
      then show ?thesis using True by blast
    next
      case False
      then have "ro_sessionStore r' = Some s"
        using assms tok Some
        by (cases "de_list_recall_err de"; cases "de_tail_err de (si_ID (last ?ss))")
          (auto simp: maybeHandleRecall_def Let_def split: if_splits)
      then show ?thesis by blast
    qed
  qed
qed

text \<open>
  A recall writes one bounded block or nothing. When \<open>/recall\<close> handles a message, the session
  store is unchanged, or the active session held no dialogue and one user turn was appended to it:
  the quoted block of the last \<open>k\<close> turns of dialogue of an archived session, at most
  \<open>RecallBlockRunes\<close> runes long. The brains' queues never change.
\<close>

theorem recall_imports_one_bounded_block:
  assumes "maybeHandleRecall de key env brainName s r = (True, r')" and "ro_sessionStore r = Some s"
    and "\<forall>i\<in>set (ListSessions key s). \<bar>si_ID i\<bar> < 10 ^ 19"
  shows "ro_brainWorkers r' = ro_brainWorkers r \<and>
    (ro_sessionStore r' = Some s \<or>
     (\<exists>src block. src \<in> si_ID ` set (butlast (ListSessions key s)) \<and>
        \<not> recall_refused s key (last (ListSessions key s)) \<and>
        RuneCountInString block \<le> RecallBlockRunes \<and>
        ro_sessionStore r' = Some (snd (AppendTurns key [new_turn ''user'' block (de_now_turn de)] s))))"
proof -
  let ?ss = "ListSessions key s"
  have bw: "ro_brainWorkers r' = ro_brainWorkers r" using coreD(1) core_maybeHandleRecall [OF assms(1)] by blast
  have "ro_sessionStore r' = Some s \<or> (?ss \<noteq> [] \<longrightarrow> \<not> recall_refused s key (last ?ss)) \<and>
      (\<exists>k. r' = recall_import de key env k s ?ss (publishReceived env brainName r))"
    using maybeHandleRecall_store [OF assms(1,2)] .
  then show ?thesis
  proof
    let ?q = "publishReceived env brainName r"
    assume "(?ss \<noteq> [] \<longrightarrow> \<not> recall_refused s key (last ?ss)) \<and> (\<exists>k. r' = recall_import de key env k s ?ss ?q)"
    then obtain k where ok: "?ss \<noteq> [] \<longrightarrow> \<not> recall_refused s key (last ?ss)"
      and q2: "r' = recall_import de key env k s ?ss ?q" by blast
    have q1: "ro_sessionStore ?q = Some s" using assms(2) by simp
    note q = q1 q2
    from recall_import_store [OF q(1), of de key env k ?ss] show ?thesis
    proof
      assume "ro_sessionStore (recall_import de key env k s ?ss ?q) = Some s"
      then show ?thesis using bw q(2) by simp
    next
      let ?d = "\<lambda>src. take_last (nat k) (nonSystemTurns (LoadSessionTail key src RecallTailWindow s))"
      assume "\<exists>src\<in>si_ID ` set (butlast ?ss).
         ro_sessionStore (recall_import de key env k s ?ss ?q) =
         Some (snd (AppendTurns key [new_turn ''user'' (fst (recall_block src (?d src))) (de_now_turn de)] s))"
      then obtain src where src: "src \<in> si_ID ` set (butlast ?ss)"
        and st: "ro_sessionStore r' =
          Some (snd (AppendTurns key [new_turn ''user'' (fst (recall_block src (?d src))) (de_now_turn de)] s))"
        using q(2) by auto
      have "?ss \<noteq> []" "\<bar>src\<bar> < 10 ^ 19" using src assms(3) by (auto dest: in_set_butlastD)
      moreover have "RuneCountInString (fst (recall_block src (?d src))) \<le> RecallBlockRunes"
        using recall_block_fits(1) [OF calculation(2), of "?d src"] by (cases "recall_block src (?d src)") simp
      ultimately show ?thesis using bw ok src st by blast
    qed
  qed (use bw in simp)
qed

end
