(* ===== verification/Dispatch_Samples.thy ===== *)
theory Dispatch_Samples
  imports Dispatch
begin

text \<open>
  A small router on which the properties of the dispatch are run: one channel, one brain, a
  session store, and every optional seam of observation switched on.
\<close>

definition sample_opts :: "Option list" where
  "sample_opts = [WithErrorHandler True, WithEventPublisher True, WithDedupCounter True,
     WithSessionStore (Some NewMemStore), WithDirectBrainChannel ''console'']"

definition sample_router :: Router where
  "sample_router = snd (Route ''telegram'' ''main'' (snd (RegisterBrain ''main'' False
     (snd (RegisterChannel (Some (''telegram'', None)) (router_New sample_opts))))))"

lemma sample_router_fields [simp]:
  "ro_channels sample_router = [''telegram'' \<mapsto> 0]" "ro_brains sample_router = [''main'' \<mapsto> 0]"
  "ro_routes sample_router = [''telegram'' \<mapsto> ''main'']" "ro_shutdown sample_router = False"
  "ro_cancelled sample_router = False" "ro_dedup sample_router = None"
  "ro_brainWorkers sample_router = [\<lparr>bw_name = ''main'', bw_queue = []\<rparr>]"
  "ro_sessionStore sample_router = Some NewMemStore" "ro_takeover sample_router = {}"
  "ro_directBrainChannel sample_router = ''console''" "ro_dedupCounter sample_router = True"
  "ro_errorHandler sample_router = True" "ro_errors sample_router = []" "ro_eventPublisher sample_router = True"
  "ro_notesList sample_router = False" "ro_toolsReport sample_router = False" "ro_published sample_router = []"
  "ro_counted sample_router = []"
  "ro_sessionPolicy sample_router = \<lparr>sp_Triggers = [], sp_Daily = False, sp_DailyHour = 0, sp_DailyMin = 0,
     sp_IdleMin = 0, sp_RecallMax = 0\<rparr>"
  by (simp_all add: sample_router_def Route_def RegisterBrain_def RegisterChannel_def router_New_def
      sample_opts_def default_Router_def)

definition sample_de :: dispatch_env where
  "sample_de = \<lparr>de_now_fallback = 10, de_now_dedup = 10, de_now_expire = 10, de_now_turn = 10,
     de_date = (\<lambda>t h m. t), de_day_before = (\<lambda>t. t), de_quote = (\<lambda>s. s), de_list_expire_err = None,
     de_new_expire_err = None, de_new_trigger_err = None, de_list_recall_err = None, de_tail_err = (\<lambda>_. None),
     de_append_err = None, de_notesList = (\<lambda>_ _. (([], False), None)), de_notesClear = (\<lambda>_ _. (False, None)),
     de_toolsReport = (\<lambda>_. ''''), de_fallback_id = (''f'', 1), de_reply_id = (''a'', 1),
     de_fallback_arm = ArmSend, de_reply_arm = ArmSend, de_arm = InSend\<rparr>"

definition sample_inbound :: "string \<Rightarrow> Envelope" where
  "sample_inbound body = (AddText body (New ''0-1'' 1 ''telegram'' Inbound \<lparr>pp_ID = ''7'', pp_Name = ''Ada''\<rparr>))
     \<lparr>en_Meta := [MetaConversationID \<mapsto> ''42'', MetaProviderEventID \<mapsto> ''e1'']\<rparr>"

lemma sample_inbound_fields [simp]:
  "en_Channel (sample_inbound body) = ''telegram''" "en_Direction (sample_inbound body) = Inbound"
  "meta_get (sample_inbound body) MetaConversationID = ''42''"
  "meta_get (sample_inbound body) MetaProviderEventID = ''e1''"
  "en_Parts (sample_inbound body) = [content_part Text body]"
  by (simp_all add: sample_inbound_def AddText_def add_part_def New_def meta_get_def MetaConversationID_def
      MetaProviderEventID_def)

lemma sample_key [simp]: "KeyFromEnvelope (Some (sample_inbound body)) = Inr ''telegram::42''"
  by (simp add: KeyFromEnvelope_def)

lemma sample_dedupKey [simp]: "dedupKey (sample_inbound body) = ''telegram'' @ [CHR 0x00] @ ''e1''"
  by (simp add: dedupKey_def)

text \<open>The session pipeline of this router lets a message pass unless its conversation is taken
  over.\<close>

lemma sample_pipeline:
  assumes "ro_sessionPolicy r = ro_sessionPolicy sample_router" and "ro_notesList r = False"
    and "ro_toolsReport r = False"
  shows "sessionPreDispatch de (sample_inbound body) b r =
    (if ''telegram::42'' \<in> ro_takeover r
     then (Inl (), takeover_gate de ''telegram::42'' (sample_inbound body) b r) else (Inr (sample_inbound body), r))"
proof -
  have "store_commands de ''telegram::42'' (sample_inbound body) b r = (Inr (sample_inbound body), r)"
    using assms(1)
    by (cases "ro_sessionStore r")
      (simp_all add: store_commands_def maybeExpireSession_def maybeHandleTrigger_def maybeHandleRecall_def)
  then show ?thesis
    using assms by (simp add: sessionPreDispatch_def maybeHandleNotes_def maybeHandleToolsCommand_def TakenOver_def)
qed

abbreviation sample_run :: "dispatch_env \<Rightarrow> Router \<Rightarrow> go_error option \<times> Router" where
  "sample_run de r \<equiv> DispatchInbound de (Some (sample_inbound ''hello'')) r"

lemma sample_run_to:
  assumes "ro_shutdown r = False" and "ro_channels r ''telegram'' \<noteq> None" and "ro_routes r ''telegram'' = Some ''main''"
    and "ro_brains r ''main'' = Some 0" and "ro_directBrainChannel r = ''console''"
  shows "sample_run de r = dispatch_to de (sample_inbound ''hello'') ''main'' 0 r"
  using assms by (auto simp: DispatchInbound_def choose_brain_def)

definition after_first :: Router where
  "after_first = publishReceived (sample_inbound ''hello'') ''main'' (push_in 0 (sample_inbound ''hello'')
     (sample_router\<lparr>ro_dedup := Some (snd (seen (''telegram'' @ [CHR 0x00] @ ''e1'') 10
       (newDedupWindow DedupCapacity DedupTTL)))\<rparr>))"

lemma fresh_window [simp]:
  "seen key now (newDedupWindow c t) = (False, (newDedupWindow c t)\<lparr>dw_order := [(key, now)], dw_byKey := {key}\<rparr>)"
  by (simp add: seen_def newDedupWindow_def evict_oldest_def)

lemma first_check:
  "dedup_check now (''telegram'' @ [CHR 0x00] @ ''e1'') sample_router =
     (False, sample_router\<lparr>ro_dedup := Some ((newDedupWindow DedupCapacity DedupTTL)
       \<lparr>dw_order := [(''telegram'' @ [CHR 0x00] @ ''e1'', now)], dw_byKey := {''telegram'' @ [CHR 0x00] @ ''e1''}\<rparr>)\<rparr>)"
  by (simp add: dedup_check_def)

lemma first_run: "sample_run sample_de sample_router = (None, after_first)"
  by (simp add: sample_run_to dispatch_to_def Let_def first_check [simplified] sample_pipeline enqueue_inbound_def
      after_first_def sample_de_def)

theorem inbound_reaches_only_its_brain_witness:
  "ro_brainWorkers after_first \<noteq> ro_brainWorkers sample_router \<and>
   (\<exists>target j env1. ro_brains sample_router target = Some j \<and> same_origin env1 (sample_inbound ''hello'') \<and>
     ro_brainWorkers after_first = ro_brainWorkers (push_in j env1 sample_router))"
proof -
  have "ro_brainWorkers after_first \<noteq> ro_brainWorkers sample_router"
    by (simp add: after_first_def publishReceived_def publishEvent_def push_in_def)
  then show ?thesis using inbound_reaches_only_its_brain [OF first_run] by blast
qed


text \<open>Under a takeover a store failure loses the message: it is neither recorded nor handed to a
  brain, although the comment of \<open>ErrKindSession\<close> promises that it continues to the brain.\<close>

lemma transcript_hello: "TranscriptText [content_part Text ''hello''] = ''hello''"
  by code_simp

lemma takeover_store_failure_loses_message:
  "let (res, r') = sample_run (sample_de\<lparr>de_append_err := Some (ErrorString ''disk full'')\<rparr>)
         (TakeOver ''telegram::42'' sample_router)
   in res = None \<and> ro_brainWorkers r' = ro_brainWorkers sample_router \<and>
      ro_sessionStore r' = ro_sessionStore sample_router \<and> map re_Kind (ro_errors r') = [ErrKindSession]"
  by (simp add: sample_run_to TakeOver_def dispatch_to_def Let_def dedup_check_def sample_pipeline takeover_gate_def
      transcript_hello store_append_def session_error_def notifyError_def publishReceived_def publishEvent_def
      sample_de_def)

theorem failed_dispatch_can_be_retried_witness:
  "fst (sample_run (sample_de\<lparr>de_arm := InTimer\<rparr>) sample_router) = Some ErrBrainSaturated \<and>
   \<not> fst (dedup_check 11 (dedupKey (sample_inbound ''hello''))
      (snd (sample_run (sample_de\<lparr>de_arm := InTimer\<rparr>) sample_router)))"
proof -
  let ?p = "sample_run (sample_de\<lparr>de_arm := InTimer\<rparr>) sample_router"
  have run: "fst ?p = Some ErrBrainSaturated" "ro_dedup (snd ?p) \<noteq> None"
    by (simp_all add: sample_run_to dispatch_to_def Let_def first_check [simplified] sample_pipeline enqueue_inbound_def
        dedupForget_def sample_de_def)
  then have p: "?p = (Some ErrBrainSaturated, snd ?p)" by (metis prod.collapse)
  have "snd ?p \<noteq> sample_router" using run(2) by auto
  then show ?thesis using failed_dispatch_can_be_retried [OF p] run(1) by blast
qed

lemma after_first_fields [simp]:
  "ro_channels after_first = [''telegram'' \<mapsto> 0]" "ro_brains after_first = [''main'' \<mapsto> 0]"
  "ro_routes after_first = [''telegram'' \<mapsto> ''main'']" "ro_shutdown after_first = False"
  "ro_directBrainChannel after_first = ''console''" "ro_dedupCounter after_first = True"
  "ro_counted after_first = []" "ro_dedup after_first = Some ((newDedupWindow DedupCapacity DedupTTL)
     \<lparr>dw_order := [(''telegram'' @ [CHR 0x00] @ ''e1'', 10)], dw_byKey := {''telegram'' @ [CHR 0x00] @ ''e1''}\<rparr>)"
  by (simp_all add: after_first_def publishReceived_def publishEvent_def push_in_def)

theorem duplicate_is_dropped_witness:
  "ro_brainWorkers (snd (sample_run sample_de after_first)) = ro_brainWorkers after_first \<and>
   ro_counted (snd (sample_run sample_de after_first)) = [''telegram'']"
proof -
  have dup: "fst (dedup_check (de_now_dedup sample_de) (dedupKey (sample_inbound ''hello'')) after_first)"
    by (simp add: dedup_check_def seen_def sample_de_def newDedupWindow_def DedupTTL_def)
  have "ro_brainWorkers (snd (sample_run sample_de after_first)) = ro_brainWorkers after_first \<and>
      ro_counted (snd (sample_run sample_de after_first)) =
        ro_counted after_first @ (if ro_dedupCounter after_first then [en_Channel (sample_inbound ''hello'')] else [])"
    using duplicate_is_dropped [of "sample_inbound ''hello''" after_first "''main''" 0 sample_de,
        OF _ _ _ _ _ _ dup prod.collapse [symmetric]]
    by (simp add: routed_brain_def)
  then show ?thesis by simp
qed

theorem shutdown_refuses_witness:
  "Route ''telegram'' ''main'' (snd (Shutdown None sample_router)) = (Some ErrShutdown, snd (Shutdown None sample_router))"
  using shutdown_refuses [OF refl, where wait = None and ?r0.0 = sample_router] by blast

lemma sample_router_reachable: "router_step\<^sup>*\<^sup>* (router_New sample_opts) sample_router"
proof -
  let ?a = "router_New sample_opts"
  let ?b = "snd (RegisterChannel (Some (''telegram'', None)) ?a)"
  let ?c = "snd (RegisterBrain ''main'' False ?b)"
  have ab: "router_step ?a ?b" by (rule register_channel)
  have bc: "router_step ?b ?c" by (rule register_brain)
  have cd: "router_step ?c sample_router" unfolding sample_router_def by (rule route)
  show ?thesis
    by (rule converse_rtranclp_into_rtranclp [where r = router_step, OF ab],
        rule converse_rtranclp_into_rtranclp [where r = router_step, OF bc],
        rule r_into_rtranclp [where r = router_step, OF cd])
qed

theorem router_tables_sound_witness:
  "ro_routes sample_router ''telegram'' = Some ''main'' \<and> ro_channels sample_router ''telegram'' \<noteq> None"
  using router_tables_sound [OF sample_router_reachable] by simp

text \<open>A conversation with one archived session, and a message that asks to recall it.\<close>

definition recall_store :: MemStore where
  "recall_store = snd (NewSession ''telegram::42'' (snd (Append ''telegram::42'' (sample_turn ''first'') NewMemStore)))"

definition recall_router :: Router where
  "recall_router = sample_router\<lparr>ro_sessionStore := Some recall_store,
     ro_sessionPolicy := (ro_sessionPolicy sample_router)\<lparr>sp_RecallMax := 5\<rparr>\<rparr>"

lemma recall_sessions:
  "ListSessions ''telegram::42'' recall_store =
     [\<lparr>si_ID = 1, si_TurnCount = 1, si_First = 5, si_Last = 5\<rparr>, \<lparr>si_ID = 2, si_TurnCount = 0, si_First = 0, si_Last = 0\<rparr>]"
  by code_simp

lemma recall_token: "first_token (sample_inbound ''/recall'') = (''/recall'', '''')"
  by code_simp

lemma recall_not_refused: "\<not> recall_refused recall_store ''telegram::42'' (last (ListSessions ''telegram::42'' recall_store))"
  by code_simp

lemma recall_found:
  "recall_scan (\<lambda>_. None) recall_store ''telegram::42'' RecallScanSessions
     [\<lparr>si_ID = 1, si_TurnCount = 1, si_First = 5, si_Last = 5\<rparr>] = Inr (1, [sample_turn ''first''])"
  by code_simp

theorem recall_imports_one_bounded_block_witness:
  "let p = maybeHandleRecall sample_de ''telegram::42'' (sample_inbound ''/recall'') ''main'' recall_store recall_router
   in fst p \<and> ro_sessionStore (snd p) \<noteq> None \<and> ro_brainWorkers (snd p) = ro_brainWorkers recall_router"
proof -
  let ?p = "maybeHandleRecall sample_de ''telegram::42'' (sample_inbound ''/recall'') ''main'' recall_store recall_router"
  have "fst ?p"
    using recall_not_refused
    by (simp add: maybeHandleRecall_def recall_router_def recall_token recall_count_def sample_de_def recall_sessions Let_def)
  then have h: "?p = (True, snd ?p)" by (metis prod.collapse)
  have ids: "\<forall>i\<in>set (ListSessions ''telegram::42'' recall_store). \<bar>si_ID i\<bar> < 10 ^ 19"
    by (simp add: recall_sessions)
  have "ro_sessionStore recall_router = Some recall_store" by (simp add: recall_router_def)
  from recall_imports_one_bounded_block [OF h this ids] \<open>fst ?p\<close> show ?thesis by auto
qed

end
