(* ===== verification/Identity.thy ===== *)
theory Identity
  imports Authority Go_Text
begin

text \<open>
  Identity: the canonical action and its digest (\<open>internal/action/action.go\<close>), the principals
  and the provenance registry of the kernel (\<open>internal/action/identity.go\<close>), and the resolver
  that turns an authenticated ingress into the identity evidence of one action
  (\<open>internal/identity/identity.go\<close>).

  SHA-256 in hexadecimal and the decoding and re-encoding of one JSON value are the record
  \<open>codec\<close>: \<open>cd_normalize\<close> is the \<open>json.Marshal\<close> form of the value a text holds, and
  \<open>None\<close> when the text is not one JSON value; \<open>cd_quote\<close> is \<open>strconv.Quote\<close>, whose
  escapes follow the Unicode tables; \<open>cd_ed25519_Verify\<close> verifies a signature under a public
  key; \<open>cd_parse_evidence\<close> and \<open>cd_parse_event\<close> are the strict JSON decoder at the two
  types of a signed statement, \<open>None\<close> where it refuses. The encoding of a JSON string, which the claims of
  an evidence use, is defined. Fresh identifiers and clock readings are arguments. A pointer that is
  only compared is a number.
\<close>

section \<open>Identity statements\<close>

datatype PrincipalKind = PrincipalHuman | PrincipalAgent | PrincipalWorkload
  | PrincipalExternalSystem | PrincipalKindOther string

datatype BindingStatus = BindingActive | BindingRevoked | BindingStatusOther string

record id_Principal =
  ip_ID :: string
  ip_Kind :: PrincipalKind
  ip_DisplayName :: string
  ip_CreatedAt :: time
  ip_DisabledAt :: time
  ip_Revision :: int

record Evidence =
  ev_EvidenceID :: string
  ev_ActionID :: string
  ev_RequestID :: string
  ev_RequesterPrincipalID :: string
  ev_ActorPrincipalID :: string
  ev_ResponsiblePrincipalID :: string
  ev_BindingID :: string
  ev_BindingGeneration :: int
  ev_AdapterInstanceID :: string
  ev_Provider :: string
  ev_Method :: string
  ev_CredentialClass :: string
  ev_Issuer :: string
  ev_SubjectNamespace :: string
  ev_VerifiedSubject :: string
  ev_SubjectClaim :: string
  ev_ObservedAt :: time
  ev_ExpiresAt :: time
  ev_ClaimsDigest :: string

record PrincipalEvent =
  pe_EventID :: string
  pe_Principal :: id_Principal
  pe_Revision :: int
  pe_Kind :: string
  pe_OccurredAt :: time

section \<open>Encoding\<close>

record codec =
  cd_sha256 :: "string \<Rightarrow> string"
  cd_normalize :: "string \<Rightarrow> string option"
  cd_quote :: "string \<Rightarrow> string"
  cd_ed25519_Verify :: "string \<Rightarrow> string \<Rightarrow> string \<Rightarrow> bool"
  cd_parse_evidence :: "string \<Rightarrow> Evidence option"
  cd_parse_event :: "string \<Rightarrow> PrincipalEvent option"

definition hex_digit :: "nat \<Rightarrow> char" where
  "hex_digit n = (if n < 10 then char_of (48 + n) else char_of (87 + n))"

text \<open>A byte below 128 as \<open>encoding/json\<close> writes it inside a string.\<close>

definition json_ascii :: "nat \<Rightarrow> string" where
  "json_ascii b =
     (if b = 34 \<or> b = 92 then [byte 92, char_of b]
      else if b = 8 then [byte 92, CHR ''b''] else if b = 12 then [byte 92, CHR ''f'']
      else if b = 10 then [byte 92, CHR ''n''] else if b = 13 then [byte 92, CHR ''r'']
      else if b = 9 then [byte 92, CHR ''t'']
      else if b < 32 \<or> b = 60 \<or> b = 62 \<or> b = 38
        then [byte 92] @ ''u00'' @ [hex_digit (b div 16), hex_digit (b mod 16)]
      else [char_of b])"

function json_escape :: "nat list \<Rightarrow> string" where
  "json_escape bs =
     (case bs of [] \<Rightarrow> ''''
      | b # r \<Rightarrow>
          if b < 128 then json_ascii b @ json_escape r
          else if rune_width bs = 1 then [byte 92] @ ''ufffd'' @ json_escape r
          else (if take 3 bs = [226, 128, 168] then [byte 92] @ ''u2028''
                else if take 3 bs = [226, 128, 169] then [byte 92] @ ''u2029''
                else map byte (take (rune_width bs) bs)) @ json_escape (drop (rune_width bs) bs))"
  by auto
termination
  by (relation "measure length") (auto simp: rune_width_pos)

declare json_escape.simps [simp del]

definition json_string :: "string \<Rightarrow> string" where
  "json_string s = ''\"'' @ json_escape (map of_char s) @ ''\"''"

section \<open>The canonical action\<close>

record Source =
  so_Kind :: string
  so_Protocol :: string
  so_Channel :: string

record action_Operation =
  ao_Namespace :: string
  ao_Name :: string
  ao_Version :: int

record PrincipalRef =
  pf_PrincipalID :: string
  pf_EvidenceID :: string
  pf_ResponsibleHumanID :: string

definition no_principal :: PrincipalRef where
  "no_principal = \<lparr>pf_PrincipalID = '''', pf_EvidenceID = '''', pf_ResponsibleHumanID = ''''\<rparr>"

record action_Envelope =
  ac_SchemaVersion :: int
  ac_ActionID :: string
  ac_CorrelationID :: string
  ac_Source :: Source
  ac_Operation :: action_Operation
  ac_ParametersDigest :: string
  ac_Effect :: EffectClass
  ac_RequestedAt :: time
  ac_Principal :: PrincipalRef
  ac_IntentID :: string
  ac_AuthorityRefs :: "string list"

definition unclassified :: EffectClass where "unclassified = EffectOther ''unclassified''"

definition CanonicalParams :: "codec \<Rightarrow> string \<Rightarrow> string" where
  "CanonicalParams cd raw = (case cd_normalize cd raw of None \<Rightarrow> raw | Some out \<Rightarrow> out)"

text \<open>The bytes \<open>Digest\<close> feeds to SHA-256: each part after its length and a colon.\<close>

definition digest_part :: "string \<Rightarrow> string" where
  "digest_part b = decimal (int (length b)) @ '':'' @ b"

definition digest_input :: "codec \<Rightarrow> action_Operation \<Rightarrow> string \<Rightarrow> string" where
  "digest_input cd op rawArgs = digest_part (ao_Namespace op) @ digest_part (ao_Name op) @
     digest_part (decimal (ao_Version op)) @ digest_part (CanonicalParams cd rawArgs)"

definition Digest :: "codec \<Rightarrow> action_Operation \<Rightarrow> string \<Rightarrow> string" where
  "Digest cd op rawArgs = ''sha256:'' @ cd_sha256 cd (digest_input cd op rawArgs)"

definition HashCanonical :: "codec \<Rightarrow> string \<Rightarrow> string" where
  "HashCanonical cd raw = ''sha256:'' @ cd_sha256 cd (CanonicalParams cd raw)"

definition NewEnvelope ::
    "codec \<Rightarrow> string \<Rightarrow> string \<Rightarrow> Source \<Rightarrow> action_Operation \<Rightarrow> string \<Rightarrow> time \<Rightarrow> action_Envelope" where
  "NewEnvelope cd actionID correlationID src op rawArgs at =
     \<lparr>ac_SchemaVersion = 1, ac_ActionID = actionID, ac_CorrelationID = correlationID, ac_Source = src,
      ac_Operation = op, ac_ParametersDigest = Digest cd op rawArgs, ac_Effect = unclassified,
      ac_RequestedAt = at, ac_Principal = no_principal, ac_IntentID = '''', ac_AuthorityRefs = []\<rparr>"

section \<open>Principals and provenance of the kernel\<close>

datatype CredentialType = CredentialBotTokenSession | CredentialInboundBearer
  | CredentialGatewaySession | CredentialLoopbackInProcess | CredentialOther string

record IdentityEvidence =
  ie_EvidenceID :: string
  ie_Provider :: string
  ie_Subject :: string
  ie_Credential :: CredentialType
  ie_IssuedAt :: time
  ie_TransportBinding :: string
  ie_ClaimsDigest :: string

record Provenance =
  pv_Class :: string
  pv_Credential :: CredentialType

definition ErrUnknownProvenance :: go_error where
  "ErrUnknownProvenance = Sentinel ''action: unknown provenance''"

definition operatorPrincipalID :: string where "operatorPrincipalID = ''principal_operator''"
definition classConsole :: string where "classConsole = ''console''"

definition bare_principal :: "string \<Rightarrow> PrincipalType \<Rightarrow> string \<Rightarrow> Principal" where
  "bare_principal pid typ human = \<lparr>pr_PrincipalID = pid, pr_Type = typ, pr_DisplayName = '''',
     pr_ResponsibleHumanID = human, pr_CreatedAt = 0, pr_DisabledAt = 0\<rparr>"

definition OperatorPrincipal :: Principal where
  "OperatorPrincipal = bare_principal operatorPrincipalID PrincipalOperatorHuman ''''"

definition BrainPrincipal :: "string \<Rightarrow> Principal" where
  "BrainPrincipal name = bare_principal (''principal_brain_'' @ name) PrincipalAgentBrain operatorPrincipalID"

text \<open>\<open>ResolvePrincipal\<close>. The claims are a map with string keys, which \<open>json.Marshal\<close>
  writes in the order of its keys and cannot refuse; \<open>fresh\<close> is the new evidence id.\<close>

definition provenance_claims :: "string \<Rightarrow> string \<Rightarrow> string \<Rightarrow> string" where
  "provenance_claims channelName class senderID =
     ''{'' @ json_string ''channel'' @ '':'' @ json_string channelName @ '','' @
     json_string ''class'' @ '':'' @ json_string class @ '','' @
     json_string ''subject'' @ '':'' @ json_string senderID @ ''}''"

definition ResolvePrincipal ::
    "codec \<Rightarrow> (string \<rightharpoonup> Provenance) \<Rightarrow> string \<Rightarrow> string \<Rightarrow> time \<Rightarrow> string \<Rightarrow>
     go_error + Principal \<times> IdentityEvidence" where
  "ResolvePrincipal cd reg channelName senderID at fresh =
     (case reg channelName of
        None \<Rightarrow> Inl (Errorf ''%w: channel %q'' [ErrUnknownProvenance])
      | Some provenance \<Rightarrow>
          Inr (if pv_Class provenance \<noteq> classConsole
               then bare_principal (''principal_ch_'' @ channelName) PrincipalChannelPeer ''''
               else OperatorPrincipal,
               \<lparr>ie_EvidenceID = fresh, ie_Provider = pv_Class provenance, ie_Subject = senderID,
                ie_Credential = pv_Credential provenance, ie_IssuedAt = at,
                ie_TransportBinding = channelName,
                ie_ClaimsDigest =
                  HashCanonical cd (provenance_claims channelName (pv_Class provenance) senderID)\<rparr>))"

section \<open>The resolver\<close>

definition ErrIdentityEvidenceMissing :: go_error where
  "ErrIdentityEvidenceMissing = Sentinel ''identity: authenticated ingress missing''"
definition ErrIdentityEvidenceExpired :: go_error where
  "ErrIdentityEvidenceExpired = Sentinel ''identity: authenticated ingress expired''"
definition ErrIdentityBindingMismatch :: go_error where
  "ErrIdentityBindingMismatch = Sentinel ''identity: ingress binding mismatch''"
definition ErrPrincipalDisabled :: go_error where
  "ErrPrincipalDisabled = Sentinel ''identity: principal disabled''"

record Binding =
  bi_ID :: string
  bi_Provider :: string
  bi_Channel :: string
  bi_CredentialRef :: string
  bi_SubjectNamespace :: string
  bi_VerifiedSubject :: string
  bi_PrincipalID :: string
  bi_Generation :: int
  bi_Status :: BindingStatus

record Workload =
  wl_Brain :: string
  wl_PrincipalID :: string
  wl_ResponsiblePrincipalID :: string

record Registry =
  rg_Principals :: "id_Principal list"
  rg_Bindings :: "Binding list"
  rg_Workloads :: "Workload list"

record IssuerConfig =
  ic_BindingID :: string
  ic_Method :: string
  ic_CredentialClass :: string
  ic_TTL :: duration

text \<open>A seal is allocated once and never changed: \<open>se_ptr\<close> is its address, unique within its
  resolver, so comparing two seals is comparing the pointers of the source.\<close>

record ingressSeal =
  se_ptr :: nat
  se_resolver :: nat
  se_binding :: string
  se_instance :: string

record AuthenticatedIngress =
  ai_seal :: "ingressSeal option"
  ai_requestID :: string
  ai_subjectClaim :: string
  ai_observedAt :: time
  ai_expiresAt :: time
  ai_method :: string
  ai_credential :: string

record Issuer =
  is_seal :: "ingressSeal option"
  is_binding :: Binding
  is_method :: string
  is_credential :: string
  is_ttl :: duration
  is_issued :: "64 word"

record Resolver =
  rs_self :: nat
  rs_principals :: "string \<rightharpoonup> id_Principal"
  rs_bindings :: "string \<rightharpoonup> Binding"
  rs_workloads :: "string \<rightharpoonup> Workload"
  rs_issuers :: "string \<rightharpoonup> ingressSeal"
  rs_seals :: nat

record ResolveRequest =
  rr_ActionID :: string
  rr_RequestID :: string
  rr_Channel :: string
  rr_Brain :: string

definition validPrincipalKind :: "PrincipalKind \<Rightarrow> bool" where
  "validPrincipalKind k \<longleftrightarrow> k \<in> {PrincipalHuman, PrincipalAgent, PrincipalWorkload, PrincipalExternalSystem}"

text \<open>The three loops of \<open>NewResolver\<close>, in its order, each refusing at its first bad entry.\<close>

fun add_principals ::
    "id_Principal list \<Rightarrow> (string \<rightharpoonup> id_Principal) \<Rightarrow> go_error + (string \<rightharpoonup> id_Principal)" where
  "add_principals [] m = Inr m"
| "add_principals (p # ps) m =
     (if ip_ID p = '''' \<or> \<not> validPrincipalKind (ip_Kind p) then Inl (ErrorString ''identity: invalid principal'')
      else if m (ip_ID p) \<noteq> None then Inl (ErrorString ''identity: duplicate principal'')
      else add_principals ps (m(ip_ID p \<mapsto> p)))"

definition binding_ok :: "Binding \<Rightarrow> bool" where
  "binding_ok b \<longleftrightarrow> \<not> (bi_ID b = '''' \<or> bi_Provider b = '''' \<or> bi_Channel b = '''' \<or> bi_CredentialRef b = '''' \<or>
     bi_SubjectNamespace b = '''' \<or> bi_VerifiedSubject b = '''' \<or> bi_Generation b \<le> 0 \<or>
     (bi_Status b \<noteq> BindingActive \<and> bi_Status b \<noteq> BindingRevoked))"

fun add_bindings ::
    "(string \<rightharpoonup> id_Principal) \<Rightarrow> Binding list \<Rightarrow> (string \<rightharpoonup> Binding) \<Rightarrow> go_error + (string \<rightharpoonup> Binding)" where
  "add_bindings ps [] m = Inr m"
| "add_bindings ps (b # bs) m =
     (if \<not> binding_ok b then Inl (ErrorString ''identity: invalid binding'')
      else if ps (bi_PrincipalID b) = None
        then Inl (ErrorString ''identity: binding references unknown principal'')
      else if m (bi_ID b) \<noteq> None then Inl (ErrorString ''identity: duplicate binding'')
      else add_bindings ps bs (m(bi_ID b \<mapsto> b)))"

definition workload_actor :: "(string \<rightharpoonup> id_Principal) \<Rightarrow> Workload \<Rightarrow> bool" where
  "workload_actor ps w \<longleftrightarrow> wl_Brain w \<noteq> '''' \<and>
     (case ps (wl_PrincipalID w) of None \<Rightarrow> False | Some actor \<Rightarrow> ip_Kind actor = PrincipalWorkload)"

fun add_workloads ::
    "(string \<rightharpoonup> id_Principal) \<Rightarrow> Workload list \<Rightarrow> (string \<rightharpoonup> Workload) \<Rightarrow> go_error + (string \<rightharpoonup> Workload)" where
  "add_workloads ps [] m = Inr m"
| "add_workloads ps (w # ws) m =
     (if \<not> workload_actor ps w then Inl (ErrorString ''identity: invalid workload'')
      else if wl_ResponsiblePrincipalID w \<noteq> '''' \<and> ps (wl_ResponsiblePrincipalID w) = None
        then Inl (ErrorString ''identity: workload references unknown responsible principal'')
      else if m (wl_Brain w) \<noteq> None then Inl (ErrorString ''identity: duplicate workload'')
      else add_workloads ps ws (m(wl_Brain w \<mapsto> w)))"

definition NewResolver :: "nat \<Rightarrow> Registry \<Rightarrow> go_error + Resolver" where
  "NewResolver self reg =
     (case add_principals (rg_Principals reg) Map.empty of
        Inl e \<Rightarrow> Inl e
      | Inr ps \<Rightarrow>
          (case add_bindings ps (rg_Bindings reg) Map.empty of
             Inl e \<Rightarrow> Inl e
           | Inr bs \<Rightarrow>
               (case add_workloads ps (rg_Workloads reg) Map.empty of
                  Inl e \<Rightarrow> Inl e
                | Inr ws \<Rightarrow> Inr \<lparr>rs_self = self, rs_principals = ps, rs_bindings = bs, rs_workloads = ws,
                                 rs_issuers = Map.empty, rs_seals = 0\<rparr>)))"

definition NewIssuer :: "IssuerConfig \<Rightarrow> string \<Rightarrow> Resolver \<Rightarrow> (go_error + Issuer) \<times> Resolver" where
  "NewIssuer cfg fresh r =
     (case rs_bindings r (ic_BindingID cfg) of
        None \<Rightarrow> (Inl (Errorf ''%w: issuer configuration'' [ErrIdentityBindingMismatch]), r)
      | Some b \<Rightarrow>
          if ic_Method cfg = '''' \<or> ic_CredentialClass cfg = '''' \<or> ic_TTL cfg < 0
          then (Inl (Errorf ''%w: issuer configuration'' [ErrIdentityBindingMismatch]), r)
          else (let seal = \<lparr>se_ptr = rs_seals r, se_resolver = rs_self r, se_binding = bi_ID b, se_instance = fresh\<rparr>
                in (Inr \<lparr>is_seal = Some seal, is_binding = b, is_method = ic_Method cfg,
                         is_credential = ic_CredentialClass cfg, is_ttl = ic_TTL cfg, is_issued = 0\<rparr>,
                    r\<lparr>rs_issuers := (rs_issuers r)(bi_ID b \<mapsto> seal), rs_seals := rs_seals r + 1\<rparr>)))"

definition Issue ::
    "string \<Rightarrow> string \<Rightarrow> time \<Rightarrow> Issuer option \<Rightarrow> (go_error + AuthenticatedIngress) \<times> Issuer option" where
  "Issue requestID subjectClaim at iss =
     (case iss of
        None \<Rightarrow> (Inl ErrIdentityEvidenceMissing, iss)
      | Some i \<Rightarrow>
          if is_seal i = None \<or> requestID = '''' \<or> subjectClaim = '''' then (Inl ErrIdentityEvidenceMissing, iss)
          else (Inr \<lparr>ai_seal = is_seal i, ai_requestID = requestID, ai_subjectClaim = subjectClaim,
                     ai_observedAt = at, ai_expiresAt = (if is_ttl i > 0 then at + is_ttl i else 0),
                     ai_method = is_method i, ai_credential = is_credential i\<rparr>,
                Some (i\<lparr>is_issued := is_issued i + 1\<rparr>)))"

definition IssuedCount :: "Issuer option \<Rightarrow> 64 word" where
  "IssuedCount iss = (case iss of None \<Rightarrow> 0 | Some i \<Rightarrow> is_issued i)"

text \<open>The principals of a resolution, in the order the loop visits them; the empty id is
  skipped.\<close>

fun check_principals :: "(string \<rightharpoonup> id_Principal) \<Rightarrow> time \<Rightarrow> string list \<Rightarrow> go_error option" where
  "check_principals ps now [] = None"
| "check_principals ps now (pid # pids) =
     (if pid = '''' then check_principals ps now pids
      else (case ps pid of
              None \<Rightarrow> Some ErrIdentityBindingMismatch
            | Some p \<Rightarrow>
                if \<not> IsZero (ip_DisabledAt p) \<and> \<not> ip_DisabledAt p > now then Some ErrPrincipalDisabled
                else check_principals ps now pids))"

definition evidence_claims :: "Binding \<Rightarrow> AuthenticatedIngress \<Rightarrow> string" where
  "evidence_claims b inp =
     ''{'' @ json_string ''binding_id'' @ '':'' @ json_string (bi_ID b) @ '','' @
     json_string ''generation'' @ '':'' @ decimal (bi_Generation b) @ '','' @
     json_string ''provider'' @ '':'' @ json_string (bi_Provider b) @ '','' @
     json_string ''method'' @ '':'' @ json_string (ai_method inp) @ '','' @
     json_string ''subject_namespace'' @ '':'' @ json_string (bi_SubjectNamespace b) @ '','' @
     json_string ''verified_subject'' @ '':'' @ json_string (bi_VerifiedSubject b) @ '','' @
     json_string ''subject_claim'' @ '':'' @ json_string (ai_subjectClaim inp) @ ''}''"

definition Resolve ::
    "codec \<Rightarrow> time \<Rightarrow> string \<Rightarrow> Resolver \<Rightarrow> AuthenticatedIngress \<Rightarrow> ResolveRequest \<Rightarrow> go_error + Evidence" where
  "Resolve cd now fresh r inp req =
     (case ai_seal inp of
        None \<Rightarrow> Inl ErrIdentityEvidenceMissing
      | Some seal \<Rightarrow>
     if se_resolver seal \<noteq> rs_self r \<or> rs_issuers r (se_binding seal) \<noteq> Some seal \<or>
        ai_requestID inp \<noteq> rr_RequestID req \<or> rr_ActionID req = '''' \<or> rr_RequestID req = ''''
     then Inl ErrIdentityBindingMismatch
     else (case rs_bindings r (se_binding seal) of
        None \<Rightarrow> Inl ErrIdentityBindingMismatch
      | Some binding \<Rightarrow>
     if bi_Channel binding \<noteq> rr_Channel req \<or> bi_Status binding \<noteq> BindingActive
     then Inl ErrIdentityBindingMismatch
     else if \<not> IsZero (ai_expiresAt inp) \<and> \<not> now < ai_expiresAt inp then Inl ErrIdentityEvidenceExpired
     else (case rs_workloads r (rr_Brain req) of
        None \<Rightarrow> Inl ErrIdentityBindingMismatch
      | Some workload \<Rightarrow>
     (case check_principals (rs_principals r) now
             [bi_PrincipalID binding, wl_PrincipalID workload, wl_ResponsiblePrincipalID workload] of
        Some e \<Rightarrow> Inl e
      | None \<Rightarrow> Inr
          \<lparr>ev_EvidenceID = fresh, ev_ActionID = rr_ActionID req, ev_RequestID = rr_RequestID req,
           ev_RequesterPrincipalID = bi_PrincipalID binding, ev_ActorPrincipalID = wl_PrincipalID workload,
           ev_ResponsiblePrincipalID = wl_ResponsiblePrincipalID workload, ev_BindingID = bi_ID binding,
           ev_BindingGeneration = bi_Generation binding, ev_AdapterInstanceID = se_instance seal,
           ev_Provider = bi_Provider binding, ev_Method = ai_method inp, ev_CredentialClass = ai_credential inp,
           ev_Issuer = bi_Channel binding, ev_SubjectNamespace = bi_SubjectNamespace binding,
           ev_VerifiedSubject = bi_VerifiedSubject binding, ev_SubjectClaim = ai_subjectClaim inp,
           ev_ObservedAt = ai_observedAt inp, ev_ExpiresAt = ai_expiresAt inp,
           ev_ClaimsDigest = ''sha256:'' @ cd_sha256 cd (evidence_claims binding inp)\<rparr>))))"

section \<open>The digest binds the operation and the parameters\<close>

lemma decimal_nat_digits: "c \<in> set (decimal_nat n) \<Longrightarrow> \<exists>k<10. c = char_of (48 + k :: nat)"
proof (induction n rule: decimal_nat.induct)
  case (1 n)
  then show ?case
    by (cases "n < 10") (auto simp: decimal_nat.simps [of n] intro: exI [of _ "n mod 10"])
qed

lemma decimal_nat_no_colon: "CHR '':'' \<notin> set (decimal_nat n)"
proof
  assume "CHR '':'' \<in> set (decimal_nat n)"
  then obtain k :: nat where k: "k < 10" and c: "CHR '':'' = char_of (48 + k)"
    using decimal_nat_digits by blast
  have "of_char (CHR '':'') = (58 :: nat)" by simp
  moreover have "of_char (char_of (48 + k) :: char) = 48 + k" using k by simp
  ultimately show False using k c by simp
qed

fun of_decimal :: "nat \<Rightarrow> string \<Rightarrow> nat" where
  "of_decimal n [] = n"
| "of_decimal n (c # cs) = of_decimal (10 * n + (of_char c - 48)) cs"

lemma of_decimal_append: "of_decimal n (xs @ ys) = of_decimal (of_decimal n xs) ys"
  by (induction xs arbitrary: n) auto

lemma of_decimal_nat: "of_decimal 0 (decimal_nat n) = n"
proof (induction n rule: decimal_nat.induct)
  case (1 n)
  then show ?case
    by (cases "n < 10") (auto simp: decimal_nat.simps [of n] of_decimal_append)
qed

lemma decimal_nat_inj: "decimal_nat m = decimal_nat n \<longleftrightarrow> m = n"
  by (metis of_decimal_nat)

lemma decimal_nat_no_minus: "decimal_nat n \<noteq> CHR ''-'' # cs"
proof
  assume "decimal_nat n = CHR ''-'' # cs"
  then have "CHR ''-'' \<in> set (decimal_nat n)" by simp
  then obtain k :: nat where "k < 10" and c: "CHR ''-'' = char_of (48 + k)"
    using decimal_nat_digits by blast
  then have "of_char (CHR ''-'') = 48 + k" by simp
  then show False by simp
qed

lemma decimal_inj: "decimal j = decimal k \<longleftrightarrow> j = k"
  using decimal_nat_no_minus decimal_nat_no_minus [THEN not_sym]
  by (auto simp: decimal_def decimal_nat_inj)

lemma digest_part_inj: "digest_part a @ x = digest_part b @ y \<longleftrightarrow> a = b \<and> x = y"
proof
  assume eq: "digest_part a @ x = digest_part b @ y"
  have cut: "takeWhile (\<lambda>c. c \<noteq> CHR '':'') (digest_part s @ z) = decimal_nat (length s)" for s z
    using decimal_nat_no_colon by (auto simp: digest_part_def decimal_def intro: takeWhile_append2 [THEN trans])
  from cut [of a x] cut [of b y] eq have len: "length a = length b" by (simp add: decimal_nat_inj)
  then have "a @ x = b @ y" using eq by (simp add: digest_part_def)
  with len show "a = b \<and> x = y" by simp
qed simp

lemma digest_input_inj:
  "digest_input cd op a = digest_input cd op' a' \<longleftrightarrow> op = op' \<and> CanonicalParams cd a = CanonicalParams cd a'"
proof
  assume "digest_input cd op a = digest_input cd op' a'"
  then have "digest_part (ao_Namespace op) @ digest_part (ao_Name op) @ digest_part (decimal (ao_Version op)) @
      digest_part (CanonicalParams cd a) @ '''' =
    digest_part (ao_Namespace op') @ digest_part (ao_Name op') @ digest_part (decimal (ao_Version op')) @
      digest_part (CanonicalParams cd a') @ ''''"
    by (simp add: digest_input_def)
  then show "op = op' \<and> CanonicalParams cd a = CanonicalParams cd a'"
    unfolding digest_part_inj decimal_inj by (auto intro: action_Operation.equality)
qed (simp add: digest_input_def)

text \<open>
  The action digest binds the whole operation and its canonical parameters. Unless SHA-256
  collides on the two inputs, two actions with equal digests have the same namespace, name and
  version and the same canonical parameters: no choice of separators inside a name or a parameter
  can make one action pass for another.
\<close>

theorem Digest_binds_action:
  assumes "Digest cd op args = Digest cd op' args'"
    and "cd_sha256 cd (digest_input cd op args) = cd_sha256 cd (digest_input cd op' args') \<Longrightarrow>
         digest_input cd op args = digest_input cd op' args'"
  shows "op = op' \<and> CanonicalParams cd args = CanonicalParams cd args'"
proof -
  have "digest_input cd op args = digest_input cd op' args'"
    using assms by (simp add: Digest_def)
  then show ?thesis by (simp add: digest_input_inj)
qed

definition plain_codec :: codec where
  "plain_codec = \<lparr>cd_sha256 = (\<lambda>s. s), cd_normalize = (\<lambda>s. None), cd_quote = json_string,
     cd_ed25519_Verify = (\<lambda>pub msg sig. sig = pub @ msg),
     cd_parse_evidence = (\<lambda>_. None), cd_parse_event = (\<lambda>_. None)\<rparr>"

definition tool_op :: "string \<Rightarrow> action_Operation" where
  "tool_op name = \<lparr>ao_Namespace = ''tool'', ao_Name = name, ao_Version = 1\<rparr>"

theorem Digest_binds_action_witness:
  "Digest plain_codec (tool_op ''echo'') ''hi'' = ''sha256:4:tool4:echo1:12:hi'' \<and>
   (Digest plain_codec (tool_op ''echo'') ''hi'' \<noteq> Digest plain_codec (tool_op ''calc'') ''hi'') \<and>
   CanonicalParams plain_codec ''hi'' = CanonicalParams plain_codec ''hi''"
proof -
  have d: "Digest plain_codec (tool_op ''echo'') ''hi'' = ''sha256:4:tool4:echo1:12:hi''"
    by (simp add: Digest_def digest_input_def digest_part_def plain_codec_def tool_op_def decimal_def
        decimal_nat.simps CanonicalParams_def, code_simp)
  have "Digest plain_codec (tool_op ''echo'') ''hi'' \<noteq> Digest plain_codec (tool_op ''calc'') ''hi''"
    by (simp add: Digest_def digest_input_def digest_part_def plain_codec_def tool_op_def)
  then show ?thesis
    using d Digest_binds_action [of plain_codec "tool_op ''echo''" "''hi''" "tool_op ''echo''" "''hi''"] by simp
qed

section \<open>What a resolver guarantees\<close>

text \<open>The registry of a resolver is closed: every entry sits under its own id, every principal
  a binding or a workload names exists, an actor is a workload; and every live seal is this
  resolver's, for an existing binding, with an address already given out.\<close>

definition table_ok :: "('k \<Rightarrow> 'v \<Rightarrow> bool) \<Rightarrow> ('k \<rightharpoonup> 'v) \<Rightarrow> bool" where
  "table_ok P m \<longleftrightarrow> (\<forall>k v. m k = Some v \<longrightarrow> P k v)"

lemma table_ok_empty [simp]: "table_ok P Map.empty" "table_ok P (\<lambda>k. None)"
  by (simp_all add: table_ok_def)

lemma table_ok_update: "table_ok P m \<Longrightarrow> P k v \<Longrightarrow> table_ok P (m(k \<mapsto> v))"
  by (simp add: table_ok_def)

lemma table_okD: "table_ok P m \<Longrightarrow> m k = Some v \<Longrightarrow> P k v"
  by (simp add: table_ok_def)

definition principal_entry :: "string \<Rightarrow> id_Principal \<Rightarrow> bool" where
  "principal_entry k p \<longleftrightarrow> ip_ID p = k \<and> k \<noteq> '''' \<and> validPrincipalKind (ip_Kind p)"

definition binding_entry :: "(string \<rightharpoonup> id_Principal) \<Rightarrow> string \<Rightarrow> Binding \<Rightarrow> bool" where
  "binding_entry ps k b \<longleftrightarrow> bi_ID b = k \<and> binding_ok b \<and> ps (bi_PrincipalID b) \<noteq> None"

definition workload_entry :: "(string \<rightharpoonup> id_Principal) \<Rightarrow> string \<Rightarrow> Workload \<Rightarrow> bool" where
  "workload_entry ps k w \<longleftrightarrow> wl_Brain w = k \<and> workload_actor ps w \<and>
     (wl_ResponsiblePrincipalID w \<noteq> '''' \<longrightarrow> ps (wl_ResponsiblePrincipalID w) \<noteq> None)"

definition issuer_entry :: "Resolver \<Rightarrow> string \<Rightarrow> ingressSeal \<Rightarrow> bool" where
  "issuer_entry r k s \<longleftrightarrow> se_binding s = k \<and> rs_bindings r k \<noteq> None \<and>
     se_resolver s = rs_self r \<and> se_ptr s < rs_seals r"

definition resolver_ok :: "Resolver \<Rightarrow> bool" where
  "resolver_ok r \<longleftrightarrow> table_ok principal_entry (rs_principals r) \<and>
     table_ok (binding_entry (rs_principals r)) (rs_bindings r) \<and>
     table_ok (workload_entry (rs_principals r)) (rs_workloads r) \<and> table_ok (issuer_entry r) (rs_issuers r)"

lemma add_principals_ok:
  "add_principals ps m = Inr m' \<Longrightarrow> table_ok principal_entry m \<Longrightarrow> table_ok principal_entry m'"
proof (induction ps arbitrary: m)
  case (Cons p ps)
  then have step: "add_principals ps (m(ip_ID p \<mapsto> p)) = Inr m'" and entry: "principal_entry (ip_ID p) p"
    by (auto simp: principal_entry_def split: if_splits)
  show ?case by (rule Cons.IH [OF step table_ok_update [OF Cons.prems(2) entry]])
qed simp

lemma add_bindings_ok:
  "add_bindings ps bs m = Inr m' \<Longrightarrow> table_ok (binding_entry ps) m \<Longrightarrow> table_ok (binding_entry ps) m'"
proof (induction bs arbitrary: m)
  case (Cons b bs)
  then have step: "add_bindings ps bs (m(bi_ID b \<mapsto> b)) = Inr m'" and entry: "binding_entry ps (bi_ID b) b"
    by (auto simp: binding_entry_def split: if_splits)
  show ?case by (rule Cons.IH [OF step table_ok_update [OF Cons.prems(2) entry]])
qed simp

lemma add_workloads_ok:
  "add_workloads ps ws m = Inr m' \<Longrightarrow> table_ok (workload_entry ps) m \<Longrightarrow> table_ok (workload_entry ps) m'"
proof (induction ws arbitrary: m)
  case (Cons w ws)
  then have step: "add_workloads ps ws (m(wl_Brain w \<mapsto> w)) = Inr m'" and entry: "workload_entry ps (wl_Brain w) w"
    by (auto simp: workload_entry_def split: if_splits)
  show ?case by (rule Cons.IH [OF step table_ok_update [OF Cons.prems(2) entry]])
qed simp

lemma NewResolver_ok: "NewResolver self reg = Inr r \<Longrightarrow> resolver_ok r"
  by (auto simp: NewResolver_def resolver_ok_def split: sum.splits
      dest!: add_principals_ok add_bindings_ok add_workloads_ok)

lemma NewIssuer_cases:
  obtains e where "NewIssuer cfg fresh r = (Inl e, r)"
  | i b seal where "NewIssuer cfg fresh r =
      (Inr i, r\<lparr>rs_issuers := (rs_issuers r)(bi_ID b \<mapsto> seal), rs_seals := rs_seals r + 1\<rparr>)"
    and "rs_bindings r (ic_BindingID cfg) = Some b" and "is_seal i = Some seal"
    and "seal = \<lparr>se_ptr = rs_seals r, se_resolver = rs_self r, se_binding = bi_ID b, se_instance = fresh\<rparr>"
    and "ic_TTL cfg \<ge> 0" and "is_ttl i = ic_TTL cfg"
proof (cases "rs_bindings r (ic_BindingID cfg)")
  case None
  then show ?thesis by (intro that(1)) (simp add: NewIssuer_def)
next
  case (Some b)
  show ?thesis
  proof (cases "ic_Method cfg = [] \<or> ic_CredentialClass cfg = [] \<or> ic_TTL cfg < 0")
    case True
    with Some show ?thesis by (intro that(1)) (simp add: NewIssuer_def)
  next
    case False
    with Some show ?thesis by (intro that(2)) (auto simp: NewIssuer_def Let_def)
  qed
qed

lemma NewIssuer_ok: "resolver_ok r \<Longrightarrow> resolver_ok (snd (NewIssuer cfg fresh r))"
  by (rule NewIssuer_cases [of cfg fresh r])
    (auto simp: resolver_ok_def table_ok_def issuer_entry_def binding_entry_def less_Suc_eq)

text \<open>The states one resolver goes through: issuers are the only thing that changes.\<close>

inductive resolver_run :: "Resolver \<Rightarrow> Resolver \<Rightarrow> bool" where
  resolver_refl: "resolver_run r r"
| resolver_issue: "resolver_run r r' \<Longrightarrow> resolver_run r (snd (NewIssuer cfg fresh r'))"

lemma resolver_run_ok: "resolver_run r r' \<Longrightarrow> resolver_ok r \<Longrightarrow> resolver_ok r'"
  by (induction rule: resolver_run.induct) (auto intro: NewIssuer_ok)

lemma resolver_run_mono:
  "resolver_run r r' \<Longrightarrow> rs_self r' = rs_self r \<and> rs_bindings r' = rs_bindings r \<and>
     rs_principals r' = rs_principals r \<and> rs_workloads r' = rs_workloads r \<and> rs_seals r \<le> rs_seals r'"
proof (induction rule: resolver_run.induct)
  case (resolver_issue r r' cfg fresh)
  then show ?case by (cases rule: NewIssuer_cases [of cfg fresh r']) auto
qed auto

text \<open>The seal a binding carries never becomes an older one again.\<close>

lemma resolver_run_seal:
  "resolver_run r r' \<Longrightarrow> resolver_ok r \<Longrightarrow> rs_issuers r k = Some s \<Longrightarrow>
   \<exists>s'. rs_issuers r' k = Some s' \<and> (s' = s \<or> se_ptr s' \<ge> rs_seals r)"
proof (induction rule: resolver_run.induct)
  case (resolver_issue r r' cfg fresh)
  then obtain s' where s': "rs_issuers r' k = Some s'" "s' = s \<or> se_ptr s' \<ge> rs_seals r" by auto
  show ?case
  proof (cases rule: NewIssuer_cases [of cfg fresh r'])
    case (2 i b seal)
    then show ?thesis using s' resolver_run_mono [OF resolver_issue.hyps] by auto
  qed (use s' in auto)
qed auto

text \<open>In a sound resolver the principals of a resolution exist, so the loop over them refuses
  only a disabled one.\<close>

definition disabled_at :: "Resolver \<Rightarrow> time \<Rightarrow> string \<Rightarrow> bool" where
  "disabled_at r now pid \<longleftrightarrow>
     (\<exists>p. rs_principals r pid = Some p \<and> ip_DisabledAt p \<noteq> 0 \<and> ip_DisabledAt p \<le> now)"

lemma check_principals_None:
  "check_principals ps now pids = None \<longleftrightarrow>
   (\<forall>pid\<in>set pids. pid \<noteq> '''' \<longrightarrow> (\<exists>p. ps pid = Some p \<and> (ip_DisabledAt p = 0 \<or> now < ip_DisabledAt p)))"
  by (induction pids) (auto simp: IsZero_def split: option.splits)

text \<open>The facts \<open>Resolve\<close> judges, for an ingress sealed by \<open>seal\<close>.\<close>

definition ingress_accepted ::
    "time \<Rightarrow> Resolver \<Rightarrow> AuthenticatedIngress \<Rightarrow> ResolveRequest \<Rightarrow> ingressSeal \<Rightarrow> Binding \<Rightarrow> Workload \<Rightarrow> bool" where
  "ingress_accepted now r inp req seal b w \<longleftrightarrow>
     ai_seal inp = Some seal \<and> se_resolver seal = rs_self r \<and> rs_issuers r (se_binding seal) = Some seal \<and>
     ai_requestID inp = rr_RequestID req \<and> rr_RequestID req \<noteq> '''' \<and> rr_ActionID req \<noteq> '''' \<and>
     rs_bindings r (se_binding seal) = Some b \<and> bi_Channel b = rr_Channel req \<and> bi_Status b = BindingActive \<and>
     (ai_expiresAt inp = 0 \<or> now < ai_expiresAt inp) \<and> rs_workloads r (rr_Brain req) = Some w \<and>
     (\<forall>pid\<in>{bi_PrincipalID b, wl_PrincipalID w, wl_ResponsiblePrincipalID w}. \<not> disabled_at r now pid)"

lemma check_principals_sound:
  assumes "resolver_ok r" "rs_bindings r k = Some b" "rs_workloads r k' = Some w"
  shows "check_principals (rs_principals r) now
      [bi_PrincipalID b, wl_PrincipalID w, wl_ResponsiblePrincipalID w] = None \<longleftrightarrow>
    (\<forall>pid\<in>{bi_PrincipalID b, wl_PrincipalID w, wl_ResponsiblePrincipalID w}. \<not> disabled_at r now pid)"
proof -
  have none: "rs_principals r [] = None"
    using assms(1) by (metis not_None_eq principal_entry_def resolver_ok_def table_okD)
  have ex: "rs_principals r pid \<noteq> None"
    if "pid \<in> {bi_PrincipalID b, wl_PrincipalID w, wl_ResponsiblePrincipalID w}" "pid \<noteq> []" for pid
    using assms that table_okD [of "binding_entry (rs_principals r)" "rs_bindings r" k b]
      table_okD [of "workload_entry (rs_principals r)" "rs_workloads r" k' w]
    by (auto simp: resolver_ok_def binding_entry_def workload_entry_def workload_actor_def split: option.splits)
  have "(pid \<noteq> [] \<longrightarrow> (\<exists>p. rs_principals r pid = Some p \<and> (ip_DisabledAt p = 0 \<or> now < ip_DisabledAt p))) \<longleftrightarrow>
      \<not> disabled_at r now pid"
    if "pid \<in> {bi_PrincipalID b, wl_PrincipalID w, wl_ResponsiblePrincipalID w}" for pid
    using none ex [OF that] by (cases "rs_principals r pid") (auto simp: disabled_at_def)
  then show ?thesis unfolding check_principals_None by simp
qed

lemma Resolve_Inr:
  assumes "resolver_ok r"
  shows "(\<exists>ev. Resolve cd now fresh r inp req = Inr ev) \<longleftrightarrow> (\<exists>seal b w. ingress_accepted now r inp req seal b w)"
proof (cases "ai_seal inp")
  case None
  then show ?thesis by (simp add: Resolve_def ingress_accepted_def)
next
  case (Some seal)
  show ?thesis
  proof (cases "rs_bindings r (se_binding seal)")
    case None
    with Some show ?thesis by (simp add: Resolve_def ingress_accepted_def)
  next
    case b: (Some b)
    show ?thesis
    proof (cases "rs_workloads r (rr_Brain req)")
      case None
      with Some b show ?thesis by (simp add: Resolve_def ingress_accepted_def)
    next
      case w: (Some w)
      note chk = check_principals_sound [OF assms b w, of now]
      show ?thesis
      proof (cases "check_principals (rs_principals r) now
          [bi_PrincipalID b, wl_PrincipalID w, wl_ResponsiblePrincipalID w]")
        case None
        then have "\<forall>pid\<in>{bi_PrincipalID b, wl_PrincipalID w, wl_ResponsiblePrincipalID w}. \<not> disabled_at r now pid"
          using chk by (simp del: check_principals.simps)
        with None Some b w show ?thesis
          by (auto simp: Resolve_def ingress_accepted_def IsZero_def simp del: check_principals.simps)
      next
        case (Some e)
        then have "\<not> (\<forall>pid\<in>{bi_PrincipalID b, wl_PrincipalID w, wl_ResponsiblePrincipalID w}. \<not> disabled_at r now pid)"
          using chk by (simp del: check_principals.simps)
        with Some \<open>ai_seal inp = Some seal\<close> b w show ?thesis
          by (auto simp: Resolve_def ingress_accepted_def IsZero_def simp del: check_principals.simps)
      qed
    qed
  qed
qed

lemma Resolve_evidence:
  "Resolve cd now fresh r inp req = Inr ev \<Longrightarrow> \<exists>seal b w.
     ai_seal inp = Some seal \<and> rs_issuers r (se_binding seal) = Some seal \<and>
     rs_bindings r (se_binding seal) = Some b \<and> rs_workloads r (rr_Brain req) = Some w \<and>
     ev_ActionID ev = rr_ActionID req \<and> ev_RequestID ev = ai_requestID inp \<and>
     ev_RequesterPrincipalID ev = bi_PrincipalID b \<and> ev_ActorPrincipalID ev = wl_PrincipalID w \<and>
     ev_ResponsiblePrincipalID ev = wl_ResponsiblePrincipalID w"
  by (auto simp: Resolve_def split: option.splits if_splits)

text \<open>
  The resolver accepts exactly the live ingress of an active binding. In every state of a
  resolver built from a registry, resolving an ingress for an action succeeds if and only if its seal
  is the one live seal of its binding in this resolver, the request and the channel are its own, the
  binding is active, the ingress has not expired, the brain is configured, and none of the three
  principals is disabled; and then the actor is a workload of the registry, never a name taken from
  the message.
\<close>

theorem Resolve_exact:
  assumes "NewResolver self reg = Inr r0" and "resolver_run r0 r"
  shows "((\<exists>ev. Resolve cd now fresh r inp req = Inr ev) \<longleftrightarrow>
      (\<exists>seal b w. ingress_accepted now r inp req seal b w)) \<and>
    (\<forall>ev. Resolve cd now fresh r inp req = Inr ev \<longrightarrow>
      (\<exists>p. rs_principals r (ev_ActorPrincipalID ev) = Some p \<and> ip_Kind p = PrincipalWorkload) \<and>
      (\<exists>p. rs_principals r (ev_RequesterPrincipalID ev) = Some p) \<and> ev_ActionID ev = rr_ActionID req)"
proof -
  have ok: "resolver_ok r" using assms NewResolver_ok resolver_run_ok by blast
  have "(\<exists>p. rs_principals r (ev_ActorPrincipalID ev) = Some p \<and> ip_Kind p = PrincipalWorkload) \<and>
      (\<exists>p. rs_principals r (ev_RequesterPrincipalID ev) = Some p) \<and> ev_ActionID ev = rr_ActionID req"
    if res: "Resolve cd now fresh r inp req = Inr ev" for ev
  proof -
    obtain seal :: ingressSeal and b w where e: "rs_bindings r (se_binding seal) = Some b" "rs_workloads r (rr_Brain req) = Some w"
      "ev_ActionID ev = rr_ActionID req" "ev_RequesterPrincipalID ev = bi_PrincipalID b"
      "ev_ActorPrincipalID ev = wl_PrincipalID w"
      using Resolve_evidence [OF res] by blast
    have "binding_entry (rs_principals r) (se_binding seal) b" "workload_entry (rs_principals r) (rr_Brain req) w"
      using ok e(1,2) by (auto simp: resolver_ok_def table_ok_def)
    then show ?thesis
      using e by (auto simp: binding_entry_def workload_entry_def workload_actor_def split: option.splits)
  qed
  then show ?thesis using Resolve_Inr [OF ok] by blast
qed

text \<open>
  A superseded adapter instance is dead for good. Once a second issuer is created for a binding,
  no ingress that the first one sealed ever resolves again, whatever issuers are created later.
\<close>

theorem superseded_ingress_refused:
  assumes "NewResolver self reg = Inr r0" and "resolver_run r0 r"
    and "NewIssuer cfg f r = (Inr i, r1)" and "resolver_run r1 r2"
    and "NewIssuer cfg' f' r2 = (Inr i', r3)" and "ic_BindingID cfg' = ic_BindingID cfg"
    and "resolver_run r3 r4"
    and "fst (Issue requestID claim at (Some i)) = Inr inp"
  shows "Resolve cd now fresh r4 inp req = Inl ErrIdentityBindingMismatch"
proof -
  have ok: "resolver_ok r" using assms(1,2) NewResolver_ok resolver_run_ok by blast
  then have ok1: "resolver_ok r1" using NewIssuer_ok [of r cfg f] assms(3) by simp
  have ok2: "resolver_ok r2" using resolver_run_ok [OF assms(4) ok1] .
  have ok3: "resolver_ok r3" using NewIssuer_ok [OF ok2, of cfg' f'] assms(5) by simp
  obtain b s where b: "rs_bindings r (ic_BindingID cfg) = Some b" and s: "is_seal i = Some s"
      "se_ptr s = rs_seals r" "se_binding s = bi_ID b" and r1: "rs_seals r1 = rs_seals r + 1"
      "rs_bindings r1 = rs_bindings r"
    using assms(3) by (cases rule: NewIssuer_cases [of cfg f r]) auto
  have m: "rs_bindings r2 = rs_bindings r" "rs_seals r < rs_seals r2"
    using resolver_run_mono [OF assms(4)] r1 by auto
  obtain s' where s': "rs_issuers r3 (bi_ID b) = Some s'" "se_ptr s' = rs_seals r2" "rs_seals r3 = rs_seals r2 + 1"
    using assms(5,6) b m(1) by (cases rule: NewIssuer_cases [of cfg' f' r2]) auto
  obtain s4 where "rs_issuers r4 (bi_ID b) = Some s4" "se_ptr s4 \<ge> rs_seals r2"
    using resolver_run_seal [OF assms(7) ok3 s'(1)] s'(2,3) by auto
  moreover have "ai_seal inp = Some s"
    using assms(8) s(1) by (auto simp: Issue_def split: if_splits)
  ultimately show ?thesis using s m(2) by (auto simp: Resolve_def)
qed

text \<open>
  C17: The registry of a resolver is closed in every state. A resolver that \<open>NewResolver\<close>
  returns, after any number of issuers, has every entry under its own id, every principal a binding
  or a workload names, a workload principal behind every brain, and every live seal belongs to this
  resolver and to a configured binding.
\<close>

theorem resolver_registry_closed:
  assumes "NewResolver self reg = Inr r0" and "resolver_run r0 r"
  shows "resolver_ok r"
  using assms NewResolver_ok resolver_run_ok by blast

section \<open>A sample registry\<close>

definition sample_registry :: Registry where
  "sample_registry =
    \<lparr>rg_Principals =
       [\<lparr>ip_ID = ''owner'', ip_Kind = PrincipalHuman, ip_DisplayName = '''', ip_CreatedAt = 1, ip_DisabledAt = 0, ip_Revision = 1\<rparr>,
        \<lparr>ip_ID = ''main'', ip_Kind = PrincipalWorkload, ip_DisplayName = '''', ip_CreatedAt = 1, ip_DisabledAt = 0, ip_Revision = 1\<rparr>],
     rg_Bindings =
       [\<lparr>bi_ID = ''tg'', bi_Provider = ''telegram'', bi_Channel = ''telegram'', bi_CredentialRef = ''TOKEN'',
         bi_SubjectNamespace = ''chat'', bi_VerifiedSubject = ''bot'', bi_PrincipalID = ''owner'', bi_Generation = 1,
         bi_Status = BindingActive\<rparr>],
     rg_Workloads = [\<lparr>wl_Brain = ''main'', wl_PrincipalID = ''main'', wl_ResponsiblePrincipalID = ''owner''\<rparr>]\<rparr>"

definition sample_issuer_config :: IssuerConfig where
  "sample_issuer_config = \<lparr>ic_BindingID = ''tg'', ic_Method = ''poll'', ic_CredentialClass = ''bot'', ic_TTL = 60\<rparr>"

definition sample_resolver :: Resolver where
  "sample_resolver = (case NewResolver 7 sample_registry of Inr r \<Rightarrow> r)"

lemma sample_resolver_new: "NewResolver 7 sample_registry = Inr sample_resolver"
  by (simp add: sample_resolver_def NewResolver_def sample_registry_def validPrincipalKind_def binding_ok_def
      workload_actor_def)

definition sample_issued :: "string \<Rightarrow> Resolver \<Rightarrow> Issuer" where
  "sample_issued f r = (case fst (NewIssuer sample_issuer_config f r) of Inr i \<Rightarrow> i)"

lemma sample_bindings:
  "rs_bindings sample_resolver ''tg'' = Some (hd (rg_Bindings sample_registry))"
  "rs_issuers sample_resolver = Map.empty" "rs_seals sample_resolver = 0" "rs_self sample_resolver = 7"
  by (simp_all add: sample_resolver_def NewResolver_def sample_registry_def validPrincipalKind_def binding_ok_def
      workload_actor_def)

lemma sample_issuer_new:
  assumes "resolver_run sample_resolver r"
  shows "NewIssuer sample_issuer_config f r = (Inr (sample_issued f r), snd (NewIssuer sample_issuer_config f r))"
  using resolver_run_mono [OF assms] sample_bindings
  by (simp add: NewIssuer_def sample_issued_def sample_issuer_config_def Let_def)

theorem resolver_registry_closed_witness: "resolver_ok sample_resolver"
  using resolver_registry_closed [OF sample_resolver_new resolver_refl] .

abbreviation sample_ingress :: AuthenticatedIngress where
  "sample_ingress \<equiv> \<lparr>ai_seal = Some \<lparr>se_ptr = 0, se_resolver = 7, se_binding = ''tg'', se_instance = ''a1''\<rparr>,
     ai_requestID = ''m1'', ai_subjectClaim = ''bob'', ai_observedAt = 100, ai_expiresAt = 160,
     ai_method = ''poll'', ai_credential = ''bot''\<rparr>"

lemma sample_issue:
  "fst (Issue ''m1'' ''bob'' 100 (Some (sample_issued ''a1'' sample_resolver))) = Inr sample_ingress"
  using sample_bindings
  by (simp add: Issue_def sample_issued_def NewIssuer_def sample_issuer_config_def Let_def sample_registry_def)

theorem superseded_ingress_refused_witness:
  "Resolve plain_codec 120 ''e1''
     (snd (NewIssuer sample_issuer_config ''a2'' (snd (NewIssuer sample_issuer_config ''a1'' sample_resolver))))
     sample_ingress \<lparr>rr_ActionID = ''act'', rr_RequestID = ''m1'', rr_Channel = ''telegram'', rr_Brain = ''main''\<rparr>
   = Inl ErrIdentityBindingMismatch"
proof -
  let ?r1 = "snd (NewIssuer sample_issuer_config ''a1'' sample_resolver)"
  have run: "resolver_run sample_resolver ?r1" by (rule resolver_issue [OF resolver_refl])
  show ?thesis
    by (rule superseded_ingress_refused [OF sample_resolver_new resolver_refl sample_issuer_new [OF resolver_refl]
          resolver_refl sample_issuer_new [OF run] refl resolver_refl sample_issue])
qed

theorem Resolve_exact_witness:
  "\<exists>ev. Resolve plain_codec 120 ''e1'' (snd (NewIssuer sample_issuer_config ''a1'' sample_resolver)) sample_ingress
     \<lparr>rr_ActionID = ''act'', rr_RequestID = ''m1'', rr_Channel = ''telegram'', rr_Brain = ''main''\<rparr> = Inr ev \<and>
     ev_ActionID ev = ''act''"
proof -
  let ?r1 = "snd (NewIssuer sample_issuer_config ''a1'' sample_resolver)"
  let ?req = "\<lparr>rr_ActionID = ''act'', rr_RequestID = ''m1'', rr_Channel = ''telegram'', rr_Brain = ''main''\<rparr>"
  have run: "resolver_run sample_resolver ?r1" by (rule resolver_issue [OF resolver_refl])
  have "ingress_accepted 120 ?r1 sample_ingress ?req
      \<lparr>se_ptr = 0, se_resolver = 7, se_binding = ''tg'', se_instance = ''a1''\<rparr>
      (hd (rg_Bindings sample_registry)) (hd (rg_Workloads sample_registry))"
    by (simp add: ingress_accepted_def NewIssuer_def sample_issuer_config_def Let_def sample_resolver_def
        NewResolver_def sample_registry_def validPrincipalKind_def binding_ok_def workload_actor_def disabled_at_def)
  then show ?thesis
    using Resolve_exact [OF sample_resolver_new run, of plain_codec 120 "''e1''" sample_ingress ?req] by fastforce
qed

end
