(* ===== verification/Executor.thy ===== *)
theory Executor
  imports Policy Identity Conversation
begin

text \<open>
  The action executor (\<open>internal/action/executor\<close>): selection of the advertised tools, the
  prepared single-use request, its submission through the decision, the recording, the dispatch and
  the close, and the resumption of an approved action.

  The store behind the interface \<open>Recorder\<close> and its optional extensions is a record of functions
  over a store state \<open>'s\<close>; an extension the recorder does not implement is \<open>None\<close>. A tool is
  a function of the timeout it runs under, the scope it is given and its arguments. What the executor
  does to the outside is kept in order in \<open>wo_trace\<close>, and the \<open>atomic.Bool\<close> that all copies of
  a request share is a cell of \<open>wo_claimed\<close>. Clock readings, fresh identifiers and the resolver as
  each call finds it are the record \<open>exec_env\<close>. An owner marker is a number; the zero value of a
  plan or request has none. The envelope a request carries is taken as unchanged since
  \<open>Prepare\<close>, and a panic of a tool, which the executor does not recover, is not modelled.
\<close>

section \<open>Errors and data\<close>

definition ErrUnknownTool :: go_error where "ErrUnknownTool = Sentinel ''executor: unknown tool''"
definition ErrExecutionBindingMismatch :: go_error where
  "ErrExecutionBindingMismatch = Sentinel ''executor: execution binding mismatch''"
definition ErrExecutionAlreadySubmitted :: go_error where
  "ErrExecutionAlreadySubmitted = Sentinel ''executor: execution request already submitted''"

record Scope =
  sc_Brain :: string
  sc_Conversation :: string

datatype Tool =
    PlainTool "duration option \<Rightarrow> string \<Rightarrow> string \<times> go_error option"
  | ScopedTool "duration option \<Rightarrow> Scope \<Rightarrow> string \<Rightarrow> string \<times> go_error option"

record AuthorityStartRequest =
  as_ActorPrincipalID :: string
  as_CorrelationID :: string
  as_SourceProtocol :: string
  as_Channel :: string
  as_ConversationID :: string
  as_Operation :: action_Operation
  as_Arguments :: string
  as_EffectClass :: EffectClass
  as_At :: time
  as_ResolveEvidence :: "string \<Rightarrow> go_error + Evidence"

record AuthorityStartResult =
  at_ActionID :: string
  at_IntentID :: string
  at_AuthorityRefs :: "string list"
  at_Evidence :: "Evidence option"

record AuthorityApprovalRequest =
  aq_Draft :: action_Envelope
  aq_Facts :: AuthorityStartRequest

record AuthorityApprovalResult =
  aa_ActionID :: string
  aa_ApprovalID :: string
  aa_IntentID :: string
  aa_AuthorityRefs :: "string list"
  aa_Evidence :: Evidence

record 's Recorder =
  rc_RecordAttempt :: "action_Envelope \<Rightarrow> string \<Rightarrow> string \<Rightarrow> State \<Rightarrow> 's \<Rightarrow> go_error option \<times> 's"
  rc_Finish :: "string \<Rightarrow> State \<Rightarrow> time \<Rightarrow> 's \<Rightarrow> go_error option \<times> 's"
  rc_RecordAttemptIdentified ::
    "(action_Envelope \<Rightarrow> string \<Rightarrow> string \<Rightarrow> State \<Rightarrow> IdentityEvidence \<Rightarrow> 's \<Rightarrow> go_error option \<times> 's) option"
  rc_RecordAttemptAuthenticated ::
    "(action_Envelope \<Rightarrow> string \<Rightarrow> string \<Rightarrow> State \<Rightarrow> Evidence \<Rightarrow> 's \<Rightarrow> go_error option \<times> 's) option"
  rc_StartAuthorization :: "(AuthorityStartRequest \<Rightarrow> 's \<Rightarrow> (go_error + AuthorityStartResult) \<times> 's) option"
  rc_RequestAuthorizationApproval ::
    "(AuthorityApprovalRequest \<Rightarrow> 's \<Rightarrow> (go_error + AuthorityApprovalResult) \<times> 's) option"
  rc_FinishWithResult :: "(string \<Rightarrow> State \<Rightarrow> time \<Rightarrow> string \<Rightarrow> 's \<Rightarrow> go_error option \<times> 's) option"
  rc_RequestApproval :: "(action_Envelope \<Rightarrow> string \<Rightarrow> string \<Rightarrow> 's \<Rightarrow> (go_error + string) \<times> 's) option"
  rc_RequestApprovalAuthenticated ::
    "(action_Envelope \<Rightarrow> string \<Rightarrow> string \<Rightarrow> Evidence \<Rightarrow> 's \<Rightarrow> (go_error + string) \<times> 's) option"

record Governance =
  gv_Grants :: "ToolGrant list"
  gv_Attrs :: "(string \<times> ToolAttrs) list"
  gv_Sensitivity :: Sensitivity
  gv_Locality :: Locality

record IdentityConfig =
  ig_Registry :: "string \<rightharpoonup> Provenance"
  ig_IntentID :: string
  ig_GrantID :: string
  ig_EffectCeiling :: EffectClass

text \<open>The hooks \<open>InvocationProbe\<close>, \<open>BeforeClose\<close>, \<open>BeforeRecord\<close> and
  \<open>BeforeIdentityFallback\<close> only observe: a flag says whether one is set. \<open>CloseClock\<close> is a
  clock reading of the environment.\<close>

record 's CoordinatorConfig =
  cc_BrainName :: string
  cc_Recorder :: "'s Recorder option"
  cc_Identity :: "IdentityConfig option"
  cc_PrincipalResolver :: bool
  cc_StrictAuthority :: bool
  cc_EffectClassifier :: "(string \<Rightarrow> EffectDescriptor option) option"
  cc_Governance :: "Governance option"
  cc_BoundOperation :: "string \<Rightarrow> string"
  cc_InvocationProbe :: bool
  cc_BeforeClose :: bool
  cc_BeforeRecord :: bool
  cc_BeforeIdentityFallback :: bool

record 's Executor =
  ex_tools :: "string \<rightharpoonup> Tool"
  ex_perTool :: duration
  ex_config :: "'s CoordinatorConfig"
  ex_owner :: nat

record DecisionPlan =
  dp_owner :: "nat option"
  dp_channel :: string
  dp_governed :: bool
  dp_decisions :: "string \<rightharpoonup> ToolDecision"

record Submission =
  sb_Inbound :: "Envelope option"
  sb_Ingress :: AuthenticatedIngress
  sb_Lane :: string
  sb_Name :: string
  sb_Arguments :: string
  sb_Plan :: "DecisionPlan option"

record exec_Request =
  rq_owner :: "nat option"
  rq_plan :: "DecisionPlan option"
  rq_action :: action_Envelope
  rq_rawName :: string
  rq_args :: string
  rq_lane :: string
  rq_channel :: string
  rq_senderID :: string
  rq_ingress :: AuthenticatedIngress
  rq_evidence :: "Evidence option"
  rq_scope :: Scope
  rq_inbound :: Envelope
  rq_known :: bool
  rq_effectDeclared :: bool
  rq_use :: "nat option"

datatype Branch = BranchNone | BranchUnknown | BranchEffectUndeclared | BranchDenied | BranchShadowed
  | BranchPending | BranchExecuted

record exec_Result =
  re_Action :: action_Envelope
  re_Name :: string
  re_Arguments :: string
  re_Branch :: Branch
  re_Rule :: string
  re_Decision :: ToolDecision
  re_Ungoverned :: bool
  re_Output :: string
  re_Latency :: duration
  re_ApprovalID :: string
  re_ToolError :: "go_error option"
  re_RecordError :: "go_error option"
  re_CloseError :: "go_error option"
  re_IdentityFallback :: bool
  re_AuthorizationIdentityError :: bool
  re_ApprovalIdentityError :: bool
  re_ApprovalError :: "go_error option"

datatype exec_event =
    EvObserved exec_Result
  | EvIdentityFallback exec_Result
  | EvRecorded action_Envelope string string State "go_error option"
  | EvStarted "go_error + AuthorityStartResult"
  | EvParked action_Envelope "go_error + string"
  | EvProbed action_Envelope
  | EvDispatched string Scope string "string \<times> go_error option"
  | EvBeforeClose exec_Result
  | EvClosed string State time string "go_error option"

record 's world =
  wo_store :: 's
  wo_trace :: "exec_event list"
  wo_claimed :: "nat set"

record exec_env =
  xe_resolver :: Resolver
  xe_resolve_now :: time
  xe_resolve_id :: string
  xe_start_resolver :: Resolver
  xe_start_now :: time
  xe_start_id :: string
  xe_at :: time
  xe_park_now :: time
  xe_park_id :: string
  xe_bind_now :: time
  xe_bind_id :: string
  xe_run_start :: time
  xe_run_end :: time
  xe_close_at :: time

definition emit :: "exec_event \<Rightarrow> 's world \<Rightarrow> 's world" where
  "emit e w = w\<lparr>wo_trace := wo_trace w @ [e]\<rparr>"

definition zero_decision :: ToolDecision where
  "zero_decision = \<lparr>td_Mode = ToolModeInvalid 0, td_Rule = ToolRuleNone, td_Shield = False\<rparr>"

definition ToolRule_string :: "ToolRule \<Rightarrow> string" where
  "ToolRule_string r = (case r of ToolRuleNone \<Rightarrow> '''' | ToolRuleDenyGrant \<Rightarrow> ''deny''
     | ToolRuleNotGranted \<Rightarrow> ''not_granted'' | ToolRuleChannel \<Rightarrow> ''channel''
     | ToolRuleSensitiveLocality \<Rightarrow> ''sensitive_locality'' | ToolRulePrivateShield \<Rightarrow> ''private_network_shield''
     | ToolRuleCage \<Rightarrow> ''cage'')"

section \<open>Selection and preparation\<close>

definition Has :: "'s Executor \<Rightarrow> string \<Rightarrow> bool" where
  "Has e name \<longleftrightarrow> ex_tools e name \<noteq> None"

definition exec_SelectTools ::
    "'s Executor \<Rightarrow> string \<Rightarrow> (string \<rightharpoonup> Tool) \<times> DecisionPlan \<times> go_error option" where
  "exec_SelectTools e channel =
     (case cc_Governance (ex_config e) of
        None \<Rightarrow> (ex_tools e, \<lparr>dp_owner = Some (ex_owner e), dp_channel = channel, dp_governed = False,
                            dp_decisions = Map.empty\<rparr>, None)
      | Some g \<Rightarrow>
          (case SelectTools (gv_Grants g) (gv_Attrs g)
                  \<lparr>tq_Channel = channel, tq_Sensitivity = gv_Sensitivity g, tq_Locality = gv_Locality g\<rparr> of
             Inl err \<Rightarrow> (Map.empty, \<lparr>dp_owner = Some (ex_owner e), dp_channel = channel, dp_governed = True,
                            dp_decisions = Map.empty\<rparr>, Some err)
           | Inr decisions \<Rightarrow>
               ((\<lambda>name. case (ex_tools e name, decisions name) of
                   (Some candidate, Some d) \<Rightarrow>
                     if td_Mode d = ToolAllow \<or> td_Mode d = ToolShadow then Some candidate else None
                 | _ \<Rightarrow> None),
                \<lparr>dp_owner = Some (ex_owner e), dp_channel = channel, dp_governed = True,
                 dp_decisions = decisions\<rparr>, None)))"

definition Decisions ::
    "'s Executor \<Rightarrow> DecisionPlan option \<Rightarrow> go_error + (string \<rightharpoonup> ToolDecision) \<times> bool" where
  "Decisions e plan =
     (case plan of
        None \<Rightarrow> Inl ErrExecutionBindingMismatch
      | Some p \<Rightarrow> if dp_owner p \<noteq> Some (ex_owner e) then Inl ErrExecutionBindingMismatch
                  else Inr (dp_decisions p, dp_governed p))"

text \<open>\<open>Prepare\<close>; \<open>fresh\<close> is the new action id, \<open>now\<close> the clock and \<open>cell\<close> the new
  single-use cell.\<close>

definition Prepare ::
    "codec \<Rightarrow> string \<Rightarrow> time \<Rightarrow> nat \<Rightarrow> 's Executor \<Rightarrow> Submission \<Rightarrow> go_error + exec_Request" where
  "Prepare cd fresh now cell e sub =
     (case (sb_Inbound sub, sb_Plan sub) of
        (Some inb, Some plan) \<Rightarrow>
          if dp_owner plan \<noteq> Some (ex_owner e) \<or> dp_channel plan \<noteq> en_Channel inb
          then Inl ErrExecutionBindingMismatch
          else
            (let known = (ex_tools e (sb_Name sub) \<noteq> None);
                 operationName = (if known then sb_Name sub else cc_BoundOperation (ex_config e) (sb_Name sub));
                 descriptor = (case cc_EffectClassifier (ex_config e) of
                    Some classify \<Rightarrow> if known then Some (classify (sb_Name sub)) else None | None \<Rightarrow> None);
                 effectClass = (case descriptor of Some (Some d) \<Rightarrow> ed_Class d | _ \<Rightarrow> unclassified);
                 declared = (descriptor \<noteq> Some None);
                 op = \<lparr>ao_Namespace = ''tool'', ao_Name = operationName, ao_Version = 1\<rparr>;
                 canonical = NewEnvelope cd fresh (en_ID inb)
                   \<lparr>so_Kind = ''agent_brain'', so_Protocol = sb_Lane sub, so_Channel = en_Channel inb\<rparr>
                   op (sb_Arguments sub) now;
                 conv = (case KeyFromEnvelope (Some inb) of Inr key \<Rightarrow> key | Inl _ \<Rightarrow> '''')
             in Inr \<lparr>rq_owner = Some (ex_owner e), rq_plan = Some plan,
                     rq_action = canonical\<lparr>ac_Effect := effectClass\<rparr>, rq_rawName = sb_Name sub,
                     rq_args = sb_Arguments sub, rq_lane = sb_Lane sub, rq_channel = en_Channel inb,
                     rq_senderID = pp_ID (en_Sender inb), rq_ingress = sb_Ingress sub, rq_evidence = None,
                     rq_scope = \<lparr>sc_Brain = cc_BrainName (ex_config e), sc_Conversation = conv\<rparr>,
                     rq_inbound = inb, rq_known = known, rq_effectDeclared = declared, rq_use = Some cell\<rparr>)
      | _ \<Rightarrow> Inl ErrExecutionBindingMismatch)"

section \<open>Identity and authority of a request\<close>

definition validateRequest :: "codec \<Rightarrow> 's Executor \<Rightarrow> exec_Request option \<Rightarrow> go_error option" where
  "validateRequest cd e request =
     (case request of
        None \<Rightarrow> Some ErrExecutionBindingMismatch
      | Some r \<Rightarrow>
          (case rq_plan r of
             None \<Rightarrow> Some ErrExecutionBindingMismatch
           | Some plan \<Rightarrow>
               if rq_use r = None \<or> rq_owner r \<noteq> Some (ex_owner e) \<or> dp_owner plan \<noteq> Some (ex_owner e) \<or>
                  dp_channel plan \<noteq> rq_channel r
               then Some ErrExecutionBindingMismatch
               else
                 (let wantName = (if rq_known r then rq_rawName r else cc_BoundOperation (ex_config e) (rq_rawName r));
                      wantOperation = \<lparr>ao_Namespace = ''tool'', ao_Name = wantName, ao_Version = 1\<rparr>
                  in if ac_ActionID (rq_action r) = '''' \<or> ac_Operation (rq_action r) \<noteq> wantOperation \<or>
                        ac_Source (rq_action r) \<noteq>
                          \<lparr>so_Kind = ''agent_brain'', so_Protocol = rq_lane r, so_Channel = rq_channel r\<rparr> \<or>
                        ac_ParametersDigest (rq_action r) \<noteq> Digest cd (ac_Operation (rq_action r)) (rq_args r)
                     then Some ErrExecutionBindingMismatch else None)))"

definition refreshDurableEffect :: "'s CoordinatorConfig \<Rightarrow> exec_Request \<Rightarrow> exec_Request" where
  "refreshDurableEffect c r =
     (case (cc_EffectClassifier c, cc_Recorder c) of
        (Some classify, Some _) \<Rightarrow>
          r\<lparr>rq_action := (rq_action r)\<lparr>ac_Effect :=
             (case classify (ao_Name (ac_Operation (rq_action r))) of
                Some d \<Rightarrow> ed_Class d | None \<Rightarrow> unclassified)\<rparr>\<rparr>
      | _ \<Rightarrow> r)"

definition grant_refs :: "string \<Rightarrow> IdentityConfig \<Rightarrow> action_Envelope \<Rightarrow> action_Envelope" where
  "grant_refs rule i a =
     (if rule = ''granted'' \<and> ig_GrantID i \<noteq> '''' then a\<lparr>ac_AuthorityRefs := [ig_GrantID i]\<rparr> else a)"

definition bindAuthority :: "'s CoordinatorConfig \<Rightarrow> string \<Rightarrow> action_Envelope \<Rightarrow> action_Envelope" where
  "bindAuthority c rule a =
     (case cc_Identity c of None \<Rightarrow> a | Some i \<Rightarrow> grant_refs rule i (a\<lparr>ac_IntentID := ig_IntentID i\<rparr>))"

text \<open>\<open>bindIdentity\<close> with a configured identity; \<open>None\<close> when the provenance does not
  resolve.\<close>

definition bindIdentity ::
    "codec \<Rightarrow> 's CoordinatorConfig \<Rightarrow> IdentityConfig \<Rightarrow> time \<Rightarrow> string \<Rightarrow> exec_Request \<Rightarrow> string \<Rightarrow>
     action_Envelope \<Rightarrow> (action_Envelope \<times> IdentityEvidence) option" where
  "bindIdentity cd c i now fresh r rule a =
     (case ResolvePrincipal cd (ig_Registry i) (rq_channel r) (rq_senderID r) now fresh of
        Inl _ \<Rightarrow> None
      | Inr (_, evidence) \<Rightarrow>
          (let brain = BrainPrincipal (cc_BrainName c)
           in Some (grant_refs rule i
                (a\<lparr>ac_Principal := \<lparr>pf_PrincipalID = pr_PrincipalID brain,
                     pf_EvidenceID = ie_EvidenceID evidence, pf_ResponsibleHumanID = pr_ResponsibleHumanID brain\<rparr>,
                   ac_IntentID := ig_IntentID i\<rparr>), evidence)))"

definition evidence_principal :: "Evidence \<Rightarrow> PrincipalRef" where
  "evidence_principal ev = \<lparr>pf_PrincipalID = ev_ActorPrincipalID ev, pf_EvidenceID = ev_EvidenceID ev,
     pf_ResponsibleHumanID = ev_ResponsiblePrincipalID ev\<rparr>"

definition resolve_request :: "'s CoordinatorConfig \<Rightarrow> exec_Request \<Rightarrow> string \<Rightarrow> ResolveRequest" where
  "resolve_request c r actionID = \<lparr>rr_ActionID = actionID, rr_RequestID = en_ID (rq_inbound r),
     rr_Channel = rq_channel r, rr_Brain = cc_BrainName c\<rparr>"

section \<open>Recording\<close>

text \<open>One call of a recording operation of the store.\<close>

definition record_call ::
    "(action_Envelope \<Rightarrow> string \<Rightarrow> string \<Rightarrow> State \<Rightarrow> 's \<Rightarrow> go_error option \<times> 's) \<Rightarrow>
     action_Envelope \<Rightarrow> string \<Rightarrow> string \<Rightarrow> State \<Rightarrow> 's world \<Rightarrow> go_error option \<times> 's world" where
  "record_call f a outcome rule state w =
     (let (err, s) = f a outcome rule state (wo_store w)
      in (err, emit (EvRecorded a outcome rule state err) (w\<lparr>wo_store := s\<rparr>)))"

definition observeDecision :: "'s CoordinatorConfig \<Rightarrow> exec_Result \<Rightarrow> 's world \<Rightarrow> 's world" where
  "observeDecision c res w = (if cc_BeforeRecord c then emit (EvObserved res) w else w)"

definition recordAttempt ::
    "codec \<Rightarrow> exec_env \<Rightarrow> 's CoordinatorConfig \<Rightarrow> string \<Rightarrow> string \<Rightarrow> State \<Rightarrow> exec_Request \<Rightarrow> exec_Result \<Rightarrow> 's world \<Rightarrow>
     exec_Request \<times> exec_Result \<times> 's world" where
  "recordAttempt cd xe c outcome rule state r res w =
     (case cc_Recorder c of
        None \<Rightarrow> (r, res, w)
      | Some rec \<Rightarrow>
          (let r' = refreshDurableEffect c r; canonical = rq_action r'; res1 = res\<lparr>re_Action := canonical\<rparr> in
           case rq_evidence r' of
             Some ev \<Rightarrow>
               (let canonical' = bindAuthority c rule canonical; res2 = res1\<lparr>re_Action := canonical'\<rparr> in
                case rc_RecordAttemptAuthenticated rec of
                  None \<Rightarrow> (r', res2\<lparr>re_RecordError := Some ErrIdentityEvidenceMissing\<rparr>, w)
                | Some f \<Rightarrow>
                    (let (err, w') = record_call (\<lambda>a oc ru st. f a oc ru st ev) canonical' outcome rule state w
                     in (r', res2\<lparr>re_RecordError := err\<rparr>, w')))
           | None \<Rightarrow>
               (let plain = (\<lambda>res' w'.
                      (let (err, w'') = record_call (rc_RecordAttempt rec) canonical outcome rule state w'
                       in (r', res'\<lparr>re_RecordError := err\<rparr>, w''))) in
                case (cc_Identity c, rc_RecordAttemptIdentified rec) of
                  (Some i, Some f) \<Rightarrow>
                    (case bindIdentity cd c i (xe_bind_now xe) (xe_bind_id xe) r' rule canonical of
                       Some (canonical', ev) \<Rightarrow>
                         (let (err, w') = record_call (\<lambda>a oc ru st. f a oc ru st ev) canonical' outcome rule state w
                          in (r', res1\<lparr>re_Action := canonical', re_RecordError := err\<rparr>, w'))
                     | None \<Rightarrow>
                         (let res2 = res1\<lparr>re_IdentityFallback := True\<rparr>
                          in plain res2 (if cc_BeforeIdentityFallback c then emit (EvIdentityFallback res2) w else w)))
                | _ \<Rightarrow> plain res1 w)))"

definition start_facts ::
    "codec \<Rightarrow> exec_env \<Rightarrow> 's CoordinatorConfig \<Rightarrow> exec_Request \<Rightarrow> string \<Rightarrow> EffectClass \<Rightarrow> AuthorityStartRequest" where
  "start_facts cd xe c r actor class =
     \<lparr>as_ActorPrincipalID = actor, as_CorrelationID = en_ID (rq_inbound r), as_SourceProtocol = rq_lane r,
      as_Channel = rq_channel r, as_ConversationID = sc_Conversation (rq_scope r),
      as_Operation = ac_Operation (rq_action r), as_Arguments = rq_args r, as_EffectClass = class,
      as_At = xe_at xe,
      as_ResolveEvidence = (\<lambda>actionID. Resolve cd (xe_start_now xe) (xe_start_id xe) (xe_start_resolver xe)
         (rq_ingress r) (resolve_request c r actionID))\<rparr>"

text \<open>\<open>recordAuthorized\<close>; the first component says whether the action may run.\<close>

definition recordAuthorized ::
    "codec \<Rightarrow> exec_env \<Rightarrow> 's CoordinatorConfig \<Rightarrow> string \<Rightarrow> exec_Request \<Rightarrow> exec_Result \<Rightarrow> 's world \<Rightarrow>
     bool \<times> exec_Request \<times> exec_Result \<times> 's world" where
  "recordAuthorized cd xe c rule r res w =
     (if cc_StrictAuthority c \<and> ac_Effect (rq_action r) \<noteq> EffectPure
      then
        (case cc_Recorder c of
           None \<Rightarrow> (False, r, res\<lparr>re_AuthorizationIdentityError := True,
                      re_RecordError := Some ErrIdentityEvidenceMissing\<rparr>, w)
         | Some rec \<Rightarrow>
             if \<not> cc_PrincipalResolver c
             then (False, r, res\<lparr>re_AuthorizationIdentityError := True,
                      re_RecordError := Some ErrIdentityEvidenceMissing\<rparr>, w)
             else
               (case rc_StartAuthorization rec of
                  None \<Rightarrow> (False, r, res\<lparr>re_RecordError := Some ErrAuthorityEvidenceCorrupt\<rparr>, w)
                | Some f \<Rightarrow>
                    (let r' = refreshDurableEffect c r;
                         (ans, s) = f (start_facts cd xe c r' (pf_PrincipalID (ac_Principal (rq_action r')))
                                         (ac_Effect (rq_action r'))) (wo_store w);
                         w' = emit (EvStarted ans) (w\<lparr>wo_store := s\<rparr>) in
                     case ans of
                       Inl err \<Rightarrow> (False, r', res\<lparr>re_RecordError := Some err\<rparr>, w')
                     | Inr started \<Rightarrow>
                         (let a1 = (rq_action r')\<lparr>ac_ActionID := at_ActionID started,
                                ac_IntentID := at_IntentID started, ac_AuthorityRefs := at_AuthorityRefs started\<rparr>;
                              r1 = (case at_Evidence started of
                                 None \<Rightarrow> r'\<lparr>rq_action := a1\<rparr>
                               | Some ev \<Rightarrow> r'\<lparr>rq_evidence := Some ev,
                                     rq_action := a1\<lparr>ac_Principal := evidence_principal ev\<rparr>\<rparr>)
                          in (True, r1, res\<lparr>re_Action := rq_action r1\<rparr>, w')))))
      else
        (case cc_Recorder c of
           None \<Rightarrow> (True, r, res, w)
         | Some rec \<Rightarrow>
             (let r' = refreshDurableEffect c r; canonical = rq_action r'; res1 = res\<lparr>re_Action := canonical\<rparr>;
                  decided = (\<lambda>res' (err, w'). case err of
                      Some x \<Rightarrow> (False, r', res'\<lparr>re_RecordError := Some x\<rparr>, w') | None \<Rightarrow> (True, r', res', w')) in
              case rq_evidence r' of
                Some ev \<Rightarrow>
                  (let canonical' = bindAuthority c rule canonical; res2 = res1\<lparr>re_Action := canonical'\<rparr> in
                   case rc_RecordAttemptAuthenticated rec of
                     None \<Rightarrow> (False, r', res2\<lparr>re_AuthorizationIdentityError := True,
                               re_RecordError := Some ErrIdentityEvidenceMissing\<rparr>, w)
                   | Some f \<Rightarrow> decided res2 (record_call (\<lambda>a oc ru st. f a oc ru st ev)
                               canonical' ''allow'' rule StateAuthorized w))
              | None \<Rightarrow>
                  (case (cc_Identity c, rc_RecordAttemptIdentified rec) of
                     (Some i, Some f) \<Rightarrow>
                       (case bindIdentity cd c i (xe_bind_now xe) (xe_bind_id xe) r' rule canonical of
                          None \<Rightarrow> (False, r', res1\<lparr>re_AuthorizationIdentityError := True\<rparr>, w)
                        | Some (canonical', ev) \<Rightarrow>
                            decided (res1\<lparr>re_Action := canonical'\<rparr>)
                              (record_call (\<lambda>a oc ru st. f a oc ru st ev) canonical' ''allow'' rule StateAuthorized w))
                   | _ \<Rightarrow> decided res1 (record_call (rc_RecordAttempt rec) canonical ''allow'' rule StateAuthorized w)))))"

definition effectGateRule :: "EffectClass \<Rightarrow> EffectClass \<Rightarrow> bool \<Rightarrow> string" where
  "effectGateRule class ceiling requiresPrepare =
     (if ceiling \<noteq> EffectOther '''' \<and> Rank class > Rank ceiling then ''effect_ceiling''
      else if ceiling \<noteq> EffectOther '''' \<and> (class = EffectWriteIrreversible \<or> class = EffectCritical)
        then ''approval_unavailable''
      else if requiresPrepare then ''prepare_unavailable'' else '''')"

section \<open>Dispatch and close\<close>

definition tool_timeout :: "'s Executor \<Rightarrow> duration option" where
  "tool_timeout e = (if ex_perTool e > 0 then Some (ex_perTool e) else None)"

definition run_tool :: "duration option \<Rightarrow> Scope \<Rightarrow> string \<Rightarrow> Tool \<Rightarrow> string \<times> go_error option" where
  "run_tool tmo scope args t = (case t of PlainTool f \<Rightarrow> f tmo args | ScopedTool f \<Rightarrow> f tmo scope args)"

definition dispatch ::
    "'s Executor \<Rightarrow> exec_env \<Rightarrow> string \<Rightarrow> Scope \<Rightarrow> string \<Rightarrow> 's world \<Rightarrow>
     (string \<times> duration \<times> go_error option) \<times> 's world" where
  "dispatch e xe name scope args w =
     (case ex_tools e name of
        None \<Rightarrow> (('''', 0, Some ErrUnknownTool), w)
      | Some candidate \<Rightarrow>
          (let (output, err) = run_tool (tool_timeout e) scope args candidate
           in ((output, xe_run_end xe - xe_run_start xe, err), emit (EvDispatched name scope args (output, err)) w)))"

record invocationCapability =
  iv_action :: action_Envelope
  iv_toolName :: string
  iv_args :: string
  iv_scope :: Scope

record executionResult =
  er_output :: string
  er_latency :: duration
  er_toolErr :: "go_error option"
  er_outcome :: State
  er_digest :: string
  er_closeErr :: "go_error option"
  er_closeTime :: time

type_synonym 's closeExecution = "string \<Rightarrow> State \<Rightarrow> time \<Rightarrow> string \<Rightarrow> 's \<Rightarrow> go_error option \<times> 's"

definition invokeAndClose ::
    "codec \<Rightarrow> exec_env \<Rightarrow> 's Executor \<Rightarrow> invocationCapability \<Rightarrow> 's closeExecution option \<Rightarrow>
     (executionResult \<Rightarrow> 's world \<Rightarrow> 's world) \<Rightarrow> 's world \<Rightarrow> executionResult \<times> 's world" where
  "invokeAndClose cd xe e cap close beforeClose w =
     (let w1 = (if cc_InvocationProbe (ex_config e) then emit (EvProbed (iv_action cap)) w else w);
          ((output, latency, toolErr), w2) = dispatch e xe (iv_toolName cap) (iv_scope cap) (iv_args cap) w1;
          outcome = CloseStateAfterRun toolErr;
          digest = (if outcome = StateSucceeded then HashCanonical cd output else '''');
          result = \<lparr>er_output = output, er_latency = latency, er_toolErr = toolErr, er_outcome = outcome,
             er_digest = digest, er_closeErr = None, er_closeTime = 0\<rparr>;
          w3 = beforeClose result w2
      in case close of
           None \<Rightarrow> (result, w3)
         | Some cl \<Rightarrow>
             (let (err, s) = cl (ac_ActionID (iv_action cap)) outcome (xe_close_at xe) digest (wo_store w3)
              in (result\<lparr>er_closeErr := err, er_closeTime := xe_close_at xe\<rparr>,
                  emit (EvClosed (ac_ActionID (iv_action cap)) outcome (xe_close_at xe) digest err)
                    (w3\<lparr>wo_store := s\<rparr>))))"

definition immediateCloser :: "'s CoordinatorConfig \<Rightarrow> 's closeExecution option" where
  "immediateCloser c =
     (case cc_Recorder c of
        None \<Rightarrow> None
      | Some rec \<Rightarrow> Some (\<lambda>actionID state at digest s.
          if actionID = '''' then (None, s)
          else (case rc_FinishWithResult rec of
                  Some f \<Rightarrow> f actionID state at digest s
                | None \<Rightarrow> rc_Finish rec actionID state at s)))"

section \<open>Submission\<close>

text \<open>The answer to the rule \<open>approval_unavailable\<close>: park the action with the requester the
  recorder implements. The first component is true when the action is pending; otherwise
  \<open>Submit\<close> goes on to deny it.\<close>

definition parked :: "action_Envelope \<Rightarrow> string \<Rightarrow> exec_Result \<Rightarrow> exec_Result" where
  "parked a approvalID res = res\<lparr>re_Action := a, re_Branch := BranchPending, re_Rule := ''require_approval'',
     re_ApprovalID := approvalID\<rparr>"

definition park_strict ::
    "codec \<Rightarrow> exec_env \<Rightarrow> 's CoordinatorConfig \<Rightarrow> EffectClass \<Rightarrow> exec_Request \<Rightarrow> exec_Result \<Rightarrow> 's world \<Rightarrow>
     bool \<times> exec_Request \<times> exec_Result \<times> 's world" where
  "park_strict cd xe c class r res w =
     (case (Option.bind (cc_Recorder c) rc_RequestAuthorizationApproval, rq_evidence r) of
        (Some f, Some ev) \<Rightarrow>
          if \<not> cc_PrincipalResolver c then (False, r, res\<lparr>re_ApprovalIdentityError := True\<rparr>, w)
          else
            (let (ans, s) = f \<lparr>aq_Draft = rq_action r,
                   aq_Facts = start_facts cd xe c r (ev_ActorPrincipalID ev) class\<rparr> (wo_store w);
                 w' = emit (EvParked (rq_action r) (map_sum (\<lambda>x. x) aa_ApprovalID ans)) (w\<lparr>wo_store := s\<rparr>) in
             case ans of
               Inl err \<Rightarrow> (False, r, res\<lparr>re_ApprovalError := Some err\<rparr>, w')
             | Inr p \<Rightarrow>
                 (let a = (rq_action r)\<lparr>ac_ActionID := aa_ActionID p, ac_IntentID := aa_IntentID p,
                        ac_AuthorityRefs := aa_AuthorityRefs p, ac_Principal := evidence_principal (aa_Evidence p)\<rparr>
                  in (True, r\<lparr>rq_action := a\<rparr>, parked a (aa_ApprovalID p) res, w')))
      | _ \<Rightarrow> (False, r, res\<lparr>re_ApprovalIdentityError := True\<rparr>, w))"

definition park_call ::
    "(action_Envelope \<Rightarrow> string \<Rightarrow> string \<Rightarrow> 's \<Rightarrow> (go_error + string) \<times> 's) \<Rightarrow> action_Envelope \<Rightarrow>
     exec_Request \<Rightarrow> exec_Result \<Rightarrow> 's world \<Rightarrow> bool \<times> exec_Request \<times> exec_Result \<times> 's world" where
  "park_call f approved r res w =
     (let (ans, s) = f approved ''require_approval'' (rq_args r) (wo_store w);
          w' = emit (EvParked approved ans) (w\<lparr>wo_store := s\<rparr>)
      in case ans of
           Inl err \<Rightarrow> (False, r, res\<lparr>re_ApprovalError := Some err\<rparr>, w')
         | Inr approvalID \<Rightarrow> (True, r, parked approved approvalID res, w'))"

definition park ::
    "codec \<Rightarrow> exec_env \<Rightarrow> 's CoordinatorConfig \<Rightarrow> IdentityConfig \<Rightarrow> EffectClass \<Rightarrow> exec_Request \<Rightarrow> exec_Result \<Rightarrow>
     's world \<Rightarrow> bool \<times> exec_Request \<times> exec_Result \<times> 's world" where
  "park cd xe c i class r res w =
     (if cc_StrictAuthority c then park_strict cd xe c class r res w
      else (case rq_evidence r of
         Some ev \<Rightarrow>
           (case Option.bind (cc_Recorder c) rc_RequestApprovalAuthenticated of
              None \<Rightarrow> (False, r, res\<lparr>re_ApprovalIdentityError := True\<rparr>, w)
            | Some f \<Rightarrow>
                (let r' = refreshDurableEffect c r
                 in park_call (\<lambda>a ru ar. f a ru ar ev) (bindAuthority c ''require_approval'' (rq_action r')) r' res w))
       | None \<Rightarrow>
           (case Option.bind (cc_Recorder c) rc_RequestApproval of
              None \<Rightarrow> (False, r, res, w)
            | Some f \<Rightarrow>
                (let r' = refreshDurableEffect c r in
                 case bindIdentity cd c i (xe_park_now xe) (xe_park_id xe) r' ''require_approval'' (rq_action r') of
                   None \<Rightarrow> (False, r', res\<lparr>re_ApprovalIdentityError := True\<rparr>, w)
                 | Some (approved, _) \<Rightarrow> park_call f approved r' res w))))"

text \<open>A refusal: the branch and rule, the observer, and the best-effort record.\<close>

definition refuse ::
    "codec \<Rightarrow> exec_env \<Rightarrow> 's CoordinatorConfig \<Rightarrow> Branch \<Rightarrow> string \<Rightarrow> string \<Rightarrow> State \<Rightarrow> exec_Request \<Rightarrow> exec_Result \<Rightarrow>
     's world \<Rightarrow> exec_Request \<times> exec_Result \<times> 's world" where
  "refuse cd xe c branch outcome rule state r res w =
     (let res' = res\<lparr>re_Branch := branch, re_Rule := rule\<rparr>
      in recordAttempt cd xe c outcome rule state r res' (observeDecision c res' w))"

definition execute ::
    "codec \<Rightarrow> exec_env \<Rightarrow> 's Executor \<Rightarrow> string \<Rightarrow> exec_Request \<Rightarrow> exec_Result \<Rightarrow> 's world \<Rightarrow>
     exec_Result \<times> go_error option \<times> exec_Request \<times> 's world" where
  "execute cd xe e rule r res w =
     (let c = ex_config e;
          (ok, r', res1, w1) = recordAuthorized cd xe c rule r res w in
      if \<not> ok
      then (let res2 = res1\<lparr>re_Branch := BranchDenied, re_Rule := ''record_failed''\<rparr>
            in (res2, None, r', observeDecision c res2 w1))
      else
        (let res2 = res1\<lparr>re_Branch := BranchExecuted, re_Rule := rule\<rparr>;
             filled = (\<lambda>er. res2\<lparr>re_Output := er_output er, re_Latency := er_latency er, re_ToolError := er_toolErr er\<rparr>);
             (er, w2) = invokeAndClose cd xe e
                \<lparr>iv_action = re_Action res1, iv_toolName = rq_rawName r', iv_args = rq_args r', iv_scope = rq_scope r'\<rparr>
                (immediateCloser c)
                (\<lambda>er w'. if cc_BeforeClose c then emit (EvBeforeClose (filled er)) w' else w') w1
         in ((filled er)\<lparr>re_CloseError := er_closeErr er\<rparr>, er_toolErr er, r', w2)))"

text \<open>The effect gate: it stands when an identity and a classifier are configured, and refuses by the
  rule of a declared effect.\<close>

definition gated ::
    "codec \<Rightarrow> exec_env \<Rightarrow> 's Executor \<Rightarrow> string \<Rightarrow> exec_Request \<Rightarrow> exec_Result \<Rightarrow> 's world \<Rightarrow>
     exec_Result \<times> go_error option \<times> exec_Request \<times> 's world" where
  "gated cd xe e grantRule r res w =
     (let c = ex_config e in
      case (cc_Identity c, cc_EffectClassifier c) of
        (Some i, Some classify) \<Rightarrow>
          (let descriptor = classify (rq_rawName r);
               class = (case descriptor of Some d \<Rightarrow> ed_Class d | None \<Rightarrow> unclassified);
               r1 = r\<lparr>rq_action := (rq_action r)\<lparr>ac_Effect := class\<rparr>\<rparr>;
               res1 = res\<lparr>re_Action := rq_action r1\<rparr>;
               rule = (case descriptor of Some d \<Rightarrow> effectGateRule (ed_Class d) (ig_EffectCeiling i) False | None \<Rightarrow> '''') in
           if rule = '''' then execute cd xe e grantRule r1 res1 w
           else
             (let (pending, r2, res2, w2) =
                    (if rule = ''approval_unavailable'' then park cd xe c i class r1 res1 w else (False, r1, res1, w))
              in if pending then (res2, None, r2, w2)
                 else (let (r3, res3, w3) = refuse cd xe c BranchDenied ''deny'' rule StateDenied r2 res2 w2
                       in (res3, None, r3, w3))))
      | _ \<Rightarrow> execute cd xe e grantRule r res w)"

definition zero_action :: action_Envelope where
  "zero_action = \<lparr>ac_SchemaVersion = 0, ac_ActionID = '''', ac_CorrelationID = '''',
     ac_Source = \<lparr>so_Kind = '''', so_Protocol = '''', so_Channel = ''''\<rparr>,
     ac_Operation = \<lparr>ao_Namespace = '''', ao_Name = '''', ao_Version = 0\<rparr>, ac_ParametersDigest = '''',
     ac_Effect = EffectOther '''', ac_RequestedAt = 0, ac_Principal = no_principal, ac_IntentID = '''',
     ac_AuthorityRefs = []\<rparr>"

definition new_result :: "action_Envelope \<Rightarrow> string \<Rightarrow> string \<Rightarrow> bool \<Rightarrow> exec_Result" where
  "new_result a name args ungoverned = \<lparr>re_Action = a, re_Name = name, re_Arguments = args, re_Branch = BranchNone,
     re_Rule = '''', re_Decision = zero_decision, re_Ungoverned = ungoverned, re_Output = '''', re_Latency = 0,
     re_ApprovalID = '''', re_ToolError = None, re_RecordError = None, re_CloseError = None,
     re_IdentityFallback = False, re_AuthorizationIdentityError = False, re_ApprovalIdentityError = False,
     re_ApprovalError = None\<rparr>"

text \<open>The decision of a submitted request whose identity is settled.\<close>

definition decide ::
    "codec \<Rightarrow> exec_env \<Rightarrow> 's Executor \<Rightarrow> DecisionPlan \<Rightarrow> exec_Request \<Rightarrow> exec_Result \<Rightarrow> 's world \<Rightarrow>
     exec_Result \<times> go_error option \<times> exec_Request \<times> 's world" where
  "decide cd xe e plan r res w =
     (let c = ex_config e;
          stop = (\<lambda>err (r', res', w'). (res', err, r', w')) in
      if \<not> rq_known r
      then stop (Some ErrUnknownTool) (refuse cd xe c BranchUnknown ''deny'' ''unknown_tool'' StateDenied r res w)
      else if cc_EffectClassifier c \<noteq> None \<and> \<not> rq_effectDeclared r
      then stop None (refuse cd xe c BranchEffectUndeclared ''deny'' ''effect_undeclared'' StateDenied r res w)
      else if dp_governed plan
      then
        (let decided = dp_decisions plan (rq_rawName r);
             res1 = res\<lparr>re_Decision := (case decided of Some d \<Rightarrow> d | None \<Rightarrow> zero_decision)\<rparr> in
         case decided of
           None \<Rightarrow> stop None (refuse cd xe c BranchDenied ''deny'' (ToolRule_string ToolRuleNotGranted) StateDenied r res1 w)
         | Some d \<Rightarrow>
             if td_Mode d = ToolShadow
             then stop None (refuse cd xe c BranchShadowed ''shadow'' ''shadow'' StateShadowed r res1 w)
             else if td_Mode d \<noteq> ToolAllow
             then stop None (refuse cd xe c BranchDenied ''deny'' (ToolRule_string (td_Rule d)) StateDenied r res1 w)
             else gated cd xe e ''granted'' r res1 w)
      else gated cd xe e ''ungoverned'' r res w)"

definition Submit ::
    "codec \<Rightarrow> exec_env \<Rightarrow> 's Executor \<Rightarrow> exec_Request option \<Rightarrow> 's world \<Rightarrow>
     exec_Result \<times> go_error option \<times> exec_Request option \<times> 's world" where
  "Submit cd xe e request w =
     (case (validateRequest cd e request, request) of
        (None, Some r) \<Rightarrow>
          (case (rq_use r, rq_plan r) of
             (Some cell, Some plan) \<Rightarrow>
               if cell \<in> wo_claimed w
               then (new_result zero_action '''' '''' False, Some ErrExecutionAlreadySubmitted, request, w)
               else
                 (let w1 = w\<lparr>wo_claimed := insert cell (wo_claimed w)\<rparr>;
                      res = new_result (rq_action r) (rq_rawName r) (rq_args r) (\<not> dp_governed plan);
                      finish = (\<lambda>(res', err, r', w'). (res', err, Some r', w')) in
                  if \<not> cc_PrincipalResolver (ex_config e) then finish (decide cd xe e plan r res w1)
                  else (case Resolve cd (xe_resolve_now xe) (xe_resolve_id xe) (xe_resolver xe) (rq_ingress r)
                               (resolve_request (ex_config e) r (ac_ActionID (rq_action r))) of
                          Inl err \<Rightarrow> (res, Some err, Some r, w1)
                        | Inr ev \<Rightarrow>
                            (let r1 = r\<lparr>rq_evidence := Some ev,
                                   rq_action := (rq_action r)\<lparr>ac_Principal := evidence_principal ev\<rparr>\<rparr>
                             in finish (decide cd xe e plan r1 (res\<lparr>re_Action := rq_action r1\<rparr>) w1))))
           | _ \<Rightarrow> (new_result zero_action '''' '''' False, Some ErrExecutionBindingMismatch, request, w))
      | (Some err, _) \<Rightarrow> (new_result zero_action '''' '''' False, Some err, request, w)
      | (None, None) \<Rightarrow> (new_result zero_action '''' '''' False, Some ErrExecutionBindingMismatch, request, w))"

section \<open>What a submission does to the outside\<close>

definition is_dispatch :: "exec_event \<Rightarrow> bool" where
  "is_dispatch ev = (case ev of EvDispatched _ _ _ _ \<Rightarrow> True | _ \<Rightarrow> False)"

definition dispatches :: "exec_event list \<Rightarrow> nat" where
  "dispatches evs = length (filter is_dispatch evs)"

lemma dispatches_simps [simp]:
  "dispatches [] = 0" "dispatches (xs @ ys) = dispatches xs + dispatches ys"
  "dispatches (ev # evs) = (if is_dispatch ev then 1 else 0) + dispatches evs"
  by (simp_all add: dispatches_def)

lemma is_dispatch_simps [simp]:
  "is_dispatch (EvDispatched n sc args out)" "\<not> is_dispatch (EvObserved res)" "\<not> is_dispatch (EvIdentityFallback res)"
  "\<not> is_dispatch (EvRecorded a oc ru st err)" "\<not> is_dispatch (EvStarted ans)" "\<not> is_dispatch (EvParked a pid)"
  "\<not> is_dispatch (EvProbed a)" "\<not> is_dispatch (EvBeforeClose res)" "\<not> is_dispatch (EvClosed aid st tm dg err)"
  by (simp_all add: is_dispatch_def)

text \<open>\<open>adds evs w w'\<close>: the step from \<open>w\<close> to \<open>w'\<close> appends the events \<open>evs\<close> and
  claims no cell.\<close>

definition adds :: "exec_event list \<Rightarrow> 's world \<Rightarrow> 's world \<Rightarrow> bool" where
  "adds evs w w' \<longleftrightarrow> wo_trace w' = wo_trace w @ evs \<and> wo_claimed w' = wo_claimed w"

lemma adds_refl [intro!]: "adds [] w w"
  by (simp add: adds_def)

lemma adds_emit [intro!]: "adds [ev] w (emit ev w)" "adds [ev] w (emit ev (w\<lparr>wo_store := s\<rparr>))"
  by (simp_all add: adds_def emit_def)

lemma adds_trans: "adds xs w w' \<Longrightarrow> adds ys w' w'' \<Longrightarrow> adds (xs @ ys) w w''"
  by (simp add: adds_def)

definition quiet :: "'s world \<Rightarrow> 's world \<Rightarrow> bool" where
  "quiet w w' \<longleftrightarrow> (\<exists>evs. adds evs w w' \<and> dispatches evs = 0)"

lemma quiet_refl [intro!, simp]: "quiet w w"
  unfolding quiet_def by (rule exI [of _ "[]"]) auto

lemma quiet_emit [intro, simp]: "\<not> is_dispatch ev \<Longrightarrow> quiet w (emit ev w)"
    "\<not> is_dispatch ev \<Longrightarrow> quiet w (emit ev (w\<lparr>wo_store := s\<rparr>))"
  unfolding quiet_def by (rule exI [of _ "[ev]"], auto)+

lemma quiet_trans: "quiet w w' \<Longrightarrow> quiet w' w'' \<Longrightarrow> quiet w w''"
proof -
  assume "quiet w w'" "quiet w' w''"
  then obtain xs ys where "adds xs w w'" "dispatches xs = 0" "adds ys w' w''" "dispatches ys = 0"
    unfolding quiet_def by blast
  then show ?thesis unfolding quiet_def by (intro exI [of _ "xs @ ys"]) (auto intro: adds_trans)
qed

lemma quiet_emit_then: "quiet (emit ev w) w' \<Longrightarrow> \<not> is_dispatch ev \<Longrightarrow> quiet w w'"
  using quiet_trans quiet_emit(1) by blast

lemma record_call_adds:
  "record_call f a oc ru st w = (err, w') \<Longrightarrow> adds [EvRecorded a oc ru st err] w w'"
  by (auto simp: record_call_def split: prod.splits)

lemma record_call_quiet: "record_call f a oc ru st w = (err, w') \<Longrightarrow> quiet w w'"
  unfolding quiet_def using record_call_adds by (fastforce intro: exI [of _ "[EvRecorded a oc ru st err]"])

lemma observeDecision_quiet: "quiet w (observeDecision c res w)"
  by (auto simp: observeDecision_def)

lemma refreshDurableEffect_fields [simp]:
  "rq_rawName (refreshDurableEffect c r) = rq_rawName r" "rq_args (refreshDurableEffect c r) = rq_args r"
  "rq_scope (refreshDurableEffect c r) = rq_scope r" "rq_evidence (refreshDurableEffect c r) = rq_evidence r"
  "rq_use (refreshDurableEffect c r) = rq_use r" "rq_known (refreshDurableEffect c r) = rq_known r"
  by (simp_all add: refreshDurableEffect_def split: option.splits)

lemma recordAttempt_quiet:
  assumes "recordAttempt cd xe c oc ru st r res w = (r', res', w')"
  shows "quiet w w' \<and> re_Branch res' = re_Branch res"
  using assms
  by (auto simp: recordAttempt_def Let_def split: option.splits prod.splits if_splits
      intro: quiet_emit_then dest!: record_call_quiet)

lemma refuse_quiet:
  assumes "refuse cd xe c b oc ru st r res w = (r', res', w')"
  shows "quiet w w' \<and> re_Branch res' = b"
proof -
  let ?res = "res\<lparr>re_Branch := b, re_Rule := ru\<rparr>"
  have "recordAttempt cd xe c oc ru st r ?res (observeDecision c ?res w) = (r', res', w')"
    using assms by (simp add: refuse_def Let_def)
  from recordAttempt_quiet [OF this] show ?thesis
    using quiet_trans [OF observeDecision_quiet] by (metis (no_types, lifting) exec_Result.ext_inject
        exec_Result.surjective exec_Result.update_convs(4) exec_Result.update_convs(5))
qed

lemma park_quiet:
  assumes "park cd xe c i class r res w = (p, r', res', w')"
  shows "quiet w w' \<and> (p \<longrightarrow> re_Branch res' = BranchPending)"
  using assms
  by (auto simp: park_def park_strict_def park_call_def parked_def Let_def
      split: option.splits prod.splits if_splits sum.splits)

text \<open>\<open>admitted a evs\<close>: the events hold a successful durable record that the action \<open>a\<close> is
  authorised, or its committed start.\<close>

definition admitted :: "action_Envelope \<Rightarrow> exec_event list \<Rightarrow> bool" where
  "admitted a evs \<longleftrightarrow> (\<exists>ru. EvRecorded a ''allow'' ru StateAuthorized None \<in> set evs) \<or>
     (\<exists>st. EvStarted (Inr st) \<in> set evs \<and> at_ActionID st = ac_ActionID a)"

lemma recordAuthorized_adds:
  assumes "recordAuthorized cd xe c ru r res w = (ok, r', res', w')"
  shows "\<exists>evs. adds evs w w' \<and> dispatches evs = 0 \<and> rq_rawName r' = rq_rawName r \<and> rq_args r' = rq_args r \<and>
    rq_scope r' = rq_scope r \<and> (ok \<and> cc_Recorder c \<noteq> None \<longrightarrow> admitted (re_Action res') evs)"
proof (cases "cc_Recorder c")
  case None
  then show ?thesis using assms
    by (intro exI [of _ "[]"]) (auto simp: recordAuthorized_def split: if_splits)
next
  case (Some rec)
  show ?thesis
  proof (cases "cc_StrictAuthority c \<and> ac_Effect (rq_action r) \<noteq> EffectPure")
    case True
    show ?thesis
    proof (cases "\<not> cc_PrincipalResolver c \<or> rc_StartAuthorization rec = None")
      case True
      then show ?thesis using assms Some \<open>cc_StrictAuthority c \<and> _\<close>
        by (intro exI [of _ "[]"]) (auto simp: recordAuthorized_def split: option.splits if_splits)
    next
      case False
      then show ?thesis using assms Some \<open>cc_StrictAuthority c \<and> _\<close>
        by (auto simp: recordAuthorized_def Let_def admitted_def split: option.splits prod.splits sum.splits
            intro!: exI [of _ "[EvStarted _]"])
    qed
  next
    case False
    have call: "\<exists>evs. adds evs w w2 \<and> dispatches evs = 0 \<and> (err = None \<longrightarrow> admitted a evs)"
      if "record_call f a ''allow'' ru StateAuthorized w = (err, w2)" for f a err w2
      using record_call_adds [OF that]
      by (intro exI [of _ "[EvRecorded a ''allow'' ru StateAuthorized err]"]) (auto simp: admitted_def)
    have none: "\<exists>evs. adds evs w w \<and> dispatches evs = 0" by (rule exI [of _ "[]"]) auto
    from False Some assms show ?thesis
      by (auto simp: recordAuthorized_def Let_def none split: option.splits prod.splits if_splits dest!: call)
  qed
qed

text \<open>An admitted run: exactly one dispatch of the request's own tool, arguments and scope, with the
  admission before it and, when there is a store, the close on the state of its outcome after it.\<close>

definition admitted_run ::
    "'s Executor \<Rightarrow> exec_Request \<Rightarrow> exec_Result \<Rightarrow> exec_event list \<Rightarrow> bool" where
  "admitted_run e r res evs \<longleftrightarrow> (\<exists>pre out err post. evs = pre @ EvDispatched (rq_rawName r) (rq_scope r) (rq_args r) (out, err) # post \<and>
     dispatches pre = 0 \<and> dispatches post = 0 \<and> re_ToolError res = err \<and> re_Output res = out \<and>
     (cc_Recorder (ex_config e) \<noteq> None \<longrightarrow> admitted (re_Action res) pre \<and>
       (\<exists>tm dg cerr. last post = EvClosed (ac_ActionID (re_Action res)) (CloseStateAfterRun err) tm dg cerr \<and>
          post \<noteq> [] \<and> re_CloseError res = cerr)))"

lemma invokeAndClose_adds:
  assumes "invokeAndClose cd xe e cap close bc w = (er, w')"
    and bc: "\<And>er w. \<exists>evs. adds evs w (bc er w) \<and> dispatches evs = 0"
    and "ex_tools e (iv_toolName cap) = Some t"
  shows "\<exists>pre out post. adds (pre @ EvDispatched (iv_toolName cap) (iv_scope cap) (iv_args cap) (out, er_toolErr er) # post) w w' \<and>
    dispatches pre = 0 \<and> dispatches post = 0 \<and> er_output er = out \<and> er_outcome er = CloseStateAfterRun (er_toolErr er) \<and>
    (close \<noteq> None \<longrightarrow> post \<noteq> [] \<and> last post =
       EvClosed (ac_ActionID (iv_action cap)) (er_outcome er) (xe_close_at xe) (er_digest er) (er_closeErr er))"
proof -
  define pre where "pre = (if cc_InvocationProbe (ex_config e) then [EvProbed (iv_action cap)] else [])"
  define w1 where "w1 = (if cc_InvocationProbe (ex_config e) then emit (EvProbed (iv_action cap)) w else w)"
  obtain out terr where run: "run_tool (tool_timeout e) (iv_scope cap) (iv_args cap) t = (out, terr)"
    by (cases "run_tool (tool_timeout e) (iv_scope cap) (iv_args cap) t")
  define ev where "ev = EvDispatched (iv_toolName cap) (iv_scope cap) (iv_args cap) (out, terr)"
  define er0 where "er0 = \<lparr>er_output = out, er_latency = xe_run_end xe - xe_run_start xe, er_toolErr = terr,
    er_outcome = CloseStateAfterRun terr,
    er_digest = (if CloseStateAfterRun terr = StateSucceeded then HashCanonical cd out else ''''),
    er_closeErr = None, er_closeTime = 0\<rparr>"
  define w3 where "w3 = bc er0 (emit ev w1)"
  have a1: "adds pre w w1" "dispatches pre = 0" by (auto simp: pre_def w1_def)
  obtain obs where o: "adds obs (emit ev w1) w3" "dispatches obs = 0" using bc w3_def by blast
  have a3: "adds (pre @ [ev] @ obs) w w3" using adds_trans [OF a1(1) adds_trans [OF adds_emit(1) o(1)]] by simp
  show ?thesis
  proof (cases close)
    case None
    then have "er = er0 \<and> w' = w3"
      using assms(1,3) run
      by (simp add: invokeAndClose_def dispatch_def Let_def w1_def [symmetric] ev_def [symmetric] er0_def [symmetric]
          w3_def [symmetric])
    then show ?thesis using None a1 a3 o(2)
      by (intro exI [of _ pre] exI [of _ out] exI [of _ obs]) (auto simp: er0_def ev_def)
  next
    case (Some cl)
    obtain cerr s where cl: "cl (ac_ActionID (iv_action cap)) (CloseStateAfterRun terr) (xe_close_at xe)
        (er_digest er0) (wo_store w3) = (cerr, s)"
      by (cases "cl (ac_ActionID (iv_action cap)) (CloseStateAfterRun terr) (xe_close_at xe) (er_digest er0) (wo_store w3)")
    define cev where "cev = EvClosed (ac_ActionID (iv_action cap)) (CloseStateAfterRun terr) (xe_close_at xe) (er_digest er0) cerr"
    have "er = er0\<lparr>er_closeErr := cerr, er_closeTime := xe_close_at xe\<rparr> \<and> w' = emit cev (w3\<lparr>wo_store := s\<rparr>)"
      using assms(1,3) run Some cl
      by (simp add: invokeAndClose_def dispatch_def Let_def w1_def [symmetric] ev_def [symmetric] er0_def [symmetric]
          w3_def [symmetric] cev_def) (simp add: er0_def)
    then show ?thesis
      using Some a1 o(2) adds_trans [OF a3 adds_emit(2) [of cev w3 s]]
      by (intro exI [of _ pre] exI [of _ out] exI [of _ "obs @ [cev]"]) (auto simp: er0_def ev_def cev_def)
  qed
qed

lemma execute_adds:
  assumes "execute cd xe e ru r res w = (res', err, r', w')" and "ex_tools e (rq_rawName r) = Some t"
  shows "\<exists>evs. adds evs w w' \<and>
    (if re_Branch res' = BranchExecuted then admitted_run e r res' evs \<and> err = re_ToolError res'
     else re_Branch res' = BranchDenied \<and> dispatches evs = 0 \<and> err = None)"
proof -
  obtain ok r1 res1 w1 where ra: "recordAuthorized cd xe (ex_config e) ru r res w = (ok, r1, res1, w1)"
    by (cases "recordAuthorized cd xe (ex_config e) ru r res w") auto
  from recordAuthorized_adds [OF ra] obtain evs where evs: "adds evs w w1" "dispatches evs = 0"
    "rq_rawName r1 = rq_rawName r" "rq_args r1 = rq_args r" "rq_scope r1 = rq_scope r"
    "ok \<and> cc_Recorder (ex_config e) \<noteq> None \<Longrightarrow> admitted (re_Action res1) evs" by blast
  show ?thesis
  proof (cases ok)
    case False
    then have res': "res' = res1\<lparr>re_Branch := BranchDenied, re_Rule := ''record_failed''\<rparr>" "err = None"
      and w': "w' = observeDecision (ex_config e) res' w1"
      using assms(1) ra by (auto simp: execute_def Let_def)
    obtain ys where "adds ys w1 w'" "dispatches ys = 0"
      using observeDecision_quiet [of w1 "ex_config e" res'] w' unfolding quiet_def by blast
    then show ?thesis using res' adds_trans [OF evs(1)] evs(2) by (intro exI [of _ "evs @ ys"]) auto
  next
    case True
    let ?res2 = "res1\<lparr>re_Branch := BranchExecuted, re_Rule := ru\<rparr>"
    let ?filled = "\<lambda>er. ?res2\<lparr>re_Output := er_output er, re_Latency := er_latency er, re_ToolError := er_toolErr er\<rparr>"
    let ?cap = "\<lparr>iv_action = re_Action res1, iv_toolName = rq_rawName r1, iv_args = rq_args r1, iv_scope = rq_scope r1\<rparr>"
    let ?bc = "\<lambda>er w'. if cc_BeforeClose (ex_config e) then emit (EvBeforeClose (?filled er)) w' else w'"
    obtain er w2 where ic: "invokeAndClose cd xe e ?cap (immediateCloser (ex_config e)) ?bc w1 = (er, w2)"
      by (cases "invokeAndClose cd xe e ?cap (immediateCloser (ex_config e)) ?bc w1")
    have res': "res' = (?filled er)\<lparr>re_CloseError := er_closeErr er\<rparr>" "err = er_toolErr er" "w' = w2"
      using assms(1) ra True ic by (auto simp: execute_def Let_def)
    have bc: "\<exists>evs. adds evs w (?bc er w) \<and> dispatches evs = 0" for er w
      by (rule exI [of _ "if cc_BeforeClose (ex_config e) then [EvBeforeClose (?filled er)] else []"]) auto
    have t: "ex_tools e (iv_toolName ?cap) = Some t" using assms(2) evs(3) by simp
    obtain pre out post where p: "adds (pre @ EvDispatched (rq_rawName r) (rq_scope r) (rq_args r) (out, er_toolErr er) # post) w1 w2"
        "dispatches pre = 0" "dispatches post = 0" "er_output er = out" "er_outcome er = CloseStateAfterRun (er_toolErr er)"
        "immediateCloser (ex_config e) \<noteq> None \<Longrightarrow> post \<noteq> [] \<and> last post =
           EvClosed (ac_ActionID (re_Action res1)) (er_outcome er) (xe_close_at xe) (er_digest er) (er_closeErr er)"
      using invokeAndClose_adds [OF ic bc t] evs(3,4,5) by auto
    have "admitted_run e r res' (evs @ pre @ EvDispatched (rq_rawName r) (rq_scope r) (rq_args r) (out, er_toolErr er) # post)"
      unfolding admitted_run_def using p evs(2,6) True res'(1)
      by (intro exI [of _ "evs @ pre"] exI [of _ out] exI [of _ "er_toolErr er"] exI [of _ post])
        (auto simp: immediateCloser_def admitted_def)
    then show ?thesis using res' adds_trans [OF evs(1) p(1)] by (intro exI) auto
  qed
qed

lemma invokeAndClose_unknown:
  assumes "invokeAndClose cd xe e cap close bc w = (er, w')" and "\<And>er w. quiet w (bc er w)"
    and "ex_tools e (iv_toolName cap) = None"
  shows "quiet w w'"
proof -
  let ?w1 = "if cc_InvocationProbe (ex_config e) then emit (EvProbed (iv_action cap)) w else w"
  have q1: "quiet w ?w1" by auto
  have q: "quiet w (bc r ?w1)" for r using quiet_trans [OF q1 assms(2)] .
  show ?thesis
  proof (cases close)
    case None
    with assms(1,3) q show ?thesis by (auto simp: invokeAndClose_def dispatch_def Let_def)
  next
    case (Some cl)
    with assms(1,3) q show ?thesis
      by (auto simp: invokeAndClose_def dispatch_def Let_def split: prod.splits intro!: quiet_trans [OF q quiet_emit(2)])
  qed
qed

lemma execute_dispatch:
  assumes "execute cd xe e ru r res w = (res', err, r', w')"
  shows "\<exists>evs. adds evs w w' \<and> (dispatches evs = 0 \<or>
    re_Branch res' = BranchExecuted \<and> admitted_run e r res' evs \<and> err = re_ToolError res')"
proof (cases "ex_tools e (rq_rawName r)")
  case (Some t)
  from execute_adds [OF assms this] show ?thesis by (auto split: if_splits)
next
  case None
  obtain ok r1 res1 w1 where ra: "recordAuthorized cd xe (ex_config e) ru r res w = (ok, r1, res1, w1)"
    by (cases "recordAuthorized cd xe (ex_config e) ru r res w") auto
  have q1: "quiet w w1" and n: "rq_rawName r1 = rq_rawName r"
    using recordAuthorized_adds [OF ra] unfolding quiet_def by blast+
  have "quiet w1 w'"
  proof (cases ok)
    case False
    then show ?thesis using assms ra observeDecision_quiet by (auto simp: execute_def Let_def)
  next
    case True
    with assms ra None n show ?thesis
      by (auto simp: execute_def Let_def split: prod.splits elim!: invokeAndClose_unknown intro: quiet_emit(1))
  qed
  with q1 have "quiet w w'" by (rule quiet_trans)
  then show ?thesis unfolding quiet_def by blast
qed

definition gate_passed :: "'s CoordinatorConfig \<Rightarrow> string \<Rightarrow> bool" where
  "gate_passed c name \<longleftrightarrow> (\<forall>i classify d. cc_Identity c = Some i \<and> cc_EffectClassifier c = Some classify \<and>
     classify name = Some d \<longrightarrow> effectGateRule (ed_Class d) (ig_EffectCeiling i) False = '''')"

lemma quiet_adds: "quiet w w' \<Longrightarrow> \<exists>evs. adds evs w w' \<and> (dispatches evs = 0 \<or> P evs)"
  unfolding quiet_def by blast

lemma gated_dispatch:
  assumes "gated cd xe e ru r res w = (res', err, r', w')"
  shows "\<exists>evs. adds evs w w' \<and> (dispatches evs = 0 \<or>
    re_Branch res' = BranchExecuted \<and> admitted_run e r res' evs \<and> err = re_ToolError res' \<and>
    gate_passed (ex_config e) (rq_rawName r))"
proof (cases "\<exists>i classify. cc_Identity (ex_config e) = Some i \<and> cc_EffectClassifier (ex_config e) = Some classify")
  case False
  then have "execute cd xe e ru r res w = (res', err, r', w')" "gate_passed (ex_config e) (rq_rawName r)"
    using assms by (auto simp: gated_def gate_passed_def Let_def split: option.splits)
  with execute_dispatch show ?thesis by blast
next
  case True
  then obtain i classify where i: "cc_Identity (ex_config e) = Some i" "cc_EffectClassifier (ex_config e) = Some classify"
    by blast
  let ?effect = "case classify (rq_rawName r) of Some d \<Rightarrow> ed_Class d | None \<Rightarrow> unclassified"
  let ?rule = "case classify (rq_rawName r) of Some d \<Rightarrow> effectGateRule (ed_Class d) (ig_EffectCeiling i) False | None \<Rightarrow> ''''"
  let ?r1 = "r\<lparr>rq_action := (rq_action r)\<lparr>ac_Effect := ?effect\<rparr>\<rparr>"
  let ?res1 = "res\<lparr>re_Action := rq_action ?r1\<rparr>"
  show ?thesis
  proof (cases "?rule = ''''")
    case True
    then have "execute cd xe e ru ?r1 ?res1 w = (res', err, r', w')"
      using assms i by (simp add: gated_def Let_def)
    moreover have "admitted_run e ?r1 res' evs = admitted_run e r res' evs" for evs
      by (simp add: admitted_run_def)
    moreover have "gate_passed (ex_config e) (rq_rawName r)"
      using True i by (auto simp: gate_passed_def)
    ultimately show ?thesis using execute_dispatch by metis
  next
    case False
    obtain p r2 res2 w2 where p: "(if ?rule = ''approval_unavailable''
        then park cd xe (ex_config e) i ?effect ?r1 ?res1 w else (False, ?r1, ?res1, w)) = (p, r2, res2, w2)"
      by (cases "if ?rule = ''approval_unavailable''
        then park cd xe (ex_config e) i ?effect ?r1 ?res1 w else (False, ?r1, ?res1, w)") auto
    have q: "quiet w w2" using p by (auto split: if_splits dest: park_quiet)
    obtain r3 res3 w3 where rf: "refuse cd xe (ex_config e) BranchDenied ''deny'' ?rule StateDenied r2 res2 w2 = (r3, res3, w3)"
      by (cases "refuse cd xe (ex_config e) BranchDenied ''deny'' ?rule StateDenied r2 res2 w2") auto
    have "w' = (if p then w2 else w3)"
      using assms i False p rf by (simp add: gated_def Let_def split: if_splits)
    then have "quiet w w'" using q quiet_trans [OF q] refuse_quiet [OF rf] by auto
    then show ?thesis by (rule quiet_adds)
  qed
qed

lemma decide_dispatch:
  assumes "decide cd xe e plan r res w = (res', err, r', w')"
  shows "\<exists>evs. adds evs w w' \<and> (dispatches evs = 0 \<or>
    re_Branch res' = BranchExecuted \<and> admitted_run e r res' evs \<and> err = re_ToolError res' \<and>
    gate_passed (ex_config e) (rq_rawName r) \<and> rq_known r \<and>
    (cc_EffectClassifier (ex_config e) \<noteq> None \<longrightarrow> rq_effectDeclared r) \<and>
    (dp_governed plan \<longrightarrow> (\<exists>d. dp_decisions plan (rq_rawName r) = Some d \<and> td_Mode d = ToolAllow)))"
proof -
  have stop: "quiet w w'"
    if "(\<lambda>(r', res', w'). (res', x, r', w')) (refuse cd xe (ex_config e) b oc ru st r rs w) = (res', err, r', w')"
    for x b oc ru st rs
  proof -
    obtain r1 res1 w1 where rf: "refuse cd xe (ex_config e) b oc ru st r rs w = (r1, res1, w1)"
      by (cases "refuse cd xe (ex_config e) b oc ru st r rs w") auto
    with that refuse_quiet [OF rf] show ?thesis by simp
  qed
  show ?thesis
  proof (cases "\<not> rq_known r \<or> (cc_EffectClassifier (ex_config e) \<noteq> None \<and> \<not> rq_effectDeclared r)")
    case True
    then show ?thesis using assms by (intro quiet_adds) (auto simp: decide_def Let_def split: if_splits intro: stop)
  next
    case known: False
    show ?thesis
    proof (cases "dp_governed plan")
      case False
      then have "gated cd xe e ''ungoverned'' r res w = (res', err, r', w')"
        using assms known by (auto simp: decide_def Let_def split: if_splits)
      from gated_dispatch [OF this] False known show ?thesis by blast
    next
      case True
      show ?thesis
      proof (cases "dp_decisions plan (rq_rawName r)")
        case None
        then show ?thesis using assms known True
          by (intro quiet_adds) (auto simp: decide_def Let_def split: if_splits intro: stop)
      next
        case (Some d)
        show ?thesis
        proof (cases "td_Mode d = ToolAllow")
          case False
          then show ?thesis using assms known True Some
            by (intro quiet_adds) (auto simp: decide_def Let_def split: if_splits intro: stop)
        next
          case allow: True
          then have "gated cd xe e ''granted'' r (res\<lparr>re_Decision := d\<rparr>) w = (res', err, r', w')"
            using assms known True Some by (auto simp: decide_def Let_def split: if_splits)
          from gated_dispatch [OF this] Some allow known show ?thesis by blast
        qed
      qed
    qed
  qed
qed

text \<open>What one submission adds: nothing and an error, or the claim of the request's cell, and then at
  most the one admitted run.\<close>

lemma Submit_cases:
  assumes "Submit cd xe e request w = (res, err, request', w')"
  obtains "w' = w" and "err \<noteq> None"
  | r cell plan evs where "request = Some r" and "validateRequest cd e request = None"
    and "rq_use r = Some cell" and "rq_plan r = Some plan" and "cell \<notin> wo_claimed w"
    and "wo_trace w' = wo_trace w @ evs" and "wo_claimed w' = insert cell (wo_claimed w)"
    and "dispatches evs = 0 \<or>
      re_Branch res = BranchExecuted \<and> admitted_run e r res evs \<and> err = re_ToolError res \<and>
      gate_passed (ex_config e) (rq_rawName r) \<and> rq_known r \<and>
      (cc_EffectClassifier (ex_config e) \<noteq> None \<longrightarrow> rq_effectDeclared r) \<and>
      (dp_governed plan \<longrightarrow> (\<exists>d. dp_decisions plan (rq_rawName r) = Some d \<and> td_Mode d = ToolAllow))"
proof (cases "\<exists>r cell plan. validateRequest cd e request = None \<and> request = Some r \<and> rq_use r = Some cell \<and>
    rq_plan r = Some plan \<and> cell \<notin> wo_claimed w")
  case False
  have "w' = w \<and> err \<noteq> None"
  proof (cases "validateRequest cd e request")
    case None
    with False assms show ?thesis by (auto simp: Submit_def split: option.splits if_splits)
  next
    case (Some x)
    then have "(new_result zero_action [] [] False, Some x, request, w) = (res, err, request', w')"
      using assms by (simp add: Submit_def)
    then show ?thesis by auto
  qed
  then show ?thesis using that(1) by blast
next
  case True
  then obtain r cell plan where r: "validateRequest cd e request = None" "request = Some r"
    "rq_use r = Some cell" "rq_plan r = Some plan" "cell \<notin> wo_claimed w" by blast
  let ?w1 = "w\<lparr>wo_claimed := insert cell (wo_claimed w)\<rparr>"
  let ?res = "new_result (rq_action r) (rq_rawName r) (rq_args r) (\<not> dp_governed plan)"
  note claimed = that(2)
  have fin: ?thesis if "adds evs ?w1 w'" and "dispatches evs = 0 \<or>
      re_Branch res = BranchExecuted \<and> admitted_run e r res evs \<and> err = re_ToolError res \<and>
      gate_passed (ex_config e) (rq_rawName r) \<and> rq_known r \<and>
      (cc_EffectClassifier (ex_config e) \<noteq> None \<longrightarrow> rq_effectDeclared r) \<and>
      (dp_governed plan \<longrightarrow> (\<exists>d. dp_decisions plan (rq_rawName r) = Some d \<and> td_Mode d = ToolAllow))" for evs
    using r that by (intro claimed [of r cell plan evs]) (auto simp: adds_def)
  have dec: ?thesis if "decide cd xe e plan r1 res1 ?w1 = (res, err, r2, w')" and "rq_rawName r1 = rq_rawName r"
    "rq_args r1 = rq_args r" "rq_scope r1 = rq_scope r" "rq_known r1 = rq_known r"
    "rq_effectDeclared r1 = rq_effectDeclared r" for r1 res1 r2
  proof -
    have "admitted_run e r1 res evs = admitted_run e r res evs" for evs
      using that(2-4) by (simp add: admitted_run_def)
    then show ?thesis using decide_dispatch [OF that(1)] that(2,5,6) fin by metis
  qed
  show ?thesis
  proof (cases "cc_PrincipalResolver (ex_config e)")
    case False
    then show ?thesis using assms r
      by (cases "decide cd xe e plan r ?res ?w1") (auto simp: Submit_def Let_def intro: dec)
  next
    case pr: True
    show ?thesis
    proof (cases "Resolve cd (xe_resolve_now xe) (xe_resolve_id xe) (xe_resolver xe) (rq_ingress r)
        (resolve_request (ex_config e) r (ac_ActionID (rq_action r)))")
      case (Inl x)
      then have "w' = ?w1" using assms r pr by (simp add: Submit_def Let_def)
      then show ?thesis by (intro fin [of "[]"]) auto
    next
      case (Inr ev)
      let ?r1 = "r\<lparr>rq_evidence := Some ev, rq_action := (rq_action r)\<lparr>ac_Principal := evidence_principal ev\<rparr>\<rparr>"
      let ?res1 = "?res\<lparr>re_Action := rq_action ?r1\<rparr>"
      obtain res2 err2 r2 w2 where d: "decide cd xe e plan ?r1 ?res1 ?w1 = (res2, err2, r2, w2)"
        by (cases "decide cd xe e plan ?r1 ?res1 ?w1") auto
      then have "(res, err, w') = (res2, err2, w2)" using assms r pr Inr by (simp add: Submit_def Let_def)
      then show ?thesis using d by (intro dec [of ?r1 ?res1 r2]) auto
    qed
  qed
qed

section \<open>Properties of the executor\<close>

lemma exec_SelectTools_plan:
  assumes "exec_SelectTools e ch = (adv, plan, serr)" and "cc_Governance (ex_config e) = Some g"
    and "dp_decisions plan n = Some d" and "td_Mode d \<noteq> ToolDeny"
  shows "\<exists>gr\<in>set (gv_Grants g). tg_Name gr = n \<and> td_Mode d = tg_Mode gr \<and>
     (tg_Channels gr = [] \<or> ch \<in> set (tg_Channels gr)) \<and>
     (ta_Sensitive (attrs_of (gv_Attrs g) n) \<longrightarrow> gv_Locality g = Local)"
proof -
  let ?q = "\<lparr>tq_Channel = ch, tq_Sensitivity = gv_Sensitivity g, tq_Locality = gv_Locality g\<rparr>"
  have "SelectTools (gv_Grants g) (gv_Attrs g) ?q = Inr (dp_decisions plan)"
    using assms(1-3) by (auto simp: exec_SelectTools_def split: sum.splits)
  from SelectTools_granted [OF this assms(3,4)] show ?thesis by fastforce
qed

lemma exec_SelectTools_fields:
  "exec_SelectTools e ch = (adv, plan, serr) \<Longrightarrow>
   dp_channel plan = ch \<and> dp_owner plan = Some (ex_owner e) \<and> (dp_governed plan \<longleftrightarrow> cc_Governance (ex_config e) \<noteq> None)"
  by (auto simp: exec_SelectTools_def split: option.splits sum.splits)

lemma Prepare_fields:
  "Prepare cd fresh now cell e sub = Inr r \<Longrightarrow> \<exists>inb plan. sb_Inbound sub = Some inb \<and> sb_Plan sub = Some plan \<and>
     rq_plan r = Some plan \<and> rq_rawName r = sb_Name sub \<and> rq_args r = sb_Arguments sub \<and> rq_use r = Some cell \<and>
     rq_channel r = en_Channel inb \<and> dp_channel plan = en_Channel inb \<and> rq_known r = Has e (sb_Name sub)"
  by (auto simp: Prepare_def Has_def Let_def split: option.splits if_splits)

text \<open>A submission that reaches the dispatcher was granted.\<close>

lemma granted_submission:
  assumes "exec_SelectTools e ch = (adv, plan, serr)"
    and "Prepare cd fresh now cell e sub = Inr r" and "sb_Plan sub = Some plan"
    and "Submit cd xe e (Some r) w = (res, err, request', w')"
    and "wo_trace w' = wo_trace w @ evs" and "dispatches evs \<noteq> 0"
  shows "(\<forall>g. cc_Governance (ex_config e) = Some g \<longrightarrow>
      (\<exists>gr\<in>set (gv_Grants g). tg_Name gr = sb_Name sub \<and> tg_Mode gr = ToolAllow \<and>
         (tg_Channels gr = [] \<or> rq_channel r \<in> set (tg_Channels gr)) \<and>
         (ta_Sensitive (attrs_of (gv_Attrs g) (sb_Name sub)) \<longrightarrow> gv_Locality g = Local))) \<and>
    gate_passed (ex_config e) (sb_Name sub) \<and> admitted_run e r res evs \<and> dispatches evs = 1 \<and>
    re_Branch res = BranchExecuted"
proof -
  have f: "rq_plan r = Some plan" "rq_rawName r = sb_Name sub" "rq_channel r = dp_channel plan"
    using Prepare_fields [OF assms(2)] assms(3) by auto
  obtain d where d: "re_Branch res = BranchExecuted" "admitted_run e r res evs"
      "gate_passed (ex_config e) (rq_rawName r)"
      "dp_governed plan \<Longrightarrow> dp_decisions plan (rq_rawName r) = Some d \<and> td_Mode d = ToolAllow"
    using assms(4)
  proof (cases rule: Submit_cases)
    case 1
    with assms(5,6) show ?thesis by simp
  next
    case (2 r' cell' plan' evs')
    with assms(5,6) f(1) show ?thesis by (intro that [of "the (dp_decisions plan (rq_rawName r))"]) auto
  qed
  from d(2) have one: "dispatches evs = 1" by (auto simp: admitted_run_def)
  have "\<exists>gr\<in>set (gv_Grants g). tg_Name gr = sb_Name sub \<and> tg_Mode gr = ToolAllow \<and>
         (tg_Channels gr = [] \<or> rq_channel r \<in> set (tg_Channels gr)) \<and>
         (ta_Sensitive (attrs_of (gv_Attrs g) (sb_Name sub)) \<longrightarrow> gv_Locality g = Local)"
    if g: "cc_Governance (ex_config e) = Some g" for g
  proof -
    have gov: "dp_governed plan" "dp_channel plan = ch" using exec_SelectTools_fields [OF assms(1)] g by auto
    have "td_Mode d \<noteq> ToolDeny" using d(4) [OF gov(1)] by simp
    from exec_SelectTools_plan [OF assms(1) g conjunct1 [OF d(4) [OF gov(1)]] this]
    show ?thesis using d(4) [OF gov(1)] f gov(2) by metis
  qed
  then show ?thesis using d f(2) one by simp
qed

text \<open>What \<open>validateRequest\<close> accepts carries a plan of this executor for the channel of the request.\<close>

lemma validateRequest_None:
  assumes "validateRequest cd e (Some r) = None"
  obtains plan cell where "rq_plan r = Some plan" and "rq_use r = Some cell" and "rq_owner r = Some (ex_owner e)"
    and "dp_owner plan = Some (ex_owner e)" and "dp_channel plan = rq_channel r"
    and "ac_ParametersDigest (rq_action r) = Digest cd (ac_Operation (rq_action r)) (rq_args r)"
  using assms by (auto simp: validateRequest_def Let_def split: option.splits if_splits)

text \<open>
  C3: A tool runs only as the policy of the executor allows. Take any request at all, prepared or forged. If submitting
  it reaches a tool, then the request validates (it is of this executor, with a plan of this executor for the channel
  of the message, and its action is bound to its arguments by the digest), its single-use cell was unclaimed and is claimed now, and
  the tool is one the request knows as registered; exactly one tool call was made, with the request's own name, arguments and scope. Where
  the executor has an effect classifier, the effect was declared; where it also has an identity, the declared effect
  passed the gate. Where it has a store, the authorisation of that action was durably recorded before the call,
  and the action is closed after it on the state of the call's outcome. Where it is governed and the plan is one it selected,
  that selection was for the channel of the request, and the configuration holds an allow grant of that very tool that admits the channel, a sensitive
  tool running beside a local model only.
\<close>

theorem dispatch_needs_grant:
  assumes "Submit cd xe e (Some r) w = (res, err, request', w')"
    and "wo_trace w' = wo_trace w @ evs" and "dispatches evs \<noteq> 0"
  shows "validateRequest cd e (Some r) = None \<and>
    (\<exists>cell. rq_use r = Some cell \<and> cell \<notin> wo_claimed w \<and> wo_claimed w' = insert cell (wo_claimed w)) \<and>
    rq_known r \<and> (cc_EffectClassifier (ex_config e) \<noteq> None \<longrightarrow> rq_effectDeclared r) \<and> gate_passed (ex_config e) (rq_rawName r) \<and>
    admitted_run e r res evs \<and> dispatches evs = 1 \<and> re_Branch res = BranchExecuted \<and>
    (\<forall>ch adv plan serr g. exec_SelectTools e ch = (adv, plan, serr) \<and> rq_plan r = Some plan \<and> cc_Governance (ex_config e) = Some g \<longrightarrow>
       ch = rq_channel r \<and>
       (\<exists>gr\<in>set (gv_Grants g). tg_Name gr = rq_rawName r \<and> tg_Mode gr = ToolAllow \<and>
          (tg_Channels gr = [] \<or> rq_channel r \<in> set (tg_Channels gr)) \<and>
          (ta_Sensitive (attrs_of (gv_Attrs g) (rq_rawName r)) \<longrightarrow> gv_Locality g = Local)))"
  using assms(1)
proof (cases rule: Submit_cases)
  case (2 r' cell plan' evs')
  have same: "r' = r" "evs' = evs" using 2(1,6) assms(2) by simp_all
  note run = 2(8) [unfolded same] assms(3)
  have one: "dispatches evs = 1" using run by (auto simp: admitted_run_def)
  have grant: "ch = rq_channel r \<and>
       (\<exists>gr\<in>set (gv_Grants g). tg_Name gr = rq_rawName r \<and> tg_Mode gr = ToolAllow \<and>
          (tg_Channels gr = [] \<or> rq_channel r \<in> set (tg_Channels gr)) \<and>
          (ta_Sensitive (attrs_of (gv_Attrs g) (rq_rawName r)) \<longrightarrow> gv_Locality g = Local))"
    if sel: "exec_SelectTools e ch = (adv, plan, serr)" "rq_plan r = Some plan" "cc_Governance (ex_config e) = Some g" for ch adv plan serr g
  proof -
    have plan: "plan' = plan" using 2(4) sel(2) same(1) by simp
    have gov: "dp_governed plan" "dp_channel plan = ch" using exec_SelectTools_fields [OF sel(1)] sel(3) by auto
    obtain d where d: "dp_decisions plan (rq_rawName r) = Some d" "td_Mode d = ToolAllow" using run gov(1) plan by auto
    have ch: "ch = rq_channel r" using 2(1,2) same(1) gov(2) sel(2) by (auto elim!: validateRequest_None)
    from exec_SelectTools_plan [OF sel(1,3) d(1)] d(2) show ?thesis using ch by fastforce
  qed
  show ?thesis
  proof (intro conjI)
    show "validateRequest cd e (Some r) = None" using 2(1,2) same(1) by simp
    show "\<exists>cell. rq_use r = Some cell \<and> cell \<notin> wo_claimed w \<and> wo_claimed w' = insert cell (wo_claimed w)"
      using 2(3,5,7) same(1) by blast
  qed (use run one grant in blast)+
qed (use assms(2,3) in simp)

text \<open>Any sequence of submissions, each on the world the one before left.\<close>

fun submit_all :: "codec \<Rightarrow> (exec_env \<times> 's Executor \<times> exec_Request option) list \<Rightarrow> 's world \<Rightarrow> 's world" where
  "submit_all cd [] w = w"
| "submit_all cd ((xe, e, r) # rest) w = submit_all cd rest (snd (snd (snd (Submit cd xe e r w))))"

definition cells :: "(exec_env \<times> 's Executor \<times> exec_Request option) list \<Rightarrow> nat set" where
  "cells subs = {c. \<exists>xe e r. (xe, e, Some r) \<in> set subs \<and> rq_use r = Some c}"

lemma cells_simps:
  "cells [] = {}" "cells ((xe, e, None) # rest) = cells rest"
  "cells ((xe, e, Some r) # rest) = (case rq_use r of None \<Rightarrow> cells rest | Some c \<Rightarrow> insert c (cells rest))"
  by (auto simp: cells_def split: option.splits)

lemma finite_cells [simp]: "finite (cells subs)"
proof (induction subs)
  case (Cons s subs)
  then show ?case by (cases s; cases "snd (snd s)") (auto simp: cells_simps split: option.splits)
qed (simp add: cells_simps)

text \<open>
  A prepared request runs at most once, however often it and its copies are submitted, to
  whichever executors, in whatever order: the number of tool calls any sequence of submissions makes
  is at most the number of single-use cells among its requests that were not claimed before.
\<close>

theorem requests_run_once:
  "dispatches (wo_trace (submit_all cd subs w)) \<le> dispatches (wo_trace w) + card (cells subs - wo_claimed w)"
proof (induction subs arbitrary: w)
  case Nil
  then show ?case by simp
next
  case (Cons s subs)
  obtain xe e request where s: "s = (xe, e, request)" by (cases s)
  obtain res err request' w' where sub: "Submit cd xe e request w = (res, err, request', w')"
    by (cases "Submit cd xe e request w") auto
  have IH: "dispatches (wo_trace (submit_all cd subs w')) \<le> dispatches (wo_trace w') + card (cells subs - wo_claimed w')"
    by (rule Cons.IH)
  have mono: "card (cells subs - wo_claimed w) \<le> card (cells (s # subs) - wo_claimed w)"
    unfolding s by (cases request) (auto simp: cells_simps intro!: card_mono split: option.splits)
  from sub show ?case
  proof (cases rule: Submit_cases)
    case 1
    with IH mono s sub show ?thesis by simp
  next
    case (2 r c plan evs)
    have le: "dispatches evs \<le> 1" using 2(8) by (auto simp: admitted_run_def)
    have "cells (s # subs) - wo_claimed w = insert c (cells subs - wo_claimed w')"
      using 2 s by (auto simp: cells_simps)
    moreover have "c \<notin> cells subs - wo_claimed w'" using 2(7) by simp
    ultimately have "card (cells (s # subs) - wo_claimed w) = Suc (card (cells subs - wo_claimed w'))" by simp
    with IH le 2(6) s sub show ?thesis by simp
  qed
qed

section \<open>A sample executor\<close>

definition sample_recorder :: "unit Recorder" where
  "sample_recorder = \<lparr>rc_RecordAttempt = (\<lambda>a oc ru st s. (None, s)), rc_Finish = (\<lambda>aid st tm s. (None, s)),
     rc_RecordAttemptIdentified = None, rc_RecordAttemptAuthenticated = None, rc_StartAuthorization = None,
     rc_RequestAuthorizationApproval = None, rc_FinishWithResult = None, rc_RequestApproval = None,
     rc_RequestApprovalAuthenticated = None\<rparr>"

definition sample_executor :: "unit Executor" where
  "sample_executor = \<lparr>ex_tools = [''echo'' \<mapsto> PlainTool (\<lambda>tmo args. (args, None))], ex_perTool = 0,
     ex_config = \<lparr>cc_BrainName = ''main'', cc_Recorder = Some sample_recorder, cc_Identity = None,
       cc_PrincipalResolver = False, cc_StrictAuthority = False, cc_EffectClassifier = None,
       cc_Governance = Some \<lparr>gv_Grants = [\<lparr>tg_Name = ''echo'', tg_Mode = ToolAllow, tg_Channels = [''telegram'']\<rparr>],
         gv_Attrs = [], gv_Sensitivity = Public, gv_Locality = Local\<rparr>,
       cc_BoundOperation = (\<lambda>n. n), cc_InvocationProbe = False, cc_BeforeClose = False, cc_BeforeRecord = True,
       cc_BeforeIdentityFallback = False\<rparr>, ex_owner = 1\<rparr>"

definition sample_exec_env :: exec_env where
  "sample_exec_env = \<lparr>xe_resolver = sample_resolver, xe_resolve_now = 0, xe_resolve_id = '''',
     xe_start_resolver = sample_resolver, xe_start_now = 0, xe_start_id = '''', xe_at = 0, xe_park_now = 0,
     xe_park_id = '''', xe_bind_now = 0, xe_bind_id = '''', xe_run_start = 5, xe_run_end = 8, xe_close_at = 9\<rparr>"

definition sample_plan :: DecisionPlan where
  "sample_plan = fst (snd (exec_SelectTools sample_executor ''telegram''))"

definition sample_submission :: Submission where
  "sample_submission = \<lparr>sb_Inbound = Some (sample_envelope\<lparr>en_Channel := ''telegram''\<rparr>), sb_Ingress = sample_ingress,
     sb_Lane = ''text'', sb_Name = ''echo'', sb_Arguments = ''hi'', sb_Plan = Some sample_plan\<rparr>"

definition sample_exec_request :: exec_Request where
  "sample_exec_request = (case Prepare plain_codec ''act_1'' 4 0 sample_executor sample_submission of Inr r \<Rightarrow> r)"

definition sample_world :: "unit world" where
  "sample_world = \<lparr>wo_store = (), wo_trace = [], wo_claimed = {}\<rparr>"

lemma sample_select:
  "exec_SelectTools sample_executor ''telegram'' =
    (fst (exec_SelectTools sample_executor ''telegram''), sample_plan, snd (snd (exec_SelectTools sample_executor ''telegram'')))"
  by (simp add: sample_plan_def)

lemma sample_plan_fields [simp]:
  "dp_owner sample_plan = Some 1" "dp_channel sample_plan = ''telegram''" "dp_governed sample_plan"
  "dp_decisions sample_plan ''echo'' = Some \<lparr>td_Mode = ToolAllow, td_Rule = ToolRuleNone, td_Shield = False\<rparr>"
  by (simp_all add: sample_plan_def exec_SelectTools_def sample_executor_def SelectTools_def decideTool_def
      attrs_of_def zero_attrs_def)

lemma sample_prepare: "Prepare plain_codec ''act_1'' 4 0 sample_executor sample_submission = Inr sample_exec_request"
  by (simp add: sample_exec_request_def Prepare_def sample_submission_def Let_def) (simp add: sample_executor_def)

lemma sample_exec_request_fields [simp]:
  "rq_owner sample_exec_request = Some 1" "rq_plan sample_exec_request = Some sample_plan" "rq_rawName sample_exec_request = ''echo''"
  "rq_args sample_exec_request = ''hi''" "rq_lane sample_exec_request = ''text''" "rq_channel sample_exec_request = ''telegram''"
  "rq_evidence sample_exec_request = None" "rq_known sample_exec_request" "rq_effectDeclared sample_exec_request"
  "rq_use sample_exec_request = Some 0" "ac_ActionID (rq_action sample_exec_request) = ''act_1''"
  "ac_Operation (rq_action sample_exec_request) = tool_op ''echo''"
  "ac_Source (rq_action sample_exec_request) = \<lparr>so_Kind = ''agent_brain'', so_Protocol = ''text'', so_Channel = ''telegram''\<rparr>"
  "ac_ParametersDigest (rq_action sample_exec_request) = Digest plain_codec (tool_op ''echo'') ''hi''"
  by (simp_all add: sample_exec_request_def Prepare_def sample_submission_def Let_def sample_executor_def NewEnvelope_def
      tool_op_def)

lemma sample_request_valid: "validateRequest plain_codec sample_executor (Some sample_exec_request) = None"
  by (simp add: validateRequest_def Let_def) (simp add: sample_executor_def tool_op_def)

lemma sample_submit_trace:
  "\<exists>evs. wo_trace (snd (snd (snd (Submit plain_codec sample_exec_env sample_executor (Some sample_exec_request) sample_world)))) = evs \<and>
     dispatches evs \<noteq> 0"
  by (simp add: Submit_def sample_request_valid Let_def decide_def gated_def execute_def split_beta)
    (simp add: execute_def sample_executor_def recordAuthorized_def sample_recorder_def refreshDurableEffect_def record_call_def
      invokeAndClose_def dispatch_def run_tool_def immediateCloser_def emit_def sample_world_def Let_def split_beta)

theorem dispatch_needs_grant_witness:
  "validateRequest plain_codec sample_executor (Some sample_exec_request) = None \<and>
   (\<exists>res err r' w' evs. Submit plain_codec sample_exec_env sample_executor (Some sample_exec_request) sample_world = (res, err, r', w') \<and>
     wo_trace w' = evs \<and> dispatches evs = 1 \<and> wo_claimed w' = {0} \<and> re_Branch res = BranchExecuted \<and>
     admitted_run sample_executor sample_exec_request res evs) \<and>
   (\<exists>gr\<in>set [\<lparr>tg_Name = ''echo'', tg_Mode = ToolAllow, tg_Channels = [''telegram'']\<rparr>].
     tg_Name gr = ''echo'' \<and> ''telegram'' \<in> set (tg_Channels gr))"
proof -
  obtain res err r' w' where sub:
    "Submit plain_codec sample_exec_env sample_executor (Some sample_exec_request) sample_world = (res, err, r', w')"
    by (cases "Submit plain_codec sample_exec_env sample_executor (Some sample_exec_request) sample_world") auto
  obtain evs where evs: "wo_trace w' = wo_trace sample_world @ evs" "dispatches evs \<noteq> 0"
    using sample_submit_trace sub by (auto simp: sample_world_def)
  have gov: "cc_Governance (ex_config sample_executor) = Some
      \<lparr>gv_Grants = [\<lparr>tg_Name = ''echo'', tg_Mode = ToolAllow, tg_Channels = [''telegram'']\<rparr>],
         gv_Attrs = [], gv_Sensitivity = Public, gv_Locality = Local\<rparr>"
    by (simp add: sample_executor_def)
  note run = dispatch_needs_grant [OF sub evs]
  have "\<exists>gr\<in>set [\<lparr>tg_Name = ''echo'', tg_Mode = ToolAllow, tg_Channels = [''telegram'']\<rparr>]. tg_Name gr = ''echo'' \<and> ''telegram'' \<in> set (tg_Channels gr)"
    using run sample_select gov by fastforce
  moreover have "wo_trace sample_world = []" "wo_claimed sample_world = {}" by (simp_all add: sample_world_def)
  ultimately show ?thesis using run sub evs(1) by auto
qed

end
