(* ===== verification/Approval.thy ===== *)
theory Approval
  imports Identity Conversation
begin

text \<open>
  The approvals of the action kernel as pure values: the request and its lifecycle
  (\<open>internal/action/approval.go\<close>), the preview a human reads (\<open>preview.go\<close>) and the
  factory that derives both from one envelope (\<open>bound.go\<close>).
\<close>

section \<open>Times and JSON objects\<close>

text \<open>\<open>t.UTC().Format(time.RFC3339Nano)\<close>: the civil date of a day count since the first of
  January of year one, the clock, and the fraction without trailing zeros.\<close>

definition civil :: "int \<Rightarrow> int \<times> int \<times> int" where
  "civil days =
     (let d = days + 306; era = d div 146097; doe = d mod 146097;
          yoe = (doe - doe div 1460 + doe div 36524 - doe div 146096) div 365;
          doy = doe - (365 * yoe + yoe div 4 - yoe div 100);
          mp = (5 * doy + 2) div 153;
          day = doy - (153 * mp + 2) div 5 + 1;
          month = (if mp < 10 then mp + 3 else mp - 9);
          year = yoe + era * 400 + (if month \<le> 2 then 1 else 0)
      in (year, month, day))"

definition padded :: "nat \<Rightarrow> int \<Rightarrow> string" where
  "padded w k = (let s = decimal_nat (nat \<bar>k\<bar>)
     in (if k < 0 then ''-'' else '''') @ replicate (w - length s) (CHR ''0'') @ s)"

definition fraction :: "int \<Rightarrow> string" where
  "fraction ns = (if ns = 0 then ''''
     else ''.'' @ rev (dropWhile (\<lambda>c. c = CHR ''0'') (rev (padded 9 ns))))"

definition rfc3339nano :: "time \<Rightarrow> string" where
  "rfc3339nano t =
     (let (y, m, d) = civil (t div 86400000000000); s = t mod 86400000000000 div 1000000000
      in padded 4 y @ ''-'' @ padded 2 m @ ''-'' @ padded 2 d @ ''T'' @ padded 2 (s div 3600) @ '':'' @
         padded 2 (s mod 3600 div 60) @ '':'' @ padded 2 (s mod 60) @ fraction (t mod 1000000000) @ ''Z'')"

definition timeTerm :: "time \<Rightarrow> string" where
  "timeTerm t = (if IsZero t then '''' else rfc3339nano t)"

definition json_object :: "(string \<times> string) list \<Rightarrow> string" where
  "json_object fs = ''{'' @ strings_Join (map (\<lambda>(k, v). json_string k @ '':'' @ v) fs) '','' @ ''}''"

definition json_strings :: "string list \<Rightarrow> string" where
  "json_strings xs = ''['' @ strings_Join (map json_string xs) '','' @ '']''"

definition sortedSet :: "string list \<Rightarrow> string list" where
  "sortedSet values = sort_by string_less values"

definition EffectClass_string :: "EffectClass \<Rightarrow> string" where
  "EffectClass_string c = (case c of EffectPure \<Rightarrow> ''pure'' | EffectReadExternal \<Rightarrow> ''read_external''
     | EffectWriteReversible \<Rightarrow> ''write_reversible'' | EffectWriteCompensatable \<Rightarrow> ''write_compensatable''
     | EffectWriteIrreversible \<Rightarrow> ''write_irreversible'' | EffectCritical \<Rightarrow> ''critical'' | EffectOther s \<Rightarrow> s)"

section \<open>The approval request\<close>

datatype ApprovalStatus = ApprovalPending | ApprovalApproved | ApprovalRejected | ApprovalExpired
  | ApprovalCancelled | ApprovalStatusOther string

definition ApprovalStatus_string :: "ApprovalStatus \<Rightarrow> string" where
  "ApprovalStatus_string s = (case s of ApprovalPending \<Rightarrow> ''PENDING'' | ApprovalApproved \<Rightarrow> ''APPROVED''
     | ApprovalRejected \<Rightarrow> ''REJECTED'' | ApprovalExpired \<Rightarrow> ''EXPIRED'' | ApprovalCancelled \<Rightarrow> ''CANCELLED''
     | ApprovalStatusOther x \<Rightarrow> x)"

definition DecisionApproved :: string where "DecisionApproved = ''approved''"
definition DecisionRejected :: string where "DecisionRejected = ''rejected''"
definition DecisionCancelled :: string where "DecisionCancelled = ''cancelled''"
definition DecisionClock :: string where "DecisionClock = ''clock''"

lemmas decision_verbs = DecisionApproved_def DecisionRejected_def DecisionCancelled_def DecisionClock_def

definition IsHumanDecision :: "string \<Rightarrow> bool" where
  "IsHumanDecision decision \<longleftrightarrow> decision \<in> {DecisionApproved, DecisionRejected, DecisionCancelled}"

definition RuleApprovalInvalidated :: string where "RuleApprovalInvalidated = ''approval_invalidated''"
definition RuleApprovalExpired :: string where "RuleApprovalExpired = ''approval_expired''"
definition RuleApprovalAlreadyDecided :: string where "RuleApprovalAlreadyDecided = ''approval_already_decided''"

lemmas approval_rules = RuleApprovalInvalidated_def RuleApprovalExpired_def RuleApprovalAlreadyDecided_def

record Approval =
  ap_ApprovalID :: string
  ap_SchemaVersion :: int
  ap_ActionID :: string
  ap_ActionDigest :: string
  ap_PreviewDigest :: string
  ap_RequestedFrom :: string
  ap_Reason :: string
  ap_RiskSummary :: string
  ap_PolicyVersion :: int
  ap_PolicyDigest :: string
  ap_RequestedAt :: time
  ap_ExpiresAt :: time
  ap_Status :: ApprovalStatus
  ap_DecisionPrincipalID :: string
  ap_Decision :: string
  ap_DecisionAt :: time
  ap_Comment :: string
  ap_DecisionReceiptID :: string

definition is_lower_hex :: "char \<Rightarrow> bool" where
  "is_lower_hex c \<longleftrightarrow> c \<in> set ''0123456789abcdef''"

definition hex32 :: "string \<Rightarrow> bool" where
  "hex32 s \<longleftrightarrow> length s = 32 \<and> list_all is_lower_hex s"

definition ValidApprovalID :: "string \<Rightarrow> bool" where
  "ValidApprovalID s \<longleftrightarrow> (case CutPrefix s ''apr_'' of Some r \<Rightarrow> hex32 r | None \<Rightarrow> False) \<or>
     (case CutPrefix s ''apr3_'' of Some r \<Rightarrow> hex32 r | None \<Rightarrow> False)"

definition IsStrictApprovalID :: "string \<Rightarrow> bool" where
  "IsStrictApprovalID s \<longleftrightarrow> HasPrefix s ''apr3_''"

definition approval_digest_text :: "codec \<Rightarrow> Approval \<Rightarrow> string" where
  "approval_digest_text cd a =
     ''{\"action_digest\":'' @ cd_quote cd (ap_ActionDigest a) @ '',\"approval_id\":'' @ cd_quote cd (ap_ApprovalID a) @
     '',\"decided_at\":'' @ cd_quote cd (timeTerm (ap_DecisionAt a)) @ '',\"decider\":'' @ cd_quote cd (ap_DecisionPrincipalID a) @
     '',\"decision\":'' @ cd_quote cd (ap_Decision a) @ '',\"policy_digest\":'' @ cd_quote cd (ap_PolicyDigest a) @
     '',\"policy_version\":'' @ decimal (ap_PolicyVersion a) @ '',\"preview_digest\":'' @ cd_quote cd (ap_PreviewDigest a) @ ''}''"

definition Approval_Digest :: "codec \<Rightarrow> Approval \<Rightarrow> string" where
  "Approval_Digest cd a = HashCanonical cd (approval_digest_text cd a)"

definition CanonicalApproval :: "Approval \<Rightarrow> string" where
  "CanonicalApproval a = json_object
     [(''approval_id'', json_string (ap_ApprovalID a)), (''schema_version'', decimal (ap_SchemaVersion a)),
      (''action_id'', json_string (ap_ActionID a)), (''action_digest'', json_string (ap_ActionDigest a)),
      (''preview_digest'', json_string (ap_PreviewDigest a)), (''requested_from'', json_string (ap_RequestedFrom a)),
      (''reason'', json_string (ap_Reason a)), (''risk_summary'', json_string (ap_RiskSummary a)),
      (''policy_version'', decimal (ap_PolicyVersion a)), (''policy_digest'', json_string (ap_PolicyDigest a)),
      (''requested_at'', json_string (timeTerm (ap_RequestedAt a))),
      (''expires_at'', json_string (timeTerm (ap_ExpiresAt a))),
      (''status'', json_string (ApprovalStatus_string (ap_Status a))),
      (''decision_principal_id'', json_string (ap_DecisionPrincipalID a)),
      (''decision'', json_string (ap_Decision a)), (''decision_at'', json_string (timeTerm (ap_DecisionAt a))),
      (''comment'', json_string (ap_Comment a)), (''decision_receipt_id'', json_string (ap_DecisionReceiptID a))]"

definition EffectiveStatusAt :: "Approval \<Rightarrow> time \<Rightarrow> ApprovalStatus" where
  "EffectiveStatusAt a now =
     (if ap_Status a = ApprovalPending \<and> \<not> IsZero (ap_ExpiresAt a) \<and> \<not> now < ap_ExpiresAt a
      then ApprovalExpired else ap_Status a)"

definition ApprovalConsumableAt :: "Approval \<Rightarrow> time \<Rightarrow> string" where
  "ApprovalConsumableAt a at =
     (if ap_Status a \<noteq> ApprovalPending then RuleApprovalAlreadyDecided
      else if \<not> IsZero (ap_ExpiresAt a) \<and> \<not> at < ap_ExpiresAt a then RuleApprovalExpired else '''')"

definition ValidateApprovalBinding :: "Approval \<Rightarrow> string \<Rightarrow> int \<Rightarrow> string \<Rightarrow> string \<times> string" where
  "ValidateApprovalBinding a actionDigest policyVersion policyDigest =
     (if ap_ActionDigest a \<noteq> actionDigest then (RuleApprovalInvalidated, ''digest'')
      else if ap_PolicyVersion a \<noteq> policyVersion \<or> ap_PolicyDigest a \<noteq> policyDigest
      then (RuleApprovalInvalidated, ''policy'') else ('''', ''''))"

section \<open>The preview\<close>

record ActionPreview =
  av_ActionID :: string
  av_SchemaVersion :: int
  av_IntentPurpose :: string
  av_PrincipalID :: string
  av_GrantID :: string
  av_GrantDepth :: int
  av_Operation :: string
  av_Resources :: "string list"
  av_DataEgress :: string
  av_ArgsDigest :: string
  av_CostLine :: string
  av_EffectClass :: EffectClass
  av_Reversibility :: string
  av_ToolCage :: string
  av_PolicyVersion :: int
  av_PolicyDigest :: string
  av_RequiredRule :: string

text \<open>\<open>contractTerms\<close> of the terms: \<open>json.Marshal\<close> writes a map in the order of its
  keys.\<close>

definition preview_terms :: "ActionPreview \<Rightarrow> string" where
  "preview_terms p = json_object
     [(''action_id'', json_string (av_ActionID p)), (''args_digest'', json_string (av_ArgsDigest p)),
      (''cage'', json_string (av_ToolCage p)), (''cost'', json_string (av_CostLine p)),
      (''depth'', decimal (av_GrantDepth p)), (''effect_class'', json_string (EffectClass_string (av_EffectClass p))),
      (''egress'', json_string (av_DataEgress p)), (''grant'', json_string (av_GrantID p)),
      (''operation'', json_string (av_Operation p)), (''policy_digest'', json_string (av_PolicyDigest p)),
      (''policy_version'', decimal (av_PolicyVersion p)), (''principal'', json_string (av_PrincipalID p)),
      (''purpose'', json_string (av_IntentPurpose p)), (''required_rule'', json_string (av_RequiredRule p)),
      (''resources'', (if av_Resources p = [] then ''null'' else json_strings (sortedSet (av_Resources p)))),
      (''reversibility'', json_string (av_Reversibility p)), (''schema_version'', decimal (av_SchemaVersion p))]"

definition Preview_Digest :: "codec \<Rightarrow> ActionPreview \<Rightarrow> string" where
  "Preview_Digest cd p = HashCanonical cd (preview_terms p)"

definition CanonicalPreview :: "ActionPreview \<Rightarrow> string" where
  "CanonicalPreview p = json_object
     [(''action_id'', json_string (av_ActionID p)), (''schema_version'', decimal (av_SchemaVersion p)),
      (''intent_purpose'', json_string (av_IntentPurpose p)), (''principal_id'', json_string (av_PrincipalID p)),
      (''grant_id'', json_string (av_GrantID p)), (''grant_depth'', decimal (av_GrantDepth p)),
      (''operation'', json_string (av_Operation p)),
      (''resources'', (if av_Resources p = [] then ''null'' else json_strings (sortedSet (av_Resources p)))),
      (''data_egress'', json_string (av_DataEgress p)), (''args_digest'', json_string (av_ArgsDigest p)),
      (''cost_line'', json_string (av_CostLine p)),
      (''effect_class'', json_string (EffectClass_string (av_EffectClass p))),
      (''reversibility'', json_string (av_Reversibility p)), (''tool_cage'', json_string (av_ToolCage p)),
      (''policy_version'', decimal (av_PolicyVersion p)), (''policy_digest'', json_string (av_PolicyDigest p)),
      (''required_rule'', json_string (av_RequiredRule p))]"

text \<open>The error texts leave out the values they quote.\<close>

definition ValidatePreviewBinding :: "codec \<Rightarrow> Approval \<Rightarrow> ActionPreview \<Rightarrow> go_error option" where
  "ValidatePreviewBinding cd a p =
     (if Preview_Digest cd p \<noteq> ap_PreviewDigest a then Some (ErrorString ''preview_digest_mismatch'')
      else if av_PolicyVersion p \<noteq> ap_PolicyVersion a \<or> av_PolicyDigest p \<noteq> ap_PolicyDigest a
        then Some (ErrorString ''preview_policy_mismatch'')
      else if av_ArgsDigest p \<noteq> ap_ActionDigest a then Some (ErrorString ''preview_args_mismatch'')
      else if av_RequiredRule p \<noteq> ap_Reason a then Some (ErrorString ''preview_rule_mismatch'') else None)"

section \<open>The bound request\<close>

record ApprovalContext =
  ax_IntentPurpose :: string
  ax_GrantID :: string
  ax_GrantDepth :: int
  ax_CostLine :: string
  ax_ToolCage :: string
  ax_Descriptor :: EffectDescriptor
  ax_HasDescriptor :: bool
  ax_LawVersion :: int
  ax_LawDigest :: string
  ax_Rule :: string
  ax_Now :: time
  ax_TTL :: duration

record BoundApprovalRequest =
  bq_env :: action_Envelope
  bq_approval :: Approval
  bq_preview :: ActionPreview
  bq_params :: string

definition em_dash :: string where "em_dash = map byte [32, 226, 128, 148, 32]"

definition bound_egress :: "ApprovalContext \<Rightarrow> string" where
  "bound_egress actx = (if ax_HasDescriptor actx \<and> ed_DataEgress (ax_Descriptor actx)
     then ''request/result content LEAVES the kernel boundary'' else ''no declared data egress'')"

definition bound_reversibility :: "EffectClass \<Rightarrow> ApprovalContext \<Rightarrow> string" where
  "bound_reversibility class actx =
     (if ax_HasDescriptor actx
      then EffectClass_string class @ em_dash @
        (if ed_Reversible (ax_Descriptor actx) then ''reversible''
         else if ed_Compensatable (ax_Descriptor actx) then ''compensatable, not reversible''
         else ''irreversible, no documented undo'')
      else if EffectClass_string class \<noteq> '''' then EffectClass_string class else ''unclassified consequence'')"

definition bound_preview :: "action_Envelope \<Rightarrow> ApprovalContext \<Rightarrow> ActionPreview" where
  "bound_preview env actx =
     \<lparr>av_ActionID = ac_ActionID env, av_SchemaVersion = 1, av_IntentPurpose = ax_IntentPurpose actx,
      av_PrincipalID = pf_PrincipalID (ac_Principal env), av_GrantID = ax_GrantID actx,
      av_GrantDepth = ax_GrantDepth actx,
      av_Operation = ao_Namespace (ac_Operation env) @ ''/'' @ ao_Name (ac_Operation env),
      av_Resources = [TrimSpace (so_Channel (ac_Source env))], av_DataEgress = bound_egress actx,
      av_ArgsDigest = ac_ParametersDigest env, av_CostLine = ax_CostLine actx, av_EffectClass = ac_Effect env,
      av_Reversibility = bound_reversibility (ac_Effect env) actx, av_ToolCage = ax_ToolCage actx,
      av_PolicyVersion = ax_LawVersion actx, av_PolicyDigest = ax_LawDigest actx, av_RequiredRule = ax_Rule actx\<rparr>"

definition bound_approval :: "codec \<Rightarrow> action_Envelope \<Rightarrow> ApprovalContext \<Rightarrow> string \<Rightarrow> Approval" where
  "bound_approval cd env actx approvalID =
     \<lparr>ap_ApprovalID = approvalID, ap_SchemaVersion = 1, ap_ActionID = ac_ActionID env,
      ap_ActionDigest = ac_ParametersDigest env, ap_PreviewDigest = Preview_Digest cd (bound_preview env actx),
      ap_RequestedFrom = pr_PrincipalID OperatorPrincipal, ap_Reason = ax_Rule actx,
      ap_RiskSummary = bound_reversibility (ac_Effect env) actx, ap_PolicyVersion = ax_LawVersion actx,
      ap_PolicyDigest = ax_LawDigest actx, ap_RequestedAt = ax_Now actx, ap_ExpiresAt = ax_Now actx + ax_TTL actx,
      ap_Status = ApprovalPending, ap_DecisionPrincipalID = '''', ap_Decision = '''', ap_DecisionAt = 0,
      ap_Comment = '''', ap_DecisionReceiptID = ''''\<rparr>"

text \<open>With a descriptor its class is the envelope's, so the class of the preview is the envelope's in
  every case.\<close>

definition NewBoundApprovalRequestWithID ::
    "codec \<Rightarrow> action_Envelope \<Rightarrow> string \<Rightarrow> ApprovalContext \<Rightarrow> string \<Rightarrow> go_error + BoundApprovalRequest" where
  "NewBoundApprovalRequestWithID cd env rawParams actx approvalID =
     (if \<not> ValidApprovalID approvalID then Inl (ErrorString ''action: bound approval: malformed approval id'')
      else if ax_Rule actx = '''' then Inl (ErrorString ''action: bound approval: an empty gate rule cannot park anything'')
      else if ax_LawDigest actx = '''' then Inl (ErrorString ''action: bound approval: an empty law pin cannot park anything'')
      else if Digest cd (ac_Operation env) rawParams \<noteq> ac_ParametersDigest env
        then Inl (ErrorString ''action: bound approval: params re-derive another digest'')
      else if ax_HasDescriptor actx \<and> ed_Class (ax_Descriptor actx) \<noteq> ac_Effect env
        then Inl (ErrorString ''action: bound approval: preview_effect_mismatch'')
      else
        (let preview = bound_preview env actx; approval = bound_approval cd env actx approvalID in
         case ValidatePreviewBinding cd approval preview of
           Some err \<Rightarrow> Inl (Errorf ''action: bound approval: %w'' [err])
         | None \<Rightarrow> Inr \<lparr>bq_env = env, bq_approval = approval, bq_preview = preview, bq_params = rawParams\<rparr>))"

section \<open>Properties\<close>

lemma bound_binding: "ValidatePreviewBinding cd (bound_approval cd env actx i) (bound_preview env actx) = None"
  by (simp add: ValidatePreviewBinding_def bound_approval_def bound_preview_def)

lemma bound_request_Inr:
  "NewBoundApprovalRequestWithID cd env raw actx i = Inr b \<Longrightarrow>
   b = \<lparr>bq_env = env, bq_approval = bound_approval cd env actx i, bq_preview = bound_preview env actx, bq_params = raw\<rparr> \<and>
   Digest cd (ac_Operation env) raw = ac_ParametersDigest env \<and> ValidApprovalID i"
  by (auto simp: NewBoundApprovalRequestWithID_def bound_binding Let_def split: if_splits)

text \<open>
  A bound request is born whole. The factory succeeds exactly on a well-formed id, a named
  rule, a named law, parameters that derive the digest the envelope carries and a descriptor that does
  not understate the effect; and what it returns binds: the approval and its preview tell one story
  about the digest, the law and the rule, the request binds the action digest of its own parameters
  under the pinned law and nothing else, and it can be consumed exactly inside its window.
\<close>

theorem bound_request_whole:
  "((\<exists>b. NewBoundApprovalRequestWithID cd env raw actx i = Inr b) \<longleftrightarrow>
     ValidApprovalID i \<and> ax_Rule actx \<noteq> '''' \<and> ax_LawDigest actx \<noteq> '''' \<and>
     Digest cd (ac_Operation env) raw = ac_ParametersDigest env \<and>
     (ax_HasDescriptor actx \<longrightarrow> ed_Class (ax_Descriptor actx) = ac_Effect env)) \<and>
   (\<forall>b d v l t. NewBoundApprovalRequestWithID cd env raw actx i = Inr b \<longrightarrow>
     ValidatePreviewBinding cd (bq_approval b) (bq_preview b) = None \<and>
     (fst (ValidateApprovalBinding (bq_approval b) d v l) = '''' \<longleftrightarrow>
        d = Digest cd (ac_Operation env) (bq_params b) \<and> v = ax_LawVersion actx \<and> l = ax_LawDigest actx) \<and>
     (ApprovalConsumableAt (bq_approval b) t = '''' \<longleftrightarrow>
        ax_Now actx + ax_TTL actx = 0 \<or> t < ax_Now actx + ax_TTL actx))"
proof -
  have binds: "ValidatePreviewBinding cd (bq_approval b) (bq_preview b) = None \<and>
     (fst (ValidateApprovalBinding (bq_approval b) d v l) = '''' \<longleftrightarrow>
        d = Digest cd (ac_Operation env) (bq_params b) \<and> v = ax_LawVersion actx \<and> l = ax_LawDigest actx) \<and>
     (ApprovalConsumableAt (bq_approval b) t = '''' \<longleftrightarrow>
        ax_Now actx + ax_TTL actx = 0 \<or> t < ax_Now actx + ax_TTL actx)"
    if "NewBoundApprovalRequestWithID cd env raw actx i = Inr b" for b d v l t
  proof -
    note b = conjunct1 [OF bound_request_Inr [OF that]] and dg = conjunct1 [OF conjunct2 [OF bound_request_Inr [OF that]]]
    show ?thesis unfolding b
      using bound_binding dg
      by (auto simp: ValidateApprovalBinding_def bound_approval_def approval_rules ApprovalConsumableAt_def IsZero_def)
  qed
  have "(\<exists>b. NewBoundApprovalRequestWithID cd env raw actx i = Inr b) \<longleftrightarrow>
     ValidApprovalID i \<and> ax_Rule actx \<noteq> '''' \<and> ax_LawDigest actx \<noteq> '''' \<and>
     Digest cd (ac_Operation env) raw = ac_ParametersDigest env \<and>
     (ax_HasDescriptor actx \<longrightarrow> ed_Class (ax_Descriptor actx) = ac_Effect env)"
    by (auto simp: NewBoundApprovalRequestWithID_def bound_binding Let_def)
  with binds show ?thesis by blast
qed

definition sample_context :: ApprovalContext where
  "sample_context = \<lparr>ax_IntentPurpose = ''operate'', ax_GrantID = ''g'', ax_GrantDepth = 0, ax_CostLine = '''',
     ax_ToolCage = '''', ax_Descriptor = \<lparr>ed_Class = EffectWriteIrreversible, ed_ReadsExternalState = False,
       ed_WritesExternalState = True, ed_DataEgress = True, ed_Reversible = False, ed_Compensatable = False\<rparr>,
     ax_HasDescriptor = True, ax_LawVersion = 3, ax_LawDigest = ''law'', ax_Rule = ''require_approval'',
     ax_Now = 100, ax_TTL = 50\<rparr>"

definition sample_approval_id :: string where "sample_approval_id = ''apr_'' @ replicate 32 (CHR ''0'')"

definition sample_parked :: action_Envelope where
  "sample_parked = (NewEnvelope plain_codec ''act_9'' ''m1''
     \<lparr>so_Kind = ''agent_brain'', so_Protocol = ''text'', so_Channel = ''telegram''\<rparr> (tool_op ''webhook_call'') ''{}'' 100)
     \<lparr>ac_Effect := EffectWriteIrreversible\<rparr>"

lemma sample_approval_id_valid: "ValidApprovalID sample_approval_id"
  by (simp add: ValidApprovalID_def sample_approval_id_def CutPrefix_def HasPrefix_def hex32_def is_lower_hex_def
      list_all_iff)

theorem bound_request_whole_witness:
  "\<exists>b. NewBoundApprovalRequestWithID plain_codec sample_parked ''{}'' sample_context sample_approval_id = Inr b \<and>
     ApprovalConsumableAt (bq_approval b) 149 = '''' \<and> ApprovalConsumableAt (bq_approval b) 150 \<noteq> ''''"
proof -
  have "\<exists>b. NewBoundApprovalRequestWithID plain_codec sample_parked ''{}'' sample_context sample_approval_id = Inr b"
    using bound_request_whole [of plain_codec sample_parked "''{}''" sample_context sample_approval_id]
    by (simp add: sample_approval_id_valid sample_context_def sample_parked_def NewEnvelope_def)
  then obtain b where b: "NewBoundApprovalRequestWithID plain_codec sample_parked ''{}'' sample_context sample_approval_id = Inr b"
    by blast
  have "ApprovalConsumableAt (bq_approval b) t = '''' \<longleftrightarrow> t < 150" for t
    using bound_request_whole [of plain_codec sample_parked "''{}''" sample_context sample_approval_id] b
    by (simp add: sample_context_def)
  then show ?thesis using b by (intro exI [of _ b]) simp
qed

lemma EffectiveStatus_consumable:
  "ApprovalConsumableAt a t = '''' \<longleftrightarrow> EffectiveStatusAt a t = ApprovalPending"
  by (auto simp: ApprovalConsumableAt_def EffectiveStatusAt_def approval_rules)

end
