(* ===== verification/Ledger.thy ===== *)
theory Ledger
  imports Approval
begin

text \<open>
  The receipts ledger: the receipt and its canonical forms (\<open>internal/action/receipt.go\<close>), the
  verification of its signature (\<open>signing.go\<close>) and the append of a receipt to the chain
  (\<open>internal/action/sqlite/ledger.go\<close> \<open>appendReceiptTx\<close>).

  The receipts table is the list of its rows in the order of their insertion; every row the code
  writes is in the one partition \<open>main\<close>. A signing key is its id, its public key in hexadecimal, the
  instant it was registered at and the instant of its retirement, if any.
\<close>

section \<open>Receipts\<close>

record Receipt =
  rt_ReceiptID :: string
  rt_SchemaVersion :: int
  rt_ActionID :: string
  rt_IntentDigest :: string
  rt_PrincipalID :: string
  rt_AuthorityDigest :: string
  rt_DecisionDigest :: string
  rt_ActionDigest :: string
  rt_EffectClass :: EffectClass
  rt_Attempt :: int
  rt_Outcome :: string
  rt_ResultDigest :: string
  rt_ApprovalDigest :: string
  rt_IdentityStatus :: string
  rt_RequesterPrincipalID :: string
  rt_ActorPrincipalID :: string
  rt_ResponsiblePrincipalID :: string
  rt_IdentityEvidenceDigest :: string
  rt_IdentitySnapshotDigest :: string
  rt_StartedAt :: time
  rt_FinishedAt :: time
  rt_Partition :: string
  rt_ChainSeq :: int
  rt_PreviousReceiptHash :: string
  rt_ReceiptHash :: string
  rt_SigningKeyID :: string
  rt_Signature :: string

definition GenesisPreviousHash :: string where
  "GenesisPreviousHash = ''sha256:e3b0c44298fc1c149afbf4c8996fb92427ae41e4649b934ca495991b7852b855''"

definition receipt_head :: "Receipt \<Rightarrow> (string \<times> string) list" where
  "receipt_head r =
     [(''receipt_id'', json_string (rt_ReceiptID r)), (''action_id'', json_string (rt_ActionID r)),
      (''intent_digest'', json_string (rt_IntentDigest r)), (''principal_id'', json_string (rt_PrincipalID r)),
      (''authority_digest'', json_string (rt_AuthorityDigest r)),
      (''decision_digest'', json_string (rt_DecisionDigest r)), (''action_digest'', json_string (rt_ActionDigest r))]"

definition receipt_tail :: "Receipt \<Rightarrow> (string \<times> string) list" where
  "receipt_tail r =
     [(''effect_class'', json_string (EffectClass_string (rt_EffectClass r))), (''attempt'', decimal (rt_Attempt r)),
      (''outcome'', json_string (rt_Outcome r)), (''result_digest'', json_string (rt_ResultDigest r)),
      (''started_at'', json_string (timeTerm (rt_StartedAt r))),
      (''finished_at'', json_string (timeTerm (rt_FinishedAt r))),
      (''partition'', json_string (rt_Partition r)), (''chain_seq'', decimal (rt_ChainSeq r)),
      (''previous_receipt_hash'', json_string (rt_PreviousReceiptHash r))]"

definition CanonicalReceipt :: "codec \<Rightarrow> Receipt \<Rightarrow> string" where
  "CanonicalReceipt cd r =
     (if rt_SchemaVersion r \<ge> 3
      then json_object ((''schema_version'', decimal (rt_SchemaVersion r)) # receipt_head r @
        [(''approval_digest'', json_string (rt_ApprovalDigest r)), (''identity_status'', json_string (rt_IdentityStatus r)),
         (''requester_principal_id'', json_string (rt_RequesterPrincipalID r)),
         (''actor_principal_id'', json_string (rt_ActorPrincipalID r)),
         (''responsible_principal_id'', json_string (rt_ResponsiblePrincipalID r)),
         (''identity_evidence_digest'', json_string (rt_IdentityEvidenceDigest r)),
         (''identity_snapshot_digest'', json_string (rt_IdentitySnapshotDigest r))] @ receipt_tail r)
      else if rt_SchemaVersion r \<ge> 2
      then json_object ((''schema_version'', decimal (rt_SchemaVersion r)) # receipt_head r @
        [(''approval_digest'', json_string (rt_ApprovalDigest r))] @ receipt_tail r)
      else CanonicalParams cd (json_object (receipt_head r @ receipt_tail r)))"

definition ComputeReceiptHash :: "codec \<Rightarrow> Receipt \<Rightarrow> string" where
  "ComputeReceiptHash cd r = ''sha256:'' @ cd_sha256 cd (CanonicalReceipt cd r)"

definition LinkReceipt :: "Receipt \<Rightarrow> Receipt \<Rightarrow> Receipt" where
  "LinkReceipt prev r = r\<lparr>rt_Partition := rt_Partition prev, rt_ChainSeq := rt_ChainSeq prev + 1,
     rt_PreviousReceiptHash := rt_ReceiptHash prev\<rparr>"

section \<open>Signatures\<close>

fun hex_decode :: "string \<Rightarrow> string option" where
  "hex_decode [] = Some []"
| "hex_decode [c] = None"
| "hex_decode (h # l # r) =
     (case (hex_value h, hex_value l, hex_decode r) of
        (Some a, Some b, Some t) \<Rightarrow> Some (byte (16 * a + b) # t) | _ \<Rightarrow> None)"

definition ErrUnknownSignatureAlgorithm :: go_error where
  "ErrUnknownSignatureAlgorithm = Sentinel ''action: unknown signature algorithm''"

definition SigningKeyID :: "codec \<Rightarrow> string \<Rightarrow> string" where
  "SigningKeyID cd pub = ''ed25519:'' @ take 16 (cd_sha256 cd pub)"

text \<open>The digest a signature covers is the raw hash, the bytes behind its hexadecimal form.\<close>

definition raw_sha256 :: "codec \<Rightarrow> string \<Rightarrow> string" where
  "raw_sha256 cd s = (case hex_decode (cd_sha256 cd s) of Some b \<Rightarrow> b | None \<Rightarrow> '''')"

definition VerifyReceiptSignature :: "codec \<Rightarrow> string \<Rightarrow> Receipt \<Rightarrow> go_error option" where
  "VerifyReceiptSignature cd pub r =
     (let (algorithm, _, found) = Cut (rt_SigningKeyID r) (CHR '':'')
      in if \<not> found \<or> algorithm \<noteq> ''ed25519'' then Some (Errorf ''%w: %q'' [ErrUnknownSignatureAlgorithm])
         else if rt_SigningKeyID r \<noteq> SigningKeyID cd pub
           then Some (ErrorString ''action: signing key id does not match the verification key'')
         else (case hex_decode (rt_Signature r) of
             None \<Rightarrow> Some (ErrorString ''action: decode signature'')
           | Some signature \<Rightarrow>
               if cd_ed25519_Verify cd pub (raw_sha256 cd (CanonicalReceipt cd r)) signature then None
               else Some (ErrorString ''action: receipt signature does not verify'')))"

section \<open>Appending to the chain\<close>

definition ledgerPartition :: string where "ledgerPartition = ''main''"

text \<open>The chain head: the row with the largest sequence number of the partition.\<close>

fun chain_head :: "Receipt list \<Rightarrow> Receipt option" where
  "chain_head [] = None"
| "chain_head (r # rs) =
     (case chain_head rs of
        None \<Rightarrow> if rt_Partition r = ledgerPartition then Some r else None
      | Some h \<Rightarrow> if rt_Partition r = ledgerPartition \<and> rt_ChainSeq r > rt_ChainSeq h then Some r else Some h)"

definition position :: "Receipt list \<Rightarrow> Receipt \<Rightarrow> Receipt" where
  "position rs r =
     (case chain_head rs of
        None \<Rightarrow> r\<lparr>rt_Partition := ledgerPartition, rt_ChainSeq := 0, rt_PreviousReceiptHash := GenesisPreviousHash\<rparr>
      | Some h \<Rightarrow> r\<lparr>rt_Partition := ledgerPartition, rt_ChainSeq := rt_ChainSeq h + 1,
                   rt_PreviousReceiptHash := rt_ReceiptHash h\<rparr>)"

type_synonym key_registry = "(string \<times> string \<times> time \<times> time option) list"

text \<open>\<open>appendReceiptTx\<close>: \<open>Inr\<close> the table after it, \<open>Inl\<close> the refusal that rolls the
  transaction back. Without a sealer no receipt is written.\<close>

definition appendReceiptTx ::
    "codec \<Rightarrow> (Receipt \<Rightarrow> Receipt) option \<Rightarrow> key_registry \<Rightarrow> Receipt \<Rightarrow> Receipt list \<Rightarrow> go_error + Receipt list" where
  "appendReceiptTx cd sealer keys r0 rs =
     (case sealer of
        None \<Rightarrow> Inr rs
      | Some seal \<Rightarrow>
          (let r1 = position rs r0; pre = r1\<lparr>rt_ReceiptHash := ComputeReceiptHash cd r1\<rparr>; r = seal pre in
           if r\<lparr>rt_SigningKeyID := rt_SigningKeyID pre, rt_Signature := rt_Signature pre, rt_ReceiptHash := rt_ReceiptHash pre\<rparr> \<noteq> pre
           then Inl (ErrorString ''action/sqlite: receipt_mutated_at_birth'')
           else if ComputeReceiptHash cd r \<noteq> rt_ReceiptHash r
           then Inl (ErrorString ''action/sqlite: receipt_hash_invalid_at_birth'')
           else if rt_SigningKeyID r = '''' then Inl (ErrorString ''action/sqlite: receipt_unsigned'')
           else (case map_of keys (rt_SigningKeyID r) of
               None \<Rightarrow> Inl (ErrorString ''action/sqlite: signing_key_unregistered'')
             | Some (pubHex, _, retired) \<Rightarrow>
                 if retired \<noteq> None then Inl (ErrorString ''action/sqlite: signing_key_retired'')
                 else (case hex_decode pubHex of
                     None \<Rightarrow> Inl (ErrorString ''action/sqlite: key_registry_unavailable'')
                   | Some pub \<Rightarrow>
                       if length pub \<noteq> 32 then Inl (ErrorString ''action/sqlite: key_registry_unavailable'')
                       else if rt_Signature r = '''' \<or> VerifyReceiptSignature cd pub r \<noteq> None
                       then Inl (ErrorString ''action/sqlite: signature_invalid_at_birth'')
                       else if rt_ReceiptID r \<in> rt_ReceiptID ` set rs
                       then Inl (ErrorString ''action/sqlite: append receipt'') else Inr (rs @ [r])))))"

section \<open>The chain\<close>

text \<open>A sound ledger: the rows are numbered from zero in one partition, each carries its own hash and
  the hash of the row before it, and no receipt id occurs twice.\<close>

definition link_ok :: "codec \<Rightarrow> Receipt list \<Rightarrow> Receipt \<Rightarrow> bool" where
  "link_ok cd rs r \<longleftrightarrow> rt_Partition r = ledgerPartition \<and> rt_ChainSeq r = int (length rs) \<and>
     rt_PreviousReceiptHash r = (if rs = [] then GenesisPreviousHash else rt_ReceiptHash (last rs)) \<and>
     rt_ReceiptHash r = ComputeReceiptHash cd r \<and> rt_ReceiptID r \<notin> rt_ReceiptID ` set rs"

inductive chain_ok :: "codec \<Rightarrow> Receipt list \<Rightarrow> bool" for cd where
  chain_genesis: "chain_ok cd []"
| chain_link: "chain_ok cd rs \<Longrightarrow> link_ok cd rs r \<Longrightarrow> chain_ok cd (rs @ [r])"

inductive_simps chain_ok_snoc: "chain_ok cd (rs @ [r])"

lemma chain_head_None: "chain_head rs = None \<longleftrightarrow> (\<forall>r\<in>set rs. rt_Partition r \<noteq> ledgerPartition)"
  by (induction rs) (auto split: option.splits)

lemma chain_head_in: "chain_head rs = Some h \<Longrightarrow> h \<in> set rs"
  by (induction rs arbitrary: h) (auto split: option.splits if_splits)

lemma chain_head_snoc:
  "rt_Partition x = ledgerPartition \<Longrightarrow> \<forall>r\<in>set rs. rt_ChainSeq r < rt_ChainSeq x \<Longrightarrow> chain_head (rs @ [x]) = Some x"
  by (induction rs) (auto split: option.splits)

lemma chain_ok_seq: "chain_ok cd rs \<Longrightarrow> r \<in> set rs \<Longrightarrow> rt_ChainSeq r < int (length rs)"
  by (induction rule: chain_ok.induct) (auto simp: link_ok_def)

lemma chain_ok_head: "chain_ok cd rs \<Longrightarrow> chain_head rs = (if rs = [] then None else Some (last rs))"
proof (induction rule: chain_ok.induct)
  case (chain_link rs r)
  then have "\<forall>x\<in>set rs. rt_ChainSeq x < rt_ChainSeq r"
    using chain_ok_seq [of cd rs] by (auto simp: link_ok_def)
  then show ?case using chain_link(2) chain_head_snoc by (simp add: link_ok_def)
qed simp

lemma position_link:
  assumes "chain_ok cd rs"
  shows "rt_Partition (position rs r) = ledgerPartition" "rt_ChainSeq (position rs r) = int (length rs)"
    "rt_PreviousReceiptHash (position rs r) = (if rs = [] then GenesisPreviousHash else rt_ReceiptHash (last rs))"
proof -
  have "rt_ChainSeq (last rs) + 1 = int (length rs)" if "rs \<noteq> []"
    using assms that by (cases rs rule: rev_cases) (auto simp: chain_ok_snoc link_ok_def)
  then show "rt_Partition (position rs r) = ledgerPartition" "rt_ChainSeq (position rs r) = int (length rs)"
    "rt_PreviousReceiptHash (position rs r) = (if rs = [] then GenesisPreviousHash else rt_ReceiptHash (last rs))"
    using chain_ok_head [OF assms] by (simp_all add: position_def)
qed

text \<open>The facts of a receipt: what sealing and linking leave alone.\<close>

definition facts :: "Receipt \<Rightarrow> Receipt" where
  "facts r = r\<lparr>rt_Partition := [], rt_ChainSeq := 0, rt_PreviousReceiptHash := [], rt_ReceiptHash := [],
     rt_SigningKeyID := [], rt_Signature := []\<rparr>"

definition same_facts :: "Receipt \<Rightarrow> Receipt \<Rightarrow> bool" where
  "same_facts r r' \<longleftrightarrow> facts r' = facts r"

lemma facts_fields:
  "rt_ActionID (facts r) = rt_ActionID r" "rt_Outcome (facts r) = rt_Outcome r"
  "rt_ApprovalDigest (facts r) = rt_ApprovalDigest r" "rt_ResultDigest (facts r) = rt_ResultDigest r"
  "rt_SchemaVersion (facts r) = rt_SchemaVersion r" "rt_ReceiptID (facts r) = rt_ReceiptID r"
  by (simp_all add: facts_def)

lemma same_factsD:
  assumes "same_facts r r'"
  shows "rt_ActionID r' = rt_ActionID r" "rt_Outcome r' = rt_Outcome r"
    "rt_ApprovalDigest r' = rt_ApprovalDigest r" "rt_ResultDigest r' = rt_ResultDigest r"
    "rt_SchemaVersion r' = rt_SchemaVersion r" "rt_ReceiptID r' = rt_ReceiptID r"
  using assms facts_fields unfolding same_facts_def by metis+

text \<open>A receipt signed under a key the registry holds and has not retired.\<close>

definition sealed_by :: "codec \<Rightarrow> key_registry \<Rightarrow> Receipt \<Rightarrow> bool" where
  "sealed_by cd keys r \<longleftrightarrow> (\<exists>pubHex created pub. map_of keys (rt_SigningKeyID r) = Some (pubHex, created, None) \<and>
     hex_decode pubHex = Some pub \<and> length pub = 32 \<and> VerifyReceiptSignature cd pub r = None)"

lemma appendReceiptTx_Inr:
  assumes "appendReceiptTx cd sealer keys r0 rs = Inr rs'" and "chain_ok cd rs"
  shows "(sealer = None \<and> rs' = rs) \<or>
    (\<exists>r. rs' = rs @ [r] \<and> link_ok cd rs r \<and> same_facts r0 r \<and> sealed_by cd keys r)"
proof (cases sealer)
  case None
  with assms show ?thesis by (simp add: appendReceiptTx_def)
next
  case (Some seal)
  let ?r1 = "position rs r0"
  let ?pre = "?r1\<lparr>rt_ReceiptHash := ComputeReceiptHash cd ?r1\<rparr>"
  let ?r = "seal ?pre"
  have same: "?r\<lparr>rt_SigningKeyID := rt_SigningKeyID ?pre, rt_Signature := rt_Signature ?pre,
      rt_ReceiptHash := rt_ReceiptHash ?pre\<rparr> = ?pre"
    and rest: "ComputeReceiptHash cd ?r = rt_ReceiptHash ?r" "rs' = rs @ [?r]" "sealed_by cd keys ?r"
      "rt_ReceiptID ?r \<notin> rt_ReceiptID ` set rs"
    using assms(1) Some
    by (auto simp: appendReceiptTx_def Let_def sealed_by_def split: if_splits option.splits prod.splits)
  have f: "rt_Partition ?r = rt_Partition ?r1" "rt_ChainSeq ?r = rt_ChainSeq ?r1"
    "rt_PreviousReceiptHash ?r = rt_PreviousReceiptHash ?r1"
    using same by (metis (no_types, lifting) Receipt.surjective Receipt.update_convs(25,26,27) Receipt.ext_inject)+
  have "link_ok cd rs ?r" using f position_link [OF assms(2)] rest by (simp add: link_ok_def)
  moreover have "same_facts r0 ?r"
  proof -
    have "facts ?r = facts (?r\<lparr>rt_SigningKeyID := rt_SigningKeyID ?pre, rt_Signature := rt_Signature ?pre,
        rt_ReceiptHash := rt_ReceiptHash ?pre\<rparr>)" by (simp add: facts_def)
    also have "\<dots> = facts ?pre" unfolding same ..
    also have "\<dots> = facts r0" by (simp add: facts_def position_def split: option.splits)
    finally show ?thesis by (simp add: same_facts_def)
  qed
  ultimately show ?thesis using rest by blast
qed

section \<open>Tamper evidence\<close>

text \<open>SHA-256 in hexadecimal: sixty-four lower-case hexadecimal digits.\<close>

definition sha_hex :: "codec \<Rightarrow> bool" where
  "sha_hex cd \<longleftrightarrow> (\<forall>s. length (cd_sha256 cd s) = 64 \<and> list_all is_lower_hex (cd_sha256 cd s))"

definition plain_char :: "char \<Rightarrow> bool" where
  "plain_char c \<longleftrightarrow> (let b = of_char c :: nat in 32 \<le> b \<and> b < 128 \<and> b \<noteq> 34 \<and> b \<noteq> 92 \<and> b \<noteq> 60 \<and> b \<noteq> 62 \<and> b \<noteq> 38)"

lemma json_escape_Cons: "json_escape (b # bs) = json_ascii b @ json_escape bs" if "b < 128"
  using that by (simp add: json_escape.simps)

lemma json_escape_plain: "list_all plain_char s \<Longrightarrow> json_escape (map of_char s) = s"
proof (induction s)
  case Nil
  show ?case by (simp add: json_escape.simps)
next
  case (Cons c s)
  then have p: "plain_char c" by simp
  then have "json_ascii (of_char c) = [c]" by (auto simp: plain_char_def Let_def json_ascii_def)
  with Cons p show ?case by (simp add: json_escape_Cons plain_char_def Let_def)
qed

lemma json_string_plain: "list_all plain_char s \<Longrightarrow> json_string s = ''\"'' @ s @ ''\"''"
  by (simp add: json_string_def json_escape_plain)

lemma hex_plain: "list_all is_lower_hex s \<Longrightarrow> list_all plain_char s"
  by (induction s) (auto simp: is_lower_hex_def plain_char_def)

definition hash_form :: "string \<Rightarrow> bool" where
  "hash_form s \<longleftrightarrow> length s = 71 \<and> list_all plain_char s"

lemma hash_form_compute: "sha_hex cd \<Longrightarrow> hash_form (ComputeReceiptHash cd r)"
  using hex_plain by (auto simp: hash_form_def ComputeReceiptHash_def sha_hex_def plain_char_def)

lemma hash_form_genesis: "hash_form GenesisPreviousHash"
  by (simp add: hash_form_def GenesisPreviousHash_def plain_char_def)

lemma join_last:
  assumes "xs \<noteq> []"
  shows "\<exists>p. strings_Join (map f xs) '','' = p @ f (last xs)"
  using assms
proof (induction xs)
  case (Cons x xs)
  then show ?case by (cases xs) (auto intro: exI [of _ "_ @ _"])
qed simp

lemma canonical_last:
  assumes "rt_SchemaVersion r \<ge> 2"
  shows "\<exists>p. CanonicalReceipt cd r = p @ json_string (rt_PreviousReceiptHash r) @ ''}''"
proof -
  have "\<exists>p. json_object (fs @ receipt_tail r) = p @ json_string (rt_PreviousReceiptHash r) @ ''}''" for fs
  proof -
    obtain p where "strings_Join (map (\<lambda>(k, v). json_string k @ '':'' @ v) (fs @ receipt_tail r)) '','' =
        p @ json_string ''previous_receipt_hash'' @ '':'' @ json_string (rt_PreviousReceiptHash r)"
      using join_last [of "fs @ receipt_tail r" "\<lambda>(k, v). json_string k @ '':'' @ v"] by (auto simp: receipt_tail_def)
    then have "json_object (fs @ receipt_tail r) =
        (''{'' @ p @ json_string ''previous_receipt_hash'' @ '':'') @ json_string (rt_PreviousReceiptHash r) @ ''}''"
      by (simp add: json_object_def)
    then show ?thesis by blast
  qed
  from this [of "(''schema_version'', decimal (rt_SchemaVersion r)) # receipt_head r @
        [(''approval_digest'', json_string (rt_ApprovalDigest r)), (''identity_status'', json_string (rt_IdentityStatus r)),
         (''requester_principal_id'', json_string (rt_RequesterPrincipalID r)),
         (''actor_principal_id'', json_string (rt_ActorPrincipalID r)),
         (''responsible_principal_id'', json_string (rt_ResponsiblePrincipalID r)),
         (''identity_evidence_digest'', json_string (rt_IdentityEvidenceDigest r)),
         (''identity_snapshot_digest'', json_string (rt_IdentitySnapshotDigest r))]"]
    this [of "(''schema_version'', decimal (rt_SchemaVersion r)) # receipt_head r @
        [(''approval_digest'', json_string (rt_ApprovalDigest r))]"] assms
  show ?thesis by (cases "rt_SchemaVersion r \<ge> 3") (simp_all add: CanonicalReceipt_def)
qed

lemma canonical_previous:
  assumes "CanonicalReceipt cd r = CanonicalReceipt cd r'" and "rt_SchemaVersion r \<ge> 2" and "rt_SchemaVersion r' \<ge> 2"
    and "hash_form (rt_PreviousReceiptHash r)" and "hash_form (rt_PreviousReceiptHash r')"
  shows "rt_PreviousReceiptHash r = rt_PreviousReceiptHash r'"
proof -
  obtain p p' where "CanonicalReceipt cd r = p @ json_string (rt_PreviousReceiptHash r) @ ''}''"
    "CanonicalReceipt cd r' = p' @ json_string (rt_PreviousReceiptHash r') @ ''}''"
    using canonical_last assms(2,3) by metis
  with assms have "p @ ''\"'' @ rt_PreviousReceiptHash r @ ''\"}'' = p' @ ''\"'' @ rt_PreviousReceiptHash r' @ ''\"}''"
    by (simp add: hash_form_def json_string_plain)
  moreover have "length (''\"'' @ rt_PreviousReceiptHash r @ ''\"}'') = length (''\"'' @ rt_PreviousReceiptHash r' @ ''\"}'')"
    using assms(4,5) by (simp add: hash_form_def)
  ultimately have "''\"'' @ rt_PreviousReceiptHash r @ ''\"}'' = ''\"'' @ rt_PreviousReceiptHash r' @ ''\"}''"
    using append_eq_append_conv by blast
  then show ?thesis by simp
qed

lemma chain_ok_previous_form:
  assumes "chain_ok cd rs" and "link_ok cd rs r" and "sha_hex cd"
  shows "hash_form (rt_PreviousReceiptHash r)"
proof (cases rs rule: rev_cases)
  case Nil
  with assms(2) show ?thesis using hash_form_genesis by (simp add: link_ok_def)
next
  case (snoc ys y)
  with assms(1) have "link_ok cd ys y" by (simp add: chain_ok_snoc)
  then show ?thesis using assms(2,3) snoc hash_form_compute [of cd y] by (simp add: link_ok_def)
qed

text \<open>
  C10: The ledger is tamper evident. Two sound ledgers with receipts of the current forms that end
  on the same receipt hash hold the same canonical receipts in the same order, unless SHA-256 collides
  on two of their receipts or maps one to the hash of the empty input: who knows the last hash knows
  the whole history.
\<close>

theorem ledger_tamper_evident:
  assumes "chain_ok cd rs" and "chain_ok cd rs'" and "rs \<noteq> []" and "rs' \<noteq> []"
    and "rt_ReceiptHash (last rs) = rt_ReceiptHash (last rs')"
    and "sha_hex cd" and "\<forall>r\<in>set rs \<union> set rs'. rt_SchemaVersion r \<ge> 2"
    and "\<forall>r\<in>set rs. \<forall>r'\<in>set rs'. ComputeReceiptHash cd r = ComputeReceiptHash cd r' \<longrightarrow>
           CanonicalReceipt cd r = CanonicalReceipt cd r'"
    and "\<forall>r\<in>set rs \<union> set rs'. ComputeReceiptHash cd r \<noteq> GenesisPreviousHash"
  shows "map (CanonicalReceipt cd) rs = map (CanonicalReceipt cd) rs'"
  using assms(1-5,7-9)
proof (induction arbitrary: rs' rule: chain_ok.induct)
  case chain_genesis
  then show ?case by simp
next
  case (chain_link rs r)
  obtain ys y where rs': "rs' = ys @ [y]" using chain_link.prems(3) by (cases rs' rule: rev_cases) auto
  have ys: "chain_ok cd ys" "link_ok cd ys y" using chain_link.prems(1) rs' by (simp_all add: chain_ok_snoc)
  have "ComputeReceiptHash cd r = ComputeReceiptHash cd y"
    using chain_link.prems(4) chain_link.hyps(2) ys(2) rs' by (simp add: link_ok_def)
  then have canon: "CanonicalReceipt cd r = CanonicalReceipt cd y" using chain_link.prems(6) rs' by simp
  have sv: "rt_SchemaVersion r \<ge> 2" "rt_SchemaVersion y \<ge> 2" using chain_link.prems(5) rs' by auto
  have prev: "rt_PreviousReceiptHash r = rt_PreviousReceiptHash y"
    by (rule canonical_previous [OF canon sv chain_ok_previous_form [OF chain_link.hyps(1,2) assms(6)]
          chain_ok_previous_form [OF ys assms(6)]])
  have last_hash: "rt_ReceiptHash (last zs) = ComputeReceiptHash cd (last zs)" if "chain_ok cd zs" "zs \<noteq> []" for zs
    using that by (cases zs rule: rev_cases) (auto simp: chain_ok_snoc link_ok_def)
  have genesis: "rt_ReceiptHash (last zs) \<noteq> GenesisPreviousHash"
    if "chain_ok cd zs" "zs \<noteq> []" "set zs \<subseteq> set (rs @ [r]) \<union> set rs'" for zs
    using last_hash [OF that(1,2)] that(2,3) chain_link.prems(7) by (metis last_in_set subsetD)
  have both: "rs = [] \<longleftrightarrow> ys = []"
    using prev chain_link.hyps ys genesis [of rs] genesis [of ys] rs' by (fastforce simp: link_ok_def)
  show ?case
  proof (cases "rs = []")
    case True
    with both rs' canon show ?thesis by simp
  next
    case False
    have "map (CanonicalReceipt cd) rs = map (CanonicalReceipt cd) ys"
    proof (rule chain_link.IH [OF ys(1) False])
      show "ys \<noteq> []" using both False by simp
      show "rt_ReceiptHash (last rs) = rt_ReceiptHash (last ys)"
        using prev chain_link.hyps(2) ys(2) both False by (simp add: link_ok_def)
    qed (use chain_link.prems(5-7) rs' in auto)
    with rs' canon show ?thesis by simp
  qed
qed

section \<open>A sample ledger\<close>

definition flat_codec :: codec where
  "flat_codec = plain_codec\<lparr>cd_sha256 := (\<lambda>s. replicate 63 (CHR ''a'') @ [if length s mod 2 = 0 then CHR ''0'' else CHR ''1''])\<rparr>"

definition bare_receipt :: "string \<Rightarrow> string \<Rightarrow> string \<Rightarrow> Receipt" where
  "bare_receipt rid actionID outcome = \<lparr>rt_ReceiptID = rid, rt_SchemaVersion = 2, rt_ActionID = actionID,
     rt_IntentDigest = '''', rt_PrincipalID = '''', rt_AuthorityDigest = '''', rt_DecisionDigest = '''',
     rt_ActionDigest = '''', rt_EffectClass = EffectPure, rt_Attempt = 1, rt_Outcome = outcome, rt_ResultDigest = '''',
     rt_ApprovalDigest = '''', rt_IdentityStatus = '''', rt_RequesterPrincipalID = '''', rt_ActorPrincipalID = '''',
     rt_ResponsiblePrincipalID = '''', rt_IdentityEvidenceDigest = '''', rt_IdentitySnapshotDigest = '''',
     rt_StartedAt = 0, rt_FinishedAt = 0, rt_Partition = '''', rt_ChainSeq = 0, rt_PreviousReceiptHash = '''',
     rt_ReceiptHash = '''', rt_SigningKeyID = '''', rt_Signature = ''''\<rparr>"

definition sample_receipt :: Receipt where
  "sample_receipt = (let r = position [] (bare_receipt ''rcpt_1'' ''act_1'' ''SUCCEEDED'')
     in r\<lparr>rt_ReceiptHash := ComputeReceiptHash flat_codec r\<rparr>)"

lemma ComputeReceiptHash_hash [simp]:
  "ComputeReceiptHash cd (r\<lparr>rt_ReceiptHash := h\<rparr>) = ComputeReceiptHash cd r"
  by (simp add: ComputeReceiptHash_def CanonicalReceipt_def receipt_head_def receipt_tail_def)

lemma sample_chain: "chain_ok flat_codec [sample_receipt]"
proof -
  have "link_ok flat_codec [] sample_receipt"
    by (simp add: link_ok_def sample_receipt_def Let_def position_def)
  from chain_link [OF chain_genesis this] show ?thesis by simp
qed

lemma flat_sha_hex: "sha_hex flat_codec"
  by (auto simp: sha_hex_def flat_codec_def is_lower_hex_def list_all_iff)

theorem ledger_tamper_evident_witness:
  "map (CanonicalReceipt flat_codec) [sample_receipt] = map (CanonicalReceipt flat_codec) [sample_receipt] \<and>
   chain_ok flat_codec [sample_receipt]"
proof -
  have "ComputeReceiptHash flat_codec sample_receipt \<noteq> GenesisPreviousHash"
    by (simp add: ComputeReceiptHash_def flat_codec_def GenesisPreviousHash_def numeral_eq_Suc)
  moreover have "rt_SchemaVersion sample_receipt = 2"
    by (simp add: sample_receipt_def Let_def position_def bare_receipt_def)
  ultimately show ?thesis
    using ledger_tamper_evident [OF sample_chain sample_chain _ _ _ flat_sha_hex] sample_chain by simp
qed

end
