(* ===== verification/Identity_Seal.thy ===== *)
theory Identity_Seal
  imports Ledger
begin

text \<open>
  Signed identity statements (\<open>internal/identity/signing.go\<close>): the canonical form of an identity
  evidence and of a principal's lifecycle event, their verification under a public key, and the birth
  snapshot an action carries with its digest.

  The instants in a statement are UTC instants without a monotonic reading, as the writers make them;
  comparing two statements is comparing their fields. The decoder of a canonical form is the codec's.
\<close>

section \<open>Statements and their canonical forms\<close>

definition ErrIdentityEvidenceCorrupt :: go_error where
  "ErrIdentityEvidenceCorrupt = Sentinel ''identity: evidence corrupt''"
definition ErrIdentityEvidenceUnreadable :: go_error where
  "ErrIdentityEvidenceUnreadable = Sentinel ''identity: evidence unreadable''"
definition ErrPrincipalEvidenceCorrupt :: go_error where
  "ErrPrincipalEvidenceCorrupt = Sentinel ''identity: principal evidence corrupt''"
definition ErrSignedObjectMutated :: go_error where
  "ErrSignedObjectMutated = Sentinel ''identity: signer mutated protected fields''"
definition ErrSigningKeyRetired :: go_error where
  "ErrSigningKeyRetired = Sentinel ''identity: signing key retired''"

definition evidenceDomain :: string where "evidenceDomain = ''korvun.identity-evidence.v2''"
definition eventDomain :: string where "eventDomain = ''korvun.principal-event.v1''"
definition snapshotDomain :: string where "snapshotDomain = ''korvun.identity-birth-snapshot.v1''"

record SignedEvidence =
  sg_Evidence :: Evidence
  sg_Canonical :: string
  sg_Digest :: string
  sg_SigningKeyID :: string
  sg_Signature :: string

record SignedPrincipalEvent =
  sp_Event :: PrincipalEvent
  sp_Canonical :: string
  sp_Digest :: string
  sp_SigningKeyID :: string
  sp_Signature :: string

record BirthSnapshot =
  bs_Version :: int
  bs_Digest :: string
  bs_Canonical :: string
  bs_SigningKeyID :: string
  bs_Signature :: string

definition identity_hash :: "codec \<Rightarrow> string \<Rightarrow> string" where
  "identity_hash cd raw = ''sha256:'' @ cd_sha256 cd raw"

text \<open>\<open>time.Time.MarshalJSON\<close>; the zero time has a text of its own.\<close>

definition json_time :: "time \<Rightarrow> string" where
  "json_time t = json_string (rfc3339nano t)"

definition PrincipalKind_string :: "PrincipalKind \<Rightarrow> string" where
  "PrincipalKind_string k = (case k of PrincipalHuman \<Rightarrow> ''human'' | PrincipalAgent \<Rightarrow> ''agent''
     | PrincipalWorkload \<Rightarrow> ''workload'' | PrincipalExternalSystem \<Rightarrow> ''external_system'' | PrincipalKindOther s \<Rightarrow> s)"

definition CanonicalEvidence :: "Evidence \<Rightarrow> string" where
  "CanonicalEvidence e = json_object
     ([(''evidence_id'', json_string (ev_EvidenceID e)), (''action_id'', json_string (ev_ActionID e)),
       (''request_id'', json_string (ev_RequestID e)),
       (''requester_principal_id'', json_string (ev_RequesterPrincipalID e)),
       (''actor_principal_id'', json_string (ev_ActorPrincipalID e))] @
      (if ev_ResponsiblePrincipalID e = '''' then []
       else [(''responsible_principal_id'', json_string (ev_ResponsiblePrincipalID e))]) @
      [(''binding_id'', json_string (ev_BindingID e)), (''binding_generation'', decimal (ev_BindingGeneration e)),
       (''adapter_instance_id'', json_string (ev_AdapterInstanceID e)), (''provider'', json_string (ev_Provider e)),
       (''method'', json_string (ev_Method e)), (''credential_class'', json_string (ev_CredentialClass e)),
       (''issuer'', json_string (ev_Issuer e)), (''subject_namespace'', json_string (ev_SubjectNamespace e)),
       (''verified_subject'', json_string (ev_VerifiedSubject e)), (''subject_claim'', json_string (ev_SubjectClaim e)),
       (''observed_at'', json_time (ev_ObservedAt e)), (''expires_at'', json_time (ev_ExpiresAt e)),
       (''claims_digest'', json_string (ev_ClaimsDigest e))])"

definition principal_json :: "id_Principal \<Rightarrow> string" where
  "principal_json p = json_object
     [(''ID'', json_string (ip_ID p)), (''Kind'', json_string (PrincipalKind_string (ip_Kind p))),
      (''DisplayName'', json_string (ip_DisplayName p)), (''CreatedAt'', json_time (ip_CreatedAt p)),
      (''DisabledAt'', json_time (ip_DisabledAt p)), (''Revision'', decimal (ip_Revision p))]"

definition CanonicalPrincipalEvent :: "PrincipalEvent \<Rightarrow> string" where
  "CanonicalPrincipalEvent e = json_object
     [(''event_id'', json_string (pe_EventID e)), (''principal'', principal_json (pe_Principal e)),
      (''revision'', decimal (pe_Revision e)), (''kind'', json_string (pe_Kind e)),
      (''occurred_at'', json_time (pe_OccurredAt e))]"

section \<open>Verification\<close>

definition verifyDomain :: "codec \<Rightarrow> string \<Rightarrow> string \<Rightarrow> string \<Rightarrow> string \<Rightarrow> bool" where
  "verifyDomain cd pub domain canonical signatureHex =
     (case hex_decode signatureHex of
        None \<Rightarrow> False
      | Some signature \<Rightarrow> cd_ed25519_Verify cd pub (raw_sha256 cd (domain @ [byte 0] @ canonical)) signature)"

definition VerifyEvidence :: "codec \<Rightarrow> string \<Rightarrow> SignedEvidence \<Rightarrow> go_error option" where
  "VerifyEvidence cd pub g =
     (if cd_parse_evidence cd (sg_Canonical g) = Some (sg_Evidence g) \<and>
         sg_Digest g = identity_hash cd (sg_Canonical g) \<and> sg_SigningKeyID g = SigningKeyID cd pub \<and>
         verifyDomain cd pub evidenceDomain (sg_Canonical g) (sg_Signature g)
      then None else Some ErrIdentityEvidenceCorrupt)"

definition VerifyPrincipalEvent :: "codec \<Rightarrow> string \<Rightarrow> SignedPrincipalEvent \<Rightarrow> go_error option" where
  "VerifyPrincipalEvent cd pub g =
     (if cd_parse_event cd (sp_Canonical g) = Some (sp_Event g) \<and>
         sp_Digest g = identity_hash cd (sp_Canonical g) \<and> sp_SigningKeyID g = SigningKeyID cd pub \<and>
         verifyDomain cd pub eventDomain (sp_Canonical g) (sp_Signature g)
      then None else Some ErrIdentityEvidenceCorrupt)"

text \<open>Signing with a private key is the profile's: \<open>sign\<close> is \<open>ed25519.Sign\<close> under it, in
  hexadecimal.\<close>

definition SignEvidence :: "codec \<Rightarrow> string \<Rightarrow> (string \<Rightarrow> string) \<Rightarrow> Evidence \<Rightarrow> SignedEvidence" where
  "SignEvidence cd pub sign e = (let canonical = CanonicalEvidence e in
     \<lparr>sg_Evidence = e, sg_Canonical = canonical, sg_Digest = identity_hash cd canonical, sg_SigningKeyID = SigningKeyID cd pub,
      sg_Signature = sign (raw_sha256 cd (evidenceDomain @ [byte 0] @ canonical))\<rparr>)"

definition SignPrincipalEvent :: "codec \<Rightarrow> string \<Rightarrow> (string \<Rightarrow> string) \<Rightarrow> PrincipalEvent \<Rightarrow> SignedPrincipalEvent" where
  "SignPrincipalEvent cd pub sign e = (let canonical = CanonicalPrincipalEvent e in
     \<lparr>sp_Event = e, sp_Canonical = canonical, sp_Digest = identity_hash cd canonical, sp_SigningKeyID = SigningKeyID cd pub,
      sp_Signature = sign (raw_sha256 cd (eventDomain @ [byte 0] @ canonical))\<rparr>)"

section \<open>The birth snapshot\<close>

fun big_endian :: "nat \<Rightarrow> nat \<Rightarrow> string" where
  "big_endian 0 n = []"
| "big_endian (Suc w) n = big_endian w (n div 256) @ [byte (n mod 256)]"

definition writeTerm :: "string \<Rightarrow> string" where
  "writeTerm t = big_endian 8 (length t) @ t"

definition snapshot_fields :: "BirthSnapshot \<Rightarrow> string list" where
  "snapshot_fields s = [snapshotDomain, decimal (bs_Version s), bs_Digest s, bs_Canonical s, bs_SigningKeyID s, bs_Signature s]"

definition snapshot_terms :: "BirthSnapshot \<Rightarrow> string" where
  "snapshot_terms s = concat (map writeTerm (snapshot_fields s))"

definition SnapshotDigest :: "codec \<Rightarrow> BirthSnapshot \<Rightarrow> string" where
  "SnapshotDigest cd s = identity_hash cd (snapshot_terms s)"

definition SnapshotIsLegacy :: "BirthSnapshot \<Rightarrow> bool" where
  "SnapshotIsLegacy s \<longleftrightarrow> bs_Version s = 0 \<and> bs_Digest s = '''' \<and> bs_Canonical s = '''' \<and>
     bs_SigningKeyID s = '''' \<and> bs_Signature s = ''''"

definition legacy_snapshot :: BirthSnapshot where
  "legacy_snapshot = \<lparr>bs_Version = 0, bs_Digest = '''', bs_Canonical = '''', bs_SigningKeyID = '''', bs_Signature = ''''\<rparr>"

definition snapshot_of :: "SignedEvidence \<Rightarrow> BirthSnapshot" where
  "snapshot_of g = \<lparr>bs_Version = 2, bs_Digest = sg_Digest g, bs_Canonical = sg_Canonical g,
     bs_SigningKeyID = sg_SigningKeyID g, bs_Signature = sg_Signature g\<rparr>"

lemma SnapshotIsLegacy_iff: "SnapshotIsLegacy s \<longleftrightarrow> s = legacy_snapshot"
  by (cases s) (auto simp: SnapshotIsLegacy_def legacy_snapshot_def)

text \<open>A length prefix makes the terms separable, so the snapshot is determined by the hashed bytes.\<close>

lemma length_big_endian [simp]: "length (big_endian w n) = w"
  by (induction w arbitrary: n) auto

lemma big_endian_inj: "n < 256 ^ w \<Longrightarrow> m < 256 ^ w \<Longrightarrow> big_endian w n = big_endian w m \<Longrightarrow> n = m"
proof (induction w arbitrary: n m)
  case (Suc w)
  have "n div 256 < 256 ^ w" "m div 256 < 256 ^ w"
    using Suc.prems(1,2) by (simp_all add: less_mult_imp_div_less mult.commute)
  moreover have "big_endian w (n div 256) = big_endian w (m div 256)" "byte (n mod 256) = byte (m mod 256)"
    using Suc.prems(3) by simp_all
  ultimately have "n div 256 = m div 256" "n mod 256 = m mod 256"
    using Suc.IH by (auto simp: byte_def dest: arg_cong [of _ _ "of_char :: char \<Rightarrow> nat"])
  then show ?case by (metis div_mult_mod_eq)
qed simp

lemma writeTerm_inj:
  assumes "length s < 256 ^ 8" and "length t < 256 ^ 8" and "writeTerm s @ xs = writeTerm t @ ys"
  shows "s = t \<and> xs = ys"
proof -
  have "big_endian 8 (length s) = big_endian 8 (length t) \<and> s @ xs = t @ ys"
    using assms(3) by (simp add: writeTerm_def)
  with big_endian_inj [OF assms(1,2)] show ?thesis by simp
qed

lemma writeTerms_inj:
  "length xs = length ys \<Longrightarrow> \<forall>t\<in>set xs \<union> set ys. length t < 256 ^ 8 \<Longrightarrow>
   concat (map writeTerm xs) = concat (map writeTerm ys) \<Longrightarrow> xs = ys"
proof (induction xs ys rule: list_induct2)
  case (Cons x xs y ys)
  then show ?case using writeTerm_inj [of x y "concat (map writeTerm xs)" "concat (map writeTerm ys)"] by simp
qed simp

lemma snapshot_terms_inj:
  assumes "\<forall>t\<in>set (snapshot_fields s) \<union> set (snapshot_fields s'). length t < 256 ^ 8"
    and "snapshot_terms s = snapshot_terms s'"
  shows "s = s'"
proof -
  have "snapshot_fields s = snapshot_fields s'"
    using writeTerms_inj [OF _ assms(1)] assms(2) by (simp add: snapshot_terms_def snapshot_fields_def)
  then show ?thesis by (cases s, cases s') (simp add: snapshot_fields_def decimal_inj)
qed

text \<open>What verifies is bound to its key and to its canonical text.\<close>

lemma VerifyPrincipalEvent_None:
  "VerifyPrincipalEvent cd pub g = None \<Longrightarrow> cd_parse_event cd (sp_Canonical g) = Some (sp_Event g)"
  by (simp add: VerifyPrincipalEvent_def split: if_splits)

lemma VerifyEvidence_None:
  "VerifyEvidence cd pub g = None \<Longrightarrow>
   cd_parse_evidence cd (sg_Canonical g) = Some (sg_Evidence g) \<and> sg_Digest g = identity_hash cd (sg_Canonical g)"
  by (simp add: VerifyEvidence_def split: if_splits)

end
