(* ===== verification/Store_Tables.thy ===== *)
theory Store_Tables
  imports Identity_Seal
begin

text \<open>
  The tables of the action store (\<open>internal/action/sqlite/store.go\<close>), its transactions, and the
  registry of signing keys (\<open>signing_keys.go\<close>).

  A table is an association list keyed by its primary key. The store has one serialised writer
  and every operation is one transaction, so a concurrent history is a sequence of whole operations:
  an operation returns its answer and the store after it, and an error that rolls the transaction back
  leaves the store as it was. What the driver does beyond its documented behaviour is the record
  \<open>store_env\<close>: a failure of the transaction, fresh receipt and event ids, the two clocks of the store and the
  failures of the retention cadence.
  Cells hold values of their column's type: the checks that find a cell of another storage class do
  not occur, and the preview column holds the preview that its canonical text encodes. An instant is
  stored as its RFC 3339 text, which determines it; a retired key carries the instant of its retirement.
\<close>

section \<open>Tables\<close>

definition ErrNotFound :: go_error where "ErrNotFound = Sentinel ''action/sqlite: action not found''"
definition ErrNotADecisionState :: go_error where
  "ErrNotADecisionState = Sentinel ''action/sqlite: not a decision state''"
definition ErrUnknownDecision :: go_error where
  "ErrUnknownDecision = Sentinel ''action/sqlite: unknown decision verb''"
definition ErrReservedResultDigest :: go_error where
  "ErrReservedResultDigest = Sentinel ''action/sqlite: the result digest prefix 'profile:' is reserved to the founding and adoption of the ledger''"
definition ErrApprovalNotFound :: go_error where
  "ErrApprovalNotFound = Errorf ''action/sqlite: approval row absent: %w'' [ErrNotFound]"
definition ErrApprovalParamsEmpty :: go_error where
  "ErrApprovalParamsEmpty = Errorf ''action/sqlite: approval parameters column empty: %w'' [ErrNotFound]"
definition ErrApprovalClaimSkipped :: go_error where
  "ErrApprovalClaimSkipped = Errorf ''action/sqlite: approval claim affected no rows: %w'' [ErrNotFound]"
definition ErrApprovalInvalidated :: go_error where
  "ErrApprovalInvalidated = Sentinel ''action/sqlite: the law moved under this approval''"
definition ErrApprovalEvidenceCorrupt :: go_error where
  "ErrApprovalEvidenceCorrupt = Sentinel ''action/sqlite: the approval's stored evidence no longer verifies''"
definition ErrApprovalParamsDigestMismatch :: go_error where
  "ErrApprovalParamsDigestMismatch = Sentinel ''action/sqlite: the stored parameters no longer re-derive the approved digest''"
definition ErrApprovalActionNotPending :: go_error where
  "ErrApprovalActionNotPending = Sentinel ''action/sqlite: the parked action was no longer pending''"
definition ErrApprovalNoLongerApproved :: go_error where
  "ErrApprovalNoLongerApproved = Sentinel ''action/sqlite: the approval or its action was not APPROVED inside the claim''"
definition ErrApprovalRequiresAuthority :: go_error where
  "ErrApprovalRequiresAuthority = Sentinel ''action/sqlite: a strict-born approval starts only through the authority door''"
definition ErrApprovalMovedUnderTheClaim :: go_error where
  "ErrApprovalMovedUnderTheClaim = Sentinel ''action/sqlite: the approval row moved between the caller's read and the claim''"
definition ErrAuthorizationSnapshotCorrupt :: go_error where
  "ErrAuthorizationSnapshotCorrupt = Sentinel ''action/sqlite: authorization snapshot corrupt''"

definition State_string :: "State \<Rightarrow> string" where
  "State_string s = (case s of StateReceived \<Rightarrow> ''RECEIVED'' | StateNormalized \<Rightarrow> ''NORMALIZED''
     | StateDenied \<Rightarrow> ''DENIED'' | StateShadowed \<Rightarrow> ''SHADOWED'' | StateAuthorized \<Rightarrow> ''AUTHORIZED''
     | StateSucceeded \<Rightarrow> ''SUCCEEDED'' | StateFailed \<Rightarrow> ''FAILED'' | StatePendingApproval \<Rightarrow> ''PENDING_APPROVAL''
     | StateRejected \<Rightarrow> ''REJECTED'' | StateApproved \<Rightarrow> ''APPROVED'' | StatePreparing \<Rightarrow> ''PREPARING''
     | StatePrepareFailed \<Rightarrow> ''PREPARE_FAILED'' | StatePrepared \<Rightarrow> ''PREPARED'' | StateCommitting \<Rightarrow> ''COMMITTING''
     | StateOutcomeUnknown \<Rightarrow> ''OUTCOME_UNKNOWN'' | StateCompensating \<Rightarrow> ''COMPENSATING''
     | StateCompensated \<Rightarrow> ''COMPENSATED'' | StateCompensationFailed \<Rightarrow> ''COMPENSATION_FAILED'' | StateOther x \<Rightarrow> x)"

record store_Decision =
  dc_Outcome :: string
  dc_Rule :: string
  dc_PolicyVersion :: int
  dc_PolicyDigest :: string

record PolicyPin =
  pn_Version :: int
  pn_Digest :: string

record action_row =
  ar_env :: action_Envelope
  ar_state :: State
  ar_recovery_marker :: string
  ar_finished_at :: "time option"
  ar_principal_id :: "string option"
  ar_intent_id :: "string option"
  ar_authority_refs :: "string list"
  ar_identity :: BirthSnapshot

record approval_row =
  aw_approval :: Approval
  aw_preview :: ActionPreview
  aw_params :: string
  aw_required :: bool

record tombstone =
  tb_digest :: string
  tb_action_id :: string
  tb_action_digest :: string
  tb_preview_digest :: string
  tb_policy_version :: int
  tb_policy_digest :: string
  tb_principal :: string
  tb_decision :: string
  tb_decision_at :: time

record principal_event_row =
  pr_event_id :: string
  pr_principal_id :: string
  pr_revision :: int
  pr_kind :: string
  pr_occurred_at :: time
  pr_canonical_event :: string
  pr_digest :: string
  pr_signing_key_id :: string
  pr_signature :: string

record Store =
  sr_actions :: "(string \<times> action_row) list"
  sr_decisions :: "(string \<times> store_Decision) list"
  sr_evidence :: "(string \<times> string \<times> IdentityEvidence) list"
  sr_approvals :: "(string \<times> approval_row) list"
  sr_tombstones :: "(string \<times> tombstone) list"
  sr_receipts :: "Receipt list"
  sr_keys :: key_registry
  sr_principals :: "(string \<times> id_Principal) list"
  sr_principal_events :: "principal_event_row list"
  sr_bindings :: "(string \<times> Binding) list"
  sr_identity :: "(string \<times> SignedEvidence) list"
  sr_intents :: "string \<rightharpoonup> string"
  sr_sealer :: "(Receipt \<Rightarrow> Receipt) option"
  sr_evidenceSigner :: "(Evidence \<Rightarrow> SignedEvidence) option"
  sr_eventSigner :: "(PrincipalEvent \<Rightarrow> SignedPrincipalEvent) option"
  sr_capRows :: int
  sr_pruneEvery :: nat
  sr_writes :: nat

record AttemptIdentity =
  ai_PrincipalID :: string
  ai_IntentID :: string
  ai_AuthorityRefs :: "string list"
  ai_Evidence :: IdentityEvidence

datatype driver_fault = Busy | Broken go_error

record store_env =
  sv_tx :: "go_error option"
  sv_receipt_id :: "nat \<Rightarrow> string"
  sv_event_id :: "nat \<Rightarrow> string"
  sv_now :: time
  sv_identity_now :: time
  sv_prune :: "go_error option"
  sv_sweep_read :: "go_error option"
  sv_row_fault :: "string \<Rightarrow> driver_fault option"

text \<open>\<open>beginWrite\<close>, the statements and the commit of one transaction: a driver failure anywhere
  rolls it back.\<close>

definition transact :: "store_env \<Rightarrow> (Store \<Rightarrow> go_error + 'a \<times> Store) \<Rightarrow> Store \<Rightarrow> (go_error + 'a) \<times> Store" where
  "transact sv f s = (case sv_tx sv of
      Some e \<Rightarrow> (Inl (Errorf ''action/sqlite: %w'' [e]), s)
    | None \<Rightarrow> (case f s of Inl e \<Rightarrow> (Inl e, s) | Inr (a, s') \<Rightarrow> (Inr a, s')))"

lemma map_of_update: "map_of (map (\<lambda>(k, row). (k, if k = i then f row else row)) xs) k =
    (if k = i then map_option f (map_of xs k) else map_of xs k)"
  by (induction xs) auto

section \<open>Signing keys\<close>

record SigningKey =
  sk_KeyID :: string
  sk_PublicKey :: string
  sk_CreatedAt :: time
  sk_RetiredAt :: time

definition insert_key :: "string \<Rightarrow> string \<Rightarrow> time \<Rightarrow> Store \<Rightarrow> go_error + unit \<times> Store" where
  "insert_key keyID publicKey at s =
     (if map_of (sr_keys s) keyID \<noteq> None then Inl (ErrorString ''action/sqlite: put signing key'')
      else Inr ((), s\<lparr>sr_keys := sr_keys s @ [(keyID, publicKey, at, None)]\<rparr>))"

definition active_keys :: "key_registry \<Rightarrow> key_registry" where
  "active_keys ks = filter (\<lambda>(_, _, _, retired). retired = None) ks"

definition PutSigningKey :: "store_env \<Rightarrow> string \<Rightarrow> string \<Rightarrow> time \<Rightarrow> Store \<Rightarrow> (go_error + unit) \<times> Store" where
  "PutSigningKey sv keyID publicKey at s = transact sv (\<lambda>s.
     if length (active_keys (sr_keys s)) > 0
     then Inl (ErrorString ''action/sqlite: an active signing key exists; rotate instead of putting'')
     else insert_key keyID publicKey at s) s"

definition retire_active :: "time \<Rightarrow> key_registry \<Rightarrow> key_registry" where
  "retire_active at ks = map (\<lambda>(k, pub, created, retired). (k, pub, created, if retired = None then Some at else retired)) ks"

definition RotateSigningKey :: "store_env \<Rightarrow> string \<Rightarrow> string \<Rightarrow> time \<Rightarrow> Store \<Rightarrow> (go_error + unit) \<times> Store" where
  "RotateSigningKey sv keyID publicKey at s = transact sv (\<lambda>s.
     if length (active_keys (sr_keys s)) = 0 then Inl (ErrorString ''action/sqlite: no active signing key to rotate'')
     else insert_key keyID publicKey at (s\<lparr>sr_keys := retire_active at (sr_keys s)\<rparr>)) s"

definition scanSigningKeyRow :: "string \<times> string \<times> time \<times> time option \<Rightarrow> SigningKey" where
  "scanSigningKeyRow row = (case row of (keyID, pub, created, retired) \<Rightarrow>
     \<lparr>sk_KeyID = keyID, sk_PublicKey = pub, sk_CreatedAt = created, sk_RetiredAt = (case retired of None \<Rightarrow> 0 | Some t \<Rightarrow> t)\<rparr>)"

definition ActiveSigningKey :: "Store \<Rightarrow> go_error + SigningKey" where
  "ActiveSigningKey s = (case active_keys (sr_keys s) of
      [] \<Rightarrow> Inl (Errorf ''%w: %s'' [ErrNotFound]) | row # _ \<Rightarrow> Inr (scanSigningKeyRow row))"

definition GetSigningKey :: "Store \<Rightarrow> string \<Rightarrow> go_error + SigningKey" where
  "GetSigningKey s keyID = (case map_of (sr_keys s) keyID of
      None \<Rightarrow> Inl (Errorf ''%w: %s'' [ErrNotFound]) | Some row \<Rightarrow> Inr (scanSigningKeyRow (keyID, row)))"

definition key_less :: "string \<times> string \<times> time \<times> time option \<Rightarrow> string \<times> string \<times> time \<times> time option \<Rightarrow> bool" where
  "key_less x y = (case (x, y) of ((k, _, c, _), (k', _, c', _)) \<Rightarrow>
     string_less (rfc3339nano c) (rfc3339nano c') \<or> rfc3339nano c = rfc3339nano c' \<and> string_less k k')"

definition ListSigningKeys :: "Store \<Rightarrow> SigningKey list" where
  "ListSigningKeys s = map scanSigningKeyRow (sort_by key_less (sr_keys s))"

text \<open>\<open>publicKeyTx\<close>: the key and whether it is retired.\<close>

definition ErrIntentEvidenceCorrupt :: go_error where
  "ErrIntentEvidenceCorrupt = Sentinel ''action: intent evidence corrupt''"

definition publicKeyTx :: "Store \<Rightarrow> string \<Rightarrow> go_error + string \<times> bool" where
  "publicKeyTx s keyID = (case map_of (sr_keys s) keyID of
      None \<Rightarrow> Inl ErrNotFound
    | Some (pubHex, _, retired) \<Rightarrow> (case hex_decode pubHex of
          None \<Rightarrow> Inl ErrIntentEvidenceCorrupt
        | Some pub \<Rightarrow> if length pub \<noteq> 32 then Inl ErrIntentEvidenceCorrupt else Inr (pub, retired \<noteq> None)))"

end
