(* ===== verification/Identity_Store.thy ===== *)
theory Identity_Store
  imports Store_Tables
begin

text \<open>
  Authenticated identity in the action store (\<open>internal/action/sqlite/identity_v2.go\<close>): principals
  with their signed lifecycle events, bindings, the signed evidence of an action, its validation, and
  what a receipt says about the identity of an action. The functions below are the transaction bodies
  and the checks; the operations that record an action with its evidence are in the theory of the store.
\<close>

section \<open>Principals\<close>

definition SetIdentitySigners ::
    "(Evidence \<Rightarrow> SignedEvidence) option \<Rightarrow> (PrincipalEvent \<Rightarrow> SignedPrincipalEvent) option \<Rightarrow> Store \<Rightarrow> Store" where
  "SetIdentitySigners evidence event s = s\<lparr>sr_evidenceSigner := evidence, sr_eventSigner := event\<rparr>"

definition principalTx :: "Store \<Rightarrow> string \<Rightarrow> id_Principal option" where
  "principalTx s i = map_of (sr_principals s) i"

text \<open>\<open>ORDER BY revision DESC LIMIT 1\<close>.\<close>

fun latest_event :: "string \<Rightarrow> principal_event_row list \<Rightarrow> principal_event_row option" where
  "latest_event i [] = None"
| "latest_event i (r # rs) =
     (case latest_event i rs of
        None \<Rightarrow> if pr_principal_id r = i then Some r else None
      | Some h \<Rightarrow> if pr_principal_id r = i \<and> pr_revision r > pr_revision h then Some r else Some h)"

definition signed_event_of :: "principal_event_row \<Rightarrow> PrincipalEvent \<Rightarrow> SignedPrincipalEvent" where
  "signed_event_of r e = \<lparr>sp_Event = e, sp_Canonical = pr_canonical_event r, sp_Digest = pr_digest r,
     sp_SigningKeyID = pr_signing_key_id r, sp_Signature = pr_signature r\<rparr>"

definition verifyPrincipalProjectionTx :: "codec \<Rightarrow> Store \<Rightarrow> id_Principal \<Rightarrow> go_error option" where
  "verifyPrincipalProjectionTx cd s p =
     (case latest_event (ip_ID p) (sr_principal_events s) of
        None \<Rightarrow> Some ErrPrincipalEvidenceCorrupt
      | Some r \<Rightarrow>
          (case cd_parse_event cd (pr_canonical_event r) of
             None \<Rightarrow> Some ErrPrincipalEvidenceCorrupt
           | Some e \<Rightarrow>
               if pr_revision r \<noteq> ip_Revision p \<or> pe_Revision e \<noteq> ip_Revision p \<or> pe_Principal e \<noteq> p
               then Some ErrPrincipalEvidenceCorrupt
               else (case publicKeyTx s (pr_signing_key_id r) of
                   Inl _ \<Rightarrow> Some ErrPrincipalEvidenceCorrupt
                 | Inr (pub, _) \<Rightarrow>
                     if VerifyPrincipalEvent cd pub (signed_event_of r e) \<noteq> None
                     then Some ErrPrincipalEvidenceCorrupt else None)))"

text \<open>The constraints of the table: the event id is its key, one event for each revision of a
  principal, and the principal is there.\<close>

definition event_row_admitted :: "PrincipalEvent \<Rightarrow> Store \<Rightarrow> bool" where
  "event_row_admitted e s \<longleftrightarrow> pe_EventID e \<notin> pr_event_id ` set (sr_principal_events s) \<and>
     principalTx s (ip_ID (pe_Principal e)) \<noteq> None \<and> pe_Revision e > 0 \<and> pe_Kind e \<in> {''created'', ''disabled''} \<and>
     (ip_ID (pe_Principal e), pe_Revision e) \<notin> (\<lambda>r. (pr_principal_id r, pr_revision r)) ` set (sr_principal_events s)"

definition event_row :: "PrincipalEvent \<Rightarrow> SignedPrincipalEvent \<Rightarrow> principal_event_row" where
  "event_row e g = \<lparr>pr_event_id = pe_EventID e, pr_principal_id = ip_ID (pe_Principal e), pr_revision = pe_Revision e,
     pr_kind = pe_Kind e, pr_occurred_at = pe_OccurredAt e, pr_canonical_event = sp_Canonical g, pr_digest = sp_Digest g,
     pr_signing_key_id = sp_SigningKeyID g, pr_signature = sp_Signature g\<rparr>"

definition insertPrincipalEventTx :: "codec \<Rightarrow> PrincipalEvent \<Rightarrow> Store \<Rightarrow> go_error + Store" where
  "insertPrincipalEventTx cd e s =
     (case sr_eventSigner s of
        None \<Rightarrow> Inl ErrIdentityEvidenceMissing
      | Some sign \<Rightarrow>
          (let g = sign e in
           if sp_Event g \<noteq> e \<or> sp_Canonical g \<noteq> CanonicalPrincipalEvent e then Inl ErrSignedObjectMutated
           else (case publicKeyTx s (sp_SigningKeyID g) of
               Inl _ \<Rightarrow> Inl ErrIdentityEvidenceCorrupt
             | Inr (pub, retired) \<Rightarrow>
                 if retired then Inl ErrSigningKeyRetired
                 else (case VerifyPrincipalEvent cd pub g of
                     Some err \<Rightarrow> Inl err
                   | None \<Rightarrow>
                       if \<not> event_row_admitted e s then Inl (ErrorString ''action/sqlite: insert principal event'')
                       else Inr (s\<lparr>sr_principal_events := sr_principal_events s @ [event_row e g]\<rparr>)))))"

definition stored_kind :: "PrincipalKind \<Rightarrow> bool" where
  "stored_kind k = (case k of PrincipalKindOther _ \<Rightarrow> False | _ \<Rightarrow> True)"

definition register_principal :: "codec \<Rightarrow> store_env \<Rightarrow> time \<Rightarrow> id_Principal \<Rightarrow> Store \<Rightarrow> go_error + Store" where
  "register_principal cd sv at configured s =
     (case principalTx s (ip_ID configured) of
        None \<Rightarrow>
          (let created = configured\<lparr>ip_CreatedAt := at, ip_DisabledAt := 0, ip_Revision := 1\<rparr> in
           if \<not> stored_kind (ip_Kind created) then Inl (ErrorString ''action/sqlite: insert principal'')
           else insertPrincipalEventTx cd
             \<lparr>pe_EventID = sv_event_id sv (length (sr_principal_events s)), pe_Principal = created, pe_Revision = 1,
              pe_Kind = ''created'', pe_OccurredAt = at\<rparr>
             (s\<lparr>sr_principals := sr_principals s @ [(ip_ID created, created)]\<rparr>))
      | Some stored \<Rightarrow>
          if ip_Kind stored \<noteq> ip_Kind configured
          then Inl (ErrorString ''action/sqlite: principal conflicts with configured identity'')
          else (case verifyPrincipalProjectionTx cd s stored of Some e \<Rightarrow> Inl e | None \<Rightarrow> Inr s))"

fun register_principals :: "codec \<Rightarrow> store_env \<Rightarrow> time \<Rightarrow> id_Principal list \<Rightarrow> Store \<Rightarrow> go_error + Store" where
  "register_principals cd sv at [] s = Inr s"
| "register_principals cd sv at (p # ps) s =
     (case register_principal cd sv at p s of Inl e \<Rightarrow> Inl e | Inr s1 \<Rightarrow> register_principals cd sv at ps s1)"

text \<open>The index over equivalent active bindings.\<close>

definition equivalent_active :: "Binding \<Rightarrow> Binding \<Rightarrow> bool" where
  "equivalent_active b b' \<longleftrightarrow> bi_Status b = BindingActive \<and> bi_Status b' = BindingActive \<and>
     b\<lparr>bi_ID := '''', bi_Generation := 0\<rparr> = b'\<lparr>bi_ID := '''', bi_Generation := 0\<rparr>"

definition binding_row_admitted :: "Binding \<Rightarrow> Store \<Rightarrow> bool" where
  "binding_row_admitted b s \<longleftrightarrow> principalTx s (bi_PrincipalID b) \<noteq> None \<and> bi_Generation b > 0 \<and>
     bi_Status b \<in> {BindingActive, BindingRevoked} \<and> \<not> list_ex (\<lambda>(_, b'). equivalent_active b b') (sr_bindings s)"

definition register_binding :: "Binding \<Rightarrow> Store \<Rightarrow> go_error + Store" where
  "register_binding configured s =
     (case map_of (sr_bindings s) (bi_ID configured) of
        None \<Rightarrow> if \<not> binding_row_admitted configured s then Inl (ErrorString ''action/sqlite: insert identity binding'')
                else Inr (s\<lparr>sr_bindings := sr_bindings s @ [(bi_ID configured, configured)]\<rparr>)
      | Some stored \<Rightarrow>
          if stored\<lparr>bi_CredentialRef := bi_CredentialRef configured\<rparr> \<noteq> configured
          then Inl (ErrorString ''action/sqlite: binding conflicts with configured identity'') else Inr s)"

fun register_bindings :: "Binding list \<Rightarrow> Store \<Rightarrow> go_error + Store" where
  "register_bindings [] s = Inr s"
| "register_bindings (b # bs) s = (case register_binding b s of Inl e \<Rightarrow> Inl e | Inr s1 \<Rightarrow> register_bindings bs s1)"

definition RegisterIdentity :: "codec \<Rightarrow> store_env \<Rightarrow> Registry \<Rightarrow> time \<Rightarrow> Store \<Rightarrow> (go_error + unit) \<times> Store" where
  "RegisterIdentity cd sv registry at s = transact sv (\<lambda>s.
     case register_principals cd sv at (rg_Principals registry) s of
       Inl e \<Rightarrow> Inl e
     | Inr s1 \<Rightarrow> (case register_bindings (rg_Bindings registry) s1 of Inl e \<Rightarrow> Inl e | Inr s2 \<Rightarrow> Inr ((), s2))) s"

definition update_principal :: "string \<Rightarrow> id_Principal \<Rightarrow> Store \<Rightarrow> Store" where
  "update_principal i p s = s\<lparr>sr_principals := map (\<lambda>(k, q). (k, if k = i then p else q)) (sr_principals s)\<rparr>"

definition DisablePrincipal :: "codec \<Rightarrow> store_env \<Rightarrow> string \<Rightarrow> time \<Rightarrow> Store \<Rightarrow> (go_error + unit) \<times> Store" where
  "DisablePrincipal cd sv principalID at s = transact sv (\<lambda>s.
     case principalTx s principalID of
       None \<Rightarrow> Inl (Errorf ''action/sqlite: principal %q: %w'' [ErrNotFound])
     | Some p \<Rightarrow>
         (case verifyPrincipalProjectionTx cd s p of
            Some e \<Rightarrow> Inl e
          | None \<Rightarrow>
              if \<not> IsZero (ip_DisabledAt p) then Inr ((), s)
              else
                (let p' = p\<lparr>ip_DisabledAt := at, ip_Revision := ip_Revision p + 1\<rparr> in
                 case insertPrincipalEventTx cd
                     \<lparr>pe_EventID = sv_event_id sv (length (sr_principal_events s)), pe_Principal = p',
                      pe_Revision = ip_Revision p', pe_Kind = ''disabled'', pe_OccurredAt = at\<rparr>
                     (update_principal (ip_ID p') p' s) of
                   Inl e \<Rightarrow> Inl e | Inr s1 \<Rightarrow> Inr ((), s1)))) s"

section \<open>Evidence\<close>

definition signEvidenceTx :: "codec \<Rightarrow> Evidence \<Rightarrow> Store \<Rightarrow> go_error + SignedEvidence" where
  "signEvidenceTx cd e s =
     (case sr_evidenceSigner s of
        None \<Rightarrow> Inl ErrIdentityEvidenceMissing
      | Some sign \<Rightarrow>
          (let g = sign e in
           if sg_Evidence g \<noteq> e \<or> sg_Canonical g \<noteq> CanonicalEvidence e then Inl ErrSignedObjectMutated
           else (case publicKeyTx s (sg_SigningKeyID g) of
               Inl _ \<Rightarrow> Inl ErrIdentityEvidenceCorrupt
             | Inr (pub, retired) \<Rightarrow>
                 if retired then Inl ErrSigningKeyRetired
                 else (case VerifyEvidence cd pub g of Some err \<Rightarrow> Inl err | None \<Rightarrow> Inr g))))"

definition evidence_row_admitted :: "SignedEvidence \<Rightarrow> Store \<Rightarrow> bool" where
  "evidence_row_admitted g s \<longleftrightarrow>
     (let e = sg_Evidence g in
      ev_EvidenceID e \<notin> fst ` set (sr_identity s) \<and>
      ev_ActionID e \<notin> (\<lambda>(_, g'). ev_ActionID (sg_Evidence g')) ` set (sr_identity s) \<and>
      map_of (sr_actions s) (ev_ActionID e) \<noteq> None \<and> principalTx s (ev_RequesterPrincipalID e) \<noteq> None \<and>
      principalTx s (ev_ActorPrincipalID e) \<noteq> None \<and>
      (ev_ResponsiblePrincipalID e = '''' \<or> principalTx s (ev_ResponsiblePrincipalID e) \<noteq> None) \<and>
      map_of (sr_bindings s) (ev_BindingID e) \<noteq> None \<and> ev_BindingGeneration e > 0 \<and>
      map_of (sr_keys s) (sg_SigningKeyID g) \<noteq> None)"

definition insertEvidenceTx :: "SignedEvidence \<Rightarrow> Store \<Rightarrow> go_error + Store" where
  "insertEvidenceTx g s =
     (if \<not> evidence_row_admitted g s then Inl (ErrorString ''action/sqlite: insert identity evidence'')
      else Inr (s\<lparr>sr_identity := sr_identity s @ [(ev_EvidenceID (sg_Evidence g), g)]\<rparr>))"

definition readEvidenceTx :: "Store \<Rightarrow> string \<Rightarrow> go_error + SignedEvidence" where
  "readEvidenceTx s actionID =
     (case List.find (\<lambda>(_, g). ev_ActionID (sg_Evidence g) = actionID) (sr_identity s) of
        None \<Rightarrow> Inl ErrIdentityEvidenceCorrupt | Some (_, g) \<Rightarrow> Inr g)"

definition GetIdentityEvidence :: "codec \<Rightarrow> Store \<Rightarrow> string \<Rightarrow> go_error + SignedEvidence" where
  "GetIdentityEvidence cd s actionID =
     (case readEvidenceTx s actionID of
        Inl e \<Rightarrow> Inl e
      | Inr g \<Rightarrow> (case publicKeyTx s (sg_SigningKeyID g) of
            Inl _ \<Rightarrow> Inl ErrIdentityEvidenceCorrupt
          | Inr (pub, _) \<Rightarrow> if VerifyEvidence cd pub g \<noteq> None then Inl ErrIdentityEvidenceCorrupt else Inr g))"

section \<open>Validation\<close>

fun check_evidence_principals :: "codec \<Rightarrow> Store \<Rightarrow> time \<Rightarrow> string list \<Rightarrow> go_error option" where
  "check_evidence_principals cd s now [] = None"
| "check_evidence_principals cd s now (i # is) =
     (if i = '''' then check_evidence_principals cd s now is
      else (case principalTx s i of
          None \<Rightarrow> Some ErrIdentityEvidenceUnreadable
        | Some p \<Rightarrow>
            (case verifyPrincipalProjectionTx cd s p of
               Some e \<Rightarrow> Some e
             | None \<Rightarrow> if \<not> IsZero (ip_DisabledAt p) \<and> \<not> ip_DisabledAt p > now then Some ErrPrincipalDisabled
                       else check_evidence_principals cd s now is)))"

definition evidence_principals :: "Evidence \<Rightarrow> string list" where
  "evidence_principals e = [ev_RequesterPrincipalID e, ev_ActorPrincipalID e, ev_ResponsiblePrincipalID e]"

definition evidence_fits_binding :: "Evidence \<Rightarrow> Binding \<Rightarrow> bool" where
  "evidence_fits_binding e b \<longleftrightarrow> bi_Status b = BindingActive \<and> bi_Generation b = ev_BindingGeneration e \<and>
     bi_PrincipalID b = ev_RequesterPrincipalID e \<and> bi_Provider b = ev_Provider e \<and> bi_Channel b = ev_Issuer e \<and>
     bi_SubjectNamespace b = ev_SubjectNamespace e \<and> bi_VerifiedSubject b = ev_VerifiedSubject e"

definition evidence_expired :: "Evidence \<Rightarrow> time \<Rightarrow> bool" where
  "evidence_expired e asked \<longleftrightarrow> \<not> IsZero (ev_ExpiresAt e) \<and> \<not> asked < ev_ExpiresAt e"

definition validateResolvedEvidenceAtTx :: "codec \<Rightarrow> Store \<Rightarrow> Evidence \<Rightarrow> action_Envelope \<Rightarrow> time \<Rightarrow> time \<Rightarrow> go_error option" where
  "validateResolvedEvidenceAtTx cd s e env asked now =
     (if ev_ActionID e \<noteq> ac_ActionID env \<or> ev_RequestID e \<noteq> ac_CorrelationID env \<or>
         ev_ActorPrincipalID e \<noteq> pf_PrincipalID (ac_Principal env) \<or>
         ev_ResponsiblePrincipalID e \<noteq> pf_ResponsibleHumanID (ac_Principal env) \<or> ev_Provider e \<noteq> so_Channel (ac_Source env)
      then Some ErrIdentityBindingMismatch
      else if evidence_expired e asked then Some ErrIdentityEvidenceExpired
      else (case check_evidence_principals cd s now (evidence_principals e) of
          Some err \<Rightarrow> Some err
        | None \<Rightarrow>
            (case map_of (sr_bindings s) (ev_BindingID e) of
               None \<Rightarrow> Some ErrIdentityEvidenceUnreadable
             | Some b \<Rightarrow> if evidence_fits_binding e b then None else Some ErrIdentityBindingMismatch)))"

definition validateResolvedEvidenceTx :: "codec \<Rightarrow> Store \<Rightarrow> Evidence \<Rightarrow> action_Envelope \<Rightarrow> time \<Rightarrow> go_error option" where
  "validateResolvedEvidenceTx cd s e env at = validateResolvedEvidenceAtTx cd s e env at at"

text \<open>The row as \<open>actionSnapshotTx\<close> reads it; \<open>storedAction\<close> is its four columns.\<close>

definition actionSnapshotTx :: "Store \<Rightarrow> string \<Rightarrow> go_error + action_row" where
  "actionSnapshotTx s actionID = (case map_of (sr_actions s) actionID of None \<Rightarrow> Inl ErrNotFound | Some row \<Rightarrow> Inr row)"

definition principal_column :: "action_row \<Rightarrow> string" where
  "principal_column row = (case ar_principal_id row of None \<Rightarrow> '''' | Some p \<Rightarrow> p)"

definition signed_of_snapshot :: "BirthSnapshot \<Rightarrow> Evidence \<Rightarrow> SignedEvidence" where
  "signed_of_snapshot b e = \<lparr>sg_Evidence = e, sg_Canonical = bs_Canonical b, sg_Digest = bs_Digest b,
     sg_SigningKeyID = bs_SigningKeyID b, sg_Signature = bs_Signature b\<rparr>"

text \<open>The snapshot of an authenticated action, verified: the evidence it seals, or nothing where
  any of the checks fails.\<close>

definition snapshot_evidence :: "codec \<Rightarrow> Store \<Rightarrow> string \<Rightarrow> action_row \<Rightarrow> Evidence option" where
  "snapshot_evidence cd s actionID row =
     (let b = ar_identity row in
      if bs_Version b \<noteq> 2 \<or> bs_Digest b = '''' \<or> bs_Canonical b = '''' \<or> bs_SigningKeyID b = '''' \<or> bs_Signature b = ''''
      then None
      else (case cd_parse_evidence cd (bs_Canonical b) of
          None \<Rightarrow> None
        | Some e \<Rightarrow>
            if ev_ActionID e \<noteq> actionID \<or> ev_ActorPrincipalID e \<noteq> principal_column row then None
            else (case publicKeyTx s (bs_SigningKeyID b) of
                Inl _ \<Rightarrow> None
              | Inr (pub, _) \<Rightarrow> if VerifyEvidence cd pub (signed_of_snapshot b e) \<noteq> None then None else Some e)))"

text \<open>The envelope the shared check is given: the stored row, with the responsible principal the
  signature pins.\<close>

definition stored_envelope :: "string \<Rightarrow> action_row \<Rightarrow> Evidence \<Rightarrow> action_Envelope" where
  "stored_envelope actionID row e = (ar_env row)\<lparr>ac_ActionID := actionID,
     ac_Principal := (ac_Principal (ar_env row))\<lparr>pf_PrincipalID := principal_column row,
       pf_ResponsibleHumanID := ev_ResponsiblePrincipalID e\<rparr>\<rparr>"

definition validateActionIdentityAtTx :: "codec \<Rightarrow> Store \<Rightarrow> string \<Rightarrow> time \<Rightarrow> time \<Rightarrow> go_error option" where
  "validateActionIdentityAtTx cd s actionID asked now =
     (case actionSnapshotTx s actionID of
        Inl e \<Rightarrow> Some e
      | Inr row \<Rightarrow>
          if SnapshotIsLegacy (ar_identity row) then None
          else (case snapshot_evidence cd s actionID row of
              None \<Rightarrow> Some ErrIdentityEvidenceCorrupt
            | Some e \<Rightarrow>
                if readEvidenceTx s actionID \<noteq> Inr (signed_of_snapshot (ar_identity row) e)
                then Some ErrIdentityEvidenceCorrupt
                else if evidence_expired e asked then Some ErrIdentityEvidenceExpired
                else validateResolvedEvidenceAtTx cd s e (stored_envelope actionID row e) asked now))"

definition validateActionIdentityTx :: "codec \<Rightarrow> Store \<Rightarrow> string \<Rightarrow> time \<Rightarrow> go_error option" where
  "validateActionIdentityTx cd s actionID at = validateActionIdentityAtTx cd s actionID at at"

definition validateActionIdentityV2AtTx :: "codec \<Rightarrow> Store \<Rightarrow> string \<Rightarrow> time \<Rightarrow> time \<Rightarrow> go_error + Evidence" where
  "validateActionIdentityV2AtTx cd s actionID asked now =
     (case actionSnapshotTx s actionID of
        Inl e \<Rightarrow> Inl e
      | Inr row \<Rightarrow>
          if SnapshotIsLegacy (ar_identity row) then Inl ErrIdentityEvidenceMissing
          else (case validateActionIdentityAtTx cd s actionID asked now of
              Some e \<Rightarrow> Inl e
            | None \<Rightarrow> (case readEvidenceTx s actionID of
                  Inl _ \<Rightarrow> Inl ErrIdentityEvidenceCorrupt | Inr g \<Rightarrow> Inr (sg_Evidence g))))"

definition validateActionIdentityV2Tx :: "codec \<Rightarrow> Store \<Rightarrow> string \<Rightarrow> time \<Rightarrow> go_error + Evidence" where
  "validateActionIdentityV2Tx cd s actionID at = validateActionIdentityV2AtTx cd s actionID at at"

section \<open>What a receipt says about the identity\<close>

record receiptIdentityTerms =
  ri_present :: bool
  ri_status :: string
  ri_requester :: string
  ri_actor :: string
  ri_responsible :: string
  ri_evidenceHash :: string
  ri_snapshotHash :: string

definition no_identity_terms :: receiptIdentityTerms where
  "no_identity_terms = \<lparr>ri_present = False, ri_status = '''', ri_requester = '''', ri_actor = '''', ri_responsible = '''',
     ri_evidenceHash = '''', ri_snapshotHash = ''''\<rparr>"

definition identityReceiptTermsTx :: "codec \<Rightarrow> Store \<Rightarrow> string \<Rightarrow> bool \<Rightarrow> go_error + receiptIdentityTerms" where
  "identityReceiptTermsTx cd s actionID allowCorrupt =
     (case actionSnapshotTx s actionID of
        Inl e \<Rightarrow> Inl e
      | Inr row \<Rightarrow>
          if SnapshotIsLegacy (ar_identity row) then Inr no_identity_terms
          else (case snapshot_evidence cd s actionID row of
              None \<Rightarrow> if \<not> allowCorrupt then Inl ErrIdentityEvidenceCorrupt
                else Inr (no_identity_terms\<lparr>ri_present := True, ri_status := ''corrupt'',
                       ri_snapshotHash := SnapshotDigest cd (ar_identity row)\<rparr>)
            | Some e \<Rightarrow> Inr \<lparr>ri_present = True, ri_status = ''verified'', ri_requester = ev_RequesterPrincipalID e,
                 ri_actor = ev_ActorPrincipalID e, ri_responsible = ev_ResponsiblePrincipalID e,
                 ri_evidenceHash = bs_Digest (ar_identity row), ri_snapshotHash = SnapshotDigest cd (ar_identity row)\<rparr>))"

definition seal_identity :: "receiptIdentityTerms \<Rightarrow> Receipt \<Rightarrow> Receipt" where
  "seal_identity t r = (if \<not> ri_present t then r
     else r\<lparr>rt_SchemaVersion := 3, rt_IdentityStatus := ri_status t, rt_RequesterPrincipalID := ri_requester t,
        rt_ActorPrincipalID := ri_actor t, rt_ResponsiblePrincipalID := ri_responsible t,
        rt_IdentityEvidenceDigest := ri_evidenceHash t, rt_IdentitySnapshotDigest := ri_snapshotHash t\<rparr>)"

end
