(* ===== verification/Action_Store.thy ===== *)
theory Action_Store
  imports Identity_Store
begin

text \<open>
  The action store (\<open>internal/action/sqlite\<close>): recording an attempt (\<open>store.go\<close>,
  \<open>evidence.go\<close>, \<open>identity_v2.go\<close>), closing it with its receipt (\<open>ledger.go\<close>), the approval
  requests (\<open>approvals.go\<close>, \<open>approvals_v15.go\<close>), crash recovery and retention. The tables and the
  transactions are those of \<open>Store_Tables\<close>. The strict authority tables are not part of
  this model: a request they own is refused by every door here that the code refuses it at.
\<close>

section \<open>Receipts of an action\<close>

definition decisionDigest :: "codec \<Rightarrow> store_Decision \<Rightarrow> string" where
  "decisionDigest cd d = HashCanonical cd (''{\"outcome\":'' @ cd_quote cd (dc_Outcome d) @
     '',\"policy_digest\":'' @ cd_quote cd (dc_PolicyDigest d) @ '',\"policy_version\":'' @ decimal (dc_PolicyVersion d) @
     '',\"rule\":'' @ cd_quote cd (dc_Rule d) @ ''}'')"

definition intentDigestTx :: "Store \<Rightarrow> string \<Rightarrow> string" where
  "intentDigestTx s intentID = (if intentID = '''' then '''' else case sr_intents s intentID of None \<Rightarrow> '''' | Some d \<Rightarrow> d)"

definition MarkCorruptDecisionAt :: string where "MarkCorruptDecisionAt = ''corrupt:decision_at''"
definition MarkCorruptDecisionPrincipal :: string where "MarkCorruptDecisionPrincipal = ''corrupt:decision_principal''"
definition MarkCorruptDecisionVerb :: string where "MarkCorruptDecisionVerb = ''corrupt:decision_verb''"
definition MarkCorruptApprovalMissing :: string where "MarkCorruptApprovalMissing = ''corrupt:approval_missing''"
definition MarkCorruptStatus :: string where "MarkCorruptStatus = ''corrupt:status''"

definition approval_of_action :: "Store \<Rightarrow> string \<Rightarrow> approval_row option" where
  "approval_of_action s actionID =
     map_option snd (List.find (\<lambda>(k, w). ap_ActionID (aw_approval w) = actionID) (sr_approvals s))"

definition approvalDigestTx :: "codec \<Rightarrow> Store \<Rightarrow> string \<Rightarrow> bool \<Rightarrow> string" where
  "approvalDigestTx cd s actionID decided =
     (case approval_of_action s actionID of
        None \<Rightarrow> if decided then MarkCorruptApprovalMissing else ''''
      | Some w \<Rightarrow>
          (let a = aw_approval w in
           case ap_Status a of
             ApprovalPending \<Rightarrow> if decided then MarkCorruptApprovalMissing else ''''
           | ApprovalStatusOther _ \<Rightarrow> MarkCorruptStatus
           | _ \<Rightarrow>
               if IsZero (ap_DecisionAt a) then MarkCorruptDecisionAt
               else if IsHumanDecision (ap_Decision a)
                 then if ap_DecisionPrincipalID a = '''' then MarkCorruptDecisionPrincipal else Approval_Digest cd a
               else if ap_Decision a = DecisionClock
                 then if ap_DecisionPrincipalID a \<noteq> '''' then MarkCorruptDecisionPrincipal else Approval_Digest cd a
               else MarkCorruptDecisionVerb))"

definition new_receipt :: "string \<Rightarrow> string \<Rightarrow> State \<Rightarrow> Receipt" where
  "new_receipt rid actionID state = (bare_receipt rid actionID (State_string state))\<lparr>rt_Attempt := 1\<rparr>"

definition receiptForRecord ::
    "codec \<Rightarrow> store_env \<Rightarrow> Store \<Rightarrow> action_Envelope \<Rightarrow> store_Decision \<Rightarrow> State \<Rightarrow> go_error + Receipt" where
  "receiptForRecord cd sv s env d state =
     (case identityReceiptTermsTx cd s (ac_ActionID env) False of
        Inl e \<Rightarrow> Inl e
      | Inr terms \<Rightarrow> Inr (seal_identity terms
     ((new_receipt (sv_receipt_id sv (length (sr_receipts s))) (ac_ActionID env) state)
       \<lparr>rt_IntentDigest := intentDigestTx s (ac_IntentID env), rt_PrincipalID := pf_PrincipalID (ac_Principal env),
        rt_DecisionDigest := decisionDigest cd d, rt_ActionDigest := ac_ParametersDigest env,
        rt_EffectClass := ac_Effect env, rt_StartedAt := ac_RequestedAt env, rt_FinishedAt := ac_RequestedAt env\<rparr>)))"

definition receiptForFinish ::
    "codec \<Rightarrow> store_env \<Rightarrow> Store \<Rightarrow> string \<Rightarrow> State \<Rightarrow> time \<Rightarrow> string \<Rightarrow> bool \<Rightarrow> bool \<Rightarrow> go_error + Receipt" where
  "receiptForFinish cd sv s actionID to finishedAt resultDigest decided allowCorruptIdentity =
     (case (map_of (sr_actions s) actionID, map_of (sr_decisions s) actionID) of
        (Some row, Some d) \<Rightarrow>
          (case identityReceiptTermsTx cd s actionID allowCorruptIdentity of
             Inl e \<Rightarrow> Inl e
           | Inr terms \<Rightarrow> Inr (seal_identity terms
          ((new_receipt (sv_receipt_id sv (length (sr_receipts s))) actionID to)
            \<lparr>rt_ApprovalDigest := approvalDigestTx cd s actionID decided,
             rt_IntentDigest := intentDigestTx s (case ar_intent_id row of None \<Rightarrow> [] | Some i \<Rightarrow> i),
             rt_PrincipalID := principal_column row,
             rt_DecisionDigest := decisionDigest cd d, rt_ActionDigest := ac_ParametersDigest (ar_env row),
             rt_EffectClass := ac_Effect (ar_env row), rt_ResultDigest := resultDigest,
             rt_StartedAt := ac_RequestedAt (ar_env row), rt_FinishedAt := finishedAt\<rparr>)))
      | _ \<Rightarrow> Inl (ErrorString ''action/sqlite: reify for its receipt''))"

definition append_receipt :: "codec \<Rightarrow> Receipt \<Rightarrow> Store \<Rightarrow> go_error + Store" where
  "append_receipt cd r s =
     (case appendReceiptTx cd (sr_sealer s) (sr_keys s) r (sr_receipts s) of
        Inl e \<Rightarrow> Inl e | Inr rs \<Rightarrow> Inr (s\<lparr>sr_receipts := rs\<rparr>))"

section \<open>Retention\<close>

definition update_action :: "string \<Rightarrow> (action_row \<Rightarrow> action_row) \<Rightarrow> Store \<Rightarrow> Store" where
  "update_action actionID f s =
     s\<lparr>sr_actions := map (\<lambda>(k, row). (k, if k = actionID then f row else row)) (sr_actions s)\<rparr>"

definition update_approval :: "string \<Rightarrow> (approval_row \<Rightarrow> approval_row) \<Rightarrow> Store \<Rightarrow> Store" where
  "update_approval approvalID f s =
     s\<lparr>sr_approvals := map (\<lambda>(k, w). (k, if k = approvalID then f w else w)) (sr_approvals s)\<rparr>"

definition prunable :: "State \<Rightarrow> bool" where
  "prunable st \<longleftrightarrow> st \<in> {StateDenied, StateShadowed, StateSucceeded, StateFailed, StateRejected, StateOutcomeUnknown}"

text \<open>\<open>ORDER BY requested_at ASC, action_id ASC\<close>, on the stored text of the instant.\<close>

definition prune_less :: "string \<times> action_row \<Rightarrow> string \<times> action_row \<Rightarrow> bool" where
  "prune_less x y \<longleftrightarrow>
     (let tx = rfc3339nano (ac_RequestedAt (ar_env (snd x))); ty = rfc3339nano (ac_RequestedAt (ar_env (snd y)))
      in string_less tx ty \<or> tx = ty \<and> string_less (fst x) (fst y))"

text \<open>Deleting action rows cascades to their decisions, evidence and approvals.\<close>

definition delete_actions :: "string set \<Rightarrow> Store \<Rightarrow> Store" where
  "delete_actions ids s = s\<lparr>sr_actions := filter (\<lambda>(k, _). k \<notin> ids) (sr_actions s),
     sr_decisions := filter (\<lambda>(k, _). k \<notin> ids) (sr_decisions s),
     sr_evidence := filter (\<lambda>(_, k, _). k \<notin> ids) (sr_evidence s),
     sr_approvals := filter (\<lambda>(_, w). ap_ActionID (aw_approval w) \<notin> ids) (sr_approvals s),
     sr_identity := filter (\<lambda>(_, g). ev_ActionID (sg_Evidence g) \<notin> ids) (sr_identity s)\<rparr>"

definition Prune :: "store_env \<Rightarrow> Store \<Rightarrow> (go_error + nat) \<times> Store" where
  "Prune sv s = transact sv (\<lambda>s.
     let excess = int (length (sr_actions s)) - sr_capRows s in
     if excess \<le> 0 then Inr (0, s)
     else (let ids = map fst (take (nat excess) (sort_by prune_less (filter (\<lambda>(_, row). prunable (ar_state row)) (sr_actions s))))
           in Inr (length ids, delete_actions (set ids) s))) s"

section \<open>Approval rows\<close>

definition approvalTx :: "Store \<Rightarrow> string \<Rightarrow> go_error + approval_row" where
  "approvalTx s approvalID = (case map_of (sr_approvals s) approvalID of
      None \<Rightarrow> Inl (Errorf ''action/sqlite: approval %q: %w'' [ErrApprovalNotFound]) | Some w \<Rightarrow> Inr w)"

definition strictMarkerTx :: "approval_row \<Rightarrow> go_error + bool" where
  "strictMarkerTx w =
     (if IsStrictApprovalID (ap_ApprovalID (aw_approval w)) \<noteq> aw_required w
      then Inl (Errorf ''action/sqlite: approval %q carries an id against authority marker: %w'' [ErrAuthorizationSnapshotCorrupt])
      else Inr (aw_required w))"

text \<open>\<open>judgeTombstoneOrigin\<close>: the field at fault.\<close>

definition judgeTombstoneOrigin :: "string \<Rightarrow> string \<Rightarrow> string option" where
  "judgeTombstoneOrigin decision prin =
     (if decision = DecisionClock then if prin \<noteq> '''' then Some ''decision_principal_id'' else None
      else if IsHumanDecision decision then if prin = '''' then Some ''decision_principal_id'' else None
      else Some ''decision'')"

definition tombstone_fault :: "string \<Rightarrow> go_error" where
  "tombstone_fault field = ErrorString (''tombstone_corrupt: '' @ field)"

definition seal_decision :: "string \<Rightarrow> string \<Rightarrow> time \<Rightarrow> Approval \<Rightarrow> Approval" where
  "seal_decision decider decision at a = a\<lparr>ap_DecisionPrincipalID := decider, ap_Decision := decision, ap_DecisionAt := at\<rparr>"

definition tombstone_of :: "codec \<Rightarrow> Approval \<Rightarrow> tombstone" where
  "tombstone_of cd a = \<lparr>tb_digest = Approval_Digest cd a, tb_action_id = ap_ActionID a, tb_action_digest = ap_ActionDigest a,
     tb_preview_digest = ap_PreviewDigest a, tb_policy_version = ap_PolicyVersion a, tb_policy_digest = ap_PolicyDigest a,
     tb_principal = ap_DecisionPrincipalID a, tb_decision = ap_Decision a, tb_decision_at = ap_DecisionAt a\<rparr>"

text \<open>\<open>tombstoneTx\<close>: a row under the same id is kept when it tells the same story and refused
  otherwise; a digest that another row carries is refused.\<close>

definition tombstoneTx :: "codec \<Rightarrow> Approval \<Rightarrow> string \<Rightarrow> string \<Rightarrow> time \<Rightarrow> Store \<Rightarrow> go_error + Store" where
  "tombstoneTx cd a decider decision at s =
     (case judgeTombstoneOrigin decision decider of
        Some field \<Rightarrow> Inl (tombstone_fault field)
      | None \<Rightarrow>
          (let t = tombstone_of cd (seal_decision decider decision at a) in
           case map_of (sr_tombstones s) (ap_ApprovalID a) of
             Some t' \<Rightarrow> if t' = t then Inr s else Inl (ErrorString ''action/sqlite: tombstone_conflict'')
           | None \<Rightarrow>
               if tb_digest t \<in> tb_digest ` snd ` set (sr_tombstones s) then Inl (tombstone_fault ''approval_digest'')
               else Inr (s\<lparr>sr_tombstones := sr_tombstones s @ [(ap_ApprovalID a, t)]\<rparr>)))"

text \<open>\<open>closeApprovalTx\<close>: the one-shot update of a pending row; the answer says whether this
  transaction won it.\<close>

definition closeApprovalTx ::
    "codec \<Rightarrow> Approval \<Rightarrow> ApprovalStatus \<Rightarrow> string \<Rightarrow> string \<Rightarrow> time \<Rightarrow> string \<Rightarrow> string \<Rightarrow> Store \<Rightarrow> go_error + bool \<times> Store" where
  "closeApprovalTx cd a status decider decision at comment proofID s =
     (case map_of (sr_approvals s) (ap_ApprovalID a) of
        None \<Rightarrow> Inr (False, s)
      | Some w \<Rightarrow>
          if ap_Status (aw_approval w) \<noteq> ApprovalPending then Inr (False, s)
          else
            (let s1 = update_approval (ap_ApprovalID a)
                   (\<lambda>w. w\<lparr>aw_approval := (seal_decision decider decision at (aw_approval w))
                        \<lparr>ap_Status := status, ap_Comment := comment, ap_DecisionReceiptID := proofID\<rparr>, aw_params := ''''\<rparr>) s in
             case tombstoneTx cd a decider decision at s1 of
               Inl e \<Rightarrow> Inl e | Inr s2 \<Rightarrow> Inr (True, s2)))"

definition transitionTx :: "string \<Rightarrow> State \<Rightarrow> State \<Rightarrow> Store \<Rightarrow> go_error + Store" where
  "transitionTx actionID from to s =
     (case Transition from to of
        Some e \<Rightarrow> Inl e
      | None \<Rightarrow>
          (case map_of (sr_actions s) actionID of
             None \<Rightarrow> Inl (Errorf ''action/sqlite: transition: %w'' [ErrApprovalActionNotPending])
           | Some row \<Rightarrow>
               if ar_state row \<noteq> from then Inl (Errorf ''action/sqlite: transition: %w'' [ErrApprovalActionNotPending])
               else Inr (update_action actionID (\<lambda>row. row\<lparr>ar_state := to\<rparr>) s)))"

definition rejectParkedActionTx :: "codec \<Rightarrow> store_env \<Rightarrow> string \<Rightarrow> time \<Rightarrow> Store \<Rightarrow> go_error + Store" where
  "rejectParkedActionTx cd sv actionID at s =
     (case transitionTx actionID StatePendingApproval StateRejected s of
        Inl e \<Rightarrow> Inl e
      | Inr s1 \<Rightarrow>
          (let s2 = update_action actionID (\<lambda>row. row\<lparr>ar_finished_at := Some at\<rparr>) s1 in
           case receiptForFinish cd sv s2 actionID StateRejected at '''' True False of
             Inl e \<Rightarrow> Inl e | Inr r \<Rightarrow> append_receipt cd r s2))"

section \<open>The expiry sweep\<close>

text \<open>The \<open>WHERE\<close> clause compares the stored text of the expiry with the text of the instant.\<close>

definition sweep_selects :: "time \<Rightarrow> approval_row \<Rightarrow> bool" where
  "sweep_selects at w \<longleftrightarrow> ap_Status (aw_approval w) = ApprovalPending \<and> \<not> IsZero (ap_ExpiresAt (aw_approval w)) \<and>
     \<not> string_less (rfc3339nano at) (rfc3339nano (ap_ExpiresAt (aw_approval w)))"

definition sweepExpiredOne :: "codec \<Rightarrow> store_env \<Rightarrow> string \<Rightarrow> time \<Rightarrow> Store \<Rightarrow> go_error + bool \<times> Store" where
  "sweepExpiredOne cd sv approvalID at s =
     (case approvalTx s approvalID of
        Inl e \<Rightarrow> Inl e
      | Inr w \<Rightarrow>
          (case closeApprovalTx cd (aw_approval w) ApprovalExpired '''' DecisionClock at '''' '''' s of
             Inl e \<Rightarrow> Inl e
           | Inr (won, s1) \<Rightarrow>
               if \<not> won then Inr (False, s)
               else (case rejectParkedActionTx cd sv (ap_ActionID (aw_approval w)) at s1 of
                       Inl e \<Rightarrow> Inl e | Inr s2 \<Rightarrow> Inr (True, s2))))"

fun sweep_loop ::
    "codec \<Rightarrow> store_env \<Rightarrow> time \<Rightarrow> string list \<Rightarrow> nat \<Rightarrow> nat \<Rightarrow> Store \<Rightarrow> (nat \<times> nat \<times> go_error option) \<times> Store" where
  "sweep_loop cd sv at [] swept skipped s = ((swept, skipped, None), s)"
| "sweep_loop cd sv at (i # ids) swept skipped s =
     (case sv_row_fault sv i of
        Some Busy \<Rightarrow> sweep_loop cd sv at ids swept (skipped + 1) s
      | Some (Broken e) \<Rightarrow> ((swept, skipped, Some e), s)
      | None \<Rightarrow>
          (case sweepExpiredOne cd sv i at s of
             Inl e \<Rightarrow> ((swept, skipped, Some e), s)
           | Inr (True, s') \<Rightarrow> sweep_loop cd sv at ids (swept + 1) skipped s'
           | Inr (False, s') \<Rightarrow> sweep_loop cd sv at ids swept (skipped + 1) s'))"

definition SweepExpiredApprovals ::
    "codec \<Rightarrow> store_env \<Rightarrow> time \<Rightarrow> Store \<Rightarrow> (nat \<times> nat \<times> go_error option) \<times> Store" where
  "SweepExpiredApprovals cd sv at s =
     (case sv_sweep_read sv of
        Some e \<Rightarrow> ((0, 0, Some (Errorf ''action/sqlite: expiry sweep: %w'' [e])), s)
      | None \<Rightarrow> sweep_loop cd sv at (map fst (filter (\<lambda>(_, w). sweep_selects at w) (sr_approvals s))) 0 0 s)"

section \<open>Recording and closing\<close>

text \<open>The cadence after a committed write: every \<open>pruneEvery\<close>-th pays the prune and, if that
  went well, the sweep; a failure of either is not the caller's.\<close>

definition noteWrite :: "codec \<Rightarrow> store_env \<Rightarrow> Store \<Rightarrow> Store" where
  "noteWrite cd sv s0 =
     (let s = s0\<lparr>sr_writes := sr_writes s0 + 1\<rparr> in
      if sr_writes s mod sr_pruneEvery s \<noteq> 0 then s
      else (case Prune (sv\<lparr>sv_tx := sv_prune sv\<rparr>) s of
              (Inl _, s1) \<Rightarrow> s1
            | (Inr _, s1) \<Rightarrow> snd (SweepExpiredApprovals cd sv (sv_now sv) s1)))"

definition insert_action ::
    "action_Envelope \<Rightarrow> State \<Rightarrow> string option \<Rightarrow> string option \<Rightarrow> string list \<Rightarrow> time option \<Rightarrow> BirthSnapshot \<Rightarrow> store_Decision \<Rightarrow>
     Store \<Rightarrow> go_error + Store" where
  "insert_action env state prin intent refs finished birth d s =
     (if map_of (sr_actions s) (ac_ActionID env) \<noteq> None then Inl (ErrorString ''action/sqlite: insert action'')
      else if map_of (sr_decisions s) (ac_ActionID env) \<noteq> None then Inl (ErrorString ''action/sqlite: insert decision'')
      else Inr (s\<lparr>sr_actions := sr_actions s @ [(ac_ActionID env, \<lparr>ar_env = env, ar_state = state,
               ar_recovery_marker = '''', ar_finished_at = finished, ar_principal_id = prin, ar_intent_id = intent,
               ar_authority_refs = refs, ar_identity = birth\<rparr>)],
             sr_decisions := sr_decisions s @ [(ac_ActionID env, d)]\<rparr>))"

definition receipt_if_terminal ::
    "codec \<Rightarrow> store_env \<Rightarrow> action_Envelope \<Rightarrow> store_Decision \<Rightarrow> State \<Rightarrow> Store \<Rightarrow> go_error + Store" where
  "receipt_if_terminal cd sv env d state s =
     (if state \<noteq> StateAuthorized
      then (case receiptForRecord cd sv s env d state of Inl e \<Rightarrow> Inl e | Inr r \<Rightarrow> append_receipt cd r s)
      else Inr s)"

definition nullable :: "string \<Rightarrow> string option" where
  "nullable v = (if v = '''' then None else Some v)"

text \<open>An action born with signed evidence: validated and signed now, its row carrying the snapshot
  and the evidence table the whole statement.\<close>

definition insert_authenticated ::
    "codec \<Rightarrow> store_env \<Rightarrow> action_Envelope \<Rightarrow> State \<Rightarrow> string list \<Rightarrow> store_Decision \<Rightarrow> Evidence \<Rightarrow> Store \<Rightarrow> go_error + Store" where
  "insert_authenticated cd sv env state refs d e s =
     (case validateResolvedEvidenceTx cd s e env (sv_identity_now sv) of
        Some err \<Rightarrow> Inl err
      | None \<Rightarrow>
     (case signEvidenceTx cd e s of
        Inl err \<Rightarrow> Inl err
      | Inr g \<Rightarrow>
     (case insert_action env state (Some (ev_ActorPrincipalID e)) (nullable (ac_IntentID env)) refs None (snapshot_of g) d s of
        Inl err \<Rightarrow> Inl err | Inr s1 \<Rightarrow> insertEvidenceTx g s1)))"

definition is_decision_state :: "State \<Rightarrow> bool" where
  "is_decision_state st \<longleftrightarrow> st \<in> {StateDenied, StateShadowed, StateAuthorized}"

definition committed :: "codec \<Rightarrow> store_env \<Rightarrow> (go_error + unit) \<times> Store \<Rightarrow> go_error option \<times> Store" where
  "committed cd sv r = (case r of (Inl e, s) \<Rightarrow> (Some e, s) | (Inr _, s) \<Rightarrow> (None, noteWrite cd sv s))"

definition store_RecordAttempt ::
    "codec \<Rightarrow> store_env \<Rightarrow> action_Envelope \<Rightarrow> store_Decision \<Rightarrow> State \<Rightarrow> Store \<Rightarrow> go_error option \<times> Store" where
  "store_RecordAttempt cd sv env d state s =
     (if \<not> is_decision_state state then (Some (Errorf ''%w: %s'' [ErrNotADecisionState]), s)
      else committed cd sv (transact sv (\<lambda>s.
        case insert_action env state None None [] None legacy_snapshot d s of
          Inl e \<Rightarrow> Inl e
        | Inr s1 \<Rightarrow> (case receipt_if_terminal cd sv env d state s1 of Inl e \<Rightarrow> Inl e | Inr s2 \<Rightarrow> Inr ((), s2))) s))"

definition store_RecordAttemptIdentified ::
    "codec \<Rightarrow> store_env \<Rightarrow> action_Envelope \<Rightarrow> store_Decision \<Rightarrow> State \<Rightarrow> AttemptIdentity \<Rightarrow> Store \<Rightarrow> go_error option \<times> Store" where
  "store_RecordAttemptIdentified cd sv env d state ident s =
     (if \<not> is_decision_state state then (Some (Errorf ''%w: %s'' [ErrNotADecisionState]), s)
      else committed cd sv (transact sv (\<lambda>s.
        case insert_action env state (Some (ai_PrincipalID ident)) (Some (ai_IntentID ident)) (ai_AuthorityRefs ident) None legacy_snapshot d s of
          Inl e \<Rightarrow> Inl e
        | Inr s1 \<Rightarrow>
            if ie_EvidenceID (ai_Evidence ident) \<in> fst ` set (sr_evidence s1)
            then Inl (ErrorString ''action/sqlite: insert evidence'')
            else
              (let s2 = s1\<lparr>sr_evidence := sr_evidence s1 @ [(ie_EvidenceID (ai_Evidence ident), ac_ActionID env, ai_Evidence ident)]\<rparr>
               in case receipt_if_terminal cd sv env d state s2 of Inl e \<Rightarrow> Inl e | Inr s3 \<Rightarrow> Inr ((), s3))) s))"

definition recordAuthenticatedTx ::
    "codec \<Rightarrow> store_env \<Rightarrow> action_Envelope \<Rightarrow> store_Decision \<Rightarrow> State \<Rightarrow> Evidence \<Rightarrow> Store \<Rightarrow> go_error + Store" where
  "recordAuthenticatedTx cd sv env d state e s =
     (case insert_authenticated cd sv env state (ac_AuthorityRefs env) d e s of
        Inl err \<Rightarrow> Inl err | Inr s1 \<Rightarrow> receipt_if_terminal cd sv env d state s1)"

definition RecordAttemptAuthenticated ::
    "codec \<Rightarrow> store_env \<Rightarrow> action_Envelope \<Rightarrow> store_Decision \<Rightarrow> State \<Rightarrow> Evidence \<Rightarrow> Store \<Rightarrow> go_error option \<times> Store" where
  "RecordAttemptAuthenticated cd sv env d state e s =
     (if \<not> is_decision_state state then (Some (Errorf ''%w: %s'' [ErrNotADecisionState]), s)
      else committed cd sv (transact sv (\<lambda>s.
        case recordAuthenticatedTx cd sv env d state e s of Inl err \<Rightarrow> Inl err | Inr s1 \<Rightarrow> Inr ((), s1)) s))"

definition finishWithResultTx ::
    "codec \<Rightarrow> store_env \<Rightarrow> string \<Rightarrow> State \<Rightarrow> time \<Rightarrow> string \<Rightarrow> Store \<Rightarrow> go_error + Store" where
  "finishWithResultTx cd sv actionID to finishedAt resultDigest s =
     (case map_of (sr_actions s) actionID of
        None \<Rightarrow> Inl (Errorf ''%w: %q'' [ErrNotFound])
      | Some row \<Rightarrow>
          (case Transition (ar_state row) to of
             Some e \<Rightarrow> Inl (Errorf ''action/sqlite: finish %q: %w'' [e])
           | None \<Rightarrow>
               (let s1 = update_action actionID (\<lambda>row. row\<lparr>ar_state := to, ar_finished_at := Some finishedAt\<rparr>) s in
                if sr_sealer s = None then Inr s1
                else (case receiptForFinish cd sv s1 actionID to finishedAt resultDigest (ar_state row = StateApproved) True of
                        Inl e \<Rightarrow> Inl e | Inr r \<Rightarrow> append_receipt cd r s1))))"

definition store_FinishWithResult ::
    "codec \<Rightarrow> (string \<Rightarrow> string) \<Rightarrow> store_env \<Rightarrow> string \<Rightarrow> State \<Rightarrow> time \<Rightarrow> string \<Rightarrow> Store \<Rightarrow> go_error option \<times> Store" where
  "store_FinishWithResult cd uni sv actionID to finishedAt resultDigest s =
     (if HasPrefix (ToLower uni resultDigest) ''profile:'' then (Some ErrReservedResultDigest, s)
      else (case transact sv (\<lambda>s. map_sum (\<lambda>e. e) (\<lambda>s'. ((), s')) (finishWithResultTx cd sv actionID to finishedAt resultDigest s)) s of
              (Inl e, s') \<Rightarrow> (Some e, s') | (Inr _, s') \<Rightarrow> (None, s')))"

definition store_Finish ::
    "codec \<Rightarrow> (string \<Rightarrow> string) \<Rightarrow> store_env \<Rightarrow> string \<Rightarrow> State \<Rightarrow> time \<Rightarrow> Store \<Rightarrow> go_error option \<times> Store" where
  "store_Finish cd uni sv actionID to finishedAt s = store_FinishWithResult cd uni sv actionID to finishedAt '''' s"

section \<open>Parking and deciding\<close>

definition maxApprovalParamsBytes :: nat where "maxApprovalParamsBytes = 65536"

definition new_approval_row :: "codec \<Rightarrow> Approval \<Rightarrow> ActionPreview \<Rightarrow> string \<Rightarrow> approval_row" where
  "new_approval_row cd a p rawParams =
     \<lparr>aw_approval = a\<lparr>ap_Status := ApprovalPending, ap_DecisionPrincipalID := '''', ap_Decision := '''', ap_DecisionAt := 0,
        ap_Comment := '''', ap_DecisionReceiptID := ''''\<rparr>,
      aw_preview = p\<lparr>av_Resources := sortedSet (av_Resources p)\<rparr>, aw_params = CanonicalParams cd rawParams, aw_required = False\<rparr>"

definition insert_approval :: "codec \<Rightarrow> Approval \<Rightarrow> ActionPreview \<Rightarrow> string \<Rightarrow> Store \<Rightarrow> go_error + Store" where
  "insert_approval cd a p rawParams s =
     (if ap_ApprovalID a \<in> fst ` set (sr_approvals s) \<or> approval_of_action s (ap_ActionID a) \<noteq> None
      then Inl (ErrorString ''action/sqlite: insert approval'')
      else Inr (s\<lparr>sr_approvals := sr_approvals s @ [(ap_ApprovalID a, new_approval_row cd a p rawParams)]\<rparr>))"

definition park_action ::
    "codec \<Rightarrow> store_env \<Rightarrow> action_Envelope \<Rightarrow> store_Decision \<Rightarrow> Evidence option \<Rightarrow> Store \<Rightarrow> go_error + Store" where
  "park_action cd sv env d evidence s =
     (case evidence of
        None \<Rightarrow> insert_action env StatePendingApproval (nullable (pf_PrincipalID (ac_Principal env)))
                  (nullable (ac_IntentID env)) [] None legacy_snapshot d s
      | Some e \<Rightarrow> insert_authenticated cd sv env StatePendingApproval [] d e s)"

definition createApprovalPartsWithIdentity ::
    "codec \<Rightarrow> store_env \<Rightarrow> action_Envelope \<Rightarrow> store_Decision \<Rightarrow> Approval \<Rightarrow> ActionPreview \<Rightarrow> string \<Rightarrow> Evidence option \<Rightarrow> Store \<Rightarrow>
     go_error option \<times> Store" where
  "createApprovalPartsWithIdentity cd sv env d a p rawParams evidence s =
     (if length rawParams > maxApprovalParamsBytes then (Some (ErrorString ''action/sqlite: approval request: params exceed the cap''), s)
      else if Digest cd (ac_Operation env) rawParams \<noteq> ac_ParametersDigest env
        then (Some (ErrorString ''action/sqlite: approval request: params do not derive the envelope digest''), s)
      else if ap_ActionDigest a \<noteq> ac_ParametersDigest env
        then (Some (ErrorString ''action/sqlite: approval request: approval binds another digest''), s)
      else if ap_ActionID a \<noteq> ac_ActionID env \<or> av_ActionID p \<noteq> ac_ActionID env
        then (Some (ErrorString ''action/sqlite: approval request: id mismatch across request parts''), s)
      else (case ValidatePreviewBinding cd a p of
          Some e \<Rightarrow> (Some (Errorf ''action/sqlite: approval request %q: %w'' [e]), s)
        | None \<Rightarrow>
      if dc_Rule d \<noteq> ap_Reason a then (Some (ErrorString ''action/sqlite: approval request: preview_rule_mismatch''), s)
      else committed cd sv (transact sv (\<lambda>s.
        case park_action cd sv env d evidence s of
          Inl e \<Rightarrow> Inl e
        | Inr s1 \<Rightarrow> (case insert_approval cd a p rawParams s1 of Inl e \<Rightarrow> Inl e | Inr s2 \<Rightarrow> Inr ((), s2))) s)))"

definition createApprovalParts ::
    "codec \<Rightarrow> store_env \<Rightarrow> action_Envelope \<Rightarrow> store_Decision \<Rightarrow> Approval \<Rightarrow> ActionPreview \<Rightarrow> string \<Rightarrow> Store \<Rightarrow> go_error option \<times> Store" where
  "createApprovalParts cd sv env d a p rawParams s = createApprovalPartsWithIdentity cd sv env d a p rawParams None s"

definition gate_decision :: "Approval \<Rightarrow> store_Decision" where
  "gate_decision a = \<lparr>dc_Outcome = ap_Reason a, dc_Rule = ap_Reason a, dc_PolicyVersion = ap_PolicyVersion a,
     dc_PolicyDigest = ap_PolicyDigest a\<rparr>"

definition CreateApprovalRequest ::
    "codec \<Rightarrow> store_env \<Rightarrow> BoundApprovalRequest \<Rightarrow> Store \<Rightarrow> go_error option \<times> Store" where
  "CreateApprovalRequest cd sv b s =
     createApprovalParts cd sv (bq_env b) (gate_decision (bq_approval b)) (bq_approval b) (bq_preview b) (bq_params b) s"

definition CreateApprovalRequestAuthenticated ::
    "codec \<Rightarrow> store_env \<Rightarrow> BoundApprovalRequest \<Rightarrow> Evidence \<Rightarrow> Store \<Rightarrow> go_error option \<times> Store" where
  "CreateApprovalRequestAuthenticated cd sv b e s =
     createApprovalPartsWithIdentity cd sv (bq_env b) (gate_decision (bq_approval b)) (bq_approval b) (bq_preview b)
       (bq_params b) (Some e) s"

definition storedEffectClassInDomain :: "EffectClass \<Rightarrow> bool" where
  "storedEffectClassInDomain c \<longleftrightarrow> Known c \<or> c = unclassified"

definition verifyApprovalStoryTyped :: "Store \<Rightarrow> Approval \<Rightarrow> ActionPreview \<Rightarrow> go_error option" where
  "verifyApprovalStoryTyped s a p =
     (case map_of (sr_actions s) (ap_ActionID a) of
        None \<Rightarrow> Some (Errorf ''the actions row is gone: %w'' [ErrApprovalEvidenceCorrupt])
      | Some row \<Rightarrow>
          (let op = ac_Operation (ar_env row) in
           if \<not> storedEffectClassInDomain (ac_Effect (ar_env row))
             then Some (Errorf ''effect class outside the domain: %w'' [ErrApprovalEvidenceCorrupt])
           else if EffectClass_string (ac_Effect (ar_env row)) \<noteq> EffectClass_string (av_EffectClass p)
             then Some (Errorf ''preview_effect_mismatch: %w'' [ErrApprovalEvidenceCorrupt])
           else if ao_Namespace op @ ''/'' @ ao_Name op \<noteq> av_Operation p
             then Some (Errorf ''preview_operation_mismatch: %w'' [ErrApprovalEvidenceCorrupt])
           else if principal_column row \<noteq> av_PrincipalID p
             then Some (Errorf ''preview_principal_mismatch: %w'' [ErrApprovalEvidenceCorrupt])
           else (case map_of (sr_decisions s) (ap_ActionID a) of
               None \<Rightarrow> Some (Errorf ''the decision row is gone: %w'' [ErrApprovalEvidenceCorrupt])
             | Some d \<Rightarrow>
                 if dc_Outcome d \<noteq> ap_Reason a \<or> dc_Rule d \<noteq> ap_Reason a
                   then Some (Errorf ''decision_outcome_mismatch: %w'' [ErrApprovalEvidenceCorrupt])
                 else if dc_PolicyVersion d \<noteq> ap_PolicyVersion a \<or> dc_PolicyDigest d \<noteq> ap_PolicyDigest a
                   then Some (Errorf ''decision_policy_mismatch: %w'' [ErrApprovalEvidenceCorrupt])
                 else None)))"

text \<open>The operator's decision act: a succeeded action of its own with its receipt, whose id proves the
  decision.\<close>

definition recordDecisionActTx ::
    "codec \<Rightarrow> store_env \<Rightarrow> action_Envelope \<Rightarrow> AttemptIdentity \<Rightarrow> time \<Rightarrow> Store \<Rightarrow> go_error + string \<times> Store" where
  "recordDecisionActTx cd sv env ident at s =
     (let d = \<lparr>dc_Outcome = ''allow'', dc_Rule = ''operator'', dc_PolicyVersion = 0, dc_PolicyDigest = ''''\<rparr> in
      case insert_action (env\<lparr>ac_RequestedAt := at\<rparr>) StateSucceeded (nullable (ai_PrincipalID ident)) (nullable (ai_IntentID ident)) [] (Some at) legacy_snapshot d s of
        Inl e \<Rightarrow> Inl e
      | Inr s1 \<Rightarrow>
          (case receiptForRecord cd sv s1 env d StateSucceeded of
             Inl e \<Rightarrow> Inl e
           | Inr r \<Rightarrow> (case append_receipt cd r s1 of Inl e \<Rightarrow> Inl e | Inr s2 \<Rightarrow> Inr (rt_ReceiptID r, s2))))"

definition decided_status :: "string \<Rightarrow> ApprovalStatus" where
  "decided_status decision = (if decision = DecisionApproved then ApprovalApproved
     else if decision = DecisionCancelled then ApprovalCancelled else ApprovalRejected)"

definition consume_approval :: "codec \<Rightarrow> store_env \<Rightarrow> Approval \<Rightarrow> string \<Rightarrow> time \<Rightarrow> action_Envelope \<Rightarrow> AttemptIdentity \<Rightarrow> string \<Rightarrow>
     Store \<Rightarrow> go_error + string \<times> Store" where
  "consume_approval cd sv a decision at operatorEnv ident comment s =
     (case recordDecisionActTx cd sv operatorEnv ident at s of
        Inl e \<Rightarrow> Inl e
      | Inr (proofID, s1) \<Rightarrow>
          (let s2 = update_approval (ap_ApprovalID a) (\<lambda>w. w\<lparr>aw_approval :=
                 (seal_decision (ai_PrincipalID ident) decision at (aw_approval w))
                   \<lparr>ap_Status := decided_status decision, ap_Comment := comment, ap_DecisionReceiptID := proofID\<rparr>\<rparr>) s1 in
           case tombstoneTx cd a (ai_PrincipalID ident) decision at s2 of
             Inl e \<Rightarrow> Inl e
           | Inr s3 \<Rightarrow>
               if decision = DecisionApproved
               then (case transitionTx (ap_ActionID a) StatePendingApproval StateApproved s3 of
                       Inl e \<Rightarrow> Inl (Errorf ''action/sqlite: approval %q: %w'' [e]) | Inr s4 \<Rightarrow> Inr ('''', s4))
               else (case rejectParkedActionTx cd sv (ap_ActionID a) at s3 of
                       Inl e \<Rightarrow> Inl e
                     | Inr s4 \<Rightarrow> Inr ('''', update_approval (ap_ApprovalID a) (\<lambda>w. w\<lparr>aw_params := ''''\<rparr>) s4))))"

text \<open>The body of \<open>decideApprovalWithLaw\<close> inside its transaction. The row was just read, so the
  one-shot update of a pending row is the update of this row.\<close>

definition decide_tx ::
    "codec \<Rightarrow> store_env \<Rightarrow> string \<Rightarrow> string \<Rightarrow> time \<Rightarrow> action_Envelope \<Rightarrow> AttemptIdentity \<Rightarrow> string \<Rightarrow> PolicyPin option \<Rightarrow>
     Store \<Rightarrow> go_error + string \<times> Store" where
  "decide_tx cd sv approvalID decision at operatorEnv ident comment law s =
     (case approvalTx s approvalID of
        Inl e \<Rightarrow> Inl e
      | Inr w \<Rightarrow>
     (let a = aw_approval w in
      case strictMarkerTx w of
        Inl e \<Rightarrow> Inl e
      | Inr _ \<Rightarrow>
     (case ValidatePreviewBinding cd a (aw_preview w) of
        Some e \<Rightarrow> Inl (Errorf ''action/sqlite: approval %q: %w: %w'' [ErrApprovalEvidenceCorrupt, e])
      | None \<Rightarrow>
     (case verifyApprovalStoryTyped s a (aw_preview w) of
        Some e \<Rightarrow> Inl (Errorf ''action/sqlite: approval %q: %w; refusing the decision'' [e])
      | None \<Rightarrow>
     (let rule = ApprovalConsumableAt a at in
      if rule = RuleApprovalAlreadyDecided then Inr (rule, s)
      else if rule \<noteq> ''''
      then (case closeApprovalTx cd a ApprovalExpired '''' DecisionClock at '''' '''' s of
              Inl e \<Rightarrow> Inl e
            | Inr (won, s1) \<Rightarrow>
                if \<not> won then Inr (RuleApprovalAlreadyDecided, s)
                else (case rejectParkedActionTx cd sv (ap_ActionID a) at s1 of
                        Inl e \<Rightarrow> Inl e | Inr s2 \<Rightarrow> Inr (RuleApprovalExpired, s2)))
      else if (case law of None \<Rightarrow> False
                | Some l \<Rightarrow> fst (ValidateApprovalBinding a (ap_ActionDigest a) (pn_Version l) (pn_Digest l)) \<noteq> '''')
      then Inl (Errorf ''action/sqlite: nothing was decided: %w'' [ErrApprovalInvalidated])
      else consume_approval cd sv a decision at operatorEnv ident comment s)))))"

definition decideApprovalWithLaw ::
    "codec \<Rightarrow> store_env \<Rightarrow> string \<Rightarrow> string \<Rightarrow> time \<Rightarrow> action_Envelope \<Rightarrow> AttemptIdentity \<Rightarrow> string \<Rightarrow> PolicyPin option \<Rightarrow>
     Store \<Rightarrow> (go_error + string) \<times> Store" where
  "decideApprovalWithLaw cd sv approvalID decision at operatorEnv ident comment law s =
     (if \<not> IsHumanDecision decision
      then (Inl (Errorf ''action/sqlite: decide approval %q: %w: %w'' [ErrUnknownDecision, tombstone_fault ''decision'']), s)
      else (case judgeTombstoneOrigin decision (ai_PrincipalID ident) of
              Some field \<Rightarrow> (Inl (Errorf ''action/sqlite: decide approval %q: %w'' [tombstone_fault field]), s)
            | None \<Rightarrow> transact sv (decide_tx cd sv approvalID decision at operatorEnv ident comment law) s))"

definition DecideApprovalUnderLaw ::
    "codec \<Rightarrow> store_env \<Rightarrow> string \<Rightarrow> string \<Rightarrow> time \<Rightarrow> action_Envelope \<Rightarrow> AttemptIdentity \<Rightarrow> string \<Rightarrow> PolicyPin \<Rightarrow>
     Store \<Rightarrow> (go_error + string) \<times> Store" where
  "DecideApprovalUnderLaw cd sv approvalID decision at operatorEnv ident comment law s =
     decideApprovalWithLaw cd sv approvalID decision at operatorEnv ident comment
       (if decision = DecisionApproved then Some law else None) s"

section \<open>Claiming the parameters\<close>

definition known_state :: "State \<Rightarrow> bool" where
  "known_state st = (case st of StateOther _ \<Rightarrow> False | _ \<Rightarrow> True)"

definition ternaOf :: "Store \<Rightarrow> string \<Rightarrow> go_error + action_Operation \<times> State" where
  "ternaOf s actionID =
     (case map_of (sr_actions s) actionID of
        None \<Rightarrow> Inl (Errorf ''the actions row is gone: %w'' [ErrApprovalEvidenceCorrupt])
      | Some row \<Rightarrow> if \<not> known_state (ar_state row)
                     then Inl (Errorf ''state outside the domain: %w'' [ErrApprovalEvidenceCorrupt])
                     else Inr (ac_Operation (ar_env row), ar_state row))"

definition claimAuthorityTx :: "Approval \<Rightarrow> State \<Rightarrow> go_error option" where
  "claimAuthorityTx a state =
     (case ap_Status a of
        ApprovalStatusOther _ \<Rightarrow> Some (Errorf ''status outside the domain: %w'' [ErrApprovalEvidenceCorrupt])
      | _ \<Rightarrow> if ap_Status a \<noteq> ApprovalApproved \<or> state \<noteq> StateApproved
             then Some (Errorf ''action/sqlite: inside the claim: %w'' [ErrApprovalNoLongerApproved]) else None)"

text \<open>\<open>approvalRowMoved\<close> compares every column; the row moved exactly when two differ.\<close>

definition approvalRowMoved :: "Approval \<Rightarrow> Approval \<Rightarrow> bool" where
  "approvalRowMoved seen now \<longleftrightarrow> seen \<noteq> now"

definition claim_tx ::
    "codec \<Rightarrow> store_env \<Rightarrow> string \<Rightarrow> PolicyPin option \<Rightarrow> string \<Rightarrow> Approval option \<Rightarrow> Store \<Rightarrow> go_error + (string \<times> action_Operation) \<times> Store" where
  "claim_tx cd sv approvalID law wantDigest seen s =
     (case approvalTx s approvalID of
        Inl e \<Rightarrow> Inl e
      | Inr w \<Rightarrow>
     (let a = aw_approval w in
      if (case seen of None \<Rightarrow> False | Some sn \<Rightarrow> approvalRowMoved sn a)
      then Inl (Errorf ''action/sqlite: approval moved under the claim: %w'' [ErrApprovalMovedUnderTheClaim])
      else (case strictMarkerTx w of
        Inl e \<Rightarrow> Inl e
      | Inr strictBorn \<Rightarrow>
      if strictBorn then Inl (Errorf ''action/sqlite: approval %q: %w'' [ErrApprovalRequiresAuthority])
      else if (case law of None \<Rightarrow> False
                | Some l \<Rightarrow> fst (ValidateApprovalBinding a (ap_ActionDigest a) (pn_Version l) (pn_Digest l)) \<noteq> '''')
      then Inl (Errorf ''action/sqlite: approval was parked under another law: %w'' [ErrApprovalInvalidated])
      else (case ValidatePreviewBinding cd a (aw_preview w) of
        Some e \<Rightarrow> Inl (Errorf ''action/sqlite: approval %q: %w: %w'' [ErrApprovalEvidenceCorrupt, e])
      | None \<Rightarrow>
     (case verifyApprovalStoryTyped s a (aw_preview w) of
        Some e \<Rightarrow> Inl (Errorf ''action/sqlite: approval %q: %w'' [e])
      | None \<Rightarrow>
     (case validateActionIdentityTx cd s (ap_ActionID a) (sv_identity_now sv) of
        Some e \<Rightarrow> Inl e
      | None \<Rightarrow>
     (case ternaOf s (ap_ActionID a) of
        Inl e \<Rightarrow> Inl (Errorf ''action/sqlite: approval %q: %w'' [e])
      | Inr (op, state) \<Rightarrow>
      if aw_params w = '''' then Inl (Errorf ''action/sqlite: approval %q: %w'' [ErrApprovalParamsEmpty])
      else if Digest cd op (aw_params w) \<noteq> wantDigest
      then Inl (Errorf ''action/sqlite: approval %q: %w'' [ErrApprovalParamsDigestMismatch])
      else (case claimAuthorityTx a state of
          Some e \<Rightarrow> Inl e
        | None \<Rightarrow> Inr ((aw_params w, op), update_approval approvalID (\<lambda>w. w\<lparr>aw_params := ''''\<rparr>) s)))))))))"

definition ClaimApprovalParamsUnderDigest ::
    "codec \<Rightarrow> store_env \<Rightarrow> string \<Rightarrow> PolicyPin option \<Rightarrow> string \<Rightarrow> Approval option \<Rightarrow> Store \<Rightarrow>
     (go_error + string \<times> action_Operation) \<times> Store" where
  "ClaimApprovalParamsUnderDigest cd sv approvalID law wantDigest seen s =
     transact sv (claim_tx cd sv approvalID law wantDigest seen) s"

section \<open>Recovery\<close>

definition recoveryMarkerCrash :: string where "recoveryMarkerCrash = ''crash_recovered''"
definition recoveryMarkerOutcomeUnknown :: string where "recoveryMarkerOutcomeUnknown = ''outcome_unknown''"

datatype orphan = ClaimedOrphan | AuthorizedOrphan | CrashOrphan

definition orphan_predicate :: "orphan \<Rightarrow> Store \<Rightarrow> string \<times> action_row \<Rightarrow> bool" where
  "orphan_predicate o' s kr =
     (case o' of
        ClaimedOrphan \<Rightarrow> ar_state (snd kr) = StateApproved \<and>
          \<not> list_ex (\<lambda>(_, w). ap_ActionID (aw_approval w) = fst kr \<and> aw_params w \<noteq> '''') (sr_approvals s)
      | AuthorizedOrphan \<Rightarrow> ar_state (snd kr) = StateAuthorized
      | CrashOrphan \<Rightarrow> ar_state (snd kr) \<notin> {StateDenied, StateShadowed, StateSucceeded, StateFailed, StateRejected,
          StatePendingApproval, StateApproved, StateOutcomeUnknown, StateAuthorized})"

definition orphan_close :: "orphan \<Rightarrow> State \<times> string" where
  "orphan_close o' = (case o' of CrashOrphan \<Rightarrow> (StateFailed, recoveryMarkerCrash)
     | _ \<Rightarrow> (StateOutcomeUnknown, recoveryMarkerOutcomeUnknown))"

definition closeCrashOrphan :: "codec \<Rightarrow> store_env \<Rightarrow> orphan \<Rightarrow> string \<Rightarrow> time \<Rightarrow> Store \<Rightarrow> go_error + bool \<times> Store" where
  "closeCrashOrphan cd sv o' actionID at s =
     (case map_of (sr_actions s) actionID of
        None \<Rightarrow> Inr (False, s)
      | Some row \<Rightarrow>
          if \<not> orphan_predicate o' s (actionID, row) then Inr (False, s)
          else
            (let (to, marker) = orphan_close o';
                 s1 = update_action actionID (\<lambda>row. row\<lparr>ar_state := to, ar_recovery_marker := marker, ar_finished_at := Some at\<rparr>) s in
             case receiptForFinish cd sv s1 actionID to at '''' (o' = ClaimedOrphan) True of
               Inl e \<Rightarrow> Inl e
             | Inr r \<Rightarrow> (case append_receipt cd r s1 of Inl e \<Rightarrow> Inl e | Inr s2 \<Rightarrow> Inr (True, s2))))"

fun recover_loop ::
    "codec \<Rightarrow> store_env \<Rightarrow> string list \<Rightarrow> orphan \<Rightarrow> string list \<Rightarrow> nat \<Rightarrow> Store \<Rightarrow> (nat \<times> go_error option) \<times> Store" where
  "recover_loop cd sv keep o' [] skipped s = ((skipped, None), s)"
| "recover_loop cd sv keep o' (i # ids) skipped s =
     (if i \<in> set keep then recover_loop cd sv keep o' ids skipped s
      else (case sv_row_fault sv i of
        Some Busy \<Rightarrow> recover_loop cd sv keep o' ids (skipped + 1) s
      | Some (Broken e) \<Rightarrow> ((skipped, Some e), s)
      | None \<Rightarrow>
          (case closeCrashOrphan cd sv o' i (sv_now sv) s of
             Inl e \<Rightarrow> ((skipped, Some e), s)
           | Inr (_, s') \<Rightarrow> recover_loop cd sv keep o' ids skipped s')))"

fun recover_passes ::
    "codec \<Rightarrow> store_env \<Rightarrow> string list \<Rightarrow> orphan list \<Rightarrow> nat \<Rightarrow> Store \<Rightarrow> (nat \<times> go_error option) \<times> Store" where
  "recover_passes cd sv keep [] skipped s = ((skipped, None), s)"
| "recover_passes cd sv keep (o' # os) skipped s =
     (case recover_loop cd sv keep o' (map fst (filter (orphan_predicate o' s) (sr_actions s))) skipped s of
        ((n, Some e), s') \<Rightarrow> ((n, Some e), s')
      | ((n, None), s') \<Rightarrow> recover_passes cd sv keep os n s')"

text \<open>\<open>RecoverPreviousLife\<close>; \<open>refused\<close> is the answer of \<open>refuseMaintenance\<close>.\<close>

definition RecoverPreviousLife ::
    "codec \<Rightarrow> store_env \<Rightarrow> go_error option \<Rightarrow> string list \<Rightarrow> Store \<Rightarrow> (nat \<times> go_error option) \<times> Store" where
  "RecoverPreviousLife cd sv refused keep s =
     (case refused of
        Some e \<Rightarrow> ((0, Some e), s)
      | None \<Rightarrow> recover_passes cd sv keep [ClaimedOrphan, AuthorizedOrphan, CrashOrphan] 0 s)"

end
