(* ===== verification/Identity_Safety.thy ===== *)
theory Identity_Safety
  imports Identity_Store
begin

text \<open>
  The registry of the store: keys are never removed or replaced, every principal's row is the
  principal of its latest signed event, and a disabled principal stays as it is. One relation says so, and
  each operation on the registry is shown to keep it.
\<close>

section \<open>How the registry moves\<close>

definition keys_kept :: "key_registry \<Rightarrow> key_registry \<Rightarrow> bool" where
  "keys_kept ks ks' \<longleftrightarrow> (\<forall>k pub c r. map_of ks k = Some (pub, c, r) \<longrightarrow>
     (\<exists>r'. map_of ks' k = Some (pub, c, r') \<and> (r = None \<or> r' = r))) \<and>
     (length (active_keys ks) \<le> 1 \<longrightarrow> length (active_keys ks') \<le> 1)"

definition identity_ok :: "codec \<Rightarrow> Store \<Rightarrow> bool" where
  "identity_ok cd s \<longleftrightarrow> distinct (map fst (sr_principals s)) \<and>
     pr_principal_id ` set (sr_principal_events s) \<subseteq> fst ` set (sr_principals s) \<and>
     (\<forall>k p. (k, p) \<in> set (sr_principals s) \<longrightarrow> ip_ID p = k \<and> verifyPrincipalProjectionTx cd s p = None)"

definition principal_moved :: "id_Principal \<Rightarrow> id_Principal \<Rightarrow> bool" where
  "principal_moved p p' \<longleftrightarrow> p'\<lparr>ip_DisabledAt := 0, ip_Revision := 0\<rparr> = p\<lparr>ip_DisabledAt := 0, ip_Revision := 0\<rparr> \<and>
     (ip_DisabledAt p \<noteq> 0 \<longrightarrow> p' = p)"

definition principals_kept :: "Store \<Rightarrow> Store \<Rightarrow> bool" where
  "principals_kept s s' \<longleftrightarrow> (\<forall>k p. map_of (sr_principals s) k = Some p \<longrightarrow>
     (\<exists>p'. map_of (sr_principals s') k = Some p' \<and> principal_moved p p'))"

definition registry_moved :: "codec \<Rightarrow> Store \<Rightarrow> Store \<Rightarrow> bool" where
  "registry_moved cd s s' \<longleftrightarrow> keys_kept (sr_keys s) (sr_keys s') \<and>
     (identity_ok cd s \<longrightarrow> identity_ok cd s' \<and> principals_kept s s')"

lemma keys_kept_refl [simp]: "keys_kept ks ks" by (simp add: keys_kept_def)

lemma keys_kept_trans: "keys_kept a b \<Longrightarrow> keys_kept b c \<Longrightarrow> keys_kept a c"
  unfolding keys_kept_def by (metis option.distinct(1))

lemma principals_kept_refl [simp]: "sr_principals s' = sr_principals s \<Longrightarrow> principals_kept s s'"
  by (simp add: principals_kept_def principal_moved_def)

lemma principals_kept_trans: "principals_kept s t \<Longrightarrow> principals_kept t u \<Longrightarrow> principals_kept s u"
  unfolding principals_kept_def principal_moved_def by metis

lemma registry_moved_trans: "registry_moved cd s t \<Longrightarrow> registry_moved cd t u \<Longrightarrow> registry_moved cd s u"
  unfolding registry_moved_def using keys_kept_trans principals_kept_trans by blast

lemma publicKeyTx_cong: "sr_keys s' = sr_keys s \<Longrightarrow> publicKeyTx s' = publicKeyTx s"
  by (intro ext) (simp add: publicKeyTx_def)

lemma verify_frame:
  assumes "sr_keys s' = sr_keys s" and "sr_principal_events s' = sr_principal_events s"
  shows "verifyPrincipalProjectionTx cd s' = verifyPrincipalProjectionTx cd s"
  by (intro ext) (simp only: verifyPrincipalProjectionTx_def publicKeyTx_cong [OF assms(1)] assms(2))

lemma publicKeyTx_kept:
  assumes "keys_kept (sr_keys s) (sr_keys s')" and "publicKeyTx s k = Inr (pub, r)"
  shows "\<exists>r'. publicKeyTx s' k = Inr (pub, r')"
proof -
  obtain pubHex c t where row: "map_of (sr_keys s) k = Some (pubHex, c, t)" and pub: "hex_decode pubHex = Some pub" "length pub = 32"
    using assms(2) by (auto simp: publicKeyTx_def split: option.splits if_splits)
  obtain t' where "map_of (sr_keys s') k = Some (pubHex, c, t')"
    using assms(1) row unfolding keys_kept_def by blast
  with pub show ?thesis by (simp add: publicKeyTx_def)
qed

lemma verify_kept:
  assumes "verifyPrincipalProjectionTx cd s p = None" and "keys_kept (sr_keys s) (sr_keys s')"
    and "latest_event (ip_ID p) (sr_principal_events s') = latest_event (ip_ID p) (sr_principal_events s)"
  shows "verifyPrincipalProjectionTx cd s' p = None"
proof -
  obtain r e pub q where "latest_event (ip_ID p) (sr_principal_events s) = Some r" "cd_parse_event cd (pr_canonical_event r) = Some e"
    "pr_revision r = ip_Revision p" "pe_Revision e = ip_Revision p" "pe_Principal e = p"
    and key: "publicKeyTx s (pr_signing_key_id r) = Inr (pub, q)" and "VerifyPrincipalEvent cd pub (signed_event_of r e) = None"
    using assms(1) by (auto simp: verifyPrincipalProjectionTx_def split: option.splits sum.splits if_splits)
  moreover obtain q' where "publicKeyTx s' (pr_signing_key_id r) = Inr (pub, q')"
    using publicKeyTx_kept [OF assms(2) key] by blast
  ultimately show ?thesis using assms(3) by (simp add: verifyPrincipalProjectionTx_def)
qed

lemma identity_ok_cong:
  assumes "sr_keys s' = sr_keys s" and "sr_principals s' = sr_principals s" and "sr_principal_events s' = sr_principal_events s"
  shows "identity_ok cd s' = identity_ok cd s"
  by (simp only: identity_ok_def verify_frame [OF assms(1,3)] assms(2,3))

lemma registry_same [simp]:
  "sr_keys s' = sr_keys s \<Longrightarrow> sr_principals s' = sr_principals s \<Longrightarrow> sr_principal_events s' = sr_principal_events s \<Longrightarrow>
   registry_moved cd s s'"
  unfolding registry_moved_def using identity_ok_cong [of s' s cd] keys_kept_refl principals_kept_refl by metis

section \<open>Keys\<close>

lemma map_of_retire: "map_of (retire_active at ks) k =
    map_option (\<lambda>(pub, c, r). (pub, c, if r = None then Some at else r)) (map_of ks k)"
  by (induction ks) (auto simp: retire_active_def)

lemma active_retired [simp]: "active_keys (retire_active at ks) = []"
  by (induction ks) (auto simp: retire_active_def active_keys_def)

lemma active_append [simp]: "active_keys (xs @ ys) = active_keys xs @ active_keys ys"
  by (simp add: active_keys_def)

lemma keys_kept_insert:
  assumes "map_of ks k = None" and "active_keys ks = []"
  shows "keys_kept ks (ks @ [(k, pub, at, None)])"
  using assms by (auto simp: keys_kept_def map_add_def active_keys_def split: option.splits)

lemma keys_kept_retire: "keys_kept ks (retire_active at ks)"
  by (auto simp: keys_kept_def map_of_retire)

lemma registry_keys:
  assumes "keys_kept (sr_keys s) ks"
  shows "registry_moved cd s (s\<lparr>sr_keys := ks\<rparr>)"
proof -
  have "verifyPrincipalProjectionTx cd (s\<lparr>sr_keys := ks\<rparr>) p = None" if "verifyPrincipalProjectionTx cd s p = None" for p
    using verify_kept [OF that, of "s\<lparr>sr_keys := ks\<rparr>"] assms by simp
  with assms show ?thesis by (auto simp: registry_moved_def identity_ok_def)
qed

lemma insert_key_moved:
  assumes "insert_key k pub at s = Inr (u, s')" and "active_keys (sr_keys s) = []"
  shows "registry_moved cd s s'"
proof -
  have "map_of (sr_keys s) k = None" "s' = s\<lparr>sr_keys := sr_keys s @ [(k, pub, at, None)]\<rparr>"
    using assms(1) by (auto simp: insert_key_def simp del: not_None_eq split: if_splits)
  then show ?thesis using registry_keys [OF keys_kept_insert] assms(2) by simp
qed

section \<open>Events\<close>

lemma latest_event_snoc:
  "latest_event i (rs @ [r]) = (if pr_principal_id r \<noteq> i then latest_event i rs
     else case latest_event i rs of None \<Rightarrow> Some r | Some h \<Rightarrow> if pr_revision h > pr_revision r then Some h else Some r)"
  by (induction rs) (auto split: option.splits)

lemma latest_event_None: "latest_event i rs = None \<longleftrightarrow> i \<notin> pr_principal_id ` set rs"
  by (induction rs) (auto split: option.splits)

lemma insertPrincipalEventTx_Inr:
  assumes "insertPrincipalEventTx cd e s = Inr s'"
  shows "\<exists>g pub. s' = s\<lparr>sr_principal_events := sr_principal_events s @ [event_row e g]\<rparr> \<and> sp_Event g = e \<and>
    publicKeyTx s (sp_SigningKeyID g) = Inr (pub, False) \<and> VerifyPrincipalEvent cd pub g = None \<and> event_row_admitted e s"
  using assms by (auto simp: insertPrincipalEventTx_def Let_def split: option.splits if_splits sum.splits)

lemma signed_event_row: "sp_Event g = e \<Longrightarrow> signed_event_of (event_row e g) e = g"
  by (simp add: signed_event_of_def event_row_def)

text \<open>An event that comes after every event of its principal makes its principal verify, and
  disturbs no other.\<close>

lemma inserted_event:
  assumes ins: "insertPrincipalEventTx cd e s = Inr s'" and rev: "pe_Revision e = ip_Revision (pe_Principal e)"
    and later: "\<And>h. latest_event (ip_ID (pe_Principal e)) (sr_principal_events s) = Some h \<Longrightarrow> pr_revision h < pe_Revision e"
  shows "verifyPrincipalProjectionTx cd s' (pe_Principal e) = None"
    "ip_ID p \<noteq> ip_ID (pe_Principal e) \<Longrightarrow> verifyPrincipalProjectionTx cd s p = None \<Longrightarrow> verifyPrincipalProjectionTx cd s' p = None"
    "sr_keys s' = sr_keys s" "sr_principals s' = sr_principals s"
    "pr_principal_id ` set (sr_principal_events s') = insert (ip_ID (pe_Principal e)) (pr_principal_id ` set (sr_principal_events s))"
proof -
  obtain g pub where s': "s' = s\<lparr>sr_principal_events := sr_principal_events s @ [event_row e g]\<rparr>" and g: "sp_Event g = e"
    and key: "publicKeyTx s (sp_SigningKeyID g) = Inr (pub, False)" and ok: "VerifyPrincipalEvent cd pub g = None"
    using insertPrincipalEventTx_Inr [OF ins] by blast
  let ?r = "event_row e g"
  have row: "pr_principal_id ?r = ip_ID (pe_Principal e)" "pr_revision ?r = pe_Revision e"
    "pr_canonical_event ?r = sp_Canonical g" "pr_signing_key_id ?r = sp_SigningKeyID g"
    by (simp_all add: event_row_def)
  have latest: "latest_event (ip_ID (pe_Principal e)) (sr_principal_events s') = Some ?r"
    using later row s' by (auto simp: latest_event_snoc split: option.splits dest: order.asym)
  have "publicKeyTx s' (sp_SigningKeyID g) = Inr (pub, False)" using key publicKeyTx_cong [of s' s] s' by simp
  then show "verifyPrincipalProjectionTx cd s' (pe_Principal e) = None"
    using latest VerifyPrincipalEvent_None [OF ok] ok g rev row signed_event_row [OF g]
    by (simp add: verifyPrincipalProjectionTx_def)
  show "verifyPrincipalProjectionTx cd s' p = None"
    if "ip_ID p \<noteq> ip_ID (pe_Principal e)" "verifyPrincipalProjectionTx cd s p = None"
    by (rule verify_kept [OF that(2)]) (use that(1) row s' in \<open>simp_all add: latest_event_snoc\<close>)
  show "sr_keys s' = sr_keys s" "sr_principals s' = sr_principals s"
    "pr_principal_id ` set (sr_principal_events s') = insert (ip_ID (pe_Principal e)) (pr_principal_id ` set (sr_principal_events s))"
    using s' row by simp_all
qed

section \<open>The operations\<close>

lemma register_principal_moved:
  assumes "register_principal cd sv at c s = Inr s'"
  shows "registry_moved cd s s'"
proof (cases "principalTx s (ip_ID c)")
  case (Some p)
  with assms show ?thesis by (auto simp: register_principal_def split: if_splits option.splits)
next
  case None
  let ?p = "c\<lparr>ip_CreatedAt := at, ip_DisabledAt := 0, ip_Revision := 1\<rparr>"
  let ?t = "s\<lparr>sr_principals := sr_principals s @ [(ip_ID ?p, ?p)]\<rparr>"
  obtain e where ins: "insertPrincipalEventTx cd e ?t = Inr s'" and e: "pe_Principal e = ?p" "pe_Revision e = 1"
    using assms None by (auto simp: register_principal_def Let_def split: if_splits)
  have new: "ip_ID c \<notin> fst ` set (sr_principals s)"
    using None by (simp only: principalTx_def map_of_eq_None_iff not_False_eq_True)
  show ?thesis
  proof (cases "identity_ok cd s")
    case True
    have fresh: "latest_event (ip_ID c) (sr_principal_events s) = None"
      using True new unfolding latest_event_None identity_ok_def by blast
    have later: "latest_event (ip_ID (pe_Principal e)) (sr_principal_events ?t) = Some h \<Longrightarrow> pr_revision h < pe_Revision e" for h
      using fresh e by simp
    have rev: "pe_Revision e = ip_Revision (pe_Principal e)" using e by simp
    note ev = inserted_event [OF ins rev later]
    have old: "verifyPrincipalProjectionTx cd s' q = None" if q: "(k, q) \<in> set (sr_principals s)" for k q
    proof -
      have "ip_ID q = k" "verifyPrincipalProjectionTx cd s q = None" using True q by (simp_all add: identity_ok_def)
      moreover have "k \<noteq> ip_ID c" using new q by (metis fst_conv image_eqI)
      ultimately show ?thesis using ev(2) e verify_frame [of ?t s] by simp
    qed
    have "identity_ok cd s'"
      using True new ev(1,4,5) e old unfolding identity_ok_def by auto
    moreover have "principals_kept s s'"
      using ev(4) new unfolding principals_kept_def principal_moved_def
      by (auto simp: map_add_def split: option.splits dest: map_of_SomeD)
    ultimately show ?thesis using ev(3) by (simp add: registry_moved_def)
  next
    case False
    obtain g where "s' = ?t\<lparr>sr_principal_events := sr_principal_events ?t @ [event_row e g]\<rparr>"
      using insertPrincipalEventTx_Inr [OF ins] by blast
    with False show ?thesis by (simp add: registry_moved_def)
  qed
qed

lemma register_principals_moved: "register_principals cd sv at ps s = Inr s' \<Longrightarrow> registry_moved cd s s'"
  by (induction cd sv at ps s rule: register_principals.induct)
    (auto split: sum.splits intro: registry_moved_trans dest: register_principal_moved)

lemma register_binding_frame: "register_binding b s = Inr s' \<Longrightarrow> s' = s\<lparr>sr_bindings := sr_bindings s'\<rparr>"
  by (auto simp: register_binding_def split: option.splits if_splits)

lemma register_bindings_frame: "register_bindings bs s = Inr s' \<Longrightarrow> s' = s\<lparr>sr_bindings := sr_bindings s'\<rparr>"
proof (induction bs s rule: register_bindings.induct)
  case (2 b bs s)
  then obtain s1 where s1: "register_binding b s = Inr s1" "register_bindings bs s1 = Inr s'" by (auto split: sum.splits)
  have "s1 = s\<lparr>sr_bindings := sr_bindings s1\<rparr>" "s' = s1\<lparr>sr_bindings := sr_bindings s'\<rparr>"
    using register_binding_frame "2.IH" s1 by blast+
  then show ?case by (metis Store.surjective Store.update_convs(10))
qed simp

lemma disable_moved:
  assumes p: "principalTx s i = Some p" and v: "verifyPrincipalProjectionTx cd s p = None" and z: "ip_DisabledAt p = 0"
    and e: "pe_Principal e = p\<lparr>ip_DisabledAt := at, ip_Revision := ip_Revision p + 1\<rparr>" "pe_Revision e = ip_Revision p + 1"
    and ins: "insertPrincipalEventTx cd e (update_principal (ip_ID p) (pe_Principal e) s) = Inr s'"
  shows "registry_moved cd s s'"
proof (cases "identity_ok cd s")
  case False
  obtain g where "s' = (update_principal (ip_ID p) (pe_Principal e) s)\<lparr>sr_principal_events := sr_principal_events s @ [event_row e g]\<rparr>"
    using insertPrincipalEventTx_Inr [OF ins] by (auto simp: update_principal_def)
  with False show ?thesis by (simp add: registry_moved_def update_principal_def)
next
  case True
  let ?t = "update_principal (ip_ID p) (pe_Principal e) s"
  have t: "sr_keys ?t = sr_keys s" "sr_principal_events ?t = sr_principal_events s"
    "sr_principals ?t = map (\<lambda>(k, q). (k, if k = ip_ID p then pe_Principal e else q)) (sr_principals s)"
    by (simp_all add: update_principal_def)
  have rev: "pe_Revision e = ip_Revision (pe_Principal e)" and id: "ip_ID (pe_Principal e) = ip_ID p" using e by simp_all
  have later: "latest_event (ip_ID (pe_Principal e)) (sr_principal_events ?t) = Some h \<Longrightarrow> pr_revision h < pe_Revision e" for h
    using v e id t(2) by (auto simp: verifyPrincipalProjectionTx_def split: option.splits if_splits sum.splits)
  note ev = inserted_event [OF ins rev later]
  have member: "(i, p) \<in> set (sr_principals s)" using p by (simp add: principalTx_def map_of_SomeD)
  then have i: "ip_ID p = i" using True by (simp add: identity_ok_def)
  have rows: "ip_ID q = k \<and> verifyPrincipalProjectionTx cd s' q = None" if "(k, q) \<in> set (sr_principals s')" for k q
  proof (cases "k = ip_ID p")
    case True
    with that ev(4) t(3) have "q = pe_Principal e" by auto
    with True id ev(1) show ?thesis by simp
  next
    case False
    with that ev(4) t(3) have "(k, q) \<in> set (sr_principals s)" by auto
    with \<open>identity_ok cd s\<close> have "ip_ID q = k" "verifyPrincipalProjectionTx cd s q = None" by (simp_all add: identity_ok_def)
    with False id ev(2) verify_frame [OF t(1,2)] show ?thesis by simp
  qed
  have keys: "map fst (sr_principals s') = map fst (sr_principals s)"
    using ev(4) t(3) by (simp add: comp_def case_prod_unfold)
  moreover have "insert (ip_ID p) (pr_principal_id ` set (sr_principal_events s)) \<subseteq> set (map fst (sr_principals s))"
  proof -
    have "ip_ID p \<in> fst ` set (sr_principals s)" using member i by (metis fst_conv image_eqI)
    then show ?thesis using True unfolding identity_ok_def set_map by (metis insert_subset)
  qed
  ultimately have "identity_ok cd s'"
    using True rows ev(5) id t(2) unfolding identity_ok_def by (metis list.set_map)
  moreover have "principals_kept s s'"
  proof -
    have "map_of (sr_principals s') k = (if k = ip_ID p then map_option (\<lambda>_. pe_Principal e) (map_of (sr_principals s) k) else map_of (sr_principals s) k)" for k
      using ev(4) t(3) by (simp add: map_of_update)
    moreover have "map_of (sr_principals s) (ip_ID p) = Some p" using p i by (simp add: principalTx_def)
    ultimately show ?thesis using z e(1) by (auto simp: principals_kept_def principal_moved_def)
  qed
  ultimately show ?thesis using ev(3) t(1) by (simp add: registry_moved_def)
qed


text \<open>An operation on the registry touches only the tables of the registry.\<close>

definition registry_op :: "codec \<Rightarrow> Store \<Rightarrow> Store \<Rightarrow> bool" where
  "registry_op cd s s' \<longleftrightarrow> registry_moved cd s s' \<and> s' = s\<lparr>sr_keys := sr_keys s', sr_principals := sr_principals s',
     sr_principal_events := sr_principal_events s', sr_bindings := sr_bindings s'\<rparr>"

lemma registry_op_refl [simp]: "registry_op cd s s" by (simp add: registry_op_def)

lemma transact_cases:
  assumes "\<And>a s'. f s = Inr (a, s') \<Longrightarrow> R s s'" and "R s s"
  shows "R s (snd (transact sv f s))"
  using assms by (auto simp: transact_def split: option.splits sum.splits)

lemma register_principal_frame:
  "register_principal cd sv at c s = Inr s' \<Longrightarrow> s' = s\<lparr>sr_principals := sr_principals s', sr_principal_events := sr_principal_events s'\<rparr>"
  by (auto simp: register_principal_def Let_def dest!: insertPrincipalEventTx_Inr split: option.splits if_splits)

lemma register_principals_frame:
  "register_principals cd sv at ps s = Inr s' \<Longrightarrow> s' = s\<lparr>sr_principals := sr_principals s', sr_principal_events := sr_principal_events s'\<rparr>"
proof (induction cd sv at ps s rule: register_principals.induct)
  case (2 cd sv at p ps s)
  then obtain s1 where s1: "register_principal cd sv at p s = Inr s1" "register_principals cd sv at ps s1 = Inr s'"
    by (auto split: sum.splits)
  from register_principal_frame [OF s1(1)] obtain a b where "s1 = s\<lparr>sr_principals := a, sr_principal_events := b\<rparr>" by blast
  moreover from "2.IH" s1 obtain c d where "s' = s1\<lparr>sr_principals := c, sr_principal_events := d\<rparr>" by blast
  ultimately show ?case by simp
qed simp

lemma RegisterIdentity_op: "registry_op cd s (snd (RegisterIdentity cd sv reg at s))"
  unfolding RegisterIdentity_def
proof (rule transact_cases)
  fix u s'
  assume "(case register_principals cd sv at (rg_Principals reg) s of Inl e \<Rightarrow> Inl e
    | Inr s1 \<Rightarrow> case register_bindings (rg_Bindings reg) s1 of Inl e \<Rightarrow> Inl e | Inr s2 \<Rightarrow> Inr ((), s2)) = Inr (u, s')"
  then obtain s1 where s1: "register_principals cd sv at (rg_Principals reg) s = Inr s1"
    and s': "register_bindings (rg_Bindings reg) s1 = Inr s'" by (auto split: sum.splits)
  from register_bindings_frame [OF s'] obtain b where b: "s' = s1\<lparr>sr_bindings := b\<rparr>" by blast
  have "registry_moved cd s s'"
    by (rule registry_moved_trans [OF register_principals_moved [OF s1]]) (simp add: b)
  moreover from register_principals_frame [OF s1] obtain p e where "s1 = s\<lparr>sr_principals := p, sr_principal_events := e\<rparr>" by blast
  ultimately show "registry_op cd s s'" using b by (simp add: registry_op_def)
qed simp

lemma DisablePrincipal_op: "registry_op cd s (snd (DisablePrincipal cd sv i at s))"
  unfolding DisablePrincipal_def
proof (rule transact_cases)
  fix u s'
  assume h: "(case principalTx s i of None \<Rightarrow> Inl (Errorf ''action/sqlite: principal %q: %w'' [ErrNotFound])
     | Some p \<Rightarrow> case verifyPrincipalProjectionTx cd s p of Some e \<Rightarrow> Inl e
       | None \<Rightarrow> if \<not> IsZero (ip_DisabledAt p) then Inr ((), s)
          else let p' = p\<lparr>ip_DisabledAt := at, ip_Revision := ip_Revision p + 1\<rparr>
            in case insertPrincipalEventTx cd \<lparr>pe_EventID = sv_event_id sv (length (sr_principal_events s)), pe_Principal = p',
                 pe_Revision = ip_Revision p', pe_Kind = ''disabled'', pe_OccurredAt = at\<rparr> (update_principal (ip_ID p') p' s) of
               Inl e \<Rightarrow> Inl e | Inr s1 \<Rightarrow> Inr ((), s1)) = Inr (u, s')"
  show "registry_op cd s s'"
  proof (cases "s' = s")
    case False
    let ?e = "\<lambda>p. \<lparr>pe_EventID = sv_event_id sv (length (sr_principal_events s)),
      pe_Principal = p\<lparr>ip_DisabledAt := at, ip_Revision := ip_Revision p + 1\<rparr>, pe_Revision = ip_Revision p + 1,
      pe_Kind = ''disabled'', pe_OccurredAt = at\<rparr>"
    from h False obtain p where p: "principalTx s i = Some p" "verifyPrincipalProjectionTx cd s p = None" "ip_DisabledAt p = 0"
      and ins: "insertPrincipalEventTx cd (?e p) (update_principal (ip_ID p) (pe_Principal (?e p)) s) = Inr s'"
      by (auto simp: Let_def IsZero_def split: option.splits if_splits sum.splits)
    have "registry_moved cd s s'" by (rule disable_moved [OF p _ _ ins]) simp_all
    moreover from insertPrincipalEventTx_Inr [OF ins] obtain a b where "s' = s\<lparr>sr_principals := a, sr_principal_events := b\<rparr>"
      by (auto simp: update_principal_def)
    ultimately show ?thesis by (simp add: registry_op_def)
  qed simp
qed simp

lemma key_op: "insert_key k pub at t = Inr (u, s') \<Longrightarrow> active_keys (sr_keys t) = [] \<Longrightarrow> registry_moved cd s t \<Longrightarrow>
    t = s\<lparr>sr_keys := sr_keys t\<rparr> \<Longrightarrow> registry_op cd s s'"
proof -
  assume ins: "insert_key k pub at t = Inr (u, s')" and act: "active_keys (sr_keys t) = []" and m: "registry_moved cd s t"
    and t: "t = s\<lparr>sr_keys := sr_keys t\<rparr>"
  have "registry_moved cd s s'" by (rule registry_moved_trans [OF m insert_key_moved [OF ins act]])
  moreover obtain ks where "s' = t\<lparr>sr_keys := ks\<rparr>" using ins by (auto simp: insert_key_def split: if_splits)
  moreover obtain ks' where "t = s\<lparr>sr_keys := ks'\<rparr>" using t by blast
  ultimately show ?thesis by (simp add: registry_op_def)
qed

lemma PutSigningKey_op: "registry_op cd s (snd (PutSigningKey sv k pub at s))"
  unfolding PutSigningKey_def by (rule transact_cases) (auto split: if_splits intro!: key_op)

lemma RotateSigningKey_op: "registry_op cd s (snd (RotateSigningKey sv k pub at s))"
  unfolding RotateSigningKey_def
  by (rule transact_cases) (auto split: if_splits intro!: key_op registry_keys keys_kept_retire)

section \<open>What a valid evidence says\<close>

lemma check_evidence_None:
  "check_evidence_principals cd s now is = None \<longleftrightarrow>
   (\<forall>i\<in>set is. i \<noteq> [] \<longrightarrow> (\<exists>p. principalTx s i = Some p \<and> verifyPrincipalProjectionTx cd s p = None \<and>
      (ip_DisabledAt p = 0 \<or> now < ip_DisabledAt p)))"
  by (induction cd s now "is" rule: check_evidence_principals.induct) (auto simp: IsZero_def split: option.splits)

lemma validateResolved_None:
  assumes "validateResolvedEvidenceAtTx cd s e env asked now = None"
  shows "\<forall>i\<in>set (evidence_principals e). i \<noteq> [] \<longrightarrow> (\<exists>p. principalTx s i = Some p \<and>
      verifyPrincipalProjectionTx cd s p = None \<and> (ip_DisabledAt p = 0 \<or> now < ip_DisabledAt p))"
    and "\<exists>b. map_of (sr_bindings s) (ev_BindingID e) = Some b \<and> evidence_fits_binding e b"
    and "\<not> evidence_expired e asked" and "ev_ActionID e = ac_ActionID env" and "ev_RequestID e = ac_CorrelationID env"
    and "ev_ActorPrincipalID e = pf_PrincipalID (ac_Principal env)"
  using assms by (auto simp: validateResolvedEvidenceAtTx_def check_evidence_None [symmetric] simp del: not_None_eq
      split: if_splits option.splits)

lemma validateActionIdentity_None:
  assumes "validateActionIdentityAtTx cd s i asked now = None" and "map_of (sr_actions s) i = Some row"
    and "\<not> SnapshotIsLegacy (ar_identity row)"
  shows "\<exists>e. snapshot_evidence cd s i row = Some e \<and> \<not> evidence_expired e asked \<and>
    validateResolvedEvidenceAtTx cd s e (stored_envelope i row e) asked now = None"
  using assms by (auto simp: validateActionIdentityAtTx_def actionSnapshotTx_def split: option.splits if_splits)

lemma snapshot_evidence_Some:
  "snapshot_evidence cd s i row = Some e \<Longrightarrow> cd_parse_evidence cd (bs_Canonical (ar_identity row)) = Some e \<and>
     ev_ActionID e = i \<and> ev_ActorPrincipalID e = principal_column row"
  by (auto simp: snapshot_evidence_def Let_def split: option.splits if_splits sum.splits)

end
