(* ===== verification/Store_Safety.thy ===== *)
theory Store_Safety
  imports Action_Store Identity_Safety
begin

text \<open>
  What holds over every history of the action store: the ledger only grows and stays a chain, closed
  actions and decided approvals are final, and the parameters of an approval leave the store once.

  Every operation first inserts rows under fresh keys, if it inserts any, and then only evolves the
  rows there are. The two relations below say so, and each primitive of the store is shown to keep
  them once.
\<close>

section \<open>How a store evolves\<close>

definition action_moved :: "action_row \<Rightarrow> action_row \<Rightarrow> bool" where
  "action_moved row row' \<longleftrightarrow> ar_env row' = ar_env row \<and> ar_identity row' = ar_identity row \<and>
     ar_principal_id row' = ar_principal_id row \<and> (Terminal (ar_state row) \<longrightarrow> row' = row)"

text \<open>The terms an approval was requested under, without its decision.\<close>

definition request_terms :: "Approval \<Rightarrow> Approval" where
  "request_terms a = a\<lparr>ap_Status := ApprovalPending, ap_DecisionPrincipalID := [], ap_Decision := [], ap_DecisionAt := 0,
     ap_Comment := [], ap_DecisionReceiptID := []\<rparr>"

definition approval_moved :: "approval_row \<Rightarrow> approval_row \<Rightarrow> bool" where
  "approval_moved w w' \<longleftrightarrow> aw_preview w' = aw_preview w \<and> aw_required w' = aw_required w \<and>
     request_terms (aw_approval w') = request_terms (aw_approval w) \<and> (aw_params w' = aw_params w \<or> aw_params w' = []) \<and>
     (ap_Status (aw_approval w) \<noteq> ApprovalPending \<longrightarrow> aw_approval w' = aw_approval w)"

definition rows_from :: "('r \<Rightarrow> 'r \<Rightarrow> bool) \<Rightarrow> (string \<times> 'r) list \<Rightarrow> (string \<times> 'r) list \<Rightarrow> bool" where
  "rows_from moved xs ys \<longleftrightarrow> (\<forall>k y. (k, y) \<in> set ys \<longrightarrow> (\<exists>x. (k, x) \<in> set xs \<and> moved x y)) \<and>
     (distinct (map fst xs) \<longrightarrow> distinct (map fst ys))"

text \<open>A receipt whose key is in the registry, retired or not, and whose signature verifies under it.\<close>

definition verifies :: "codec \<Rightarrow> key_registry \<Rightarrow> Receipt \<Rightarrow> bool" where
  "verifies cd keys r \<longleftrightarrow> (\<exists>pubHex created retired pub. map_of keys (rt_SigningKeyID r) = Some (pubHex, created, retired) \<and>
     hex_decode pubHex = Some pub \<and> length pub = 32 \<and> VerifyReceiptSignature cd pub r = None)"

definition ink_ok :: "codec \<Rightarrow> Store \<Rightarrow> bool" where
  "ink_ok cd s \<longleftrightarrow> (\<forall>r\<in>set (sr_receipts s). verifies cd (sr_keys s) r)"

lemma sealed_verifies: "sealed_by cd keys r \<Longrightarrow> verifies cd keys r"
  unfolding sealed_by_def verifies_def by blast

lemma verifies_kept: "keys_kept ks ks' \<Longrightarrow> verifies cd ks r \<Longrightarrow> verifies cd ks' r"
  unfolding keys_kept_def verifies_def by metis

definition ledger_grows :: "codec \<Rightarrow> Store \<Rightarrow> Store \<Rightarrow> bool" where
  "ledger_grows cd s s' \<longleftrightarrow> sr_sealer s' = sr_sealer s \<and> registry_moved cd s s' \<and>
     (\<exists>rs. sr_receipts s' = sr_receipts s @ rs) \<and> (\<exists>ts. sr_tombstones s' = sr_tombstones s @ ts) \<and>
     (chain_ok cd (sr_receipts s) \<longrightarrow> chain_ok cd (sr_receipts s') \<and> (ink_ok cd s \<longrightarrow> ink_ok cd s'))"

text \<open>The primary keys and the foreign key: an approval row carries its own id and the id of an action
  that is there.\<close>

definition refers :: "(string \<times> action_row) list \<Rightarrow> string \<Rightarrow> approval_row \<Rightarrow> bool" where
  "refers as k w \<longleftrightarrow> ap_ApprovalID (aw_approval w) = k \<and> ap_ActionID (aw_approval w) \<in> fst ` set as"

definition keyed :: "Store \<Rightarrow> bool" where
  "keyed s \<longleftrightarrow> distinct (map fst (sr_actions s)) \<and> distinct (map fst (sr_approvals s)) \<and>
     (\<forall>k w. (k, w) \<in> set (sr_approvals s) \<longrightarrow> refers (sr_actions s) k w)"

definition evolves :: "codec \<Rightarrow> Store \<Rightarrow> Store \<Rightarrow> bool" where
  "evolves cd s s' \<longleftrightarrow> ledger_grows cd s s' \<and>
     (keyed s \<longrightarrow> keyed s' \<and> rows_from action_moved (sr_actions s) (sr_actions s') \<and>
        rows_from approval_moved (sr_approvals s) (sr_approvals s'))"

text \<open>An insertion adds rows under keys the tables do not hold; \<open>K\<close> holds the new approval ids.\<close>

definition fresh_rows :: "string set \<Rightarrow> (string \<times> 'r) list \<Rightarrow> (string \<times> 'r) list \<Rightarrow> bool" where
  "fresh_rows K xs ys \<longleftrightarrow> (\<exists>zs. ys = xs @ zs \<and> fst ` set zs \<subseteq> K \<and> fst ` set zs \<inter> fst ` set xs = {} \<and> distinct (map fst zs))"

lemma fresh_rowsE:
  assumes "fresh_rows K xs ys"
  obtains zs where "ys = xs @ zs" "fst ` set zs \<subseteq> K" "fst ` set zs \<inter> fst ` set xs = {}" "distinct (map fst zs)"
  using assms unfolding fresh_rows_def by (elim exE conjE)

definition inserted :: "string set \<Rightarrow> Store \<Rightarrow> Store \<Rightarrow> bool" where
  "inserted K s s' \<longleftrightarrow> fresh_rows UNIV (sr_actions s) (sr_actions s') \<and> fresh_rows K (sr_approvals s) (sr_approvals s') \<and>
     (\<forall>k w. (k, w) \<in> set (sr_approvals s') - set (sr_approvals s) \<longrightarrow> refers (sr_actions s') k w) \<and>
     sr_sealer s' = sr_sealer s \<and> sr_keys s' = sr_keys s \<and> sr_principals s' = sr_principals s \<and>
     sr_principal_events s' = sr_principal_events s \<and> sr_receipts s' = sr_receipts s \<and> sr_tombstones s' = sr_tombstones s"

text \<open>One operation, with the approval ids it creates.\<close>

definition op_ok :: "codec \<Rightarrow> string set \<Rightarrow> Store \<Rightarrow> Store \<Rightarrow> bool" where
  "op_ok cd K s s' \<longleftrightarrow> (\<exists>t. inserted K s t \<and> evolves cd t s')"

text \<open>The order on the rows of one table, for the tables the store updates in place.\<close>

locale table_order =
  fixes moved :: "'r \<Rightarrow> 'r \<Rightarrow> bool"
  assumes moved_refl: "moved x x" and moved_trans: "moved x y \<Longrightarrow> moved y z \<Longrightarrow> moved x z"
begin

lemma same_rows: "rows_from moved xs xs"
  using moved_refl by (auto simp: rows_from_def)

lemma rows_trans: "rows_from moved xs ys \<Longrightarrow> rows_from moved ys zs \<Longrightarrow> rows_from moved xs zs"
  unfolding rows_from_def using moved_trans by meson

lemma rows_deleted: "rows_from moved xs (filter P xs)"
  using moved_refl by (auto simp: rows_from_def distinct_map_filter)

lemma rows_updated:
  assumes "distinct (map fst xs)" and "\<And>x. map_of xs i = Some x \<Longrightarrow> moved x (f x)"
  shows "rows_from moved xs (map (\<lambda>(k, x). (k, if k = i then f x else x)) xs)"
proof -
  have "\<exists>x. (k, x) \<in> set xs \<and> moved x y"
    if member: "(k, y) \<in> set (map (\<lambda>(k, x). (k, if k = i then f x else x)) xs)" for k y
  proof -
    obtain x where "(k, x) \<in> set xs" "y = (if k = i then f x else x)" using member by auto
    with assms moved_refl show ?thesis by (cases "k = i") auto
  qed
  then show ?thesis using assms(1) by (simp add: rows_from_def comp_def case_prod_unfold)
qed

lemma row_after:
  assumes "distinct (map fst xs)" and "rows_from moved (xs @ zs) ys" and "fst ` set zs \<inter> fst ` set xs = {}"
    and "distinct (map fst zs)" and "map_of xs k = Some x" and "map_of ys k = Some y"
  shows "moved x y"
proof -
  obtain x' where x': "(k, x') \<in> set (xs @ zs)" "moved x' y"
    using assms(2) map_of_SomeD [OF assms(6)] unfolding rows_from_def by meson
  have "k \<in> fst ` set xs" using assms(5) by (metis map_of_SomeD fst_conv image_eqI)
  with x'(1) assms(3) have "(k, x') \<in> set xs" by force
  with assms(1,5) x'(2) show ?thesis by (metis map_of_eq_Some_iff option.inject)
qed

end

interpretation action_rows: table_order action_moved
  by unfold_locales (auto simp: action_moved_def)

interpretation approval_rows: table_order approval_moved
  by unfold_locales (auto simp: approval_moved_def)

lemma ledger_grows_refl [simp]: "ledger_grows cd s s" by (simp add: ledger_grows_def)

lemma ledger_grows_trans: "ledger_grows cd s t \<Longrightarrow> ledger_grows cd t u \<Longrightarrow> ledger_grows cd s u"
  unfolding ledger_grows_def using registry_moved_trans by (metis append_assoc)

lemmas same_rows = action_rows.same_rows approval_rows.same_rows

lemma evolves_refl [simp, intro]: "evolves cd s s"
  by (simp add: evolves_def same_rows)

lemma request_terms_fields [simp]:
  "ap_ApprovalID (request_terms a) = ap_ApprovalID a" "ap_ActionID (request_terms a) = ap_ActionID a"
  "ap_ActionDigest (request_terms a) = ap_ActionDigest a"
  by (simp_all add: request_terms_def)

lemma request_terms_refers: "request_terms (aw_approval w) = request_terms (aw_approval w') \<Longrightarrow> refers as k w = refers as k w'"
  unfolding refers_def by (metis request_terms_fields(1,2))

lemma evolves_keyed: "evolves cd s t \<Longrightarrow> keyed s \<Longrightarrow> keyed t"
  by (simp only: evolves_def simp_thms)

lemma evolves_trans: "evolves cd s t \<Longrightarrow> evolves cd t u \<Longrightarrow> evolves cd s u"
  using evolves_keyed [of cd s t] unfolding evolves_def
  using action_rows.rows_trans approval_rows.rows_trans ledger_grows_trans by blast

lemma inserted_refl [simp, intro]: "inserted K s s"
  by (simp add: inserted_def fresh_rows_def)

lemma op_ok_evolves: "evolves cd s s' \<Longrightarrow> op_ok cd K s s'"
  unfolding op_ok_def by blast

lemma op_ok_refl [simp, intro]: "op_ok cd K s s"
  by (rule op_ok_evolves) simp

lemma op_ok_then: "op_ok cd K s t \<Longrightarrow> evolves cd t u \<Longrightarrow> op_ok cd K s u"
  unfolding op_ok_def using evolves_trans by blast

section \<open>The primitives\<close>

lemma update_action_simps [simp]:
  "sr_approvals (update_action i f s) = sr_approvals s" "sr_receipts (update_action i f s) = sr_receipts s"
  "sr_tombstones (update_action i f s) = sr_tombstones s" "sr_sealer (update_action i f s) = sr_sealer s"
  "sr_principals (update_action i f s) = sr_principals s" "sr_principal_events (update_action i f s) = sr_principal_events s"
  "sr_keys (update_action i f s) = sr_keys s" "sr_decisions (update_action i f s) = sr_decisions s"
  "map_of (sr_actions (update_action i f s)) k =
     (if k = i then map_option f (map_of (sr_actions s) k) else map_of (sr_actions s) k)"
  by (simp_all add: update_action_def map_of_update)

lemma update_approval_simps [simp]:
  "sr_actions (update_approval i g s) = sr_actions s" "sr_receipts (update_approval i g s) = sr_receipts s"
  "sr_tombstones (update_approval i g s) = sr_tombstones s" "sr_sealer (update_approval i g s) = sr_sealer s"
  "sr_principals (update_approval i g s) = sr_principals s" "sr_principal_events (update_approval i g s) = sr_principal_events s"
  "sr_keys (update_approval i g s) = sr_keys s" "sr_decisions (update_approval i g s) = sr_decisions s"
  "map_of (sr_approvals (update_approval i g s)) k =
     (if k = i then map_option g (map_of (sr_approvals s) k) else map_of (sr_approvals s) k)"
  by (simp_all add: update_approval_def map_of_update)

lemma update_action_twice: "update_action i g (update_action i f s) = update_action i (\<lambda>r. g (f r)) s"
  by (simp add: update_action_def case_prod_unfold comp_def)

lemma update_action_keys: "map fst (sr_actions (update_action i f s)) = map fst (sr_actions s)"
  by (simp add: update_action_def comp_def case_prod_unfold)

lemma update_approval_keys: "map fst (sr_approvals (update_approval i g s)) = map fst (sr_approvals s)"
  by (simp add: update_approval_def comp_def case_prod_unfold)

lemma evolves_update_action:
  assumes "\<And>row. map_of (sr_actions s) i = Some row \<Longrightarrow> action_moved row (f row)"
  shows "evolves cd s (update_action i f s)"
proof -
  have "refers (sr_actions (update_action i f s)) = refers (sr_actions s)"
    by (intro ext) (metis refers_def update_action_keys set_map)
  then have "keyed (update_action i f s) = keyed s" by (simp add: keyed_def update_action_keys)
  moreover have "rows_from action_moved (sr_actions s) (sr_actions (update_action i f s))" if "keyed s"
    using action_rows.rows_updated [of "sr_actions s" i f] assms that by (simp add: update_action_def keyed_def)
  ultimately show ?thesis by (simp add: evolves_def same_rows ledger_grows_def ink_ok_def)
qed

lemma evolves_update_approval:
  assumes "\<And>w. map_of (sr_approvals s) i = Some w \<Longrightarrow> approval_moved w (g w)"
  shows "evolves cd s (update_approval i g s)"
proof -
  let ?as = "sr_approvals (update_approval i g s)"
  have rows: "rows_from approval_moved (sr_approvals s) ?as" if "keyed s"
    using approval_rows.rows_updated [of "sr_approvals s" i g] assms that
    by (simp add: update_approval_def keyed_def)
  have "refers (sr_actions s) k w'" if k: "keyed s" and w': "(k, w') \<in> set ?as" for k w'
  proof -
    obtain w where "(k, w) \<in> set (sr_approvals s)" "approval_moved w w'"
      using rows [OF k] w' unfolding rows_from_def by blast
    then show ?thesis using k request_terms_refers unfolding keyed_def approval_moved_def by metis
  qed
  then have "keyed s \<Longrightarrow> keyed (update_approval i g s)" by (simp add: keyed_def update_approval_keys)
  with rows show ?thesis by (simp add: evolves_def same_rows ledger_grows_def ink_ok_def)
qed

lemma evolves_purge: "evolves cd s (update_approval i (\<lambda>w. w\<lparr>aw_params := []\<rparr>) s)"
  by (rule evolves_update_approval) (simp add: approval_moved_def)

lemma appendReceiptTx_prefix: "appendReceiptTx cd sealer keys r rs = Inr rs' \<Longrightarrow> \<exists>ys. rs' = rs @ ys"
  by (auto simp: appendReceiptTx_def Let_def split: option.splits if_splits prod.splits)

lemma evolves_receipt: "append_receipt cd r s = Inr s' \<Longrightarrow> evolves cd s s'"
proof -
  assume "append_receipt cd r s = Inr s'"
  then obtain rs where rs: "appendReceiptTx cd (sr_sealer s) (sr_keys s) r (sr_receipts s) = Inr rs"
    and s': "s' = s\<lparr>sr_receipts := rs\<rparr>" by (auto simp: append_receipt_def split: sum.splits)
  have "chain_ok cd (sr_receipts s) \<Longrightarrow> chain_ok cd rs"
    using appendReceiptTx_Inr [OF rs] chain_link by metis
  moreover have "ink_ok cd s'" if "chain_ok cd (sr_receipts s)" "ink_ok cd s"
    using appendReceiptTx_Inr [OF rs that(1)] that(2) s' sealed_verifies by (auto simp: ink_ok_def)
  ultimately show ?thesis using appendReceiptTx_prefix [OF rs] s'
    by (simp add: evolves_def same_rows ledger_grows_def ink_ok_def keyed_def)
qed

lemma evolves_tombstone: "tombstoneTx cd a decider decision at s = Inr s' \<Longrightarrow> evolves cd s s'"
  by (auto simp: tombstoneTx_def Let_def evolves_def same_rows ledger_grows_def ink_ok_def keyed_def split: option.splits if_splits)

lemma evolves_delete: "evolves cd s (delete_actions ids s)"
proof -
  have "refers (filter (\<lambda>(k, _). k \<notin> ids) as) k w"
    if "refers as k w" "ap_ActionID (aw_approval w) \<notin> ids" for as k w
    using that by (force simp: refers_def)
  then have "keyed s \<Longrightarrow> keyed (delete_actions ids s)"
    by (auto simp: keyed_def delete_actions_def distinct_map_filter)
  then show ?thesis
    by (simp add: evolves_def delete_actions_def ledger_grows_def ink_ok_def action_rows.rows_deleted approval_rows.rows_deleted)
qed

lemma evolves_writes: "evolves cd s (s\<lparr>sr_writes := n\<rparr>)"
  by (simp add: evolves_def ledger_grows_def ink_ok_def keyed_def same_rows)

lemma inserted_action: "insert_action env state prin intent refs finished birth d s = Inr s' \<Longrightarrow> inserted K s s'"
  by (auto simp: insert_action_def inserted_def fresh_rows_def map_of_eq_None_iff split: if_splits)


section \<open>The operations\<close>

lemma evolves_transition:
  assumes "transitionTx i from to s = Inr s'"
  shows "s' = update_action i (\<lambda>row. row\<lparr>ar_state := to\<rparr>) s \<and>
    (\<exists>row. map_of (sr_actions s) i = Some row \<and> ar_state row = from \<and> \<not> Terminal from)"
proof -
  have "\<not> Terminal from" if "Transition from to = None"
    using that action_machine.terminal_closed action_step_iff by blast
  with assms show ?thesis by (auto simp: transitionTx_def split: option.splits if_splits)
qed

lemma evolves_transitionTx: "transitionTx i from to s = Inr s' \<Longrightarrow> evolves cd s s'"
  using evolves_transition evolves_update_action by (fastforce simp: action_moved_def)

lemma evolves_reject:
  assumes "rejectParkedActionTx cd sv i at s = Inr s'"
  shows "evolves cd s s'"
proof -
  obtain s1 r where s1: "transitionTx i StatePendingApproval StateRejected s = Inr s1"
    and r: "append_receipt cd r (update_action i (\<lambda>row. row\<lparr>ar_finished_at := Some at\<rparr>) s1) = Inr s'"
    using assms by (auto simp: rejectParkedActionTx_def Let_def split: sum.splits)
  from evolves_transition [OF s1] obtain row where
    "s1 = update_action i (\<lambda>row. row\<lparr>ar_state := StateRejected\<rparr>) s" "map_of (sr_actions s) i = Some row"
    "\<not> Terminal (ar_state row)" by auto
  then have "evolves cd s (update_action i (\<lambda>row. row\<lparr>ar_finished_at := Some at\<rparr>) s1)"
    by (auto simp: update_action_twice action_moved_def intro!: evolves_update_action)
  with evolves_receipt [OF r] show ?thesis by (rule evolves_trans [rotated])
qed

lemma evolves_close:
  assumes "closeApprovalTx cd a status decider decision at comment proofID s = Inr (won, s')"
  shows "evolves cd s s'"
proof (cases won)
  case True
  with assms obtain w t where w: "map_of (sr_approvals s) (ap_ApprovalID a) = Some w" "ap_Status (aw_approval w) = ApprovalPending"
    and t: "t = update_approval (ap_ApprovalID a)
          (\<lambda>w. w\<lparr>aw_approval := (seal_decision decider decision at (aw_approval w))
             \<lparr>ap_Status := status, ap_Comment := comment, ap_DecisionReceiptID := proofID\<rparr>, aw_params := []\<rparr>) s"
    and s': "tombstoneTx cd a decider decision at t = Inr s'"
    by (auto simp: closeApprovalTx_def Let_def split: option.splits if_splits sum.splits)
  have "evolves cd s t" unfolding t by (rule evolves_update_approval) (use w in \<open>simp add: approval_moved_def seal_decision_def request_terms_def\<close>)
  then show ?thesis using evolves_tombstone [OF s'] evolves_trans by blast
next
  case False
  with assms show ?thesis by (auto simp: closeApprovalTx_def Let_def split: option.splits if_splits sum.splits)
qed

lemma evolves_sweepOne: "sweepExpiredOne cd sv i at s = Inr (won, s') \<Longrightarrow> evolves cd s s'"
  by (auto simp: sweepExpiredOne_def dest!: evolves_close evolves_reject split: sum.splits prod.splits if_splits
      intro: evolves_trans)

lemma evolves_sweep_loop: "evolves cd s (snd (sweep_loop cd sv at ids swept skipped s))"
  by (induction cd sv at ids swept skipped s rule: sweep_loop.induct)
    (auto split: option.splits driver_fault.splits sum.splits prod.splits bool.splits intro: evolves_trans dest: evolves_sweepOne)

lemma evolves_SweepExpiredApprovals: "evolves cd s (snd (SweepExpiredApprovals cd sv at s))"
  by (simp add: SweepExpiredApprovals_def evolves_sweep_loop split: option.splits)

lemma evolves_Prune: "evolves cd s (snd (Prune sv s))"
  unfolding Prune_def by (rule transact_cases) (auto simp: Let_def evolves_delete split: if_splits)

lemma evolves_noteWrite: "evolves cd s (noteWrite cd sv s)"
proof -
  let ?s = "s\<lparr>sr_writes := sr_writes s + 1\<rparr>"
  obtain r t where p: "Prune (sv\<lparr>sv_tx := sv_prune sv\<rparr>) ?s = (r, t)" by fastforce
  have "evolves cd ?s t" using evolves_Prune [of cd ?s "sv\<lparr>sv_tx := sv_prune sv\<rparr>"] p by simp
  then have "evolves cd s t" using evolves_writes evolves_trans by blast
  then show ?thesis
    using p evolves_writes [of cd s] evolves_SweepExpiredApprovals [of cd t sv "sv_now sv"]
    by (auto simp: noteWrite_def Let_def split: sum.splits intro: evolves_trans)
qed

lemma op_ok_committed:
  assumes "op_ok cd K s (snd r)"
  shows "op_ok cd K s (snd (committed cd sv r))"
  using assms op_ok_then [OF _ evolves_noteWrite] by (auto simp: committed_def split: prod.splits sum.splits)


lemma op_ok_insert: "insert_action env state prin intent refs finished birth d s = Inr t \<Longrightarrow> evolves cd t u \<Longrightarrow> op_ok cd K s u"
  unfolding op_ok_def using inserted_action by blast

lemma evolves_receipt_if: "receipt_if_terminal cd sv env d state s = Inr t \<Longrightarrow> evolves cd s t"
  using evolves_receipt by (auto simp: receipt_if_terminal_def split: if_splits sum.splits)

lemma op_ok_RecordAttempt: "op_ok cd K s (snd (store_RecordAttempt cd sv env d state s))"
  unfolding store_RecordAttempt_def
  by (auto intro!: op_ok_committed transact_cases [where R = "op_ok cd K"] intro: op_ok_insert dest!: evolves_receipt_if
      split: sum.splits)

lemma evolves_evidence: "evolves cd s (s\<lparr>sr_evidence := es\<rparr>)"
  by (simp add: evolves_def same_rows ledger_grows_def ink_ok_def keyed_def)

lemma op_ok_RecordAttemptIdentified: "op_ok cd K s (snd (store_RecordAttemptIdentified cd sv env d state ident s))"
proof -
  have "op_ok cd K s u" if "insert_action env state prin intent refs fin birth d s = Inr t"
    "receipt_if_terminal cd sv env d state (t\<lparr>sr_evidence := es\<rparr>) = Inr u" for prin intent refs fin birth t es u
    using op_ok_insert [OF that(1)] evolves_receipt_if [OF that(2)] evolves_evidence evolves_trans by blast
  then show ?thesis
    unfolding store_RecordAttemptIdentified_def
    by (auto intro!: op_ok_committed transact_cases [where R = "op_ok cd K"] simp: Let_def split: sum.splits if_splits)
qed

lemma evolves_finishTx:
  assumes "finishWithResultTx cd sv i to at dig s = Inr s'"
  shows "evolves cd s s'"
proof -
  let ?t = "update_action i (\<lambda>row. row\<lparr>ar_state := to, ar_finished_at := Some at\<rparr>) s"
  obtain row where row: "map_of (sr_actions s) i = Some row" "Transition (ar_state row) to = None"
    and s': "s' = ?t \<or> (\<exists>r. append_receipt cd r ?t = Inr s')"
    using assms by (auto simp: finishWithResultTx_def Let_def split: option.splits if_splits sum.splits)
  have "\<not> Terminal (ar_state row)" using row(2) action_machine.terminal_closed action_step_iff by blast
  then have "evolves cd s ?t" using row by (auto simp: action_moved_def intro!: evolves_update_action)
  with s' show ?thesis using evolves_receipt evolves_trans by blast
qed

lemma evolves_FinishWithResult: "evolves cd s (snd (store_FinishWithResult cd uni sv i to at dig s))"
proof -
  have "evolves cd s (snd (transact sv (\<lambda>s. map_sum (\<lambda>e. e) (\<lambda>s'. ((), s')) (finishWithResultTx cd sv i to at dig s)) s))"
    by (rule transact_cases) (auto dest: evolves_finishTx simp: map_sum_def split: sum.splits)
  then show ?thesis by (auto simp: store_FinishWithResult_def split: prod.splits sum.splits)
qed

lemma insert_authenticated_Inr:
  assumes "insert_authenticated cd sv env state refs d e s = Inr t"
  shows "\<exists>u g. signEvidenceTx cd e s = Inr g \<and> validateResolvedEvidenceTx cd s e env (sv_identity_now sv) = None \<and>
    insert_action env state (Some (ev_ActorPrincipalID e)) (nullable (ac_IntentID env)) refs None (snapshot_of g) d s = Inr u \<and>
    t = u\<lparr>sr_identity := sr_identity u @ [(ev_EvidenceID (sg_Evidence g), g)]\<rparr>"
  using assms by (auto simp: insert_authenticated_def insertEvidenceTx_def split: option.splits sum.splits if_splits)

lemma inserted_identity [simp]: "inserted K s (t\<lparr>sr_identity := x\<rparr>) = inserted K s t"
  by (simp add: inserted_def)

lemma inserted_authenticated: "insert_authenticated cd sv env state refs d e s = Inr t \<Longrightarrow> inserted K s t"
  using insert_authenticated_Inr [of cd sv env state refs d e s t] inserted_action by fastforce

lemma op_ok_RecordAttemptAuthenticated: "op_ok cd K s (snd (RecordAttemptAuthenticated cd sv env d state e s))"
proof -
  have "op_ok cd K s u" if "recordAuthenticatedTx cd sv env d state e s = Inr u" for u
  proof -
    obtain t where "insert_authenticated cd sv env state (ac_AuthorityRefs env) d e s = Inr t" "receipt_if_terminal cd sv env d state t = Inr u"
      using \<open>recordAuthenticatedTx cd sv env d state e s = Inr u\<close> by (auto simp: recordAuthenticatedTx_def split: sum.splits)
    then show ?thesis unfolding op_ok_def using inserted_authenticated evolves_receipt_if by blast
  qed
  then show ?thesis
    unfolding RecordAttemptAuthenticated_def
    by (auto intro!: op_ok_committed transact_cases [where R = "op_ok cd K"] split: sum.splits)
qed

text \<open>Parking writes the action, with or without evidence, and nothing else.\<close>

lemma park_action_Inr:
  assumes "park_action cd sv env d ev s = Inr s1"
  shows "inserted K s s1 \<and> sr_approvals s1 = sr_approvals s \<and>
    (\<exists>row. map_of (sr_actions s1) (ac_ActionID env) = Some row \<and> ar_env row = env)"
proof -
  obtain t prin intent refs birth where t: "insert_action env StatePendingApproval prin intent refs None birth d s = Inr t"
    and s1: "s1 = t\<lparr>sr_identity := sr_identity s1\<rparr>"
    using assms by (cases ev) (auto simp: park_action_def dest!: insert_authenticated_Inr)
  have "sr_approvals t = sr_approvals s \<and> (\<exists>row. map_of (sr_actions t) (ac_ActionID env) = Some row \<and> ar_env row = env)"
    using t by (auto simp: insert_action_def map_add_def split: if_splits)
  moreover have "sr_approvals s1 = sr_approvals t" "sr_actions s1 = sr_actions t" by (subst s1, simp)+
  moreover have "inserted K s s1" by (subst s1) (simp add: inserted_action [OF t])
  ultimately show ?thesis by simp
qed

lemma insert_approval_Inr:
  assumes "insert_approval cd a p raw s1 = Inr s2"
  shows "ap_ApprovalID a \<notin> fst ` set (sr_approvals s1) \<and>
    s2 = s1\<lparr>sr_approvals := sr_approvals s1 @ [(ap_ApprovalID a, new_approval_row cd a p raw)]\<rparr>"
  using assms by (auto simp: insert_approval_def split: if_splits)

lemma new_approval_row_ids [simp]:
  "ap_ApprovalID (aw_approval (new_approval_row cd a p raw)) = ap_ApprovalID a"
  "ap_ActionID (aw_approval (new_approval_row cd a p raw)) = ap_ActionID a"
  by (simp_all add: new_approval_row_def)

lemma inserted_parked:
  assumes "park_action cd sv env d ev s = Inr s1" and "insert_approval cd a p raw s1 = Inr s2" and "ap_ActionID a = ac_ActionID env"
  shows "inserted {ap_ApprovalID a} s s2"
proof -
  let ?w = "new_approval_row cd a p raw"
  have s1: "inserted {} s s1" "sr_approvals s1 = sr_approvals s" "ac_ActionID env \<in> fst ` set (sr_actions s1)"
    using park_action_Inr [OF assms(1)] by (blast, blast) (metis park_action_Inr [OF assms(1)] map_of_eq_None_iff option.distinct(1))
  have s2: "ap_ApprovalID a \<notin> fst ` set (sr_approvals s)" "s2 = s1\<lparr>sr_approvals := sr_approvals s @ [(ap_ApprovalID a, ?w)]\<rparr>"
    using insert_approval_Inr [OF assms(2)] s1(2) by simp_all
  have "refers (sr_actions s1) (ap_ApprovalID a) ?w" using s1(3) assms(3) by (simp add: refers_def)
  then show ?thesis using s1(1,2) s2 by (auto simp: inserted_def fresh_rows_def)
qed

lemma op_ok_CreateParts: "op_ok cd {ap_ApprovalID a} s (snd (createApprovalPartsWithIdentity cd sv env d a p raw ev s))"
proof -
  have "op_ok cd {ap_ApprovalID a} s s2" if "park_action cd sv env d ev s = Inr s1" "insert_approval cd a p raw s1 = Inr s2"
    "ap_ActionID a = ac_ActionID env" for s1 s2
    unfolding op_ok_def using inserted_parked [OF that] evolves_refl by blast
  then show ?thesis
    unfolding createApprovalPartsWithIdentity_def
    by (auto intro!: op_ok_committed transact_cases [where R = "op_ok cd _"] split: option.splits sum.splits if_splits)
qed

lemmas create_defs = CreateApprovalRequest_def createApprovalParts_def CreateApprovalRequestAuthenticated_def

lemma op_ok_Create: "op_ok cd {ap_ApprovalID (bq_approval b)} s (snd (CreateApprovalRequest cd sv b s))"
  unfolding create_defs by (rule op_ok_CreateParts)

lemma op_ok_CreateAuthenticated: "op_ok cd {ap_ApprovalID (bq_approval b)} s (snd (CreateApprovalRequestAuthenticated cd sv b e s))"
  unfolding create_defs by (rule op_ok_CreateParts)

lemma evolves_registry: "registry_op cd s s' \<Longrightarrow> evolves cd s s'"
proof -
  assume r: "registry_op cd s s'"
  then obtain k p e b where "s' = s\<lparr>sr_keys := k, sr_principals := p, sr_principal_events := e, sr_bindings := b\<rparr>"
    unfolding registry_op_def by blast
  moreover have "ink_ok cd s \<Longrightarrow> ink_ok cd s'"
    using r verifies_kept calculation by (auto simp: registry_op_def registry_moved_def ink_ok_def)
  ultimately show ?thesis using r by (simp add: registry_op_def evolves_def same_rows ledger_grows_def keyed_def)
qed

lemma op_ok_decisionAct: "recordDecisionActTx cd sv env ident at s = Inr (proofID, t) \<Longrightarrow> op_ok cd K s t \<and> sr_approvals t = sr_approvals s"
proof -
  assume "recordDecisionActTx cd sv env ident at s = Inr (proofID, t)"
  then obtain env' state prin intent refs fin birth d s1 r where
    s1: "insert_action env' state prin intent refs fin birth d s = Inr s1" and t: "append_receipt cd r s1 = Inr t"
    by (auto simp: recordDecisionActTx_def Let_def split: sum.splits)
  have "sr_approvals t = sr_approvals s"
    using s1 t by (auto simp: insert_action_def append_receipt_def split: if_splits sum.splits)
  then show ?thesis using op_ok_insert [OF s1] evolves_receipt [OF t] by blast
qed

lemma op_ok_consume:
  assumes "consume_approval cd sv a decision at env ident comment s = Inr (x, s')"
    and "map_of (sr_approvals s) (ap_ApprovalID a) = Some w" and "ap_Status (aw_approval w) = ApprovalPending"
  shows "op_ok cd K s s'"
proof -
  obtain proofID s1 where s1: "recordDecisionActTx cd sv env ident at s = Inr (proofID, s1)"
    using assms(1) by (auto simp: consume_approval_def split: sum.splits)
  define s2 where "s2 = update_approval (ap_ApprovalID a) (\<lambda>w. w\<lparr>aw_approval :=
                 (seal_decision (ai_PrincipalID ident) decision at (aw_approval w))
                   \<lparr>ap_Status := decided_status decision, ap_Comment := comment, ap_DecisionReceiptID := proofID\<rparr>\<rparr>) s1"
  from assms(1) s1 obtain s3 where s3: "tombstoneTx cd a (ai_PrincipalID ident) decision at s2 = Inr s3"
    and rest: "transitionTx (ap_ActionID a) StatePendingApproval StateApproved s3 = Inr s' \<or>
      (\<exists>s4. rejectParkedActionTx cd sv (ap_ActionID a) at s3 = Inr s4 \<and>
        s' = update_approval (ap_ApprovalID a) (\<lambda>w. w\<lparr>aw_params := []\<rparr>) s4)"
    by (auto simp: consume_approval_def Let_def s2_def split: sum.splits if_splits)
  have "evolves cd s1 s2"
    unfolding s2_def using op_ok_decisionAct [OF s1] assms(2,3)
    by (intro evolves_update_approval) (auto simp: approval_moved_def seal_decision_def request_terms_def)
  moreover have "evolves cd s3 s'"
    using rest evolves_transitionTx evolves_reject evolves_purge evolves_trans by blast
  ultimately show ?thesis
    using op_ok_decisionAct [OF s1] evolves_tombstone [OF s3] evolves_trans op_ok_then by meson
qed

lemma op_ok_decide_tx:
  assumes "decide_tx cd sv i decision at env ident comment law s = Inr (x, s')"
    and "keyed s"
  shows "op_ok cd K s s'"
proof -
  obtain w where w: "map_of (sr_approvals s) i = Some w"
    using assms(1) by (auto simp: decide_tx_def approvalTx_def split: option.splits)
  let ?a = "aw_approval w"
  consider "s' = s"
    | won s1 where "closeApprovalTx cd ?a ApprovalExpired [] DecisionClock at [] [] s = Inr (won, s1)"
        "rejectParkedActionTx cd sv (ap_ActionID ?a) at s1 = Inr s'"
    | "consume_approval cd sv ?a decision at env ident comment s = Inr (x, s')" "ApprovalConsumableAt ?a at = []"
    using assms(1) w unfolding decide_tx_def approvalTx_def
    by (auto simp: Let_def split: option.splits if_splits sum.splits prod.splits)
  then show ?thesis
  proof cases
    case 1
    then show ?thesis by simp
  next
    case 2
    then show ?thesis by (metis evolves_close evolves_reject evolves_trans op_ok_evolves)
  next
    case 3
    then have "ap_Status ?a = ApprovalPending"
      by (auto simp: ApprovalConsumableAt_def RuleApprovalAlreadyDecided_def split: if_splits)
    moreover have "ap_ApprovalID ?a = i" using w assms(2) map_of_SomeD unfolding keyed_def refers_def by fast
    ultimately show ?thesis using 3 w op_ok_consume by simp
  qed
qed


lemma op_ok_Decide:
  assumes "keyed s"
  shows "op_ok cd K s (snd (decideApprovalWithLaw cd sv i decision at env ident comment law s))"
proof -
  have "op_ok cd K s (snd (transact sv (decide_tx cd sv i decision at env ident comment law) s))"
    by (rule transact_cases) (use op_ok_decide_tx assms in auto)
  then show ?thesis by (auto simp: decideApprovalWithLaw_def split: option.splits)
qed

lemma claim_tx_Inr:
  assumes "claim_tx cd sv i law dig seen s = Inr ((params, op), s')"
  shows "\<exists>w. map_of (sr_approvals s) i = Some w \<and> aw_params w = params \<and> params \<noteq> [] \<and> Digest cd op params = dig \<and>
    ap_Status (aw_approval w) = ApprovalApproved \<and> \<not> aw_required w \<and>
    (\<exists>row. map_of (sr_actions s) (ap_ActionID (aw_approval w)) = Some row \<and> ac_Operation (ar_env row) = op \<and>
       ar_state row = StateApproved) \<and>
    validateActionIdentityTx cd s (ap_ActionID (aw_approval w)) (sv_identity_now sv) = None \<and>
    s' = update_approval i (\<lambda>w. w\<lparr>aw_params := []\<rparr>) s"
  using assms unfolding claim_tx_def approvalTx_def
  by (auto simp: Let_def strictMarkerTx_def ternaOf_def claimAuthorityTx_def
      split: option.splits if_splits sum.splits prod.splits ApprovalStatus.splits)

lemma evolves_Claim: "evolves cd s (snd (ClaimApprovalParamsUnderDigest cd sv i law dig seen s))"
  unfolding ClaimApprovalParamsUnderDigest_def
  by (rule transact_cases) (use claim_tx_Inr evolves_purge in \<open>auto, blast\<close>)

lemma evolves_closeCrashOrphan:
  assumes "closeCrashOrphan cd sv o' i at s = Inr (x, s')"
  shows "evolves cd s s'"
proof (cases "\<exists>row. map_of (sr_actions s) i = Some row \<and> orphan_predicate o' s (i, row)")
  case True
  then obtain row where row: "map_of (sr_actions s) i = Some row" "orphan_predicate o' s (i, row)" by blast
  obtain to marker where om: "orphan_close o' = (to, marker)" by fastforce
  let ?t = "update_action i (\<lambda>row. row\<lparr>ar_state := to, ar_recovery_marker := marker, ar_finished_at := Some at\<rparr>) s"
  have "\<not> Terminal (ar_state row)"
    using row(2) by (auto simp: orphan_predicate_def Terminal_def split: orphan.splits)
  then have "evolves cd s ?t" using row(1) by (auto simp: action_moved_def intro!: evolves_update_action)
  moreover obtain r where "append_receipt cd r ?t = Inr s'"
    using assms row om by (auto simp: closeCrashOrphan_def Let_def split: sum.splits)
  ultimately show ?thesis using evolves_receipt evolves_trans by blast
next
  case False
  with assms show ?thesis by (auto simp: closeCrashOrphan_def split: option.splits if_splits)
qed

lemma evolves_recover_loop: "evolves cd s (snd (recover_loop cd sv keep o' ids n s))"
  by (induction cd sv keep o' ids n s rule: recover_loop.induct)
    (auto split: option.splits driver_fault.splits sum.splits intro: evolves_trans dest: evolves_closeCrashOrphan)

lemma evolves_recover_passes: "evolves cd s (snd (recover_passes cd sv keep os n s))"
proof (induction os arbitrary: n s)
  case (Cons o' os)
  obtain m e t where l: "recover_loop cd sv keep o' (map fst (filter (orphan_predicate o' s) (sr_actions s))) n s = ((m, e), t)"
    using prod.exhaust by metis
  then have "evolves cd s t" using evolves_recover_loop by (metis snd_conv)
  with l Cons.IH show ?case by (auto split: option.splits intro: evolves_trans)
qed simp

lemma evolves_RecoverPreviousLife: "evolves cd s (snd (RecoverPreviousLife cd sv refused keep s))"
  by (simp add: RecoverPreviousLife_def evolves_recover_passes del: recover_passes.simps split: option.splits)

section \<open>Histories\<close>

datatype store_op =
    OpRecord store_env action_Envelope store_Decision State
  | OpRecordIdentified store_env action_Envelope store_Decision State AttemptIdentity
  | OpFinish store_env string State time string
  | OpPark store_env BoundApprovalRequest
  | OpDecide store_env string string time action_Envelope AttemptIdentity string "PolicyPin option"
  | OpClaim store_env string "PolicyPin option" string "Approval option"
  | OpSweep store_env time
  | OpPrune store_env
  | OpRecover store_env "go_error option" "string list"
  | OpRecordAuthenticated store_env action_Envelope store_Decision State Evidence
  | OpParkAuthenticated store_env BoundApprovalRequest Evidence
  | OpRegister store_env Registry time
  | OpDisable store_env string time
  | OpPutKey store_env string string time
  | OpRotateKey store_env string string time

fun run_op :: "codec \<Rightarrow> (string \<Rightarrow> string) \<Rightarrow> store_op \<Rightarrow> Store \<Rightarrow> Store" where
  "run_op cd uni (OpRecord sv env d state) s = snd (store_RecordAttempt cd sv env d state s)"
| "run_op cd uni (OpRecordIdentified sv env d state ident) s = snd (store_RecordAttemptIdentified cd sv env d state ident s)"
| "run_op cd uni (OpFinish sv i to at dig) s = snd (store_FinishWithResult cd uni sv i to at dig s)"
| "run_op cd uni (OpPark sv b) s = snd (CreateApprovalRequest cd sv b s)"
| "run_op cd uni (OpDecide sv i decision at env ident comment law) s =
     snd (decideApprovalWithLaw cd sv i decision at env ident comment law s)"
| "run_op cd uni (OpClaim sv i law dig seen) s = snd (ClaimApprovalParamsUnderDigest cd sv i law dig seen s)"
| "run_op cd uni (OpSweep sv at) s = snd (SweepExpiredApprovals cd sv at s)"
| "run_op cd uni (OpPrune sv) s = snd (Prune sv s)"
| "run_op cd uni (OpRecover sv refused keep) s = snd (RecoverPreviousLife cd sv refused keep s)"
| "run_op cd uni (OpRecordAuthenticated sv env d state e) s = snd (RecordAttemptAuthenticated cd sv env d state e s)"
| "run_op cd uni (OpParkAuthenticated sv b e) s = snd (CreateApprovalRequestAuthenticated cd sv b e s)"
| "run_op cd uni (OpRegister sv reg at) s = snd (RegisterIdentity cd sv reg at s)"
| "run_op cd uni (OpDisable sv i at) s = snd (DisablePrincipal cd sv i at s)"
| "run_op cd uni (OpPutKey sv k pub at) s = snd (PutSigningKey sv k pub at s)"
| "run_op cd uni (OpRotateKey sv k pub at) s = snd (RotateSigningKey sv k pub at s)"

fun creates :: "store_op \<Rightarrow> string set" where
  "creates (OpPark sv b) = {ap_ApprovalID (bq_approval b)}"
| "creates (OpParkAuthenticated sv b e) = {ap_ApprovalID (bq_approval b)}"
| "creates _ = {}"

definition run_ops :: "codec \<Rightarrow> (string \<Rightarrow> string) \<Rightarrow> store_op list \<Rightarrow> Store \<Rightarrow> Store" where
  "run_ops cd uni ops s = fold (run_op cd uni) ops s"

text \<open>How often a history hands out the parameters of one approval.\<close>

definition claimed :: "codec \<Rightarrow> string \<Rightarrow> store_op \<Rightarrow> Store \<Rightarrow> bool" where
  "claimed cd i op s = (case op of
      OpClaim sv j law dig seen \<Rightarrow> j = i \<and> (case fst (ClaimApprovalParamsUnderDigest cd sv i law dig seen s) of Inl _ \<Rightarrow> False | Inr _ \<Rightarrow> True)
    | _ \<Rightarrow> False)"

fun claims :: "codec \<Rightarrow> (string \<Rightarrow> string) \<Rightarrow> string \<Rightarrow> store_op list \<Rightarrow> Store \<Rightarrow> nat" where
  "claims cd uni i [] s = 0"
| "claims cd uni i (op # ops) s = (if claimed cd i op s then 1 else 0) + claims cd uni i ops (run_op cd uni op s)"

lemma run_op_ok: "keyed s \<Longrightarrow> op_ok cd (creates op) s (run_op cd uni op s)"
  by (cases op)
    (simp_all add: op_ok_RecordAttempt op_ok_RecordAttemptIdentified op_ok_Create op_ok_Decide op_ok_evolves
      evolves_FinishWithResult evolves_Claim evolves_SweepExpiredApprovals evolves_Prune evolves_RecoverPreviousLife
      op_ok_RecordAttemptAuthenticated op_ok_CreateAuthenticated evolves_registry RegisterIdentity_op DisablePrincipal_op
      PutSigningKey_op RotateSigningKey_op)

lemma fresh_rows_distinct:
  assumes "fresh_rows K xs ys" and "distinct (map fst xs)"
  shows "distinct (map fst ys)"
proof -
  obtain zs where zs: "ys = xs @ zs" "fst ` set zs \<subseteq> K" "distinct (map fst zs)" and "fst ` set zs \<inter> fst ` set xs = {}"
    using fresh_rowsE [OF assms(1)] .
  then have "set (map fst xs) \<inter> set (map fst zs) = {}" unfolding set_map by (simp only: Int_commute)
  then show ?thesis using zs(1,3) assms(2) by (simp only: map_append distinct_append simp_thms)
qed

lemma fresh_rows_keys: "fresh_rows K xs ys \<Longrightarrow> fst ` set ys \<subseteq> fst ` set xs \<union> K"
  by (erule fresh_rowsE) (simp only: set_append image_Un Un_mono subset_refl)

lemma inserted_keyed: "inserted K s t \<Longrightarrow> keyed s \<Longrightarrow> keyed t"
proof -
  assume i: "inserted K s t" and k: "keyed s"
  have "distinct (map fst (sr_actions t))" "distinct (map fst (sr_approvals t))"
    using i k fresh_rows_distinct by (auto simp only: inserted_def keyed_def)
  moreover have "refers (sr_actions t) j w" if "(j, w) \<in> set (sr_approvals t)" for j w
  proof (cases "(j, w) \<in> set (sr_approvals s)")
    case True
    then have "refers (sr_actions s) j w" using k by (simp only: keyed_def)
    moreover have "fst ` set (sr_actions s) \<subseteq> fst ` set (sr_actions t)"
      using i by (auto simp: inserted_def fresh_rows_def)
    ultimately show ?thesis unfolding refers_def by (metis subsetD)
  next
    case False
    with i that show ?thesis by (simp only: inserted_def Diff_iff simp_thms)
  qed
  ultimately show ?thesis by (simp add: keyed_def)
qed

lemma op_ok_keyed: "op_ok cd K s s' \<Longrightarrow> keyed s \<Longrightarrow> keyed s'"
  unfolding op_ok_def using inserted_keyed evolves_keyed by blast

lemma op_ok_ledger: "op_ok cd K s s' \<Longrightarrow> ledger_grows cd s s'"
proof -
  assume "op_ok cd K s s'"
  then obtain t where i: "inserted K s t" and "evolves cd t s'" unfolding op_ok_def by blast
  then have "ledger_grows cd t s'" by (simp add: evolves_def)
  moreover have "ledger_grows cd s t" using i by (simp add: inserted_def ledger_grows_def ink_ok_def)
  ultimately show ?thesis using ledger_grows_trans by blast
qed

lemma op_ok_action:
  assumes "op_ok cd K s s'" and "keyed s" and "map_of (sr_actions s) i = Some row" and "map_of (sr_actions s') i = Some row'"
  shows "action_moved row row'"
proof -
  obtain t where t: "evolves cd t s'" "inserted K s t" using assms(1) unfolding op_ok_def by blast
  then have "fresh_rows UNIV (sr_actions s) (sr_actions t)" by (simp only: inserted_def)
  then obtain zs where zs: "sr_actions t = sr_actions s @ zs" "fst ` set zs \<inter> fst ` set (sr_actions s) = {}" "distinct (map fst zs)"
    by (rule fresh_rowsE)
  have "rows_from action_moved (sr_actions s @ zs) (sr_actions s')"
    using t(1) inserted_keyed [OF t(2) assms(2)] zs(1) by (simp add: evolves_def)
  moreover have "distinct (map fst (sr_actions s))" using assms(2) by (simp add: keyed_def)
  ultimately show ?thesis by (intro action_rows.row_after [OF _ _ zs(2,3) assms(3,4)])
qed

lemma op_ok_approval:
  assumes "op_ok cd K s s'" and "keyed s" and "map_of (sr_approvals s) i = Some w" and "map_of (sr_approvals s') i = Some w'"
  shows "approval_moved w w'"
proof -
  obtain t where t: "evolves cd t s'" "inserted K s t" using assms(1) unfolding op_ok_def by blast
  then have "fresh_rows K (sr_approvals s) (sr_approvals t)" by (simp only: inserted_def)
  then obtain zs where zs: "sr_approvals t = sr_approvals s @ zs" "fst ` set zs \<inter> fst ` set (sr_approvals s) = {}" "distinct (map fst zs)"
    by (rule fresh_rowsE)
  have "rows_from approval_moved (sr_approvals s @ zs) (sr_approvals s')"
    using t(1) inserted_keyed [OF t(2) assms(2)] zs(1) by (simp add: evolves_def)
  moreover have "distinct (map fst (sr_approvals s))" using assms(2) by (simp add: keyed_def)
  ultimately show ?thesis by (intro approval_rows.row_after [OF _ _ zs(2,3) assms(3,4)])
qed

lemma op_ok_absent:
  assumes "op_ok cd K s s'" and "keyed s" and "map_of (sr_approvals s) i = None" and "i \<notin> K"
  shows "map_of (sr_approvals s') i = None"
proof -
  obtain t where t: "evolves cd t s'" "inserted K s t" using assms(1) unfolding op_ok_def by blast
  then have "fst ` set (sr_approvals t) \<subseteq> fst ` set (sr_approvals s) \<union> K"
    using fresh_rows_keys unfolding inserted_def by blast
  then have "i \<notin> fst ` set (sr_approvals t)" using assms(3,4) by (auto simp only: map_of_eq_None_iff)
  moreover have "fst ` set (sr_approvals s') \<subseteq> fst ` set (sr_approvals t)"
    using t(1) inserted_keyed [OF t(2) assms(2)] unfolding evolves_def rows_from_def by force
  ultimately show ?thesis by (auto simp only: map_of_eq_None_iff)
qed

lemma run_ops_keyed: "keyed s \<Longrightarrow> keyed (run_ops cd uni ops s)"
  unfolding run_ops_def
  by (induction ops arbitrary: s) (auto intro: op_ok_keyed [OF run_op_ok])

lemma run_ops_ledger: "keyed s \<Longrightarrow> ledger_grows cd s (run_ops cd uni ops s)"
  unfolding run_ops_def
proof (induction ops arbitrary: s)
  case (Cons op ops)
  note step = run_op_ok [OF Cons.prems, of cd op uni]
  from Cons.IH [OF op_ok_keyed [OF step Cons.prems]] op_ok_ledger [OF step] show ?case
    using ledger_grows_trans by simp
qed simp

text \<open>
  C9: The ledger is append only under every operation. Whatever sequence of operations runs, with whatever
  failures, the receipts and the tombstones that were there stay, in their order, and what the ledger
  was before (one partition, numbered without a gap, each receipt carrying its own hash and the hash before it, no
  id twice) it still is.
\<close>

theorem ledger_append_only:
  assumes "keyed s" and "chain_ok cd (sr_receipts s)"
  shows "chain_ok cd (sr_receipts (run_ops cd uni ops s)) \<and>
    (\<exists>rs. sr_receipts (run_ops cd uni ops s) = sr_receipts s @ rs) \<and>
    (\<exists>ts. sr_tombstones (run_ops cd uni ops s) = sr_tombstones s @ ts)"
  using run_ops_ledger [OF assms(1), of cd uni ops] assms(2) unfolding ledger_grows_def by blast

text \<open>
  C16: What is closed stays closed. An operation leaves the row of an action in a terminal state exactly as it
  is, or retention deletes it: no second close, no recovery and no late decision rewrites an outcome.
\<close>

theorem closed_actions_final:
  assumes "keyed s" and "map_of (sr_actions s) i = Some row" and "Terminal (ar_state row)"
  shows "map_of (sr_actions (run_op cd uni op s)) i = Some row \<or> map_of (sr_actions (run_op cd uni op s)) i = None"
  using op_ok_action [OF run_op_ok [OF assms(1)] assms(1,2)] assms(3)
  by (cases "map_of (sr_actions (run_op cd uni op s)) i") (auto simp: action_moved_def)

text \<open>
  C15: An approval is decided once. An operation leaves the approval of a row that is no longer pending exactly as it
  is, or retention deletes the row: the first decision, approval, rejection, cancellation or expiry, is the only one.
  A row that survives keeps the terms it was requested under, and its parameters are the ones it was parked with or
  purged.
\<close>

theorem approval_decided_once:
  assumes "keyed s" and "map_of (sr_approvals s) i = Some w" and "map_of (sr_approvals (run_op cd uni op s)) i = Some w'"
  shows "(ap_Status (aw_approval w) \<noteq> ApprovalPending \<longrightarrow> aw_approval w' = aw_approval w) \<and>
    request_terms (aw_approval w') = request_terms (aw_approval w) \<and> aw_preview w' = aw_preview w \<and>
    aw_params w' \<in> {aw_params w, []}"
  using op_ok_approval [OF run_op_ok [OF assms(1)] assms] by (auto simp: approval_moved_def)

definition spent :: "string \<Rightarrow> Store \<Rightarrow> bool" where
  "spent i s \<longleftrightarrow> (\<forall>w. map_of (sr_approvals s) i = Some w \<longrightarrow> aw_params w = [])"

lemma claimed_spends: "claimed cd i op s \<Longrightarrow> spent i (run_op cd uni op s) \<and> \<not> spent i s"
  unfolding claimed_def spent_def
  by (auto simp: ClaimApprovalParamsUnderDigest_def transact_def dest!: claim_tx_Inr
      split: store_op.splits sum.splits option.splits)

lemma spent_kept: "keyed s \<Longrightarrow> i \<notin> creates op \<Longrightarrow> spent i s \<Longrightarrow> spent i (run_op cd uni op s)"
  unfolding spent_def
  using op_ok_approval [OF run_op_ok] op_ok_absent [OF run_op_ok]
  by (cases "map_of (sr_approvals s) i") (fastforce simp: approval_moved_def)+

lemma claims_spent:
  "keyed s \<Longrightarrow> \<forall>op\<in>set ops. i \<notin> creates op \<Longrightarrow> spent i s \<Longrightarrow> claims cd uni i ops s = 0"
proof (induction ops arbitrary: s)
  case (Cons op ops)
  then have "\<not> claimed cd i op s" using claimed_spends by blast
  with Cons show ?case using spent_kept op_ok_keyed [OF run_op_ok] by simp
qed simp

text \<open>
  C7: The parameters of an approved action leave the store at most once. In any history of operations that does not
  park a second request under the same approval id, at most one claim of that approval succeeds.
\<close>

theorem claimed_at_most_once:
  assumes "keyed s" and "\<forall>op\<in>set ops. i \<notin> creates op"
  shows "claims cd uni i ops s \<le> 1"
  using assms
proof (induction ops arbitrary: s)
  case (Cons op ops)
  show ?case
  proof (cases "claimed cd i op s")
    case True
    then have "spent i (run_op cd uni op s)" using claimed_spends by blast
    then have "claims cd uni i ops (run_op cd uni op s) = 0"
      using claims_spent Cons.prems op_ok_keyed [OF run_op_ok] by auto
    then show ?thesis by simp
  next
    case False
    then show ?thesis using Cons.IH Cons.prems op_ok_keyed [OF run_op_ok] by simp
  qed
qed simp

section \<open>What was parked is what is claimed\<close>

definition holds_request :: "codec \<Rightarrow> BoundApprovalRequest \<Rightarrow> Store \<Rightarrow> bool" where
  "holds_request cd b s \<longleftrightarrow> (\<forall>w. map_of (sr_approvals s) (ap_ApprovalID (bq_approval b)) = Some w \<longrightarrow>
     aw_params w \<in> {CanonicalParams cd (bq_params b), []} \<and> ap_ActionID (aw_approval w) = ac_ActionID (bq_env b) \<and>
     (\<exists>row. map_of (sr_actions s) (ac_ActionID (bq_env b)) = Some row \<and> ar_env row = bq_env b))"

lemma keyed_action:
  assumes "keyed s" and "map_of (sr_approvals s) i = Some w"
  shows "\<exists>row. map_of (sr_actions s) (ap_ActionID (aw_approval w)) = Some row"
proof -
  have "refers (sr_actions s) i w" using assms map_of_SomeD by (fastforce simp: keyed_def)
  then show ?thesis unfolding refers_def by (metis map_of_eq_None_iff not_None_eq)
qed

lemma op_ok_holds:
  assumes ok: "op_ok cd' K s s'" and k: "keyed s" and h: "holds_request cd b s" and new: "ap_ApprovalID (bq_approval b) \<notin> K"
  shows "holds_request cd b s'"
  unfolding holds_request_def
proof (intro allI impI)
  let ?i = "ap_ApprovalID (bq_approval b)"
  fix w'
  assume w': "map_of (sr_approvals s') ?i = Some w'"
  obtain w where w: "map_of (sr_approvals s) ?i = Some w"
    using op_ok_absent [OF ok k _ new] w' by (cases "map_of (sr_approvals s) ?i") auto
  have m: "approval_moved w w'" by (rule op_ok_approval [OF ok k w w'])
  then have terms: "ap_ActionID (aw_approval w') = ap_ActionID (aw_approval w)"
    unfolding approval_moved_def by (metis request_terms_fields(2))
  obtain row where row: "map_of (sr_actions s) (ac_ActionID (bq_env b)) = Some row" "ar_env row = bq_env b"
    and a: "ap_ActionID (aw_approval w) = ac_ActionID (bq_env b)" "aw_params w \<in> {CanonicalParams cd (bq_params b), []}"
    using h w unfolding holds_request_def by blast
  obtain row' where row': "map_of (sr_actions s') (ac_ActionID (bq_env b)) = Some row'"
    using keyed_action [OF op_ok_keyed [OF ok k] w'] terms a(1) by auto
  have "ar_env row' = bq_env b" using op_ok_action [OF ok k row(1) row'] row(2) by (simp add: action_moved_def)
  moreover have "aw_params w' \<in> {CanonicalParams cd (bq_params b), []}" using m a(2) by (auto simp: approval_moved_def)
  ultimately show "aw_params w' \<in> {CanonicalParams cd (bq_params b), []} \<and> ap_ActionID (aw_approval w') = ac_ActionID (bq_env b) \<and>
     (\<exists>row. map_of (sr_actions s') (ac_ActionID (bq_env b)) = Some row \<and> ar_env row = bq_env b)"
    using row' terms a(1) by simp
qed

lemma run_ops_holds:
  "keyed s \<Longrightarrow> holds_request cd b s \<Longrightarrow> \<forall>op\<in>set ops. ap_ApprovalID (bq_approval b) \<notin> creates op \<Longrightarrow>
   holds_request cd b (run_ops cd' uni ops s)"
  unfolding run_ops_def
proof (induction ops arbitrary: s)
  case (Cons op ops)
  note step = run_op_ok [OF Cons.prems(1), of cd' op uni]
  show ?case using Cons.IH [OF op_ok_keyed [OF step] op_ok_holds [OF step]] Cons.prems by simp
qed simp

text \<open>A committed request: the rows it wrote, and then the retention cadence.\<close>

lemma CreateApprovalRequest_None:
  assumes "CreateApprovalRequest cd sv b s = (None, s') \<or> CreateApprovalRequestAuthenticated cd sv b e s = (None, s')"
  shows "\<exists>ev s1 s2. park_action cd sv (bq_env b) (gate_decision (bq_approval b)) ev s = Inr s1 \<and>
    insert_approval cd (bq_approval b) (bq_preview b) (bq_params b) s1 = Inr s2 \<and>
    ap_ActionID (bq_approval b) = ac_ActionID (bq_env b) \<and> s' = noteWrite cd sv s2"
proof -
  have "\<exists>s1 s2. park_action cd sv (bq_env b) (gate_decision (bq_approval b)) ev s = Inr s1 \<and>
      insert_approval cd (bq_approval b) (bq_preview b) (bq_params b) s1 = Inr s2 \<and>
      ap_ActionID (bq_approval b) = ac_ActionID (bq_env b) \<and> s' = noteWrite cd sv s2"
    if "createApprovalPartsWithIdentity cd sv (bq_env b) (gate_decision (bq_approval b)) (bq_approval b) (bq_preview b) (bq_params b) ev s = (None, s')" for ev
    using that unfolding createApprovalPartsWithIdentity_def committed_def transact_def
    by (auto split: if_splits option.splits sum.splits prod.splits)
  with assms show ?thesis unfolding create_defs by metis
qed

lemma Create_holds:
  assumes "keyed s" and "CreateApprovalRequest cd sv b s = (None, s') \<or> CreateApprovalRequestAuthenticated cd sv b e s = (None, s')"
  shows "holds_request cd b s'"
proof -
  let ?i = "ap_ApprovalID (bq_approval b)" and ?w = "new_approval_row cd (bq_approval b) (bq_preview b) (bq_params b)"
  obtain ev s1 t where park: "park_action cd sv (bq_env b) (gate_decision (bq_approval b)) ev s = Inr s1"
    and ins: "insert_approval cd (bq_approval b) (bq_preview b) (bq_params b) s1 = Inr t"
    and a: "ap_ActionID (bq_approval b) = ac_ActionID (bq_env b)" and s': "s' = noteWrite cd sv t"
    using CreateApprovalRequest_None [OF assms(2)] by blast
  have t: "?i \<notin> fst ` set (sr_approvals s1)" "t = s1\<lparr>sr_approvals := sr_approvals s1 @ [(?i, ?w)]\<rparr>"
    using insert_approval_Inr [OF ins] by simp_all
  have row: "\<exists>row. map_of (sr_actions s1) (ac_ActionID (bq_env b)) = Some row \<and> ar_env row = bq_env b"
    using park_action_Inr [OF park] by blast
  have "map_of (sr_approvals s1) ?i = None" using t(1) by (simp only: map_of_eq_None_iff not_False_eq_True)
  then have "holds_request cd b t"
    using row a t(2) by (simp add: holds_request_def map_add_def) (simp add: new_approval_row_def)
  moreover have "keyed t" using inserted_keyed [OF inserted_parked [OF park ins a] assms(1)] .
  ultimately show ?thesis
    using op_ok_holds [OF op_ok_evolves [OF evolves_noteWrite, where K = "{}"]] s' by blast
qed

text \<open>
  C8: What was parked is what is claimed. Whatever happened between the request and the claim, parameters the claim
  hands out are the canonical form of the parameters the request was parked with, and the operation is
  the one it was parked for.
\<close>

theorem claimed_as_parked:
  assumes "keyed s" and "CreateApprovalRequest cd sv b s = (None, s1)"
    and "\<forall>op\<in>set ops. ap_ApprovalID (bq_approval b) \<notin> creates op"
    and "fst (ClaimApprovalParamsUnderDigest cd sv' (ap_ApprovalID (bq_approval b)) law dig seen (run_ops cd uni ops s1)) = Inr (params, op)"
  shows "params = CanonicalParams cd (bq_params b) \<and> op = ac_Operation (bq_env b)"
proof -
  let ?t = "run_ops cd uni ops s1"
  have "keyed s1" using op_ok_keyed [OF op_ok_Create [of cd b s sv] assms(1)] assms(2) by simp
  then have "holds_request cd b ?t" using run_ops_holds Create_holds assms(1-3) by blast
  moreover obtain u where "claim_tx cd sv' (ap_ApprovalID (bq_approval b)) law dig seen ?t = Inr ((params, op), u)"
    using assms(4) by (auto simp: ClaimApprovalParamsUnderDigest_def transact_def split: option.splits sum.splits)
  ultimately show ?thesis using claim_tx_Inr by (fastforce simp: holds_request_def)
qed

section \<open>Every close has its receipt\<close>

lemma append_receipt_sealed:
  assumes "append_receipt cd r s = Inr s'" and "sr_sealer s \<noteq> None" and "chain_ok cd (sr_receipts s)"
  shows "\<exists>r'. s' = s\<lparr>sr_receipts := sr_receipts s @ [r']\<rparr> \<and> same_facts r r' \<and> sealed_by cd (sr_keys s) r'"
proof -
  obtain rs where rs: "appendReceiptTx cd (sr_sealer s) (sr_keys s) r (sr_receipts s) = Inr rs" and s': "s' = s\<lparr>sr_receipts := rs\<rparr>"
    using assms(1) by (auto simp: append_receipt_def split: sum.splits)
  from appendReceiptTx_Inr [OF rs assms(3)] assms(2) s' show ?thesis by auto
qed

text \<open>
  A close and its receipt are one transaction. With a sealer, closing an action either changes nothing, or the action
  was in a state the table lets it leave, its row now carries the new state and the instant, and the
  ledger has exactly one receipt more: signed under a registered key, naming the action, its outcome and the digest of
  its result.
\<close>

theorem close_is_receipted:
  assumes "sr_sealer s \<noteq> None" and "chain_ok cd (sr_receipts s)"
    and "store_FinishWithResult cd uni sv i to at dig s = (r, s')"
  shows "(\<exists>e. r = Some e \<and> s' = s) \<or>
    (r = None \<and> (\<exists>row rc. map_of (sr_actions s) i = Some row \<and> to \<in> set (transitions (ar_state row)) \<and>
       map_of (sr_actions s') i = Some (row\<lparr>ar_state := to, ar_finished_at := Some at\<rparr>) \<and>
       sr_receipts s' = sr_receipts s @ [rc] \<and> sealed_by cd (sr_keys s) rc \<and> rt_ActionID rc = i \<and>
       rt_Outcome rc = State_string to \<and> rt_ResultDigest rc = dig))"
proof (cases r)
  case (Some e)
  with assms(3) show ?thesis
    by (auto simp: store_FinishWithResult_def transact_def map_sum_def split: if_splits sum.splits option.splits prod.splits)
next
  case None
  let ?t = "update_action i (\<lambda>row. row\<lparr>ar_state := to, ar_finished_at := Some at\<rparr>) s"
  have "finishWithResultTx cd sv i to at dig s = Inr s'"
    using None assms(3)
    by (auto simp: store_FinishWithResult_def transact_def map_sum_def split: if_splits sum.splits option.splits prod.splits)
  then obtain row rc where row: "map_of (sr_actions s) i = Some row" "Transition (ar_state row) to = None"
    and rc: "receiptForFinish cd sv ?t i to at dig (ar_state row = StateApproved) True = Inr rc" "append_receipt cd rc ?t = Inr s'"
    using assms(1) by (auto simp: finishWithResultTx_def Let_def split: option.splits if_splits sum.splits)
  have facts: "rt_ActionID rc = i" "rt_Outcome rc = State_string to" "rt_ResultDigest rc = dig"
    using rc(1) by (auto simp: receiptForFinish_def new_receipt_def bare_receipt_def seal_identity_def split: option.splits sum.splits if_splits)
  obtain r' where "s' = ?t\<lparr>sr_receipts := sr_receipts ?t @ [r']\<rparr>" "same_facts rc r'" "sealed_by cd (sr_keys ?t) r'"
    using append_receipt_sealed [OF rc(2)] assms(1,2) by auto
  then show ?thesis using None row facts same_factsD [of rc r'] by (simp add: Transition_None)
qed

section \<open>The sweep compares texts\<close>

lemma string_less_prefix: "string_less (p @ xs) (p @ ys) = string_less xs ys"
  by (induction p) auto

definition second_text :: "int \<Rightarrow> string" where
  "second_text k = (let (y, m, d) = civil (k div 86400); s = k mod 86400
     in padded 4 y @ ''-'' @ padded 2 m @ ''-'' @ padded 2 d @ ''T'' @ padded 2 (s div 3600) @ '':'' @
        padded 2 (s mod 3600 div 60) @ '':'' @ padded 2 (s mod 60))"

lemma rfc3339nano_fraction:
  assumes "0 \<le> g" and "g < 1000000000"
  shows "rfc3339nano (1000000000 * k + g) = second_text k @ fraction g @ ''Z''"
proof -
  let ?t = "1000000000 * k + g"
  have q: "?t div 1000000000 = k" "?t mod 1000000000 = g" using assms by simp_all
  have "?t div 86400000000000 = ?t div 1000000000 div 86400"
    using zdiv_zmult2_eq [of 86400 ?t 1000000000] by simp
  moreover have "?t mod 86400000000000 = 1000000000 * (?t div 1000000000 mod 86400) + ?t mod 1000000000"
    using zmod_zmult2_eq [of 86400 ?t 1000000000] by simp
  ultimately have "?t div 86400000000000 = k div 86400" "?t mod 86400000000000 div 1000000000 = k mod 86400"
    using q assms by simp_all
  then show ?thesis
    unfolding rfc3339nano_def second_text_def q(2)
    by (cases "civil (k div 86400)") (simp only: Let_def prod.case append_assoc append.simps)
qed

lemma sweep_selects_early:
  assumes "ap_Status (aw_approval w) = ApprovalPending" and "ap_ExpiresAt (aw_approval w) = 1000000000 * k + f"
    and "0 < f" and "f < 1000000000"
  shows "sweep_selects (1000000000 * k) w \<and> ApprovalConsumableAt (aw_approval w) (1000000000 * k) = []"
proof -
  have "rfc3339nano (1000000000 * k) = second_text k @ ''Z''"
    using rfc3339nano_fraction [of 0 k] by (simp add: fraction_def)
  moreover have "\<exists>r. rfc3339nano (1000000000 * k + f) = second_text k @ ''.'' @ r"
    using rfc3339nano_fraction [of f k] assms(3,4) by (simp add: fraction_def)
  ultimately have "\<not> string_less (rfc3339nano (1000000000 * k)) (rfc3339nano (1000000000 * k + f))"
    by (auto simp: string_less_prefix)
  moreover have "1000000000 * k + f \<noteq> 0"
  proof -
    have "(1000000000 * k + f) mod 1000000000 = f" using assms(3,4) by simp
    with assms(3) show ?thesis by fastforce
  qed
  ultimately show ?thesis using assms by (simp add: sweep_selects_def IsZero_def ApprovalConsumableAt_def)
qed

text \<open>What closing one request leaves of the others.\<close>

lemma closeApprovalTx_Inr:
  assumes "closeApprovalTx cd a status decider decision at comment proofID s = Inr (won, s')"
  shows "j \<noteq> ap_ApprovalID a \<Longrightarrow> map_of (sr_approvals s') j = map_of (sr_approvals s) j"
    and "sr_actions s' = sr_actions s"
    and "map_of (sr_approvals s) (ap_ApprovalID a) = Some w \<Longrightarrow> won \<longleftrightarrow> ap_Status (aw_approval w) = ApprovalPending"
    and "\<not> won \<Longrightarrow> s' = s"
    and "won \<Longrightarrow> \<exists>w'. map_of (sr_approvals s') (ap_ApprovalID a) = Some w' \<and> ap_Status (aw_approval w') = status \<and> aw_params w' = []"
  using assms
  by (auto simp: closeApprovalTx_def tombstoneTx_def Let_def map_of_map update_approval_def map_of_update split: option.splits if_splits sum.splits)


definition swept :: "string \<Rightarrow> string \<Rightarrow> Store \<Rightarrow> bool" where
  "swept i b s \<longleftrightarrow> (\<exists>w. map_of (sr_approvals s) i = Some w \<and> ap_Status (aw_approval w) = ApprovalExpired \<and> aw_params w = []) \<and>
     (\<exists>row. map_of (sr_actions s) b = Some row \<and> ar_state row = StateRejected)"

lemma rejectParkedActionTx_Inr:
  assumes "rejectParkedActionTx cd sv b at s = Inr s'"
  shows "sr_approvals s' = sr_approvals s"
    and "\<exists>row. map_of (sr_actions s) b = Some row \<and> ar_state row = StatePendingApproval \<and>
      map_of (sr_actions s') = (map_of (sr_actions s))(b \<mapsto> row\<lparr>ar_state := StateRejected, ar_finished_at := Some at\<rparr>)"
  using assms
  by (auto simp: rejectParkedActionTx_def transitionTx_def append_receipt_def Let_def fun_eq_iff split: option.splits if_splits sum.splits)

lemma sweepExpiredOne_other:
  assumes "sweepExpiredOne cd sv j at s = Inr (won, s')" and "keyed s" and "j \<noteq> i"
  shows "map_of (sr_approvals s') i = map_of (sr_approvals s) i" and "swept i b s \<Longrightarrow> swept i b s'"
proof -
  obtain w won' s1 where w: "map_of (sr_approvals s) j = Some w"
      and c: "closeApprovalTx cd (aw_approval w) ApprovalExpired [] DecisionClock at [] [] s = Inr (won', s1)"
      and s': "\<not> won' \<and> s' = s \<or> won' \<and> rejectParkedActionTx cd sv (ap_ActionID (aw_approval w)) at s1 = Inr s'"
    using assms(1) by (auto simp: sweepExpiredOne_def approvalTx_def split: option.splits sum.splits prod.splits if_splits)
  have "ap_ApprovalID (aw_approval w) = j" using assms(2) map_of_SomeD [OF w] by (auto simp: keyed_def refers_def)
  then have "map_of (sr_approvals s1) i = map_of (sr_approvals s) i" using closeApprovalTx_Inr(1) [OF c] assms(3) by simp
  with s' show "map_of (sr_approvals s') i = map_of (sr_approvals s) i" using rejectParkedActionTx_Inr(1) by auto
  then show "swept i b s'" if "swept i b s"
    using that s' closeApprovalTx_Inr(2) [OF c] by (auto simp: swept_def dest!: rejectParkedActionTx_Inr(2))
qed

lemma sweepExpiredOne_this:
  assumes "sweepExpiredOne cd sv i at s = Inr (won, s')" and "keyed s" and "map_of (sr_approvals s) i = Some w"
  shows "ap_Status (aw_approval w) = ApprovalPending \<Longrightarrow> swept i (ap_ActionID (aw_approval w)) s'"
    and "ap_Status (aw_approval w) \<noteq> ApprovalPending \<Longrightarrow> s' = s"
proof -
  have i: "ap_ApprovalID (aw_approval w) = i" using assms(2) map_of_SomeD [OF assms(3)] by (auto simp: keyed_def refers_def)
  obtain won' s1 where c: "closeApprovalTx cd (aw_approval w) ApprovalExpired [] DecisionClock at [] [] s = Inr (won', s1)"
      and s': "\<not> won' \<and> s' = s \<or> won' \<and> rejectParkedActionTx cd sv (ap_ActionID (aw_approval w)) at s1 = Inr s'"
    using assms(1,3) by (auto simp: sweepExpiredOne_def approvalTx_def split: sum.splits prod.splits if_splits)
  note c = closeApprovalTx_Inr(3,5) [OF c, unfolded i]
  show "swept i (ap_ActionID (aw_approval w)) s'" if "ap_Status (aw_approval w) = ApprovalPending"
    using that c(1) [OF assms(3)] c(2) s' rejectParkedActionTx_Inr(1) by (auto simp: swept_def dest!: rejectParkedActionTx_Inr(2))
  show "s' = s" if "ap_Status (aw_approval w) \<noteq> ApprovalPending" using that c(1) [OF assms(3)] s' by simp
qed

lemma sweep_loop_keeps:
  "sweep_loop cd sv at ids m n s = (out, s') \<Longrightarrow> keyed s \<Longrightarrow> swept i b s \<Longrightarrow> swept i b s'"
proof (induction cd sv at ids m n s arbitrary: out s' rule: sweep_loop.induct)
  case (2 cd sv at j ids m n s)
  have kept: "swept i b t \<and> keyed t" if "sweepExpiredOne cd sv j at s = Inr (won, t)" for won t
  proof
    obtain w where w: "map_of (sr_approvals s) i = Some w" "ap_Status (aw_approval w) = ApprovalExpired"
      using 2(6) by (auto simp: swept_def)
    show "swept i b t"
    proof (cases "j = i")
      case True
      then show ?thesis using sweepExpiredOne_this(2) [OF that [unfolded True] 2(5) w(1)] w(2) 2(6) by simp
    qed (use sweepExpiredOne_other(2) [OF that 2(5)] 2(6) in simp)
    show "keyed t" using evolves_keyed [OF evolves_sweepOne [OF that] 2(5)] .
  qed
  show ?case using 2(1-3) 2(4-6) kept
    by (auto split: option.splits driver_fault.splits sum.splits prod.splits bool.splits)
qed auto

text \<open>A sweep without an error closes every request it selected whose row was not at fault.\<close>

lemma sweep_loop_closes:
  "sweep_loop cd sv at ids m n s = ((m', n', None), s') \<Longrightarrow> keyed s \<Longrightarrow> i \<in> set ids \<Longrightarrow> sv_row_fault sv i = None \<Longrightarrow>
   map_of (sr_approvals s) i = Some w \<Longrightarrow> ap_Status (aw_approval w) = ApprovalPending \<Longrightarrow>
   swept i (ap_ActionID (aw_approval w)) s'"
proof (induction cd sv at ids m n s rule: sweep_loop.induct)
  case (2 cd sv at j ids m n s)
  show ?case
  proof (cases "sv_row_fault sv j = None")
    case False
    then show ?thesis using 2 by (auto split: driver_fault.splits option.splits)
  next
    case free: True
    obtain won t where t: "sweepExpiredOne cd sv j at s = Inr (won, t)"
      using 2(4) free by (auto split: sum.splits prod.splits bool.splits)
    have keyed: "keyed t" using evolves_keyed [OF evolves_sweepOne [OF t] 2(5)] .
    obtain m1 n1 where rest: "sweep_loop cd sv at ids m1 n1 t = ((m', n', None), s')"
      using 2(4) free t by (auto split: bool.splits)
    show ?thesis
    proof (cases "j = i")
      case True
      then show ?thesis using sweepExpiredOne_this(1) [OF t [unfolded True] 2(5) 2(8) 2(9)] sweep_loop_keeps [OF rest keyed] by blast
    next
      case False
      then have row: "map_of (sr_approvals t) i = Some w" using sweepExpiredOne_other(1) [OF t 2(5)] 2(8) by simp
      show ?thesis using 2(1-3) 2(4,6,7,9) free t keyed row False by (cases won) auto
    qed
  qed
qed simp

text \<open>
  C18: The expiry sweep closes requests before their window ends. It compares the stored text of the expiry with the text of
  its own instant, and a text with a fraction of a second sorts before the same second without one. So a sweep on a full
  second that reports no error closes as expired, in any store, every pending request that expires within the
  second after it and whose row was not busy: its parameters are purged and its action is rejected, although an operator could
  still decide it at that instant.
\<close>

theorem sweep_closes_early:
  assumes "keyed s" and "map_of (sr_approvals s) i = Some w" and "ap_Status (aw_approval w) = ApprovalPending"
    and "ap_ExpiresAt (aw_approval w) = 1000000000 * k + f" and "0 < f" and "f < 1000000000"
    and "SweepExpiredApprovals cd sv (1000000000 * k) s = ((m, n, None), s')" and "sv_row_fault sv i = None"
  shows "ApprovalConsumableAt (aw_approval w) (1000000000 * k) = [] \<and>
    (\<exists>w'. map_of (sr_approvals s') i = Some w' \<and> ap_Status (aw_approval w') = ApprovalExpired \<and> aw_params w' = []) \<and>
    (\<exists>row. map_of (sr_actions s') (ap_ActionID (aw_approval w)) = Some row \<and> ar_state row = StateRejected)"
proof -
  have early: "sweep_selects (1000000000 * k) w" "ApprovalConsumableAt (aw_approval w) (1000000000 * k) = []"
    using sweep_selects_early [OF assms(3-6)] by simp_all
  have "i \<in> set (map fst (filter (\<lambda>(_, w). sweep_selects (1000000000 * k) w) (sr_approvals s)))"
    using map_of_SomeD [OF assms(2)] early(1) by force
  then show ?thesis using sweep_loop_closes [OF _ assms(1) _ assms(8,2,3)] assms(7) early(2)
    by (auto simp: SweepExpiredApprovals_def swept_def split: option.splits)
qed

end
