(* ===== verification/Approved_Run.thy ===== *)
theory Approved_Run
  imports Executor Store_Safety
begin

text \<open>
  The execution of an approved action: \<open>ResumeApproved\<close> of the executor
  (\<open>internal/action/executor/executor.go\<close>) over the interface \<open>ApprovalStore\<close>, the adapter that
  implements it with the action store and the entry point \<open>ExecuteApprovedAction\<close>
  (\<open>internal/app/approvals.go\<close>), and what the composition of executor and store guarantees.

  Other connections may use the store between the steps of a resume; \<open>other k\<close> is what they do to it
  before the \<open>k\<close>-th access. The strict door \<open>StartApprovedAuthorization\<close> of the store is an
  argument of the adapter.
\<close>

section \<open>Reading\<close>

definition GetApproval :: "codec \<Rightarrow> string \<Rightarrow> Store \<Rightarrow> go_error + Approval \<times> ActionPreview" where
  "GetApproval cd approvalID s =
     (case approvalTx s approvalID of
        Inl e \<Rightarrow> Inl e
      | Inr w \<Rightarrow>
          (case ValidatePreviewBinding cd (aw_approval w) (aw_preview w) of
             Some e \<Rightarrow> Inl (Errorf ''action/sqlite: approval %q: %w: %w'' [ErrApprovalEvidenceCorrupt, e])
           | None \<Rightarrow>
               (case verifyApprovalStoryTyped s (aw_approval w) (aw_preview w) of
                  Some e \<Rightarrow> Inl (Errorf ''action/sqlite: approval %q: %w'' [e])
                | None \<Rightarrow> Inr (aw_approval w, aw_preview w))))"

text \<open>\<open>Get\<close>: the row of an action and the row of its decision.\<close>

definition store_Get :: "string \<Rightarrow> Store \<Rightarrow> go_error + action_row \<times> store_Decision" where
  "store_Get actionID s =
     (case (map_of (sr_actions s) actionID, map_of (sr_decisions s) actionID) of
        (Some row, Some d) \<Rightarrow> Inr (row, d) | _ \<Rightarrow> Inl (Errorf ''%w: %q'' [ErrNotFound]))"

section \<open>Resuming\<close>

record 's ApprovalStore =
  aps_ReadApproval :: "string \<Rightarrow> 's \<Rightarrow> go_error + Approval"
  aps_ReadActionState :: "string \<Rightarrow> 's \<Rightarrow> go_error + State"
  aps_Claim :: "string \<Rightarrow> Approval \<Rightarrow> 's \<Rightarrow> (go_error + string \<times> action_Operation) \<times> 's"
  aps_Close :: "'s closeExecution"
  aps_ReadReceipt :: "string \<Rightarrow> 's \<Rightarrow> go_error + string"
  aps_StartApproved :: "(string \<Rightarrow> 's \<Rightarrow> (go_error + string \<times> action_Operation \<times> string) \<times> 's) option"

datatype ResumeStage = ResumeReadApproval | ResumeApprovalPending | ResumeApprovalClosed | ResumeReadAction
  | ResumeActionClosed | ResumeClaim | ResumeClose | ResumeReadReceipt

record ResumeError =
  rz_Stage :: ResumeStage
  rz_ApprovalID :: string
  rz_ActionID :: string
  rz_Status :: "ApprovalStatus option"
  rz_State :: "State option"
  rz_Err :: "go_error option"

datatype resume_refusal = PlainRefusal go_error | StageRefusal ResumeError

record ApprovedResult =
  ax_Result :: string
  ax_ResultDigest :: string
  ax_ReceiptID :: string
  ax_Operation :: action_Operation
  ax_Outcome :: State
  ax_ToolError :: "go_error option"

definition stage_error :: "ResumeStage \<Rightarrow> string \<Rightarrow> string \<Rightarrow> go_error option \<Rightarrow> ResumeError" where
  "stage_error st approvalID actionID err = \<lparr>rz_Stage = st, rz_ApprovalID = approvalID, rz_ActionID = actionID,
     rz_Status = None, rz_State = None, rz_Err = err\<rparr>"

definition approved_capability :: "codec \<Rightarrow> string \<Rightarrow> action_Operation \<Rightarrow> string \<Rightarrow> invocationCapability" where
  "approved_capability cd actionID op params =
     \<lparr>iv_action = zero_action\<lparr>ac_ActionID := actionID, ac_Operation := op, ac_ParametersDigest := Digest cd op params\<rparr>,
      iv_toolName = ao_Name op, iv_args = params, iv_scope = \<lparr>sc_Brain = '''', sc_Conversation = ''''\<rparr>\<rparr>"

definition meanwhile :: "(nat \<Rightarrow> 's \<Rightarrow> 's) \<Rightarrow> nat \<Rightarrow> 's world \<Rightarrow> 's world" where
  "meanwhile other k w = w\<lparr>wo_store := other k (wo_store w)\<rparr>"

text \<open>The claimed action runs, is closed and its receipt is read, by the routine that \<open>Submit\<close> uses
  too. The tool's run is where other connections come in before the close.\<close>

definition run_claimed ::
    "codec \<Rightarrow> exec_env \<Rightarrow> 's Executor \<Rightarrow> 's ApprovalStore \<Rightarrow> (nat \<Rightarrow> 's \<Rightarrow> 's) \<Rightarrow> string \<Rightarrow> string \<Rightarrow> action_Operation \<Rightarrow> string \<Rightarrow>
     's world \<Rightarrow> (resume_refusal + ApprovedResult) \<times> 's world" where
  "run_claimed cd xe e st other approvalID actionID op params w =
     (let (x, w1) = invokeAndClose cd xe e (approved_capability cd actionID op params) (Some (aps_Close st))
            (\<lambda>_. meanwhile other 3) w in
      case er_closeErr x of
        Some err \<Rightarrow> (Inl (StageRefusal (stage_error ResumeClose approvalID actionID (Some err))), w1)
      | None \<Rightarrow>
          (let w2 = meanwhile other 4 w1 in
           case aps_ReadReceipt st approvalID (wo_store w2) of
             Inl err \<Rightarrow> (Inl (StageRefusal (stage_error ResumeReadReceipt approvalID actionID (Some err))), w2)
           | Inr receiptID \<Rightarrow> (Inr \<lparr>ax_Result = er_output x, ax_ResultDigest = er_digest x, ax_ReceiptID = receiptID,
                ax_Operation = op, ax_Outcome = er_outcome x, ax_ToolError = er_toolErr x\<rparr>, w2)))"

definition claim_and_run ::
    "codec \<Rightarrow> exec_env \<Rightarrow> 's Executor \<Rightarrow> 's ApprovalStore \<Rightarrow> (nat \<Rightarrow> 's \<Rightarrow> 's) \<Rightarrow> string \<Rightarrow> Approval \<Rightarrow>
     's world \<Rightarrow> (resume_refusal + ApprovedResult) \<times> 's world" where
  "claim_and_run cd xe e st other approvalID a w =
     (let refuse_claim = (\<lambda>err. Inl (StageRefusal (stage_error ResumeClaim approvalID (ap_ActionID a) (Some err)))) in
      if cc_StrictAuthority (ex_config e)
      then (case aps_StartApproved st of
              None \<Rightarrow> (refuse_claim ErrAuthorityEvidenceCorrupt, w)
            | Some start \<Rightarrow>
                (case start approvalID (wo_store w) of
                   (Inl err, s) \<Rightarrow> (refuse_claim err, w\<lparr>wo_store := s\<rparr>)
                 | (Inr (params, op, actionID), s) \<Rightarrow>
                     run_claimed cd xe e st other approvalID actionID op params (w\<lparr>wo_store := s\<rparr>)))
      else (case aps_Claim st approvalID a (wo_store w) of
              (Inl err, s) \<Rightarrow> (refuse_claim err, w\<lparr>wo_store := s\<rparr>)
            | (Inr (params, op), s) \<Rightarrow>
                run_claimed cd xe e st other approvalID (ap_ActionID a) op params (w\<lparr>wo_store := s\<rparr>)))"

definition ResumeApproved ::
    "codec \<Rightarrow> exec_env \<Rightarrow> 's Executor option \<Rightarrow> 's ApprovalStore option \<Rightarrow> (nat \<Rightarrow> 's \<Rightarrow> 's) \<Rightarrow> string \<Rightarrow>
     's world \<Rightarrow> (resume_refusal + ApprovedResult) \<times> 's world" where
  "ResumeApproved cd xe exec store other approvalID w =
     (case store of
        None \<Rightarrow> (Inl (PlainRefusal ErrExecutionBindingMismatch), w)
      | Some st \<Rightarrow>
          (case aps_ReadApproval st approvalID (wo_store w) of
             Inl err \<Rightarrow> (Inl (StageRefusal (stage_error ResumeReadApproval approvalID '''' (Some err))), w)
           | Inr a \<Rightarrow>
               if ap_Status a = ApprovalPending
               then (Inl (StageRefusal ((stage_error ResumeApprovalPending approvalID (ap_ActionID a) None)
                       \<lparr>rz_Status := Some (ap_Status a)\<rparr>)), w)
               else if ap_Status a \<noteq> ApprovalApproved
               then (Inl (StageRefusal ((stage_error ResumeApprovalClosed approvalID (ap_ActionID a) None)
                       \<lparr>rz_Status := Some (ap_Status a)\<rparr>)), w)
               else
                 (let w1 = meanwhile other 1 w in
                  case aps_ReadActionState st (ap_ActionID a) (wo_store w1) of
                    Inl err \<Rightarrow> (Inl (StageRefusal (stage_error ResumeReadAction approvalID (ap_ActionID a) (Some err))), w1)
                  | Inr state \<Rightarrow>
                      if state \<noteq> StateApproved
                      then (Inl (StageRefusal ((stage_error ResumeActionClosed approvalID (ap_ActionID a) None)
                              \<lparr>rz_State := Some state\<rparr>)), w1)
                      else (case exec of
                          None \<Rightarrow> (Inl (PlainRefusal ErrExecutionBindingMismatch), w1)
                        | Some e \<Rightarrow> claim_and_run cd xe e st other approvalID a (meanwhile other 2 w1)))))"

section \<open>The adapter\<close>

type_synonym strict_door = "string \<Rightarrow> PolicyPin \<Rightarrow> string \<Rightarrow> Store \<Rightarrow> (go_error + string \<times> action_Operation \<times> string) \<times> Store"

definition approvedExecutionStore ::
    "codec \<Rightarrow> (string \<Rightarrow> string) \<Rightarrow> store_env \<Rightarrow> store_env \<Rightarrow> strict_door \<Rightarrow> PolicyPin \<Rightarrow> string \<Rightarrow> Store ApprovalStore" where
  "approvedExecutionStore cd uni claim_env close_env start law approvedDigest =
     \<lparr>aps_ReadApproval = (\<lambda>i s. map_sum (\<lambda>e. e) fst (GetApproval cd i s)),
      aps_ReadActionState = (\<lambda>i s. map_sum (\<lambda>e. e) (\<lambda>(row, _). ar_state row) (store_Get i s)),
      aps_Claim = (\<lambda>i seen s. ClaimApprovalParamsUnderDigest cd claim_env i (Some law) approvedDigest (Some seen) s),
      aps_Close = (\<lambda>i state at digest s. store_FinishWithResult cd uni close_env i state at digest s),
      aps_ReadReceipt = (\<lambda>i s. map_sum (\<lambda>e. e) (\<lambda>(a, _). ap_DecisionReceiptID a) (GetApproval cd i s)),
      aps_StartApproved = Some (\<lambda>i s. start i law approvedDigest s)\<rparr>"

definition ErrApprovalNotDecided :: go_error where
  "ErrApprovalNotDecided = Sentinel ''app: the approval is still awaiting a decision''"
definition ErrApprovalAlreadyClosed :: go_error where
  "ErrApprovalAlreadyClosed = Sentinel ''app: the approval was already closed and is not awaiting execution''"
definition ErrApprovalCloseFailed :: go_error where
  "ErrApprovalCloseFailed = Sentinel ''app: the executed action could not be closed''"
definition ErrApprovalRecordUnreadable :: go_error where
  "ErrApprovalRecordUnreadable = Sentinel ''app: the parked action's record no longer reads''"

text \<open>\<open>FailureDetail\<close> is the text of the error kept here.\<close>

record ApprovedExecution =
  ae_Result :: string
  ae_ResultDigest :: string
  ae_ReceiptID :: string
  ae_Operation :: action_Operation
  ae_Failed :: bool
  ae_Unknown :: bool
  ae_FailureDetail :: "go_error option"

definition app_error :: "resume_refusal \<Rightarrow> go_error" where
  "app_error r = (case r of
      PlainRefusal e \<Rightarrow> e
    | StageRefusal z \<Rightarrow>
        (let cause = (case rz_Err z of Some e \<Rightarrow> [e] | None \<Rightarrow> []) in
         case rz_Stage z of
           ResumeReadApproval \<Rightarrow> (case rz_Err z of Some e \<Rightarrow> e | None \<Rightarrow> ErrorString '''')
         | ResumeApprovalPending \<Rightarrow> Errorf ''app: approval %s is %s: %w'' [ErrApprovalNotDecided]
         | ResumeApprovalClosed \<Rightarrow> Errorf ''app: approval %s is %s: %w'' [ErrApprovalAlreadyClosed]
         | ResumeReadAction \<Rightarrow> Errorf ''app: approved action %s: %w: %w'' (ErrApprovalRecordUnreadable # cause)
         | ResumeActionClosed \<Rightarrow> Errorf ''app: action %s is %s: %w'' [ErrApprovalAlreadyClosed]
         | ResumeClaim \<Rightarrow> Errorf ''app: claim execution of %s: %w'' cause
         | ResumeClose \<Rightarrow> Errorf ''app: close executed action %s: %w: %w'' (ErrApprovalCloseFailed # cause)
         | ResumeReadReceipt \<Rightarrow> Errorf ''app: read back the receipt of %s: %w: %w'' (ErrApprovalCloseFailed # cause)))"

definition app_execution :: "ApprovedResult \<Rightarrow> ApprovedExecution" where
  "app_execution r = \<lparr>ae_Result = ax_Result r, ae_ResultDigest = ax_ResultDigest r, ae_ReceiptID = ax_ReceiptID r,
     ae_Operation = ax_Operation r, ae_Failed = (ax_ToolError r \<noteq> None \<and> ax_Outcome r \<noteq> StateOutcomeUnknown),
     ae_Unknown = (ax_ToolError r \<noteq> None \<and> ax_Outcome r = StateOutcomeUnknown), ae_FailureDetail = ax_ToolError r\<rparr>"

definition ExecuteApprovedAction ::
    "codec \<Rightarrow> exec_env \<Rightarrow> Store Executor option \<Rightarrow> Store ApprovalStore \<Rightarrow> (nat \<Rightarrow> Store \<Rightarrow> Store) \<Rightarrow> string \<Rightarrow>
     Store world \<Rightarrow> (go_error + ApprovedExecution) \<times> Store world" where
  "ExecuteApprovedAction cd xe exec st other approvalID w =
     (case ResumeApproved cd xe exec (Some st) other approvalID w of
        (Inl r, w') \<Rightarrow> (Inl (app_error r), w') | (Inr run, w') \<Rightarrow> (Inr (app_execution run), w'))"

section \<open>What a resume does\<close>

fun calls :: "exec_event list \<Rightarrow> (string \<times> string) list" where
  "calls [] = []"
| "calls (EvDispatched name scope args out # evs) = (name, args) # calls evs"
| "calls (ev # evs) = calls evs"

text \<open>The tool calls a step from \<open>w\<close> to \<open>w'\<close> makes.\<close>

definition new_calls :: "'s world \<Rightarrow> 's world \<Rightarrow> (string \<times> string) list" where
  "new_calls w w' = calls (drop (length (wo_trace w)) (wo_trace w'))"

lemma calls_append [simp]: "calls (xs @ ys) = calls xs @ calls ys"
  by (induction xs rule: calls.induct) auto

lemma calls_quiet: "dispatches evs = 0 \<Longrightarrow> calls evs = []"
  by (induction evs rule: calls.induct) auto

lemma new_calls_adds: "adds evs w w' \<Longrightarrow> new_calls w w' = calls evs"
  by (simp add: adds_def new_calls_def)

lemma new_calls_quiet: "quiet w w' \<Longrightarrow> new_calls w w' = []"
  unfolding quiet_def using new_calls_adds calls_quiet by metis

lemma quiet_store [simp, intro]: "quiet w (w\<lparr>wo_store := s\<rparr>)" "quiet w (meanwhile other k w)"
  unfolding quiet_def adds_def meanwhile_def by (rule exI [of _ "[]"], simp)+

lemma new_calls_shift: "wo_trace w = wo_trace v \<Longrightarrow> new_calls w w' = new_calls v w'"
  by (simp add: new_calls_def)

lemma meanwhile_store [simp]: "wo_store (meanwhile other k w) = other k (wo_store w)"
  "wo_trace (meanwhile other k w) = wo_trace w"
  by (simp_all add: meanwhile_def)

lemma dispatch_store: "dispatch e xe name scope args w = (x, w') \<Longrightarrow> wo_store w' = wo_store w"
  by (auto simp: dispatch_def emit_def split: option.splits prod.splits)

lemma invokeAndClose_store:
  assumes "invokeAndClose cd xe e cap (Some cl) (\<lambda>_. meanwhile other 3) w = (x, w')"
  shows "\<exists>outcome digest. wo_store w' = snd (cl (ac_ActionID (iv_action cap)) outcome (xe_close_at xe) digest (other 3 (wo_store w)))"
proof -
  let ?w1 = "if cc_InvocationProbe (ex_config e) then emit (EvProbed (iv_action cap)) w else w"
  obtain o' l t w2 where d: "dispatch e xe (iv_toolName cap) (iv_scope cap) (iv_args cap) ?w1 = ((o', l, t), w2)"
    by (metis prod.exhaust)
  have "wo_store w2 = wo_store w" using dispatch_store [OF d] by (simp add: emit_def)
  with assms d show ?thesis
    by (intro exI [of _ "CloseStateAfterRun t"] exI [of _ "if CloseStateAfterRun t = StateSucceeded then HashCanonical cd o' else []"])
      (auto simp: invokeAndClose_def Let_def emit_def split: prod.splits)
qed

lemma invokeAndClose_calls:
  assumes "invokeAndClose cd xe e cap (Some cl) (\<lambda>_. meanwhile other 3) w = (x, w')"
  shows "new_calls w w' \<in> {[], [(iv_toolName cap, iv_args cap)]}"
proof (cases "ex_tools e (iv_toolName cap)")
  case None
  from new_calls_quiet [OF invokeAndClose_unknown [OF assms _ None]] show ?thesis by simp
next
  case (Some t)
  have bc: "\<exists>evs. adds evs u (meanwhile other 3 u) \<and> dispatches evs = 0" for u :: "'a world"
    using quiet_store(2) unfolding quiet_def by blast
  obtain pre out post where "adds (pre @ EvDispatched (iv_toolName cap) (iv_scope cap) (iv_args cap) (out, er_toolErr x) # post) w w'"
    "dispatches pre = 0" "dispatches post = 0"
    using invokeAndClose_adds [OF assms bc Some] by blast
  then show ?thesis using new_calls_adds calls_quiet by fastforce
qed

definition interferes :: "('s \<Rightarrow> 's \<Rightarrow> bool) \<Rightarrow> (nat \<Rightarrow> 's \<Rightarrow> 's) \<Rightarrow> bool" where
  "interferes moves other \<longleftrightarrow> (\<forall>k\<in>{1, 2, 3, 4}. \<forall>s. moves s (other k s))"

text \<open>What a resume needs of the store: a claim hands out the parked call and is the only one that
  does, and neither closing nor what other connections do brings it back.\<close>

locale claim_store =
  fixes st :: "'s ApprovalStore" and moves :: "'s \<Rightarrow> 's \<Rightarrow> bool" and i :: string and inv :: "'s \<Rightarrow> bool" and gone :: "'s \<Rightarrow> bool"
    and parked_call :: "string \<times> action_Operation"
  assumes claim_inv: "inv s \<Longrightarrow> inv (snd (aps_Claim st j a s)) \<and> (gone s \<longrightarrow> gone (snd (aps_Claim st j a s)))"
    and claim_once: "inv s \<Longrightarrow> aps_Claim st i a s = (Inr pc, s') \<Longrightarrow> \<not> gone s \<and> gone s' \<and> pc = parked_call"
    and close_inv: "inv s \<Longrightarrow> inv (snd (aps_Close st k state at dig s)) \<and> (gone s \<longrightarrow> gone (snd (aps_Close st k state at dig s)))"
    and moves_inv: "moves s s' \<Longrightarrow> inv s \<Longrightarrow> inv s' \<and> (gone s \<longrightarrow> gone s')"
begin

lemma interferes_inv:
  "interferes moves other \<Longrightarrow> k \<in> {1, 2, 3, 4} \<Longrightarrow> inv s \<Longrightarrow> inv (other k s) \<and> (gone s \<longrightarrow> gone (other k s))"
  unfolding interferes_def using moves_inv by blast

lemma run_claimed_step:
  assumes "run_claimed cd xe e st other j aid op params w = (r, w')" and "interferes moves other" and "inv (wo_store w)"
  shows "inv (wo_store w') \<and> (gone (wo_store w) \<longrightarrow> gone (wo_store w')) \<and> new_calls w w' \<in> {[], [(ao_Name op, params)]}"
proof -
  obtain x w1 where x: "invokeAndClose cd xe e (approved_capability cd aid op params) (Some (aps_Close st)) (\<lambda>_. meanwhile other 3) w = (x, w1)"
    by fastforce
  have w': "w' = w1 \<or> w' = meanwhile other 4 w1"
    using assms(1) x by (auto simp: run_claimed_def Let_def split: option.splits sum.splits)
  have s1: "inv (wo_store w1) \<and> (gone (wo_store w) \<longrightarrow> gone (wo_store w1))"
    using invokeAndClose_store [OF x] close_inv interferes_inv [OF assms(2) _ assms(3), of 3] by fastforce
  have "new_calls w w' = new_calls w w1" using w' by (auto simp: new_calls_def)
  then have "new_calls w w' \<in> {[], [(ao_Name op, params)]}"
    using invokeAndClose_calls [OF x] by (simp add: approved_capability_def)
  moreover have "inv (wo_store w') \<and> (gone (wo_store w1) \<longrightarrow> gone (wo_store w'))"
    using w' s1 interferes_inv [OF assms(2), of 4 "wo_store w1"] by auto
  ultimately show ?thesis using s1 by blast
qed

lemma claim_and_run_step:
  assumes "claim_and_run cd xe e st other j a w = (r, w')" and "interferes moves other" and "inv (wo_store w)"
    and "\<not> cc_StrictAuthority (ex_config e)"
  shows "inv (wo_store w') \<and> (gone (wo_store w) \<longrightarrow> gone (wo_store w')) \<and>
    (j = i \<longrightarrow> new_calls w w' = [] \<or> \<not> gone (wo_store w) \<and> gone (wo_store w') \<and>
       new_calls w w' = [(ao_Name (snd parked_call), fst parked_call)])"
proof -
  obtain ans s where claim: "aps_Claim st j a (wo_store w) = (ans, s)" by fastforce
  have s: "inv s \<and> (gone (wo_store w) \<longrightarrow> gone s)" using claim_inv [OF assms(3), of j a] claim by simp
  show ?thesis
  proof (cases ans)
    case (Inl err)
    then have "w' = w\<lparr>wo_store := s\<rparr>" using assms(1,4) claim by (simp add: claim_and_run_def)
    then show ?thesis using s by (simp add: new_calls_quiet)
  next
    case (Inr pc)
    obtain params op where pc: "pc = (params, op)" by fastforce
    have "run_claimed cd xe e st other j (ap_ActionID a) op params (w\<lparr>wo_store := s\<rparr>) = (r, w')"
      using assms(1,4) claim Inr pc by (simp add: claim_and_run_def)
    from run_claimed_step [OF this assms(2)] s have run: "inv (wo_store w')" "gone s \<longrightarrow> gone (wo_store w')"
      "new_calls w w' \<in> {[], [(ao_Name op, params)]}"
      using new_calls_shift [of w "w\<lparr>wo_store := s\<rparr>"] by auto
    have "j = i \<longrightarrow> \<not> gone (wo_store w) \<and> gone s \<and> pc = parked_call" using claim_once [OF assms(3)] claim Inr by blast
    with run s pc show ?thesis by auto
  qed
qed

text \<open>A resume of \<open>i\<close> calls a tool only if the call was not gone before; then it is gone, and the
  call is the parked one. A resume of another approval keeps the rest.\<close>

lemma resume_step:
  assumes "ResumeApproved cd xe (Some e) (Some st) other j w = (r, w')" and "interferes moves other" and "inv (wo_store w)"
    and "\<not> cc_StrictAuthority (ex_config e)"
  shows "inv (wo_store w') \<and> (gone (wo_store w) \<longrightarrow> gone (wo_store w')) \<and>
    (j = i \<longrightarrow> new_calls w w' = [] \<or> \<not> gone (wo_store w) \<and> gone (wo_store w') \<and>
       new_calls w w' = [(ao_Name (snd parked_call), fst parked_call)])"
proof -
  let ?w1 = "meanwhile other 1 w" and ?w2 = "meanwhile other 2 (meanwhile other 1 w)"
  have 1: "inv (wo_store ?w1) \<and> (gone (wo_store w) \<longrightarrow> gone (wo_store ?w1))"
    using interferes_inv [OF assms(2) _ assms(3), of 1] by simp
  then have 2: "inv (wo_store ?w2) \<and> (gone (wo_store w) \<longrightarrow> gone (wo_store ?w2))"
    using interferes_inv [OF assms(2), of 2 "wo_store ?w1"] by auto
  consider "w' = w" | "w' = ?w1" | a where "claim_and_run cd xe e st other j a ?w2 = (r, w')"
    using assms(1) by (auto simp: ResumeApproved_def Let_def split: sum.splits if_splits)
  then show ?thesis
  proof cases
    case 1
    then show ?thesis using assms(3) by (simp add: new_calls_quiet)
  next
    case 2
    then show ?thesis using 1 by (simp add: new_calls_quiet)
  next
    case 3
    from claim_and_run_step [OF this assms(2) _ assms(4)] 2 show ?thesis
      using new_calls_shift [of w ?w2 w'] by auto
  qed
qed

end

section \<open>Over the action store\<close>

text \<open>What the other connections do: operations that do not park a second request under the id.\<close>

definition store_moves :: "codec \<Rightarrow> (string \<Rightarrow> string) \<Rightarrow> string \<Rightarrow> Store \<Rightarrow> Store \<Rightarrow> bool" where
  "store_moves cd uni i s s' \<longleftrightarrow> (\<exists>ops. (\<forall>op\<in>set ops. i \<notin> creates op) \<and> s' = run_ops cd uni ops s)"

definition parked_inv :: "codec \<Rightarrow> BoundApprovalRequest \<Rightarrow> Store \<Rightarrow> bool" where
  "parked_inv cd b s \<longleftrightarrow> keyed s \<and> holds_request cd b s"

definition parked_terms :: "codec \<Rightarrow> BoundApprovalRequest \<Rightarrow> string \<times> action_Operation" where
  "parked_terms cd b = (CanonicalParams cd (bq_params b), ac_Operation (bq_env b))"

lemma op_parked:
  assumes "parked_inv cd b s" and "ap_ApprovalID (bq_approval b) \<notin> creates op"
  shows "parked_inv cd b (run_op cd uni op s) \<and>
    (spent (ap_ApprovalID (bq_approval b)) s \<longrightarrow> spent (ap_ApprovalID (bq_approval b)) (run_op cd uni op s))"
  using assms op_ok_keyed [OF run_op_ok] op_ok_holds [OF run_op_ok] spent_kept unfolding parked_inv_def by blast

lemma ops_parked:
  "parked_inv cd b s \<Longrightarrow> \<forall>op\<in>set ops. ap_ApprovalID (bq_approval b) \<notin> creates op \<Longrightarrow>
   parked_inv cd b (run_ops cd uni ops s) \<and>
   (spent (ap_ApprovalID (bq_approval b)) s \<longrightarrow> spent (ap_ApprovalID (bq_approval b)) (run_ops cd uni ops s))"
proof (induction ops arbitrary: s)
  case (Cons op ops)
  then show ?case using op_parked [of cd b s op uni] by (auto simp: run_ops_def)
qed (simp add: run_ops_def)

lemma claim_parked:
  assumes "parked_inv cd b s"
    and "ClaimApprovalParamsUnderDigest cd sv (ap_ApprovalID (bq_approval b)) law dig seen s = (Inr pc, s')"
  shows "\<not> spent (ap_ApprovalID (bq_approval b)) s \<and> spent (ap_ApprovalID (bq_approval b)) s' \<and> pc = parked_terms cd b"
proof -
  let ?i = "ap_ApprovalID (bq_approval b)"
  obtain params op where pc: "pc = (params, op)" by fastforce
  then have tx: "claim_tx cd sv ?i law dig seen s = Inr ((params, op), s')"
    using assms(2) by (auto simp: ClaimApprovalParamsUnderDigest_def transact_def split: option.splits sum.splits)
  have "claimed cd ?i (OpClaim sv ?i law dig seen) s" using assms(2) by (simp add: claimed_def)
  from claimed_spends [OF this] have "\<not> spent ?i s \<and> spent ?i s'" using assms(2) by simp
  moreover have "params = CanonicalParams cd (bq_params b) \<and> op = ac_Operation (bq_env b)"
    using claim_tx_Inr [OF tx] assms(1) by (fastforce simp: parked_inv_def holds_request_def)
  ultimately show ?thesis using pc by (simp add: parked_terms_def)
qed

interpretation sqlite: claim_store "approvedExecutionStore cd uni claim_env close_env start law dig"
    "store_moves cd uni (ap_ApprovalID (bq_approval b))" "ap_ApprovalID (bq_approval b)" "parked_inv cd b"
    "spent (ap_ApprovalID (bq_approval b))" "parked_terms cd b"
  for cd uni claim_env close_env start law dig b
proof
  let ?st = "approvedExecutionStore cd uni claim_env close_env start law dig"
  show "parked_inv cd b (snd (aps_Claim ?st j a s)) \<and>
      (spent (ap_ApprovalID (bq_approval b)) s \<longrightarrow> spent (ap_ApprovalID (bq_approval b)) (snd (aps_Claim ?st j a s)))"
    if "parked_inv cd b s" for j a s
    using op_parked [OF that, of "OpClaim claim_env j (Some law) dig (Some a)" uni] by (simp add: approvedExecutionStore_def)
  show "\<not> spent (ap_ApprovalID (bq_approval b)) s \<and> spent (ap_ApprovalID (bq_approval b)) s' \<and> pc = parked_terms cd b"
    if "parked_inv cd b s" "aps_Claim ?st (ap_ApprovalID (bq_approval b)) a s = (Inr pc, s')" for s a pc s'
    using claim_parked [OF that(1)] that(2) by (simp add: approvedExecutionStore_def)
  show "parked_inv cd b (snd (aps_Close ?st k state at dg s)) \<and>
      (spent (ap_ApprovalID (bq_approval b)) s \<longrightarrow> spent (ap_ApprovalID (bq_approval b)) (snd (aps_Close ?st k state at dg s)))"
    if "parked_inv cd b s" for k state at dg s
    using op_parked [OF that, of "OpFinish close_env k state at dg" uni] by (simp add: approvedExecutionStore_def)
  show "parked_inv cd b s' \<and> (spent (ap_ApprovalID (bq_approval b)) s \<longrightarrow> spent (ap_ApprovalID (bq_approval b)) s')"
    if "store_moves cd uni (ap_ApprovalID (bq_approval b)) s s'" "parked_inv cd b s" for s s'
    using that ops_parked unfolding store_moves_def by blast
qed

section \<open>Histories\<close>

text \<open>The store and the executions of approved actions, in any order, each execution with what the
  other connections do while it is under way.\<close>

datatype app_op =
    AppStore store_op
  | AppExecute exec_env store_env store_env PolicyPin string string "nat \<Rightarrow> store_op list"

definition run_app :: "codec \<Rightarrow> (string \<Rightarrow> string) \<Rightarrow> strict_door \<Rightarrow> Store Executor \<Rightarrow> app_op \<Rightarrow> Store world \<Rightarrow> Store world" where
  "run_app cd uni start e op w = (case op of
      AppStore o' \<Rightarrow> w\<lparr>wo_store := run_op cd uni o' (wo_store w)\<rparr>
    | AppExecute xe claim_env close_env law dig j others \<Rightarrow>
        snd (ExecuteApprovedAction cd xe (Some e) (approvedExecutionStore cd uni claim_env close_env start law dig)
               (\<lambda>k. run_ops cd uni (others k)) j w))"

definition executes :: "string \<Rightarrow> app_op \<Rightarrow> bool" where
  "executes i op = (case op of AppExecute xe claim_env close_env law dig j others \<Rightarrow> j = i | _ \<Rightarrow> False)"

definition parks :: "app_op \<Rightarrow> string set" where
  "parks op = (case op of AppStore o' \<Rightarrow> creates o'
     | AppExecute xe claim_env close_env law dig j others \<Rightarrow> \<Union> (creates ` set (concat (map others [1, 2, 3, 4]))))"

fun approved_calls ::
    "codec \<Rightarrow> (string \<Rightarrow> string) \<Rightarrow> strict_door \<Rightarrow> Store Executor \<Rightarrow> string \<Rightarrow> app_op list \<Rightarrow> Store world \<Rightarrow> (string \<times> string) list" where
  "approved_calls cd uni start e i [] w = []"
| "approved_calls cd uni start e i (op # ops) w =
     (if executes i op then new_calls w (run_app cd uni start e op w) else []) @
     approved_calls cd uni start e i ops (run_app cd uni start e op w)"

lemma execute_world: "snd (ExecuteApprovedAction cd xe exec st other j w) = snd (ResumeApproved cd xe exec (Some st) other j w)"
  by (simp add: ExecuteApprovedAction_def split: prod.splits sum.splits)

lemma execute_is_resume: "ExecuteApprovedAction cd xe exec st other j w = (r, w') \<Longrightarrow>
    \<exists>r'. ResumeApproved cd xe exec (Some st) other j w = (r', w')"
  by (auto simp: ExecuteApprovedAction_def split: prod.splits sum.splits)

lemma app_step:
  fixes uni :: "string \<Rightarrow> string" and start :: strict_door
  assumes "parked_inv cd b (wo_store w)" and "ap_ApprovalID (bq_approval b) \<notin> parks op" and "\<not> cc_StrictAuthority (ex_config e)"
  defines "w' \<equiv> run_app cd uni start e op w" and "i \<equiv> ap_ApprovalID (bq_approval b)"
  shows "parked_inv cd b (wo_store w') \<and> (spent i (wo_store w) \<longrightarrow> spent i (wo_store w')) \<and>
    (executes i op \<longrightarrow> new_calls w w' = [] \<or> \<not> spent i (wo_store w) \<and> spent i (wo_store w') \<and>
       new_calls w w' = [(ao_Name (ac_Operation (bq_env b)), CanonicalParams cd (bq_params b))])"
proof (cases op)
  case (AppStore o')
  then show ?thesis using op_parked [OF assms(1), of o' uni] assms(2) by (simp add: w'_def i_def run_app_def parks_def executes_def)
next
  case (AppExecute xe claim_env close_env law dig j others)
  let ?st = "approvedExecutionStore cd uni claim_env close_env start law dig" and ?other = "\<lambda>k. run_ops cd uni (others k)"
  obtain r u where x: "ExecuteApprovedAction cd xe (Some e) ?st ?other j w = (r, u)" by fastforce
  then obtain r' where res: "ResumeApproved cd xe (Some e) (Some ?st) ?other j w = (r', u)" using execute_is_resume by blast
  have "interferes (store_moves cd uni i) ?other"
    using assms(2) AppExecute unfolding interferes_def store_moves_def parks_def i_def by fastforce
  from sqlite.resume_step [OF res this [unfolded i_def] assms(1,3)] show ?thesis
    using AppExecute x by (auto simp: w'_def i_def run_app_def executes_def parked_terms_def)
qed

lemma approved_calls_bound:
  fixes b :: BoundApprovalRequest
  assumes "\<not> cc_StrictAuthority (ex_config e)"
  defines "i \<equiv> ap_ApprovalID (bq_approval b)"
  shows "parked_inv cd b (wo_store w) \<Longrightarrow> \<forall>op\<in>set ops. i \<notin> parks op \<Longrightarrow>
    approved_calls cd uni start e i ops w \<in> {[], [(ao_Name (ac_Operation (bq_env b)), CanonicalParams cd (bq_params b))]} \<and>
    (spent i (wo_store w) \<longrightarrow> approved_calls cd uni start e i ops w = [])"
proof (induction ops arbitrary: w)
  case (Cons op ops)
  let ?w = "run_app cd uni start e op w"
  have step: "parked_inv cd b (wo_store ?w)" "spent i (wo_store w) \<longrightarrow> spent i (wo_store ?w)"
    "executes i op \<longrightarrow> new_calls w ?w = [] \<or> \<not> spent i (wo_store w) \<and> spent i (wo_store ?w) \<and>
       new_calls w ?w = [(ao_Name (ac_Operation (bq_env b)), CanonicalParams cd (bq_params b))]"
    using app_step [of cd b w op e uni start] Cons.prems assms(1) unfolding i_def by auto
  have "approved_calls cd uni start e i ops ?w \<in> {[], [(ao_Name (ac_Operation (bq_env b)), CanonicalParams cd (bq_params b))]} \<and>
    (spent i (wo_store ?w) \<longrightarrow> approved_calls cd uni start e i ops ?w = [])"
    using Cons.IH [OF step(1)] Cons.prems(2) by simp
  then show ?case using step(2,3) by auto
qed simp

text \<open>
  C2: An approved action runs at most once, and runs what was parked. Park a request, then let anything
  happen to the store, and let the executor be asked any number of times to execute any approvals, with other
  connections at work during each execution: as long as nobody parks a second request under the same
  id, all executions of this approval together make at most one tool call, and that call is the tool of the parked operation
  with the canonical form of the parked arguments. The executor is one without strict authority: under it an approved
  action starts through \<open>StartApprovedAuthorization\<close>, which is not modelled and of which nothing is said here. And everything
  that touches the store, the other connections included, does so through the operations of the store: a connection
  that writes the parameters back into the table after a claim, which \<open>app/approvals.go\<close> records as an open gap, is not
  among them.
\<close>

theorem approved_action_runs_once:
  assumes "keyed s"
    and "CreateApprovalRequest cd sv b s = (None, s1) \<or> CreateApprovalRequestAuthenticated cd sv b ev s = (None, s1)"
    and "wo_store w = s1" and "\<not> cc_StrictAuthority (ex_config e)"
    and "\<forall>op\<in>set ops. ap_ApprovalID (bq_approval b) \<notin> parks op"
  shows "approved_calls cd uni start e (ap_ApprovalID (bq_approval b)) ops w
    \<in> {[], [(ao_Name (ac_Operation (bq_env b)), CanonicalParams cd (bq_params b))]}"
proof -
  have "keyed s1"
    using assms(2) op_ok_keyed [OF op_ok_Create [of cd b s sv] assms(1)] op_ok_keyed [OF op_ok_CreateAuthenticated [of cd b s sv ev] assms(1)]
    by auto
  then have "parked_inv cd b (wo_store w)" using Create_holds [OF assms(1,2)] assms(3) by (simp add: parked_inv_def)
  from approved_calls_bound [OF assms(4) this assms(5)] show ?thesis by blast
qed

end
