(* ===== verification/Store_Identity.thy ===== *)
theory Store_Identity
  imports Store_Safety
begin

text \<open>
  Identity over the histories of the action store: receipts verify forever under the keys of the registry, the rows of the
  principals follow their signed events, what is recorded with evidence validates later, and a disabled
  principal cannot be resumed.
\<close>

section \<open>Keys and principals over a history\<close>

text \<open>
  C13: Receipts verify forever. Whatever keys are registered and rotated and whatever else happens, a
  ledger that is a chain of receipts each verifying under a registered key stays one: no key is removed or
  replaced, a retired key keeps its public key, and every receipt written since verifies too. At most one key is
  active at a time.
\<close>

theorem receipts_verify_forever:
  assumes "keyed s" and "chain_ok cd (sr_receipts s)" and "ink_ok cd s" and "length (active_keys (sr_keys s)) \<le> 1"
  shows "ink_ok cd (run_ops cd uni ops s) \<and> length (active_keys (sr_keys (run_ops cd uni ops s))) \<le> 1 \<and>
    (\<forall>k pub c r. map_of (sr_keys s) k = Some (pub, c, r) \<longrightarrow>
       (\<exists>r'. map_of (sr_keys (run_ops cd uni ops s)) k = Some (pub, c, r') \<and> (r = None \<or> r' = r)))"
  using run_ops_ledger [OF assms(1), of cd uni ops] assms(2-4)
  unfolding ledger_grows_def registry_moved_def keys_kept_def by blast

text \<open>
  C12: The principals of the registry follow their signed events. In every history each principal's row
  is the principal of its latest event, which verifies under a registered key; who a principal is never changes; and a
  disabled principal stays disabled, with the instant it was disabled at.
\<close>

theorem principals_follow_their_events:
  assumes "keyed s" and "identity_ok cd s" and "map_of (sr_principals s) i = Some p"
  shows "\<exists>p'. map_of (sr_principals (run_ops cd uni ops s)) i = Some p' \<and>
    verifyPrincipalProjectionTx cd (run_ops cd uni ops s) p' = None \<and>
    ip_ID p' = i \<and> ip_Kind p' = ip_Kind p \<and> ip_CreatedAt p' = ip_CreatedAt p \<and> (ip_DisabledAt p \<noteq> 0 \<longrightarrow> p' = p)"
proof -
  let ?t = "run_ops cd uni ops s"
  have t: "identity_ok cd ?t" "principals_kept s ?t"
    using run_ops_ledger [OF assms(1), of cd uni ops] assms(2) by (auto simp: ledger_grows_def registry_moved_def)
  then obtain p' where p': "map_of (sr_principals ?t) i = Some p'" "principal_moved p p'"
    using assms(3) unfolding principals_kept_def by blast
  have "ip_ID p' = i" "verifyPrincipalProjectionTx cd ?t p' = None"
    using t(1) map_of_SomeD [OF p'(1)] by (auto simp: identity_ok_def)
  moreover have "ip_Kind p' = ip_Kind p" "ip_CreatedAt p' = ip_CreatedAt p" "ip_DisabledAt p \<noteq> 0 \<longrightarrow> p' = p"
    using p'(2) unfolding principal_moved_def by (metis id_Principal.select_convs(2,4) id_Principal.surjective id_Principal.update_convs(5,6))+
  ultimately show ?thesis using p'(1) by blast
qed

text \<open>
  C11: A disabled principal cannot be resumed. Once a principal is disabled, then whatever happens later, no
  approval of an action whose signed evidence names it as requester, actor or responsible
  hands out its parameters at or after the instant of the disabling.
\<close>

theorem disabled_principal_cannot_resume:
  assumes "keyed s" and "identity_ok cd s" and "map_of (sr_principals s) i = Some p" and "ip_DisabledAt p \<noteq> 0"
    and "ip_DisabledAt p \<le> sv_identity_now sv" and "i \<noteq> []"
    and "map_of (sr_approvals (run_ops cd uni ops s)) a = Some w"
    and "map_of (sr_actions (run_ops cd uni ops s)) (ap_ActionID (aw_approval w)) = Some row"
    and "cd_parse_evidence cd (bs_Canonical (ar_identity row)) = Some e" and "i \<in> set (evidence_principals e)"
    and "\<not> SnapshotIsLegacy (ar_identity row)"
  shows "\<exists>err. ClaimApprovalParamsUnderDigest cd sv a law dig seen (run_ops cd uni ops s) = (Inl err, run_ops cd uni ops s)"
proof (rule ccontr)
  let ?t = "run_ops cd uni ops s"
  assume "\<not> ?thesis"
  then obtain x op u where "claim_tx cd sv a law dig seen ?t = Inr ((x, op), u)"
    by (auto simp: ClaimApprovalParamsUnderDigest_def transact_def split: option.splits sum.splits)
  with assms(7) have valid: "validateActionIdentityTx cd ?t (ap_ActionID (aw_approval w)) (sv_identity_now sv) = None"
    using claim_tx_Inr by fastforce
  obtain e' where e': "snapshot_evidence cd ?t (ap_ActionID (aw_approval w)) row = Some e'"
    "validateResolvedEvidenceAtTx cd ?t e' (stored_envelope (ap_ActionID (aw_approval w)) row e') (sv_identity_now sv) (sv_identity_now sv) = None"
    using validateActionIdentity_None [OF valid [unfolded validateActionIdentityTx_def] assms(8,11)] by blast
  have "e' = e" using snapshot_evidence_Some [OF e'(1)] assms(9) by simp
  then obtain q where q: "principalTx ?t i = Some q" "ip_DisabledAt q = 0 \<or> sv_identity_now sv < ip_DisabledAt q"
    using validateResolved_None(1) [OF e'(2)] assms(6,10) by blast
  have "principals_kept s ?t"
    using run_ops_ledger [OF assms(1), of cd uni ops] assms(2) by (auto simp: ledger_grows_def registry_moved_def)
  then have "q = p" using assms(3,4) q(1) unfolding principals_kept_def principal_moved_def principalTx_def by (metis option.inject)
  with q(2) assms(4,5) show False by simp
qed

lemma validate_frame:
  assumes "sr_keys s' = sr_keys s" and "sr_principals s' = sr_principals s" and "sr_principal_events s' = sr_principal_events s"
    and "sr_bindings s' = sr_bindings s"
  shows "validateResolvedEvidenceAtTx cd s' e env asked now = validateResolvedEvidenceAtTx cd s e env asked now"
proof -
  have "check_evidence_principals cd s' now is = check_evidence_principals cd s now is" for "is"
    by (induction "is") (simp_all add: principalTx_def assms(2) verify_frame [OF assms(1,3)] split: option.splits)
  then show ?thesis unfolding validateResolvedEvidenceAtTx_def by (simp only: assms(4))
qed

lemma signEvidenceTx_Inr:
  assumes "signEvidenceTx cd e s = Inr g"
  shows "sg_Evidence g = e \<and> sg_Canonical g = CanonicalEvidence e \<and>
    (\<exists>pub. publicKeyTx s (sg_SigningKeyID g) = Inr (pub, False) \<and> VerifyEvidence cd pub g = None)"
  using assms by (auto simp: signEvidenceTx_def Let_def split: option.splits if_splits sum.splits)

lemma find_append_none: "find P xs = None \<Longrightarrow> find P (xs @ ys) = find P ys"
  by (induction xs) (auto split: if_splits)

text \<open>The rows an authenticated action is born with.\<close>

lemma authenticated_born:
  assumes "insert_authenticated cd sv env state refs d e s = Inr s'"
  shows "\<exists>g row. signEvidenceTx cd e s = Inr g \<and> map_of (sr_actions s') (ac_ActionID env) = Some row \<and> ar_env row = env \<and>
    ar_identity row = snapshot_of g \<and> principal_column row = ev_ActorPrincipalID e \<and> readEvidenceTx s' (ac_ActionID env) = Inr g \<and>
    validateResolvedEvidenceTx cd s e env (sv_identity_now sv) = None"
    and "sr_keys s' = sr_keys s" and "sr_principals s' = sr_principals s" and "sr_principal_events s' = sr_principal_events s"
    and "sr_bindings s' = sr_bindings s"
proof -
  obtain u g where g: "signEvidenceTx cd e s = Inr g" and v: "validateResolvedEvidenceTx cd s e env (sv_identity_now sv) = None"
    and u: "insert_action env state (Some (ev_ActorPrincipalID e)) (nullable (ac_IntentID env)) refs None (snapshot_of g) d s = Inr u"
    and s': "s' = u\<lparr>sr_identity := sr_identity u @ [(ev_EvidenceID (sg_Evidence g), g)]\<rparr>"
    using insert_authenticated_Inr [OF assms] by blast
  have e: "sg_Evidence g = e" using signEvidenceTx_Inr [OF g] by blast
  show "sr_keys s' = sr_keys s" "sr_principals s' = sr_principals s" "sr_principal_events s' = sr_principal_events s"
    "sr_bindings s' = sr_bindings s" using u s' by (auto simp: insert_action_def split: if_splits)
  have id: "ev_ActionID e = ac_ActionID env" using validateResolved_None(4) v unfolding validateResolvedEvidenceTx_def by blast
  have "ev_ActionID e \<notin> (\<lambda>(_, g'). ev_ActionID (sg_Evidence g')) ` set (sr_identity s)" "sr_identity u = sr_identity s"
    using assms u g v e by (auto simp: insert_authenticated_def insertEvidenceTx_def evidence_row_admitted_def Let_def insert_action_def
        split: if_splits)
  then have "find (\<lambda>(_, g'). ev_ActionID (sg_Evidence g') = ac_ActionID env) (sr_identity u) = None"
    using id by (force simp: find_None_iff)
  then have "find (\<lambda>(_, g'). ev_ActionID (sg_Evidence g') = ac_ActionID env) (sr_identity s') = Some (ev_EvidenceID e, g)"
    using s' e id find_append_none by force
  then have read: "readEvidenceTx s' (ac_ActionID env) = Inr g" by (simp add: readEvidenceTx_def)
  have "\<exists>row. map_of (sr_actions s') (ac_ActionID env) = Some row \<and> ar_env row = env \<and> ar_identity row = snapshot_of g \<and>
      principal_column row = ev_ActorPrincipalID e"
    using u s' by (auto simp: insert_action_def map_add_def principal_column_def split: if_splits)
  with g read v show "\<exists>g row. signEvidenceTx cd e s = Inr g \<and> map_of (sr_actions s') (ac_ActionID env) = Some row \<and> ar_env row = env \<and>
    ar_identity row = snapshot_of g \<and> principal_column row = ev_ActorPrincipalID e \<and> readEvidenceTx s' (ac_ActionID env) = Inr g \<and>
    validateResolvedEvidenceTx cd s e env (sv_identity_now sv) = None" by blast
qed

lemma born_snapshot:
  assumes "signEvidenceTx cd e s = Inr g" and "ar_identity row = snapshot_of g" and "principal_column row = ev_ActorPrincipalID e"
    and "\<forall>pub m. \<not> cd_ed25519_Verify cd pub m []" and "sr_keys s' = sr_keys s"
  shows "snapshot_evidence cd s' (ev_ActionID e) row = Some e"
proof -
  obtain pub where e: "sg_Evidence g = e" "sg_Canonical g = CanonicalEvidence e" and key: "publicKeyTx s (sg_SigningKeyID g) = Inr (pub, False)"
    and ok: "VerifyEvidence cd pub g = None"
    using signEvidenceTx_Inr [OF assms(1)] by blast
  have verify: "verifyDomain cd pub evidenceDomain (sg_Canonical g) (sg_Signature g)" "sg_SigningKeyID g = SigningKeyID cd pub"
    "sg_Digest g = identity_hash cd (sg_Canonical g)" "cd_parse_evidence cd (sg_Canonical g) = Some e"
    using ok e by (auto simp: VerifyEvidence_def split: if_splits)
  have full: "sg_Signature g \<noteq> []" "sg_SigningKeyID g \<noteq> []" "sg_Digest g \<noteq> []" "sg_Canonical g \<noteq> []"
    using verify assms(4) e(2) by (auto simp: verifyDomain_def SigningKeyID_def identity_hash_def CanonicalEvidence_def json_object_def)
  have "signed_of_snapshot (snapshot_of g) e = g" using e by (simp add: signed_of_snapshot_def snapshot_of_def)
  moreover have "publicKeyTx s' = publicKeyTx s" by (rule publicKeyTx_cong [OF assms(5)])
  moreover have "bs_Canonical (snapshot_of g) = sg_Canonical g" "bs_Version (snapshot_of g) = 2" "bs_Digest (snapshot_of g) = sg_Digest g"
    "bs_SigningKeyID (snapshot_of g) = sg_SigningKeyID g" "bs_Signature (snapshot_of g) = sg_Signature g"
    by (simp_all add: snapshot_of_def)
  ultimately show ?thesis using full verify(4) key ok assms(2,3) by (simp add: snapshot_evidence_def Let_def)
qed

lemma authenticated_validates:
  assumes "insert_authenticated cd sv env state refs d e s = Inr s'" and "\<forall>pub m. \<not> cd_ed25519_Verify cd pub m []"
  shows "validateActionIdentityTx cd s' (ac_ActionID env) (sv_identity_now sv) = None"
    "validateActionIdentityV2Tx cd s' (ac_ActionID env) (sv_identity_now sv) = Inr e"
    "\<exists>t. identityReceiptTermsTx cd s' (ac_ActionID env) False = Inr t \<and> ri_status t = ''verified'' \<and>
       ri_requester t = ev_RequesterPrincipalID e \<and> ri_actor t = ev_ActorPrincipalID e \<and>
       ri_responsible t = ev_ResponsiblePrincipalID e"
proof -
  obtain g row where g: "signEvidenceTx cd e s = Inr g" and row: "map_of (sr_actions s') (ac_ActionID env) = Some row" "ar_env row = env"
    "ar_identity row = snapshot_of g" "principal_column row = ev_ActorPrincipalID e" and read: "readEvidenceTx s' (ac_ActionID env) = Inr g"
    and v: "validateResolvedEvidenceAtTx cd s e env (sv_identity_now sv) (sv_identity_now sv) = None"
    using authenticated_born(1) [OF assms(1)] unfolding validateResolvedEvidenceTx_def by blast
  note frame = authenticated_born(2-5) [OF assms(1)]
  note ids = validateResolved_None(4-6) [OF v]
  have snap: "snapshot_evidence cd s' (ac_ActionID env) row = Some e"
    using born_snapshot [OF g row(3,4) assms(2) frame(1)] ids(1) by simp
  have same: "signed_of_snapshot (ar_identity row) e = g"
    using signEvidenceTx_Inr [OF g] row(3) by (simp add: signed_of_snapshot_def snapshot_of_def)
  have notlegacy: "\<not> SnapshotIsLegacy (ar_identity row)" by (simp add: row(3) snapshot_of_def SnapshotIsLegacy_def)
  have "validateResolvedEvidenceAtTx cd s e (stored_envelope (ac_ActionID env) row e) (sv_identity_now sv) (sv_identity_now sv) = None"
    using v row(2,4) ids by (simp add: validateResolvedEvidenceAtTx_def stored_envelope_def split: if_splits)
  then have "validateResolvedEvidenceAtTx cd s' e (stored_envelope (ac_ActionID env) row e) (sv_identity_now sv) (sv_identity_now sv) = None"
    using validate_frame [OF frame] by simp
  then have valid: "validateActionIdentityTx cd s' (ac_ActionID env) (sv_identity_now sv) = None"
    using snap same notlegacy read row(1) validateResolved_None(3) [OF v]
    by (simp add: validateActionIdentityTx_def validateActionIdentityAtTx_def actionSnapshotTx_def)
  then show "validateActionIdentityTx cd s' (ac_ActionID env) (sv_identity_now sv) = None" .
  have "sg_Evidence g = e" using signEvidenceTx_Inr [OF g] by blast
  then show "validateActionIdentityV2Tx cd s' (ac_ActionID env) (sv_identity_now sv) = Inr e"
    using valid notlegacy read row(1)
    by (simp add: validateActionIdentityV2Tx_def validateActionIdentityV2AtTx_def validateActionIdentityTx_def actionSnapshotTx_def)
  show "\<exists>t. identityReceiptTermsTx cd s' (ac_ActionID env) False = Inr t \<and> ri_status t = ''verified'' \<and>
       ri_requester t = ev_RequesterPrincipalID e \<and> ri_actor t = ev_ActorPrincipalID e \<and>
       ri_responsible t = ev_ResponsiblePrincipalID e"
    using snap notlegacy row(1) by (simp add: identityReceiptTermsTx_def actionSnapshotTx_def)
qed

text \<open>
  C14: What is recorded with evidence validates. When an action is recorded with the evidence of its
  requester, the evidence was valid at that instant, and reading it back gives it: the action's stored identity passes the
  validation every later door makes, and its receipt names the requester, the actor and the responsible of
  that evidence as verified. An empty signature verifies under no key.
\<close>

theorem authenticated_record_validates:
  assumes "insert_authenticated cd sv env state refs d e s = Inr s'" and "\<forall>pub m. \<not> cd_ed25519_Verify cd pub m []"
  shows "validateActionIdentityTx cd s' (ac_ActionID env) (sv_identity_now sv) = None \<and>
    (\<exists>t. identityReceiptTermsTx cd s' (ac_ActionID env) False = Inr t \<and> ri_status t = ''verified'' \<and>
       ri_requester t = ev_RequesterPrincipalID e \<and> ri_actor t = ev_ActorPrincipalID e \<and>
       ri_responsible t = ev_ResponsiblePrincipalID e)"
  using authenticated_validates [OF assms] by blast

end
