(* ===== verification/Store_Samples.thy ===== *)
theory Store_Samples
  imports Store_Identity
begin

text \<open>
  Concrete stores on which the theorems of the action store are applied: a store that parks a request, decides it and
  hands its parameters out, one with a closed action, and one with a sealer.
\<close>

definition quiet_env :: store_env where
  "quiet_env = \<lparr>sv_tx = None, sv_receipt_id = (\<lambda>n. ''rcpt_'' @ decimal (int n)), sv_event_id = (\<lambda>n. ''pev_'' @ decimal (int n)), sv_now = 120,
     sv_identity_now = 120, sv_prune = None,
     sv_sweep_read = None, sv_row_fault = (\<lambda>_. None)\<rparr>"

definition bare_store :: Store where
  "bare_store = \<lparr>sr_actions = [], sr_decisions = [], sr_evidence = [], sr_approvals = [], sr_tombstones = [],
     sr_receipts = [], sr_keys = [], sr_principals = [], sr_principal_events = [], sr_bindings = [], sr_identity = [],
     sr_intents = Map.empty, sr_sealer = None, sr_evidenceSigner = None, sr_eventSigner = None, sr_capRows = 100, sr_pruneEvery = 50,
     sr_writes = 0\<rparr>"

definition parked_request :: BoundApprovalRequest where
  "parked_request = \<lparr>bq_env = sample_parked, bq_approval = bound_approval plain_codec sample_parked sample_context sample_approval_id,
     bq_preview = bound_preview sample_parked sample_context, bq_params = ''{}''\<rparr>"

definition parked_row :: approval_row where
  "parked_row = \<lparr>aw_approval = bq_approval parked_request, aw_preview = bq_preview parked_request, aw_params = ''{}'', aw_required = False\<rparr>"

definition parked_action :: action_row where
  "parked_action = \<lparr>ar_env = sample_parked, ar_state = StatePendingApproval, ar_recovery_marker = '''', ar_finished_at = None,
     ar_principal_id = nullable (pf_PrincipalID (ac_Principal sample_parked)),
     ar_intent_id = nullable (ac_IntentID sample_parked), ar_authority_refs = [], ar_identity = legacy_snapshot\<rparr>"

definition parked_decision :: store_Decision where
  "parked_decision = \<lparr>dc_Outcome = ''require_approval'', dc_Rule = ''require_approval'', dc_PolicyVersion = 3, dc_PolicyDigest = ''law''\<rparr>"

definition parked_store :: Store where
  "parked_store = bare_store\<lparr>sr_actions := [(''act_9'', parked_action)], sr_decisions := [(''act_9'', parked_decision)],
     sr_approvals := [(sample_approval_id, parked_row)], sr_writes := 1\<rparr>"

lemma sample_fields [simp]:
  "ap_ApprovalID (bq_approval parked_request) = sample_approval_id" "ap_ActionID (bq_approval parked_request) = ''act_9''"
  "ap_Status (bq_approval parked_request) = ApprovalPending" "ap_ExpiresAt (bq_approval parked_request) = 150"
  "ap_PolicyVersion (bq_approval parked_request) = 3" "ap_PolicyDigest (bq_approval parked_request) = ''law''"
  "ap_Reason (bq_approval parked_request) = ''require_approval''"
  "ap_ActionDigest (bq_approval parked_request) = ac_ParametersDigest sample_parked"
  "bq_env parked_request = sample_parked" "bq_params parked_request = ''{}''"
  "av_ActionID (bq_preview parked_request) = ''act_9''" "ac_ActionID sample_parked = ''act_9''"
  "Digest plain_codec (ac_Operation sample_parked) ''{}'' = ac_ParametersDigest sample_parked"
  by (simp_all add: parked_request_def bound_approval_def bound_preview_def sample_parked_def sample_context_def NewEnvelope_def)

lemma sample_binding [simp]:
  "ValidatePreviewBinding plain_codec (bq_approval parked_request) (bq_preview parked_request) = None"
  by (simp add: parked_request_def bound_binding)

lemma sample_row: "new_approval_row plain_codec (bq_approval parked_request) (bq_preview parked_request) ''{}'' = parked_row"
proof -
  have "sortedSet (av_Resources (bq_preview parked_request)) = av_Resources (bq_preview parked_request)"
    by (simp add: parked_request_def bound_preview_def sortedSet_def sort_by_def)
  moreover have "CanonicalParams plain_codec ''{}'' = ''{}''" by (simp add: CanonicalParams_def plain_codec_def)
  ultimately show ?thesis
    by (simp add: new_approval_row_def parked_row_def) (simp add: parked_request_def bound_approval_def)
qed

lemma sample_parks: "CreateApprovalRequest plain_codec quiet_env parked_request bare_store = (None, parked_store)"
  by (simp add: CreateApprovalRequest_def Let_def createApprovalParts_def createApprovalPartsWithIdentity_def gate_decision_def park_action_def insert_approval_def
      sample_row maxApprovalParamsBytes_def committed_def
      transact_def quiet_env_def insert_action_def noteWrite_def approval_of_action_def parked_store_def bare_store_def
      parked_action_def parked_decision_def)

definition operator_act :: action_Envelope where
  "operator_act = NewEnvelope plain_codec ''act_op'' ''m2'' \<lparr>so_Kind = ''operator'', so_Protocol = ''http'', so_Channel = ''''\<rparr>
     \<lparr>ao_Namespace = ''operator'', ao_Name = ''approve'', ao_Version = 1\<rparr> ''{}'' 120"

definition operator_identity :: AttemptIdentity where
  "operator_identity = \<lparr>ai_PrincipalID = ''prn_operator'', ai_IntentID = '''', ai_AuthorityRefs = [], ai_Evidence =
     \<lparr>ie_EvidenceID = ''ev'', ie_Provider = '''', ie_Subject = '''', ie_Credential = CredentialLoopbackInProcess, ie_IssuedAt = 0,
      ie_TransportBinding = '''', ie_ClaimsDigest = ''''\<rparr>\<rparr>"

definition approve_op :: store_op where
  "approve_op = OpDecide quiet_env sample_approval_id DecisionApproved 120 operator_act operator_identity ''''
     (Some \<lparr>pn_Version = 3, pn_Digest = ''law''\<rparr>)"

definition claim_op :: store_op where
  "claim_op = OpClaim quiet_env sample_approval_id None (ac_ParametersDigest sample_parked) None"


lemma act_fields [simp]: "ac_ActionID operator_act = ''act_op''" "ac_ActionID (operator_act\<lparr>ac_RequestedAt := t\<rparr>) = ''act_op''"
  by (simp_all add: operator_act_def NewEnvelope_def)

lemma sample_not_strict: "\<not> IsStrictApprovalID sample_approval_id"
  by (simp add: IsStrictApprovalID_def sample_approval_id_def HasPrefix_def)

lemma sample_story:
  assumes "map_of (sr_actions s) ''act_9'' = Some row" and "ar_env row = sample_parked"
    and "ar_principal_id row = ar_principal_id parked_action" and "map_of (sr_decisions s) ''act_9'' = Some parked_decision"
  shows "verifyApprovalStoryTyped s (bq_approval parked_request) (bq_preview parked_request) = None"
  using assms
  by (simp add: verifyApprovalStoryTyped_def parked_decision_def parked_action_def Let_def)
    (simp add: parked_request_def bound_preview_def principal_column_def storedEffectClassInDomain_def effect_defs nullable_def sample_parked_def)

definition operator_row :: action_row where
  "operator_row = \<lparr>ar_env = operator_act\<lparr>ac_RequestedAt := 120\<rparr>, ar_state = StateSucceeded, ar_recovery_marker = '''',
     ar_finished_at = Some 120, ar_principal_id = Some ''prn_operator'', ar_intent_id = None, ar_authority_refs = [],
     ar_identity = legacy_snapshot\<rparr>"

definition approved_row :: approval_row where
  "approved_row = parked_row\<lparr>aw_approval := (seal_decision ''prn_operator'' DecisionApproved 120 (bq_approval parked_request))
     \<lparr>ap_Status := ApprovalApproved, ap_Comment := [], ap_DecisionReceiptID := ''rcpt_'' @ decimal 0\<rparr>\<rparr>"

definition approved_store :: Store where
  "approved_store = parked_store\<lparr>sr_actions := [(''act_9'', parked_action\<lparr>ar_state := StateApproved\<rparr>), (''act_op'', operator_row)],
     sr_decisions := [(''act_9'', parked_decision), (''act_op'', \<lparr>dc_Outcome = ''allow'', dc_Rule = ''operator'', dc_PolicyVersion = 0, dc_PolicyDigest = ''''\<rparr>)],
     sr_approvals := [(sample_approval_id, approved_row)],
     sr_tombstones := [(sample_approval_id, tombstone_of plain_codec (seal_decision ''prn_operator'' DecisionApproved 120 (bq_approval parked_request)))]\<rparr>"

lemma sample_consumed:
  "consume_approval plain_codec quiet_env (bq_approval parked_request) DecisionApproved 120 operator_act operator_identity '''' parked_store =
   Inr ('''', approved_store)"
  by (simp add: consume_approval_def recordDecisionActTx_def insert_action_def append_receipt_def appendReceiptTx_def Let_def
      parked_store_def bare_store_def approved_store_def operator_identity_def nullable_def receiptForRecord_def identityReceiptTermsTx_def actionSnapshotTx_def
      SnapshotIsLegacy_iff no_identity_terms_def seal_identity_def new_receipt_def bare_receipt_def quiet_env_def tombstoneTx_def judgeTombstoneOrigin_def IsHumanDecision_def DecisionApproved_def DecisionClock_def
      update_approval_def update_action_def transitionTx_def Transition_def transitions_def parked_action_def operator_row_def
      approved_row_def parked_row_def decided_status_def seal_decision_def)

lemma sample_decided:
  "decideApprovalWithLaw plain_codec quiet_env sample_approval_id DecisionApproved 120 operator_act operator_identity ''''
      (Some \<lparr>pn_Version = 3, pn_Digest = ''law''\<rparr>) parked_store = (Inr '''', approved_store)"
proof -
  have row: "approvalTx parked_store sample_approval_id = Inr parked_row" by (simp add: approvalTx_def parked_store_def)
  have story: "verifyApprovalStoryTyped parked_store (bq_approval parked_request) (bq_preview parked_request) = None"
    by (rule sample_story [of _ parked_action]) (simp_all add: parked_store_def parked_action_def)
  have "decide_tx plain_codec quiet_env sample_approval_id DecisionApproved 120 operator_act operator_identity ''''
      (Some \<lparr>pn_Version = 3, pn_Digest = ''law''\<rparr>) parked_store = Inr ('''', approved_store)"
    unfolding decide_tx_def row
    by (simp add: Let_def strictMarkerTx_def parked_row_def sample_not_strict story ApprovalConsumableAt_def
        ValidateApprovalBinding_def RuleApprovalAlreadyDecided_def sample_consumed)
  then show ?thesis
    by (simp add: decideApprovalWithLaw_def IsHumanDecision_def DecisionApproved_def judgeTombstoneOrigin_def DecisionClock_def
        operator_identity_def transact_def quiet_env_def)
qed

lemma sealed_story:
  "ValidatePreviewBinding cd ((seal_decision p d t a)\<lparr>ap_Status := st, ap_Comment := c, ap_DecisionReceiptID := r\<rparr>) pv =
     ValidatePreviewBinding cd a pv"
  "verifyApprovalStoryTyped s ((seal_decision p d t a)\<lparr>ap_Status := st, ap_Comment := c, ap_DecisionReceiptID := r\<rparr>) pv =
     verifyApprovalStoryTyped s a pv"
  by (simp_all add: ValidatePreviewBinding_def verifyApprovalStoryTyped_def seal_decision_def cong: if_cong option.case_cong split del: if_split)

lemma approved_fields:
  "ap_ApprovalID (aw_approval approved_row) = sample_approval_id" "ap_ActionID (aw_approval approved_row) = ''act_9''"
  "ap_Status (aw_approval approved_row) = ApprovalApproved" "aw_params approved_row = ''{}''" "\<not> aw_required approved_row"
  "ap_PolicyVersion (aw_approval approved_row) = 3" "ap_PolicyDigest (aw_approval approved_row) = ''law''"
  by (simp_all add: approved_row_def parked_row_def seal_decision_def)

lemma approved_reads:
  "approvalTx approved_store sample_approval_id = Inr approved_row"
  "ValidatePreviewBinding plain_codec (aw_approval approved_row) (aw_preview approved_row) = None"
  "verifyApprovalStoryTyped approved_store (aw_approval approved_row) (aw_preview approved_row) = None"
proof -
  show "approvalTx approved_store sample_approval_id = Inr approved_row" by (simp add: approvalTx_def approved_store_def)
  have same: "ValidatePreviewBinding plain_codec (aw_approval approved_row) (aw_preview approved_row) = None"
    "verifyApprovalStoryTyped approved_store (aw_approval approved_row) (aw_preview approved_row) =
     verifyApprovalStoryTyped approved_store (bq_approval parked_request) (bq_preview parked_request)"
    by (simp_all add: approved_row_def parked_row_def sealed_story)
  show "ValidatePreviewBinding plain_codec (aw_approval approved_row) (aw_preview approved_row) = None" by (rule same(1))
  show "verifyApprovalStoryTyped approved_store (aw_approval approved_row) (aw_preview approved_row) = None"
    unfolding same(2)
    by (rule sample_story [of _ "parked_action\<lparr>ar_state := StateApproved\<rparr>"]) (simp_all add: approved_store_def parked_action_def)
qed

lemma sample_claim_tx:
  assumes "law \<in> {None, Some \<lparr>pn_Version = 3, pn_Digest = ''law''\<rparr>}" and "seen \<in> {None, Some (aw_approval approved_row)}"
  shows "\<exists>s. claim_tx plain_codec quiet_env sample_approval_id law (ac_ParametersDigest sample_parked) seen approved_store =
      Inr ((''{}'', ac_Operation sample_parked), s)"
proof -
  have terna: "ternaOf approved_store ''act_9'' = Inr (ac_Operation sample_parked, StateApproved)"
    by (simp add: ternaOf_def approved_store_def parked_action_def known_state_def)
  have legacy: "validateActionIdentityTx plain_codec approved_store ''act_9'' (sv_identity_now quiet_env) = None"
    by (simp add: validateActionIdentityTx_def validateActionIdentityAtTx_def actionSnapshotTx_def approved_store_def
        parked_action_def SnapshotIsLegacy_iff)
  show ?thesis
    unfolding claim_tx_def approved_reads(1) using assms
    by (auto simp: Let_def strictMarkerTx_def sample_not_strict approved_reads(2,3) approved_fields terna legacy claimAuthorityTx_def
        approvalRowMoved_def ValidateApprovalBinding_def)
qed

lemma sample_claimed:
  "fst (ClaimApprovalParamsUnderDigest plain_codec quiet_env sample_approval_id None (ac_ParametersDigest sample_parked) None approved_store) =
   Inr (''{}'', ac_Operation sample_parked)"
  using sample_claim_tx [of None None] by (auto simp: ClaimApprovalParamsUnderDigest_def transact_def quiet_env_def)

lemma bare_keyed: "keyed bare_store" by (simp add: keyed_def bare_store_def)

lemma parked_keyed: "keyed parked_store"
  by (simp add: keyed_def parked_store_def refers_def parked_row_def)

theorem claimed_as_parked_witness:
  "CreateApprovalRequest plain_codec quiet_env parked_request bare_store = (None, parked_store) \<and>
   fst (ClaimApprovalParamsUnderDigest plain_codec quiet_env sample_approval_id None (ac_ParametersDigest sample_parked) None
     (run_ops plain_codec (\<lambda>x. x) [approve_op] parked_store)) = Inr (''{}'', ac_Operation sample_parked) \<and>
   ''{}'' = CanonicalParams plain_codec (bq_params parked_request)"
proof -
  have run: "run_ops plain_codec (\<lambda>x. x) [approve_op] parked_store = approved_store"
    by (simp add: run_ops_def approve_op_def sample_decided)
  have "''{}'' = CanonicalParams plain_codec (bq_params parked_request) \<and> ac_Operation sample_parked = ac_Operation (bq_env parked_request)"
    by (rule claimed_as_parked [OF bare_keyed sample_parks, where ops = "[approve_op]" and uni = "\<lambda>x. x" and sv' = quiet_env
          and law = None and seen = None and dig = "ac_ParametersDigest sample_parked"])
      (simp_all add: approve_op_def [of] run [unfolded approve_op_def] sample_claimed)
  then show ?thesis using sample_parks run sample_claimed by simp
qed

theorem claimed_at_most_once_witness:
  "claims plain_codec (\<lambda>x. x) sample_approval_id [approve_op, claim_op, claim_op] parked_store \<le> 1 \<and>
   claimed plain_codec sample_approval_id claim_op approved_store"
proof -
  have "claimed plain_codec sample_approval_id claim_op approved_store"
    by (simp add: claimed_def claim_op_def sample_claimed)
  then show ?thesis
    using claimed_at_most_once [OF parked_keyed, of "[approve_op, claim_op, claim_op]" sample_approval_id plain_codec "\<lambda>x. x"]
    by (simp add: approve_op_def claim_op_def)
qed

theorem approval_decided_once_witness:
  "map_of (sr_approvals parked_store) sample_approval_id = Some parked_row \<and>
   request_terms (aw_approval approved_row) = request_terms (aw_approval parked_row) \<and> aw_params approved_row \<in> {''{}'', []}"
proof -
  have "map_of (sr_approvals parked_store) sample_approval_id = Some parked_row" by (simp add: parked_store_def)
  moreover have "map_of (sr_approvals (run_op plain_codec (\<lambda>x. x) approve_op parked_store)) sample_approval_id = Some approved_row"
    by (simp add: approve_op_def sample_decided approved_store_def)
  ultimately show ?thesis
    using approval_decided_once [OF parked_keyed, of sample_approval_id parked_row plain_codec "\<lambda>x. x" approve_op approved_row]
    by (simp add: parked_row_def)
qed

theorem closed_actions_final_witness:
  "Terminal (ar_state operator_row) \<and>
   (map_of (sr_actions (run_op plain_codec (\<lambda>x. x) (OpFinish quiet_env ''act_op'' StateFailed 130 []) approved_store)) ''act_op'' = Some operator_row \<or>
    map_of (sr_actions (run_op plain_codec (\<lambda>x. x) (OpFinish quiet_env ''act_op'' StateFailed 130 []) approved_store)) ''act_op'' = None)"
proof -
  have "keyed approved_store"
    by (simp add: keyed_def approved_store_def refers_def approved_row_def parked_row_def seal_decision_def)
  moreover have "map_of (sr_actions approved_store) ''act_op'' = Some operator_row" by (simp add: approved_store_def)
  moreover have "Terminal (ar_state operator_row)" by (simp add: operator_row_def Terminal_def)
  ultimately show ?thesis by (intro conjI closed_actions_final)
qed

theorem ledger_append_only_witness:
  "chain_ok flat_codec (sr_receipts (run_ops flat_codec (\<lambda>x. x) [OpPrune quiet_env] (bare_store\<lparr>sr_receipts := [sample_receipt]\<rparr>))) \<and>
   (\<exists>rs. sr_receipts (run_ops flat_codec (\<lambda>x. x) [OpPrune quiet_env] (bare_store\<lparr>sr_receipts := [sample_receipt]\<rparr>)) = [sample_receipt] @ rs)"
  using ledger_append_only [of "bare_store\<lparr>sr_receipts := [sample_receipt]\<rparr>" flat_codec "\<lambda>x. x" "[OpPrune quiet_env]"] sample_chain
  by (simp add: keyed_def bare_store_def)

definition seal_codec :: codec where
  "seal_codec = flat_codec\<lparr>cd_ed25519_Verify := (\<lambda>pub msg sig. True)\<rparr>"

definition seal_pub :: string where "seal_pub = replicate 32 (byte 0)"

definition sealed_store :: Store where
  "sealed_store = bare_store\<lparr>sr_actions := [(''act_9'', parked_action\<lparr>ar_state := StateAuthorized\<rparr>)], sr_decisions := [(''act_9'', parked_decision)],
     sr_sealer := Some (\<lambda>r. r\<lparr>rt_SigningKeyID := SigningKeyID seal_codec seal_pub, rt_Signature := ''00''\<rparr>),
     sr_keys := [(SigningKeyID seal_codec seal_pub, replicate 64 (CHR ''0''), 0, None)]\<rparr>"

lemma seal_key: "hex_decode (replicate 64 (CHR ''0'')) = Some seal_pub" "hex_decode ''00'' = Some [byte 0]"
  by (simp_all add: seal_pub_def hex_value_def numeral_eq_Suc)

lemma hash_ignores_seal:
  "ComputeReceiptHash cd (r\<lparr>rt_ReceiptHash := h, rt_SigningKeyID := k, rt_Signature := g\<rparr>) = ComputeReceiptHash cd r"
  by (simp add: ComputeReceiptHash_def CanonicalReceipt_def receipt_head_def receipt_tail_def)

lemma sealed_append:
  assumes "rs = []" and "keys = [(SigningKeyID seal_codec seal_pub, replicate 64 (CHR ''0''), 0, None)]"
  shows "\<exists>r'. appendReceiptTx seal_codec (Some (\<lambda>r. r\<lparr>rt_SigningKeyID := SigningKeyID seal_codec seal_pub, rt_Signature := ''00''\<rparr>)) keys r rs = Inr [r']"
proof -
  have key: "SigningKeyID seal_codec seal_pub \<noteq> []" "Cut (SigningKeyID seal_codec seal_pub) (CHR '':'') = (''ed25519'', replicate 16 (CHR ''a''), True)"
    by (simp_all add: SigningKeyID_def seal_codec_def flat_codec_def numeral_eq_Suc Cut_def)
  have verify: "VerifyReceiptSignature seal_codec seal_pub (x\<lparr>rt_SigningKeyID := SigningKeyID seal_codec seal_pub, rt_Signature := ''00''\<rparr>) = None" for x
    using key(2) seal_key(2) by (simp add: VerifyReceiptSignature_def seal_codec_def)
  have len: "length seal_pub = 32" by (simp add: seal_pub_def)
  show ?thesis
    using assms key(1) seal_key(1) verify hash_ignores_seal len
    by (simp add: appendReceiptTx_def Let_def)
qed

definition early_store :: Store where
  "early_store = parked_store\<lparr>sr_approvals := [(sample_approval_id, parked_row\<lparr>aw_approval := (bq_approval parked_request)\<lparr>ap_ExpiresAt := 5500000000\<rparr>\<rparr>)],
     sr_sealer := sr_sealer sealed_store, sr_keys := sr_keys sealed_store\<rparr>"

lemma early_swept:
  "\<exists>s'. sweepExpiredOne seal_codec quiet_env sample_approval_id at early_store = Inr (True, s')"
proof -
  have append: "\<exists>s'. (case append_receipt seal_codec r s of Inl e \<Rightarrow> Inl e | Inr s2 \<Rightarrow> Inr (True, s2)) = Inr (True, s')"
    if "sr_sealer s = sr_sealer sealed_store" "sr_keys s = sr_keys sealed_store" "sr_receipts s = []" for r s
    using sealed_append [of "[]" _ r] that by (auto simp: append_receipt_def sealed_store_def)
  show ?thesis
    by (simp add: sweepExpiredOne_def approvalTx_def closeApprovalTx_def Let_def tombstoneTx_def judgeTombstoneOrigin_def
        rejectParkedActionTx_def transitionTx_def Transition_def transitions_def receiptForFinish_def
        identityReceiptTermsTx_def actionSnapshotTx_def early_store_def parked_store_def bare_store_def parked_action_def
        parked_row_def SnapshotIsLegacy_iff)
      (rule append; simp)
qed

theorem sweep_closes_early_witness:
  "\<exists>s'. SweepExpiredApprovals seal_codec quiet_env 5000000000 early_store = ((1, 0, None), s') \<and>
     ApprovalConsumableAt ((bq_approval parked_request)\<lparr>ap_ExpiresAt := 5500000000\<rparr>) 5000000000 = [] \<and>
     (\<exists>w'. map_of (sr_approvals s') sample_approval_id = Some w' \<and> ap_Status (aw_approval w') = ApprovalExpired \<and> aw_params w' = [])"
proof -
  let ?w = "parked_row\<lparr>aw_approval := (bq_approval parked_request)\<lparr>ap_ExpiresAt := 5500000000\<rparr>\<rparr>"
  have row: "map_of (sr_approvals early_store) sample_approval_id = Some ?w" "ap_Status (aw_approval ?w) = ApprovalPending"
    "ap_ExpiresAt (aw_approval ?w) = 1000000000 * 5 + 500000000"
    by (simp_all add: early_store_def)
  have keyed: "keyed early_store" by (simp add: keyed_def early_store_def parked_store_def refers_def parked_row_def)
  have sel: "sweep_selects 5000000000 ?w" using sweep_selects_early [OF row(2,3)] by simp
  obtain s' where s': "sweepExpiredOne seal_codec quiet_env sample_approval_id 5000000000 early_store = Inr (True, s')"
    using early_swept by blast
  have run: "SweepExpiredApprovals seal_codec quiet_env (1000000000 * 5) early_store = ((1, 0, None), s')"
    using s' sel by (simp add: SweepExpiredApprovals_def) (simp add: early_store_def quiet_env_def)
  show ?thesis
    using sweep_closes_early [OF keyed row _ _ run] run by (simp add: quiet_env_def)
qed

lemma sealed_finish:
  "fst (store_FinishWithResult seal_codec (\<lambda>x. x) quiet_env ''act_9'' StateSucceeded 130 ''sha256:r'' sealed_store) = None"
proof -
  let ?t = "update_action ''act_9'' (\<lambda>row. row\<lparr>ar_state := StateSucceeded, ar_finished_at := Some 130\<rparr>) sealed_store"
  have "\<exists>r. receiptForFinish seal_codec quiet_env ?t ''act_9'' StateSucceeded 130 ''sha256:r'' False True = Inr r"
    by (simp add: receiptForFinish_def identityReceiptTermsTx_def actionSnapshotTx_def SnapshotIsLegacy_iff sealed_store_def
        parked_action_def)
  then obtain r where r: "receiptForFinish seal_codec quiet_env ?t ''act_9'' StateSucceeded 130 ''sha256:r'' False True = Inr r" by blast
  have "\<exists>u. append_receipt seal_codec r ?t = Inr u"
    using sealed_append [of "[]" "sr_keys sealed_store" r] by (auto simp: append_receipt_def sealed_store_def bare_store_def)
  then have "\<exists>u. finishWithResultTx seal_codec quiet_env ''act_9'' StateSucceeded 130 ''sha256:r'' sealed_store = Inr u"
    using r by (simp add: finishWithResultTx_def sealed_store_def Transition_def transitions_def Let_def)
  then show ?thesis
    by (auto simp: store_FinishWithResult_def transact_def quiet_env_def HasPrefix_def ToLower_def ascii_lower_def)
qed

theorem close_is_receipted_witness:
  "\<exists>s' rc. store_FinishWithResult seal_codec (\<lambda>x. x) quiet_env ''act_9'' StateSucceeded 130 ''sha256:r'' sealed_store = (None, s') \<and>
     sr_receipts s' = [rc] \<and> rt_ActionID rc = ''act_9'' \<and> rt_Outcome rc = ''SUCCEEDED''"
proof -
  obtain s' where fin: "store_FinishWithResult seal_codec (\<lambda>x. x) quiet_env ''act_9'' StateSucceeded 130 ''sha256:r'' sealed_store = (None, s')"
    using sealed_finish by (metis prod.collapse)
  have "sr_receipts sealed_store = []" by (simp add: sealed_store_def bare_store_def)
  then show ?thesis
    using close_is_receipted [OF _ _ fin] fin chain_genesis by (auto simp: sealed_store_def State_string_def)
qed

end
