(* ===== verification/Identity_Samples.thy ===== *)
theory Identity_Samples
  imports Store_Samples
begin

text \<open>
  Stores with a registry on which the theorems about identity are applied: one with an enabled and one with a
  disabled principal, each with its signed event, and an action recorded with evidence.
\<close>

definition sample_worker :: id_Principal where
  "sample_worker = \<lparr>ip_ID = ''p1'', ip_Kind = PrincipalWorkload, ip_DisplayName = '''', ip_CreatedAt = 100, ip_DisabledAt = 0, ip_Revision = 1\<rparr>"

definition gone_worker :: id_Principal where
  "gone_worker = sample_worker\<lparr>ip_DisabledAt := 110, ip_Revision := 2\<rparr>"

definition worker_event :: "id_Principal \<Rightarrow> PrincipalEvent" where
  "worker_event p = \<lparr>pe_EventID = ''pev_1'', pe_Principal = p, pe_Revision = ip_Revision p,
     pe_Kind = (if ip_DisabledAt p = 0 then ''created'' else ''disabled''), pe_OccurredAt = 100\<rparr>"

definition worker_env :: action_Envelope where
  "worker_env = sample_parked\<lparr>ac_Principal := no_principal\<lparr>pf_PrincipalID := ''p1''\<rparr>\<rparr>"

definition worker_evidence :: Evidence where
  "worker_evidence = \<lparr>ev_EvidenceID = ''ev1'', ev_ActionID = ''act_9'', ev_RequestID = ac_CorrelationID worker_env,
     ev_RequesterPrincipalID = ''p1'', ev_ActorPrincipalID = ''p1'', ev_ResponsiblePrincipalID = '''', ev_BindingID = ''b1'',
     ev_BindingGeneration = 1, ev_AdapterInstanceID = ''a1'', ev_Provider = so_Channel (ac_Source worker_env), ev_Method = ''m'',
     ev_CredentialClass = ''c'', ev_Issuer = ''main'', ev_SubjectNamespace = ''ns'', ev_VerifiedSubject = ''s'', ev_SubjectClaim = ''s'',
     ev_ObservedAt = 100, ev_ExpiresAt = 0, ev_ClaimsDigest = ''d''\<rparr>"

definition worker_binding :: Binding where
  "worker_binding = \<lparr>bi_ID = ''b1'', bi_Provider = so_Channel (ac_Source worker_env), bi_Channel = ''main'', bi_CredentialRef = ''TOKEN'',
     bi_SubjectNamespace = ''ns'', bi_VerifiedSubject = ''s'', bi_PrincipalID = ''p1'', bi_Generation = 1, bi_Status = BindingActive\<rparr>"

definition id_codec :: "id_Principal \<Rightarrow> codec" where
  "id_codec p = seal_codec\<lparr>cd_ed25519_Verify := (\<lambda>pub m sig. sig \<noteq> []), cd_parse_event := (\<lambda>_. Some (worker_event p)),
     cd_parse_evidence := (\<lambda>_. Some worker_evidence)\<rparr>"

definition id_store :: "id_Principal \<Rightarrow> Store" where
  "id_store p = bare_store\<lparr>sr_keys := [(SigningKeyID seal_codec seal_pub, replicate 64 (CHR ''0''), 0, None)], sr_principals := [(''p1'', p)],
     sr_principal_events := [event_row (worker_event p) (SignPrincipalEvent (id_codec p) seal_pub (\<lambda>_. ''00'') (worker_event p))],
     sr_bindings := [(''b1'', worker_binding)],
     sr_evidenceSigner := Some (SignEvidence (id_codec p) seal_pub (\<lambda>_. ''00''))\<rparr>"

lemma id_codec_key: "SigningKeyID (id_codec p) pub = SigningKeyID seal_codec pub"
  by (simp add: SigningKeyID_def id_codec_def)

lemma id_key: "publicKeyTx (s\<lparr>sr_keys := [(SigningKeyID seal_codec seal_pub, replicate 64 (CHR ''0''), 0, None)]\<rparr>)
    (SigningKeyID seal_codec seal_pub) = Inr (seal_pub, False)"
proof -
  have "length seal_pub = 32" by (simp add: seal_pub_def)
  then show ?thesis using seal_key(1) by (simp add: publicKeyTx_def)
qed

lemma id_store_key: "publicKeyTx (id_store p) (SigningKeyID seal_codec seal_pub) = Inr (seal_pub, False)"
  using id_key [of bare_store] publicKeyTx_cong [of "id_store p" "bare_store\<lparr>sr_keys := [(SigningKeyID seal_codec seal_pub, replicate 64 (CHR ''0''), 0, None)]\<rparr>"]
  by (simp add: id_store_def)

lemma id_verify: "verifyDomain (id_codec p) pub domain c ''00''"
  using seal_key(2) by (simp add: verifyDomain_def id_codec_def)

lemma id_store_verifies:
  assumes "ip_ID p = ''p1''"
  shows "verifyPrincipalProjectionTx (id_codec p) (id_store p) p = None"
proof -
  let ?e = "worker_event p" and ?g = "SignPrincipalEvent (id_codec p) seal_pub (\<lambda>_. ''00'') (worker_event p)"
  have g: "sp_Event ?g = ?e" "sp_SigningKeyID ?g = SigningKeyID seal_codec seal_pub" "sp_Digest ?g = identity_hash (id_codec p) (sp_Canonical ?g)"
    "sp_Signature ?g = ''00''"
    by (simp_all add: SignPrincipalEvent_def Let_def id_codec_key)
  have "VerifyPrincipalEvent (id_codec p) seal_pub ?g = None"
    using g id_verify by (simp add: VerifyPrincipalEvent_def id_codec_key) (simp add: id_codec_def)
  moreover have "latest_event ''p1'' (sr_principal_events (id_store p)) = Some (event_row ?e ?g)"
    using assms by (simp add: id_store_def event_row_def worker_event_def)
  moreover have "cd_parse_event (id_codec p) x = Some ?e" for x by (simp add: id_codec_def)
  moreover have "pr_revision (event_row ?e ?g) = ip_Revision p" "pe_Revision ?e = ip_Revision p" "pe_Principal ?e = p"
    "pr_signing_key_id (event_row ?e ?g) = SigningKeyID seal_codec seal_pub"
    using g(2) by (simp_all add: event_row_def worker_event_def)
  ultimately show ?thesis
    using assms id_store_key signed_event_row [OF g(1)] by (simp add: verifyPrincipalProjectionTx_def)
qed

lemma id_store_ok: "ip_ID p = ''p1'' \<Longrightarrow> identity_ok (id_codec p) (id_store p)"
  using id_store_verifies [of p] by (simp add: identity_ok_def) (simp add: id_store_def event_row_def worker_event_def)

lemma id_store_keyed: "keyed (id_store p)" by (simp add: keyed_def id_store_def bare_store_def)

theorem principals_follow_their_events_witness:
  "map_of (sr_principals (id_store gone_worker)) ''p1'' = Some gone_worker \<and>
   map_of (sr_principals (run_ops (id_codec gone_worker) (\<lambda>x. x) [OpDisable quiet_env ''p1'' 115] (id_store gone_worker))) ''p1'' = Some gone_worker"
proof -
  have row: "map_of (sr_principals (id_store gone_worker)) ''p1'' = Some gone_worker" by (simp add: id_store_def)
  moreover have "identity_ok (id_codec gone_worker) (id_store gone_worker)"
    by (rule id_store_ok) (simp add: gone_worker_def sample_worker_def)
  moreover have "ip_DisabledAt gone_worker \<noteq> 0" by (simp add: gone_worker_def)
  ultimately show ?thesis
    using principals_follow_their_events [OF id_store_keyed, of "id_codec gone_worker" gone_worker "''p1''" gone_worker "\<lambda>x. x" "[OpDisable quiet_env ''p1'' 115]"]
    by auto
qed

theorem receipts_verify_forever_witness:
  "ink_ok seal_codec (run_ops seal_codec (\<lambda>x. x) [OpFinish quiet_env ''act_9'' StateSucceeded 130 ''sha256:r'', OpRotateKey quiet_env ''k2'' ''00'' 140] sealed_store) \<and>
   length (active_keys (sr_keys (run_ops seal_codec (\<lambda>x. x) [OpFinish quiet_env ''act_9'' StateSucceeded 130 ''sha256:r'', OpRotateKey quiet_env ''k2'' ''00'' 140] sealed_store))) \<le> 1"
proof -
  have "keyed sealed_store" "chain_ok seal_codec (sr_receipts sealed_store)" "ink_ok seal_codec sealed_store"
    "length (active_keys (sr_keys sealed_store)) \<le> 1"
    using chain_genesis by (simp_all add: sealed_store_def bare_store_def keyed_def ink_ok_def active_keys_def)
  from receipts_verify_forever [OF this] show ?thesis by blast
qed

definition gone_store :: Store where
  "gone_store = (id_store gone_worker)\<lparr>
     sr_actions := [(''act_9'', parked_action\<lparr>ar_state := StateApproved, ar_identity :=
        snapshot_of (SignEvidence (id_codec gone_worker) seal_pub (\<lambda>_. ''00'') worker_evidence)\<rparr>)],
     sr_approvals := [(sample_approval_id, approved_row)]\<rparr>"

theorem disabled_principal_cannot_resume_witness:
  "\<exists>err. ClaimApprovalParamsUnderDigest (id_codec gone_worker) quiet_env sample_approval_id None (ac_ParametersDigest sample_parked) None gone_store =
     (Inl err, gone_store)"
proof -
  let ?cd = "id_codec gone_worker"
  have same: "sr_keys gone_store = sr_keys (id_store gone_worker)" "sr_principals gone_store = sr_principals (id_store gone_worker)"
    "sr_principal_events gone_store = sr_principal_events (id_store gone_worker)"
    by (simp_all add: gone_store_def)
  have "identity_ok ?cd (id_store gone_worker)" by (rule id_store_ok) (simp add: gone_worker_def sample_worker_def)
  then have "identity_ok ?cd gone_store" using identity_ok_cong [OF same] by simp
  moreover have "keyed gone_store"
    by (simp add: keyed_def gone_store_def refers_def approved_row_def parked_row_def seal_decision_def)
  moreover have "map_of (sr_principals gone_store) ''p1'' = Some gone_worker" using same(2) by (simp add: id_store_def)
  moreover have "map_of (sr_approvals gone_store) sample_approval_id = Some approved_row" by (simp add: gone_store_def)
  moreover have "cd_parse_evidence ?cd x = Some worker_evidence" for x by (simp add: id_codec_def)
  moreover have "ap_ActionID (aw_approval approved_row) = ''act_9''" by (simp add: approved_row_def parked_row_def seal_decision_def)
  ultimately show ?thesis
    using disabled_principal_cannot_resume [where s = gone_store and ops = "[]" and cd = ?cd and i = "''p1''" and p = gone_worker
        and sv = quiet_env and a = sample_approval_id and w = approved_row and e = worker_evidence and uni = "\<lambda>x. x"]
    by (simp add: run_ops_def gone_worker_def quiet_env_def gone_store_def worker_evidence_def evidence_principals_def
        snapshot_of_def SnapshotIsLegacy_def)
qed

lemma worker_fields: "ac_ActionID worker_env = ''act_9''" "pf_PrincipalID (ac_Principal worker_env) = ''p1''"
  "pf_ResponsibleHumanID (ac_Principal worker_env) = ''''"
  by (simp_all add: worker_env_def no_principal_def)

lemma worker_signs:
  "signEvidenceTx (id_codec sample_worker) worker_evidence (id_store sample_worker) =
   Inr (SignEvidence (id_codec sample_worker) seal_pub (\<lambda>_. ''00'') worker_evidence)"
proof -
  let ?cd = "id_codec sample_worker"
  let ?g = "SignEvidence ?cd seal_pub (\<lambda>_. ''00'') worker_evidence"
  have g: "sg_Evidence ?g = worker_evidence" "sg_Canonical ?g = CanonicalEvidence worker_evidence"
    "sg_SigningKeyID ?g = SigningKeyID seal_codec seal_pub" "sg_Digest ?g = identity_hash ?cd (CanonicalEvidence worker_evidence)" "sg_Signature ?g = ''00''"
    by (simp_all add: SignEvidence_def Let_def id_codec_key)
  have "VerifyEvidence ?cd seal_pub ?g = None"
    using g id_verify by (simp add: VerifyEvidence_def id_codec_key) (simp add: id_codec_def)
  moreover have "sr_evidenceSigner (id_store sample_worker) = Some (SignEvidence ?cd seal_pub (\<lambda>_. ''00''))" by (simp add: id_store_def)
  ultimately show ?thesis using g id_store_key by (simp add: signEvidenceTx_def Let_def)
qed

lemma worker_valid: "validateResolvedEvidenceTx (id_codec sample_worker) (id_store sample_worker) worker_evidence worker_env 120 = None"
proof -
  have p: "principalTx (id_store sample_worker) ''p1'' = Some sample_worker" by (simp add: principalTx_def id_store_def)
  have v: "verifyPrincipalProjectionTx (id_codec sample_worker) (id_store sample_worker) sample_worker = None"
    by (rule id_store_verifies) (simp add: sample_worker_def)
  have "check_evidence_principals (id_codec sample_worker) (id_store sample_worker) 120 (evidence_principals worker_evidence) = None"
    using p v by (simp add: check_evidence_None evidence_principals_def worker_evidence_def) (simp add: sample_worker_def IsZero_def)
  moreover have "map_of (sr_bindings (id_store sample_worker)) ''b1'' = Some worker_binding" by (simp add: id_store_def)
  ultimately show ?thesis
    by (simp add: validateResolvedEvidenceTx_def validateResolvedEvidenceAtTx_def worker_fields)
      (simp add: worker_evidence_def worker_binding_def evidence_expired_def evidence_fits_binding_def IsZero_def)
qed

theorem authenticated_record_validates_witness:
  "\<exists>s'. insert_authenticated (id_codec sample_worker) quiet_env worker_env StateAuthorized [] parked_decision worker_evidence (id_store sample_worker) = Inr s' \<and>
     validateActionIdentityTx (id_codec sample_worker) s' ''act_9'' 120 = None"
proof -
  let ?cd = "id_codec sample_worker" and ?s = "id_store sample_worker"
  let ?g = "SignEvidence ?cd seal_pub (\<lambda>_. ''00'') worker_evidence"
  have g: "sg_Evidence ?g = worker_evidence" "sg_SigningKeyID ?g = SigningKeyID seal_codec seal_pub"
    by (simp_all add: SignEvidence_def Let_def id_codec_key)
  have "\<exists>s'. insert_authenticated ?cd quiet_env worker_env StateAuthorized [] parked_decision worker_evidence ?s = Inr s'"
    using worker_signs worker_valid g
    by (simp add: insert_authenticated_def quiet_env_def insert_action_def insertEvidenceTx_def evidence_row_admitted_def principalTx_def worker_fields)
      (simp add: id_store_def bare_store_def worker_evidence_def)
  moreover have "\<forall>pub m. \<not> cd_ed25519_Verify ?cd pub m []" by (simp add: id_codec_def)
  ultimately show ?thesis
    using authenticated_record_validates [of ?cd quiet_env worker_env StateAuthorized "[]" parked_decision worker_evidence ?s] worker_fields(1)
    by (auto simp: quiet_env_def)
qed

end
