(* ===== verification/Approved_Samples.thy ===== *)
theory Approved_Samples
  imports Approved_Run Identity_Samples
begin

text \<open>
  A request that is parked, approved and executed twice: the tool runs once.
\<close>

definition hook_executor :: "Store Executor" where
  "hook_executor = \<lparr>ex_tools = [''webhook_call'' \<mapsto> PlainTool (\<lambda>tmo args. (''sent'', None))], ex_perTool = 0,
     ex_config = \<lparr>cc_BrainName = ''main'', cc_Recorder = None, cc_Identity = None, cc_PrincipalResolver = False,
       cc_StrictAuthority = False, cc_EffectClassifier = None, cc_Governance = None, cc_BoundOperation = (\<lambda>n. n),
       cc_InvocationProbe = False, cc_BeforeClose = False, cc_BeforeRecord = False, cc_BeforeIdentityFallback = False\<rparr>, ex_owner = 1\<rparr>"

definition execute_op :: app_op where
  "execute_op = AppExecute sample_exec_env quiet_env quiet_env \<lparr>pn_Version = 3, pn_Digest = ''law''\<rparr>
     (ac_ParametersDigest sample_parked) sample_approval_id (\<lambda>_. [])"

definition no_strict :: strict_door where
  "no_strict i law dig s = (Inl ErrAuthorityEvidenceCorrupt, s)"

definition at_store :: "Store \<Rightarrow> Store world" where
  "at_store s = \<lparr>wo_store = s, wo_trace = [], wo_claimed = {}\<rparr>"

lemma hook_op: "ao_Name (ac_Operation sample_parked) = ''webhook_call''"
  by (simp add: sample_parked_def NewEnvelope_def tool_op_def)

lemma hook_runs:
  assumes "interferes (=) other"
  shows "new_calls w (snd (run_claimed cd sample_exec_env hook_executor st other i a (ac_Operation sample_parked) ''{}'' w)) = [(''webhook_call'', ''{}'')]"
proof -
  let ?cap = "approved_capability cd a (ac_Operation sample_parked) ''{}''"
  obtain x w1 where x: "invokeAndClose cd sample_exec_env hook_executor ?cap (Some (aps_Close st)) (\<lambda>_. meanwhile other 3) w = (x, w1)"
    by fastforce
  have t: "ex_tools hook_executor (iv_toolName ?cap) = Some (PlainTool (\<lambda>tmo args. (''sent'', None)))"
    by (simp add: approved_capability_def hook_op hook_executor_def)
  have bc: "\<exists>evs. adds evs u (meanwhile other 3 u) \<and> dispatches evs = 0" for u :: "Store world"
    using quiet_store(2) unfolding quiet_def by blast
  obtain pre out post where "adds (pre @ EvDispatched (iv_toolName ?cap) (iv_scope ?cap) (iv_args ?cap) (out, er_toolErr x) # post) w w1"
    "dispatches pre = 0" "dispatches post = 0"
    using invokeAndClose_adds [OF x bc t] by blast
  then have "new_calls w w1 = [(''webhook_call'', ''{}'')]"
    using new_calls_adds calls_quiet by (fastforce simp: approved_capability_def hook_op)
  moreover have "wo_trace (snd (run_claimed cd sample_exec_env hook_executor st other i a (ac_Operation sample_parked) ''{}'' w)) = wo_trace w1"
    using x by (auto simp: run_claimed_def Let_def split: option.splits sum.splits)
  ultimately show ?thesis by (simp add: new_calls_def)
qed

lemma hook_resumes:
  assumes "wo_store w = approved_store"
  shows "new_calls w (run_app plain_codec (\<lambda>x. x) no_strict hook_executor execute_op w) = [(''webhook_call'', ''{}'')]"
proof -
  let ?st = "approvedExecutionStore plain_codec (\<lambda>x. x) quiet_env quiet_env no_strict \<lparr>pn_Version = 3, pn_Digest = ''law''\<rparr> (ac_ParametersDigest sample_parked)"
  let ?other = "\<lambda>k::nat. run_ops plain_codec (\<lambda>x. x) []"
  have id: "?other k s = s" for k s by (simp add: run_ops_def)
  then have quiet: "meanwhile ?other k w = w" for k by (simp add: meanwhile_def)
  have read: "aps_ReadApproval ?st sample_approval_id approved_store = Inr (aw_approval approved_row)"
    by (simp add: approvedExecutionStore_def GetApproval_def approved_reads)
  have state: "aps_ReadActionState ?st ''act_9'' approved_store = Inr StateApproved"
    by (simp add: approvedExecutionStore_def store_Get_def approved_store_def parked_action_def)
  obtain s where "aps_Claim ?st sample_approval_id (aw_approval approved_row) approved_store = (Inr (''{}'', ac_Operation sample_parked), s)"
    using sample_claim_tx [of "Some \<lparr>pn_Version = 3, pn_Digest = ''law''\<rparr>" "Some (aw_approval approved_row)"]
    by (auto simp: approvedExecutionStore_def ClaimApprovalParamsUnderDigest_def transact_def quiet_env_def)
  then have "ResumeApproved plain_codec sample_exec_env (Some hook_executor) (Some ?st) ?other sample_approval_id w =
      run_claimed plain_codec sample_exec_env hook_executor ?st ?other sample_approval_id ''act_9'' (ac_Operation sample_parked) ''{}'' (w\<lparr>wo_store := s\<rparr>)"
    using assms read state approved_fields quiet
    by (simp add: ResumeApproved_def claim_and_run_def Let_def) (simp add: hook_executor_def)
  then show ?thesis
    using hook_runs [of ?other "w\<lparr>wo_store := s\<rparr>" plain_codec ?st sample_approval_id "''act_9''"] id new_calls_shift [of w "w\<lparr>wo_store := s\<rparr>"]
    by (simp add: run_app_def execute_op_def execute_world interferes_def)
qed

theorem approved_action_runs_once_witness:
  "approved_calls plain_codec (\<lambda>x. x) no_strict hook_executor sample_approval_id [AppStore approve_op, execute_op, execute_op] (at_store parked_store) =
   [(''webhook_call'', ''{}'')]"
proof -
  let ?calls = "approved_calls plain_codec (\<lambda>x. x) no_strict hook_executor sample_approval_id"
  have "?calls [AppStore approve_op, execute_op, execute_op] (at_store parked_store) \<in>
      {[], [(ao_Name (ac_Operation (bq_env parked_request)), CanonicalParams plain_codec (bq_params parked_request))]}"
    using approved_action_runs_once [OF bare_keyed disjI1 [OF sample_parks], of "at_store parked_store" hook_executor
        "[AppStore approve_op, execute_op, execute_op]" "\<lambda>x. x" no_strict]
    by (simp add: at_store_def hook_executor_def parks_def approve_op_def execute_op_def)
  moreover have "executes sample_approval_id execute_op" "\<not> executes sample_approval_id (AppStore approve_op)"
    by (simp_all add: executes_def execute_op_def)
  moreover have "run_app plain_codec (\<lambda>x. x) no_strict hook_executor (AppStore approve_op) (at_store parked_store) = at_store approved_store"
    by (simp add: run_app_def approve_op_def sample_decided at_store_def)
  moreover have "new_calls (at_store approved_store) (run_app plain_codec (\<lambda>x. x) no_strict hook_executor execute_op (at_store approved_store)) =
      [(''webhook_call'', ''{}'')]"
    by (rule hook_resumes) (simp add: at_store_def)
  ultimately show ?thesis by (auto simp: hook_op)
qed

end
