(* ===== verification/Supervisor.thy ===== *)
theory Supervisor
  imports Korvun_Prelude
begin

text \<open>
  The supervisor (\<open>internal/supervisor/supervisor.go\<close>): it runs one application, and on a reload
  request shuts it down, starts its successor, persists the new configuration and rolls back when the
  successor does not come up.

  The goroutine of \<open>Run\<close> and the callers of \<open>RequestReload\<close> interleave, so the model is a
  step function over one state. A step of \<open>Run\<close> is one section under the lock or one call of a
  seam; \<open>sv_pc\<close> is where it stands. What a seam answers, which ready arm a \<open>select\<close> takes and
  when a caller runs are choices of the step. An application is named by the number of applications built
  before it; the trace records what is started, shut down, requested, persisted and told to the observer.
\<close>

section \<open>Data\<close>

text \<open>\<open>State\<close>, with its six values.\<close>

datatype SupState = SupPending | SupCutoverInProgress | SupSucceeded | SupRolledBack | SupFailed | SupPersistFailed

type_synonym Handle = string
type_synonym 'c reloadReq = "'c \<times> Handle"

definition ErrReloadInProgress :: go_error where
  "ErrReloadInProgress = Sentinel ''supervisor: a reload is already in progress''"
definition ErrShuttingDown :: go_error where
  "ErrShuttingDown = Sentinel ''supervisor: shutting down''"

datatype 'c stopReason = reasonShutdown | reasonReload "'c reloadReq" | reasonAppFailed go_error

datatype 'c sup_event =
    EvStarted nat 'c
  | EvShutdown nat "go_error option"
  | EvRequest Handle 'c
  | EvPersist 'c bool
  | EvState Handle SupState

text \<open>Where \<open>Run\<close> stands: the next thing it does. The configuration is \<open>curCfg\<close>, the last one
  whose application started.\<close>

datatype 'c run_pc =
    PcBoot 'c
  | PcSetCurrent nat 'c
  | PcServe nat 'c
  | PcPreflight "'c reloadReq" nat 'c
  | PcPreflightFailed "'c reloadReq" nat 'c
  | PcStopped "'c stopReason" nat 'c
  | PcSwitch "'c stopReason" 'c
  | PcBuild "'c reloadReq" 'c
  | PcBuildFailed "'c reloadReq" go_error 'c
  | PcFinishRollback "'c reloadReq" go_error 'c
  | PcRollback go_error 'c
  | PcStarted "'c reloadReq" nat
  | PcPersist "'c reloadReq" nat
  | PcReport "'c reloadReq" nat "go_error option"
  | PcSetCurrentCfg "'c reloadReq" nat
  | PcFinish "'c reloadReq" nat
  | PcReturned "go_error option"

record 'c Supervisor =
  sp_initialCfg :: 'c
  sp_preflight :: bool
  sp_persist :: bool
  sp_reloadCh :: "'c reloadReq list"
  sp_current :: "nat option"
  sp_currentCfg :: 'c
  sp_status :: "Handle \<rightharpoonup> SupState"
  sp_reloadInProgress :: bool
  sp_shuttingDown :: bool
  sp_seq :: "64 word"

record 'c supervised = "'c Supervisor" +
  sv_pc :: "'c run_pc"
  sv_sending :: "'c reloadReq list"
  sv_built :: nat
  sv_ctxDone :: bool
  sv_trace :: "'c sup_event list"

text \<open>\<open>New\<close>, with the two optional seams set or not.\<close>

definition sup_New :: "'c \<Rightarrow> bool \<Rightarrow> bool \<Rightarrow> 'c supervised" where
  "sup_New initial preflight persist =
     \<lparr>sp_initialCfg = initial, sp_preflight = preflight, sp_persist = persist, sp_reloadCh = [], sp_current = None,
      sp_currentCfg = initial, sp_status = Map.empty, sp_reloadInProgress = False, sp_shuttingDown = False, sp_seq = 0,
      sv_pc = PcBoot initial, sv_sending = [], sv_built = 0, sv_ctxDone = False, sv_trace = []\<rparr>"

section \<open>Operations\<close>

definition emit :: "'c sup_event \<Rightarrow> 'c supervised \<Rightarrow> 'c supervised" where
  "emit e s = s\<lparr>sv_trace := sv_trace s @ [e]\<rparr>"

definition goto_pc :: "'c run_pc \<Rightarrow> 'c supervised \<Rightarrow> 'c supervised" where
  "goto_pc pc s = s\<lparr>sv_pc := pc\<rparr>"

definition setCurrent :: "nat \<Rightarrow> 'c supervised \<Rightarrow> 'c supervised" where
  "setCurrent a s = s\<lparr>sp_current := Some a\<rparr>"

definition setCurrentCfg :: "'c \<Rightarrow> 'c supervised \<Rightarrow> 'c supervised" where
  "setCurrentCfg c s = s\<lparr>sp_currentCfg := c\<rparr>"

definition setStatus :: "Handle \<Rightarrow> SupState \<Rightarrow> 'c supervised \<Rightarrow> 'c supervised" where
  "setStatus h st s = emit (EvState h st) (s\<lparr>sp_status := (sp_status s)(h \<mapsto> st)\<rparr>)"

definition finishReload :: "'c supervised \<Rightarrow> 'c supervised" where
  "finishReload s = s\<lparr>sp_reloadInProgress := False\<rparr>"

text \<open>\<open>Shutdown\<close> answers with the given error or none, and \<open>shutdownApp\<close> hands it on.\<close>

definition shutdownApp :: "nat \<Rightarrow> go_error option \<Rightarrow> 'c supervised \<Rightarrow> go_error option \<times> 'c supervised" where
  "shutdownApp a err s = (err, emit (EvShutdown a err) s)"

text \<open>\<open>persist\<close> answers with the given error; without the seam nothing is written.\<close>

definition persistConfig :: "'c \<Rightarrow> go_error option \<Rightarrow> 'c supervised \<Rightarrow> go_error option \<times> 'c supervised" where
  "persistConfig c err s =
     (if sp_persist s then (err, emit (EvPersist c (err = None)) s) else (None, s))"

definition buildAndStart ::
    "'c \<Rightarrow> go_error option \<Rightarrow> go_error option \<Rightarrow> go_error option \<Rightarrow> 'c supervised \<Rightarrow> (go_error + nat) \<times> 'c supervised" where
  "buildAndStart c build start shut s =
     (case build of
        Some e \<Rightarrow> (Inl e, s)
      | None \<Rightarrow>
          (let a = sv_built s; s1 = s\<lparr>sv_built := Suc a\<rparr>
           in case start of
                Some e \<Rightarrow> (Inl e, snd (shutdownApp a shut s1))
              | None \<Rightarrow> (Inr a, emit (EvStarted a c) s1)))"

text \<open>\<open>RequestReload\<close> up to the observer; the send on the channel of capacity one is a step of its own,
  which waits while the channel is full.\<close>

definition handle_of :: "64 word \<Rightarrow> Handle" where
  "handle_of n = ''reload-'' @ decimal (uint n)"

definition RequestReload :: "'c \<Rightarrow> 'c supervised \<Rightarrow> (go_error + Handle) \<times> 'c supervised" where
  "RequestReload c s =
     (if sp_shuttingDown s then (Inl ErrShuttingDown, s)
      else if sp_reloadInProgress s then (Inl ErrReloadInProgress, s)
      else let n = sp_seq s + 1; h = handle_of n
        in (Inr h, setStatus h SupPending (emit (EvRequest h c)
              (s\<lparr>sp_reloadInProgress := True, sp_seq := n, sv_sending := sv_sending s @ [(c, h)]\<rparr>))))"

definition send_reload :: "nat \<Rightarrow> 'c supervised \<Rightarrow> 'c supervised option" where
  "send_reload i s =
     (if i < length (sv_sending s) \<and> sp_reloadCh s = []
      then Some (s\<lparr>sp_reloadCh := [sv_sending s ! i],
                   sv_sending := take i (sv_sending s) @ drop (Suc i) (sv_sending s)\<rparr>)
      else None)"

definition Status :: "Handle \<Rightarrow> 'c supervised \<Rightarrow> SupState option" where "Status h s = sp_status s h"
definition Current :: "'c supervised \<Rightarrow> nat option" where "Current s = sp_current s"
definition CurrentConfig :: "'c supervised \<Rightarrow> 'c" where "CurrentConfig s = sp_currentCfg s"

text \<open>The arms of the \<open>select\<close> in \<open>serve\<close>.\<close>

datatype serve_arm = ArmServeErr "go_error option" | ArmCtxDone | ArmSignal | ArmReload

definition serve_nil_error :: go_error where
  "serve_nil_error = ErrorString ''app.Serve returned with no error while the supervisor was not shutting down''"

definition serve_select :: "serve_arm \<Rightarrow> nat \<Rightarrow> 'c \<Rightarrow> 'c supervised \<Rightarrow> 'c supervised option" where
  "serve_select arm a c s =
     (case arm of
        ArmServeErr err \<Rightarrow>
          Some (goto_pc (PcStopped (if sv_ctxDone s then reasonShutdown
             else reasonAppFailed (case err of Some e \<Rightarrow> e | None \<Rightarrow> serve_nil_error)) a c) s)
      | ArmCtxDone \<Rightarrow> if sv_ctxDone s then Some (goto_pc (PcStopped reasonShutdown a c) s) else None
      | ArmSignal \<Rightarrow> Some (goto_pc (PcStopped reasonShutdown a c) s)
      | ArmReload \<Rightarrow>
          (case sp_reloadCh s of
             [] \<Rightarrow> None
           | r # rest \<Rightarrow> Some (goto_pc (PcPreflight r a c) (s\<lparr>sp_reloadCh := rest\<rparr>))))"

text \<open>What the next seam answers: an error of \<open>build\<close>, of \<open>Start\<close>, of \<open>Shutdown\<close>, of
  \<open>preflight\<close> or of \<open>persist\<close>, and the arm of the \<open>select\<close>.\<close>

record choice =
  ch_build :: "go_error option"
  ch_start :: "go_error option"
  ch_shutdown :: "go_error option"
  ch_seam :: "go_error option"
  ch_arm :: serve_arm

definition run_switch :: "'c stopReason \<Rightarrow> 'c \<Rightarrow> 'c supervised \<Rightarrow> 'c supervised" where
  "run_switch reason c s =
     (case reason of
        reasonShutdown \<Rightarrow> goto_pc (PcReturned None) (s\<lparr>sp_shuttingDown := True\<rparr>)
      | reasonAppFailed e \<Rightarrow> goto_pc (PcReturned (Some (Errorf ''supervisor: running app failed: %w'' [e]))) s
      | reasonReload r \<Rightarrow> goto_pc (PcBuild r c) (setStatus (snd r) SupCutoverInProgress s))"

text \<open>The error of a shutdown is logged, and the cutover goes on.\<close>

definition run_step :: "choice \<Rightarrow> 'c supervised \<Rightarrow> 'c supervised option" where
  "run_step ch s =
     (case sv_pc s of
        PcBoot c \<Rightarrow>
          (case buildAndStart c (ch_build ch) (ch_start ch) (ch_shutdown ch) s of
             (Inl e, s1) \<Rightarrow> Some (goto_pc (PcReturned (Some (Errorf ''supervisor: initial start: %w'' [e]))) s1)
           | (Inr a, s1) \<Rightarrow> Some (goto_pc (PcSetCurrent a c) s1))
      | PcSetCurrent a c \<Rightarrow> Some (goto_pc (PcServe a c) (setCurrent a s))
      | PcServe a c \<Rightarrow> serve_select (ch_arm ch) a c s
      | PcPreflight r a c \<Rightarrow>
          (if sp_preflight s \<and> ch_seam ch \<noteq> None
           then Some (goto_pc (PcPreflightFailed r a c) (setStatus (snd r) SupFailed s))
           else Some (goto_pc (PcStopped (reasonReload r) a c) s))
      | PcPreflightFailed r a c \<Rightarrow> Some (goto_pc (PcServe a c) (finishReload s))
      | PcStopped reason a c \<Rightarrow>
          (case shutdownApp a (ch_shutdown ch) s of (shutdownErr, s1) \<Rightarrow> Some (goto_pc (PcSwitch reason c) s1))
      | PcSwitch reason c \<Rightarrow> Some (run_switch reason c s)
      | PcBuild r c \<Rightarrow>
          (case buildAndStart (fst r) (ch_build ch) (ch_start ch) (ch_shutdown ch) s of
             (Inl e, s1) \<Rightarrow> Some (goto_pc (PcBuildFailed r e c) s1)
           | (Inr a, s1) \<Rightarrow> Some (goto_pc (PcStarted r a) s1))
      | PcBuildFailed r e c \<Rightarrow> Some (goto_pc (PcFinishRollback r e c) (setStatus (snd r) SupRolledBack s))
      | PcFinishRollback r e c \<Rightarrow> Some (goto_pc (PcRollback e c) (finishReload s))
      | PcRollback e c \<Rightarrow>
          (case buildAndStart c (ch_build ch) (ch_start ch) (ch_shutdown ch) s of
             (Inl e', s1) \<Rightarrow> Some (goto_pc (PcReturned
                (Some (Errorf ''supervisor: rollback failed after cutover error (%v): %w'' [e']))) s1)
           | (Inr a, s1) \<Rightarrow> Some (goto_pc (PcSetCurrent a c) s1))
      | PcStarted r a \<Rightarrow> Some (goto_pc (PcPersist r a) (setCurrent a s))
      | PcPersist r a \<Rightarrow> (case persistConfig (fst r) (ch_seam ch) s of (err, s1) \<Rightarrow> Some (goto_pc (PcReport r a err) s1))
      | PcReport r a err \<Rightarrow>
          Some (goto_pc (PcSetCurrentCfg r a)
            (setStatus (snd r) (if err \<noteq> None then SupPersistFailed else SupSucceeded) s))
      | PcSetCurrentCfg r a \<Rightarrow> Some (goto_pc (PcFinish r a) (setCurrentCfg (fst r) s))
      | PcFinish r a \<Rightarrow> Some (goto_pc (PcServe a (fst r)) (finishReload s))
      | PcReturned e \<Rightarrow> None)"

datatype 'c sup_op = OpRun choice | OpRequest 'c | OpSend nat | OpCancel

definition sup_do :: "'c sup_op \<Rightarrow> 'c supervised \<Rightarrow> 'c supervised option" where
  "sup_do x s = (case x of
      OpRun ch \<Rightarrow> run_step ch s
    | OpRequest c \<Rightarrow> Some (snd (RequestReload c s))
    | OpSend i \<Rightarrow> send_reload i s
    | OpCancel \<Rightarrow> Some (s\<lparr>sv_ctxDone := True\<rparr>))"

inductive sup_step :: "'c supervised \<Rightarrow> 'c supervised \<Rightarrow> bool" where
  sup_step: "sup_do x s = Some s' \<Longrightarrow> sup_step s s'"

text \<open>A supervisor as some interleaving has left it.\<close>

definition sup_reachable :: "'c \<Rightarrow> bool \<Rightarrow> bool \<Rightarrow> 'c supervised \<Rightarrow> bool" where
  "sup_reachable c preflight persist s \<longleftrightarrow> sup_step\<^sup>*\<^sup>* (sup_New c preflight persist) s"

section \<open>The configuration file\<close>

text \<open>\<open>WriteConfigAtomic\<close> over the files of the directory. \<open>tmp\<close> is the name \<open>os.CreateTemp\<close>
  finds free; each call of the operating system answers with an error or none, and a failed write may
  leave any part of the data in the temporary file. The deferred removal runs on every path after the creation;
  after the rename the temporary name is free.\<close>

record os_answers =
  oa_marshal :: "go_error + string"
  oa_create :: "go_error + string"
  oa_write :: "go_error option"
  oa_partial :: nat
  oa_close :: "go_error option"
  oa_rename :: "go_error option"

definition WriteConfigAtomic ::
    "os_answers \<Rightarrow> string \<Rightarrow> (string \<rightharpoonup> string) \<Rightarrow> go_error option \<times> (string \<rightharpoonup> string)" where
  "WriteConfigAtomic oa path fs =
     (case oa_marshal oa of
        Inl e \<Rightarrow> (Some (Errorf ''supervisor: marshal config: %w'' [e]), fs)
      | Inr data \<Rightarrow>
     (case oa_create oa of
        Inl e \<Rightarrow> (Some (Errorf ''supervisor: create temp config: %w'' [e]), fs)
      | Inr tmp \<Rightarrow>
     (let remove = (\<lambda>fs'. fs'(tmp := None)) in
      case oa_write oa of
        Some e \<Rightarrow> (Some (Errorf ''supervisor: write temp config: %w'' [e]),
                   remove (fs(tmp \<mapsto> take (oa_partial oa) data)))
      | None \<Rightarrow>
     (case oa_close oa of
        Some e \<Rightarrow> (Some (Errorf ''supervisor: close temp config: %w'' [e]), remove (fs(tmp \<mapsto> data)))
      | None \<Rightarrow>
     (case oa_rename oa of
        Some e \<Rightarrow> (Some (Errorf ''supervisor: rename config into place: %w'' [e]), remove (fs(tmp \<mapsto> data)))
      | None \<Rightarrow> (None, remove ((fs(tmp \<mapsto> data))(path \<mapsto> data, tmp := None))))))))"

section \<open>What the trace says\<close>

text \<open>The applications started and not asked to shut down, with their configurations; the applications that may
  still hold workers or the store, which are those started or built whose \<open>Shutdown\<close> was not answered without
  an error; the configuration on disk, as far as it was written here; and the states told of one handle.\<close>

fun up_after :: "'c sup_event \<Rightarrow> (nat \<times> 'c) list \<Rightarrow> (nat \<times> 'c) list" where
  "up_after (EvStarted a c) us = (a, c) # us"
| "up_after (EvShutdown a err) us = filter (\<lambda>u. fst u \<noteq> a) us"
| "up_after _ us = us"

definition up :: "'c sup_event list \<Rightarrow> (nat \<times> 'c) list" where
  "up tr = fold up_after tr []"

fun holding_after :: "'c sup_event \<Rightarrow> nat list \<Rightarrow> nat list" where
  "holding_after (EvStarted a c) us = a # us"
| "holding_after (EvShutdown a None) us = filter (\<lambda>u. u \<noteq> a) us"
| "holding_after (EvShutdown a (Some err)) us = (if a \<in> set us then us else a # us)"
| "holding_after _ us = us"

definition holding :: "'c sup_event list \<Rightarrow> nat list" where
  "holding tr = fold holding_after tr []"

fun disk_after :: "'c sup_event \<Rightarrow> 'c option \<Rightarrow> 'c option" where
  "disk_after (EvPersist c True) d = Some c"
| "disk_after _ d = d"

definition on_disk :: "'c sup_event list \<Rightarrow> 'c option" where
  "on_disk tr = fold disk_after tr None"

definition states_of :: "Handle \<Rightarrow> 'c sup_event list \<Rightarrow> SupState list" where
  "states_of h tr = concat (map (\<lambda>e. case e of EvState h' st \<Rightarrow> if h' = h then [st] else [] | _ \<Rightarrow> []) tr)"

lemma up_snoc [simp]: "up [] = []" "up (tr @ [e]) = up_after e (up tr)"
  by (simp_all add: up_def)

lemma holding_snoc [simp]: "holding [] = []" "holding (tr @ [e]) = holding_after e (holding tr)"
  by (simp_all add: holding_def)

lemma holding_up_or_failed:
  "a \<in> set (holding tr) \<Longrightarrow> a \<in> fst ` set (up tr) \<or> (\<exists>err. EvShutdown a (Some err) \<in> set tr)"
proof (induction tr rule: rev_induct)
  case (snoc e tr)
  then show ?case by (cases "(e, holding tr)" rule: holding_after.cases) (force split: if_splits)+
qed simp

lemma on_disk_snoc [simp]: "on_disk [] = None" "on_disk (tr @ [e]) = disk_after e (on_disk tr)"
  by (simp_all add: on_disk_def)

lemma states_of_snoc [simp]:
  "states_of h [] = []" "states_of h (tr @ [EvState h' st]) = states_of h tr @ (if h' = h then [st] else [])"
  "states_of h (tr @ [EvStarted a c]) = states_of h tr" "states_of h (tr @ [EvShutdown a err]) = states_of h tr"
  "states_of h (tr @ [EvRequest h' c]) = states_of h tr" "states_of h (tr @ [EvPersist c b]) = states_of h tr"
  by (simp_all add: states_of_def)

text \<open>What has to be true when an event happens.\<close>

fun event_ok :: "bool \<Rightarrow> 'c sup_event list \<Rightarrow> 'c sup_event \<Rightarrow> bool" where
  "event_ok p tr (EvStarted a c) = (up tr = [])"
| "event_ok p tr (EvPersist c b) = (\<exists>a. up tr = [(a, c)])"
| "event_ok p tr (EvState h SupSucceeded) =
     (\<exists>a c. EvRequest h c \<in> set tr \<and> up tr = [(a, c)] \<and> (p \<longrightarrow> on_disk tr = Some c))"
| "event_ok p tr (EvState h SupPersistFailed) = (\<exists>a c. EvRequest h c \<in> set tr \<and> up tr = [(a, c)])"
| "event_ok p tr (EvState h SupRolledBack) = (up tr = [])"
| "event_ok p tr (EvState h SupFailed) = (\<exists>u. up tr = [u])"
| "event_ok p tr _ = True"

definition trace_ok :: "bool \<Rightarrow> 'c sup_event list \<Rightarrow> bool" where
  "trace_ok p tr \<longleftrightarrow> (\<forall>tr1 e tr2. tr = tr1 @ e # tr2 \<longrightarrow> event_ok p tr1 e)"

lemma trace_ok_snoc [simp]: "trace_ok p []" "trace_ok p (tr @ [e]) \<longleftrightarrow> trace_ok p tr \<and> event_ok p tr e"
proof -
  show "trace_ok p (tr @ [e]) \<longleftrightarrow> trace_ok p tr \<and> event_ok p tr e"
  proof
    assume ok: "trace_ok p (tr @ [e])"
    have "event_ok p tr1 x" if "tr = tr1 @ x # tr2" for tr1 x tr2
      using ok that unfolding trace_ok_def by (metis append_Cons append_assoc)
    then show "trace_ok p tr \<and> event_ok p tr e" using ok unfolding trace_ok_def by blast
  next
    assume ok: "trace_ok p tr \<and> event_ok p tr e"
    have "event_ok p tr1 x" if "tr @ [e] = tr1 @ x # tr2" for tr1 x tr2
    proof (cases tr2 rule: rev_cases)
      case Nil
      then show ?thesis using that ok by simp
    next
      case (snoc ys y)
      then have "tr = tr1 @ x # ys" using that by (metis append_Cons append_assoc butlast_snoc)
      then show ?thesis using ok by (auto simp: trace_ok_def)
    qed
    then show "trace_ok p (tr @ [e])" by (auto simp: trace_ok_def)
  qed
qed (simp add: trace_ok_def)

lemma trace_request:
  "trace_ok p (tr @ [EvRequest h c, EvState h SupPending]) \<longleftrightarrow> trace_ok p tr"
  "up (tr @ [EvRequest h c, EvState h SupPending]) = up tr"
  using trace_ok_snoc(2) [of p "tr @ [EvRequest h c]" "EvState h SupPending"] by (simp_all add: up_def)

section \<open>The invariant of the loop\<close>

text \<open>What the position of \<open>Run\<close> says: the request it has in hand, the application that is up, and the
  configuration \<open>CurrentConfig\<close> answers.\<close>

fun pc_req :: "'c run_pc \<Rightarrow> 'c reloadReq option" where
  "pc_req (PcPreflight r a c) = Some r"
| "pc_req (PcPreflightFailed r a c) = Some r"
| "pc_req (PcStopped (reasonReload r) a c) = Some r"
| "pc_req (PcSwitch (reasonReload r) c) = Some r"
| "pc_req (PcBuild r c) = Some r"
| "pc_req (PcBuildFailed r e c) = Some r"
| "pc_req (PcFinishRollback r e c) = Some r"
| "pc_req (PcStarted r a) = Some r"
| "pc_req (PcPersist r a) = Some r"
| "pc_req (PcReport r a err) = Some r"
| "pc_req (PcSetCurrentCfg r a) = Some r"
| "pc_req (PcFinish r a) = Some r"
| "pc_req _ = None"

fun pc_up :: "'c run_pc \<Rightarrow> (nat \<times> 'c) list" where
  "pc_up (PcSetCurrent a c) = [(a, c)]"
| "pc_up (PcServe a c) = [(a, c)]"
| "pc_up (PcPreflight r a c) = [(a, c)]"
| "pc_up (PcPreflightFailed r a c) = [(a, c)]"
| "pc_up (PcStopped reason a c) = [(a, c)]"
| "pc_up (PcStarted r a) = [(a, fst r)]"
| "pc_up (PcPersist r a) = [(a, fst r)]"
| "pc_up (PcReport r a err) = [(a, fst r)]"
| "pc_up (PcSetCurrentCfg r a) = [(a, fst r)]"
| "pc_up (PcFinish r a) = [(a, fst r)]"
| "pc_up _ = []"

fun pc_current :: "'c run_pc \<Rightarrow> nat option" where
  "pc_current (PcServe a c) = Some a"
| "pc_current (PcPreflight r a c) = Some a"
| "pc_current (PcPreflightFailed r a c) = Some a"
| "pc_current (PcStopped reason a c) = Some a"
| "pc_current (PcPersist r a) = Some a"
| "pc_current (PcReport r a err) = Some a"
| "pc_current (PcSetCurrentCfg r a) = Some a"
| "pc_current (PcFinish r a) = Some a"
| "pc_current _ = None"

fun pc_cfg :: "'c run_pc \<Rightarrow> 'c option" where
  "pc_cfg (PcBoot c) = Some c"
| "pc_cfg (PcSetCurrent a c) = Some c"
| "pc_cfg (PcServe a c) = Some c"
| "pc_cfg (PcPreflight r a c) = Some c"
| "pc_cfg (PcPreflightFailed r a c) = Some c"
| "pc_cfg (PcStopped reason a c) = Some c"
| "pc_cfg (PcSwitch reason c) = Some c"
| "pc_cfg (PcBuild r c) = Some c"
| "pc_cfg (PcBuildFailed r e c) = Some c"
| "pc_cfg (PcFinishRollback r e c) = Some c"
| "pc_cfg (PcRollback e c) = Some c"
| "pc_cfg (PcFinish r a) = Some (fst r)"
| "pc_cfg _ = None"

definition in_flight :: "'c supervised \<Rightarrow> 'c reloadReq list" where
  "in_flight s = sv_sending s @ sp_reloadCh s @ (case pc_req (sv_pc s) of None \<Rightarrow> [] | Some r \<Rightarrow> [r])"

definition sup_inv :: "'c supervised \<Rightarrow> bool" where
  "sup_inv s \<longleftrightarrow>
     up (sv_trace s) = pc_up (sv_pc s) \<and> trace_ok (sp_persist s) (sv_trace s) \<and>
     (\<forall>a. pc_current (sv_pc s) = Some a \<longrightarrow> sp_current s = Some a) \<and>
     (\<forall>c. pc_cfg (sv_pc s) = Some c \<longrightarrow> sp_currentCfg s = c) \<and>
     (\<forall>r a. sv_pc s = PcReport r a None \<longrightarrow> sp_persist s \<longrightarrow> on_disk (sv_trace s) = Some (fst r)) \<and>
     length (in_flight s) = (if sp_reloadInProgress s then 1 else 0) \<and>
     (\<forall>c h. (c, h) \<in> set (in_flight s) \<longrightarrow> EvRequest h c \<in> set (sv_trace s))"

lemmas sup_op_defs = emit_def goto_pc_def setCurrent_def setCurrentCfg_def setStatus_def finishReload_def shutdownApp_def

lemma buildAndStart_cases:
  assumes "buildAndStart c b st sh s = (r, s')"
  obtains e where "r = Inl e" "s' = s"
  | e where "r = Inl e" "s' = s\<lparr>sv_built := Suc (sv_built s), sv_trace := sv_trace s @ [EvShutdown (sv_built s) sh]\<rparr>"
  | "r = Inr (sv_built s)" "s' = s\<lparr>sv_built := Suc (sv_built s), sv_trace := sv_trace s @ [EvStarted (sv_built s) c]\<rparr>"
proof (cases b)
  case (Some e)
  with assms have "r = Inl e" "s' = s" by (simp_all add: buildAndStart_def)
  then show ?thesis by (rule that(1))
next
  case None
  show ?thesis
  proof (cases st)
    case (Some e)
    with None assms have "r = Inl e" "s' = s\<lparr>sv_built := Suc (sv_built s), sv_trace := sv_trace s @ [EvShutdown (sv_built s) sh]\<rparr>"
      by (simp_all add: buildAndStart_def sup_op_defs Let_def)
    then show ?thesis by (rule that(2))
  next
    case st: None
    with None assms that(3) show ?thesis by (simp add: buildAndStart_def sup_op_defs Let_def)
  qed
qed

lemma persistConfig_cases:
  assumes "persistConfig c err s = (err', s')"
  obtains "sp_persist s" "err' = err" "s' = s\<lparr>sv_trace := sv_trace s @ [EvPersist c (err = None)]\<rparr>"
  | "\<not> sp_persist s" "err' = None" "s' = s"
  using assms by (auto simp: persistConfig_def sup_op_defs split: if_splits)

lemma sup_inv_New: "sup_inv (sup_New c pf ps)"
  by (simp add: sup_inv_def sup_New_def in_flight_def)

text \<open>A step of \<open>Run\<close> that builds an application, as the boot, the cutover and the rollback do.\<close>

lemma sup_inv_build:
  assumes inv: "sup_inv s" and pc: "pc_up (sv_pc s) = []"
    and b: "buildAndStart c bld st sh s = (r, s1)"
    and bad: "\<And>e. pc_req (failed e) = pc_req (sv_pc s) \<and> pc_up (failed e) = [] \<and> pc_current (failed e) = None \<and>
                (\<forall>c'. pc_cfg (failed e) = Some c' \<longrightarrow> sp_currentCfg s = c') \<and> (\<forall>r' a. failed e \<noteq> PcReport r' a None)"
    and good: "\<And>a. pc_req (started a) = pc_req (sv_pc s) \<and> pc_up (started a) = [(a, c)] \<and> pc_current (started a) = None \<and>
                (\<forall>c'. pc_cfg (started a) = Some c' \<longrightarrow> sp_currentCfg s = c') \<and> (\<forall>r' a'. started a \<noteq> PcReport r' a' None)"
  shows "sup_inv (goto_pc (case r of Inl e \<Rightarrow> failed e | Inr a \<Rightarrow> started a) s1)"
  using b
proof (cases rule: buildAndStart_cases)
  case (1 e)
  then show ?thesis using inv pc bad [of e] by (simp add: sup_inv_def goto_pc_def in_flight_def)
next
  case (2 e)
  then show ?thesis using inv pc bad [of e] by (simp add: sup_inv_def goto_pc_def in_flight_def)
next
  case 3
  then show ?thesis using inv pc good [of "sv_built s"] by (simp add: sup_inv_def goto_pc_def in_flight_def)
qed

lemma sup_inv_serve_select:
  assumes "sup_inv s" and "sv_pc s = PcServe a c" and "serve_select arm a c s = Some s'"
  shows "sup_inv s'"
  using assms
  by (auto simp: sup_inv_def serve_select_def goto_pc_def in_flight_def split: serve_arm.splits if_splits list.splits)

lemma sup_inv_switch:
  assumes "sup_inv s" and "sv_pc s = PcSwitch reason c"
  shows "sup_inv (run_switch reason c s)"
  using assms by (cases reason) (auto simp: sup_inv_def run_switch_def sup_op_defs in_flight_def)

lemma sup_inv_persist:
  assumes inv: "sup_inv s" and pc: "sv_pc s = PcPersist r a" and p: "persistConfig (fst r) err s = (err', s1)"
  shows "sup_inv (goto_pc (PcReport r a err') s1)"
  using p
proof (cases rule: persistConfig_cases)
  case 1
  then show ?thesis using inv pc by (auto simp: sup_inv_def goto_pc_def in_flight_def)
next
  case 2
  then show ?thesis using inv pc by (auto simp: sup_inv_def goto_pc_def in_flight_def)
qed

lemma sup_inv_report:
  assumes inv: "sup_inv s" and pc: "sv_pc s = PcReport r a err"
  shows "sup_inv (goto_pc (PcSetCurrentCfg r a) (setStatus (snd r) (if err \<noteq> None then SupPersistFailed else SupSucceeded) s))"
proof -
  have "EvRequest (snd r) (fst r) \<in> set (sv_trace s)" "up (sv_trace s) = [(a, fst r)]"
    using inv pc by (cases r; auto simp: sup_inv_def in_flight_def)+
  moreover have "sp_persist s \<Longrightarrow> err = None \<Longrightarrow> on_disk (sv_trace s) = Some (fst r)"
    using inv pc by (simp add: sup_inv_def)
  ultimately have "event_ok (sp_persist s) (sv_trace s) (EvState (snd r) (if err \<noteq> None then SupPersistFailed else SupSucceeded))"
    by auto
  then show ?thesis using inv pc by (auto simp: sup_inv_def sup_op_defs in_flight_def)
qed

lemma sup_inv_run:
  assumes inv: "sup_inv s" and step: "run_step ch s = Some s'"
  shows "sup_inv s'"
proof (cases "sv_pc s")
  case (PcBoot c)
  have cc: "sp_currentCfg s = c" using inv PcBoot by (simp add: sup_inv_def)
  obtain r s1 where b: "buildAndStart c (ch_build ch) (ch_start ch) (ch_shutdown ch) s = (r, s1)" by fastforce
  have "sup_inv (goto_pc (case r of Inl e \<Rightarrow> PcReturned (Some (Errorf ''supervisor: initial start: %w'' [e]))
                                  | Inr a \<Rightarrow> PcSetCurrent a c) s1)"
    by (rule sup_inv_build [OF inv _ b]) (auto simp: PcBoot cc)
  then show ?thesis using step PcBoot b by (auto simp: run_step_def split: sum.splits)
next
  case (PcBuild r c)
  have cc: "sp_currentCfg s = c" using inv PcBuild by (simp add: sup_inv_def)
  obtain x s1 where b: "buildAndStart (fst r) (ch_build ch) (ch_start ch) (ch_shutdown ch) s = (x, s1)" by fastforce
  have "sup_inv (goto_pc (case x of Inl e \<Rightarrow> PcBuildFailed r e c | Inr a \<Rightarrow> PcStarted r a) s1)"
    by (rule sup_inv_build [OF inv _ b]) (auto simp: PcBuild cc)
  then show ?thesis using step PcBuild b by (auto simp: run_step_def split: sum.splits)
next
  case (PcRollback e c)
  have cc: "sp_currentCfg s = c" using inv PcRollback by (simp add: sup_inv_def)
  obtain x s1 where b: "buildAndStart c (ch_build ch) (ch_start ch) (ch_shutdown ch) s = (x, s1)" by fastforce
  have "sup_inv (goto_pc (case x of
      Inl e' \<Rightarrow> PcReturned (Some (Errorf ''supervisor: rollback failed after cutover error (%v): %w'' [e']))
    | Inr a \<Rightarrow> PcSetCurrent a c) s1)"
    by (rule sup_inv_build [OF inv _ b]) (auto simp: PcRollback cc)
  then show ?thesis using step PcRollback b by (auto simp: run_step_def split: sum.splits)
next
  case (PcServe a c)
  then show ?thesis using sup_inv_serve_select [OF inv] step by (simp add: run_step_def)
next
  case (PcSwitch reason c)
  then show ?thesis using sup_inv_switch [OF inv] step by (auto simp: run_step_def)
next
  case (PcPersist r a)
  then show ?thesis using sup_inv_persist [OF inv PcPersist] step by (auto simp: run_step_def split: prod.splits)
next
  case (PcReport r a err)
  then show ?thesis using sup_inv_report [OF inv PcReport] step by (auto simp: run_step_def)
next
  case (PcStopped reason a c)
  then show ?thesis using inv step by (cases reason) (auto simp: sup_inv_def run_step_def sup_op_defs in_flight_def)
qed (use inv step in \<open>auto simp: sup_inv_def run_step_def sup_op_defs in_flight_def split: if_splits\<close>)

lemma sup_inv_request: "sup_inv s \<Longrightarrow> sup_inv (snd (RequestReload c s))"
  by (auto simp: sup_inv_def trace_request RequestReload_def sup_op_defs in_flight_def Let_def split: if_splits)

lemma sup_inv_send:
  assumes inv: "sup_inv s" and step: "send_reload i s = Some s'"
  shows "sup_inv s'"
proof -
  have "length (sv_sending s) \<le> 1" using inv by (auto simp: sup_inv_def in_flight_def split: if_splits)
  moreover have "i < length (sv_sending s)" using step by (auto simp: send_reload_def split: if_splits)
  ultimately obtain r where "sv_sending s = [r]" "i = 0"
    by (cases "sv_sending s") (auto simp: le_Suc_eq)
  then show ?thesis using inv step by (auto simp: sup_inv_def send_reload_def in_flight_def split: if_splits)
qed

lemma sup_inv_do: "sup_inv s \<Longrightarrow> sup_do x s = Some s' \<Longrightarrow> sup_inv s'"
proof (induction x)
  case OpCancel
  then show ?case by (auto simp: sup_do_def sup_inv_def in_flight_def)
qed (auto simp: sup_do_def intro: sup_inv_run sup_inv_request sup_inv_send)

lemma reachable_sup_inv: "sup_reachable c pf ps s \<Longrightarrow> sup_inv s"
  unfolding sup_reachable_def
  by (induction rule: rtranclp_induct) (auto intro: sup_inv_New sup_inv_do elim!: sup_step.cases)

lemma run_step_persist [simp]: "sup_do x s = Some s' \<Longrightarrow> sp_persist s' = sp_persist s"
  by (cases x) (auto simp: sup_do_def run_step_def sup_op_defs RequestReload_def send_reload_def serve_select_def
      run_switch_def buildAndStart_def persistConfig_def Let_def
      split: run_pc.splits if_splits option.splits sum.splits serve_arm.splits list.splits stopReason.splits prod.splits)

lemma reachable_persist: "sup_reachable c pf ps s \<Longrightarrow> sp_persist s = ps"
  unfolding sup_reachable_def
  by (induction rule: rtranclp_induct) (auto simp: sup_New_def elim!: sup_step.cases)

section \<open>Handles\<close>

lemma counter_text_inj: "decimal_nat m = decimal_nat n \<Longrightarrow> m = n"
proof (induction m arbitrary: n rule: decimal_nat.induct)
  case (1 m)
  have digit: "char_of (48 + x) = (char_of (48 + y) :: char) \<longleftrightarrow> x = y" if "x < 10" "y < 10" for x y :: nat
    using that by (simp add: char_of_eq_iff take_bit_eq_mod)
  have long: "decimal_nat k \<noteq> []" for k by (subst decimal_nat.simps) simp
  show ?case
  proof (cases "m < 10")
    case True
    then show ?thesis using 1(2) long long [symmetric] digit
      by (subst (asm) decimal_nat.simps, subst (asm) (2) decimal_nat.simps) (auto split: if_splits)
  next
    case False
    then have m: "decimal_nat m = decimal_nat (m div 10) @ [char_of (48 + m mod 10)]" by (subst decimal_nat.simps) simp
    show ?thesis
    proof (cases "n < 10")
      case True
      then have "decimal_nat n = [char_of (48 + n)]" by (subst decimal_nat.simps) simp
      then show ?thesis using m 1(2) long [symmetric] by simp
    next
      case n: False
      then have "decimal_nat n = decimal_nat (n div 10) @ [char_of (48 + n mod 10)]" by (subst decimal_nat.simps) simp
      then have "decimal_nat (m div 10) = decimal_nat (n div 10)" "m mod 10 = n mod 10" using m 1(2) digit by simp_all
      then show ?thesis using 1(1) [OF False] by (metis div_mult_mod_eq)
    qed
  qed
qed

lemma handle_of_inj: "handle_of m = handle_of n \<longleftrightarrow> m = n"
  by (auto simp: handle_of_def decimal_def word_unat_eq_iff dest!: counter_text_inj)

text \<open>The states a handle goes through, by how far its request has come.\<close>

definition requests :: "'c sup_event list \<Rightarrow> nat" where
  "requests tr = length (filter (\<lambda>e. case e of EvRequest h c \<Rightarrow> True | _ \<Rightarrow> False) tr)"

definition settled :: "SupState list list" where
  "settled = [[SupPending, SupFailed], [SupPending, SupCutoverInProgress, SupSucceeded],
     [SupPending, SupCutoverInProgress, SupRolledBack], [SupPending, SupCutoverInProgress, SupPersistFailed]]"

fun pc_states :: "'c run_pc \<Rightarrow> SupState list list" where
  "pc_states (PcPreflightFailed r a c) = [[SupPending, SupFailed]]"
| "pc_states (PcBuild r c) = [[SupPending, SupCutoverInProgress]]"
| "pc_states (PcBuildFailed r e c) = [[SupPending, SupCutoverInProgress]]"
| "pc_states (PcFinishRollback r e c) = [[SupPending, SupCutoverInProgress, SupRolledBack]]"
| "pc_states (PcStarted r a) = [[SupPending, SupCutoverInProgress]]"
| "pc_states (PcPersist r a) = [[SupPending, SupCutoverInProgress]]"
| "pc_states (PcReport r a err) = [[SupPending, SupCutoverInProgress]]"
| "pc_states (PcSetCurrentCfg r a) = settled"
| "pc_states (PcFinish r a) = settled"
| "pc_states _ = [[SupPending]]"

definition expected :: "'c supervised \<Rightarrow> Handle \<Rightarrow> SupState list list" where
  "expected s h =
     (if list_ex (\<lambda>r. snd r = h) (sv_sending s @ sp_reloadCh s) then [[SupPending]]
      else case pc_req (sv_pc s) of
          Some r \<Rightarrow> if snd r = h then pc_states (sv_pc s) else [] # settled
        | None \<Rightarrow> [] # settled)"

definition life_inv :: "'c supervised \<Rightarrow> bool" where
  "life_inv s \<longleftrightarrow> (requests (sv_trace s) < 2 ^ 64 \<longrightarrow>
     unat (sp_seq s) = requests (sv_trace s) \<and>
     (\<forall>h. states_of h (sv_trace s) \<noteq> [] \<longrightarrow>
        (\<exists>k. 0 < k \<and> k \<le> requests (sv_trace s) \<and> h = handle_of (of_nat k))) \<and>
     (\<forall>h. states_of h (sv_trace s) \<in> set (expected s h)) \<and>
     (\<forall>h. sp_status s h = (if states_of h (sv_trace s) = [] then None else Some (last (states_of h (sv_trace s))))))"

lemma requests_snoc [simp]:
  "requests [] = 0" "requests (tr @ [EvState h st]) = requests tr" "requests (tr @ [EvStarted a c]) = requests tr"
  "requests (tr @ [EvShutdown a err]) = requests tr" "requests (tr @ [EvPersist c b]) = requests tr"
  "requests (tr @ [EvRequest h c]) = Suc (requests tr)"
  by (simp_all add: requests_def)

lemma life_inv_New: "life_inv (sup_New c pf ps)"
  by (simp add: life_inv_def sup_New_def expected_def)

text \<open>A step that tells no state keeps the histories; one that tells the state of the request in hand
  extends its history.\<close>

lemma life_inv_silent:
  assumes inv: "life_inv s" and "requests (sv_trace s') = requests (sv_trace s)" "sp_seq s' = sp_seq s"
    "sp_status s' = sp_status s" "\<And>h. states_of h (sv_trace s') = states_of h (sv_trace s)"
    and exp: "\<And>h. set (expected s h) \<subseteq> set (expected s' h)"
  shows "life_inv s'"
  using assms by (auto simp: life_inv_def dest!: subsetD [OF exp])

lemma life_inv_tell:
  assumes inv: "life_inv s" and one: "sv_sending s = []" "sp_reloadCh s = []" and r: "pc_req (sv_pc s) = Some r"
    and r': "pc_req pc' = Some r" and st: "\<And>xs. xs \<in> set (pc_states (sv_pc s)) \<Longrightarrow> xs \<noteq> [] \<and> xs @ [st] \<in> set (pc_states pc')"
  shows "life_inv (goto_pc pc' (setStatus (snd r) st s))"
proof -
  have e: "expected s h = (if snd r = h then pc_states (sv_pc s) else [] # settled)" for h
    using one r by (simp add: expected_def)
  have "states_of (snd r) (sv_trace s) \<in> set (pc_states (sv_pc s))" if "requests (sv_trace s) < 2 ^ 64"
    using inv e [of "snd r"] that unfolding life_inv_def by (metis (full_types))
  then show ?thesis using inv one r' e st
    by (auto simp: life_inv_def sup_op_defs expected_def split: if_splits)
qed

lemma build_frame:
  assumes "buildAndStart c b st sh s = (x, s1)"
  shows "requests (sv_trace s1) = requests (sv_trace s)" "sp_seq s1 = sp_seq s" "sp_status s1 = sp_status s"
    "states_of h (sv_trace s1) = states_of h (sv_trace s)" "sv_sending s1 = sv_sending s" "sp_reloadCh s1 = sp_reloadCh s"
  using assms by (cases rule: buildAndStart_cases, simp_all)+

lemma in_hand_alone:
  assumes "sup_inv s" and "pc_req (sv_pc s) = Some r"
  shows "sv_sending s = []" and "sp_reloadCh s = []"
  using assms by (auto simp: sup_inv_def in_flight_def split: if_splits)

lemma life_inv_run:
  assumes sup: "sup_inv s" and inv: "life_inv s" and step: "run_step ch s = Some s'"
  shows "life_inv s'"
proof (cases "sv_pc s")
  case (PcBoot c)
  obtain r s1 where b: "buildAndStart c (ch_build ch) (ch_start ch) (ch_shutdown ch) s = (r, s1)" by fastforce
  then show ?thesis using step PcBoot build_frame [OF b]
    by (intro life_inv_silent [OF inv]) (auto simp: run_step_def goto_pc_def expected_def split: sum.splits)
next
  case (PcBuild r c)
  obtain x s1 where b: "buildAndStart (fst r) (ch_build ch) (ch_start ch) (ch_shutdown ch) s = (x, s1)" by fastforce
  then show ?thesis using step PcBuild build_frame [OF b]
    by (intro life_inv_silent [OF inv]) (auto simp: run_step_def goto_pc_def expected_def split: sum.splits)
next
  case (PcRollback e c)
  obtain x s1 where b: "buildAndStart c (ch_build ch) (ch_start ch) (ch_shutdown ch) s = (x, s1)" by fastforce
  then show ?thesis using step PcRollback build_frame [OF b]
    by (intro life_inv_silent [OF inv]) (auto simp: run_step_def goto_pc_def expected_def split: sum.splits)
next
  case (PcServe a c)
  have "length (sp_reloadCh s) \<le> 1" using sup by (auto simp: sup_inv_def in_flight_def split: if_splits)
  then show ?thesis using step PcServe
    by (intro life_inv_silent [OF inv])
      (auto simp: run_step_def serve_select_def goto_pc_def expected_def split: serve_arm.splits if_splits list.splits)
next
  case (PcPreflight r a c)
  note alone = in_hand_alone [OF sup, of r]
  show ?thesis
  proof (cases "sp_preflight s \<and> ch_seam ch \<noteq> None")
    case True
    have "life_inv (goto_pc (PcPreflightFailed r a c) (setStatus (snd r) SupFailed s))"
      by (rule life_inv_tell [OF inv]) (auto simp: alone PcPreflight)
    then show ?thesis using step PcPreflight True by (simp add: run_step_def)
  next
    case False
    then show ?thesis using step PcPreflight
      by (intro life_inv_silent [OF inv]) (auto simp: run_step_def goto_pc_def expected_def)
  qed
next
  case (PcSwitch reason c)
  show ?thesis
  proof (cases reason)
    case (reasonReload r)
    note alone = in_hand_alone [OF sup, of r]
    have "life_inv (goto_pc (PcBuild r c) (setStatus (snd r) SupCutoverInProgress s))"
      by (rule life_inv_tell [OF inv]) (auto simp: alone PcSwitch reasonReload)
    then show ?thesis using step PcSwitch reasonReload by (simp add: run_step_def run_switch_def)
  qed (use step PcSwitch in \<open>auto intro!: life_inv_silent [OF inv] simp: run_step_def run_switch_def goto_pc_def expected_def\<close>)
next
  case (PcBuildFailed r e c)
  note alone = in_hand_alone [OF sup, of r]
  have "life_inv (goto_pc (PcFinishRollback r e c) (setStatus (snd r) SupRolledBack s))"
    by (rule life_inv_tell [OF inv]) (auto simp: alone PcBuildFailed)
  then show ?thesis using step PcBuildFailed by (simp add: run_step_def)
next
  case (PcReport r a err)
  note alone = in_hand_alone [OF sup, of r]
  have "life_inv (goto_pc (PcSetCurrentCfg r a) (setStatus (snd r) (if err \<noteq> None then SupPersistFailed else SupSucceeded) s))"
    by (rule life_inv_tell [OF inv]) (auto simp: alone PcReport settled_def)
  then show ?thesis using step PcReport by (simp add: run_step_def)
next
  case (PcPersist r a)
  then show ?thesis using step
    by (intro life_inv_silent [OF inv]) (auto simp: run_step_def sup_op_defs persistConfig_def expected_def split: if_splits)
next
  case (PcStopped reason a c)
  then show ?thesis using step
    by (intro life_inv_silent [OF inv]) (cases reason; auto simp: run_step_def sup_op_defs expected_def)+
qed (use step in \<open>auto intro!: life_inv_silent [OF inv] simp: run_step_def sup_op_defs expected_def settled_def split: if_splits\<close>)

lemma life_inv_send:
  assumes sup: "sup_inv s" and inv: "life_inv s" and step: "send_reload i s = Some s'"
  shows "life_inv s'"
proof -
  have i: "i < length (sv_sending s)" "sp_reloadCh s = []"
      "s' = s\<lparr>sp_reloadCh := [sv_sending s ! i], sv_sending := take i (sv_sending s) @ drop (Suc i) (sv_sending s)\<rparr>"
    using step by (auto simp: send_reload_def split: if_splits)
  moreover have "length (sv_sending s) \<le> 1" using sup by (auto simp: sup_inv_def in_flight_def split: if_splits)
  ultimately obtain r where "sv_sending s = [r]" "i = 0" by (cases "sv_sending s") (auto simp: le_Suc_eq)
  then show ?thesis using i by (intro life_inv_silent [OF inv]) (auto simp: expected_def cong: option.case_cong if_cong)
qed

lemma life_inv_request:
  assumes sup: "sup_inv s" and inv: "life_inv s"
  shows "life_inv (snd (RequestReload c s))"
proof (cases "sp_shuttingDown s \<or> sp_reloadInProgress s")
  case True
  then show ?thesis using inv by (auto simp: RequestReload_def)
next
  case False
  let ?tr = "sv_trace s" and ?h = "handle_of (sp_seq s + 1)"
  have flight: "sv_sending s = []" "sp_reloadCh s = []" "pc_req (sv_pc s) = None"
    using sup False by (auto simp: sup_inv_def in_flight_def split: option.splits)
  have tr': "states_of h (?tr @ [EvRequest ?h c, EvState ?h SupPending]) = states_of h ?tr @ (if ?h = h then [SupPending] else [])"
    "requests (?tr @ [EvRequest ?h c, EvState ?h SupPending]) = Suc (requests ?tr)" for h
    using states_of_snoc(2) [of h "?tr @ [EvRequest ?h c]" ?h SupPending]
      requests_snoc(2) [of "?tr @ [EvRequest ?h c]" ?h SupPending] by simp_all
  have "life_inv (snd (RequestReload c s))" if fits: "Suc (requests ?tr) < 2 ^ 64"
  proof -
    from inv fits have old: "unat (sp_seq s) = requests ?tr"
      "\<And>h. states_of h ?tr \<noteq> [] \<Longrightarrow> \<exists>k>0. k \<le> requests ?tr \<and> h = handle_of (of_nat k)"
      "\<And>h. states_of h ?tr \<in> set ([] # settled)"
      "\<And>h. sp_status s h = (if states_of h ?tr = [] then None else Some (last (states_of h ?tr)))"
      using flight by (auto simp: life_inv_def expected_def)
    have seq: "sp_seq s + 1 = of_nat (Suc (requests ?tr))" by (simp flip: old(1))
    then have unat: "unat (sp_seq s + 1) = Suc (requests ?tr)" using fits by (simp add: unsigned_of_nat take_bit_nat_eq_self del: of_nat_Suc)
    have fresh: "states_of ?h ?tr = []"
    proof (rule ccontr)
      assume "states_of ?h ?tr \<noteq> []"
      then obtain k where k: "k \<le> requests ?tr" "?h = handle_of (of_nat k)" using old(2) by blast
      then have "sp_seq s + 1 = of_nat k" by (simp add: handle_of_inj)
      then have "Suc (requests ?tr) = unat (of_nat k :: 64 word)" using unat by simp
      also have "\<dots> = k" using k(1) fits by (simp add: unsigned_of_nat take_bit_nat_eq_self)
      finally show False using k(1) by simp
    qed
    have new: "\<exists>k>0. k \<le> Suc (requests ?tr) \<and> h = handle_of (of_nat k)" if "states_of h ?tr \<noteq> [] \<or> h = ?h" for h
      using that old(2) [of h] seq by (metis le_Suc_eq zero_less_Suc le_refl)
    show ?thesis using False flight old(3,4) unat fresh new
      by (auto simp: life_inv_def RequestReload_def sup_op_defs Let_def tr' expected_def)
  qed
  moreover have "life_inv (snd (RequestReload c s))" if "\<not> Suc (requests ?tr) < 2 ^ 64"
    using that False by (auto simp: life_inv_def RequestReload_def sup_op_defs Let_def tr')
  ultimately show ?thesis by blast
qed

lemma life_inv_do: "sup_inv s \<Longrightarrow> life_inv s \<Longrightarrow> sup_do x s = Some s' \<Longrightarrow> life_inv s'"
proof (induction x)
  case OpCancel
  then show ?case by (auto simp: sup_do_def intro!: life_inv_silent [of s] simp: expected_def cong: option.case_cong if_cong)
qed (auto simp: sup_do_def intro: life_inv_run life_inv_request life_inv_send)

lemma reachable_life_inv: "sup_reachable c pf ps s \<Longrightarrow> life_inv s"
  unfolding sup_reachable_def
proof (induction rule: rtranclp_induct)
  case base
  show ?case by (rule life_inv_New)
next
  case (step s s')
  then have "sup_inv s" using reachable_sup_inv by (auto simp: sup_reachable_def)
  then show ?case using step by (auto intro: life_inv_do elim!: sup_step.cases)
qed

section \<open>The end of a reload\<close>

text \<open>\<open>Run\<close> on its own, until it serves again or has returned.\<close>

fun at_rest :: "'c run_pc \<Rightarrow> bool" where
  "at_rest (PcServe a c) = True"
| "at_rest (PcReturned e) = True"
| "at_rest _ = False"

fun run_on :: "choice list \<Rightarrow> 'c supervised \<Rightarrow> 'c supervised option" where
  "run_on chs s =
     (if at_rest (sv_pc s) then Some s
      else case chs of [] \<Rightarrow> None | ch # rest \<Rightarrow> Option.bind (run_step ch s) (run_on rest))"

declare run_on.simps [simp del]

fun pc_rank :: "'c run_pc \<Rightarrow> nat" where
  "pc_rank (PcServe a c) = 0"
| "pc_rank (PcReturned e) = 0"
| "pc_rank (PcSetCurrent a c) = 1"
| "pc_rank (PcPreflightFailed r a c) = 1"
| "pc_rank (PcBoot c) = 2"
| "pc_rank (PcRollback e c) = 2"
| "pc_rank (PcFinishRollback r e c) = 3"
| "pc_rank (PcBuildFailed r e c) = 4"
| "pc_rank (PcFinish r a) = 1"
| "pc_rank (PcSetCurrentCfg r a) = 2"
| "pc_rank (PcReport r a err) = 3"
| "pc_rank (PcPersist r a) = 4"
| "pc_rank (PcStarted r a) = 5"
| "pc_rank (PcBuild r c) = 6"
| "pc_rank (PcSwitch reason c) = 7"
| "pc_rank (PcStopped reason a c) = 8"
| "pc_rank (PcPreflight r a c) = 9"

lemma run_step_rank:
  assumes "\<not> at_rest (sv_pc s)"
  shows "\<exists>s'. run_step ch s = Some s' \<and> pc_rank (sv_pc s') < pc_rank (sv_pc s)"
  using assms
  by (cases "sv_pc s")
    (auto simp: run_step_def sup_op_defs buildAndStart_def persistConfig_def run_switch_def Let_def
      split: option.splits stopReason.splits)

text \<open>A request in hand stays in hand until its history is settled.\<close>

lemma run_step_req:
  assumes "life_inv s" "sup_inv s" "requests (sv_trace s) < 2 ^ 64" "run_step ch s = Some s'"
    and "pc_req (sv_pc s) = Some r"
  shows "requests (sv_trace s') = requests (sv_trace s) \<and>
    (pc_req (sv_pc s') = Some r \<or> states_of (snd r) (sv_trace s') \<in> set settled)"
proof -
  have alone: "sv_sending s = []" "sp_reloadCh s = []" using in_hand_alone [OF assms(2,5)] .
  have "states_of (snd r) (sv_trace s) \<in> set (pc_states (sv_pc s))"
    using assms(1,3,5) alone unfolding life_inv_def expected_def by (auto dest!: spec [of _ "snd r"])
  then show ?thesis using assms(4,5)
    by (cases "sv_pc s" rule: pc_req.cases)
      (auto simp: run_step_def sup_op_defs buildAndStart_def persistConfig_def run_switch_def Let_def settled_def
        split: option.splits stopReason.splits if_splits)
qed

text \<open>The positions between taking the request \<open>r\<close>, with \<open>c\<close> being served, and the end of that reload.\<close>

fun within_reload :: "'c reloadReq \<Rightarrow> 'c \<Rightarrow> 'c run_pc \<Rightarrow> bool" where
  "within_reload r c (PcPreflight r' a c') = (r' = r \<and> c' = c)"
| "within_reload r c (PcPreflightFailed r' a c') = (r' = r \<and> c' = c)"
| "within_reload r c (PcStopped reason a c') = (reason = reasonReload r \<and> c' = c)"
| "within_reload r c (PcSwitch reason c') = (reason = reasonReload r \<and> c' = c)"
| "within_reload r c (PcBuild r' c') = (r' = r \<and> c' = c)"
| "within_reload r c (PcBuildFailed r' e c') = (r' = r \<and> c' = c)"
| "within_reload r c (PcFinishRollback r' e c') = (r' = r \<and> c' = c)"
| "within_reload r c (PcRollback e c') = (c' = c)"
| "within_reload r c (PcSetCurrent a c') = (c' = c)"
| "within_reload r c (PcStarted r' a) = (r' = r)"
| "within_reload r c (PcPersist r' a) = (r' = r)"
| "within_reload r c (PcReport r' a err) = (r' = r)"
| "within_reload r c (PcSetCurrentCfg r' a) = (r' = r)"
| "within_reload r c (PcFinish r' a) = (r' = r)"
| "within_reload r c (PcServe a c') = (c' = c \<or> c' = fst r)"
| "within_reload r c (PcReturned e) = (e \<noteq> None)"
| "within_reload r c (PcBoot c') = False"

lemma within_reload_step:
  assumes "within_reload r c (sv_pc s)" "\<not> at_rest (sv_pc s)" "run_step ch s = Some s'"
  shows "within_reload r c (sv_pc s')"
  using assms
  by (cases "sv_pc s")
    (auto simp: run_step_def sup_op_defs buildAndStart_def persistConfig_def run_switch_def Let_def
      split: option.splits if_splits)

lemma states_of_kept:
  assumes "\<not> at_rest (sv_pc s)" "run_step ch s = Some s'" "pc_req (sv_pc s) \<noteq> Some r \<or> snd r \<noteq> h" "pc_req (sv_pc s) = None"
  shows "states_of h (sv_trace s') = states_of h (sv_trace s) \<and> requests (sv_trace s') = requests (sv_trace s) \<and>
    pc_req (sv_pc s') = None"
  using assms
  by (cases "sv_pc s" rule: pc_req.cases)
    (auto simp: run_step_def sup_op_defs buildAndStart_def persistConfig_def run_switch_def Let_def
      split: option.splits if_splits stopReason.splits)

lemma run_on_settles:
  assumes "pc_rank (sv_pc s) \<le> length chs" "sup_inv s" "life_inv s" "requests (sv_trace s) < 2 ^ 64"
    and "within_reload r c (sv_pc s)"
    and "pc_req (sv_pc s) = Some r \<or> pc_req (sv_pc s) = None \<and> states_of (snd r) (sv_trace s) \<in> set settled"
  shows "\<exists>s'. run_on chs s = Some s' \<and> at_rest (sv_pc s') \<and> within_reload r c (sv_pc s') \<and>
    states_of (snd r) (sv_trace s') \<in> set settled"
  using assms
proof (induction chs arbitrary: s)
  case Nil
  have "at_rest (sv_pc s)"
  proof (rule ccontr)
    assume "\<not> at_rest (sv_pc s)"
    from run_step_rank [OF this] Nil.prems(1) show False by auto
  qed
  then show ?case using Nil by (cases "sv_pc s") (auto simp: run_on.simps)
next
  case (Cons ch chs)
  show ?case
  proof (cases "at_rest (sv_pc s)")
    case True
    then show ?thesis using Cons.prems by (cases "sv_pc s") (auto simp: run_on.simps)
  next
    case False
    then obtain s1 where s1: "run_step ch s = Some s1" "pc_rank (sv_pc s1) < pc_rank (sv_pc s)"
      using run_step_rank by blast
    have inv: "sup_inv s1" "life_inv s1"
      using Cons.prems(2,3) s1(1) by (auto intro: sup_inv_run life_inv_run)
    have w: "within_reload r c (sv_pc s1)" by (rule within_reload_step [OF Cons.prems(5) False s1(1)])
    have req: "requests (sv_trace s1) < 2 ^ 64 \<and>
      (pc_req (sv_pc s1) = Some r \<or> pc_req (sv_pc s1) = None \<and> states_of (snd r) (sv_trace s1) \<in> set settled)"
    proof (cases "pc_req (sv_pc s)")
      case None
      then show ?thesis using states_of_kept [OF False s1(1), of r "snd r"] Cons.prems(4,6) by auto
    next
      case (Some r')
      then have "r' = r" using Cons.prems(6) by auto
      moreover have "pc_req (sv_pc s1) = Some r \<or> pc_req (sv_pc s1) = None"
        using w by (cases "sv_pc s1") auto
      ultimately show ?thesis using run_step_req [OF Cons.prems(3,2,4) s1(1)] Some Cons.prems(4) by auto
    qed
    then obtain s' where "run_on chs s1 = Some s'" "at_rest (sv_pc s')" "within_reload r c (sv_pc s')"
        "states_of (snd r) (sv_trace s') \<in> set settled"
      using Cons.IH [of s1] s1(2) Cons.prems(1) inv w by auto
    then show ?thesis using False s1(1) by (auto simp: run_on.simps [of "ch # chs"])
  qed
qed

section \<open>What the supervisor guarantees\<close>

text \<open>
  C24: The cutover is safe under every interleaving. Whenever an application is started, every earlier one has been
  asked to shut down; one that may still hold workers or the store is one whose \<open>Shutdown\<close> answered with an
  error, over which the cutover goes on, so after drains without errors no other generation holds anything. What is
  persisted is the configuration of the application that is up, which has started successfully. And when a reload is
  reported as succeeded, the application built from the requested configuration is up and, if a persist seam is set,
  that configuration is on disk already.
\<close>

theorem reload_cutover_safe:
  assumes "sup_reachable c0 preflight persist s" and "sv_trace s = tr1 @ e # tr2"
  shows "(\<forall>a c. e = EvStarted a c \<longrightarrow> up tr1 = [] \<and>
      (\<forall>a'\<in>set (holding tr1). \<exists>err. EvShutdown a' (Some err) \<in> set tr1) \<and>
      ((\<forall>a' err. EvShutdown a' (Some err) \<notin> set tr1) \<longrightarrow> holding tr1 = [])) \<and>
    (\<forall>c written. e = EvPersist c written \<longrightarrow> (\<exists>a. up tr1 = [(a, c)])) \<and>
    (\<forall>h. e = EvState h SupSucceeded \<longrightarrow>
       (\<exists>a c. EvRequest h c \<in> set tr1 \<and> up tr1 = [(a, c)] \<and> (persist \<longrightarrow> on_disk tr1 = Some c)))"
proof -
  have "event_ok persist tr1 e"
    using reachable_sup_inv [OF assms(1)] reachable_persist [OF assms(1)] assms(2)
    unfolding sup_inv_def trace_ok_def by blast
  moreover have "\<exists>err. EvShutdown a' (Some err) \<in> set tr1" if "up tr1 = []" "a' \<in> set (holding tr1)" for a'
    using holding_up_or_failed [OF that(2)] that(1) by simp
  moreover from this have "holding tr1 = []" if "up tr1 = []" "\<forall>a' err. EvShutdown a' (Some err) \<notin> set tr1"
    using that by (metis list.set_intros(1) neq_Nil_conv)
  ultimately show ?thesis by auto
qed

text \<open>
  Reloads are single-flight. At most one request is between \<open>RequestReload\<close> and its settlement, and
  one is exactly when the flag says so; a caller past the lock never waits on the channel, and a second
  request is refused. While an application is served it is the current one, the only one up, and
  \<open>CurrentConfig\<close> is the configuration it was built from.
\<close>

theorem reload_single_flight:
  assumes "sup_reachable c0 preflight persist s"
  shows "length (in_flight s) = (if sp_reloadInProgress s then 1 else 0) \<and>
    (sv_sending s \<noteq> [] \<longrightarrow> send_reload 0 s \<noteq> None) \<and>
    (in_flight s \<noteq> [] \<and> \<not> sp_shuttingDown s \<longrightarrow> RequestReload c s = (Inl ErrReloadInProgress, s)) \<and>
    (\<forall>a c. sv_pc s = PcServe a c \<longrightarrow> Current s = Some a \<and> CurrentConfig s = c \<and> up (sv_trace s) = [(a, c)])"
proof -
  have inv: "sup_inv s" by (rule reachable_sup_inv [OF assms])
  then have n: "length (in_flight s) = (if sp_reloadInProgress s then 1 else 0)" by (simp add: sup_inv_def)
  then have "sp_reloadCh s = []" if "sv_sending s \<noteq> []"
    using that by (cases "sv_sending s") (auto simp: in_flight_def split: if_splits)
  then show ?thesis using inv n
    by (auto simp: sup_inv_def send_reload_def RequestReload_def Current_def CurrentConfig_def split: if_splits)
qed

text \<open>
  C25: The states of a reload are told in order. As long as fewer than \<open>2^64\<close> reloads were requested, the
  states told of any handle are those of its life so far: pending, then failed, or then cutover in progress and
  one of succeeded, rolled back and persist failed; a settled handle is never told of again. \<open>Status\<close>
  answers with the last of them, and unless a reload is in progress every handle is settled.
\<close>

theorem reload_states_in_order:
  assumes "sup_reachable c0 preflight persist s" and "requests (sv_trace s) < 2 ^ 64"
  shows "states_of h (sv_trace s) \<in> set ([] # [SupPending] # [SupPending, SupCutoverInProgress] # settled) \<and>
    Status h s = (if states_of h (sv_trace s) = [] then None else Some (last (states_of h (sv_trace s)))) \<and>
    (\<not> sp_reloadInProgress s \<longrightarrow> states_of h (sv_trace s) \<in> set ([] # settled))"
proof -
  have sup: "sup_inv s" and life: "life_inv s"
    using reachable_sup_inv [OF assms(1)] reachable_life_inv [OF assms(1)] .
  then have st: "states_of h (sv_trace s) \<in> set (expected s h)"
    "Status h s = (if states_of h (sv_trace s) = [] then None else Some (last (states_of h (sv_trace s))))"
    using assms(2) by (auto simp: life_inv_def Status_def)
  have "set (pc_states pc) \<subseteq> set ([] # [SupPending] # [SupPending, SupCutoverInProgress] # settled)" for pc :: "'a run_pc"
    by (cases pc) (auto simp: settled_def)
  then have "set (expected s h) \<subseteq> set ([] # [SupPending] # [SupPending, SupCutoverInProgress] # settled)"
    by (auto simp: expected_def split: option.splits dest: subsetD)
  moreover have "expected s h = [] # settled" if "\<not> sp_reloadInProgress s"
    using sup that by (auto simp: sup_inv_def in_flight_def expected_def split: option.splits)
  ultimately show ?thesis using st by auto
qed

text \<open>
  C26: Every reload ends. Once the loop has taken a request off its channel, nine more of its steps are enough,
  whatever \<open>Preflight\<close>, \<open>build\<close>, \<open>Start\<close> and \<open>persist\<close> answer: the loop then serves the
  requested configuration, or serves again the one it served before, or has returned with an error, and the
  handle of the request is settled.
\<close>

theorem reload_settles:
  assumes "sup_reachable c0 preflight persist s" and "requests (sv_trace s) < 2 ^ 64"
    and "sv_pc s = PcServe a c" and "sp_reloadCh s = [r]" and "ch_arm ch = ArmReload" and "length chs = 9"
  shows "\<exists>s1 s'. run_step ch s = Some s1 \<and> run_on chs s1 = Some s' \<and>
    ((\<exists>a'. sv_pc s' = PcServe a' (fst r)) \<or> (\<exists>a'. sv_pc s' = PcServe a' c) \<or> (\<exists>e. sv_pc s' = PcReturned (Some e))) \<and>
    states_of (snd r) (sv_trace s') \<in> set settled"
proof -
  have inv: "sup_inv s" "life_inv s" using reachable_sup_inv [OF assms(1)] reachable_life_inv [OF assms(1)] .
  obtain s1 where s1: "run_step ch s = Some s1" "sv_pc s1 = PcPreflight r a c" "sv_trace s1 = sv_trace s"
    using assms(3-5) by (auto simp: run_step_def serve_select_def goto_pc_def)
  have "sup_inv s1" "life_inv s1" using sup_inv_run life_inv_run inv s1(1) by blast+
  then obtain s' where s': "run_on chs s1 = Some s'" "at_rest (sv_pc s')" "within_reload r c (sv_pc s')"
      "states_of (snd r) (sv_trace s') \<in> set settled"
    using run_on_settles [of s1 chs r c] s1 assms(2,6) by auto
  moreover have "(\<exists>a'. sv_pc s' = PcServe a' (fst r)) \<or> (\<exists>a'. sv_pc s' = PcServe a' c) \<or> (\<exists>e. sv_pc s' = PcReturned (Some e))"
    using s'(2,3) by (cases "sv_pc s'") auto
  ultimately show ?thesis using s1(1) by blast
qed

text \<open>
  The configuration file is replaced or left alone: with a temporary name that is free, a failed write
  leaves every file of the directory as it was, and a successful one changes the target to the marshalled
  configuration and nothing else.
\<close>

theorem WriteConfigAtomic_all_or_nothing:
  assumes "\<And>tmp. oa_create oa = Inr tmp \<Longrightarrow> fs tmp = None \<and> tmp \<noteq> path"
    and "WriteConfigAtomic oa path fs = (err, fs')"
  shows "case err of Some e \<Rightarrow> fs' = fs | None \<Rightarrow> (\<exists>data. oa_marshal oa = Inr data \<and> fs' = fs(path \<mapsto> data))"
  using assms
  by (auto simp: WriteConfigAtomic_def Let_def fun_upd_twist fun_upd_idem split: sum.splits option.splits if_splits)

section \<open>A run\<close>

text \<open>A supervisor that serves configuration \<open>1\<close> and is asked for configuration \<open>2\<close>; the first application does not
  drain in time.\<close>

fun sup_ops :: "'c sup_op list \<Rightarrow> 'c supervised \<Rightarrow> 'c supervised option" where
  "sup_ops [] s = Some s"
| "sup_ops (x # xs) s = Option.bind (sup_do x s) (sup_ops xs)"

lemma sup_ops_reach: "sup_ops xs s = Some s' \<Longrightarrow> sup_step\<^sup>*\<^sup>* s s'"
proof (induction xs arbitrary: s)
  case (Cons x xs)
  then obtain s1 where "sup_do x s = Some s1" "sup_ops xs s1 = Some s'" by (auto simp: bind_eq_Some_conv)
  then show ?case using Cons.IH by (meson converse_rtranclp_into_rtranclp sup_step.intros)
qed simp

definition all_well :: choice where
  "all_well = \<lparr>ch_build = None, ch_start = None, ch_shutdown = None, ch_seam = None, ch_arm = ArmReload\<rparr>"

text \<open>A drain that does not end in time.\<close>

definition undrained :: choice where
  "undrained = all_well\<lparr>ch_shutdown := Some (ErrorString ''app: router shutdown'')\<rparr>"

definition reload_asked :: "nat sup_op list" where
  "reload_asked = [OpRun all_well, OpRun all_well, OpRequest 2, OpSend 0]"

definition reload_told :: "nat sup_op list" where
  "reload_told = reload_asked @ replicate 2 (OpRun all_well) @ OpRun undrained # replicate 5 (OpRun all_well)"

definition asked_state :: "nat supervised" where "asked_state = the (sup_ops reload_asked (sup_New 1 True True))"
definition told_state :: "nat supervised" where "told_state = the (sup_ops reload_told (sup_New 1 True True))"

lemma sample_runs: "sup_ops reload_asked (sup_New 1 True True) \<noteq> None" "sup_ops reload_told (sup_New 1 True True) \<noteq> None"
  by code_simp+

lemma sample_reachable: "sup_reachable 1 True True asked_state" "sup_reachable 1 True True told_state"
  using sample_runs by (auto simp: sup_reachable_def asked_state_def told_state_def intro: sup_ops_reach)

lemma sample_asked:
  "sv_pc asked_state = PcServe 0 1" "sp_reloadCh asked_state = [(2, ''reload-1'')]" "requests (sv_trace asked_state) < 2 ^ 64"
proof -
  have "requests (sv_trace asked_state) = 1" by code_simp
  then show "requests (sv_trace asked_state) < 2 ^ 64" by simp
qed code_simp+

abbreviation told_early :: "nat sup_event list" where
  "told_early \<equiv> [EvStarted 0 1, EvRequest ''reload-1'' 2, EvState ''reload-1'' SupPending,
     EvShutdown 0 (Some (ErrorString ''app: router shutdown'')), EvState ''reload-1'' SupCutoverInProgress]"

lemma sample_told:
  "sv_trace told_state = told_early @ EvStarted 1 2 # [EvPersist 2 True, EvState ''reload-1'' SupSucceeded]"
  "sv_trace told_state = (told_early @ [EvStarted 1 2, EvPersist 2 True]) @ EvState ''reload-1'' SupSucceeded # []"
  "requests (sv_trace told_state) < 2 ^ 64"
proof -
  have "requests (sv_trace told_state) = 1" by code_simp
  then show "requests (sv_trace told_state) < 2 ^ 64" by simp
qed code_simp+

theorem reload_cutover_safe_witness:
  "up told_early = [] \<and> holding told_early = [0] \<and>
   (\<exists>err. EvShutdown 0 (Some err) \<in> set told_early) \<and>
   (\<exists>a c. EvRequest ''reload-1'' c \<in> set told_early \<and> up (told_early @ [EvStarted 1 2, EvPersist 2 True]) = [(a, c)] \<and>
      on_disk (told_early @ [EvStarted 1 2, EvPersist 2 True]) = Some c)"
  using reload_cutover_safe [OF sample_reachable(2) sample_told(1)] reload_cutover_safe [OF sample_reachable(2) sample_told(2)]
  by (simp add: holding_def)

theorem reload_single_flight_witness:
  "RequestReload 3 asked_state = (Inl ErrReloadInProgress, asked_state) \<and> Current asked_state = Some 0"
proof -
  have "in_flight asked_state \<noteq> []" "\<not> sp_shuttingDown asked_state" by code_simp+
  then show ?thesis using reload_single_flight [OF sample_reachable(1), of 3] sample_asked(1) by blast
qed

theorem reload_states_in_order_witness:
  "Status ''reload-1'' told_state = Some SupSucceeded"
proof -
  have "states_of ''reload-1'' (sv_trace told_state) = [SupPending, SupCutoverInProgress, SupSucceeded]" by code_simp
  then show ?thesis using reload_states_in_order [OF sample_reachable(2) sample_told(3), of "''reload-1''"] by simp
qed

theorem reload_settles_witness:
  "\<exists>s1 s'. run_step all_well asked_state = Some s1 \<and> run_on (replicate 9 all_well) s1 = Some s' \<and>
     states_of ''reload-1'' (sv_trace s') \<in> set settled"
proof -
  have "ch_arm all_well = ArmReload" "length (replicate 9 all_well) = 9" by (simp_all add: all_well_def)
  from reload_settles [OF sample_reachable(1) sample_asked(3,1,2) this] show ?thesis by auto
qed

theorem WriteConfigAtomic_all_or_nothing_witness:
  "snd (WriteConfigAtomic \<lparr>oa_marshal = Inr ''{}'', oa_create = Inr ''t'', oa_write = None, oa_partial = 0, oa_close = None,
     oa_rename = Some (ErrorString ''denied'')\<rparr> ''korvun.json'' [''korvun.json'' \<mapsto> ''old'']) = [''korvun.json'' \<mapsto> ''old'']"
proof -
  let ?oa = "\<lparr>oa_marshal = Inr ''{}'', oa_create = Inr ''t'', oa_write = None, oa_partial = 0, oa_close = None,
     oa_rename = Some (ErrorString ''denied'')\<rparr>"
  let ?fs = "[''korvun.json'' \<mapsto> ''old'']"
  obtain err fs' where w: "WriteConfigAtomic ?oa ''korvun.json'' ?fs = (err, fs')" by fastforce
  then have "err \<noteq> None" by (auto simp: WriteConfigAtomic_def)
  then show ?thesis using WriteConfigAtomic_all_or_nothing [OF _ w] w by auto
qed

text \<open>
  A reload is reported as succeeded before \<open>CurrentConfig\<close> changes: there is a reachable state
  in which the status of the handle is succeeded, the new application is the current one, and
  \<open>CurrentConfig\<close> still answers the configuration of the application that was shut down.
\<close>

theorem succeeded_before_CurrentConfig:
  "\<exists>s. sup_reachable (1 :: nat) True True s \<and> Status ''reload-1'' s = Some SupSucceeded \<and> Current s = Some 1 \<and>
     up (sv_trace s) = [(1, 2)] \<and> CurrentConfig s = 1"
proof -
  have "Status ''reload-1'' told_state = Some SupSucceeded" "Current told_state = Some 1"
    "up (sv_trace told_state) = [(1, 2)]" "CurrentConfig told_state = 1"
    by code_simp+
  then show ?thesis using sample_reachable(2) by blast
qed

end
