(* ===== verification/Orchestrator.thy ===== *)
theory Orchestrator
  imports Brain_Text
begin

text \<open>
  The stateless brain (\<open>internal/brain/orchestrator.go\<close>): one message is translated to a request with the
  recent turns of its conversation, dispatched to the models in parallel or serially, reduced by the policy, and
  answered; the pair of question and answer is remembered.

  The conversation store is the in-memory one, threaded through; whether a load or an append fails, the
  clock, the fresh id of the reply and what the calls meet are the record \<open>handle_env\<close>. Logging and metrics are
  not modelled. \<open>None\<close> is a fan-out that still waits for a model.
\<close>

section \<open>The brain\<close>

text \<open>The two implementations of the interface \<open>Coordinator\<close> and of \<open>policy.Policy\<close> the program mounts.\<close>

datatype dispatch_shape = FanOut Coordinator | Serial duration

datatype brain_policy = PriorityPolicy "string list" | ConsensusPolicy ConsensusReducer

record Orchestrator =
  or_coord :: dispatch_shape
  or_models :: "Model option list"
  or_policy :: brain_policy
  or_fallback :: string
  or_fallbackSet :: bool
  or_systemPrompt :: string
  or_store :: bool
  or_historyN :: int

record handle_env =
  he_ctx :: "ctx option"
  he_calls :: "nat \<Rightarrow> call_env"
  he_order :: "nat list"
  he_loadErr :: "go_error option"
  he_appendErr :: "go_error option"
  he_now :: time
  he_stamp :: "string \<times> time"

definition defaultFallback :: string where
  "defaultFallback = ''Sorry, no answer is available right now. Please try again.''"
definition retrySoonFallback :: string where
  "retrySoonFallback = ''The model is still starting up or busy. Please try again in a moment.''"
definition unavailableFallback :: string where
  "unavailableFallback = ''The model provider is currently unavailable. Please try again later.''"
definition defaultHistoryTurns :: int where "defaultHistoryTurns = 10"

datatype orch_Option = WithFallback string | WithSystemPrompt string | WithConversationStore bool int

fun apply_orch_Option :: "orch_Option \<Rightarrow> Orchestrator \<Rightarrow> Orchestrator" where
  "apply_orch_Option (WithFallback text) o' =
     (if text \<noteq> '''' then o'\<lparr>or_fallback := text, or_fallbackSet := True\<rparr> else o')"
| "apply_orch_Option (WithSystemPrompt prompt) o' = o'\<lparr>or_systemPrompt := prompt\<rparr>"
| "apply_orch_Option (WithConversationStore store recentTurns) o' =
     (if \<not> store then o'
      else o'\<lparr>or_store := True, or_historyN := (if recentTurns \<le> 0 then defaultHistoryTurns else recentTurns)\<rparr>)"

definition NewOrchestrator :: "dispatch_shape \<Rightarrow> Model option list \<Rightarrow> brain_policy \<Rightarrow> orch_Option list \<Rightarrow> Orchestrator" where
  "NewOrchestrator coord models p opts =
     fold apply_orch_Option opts
       \<lparr>or_coord = coord, or_models = models, or_policy = p, or_fallback = defaultFallback, or_fallbackSet = False,
        or_systemPrompt = '''', or_store = False, or_historyN = 0\<rparr>"

definition coord_Run ::
    "dispatch_shape \<Rightarrow> handle_env \<Rightarrow> Request \<Rightarrow> Model option list \<Rightarrow> (go_error + Outcome list) option" where
  "coord_Run shape he req models =
     (case shape of
        FanOut co \<Rightarrow> fanout_Run co (he_ctx he) (Some req) models (he_calls he) (he_order he)
      | Serial tmo \<Rightarrow> Some (sequential_Run tmo (he_ctx he) (Some req) models (he_calls he)))"

definition policy_Apply :: "(string \<Rightarrow> string) \<Rightarrow> brain_policy \<Rightarrow> Outcome list \<Rightarrow> Decision \<times> go_error option" where
  "policy_Apply uni p ocs =
     (case p of PriorityPolicy order \<Rightarrow> priority_policy order ocs | ConsensusPolicy r \<Rightarrow> consensus_policy uni r ocs)"

section \<open>Memory\<close>

definition loadHistory :: "bool \<Rightarrow> int \<Rightarrow> go_error option \<Rightarrow> Envelope \<Rightarrow> MemStore \<Rightarrow> string \<times> Turn list" where
  "loadHistory store n loadErr env mem =
     (if \<not> store then ('''', [])
      else (case KeyFromEnvelope (Some env) of
              Inl _ \<Rightarrow> ('''', [])
            | Inr key \<Rightarrow> (case loadErr of Some _ \<Rightarrow> (key, []) | None \<Rightarrow> (key, LoadRecent key n mem))))"

definition pair_turns :: "time \<Rightarrow> string \<Rightarrow> string \<Rightarrow> Turn list" where
  "pair_turns now userText assistantText =
     (if userText \<noteq> '''' then [\<lparr>tn_Role = ''user'', tn_Content = userText, tn_Timestamp = now, tn_Seq = 0\<rparr>] else []) @
     (if assistantText \<noteq> ''''
      then [\<lparr>tn_Role = ''assistant'', tn_Content = assistantText, tn_Timestamp = now, tn_Seq = 0\<rparr>] else [])"

text \<open>An append that fails is logged and changes nothing.\<close>

definition persistTurns ::
    "bool \<Rightarrow> go_error option \<Rightarrow> time \<Rightarrow> string \<Rightarrow> string \<Rightarrow> string \<Rightarrow> MemStore \<Rightarrow> MemStore" where
  "persistTurns store appendErr now key userText assistantText mem =
     (if \<not> store \<or> key = '''' then mem
      else let turns = pair_turns now userText assistantText
        in if turns = [] then mem
           else (case appendErr of Some _ \<Rightarrow> mem | None \<Rightarrow> snd (AppendTurns key turns mem)))"

section \<open>One message\<close>

definition hasHopefulFailure :: "Outcome list \<Rightarrow> bool" where
  "hasHopefulFailure ocs \<longleftrightarrow>
     list_ex (\<lambda>oc. case oc_Err oc of
        None \<Rightarrow> False
      | Some e \<Rightarrow> errors_Is e context_DeadlineExceeded \<or> errors_As_RateLimit e \<noteq> None) ocs"

definition fallbackText :: "Orchestrator \<Rightarrow> Outcome list \<Rightarrow> go_error \<Rightarrow> string" where
  "fallbackText o' ocs policyErr =
     (if or_fallbackSet o' then or_fallback o'
      else if errors_Is policyErr ErrNoConsensus then defaultFallback
      else if hasHopefulFailure ocs then retrySoonFallback else unavailableFallback)"

definition classifyPolicyErr :: "go_error \<Rightarrow> bool" where
  "classifyPolicyErr err \<longleftrightarrow> errors_Is err ErrNoUsableOutcome \<or> errors_Is err ErrNoConsensus"

definition orch_Handle ::
    "(string \<Rightarrow> string) \<Rightarrow> Orchestrator \<Rightarrow> handle_env \<Rightarrow> Envelope \<Rightarrow> MemStore \<Rightarrow>
     ((Envelope list \<times> go_error option) \<times> MemStore) option" where
  "orch_Handle uni o' he env mem =
     (let (key, history) = loadHistory (or_store o') (or_historyN o') (he_loadErr he) env mem;
          persist = persistTurns (or_store o') (he_appendErr he) (he_now he) key (TranscriptText (en_Parts env)) in
      case requestWithHistory env (or_systemPrompt o') history of
        None \<Rightarrow>
          Some (([], None), if TranscriptText (en_Parts env) \<noteq> '''' then persist '''' mem else mem)
      | Some req \<Rightarrow>
          (case coord_Run (or_coord o') he req (or_models o') of
             None \<Rightarrow> None
           | Some (Inl err) \<Rightarrow> Some (([], Some (Errorf ''brain: fan-out: %w'' [err])), mem)
           | Some (Inr ocs) \<Rightarrow>
               (case policy_Apply uni (or_policy o') ocs of
                  (dec, Some err) \<Rightarrow>
                    if classifyPolicyErr err
                    then Some ((decisionToEnvelopes (he_stamp he) (fallbackText o' ocs err) env, None), mem)
                    else Some (([], Some (Errorf ''brain: policy: %w'' [err])), mem)
                | (dec, None) \<Rightarrow>
                    (let content = msg_Content (resp_Message (the (dec_Response dec)))
                     in Some ((decisionToEnvelopes (he_stamp he) content env, None), persist content mem)))))"

section \<open>Requests\<close>

lemma toModelRole_cases: "toModelRole r \<noteq> RoleTool" "toModelRole r \<noteq> RoleInvalid k"
  by (simp_all add: toModelRole_def)

lemma plain_well_formed: "content \<noteq> '''' \<Longrightarrow> role \<noteq> RoleTool \<Longrightarrow> (\<forall>k. role \<noteq> RoleInvalid k) \<Longrightarrow> well_formed_message (plain_message role content)"
  by (cases role) (auto simp: well_formed_message_def plain_message_def)

text \<open>With turns that say something, as the brain stores them, the request a message becomes is valid.\<close>

lemma requestWithHistory_valid:
  assumes "requestWithHistory env prompt history = Some req" and "\<forall>t\<in>set history. tn_Content t \<noteq> ''''"
  shows "ValidateRequest (Some req) = None"
proof -
  have "req_Model req \<noteq> ''''" "req_Messages req \<noteq> []" "list_all well_formed_message (req_Messages req)"
    using assms toModelRole_cases
    by (auto simp: requestWithHistory_def Let_def fanoutModelPlaceholder_def list_all_iff intro!: plain_well_formed
        split: if_splits)
  then show ?thesis by (simp add: ValidateRequest_def validate_messages_iff)
qed

lemma pair_turns_content: "t \<in> set (pair_turns now u a) \<Longrightarrow> tn_Content t \<noteq> ''''"
  by (auto simp: pair_turns_def split: if_splits)

text \<open>A reply is addressed to where the message came from and says the given text.\<close>

lemma decisionToEnvelopes_shape:
  "out \<in> set (decisionToEnvelopes stamp content env) \<longleftrightarrow>
     out = (AddText content (New (fst stamp) (snd stamp) (en_Channel env) Outbound assistant))
       \<lparr>en_Meta := en_Meta (AddText content (New (fst stamp) (snd stamp) (en_Channel env) Outbound assistant)) ++ en_Meta env\<rparr>"
  by (simp add: decisionToEnvelopes_def Let_def)

lemma reply_fields:
  assumes "out \<in> set (decisionToEnvelopes stamp content env)"
  shows "en_Channel out = en_Channel env" "en_Direction out = Outbound" "en_Parts out = [content_part Text content]"
    "meta_get out k = (case en_Meta env k of Some v \<Rightarrow> v | None \<Rightarrow> meta_get out k)"
  using assms
  by (auto simp: decisionToEnvelopes_def Let_def AddText_def add_part_def New_def meta_get_def split: option.splits)

section \<open>What the brain answers\<close>

lemma every_failure_Is: "errors_Is (all_failed ocs) ErrNoUsableOutcome"
  by (simp add: all_failed_def)

lemma policy_error_classified:
  assumes "policy_Apply uni p ocs = (dec, Some err)"
  shows "classifyPolicyErr err"
proof (cases p)
  case (PriorityPolicy order)
  then have "err = all_failed ocs"
    using assms by (auto simp: policy_Apply_def priority_policy_def priority_Apply_def split: option.splits)
  then show ?thesis by (simp add: classifyPolicyErr_def every_failure_Is)
next
  case (ConsensusPolicy r)
  then have "err = all_failed ocs \<or> err = ErrNoConsensus"
    using assms by (auto simp: policy_Apply_def consensus_policy_def consensus_Apply_def Let_def split: option.splits if_splits prod.splits)
  then show ?thesis by (auto simp: classifyPolicyErr_def every_failure_Is)
qed

lemma coord_Run_dispatch:
  assumes "coord_Run shape he req models = Some (Inr ocs)" and "complete_order (length models) (he_order he)"
  obtains ms where "models = map Some ms"
    and "(\<exists>co. shape = FanOut co \<and> fan_dispatch co req ms ocs) \<or> (\<exists>tmo. shape = Serial tmo \<and> seq_dispatch tmo req ms ocs)"
proof -
  have v: "ValidateRunInputs (he_ctx he) (Some req) models = None"
    using assms(1) by (auto simp: coord_Run_def fanout_Run_def sequential_Run_def split: dispatch_shape.splits option.splits)
  then obtain c where c: "he_ctx he = Some c" by (auto simp: ValidateRunInputs_def split: option.splits)
  have "None \<notin> set models" using v by (auto simp: ValidateRunInputs_def split: option.splits if_splits)
  then have ms: "models = map Some (map the models)" by (induction models) auto
  moreover have "(\<exists>co. shape = FanOut co \<and> fan_dispatch co req (map the models) ocs) \<or>
      (\<exists>tmo. shape = Serial tmo \<and> seq_dispatch tmo req (map the models) ocs)"
  proof (cases shape)
    case (FanOut co)
    then have "fanout_Run co (Some c) (Some req) models (he_calls he) (he_order he) = Some (Inr ocs)"
      using assms(1) c by (simp add: coord_Run_def)
    moreover have "complete_order (length (map the models)) (he_order he)" using assms(2) by simp
    ultimately show ?thesis using FanOut ms unfolding fan_dispatch_def by metis
  next
    case (Serial tmo)
    then have "sequential_Run tmo (Some c) (Some req) models (he_calls he) = Inr ocs"
      using assms(1) c by (simp add: coord_Run_def)
    then show ?thesis using Serial ms unfolding seq_dispatch_def by metis
  qed
  ultimately show ?thesis using that by blast
qed

text \<open>An accepted decision is the response one of the given models generated for that request.\<close>

lemma answer_of_given_model:
  assumes "coord_Run shape he req (map Some ms) = Some (Inr ocs)" and "complete_order (length ms) (he_order he)"
    and "policy_Apply uni p ocs = (dec, None)"
  shows "\<exists>m\<in>set ms. \<exists>c resp. m_Generate m c req = Returned (Some resp, None) \<and> dec_Response dec = Some resp"
proof -
  have "complete_order (length (map Some ms)) (he_order he)" using assms(2) by simp
  then obtain ms' where ms': "map Some ms = map Some ms'"
      and d: "(\<exists>co. shape = FanOut co \<and> fan_dispatch co req ms' ocs) \<or> (\<exists>tmo. shape = Serial tmo \<and> seq_dispatch tmo req ms' ocs)"
    using coord_Run_dispatch [OF assms(1)] by blast
  have "ms' = ms" using ms' by (simp add: inj_map_eq_map inj_def)
  have "\<exists>m\<in>set ms. \<exists>c. m_Generate m c req = Returned (dec_Response dec, None) \<and> dec_Response dec \<noteq> None"
  proof (cases p)
    case (PriorityPolicy order)
    then have pr: "priority_policy order ocs = (dec, None)" using assms(3) by (simp add: policy_Apply_def)
    show ?thesis using d \<open>ms' = ms\<close> fan_priority.reply_of_given_model [OF _ pr] seq_priority.reply_of_given_model [OF _ pr] by blast
  next
    case (ConsensusPolicy r)
    then have pr: "consensus_policy uni r ocs = (dec, None)" using assms(3) by (simp add: policy_Apply_def)
    show ?thesis using d \<open>ms' = ms\<close> fan_consensus.reply_of_given_model [OF _ pr] seq_consensus.reply_of_given_model [OF _ pr] by blast
  qed
  then show ?thesis by (metis option.exhaust_sel)
qed

definition canned :: "Orchestrator \<Rightarrow> string list" where
  "canned o' = (if or_fallbackSet o' then [or_fallback o'] else [defaultFallback, retrySoonFallback, unavailableFallback])"

lemma fallbackText_canned: "fallbackText o' ocs err \<in> set (canned o')"
  by (simp add: fallbackText_def canned_def)

lemma orch_Handle_cases:
  assumes "orch_Handle uni o' he env mem = Some ((outs, err), mem')"
  obtains (silent) "outs = []"
  | (fallback) said where "outs = decisionToEnvelopes (he_stamp he) said env" "said \<in> set (canned o')" "mem' = mem" "err = None"
  | (answer) req ocs dec where
      "requestWithHistory env (or_systemPrompt o') (snd (loadHistory (or_store o') (or_historyN o') (he_loadErr he) env mem)) = Some req"
      "coord_Run (or_coord o') he req (or_models o') = Some (Inr ocs)" "policy_Apply uni (or_policy o') ocs = (dec, None)"
      "outs = decisionToEnvelopes (he_stamp he) (msg_Content (resp_Message (the (dec_Response dec)))) env" "err = None"
      "mem' = persistTurns (or_store o') (he_appendErr he) (he_now he)
         (fst (loadHistory (or_store o') (or_historyN o') (he_loadErr he) env mem)) (TranscriptText (en_Parts env))
         (msg_Content (resp_Message (the (dec_Response dec)))) mem"
proof -
  obtain key history where h: "loadHistory (or_store o') (or_historyN o') (he_loadErr he) env mem = (key, history)" by fastforce
  show ?thesis
  proof (cases "requestWithHistory env (or_systemPrompt o') history")
    case None
    then show ?thesis using assms h silent by (auto simp: orch_Handle_def Let_def)
  next
    case (Some req)
    show ?thesis
    proof (cases "coord_Run (or_coord o') he req (or_models o')")
      case None
      then show ?thesis using assms h Some by (simp add: orch_Handle_def Let_def)
    next
      case run: (Some x)
      show ?thesis
      proof (cases x)
        case (Inl e)
        then show ?thesis using assms h Some run silent by (auto simp: orch_Handle_def Let_def)
      next
        case (Inr ocs)
        obtain dec perr where pol: "policy_Apply uni (or_policy o') ocs = (dec, perr)" by fastforce
        show ?thesis
        proof (cases perr)
          case None
          then show ?thesis using assms h Some run Inr pol answer [of req ocs dec] by (auto simp: orch_Handle_def Let_def)
        next
          case perr: (Some e)
          then have "classifyPolicyErr e" using policy_error_classified pol by simp
          then show ?thesis using assms h Some run Inr pol perr fallback [OF _ fallbackText_canned [of o' ocs e]]
            by (auto simp: orch_Handle_def Let_def)
        qed
      qed
    qed
  qed
qed

text \<open>
  C22: A private brain answers with what a local model said. If the models of the brain are those selected
  for \<open>Private\<close> from a catalog, then every reply it hands to the router for a message goes back to the channel
  of that message with the message's own addressing, and its text is one of the canned fallbacks, or the content
  that a catalog entry declared \<open>Local\<close> generated for the request made of that message and the
  recent turns of its conversation.
\<close>

theorem private_brain_answers_locally:
  assumes "SelectModels catalog Private = Inr (or_models o')"
    and "complete_order (length (or_models o')) (he_order he)"
    and "orch_Handle uni o' he env mem = Some ((outs, err), mem')" and "out \<in> set outs"
  shows "en_Channel out = en_Channel env \<and> (\<forall>k v. en_Meta env k = Some v \<longrightarrow> en_Meta out k = Some v) \<and>
    (\<exists>text. en_Parts out = [content_part Text text] \<and>
      (text \<in> set (canned o') \<or>
       (\<exists>e\<in>set catalog. cat_Locality e = Local \<and>
         (\<exists>m c req resp. cat_Model e = Some m \<and>
            requestWithHistory env (or_systemPrompt o')
              (snd (loadHistory (or_store o') (or_historyN o') (he_loadErr he) env mem)) = Some req \<and>
            m_Generate m c req = Returned (Some resp, None) \<and> text = msg_Content (resp_Message resp)))))"
proof -
  have sent: "en_Channel out = en_Channel env \<and> (\<forall>k v. en_Meta env k = Some v \<longrightarrow> en_Meta out k = Some v) \<and>
      en_Parts out = [content_part Text said]" if "out \<in> set (decisionToEnvelopes (he_stamp he) said env)" for said
    using that by (auto simp: decisionToEnvelopes_def Let_def AddText_def add_part_def New_def)
  from assms(3) show ?thesis
  proof (cases rule: orch_Handle_cases)
    case silent
    then show ?thesis using assms(4) by simp
  next
    case (fallback said)
    then show ?thesis using sent [of said] assms(4) by blast
  next
    case (answer req ocs dec)
    from coord_Run_dispatch [OF answer(2) assms(2)] obtain ms where ms: "or_models o' = map Some ms" by blast
    obtain m c resp where m: "m \<in> set ms" "m_Generate m c req = Returned (Some resp, None)" "dec_Response dec = Some resp"
      using answer_of_given_model [of "or_coord o'" he req ms ocs uni "or_policy o'" dec] answer(2,3) assms(2) ms by auto
    have "Some m \<in> set (map cat_Model (filter (\<lambda>e. cat_Locality e = Local) catalog))"
      using SelectModels_Private(1) [OF assms(1)] ms m(1) by (metis image_eqI list.set_map)
    then obtain e where "e \<in> set catalog" "cat_Locality e = Local" "cat_Model e = Some m" by auto
    then show ?thesis using sent [of "msg_Content (resp_Message resp)"] assms(4) answer(1,4) m by auto blast
  qed
qed

section \<open>No silence\<close>

text \<open>The turns the brain stores say something, so that they can be replayed to a model.\<close>

definition turns_speak :: "MemStore \<Rightarrow> bool" where
  "turns_speak mem \<longleftrightarrow> (\<forall>key. \<forall>t\<in>set (active_turns mem key). tn_Content t \<noteq> '''')"

lemma seq_fill_content: "t \<in> set (seq_fill n ts) \<Longrightarrow> \<exists>t'\<in>set ts. tn_Content t = tn_Content t'"
  by (auto simp: seq_fill_def in_set_conv_nth nth_enumerate_eq) (metis nth_mem)

lemma persistTurns_speak: "turns_speak mem \<Longrightarrow> turns_speak (persistTurns store e now key u a mem)"
  by (auto simp: turns_speak_def persistTurns_def Let_def AppendTurns_active
      dest!: seq_fill_content pair_turns_content split: option.splits if_splits)

lemma loadHistory_speak:
  "turns_speak mem \<Longrightarrow> t \<in> set (snd (loadHistory store n e env mem)) \<Longrightarrow> tn_Content t \<noteq> ''''"
  using set_take_last
  by (fastforce simp: turns_speak_def loadHistory_def LoadRecent_active split: sum.splits option.splits if_splits)

lemma fanout_Run_total:
  assumes "ValidateRunInputs c r models = None" and "complete_order (length models) order"
  shows "\<exists>ocs. fanout_Run co c r models calls order = Some (Inr ocs)"
proof -
  let ?s = "fan_exec co (the r) (map the models) calls order"
  have "length (fs_slots ?s) = length models" by (simp add: fan_exec_def fan_init_def)
  moreover have "fs_slots ?s ! i \<noteq> None" if "i < length models" for i
    using fold_callOne_slot [of i order "fan_init (map the models)"] assms(2) that
    by (fastforce simp: complete_order_def fan_exec_def fan_init_def)
  ultimately have "None \<notin> set (fs_slots ?s)" by (metis in_set_conv_nth)
  then show ?thesis using assms(1) by (simp add: fanout_Run_def Let_def)
qed

lemma coord_Run_total:
  assumes "ValidateRunInputs (he_ctx he) (Some req) models = None" and "complete_order (length models) (he_order he)"
  shows "\<exists>ocs. coord_Run shape he req models = Some (Inr ocs)"
proof (cases shape)
  case (FanOut co)
  then show ?thesis using fanout_Run_total [OF assms] by (simp add: coord_Run_def)
next
  case (Serial tmo)
  then show ?thesis using assms(1) by (simp add: coord_Run_def sequential_Run_def)
qed

text \<open>
  C23: The user is never met with silence. A brain with at least one model and no nil entry, called with a live
  context, answers every message that carries text with exactly one reply and no error, whatever its models
  return and in whatever order they finish, whether or not its memory can be read or written; and the
  conversation it leaves can again be replayed: every stored turn still says something.
\<close>

theorem brain_always_answers:
  assumes "latestText (en_Parts env) \<noteq> ''''" and "or_models o' = map Some ms" and "ms \<noteq> []"
    and "he_ctx he = Some c" and "ctx_Err c = None" and "complete_order (length ms) (he_order he)" and "turns_speak mem"
  shows "\<exists>out mem'. orch_Handle uni o' he env mem = Some (([out], None), mem') \<and> en_Channel out = en_Channel env \<and>
    turns_speak mem'"
proof -
  obtain key history where h: "loadHistory (or_store o') (or_historyN o') (he_loadErr he) env mem = (key, history)" by fastforce
  obtain req where req: "requestWithHistory env (or_systemPrompt o') history = Some req"
    using assms(1) by (auto simp: requestWithHistory_def Let_def)
  have "\<forall>t\<in>set history. tn_Content t \<noteq> ''''" using loadHistory_speak [OF assms(7)] h by (metis snd_conv)
  then have "ValidateRequest (Some req) = None" by (rule requestWithHistory_valid [OF req])
  then have "ValidateRunInputs (he_ctx he) (Some req) (or_models o') = None"
    using assms(2-5) by (auto simp: ValidateRunInputs_def)
  moreover have "complete_order (length (or_models o')) (he_order he)" using assms(2,6) by simp
  ultimately obtain ocs where run: "coord_Run (or_coord o') he req (or_models o') = Some (Inr ocs)"
    using coord_Run_total by blast
  obtain dec perr where pol: "policy_Apply uni (or_policy o') ocs = (dec, perr)" by fastforce
  show ?thesis
  proof (cases perr)
    case None
    then show ?thesis using h req run pol persistTurns_speak [OF assms(7)]
      by (auto simp: orch_Handle_def Let_def decisionToEnvelopes_def AddText_def add_part_def New_def)
  next
    case (Some e)
    then have "classifyPolicyErr e" using policy_error_classified pol by simp
    then show ?thesis using h req run pol Some assms(7)
      by (auto simp: orch_Handle_def Let_def decisionToEnvelopes_def AddText_def add_part_def New_def)
  qed
qed

section \<open>A brain\<close>

definition talking_envelope :: Envelope where
  "talking_envelope = AddText ''hi'' (New ''m1'' 5 ''telegram'' Inbound \<lparr>pp_ID = ''u'', pp_Name = ''U''\<rparr>)"

definition two_models :: "CatalogEntry list" where
  "two_models = [\<lparr>cat_Model = Some (answering ''groq'' ''x''), cat_Locality = Cloud\<rparr>,
     \<lparr>cat_Model = Some (answering ''ollama'' ''hello''), cat_Locality = Local\<rparr>]"

definition private_brain :: Orchestrator where
  "private_brain = NewOrchestrator (FanOut New_Coordinator) [Some (answering ''ollama'' ''hello'')]
     (PriorityPolicy [''ollama'']) [WithConversationStore True 0]"

definition one_call :: handle_env where
  "one_call = \<lparr>he_ctx = Some sample_ctx, he_calls = sample_env, he_order = [0], he_loadErr = None, he_appendErr = None,
     he_now = 6, he_stamp = (''r1'', 7)\<rparr>"

lemma private_brain_fields:
  "or_models private_brain = [Some (answering ''ollama'' ''hello'')]" "or_coord private_brain = FanOut New_Coordinator"
  "SelectModels two_models Private = Inr (or_models private_brain)"
  by (simp_all add: private_brain_def NewOrchestrator_def SelectModels_def two_models_def select_keep_def)

lemma one_call_complete: "complete_order (length (or_models private_brain)) (he_order one_call)"
  by (auto simp: private_brain_fields one_call_def complete_order_def)

lemma talking_text: "latestText (en_Parts talking_envelope) \<noteq> ''''"
  by code_simp

lemma empty_speaks: "turns_speak NewMemStore"
  by (simp add: turns_speak_def active_turns_def NewMemStore_def sessions_def)

theorem brain_always_answers_witness:
  "\<exists>out mem'. orch_Handle id private_brain one_call talking_envelope NewMemStore = Some (([out], None), mem') \<and>
     en_Channel out = ''telegram''"
proof -
  have m: "or_models private_brain = map Some [answering ''ollama'' ''hello'']" "[answering ''ollama'' ''hello''] \<noteq> []"
    "he_ctx one_call = Some sample_ctx" "ctx_Err sample_ctx = None"
    "complete_order (length [answering ''ollama'' ''hello'']) (he_order one_call)"
    using one_call_complete by (simp_all add: private_brain_fields one_call_def sample_ctx_def)
  have "en_Channel talking_envelope = ''telegram''" by (simp add: talking_envelope_def AddText_def add_part_def New_def)
  then show ?thesis
    using brain_always_answers [OF talking_text m empty_speaks, of id] by metis
qed

lemma private_brain_speaks:
  obtains out mem' where "orch_Handle id private_brain one_call talking_envelope NewMemStore = Some (([out], None), mem')"
    "en_Parts out = [content_part Text ''hello'']"
proof -
  have said: "latestText (en_Parts talking_envelope) = ''hi''" by code_simp
  have key: "KeyFromEnvelope (Some talking_envelope) = Inl ErrNoConversationID" by code_simp
  show ?thesis
    by (rule that)
      (simp add: orch_Handle_def private_brain_def NewOrchestrator_def one_call_def loadHistory_def key
        requestWithHistory_def said Let_def coord_Run_def fanout_Run_def ValidateRunInputs_def ValidateRequest_def
        fanoutModelPlaceholder_def plain_message_def validate_message_def sample_defs fan_exec_def fan_init_def callOne_def
        CallOne_def New_Coordinator_def policy_Apply_def priority_policy_def priority_Apply_def priority_step_def usable_def
        decisionToEnvelopes_def AddText_def add_part_def New_def content_part_def,
        simp add: content_part_def)
qed

theorem private_brain_answers_locally_witness:
  "\<exists>e\<in>set two_models. cat_Locality e = Local \<and>
     (\<exists>m c req resp. cat_Model e = Some m \<and> m_Generate m c req = Returned (Some resp, None) \<and>
        msg_Content (resp_Message resp) = ''hello'')"
proof -
  obtain out mem' where o: "orch_Handle id private_brain one_call talking_envelope NewMemStore = Some (([out], None), mem')"
      "en_Parts out = [content_part Text ''hello'']"
    by (rule private_brain_speaks)
  have "''hello'' \<notin> set (canned private_brain)" by code_simp
  then show ?thesis
    using private_brain_answers_locally [OF private_brain_fields(3) one_call_complete o(1), of out] o(2)
    by (auto simp: content_part_def) metis
qed

end
