(* ===== verification/Agent.thy ===== *)
theory Agent
  imports Orchestrator Bus
begin

text \<open>
  The agent brain (\<open>internal/brain/agent.go\<close>, \<open>agent_native.go\<close>, \<open>named.go\<close>, \<open>identity.go\<close>,
  \<open>effects.go\<close>): a bounded loop of model calls and tool calls over the executor, on the prompt-protocol lane or
  on the native lane, with the guard at the channel exit and the memory of the final pair.

  What one message meets is the record \<open>iter_env\<close> per iteration: the context, the model call, and per
  tool call the executor's environment, the fresh action id, the clock and what other workers did to the action store
  since. The conversation store is threaded through; \<open>ae_memory\<close> is what others and the tools did to it while the
  loop ran. The hooks the brain gives the executor only observe; the audit events they publish are read off the
  executor's trace. The standard library's JSON, quoting and error texts are the record \<open>agent_lib\<close>. A nil
  dereference is a panic, which is a value. Logging and metrics are not modelled. \<open>ab_names\<close> stands for
  \<open>sort.Strings\<close> of the keys of the registry. \<open>handle\<close> always hands \<open>runTool\<close> a plan, so the branch
  that builds one from the decisions is left out.
\<close>

section \<open>Models with tools\<close>

record agent_model = Model +
  am_GenerateWithTools :: "(ctx \<Rightarrow> Request \<Rightarrow> ToolSpec list \<Rightarrow> (Response option \<times> go_error option) go_call) option"

definition ErrToolsUnsupported :: go_error where
  "ErrToolsUnsupported = Sentinel ''model: model does not support native tool calling''"

definition WithModelID :: "agent_model \<Rightarrow> string \<Rightarrow> agent_model" where
  "WithModelID m modelID =
     m\<lparr>m_Generate := (\<lambda>c req. m_Generate m c (req\<lparr>req_Model := modelID\<rparr>)),
       am_GenerateWithTools := map_option (\<lambda>g c req tools. g c (req\<lparr>req_Model := modelID\<rparr>) tools) (am_GenerateWithTools m)\<rparr>"

section \<open>Observations\<close>

definition DefaultAgentMaxIterations :: int where "DefaultAgentMaxIterations = 5"
definition observationPrefix :: string where "observationPrefix = ''OBSERVATION: ''"
definition maxArgsLogRunes :: nat where "maxArgsLogRunes = 80"
definition maxNativeCallsPerTurn :: nat where "maxNativeCallsPerTurn = 8"
definition laneText :: string where "laneText = ''text''"
definition laneNative :: string where "laneNative = ''native''"

definition dash :: string where "dash = map byte [226, 128, 148]"

definition nativeBaseInstruction :: string where
  "nativeBaseInstruction = ''You are a helpful assistant. Use the available tools '' @
     ''only when the user's request needs them; for greetings or ordinary conversation, '' @
     ''reply normally in the user's language without any tool. If the user asks for a '' @
     ''tool or action that is not in your available tools, tell them plainly it is not '' @
     ''available here '' @ dash @ '' never invent the call. Never print tool-call '' @
     ''syntax or JSON as text in your reply.''"

definition shadowObservation :: "string \<Rightarrow> string" where
  "shadowObservation name = ''REHEARSAL: the tool '' @ name @ '' is in shadow mode. It was NOT executed by design '' @
     ''(not an error, not a failure). Tell the user plainly that the action was '' @
     ''simulated, not performed, and do NOT offer to do it manually.''"

definition deniedObservation :: "string \<Rightarrow> string" where
  "deniedObservation name = ''tool '' @ name @ '' is not permitted here''"

definition pendingApprovalObservation :: "(time \<Rightarrow> string) \<Rightarrow> string \<Rightarrow> string \<Rightarrow> time \<Rightarrow> string" where
  "pendingApprovalObservation rfc3339 name approvalID expiresAt =
     ''PENDING APPROVAL: the tool '' @ name @ '' was NOT executed yet. This action requires '' @
     ''human approval and is parked as request '' @ approvalID @ '' awaiting the operator's decision.'' @
     (if \<not> IsZero expiresAt then '' The request expires at '' @ rfc3339 expiresAt @ ''.'' else '''') @
     '' Tell the user plainly that the action awaits approval '' @ dash @ '' do NOT retry it, do NOT '' @
     ''offer to do it manually, and do NOT treat this as a failure.''"

text \<open>\<open>boundedArgs\<close>: the conversion to runes and back writes an invalid byte as the replacement
  character.\<close>

fun take_runes :: "nat \<Rightarrow> nat list \<Rightarrow> nat list" where
  "take_runes 0 bs = []"
| "take_runes (Suc n) bs =
     (if bs = [] then []
      else let w = rune_width bs
        in (if w = 1 \<and> 128 \<le> hd bs then [239, 191, 189] else take w bs) @ take_runes n (drop w bs))"

definition boundedArgs :: "string \<Rightarrow> string" where
  "boundedArgs args =
     (if RuneCountInString args \<le> maxArgsLogRunes then args
      else map byte (take_runes maxArgsLogRunes (map of_char args)))"

section \<open>The brain\<close>

record agent_lib =
  al_codec :: codec
  al_uni :: "string \<Rightarrow> string"
  al_unmarshal :: "string \<Rightarrow> (string \<times> go_any) list option"
  al_marshal :: "(string \<times> go_any) list \<Rightarrow> string option"
  al_sprint :: "(string \<times> go_any) list \<Rightarrow> string"
  al_errText :: "go_error \<Rightarrow> string"
  al_rfc3339 :: "time \<Rightarrow> string"

record 's AgentBrain =
  ab_model :: agent_model
  ab_tools :: "string \<rightharpoonup> Tool"
  ab_info :: "string \<Rightarrow> tool_info"
  ab_names :: "string list"
  ab_maxIters :: int
  ab_perTool :: duration
  ab_actions :: "'s Recorder option"
  ab_identity :: "IdentityConfig option"
  ab_principalResolver :: bool
  ab_strictAuthority :: bool
  ab_effects :: "(string \<Rightarrow> EffectDescriptor option) option"
  ab_perModelCall :: duration
  ab_fallback :: string
  ab_systemPrompt :: string
  ab_personaPrefix :: string
  ab_store :: bool
  ab_historyN :: int
  ab_governance :: "Governance option"
  ab_audit :: bool
  ab_brainName :: string
  ab_skillsBlock :: string
  ab_name :: string
  ab_loadNotes :: "(string \<Rightarrow> MemStore \<Rightarrow> go_error + Note list) option"
  ab_notesBudget :: int
  ab_owner :: nat

datatype (plugins del: size) 's AgentOption =
    WithAgentFallback string
  | WithAgentSystemPrompt string
  | WithAgentPersona string
  | WithAgentMaxIterations int
  | WithAgentPerToolTimeout duration
  | WithAgentPerModelTimeout duration
  | WithAgentConversationStore bool int
  | WithAgentSkillsBlock string
  | WithAgentName string
  | WithAgentMemory "(string \<Rightarrow> MemStore \<Rightarrow> go_error + Note list) option" int
  | WithAgentToolAudit bool string
  | WithAgentGovernance "Governance option"
  | WithActionRecorder "'s Recorder option"
  | WithActionIdentity IdentityConfig
  | WithPrincipalResolver bool
  | WithStrictAuthority
  | WithEffectClassifier "(string \<Rightarrow> EffectDescriptor option) option"

fun apply_AgentOption :: "'s AgentOption \<Rightarrow> 's AgentBrain \<Rightarrow> 's AgentBrain" where
  "apply_AgentOption (WithAgentFallback s) a = (if s \<noteq> '''' then a\<lparr>ab_fallback := s\<rparr> else a)"
| "apply_AgentOption (WithAgentSystemPrompt s) a = a\<lparr>ab_systemPrompt := s\<rparr>"
| "apply_AgentOption (WithAgentPersona s) a = a\<lparr>ab_personaPrefix := s\<rparr>"
| "apply_AgentOption (WithAgentMaxIterations n) a = (if n > 0 then a\<lparr>ab_maxIters := n\<rparr> else a)"
| "apply_AgentOption (WithAgentPerToolTimeout d) a = (if d > 0 then a\<lparr>ab_perTool := d\<rparr> else a)"
| "apply_AgentOption (WithAgentPerModelTimeout d) a = (if d > 0 then a\<lparr>ab_perModelCall := d\<rparr> else a)"
| "apply_AgentOption (WithAgentConversationStore store n) a =
     (if \<not> store then a else a\<lparr>ab_store := True, ab_historyN := (if n \<le> 0 then defaultHistoryTurns else n)\<rparr>)"
| "apply_AgentOption (WithAgentSkillsBlock s) a = a\<lparr>ab_skillsBlock := s\<rparr>"
| "apply_AgentOption (WithAgentName s) a = a\<lparr>ab_name := s\<rparr>"
| "apply_AgentOption (WithAgentMemory load n) a = a\<lparr>ab_loadNotes := load, ab_notesBudget := n\<rparr>"
| "apply_AgentOption (WithAgentToolAudit p s) a = (if p then a\<lparr>ab_audit := True, ab_brainName := s\<rparr> else a)"
| "apply_AgentOption (WithAgentGovernance g) a = (if g \<noteq> None then a\<lparr>ab_governance := g\<rparr> else a)"
| "apply_AgentOption (WithActionRecorder r) a = a\<lparr>ab_actions := r\<rparr>"
| "apply_AgentOption (WithActionIdentity i) a = a\<lparr>ab_identity := Some i\<rparr>"
| "apply_AgentOption (WithPrincipalResolver r) a = a\<lparr>ab_principalResolver := r\<rparr>"
| "apply_AgentOption WithStrictAuthority a = a\<lparr>ab_strictAuthority := True\<rparr>"
| "apply_AgentOption (WithEffectClassifier c) a = a\<lparr>ab_effects := c\<rparr>"

definition agent_config :: "'s AgentBrain \<Rightarrow> 's CoordinatorConfig" where
  "agent_config a =
     \<lparr>cc_BrainName = ab_name a, cc_Recorder = ab_actions a, cc_Identity = ab_identity a,
      cc_PrincipalResolver = ab_principalResolver a, cc_StrictAuthority = ab_strictAuthority a,
      cc_EffectClassifier = ab_effects a, cc_Governance = ab_governance a, cc_BoundOperation = boundedArgs,
      cc_InvocationProbe = False, cc_BeforeClose = True, cc_BeforeRecord = True, cc_BeforeIdentityFallback = True\<rparr>"

text \<open>\<open>NewAgentBrain\<close>; \<open>owner\<close> marks the executor it builds. The fields are read-only afterwards, so
  the executor is a function of them.\<close>

definition NewAgentBrain ::
    "nat \<Rightarrow> agent_model \<Rightarrow> (string \<rightharpoonup> Tool) \<Rightarrow> (string \<Rightarrow> tool_info) \<Rightarrow> string list \<Rightarrow>
     's AgentOption list \<Rightarrow> 's AgentBrain" where
  "NewAgentBrain owner m tools info names opts =
     fold apply_AgentOption opts
       \<lparr>ab_model = m, ab_tools = tools, ab_info = info, ab_names = names, ab_maxIters = DefaultAgentMaxIterations, ab_perTool = 0,
        ab_actions = None, ab_identity = None, ab_principalResolver = False, ab_strictAuthority = False, ab_effects = None,
        ab_perModelCall = 0, ab_fallback = defaultFallback, ab_systemPrompt = [], ab_personaPrefix = [],
        ab_store = False, ab_historyN = 0, ab_governance = None, ab_audit = False, ab_brainName = [],
        ab_skillsBlock = [], ab_name = [], ab_loadNotes = None, ab_notesBudget = 0, ab_owner = owner\<rparr>"

definition ab_exec :: "'s AgentBrain \<Rightarrow> 's Executor" where
  "ab_exec a =
     \<lparr>ex_tools = ab_tools a, ex_perTool = ab_perTool a, ex_config = agent_config a, ex_owner = ab_owner a\<rparr>"

section \<open>One message: state and surroundings\<close>

record 's agent_state =
  ag_world :: "'s world"
  ag_cells :: nat
  ag_memory :: MemStore
  ag_nativeDisabled :: bool
  ag_audit :: "Event list"

record 's tool_env =
  te_exec :: exec_env
  te_fresh :: string
  te_now :: time
  te_other :: "'s \<Rightarrow> 's"

record 's iter_env =
  it_ctx :: ctx
  it_call :: call_env
  it_tools :: "nat \<Rightarrow> 's tool_env"

record 's agent_env =
  ae_text :: "nat \<Rightarrow> 's iter_env"
  ae_native :: "nat \<Rightarrow> 's iter_env"
  ae_loadErr :: "go_error option"
  ae_appendErr :: "go_error option"
  ae_now :: time
  ae_stamp :: "string \<times> time"
  ae_memory :: "MemStore \<Rightarrow> MemStore"
  ae_flipped :: bool

section \<open>Audit\<close>

definition tool_event :: "EventType \<Rightarrow> string \<Rightarrow> string \<Rightarrow> string \<Rightarrow> duration \<Rightarrow> Event" where
  "tool_event t name outcome rule latency =
     \<lparr>ev_Type = t, ev_Envelope = None, ev_Channel = '''', ev_Brain = '''', ev_Err = None,
      ev_Tool = name, ev_Outcome = outcome, ev_Rule = rule, ev_Latency = latency\<rparr>"

definition auditTool :: "'s AgentBrain \<Rightarrow> Envelope \<Rightarrow> Event \<Rightarrow> 's agent_state \<Rightarrow> 's agent_state" where
  "auditTool a env ev st =
     (if \<not> ab_audit a then st
      else st\<lparr>ag_audit := ag_audit st @
        [ev\<lparr>ev_Envelope := Some env, ev_Channel := en_Channel env, ev_Brain := ab_brainName a\<rparr>]\<rparr>)"

definition cageRule :: "go_error option \<Rightarrow> string option" where
  "cageRule err =
     (case err of
        None \<Rightarrow> None
      | Some e \<Rightarrow>
          if errors_Is e ErrShieldViolation then Some (ToolRule_string ToolRulePrivateShield)
          else if errors_Is e ErrCageViolation then Some (ToolRule_string ToolRuleCage)
          else None)"

text \<open>The two hooks: the event each publishes, if any.\<close>

definition observeImmediateDecision :: "exec_Result \<Rightarrow> Event list" where
  "observeImmediateDecision res =
     (case re_Branch res of
        BranchUnknown \<Rightarrow> [tool_event ToolDenied ''unknown'' ''denied'' ''unknown_tool'' 0]
      | BranchEffectUndeclared \<Rightarrow> [tool_event ToolDenied (re_Name res) ''denied'' ''effect_undeclared'' 0]
      | BranchShadowed \<Rightarrow> [tool_event ToolShadowed (re_Name res) ''shadowed'' '''' 0]
      | BranchDenied \<Rightarrow> [tool_event ToolDenied (re_Name res) ''denied'' (re_Rule res) 0]
      | _ \<Rightarrow> [])"

definition observeImmediateExecution :: "exec_Result \<Rightarrow> Event list" where
  "observeImmediateExecution res =
     (case cageRule (re_ToolError res) of
        Some rule \<Rightarrow> [tool_event ToolDenied (re_Name res) ''denied'' rule 0]
      | None \<Rightarrow> [tool_event ToolUsed (re_Name res) (if re_ToolError res \<noteq> None then ''error'' else ''ok'') '''' (re_Latency res)])"

definition hook_events :: "exec_event \<Rightarrow> Event list" where
  "hook_events ev =
     (case ev of EvObserved res \<Rightarrow> observeImmediateDecision res
      | EvBeforeClose res \<Rightarrow> observeImmediateExecution res | _ \<Rightarrow> [])"

section \<open>One tool call\<close>

definition presentToolResult ::
    "agent_lib \<Rightarrow> 's AgentBrain \<Rightarrow> Envelope \<Rightarrow> exec_Result \<Rightarrow> 's agent_state \<Rightarrow> string \<times> 's agent_state" where
  "presentToolResult lib a env res st =
     (let name = re_Name res in
      case re_Branch res of
        BranchUnknown \<Rightarrow> (''tool '' @ cd_quote (al_codec lib) name @ '' not found'', st)
      | BranchEffectUndeclared \<Rightarrow> (deniedObservation name, st)
      | BranchShadowed \<Rightarrow> (shadowObservation name, st)
      | BranchPending \<Rightarrow>
          (pendingApprovalObservation (al_rfc3339 lib) name (re_ApprovalID res) 0,
           auditTool a env (tool_event ToolDenied name ''pending'' ''require_approval'' 0) st)
      | BranchDenied \<Rightarrow> (deniedObservation name, st)
      | BranchExecuted \<Rightarrow>
          (case re_ToolError res of
             Some e \<Rightarrow> (''tool '' @ name @ '' failed: '' @ al_errText lib e, st)
           | None \<Rightarrow> (re_Output res, st))
      | BranchNone \<Rightarrow> (deniedObservation name, st))"

definition tool_submission ::
    "Envelope \<Rightarrow> AuthenticatedIngress \<Rightarrow> DecisionPlan \<Rightarrow> string \<Rightarrow> string \<Rightarrow> string \<Rightarrow> Submission" where
  "tool_submission env ingress plan lane name args =
     \<lparr>sb_Inbound = Some env, sb_Ingress = ingress, sb_Lane = lane, sb_Name = name, sb_Arguments = args,
      sb_Plan = Some plan\<rparr>"

definition runTool ::
    "agent_lib \<Rightarrow> 's AgentBrain \<Rightarrow> Envelope \<Rightarrow> AuthenticatedIngress \<Rightarrow> DecisionPlan \<Rightarrow> 's tool_env \<Rightarrow> string \<Rightarrow>
     string \<Rightarrow> string \<Rightarrow> 's agent_state \<Rightarrow> string \<times> 's agent_state" where
  "runTool lib a env ingress plan te lane name args st =
     (let w = (ag_world st)\<lparr>wo_store := te_other te (wo_store (ag_world st))\<rparr>;
          st1 = st\<lparr>ag_world := w, ag_cells := Suc (ag_cells st)\<rparr> in
      case Prepare (al_codec lib) (te_fresh te) (te_now te) (ag_cells st) (ab_exec a)
             (tool_submission env ingress plan lane name args) of
        Inl _ \<Rightarrow> (deniedObservation name, st1)
      | Inr request \<Rightarrow>
          (let (res, submitErr, _, w') = Submit (al_codec lib) (te_exec te) (ab_exec a) (Some request) w;
               st2 = fold (auditTool a env) (concat (map hook_events (drop (length (wo_trace w)) (wo_trace w'))))
                       (st1\<lparr>ag_world := w'\<rparr>)
           in if (\<exists>e. submitErr = Some e \<and> \<not> errors_Is e ErrUnknownTool) \<and> re_Branch res \<noteq> BranchExecuted
              then (deniedObservation name, st2)
              else presentToolResult lib a env res st2))"

definition effectiveTools ::
    "'s AgentBrain \<Rightarrow> Envelope \<Rightarrow> (string \<rightharpoonup> Tool) \<times> (string \<rightharpoonup> ToolDecision) option \<times> DecisionPlan" where
  "effectiveTools a env =
     (let (advertised, plan, _) = exec_SelectTools (ab_exec a) (en_Channel env) in
      case Decisions (ab_exec a) (Some plan) of
        Inl _ \<Rightarrow> (Map.empty, Some Map.empty, plan)
      | Inr (decisions, governed) \<Rightarrow> (advertised, if governed then Some decisions else None, plan))"

section \<open>Prompt and memory\<close>

definition composeSystemPrompt :: "'s AgentBrain \<Rightarrow> bool \<Rightarrow> (string \<rightharpoonup> Tool) \<Rightarrow> string \<Rightarrow> string" where
  "composeSystemPrompt a native advertised notesBlock =
     (let gap = newline_s @ newline_s;
          p0 = (if native
                then nativeBaseInstruction @ (if ab_systemPrompt a \<noteq> '''' then gap @ ab_systemPrompt a else '''')
                else buildSystemPrompt (ab_info a) (filter (\<lambda>n. advertised n \<noteq> None) (ab_names a)) (ab_systemPrompt a));
          p1 = (if ab_personaPrefix a \<noteq> '''' then TrimSpace (ab_personaPrefix a @ gap @ p0) else p0);
          p2 = (if ab_skillsBlock a \<noteq> '''' then TrimSpace (p1 @ gap @ ab_skillsBlock a) else p1)
      in if notesBlock \<noteq> '''' then TrimSpace (p2 @ gap @ notesBlock) else p2)"

definition loadNotesBlock :: "'s AgentBrain \<Rightarrow> Envelope \<Rightarrow> MemStore \<Rightarrow> string" where
  "loadNotesBlock a env mem =
     (case ab_loadNotes a of
        None \<Rightarrow> ''''
      | Some load \<Rightarrow>
          (let key = (case KeyFromEnvelope (Some env) of Inr key \<Rightarrow> key | Inl _ \<Rightarrow> '''') in
           case load key mem of Inl _ \<Rightarrow> '''' | Inr notes \<Rightarrow> ComposeNotes notes (ab_notesBudget a)))"

definition agent_loadHistory :: "'s AgentBrain \<Rightarrow> go_error option \<Rightarrow> Envelope \<Rightarrow> MemStore \<Rightarrow> string \<times> Turn list" where
  "agent_loadHistory a loadErr env mem = loadHistory (ab_store a) (ab_historyN a) loadErr env mem"

definition persistPair ::
    "'s AgentBrain \<Rightarrow> go_error option \<Rightarrow> time \<Rightarrow> string \<Rightarrow> string \<Rightarrow> string \<Rightarrow> MemStore \<Rightarrow> MemStore" where
  "persistPair a appendErr now key userText assistantText mem =
     persistTurns (ab_store a) appendErr now key userText assistantText mem"

definition disableNativeLane :: "'s AgentBrain \<Rightarrow> Envelope \<Rightarrow> 's agent_state \<Rightarrow> 's agent_state" where
  "disableNativeLane a env st =
     (if ag_nativeDisabled st then st
      else auditTool a env (tool_event ToolDenied ''native_lane'' ''denied'' ''tools_unsupported'' 0)
             (st\<lparr>ag_nativeDisabled := True\<rparr>))"

section \<open>The loop of the prompt-protocol lane\<close>

text \<open>\<open>n\<close> iterations are left and \<open>i\<close> is the number of the next one. The result is the final answer and
  whether there is one.\<close>

definition nil_dereference :: panic_value where
  "nil_dereference = PanicOther ''invalid memory address or nil pointer dereference''"

fun runLoop ::
    "agent_lib \<Rightarrow> 's AgentBrain \<Rightarrow> Envelope \<Rightarrow> AuthenticatedIngress \<Rightarrow> DecisionPlan \<Rightarrow> (nat \<Rightarrow> 's iter_env) \<Rightarrow> nat \<Rightarrow> nat \<Rightarrow>
     Request \<Rightarrow> 's agent_state \<Rightarrow> (string \<times> bool) go_call \<times> 's agent_state" where
  "runLoop lib a env ingress plan its 0 i req st = (Returned ('''', False), st)"
| "runLoop lib a env ingress plan its (Suc n) i req st =
     (if ctx_Err (it_ctx (its i)) \<noteq> None then (Returned ('''', False), st)
      else
        (let out = CallOne (it_ctx (its i)) req (Model.truncate (ab_model a)) (ab_perModelCall a) (it_call (its i)) in
         if oc_Err out \<noteq> None then (Returned ('''', False), st)
         else case oc_Response out of
           None \<Rightarrow> (Panicked nil_dereference, st)
         | Some resp \<Rightarrow>
             (let content = msg_Content (resp_Message resp) in
              case parseReply (al_uni lib) content of
                None \<Rightarrow> (Returned (if TrimSpace content = '''' then ('''', False) else (content, True)), st)
              | Some (name, args) \<Rightarrow>
                  (let (observation, st') = runTool lib a env ingress plan (it_tools (its i) 0) laneText name args st
                   in runLoop lib a env ingress plan its n (Suc i)
                        (req\<lparr>req_Messages := req_Messages req @
                           [plain_message RoleAssistant content, plain_message RoleUser (observationPrefix @ observation)]\<rparr>)
                        st'))))"

section \<open>The loop of the native lane\<close>

definition callNative ::
    "agent_lib \<Rightarrow> (ctx \<Rightarrow> Request \<Rightarrow> ToolSpec list \<Rightarrow> (Response option \<times> go_error option) go_call) \<Rightarrow> ctx \<Rightarrow> Request \<Rightarrow>
     ToolSpec list \<Rightarrow> go_error + Response" where
  "callNative lib generate c req specs =
     (case generate c req specs of
        Panicked v \<Rightarrow> Inl (ErrorString (''agent: native model panicked: '' @
          (case v of PanicError e \<Rightarrow> al_errText lib e | PanicOther s \<Rightarrow> s)))
      | Returned (resp, Some err) \<Rightarrow> Inl err
      | Returned (Some resp, None) \<Rightarrow> Inr resp
      | Returned (None, None) \<Rightarrow> Inl (ErrorString ''agent: native model returned nil response''))"

definition nativeArgs :: "agent_lib \<Rightarrow> ToolCall \<Rightarrow> string" where
  "nativeArgs lib call =
     (case map_of (tc_Arguments call) ''args'' of
        Some (AnyString s) \<Rightarrow> s
      | _ \<Rightarrow>
          if tc_Arguments call = [] then ''''
          else (case al_marshal lib (tc_Arguments call) of
                  Some raw \<Rightarrow> raw | None \<Rightarrow> al_sprint lib (tc_Arguments call)))"

definition nativeCallArgs :: "agent_lib \<Rightarrow> 's AgentBrain \<Rightarrow> (string \<rightharpoonup> Tool) \<Rightarrow> ToolCall \<Rightarrow> go_error + string" where
  "nativeCallArgs lib a advertised call =
     (if advertised (tc_Name call) \<noteq> None \<and> ti_Params (ab_info a (tc_Name call)) \<noteq> None
      then ti_ArgsFromCall (ab_info a (tc_Name call)) (tc_Arguments call)
      else Inr (nativeArgs lib call))"

definition rescueTextToolCall :: "agent_lib \<Rightarrow> (string \<rightharpoonup> Tool) \<Rightarrow> string \<Rightarrow> ToolCall option" where
  "rescueTextToolCall lib reg content =
     (case toolCallShape (al_unmarshal lib) content of
        None \<Rightarrow> None
      | Some (name, obj) \<Rightarrow>
          if reg name = None then None
          else (case filter (\<lambda>key. map_of obj key \<noteq> None) argument_keys of
             [] \<Rightarrow> None
           | key # _ \<Rightarrow>
               Some \<lparr>tc_ID = '''', tc_Name = name,
                 tc_Arguments = (case map_of obj key of
                    Some (AnyMap v) \<Rightarrow> v | Some (AnyString v) \<Rightarrow> [(''args'', AnyString v)] | _ \<Rightarrow> [])\<rparr>))"

definition gated_call :: "(string \<rightharpoonup> ToolDecision) option \<Rightarrow> string \<Rightarrow> bool" where
  "gated_call decisions name =
     (case decisions of
        None \<Rightarrow> False
      | Some ds \<Rightarrow> (case ds name of None \<Rightarrow> True | Some d \<Rightarrow> td_Mode d \<noteq> ToolAllow))"

definition nativeCall ::
    "agent_lib \<Rightarrow> 's AgentBrain \<Rightarrow> Envelope \<Rightarrow> AuthenticatedIngress \<Rightarrow> DecisionPlan \<Rightarrow> (string \<rightharpoonup> Tool) \<Rightarrow>
     (string \<rightharpoonup> ToolDecision) option \<Rightarrow> 's tool_env \<Rightarrow> ToolCall \<Rightarrow> 's agent_state \<Rightarrow> string \<times> 's agent_state" where
  "nativeCall lib a env ingress plan advertised decisions te call st =
     (if gated_call decisions (tc_Name call)
      then runTool lib a env ingress plan te laneNative (tc_Name call) (nativeArgs lib call) st
      else case nativeCallArgs lib a advertised call of
        Inl argErr \<Rightarrow>
          (''tool '' @ tc_Name call @ '' failed: '' @ al_errText lib argErr,
           auditTool a env (tool_event ToolUsed (tc_Name call) ''error'' '''' 0) st)
      | Inr args \<Rightarrow> runTool lib a env ingress plan te laneNative (tc_Name call) args st)"

definition tool_message :: "string \<Rightarrow> string \<Rightarrow> string \<Rightarrow> Message" where
  "tool_message name callID content =
     \<lparr>msg_Role = RoleTool, msg_Content = content, msg_ToolCalls = [], msg_ToolName = name, msg_ToolCallID = callID\<rparr>"

fun nativeCalls ::
    "agent_lib \<Rightarrow> 's AgentBrain \<Rightarrow> Envelope \<Rightarrow> AuthenticatedIngress \<Rightarrow> DecisionPlan \<Rightarrow> (string \<rightharpoonup> Tool) \<Rightarrow>
     (string \<rightharpoonup> ToolDecision) option \<Rightarrow> (nat \<Rightarrow> 's tool_env) \<Rightarrow> nat \<Rightarrow> ToolCall list \<Rightarrow> 's agent_state \<Rightarrow>
     Message list \<times> 's agent_state" where
  "nativeCalls lib a env ingress plan advertised decisions tes k [] st = ([], st)"
| "nativeCalls lib a env ingress plan advertised decisions tes k (call # calls) st =
     (let (observation, st1) = nativeCall lib a env ingress plan advertised decisions (tes k) call st;
          shown = (if observation = '''' then ''(the tool returned an empty result)'' else observation);
          (ms, st2) = nativeCalls lib a env ingress plan advertised decisions tes (Suc k) calls st1
      in (tool_message (tc_Name call) (tc_ID call) shown # ms, st2))"

text \<open>The calls of one response as they enter the history, and how many were cut off.\<close>

definition bounded_turn :: "Message \<Rightarrow> Message \<times> nat" where
  "bounded_turn m = (m\<lparr>msg_ToolCalls := take maxNativeCallsPerTurn (msg_ToolCalls m)\<rparr>,
                     length (msg_ToolCalls m) - maxNativeCallsPerTurn)"

definition budget_message :: "nat \<Rightarrow> Message" where
  "budget_message discarded = tool_message ''budget'' ''''
     (decimal_nat discarded @ '' tool call(s) skipped: per-turn tool budget exceeded ('' @
      decimal_nat maxNativeCallsPerTurn @ '' calls max per reply)'')"

text \<open>One turn of tools: the new messages of the request and the state after it.\<close>

definition nativeTurn ::
    "agent_lib \<Rightarrow> 's AgentBrain \<Rightarrow> Envelope \<Rightarrow> AuthenticatedIngress \<Rightarrow> DecisionPlan \<Rightarrow> (string \<rightharpoonup> Tool) \<Rightarrow>
     (string \<rightharpoonup> ToolDecision) option \<Rightarrow> (nat \<Rightarrow> 's tool_env) \<Rightarrow> Message \<Rightarrow> 's agent_state \<Rightarrow>
     Message list \<times> 's agent_state" where
  "nativeTurn lib a env ingress plan advertised decisions tes m st =
     (let (turn, discarded) = bounded_turn m;
          (ms, st1) = nativeCalls lib a env ingress plan advertised decisions tes 0 (msg_ToolCalls turn) st
      in if discarded > 0
         then (turn # ms @ [budget_message discarded],
               auditTool a env (tool_event ToolDenied ''overflow'' ''denied'' ''per_turn_budget'' 0) st1)
         else (turn # ms, st1))"

text \<open>The result is the final answer, whether there is one, and whether the provider refused the tools
  protocol.\<close>

fun runLoopNative ::
    "agent_lib \<Rightarrow> 's AgentBrain \<Rightarrow> Envelope \<Rightarrow> AuthenticatedIngress \<Rightarrow> DecisionPlan \<Rightarrow>
     (ctx \<Rightarrow> Request \<Rightarrow> ToolSpec list \<Rightarrow> (Response option \<times> go_error option) go_call) \<Rightarrow> (string \<rightharpoonup> Tool) \<Rightarrow>
     (string \<rightharpoonup> ToolDecision) option \<Rightarrow> (nat \<Rightarrow> 's iter_env) \<Rightarrow> nat \<Rightarrow> nat \<Rightarrow> Request \<Rightarrow> 's agent_state \<Rightarrow>
     (string \<times> bool \<times> bool) go_call \<times> 's agent_state" where
  "runLoopNative lib a env ingress plan tcm advertised decisions its 0 i req st = (Returned ('''', False, False), st)"
| "runLoopNative lib a env ingress plan tcm advertised decisions its (Suc n) i req st =
     (if ctx_Err (it_ctx (its i)) \<noteq> None then (Returned ('''', False, False), st)
      else
        (let answer = callNative lib tcm (it_ctx (its i)) req
               (toToolSpecs (ab_info a) (filter (\<lambda>n. advertised n \<noteq> None) (ab_names a))) in
         case m_Name (ab_model a) of
           Panicked v \<Rightarrow> (Panicked v, st)
         | Returned _ \<Rightarrow>
             (case answer of
                Inl err \<Rightarrow> (Returned ('''', False, errors_Is err ErrToolsUnsupported), st)
              | Inr resp \<Rightarrow>
                  (let m = resp_Message resp; content = msg_Content m;
                       continue = (\<lambda>m'.
                         (let (ms, st') = nativeTurn lib a env ingress plan advertised decisions (it_tools (its i)) m' st
                          in runLoopNative lib a env ingress plan tcm advertised decisions its n (Suc i)
                               (req\<lparr>req_Messages := req_Messages req @ ms\<rparr>) st')) in
                   if msg_ToolCalls m \<noteq> [] then continue m
                   else if content = '''' then (Returned ('''', False, False), st)
                   else (case rescueTextToolCall lib (ab_tools a) content of
                           Some call \<Rightarrow> continue (m\<lparr>msg_ToolCalls := [call], msg_Content := ''''\<rparr>)
                         | None \<Rightarrow> (Returned (content, True, False), st))))))"

section \<open>One message\<close>

text \<open>The lane: native, degraded to the prompt protocol, or the prompt protocol. A request that was built for one
  lane is built for the other, since only the system prompt differs.\<close>

definition run_text ::
    "agent_lib \<Rightarrow> 's AgentBrain \<Rightarrow> 's agent_env \<Rightarrow> Envelope \<Rightarrow> AuthenticatedIngress \<Rightarrow> DecisionPlan \<Rightarrow> Request \<Rightarrow>
     's agent_state \<Rightarrow> (string \<times> bool) go_call \<times> 's agent_state" where
  "run_text lib a ae env ingress plan req st =
     runLoop lib a env ingress plan (ae_text ae) (nat (ab_maxIters a)) 0 req st"

definition run_lane ::
    "agent_lib \<Rightarrow> 's AgentBrain \<Rightarrow> 's agent_env \<Rightarrow> Envelope \<Rightarrow> AuthenticatedIngress \<Rightarrow> string \<Rightarrow> Turn list \<Rightarrow> Request \<Rightarrow>
     's agent_state \<Rightarrow> (string \<times> bool) go_call \<times> 's agent_state" where
  "run_lane lib a ae env ingress notesBlock history req st =
     (let (advertised, decisions, plan) = effectiveTools a env in
      case (am_GenerateWithTools (ab_model a), ag_nativeDisabled st) of
        (Some tcm, False) \<Rightarrow>
          (case runLoopNative lib a env ingress plan tcm advertised decisions (ae_native ae) (nat (ab_maxIters a)) 0 req st of
             (Panicked v, st1) \<Rightarrow> (Panicked v, st1)
           | (Returned (finalText, answered, degraded), st1) \<Rightarrow>
               if \<not> degraded then (Returned (finalText, answered), st1)
               else
                 (let st2 = disableNativeLane a env (st1\<lparr>ag_nativeDisabled := ag_nativeDisabled st1 \<or> ae_flipped ae\<rparr>) in
                  case requestWithHistory env (composeSystemPrompt a False advertised notesBlock) history of
                    None \<Rightarrow> (Returned (finalText, answered), st2)
                  | Some textReq \<Rightarrow> run_text lib a ae env ingress plan textReq st2))
      | _ \<Rightarrow> run_text lib a ae env ingress plan req st)"

definition handle ::
    "agent_lib \<Rightarrow> 's AgentBrain \<Rightarrow> 's agent_env \<Rightarrow> AuthenticatedIngress \<Rightarrow> Envelope \<Rightarrow> 's agent_state \<Rightarrow>
     (Envelope list \<times> go_error option) go_call \<times> 's agent_state" where
  "handle lib a ae ingress env st =
     (let (key, history) = agent_loadHistory a (ae_loadErr ae) env (ag_memory st);
          (advertised, _, _) = effectiveTools a env;
          native = (am_GenerateWithTools (ab_model a) \<noteq> None \<and> \<not> ag_nativeDisabled st);
          notesBlock = loadNotesBlock a env (ag_memory st) in
      case requestWithHistory env (composeSystemPrompt a native advertised notesBlock) history of
        None \<Rightarrow> (Returned ([], None), st)
      | Some req \<Rightarrow>
          (case run_lane lib a ae env ingress notesBlock history req st of
             (Panicked v, st1) \<Rightarrow> (Panicked v, st1)
           | (Returned (finalText, answered), st1) \<Rightarrow>
               (let st2 = st1\<lparr>ag_memory := ae_memory ae (ag_memory st1)\<rparr> in
                if \<not> answered
                then (Returned (decisionToEnvelopes (ae_stamp ae) (ab_fallback a) env, None), st2)
                else if toolCallShape (al_unmarshal lib) finalText \<noteq> None
                then (Returned (decisionToEnvelopes (ae_stamp ae) protocolLeakReply env, None),
                      auditTool a env (tool_event ToolDenied ''unknown'' ''denied'' ''protocol_leak'' 0) st2)
                else (Returned (decisionToEnvelopes (ae_stamp ae) finalText env, None),
                      st2\<lparr>ag_memory := persistPair a (ae_appendErr ae) (ae_now ae) key (TranscriptText (en_Parts env))
                        finalText (ag_memory st2)\<rparr>))))"

definition no_ingress :: AuthenticatedIngress where
  "no_ingress = \<lparr>ai_seal = None, ai_requestID = [], ai_subjectClaim = [], ai_observedAt = 0, ai_expiresAt = 0,
     ai_method = [], ai_credential = []\<rparr>"

definition agent_Handle ::
    "agent_lib \<Rightarrow> 's AgentBrain \<Rightarrow> 's agent_env \<Rightarrow> Envelope \<Rightarrow> 's agent_state \<Rightarrow>
     (Envelope list \<times> go_error option) go_call \<times> 's agent_state" where
  "agent_Handle lib a ae env st = handle lib a ae no_ingress env st"

definition HandleAuthenticated ::
    "agent_lib \<Rightarrow> 's AgentBrain \<Rightarrow> 's agent_env \<Rightarrow> Envelope \<Rightarrow> AuthenticatedIngress \<Rightarrow> 's agent_state \<Rightarrow>
     (Envelope list \<times> go_error option) go_call \<times> 's agent_state" where
  "HandleAuthenticated lib a ae env ingress st = handle lib a ae ingress env st"

section \<open>What a message may do to the outside\<close>

text \<open>A tool run the configuration permits for this message: the tool is registered; under a governance, and only
  then, an allow grant names it and admits the channel, and a sensitive tool is beside a local model; under an identity with a
  classifier its declared effect passes the gate; and it runs under the name of this brain and the conversation of this message.\<close>

definition permitted_run :: "'s AgentBrain \<Rightarrow> Envelope \<Rightarrow> string \<Rightarrow> Scope \<Rightarrow> bool" where
  "permitted_run a env name scope \<longleftrightarrow>
     ab_tools a name \<noteq> None \<and>
     (\<forall>g. ab_governance a = Some g \<longrightarrow>
       (\<exists>gr\<in>set (gv_Grants g). tg_Name gr = name \<and> tg_Mode gr = ToolAllow \<and>
          (tg_Channels gr = [] \<or> en_Channel env \<in> set (tg_Channels gr)) \<and>
          (ta_Sensitive (attrs_of (gv_Attrs g) name) \<longrightarrow> gv_Locality g = Local))) \<and>
     gate_passed (agent_config a) name \<and>
     sc_Brain scope = ab_name a \<and>
     sc_Conversation scope = (case KeyFromEnvelope (Some env) of Inr key \<Rightarrow> key | Inl _ \<Rightarrow> '''')"

definition permitted_events :: "'s AgentBrain \<Rightarrow> Envelope \<Rightarrow> exec_event list \<Rightarrow> bool" where
  "permitted_events a env evs \<longleftrightarrow>
     (\<forall>name scope args out. EvDispatched name scope args out \<in> set evs \<longrightarrow> permitted_run a env name scope)"

lemma permitted_events_append [simp]:
  "permitted_events a env (xs @ ys) \<longleftrightarrow> permitted_events a env xs \<and> permitted_events a env ys"
  unfolding permitted_events_def set_append by blast

lemma permitted_events_Nil [simp]: "permitted_events a env []"
  by (simp add: permitted_events_def)

lemma no_dispatch_permitted: "dispatches evs = 0 \<Longrightarrow> permitted_events a env evs"
  by (force simp: permitted_events_def dispatches_def filter_empty_conv)

lemma dispatched_once:
  assumes "dispatches pre = 0" and "dispatches post = 0"
    and "EvDispatched name scope args out \<in> set (pre @ EvDispatched n sc ar o' # post)"
  shows "name = n \<and> scope = sc"
  using assms by (force simp: dispatches_def filter_empty_conv)

text \<open>\<open>grows a env k st st'\<close>: at most \<open>k\<close> permitted tool runs lead from \<open>st\<close> to \<open>st'\<close>,
  and the memory and the lane flag stay.\<close>

definition grows :: "'s AgentBrain \<Rightarrow> Envelope \<Rightarrow> nat \<Rightarrow> 's agent_state \<Rightarrow> 's agent_state \<Rightarrow> bool" where
  "grows a env k st st' \<longleftrightarrow>
     (\<exists>evs. wo_trace (ag_world st') = wo_trace (ag_world st) @ evs \<and> dispatches evs \<le> k \<and> permitted_events a env evs) \<and>
     ag_memory st' = ag_memory st \<and> ag_nativeDisabled st' = ag_nativeDisabled st"

lemma grows_refl [simp, intro!]: "grows a env k st st"
  by (simp add: grows_def)

lemma grows_trans: "grows a env j st st1 \<Longrightarrow> grows a env k st1 st2 \<Longrightarrow> grows a env (j + k) st st2"
  unfolding grows_def by (elim conjE exE, intro conjI) (force intro: exI [of _ "_ @ _"])+

lemma grows_mono: "grows a env j st st' \<Longrightarrow> j \<le> k \<Longrightarrow> grows a env k st st'"
  unfolding grows_def by (meson le_trans)

lemma auditTool_frame [simp]:
  "ag_world (auditTool a env ev st) = ag_world st" "ag_memory (auditTool a env ev st) = ag_memory st"
  "ag_nativeDisabled (auditTool a env ev st) = ag_nativeDisabled st" "ag_cells (auditTool a env ev st) = ag_cells st"
  by (simp_all add: auditTool_def)

lemma fold_auditTool_frame [simp]:
  "ag_world (fold (auditTool a env) evs st) = ag_world st" "ag_memory (fold (auditTool a env) evs st) = ag_memory st"
  "ag_nativeDisabled (fold (auditTool a env) evs st) = ag_nativeDisabled st"
  by (induction evs arbitrary: st) simp_all

lemma grows_audit: "grows a env k st st1 \<Longrightarrow> grows a env k st (auditTool a env ev st1)"
  by (simp add: grows_def)

lemma presentToolResult_frame:
  assumes "presentToolResult lib a env res st = (obs, st')"
  shows "ag_world st' = ag_world st" "ag_memory st' = ag_memory st" "ag_nativeDisabled st' = ag_nativeDisabled st"
  using assms by (auto simp: presentToolResult_def Let_def split: Branch.splits option.splits)

lemma ab_exec_simps [simp]:
  "ex_config (ab_exec a) = agent_config a" "ex_tools (ab_exec a) = ab_tools a" "ex_owner (ab_exec a) = ab_owner a"
  "cc_Governance (agent_config a) = ab_governance a" "cc_BrainName (agent_config a) = ab_name a"
  by (simp_all add: ab_exec_def agent_config_def)

lemma Prepare_scope:
  assumes "Prepare cd fresh now cell (ab_exec a) (tool_submission env ingress plan lane name args) = Inr r"
  shows "sc_Brain (rq_scope r) = ab_name a"
    "sc_Conversation (rq_scope r) = (case KeyFromEnvelope (Some env) of Inr key \<Rightarrow> key | Inl _ \<Rightarrow> '''')"
    "rq_channel r = en_Channel env" "rq_rawName r = name" "rq_known r \<longleftrightarrow> ab_tools a name \<noteq> None"
  using assms by (auto simp: Prepare_def tool_submission_def Let_def split: if_splits)

lemma submitted_events:
  assumes sel: "exec_SelectTools (ab_exec a) (en_Channel env) = (adv, plan, serr)"
    and prep: "Prepare cd fresh now cell (ab_exec a) (tool_submission env ingress plan lane name args) = Inr r"
    and sub: "Submit cd xe (ab_exec a) (Some r) w = (res, err, r', w')"
  shows "\<exists>evs. wo_trace w' = wo_trace w @ evs \<and> dispatches evs \<le> 1 \<and> permitted_events a env evs"
  using sub
proof (cases rule: Submit_cases)
  case 1
  then show ?thesis by (intro exI [of _ "[]"]) simp
next
  case (2 r0 c plan0 evs)
  show ?thesis
  proof (cases "dispatches evs = 0")
    case True
    then show ?thesis using 2 no_dispatch_permitted by auto
  next
    case False
    have p: "sb_Plan (tool_submission env ingress plan lane name args) = Some plan"
      "sb_Name (tool_submission env ingress plan lane name args) = name" by (simp_all add: tool_submission_def)
    note g = granted_submission [OF sel prep p(1) sub 2(6) False, unfolded p(2) Prepare_scope(3) [OF prep] ab_exec_simps]
    have "rq_known r" using 2 False by auto
    then have reg: "ab_tools a name \<noteq> None" using Prepare_scope(5) [OF prep] by simp
    from g have "admitted_run (ab_exec a) r res evs" by simp
    then obtain pre out er post where evs: "evs = pre @ EvDispatched name (rq_scope r) (rq_args r) (out, er) # post"
        "dispatches pre = 0" "dispatches post = 0"
      using Prepare_scope(4) [OF prep] by (auto simp: admitted_run_def)
    have "permitted_run a env name (rq_scope r)"
      using g reg Prepare_scope(1,2) [OF prep] by (simp add: permitted_run_def)
    then have "permitted_events a env evs"
      unfolding permitted_events_def evs(1) by (metis dispatched_once [OF evs(2,3)])
    then show ?thesis using 2(6) g by auto
  qed
qed

lemma runTool_grows:
  assumes "exec_SelectTools (ab_exec a) (en_Channel env) = (adv, plan, serr)"
    and "runTool lib a env ingress plan te lane name args st = (obs, st')"
  shows "grows a env 1 st st'"
proof -
  let ?w = "(ag_world st)\<lparr>wo_store := te_other te (wo_store (ag_world st))\<rparr>"
  let ?st1 = "st\<lparr>ag_world := ?w, ag_cells := Suc (ag_cells st)\<rparr>"
  show ?thesis
  proof (cases "Prepare (al_codec lib) (te_fresh te) (te_now te) (ag_cells st) (ab_exec a)
      (tool_submission env ingress plan lane name args)")
    case (Inl e)
    then show ?thesis using assms(2) by (auto simp: runTool_def grows_def Let_def)
  next
    case (Inr r)
    obtain res err r' w' where sub: "Submit (al_codec lib) (te_exec te) (ab_exec a) (Some r) ?w = (res, err, r', w')"
      by (cases "Submit (al_codec lib) (te_exec te) (ab_exec a) (Some r) ?w") auto
    define st2 where "st2 = fold (auditTool a env)
      (concat (map hook_events (drop (length (wo_trace ?w)) (wo_trace w')))) (?st1\<lparr>ag_world := w'\<rparr>)"
    have "(obs, st') = (deniedObservation name, st2) \<or> presentToolResult lib a env res st2 = (obs, st')"
      using assms(2) Inr sub by (auto simp: runTool_def Let_def st2_def split: if_splits)
    then have "ag_world st' = ag_world st2 \<and> ag_memory st' = ag_memory st2 \<and> ag_nativeDisabled st' = ag_nativeDisabled st2"
      using presentToolResult_frame by (metis prod.inject)
    then have "ag_world st' = w'" "ag_memory st' = ag_memory st" "ag_nativeDisabled st' = ag_nativeDisabled st"
      by (simp_all add: st2_def)
    then show ?thesis using submitted_events [OF assms(1) Inr sub] by (simp add: grows_def)
  qed
qed

lemma nativeCall_grows:
  assumes "exec_SelectTools (ab_exec a) (en_Channel env) = (adv, plan, serr)"
    and "nativeCall lib a env ingress plan advertised decisions te call st = (obs, st')"
  shows "grows a env 1 st st'"
  using assms(2)
  by (auto simp: nativeCall_def simp del: One_nat_def intro: runTool_grows [OF assms(1)] grows_audit split: if_splits sum.splits)

lemma nativeCalls_grows:
  assumes "exec_SelectTools (ab_exec a) (en_Channel env) = (adv, plan, serr)"
  shows "nativeCalls lib a env ingress plan advertised decisions tes k calls st = (ms, st') \<Longrightarrow>
    grows a env (length calls) st st'"
proof (induction calls arbitrary: k st ms st')
  case Nil
  then show ?case by simp
next
  case (Cons call calls)
  obtain obs st1 where c: "nativeCall lib a env ingress plan advertised decisions (tes k) call st = (obs, st1)" by fastforce
  obtain ms' st2 where cs: "nativeCalls lib a env ingress plan advertised decisions tes (Suc k) calls st1 = (ms', st2)" by fastforce
  have "st' = st2" using Cons.prems c cs by (simp add: Let_def)
  then show ?case using grows_trans [OF nativeCall_grows [OF assms c] Cons.IH [OF cs]] by simp
qed

lemma nativeTurn_grows:
  assumes "exec_SelectTools (ab_exec a) (en_Channel env) = (adv, plan, serr)"
    and "nativeTurn lib a env ingress plan advertised decisions tes m st = (ms, st')"
  shows "grows a env maxNativeCallsPerTurn st st'"
proof -
  let ?calls = "take maxNativeCallsPerTurn (msg_ToolCalls m)"
  obtain ms1 st1 where c: "nativeCalls lib a env ingress plan advertised decisions tes 0 ?calls st = (ms1, st1)" by fastforce
  have "grows a env maxNativeCallsPerTurn st st1"
    by (rule grows_mono [OF nativeCalls_grows [OF assms(1) c]]) simp
  then show ?thesis using assms(2) c
    by (auto simp: nativeTurn_def bounded_turn_def Let_def intro: grows_audit split: if_splits)
qed

lemma runLoop_grows:
  assumes "exec_SelectTools (ab_exec a) (en_Channel env) = (adv, plan, serr)"
  shows "runLoop lib a env ingress plan its n i req st = (result, st') \<Longrightarrow> grows a env n st st'"
proof (induction n arbitrary: i req st)
  case 0
  then show ?case by simp
next
  case (Suc n)
  let ?out = "CallOne (it_ctx (its i)) req (Model.truncate (ab_model a)) (ab_perModelCall a) (it_call (its i))"
  show ?case
  proof (cases "ctx_Err (it_ctx (its i)) = None \<and> oc_Err ?out = None \<and> (\<exists>resp name args. oc_Response ?out = Some resp \<and>
      parseReply (al_uni lib) (msg_Content (resp_Message resp)) = Some (name, args))")
    case False
    then have "st' = st" using Suc.prems by (auto simp: Let_def split: if_splits option.splits)
    then show ?thesis by simp
  next
    case True
    then obtain resp name args where c: "ctx_Err (it_ctx (its i)) = None" "oc_Err ?out = None" "oc_Response ?out = Some resp"
      "parseReply (al_uni lib) (msg_Content (resp_Message resp)) = Some (name, args)" by blast
    obtain obs st1 where t: "runTool lib a env ingress plan (it_tools (its i) 0) laneText name args st = (obs, st1)" by fastforce
    from Suc.prems c t have "runLoop lib a env ingress plan its n (Suc i) (req\<lparr>req_Messages := req_Messages req @
        [plain_message RoleAssistant (msg_Content (resp_Message resp)),
         plain_message RoleUser (observationPrefix @ obs)]\<rparr>) st1 = (result, st')"
      by (simp add: Let_def)
    from grows_trans [OF runTool_grows [OF assms t] Suc.IH [OF this]] show ?thesis by simp
  qed
qed

text \<open>One iteration of the native loop: it ends, or a turn of tools leads to the next.\<close>

lemma runLoopNative_step:
  assumes "runLoopNative lib a env ingress plan tcm advertised decisions its (Suc n) i req st = (result, st')"
  obtains (ends) "st' = st" | (turn) m ms st1 where
    "nativeTurn lib a env ingress plan advertised decisions (it_tools (its i)) m st = (ms, st1)"
    "runLoopNative lib a env ingress plan tcm advertised decisions its n (Suc i)
       (req\<lparr>req_Messages := req_Messages req @ ms\<rparr>) st1 = (result, st')"
  using assms
  by (fastforce simp: Let_def split: if_splits go_call.splits sum.splits option.splits prod.splits)

lemma runLoopNative_grows:
  assumes "exec_SelectTools (ab_exec a) (en_Channel env) = (adv, plan, serr)"
  shows "runLoopNative lib a env ingress plan tcm advertised decisions its n i req st = (result, st') \<Longrightarrow>
    grows a env (maxNativeCallsPerTurn * n) st st'"
proof (induction n arbitrary: i req st)
  case 0
  then show ?case by simp
next
  case (Suc n)
  from Suc.prems show ?case
  proof (cases rule: runLoopNative_step)
    case ends
    then show ?thesis by simp
  next
    case (turn m ms st1)
    from grows_trans [OF nativeTurn_grows [OF assms turn(1)] Suc.IH [OF turn(2)]] show ?thesis by simp
  qed
qed

lemma effectiveTools_plan:
  assumes "effectiveTools a env = (advertised, decisions, plan)"
  obtains adv serr where "exec_SelectTools (ab_exec a) (en_Channel env) = (adv, plan, serr)"
  using assms by (auto simp: effectiveTools_def split: prod.splits sum.splits)

definition lane_bound :: "'s AgentBrain \<Rightarrow> 's agent_state \<Rightarrow> nat" where
  "lane_bound a st = (if am_GenerateWithTools (ab_model a) \<noteq> None \<and> \<not> ag_nativeDisabled st then maxNativeCallsPerTurn + 1 else 1)"

text \<open>A lane leaves the memory alone; only a degraded native lane flips the flag.\<close>

lemma run_lane_effects:
  assumes "run_lane lib a ae env ingress block history req st = (result, st')"
  shows "\<exists>evs. wo_trace (ag_world st') = wo_trace (ag_world st) @ evs \<and>
      dispatches evs \<le> lane_bound a st * nat (ab_maxIters a) \<and> permitted_events a env evs"
    and "ag_memory st' = ag_memory st" and "ag_nativeDisabled st \<longrightarrow> ag_nativeDisabled st'"
proof -
  obtain advertised decisions plan where e: "effectiveTools a env = (advertised, decisions, plan)" by (metis prod_cases3)
  from effectiveTools_plan [OF e] obtain adv serr where sel: "exec_SelectTools (ab_exec a) (en_Channel env) = (adv, plan, serr)" .
  let ?N = "nat (ab_maxIters a)"
  let ?goal = "(\<exists>evs. wo_trace (ag_world st') = wo_trace (ag_world st) @ evs \<and>
      dispatches evs \<le> lane_bound a st * ?N \<and> permitted_events a env evs) \<and>
    ag_memory st' = ag_memory st \<and> (ag_nativeDisabled st \<longrightarrow> ag_nativeDisabled st')"
  have "?goal"
  proof (cases "am_GenerateWithTools (ab_model a) \<noteq> None \<and> \<not> ag_nativeDisabled st")
    case False
    then have "run_text lib a ae env ingress plan req st = (result, st')"
      using assms e by (auto simp: run_lane_def split: option.splits bool.splits)
    then have "grows a env ?N st st'" using runLoop_grows [OF sel] by (simp add: run_text_def)
    moreover have "lane_bound a st = 1" using False by (auto simp: lane_bound_def)
    ultimately show ?thesis by (simp add: grows_def)
  next
    case True
    then obtain tcm where tcm: "am_GenerateWithTools (ab_model a) = Some tcm" "\<not> ag_nativeDisabled st" by blast
    obtain r1 st1 where n: "runLoopNative lib a env ingress plan tcm advertised decisions (ae_native ae) ?N 0 req st = (r1, st1)"
      by fastforce
    have g1: "grows a env (maxNativeCallsPerTurn * ?N) st st1" by (rule runLoopNative_grows [OF sel n])
    let ?st2 = "disableNativeLane a env (st1\<lparr>ag_nativeDisabled := ag_nativeDisabled st1 \<or> ae_flipped ae\<rparr>)"
    have w2: "ag_world ?st2 = ag_world st1" "ag_memory ?st2 = ag_memory st1" by (simp_all add: disableNativeLane_def)
    consider "st' = st1" | "st' = ?st2" | textReq where "run_text lib a ae env ingress plan textReq ?st2 = (result, st')"
      using assms e tcm n by (auto simp: run_lane_def Let_def split: go_call.splits if_splits option.splits)
    then show ?thesis
    proof cases
      case 1
      then show ?thesis using g1 True by (force simp: grows_def lane_bound_def)
    next
      case 2
      then show ?thesis using g1 w2 True by (force simp: grows_def lane_bound_def)
    next
      case 3
      then have "grows a env ?N ?st2 st'" using runLoop_grows [OF sel] by (simp add: run_text_def)
      then obtain evs2 where "wo_trace (ag_world st') = wo_trace (ag_world st1) @ evs2" "dispatches evs2 \<le> ?N"
          "permitted_events a env evs2" "ag_memory st' = ag_memory st1"
        using w2 by (auto simp: grows_def)
      moreover obtain evs1 where "wo_trace (ag_world st1) = wo_trace (ag_world st) @ evs1"
          "dispatches evs1 \<le> maxNativeCallsPerTurn * ?N" "permitted_events a env evs1" "ag_memory st1 = ag_memory st"
        using g1 by (auto simp: grows_def)
      ultimately show ?thesis using True by (auto simp: lane_bound_def intro!: exI [of _ "evs1 @ evs2"])
    qed
  qed
  then show "\<exists>evs. wo_trace (ag_world st') = wo_trace (ag_world st) @ evs \<and>
      dispatches evs \<le> lane_bound a st * nat (ab_maxIters a) \<and> permitted_events a env evs"
    and "ag_memory st' = ag_memory st" and "ag_nativeDisabled st \<longrightarrow> ag_nativeDisabled st'" by auto
qed

lemma runLoop_answer:
  "runLoop lib a env ingress plan its n i req st = (Returned (said, answered), st') \<Longrightarrow>
   (answered \<longrightarrow> said \<noteq> '''')"
proof (induction n arbitrary: i req st)
  case (Suc n)
  then show ?case by (auto simp: Let_def TrimSpace_Nil split: if_splits option.splits prod.splits)
qed simp

lemma runLoopNative_answer:
  "runLoopNative lib a env ingress plan tcm advertised decisions its n i req st = (Returned (said, answered, degraded), st') \<Longrightarrow>
   (answered \<longrightarrow> said \<noteq> '''' \<and> \<not> degraded)"
proof (induction n arbitrary: i req st)
  case (Suc n)
  then show ?case by (auto simp: Let_def split: if_splits go_call.splits sum.splits option.splits prod.splits)
qed simp

lemma run_lane_answer:
  assumes "run_lane lib a ae env ingress block history req st = (Returned (said, answered), st')"
  shows "answered \<longrightarrow> said \<noteq> ''''"
  using assms
  by (auto simp: run_lane_def run_text_def Let_def dest: runLoop_answer runLoopNative_answer
      split: prod.splits option.splits bool.splits go_call.splits if_splits)

text \<open>What a message leads to: nothing when it carries no text; otherwise a panic of the loop, the fallback, the
  reply of the exit guard, or the answer.\<close>

lemma handle_cases:
  assumes "handle lib a ae ingress env st = (result, st')"
  obtains (silent) "latestText (en_Parts env) = ''''" "result = Returned ([], None)" "st' = st"
  | (panic) v req st1 block history where "run_lane lib a ae env ingress block history req st = (Panicked v, st1)"
      "result = Panicked v" "st' = st1"
  | (fallback) req st1 block history said where
      "run_lane lib a ae env ingress block history req st = (Returned (said, False), st1)"
      "result = Returned (decisionToEnvelopes (ae_stamp ae) (ab_fallback a) env, None)"
      "st' = st1\<lparr>ag_memory := ae_memory ae (ag_memory st1)\<rparr>"
  | (leak) req st1 block history said where
      "run_lane lib a ae env ingress block history req st = (Returned (said, True), st1)"
      "toolCallShape (al_unmarshal lib) said \<noteq> None"
      "result = Returned (decisionToEnvelopes (ae_stamp ae) protocolLeakReply env, None)"
      "ag_world st' = ag_world st1" "ag_memory st' = ae_memory ae (ag_memory st1)" "ag_nativeDisabled st' = ag_nativeDisabled st1"
  | (answer) req st1 block history said where
      "run_lane lib a ae env ingress block history req st = (Returned (said, True), st1)"
      "toolCallShape (al_unmarshal lib) said = None"
      "result = Returned (decisionToEnvelopes (ae_stamp ae) said env, None)"
      "st' = st1\<lparr>ag_memory := persistPair a (ae_appendErr ae) (ae_now ae)
         (fst (agent_loadHistory a (ae_loadErr ae) env (ag_memory st))) (TranscriptText (en_Parts env)) said
         (ae_memory ae (ag_memory st1))\<rparr>"
proof -
  obtain key history where h: "agent_loadHistory a (ae_loadErr ae) env (ag_memory st) = (key, history)" by fastforce
  obtain advertised decisions plan where e: "effectiveTools a env = (advertised, decisions, plan)" by (metis prod_cases3)
  let ?block = "loadNotesBlock a env (ag_memory st)"
  let ?prompt = "composeSystemPrompt a (am_GenerateWithTools (ab_model a) \<noteq> None \<and> \<not> ag_nativeDisabled st) advertised ?block"
  show ?thesis
  proof (cases "requestWithHistory env ?prompt history")
    case None
    then have "latestText (en_Parts env) = ''''" by (auto simp: requestWithHistory_def Let_def split: if_splits)
    moreover have "result = Returned ([], None)" "st' = st" using assms None h e by (simp_all add: handle_def Let_def)
    ultimately show ?thesis by (rule silent)
  next
    case (Some req)
    obtain r st1 where lane: "run_lane lib a ae env ingress ?block history req st = (r, st1)" by fastforce
    note H = assms Some h e lane
    show ?thesis
    proof (cases r)
      case (Panicked v)
      then have "result = Panicked v" "st' = st1" using H by (simp_all add: handle_def Let_def)
      then show ?thesis using lane Panicked panic by blast
    next
      case (Returned x)
      obtain said answered where x: "x = (said, answered)" by fastforce
      consider "\<not> answered" | "answered" "toolCallShape (al_unmarshal lib) said \<noteq> None"
        | "answered" "toolCallShape (al_unmarshal lib) said = None" by blast
      then show ?thesis
      proof cases
        case 1
        then show ?thesis using H Returned x fallback [of ?block history req said st1] by (auto simp: handle_def Let_def)
      next
        case 2
        then show ?thesis using H Returned x leak [of ?block history req said st1] by (auto simp: handle_def Let_def)
      next
        case 3
        then show ?thesis using H Returned x answer [of ?block history req said st1] by (auto simp: handle_def Let_def)
      qed
    qed
  qed
qed

text \<open>
  C19: An agent runs only what its configuration permits, and only so much. Whatever the model asks for while one
  message is handled, on either lane and also when the native lane degrades half-way, every tool run of that message is
  of a tool registered with this agent, under the scope of this brain and of the conversation of this message. If the agent
  has a governance, an allow grant of it names the tool and admits the channel of the message, and a sensitive tool
  runs beside a local model only; if it has an identity and an effect classifier, the declared effect of the tool passes
  the gate. An agent that was mounted without a governance asks for no grant: it may run any of its registered tools. There are at
  most \<open>maxIters\<close> runs on the prompt-protocol lane and nine times as many otherwise. The grants are read only to
  admit; no reply of a model adds to them.
\<close>

theorem agent_tools_are_permitted:
  assumes "handle lib a ae ingress env st = (result, st')"
  shows "\<exists>evs. wo_trace (ag_world st') = wo_trace (ag_world st) @ evs \<and>
    dispatches evs \<le> (if am_GenerateWithTools (ab_model a) \<noteq> None \<and> \<not> ag_nativeDisabled st then 9 else 1) * nat (ab_maxIters a) \<and>
    (\<forall>name scope args out. EvDispatched name scope args out \<in> set evs \<longrightarrow> permitted_run a env name scope)"
proof -
  have bound: "lane_bound a st = (if am_GenerateWithTools (ab_model a) \<noteq> None \<and> \<not> ag_nativeDisabled st then 9 else 1)"
    by (simp add: lane_bound_def maxNativeCallsPerTurn_def)
  have "\<exists>evs. wo_trace (ag_world st') = wo_trace (ag_world st) @ evs \<and>
      dispatches evs \<le> lane_bound a st * nat (ab_maxIters a) \<and> permitted_events a env evs"
    using assms by (cases rule: handle_cases) (auto dest: run_lane_effects(1))
  then show ?thesis unfolding bound permitted_events_def .
qed

lemma protocolLeakReply_plain: "toolCallShape unmarshal protocolLeakReply = None"
proof -
  have ends: "protocolLeakReply = CHR ''S'' # tl protocolLeakReply" "protocolLeakReply = butlast protocolLeakReply @ [CHR ''.'']"
    by (simp_all add: protocolLeakReply_def)
  have "visible (CHR ''S'')" "visible (CHR ''.'')" by code_simp+
  then have trim: "TrimSpace protocolLeakReply = protocolLeakReply" by (rule TrimSpace_visible [OF _ _ ends])
  have "TrimRight (CHR 0x0D) protocolLeakReply = protocolLeakReply" by (simp add: TrimRight_def protocolLeakReply_def)
  then have "\<not> isFormattingNoise protocolLeakReply"
    using trim by (simp add: isFormattingNoise_def clean_line_def Let_def fenceDelimRe_def)
      (simp add: protocolLeakReply_def backtick_def)
  moreover have "Split (CHR 0x0A) protocolLeakReply = [protocolLeakReply]"
    by (rule Split_whole) (simp add: protocolLeakReply_def)
  moreover have "\<not> HasPrefix protocolLeakReply ''{''" by (simp add: HasPrefix_def protocolLeakReply_def)
  ultimately show ?thesis using trim by (simp add: toolCallShape_def)
qed

text \<open>
  C20: No tool request leaks to the user or into the memory. When an agent hands a reply to the router it is a single
  one, to the channel of the message; its text is the configured fallback, or else is not shaped like a tool call.
  What it adds to the conversation is nothing, or exactly the user's turn and that same reply: the calls, the
  observations, the fallback and the reply of the exit guard are never remembered.
\<close>

theorem agent_replies_are_guarded:
  assumes "handle lib a ae ingress env st = (Returned (outs, err), st')" and "out \<in> set outs"
  shows "outs = [out] \<and> err = None \<and> en_Channel out = en_Channel env \<and>
    (\<exists>said. en_Parts out = [content_part Text said] \<and>
      (said = ab_fallback a \<and> ag_memory st' = ae_memory ae (ag_memory st) \<or>
       toolCallShape (al_unmarshal lib) said = None \<and>
         (said = protocolLeakReply \<and> ag_memory st' = ae_memory ae (ag_memory st) \<or>
          ag_memory st' = persistPair a (ae_appendErr ae) (ae_now ae)
            (fst (agent_loadHistory a (ae_loadErr ae) env (ag_memory st))) (TranscriptText (en_Parts env)) said
            (ae_memory ae (ag_memory st)))))"
proof -
  have sent: "outs = [out] \<and> en_Channel out = en_Channel env \<and> en_Parts out = [content_part Text said]"
    if "outs = decisionToEnvelopes (ae_stamp ae) said env" for said
    using that assms(2) by (auto simp: decisionToEnvelopes_def Let_def AddText_def add_part_def New_def)
  from assms(1) show ?thesis
  proof (cases rule: handle_cases)
    case silent
    then show ?thesis using assms(2) by simp
  next
    case panic
    then show ?thesis by simp
  next
    case (fallback req st1 block history said)
    then show ?thesis using sent [of "ab_fallback a"] run_lane_effects(2) [OF fallback(1)] by auto
  next
    case (leak req st1 block history said)
    then show ?thesis using sent [of protocolLeakReply] run_lane_effects(2) [OF leak(1)] protocolLeakReply_plain by auto
  next
    case (answer req st1 block history said)
    then show ?thesis using sent [of said] run_lane_effects(2) [OF answer(1)] by auto
  qed
qed

lemma truncate_Generate: "m_Generate (Model.truncate m) = m_Generate m"
  by (simp add: Model.truncate_def)

lemma CallOne_response:
  assumes "\<And>c req. m_Generate m c req \<noteq> Returned (None, None)" and "oc_Err (CallOne c req m tmo ce) = None"
  shows "oc_Response (CallOne c req m tmo ce) \<noteq> None"
proof -
  define cc where "cc = (if tmo > 0 then WithTimeout c (ce_wall ce) tmo else c)"
  show ?thesis
    using assms(2) assms(1) [of cc req]
    by (cases "m_Name m"; cases "m_Generate m cc req") (auto simp: CallOne_def Let_def cc_def [symmetric] split: option.splits)
qed

definition returns :: "'a go_call \<Rightarrow> bool" where
  "returns r = (case r of Returned _ \<Rightarrow> True | Panicked _ \<Rightarrow> False)"

lemma returns_simps [simp]: "returns (Returned x)" "\<not> returns (Panicked v)"
  by (simp_all add: returns_def)

lemma runLoop_returns:
  assumes "\<And>c req. m_Generate (ab_model a) c req \<noteq> Returned (None, None)"
  shows "returns (fst (runLoop lib a env ingress plan its n i req st))"
proof (induction n arbitrary: i req st)
  case (Suc n)
  let ?out = "CallOne (it_ctx (its i)) req (Model.truncate (ab_model a)) (ab_perModelCall a) (it_call (its i))"
  have "oc_Err ?out = None \<Longrightarrow> oc_Response ?out \<noteq> None"
    by (rule CallOne_response) (simp_all add: truncate_Generate assms)
  then show ?case using Suc.IH by (auto simp: Let_def split: option.splits prod.splits)
qed simp

lemma runLoopNative_returns:
  assumes "m_Name (ab_model a) = Returned name"
  shows "returns (fst (runLoopNative lib a env ingress plan tcm advertised decisions its n i req st))"
proof (induction n arbitrary: i req st)
  case (Suc n)
  then show ?case using assms by (auto simp: Let_def split: sum.splits option.splits prod.splits)
qed simp

lemma run_lane_returns:
  assumes "m_Name (ab_model a) = Returned name" and "\<And>c req. m_Generate (ab_model a) c req \<noteq> Returned (None, None)"
  shows "returns (fst (run_lane lib a ae env ingress block history req st))"
proof -
  obtain advertised decisions plan where e: "effectiveTools a env = (advertised, decisions, plan)" by (metis prod_cases3)
  have t: "returns (fst (run_text lib a ae env ingress plan r s))" for r s
    using runLoop_returns [OF assms(2)] by (simp add: run_text_def)
  show ?thesis
  proof (cases "\<exists>tcm. am_GenerateWithTools (ab_model a) = Some tcm \<and> \<not> ag_nativeDisabled st")
    case False
    then show ?thesis using t e by (auto simp: run_lane_def split: option.splits bool.splits)
  next
    case True
    then obtain tcm where tcm: "am_GenerateWithTools (ab_model a) = Some tcm" "\<not> ag_nativeDisabled st" by blast
    obtain r1 st1 where n: "runLoopNative lib a env ingress plan tcm advertised decisions (ae_native ae)
        (nat (ab_maxIters a)) 0 req st = (r1, st1)" by fastforce
    then have "returns r1"
      using runLoopNative_returns [OF assms(1), of lib env ingress plan tcm advertised decisions "ae_native ae"
          "nat (ab_maxIters a)" 0 req st] by simp
    then show ?thesis using e tcm n t by (cases r1) (auto simp: run_lane_def Let_def split: option.splits)
  qed
qed

text \<open>
  C21: An agent is never silent and always comes to an end. If its model can be named and never returns nil without
  an error, every message that carries text is answered with exactly one reply on its channel and no error,
  whatever the model and the tools return, whether or not the memory works and however the lanes degrade. A message
  without text is passed over without touching anything.
\<close>

theorem agent_always_answers:
  assumes "m_Name (ab_model a) = Returned name" and "\<And>c req. m_Generate (ab_model a) c req \<noteq> Returned (None, None)"
  shows "if latestText (en_Parts env) = '''' then handle lib a ae ingress env st = (Returned ([], None), st)
    else \<exists>out st'. handle lib a ae ingress env st = (Returned ([out], None), st') \<and> en_Channel out = en_Channel env"
proof -
  obtain result st' where h: "handle lib a ae ingress env st = (result, st')" by fastforce
  have single: "\<exists>out. decisionToEnvelopes stamp said env = [out] \<and> en_Channel out = en_Channel env" for stamp said
    by (simp add: decisionToEnvelopes_def Let_def AddText_def add_part_def New_def)
  show ?thesis
  proof (cases "latestText (en_Parts env) = ''''")
    case True
    then have "requestWithHistory env p hist = None" for p hist by (simp add: requestWithHistory_def)
    then show ?thesis using True by (simp add: handle_def Let_def split: prod.splits)
  next
    case False
    from h have "\<exists>out. result = Returned ([out], None) \<and> en_Channel out = en_Channel env"
    proof (cases rule: handle_cases)
      case silent
      then show ?thesis using False by simp
    next
      case (panic v req st1 block history)
      then show ?thesis using run_lane_returns [OF assms, of lib ae env ingress block history req st] by simp
    qed (use single in auto)
    then show ?thesis using h False by auto
  qed
qed

text \<open>The prompt-protocol lane trusts a model that returns nil without an error: the answer is a panic of the
  worker, where the native lane falls back.\<close>

theorem nil_response_panics:
  assumes "m_Name (ab_model a) = Returned n" and "m_Generate (ab_model a) = (\<lambda>c req. Returned (None, None))"
    and "ab_perModelCall a = 0" and "ctx_Err (it_ctx (its i)) = None"
  shows "runLoop lib a env ingress plan its (Suc k) i req st = (Panicked nil_dereference, st)"
    and "callNative lib (\<lambda>c req specs. Returned (None, None)) c req specs =
      Inl (ErrorString ''agent: native model returned nil response'')"
  using assms by (simp_all add: CallOne_def Model.truncate_def Let_def callNative_def)

text \<open>The two lanes disagree on a blank answer: the prompt-protocol lane falls back, the native lane sends
  it.\<close>

theorem blank_answers_differ:
  assumes "ctx_Err (it_ctx (its i)) = None" and "m_Name (ab_model a) = Returned n" and "ab_perModelCall a = 0"
    and "m_Generate (ab_model a) = (\<lambda>c req. Returned (Some resp, None))"
    and "resp_Message resp = plain_message RoleAssistant ''  ''"
    and "tcm = (\<lambda>c req specs. Returned (Some resp, None))"
  shows "runLoop lib a env ingress plan its (Suc k) i req st = (Returned ('''', False), st)"
    and "runLoopNative lib a env ingress plan tcm advertised decisions its (Suc k) i req st = (Returned (''  '', True, False), st)"
proof -
  let ?out = "CallOne (it_ctx (its i)) req (Model.truncate (ab_model a)) (ab_perModelCall a) (it_call (its i))"
  have out: "oc_Err ?out = None" "oc_Response ?out = Some resp"
    using assms(2-4) by (simp_all add: CallOne_def Model.truncate_def)
  have said: "msg_Content (resp_Message resp) = ''  ''" "msg_ToolCalls (resp_Message resp) = []"
    using assms(5) by (simp_all add: plain_message_def)
  have first: "firstMeaningfulLine ''  '' = None" by code_simp
  have trim: "TrimSpace ''  '' = ''''" by code_simp
  have "isFormattingNoise ''  ''" using trim by (simp add: isFormattingNoise_def clean_line_def TrimRight_def)
  then have shape: "toolCallShape u ''  '' = None" for u by (simp add: toolCallShape_def HasPrefix_def)
  have native: "callNative lib tcm (it_ctx (its i)) req specs = Inr resp" for specs
    using assms(6) by (simp add: callNative_def)
  have rescue: "rescueTextToolCall lib (ab_tools a) ''  '' = None" using shape by (simp add: rescueTextToolCall_def)
  have parse: "parseReply (al_uni lib) ''  '' = None" using first by (simp add: parseReply_def)
  show "runLoop lib a env ingress plan its (Suc k) i req st = (Returned ('''', False), st)"
    unfolding runLoop.simps Let_def using assms(1) by (simp only: out said parse trim simp_thms if_True if_False option.case)
  show "runLoopNative lib a env ingress plan tcm advertised decisions its (Suc k) i req st = (Returned (''  '', True, False), st)"
    unfolding runLoopNative.simps Let_def using assms(1,2)
    by (simp add: native said rescue del: runLoopNative.simps)
qed

section \<open>An agent\<close>

text \<open>A model that asks for the tool \<open>echo\<close> and answers once it has seen an observation.\<close>

definition echo_model :: agent_model where
  "echo_model = \<lparr>m_Name = Returned ''ollama'',
     m_Generate = (\<lambda>c req. Returned (Some \<lparr>resp_Message = plain_message RoleAssistant
       (if HasPrefix (msg_Content (last (req_Messages req))) observationPrefix then ''echo says hi'' else ''TOOL: echo(hi)''),
       resp_Provider = ''ollama'', resp_ModelName = ''m''\<rparr>, None)),
     am_GenerateWithTools = None\<rparr>"

definition echo_grants :: Governance where
  "echo_grants = \<lparr>gv_Grants = [\<lparr>tg_Name = ''echo'', tg_Mode = ToolAllow, tg_Channels = [''telegram'']\<rparr>],
     gv_Attrs = [], gv_Sensitivity = Public, gv_Locality = Local\<rparr>"

definition echo_agent :: "unit AgentBrain" where
  "echo_agent = NewAgentBrain 1 echo_model [''echo'' \<mapsto> PlainTool (\<lambda>tmo args. (args, None))]
     (\<lambda>n. \<lparr>ti_Name = n, ti_Description = ''says it again'', ti_Params = None, ti_ArgsFromCall = (\<lambda>_. Inr '''')\<rparr>) [''echo'']
     [WithAgentGovernance (Some echo_grants)]"

definition echo_lib :: agent_lib where
  "echo_lib = \<lparr>al_codec = plain_codec, al_uni = id, al_unmarshal = (\<lambda>_. None), al_marshal = (\<lambda>_. None),
     al_sprint = (\<lambda>_. ''''), al_errText = (\<lambda>_. ''''), al_rfc3339 = (\<lambda>_. '''')\<rparr>"

definition echo_iter :: "unit iter_env" where
  "echo_iter = \<lparr>it_ctx = sample_ctx, it_call = sample_env 0,
     it_tools = (\<lambda>_. \<lparr>te_exec = sample_exec_env, te_fresh = ''act_1'', te_now = 4, te_other = id\<rparr>)\<rparr>"

definition echo_env :: "unit agent_env" where
  "echo_env = \<lparr>ae_text = (\<lambda>_. echo_iter), ae_native = (\<lambda>_. echo_iter), ae_loadErr = None, ae_appendErr = None, ae_now = 6,
     ae_stamp = (''r1'', 7), ae_memory = id, ae_flipped = False\<rparr>"

definition echo_state :: "unit agent_state" where
  "echo_state = \<lparr>ag_world = sample_world, ag_cells = 0, ag_memory = NewMemStore, ag_nativeDisabled = False, ag_audit = []\<rparr>"

lemma echo_agent_fields [simp]:
  "ab_model echo_agent = echo_model" "ab_governance echo_agent = Some echo_grants" "ab_actions echo_agent = None"
  "ab_tools echo_agent = [''echo'' \<mapsto> PlainTool (\<lambda>tmo args. (args, None))]" "ab_owner echo_agent = 1" "ab_maxIters echo_agent = 5"
  "ab_effects echo_agent = None" "ab_identity echo_agent = None" "ab_strictAuthority echo_agent = False"
  "ab_principalResolver echo_agent = False" "ab_perModelCall echo_agent = 0" "ab_store echo_agent = False"
  "ab_perTool echo_agent = 0" "ab_loadNotes echo_agent = None"  "ab_audit echo_agent = False"
  by (simp_all add: echo_agent_def NewAgentBrain_def DefaultAgentMaxIterations_def)

lemma echo_model_fields [simp]:
  "m_Name echo_model = Returned ''ollama''" "am_GenerateWithTools echo_model = None"
  "m_Generate echo_model c req \<noteq> Returned (None, None)"
  by (simp_all add: echo_model_def)

definition echo_plan :: DecisionPlan where
  "echo_plan = snd (snd (effectiveTools echo_agent talking_envelope))"

lemma echo_plan_fields [simp]:
  "dp_owner echo_plan = Some 1" "dp_channel echo_plan = ''telegram''" "dp_governed echo_plan"
  "dp_decisions echo_plan ''echo'' = Some \<lparr>td_Mode = ToolAllow, td_Rule = ToolRuleNone, td_Shield = False\<rparr>"
  by (simp_all add: echo_plan_def effectiveTools_def exec_SelectTools_def echo_grants_def SelectTools_def decideTool_def
      attrs_of_def zero_attrs_def Decisions_def talking_envelope_def AddText_def add_part_def New_def)

lemma talking_channel [simp]: "en_Channel talking_envelope = ''telegram''"
  by (simp add: talking_envelope_def AddText_def add_part_def New_def)

lemma echo_runs:
  "\<exists>st'. runTool echo_lib echo_agent talking_envelope no_ingress echo_plan (it_tools echo_iter 0) laneText ''echo'' ''hi'' echo_state =
     (''hi'', st') \<and> (\<exists>scope. EvDispatched ''echo'' scope ''hi'' (''hi'', None) \<in> set (wo_trace (ag_world st')))"
proof -
  have prep: "\<exists>r. Prepare plain_codec ''act_1'' 4 0 (ab_exec echo_agent)
      (tool_submission talking_envelope no_ingress echo_plan laneText ''echo'' ''hi'') = Inr r"
    by (simp add: Prepare_def tool_submission_def Let_def)
  then obtain r where r: "Prepare plain_codec ''act_1'' 4 0 (ab_exec echo_agent)
      (tool_submission talking_envelope no_ingress echo_plan laneText ''echo'' ''hi'') = Inr r" by blast
  have f: "rq_owner r = Some 1" "rq_plan r = Some echo_plan" "rq_rawName r = ''echo''" "rq_args r = ''hi''" "rq_known r"
    "rq_effectDeclared r" "rq_use r = Some 0" "rq_evidence r = None" "rq_channel r = ''telegram''"
    "validateRequest plain_codec (ab_exec echo_agent) (Some r) = None"
    using r by (auto simp: Prepare_def tool_submission_def Let_def NewEnvelope_def validateRequest_def agent_config_def)
  show ?thesis using f
    by (simp add: runTool_def echo_iter_def echo_state_def echo_lib_def sample_world_def r Submit_def Let_def decide_def gated_def
        execute_def agent_config_def recordAuthorized_def invokeAndClose_def dispatch_def run_tool_def immediateCloser_def
        emit_def split_beta presentToolResult_def observeDecision_def new_result_def)
qed

lemma echo_replies:
  "parseReply id ''TOOL: echo(hi)'' = Some (''echo'', ''hi'')" "parseReply id ''echo says hi'' = None"
  "TrimSpace ''echo says hi'' = ''echo says hi''"
proof -
  have "tool_name ''echo''" "CHR 0x0A \<notin> set ''hi''" "map ascii_lower ''echo'' = ''echo''" by code_simp+
  then show "parseReply id ''TOOL: echo(hi)'' = Some (''echo'', ''hi'')"
    using parse_printed_call [of "''echo''" "''hi''" id] by simp
  have "visible (CHR ''e'')" "visible (CHR ''i'')" by code_simp+
  then show trim: "TrimSpace ''echo says hi'' = ''echo says hi''"
    by (rule TrimSpace_visible [of _ _ _ "''cho says hi''" "''echo says h''"]) simp_all
  have "map ascii_lower (take 4 ''echo says hi'') \<noteq> ''tool''" by code_simp
  then have "toolLineRe ''echo says hi'' = None" by (simp add: toolLineRe_def)
  moreover have "firstMeaningfulLine ''echo says hi'' = Some ''echo says hi''"
    using trim by (simp add: firstMeaningfulLine_def Let_def clean_line_def TrimRight_def fenceDelimRe_def backtick_def Trim_def)
  ultimately show "parseReply id ''echo says hi'' = None" by (simp add: parseReply_def)
qed

lemma echo_call:
  "CallOne (it_ctx echo_iter) req (Model.truncate echo_model) 0 (it_call echo_iter) =
     \<lparr>oc_Provider = ''ollama'', oc_Response = Some \<lparr>resp_Message = plain_message RoleAssistant
        (if HasPrefix (msg_Content (last (req_Messages req))) observationPrefix then ''echo says hi'' else ''TOOL: echo(hi)''),
        resp_Provider = ''ollama'', resp_ModelName = ''m''\<rparr>, oc_Err = None,
      oc_Latency = ce_end (it_call echo_iter) - ce_start (it_call echo_iter)\<rparr>"
  by (simp add: CallOne_def Model.truncate_def echo_model_def)

lemma echo_loop:
  assumes "msg_Content (last (req_Messages req)) = ''hi''"
  shows "\<exists>st' scope. runLoop echo_lib echo_agent talking_envelope no_ingress echo_plan (\<lambda>_. echo_iter) (Suc (Suc k)) 0 req echo_state =
     (Returned (''echo says hi'', True), st') \<and> EvDispatched ''echo'' scope ''hi'' (''hi'', None) \<in> set (wo_trace (ag_world st'))"
proof -
  obtain st' scope where t: "runTool echo_lib echo_agent talking_envelope no_ingress echo_plan (it_tools echo_iter 0) laneText
      ''echo'' ''hi'' echo_state = (''hi'', st')" "EvDispatched ''echo'' scope ''hi'' (''hi'', None) \<in> set (wo_trace (ag_world st'))"
    using echo_runs by blast
  have live: "ctx_Err (it_ctx echo_iter) = None" by (simp add: echo_iter_def sample_ctx_def)
  have uni: "al_uni echo_lib = id" by (simp add: echo_lib_def)
  have "runLoop echo_lib echo_agent talking_envelope no_ingress echo_plan (\<lambda>_. echo_iter) (Suc (Suc k)) 0 req echo_state =
      (Returned (''echo says hi'', True), st')"
    using assms live uni t(1)
    by (simp add: echo_call echo_replies plain_message_def HasPrefix_def observationPrefix_def)
  then show ?thesis using t(2) by blast
qed

lemma echo_handled:
  "\<exists>st' scope. handle echo_lib echo_agent echo_env no_ingress talking_envelope echo_state =
     (Returned (decisionToEnvelopes (''r1'', 7) ''echo says hi'' talking_envelope, None), st') \<and>
     EvDispatched ''echo'' scope ''hi'' (''hi'', None) \<in> set (wo_trace (ag_world st'))"
proof -
  have said: "latestText (en_Parts talking_envelope) = ''hi''" by code_simp
  obtain adv ds where e: "effectiveTools echo_agent talking_envelope = (adv, ds, echo_plan)"
    by (metis echo_plan_def prod.collapse)
  define req where "req = the (requestWithHistory talking_envelope (composeSystemPrompt echo_agent False adv '''') [])"
  have req: "requestWithHistory talking_envelope (composeSystemPrompt echo_agent False adv '''') [] = Some req"
    "msg_Content (last (req_Messages req)) = ''hi''"
    by (simp_all add: req_def requestWithHistory_def said Let_def plain_message_def)
  obtain st1 scope where loop: "runLoop echo_lib echo_agent talking_envelope no_ingress echo_plan (\<lambda>_. echo_iter) 5 0 req echo_state =
     (Returned (''echo says hi'', True), st1)" "EvDispatched ''echo'' scope ''hi'' (''hi'', None) \<in> set (wo_trace (ag_world st1))"
    using echo_loop [OF req(2), of 3] by (auto simp: eval_nat_numeral)
  have shape: "toolCallShape (\<lambda>_. None) s = None" for s by (simp add: toolCallShape_def Let_def)
  have "handle echo_lib echo_agent echo_env no_ingress talking_envelope echo_state =
      (Returned (decisionToEnvelopes (''r1'', 7) ''echo says hi'' talking_envelope, None), st1\<lparr>ag_memory := ag_memory st1\<rparr>)"
    using e req(1) loop(1)
    by (simp add: handle_def agent_loadHistory_def loadHistory_def loadNotesBlock_def run_lane_def run_text_def echo_env_def
        persistPair_def persistTurns_def shape echo_lib_def Let_def)
  then show ?thesis using loop(2) by auto
qed

theorem agent_tools_are_permitted_witness:
  "\<exists>st' scope. snd (handle echo_lib echo_agent echo_env no_ingress talking_envelope echo_state) = st' \<and>
     EvDispatched ''echo'' scope ''hi'' (''hi'', None) \<in> set (wo_trace (ag_world st')) \<and>
     permitted_run echo_agent talking_envelope ''echo'' scope"
proof -
  obtain result st' scope where h: "handle echo_lib echo_agent echo_env no_ingress talking_envelope echo_state = (result, st')"
      "EvDispatched ''echo'' scope ''hi'' (''hi'', None) \<in> set (wo_trace (ag_world st'))"
    using echo_handled by blast
  have "wo_trace (ag_world echo_state) = []" by (simp add: echo_state_def sample_world_def)
  then have "permitted_run echo_agent talking_envelope ''echo'' scope" using agent_tools_are_permitted [OF h(1)] h(2) by fastforce
  then show ?thesis using h by auto
qed

theorem agent_replies_are_guarded_witness:
  "\<exists>out st'. handle echo_lib echo_agent echo_env no_ingress talking_envelope echo_state = (Returned ([out], None), st') \<and>
     en_Parts out = [content_part Text ''echo says hi''] \<and> toolCallShape (al_unmarshal echo_lib) ''echo says hi'' = None"
proof -
  obtain st' where h: "handle echo_lib echo_agent echo_env no_ingress talking_envelope echo_state =
      (Returned (decisionToEnvelopes (''r1'', 7) ''echo says hi'' talking_envelope, None), st')"
    using echo_handled by blast
  obtain out where o: "decisionToEnvelopes (''r1'', 7) ''echo says hi'' talking_envelope = [out]"
      "en_Parts out = [content_part Text ''echo says hi'']"
    by (simp add: decisionToEnvelopes_def Let_def AddText_def add_part_def New_def)
  have "''echo says hi'' \<noteq> ab_fallback echo_agent"
    by (simp add: echo_agent_def NewAgentBrain_def defaultFallback_def)
  then show ?thesis using agent_replies_are_guarded [OF h [unfolded o(1)], of out] h o by (auto simp: content_part_def)
qed

theorem agent_always_answers_witness:
  "\<exists>out st'. handle echo_lib echo_agent echo_env no_ingress talking_envelope echo_state = (Returned ([out], None), st') \<and>
     en_Channel out = ''telegram''"
  using agent_always_answers [of echo_agent "''ollama''" talking_envelope echo_lib echo_env no_ingress echo_state] talking_text
  by simp

end
