(* ===== verification/Delegation.thy ===== *)
theory Delegation
  imports Identity_Seal "HOL-Library.Sublist"
begin

text \<open>
  The strict, signed delegation contracts (\<open>internal/action/authority_v2.go\<close>, \<open>intent_v2.go\<close>): the terms
  of intents and grants with their validation, canonical bytes, digests and signatures, delegation by attenuation in
  every dimension, and the check of an operation's actual use against a grant.

  A Go slice or map whose nil and empty values are told apart by its encoding is an option of a list; a map is the
  list of its entries. A resource matcher is a function of the resource kind; an absent one is \<open>None\<close>. URL
  parsing is a parameter.
\<close>

section \<open>Terms\<close>

type_synonym OperationRef = action_Operation

record ResourceRef =
  rs_Kind :: string
  rs_ID :: string

record IntentBudgetV2 =
  bu_Total :: "int option"
  bu_PerOperation :: "(string \<times> int) list option"

record IntentContractV2 =
  i2_IntentID :: string
  i2_SchemaVersion :: int
  i2_Version :: int
  i2_ProfileID :: string
  i2_OwnerPrincipalID :: string
  i2_Purpose :: string
  i2_Operations :: "OperationRef list option"
  i2_AllowedResources :: "ResourceRef list option"
  i2_DeniedResources :: "ResourceRef list option"
  i2_DataScope :: "string list option"
  i2_OutputDestinations :: "string list option"
  i2_EffectClasses :: "EffectClass list option"
  i2_Budget :: IntentBudgetV2
  i2_ValidFrom :: time
  i2_ExpiresAt :: time
  i2_ApprovalRequired :: bool
  i2_MaxDelegationDepth :: int

record AuthorityGrantV2 =
  g2_GrantID :: string
  g2_SchemaVersion :: int
  g2_Version :: int
  g2_ProfileID :: string
  g2_IntentID :: string
  g2_IntentVersion :: int
  g2_IntentDigest :: string
  g2_IssuerPrincipalID :: string
  g2_SubjectPrincipalID :: string
  g2_ParentGrantID :: string
  g2_ParentGrantVersion :: int
  g2_Operations :: "OperationRef list"
  g2_Channels :: "string list"
  g2_AllowedResources :: "ResourceRef list"
  g2_DeniedResources :: "ResourceRef list"
  g2_AllowedData :: "string list"
  g2_DeniedData :: "string list"
  g2_OutputDestinations :: "string list"
  g2_EffectClasses :: "EffectClass list"
  g2_EffectCeiling :: EffectClass
  g2_Budget :: IntentBudgetV2
  g2_ValidFrom :: time
  g2_ExpiresAt :: time
  g2_DelegationDepthRemaining :: int
  g2_ApprovalRequired :: bool

definition items :: "'a list option \<Rightarrow> 'a list" where
  "items xs = (case xs of None \<Rightarrow> [] | Some l \<Rightarrow> l)"

lemma items_simps [simp]: "items None = []" "items (Some l) = l"
  by (simp_all add: items_def)

definition maxIntentSetEntries :: nat where "maxIntentSetEntries = 256"
definition maxIntentPurpose :: nat where "maxIntentPurpose = 4096"
definition maxAuthorityDepth :: int where "maxAuthorityDepth = 16"

definition ErrAuthorityMalformed :: go_error where
  "ErrAuthorityMalformed = Sentinel ''action: authority grant malformed''"
definition ErrAuthorityUseUnresolved :: go_error where
  "ErrAuthorityUseUnresolved = Sentinel ''action: authority use unresolved''"
definition ErrResourceOutOfScope :: go_error where
  "ErrResourceOutOfScope = Sentinel ''action: resource out of authority scope''"
definition ErrDataOutOfScope :: go_error where
  "ErrDataOutOfScope = Sentinel ''action: data outside authority scope''"
definition ErrDestinationOutOfScope :: go_error where
  "ErrDestinationOutOfScope = Sentinel ''action: destination outside authority scope''"
definition ErrIntentSchemaVersion :: go_error where
  "ErrIntentSchemaVersion = Sentinel ''action: unsupported intent schema version''"
definition ErrIntentBudget :: go_error where "ErrIntentBudget = Sentinel ''action: invalid intent budget''"

text \<open>The first of a list of checks that fails.\<close>

definition first_bad :: "(bool \<times> 'e) list \<Rightarrow> 'e option" where
  "first_bad checks = map_option snd (find fst checks)"

lemma first_bad_simps [simp]:
  "first_bad [] = None" "first_bad ((b, e) # cs) = (if b then Some e else first_bad cs)"
  by (simp_all add: first_bad_def)

lemma first_bad_None: "first_bad cs = None \<longleftrightarrow> (\<forall>c\<in>set cs. \<not> fst c)"
  by (auto simp: first_bad_def find_None_iff)

definition operationKey :: "OperationRef \<Rightarrow> string" where
  "operationKey op = ao_Namespace op @ ''/'' @ ao_Name op @ ''@'' @ decimal (ao_Version op)"

text \<open>The walk over the members of the sets: each has a well-formed shape and a key that is new among the ones
  before it. A member is whether its shape is bad, the error for that, its key and the error for a repeated key.\<close>

fun check_members :: "string list \<Rightarrow> (bool \<times> go_error \<times> string \<times> go_error) list \<Rightarrow> go_error option" where
  "check_members seen [] = None"
| "check_members seen ((bad, shapeErr, key, dupErr) # rest) =
     (if bad then Some shapeErr else if key \<in> set seen then Some dupErr else check_members (key # seen) rest)"

section \<open>Validation\<close>

definition intent_member :: "bool \<Rightarrow> string \<Rightarrow> string \<Rightarrow> bool \<times> go_error \<times> string \<times> go_error" where
  "intent_member bad what key = (bad, ErrorString what, key, ErrorString (''action: duplicate intent set member '' @ key))"

definition validateIntentSets :: "IntentContractV2 \<Rightarrow> go_error option" where
  "validateIntentSets c =
     (let over = (\<lambda>n. n > maxIntentSetEntries) in
      case first_bad
        [(items (i2_Operations c) = [], ErrorString ''action: intent needs an operation''),
         (over (length (items (i2_Operations c))) \<or> over (length (items (i2_AllowedResources c))) \<or> over (length (items (i2_DeniedResources c))) \<or>
          over (length (items (i2_DataScope c))) \<or> over (length (items (i2_OutputDestinations c))) \<or> over (length (items (i2_EffectClasses c))),
          ErrorString ''action: intent set exceeds 256 entries'')] of
        Some e \<Rightarrow> Some e
      | None \<Rightarrow>
          check_members []
            (map (\<lambda>op. intent_member (ao_Namespace op = '''' \<or> ao_Name op = '''' \<or> ao_Version op \<le> 0)
                ''action: invalid operation reference'' (''op:'' @ operationKey op)) (items (i2_Operations c)) @
             map (\<lambda>r. intent_member (rs_Kind r = '''' \<or> rs_ID r = '''') ''action: invalid resource reference''
                (''res:'' @ rs_Kind r @ '':'' @ rs_ID r)) (items (i2_AllowedResources c) @ items (i2_DeniedResources c)) @
             map (\<lambda>v. intent_member (v = '''') ''action: empty set member'' (''str:'' @ v))
                (items (i2_DataScope c) @ items (i2_OutputDestinations c)) @
             map (\<lambda>e. intent_member (\<not> Known e) ''action: unknown effect class'' (''effect:'' @ EffectClass_string e))
                (items (i2_EffectClasses c))))"

definition intent_Validate :: "IntentContractV2 \<Rightarrow> go_error option" where
  "intent_Validate c =
     (case first_bad
        ([(i2_SchemaVersion c \<noteq> 2, Errorf ''%w: %d'' [ErrIntentSchemaVersion]),
          (i2_IntentID c = '''' \<or> i2_ProfileID c = '''' \<or> i2_OwnerPrincipalID c = '''' \<or> i2_Version c \<le> 0,
           ErrorString ''action: intent identity fields are required''),
          (i2_Purpose c = '''' \<or> length (i2_Purpose c) > maxIntentPurpose,
           ErrorString ''action: intent purpose is empty or too long''),
          (IsZero (i2_ValidFrom c) \<or> IsZero (i2_ExpiresAt c) \<or> \<not> i2_ValidFrom c < i2_ExpiresAt c,
           ErrorString ''action: intent window must be non-empty''),
          (i2_MaxDelegationDepth c < 0, ErrorString ''action: negative delegation depth''),
          (case bu_Total (i2_Budget c) of Some t \<Rightarrow> t < 0 | None \<Rightarrow> False, ErrIntentBudget),
          (length (items (bu_PerOperation (i2_Budget c))) > maxIntentSetEntries,
           ErrorString ''action: too many per-operation budgets'')] @
         map (\<lambda>(k, v). (v < 0, ErrIntentBudget)) (items (bu_PerOperation (i2_Budget c)))) of
        Some e \<Rightarrow> Some e
      | None \<Rightarrow> validateIntentSets c)"

definition malformed :: "string \<Rightarrow> go_error" where
  "malformed what = Errorf (''%w: '' @ what) [ErrAuthorityMalformed]"

definition grant_member :: "bool \<Rightarrow> string \<Rightarrow> string \<Rightarrow> string \<Rightarrow> bool \<times> go_error \<times> string \<times> go_error" where
  "grant_member bad what kind v =
     (bad, malformed what, kind @ [byte 0] @ v, malformed (''duplicate or empty '' @ kind))"

definition grant_string :: "string \<Rightarrow> string \<Rightarrow> bool \<times> go_error \<times> string \<times> go_error" where
  "grant_string kind v = grant_member (v = '''') (''duplicate or empty '' @ kind) kind v"

definition grant_members :: "AuthorityGrantV2 \<Rightarrow> (bool \<times> go_error \<times> string \<times> go_error) list" where
  "grant_members g =
     map (\<lambda>op. grant_member (ao_Namespace op = '''' \<or> ao_Name op = '''' \<or> ao_Version op \<le> 0) ''operation''
        ''operation'' (operationKey op)) (g2_Operations g) @
     map (grant_string ''channel'') (g2_Channels g) @
     map (\<lambda>r. grant_member (rs_Kind r = '''' \<or> rs_ID r = '''') ''resource'' ''resource'' (rs_Kind r @ [byte 0] @ rs_ID r))
        (g2_AllowedResources g @ g2_DeniedResources g) @
     map (grant_string ''allowed_data'') (g2_AllowedData g) @ map (grant_string ''denied_data'') (g2_DeniedData g) @
     map (grant_string ''destination'') (g2_OutputDestinations g) @
     map (\<lambda>e. grant_member (\<not> Known e) ''effect class'' ''effect'' (EffectClass_string e)) (g2_EffectClasses g)"

definition grant_Validate :: "AuthorityGrantV2 \<Rightarrow> go_error option" where
  "grant_Validate g =
     (let over = (\<lambda>n. n > maxIntentSetEntries); per = items (bu_PerOperation (g2_Budget g)) in
      case first_bad
        [(g2_SchemaVersion g \<noteq> 2 \<or> g2_Version g \<le> 0 \<or> g2_GrantID g = '''' \<or> g2_ProfileID g = '''' \<or>
          g2_IntentID g = '''' \<or> g2_IntentVersion g \<le> 0 \<or> g2_IntentDigest g = '''' \<or>
          g2_IssuerPrincipalID g = '''' \<or> g2_SubjectPrincipalID g = '''', ErrAuthorityMalformed),
         (g2_ParentGrantID g = '''' \<and> g2_ParentGrantVersion g \<noteq> 0 \<or>
          g2_ParentGrantID g \<noteq> '''' \<and> g2_ParentGrantVersion g \<le> 0, malformed ''parent version''),
         (g2_DelegationDepthRemaining g < 0 \<or> g2_DelegationDepthRemaining g > maxAuthorityDepth,
          malformed ''delegation depth''),
         (IsZero (g2_ValidFrom g) \<or> IsZero (g2_ExpiresAt g) \<or> \<not> g2_ValidFrom g < g2_ExpiresAt g,
          malformed ''validity window''),
         (g2_Operations g = [] \<or> g2_Channels g = [] \<or> g2_EffectClasses g = [], malformed ''required authority set''),
         (over (length (g2_Operations g)) \<or> over (length (g2_Channels g)) \<or> over (length (g2_AllowedResources g)) \<or>
          over (length (g2_DeniedResources g)) \<or> over (length (g2_AllowedData g)) \<or> over (length (g2_DeniedData g)) \<or>
          over (length (g2_OutputDestinations g)) \<or> over (length (g2_EffectClasses g)) \<or> over (length per),
          malformed ''authority set exceeds 256 entries''),
         (case bu_Total (g2_Budget g) of Some t \<Rightarrow> t < 0 | None \<Rightarrow> False, malformed ''total budget'')] of
        Some e \<Rightarrow> Some e
      | None \<Rightarrow>
          (case check_members [] (grant_members g) of
             Some e \<Rightarrow> Some e
           | None \<Rightarrow>
               first_bad (map (\<lambda>(k, v). (k = '''' \<or> v < 0, malformed ''per-operation budget'')) per @
                 [(g2_EffectCeiling g \<noteq> EffectOther '''' \<and> \<not> Known (g2_EffectCeiling g), malformed ''effect ceiling'')])))"

section \<open>Canonical bytes, digests, signatures\<close>

definition json_array :: "string list \<Rightarrow> string" where
  "json_array xs = ''['' @ strings_Join xs '','' @ '']''"

definition json_slice :: "('a \<Rightarrow> string) \<Rightarrow> 'a list option \<Rightarrow> string" where
  "json_slice enc xs = (case xs of None \<Rightarrow> ''null'' | Some l \<Rightarrow> json_array (map enc l))"

definition json_bool :: "bool \<Rightarrow> string" where "json_bool b = (if b then ''true'' else ''false'')"

definition operation_json :: "OperationRef \<Rightarrow> string" where
  "operation_json op = json_object [(''namespace'', json_string (ao_Namespace op)), (''name'', json_string (ao_Name op)),
     (''version'', decimal (ao_Version op))]"

definition resource_json :: "ResourceRef \<Rightarrow> string" where
  "resource_json r = json_object [(''kind'', json_string (rs_Kind r)), (''id'', json_string (rs_ID r))]"

definition effect_json :: "EffectClass \<Rightarrow> string" where
  "effect_json e = json_string (EffectClass_string e)"

definition budget_json :: "IntentBudgetV2 \<Rightarrow> string" where
  "budget_json b = json_object
     [(''total'', case bu_Total b of None \<Rightarrow> ''null'' | Some t \<Rightarrow> decimal t),
      (''per_operation'', case bu_PerOperation b of None \<Rightarrow> ''null''
         | Some m \<Rightarrow> json_object (sort_by (\<lambda>x y. string_less (fst x) (fst y)) (map (\<lambda>(k, v). (k, decimal v)) m)))]"

definition approval_json :: "bool \<Rightarrow> string" where
  "approval_json required = json_object [(''required'', json_bool required)]"

definition operation_less :: "OperationRef \<Rightarrow> OperationRef \<Rightarrow> bool" where
  "operation_less a b =
     (if ao_Namespace a \<noteq> ao_Namespace b then string_less (ao_Namespace a) (ao_Namespace b)
      else if ao_Name a \<noteq> ao_Name b then string_less (ao_Name a) (ao_Name b) else ao_Version a < ao_Version b)"

definition resource_less :: "ResourceRef \<Rightarrow> ResourceRef \<Rightarrow> bool" where
  "resource_less a b =
     (if rs_Kind a \<noteq> rs_Kind b then string_less (rs_Kind a) (rs_Kind b) else string_less (rs_ID a) (rs_ID b))"

definition effect_less :: "EffectClass \<Rightarrow> EffectClass \<Rightarrow> bool" where
  "effect_less a b = string_less (EffectClass_string a) (EffectClass_string b)"

definition intent_CanonicalBytes :: "IntentContractV2 \<Rightarrow> string" where
  "intent_CanonicalBytes c = json_object
     [(''intent_id'', json_string (i2_IntentID c)), (''schema_version'', ''2''), (''version'', decimal (i2_Version c)),
      (''profile_id'', json_string (i2_ProfileID c)), (''owner_principal_id'', json_string (i2_OwnerPrincipalID c)),
      (''purpose'', json_string (i2_Purpose c)),
      (''operations'', json_slice operation_json (map_option (sort_by operation_less) (i2_Operations c))),
      (''allowed_resources'', json_slice resource_json (map_option (sort_by resource_less) (i2_AllowedResources c))),
      (''denied_resources'', json_slice resource_json (map_option (sort_by resource_less) (i2_DeniedResources c))),
      (''data_scope'', json_slice json_string (map_option sortedSet (i2_DataScope c))),
      (''output_destinations'', json_slice json_string (map_option sortedSet (i2_OutputDestinations c))),
      (''effect_classes'', json_slice effect_json (map_option (sort_by effect_less) (i2_EffectClasses c))),
      (''budget'', budget_json (i2_Budget c)),
      (''valid_from'', json_string (timeTerm (i2_ValidFrom c))), (''expires_at'', json_string (timeTerm (i2_ExpiresAt c))),
      (''approval'', approval_json (i2_ApprovalRequired c)), (''max_delegation_depth'', decimal (i2_MaxDelegationDepth c))]"

definition digestAuthorityBytes :: "codec \<Rightarrow> string \<Rightarrow> string" where
  "digestAuthorityBytes cd raw = ''sha256:'' @ cd_sha256 cd raw"

definition intent_Digest :: "codec \<Rightarrow> IntentContractV2 \<Rightarrow> string" where
  "intent_Digest cd c = ''sha256:'' @ cd_sha256 cd (intent_CanonicalBytes c)"

definition grant_CanonicalBytes :: "AuthorityGrantV2 \<Rightarrow> string" where
  "grant_CanonicalBytes g = json_object
     [(''grant_id'', json_string (g2_GrantID g)), (''schema_version'', ''2''), (''version'', decimal (g2_Version g)),
      (''profile_id'', json_string (g2_ProfileID g)), (''intent_id'', json_string (g2_IntentID g)),
      (''intent_version'', decimal (g2_IntentVersion g)), (''intent_digest'', json_string (g2_IntentDigest g)),
      (''issuer_principal_id'', json_string (g2_IssuerPrincipalID g)),
      (''subject_principal_id'', json_string (g2_SubjectPrincipalID g)),
      (''parent_grant_id'', json_string (g2_ParentGrantID g)), (''parent_grant_version'', decimal (g2_ParentGrantVersion g)),
      (''operations'', json_array (map operation_json
         (sort_by (\<lambda>a b. string_less (operationKey a) (operationKey b)) (g2_Operations g)))),
      (''channels'', json_strings (sortedSet (g2_Channels g))),
      (''allowed_resources'', json_array (map resource_json (sort_by resource_less (g2_AllowedResources g)))),
      (''denied_resources'', json_array (map resource_json (sort_by resource_less (g2_DeniedResources g)))),
      (''allowed_data'', json_strings (sortedSet (g2_AllowedData g))),
      (''denied_data'', json_strings (sortedSet (g2_DeniedData g))),
      (''output_destinations'', json_strings (sortedSet (g2_OutputDestinations g))),
      (''effect_classes'', json_array (map effect_json (sort_by effect_less (g2_EffectClasses g)))),
      (''effect_ceiling'', effect_json (g2_EffectCeiling g)),
      (''budget'', budget_json ((g2_Budget g)\<lparr>bu_PerOperation := Some (items (bu_PerOperation (g2_Budget g)))\<rparr>)),
      (''valid_from'', json_string (timeTerm (g2_ValidFrom g))), (''expires_at'', json_string (timeTerm (g2_ExpiresAt g))),
      (''delegation_depth_remaining'', decimal (g2_DelegationDepthRemaining g)),
      (''approval'', approval_json (g2_ApprovalRequired g))]"

definition grant_Digest :: "codec \<Rightarrow> AuthorityGrantV2 \<Rightarrow> string" where
  "grant_Digest cd g = digestAuthorityBytes cd (grant_CanonicalBytes g)"

record AuthoritySignature =
  sg2_Digest :: string
  sg2_SigningKeyID :: string
  sg2_Signature :: string

definition VerifyAuthorityBytes :: "codec \<Rightarrow> string \<Rightarrow> string \<Rightarrow> string \<Rightarrow> AuthoritySignature \<Rightarrow> go_error option" where
  "VerifyAuthorityBytes cd pub domain canonical sig =
     (if sg2_Digest sig \<noteq> digestAuthorityBytes cd canonical \<or> sg2_SigningKeyID sig \<noteq> SigningKeyID cd pub
      then Some ErrAuthorityEvidenceCorrupt
      else if \<not> verifyDomain cd pub domain canonical (sg2_Signature sig) then Some ErrAuthorityEvidenceCorrupt
      else None)"

definition authorityGrantDomain :: string where "authorityGrantDomain = ''korvun.authority-grant.v2''"

definition VerifyAuthorityGrantV2 :: "codec \<Rightarrow> string \<Rightarrow> AuthorityGrantV2 \<Rightarrow> AuthoritySignature \<Rightarrow> go_error option" where
  "VerifyAuthorityGrantV2 cd pub g sig =
     (if grant_Validate g \<noteq> None then Some ErrAuthorityEvidenceCorrupt
      else VerifyAuthorityBytes cd pub authorityGrantDomain (grant_CanonicalBytes g) sig)"

definition intentContractDomain :: string where "intentContractDomain = ''korvun.intent.v2''"

definition VerifyIntentContractV2 :: "codec \<Rightarrow> string \<Rightarrow> IntentContractV2 \<Rightarrow> AuthoritySignature \<Rightarrow> bool" where
  "VerifyIntentContractV2 cd pub c sig \<longleftrightarrow>
     intent_Validate c = None \<and> sg2_Digest sig = intent_Digest cd c \<and> sg2_SigningKeyID sig = SigningKeyID cd pub \<and>
     verifyDomain cd pub intentContractDomain (intent_CanonicalBytes c) (sg2_Signature sig)"

section \<open>Delegation by attenuation\<close>

text \<open>An error of the normalisation: one of the validation, or an \<open>AttenuationError\<close> with its dimension.\<close>

datatype authority_error = TermsError go_error | AttenuationError string string

definition authority_go_error :: "authority_error \<Rightarrow> go_error" where
  "authority_go_error e = (case e of TermsError g \<Rightarrow> g | AttenuationError dimension detail \<Rightarrow> widens dimension detail)"

record AuthorityBudgetRemaining =
  rem_Total :: "int option"
  rem_PerOperation :: "(string \<times> int) list"

type_synonym ResourceMatchers = "string \<Rightarrow> (string \<Rightarrow> string \<Rightarrow> bool) option"

definition operationSubset :: "OperationRef list \<Rightarrow> OperationRef list \<Rightarrow> bool" where
  "operationSubset child parent = list_all (\<lambda>c. c \<in> set parent) child"

definition stringSubset :: "string list \<Rightarrow> string list \<Rightarrow> bool" where
  "stringSubset child parent = list_all (\<lambda>c. c \<in> set parent \<or> ''*'' \<in> set parent) child"

definition stringSuperset :: "string list \<Rightarrow> string list \<Rightarrow> bool" where
  "stringSuperset child parent = stringSubset parent child"

definition effectSubset :: "EffectClass list \<Rightarrow> EffectClass list \<Rightarrow> bool" where
  "effectSubset child parent = list_all (\<lambda>c. c \<in> set parent) child"

definition resourceSuperset :: "ResourceRef list \<Rightarrow> ResourceRef list \<Rightarrow> bool" where
  "resourceSuperset child parent = list_all (\<lambda>p. p \<in> set child) parent"

definition matched :: "ResourceMatchers \<Rightarrow> ResourceRef \<Rightarrow> ResourceRef \<Rightarrow> bool" where
  "matched matchers parent child \<longleftrightarrow>
     rs_Kind parent = rs_Kind child \<and>
     (case matchers (rs_Kind child) of None \<Rightarrow> False | Some f \<Rightarrow> f (rs_ID parent) (rs_ID child))"

definition resourcesIncluded :: "ResourceRef list \<Rightarrow> ResourceRef list \<Rightarrow> ResourceMatchers \<Rightarrow> bool" where
  "resourcesIncluded children parents matchers =
     list_all (\<lambda>child. list_ex (\<lambda>parent. matched matchers parent child) parents) children"

text \<open>The per-operation maxima of the child with those it inherits.\<close>

definition inherit :: "(string \<times> int) list \<Rightarrow> (string \<times> int) list \<Rightarrow> (string \<times> int) list" where
  "inherit own remaining = own @ filter (\<lambda>(k, v). map_of own k = None) remaining"

definition delegation_checks ::
    "codec \<Rightarrow> ResourceMatchers \<Rightarrow> AuthorityGrantV2 \<Rightarrow> AuthorityGrantV2 \<Rightarrow> IntentContractV2 \<Rightarrow> AuthorityBudgetRemaining \<Rightarrow>
     (bool \<times> authority_error) list" where
  "delegation_checks cd matchers parent child intent remaining =
     (let own = items (bu_PerOperation (g2_Budget child)) in
      [(g2_ProfileID child \<noteq> g2_ProfileID parent \<or> g2_ProfileID child \<noteq> i2_ProfileID intent,
        AttenuationError ''profile'' ''profile differs''),
       (g2_IntentID child \<noteq> g2_IntentID parent \<or> g2_IntentID child \<noteq> i2_IntentID intent,
        AttenuationError ''intent'' ''intent differs''),
       (g2_IntentVersion child \<noteq> g2_IntentVersion parent \<or> g2_IntentVersion child \<noteq> i2_Version intent,
        AttenuationError ''intent_version'' ''intent version differs''),
       (g2_IntentDigest child \<noteq> g2_IntentDigest parent \<or> g2_IntentDigest child \<noteq> intent_Digest cd intent,
        AttenuationError ''intent_digest'' ''intent digest differs''),
       (g2_ParentGrantID child \<noteq> g2_GrantID parent \<or> g2_ParentGrantVersion child \<noteq> g2_Version parent,
        AttenuationError ''parent'' ''parent link differs''),
       (g2_IssuerPrincipalID child \<noteq> g2_SubjectPrincipalID parent, AttenuationError ''issuer'' ''issuer is not parent subject''),
       (\<not> operationSubset (g2_Operations child) (g2_Operations parent) \<or>
        \<not> operationSubset (g2_Operations child) (items (i2_Operations intent)),
        AttenuationError ''operations'' ''operation set widens''),
       (\<not> stringSubset (g2_Channels child) (g2_Channels parent), AttenuationError ''channels'' ''channel set widens''),
       (\<not> resourcesIncluded (g2_AllowedResources child) (g2_AllowedResources parent) matchers \<or>
        \<not> resourcesIncluded (g2_AllowedResources child) (items (i2_AllowedResources intent)) matchers,
        AttenuationError ''allowed_resources'' ''allowed resource widens''),
       (\<not> resourceSuperset (g2_DeniedResources child) (g2_DeniedResources parent @ items (i2_DeniedResources intent)),
        AttenuationError ''denied_resources'' ''inherited denial disappeared''),
       (\<not> stringSubset (g2_AllowedData child) (g2_AllowedData parent) \<or>
        \<not> stringSubset (g2_AllowedData child) (items (i2_DataScope intent)),
        AttenuationError ''allowed_data'' ''data set widens''),
       (\<not> stringSuperset (g2_DeniedData child) (g2_DeniedData parent),
        AttenuationError ''denied_data'' ''inherited denial disappeared''),
       (\<not> stringSubset (g2_OutputDestinations child) (g2_OutputDestinations parent) \<or>
        \<not> stringSubset (g2_OutputDestinations child) (items (i2_OutputDestinations intent)),
        AttenuationError ''destinations'' ''destination set widens''),
       (\<not> effectSubset (g2_EffectClasses child) (g2_EffectClasses parent) \<or>
        \<not> effectSubset (g2_EffectClasses child) (items (i2_EffectClasses intent)),
        AttenuationError ''effect_classes'' ''effect set widens''),
       (g2_EffectCeiling parent \<noteq> EffectOther '''' \<and>
        (g2_EffectCeiling child = EffectOther '''' \<or> Rank (g2_EffectCeiling child) > Rank (g2_EffectCeiling parent)),
        AttenuationError ''effect_ceiling'' ''effect ceiling widens''),
       (case rem_Total remaining of None \<Rightarrow> False
        | Some r \<Rightarrow> (case bu_Total (g2_Budget child) of None \<Rightarrow> True | Some t \<Rightarrow> t > r),
        AttenuationError ''budget_total_remaining'' ''total exceeds remaining''),
       (list_ex (\<lambda>(k, maximum). case map_of own k of None \<Rightarrow> False | Some m \<Rightarrow> m > maximum) (rem_PerOperation remaining),
        AttenuationError ''budget_operation_remaining'' ''operation exceeds remaining''),
       (g2_ValidFrom child < g2_ValidFrom parent \<or> g2_ValidFrom child < i2_ValidFrom intent,
        AttenuationError ''valid_from'' ''window starts too early''),
       (g2_ExpiresAt child > g2_ExpiresAt parent \<or> g2_ExpiresAt child > i2_ExpiresAt intent,
        AttenuationError ''expires_at'' ''window ends too late''),
       (g2_DelegationDepthRemaining parent \<le> 0 \<or> g2_DelegationDepthRemaining child < 0 \<or>
        g2_DelegationDepthRemaining child \<ge> g2_DelegationDepthRemaining parent \<or>
        g2_DelegationDepthRemaining child > i2_MaxDelegationDepth intent,
        AttenuationError ''depth'' ''depth does not decrease''),
       ((g2_ApprovalRequired parent \<or> i2_ApprovalRequired intent) \<and> \<not> g2_ApprovalRequired child,
        AttenuationError ''approval'' ''required approval disappeared'')])"

definition NormalizeAuthorityDelegation ::
    "codec \<Rightarrow> ResourceMatchers \<Rightarrow> AuthorityGrantV2 \<Rightarrow> AuthorityGrantV2 \<Rightarrow> IntentContractV2 \<Rightarrow> AuthorityBudgetRemaining \<Rightarrow>
     authority_error + AuthorityGrantV2" where
  "NormalizeAuthorityDelegation cd matchers parent child intent remaining =
     (case (grant_Validate parent, grant_Validate child) of
        (Some e, _) \<Rightarrow> Inl (TermsError e)
      | (None, Some e) \<Rightarrow> Inl (TermsError e)
      | (None, None) \<Rightarrow>
          (case first_bad (delegation_checks cd matchers parent child intent remaining) of
             Some e \<Rightarrow> Inl e
           | None \<Rightarrow> Inr (child\<lparr>g2_Budget := (g2_Budget child)\<lparr>bu_PerOperation :=
               Some (inherit (items (bu_PerOperation (g2_Budget child))) (rem_PerOperation remaining))\<rparr>\<rparr>)))"

section \<open>The use an operation makes\<close>

record OperationUse =
  us_Resources :: "ResourceRef list"
  us_Data :: "string list"
  us_Destinations :: "string list"

definition no_use :: OperationUse where
  "no_use = \<lparr>us_Resources = [], us_Data = [], us_Destinations = []\<rparr>"

definition ValidateAuthorityUse :: "AuthorityGrantV2 \<Rightarrow> OperationUse \<Rightarrow> ResourceMatchers \<Rightarrow> go_error option" where
  "ValidateAuthorityUse grant use matchers =
     first_bad
       [(\<not> resourcesIncluded (us_Resources use) (g2_AllowedResources grant) matchers, ErrResourceOutOfScope),
        (list_ex (\<lambda>r. list_ex (\<lambda>d. matched matchers d r) (g2_DeniedResources grant)) (us_Resources use), ErrResourceOutOfScope),
        (\<not> stringSubset (us_Data use) (g2_AllowedData grant), ErrDataOutOfScope),
        (list_ex (\<lambda>v. v \<in> set (g2_DeniedData grant)) (us_Data use), ErrDataOutOfScope),
        (\<not> stringSubset (us_Destinations use) (g2_OutputDestinations grant), ErrDestinationOutOfScope)]"

text \<open>The standard library's paths: \<open>path.Clean\<close> and, on a Unix, \<open>filepath.Clean\<close>, \<open>Abs\<close> and
  \<open>Rel\<close>. A cleaned rooted path is the list of its elements.\<close>

fun clean_elements :: "bool \<Rightarrow> string list \<Rightarrow> string list \<Rightarrow> string list" where
  "clean_elements rooted out [] = rev out"
| "clean_elements rooted out (e # es) =
     (if e = '''' \<or> e = ''.'' then clean_elements rooted out es
      else if e = ''..'' then
        (case out of
           o' # os \<Rightarrow> if o' \<noteq> ''..'' then clean_elements rooted os es
                     else if rooted then clean_elements rooted out es else clean_elements rooted (e # out) es
         | [] \<Rightarrow> if rooted then clean_elements rooted out es else clean_elements rooted (e # out) es)
      else clean_elements rooted (e # out) es)"

definition IsAbs :: "string \<Rightarrow> bool" where "IsAbs p = HasPrefix p ''/''"

definition Clean :: "string \<Rightarrow> string" where
  "Clean p =
     (let es = clean_elements (IsAbs p) [] (Split (CHR ''/'') p)
      in if IsAbs p then ''/'' @ strings_Join es ''/'' else if es = [] then ''.'' else strings_Join es ''/'')"

definition Abs_elements :: "string \<Rightarrow> string \<Rightarrow> string list" where
  "Abs_elements cwd p = clean_elements True [] (Split (CHR ''/'') (if IsAbs p then p else cwd @ ''/'' @ p))"

fun Rel_elements :: "string list \<Rightarrow> string list \<Rightarrow> string list" where
  "Rel_elements (b # bs) (t # ts) =
     (if b = t then Rel_elements bs ts else replicate (Suc (length bs)) ''..'' @ t # ts)"
| "Rel_elements bs ts = replicate (length bs) ''..'' @ ts"

definition Rel :: "string list \<Rightarrow> string list \<Rightarrow> string" where
  "Rel base targ = (if base = targ then ''.'' else strings_Join (Rel_elements base targ) ''/'')"

text \<open>\<open>PathResourceIncludes\<close>; \<open>cwd\<close> is the working directory, \<open>None\<close> when it cannot be read.\<close>

definition PathResourceIncludes :: "string option \<Rightarrow> string \<Rightarrow> string \<Rightarrow> bool" where
  "PathResourceIncludes cwd parent child =
     (if cwd = None \<and> (\<not> IsAbs parent \<or> \<not> IsAbs child) then False
      else let dir = (case cwd of Some d \<Rightarrow> d | None \<Rightarrow> '''');
               rel = Rel (Abs_elements dir parent) (Abs_elements dir child)
        in rel \<noteq> ''..'' \<and> \<not> HasPrefix rel ''../'')"

section \<open>A path lies in another\<close>

lemma Split_elements: "e \<in> set (Split c s) \<Longrightarrow> c \<notin> set e"
proof (induction s arbitrary: e)
  case (Cons x xs)
  then show ?case by (auto split: if_splits list.splits)
qed simp

definition plain_element :: "string \<Rightarrow> bool" where
  "plain_element e \<longleftrightarrow> e \<noteq> '''' \<and> e \<noteq> ''..'' \<and> CHR ''/'' \<notin> set e"

lemma clean_elements_plain:
  "list_all (\<lambda>e. CHR ''/'' \<notin> set e) es \<Longrightarrow> list_all plain_element out \<Longrightarrow> list_all plain_element (clean_elements True out es)"
proof (induction es arbitrary: out)
  case Nil
  then show ?case by (simp add: list_all_iff)
next
  case (Cons e es)
  then have IH: "list_all plain_element out' \<Longrightarrow> list_all plain_element (clean_elements True out' es)" for out' by simp
  have "e \<noteq> '''' \<Longrightarrow> e \<noteq> ''..'' \<Longrightarrow> plain_element e" using Cons.prems(1) by (simp add: plain_element_def)
  then show ?case using IH [of out] IH [of "e # out"] IH [of "tl out"] Cons.prems(2)
    by (cases out) auto
qed

lemma Abs_elements_plain: "e \<in> set (Abs_elements cwd p) \<Longrightarrow> plain_element e"
proof -
  have "list_all (\<lambda>e. CHR ''/'' \<notin> set e) (Split (CHR ''/'') q)" for q using Split_elements by (auto simp: list_all_iff)
  then show "e \<in> set (Abs_elements cwd p) \<Longrightarrow> plain_element e"
    using clean_elements_plain [of _ "[]"] unfolding Abs_elements_def list_all_iff by (metis empty_iff list.set(1))
qed

lemma Join_head: "strings_Join (e # es) ''/'' = (if es = [] then e else e @ ''/'' @ strings_Join es ''/'')"
  by (cases es) simp_all

lemma plain_not_up:
  assumes "plain_element e"
  shows "\<not> HasPrefix (e @ ''/'' @ r) ''../''" "\<not> HasPrefix e ''../''" "e @ ''/'' @ r \<noteq> ''..''"
proof -
  have e: "e \<noteq> '''' \<and> e \<noteq> ''..'' \<and> CHR ''/'' \<notin> set e" using assms by (simp add: plain_element_def)
  then show "\<not> HasPrefix (e @ ''/'' @ r) ''../''" "\<not> HasPrefix e ''../''"
    by (cases e; cases "tl e"; cases "tl (tl e)"; auto simp: HasPrefix_def)+
  show "e @ ''/'' @ r \<noteq> ''..''" by (auto dest: arg_cong [of _ _ set])
qed

definition goes_up :: "string \<Rightarrow> bool" where
  "goes_up rel \<longleftrightarrow> rel = ''..'' \<or> HasPrefix rel ''../''"

lemma Rel_elements_prefix: "Rel_elements bs ts = (let n = length (takeWhile (\<lambda>(x, y). x = y) (zip bs ts))
   in replicate (length bs - n) ''..'' @ drop n ts)"
  by (induction bs ts rule: Rel_elements.induct) (auto simp: Let_def)

lemma common_prefix: "length (takeWhile (\<lambda>(x, y). x = y) (zip bs ts)) = length bs \<longleftrightarrow> prefix bs ts"
proof (induction bs arbitrary: ts)
  case (Cons b bs)
  then show ?case by (cases ts) auto
qed simp

text \<open>The reference: the elements of the parent begin those of the child.\<close>

lemma PathResourceIncludes_iff:
  assumes "cwd \<noteq> None \<or> IsAbs parent \<and> IsAbs child"
  shows "PathResourceIncludes cwd parent child \<longleftrightarrow>
    prefix (Abs_elements (case cwd of Some d \<Rightarrow> d | None \<Rightarrow> '''') parent) (Abs_elements (case cwd of Some d \<Rightarrow> d | None \<Rightarrow> '''') child)"
proof -
  define P C where "P = Abs_elements (case cwd of Some d \<Rightarrow> d | None \<Rightarrow> '''') parent"
    and "C = Abs_elements (case cwd of Some d \<Rightarrow> d | None \<Rightarrow> '''') child"
  define n where "n = length (takeWhile (\<lambda>(x, y). x = y) (zip P C))"
  have rel: "Rel_elements P C = replicate (length P - n) ''..'' @ drop n C"
    unfolding n_def by (simp add: Rel_elements_prefix Let_def)
  have le: "n \<le> length P" using length_takeWhile_le [of "\<lambda>(x, y). x = y" "zip P C"] by (simp add: n_def)
  have "goes_up (Rel P C) \<longleftrightarrow> \<not> prefix P C"
  proof (cases "P = C")
    case True
    then show ?thesis by (simp add: Rel_def goes_up_def HasPrefix_def)
  next
    case False
    show ?thesis
    proof (cases "n = length P")
      case True
      then have pre: "prefix P C" by (simp add: common_prefix [symmetric] n_def)
      then obtain e es where d: "drop n C = e # es" using False True by (cases "drop n C") (auto simp: prefix_def)
      have "e \<in> set C" using d by (metis in_set_dropD list.set_intros(1))
      then have e: "plain_element e" using Abs_elements_plain unfolding C_def by blast
      have "Rel P C = (if es = [] then e else e @ ''/'' @ strings_Join es ''/'')"
        using False rel True d by (simp add: Rel_def Join_head)
      then show ?thesis using e plain_not_up [OF e] pre by (auto simp: goes_up_def plain_element_def)
    next
      case less: False
      then obtain k where k: "length P - n = Suc k" using le by (metis Suc_diff_Suc le_neq_implies_less)
      have "Rel P C = strings_Join (''..'' # replicate k ''..'' @ drop n C) ''/''"
        using False rel k by (simp add: Rel_def)
      then have "goes_up (Rel P C)" by (auto simp: Join_head goes_up_def HasPrefix_def)
      moreover have "\<not> prefix P C" using less common_prefix [of P C] by (simp add: n_def)
      ultimately show ?thesis by simp
    qed
  qed
  then show ?thesis using assms by (auto simp: PathResourceIncludes_def Let_def P_def C_def goes_up_def)
qed

lemma PathResourceIncludes_trans: "transp (PathResourceIncludes cwd)"
proof (rule transpI)
  fix a b c assume ab: "PathResourceIncludes cwd a b" and bc: "PathResourceIncludes cwd b c"
  show "PathResourceIncludes cwd a c"
  proof (cases "cwd = None \<and> \<not> (IsAbs a \<and> IsAbs b \<and> IsAbs c)")
    case True
    then show ?thesis using ab bc by (auto simp: PathResourceIncludes_def split: if_splits)
  next
    case False
    then show ?thesis using ab bc
      by (subst PathResourceIncludes_iff; (subst (asm) (1 2) PathResourceIncludes_iff)?)
        (auto simp: PathResourceIncludes_iff intro: prefix_order.trans)
  qed
qed

section \<open>URLs and the registered analyzers\<close>

text \<open>What the analyzers use of the standard library: \<open>url.Parse\<close> (\<open>None\<close> on an error), \<open>URL.String\<close>,
  \<open>URL.Hostname\<close>, \<open>json.Valid\<close>, the Unicode case mappings and the working directory.\<close>

record url_parts =
  ur_Scheme :: string
  ur_Host :: string
  ur_User :: bool
  ur_Path :: string
  ur_RawPath :: string
  ur_RawQuery :: string
  ur_Fragment :: string

record use_lib =
  ul_Parse :: "string \<Rightarrow> url_parts option"
  ul_String :: "url_parts \<Rightarrow> string"
  ul_Hostname :: "url_parts \<Rightarrow> string"
  ul_JSONValid :: "string \<Rightarrow> bool"
  ul_uni :: "string \<Rightarrow> string"
  ul_fold :: "string \<Rightarrow> string"
  ul_cwd :: "string option"

definition TrimPrefix :: "string \<Rightarrow> string \<Rightarrow> string" where
  "TrimPrefix s p = (case CutPrefix s p of Some r \<Rightarrow> r | None \<Rightarrow> s)"

definition TrimSuffix_slash :: "string \<Rightarrow> string" where
  "TrimSuffix_slash s = (if s \<noteq> '''' \<and> last s = CHR ''/'' then butlast s else s)"

definition canonicalAuthorityURL :: "use_lib \<Rightarrow> string \<Rightarrow> string option" where
  "canonicalAuthorityURL lib raw =
     (case ul_Parse lib raw of
        None \<Rightarrow> None
      | Some u \<Rightarrow>
          if ur_Scheme u = '''' \<or> ur_Host u = '''' \<or> ur_User u then None
          else if ur_RawPath u \<noteq> '''' then None
          else let written = ''/'' @ TrimPrefix (ur_Path u) ''/''; cleaned = Clean written
            in if written \<noteq> cleaned \<and> written \<noteq> cleaned @ ''/'' then None
               else Some (ul_String lib (u\<lparr>ur_Fragment := '''', ur_Scheme := ToLower (ul_uni lib) (ur_Scheme u),
                  ur_Host := ToLower (ul_uni lib) (ur_Host u), ur_Path := cleaned\<rparr>)))"

definition mustAuthorityHost :: "use_lib \<Rightarrow> string \<Rightarrow> string" where
  "mustAuthorityHost lib raw =
     (case ul_Parse lib raw of None \<Rightarrow> '''' | Some u \<Rightarrow> ToLower (ul_uni lib) (ul_Hostname lib u))"

definition URLResourceIncludes :: "use_lib \<Rightarrow> string \<Rightarrow> string \<Rightarrow> bool" where
  "URLResourceIncludes lib parent child =
     (case (canonicalAuthorityURL lib parent, canonicalAuthorityURL lib child) of
        (Some cp, Some cc) \<Rightarrow>
          (case (ul_Parse lib cp, ul_Parse lib cc) of
             (Some p, Some c) \<Rightarrow>
               if ul_fold lib (ur_Scheme p) \<noteq> ul_fold lib (ur_Scheme c) \<or> ul_fold lib (ur_Host p) \<noteq> ul_fold lib (ur_Host c)
               then False
               else if ur_RawQuery p \<noteq> '''' \<and> ur_RawQuery p \<noteq> ur_RawQuery c then False
               else let base = TrimSuffix_slash (ur_Path p)
                 in ur_Path c = base \<or> HasPrefix (ur_Path c) (base @ ''/'')
           | _ \<Rightarrow> False)
      | _ \<Rightarrow> False)"

definition defaultAuthorityMatchers :: "use_lib \<Rightarrow> ResourceMatchers" where
  "defaultAuthorityMatchers lib =
     [''path'' \<mapsto> PathResourceIncludes (ul_cwd lib), ''url'' \<mapsto> URLResourceIncludes lib,
      ''cage'' \<mapsto> (\<lambda>p c. p = c \<or> p = ''*''), ''legacy'' \<mapsto> (\<lambda>p c. p = c \<or> p = ''*'')]"

definition ErrOperationUseNoAnalyzer :: go_error where
  "ErrOperationUseNoAnalyzer = Errorf ''%w: no analyzer registered for the operation'' [ErrAuthorityUseUnresolved]"

type_synonym OperationUseRegistry = "string \<Rightarrow> (string \<Rightarrow> go_error + OperationUse) option"

definition Register :: "string \<Rightarrow> (string \<Rightarrow> go_error + OperationUse) \<Rightarrow> OperationUseRegistry \<Rightarrow> go_error + OperationUseRegistry" where
  "Register operation analyzer r =
     (if operation = '''' \<or> r operation \<noteq> None then Inl ErrAuthorityUseUnresolved else Inr (r(operation \<mapsto> analyzer)))"

definition Analyze :: "OperationUseRegistry \<Rightarrow> string \<Rightarrow> string \<Rightarrow> go_error + OperationUse" where
  "Analyze r operation args = (case r operation of None \<Rightarrow> Inl ErrOperationUseNoAnalyzer | Some f \<Rightarrow> f args)"

definition pathAnalyzer :: "string \<Rightarrow> go_error + OperationUse" where
  "pathAnalyzer raw =
     (let p = TrimSpace raw
      in if p = '''' \<or> \<not> IsAbs p then Inl ErrAuthorityUseUnresolved
         else Inr (no_use\<lparr>us_Resources := [\<lparr>rs_Kind = ''path'', rs_ID = Clean p\<rparr>]\<rparr>))"

definition url_use :: "use_lib \<Rightarrow> string \<Rightarrow> OperationUse" where
  "url_use lib u = no_use\<lparr>us_Resources := [\<lparr>rs_Kind = ''url'', rs_ID = u\<rparr>], us_Destinations := [mustAuthorityHost lib u]\<rparr>"

definition fetchAnalyzer :: "use_lib \<Rightarrow> string \<Rightarrow> go_error + OperationUse" where
  "fetchAnalyzer lib raw =
     (case canonicalAuthorityURL lib (TrimSpace raw) of
        None \<Rightarrow> Inl ErrAuthorityUseUnresolved | Some u \<Rightarrow> Inr (url_use lib u))"

definition callAnalyzer :: "use_lib \<Rightarrow> string \<Rightarrow> go_error + OperationUse" where
  "callAnalyzer lib raw =
     (let (target, body, found) = Cut (TrimSpace raw) (CHR '' '')
      in if \<not> found \<or> \<not> ul_JSONValid lib (TrimSpace body) then Inl ErrAuthorityUseUnresolved
         else case canonicalAuthorityURL lib target of
           None \<Rightarrow> Inl ErrAuthorityUseUnresolved
         | Some u \<Rightarrow> Inr ((url_use lib u)\<lparr>us_Data := [''payload'']\<rparr>))"

definition RegisterBuiltInOperationUse :: "use_lib \<Rightarrow> OperationUseRegistry \<Rightarrow> go_error + OperationUseRegistry" where
  "RegisterBuiltInOperationUse lib r =
     (case Register ''read_file'' pathAnalyzer r of
        Inl e \<Rightarrow> Inl e
      | Inr r1 \<Rightarrow>
          (case Register ''http_fetch'' (fetchAnalyzer lib) r1 of
             Inl e \<Rightarrow> Inl e | Inr r2 \<Rightarrow> Register ''webhook_call'' (callAnalyzer lib) r2))"

section \<open>A delegated grant permits no more\<close>

definition containsAuthorityString :: "string list \<Rightarrow> string \<Rightarrow> bool" where
  "containsAuthorityString values want = list_ex (\<lambda>v. v = want \<or> v = ''*'') values"

text \<open>What a grant permits: one operation on a channel, of an effect class, at an instant, with a use.\<close>

definition grant_permits ::
    "ResourceMatchers \<Rightarrow> AuthorityGrantV2 \<Rightarrow> OperationRef \<Rightarrow> string \<Rightarrow> EffectClass \<Rightarrow> time \<Rightarrow> OperationUse \<Rightarrow> bool" where
  "grant_permits matchers g op channel effect at use \<longleftrightarrow>
     op \<in> set (g2_Operations g) \<and> containsAuthorityString (g2_Channels g) channel \<and> effect \<in> set (g2_EffectClasses g) \<and>
     (g2_EffectCeiling g \<noteq> EffectOther '''' \<longrightarrow> Rank effect \<le> Rank (g2_EffectCeiling g)) \<and>
     g2_ValidFrom g \<le> at \<and> at < g2_ExpiresAt g \<and> ValidateAuthorityUse g use matchers = None"

lemma stringSubset_trans: "stringSubset a b \<Longrightarrow> stringSubset b c \<Longrightarrow> stringSubset a c"
  by (auto simp: stringSubset_def list_all_iff)

lemma stringSubset_contains: "stringSubset a b \<Longrightarrow> containsAuthorityString a x \<Longrightarrow> containsAuthorityString b x"
  by (auto simp: stringSubset_def containsAuthorityString_def list_all_iff list_ex_iff)

definition transitive_matchers :: "ResourceMatchers \<Rightarrow> bool" where
  "transitive_matchers matchers \<longleftrightarrow> (\<forall>k f. matchers k = Some f \<longrightarrow> transp f)"

lemma resourcesIncluded_trans:
  assumes "transitive_matchers matchers" and "resourcesIncluded a b matchers" and "resourcesIncluded b c matchers"
  shows "resourcesIncluded a c matchers"
proof -
  have "matched matchers z x" if "matched matchers y x" "matched matchers z y" for x y z
    using that assms(1) by (fastforce simp: matched_def transitive_matchers_def split: option.splits dest: transpD)
  then show ?thesis using assms(2,3) unfolding resourcesIncluded_def list_all_iff list_ex_iff by blast
qed

text \<open>The dimensions of an accepted delegation.\<close>

definition within_parent :: "ResourceMatchers \<Rightarrow> AuthorityGrantV2 \<Rightarrow> AuthorityGrantV2 \<Rightarrow> bool" where
  "within_parent matchers child parent \<longleftrightarrow>
     set (g2_Operations child) \<subseteq> set (g2_Operations parent) \<and>
     stringSubset (g2_Channels child) (g2_Channels parent) \<and>
     set (g2_EffectClasses child) \<subseteq> set (g2_EffectClasses parent) \<and>
     (g2_EffectCeiling parent \<noteq> EffectOther '''' \<longrightarrow>
        g2_EffectCeiling child \<noteq> EffectOther '''' \<and> Rank (g2_EffectCeiling child) \<le> Rank (g2_EffectCeiling parent)) \<and>
     g2_ValidFrom parent \<le> g2_ValidFrom child \<and> g2_ExpiresAt child \<le> g2_ExpiresAt parent \<and>
     resourcesIncluded (g2_AllowedResources child) (g2_AllowedResources parent) matchers \<and>
     set (g2_DeniedResources parent) \<subseteq> set (g2_DeniedResources child) \<and>
     stringSubset (g2_AllowedData child) (g2_AllowedData parent) \<and>
     stringSubset (g2_DeniedData parent) (g2_DeniedData child) \<and>
     stringSubset (g2_OutputDestinations child) (g2_OutputDestinations parent)"

lemma Normalize_dest:
  assumes "NormalizeAuthorityDelegation cd matchers parent child intent remaining = Inr child'"
  shows "grant_Validate parent = None" "grant_Validate child = None"
    "first_bad (delegation_checks cd matchers parent child intent remaining) = None"
    "child' = child\<lparr>g2_Budget := (g2_Budget child)\<lparr>bu_PerOperation :=
       Some (inherit (items (bu_PerOperation (g2_Budget child))) (rem_PerOperation remaining))\<rparr>\<rparr>"
  using assms by (auto simp: NormalizeAuthorityDelegation_def split: option.splits)

lemma Normalize_within:
  assumes "NormalizeAuthorityDelegation cd matchers parent child intent remaining = Inr child'"
  shows "within_parent matchers child' parent" "g2_DelegationDepthRemaining child' < g2_DelegationDepthRemaining parent"
    "g2_ApprovalRequired parent \<longrightarrow> g2_ApprovalRequired child'" "g2_DeniedData child' = g2_DeniedData child"
    "g2_IssuerPrincipalID child' = g2_SubjectPrincipalID parent"
    "g2_IntentID child' = g2_IntentID parent" "0 \<le> g2_DelegationDepthRemaining child'"
  using Normalize_dest(3) [OF assms] unfolding Normalize_dest(4) [OF assms]
  by (auto simp: delegation_checks_def Let_def within_parent_def operationSubset_def effectSubset_def resourceSuperset_def
      stringSuperset_def list_all_iff split: if_splits)

lemma within_permits:
  assumes "transitive_matchers matchers" and "within_parent matchers child parent"
    and "''*'' \<notin> set (g2_DeniedData child)" and "grant_permits matchers child op channel effect at use"
  shows "grant_permits matchers parent op channel effect at use"
proof -
  note w = assms(2) [unfolded within_parent_def] and p = assms(4) [unfolded grant_permits_def]
  have v: "resourcesIncluded (us_Resources use) (g2_AllowedResources child) matchers"
      "\<not> list_ex (\<lambda>r. list_ex (\<lambda>d. matched matchers d r) (g2_DeniedResources child)) (us_Resources use)"
      "stringSubset (us_Data use) (g2_AllowedData child)" "\<not> list_ex (\<lambda>v. v \<in> set (g2_DeniedData child)) (us_Data use)"
      "stringSubset (us_Destinations use) (g2_OutputDestinations child)"
    using p by (auto simp: ValidateAuthorityUse_def split: if_splits)
  have "resourcesIncluded (us_Resources use) (g2_AllowedResources parent) matchers"
    using resourcesIncluded_trans [OF assms(1) v(1)] w by blast
  moreover have "\<not> list_ex (\<lambda>r. list_ex (\<lambda>d. matched matchers d r) (g2_DeniedResources parent)) (us_Resources use)"
    using v(2) w by (auto simp: list_ex_iff)
  moreover have "\<not> list_ex (\<lambda>v. v \<in> set (g2_DeniedData parent)) (us_Data use)"
    using v(4) w assms(3) by (auto simp: list_ex_iff stringSubset_def list_all_iff)
  ultimately have "ValidateAuthorityUse parent use matchers = None"
    using v(3,5) w stringSubset_trans by (auto simp: ValidateAuthorityUse_def)
  moreover have "g2_EffectCeiling parent \<noteq> EffectOther '''' \<Longrightarrow> Rank effect \<le> Rank (g2_EffectCeiling parent)"
    using p w by (meson le_trans)
  ultimately show ?thesis using p w stringSubset_contains by (auto simp: grant_permits_def)
qed

section \<open>The matchers of the store\<close>

text \<open>What is relied on of \<open>net/url\<close>: a parsed URL with a scheme and a host, no user and a path in its
  default encoding, whose fragment is dropped, whose scheme and host are in lower case and whose path is replaced by a
  rooted one, is put together by \<open>String\<close> so that it parses back with that path.\<close>

definition canonical_parts :: "use_lib \<Rightarrow> url_parts \<Rightarrow> string \<Rightarrow> url_parts" where
  "canonical_parts lib u p = u\<lparr>ur_Fragment := '''', ur_Scheme := ToLower (ul_uni lib) (ur_Scheme u),
     ur_Host := ToLower (ul_uni lib) (ur_Host u), ur_Path := p\<rparr>"

definition url_law :: "use_lib \<Rightarrow> bool" where
  "url_law lib \<longleftrightarrow> (\<forall>raw u p. ul_Parse lib raw = Some u \<and> ur_Scheme u \<noteq> '''' \<and> ur_Host u \<noteq> '''' \<and> \<not> ur_User u \<and>
     ur_RawPath u = '''' \<and> IsAbs p \<longrightarrow>
     (\<exists>w. ul_Parse lib (ul_String lib (canonical_parts lib u p)) = Some w \<and> ur_Path w = p))"

definition clean_path :: "string \<Rightarrow> bool" where
  "clean_path p \<longleftrightarrow> p = ''/'' \<or> IsAbs p \<and> last p \<noteq> CHR ''/''"

lemma Clean_clean: "IsAbs p \<Longrightarrow> clean_path (Clean p)"
proof -
  assume abs: "IsAbs p"
  define es where "es = clean_elements True [] (Split (CHR ''/'') p)"
  have "list_all (\<lambda>e. CHR ''/'' \<notin> set e) (Split (CHR ''/'') p)" using Split_elements by (auto simp: list_all_iff)
  then have plain: "list_all plain_element es" using clean_elements_plain [of _ "[]"] by (simp add: es_def)
  have "es \<noteq> [] \<Longrightarrow> strings_Join es ''/'' \<noteq> '''' \<and> last (strings_Join es ''/'') \<noteq> CHR ''/''"
    using plain
  proof (induction es)
    case (Cons e es)
    then show ?case by (cases es) (auto simp: plain_element_def dest: last_in_set)
  qed simp
  then show ?thesis using abs by (cases "es = []") (auto simp: Clean_def Let_def clean_path_def IsAbs_def HasPrefix_def es_def)
qed

lemma canonical_path:
  assumes "url_law lib" and "canonicalAuthorityURL lib raw = Some s"
  shows "\<exists>u. ul_Parse lib s = Some u \<and> clean_path (ur_Path u)"
proof -
  obtain u where u: "ul_Parse lib raw = Some u" "ur_Scheme u \<noteq> ''''" "ur_Host u \<noteq> ''''" "\<not> ur_User u" "ur_RawPath u = ''''" and
    s: "s = ul_String lib (canonical_parts lib u (Clean (''/'' @ TrimPrefix (ur_Path u) ''/'')))"
    using assms(2) by (auto simp: canonicalAuthorityURL_def canonical_parts_def Let_def split: option.splits if_splits)
  have clean: "clean_path (Clean (''/'' @ TrimPrefix (ur_Path u) ''/''))" by (rule Clean_clean) (simp add: IsAbs_def HasPrefix_def)
  then have "IsAbs (Clean (''/'' @ TrimPrefix (ur_Path u) ''/''))" by (auto simp: clean_path_def IsAbs_def HasPrefix_def)
  then show ?thesis using assms(1) u s clean unfolding url_law_def by metis
qed

lemma path_below:
  assumes "clean_path p" and "clean_path c"
  shows "(c = TrimSuffix_slash p \<or> HasPrefix c (TrimSuffix_slash p @ ''/'')) \<longleftrightarrow> p = ''/'' \<or> c = p \<or> prefix (p @ ''/'') c"
proof -
  have hp: "HasPrefix x y \<longleftrightarrow> prefix y x" for x y by (metis HasPrefix_def append_take_drop_id prefix_def append_eq_conv_conj)
  show ?thesis
  proof (cases "p = ''/''")
    case True
    then show ?thesis using assms(2) by (auto simp: TrimSuffix_slash_def clean_path_def IsAbs_def HasPrefix_def)
  next
    case False
    then have "TrimSuffix_slash p = p" using assms(1) by (auto simp: clean_path_def TrimSuffix_slash_def)
    then show ?thesis using False hp by auto
  qed
qed

lemma path_below_trans:
  assumes "p = ''/'' \<or> c = p \<or> prefix (p @ ''/'') c" and "c = ''/'' \<or> d = c \<or> prefix (c @ ''/'') d" and "clean_path p"
  shows "p = ''/'' \<or> d = p \<or> prefix (p @ ''/'') d"
proof -
  consider "p = ''/''" | "c = p" | "prefix (p @ ''/'') c" using assms(1) by blast
  then show ?thesis
  proof cases
    case 3
    have "p \<noteq> ''''" using assms(3) by (auto simp: clean_path_def IsAbs_def HasPrefix_def)
    then have "c \<noteq> ''/''" using 3 prefix_length_le [OF 3] by auto
    then have "prefix c d" using assms(2) by (auto simp: prefix_def)
    then show ?thesis using prefix_order.trans [OF 3] by simp
  qed (use assms(2) in auto)
qed

lemma URLResourceIncludes_trans:
  assumes "url_law lib"
  shows "transp (URLResourceIncludes lib)"
proof (rule transpI)
  fix a b c assume ab: "URLResourceIncludes lib a b" and bc: "URLResourceIncludes lib b c"
  obtain sa sb sc where s: "canonicalAuthorityURL lib a = Some sa" "canonicalAuthorityURL lib b = Some sb" "canonicalAuthorityURL lib c = Some sc"
    using ab bc by (auto simp: URLResourceIncludes_def split: option.splits)
  obtain ua ub uc where u: "ul_Parse lib sa = Some ua" "ul_Parse lib sb = Some ub" "ul_Parse lib sc = Some uc"
      "clean_path (ur_Path ua)" "clean_path (ur_Path ub)" "clean_path (ur_Path uc)"
    using canonical_path [OF assms] s by metis
  note below = path_below [OF u(4,5)] path_below [OF u(5,6)] path_below [OF u(4,6)]
  have inc: "ul_fold lib (ur_Scheme ua) = ul_fold lib (ur_Scheme ub) \<and> ul_fold lib (ur_Host ua) = ul_fold lib (ur_Host ub) \<and>
      (ur_RawQuery ua = '''' \<or> ur_RawQuery ua = ur_RawQuery ub) \<and> (ur_Path ua = ''/'' \<or> ur_Path ub = ur_Path ua \<or> prefix (ur_Path ua @ ''/'') (ur_Path ub))"
    "ul_fold lib (ur_Scheme ub) = ul_fold lib (ur_Scheme uc) \<and> ul_fold lib (ur_Host ub) = ul_fold lib (ur_Host uc) \<and>
      (ur_RawQuery ub = '''' \<or> ur_RawQuery ub = ur_RawQuery uc) \<and> (ur_Path ub = ''/'' \<or> ur_Path uc = ur_Path ub \<or> prefix (ur_Path ub @ ''/'') (ur_Path uc))"
    using ab bc s u(1-3) unfolding URLResourceIncludes_def
    by (simp_all only: option.case prod.case Let_def below) (simp_all split: if_splits)
  have "ur_Path ua = ''/'' \<or> ur_Path uc = ur_Path ua \<or> prefix (ur_Path ua @ ''/'') (ur_Path uc)"
    using path_below_trans [OF _ _ u(4)] inc by blast
  then show "URLResourceIncludes lib a c"
    using s u(1-3) inc unfolding URLResourceIncludes_def by (simp only: option.case prod.case Let_def below) auto
qed

lemma defaultAuthorityMatchers_transitive:
  assumes "url_law lib"
  shows "transitive_matchers (defaultAuthorityMatchers lib)"
proof -
  have "transp (\<lambda>p c :: string. p = c)" "transp (\<lambda>p c. p = c \<or> p = ''*'')" by (auto intro: transpI)
  then show ?thesis using URLResourceIncludes_trans [OF assms] PathResourceIncludes_trans
    by (simp add: transitive_matchers_def defaultAuthorityMatchers_def)
qed

text \<open>A chain of delegations, the root first: each grant is what the normalisation made of a proposed child.\<close>

fun delegated_chain :: "codec \<Rightarrow> ResourceMatchers \<Rightarrow> IntentContractV2 \<Rightarrow> AuthorityGrantV2 list \<Rightarrow> bool" where
  "delegated_chain cd matchers intent (parent # child # rest) \<longleftrightarrow>
     (\<exists>proposed remaining. NormalizeAuthorityDelegation cd matchers parent proposed intent remaining = Inr child) \<and>
     delegated_chain cd matchers intent (child # rest)"
| "delegated_chain cd matchers intent gs = True"

lemma chain_permits:
  assumes "transitive_matchers matchers"
  shows "delegated_chain cd matchers intent (g # gs) \<Longrightarrow> \<forall>d\<in>set gs. ''*'' \<notin> set (g2_DeniedData d) \<Longrightarrow>
    grant_permits matchers (last (g # gs)) op channel effect at use \<Longrightarrow>
    \<forall>x\<in>set (g # gs). grant_permits matchers x op channel effect at use"
proof (induction gs arbitrary: g)
  case (Cons c gs)
  from Cons.prems obtain proposed remaining where
    n: "NormalizeAuthorityDelegation cd matchers g proposed intent remaining = Inr c" by auto
  have "\<forall>x\<in>set (c # gs). grant_permits matchers x op channel effect at use"
    using Cons.prems by (intro Cons.IH) auto
  moreover have "''*'' \<notin> set (g2_DeniedData c)" using Cons.prems(2) by simp
  ultimately show ?case using within_permits [OF assms Normalize_within(1) [OF n]] by simp
qed simp

lemma chain_depth:
  "delegated_chain cd matchers intent (g # gs) \<Longrightarrow> gs \<noteq> [] \<Longrightarrow> int (length gs) \<le> g2_DelegationDepthRemaining g"
proof (induction gs arbitrary: g)
  case (Cons c gs)
  from Cons.prems obtain proposed remaining where
    n: "NormalizeAuthorityDelegation cd matchers g proposed intent remaining = Inr c" by auto
  have "gs \<noteq> [] \<Longrightarrow> int (length gs) \<le> g2_DelegationDepthRemaining c" using Cons.prems(1) by (intro Cons.IH) auto
  then show ?case using Normalize_within(2,7) [OF n] by (cases "gs = []") auto
qed simp

lemma valid_depth: "grant_Validate g = None \<Longrightarrow> g2_DelegationDepthRemaining g \<le> 16"
  by (auto simp: grant_Validate_def maxAuthorityDepth_def Let_def split: option.splits if_splits)

lemma chain_short:
  assumes "delegated_chain cd matchers intent (g # gs)"
  shows "length gs \<le> 16"
proof (cases gs)
  case (Cons c cs)
  then obtain proposed remaining where "NormalizeAuthorityDelegation cd matchers g proposed intent remaining = Inr c"
    using assms by auto
  then have "g2_DelegationDepthRemaining g \<le> 16" by (rule valid_depth [OF Normalize_dest(1)])
  then show ?thesis using chain_depth [OF assms] Cons by simp
qed simp

text \<open>
  C30: Delegation never widens, in any of the dimensions of the strict contracts. Along a chain of grants that the
  normalisation accepted link by link, over the store's own matchers for paths, URLs, cages and legacy names, whatever
  the last grant permits (an operation on a channel, of an effect class, at an instant, on resources, with data, to
  destinations) every grant above it permits too, provided no delegated grant lists the literal \<open>*\<close> among its denied
  data; and no chain has more than seventeen grants.
\<close>

theorem strict_delegation_never_widens:
  assumes "url_law lib" and "delegated_chain cd (defaultAuthorityMatchers lib) intent (g # gs)"
    and "\<forall>d\<in>set gs. ''*'' \<notin> set (g2_DeniedData d)"
    and "grant_permits (defaultAuthorityMatchers lib) (last (g # gs)) op channel effect at use"
  shows "(\<forall>x\<in>set (g # gs). grant_permits (defaultAuthorityMatchers lib) x op channel effect at use) \<and> length (g # gs) \<le> 17"
  using chain_permits [OF defaultAuthorityMatchers_transitive [OF assms(1)] assms(2,3,4)] chain_short [OF assms(2)] by simp

section \<open>A chain of two grants\<close>

definition sample_intent2 :: IntentContractV2 where
  "sample_intent2 = \<lparr>i2_IntentID = ''i'', i2_SchemaVersion = 2, i2_Version = 1, i2_ProfileID = ''p'', i2_OwnerPrincipalID = ''o'',
     i2_Purpose = ''tidy'', i2_Operations = Some [\<lparr>ao_Namespace = ''tool'', ao_Name = ''read_file'', ao_Version = 1\<rparr>],
     i2_AllowedResources = Some [\<lparr>rs_Kind = ''path'', rs_ID = ''/srv''\<rparr>], i2_DeniedResources = None,
     i2_DataScope = Some [''*''], i2_OutputDestinations = None, i2_EffectClasses = Some [EffectPure],
     i2_Budget = \<lparr>bu_Total = None, bu_PerOperation = None\<rparr>, i2_ValidFrom = 10, i2_ExpiresAt = 100,
     i2_ApprovalRequired = False, i2_MaxDelegationDepth = 2\<rparr>"

definition sample_grant2 :: "codec \<Rightarrow> AuthorityGrantV2" where
  "sample_grant2 cd = \<lparr>g2_GrantID = ''g'', g2_SchemaVersion = 2, g2_Version = 1, g2_ProfileID = ''p'', g2_IntentID = ''i'',
     g2_IntentVersion = 1, g2_IntentDigest = intent_Digest cd sample_intent2, g2_IssuerPrincipalID = ''o'',
     g2_SubjectPrincipalID = ''s'', g2_ParentGrantID = '''', g2_ParentGrantVersion = 0,
     g2_Operations = [\<lparr>ao_Namespace = ''tool'', ao_Name = ''read_file'', ao_Version = 1\<rparr>], g2_Channels = [''*''],
     g2_AllowedResources = [\<lparr>rs_Kind = ''path'', rs_ID = ''/srv''\<rparr>], g2_DeniedResources = [], g2_AllowedData = [''*''],
     g2_DeniedData = [''secret''], g2_OutputDestinations = [], g2_EffectClasses = [EffectPure],
     g2_EffectCeiling = EffectPure, g2_Budget = \<lparr>bu_Total = None, bu_PerOperation = None\<rparr>, g2_ValidFrom = 10,
     g2_ExpiresAt = 100, g2_DelegationDepthRemaining = 1, g2_ApprovalRequired = False\<rparr>"

definition sample_child2 :: "codec \<Rightarrow> string list \<Rightarrow> AuthorityGrantV2" where
  "sample_child2 cd denied = (sample_grant2 cd)\<lparr>g2_GrantID := ''c'', g2_IssuerPrincipalID := ''s'', g2_SubjectPrincipalID := ''t'',
     g2_ParentGrantID := ''g'', g2_ParentGrantVersion := 1, g2_Channels := [''telegram''],
     g2_AllowedResources := [\<lparr>rs_Kind = ''path'', rs_ID = ''/srv/data''\<rparr>], g2_DeniedData := denied, g2_ExpiresAt := 50,
     g2_DelegationDepthRemaining := 0, g2_Budget := \<lparr>bu_Total = None, bu_PerOperation = Some []\<rparr>\<rparr>"

text \<open>A URL library whose only URLs are the rooted paths of one host.\<close>

definition sample_use_lib :: use_lib where
  "sample_use_lib = \<lparr>ul_Parse = (\<lambda>raw. if IsAbs raw then Some \<lparr>ur_Scheme = ''http'', ur_Host = ''h'', ur_User = False,
       ur_Path = raw, ur_RawPath = '''', ur_RawQuery = '''', ur_Fragment = ''''\<rparr> else None),
     ul_String = ur_Path, ul_Hostname = ur_Host, ul_JSONValid = (\<lambda>_. True), ul_uni = id, ul_fold = id, ul_cwd = Some ''/''\<rparr>"

lemma sample_url_law: "url_law sample_use_lib"
  by (auto simp: url_law_def sample_use_lib_def canonical_parts_def)

lemma sample_paths: "matched (defaultAuthorityMatchers sample_use_lib) \<lparr>rs_Kind = ''path'', rs_ID = ''/srv''\<rparr> \<lparr>rs_Kind = ''path'', rs_ID = ''/srv''\<rparr>"
    "matched (defaultAuthorityMatchers sample_use_lib) \<lparr>rs_Kind = ''path'', rs_ID = ''/srv''\<rparr> \<lparr>rs_Kind = ''path'', rs_ID = ''/srv/data''\<rparr>"
    "matched (defaultAuthorityMatchers sample_use_lib) \<lparr>rs_Kind = ''path'', rs_ID = ''/srv/data''\<rparr> \<lparr>rs_Kind = ''path'', rs_ID = ''/srv/data/a''\<rparr>"
    "matched (defaultAuthorityMatchers sample_use_lib) \<lparr>rs_Kind = ''path'', rs_ID = ''/srv''\<rparr> \<lparr>rs_Kind = ''path'', rs_ID = ''/srv/data/a''\<rparr>"
  by (simp_all add: matched_def defaultAuthorityMatchers_def PathResourceIncludes_def sample_use_lib_def IsAbs_def HasPrefix_def
      Abs_elements_def Rel_def)

lemma strict_sample_valid: "grant_Validate (sample_grant2 cd) = None"
    "denied = [''secret''] \<or> denied = [''*''] \<Longrightarrow> grant_Validate (sample_child2 cd denied) = None"
  by (auto simp: grant_Validate_def sample_grant2_def sample_child2_def maxAuthorityDepth_def maxIntentSetEntries_def Let_def
      grant_members_def grant_member_def grant_string_def IsZero_def intent_Digest_def Known_def effectRanks_def operationKey_def)

definition no_remaining :: AuthorityBudgetRemaining where
  "no_remaining = \<lparr>rem_Total = None, rem_PerOperation = []\<rparr>"

lemma sample_normalized:
  assumes "denied = [''secret''] \<or> denied = [''*'']"
  shows "NormalizeAuthorityDelegation cd (defaultAuthorityMatchers sample_use_lib) (sample_grant2 cd) (sample_child2 cd denied)
    sample_intent2 no_remaining = Inr (sample_child2 cd denied)"
proof -
  have "first_bad (delegation_checks cd (defaultAuthorityMatchers sample_use_lib) (sample_grant2 cd) (sample_child2 cd denied)
      sample_intent2 no_remaining) = None"
    using assms by (auto simp: delegation_checks_def sample_grant2_def sample_child2_def sample_intent2_def no_remaining_def Let_def
        operationSubset_def stringSubset_def stringSuperset_def resourcesIncluded_def resourceSuperset_def effectSubset_def sample_paths)
  then show ?thesis using strict_sample_valid(1) strict_sample_valid(2) [OF assms]
    by (simp add: NormalizeAuthorityDelegation_def) (simp add: sample_child2_def sample_grant2_def inherit_def no_remaining_def)
qed

definition sample_use2 :: OperationUse where
  "sample_use2 = \<lparr>us_Resources = [\<lparr>rs_Kind = ''path'', rs_ID = ''/srv/data/a''\<rparr>], us_Data = [''notes''], us_Destinations = []\<rparr>"

lemma sample_permitted:
  "grant_permits (defaultAuthorityMatchers sample_use_lib) (sample_child2 cd [''secret'']) \<lparr>ao_Namespace = ''tool'', ao_Name = ''read_file'', ao_Version = 1\<rparr>
     ''telegram'' EffectPure 20 sample_use2"
  by (simp add: grant_permits_def sample_child2_def sample_grant2_def containsAuthorityString_def ValidateAuthorityUse_def sample_use2_def
      resourcesIncluded_def sample_paths stringSubset_def)

theorem strict_delegation_never_widens_witness:
  "grant_permits (defaultAuthorityMatchers sample_use_lib) (sample_grant2 plain_codec) \<lparr>ao_Namespace = ''tool'', ao_Name = ''read_file'', ao_Version = 1\<rparr>
     ''telegram'' EffectPure 20 sample_use2"
proof -
  have "delegated_chain plain_codec (defaultAuthorityMatchers sample_use_lib) sample_intent2
      [sample_grant2 plain_codec, sample_child2 plain_codec [''secret'']]"
    using sample_normalized [of "[''secret'']"] by auto
  then show ?thesis
    using strict_delegation_never_widens [OF sample_url_law, of plain_codec sample_intent2 "sample_grant2 plain_codec"
        "[sample_child2 plain_codec [''secret'']]"] sample_permitted
    by (simp add: sample_child2_def)
qed

text \<open>Without the proviso the claim fails: the normalisation accepts a child whose denied data are the literal
  \<open>*\<close> in place of the parent's \<open>secret\<close>, and the child's own check lets through what the parent's refuses.\<close>

theorem star_denial_loses_the_parents:
  "NormalizeAuthorityDelegation cd (defaultAuthorityMatchers sample_use_lib) (sample_grant2 cd) (sample_child2 cd [''*''])
     sample_intent2 no_remaining = Inr (sample_child2 cd [''*'']) \<and>
   ValidateAuthorityUse (sample_child2 cd [''*'']) (no_use\<lparr>us_Data := [''secret'']\<rparr>) (defaultAuthorityMatchers sample_use_lib) = None \<and>
   ValidateAuthorityUse (sample_grant2 cd) (no_use\<lparr>us_Data := [''secret'']\<rparr>) (defaultAuthorityMatchers sample_use_lib) = Some ErrDataOutOfScope"
  by (simp add: sample_normalized) (simp add: ValidateAuthorityUse_def sample_child2_def sample_grant2_def no_use_def
      resourcesIncluded_def stringSubset_def)

end
