(* ===== verification/Grant_Tables.thy ===== *)
theory Grant_Tables
  imports Action_Store Delegation
begin

text \<open>
  The strict authority in the action store: its tables (\<open>internal/action/sqlite/store.go\<close>, schema 13 to 15),
  the signed lifecycle of intents (\<open>action/intent_v2.go\<close>, \<open>sqlite/intent_v2.go\<close>), and the evidence of
  grants and budgets (\<open>sqlite/authority_v2.go\<close>): signing, histories, accounts, counters and debits.

  The state is the action store with the tables of the authority beside it. A column of canonical text that the code
  parses back holds the value the text encodes, and its text is the encoding of that value; terms whose text is longer than
  the parser admits do not parse. An empty text in a nullable column is its \<open>NULL\<close>. The counters are unbounded
  integers: they start at zero and grow by one.
\<close>

section \<open>Results in sequence\<close>

definition andthen :: "'e + 'a \<Rightarrow> ('a \<Rightarrow> 'e + 'b) \<Rightarrow> 'e + 'b" where
  "andthen r f = (case r of Inl e \<Rightarrow> Inl e | Inr x \<Rightarrow> f x)"

definition unless_error :: "'e option \<Rightarrow> 'e + 'b \<Rightarrow> 'e + 'b" where
  "unless_error e r = (case e of Some x \<Rightarrow> Inl x | None \<Rightarrow> r)"

definition demand :: "bool \<Rightarrow> 'e \<Rightarrow> 'e + 'b \<Rightarrow> 'e + 'b" where
  "demand ok e r = (if ok then r else Inl e)"

lemma andthen_simps [simp]: "andthen (Inl e) f = Inl e" "andthen (Inr x) f = f x"
  by (simp_all add: andthen_def)

lemma unless_error_simps [simp]: "unless_error (Some e) r = Inl e" "unless_error None r = r"
  by (simp_all add: unless_error_def)

lemma andthen_Inr [simp]: "andthen r f = Inr y \<longleftrightarrow> (\<exists>x. r = Inr x \<and> f x = Inr y)"
  by (cases r) simp_all

lemma unless_error_Inr [simp]: "unless_error e r = Inr y \<longleftrightarrow> e = None \<and> r = Inr y"
  by (cases e) simp_all

lemma demand_Inr [simp]: "demand ok e r = Inr y \<longleftrightarrow> ok \<and> r = Inr y"
  by (simp add: demand_def)

lemma demand_True [simp]: "demand True e r = r" "demand False e r = Inl e"
  by (simp_all add: demand_def)

section \<open>Errors\<close>

definition ErrNoRows :: go_error where "ErrNoRows = Sentinel ''sql: no rows in result set''"
definition ErrBudgetExhausted :: go_error where
  "ErrBudgetExhausted = Sentinel ''action/sqlite: authority budget exhausted''"
definition ErrAuthorityStoreBusy :: go_error where
  "ErrAuthorityStoreBusy = Sentinel ''action/sqlite: authority store busy''"
definition ErrAuthorityRevoked :: go_error where "ErrAuthorityRevoked = Sentinel ''action/sqlite: authority revoked''"
definition ErrAuthorityInactive :: go_error where "ErrAuthorityInactive = Sentinel ''action/sqlite: authority inactive''"
definition ErrAuthorityExpired :: go_error where "ErrAuthorityExpired = Sentinel ''action/sqlite: authority expired''"
definition ErrAuthorityMissing :: go_error where "ErrAuthorityMissing = Sentinel ''action/sqlite: authority missing''"
definition ErrAuthoritySignerUnavailable :: go_error where
  "ErrAuthoritySignerUnavailable = Sentinel ''action/sqlite: authority signer unavailable''"
definition ErrAuthorityAmbiguous :: go_error where "ErrAuthorityAmbiguous = Sentinel ''action/sqlite: authority ambiguous''"
definition ErrAuthorityApprovalRequired :: go_error where
  "ErrAuthorityApprovalRequired = Sentinel ''action/sqlite: authority approval required''"
definition ErrGrantIDRequired :: go_error where "ErrGrantIDRequired = Sentinel ''action/sqlite: no grant id''"
definition ErrBindingNotActive :: go_error where
  "ErrBindingNotActive = Sentinel ''action/sqlite: a bind writes an ACTIVE row''"
definition ErrIssuerMismatch :: go_error where
  "ErrIssuerMismatch = Sentinel ''action/sqlite: authority issuer mismatch''"
definition ErrActionAlreadyStarted :: go_error where
  "ErrActionAlreadyStarted = Sentinel ''action/sqlite: action already started''"
definition ErrBudgetEvidenceCorrupt :: go_error where
  "ErrBudgetEvidenceCorrupt = Sentinel ''action/sqlite: budget evidence corrupt''"
definition action_ErrSignedObjectMutated :: go_error where
  "action_ErrSignedObjectMutated = Sentinel ''action: signed object mutated''"
definition action_ErrSigningKeyRetired :: go_error where
  "action_ErrSigningKeyRetired = Sentinel ''action: signing key retired''"
definition ErrIntentInactive :: go_error where "ErrIntentInactive = Sentinel ''action: intent inactive''"
definition ErrIntentRevoked :: go_error where "ErrIntentRevoked = Sentinel ''action: intent revoked''"
definition ErrIntentExpired :: go_error where "ErrIntentExpired = Sentinel ''action: intent expired''"
definition ErrAmbiguousIntentBinding :: go_error where
  "ErrAmbiguousIntentBinding = Sentinel ''action: ambiguous intent binding''"

text \<open>A statement that a constraint of its table refuses.\<close>

definition constraint_failed :: "string \<Rightarrow> go_error" where
  "constraint_failed table = ErrorString (''constraint failed: '' @ table)"

section \<open>Signed intent events, bindings, config clauses, snapshots\<close>

definition LifecycleStatus_string :: "LifecycleStatus \<Rightarrow> string" where
  "LifecycleStatus_string s = (case s of LifecycleDraft \<Rightarrow> ''DRAFT'' | LifecycleActive \<Rightarrow> ''ACTIVE''
     | LifecycleExpired \<Rightarrow> ''EXPIRED'' | LifecycleRevoked \<Rightarrow> ''REVOKED'' | LifecycleOther x \<Rightarrow> x)"

abbreviation no_status :: LifecycleStatus where "no_status \<equiv> LifecycleOther ''''"

record IntentEventV1 =
  nv_EventID :: string
  nv_IntentID :: string
  nv_Version :: int
  nv_Revision :: int
  nv_From :: LifecycleStatus
  nv_To :: LifecycleStatus
  nv_ActorPrincipalID :: string
  nv_EvidenceDigest :: string
  nv_OccurredAt :: time
  nv_PreviousEventDigest :: string

record SignedIntentEventV1 =
  sn_Event :: IntentEventV1
  sn_Digest :: string
  sn_SigningKeyID :: string
  sn_Signature :: string

definition intentEventDomain :: string where "intentEventDomain = ''korvun.intent-event.v1''"

definition intentEvent_canonicalBytes :: "IntentEventV1 \<Rightarrow> string" where
  "intentEvent_canonicalBytes e = json_object
     [(''event_id'', json_string (nv_EventID e)), (''intent_id'', json_string (nv_IntentID e)),
      (''version'', decimal (nv_Version e)), (''revision'', decimal (nv_Revision e)),
      (''from'', json_string (LifecycleStatus_string (nv_From e))), (''to'', json_string (LifecycleStatus_string (nv_To e))),
      (''actor_principal_id'', json_string (nv_ActorPrincipalID e)), (''evidence_digest'', json_string (nv_EvidenceDigest e)),
      (''occurred_at'', json_string (timeTerm (nv_OccurredAt e))),
      (''previous_event_digest'', json_string (nv_PreviousEventDigest e))]"

text \<open>\<open>hex.DecodeString\<close> with its error dropped: the bytes before the first malformed pair.\<close>

fun hex_prefix :: "string \<Rightarrow> string" where
  "hex_prefix (h # l # r) =
     (case (hex_value h, hex_value l) of (Some a, Some b) \<Rightarrow> byte (16 * a + b) # hex_prefix r | _ \<Rightarrow> '''')"
| "hex_prefix _ = ''''"

definition VerifyIntentEventV1 :: "codec \<Rightarrow> string \<Rightarrow> SignedIntentEventV1 \<Rightarrow> go_error option" where
  "VerifyIntentEventV1 cd pub s =
     (let b = intentEvent_canonicalBytes (sn_Event s) in
      if sn_Digest s \<noteq> ''sha256:'' @ cd_sha256 cd b \<or> sn_SigningKeyID s \<noteq> SigningKeyID cd pub then Some ErrIntentEvidenceCorrupt
      else if \<not> cd_ed25519_Verify cd pub (raw_sha256 cd (intentEventDomain @ [byte 0] @ b)) (hex_prefix (sn_Signature s))
      then Some ErrIntentEvidenceCorrupt else None)"

definition IntentV2LifecycleTransition :: "LifecycleStatus \<Rightarrow> LifecycleStatus \<Rightarrow> go_error option" where
  "IntentV2LifecycleTransition from to = LifecycleTransition from to"

record ExecutionBinding =
  eb_BindingID :: string
  eb_ActorPrincipalID :: string
  eb_Channel :: string
  eb_ConversationID :: string
  eb_IntentID :: string
  eb_IntentVersion :: int
  eb_IntentDigest :: string
  eb_GrantID :: string
  eb_GrantVersion :: int
  eb_GrantDigest :: string
  eb_Revision :: int
  eb_Status :: BindingStatus

record ConfigAuthorityClause =
  cc_ClauseID :: string
  cc_SchemaVersion :: int
  cc_ProfileID :: string
  cc_BrainPrincipal :: string
  cc_ToolName :: string
  cc_Channels :: "string list"
  cc_CageDigest :: string

definition clause_CanonicalBytes :: "ConfigAuthorityClause \<Rightarrow> string" where
  "clause_CanonicalBytes c = json_object
     [(''schema_version'', decimal (cc_SchemaVersion c)), (''profile_id'', json_string (cc_ProfileID c)),
      (''brain_principal_id'', json_string (cc_BrainPrincipal c)), (''tool_name'', json_string (cc_ToolName c)),
      (''channels'', json_strings (sortedSet (cc_Channels c))), (''cage_digest'', json_string (cc_CageDigest c))]"

definition clause_Digest :: "codec \<Rightarrow> ConfigAuthorityClause \<Rightarrow> string" where
  "clause_Digest cd c = digestAuthorityBytes cd (clause_CanonicalBytes c)"

fun clause_channels :: "nat \<Rightarrow> string list \<Rightarrow> string list \<Rightarrow> bool" where
  "clause_channels n seen [] = True"
| "clause_channels n seen (c # cs) =
     (if c = '''' \<or> c \<in> set seen \<or> c = ''*'' \<and> n \<noteq> 1 then False else clause_channels n (c # seen) cs)"

definition clause_Validate :: "codec \<Rightarrow> ConfigAuthorityClause \<Rightarrow> go_error option" where
  "clause_Validate cd c =
     first_bad
       [(cc_SchemaVersion c \<noteq> 1 \<or> cc_ProfileID c = '''' \<or> cc_BrainPrincipal c = '''' \<or> cc_ToolName c = '''' \<or>
         cc_CageDigest c = '''' \<or> cc_Channels c = [] \<or> length (cc_Channels c) > maxIntentSetEntries, ErrAuthorityMalformed),
        (\<not> clause_channels (length (cc_Channels c)) [] (cc_Channels c), ErrAuthorityMalformed),
        (cc_ClauseID c \<noteq> ''cfg_'' @ TrimPrefix (clause_Digest cd c) ''sha256:'', ErrAuthorityMalformed)]"

text \<open>\<open>authorization_snapshot.go\<close>.\<close>

datatype AuthorizationSnapshotKind = AuthorizationSnapshotPending | AuthorizationSnapshotStart | SnapshotKindOther string
datatype AuthorizationBudgetKind = AuthorizationBudgetFinite | AuthorizationBudgetUnlimited | BudgetKindOther string

record AuthorizationSnapshotV1 =
  au_Kind :: AuthorizationSnapshotKind
  au_ActionID :: string
  au_ApprovalID :: string
  au_ConversationID :: string
  au_RequesterPrincipalID :: string
  au_ActorPrincipalID :: string
  au_IdentityEvidenceDigest :: string
  au_IntentID :: string
  au_IntentVersion :: int
  au_IntentDigest :: string
  au_IntentPurpose :: string
  au_PrincipalChain :: "string list"
  au_BudgetKind :: AuthorizationBudgetKind
  au_BudgetRemaining :: "int option"
  au_RecordedAt :: time

definition ErrAuthorizationSnapshotMalformed :: go_error where
  "ErrAuthorizationSnapshotMalformed = Sentinel ''action: authorization snapshot malformed''"

definition snapshot_Validate :: "AuthorizationSnapshotV1 \<Rightarrow> go_error option" where
  "snapshot_Validate s =
     first_bad
       [(au_ActionID s = '''' \<or> au_RequesterPrincipalID s = '''' \<or> au_ActorPrincipalID s = '''' \<or> au_IntentID s = '''' \<or>
         au_IntentVersion s \<le> 0 \<or> au_IntentDigest s = '''' \<or> au_IntentPurpose s = '''' \<or> IsZero (au_RecordedAt s) \<or>
         au_PrincipalChain s = [], ErrAuthorizationSnapshotMalformed),
        ('''' \<in> set (au_PrincipalChain s), ErrAuthorizationSnapshotMalformed),
        (case au_Kind s of AuthorizationSnapshotPending \<Rightarrow> au_ApprovalID s = '''' | AuthorizationSnapshotStart \<Rightarrow> False
           | SnapshotKindOther _ \<Rightarrow> True, ErrAuthorizationSnapshotMalformed),
        (case au_BudgetKind s of
           AuthorizationBudgetFinite \<Rightarrow> (case au_BudgetRemaining s of None \<Rightarrow> True | Some r \<Rightarrow> r < 0)
         | AuthorizationBudgetUnlimited \<Rightarrow> au_BudgetRemaining s \<noteq> None
         | BudgetKindOther _ \<Rightarrow> True, ErrAuthorizationSnapshotMalformed)]"

definition AuthorizationSnapshotV1Domain :: string where
  "AuthorizationSnapshotV1Domain = ''korvun.authorization-snapshot.v1''"

definition kind_string :: "AuthorizationSnapshotKind \<Rightarrow> string" where
  "kind_string k = (case k of AuthorizationSnapshotPending \<Rightarrow> ''pending'' | AuthorizationSnapshotStart \<Rightarrow> ''start'' | SnapshotKindOther x \<Rightarrow> x)"

definition budget_kind_string :: "AuthorizationBudgetKind \<Rightarrow> string" where
  "budget_kind_string k = (case k of AuthorizationBudgetFinite \<Rightarrow> ''finite'' | AuthorizationBudgetUnlimited \<Rightarrow> ''unlimited'' | BudgetKindOther x \<Rightarrow> x)"

definition snapshot_CanonicalBytes :: "AuthorizationSnapshotV1 \<Rightarrow> string" where
  "snapshot_CanonicalBytes s = json_object
     ([(''schema_version'', ''1''), (''snapshot_kind'', json_string (kind_string (au_Kind s))),
       (''action_id'', json_string (au_ActionID s))] @
      (if au_ApprovalID s = '''' then [] else [(''approval_id'', json_string (au_ApprovalID s))]) @
      (if au_ConversationID s = '''' then [] else [(''conversation_id'', json_string (au_ConversationID s))]) @
      [(''requester_principal_id'', json_string (au_RequesterPrincipalID s)),
       (''actor_principal_id'', json_string (au_ActorPrincipalID s)),
       (''identity_evidence_digest'', json_string (au_IdentityEvidenceDigest s)), (''intent_id'', json_string (au_IntentID s)),
       (''intent_version'', decimal (au_IntentVersion s)), (''intent_digest'', json_string (au_IntentDigest s)),
       (''intent_purpose'', json_string (au_IntentPurpose s)), (''principal_chain'', json_strings (au_PrincipalChain s)),
       (''budget_kind'', json_string (budget_kind_string (au_BudgetKind s)))] @
      (case au_BudgetRemaining s of None \<Rightarrow> [] | Some r \<Rightarrow> [(''budget_remaining'', decimal r)]) @
      [(''recorded_at'', json_string (rfc3339nano (au_RecordedAt s)))])"

section \<open>Tables\<close>

record intent_version_row =
  iv_terms :: IntentContractV2
  iv_digest :: string
  iv_signing_key_id :: string
  iv_signature :: string

record IntentHead =
  ih_ActiveVersion :: int
  ih_Revision :: int
  ih_LastEventDigest :: string
  ih_Status :: LifecycleStatus

record grant_event_row =
  ge_event_id :: string
  ge_grant_id :: string
  ge_grant_version :: int
  ge_revision :: int
  ge_from :: LifecycleStatus
  ge_to :: LifecycleStatus
  ge_actor_action_id :: string
  ge_actor :: string
  ge_administrative :: bool
  ge_reason :: string
  ge_occurred_at :: time
  ge_previous :: string
  ge_canonical :: string
  ge_seal :: AuthoritySignature

record grant_head =
  gh_active_version :: int
  gh_revision :: int
  gh_last_event_digest :: string
  gh_status :: LifecycleStatus

record budget_account =
  ba_profile_id :: string
  ba_scope_kind :: string
  ba_stable_scope_id :: string
  ba_max_total :: "int option"
  ba_per_operation :: "(string \<times> int) list option"

record authorityDebitRecord =
  dr_ActionID :: string
  dr_AccountID :: string
  dr_Operation :: string
  dr_Sequence :: int
  dr_Cumulative :: int
  dr_Previous :: string
  dr_At :: time

record budget_debit_row =
  bd_action_id :: string
  bd_account_id :: string
  bd_operation_key :: string
  bd_sequence :: int
  bd_previous_digest :: string
  bd_cumulative_spent :: int
  bd_canonical :: authorityDebitRecord
  bd_seal :: AuthoritySignature

record budget_counter_row =
  ct_spent :: int
  ct_sequence :: int
  ct_tail_digest :: string
  ct_canonical :: string
  ct_seal :: AuthoritySignature

record authorityStartRecord =
  st_ActionID :: string
  st_Generation :: int
  st_IntentID :: string
  st_IntentVersion :: int
  st_IntentDigest :: string
  st_GrantChain :: string
  st_DebitSetDigest :: string
  st_IdentityEvidenceDigest :: string
  st_ConfigGeneration :: int
  st_DecisionDigest :: string
  st_PolicyVersion :: int
  st_PolicyDigest :: string
  st_AuthorizationTime :: time

record authorityActivationRoot =
  rc_ProfileID :: string
  rc_ManifestDigest :: string
  rc_ActorActionID :: string
  rc_Actor :: string
  rc_Reason :: string
  rc_At :: time

record authorityBirthHead =
  bh_ActivationDigest :: string
  bh_Sequence :: int
  bh_LastEventDigest :: string
  bh_actor_action_id :: string
  bh_canonical :: string
  bh_seal :: AuthoritySignature

record authorityBirthEvent =
  be_ProfileID :: string
  be_Sequence :: int
  be_ApprovalID :: string
  be_ActionID :: string
  be_ActionDigest :: string
  be_StrictRequired :: bool
  be_SnapshotDigest :: string
  be_PreviousDigest :: string

text \<open>The canonical text of a birth row is a text; where the row is the root of an activation, \<open>br_root\<close> is the
  record that text encodes.\<close>

record birth_row =
  br_event :: authorityBirthEvent
  br_root :: "authorityActivationRoot option"
  br_canonical :: string
  br_seal :: AuthoritySignature

record config_head_row =
  ch_generation :: int
  ch_clause_set_digest :: string
  ch_ClauseIDs :: "string list"
  ch_canonical :: string
  ch_seal :: AuthoritySignature

record config_clause_row =
  cr_profile_id :: string
  cr_brain_principal_id :: string
  cr_generation :: int
  cr_clause :: ConfigAuthorityClause
  cr_canonical :: string
  cr_seal :: AuthoritySignature

record authority_store =
  as_store :: Store
  as_decided_at :: "(string \<times> time) list"
  as_intents :: "((string \<times> int) \<times> intent_version_row) list"
  as_intent_events :: "SignedIntentEventV1 list"
  as_intent_heads :: "(string \<times> IntentHead) list"
  as_bindings :: "ExecutionBinding list"
  as_grants :: "((string \<times> int) \<times> AuthorityGrantV2 \<times> AuthoritySignature) list"
  as_grant_events :: "grant_event_row list"
  as_grant_heads :: "(string \<times> grant_head) list"
  as_accounts :: "(string \<times> budget_account) list"
  as_counters :: "((string \<times> string) \<times> budget_counter_row) list"
  as_debits :: "budget_debit_row list"
  as_starts :: "(string \<times> authorityStartRecord \<times> AuthoritySignature) list"
  as_snapshots :: "(string \<times> AuthorizationSnapshotV1 \<times> AuthoritySignature) list"
  as_births :: "birth_row list"
  as_birth_heads :: "(string \<times> authorityBirthHead) list"
  as_clauses :: "config_clause_row list"
  as_config_heads :: "((string \<times> string) \<times> config_head_row) list"
  as_imports :: "(string \<times> string) list"
  as_lock :: int
  as_signer :: "(string \<Rightarrow> string \<Rightarrow> AuthoritySignature) option"
  as_contractSigner :: "(IntentContractV2 \<Rightarrow> IntentContractV2 \<times> AuthoritySignature) option"
  as_eventSigner :: "(IntentEventV1 \<Rightarrow> SignedIntentEventV1) option"
  as_profile :: string
  as_activation :: string

text \<open>What the operations meet beside the tables: the environment of the store, the standard library of the analyzers,
  which driver errors belong to the busy family, the failed attempts to own the writer (each with whether the context or the
  deadline is over), a failed statement, a failed commit, and fresh identifiers.\<close>

record authority_env =
  ae_sv :: store_env
  ae_lib :: use_lib
  ae_busy :: "go_error \<Rightarrow> bool"
  ae_attempts :: "(go_error \<times> bool) list"
  ae_statement :: "go_error option"
  ae_commit :: "go_error option"
  ae_action_id :: string
  ae_event_id :: string

section \<open>The writer\<close>

definition mapAuthorityStoreError :: "authority_env \<Rightarrow> go_error \<Rightarrow> go_error" where
  "mapAuthorityStoreError ae e =
     (if errors_Is e context_DeadlineExceeded \<or> errors_Is e context_Canceled \<or> ae_busy ae e
      then Errorf ''%w: %w'' [ErrAuthorityStoreBusy, e] else e)"

fun own_writer :: "authority_env \<Rightarrow> (go_error \<times> bool) list \<Rightarrow> go_error option" where
  "own_writer ae [] = None"
| "own_writer ae ((e, over) # rest) =
     (let mapped = mapAuthorityStoreError ae e in
      if \<not> errors_Is mapped ErrAuthorityStoreBusy \<or> over then Some mapped else own_writer ae rest)"

definition beginAuthorityWrite :: "authority_env \<Rightarrow> authority_store \<Rightarrow> go_error + authority_store" where
  "beginAuthorityWrite ae a =
     (case own_writer ae (ae_attempts ae) of
        Some e \<Rightarrow> Inl e
      | None \<Rightarrow> let revision = as_lock a + 1
               in if revision \<le> 0 then Inl ErrAuthorityEvidenceCorrupt else Inr (a\<lparr>as_lock := revision\<rparr>))"

text \<open>One transaction under write ownership: an error before the commit leaves the store as it was.\<close>

definition authority_tx ::
    "authority_env \<Rightarrow> (authority_store \<Rightarrow> go_error + 'a \<times> authority_store) \<Rightarrow> authority_store \<Rightarrow>
     (go_error + 'a) \<times> authority_store" where
  "authority_tx ae f a =
     (case beginAuthorityWrite ae a of
        Inl e \<Rightarrow> (Inl e, a)
      | Inr a1 \<Rightarrow>
          (case ae_statement ae of
             Some e \<Rightarrow> (Inl e, a)
           | None \<Rightarrow>
               (case f a1 of
                  Inl e \<Rightarrow> (Inl e, a)
                | Inr (x, a2) \<Rightarrow>
                    (case ae_commit ae of Some e \<Rightarrow> (Inl (mapAuthorityStoreError ae e), a) | None \<Rightarrow> (Inr x, a2)))))"

text \<open>The intent doors use a plain transaction.\<close>

definition plain_tx ::
    "authority_env \<Rightarrow> (authority_store \<Rightarrow> go_error + 'a \<times> authority_store) \<Rightarrow> authority_store \<Rightarrow>
     (go_error + 'a) \<times> authority_store" where
  "plain_tx ae f a =
     (case ae_statement ae of
        Some e \<Rightarrow> (Inl e, a)
      | None \<Rightarrow>
          (case f a of
             Inl e \<Rightarrow> (Inl e, a)
           | Inr (x, a2) \<Rightarrow> (case ae_commit ae of Some e \<Rightarrow> (Inl e, a) | None \<Rightarrow> (Inr x, a2))))"

lemma authority_tx_cases:
  assumes "authority_tx ae f a = (r, a')"
  obtains (kept) e where "r = Inl e" "a' = a"
  | (ran) x where "r = Inr x" "f (a\<lparr>as_lock := as_lock a + 1\<rparr>) = Inr (x, a')"
  using assms
  by (auto simp: authority_tx_def beginAuthorityWrite_def Let_def split: option.splits sum.splits prod.splits if_splits)

lemma plain_tx_cases:
  assumes "plain_tx ae f a = (r, a')"
  obtains (kept) e where "r = Inl e" "a' = a" | (ran) x where "r = Inr x" "f a = Inr (x, a')"
  using assms by (auto simp: plain_tx_def split: option.splits sum.splits prod.splits)

definition SetAuthoritySigner :: "(string \<Rightarrow> string \<Rightarrow> AuthoritySignature) option \<Rightarrow> authority_store \<Rightarrow> authority_store" where
  "SetAuthoritySigner signer a = a\<lparr>as_signer := signer\<rparr>"

definition signAuthorityTx :: "codec \<Rightarrow> string \<Rightarrow> string \<Rightarrow> authority_store \<Rightarrow> go_error + AuthoritySignature" where
  "signAuthorityTx cd domain canonical a =
     (case as_signer a of
        None \<Rightarrow> Inl ErrAuthoritySignerUnavailable
      | Some sign \<Rightarrow>
          (let seal = sign domain canonical in
           andthen (publicKeyTx (as_store a) (sg2_SigningKeyID seal)) (\<lambda>(pub, retired).
             if retired then Inl action_ErrSigningKeyRetired
             else unless_error (VerifyAuthorityBytes cd pub domain canonical seal) (Inr seal))))"

end
