(* ===== verification/Intent_Store.thy ===== *)
theory Intent_Store
  imports Grant_Tables
begin

text \<open>
  Signed intents and execution bindings in the store (\<open>internal/action/sqlite/intent_v2.go\<close>), and the use of an
  intent by the authority (\<open>activeIntentTx\<close>).
\<close>

section \<open>Reading an intent\<close>

definition maxIntentBytes :: nat where "maxIntentBytes = 65536"

text \<open>\<open>ParseIntentContractV2\<close> on the canonical text of the terms a row holds.\<close>

definition ParseIntentContractV2 :: "IntentContractV2 \<Rightarrow> go_error + IntentContractV2" where
  "ParseIntentContractV2 c =
     demand (length (intent_CanonicalBytes c) \<le> maxIntentBytes) (ErrorString ''action: intent exceeds 65536 bytes'')
       (unless_error (intent_Validate c) (Inr c))"

definition readIntentTermsTx :: "authority_store \<Rightarrow> string \<Rightarrow> int \<Rightarrow> go_error + IntentContractV2" where
  "readIntentTermsTx a i version =
     (case map_of (as_intents a) (i, version) of None \<Rightarrow> Inl ErrNotFound | Some row \<Rightarrow> ParseIntentContractV2 (iv_terms row))"

definition intentHeadTx :: "authority_store \<Rightarrow> string \<Rightarrow> go_error + IntentHead" where
  "intentHeadTx a i = (case map_of (as_intent_heads a) i of None \<Rightarrow> Inl ErrNotFound | Some h \<Rightarrow> Inr h)"

text \<open>One row of the history after the revision, digest and status before it.\<close>

definition intent_link ::
    "codec \<Rightarrow> Store \<Rightarrow> string \<Rightarrow> SignedIntentEventV1 \<Rightarrow> int \<times> string \<times> LifecycleStatus \<Rightarrow>
     go_error + int \<times> string \<times> LifecycleStatus" where
  "intent_link cd s i sgd before =
     (case before of (revision, previous, status) \<Rightarrow>
        let event = (sn_Event sgd)\<lparr>nv_IntentID := i\<rparr> in
        demand (nv_Revision event = revision + 1 \<and> nv_PreviousEventDigest event = previous) ErrIntentEvidenceCorrupt
          (demand (if nv_Revision event = 1 then nv_From event = no_status \<and> nv_To event = LifecycleDraft
                   else nv_From event = status \<and> IntentV2LifecycleTransition (nv_From event) (nv_To event) = None)
             ErrIntentEvidenceCorrupt
             (case publicKeyTx s (sn_SigningKeyID sgd) of
                Inl _ \<Rightarrow> Inl ErrIntentEvidenceCorrupt
              | Inr (pub, _) \<Rightarrow>
                  demand (VerifyIntentEventV1 cd pub (sgd\<lparr>sn_Event := event\<rparr>) = None) ErrIntentEvidenceCorrupt
                    (Inr (nv_Revision event, sn_Digest sgd, nv_To event)))))"

fun intent_walk ::
    "codec \<Rightarrow> Store \<Rightarrow> string \<Rightarrow> SignedIntentEventV1 list \<Rightarrow> int \<times> string \<times> LifecycleStatus \<Rightarrow>
     go_error + int \<times> string \<times> LifecycleStatus" where
  "intent_walk cd s i [] before = Inr before"
| "intent_walk cd s i (e # es) before = andthen (intent_link cd s i e before) (intent_walk cd s i es)"

text \<open>The rows of an intent, joined with the registry of keys, by revision.\<close>

definition intent_history :: "authority_store \<Rightarrow> string \<Rightarrow> SignedIntentEventV1 list" where
  "intent_history a i = sort_by (\<lambda>x y. nv_Revision (sn_Event x) < nv_Revision (sn_Event y))
     (filter (\<lambda>g. nv_IntentID (sn_Event g) = i \<and> map_of (sr_keys (as_store a)) (sn_SigningKeyID g) \<noteq> None) (as_intent_events a))"

definition verifyIntentHistoryOn :: "codec \<Rightarrow> authority_store \<Rightarrow> string \<Rightarrow> IntentHead \<Rightarrow> go_error option" where
  "verifyIntentHistoryOn cd a i head =
     (case intent_walk cd (as_store a) i (intent_history a i) (0, '''', no_status) of
        Inl e \<Rightarrow> Some e
      | Inr tail \<Rightarrow> if tail = (ih_Revision head, ih_LastEventDigest head, ih_Status head) then None
                    else Some ErrIntentEvidenceCorrupt)"

definition lifecycle_refusal :: "LifecycleStatus \<Rightarrow> go_error option" where
  "lifecycle_refusal st = (case st of LifecycleRevoked \<Rightarrow> Some ErrIntentRevoked | LifecycleExpired \<Rightarrow> Some ErrIntentExpired
     | LifecycleActive \<Rightarrow> None | _ \<Rightarrow> Some ErrIntentInactive)"

text \<open>The key and signature of terms, verified; a row that was never signed has neither.\<close>

definition verify_terms :: "codec \<Rightarrow> authority_store \<Rightarrow> IntentContractV2 \<Rightarrow> string \<Rightarrow> intent_version_row \<Rightarrow> go_error option" where
  "verify_terms cd a c digest row =
     (case publicKeyTx (as_store a) (iv_signing_key_id row) of
        Inl e \<Rightarrow> Some e
      | Inr (pub, _) \<Rightarrow>
          if VerifyIntentContractV2 cd pub c \<lparr>sg2_Digest = digest, sg2_SigningKeyID = iv_signing_key_id row, sg2_Signature = iv_signature row\<rparr>
          then None else Some ErrIntentEvidenceCorrupt)"

definition activeIntentTx ::
    "codec \<Rightarrow> authority_store \<Rightarrow> string \<Rightarrow> int \<Rightarrow> string \<Rightarrow> time \<Rightarrow> go_error + IntentContractV2" where
  "activeIntentTx cd a i version digest at =
     andthen (readIntentTermsTx a i version) (\<lambda>c.
     demand (intent_Digest cd c = digest) ErrIntentEvidenceCorrupt (
     andthen (intentHeadTx a i) (\<lambda>head.
     unless_error (verifyIntentHistoryOn cd a i head) (
     unless_error (lifecycle_refusal (ih_Status head)) (
     case map_of (as_intents a) (i, version) of
       None \<Rightarrow> Inl ErrNoRows
     | Some row \<Rightarrow>
         demand (iv_signing_key_id row \<noteq> '''' \<and> iv_signature row \<noteq> '''') (ErrorString ''sql: Scan error: converting NULL to string'')
           (unless_error (verify_terms cd a c digest row)
              (demand (\<not> at < i2_ValidFrom c \<and> at < i2_ExpiresAt c) ErrIntentExpired (Inr c))))))))"

definition SetIntentV2Signer ::
    "(IntentContractV2 \<Rightarrow> IntentContractV2 \<times> AuthoritySignature) option \<Rightarrow> (IntentEventV1 \<Rightarrow> SignedIntentEventV1) option \<Rightarrow>
     authority_store \<Rightarrow> authority_store" where
  "SetIntentV2Signer contract event a = a\<lparr>as_contractSigner := contract, as_eventSigner := event\<rparr>"

text \<open>\<open>ResolveIntentV2\<close>: the same judgement in another order, reading the lifecycle before the key.\<close>

definition ResolveIntentV2 ::
    "codec \<Rightarrow> authority_store \<Rightarrow> string \<Rightarrow> int \<Rightarrow> string \<Rightarrow> time \<Rightarrow> go_error + IntentContractV2" where
  "ResolveIntentV2 cd a i version digest at =
     (case map_of (as_intents a) (i, version) of
        None \<Rightarrow> Inl ErrNotFound
      | Some row \<Rightarrow>
          (case ParseIntentContractV2 (iv_terms row) of
             Inl e \<Rightarrow> Inl (Errorf ''%w: %v'' [ErrIntentEvidenceCorrupt])
           | Inr c \<Rightarrow>
               demand (digest = intent_Digest cd c \<and> iv_digest row = intent_Digest cd c) ErrIntentEvidenceCorrupt (
               andthen (intentHeadTx a i) (\<lambda>head.
               unless_error (verifyIntentHistoryOn cd a i head) (
               demand (ih_Status head \<noteq> LifecycleDraft) ErrIntentInactive (
               demand (ih_Status head \<noteq> LifecycleRevoked) ErrIntentRevoked (
               demand (ih_Status head \<noteq> LifecycleExpired) ErrIntentExpired (
               unless_error (verify_terms cd a c (iv_digest row) row)
                 (demand (\<not> at < i2_ValidFrom c \<and> at < i2_ExpiresAt c) ErrIntentExpired (Inr c))))))))))"

section \<open>The doors of an intent\<close>

definition verifyNewEventTx :: "codec \<Rightarrow> authority_store \<Rightarrow> SignedIntentEventV1 \<Rightarrow> go_error option" where
  "verifyNewEventTx cd a sgd =
     (case publicKeyTx (as_store a) (sn_SigningKeyID sgd) of
        Inl e \<Rightarrow> Some e
      | Inr (pub, retired) \<Rightarrow> if retired then Some action_ErrSigningKeyRetired else VerifyIntentEventV1 cd pub sgd)"

definition verifyNewContractTx :: "codec \<Rightarrow> authority_store \<Rightarrow> IntentContractV2 \<Rightarrow> AuthoritySignature \<Rightarrow> go_error option" where
  "verifyNewContractTx cd a c seal =
     (case publicKeyTx (as_store a) (sg2_SigningKeyID seal) of
        Inl e \<Rightarrow> Some e
      | Inr (pub, retired) \<Rightarrow>
          if retired then Some action_ErrSigningKeyRetired
          else if VerifyIntentContractV2 cd pub c seal then None else Some ErrIntentEvidenceCorrupt)"

definition insertIntentEventTx :: "SignedIntentEventV1 \<Rightarrow> authority_store \<Rightarrow> go_error + authority_store" where
  "insertIntentEventTx sgd a =
     (let e = sn_Event sgd in
      demand (nv_EventID e \<notin> (\<lambda>g. nv_EventID (sn_Event g)) ` set (as_intent_events a) \<and> nv_Revision e > 0 \<and>
          (nv_IntentID e, nv_Revision e) \<notin> (\<lambda>g. (nv_IntentID (sn_Event g), nv_Revision (sn_Event g))) ` set (as_intent_events a) \<and>
          map_of (as_intents a) (nv_IntentID e, nv_Version e) \<noteq> None \<and>
          map_of (sr_keys (as_store a)) (sn_SigningKeyID sgd) \<noteq> None)
        (constraint_failed ''intent_events'')
        (Inr (a\<lparr>as_intent_events := as_intent_events a @ [sgd]\<rparr>)))"

definition appendIntentMutationReceiptTx ::
    "codec \<Rightarrow> store_env \<Rightarrow> SignedIntentEventV1 \<Rightarrow> string \<Rightarrow> authority_store \<Rightarrow> go_error + authority_store" where
  "appendIntentMutationReceiptTx cd sv sgd intentDigest a =
     (let e = sn_Event sgd; s = as_store a in
      andthen (append_receipt cd
          ((new_receipt (sv_receipt_id sv (length (sr_receipts s))) (nv_EventID e) StateSucceeded)
             \<lparr>rt_SchemaVersion := 2, rt_IntentDigest := intentDigest, rt_PrincipalID := nv_ActorPrincipalID e,
              rt_DecisionDigest := HashCanonical cd (sn_Digest sgd), rt_ActionDigest := sn_Digest sgd,
              rt_EffectClass := EffectPure, rt_StartedAt := nv_OccurredAt e, rt_FinishedAt := nv_OccurredAt e\<rparr>) s)
        (\<lambda>s'. Inr (a\<lparr>as_store := s'\<rparr>)))"

text \<open>The event of a transition, signed and checked against the object that was handed to the signer.\<close>

definition sign_event :: "IntentEventV1 \<Rightarrow> authority_store \<Rightarrow> go_error + SignedIntentEventV1" where
  "sign_event e a =
     (case as_eventSigner a of
        None \<Rightarrow> Inl (ErrorString ''action/sqlite: intent event signer unavailable'')
      | Some sign \<Rightarrow> demand (sn_Event (sign e) = e) action_ErrSignedObjectMutated (Inr (sign e)))"

definition CreateIntentV2 ::
    "codec \<Rightarrow> authority_env \<Rightarrow> IntentContractV2 \<Rightarrow> string \<Rightarrow> time \<Rightarrow> authority_store \<Rightarrow> (go_error + unit) \<times> authority_store" where
  "CreateIntentV2 cd ae c actor at a =
     (case intent_Validate c of
        Some e \<Rightarrow> (Inl e, a)
      | None \<Rightarrow>
          (case sign_event \<lparr>nv_EventID = ae_event_id ae, nv_IntentID = i2_IntentID c, nv_Version = i2_Version c, nv_Revision = 1,
              nv_From = no_status, nv_To = LifecycleDraft, nv_ActorPrincipalID = actor, nv_EvidenceDigest = '''',
              nv_OccurredAt = at, nv_PreviousEventDigest = ''''\<rparr> a of
             Inl e \<Rightarrow> (Inl e, a)
           | Inr sgd \<Rightarrow> plain_tx ae (\<lambda>a.
               unless_error (verifyNewEventTx cd a sgd) (
               demand (map_of (as_intents a) (i2_IntentID c, i2_Version c) = None \<and> i2_Version c > 0 \<and>
                   \<not> list_ex (\<lambda>((i, _), row). i = i2_IntentID c \<and> iv_digest row = intent_Digest cd c) (as_intents a))
                 (constraint_failed ''intent_versions'') (
               andthen (insertIntentEventTx sgd (a\<lparr>as_intents := as_intents a @ [((i2_IntentID c, i2_Version c),
                   \<lparr>iv_terms = c, iv_digest = intent_Digest cd c, iv_signing_key_id = '''', iv_signature = ''''\<rparr>)]\<rparr>)) (\<lambda>a.
               andthen (appendIntentMutationReceiptTx cd (ae_sv ae) sgd (intent_Digest cd c) a) (\<lambda>a.
               demand (map_of (as_intent_heads a) (i2_IntentID c) = None) (constraint_failed ''intent_heads'')
                 (Inr ((), a\<lparr>as_intent_heads := as_intent_heads a @ [(i2_IntentID c, \<lparr>ih_ActiveVersion = i2_Version c, ih_Revision = 1,
                    ih_LastEventDigest = sn_Digest sgd, ih_Status = LifecycleDraft\<rparr>)]\<rparr>))))))) a))"

definition update_intent_head :: "string \<Rightarrow> IntentHead \<Rightarrow> authority_store \<Rightarrow> authority_store" where
  "update_intent_head i h a = a\<lparr>as_intent_heads := map (\<lambda>(k, h'). (k, if k = i then h else h')) (as_intent_heads a)\<rparr>"

definition ActivateIntentV2 ::
    "codec \<Rightarrow> authority_env \<Rightarrow> string \<Rightarrow> int \<Rightarrow> string \<Rightarrow> time \<Rightarrow> authority_store \<Rightarrow> (go_error + unit) \<times> authority_store" where
  "ActivateIntentV2 cd ae i version actor at a =
     (case as_contractSigner a of
        None \<Rightarrow> (Inl (ErrorString ''action/sqlite: intent signer unavailable''), a)
      | Some signC \<Rightarrow>
          if as_eventSigner a = None then (Inl (ErrorString ''action/sqlite: intent signer unavailable''), a)
          else plain_tx ae (\<lambda>a.
            andthen (readIntentTermsTx a i version) (\<lambda>c.
            andthen (intentHeadTx a i) (\<lambda>head.
            unless_error (IntentV2LifecycleTransition (ih_Status head) LifecycleActive) (
            let (c', seal) = signC c in
            demand (intent_CanonicalBytes c' = intent_CanonicalBytes c) action_ErrSignedObjectMutated (
            unless_error (verifyNewContractTx cd a c' seal) (
            andthen (sign_event \<lparr>nv_EventID = ae_event_id ae, nv_IntentID = i, nv_Version = version, nv_Revision = ih_Revision head + 1,
                nv_From = ih_Status head, nv_To = LifecycleActive, nv_ActorPrincipalID = actor, nv_EvidenceDigest = '''',
                nv_OccurredAt = at, nv_PreviousEventDigest = ih_LastEventDigest head\<rparr> a) (\<lambda>sgd.
            unless_error (verifyNewEventTx cd a sgd) (
            andthen (insertIntentEventTx sgd (a\<lparr>as_intents := map (\<lambda>(k, row). (k, if k = (i, version)
                then row\<lparr>iv_signing_key_id := sg2_SigningKeyID seal, iv_signature := sg2_Signature seal\<rparr> else row)) (as_intents a)\<rparr>)) (\<lambda>a.
            andthen (appendIntentMutationReceiptTx cd (ae_sv ae) sgd (intent_Digest cd c) a) (\<lambda>a.
              Inr ((), update_intent_head i \<lparr>ih_ActiveVersion = version, ih_Revision = ih_Revision head + 1,
                ih_LastEventDigest = sn_Digest sgd, ih_Status = LifecycleActive\<rparr> a))))))))))) a)"

definition transitionIntentV2 ::
    "codec \<Rightarrow> authority_env \<Rightarrow> string \<Rightarrow> string \<Rightarrow> LifecycleStatus \<Rightarrow> time \<Rightarrow> authority_store \<Rightarrow> (go_error + unit) \<times> authority_store" where
  "transitionIntentV2 cd ae i actor to at a =
     (if as_eventSigner a = None then (Inl (ErrorString ''action/sqlite: intent event signer unavailable''), a)
      else plain_tx ae (\<lambda>a.
        andthen (intentHeadTx a i) (\<lambda>head.
        unless_error (IntentV2LifecycleTransition (ih_Status head) to) (
        andthen (sign_event \<lparr>nv_EventID = ae_event_id ae, nv_IntentID = i, nv_Version = ih_ActiveVersion head,
            nv_Revision = ih_Revision head + 1, nv_From = ih_Status head, nv_To = to, nv_ActorPrincipalID = actor,
            nv_EvidenceDigest = '''', nv_OccurredAt = at, nv_PreviousEventDigest = ih_LastEventDigest head\<rparr> a) (\<lambda>sgd.
        unless_error (verifyNewEventTx cd a sgd) (
        andthen (insertIntentEventTx sgd a) (\<lambda>a.
        case map_of (as_intents a) (i, ih_ActiveVersion head) of
          None \<Rightarrow> Inl ErrNoRows
        | Some row \<Rightarrow>
            andthen (appendIntentMutationReceiptTx cd (ae_sv ae) sgd (iv_digest row) a) (\<lambda>a.
              Inr ((), update_intent_head i (head\<lparr>ih_Revision := ih_Revision head + 1, ih_LastEventDigest := sn_Digest sgd,
                ih_Status := to\<rparr>) a)))))))) a)"

definition RevokeIntentV2 where "RevokeIntentV2 cd ae i actor at = transitionIntentV2 cd ae i actor LifecycleRevoked at"
definition ExpireIntentV2 where "ExpireIntentV2 cd ae i actor at = transitionIntentV2 cd ae i actor LifecycleExpired at"

section \<open>Execution bindings\<close>

text \<open>The constraints of the table: its key, the intent it names, and one active binding for each selector.\<close>

definition selector :: "ExecutionBinding \<Rightarrow> string \<times> string \<times> string" where
  "selector b = (eb_ActorPrincipalID b, eb_Channel b, eb_ConversationID b)"

definition exec_binding_admitted :: "ExecutionBinding \<Rightarrow> authority_store \<Rightarrow> bool" where
  "exec_binding_admitted b a \<longleftrightarrow> eb_BindingID b \<notin> eb_BindingID ` set (as_bindings a) \<and> eb_Revision b > 0 \<and>
     map_of (as_intents a) (eb_IntentID b, eb_IntentVersion b) \<noteq> None \<and>
     (eb_Status b = BindingActive \<longrightarrow> \<not> list_ex (\<lambda>b'. eb_Status b' = BindingActive \<and> selector b' = selector b) (as_bindings a))"

definition PutExecutionBinding ::
    "codec \<Rightarrow> authority_env \<Rightarrow> ExecutionBinding \<Rightarrow> authority_store \<Rightarrow> (go_error + unit) \<times> authority_store" where
  "PutExecutionBinding cd ae b a =
     (if eb_Status b \<noteq> BindingActive \<and> eb_Status b \<noteq> BindingRevoked
      then (Inl (ErrorString ''action/sqlite: invalid binding status''), a)
      else plain_tx ae (\<lambda>a.
        demand (exec_binding_admitted b a) (constraint_failed ''execution_bindings'')
          (let s = as_store a; at = sv_now (ae_sv ae) in
           andthen (append_receipt cd
             ((new_receipt (sv_receipt_id (ae_sv ae) (length (sr_receipts s))) (eb_BindingID b) StateSucceeded)
                \<lparr>rt_SchemaVersion := 2, rt_IntentDigest := eb_IntentDigest b, rt_PrincipalID := eb_ActorPrincipalID b,
                 rt_DecisionDigest := HashCanonical cd ''execution_binding'',
                 rt_ActionDigest := HashCanonical cd (eb_ActorPrincipalID b @ [byte 0] @ eb_Channel b @ [byte 0] @ eb_ConversationID b @
                   [byte 0] @ decimal (eb_Revision b)),
                 rt_EffectClass := EffectPure, rt_StartedAt := at, rt_FinishedAt := at\<rparr>) s) (\<lambda>s'.
             Inr ((), a\<lparr>as_store := s', as_bindings := as_bindings a @ [b]\<rparr>)))) a)"

text \<open>The active bindings of an actor on a channel, those of the conversation first.\<close>

definition binding_hits :: "authority_store \<Rightarrow> string \<Rightarrow> string \<Rightarrow> string \<Rightarrow> ExecutionBinding list" where
  "binding_hits a actor channel conversation =
     (let hits = filter (\<lambda>b. eb_ActorPrincipalID b = actor \<and> eb_Channel b = channel \<and> eb_Status b = BindingActive \<and>
          (eb_ConversationID b = conversation \<or> eb_ConversationID b = '''')) (as_bindings a)
      in filter (\<lambda>b. eb_ConversationID b \<noteq> '''') hits @ filter (\<lambda>b. eb_ConversationID b = '''') hits)"

definition ResolveExecutionBinding ::
    "codec \<Rightarrow> authority_store \<Rightarrow> string \<Rightarrow> string \<Rightarrow> string \<Rightarrow> time \<Rightarrow> go_error + IntentContractV2" where
  "ResolveExecutionBinding cd a actor channel conversation at =
     (case binding_hits a actor channel conversation of
        [] \<Rightarrow> Inl ErrNotFound
      | b # rest \<Rightarrow>
          (case rest of
             b' # _ \<Rightarrow> if (eb_ConversationID b = '''') = (eb_ConversationID b' = '''') then Inl ErrAmbiguousIntentBinding
                       else ResolveIntentV2 cd a (eb_IntentID b) (eb_IntentVersion b) (eb_IntentDigest b) at
           | [] \<Rightarrow> ResolveIntentV2 cd a (eb_IntentID b) (eb_IntentVersion b) (eb_IntentDigest b) at))"

definition bindingAuthorityTx :: "authority_store \<Rightarrow> string \<Rightarrow> string \<Rightarrow> string \<Rightarrow> go_error + ExecutionBinding" where
  "bindingAuthorityTx a actor channel conversation =
     (case binding_hits a actor channel conversation of
        [] \<Rightarrow> Inl ErrAuthorityMissing
      | b # _ \<Rightarrow>
          demand (eb_GrantID b = '''' \<and> eb_GrantVersion b = 0 \<and> eb_GrantDigest b = '''' \<or>
                  eb_GrantID b \<noteq> '''' \<and> eb_GrantVersion b > 0 \<and> eb_GrantDigest b \<noteq> '''')
            ErrAuthorityEvidenceCorrupt (Inr b))"

end
