(* ===== verification/Grant_Store.thy ===== *)
theory Grant_Store
  imports Intent_Store
begin

text \<open>
  Strict grants in the store (\<open>internal/action/sqlite/authority_v2.go\<close>): issue, delegation and revocation with
  their signed events, the chain of a grant, and the accounts of its budget with their signed counters and debits.
\<close>

section \<open>Histories and chains\<close>

definition authorityEventDomain :: string where "authorityEventDomain = ''korvun.authority-event.v1''"
definition authorityDebitDomain :: string where "authorityDebitDomain = ''korvun.authority-debit.v1''"
definition authorityBudgetHeadDomain :: string where "authorityBudgetHeadDomain = ''korvun.authority-budget-head.v1''"
definition authorityStartDomain :: string where "authorityStartDomain = ''korvun.authorization-start.v1''"
definition authorityActivationDomain :: string where "authorityActivationDomain = ''korvun.authority-activation.v1''"
definition authorityBirthDomain :: string where "authorityBirthDomain = ''korvun.approval-birth.v1''"
definition authorityBirthHeadDomain :: string where "authorityBirthHeadDomain = ''korvun.approval-birth-head.v1''"

record storedGrantV2 =
  sd_grant :: AuthorityGrantV2
  sd_seal :: AuthoritySignature
  sd_status :: LifecycleStatus
  sd_revision :: int
  sd_lastEventDigest :: string

text \<open>\<open>ParseAuthorityGrantV2\<close> on the canonical text of the terms a row holds.\<close>

definition ParseAuthorityGrantV2 :: "AuthorityGrantV2 \<Rightarrow> go_error + AuthorityGrantV2" where
  "ParseAuthorityGrantV2 g =
     demand (length (grant_CanonicalBytes g) \<le> maxIntentBytes) (malformed ''grant exceeds 65536 bytes'')
       (unless_error (grant_Validate g) (Inr g))"

definition canonicalGrantEvent ::
    "string \<Rightarrow> int \<Rightarrow> int \<Rightarrow> LifecycleStatus \<Rightarrow> LifecycleStatus \<Rightarrow> string \<Rightarrow> string \<Rightarrow> bool \<Rightarrow> string \<Rightarrow> time \<Rightarrow> string \<Rightarrow> string" where
  "canonicalGrantEvent grantID version revision from to actorActionID actor administrative reason at previous = json_object
     [(''grant_id'', json_string grantID), (''version'', decimal version), (''revision'', decimal revision),
      (''from'', json_string (LifecycleStatus_string from)), (''to'', json_string (LifecycleStatus_string to)),
      (''actor_action_id'', json_string actorActionID), (''actor_principal_id'', json_string actor),
      (''administrative'', json_bool administrative), (''reason'', json_string reason),
      (''occurred_at'', json_string (rfc3339nano at)), (''previous_event_digest'', json_string previous)]"

definition grant_link ::
    "codec \<Rightarrow> Store \<Rightarrow> string \<Rightarrow> int \<Rightarrow> grant_event_row \<Rightarrow> int \<times> string \<times> LifecycleStatus \<Rightarrow>
     go_error + int \<times> string \<times> LifecycleStatus" where
  "grant_link cd s grantID version e before =
     (case before of (revision, previous, status) \<Rightarrow>
        demand (ge_grant_version e = version \<and> ge_revision e = revision + 1 \<and> ge_previous e = previous \<and> ge_from e = status)
          ErrAuthorityEvidenceCorrupt
        (demand (if ge_revision e = 1 then ge_from e = no_status \<and> ge_to e = LifecycleActive
                 else ge_to e = LifecycleRevoked \<and> status = LifecycleActive) ErrAuthorityEvidenceCorrupt
        (case publicKeyTx s (sg2_SigningKeyID (ge_seal e)) of
           Inl _ \<Rightarrow> Inl ErrAuthorityEvidenceCorrupt
         | Inr (pub, _) \<Rightarrow>
             demand (ge_canonical e = canonicalGrantEvent grantID (ge_grant_version e) (ge_revision e) (ge_from e) (ge_to e)
                  (ge_actor_action_id e) (ge_actor e) (ge_administrative e) (ge_reason e) (ge_occurred_at e) (ge_previous e) \<and>
                VerifyAuthorityBytes cd pub authorityEventDomain (ge_canonical e) (ge_seal e) = None) ErrAuthorityEvidenceCorrupt
               (Inr (ge_revision e, sg2_Digest (ge_seal e), ge_to e)))))"

fun grant_walk ::
    "codec \<Rightarrow> Store \<Rightarrow> string \<Rightarrow> int \<Rightarrow> grant_event_row list \<Rightarrow> int \<times> string \<times> LifecycleStatus \<Rightarrow>
     go_error + int \<times> string \<times> LifecycleStatus" where
  "grant_walk cd s grantID version [] before = Inr before"
| "grant_walk cd s grantID version (e # es) before =
     andthen (grant_link cd s grantID version e before) (grant_walk cd s grantID version es)"

definition grant_history :: "authority_store \<Rightarrow> string \<Rightarrow> grant_event_row list" where
  "grant_history a grantID = sort_by (\<lambda>x y. ge_revision x < ge_revision y) (filter (\<lambda>e. ge_grant_id e = grantID) (as_grant_events a))"

definition verifyGrantHistoryTx :: "codec \<Rightarrow> authority_store \<Rightarrow> string \<Rightarrow> int \<Rightarrow> grant_head \<Rightarrow> go_error option" where
  "verifyGrantHistoryTx cd a grantID version h =
     (case grant_walk cd (as_store a) grantID version (grant_history a grantID) (0, '''', no_status) of
        Inl e \<Rightarrow> Some e
      | Inr tail \<Rightarrow> if tail = (gh_revision h, gh_last_event_digest h, gh_status h) then None else Some ErrAuthorityEvidenceCorrupt)"

definition readGrantTx :: "codec \<Rightarrow> authority_store \<Rightarrow> string \<Rightarrow> int \<Rightarrow> go_error + storedGrantV2" where
  "readGrantTx cd a i version =
     (case (map_of (as_grants a) (i, version), map_of (as_grant_heads a) i) of
        (Some (g, seal), Some h) \<Rightarrow>
          if gh_active_version h \<noteq> version then Inl ErrNoRows
          else (case ParseAuthorityGrantV2 g of
              Inl _ \<Rightarrow> Inl ErrAuthorityEvidenceCorrupt
            | Inr g \<Rightarrow>
                andthen (publicKeyTx (as_store a) (sg2_SigningKeyID seal)) (\<lambda>(pub, _).
                unless_error (VerifyAuthorityGrantV2 cd pub g seal) (
                unless_error (verifyGrantHistoryTx cd a i version h)
                  (Inr \<lparr>sd_grant = g, sd_seal = seal, sd_status = gh_status h, sd_revision = gh_revision h,
                    sd_lastEventDigest = gh_last_event_digest h\<rparr>))))
      | _ \<Rightarrow> Inl ErrNoRows)"

definition readGrantHeadTx :: "codec \<Rightarrow> authority_store \<Rightarrow> string \<Rightarrow> go_error + storedGrantV2" where
  "readGrantHeadTx cd a i =
     (case map_of (as_grant_heads a) i of None \<Rightarrow> Inl ErrNoRows | Some h \<Rightarrow> readGrantTx cd a i (gh_active_version h))"

text \<open>The loop of \<open>authorityChainTx\<close>: at most sixteen grants, walked from the leaf; the accumulator is the
  chain so far, the root first.\<close>

fun chain_walk ::
    "codec \<Rightarrow> authority_store \<Rightarrow> time \<Rightarrow> nat \<Rightarrow> string list \<Rightarrow> storedGrantV2 list \<Rightarrow> string \<Rightarrow> int \<Rightarrow> go_error + storedGrantV2 list" where
  "chain_walk cd a at 0 seen chain i version = (if i = '''' then Inr chain else Inl ErrAuthorityEvidenceCorrupt)"
| "chain_walk cd a at (Suc room) seen chain i version =
     (if i = '''' then Inr chain
      else if i \<in> set seen then Inl ErrAuthorityEvidenceCorrupt
      else (case readGrantTx cd a i version of
          Inl e \<Rightarrow> Inl (if errors_Is e ErrNoRows \<and> chain \<noteq> [] then ErrAuthorityEvidenceCorrupt else e)
        | Inr g \<Rightarrow>
            demand (sd_status g \<noteq> LifecycleRevoked) ErrAuthorityRevoked (
            demand (sd_status g = LifecycleActive) ErrAuthorityInactive (
            demand (\<not> at < g2_ValidFrom (sd_grant g) \<and> at < g2_ExpiresAt (sd_grant g)) ErrAuthorityExpired
              (chain_walk cd a at room (i # seen) (g # chain) (g2_ParentGrantID (sd_grant g)) (g2_ParentGrantVersion (sd_grant g)))))))"

definition authorityChainTx :: "codec \<Rightarrow> authority_store \<Rightarrow> string \<Rightarrow> int \<Rightarrow> time \<Rightarrow> go_error + storedGrantV2 list" where
  "authorityChainTx cd a i version at =
     (if i = '''' then Inl ErrAuthorityEvidenceCorrupt else chain_walk cd a at 16 [] [] i version)"

definition authorityAbsent :: "go_error \<Rightarrow> go_error" where
  "authorityAbsent e = (if errors_Is e ErrNoRows then Errorf ''%w: %w'' [ErrAuthorityMissing, e] else e)"

text \<open>A root is inside its intent.\<close>

definition root_checks :: "codec \<Rightarrow> use_lib \<Rightarrow> AuthorityGrantV2 \<Rightarrow> IntentContractV2 \<Rightarrow> (bool \<times> authority_error) list" where
  "root_checks cd lib g intent =
     (let own = items (bu_PerOperation (g2_Budget g)); limits = items (bu_PerOperation (i2_Budget intent));
          applies = (\<lambda>k. k \<in> operationKey ` set (g2_Operations g)) in
      [(g2_ParentGrantID g \<noteq> '''' \<or> g2_ParentGrantVersion g \<noteq> 0, AttenuationError ''parent'' ''root grant has a parent''),
       (g2_ProfileID g \<noteq> i2_ProfileID intent \<or> g2_IntentID g \<noteq> i2_IntentID intent \<or> g2_IntentVersion g \<noteq> i2_Version intent \<or>
        g2_IntentDigest g \<noteq> intent_Digest cd intent, AttenuationError ''intent'' ''root intent differs''),
       (\<not> operationSubset (g2_Operations g) (items (i2_Operations intent)) \<or>
        \<not> effectSubset (g2_EffectClasses g) (items (i2_EffectClasses intent)),
        AttenuationError ''operations'' ''operation or effect set widens''),
       (\<not> resourcesIncluded (g2_AllowedResources g) (items (i2_AllowedResources intent)) (defaultAuthorityMatchers lib),
        AttenuationError ''allowed_resources'' ''allowed resource widens''),
       (\<not> resourceSuperset (g2_DeniedResources g) (items (i2_DeniedResources intent)),
        AttenuationError ''denied_resources'' ''intent denial disappeared''),
       (\<not> list_all (containsAuthorityString (items (i2_DataScope intent))) (g2_AllowedData g),
        AttenuationError ''allowed_data'' ''data set widens''),
       (\<not> list_all (containsAuthorityString (items (i2_OutputDestinations intent))) (g2_OutputDestinations g),
        AttenuationError ''destinations'' ''destination set widens''),
       (g2_ValidFrom g < i2_ValidFrom intent \<or> g2_ExpiresAt g > i2_ExpiresAt intent \<or>
        g2_DelegationDepthRemaining g > i2_MaxDelegationDepth intent,
        AttenuationError ''validity'' ''root window or depth widens''),
       (case bu_Total (i2_Budget intent) of None \<Rightarrow> False
        | Some m \<Rightarrow> (case bu_Total (g2_Budget g) of None \<Rightarrow> True | Some t \<Rightarrow> t > m),
        AttenuationError ''budget_total_remaining'' ''root total exceeds intent''),
       (list_ex (\<lambda>(k, m). applies k \<and> map_of own k = None) limits,
        AttenuationError ''budget_operation_remaining'' ''root operation limit disappeared''),
       (list_ex (\<lambda>(k, m). applies k \<and> (case map_of own k of None \<Rightarrow> False | Some c \<Rightarrow> c > m)) limits,
        AttenuationError ''budget_operation_remaining'' ''root operation exceeds intent''),
       (i2_ApprovalRequired intent \<and> \<not> g2_ApprovalRequired g, AttenuationError ''approval'' ''required approval disappeared'')])"

definition normalizeRootAuthority ::
    "codec \<Rightarrow> use_lib \<Rightarrow> AuthorityGrantV2 \<Rightarrow> IntentContractV2 \<Rightarrow> authority_error + AuthorityGrantV2" where
  "normalizeRootAuthority cd lib g intent =
     (case first_bad (root_checks cd lib g intent) of
        Some e \<Rightarrow> Inl e
      | None \<Rightarrow> Inr (g\<lparr>g2_Budget := (g2_Budget g)\<lparr>bu_PerOperation := Some (items (bu_PerOperation (g2_Budget g)))\<rparr>\<rparr>))"

definition full_budget :: "AuthorityGrantV2 \<Rightarrow> AuthorityBudgetRemaining" where
  "full_budget g = \<lparr>rem_Total = bu_Total (g2_Budget g), rem_PerOperation = items (bu_PerOperation (g2_Budget g))\<rparr>"

fun stored_links :: "codec \<Rightarrow> use_lib \<Rightarrow> IntentContractV2 \<Rightarrow> storedGrantV2 list \<Rightarrow> go_error option" where
  "stored_links cd lib intent (p # c # rest) =
     (case NormalizeAuthorityDelegation cd (defaultAuthorityMatchers lib) (sd_grant p) (sd_grant c) intent (full_budget (sd_grant p)) of
        Inl e \<Rightarrow> Some (authority_go_error e)
      | Inr normalized \<Rightarrow>
          if grant_CanonicalBytes normalized \<noteq> grant_CanonicalBytes (sd_grant c) then Some ErrAuthorityEvidenceCorrupt
          else stored_links cd lib intent (c # rest))"
| "stored_links cd lib intent chain = None"

definition validateStoredAuthorityChain ::
    "codec \<Rightarrow> use_lib \<Rightarrow> storedGrantV2 list \<Rightarrow> IntentContractV2 \<Rightarrow> go_error option" where
  "validateStoredAuthorityChain cd lib chain intent =
     (case chain of
        [] \<Rightarrow> Some ErrAuthorityEvidenceCorrupt
      | root # _ \<Rightarrow>
          (case normalizeRootAuthority cd lib (sd_grant root) intent of
             Inl e \<Rightarrow> Some (authority_go_error e)
           | Inr normalized \<Rightarrow>
               if grant_CanonicalBytes normalized \<noteq> grant_CanonicalBytes (sd_grant root) then Some ErrAuthorityEvidenceCorrupt
               else stored_links cd lib intent chain))"

text \<open>The terms of an intent as those of a grant, every other field at its zero value.\<close>

definition intent_terms :: "IntentContractV2 \<Rightarrow> AuthorityGrantV2" where
  "intent_terms intent = \<lparr>g2_GrantID = '''', g2_SchemaVersion = 0, g2_Version = 0, g2_ProfileID = '''', g2_IntentID = '''',
     g2_IntentVersion = 0, g2_IntentDigest = '''', g2_IssuerPrincipalID = '''', g2_SubjectPrincipalID = '''',
     g2_ParentGrantID = '''', g2_ParentGrantVersion = 0, g2_Operations = [], g2_Channels = [],
     g2_AllowedResources = items (i2_AllowedResources intent), g2_DeniedResources = items (i2_DeniedResources intent),
     g2_AllowedData = items (i2_DataScope intent), g2_DeniedData = [],
     g2_OutputDestinations = items (i2_OutputDestinations intent), g2_EffectClasses = [], g2_EffectCeiling = EffectOther '''',
     g2_Budget = \<lparr>bu_Total = None, bu_PerOperation = None\<rparr>, g2_ValidFrom = 0, g2_ExpiresAt = 0,
     g2_DelegationDepthRemaining = 0, g2_ApprovalRequired = False\<rparr>"

definition restricted_terms :: "AuthorityGrantV2 \<Rightarrow> bool" where
  "restricted_terms g \<longleftrightarrow> g2_AllowedResources g \<noteq> [] \<or> g2_DeniedResources g \<noteq> [] \<or> g2_AllowedData g \<noteq> [] \<or>
     g2_DeniedData g \<noteq> [] \<or> g2_OutputDestinations g \<noteq> []"

definition actual_use ::
    "use_lib \<Rightarrow> IntentContractV2 \<Rightarrow> storedGrantV2 list \<Rightarrow> string \<Rightarrow> string \<Rightarrow> go_error + OperationUse" where
  "actual_use lib intent chain operation arguments =
     andthen (RegisterBuiltInOperationUse lib (\<lambda>_. None)) (\<lambda>registry.
       case Analyze registry operation arguments of
         Inr use \<Rightarrow> Inr use
       | Inl e \<Rightarrow>
           if \<not> errors_Is e ErrOperationUseNoAnalyzer then Inl ErrAuthorityUseUnresolved
           else if restricted_terms (intent_terms intent) \<or> list_ex (\<lambda>g. restricted_terms (sd_grant g)) chain
           then Inl ErrAuthorityUseUnresolved else Inr no_use)"

definition validateAuthorityActualUse ::
    "use_lib \<Rightarrow> IntentContractV2 \<Rightarrow> storedGrantV2 list \<Rightarrow> string \<Rightarrow> string \<Rightarrow> go_error option" where
  "validateAuthorityActualUse lib intent chain operation arguments =
     (case actual_use lib intent chain operation arguments of
        Inl e \<Rightarrow> Some e
      | Inr use \<Rightarrow>
          (case find (\<lambda>g. ValidateAuthorityUse g use (defaultAuthorityMatchers lib) \<noteq> None) (intent_terms intent # map sd_grant chain) of
             None \<Rightarrow> None | Some g \<Rightarrow> ValidateAuthorityUse g use (defaultAuthorityMatchers lib)))"

section \<open>Budgets\<close>

definition budgetAccountID :: "codec \<Rightarrow> string \<Rightarrow> string \<Rightarrow> string \<Rightarrow> string" where
  "budgetAccountID cd profile kind scope = HashCanonical cd (profile @ [byte 0] @ kind @ [byte 0] @ scope)"

definition perOperationJSON :: "(string \<times> int) list option \<Rightarrow> string" where
  "perOperationJSON m = (case m of None \<Rightarrow> ''null''
     | Some kv \<Rightarrow> json_object (sort_by (\<lambda>x y. string_less (fst x) (fst y)) (map (\<lambda>(k, v). (k, decimal v)) kv)))"

text \<open>\<open>INSERT OR IGNORE\<close>, then the row that is there has the terms asked for.\<close>

definition ensureBudgetAccountTx ::
    "codec \<Rightarrow> string \<Rightarrow> string \<Rightarrow> string \<Rightarrow> IntentBudgetV2 \<Rightarrow> authority_store \<Rightarrow> go_error + authority_store" where
  "ensureBudgetAccountTx cd profile kind scope budget a =
     (let accountID = budgetAccountID cd profile kind scope;
          taken = map_of (as_accounts a) accountID \<noteq> None \<or>
            list_ex (\<lambda>(_, b). ba_profile_id b = profile \<and> ba_scope_kind b = kind \<and> ba_stable_scope_id b = scope) (as_accounts a);
          a1 = (if taken then a else a\<lparr>as_accounts := as_accounts a @ [(accountID, \<lparr>ba_profile_id = profile, ba_scope_kind = kind,
            ba_stable_scope_id = scope, ba_max_total = bu_Total budget, ba_per_operation = bu_PerOperation budget\<rparr>)]\<rparr>)
      in case map_of (as_accounts a1) accountID of
           None \<Rightarrow> Inl ErrNoRows
         | Some b \<Rightarrow>
             demand (ba_profile_id b = profile \<and> ba_scope_kind b = kind \<and> ba_stable_scope_id b = scope \<and>
                 ba_max_total b = bu_Total budget \<and> perOperationJSON (ba_per_operation b) = perOperationJSON (bu_PerOperation budget))
               ErrBudgetEvidenceCorrupt (Inr a1))"

definition counterTx :: "authority_store \<Rightarrow> string \<Rightarrow> string \<Rightarrow> int \<times> int \<times> string" where
  "counterTx a account operation =
     (case map_of (as_counters a) (account, operation) of
        None \<Rightarrow> (0, 0, '''') | Some c \<Rightarrow> (ct_spent c, ct_sequence c, ct_tail_digest c))"

definition debit_json :: "authorityDebitRecord \<Rightarrow> string" where
  "debit_json r = json_object
     [(''ActionID'', json_string (dr_ActionID r)), (''AccountID'', json_string (dr_AccountID r)), (''Operation'', json_string (dr_Operation r)),
      (''Sequence'', decimal (dr_Sequence r)), (''Cumulative'', decimal (dr_Cumulative r)), (''Previous'', json_string (dr_Previous r)),
      (''At'', json_string (rfc3339nano (dr_At r)))]"

definition budget_head_json :: "string \<Rightarrow> string \<Rightarrow> int \<Rightarrow> int \<Rightarrow> string \<Rightarrow> string" where
  "budget_head_json account operation spent sequence tail = json_object
     [(''account_id'', json_string account), (''operation_key'', json_string operation), (''spent'', decimal spent),
      (''sequence'', decimal sequence), (''tail_digest'', json_string tail)]"

text \<open>\<open>ORDER BY sequence DESC LIMIT 1\<close>.\<close>

fun last_debit :: "string \<Rightarrow> string \<Rightarrow> budget_debit_row list \<Rightarrow> budget_debit_row option" where
  "last_debit account operation [] = None"
| "last_debit account operation (r # rs) =
     (case last_debit account operation rs of
        None \<Rightarrow> if bd_account_id r = account \<and> bd_operation_key r = operation then Some r else None
      | Some h \<Rightarrow> if bd_account_id r = account \<and> bd_operation_key r = operation \<and> bd_sequence r > bd_sequence h then Some r else Some h)"

definition verified_bytes :: "codec \<Rightarrow> authority_store \<Rightarrow> string \<Rightarrow> string \<Rightarrow> AuthoritySignature \<Rightarrow> bool" where
  "verified_bytes cd a domain canonical seal =
     (case publicKeyTx (as_store a) (sg2_SigningKeyID seal) of
        Inl _ \<Rightarrow> False | Inr (pub, _) \<Rightarrow> VerifyAuthorityBytes cd pub domain canonical seal = None)"

definition verifyDebitTailTx :: "codec \<Rightarrow> authority_store \<Rightarrow> string \<Rightarrow> string \<Rightarrow> int \<Rightarrow> int \<Rightarrow> string \<Rightarrow> go_error option" where
  "verifyDebitTailTx cd a account operation spent sequence tail =
     (if sequence = 0
      then if spent \<noteq> 0 \<or> tail \<noteq> '''' \<or> list_ex (\<lambda>r. bd_account_id r = account \<and> bd_operation_key r = operation) (as_debits a)
           then Some ErrBudgetEvidenceCorrupt else None
      else (case (last_debit account operation (as_debits a), map_of (as_counters a) (account, operation)) of
          (Some r, Some c) \<Rightarrow>
            (let d = bd_canonical r in
             if dr_ActionID d \<noteq> bd_action_id r \<or> dr_AccountID d \<noteq> account \<or> dr_Operation d \<noteq> operation \<or>
                dr_Sequence d \<noteq> bd_sequence r \<or> dr_Cumulative d \<noteq> bd_cumulative_spent r \<or> dr_Previous d \<noteq> bd_previous_digest r \<or>
                bd_sequence r \<noteq> sequence \<or> bd_cumulative_spent r \<noteq> spent \<or> sg2_Digest (bd_seal r) \<noteq> tail \<or>
                \<not> verified_bytes cd a authorityDebitDomain (debit_json d) (bd_seal r) \<or>
                ct_canonical c \<noteq> budget_head_json account operation spent sequence tail \<or>
                \<not> verified_bytes cd a authorityBudgetHeadDomain (ct_canonical c) (ct_seal c)
             then Some ErrBudgetEvidenceCorrupt else None)
        | _ \<Rightarrow> Some ErrBudgetEvidenceCorrupt))"

definition upsert_counter :: "string \<Rightarrow> string \<Rightarrow> budget_counter_row \<Rightarrow> authority_store \<Rightarrow> authority_store" where
  "upsert_counter account operation c a =
     (if map_of (as_counters a) (account, operation) = None
      then a\<lparr>as_counters := as_counters a @ [((account, operation), c)]\<rparr>
      else a\<lparr>as_counters := map (\<lambda>(k, c'). (k, if k = (account, operation) then c else c')) (as_counters a)\<rparr>)"

definition upsertBudgetCounterTx ::
    "codec \<Rightarrow> string \<Rightarrow> string \<Rightarrow> int \<Rightarrow> int \<Rightarrow> string \<Rightarrow> authority_store \<Rightarrow> go_error + authority_store" where
  "upsertBudgetCounterTx cd account operation spent sequence tail a =
     (let canonical = budget_head_json account operation spent sequence tail in
      andthen (signAuthorityTx cd authorityBudgetHeadDomain canonical a) (\<lambda>seal.
        demand (map_of (as_accounts a) account \<noteq> None \<and> spent \<ge> 0 \<and> sequence \<ge> 0) (constraint_failed ''budget_counters'')
          (Inr (upsert_counter account operation \<lparr>ct_spent = spent, ct_sequence = sequence, ct_tail_digest = tail,
             ct_canonical = canonical, ct_seal = seal\<rparr> a))))"

definition debit_admitted :: "budget_debit_row \<Rightarrow> authority_store \<Rightarrow> bool" where
  "debit_admitted r a \<longleftrightarrow> map_of (as_accounts a) (bd_account_id r) \<noteq> None \<and>
     \<not> list_ex (\<lambda>q. bd_account_id q = bd_account_id r \<and> bd_operation_key q = bd_operation_key r \<and>
        (bd_action_id q = bd_action_id r \<or> bd_sequence q = bd_sequence r)) (as_debits a)"

definition insert_debit ::
    "codec \<Rightarrow> string \<Rightarrow> string \<Rightarrow> string \<Rightarrow> int \<Rightarrow> int \<Rightarrow> string \<Rightarrow> time \<Rightarrow> authority_store \<Rightarrow> go_error + authority_store" where
  "insert_debit cd actionID account operation sequence cumulative tail at a =
     (let d = \<lparr>dr_ActionID = actionID, dr_AccountID = account, dr_Operation = operation, dr_Sequence = sequence,
          dr_Cumulative = cumulative, dr_Previous = tail, dr_At = at\<rparr> in
      andthen (signAuthorityTx cd authorityDebitDomain (debit_json d) a) (\<lambda>seal.
        let r = \<lparr>bd_action_id = actionID, bd_account_id = account, bd_operation_key = operation, bd_sequence = sequence,
              bd_previous_digest = tail, bd_cumulative_spent = cumulative, bd_canonical = d, bd_seal = seal\<rparr>
        in demand (debit_admitted r a) (constraint_failed ''budget_debits'')
             (upsertBudgetCounterTx cd account operation cumulative sequence (sg2_Digest seal) (a\<lparr>as_debits := as_debits a @ [r]\<rparr>))))"

definition appendDebitTx ::
    "codec \<Rightarrow> string \<Rightarrow> string \<Rightarrow> string \<Rightarrow> int \<Rightarrow> int \<Rightarrow> string \<Rightarrow> time \<Rightarrow> authority_store \<Rightarrow> go_error + authority_store" where
  "appendDebitTx cd actionID account operation spent sequence tail at a =
     insert_debit cd actionID account operation (sequence + 1) (spent + 1) tail at a"

definition smaller :: "int option \<Rightarrow> int option \<Rightarrow> int option" where
  "smaller x y = (case (x, y) of (None, _) \<Rightarrow> y | (_, None) \<Rightarrow> x | (Some p, Some q) \<Rightarrow> Some (min p q))"

text \<open>A counter, once its signed tail verifies.\<close>

definition verified_counter :: "codec \<Rightarrow> authority_store \<Rightarrow> string \<Rightarrow> string \<Rightarrow> go_error + int \<times> int \<times> string" where
  "verified_counter cd a account operation =
     (case counterTx a account operation of (spent, sequence, tail) \<Rightarrow>
        unless_error (verifyDebitTailTx cd a account operation spent sequence tail) (Inr (spent, sequence, tail)))"

definition remaining_of :: "codec \<Rightarrow> authority_store \<Rightarrow> string \<Rightarrow> string \<Rightarrow> int \<Rightarrow> go_error + int" where
  "remaining_of cd a account operation maximum =
     andthen (verified_counter cd a account operation) (\<lambda>(spent, _, _).
       demand (maximum - spent \<ge> 0) ErrBudgetEvidenceCorrupt (Inr (maximum - spent)))"

fun remaining_each :: "codec \<Rightarrow> authority_store \<Rightarrow> string \<Rightarrow> (string \<times> int) list \<Rightarrow> go_error + (string \<times> int) list" where
  "remaining_each cd a account [] = Inr []"
| "remaining_each cd a account ((operation, maximum) # rest) =
     andthen (remaining_of cd a account operation maximum) (\<lambda>v.
       andthen (remaining_each cd a account rest) (\<lambda>vs. Inr ((operation, v) # vs)))"

definition remainingForGrantTx :: "codec \<Rightarrow> authority_store \<Rightarrow> AuthorityGrantV2 \<Rightarrow> go_error + AuthorityBudgetRemaining" where
  "remainingForGrantTx cd a g =
     (let account = budgetAccountID cd (g2_ProfileID g) ''grant'' (g2_GrantID g) in
      andthen (verified_counter cd a account ''*'') (\<lambda>(spent, _, _).
      andthen (case bu_Total (g2_Budget g) of
          None \<Rightarrow> Inr None
        | Some t \<Rightarrow> demand (t - spent \<ge> 0) ErrBudgetEvidenceCorrupt (Inr (Some (t - spent)))) (\<lambda>total.
      andthen (remaining_each cd a account (items (bu_PerOperation (g2_Budget g)))) (\<lambda>per.
        Inr \<lparr>rem_Total = total, rem_PerOperation = per\<rparr>))))"

definition remainingBeforeAccountTx :: "codec \<Rightarrow> authority_store \<Rightarrow> string \<Rightarrow> string \<Rightarrow> go_error + int option" where
  "remainingBeforeAccountTx cd a account operation =
     (case map_of (as_accounts a) account of
        None \<Rightarrow> Inl ErrNoRows
      | Some b \<Rightarrow>
          andthen (case ba_max_total b of None \<Rightarrow> Inr None
              | Some m \<Rightarrow> andthen (remaining_of cd a account ''*'' m) (\<lambda>v. Inr (Some v))) (\<lambda>total.
          case map_of (items (ba_per_operation b)) operation of
            None \<Rightarrow> Inr total
          | Some m \<Rightarrow> andthen (remaining_of cd a account operation m) (\<lambda>v. Inr (smaller total (Some v)))))"

definition debitAccountTx ::
    "codec \<Rightarrow> string \<Rightarrow> string \<Rightarrow> string \<Rightarrow> time \<Rightarrow> authority_store \<Rightarrow> go_error + int option \<times> authority_store" where
  "debitAccountTx cd actionID account opKey at a =
     (case map_of (as_accounts a) account of
        None \<Rightarrow> Inl ErrNoRows
      | Some b \<Rightarrow>
          andthen (verified_counter cd a account ''*'') (\<lambda>(spent, sequence, tail).
          demand (case ba_max_total b of None \<Rightarrow> True | Some m \<Rightarrow> m - spent > 0) ErrBudgetExhausted (
          andthen (appendDebitTx cd actionID account ''*'' spent sequence tail at a) (\<lambda>a1.
          let remaining = map_option (\<lambda>m. m - spent) (ba_max_total b) in
          case map_of (items (ba_per_operation b)) opKey of
            None \<Rightarrow> Inr (remaining, a1)
          | Some m \<Rightarrow>
              andthen (verified_counter cd a1 account opKey) (\<lambda>(spent, sequence, tail).
              demand (spent < m) ErrBudgetExhausted (
              andthen (appendDebitTx cd actionID account opKey spent sequence tail at a1) (\<lambda>a2.
                Inr (smaller remaining (Some (m - spent)), a2))))))))"

section \<open>The actor of a mutation\<close>

definition CanonicalAuthorityRevoke :: "string \<Rightarrow> string \<Rightarrow> string" where
  "CanonicalAuthorityRevoke grantID reason = json_object [(''grant_id'', json_string grantID), (''reason'', json_string reason)]"

definition CanonicalAdminAuthorityGrant :: "AuthorityGrantV2 \<Rightarrow> string \<Rightarrow> string" where
  "CanonicalAdminAuthorityGrant g reason = json_object [(''terms'', grant_CanonicalBytes g), (''reason'', json_string reason)]"

definition act_used :: "authority_store \<Rightarrow> string \<Rightarrow> bool" where
  "act_used a actionID \<longleftrightarrow> list_ex (\<lambda>e. ge_actor_action_id e = actionID) (as_grant_events a) \<or>
     list_ex (\<lambda>(_, h). bh_actor_action_id h = actionID) (as_birth_heads a) \<or> list_ex (\<lambda>(_, act). act = actionID) (as_imports a)"

definition validateAuthorityActorTx ::
    "codec \<Rightarrow> authority_store \<Rightarrow> string \<Rightarrow> string \<Rightarrow> string \<Rightarrow> bool \<Rightarrow> time \<Rightarrow> go_error + string" where
  "validateAuthorityActorTx cd a actionID operation parameters administrative at =
     demand (actionID \<noteq> '''') ErrIdentityEvidenceMissing (
     andthen (validateActionIdentityV2Tx cd (as_store a) actionID at) (\<lambda>evidence.
     case map_of (sr_actions (as_store a)) actionID of
       None \<Rightarrow> Inl ErrNoRows
     | Some row \<Rightarrow>
         demand (ao_Namespace (ac_Operation (ar_env row)) = ''authority'' \<and> ao_Name (ac_Operation (ar_env row)) = operation \<and>
             ac_ParametersDigest (ar_env row) =
               Digest cd \<lparr>ao_Namespace = ''authority'', ao_Name = operation, ao_Version = 1\<rparr> parameters) ErrIdentityBindingMismatch (
         demand (principal_column row = ev_ActorPrincipalID evidence) ErrIdentityEvidenceCorrupt (
         demand (\<not> act_used a actionID) ErrIdentityBindingMismatch (
         if administrative
         then (case principalTx (as_store a) (ev_ResponsiblePrincipalID evidence) of
             None \<Rightarrow> Inl ErrIssuerMismatch
           | Some p \<Rightarrow> demand (ip_Kind p = PrincipalHuman) ErrIssuerMismatch (Inr (ip_ID p)))
         else Inr (principal_column row))))))"

section \<open>Issue, delegation, revocation\<close>

definition insertGrantTx ::
    "codec \<Rightarrow> authority_env \<Rightarrow> AuthorityGrantV2 \<Rightarrow> string \<Rightarrow> string \<Rightarrow> bool \<Rightarrow> string \<Rightarrow> time \<Rightarrow> authority_store \<Rightarrow> go_error + authority_store" where
  "insertGrantTx cd ae g actorActionID actor administrative reason at a =
     andthen (signAuthorityTx cd authorityGrantDomain (grant_CanonicalBytes g) a) (\<lambda>seal.
     demand (map_of (as_grants a) (g2_GrantID g, g2_Version g) = None) (constraint_failed ''grant_versions'') (
     let canonical = canonicalGrantEvent (g2_GrantID g) (g2_Version g) 1 no_status LifecycleActive actorActionID actor administrative reason at '''' in
     andthen (signAuthorityTx cd authorityEventDomain canonical a) (\<lambda>eventSeal.
     demand (ae_event_id ae \<notin> ge_event_id ` set (as_grant_events a) \<and> actorActionID \<notin> ge_actor_action_id ` set (as_grant_events a))
       (constraint_failed ''grant_events'') (
     demand (map_of (as_grant_heads a) (g2_GrantID g) = None) (constraint_failed ''grant_heads'')
       (Inr (a\<lparr>as_grants := as_grants a @ [((g2_GrantID g, g2_Version g), g, seal)],
           as_grant_events := as_grant_events a @ [\<lparr>ge_event_id = ae_event_id ae, ge_grant_id = g2_GrantID g, ge_grant_version = g2_Version g,
             ge_revision = 1, ge_from = no_status, ge_to = LifecycleActive, ge_actor_action_id = actorActionID, ge_actor = actor,
             ge_administrative = administrative, ge_reason = reason, ge_occurred_at = at, ge_previous = '''', ge_canonical = canonical,
             ge_seal = eventSeal\<rparr>],
           as_grant_heads := as_grant_heads a @ [(g2_GrantID g, \<lparr>gh_active_version = g2_Version g, gh_revision = 1,
             gh_last_event_digest = sg2_Digest eventSeal, gh_status = LifecycleActive\<rparr>)]\<rparr>))))))"

definition of_terms :: "authority_error + 'a \<Rightarrow> go_error + 'a" where
  "of_terms r = (case r of Inl e \<Rightarrow> Inl (authority_go_error e) | Inr x \<Rightarrow> Inr x)"

lemma of_terms_Inr [simp]: "of_terms r = Inr x \<longleftrightarrow> r = Inr x"
  by (cases r) (simp_all add: of_terms_def)

definition mutation_parameters :: "AuthorityGrantV2 \<Rightarrow> bool \<Rightarrow> string \<Rightarrow> string" where
  "mutation_parameters g administrative reason =
     (if administrative then CanonicalAdminAuthorityGrant g reason else grant_CanonicalBytes g)"

definition issueAuthority ::
    "codec \<Rightarrow> authority_env \<Rightarrow> AuthorityGrantV2 \<Rightarrow> string \<Rightarrow> string \<Rightarrow> bool \<Rightarrow> time \<Rightarrow> authority_store \<Rightarrow> (go_error + unit) \<times> authority_store" where
  "issueAuthority cd ae g actorActionID reason administrative at a =
     (case grant_Validate g of
        Some e \<Rightarrow> (Inl e, a)
      | None \<Rightarrow> authority_tx ae (\<lambda>a.
          andthen (validateAuthorityActorTx cd a actorActionID ''issue'' (mutation_parameters g administrative reason) administrative at) (\<lambda>actor.
          andthen (activeIntentTx cd a (g2_IntentID g) (g2_IntentVersion g) (g2_IntentDigest g) at) (\<lambda>intent.
          demand (administrative \<or> actor = i2_OwnerPrincipalID intent \<and> g2_IssuerPrincipalID g = actor) ErrIssuerMismatch (
          andthen (of_terms (normalizeRootAuthority cd (ae_lib ae) g intent)) (\<lambda>g.
          andthen (insertGrantTx cd ae g actorActionID actor administrative reason at a) (\<lambda>a.
          andthen (ensureBudgetAccountTx cd (i2_ProfileID intent) ''intent'' (i2_IntentID intent) (i2_Budget intent) a) (\<lambda>a.
          andthen (ensureBudgetAccountTx cd (g2_ProfileID g) ''grant'' (g2_GrantID g) (g2_Budget g) a) (\<lambda>a. Inr ((), a))))))))) a)"

definition IssueAuthority where
  "IssueAuthority cd ae g actorActionID at a = issueAuthority cd ae g actorActionID '''' False at a"

definition AdminIssueAuthority where
  "AdminIssueAuthority cd ae g actorActionID reason at a =
     (if TrimSpace reason = '''' then (Inl ErrAuthorityMalformed, a) else issueAuthority cd ae g actorActionID reason True at a)"

definition delegation_error :: "authority_error \<Rightarrow> go_error" where
  "delegation_error e =
     (case e of AttenuationError dimension detail \<Rightarrow>
        if HasPrefix dimension ''budget_'' then Errorf ''%w: %v'' [ErrBudgetExhausted] else authority_go_error e
      | _ \<Rightarrow> authority_go_error e)"

definition delegateAuthority ::
    "codec \<Rightarrow> authority_env \<Rightarrow> AuthorityGrantV2 \<Rightarrow> string \<Rightarrow> string \<Rightarrow> bool \<Rightarrow> time \<Rightarrow> authority_store \<Rightarrow> (go_error + unit) \<times> authority_store" where
  "delegateAuthority cd ae child actorActionID reason administrative at a =
     (case grant_Validate child of
        Some e \<Rightarrow> (Inl e, a)
      | None \<Rightarrow> authority_tx ae (\<lambda>a.
          andthen (validateAuthorityActorTx cd a actorActionID ''delegate'' (mutation_parameters child administrative reason) administrative at) (\<lambda>actor.
          case authorityChainTx cd a (g2_ParentGrantID child) (g2_ParentGrantVersion child) at of
            Inl e \<Rightarrow> Inl (authorityAbsent e)
          | Inr parents \<Rightarrow>
              let parent = sd_grant (last parents) in
              demand (administrative \<or> actor = g2_SubjectPrincipalID parent \<and> g2_IssuerPrincipalID child = actor) ErrIssuerMismatch (
              andthen (activeIntentTx cd a (g2_IntentID child) (g2_IntentVersion child) (g2_IntentDigest child) at) (\<lambda>intent.
              unless_error (validateStoredAuthorityChain cd (ae_lib ae) parents intent) (
              andthen (remainingForGrantTx cd a parent) (\<lambda>remaining.
              case NormalizeAuthorityDelegation cd (defaultAuthorityMatchers (ae_lib ae)) parent child intent remaining of
                Inl e \<Rightarrow> Inl (delegation_error e)
              | Inr normalized \<Rightarrow>
                  andthen (insertGrantTx cd ae normalized actorActionID actor administrative reason at a) (\<lambda>a.
                  andthen (ensureBudgetAccountTx cd (g2_ProfileID normalized) ''grant'' (g2_GrantID normalized) (g2_Budget normalized) a)
                    (\<lambda>a. Inr ((), a))))))))) a)"

definition DelegateAuthority where
  "DelegateAuthority cd ae child actorActionID at a = delegateAuthority cd ae child actorActionID '''' False at a"

definition AdminDelegateAuthority where
  "AdminDelegateAuthority cd ae child actorActionID reason at a =
     (if TrimSpace reason = '''' then (Inl ErrAuthorityMalformed, a) else delegateAuthority cd ae child actorActionID reason True at a)"

definition revokeAuthority ::
    "codec \<Rightarrow> authority_env \<Rightarrow> string \<Rightarrow> string \<Rightarrow> string \<Rightarrow> bool \<Rightarrow> time \<Rightarrow> authority_store \<Rightarrow> (go_error + unit) \<times> authority_store" where
  "revokeAuthority cd ae grantID actorActionID reason administrative at a = authority_tx ae (\<lambda>a.
     case readGrantHeadTx cd a grantID of
       Inl e \<Rightarrow> Inl (authorityAbsent e)
     | Inr stored \<Rightarrow>
         andthen (validateAuthorityActorTx cd a actorActionID ''revoke'' (CanonicalAuthorityRevoke grantID reason) administrative at) (\<lambda>actor.
         demand (administrative \<or> actor = g2_SubjectPrincipalID (sd_grant stored) \<or> actor = g2_IssuerPrincipalID (sd_grant stored)) ErrIssuerMismatch (
         demand (sd_status stored \<noteq> LifecycleRevoked) ErrAuthorityRevoked (
         let version = g2_Version (sd_grant stored); revision = sd_revision stored + 1;
             canonical = canonicalGrantEvent grantID version revision (sd_status stored) LifecycleRevoked actorActionID actor administrative
               reason at (sd_lastEventDigest stored) in
         andthen (signAuthorityTx cd authorityEventDomain canonical a) (\<lambda>seal.
         demand (ae_event_id ae \<notin> ge_event_id ` set (as_grant_events a) \<and> actorActionID \<notin> ge_actor_action_id ` set (as_grant_events a))
           (constraint_failed ''grant_events'')
           (Inr ((), a\<lparr>as_grant_events := as_grant_events a @ [\<lparr>ge_event_id = ae_event_id ae, ge_grant_id = grantID, ge_grant_version = version,
                ge_revision = revision, ge_from = sd_status stored, ge_to = LifecycleRevoked, ge_actor_action_id = actorActionID, ge_actor = actor,
                ge_administrative = administrative, ge_reason = reason, ge_occurred_at = at, ge_previous = sd_lastEventDigest stored,
                ge_canonical = canonical, ge_seal = seal\<rparr>],
              as_grant_heads := map (\<lambda>(k, h). (k, if k = grantID then h\<lparr>gh_revision := revision, gh_last_event_digest := sg2_Digest seal,
                gh_status := LifecycleRevoked\<rparr> else h)) (as_grant_heads a)\<rparr>))))))) a"

definition RevokeAuthority where
  "RevokeAuthority cd ae grantID actorActionID reason at a = revokeAuthority cd ae grantID actorActionID reason False at a"

definition AdminRevokeAuthority where
  "AdminRevokeAuthority cd ae grantID actorActionID reason at a =
     (if TrimSpace reason = '''' then (Inl ErrAuthorityMalformed, a) else revokeAuthority cd ae grantID actorActionID reason True at a)"

end
