(* ===== verification/Grant_Start.thy ===== *)
theory Grant_Start
  imports Grant_Store
begin

text \<open>
  Starting an action under strict authority (\<open>internal/action/sqlite/authority_v2.go\<close>): the activation of the
  strict mode and its ledger of approval births, the clauses of the configuration (\<open>config_authority.go\<close>), the
  resolution of the authority of a request, \<open>StartAuthorization\<close>, and the binding of an execution to a grant
  (\<open>sqlite/intent_v2.go\<close>).
\<close>

section \<open>The activation of the strict mode\<close>

definition birth_head_json :: "string \<Rightarrow> string \<Rightarrow> int \<Rightarrow> string \<Rightarrow> string" where
  "birth_head_json profileID activation sequence latest = json_object
     [(''profile_id'', json_string profileID), (''activation_digest'', json_string activation),
      (''sequence'', decimal sequence), (''last_event_digest'', json_string latest)]"

definition birth_event_json :: "authorityBirthEvent \<Rightarrow> string" where
  "birth_event_json e = json_object
     [(''profile_id'', json_string (be_ProfileID e)), (''sequence'', decimal (be_Sequence e)),
      (''approval_id'', json_string (be_ApprovalID e)), (''action_id'', json_string (be_ActionID e)),
      (''action_digest'', json_string (be_ActionDigest e)), (''strict_required'', json_bool (be_StrictRequired e)),
      (''snapshot_digest'', json_string (be_SnapshotDigest e)), (''previous_event_digest'', json_string (be_PreviousDigest e))]"

definition root_json :: "authorityActivationRoot \<Rightarrow> string" where
  "root_json r = json_object
     [(''ProfileID'', json_string (rc_ProfileID r)), (''ManifestDigest'', json_string (rc_ManifestDigest r)),
      (''ActorActionID'', json_string (rc_ActorActionID r)), (''Actor'', json_string (rc_Actor r)),
      (''Reason'', json_string (rc_Reason r)), (''At'', json_string (rfc3339nano (rc_At r)))]"

text \<open>The root of an activation: its terms, and its actor as it was at that instant.\<close>

definition root_ok :: "codec \<Rightarrow> authority_store \<Rightarrow> string \<Rightarrow> string \<Rightarrow> birth_row \<Rightarrow> bool" where
  "root_ok cd a profileID activationDigest r =
     (let e = br_event r in
      sg2_Digest (br_seal r) = activationDigest \<and> be_ApprovalID e = ''activation:'' @ profileID \<and>
      (case br_root r of
         None \<Rightarrow> False
       | Some root \<Rightarrow>
           rc_ProfileID root = profileID \<and> rc_ManifestDigest root = be_ActionDigest e \<and> rc_ActorActionID root = be_ActionID e \<and>
           rc_Actor root \<noteq> '''' \<and> TrimSpace (rc_Reason root) \<noteq> '''' \<and> br_canonical r = root_json root \<and>
           (case principalTx (as_store a) (rc_Actor root) of
              None \<Rightarrow> False
            | Some p \<Rightarrow> ip_Kind p = PrincipalHuman \<and> (IsZero (ip_DisabledAt p) \<or> ip_DisabledAt p > rc_At root) \<and>
                verifyPrincipalProjectionTx cd (as_store a) p = None)))"

text \<open>The walk over the births by sequence: what it has seen so far, or nothing at the first row that does not fit.\<close>

fun birth_walk ::
    "codec \<Rightarrow> authority_store \<Rightarrow> string \<Rightarrow> string \<Rightarrow> birth_row list \<Rightarrow> int \<Rightarrow> string \<Rightarrow> authorityBirthEvent list \<Rightarrow>
     (int \<times> string \<times> authorityBirthEvent list) option" where
  "birth_walk cd a profileID activation [] expected previous seen = Some (expected, previous, seen)"
| "birth_walk cd a profileID activation (r # rs) expected previous seen =
     (let e = br_event r in
      if be_Sequence e \<noteq> expected \<or> be_PreviousDigest e \<noteq> previous then None
      else if be_Sequence e = 0
      then if root_ok cd a profileID activation r \<and> verified_bytes cd a authorityActivationDomain (br_canonical r) (br_seal r)
           then birth_walk cd a profileID activation rs (expected + 1) (sg2_Digest (br_seal r)) seen else None
      else if br_canonical r = birth_event_json e \<and> verified_bytes cd a authorityBirthDomain (br_canonical r) (br_seal r)
           then birth_walk cd a profileID activation rs (expected + 1) (sg2_Digest (br_seal r)) (e # seen) else None)"

definition births_of :: "authority_store \<Rightarrow> string \<Rightarrow> birth_row list" where
  "births_of a profileID = sort_by (\<lambda>x y. be_Sequence (br_event x) < be_Sequence (br_event y))
     (filter (\<lambda>r. be_ProfileID (br_event r) = profileID) (as_births a))"

text \<open>An approval against its birth.\<close>

definition approval_born :: "authority_store \<Rightarrow> authorityBirthEvent list \<Rightarrow> string \<times> approval_row \<Rightarrow> bool" where
  "approval_born a seen row =
     (case row of (i, w) \<Rightarrow>
        (case find (\<lambda>e. be_ApprovalID e = i) seen of
           None \<Rightarrow> False
         | Some e \<Rightarrow>
             be_ActionID e = ap_ActionID (aw_approval w) \<and> be_ActionDigest e = ap_ActionDigest (aw_approval w) \<and>
             be_StrictRequired e = aw_required w \<and>
             (if aw_required w
              then IsStrictApprovalID i \<and>
                (case map_of (as_snapshots a) (ap_ActionID (aw_approval w)) of
                   None \<Rightarrow> False
                 | Some (sn, seal) \<Rightarrow> au_ApprovalID sn = i \<and> sg2_Digest seal = be_SnapshotDigest e)
              else HasPrefix i ''apr_'' \<and> be_SnapshotDigest e = '''')))"

definition verifyAuthorityActivationTx :: "codec \<Rightarrow> authority_store \<Rightarrow> string \<Rightarrow> string \<Rightarrow> go_error option" where
  "verifyAuthorityActivationTx cd a profileID activationDigest =
     (case map_of (as_birth_heads a) profileID of
        None \<Rightarrow> Some ErrAuthorizationSnapshotCorrupt
      | Some h \<Rightarrow>
          if bh_ActivationDigest h \<noteq> activationDigest \<or>
             bh_canonical h \<noteq> birth_head_json profileID (bh_ActivationDigest h) (bh_Sequence h) (bh_LastEventDigest h) \<or>
             \<not> verified_bytes cd a authorityBirthHeadDomain (bh_canonical h) (bh_seal h)
          then Some ErrAuthorizationSnapshotCorrupt
          else (case birth_walk cd a profileID activationDigest (births_of a profileID) 0 '''' [] of
              None \<Rightarrow> Some ErrAuthorizationSnapshotCorrupt
            | Some (expected, previous, seen) \<Rightarrow>
                if expected - 1 \<noteq> bh_Sequence h \<or> previous \<noteq> bh_LastEventDigest h then Some ErrAuthorizationSnapshotCorrupt
                else if list_all (approval_born a seen) (sr_approvals (as_store a)) then None
                else Some ErrAuthorizationSnapshotCorrupt))"

section \<open>The clauses of the configuration\<close>

definition configAuthorityClauseDomain :: string where "configAuthorityClauseDomain = ''korvun.config-authority-clause.v1''"
definition configAuthorityHeadDomain :: string where "configAuthorityHeadDomain = ''korvun.config-authority-head.v1''"

definition config_head_json :: "string \<Rightarrow> string \<Rightarrow> int \<Rightarrow> string \<Rightarrow> string list \<Rightarrow> string" where
  "config_head_json profileID brain generation setDigest ids = json_object
     [(''profile_id'', json_string profileID), (''brain_principal_id'', json_string brain), (''generation'', decimal generation),
      (''clause_set_digest'', json_string setDigest), (''clause_ids'', json_strings ids)]"

definition clauses_of :: "authority_store \<Rightarrow> string \<Rightarrow> string \<Rightarrow> int \<Rightarrow> config_clause_row list" where
  "clauses_of a profileID brain generation = sort_by (\<lambda>x y. string_less (cc_ClauseID (cr_clause x)) (cc_ClauseID (cr_clause y)))
     (filter (\<lambda>r. cr_profile_id r = profileID \<and> cr_brain_principal_id r = brain \<and> cr_generation r = generation) (as_clauses a))"

definition clause_row_ok :: "codec \<Rightarrow> authority_store \<Rightarrow> config_clause_row \<Rightarrow> bool" where
  "clause_row_ok cd a r \<longleftrightarrow> clause_Validate cd (cr_clause r) = None \<and> sg2_Digest (cr_seal r) = clause_Digest cd (cr_clause r) \<and>
     cr_canonical r = clause_CanonicalBytes (cr_clause r) \<and>
     verified_bytes cd a configAuthorityClauseDomain (cr_canonical r) (cr_seal r)"

definition configAuthorityClausesTx :: "codec \<Rightarrow> authority_store \<Rightarrow> string \<Rightarrow> string \<Rightarrow> go_error + ConfigAuthorityClause list" where
  "configAuthorityClausesTx cd a profileID brain =
     (case map_of (as_config_heads a) (profileID, brain) of
        None \<Rightarrow> Inl ErrAuthorityMissing
      | Some h \<Rightarrow>
          demand (ch_canonical h = config_head_json profileID brain (ch_generation h) (ch_clause_set_digest h) (ch_ClauseIDs h) \<and>
              verified_bytes cd a configAuthorityHeadDomain (ch_canonical h) (ch_seal h)) ErrAuthorityEvidenceCorrupt (
          let rows = clauses_of a profileID brain (ch_generation h); ids = map (\<lambda>r. cc_ClauseID (cr_clause r)) rows in
          demand (list_all (clause_row_ok cd a) rows) ErrAuthorityEvidenceCorrupt (
          demand (ids = ch_ClauseIDs h \<and> HashCanonical cd (json_strings ids) = ch_clause_set_digest h) ErrAuthorityEvidenceCorrupt
            (Inr (map cr_clause rows)))))"

definition configAuthorityClauseTx ::
    "codec \<Rightarrow> authority_store \<Rightarrow> string \<Rightarrow> string \<Rightarrow> string \<Rightarrow> string \<Rightarrow> go_error + ConfigAuthorityClause" where
  "configAuthorityClauseTx cd a profileID brain toolName channel =
     andthen (configAuthorityClausesTx cd a profileID brain) (\<lambda>clauses.
       case filter (\<lambda>c. cc_ToolName c = toolName \<and> containsAuthorityString (cc_Channels c) channel) clauses of
         [] \<Rightarrow> Inl ErrAuthorityMissing | [c] \<Rightarrow> Inr c | _ \<Rightarrow> Inl ErrAuthorityAmbiguous)"

definition configAccountScope :: "string \<Rightarrow> string \<Rightarrow> string" where
  "configAccountScope brain toolName = strings_Join [brain, toolName] [byte 0]"

definition clause_fits :: "codec \<Rightarrow> string \<Rightarrow> string \<Rightarrow> ConfigAuthorityClause \<Rightarrow> bool" where
  "clause_fits cd profileID brain c \<longleftrightarrow> clause_Validate cd c = None \<and> cc_ProfileID c = profileID \<and> cc_BrainPrincipal c = brain"

fun insert_clauses ::
    "codec \<Rightarrow> string \<Rightarrow> string \<Rightarrow> int \<Rightarrow> ConfigAuthorityClause list \<Rightarrow> authority_store \<Rightarrow> go_error + authority_store" where
  "insert_clauses cd profileID brain generation [] a = Inr a"
| "insert_clauses cd profileID brain generation (c # cs) a =
     andthen (signAuthorityTx cd configAuthorityClauseDomain (clause_CanonicalBytes c) a) (\<lambda>seal.
     demand (\<not> list_ex (\<lambda>r. cr_profile_id r = profileID \<and> cr_brain_principal_id r = brain \<and> cr_generation r = generation \<and>
         cc_ClauseID (cr_clause r) = cc_ClauseID c) (as_clauses a)) (constraint_failed ''config_authority_snapshots'') (
     andthen (ensureBudgetAccountTx cd profileID ''config'' (configAccountScope brain (cc_ToolName c)) \<lparr>bu_Total = None, bu_PerOperation = None\<rparr>
         (a\<lparr>as_clauses := as_clauses a @ [\<lparr>cr_profile_id = profileID, cr_brain_principal_id = brain, cr_generation = generation,
            cr_clause = c, cr_canonical = clause_CanonicalBytes c, cr_seal = seal\<rparr>]\<rparr>))
       (insert_clauses cd profileID brain generation cs)))"

definition put_config_head :: "string \<times> string \<Rightarrow> config_head_row \<Rightarrow> authority_store \<Rightarrow> authority_store" where
  "put_config_head k h a =
     (if map_of (as_config_heads a) k = None then a\<lparr>as_config_heads := as_config_heads a @ [(k, h)]\<rparr>
      else a\<lparr>as_config_heads := map (\<lambda>(k', h'). (k', if k' = k then h else h')) (as_config_heads a)\<rparr>)"

definition SyncConfigAuthorityClauses ::
    "codec \<Rightarrow> authority_env \<Rightarrow> string \<Rightarrow> string \<Rightarrow> ConfigAuthorityClause list \<Rightarrow> authority_store \<Rightarrow> (go_error + int) \<times> authority_store" where
  "SyncConfigAuthorityClauses cd ae profileID brain clauses a =
     (let ordered = sort_by (\<lambda>x y. string_less (cc_ClauseID x) (cc_ClauseID y)) clauses;
          ids = map cc_ClauseID ordered; setDigest = HashCanonical cd (json_strings ids) in
      if profileID = '''' \<or> brain = '''' \<or> as_activation a = '''' \<or> as_profile a \<noteq> profileID then (Inl ErrAuthorityEvidenceCorrupt, a)
      else if \<not> list_all (clause_fits cd profileID brain) ordered \<or> \<not> distinct (map cc_ToolName ordered) then (Inl ErrAuthorityMalformed, a)
      else authority_tx ae (\<lambda>a.
        unless_error (verifyAuthorityActivationTx cd a profileID (as_activation a)) (
        andthen (case map_of (as_config_heads a) (profileID, brain) of
            None \<Rightarrow> Inr (1, False)
          | Some h \<Rightarrow> andthen (configAuthorityClausesTx cd a profileID brain) (\<lambda>_.
              Inr (if ch_clause_set_digest h = setDigest then (ch_generation h, True) else (ch_generation h + 1, False)))) (\<lambda>(generation, same).
        if same then Inr (generation, a)
        else
          andthen (insert_clauses cd profileID brain generation ordered a) (\<lambda>a.
          let canonical = config_head_json profileID brain generation setDigest ids in
          andthen (signAuthorityTx cd configAuthorityHeadDomain canonical a) (\<lambda>seal.
            Inr (generation, put_config_head (profileID, brain) \<lparr>ch_generation = generation, ch_clause_set_digest = setDigest,
              ch_ClauseIDs = ids, ch_canonical = canonical, ch_seal = seal\<rparr> a)))))) a)"

section \<open>Resolution\<close>

record resolvedAuthority =
  rv_intent :: IntentContractV2
  rv_chain :: "storedGrantV2 list"
  rv_refs :: "string list"
  rv_principalChain :: "string list"
  rv_accounts :: "string list"
  rv_operationKey :: string
  rv_configGeneration :: int
  rv_remainingBefore :: "int option"

definition grantOriginActorTx :: "authority_store \<Rightarrow> string \<Rightarrow> int \<Rightarrow> go_error + string \<times> bool" where
  "grantOriginActorTx a grantID version =
     (case find (\<lambda>e. ge_grant_id e = grantID \<and> ge_grant_version e = version \<and> ge_revision e = 1) (as_grant_events a) of
        None \<Rightarrow> Inl ErrAuthorityEvidenceCorrupt | Some e \<Rightarrow> Inr (ge_actor e, ge_administrative e))"

definition add_principal :: "string \<Rightarrow> string list \<Rightarrow> string list" where
  "add_principal p ps = (if ps \<noteq> [] \<and> last ps = p then ps else ps @ [p])"

definition grant_admits :: "AuthorityGrantV2 \<Rightarrow> OperationRef \<Rightarrow> string \<Rightarrow> EffectClass \<Rightarrow> bool" where
  "grant_admits g op channel effect \<longleftrightarrow> operationSubset [op] (g2_Operations g) \<and> containsAuthorityString (g2_Channels g) channel \<and>
     effect \<in> set (g2_EffectClasses g) \<and> (g2_EffectCeiling g = EffectOther '''' \<or> Rank effect \<le> Rank (g2_EffectCeiling g))"

text \<open>The loop over the chain, the root first.\<close>

fun admit_chain ::
    "codec \<Rightarrow> OperationRef \<Rightarrow> string \<Rightarrow> EffectClass \<Rightarrow> bool \<Rightarrow> storedGrantV2 list \<Rightarrow> resolvedAuthority \<times> authority_store \<Rightarrow>
     go_error + resolvedAuthority \<times> authority_store" where
  "admit_chain cd op channel effect approved [] ra = Inr ra"
| "admit_chain cd op channel effect approved (stored # rest) (r, a) =
     (let g = sd_grant stored in
      andthen (ensureBudgetAccountTx cd (g2_ProfileID g) ''grant'' (g2_GrantID g) (g2_Budget g) a) (\<lambda>a.
      demand (grant_admits g op channel effect) ErrAttenuationViolated (
      demand (g2_ApprovalRequired g \<longrightarrow> approved) ErrAuthorityApprovalRequired
        (admit_chain cd op channel effect approved rest
          (r\<lparr>rv_refs := rv_refs r @ [g2_GrantID g],
             rv_principalChain := add_principal (g2_SubjectPrincipalID g) (add_principal (g2_IssuerPrincipalID g) (rv_principalChain r)),
             rv_accounts := rv_accounts r @ [budgetAccountID cd (g2_ProfileID g) ''grant'' (g2_GrantID g)]\<rparr>, a)))))"

fun remaining_all :: "codec \<Rightarrow> authority_store \<Rightarrow> string \<Rightarrow> string list \<Rightarrow> int option \<Rightarrow> go_error + int option" where
  "remaining_all cd a opKey [] least = Inr least"
| "remaining_all cd a opKey (account # rest) least =
     andthen (remainingBeforeAccountTx cd a account opKey) (\<lambda>v. remaining_all cd a opKey rest (smaller least v))"

text \<open>The authority behind the binding: the clause of the configuration, or the chain of the grant.\<close>

definition resolve_clause ::
    "codec \<Rightarrow> string \<Rightarrow> string \<Rightarrow> action_Operation \<Rightarrow> resolvedAuthority \<Rightarrow> authority_store \<Rightarrow> go_error + resolvedAuthority \<times> authority_store" where
  "resolve_clause cd actor channel operation r a =
     (let intent = rv_intent r; scope = configAccountScope actor (ao_Name operation) in
      demand (as_activation a \<noteq> '''' \<and> ao_Namespace operation = ''tool'') ErrAuthorityMissing (
      andthen (configAuthorityClauseTx cd a (i2_ProfileID intent) actor (ao_Name operation) channel) (\<lambda>clause.
      case map_of (as_config_heads a) (i2_ProfileID intent, actor) of
        None \<Rightarrow> Inl ErrAuthorityEvidenceCorrupt
      | Some h \<Rightarrow>
          andthen (ensureBudgetAccountTx cd (i2_ProfileID intent) ''config'' scope \<lparr>bu_Total = None, bu_PerOperation = None\<rparr> a) (\<lambda>a.
            Inr (r\<lparr>rv_refs := [cc_ClauseID clause], rv_configGeneration := ch_generation h,
              rv_principalChain := [i2_OwnerPrincipalID intent, actor],
              rv_accounts := rv_accounts r @ [budgetAccountID cd (i2_ProfileID intent) ''config'' scope]\<rparr>, a)))))"

definition resolve_chain ::
    "codec \<Rightarrow> authority_env \<Rightarrow> ExecutionBinding \<Rightarrow> string \<Rightarrow> string \<Rightarrow> OperationRef \<Rightarrow> EffectClass \<Rightarrow> time \<Rightarrow> bool \<Rightarrow>
     resolvedAuthority \<Rightarrow> authority_store \<Rightarrow> go_error + resolvedAuthority \<times> authority_store" where
  "resolve_chain cd ae binding actor channel op effect at approved r a =
     (case authorityChainTx cd a (eb_GrantID binding) (eb_GrantVersion binding) at of
        Inl e \<Rightarrow> Inl (if errors_Is e ErrNoRows then ErrAuthorityMissing else e)
      | Inr chain \<Rightarrow>
          demand (chain \<noteq> [] \<and> grant_Digest cd (sd_grant (last chain)) = eb_GrantDigest binding) ErrAuthorityEvidenceCorrupt (
          unless_error (validateStoredAuthorityChain cd (ae_lib ae) chain (rv_intent r)) (
          andthen (grantOriginActorTx a (g2_GrantID (sd_grant (hd chain))) (g2_Version (sd_grant (hd chain)))) (\<lambda>(origin, administrative).
          andthen (admit_chain cd op channel effect approved chain
              (r\<lparr>rv_chain := chain, rv_principalChain := (if administrative then [origin] else [])\<rparr>, a)) (\<lambda>(r, a).
            demand (g2_SubjectPrincipalID (sd_grant (last chain)) = actor) ErrIssuerMismatch (Inr (r, a)))))))"

definition resolveAuthorityTx ::
    "codec \<Rightarrow> authority_env \<Rightarrow> string \<Rightarrow> string \<Rightarrow> string \<Rightarrow> action_Operation \<Rightarrow> string \<Rightarrow> EffectClass \<Rightarrow> time \<Rightarrow> bool \<Rightarrow>
     authority_store \<Rightarrow> go_error + resolvedAuthority \<times> authority_store" where
  "resolveAuthorityTx cd ae actor channel conversation operation arguments effect at approved a =
     andthen (bindingAuthorityTx a actor channel conversation) (\<lambda>binding.
     andthen (activeIntentTx cd a (eb_IntentID binding) (eb_IntentVersion binding) (eb_IntentDigest binding) at) (\<lambda>intent.
     demand (as_activation a \<noteq> '''' \<longrightarrow> i2_ProfileID intent = as_profile a) ErrAuthorizationSnapshotCorrupt (
     unless_error (if as_activation a = '''' then None else verifyAuthorityActivationTx cd a (as_profile a) (as_activation a)) (
     demand (operationSubset [operation] (items (i2_Operations intent)) \<and> effect \<in> set (items (i2_EffectClasses intent))) ErrAttenuationViolated (
     demand (i2_ApprovalRequired intent \<longrightarrow> approved) ErrAuthorityApprovalRequired (
     let opKey = operationKey operation;
         r = \<lparr>rv_intent = intent, rv_chain = [], rv_refs = [], rv_principalChain = [],
            rv_accounts = [budgetAccountID cd (i2_ProfileID intent) ''intent'' (i2_IntentID intent)], rv_operationKey = opKey,
            rv_configGeneration = 0, rv_remainingBefore = None\<rparr> in
     andthen (ensureBudgetAccountTx cd (i2_ProfileID intent) ''intent'' (i2_IntentID intent) (i2_Budget intent) a) (\<lambda>a.
     andthen (if eb_GrantID binding = '''' then resolve_clause cd actor channel operation r a
              else resolve_chain cd ae binding actor channel operation effect at approved r a) (\<lambda>(r, a).
     unless_error (validateAuthorityActualUse (ae_lib ae) intent (rv_chain r) (ao_Name operation) arguments) (
     andthen (remaining_all cd a opKey (rv_accounts r) None) (\<lambda>least.
       Inr (r\<lparr>rv_remainingBefore := least\<rparr>, a)))))))))))"

section \<open>Starting\<close>

datatype AuthorityStartProbe = AuthorityProbeAfterDebitBeforeCommit | AuthorityProbeBeforeCommit | AuthorityProbeAfterCommitBeforeReturn

record AuthorityStartRequest =
  sq_ActorPrincipalID :: string
  sq_CorrelationID :: string
  sq_SourceProtocol :: string
  sq_Channel :: string
  sq_ConversationID :: string
  sq_Operation :: action_Operation
  sq_Arguments :: string
  sq_EffectClass :: EffectClass
  sq_At :: time
  sq_ApprovalID :: string
  sq_PolicyVersion :: int
  sq_PolicyDigest :: string
  sq_ResolveEvidence :: "(string \<Rightarrow> go_error + Evidence) option"
  sq_Probe :: "AuthorityStartProbe \<Rightarrow> go_error option"

record AuthorityStartResult =
  sx_ActionID :: string
  sx_IntentID :: string
  sx_AuthorityRefs :: "string list"
  sx_RemainingBefore :: "int option"
  sx_Evidence :: Evidence

definition authorityEvidenceEpoch :: int where "authorityEvidenceEpoch = 1"

fun debit_all ::
    "codec \<Rightarrow> string \<Rightarrow> string \<Rightarrow> time \<Rightarrow> string list \<Rightarrow> int option \<times> authority_store \<Rightarrow> go_error + int option \<times> authority_store" where
  "debit_all cd actionID opKey at [] ra = Inr ra"
| "debit_all cd actionID opKey at (account # rest) (least, a) =
     andthen (debitAccountTx cd actionID account opKey at a) (\<lambda>(before, a). debit_all cd actionID opKey at rest (smaller least before, a))"

definition grant_ref_json :: "string \<Rightarrow> int \<Rightarrow> string \<Rightarrow> int \<Rightarrow> string" where
  "grant_ref_json grantID version digest revision = json_object
     [(''grant_id'', json_string grantID), (''version'', decimal version), (''digest'', json_string digest), (''revision'', decimal revision)]"

definition resolvedGrantChain :: "resolvedAuthority \<Rightarrow> string" where
  "resolvedGrantChain r = json_array
     (if rv_chain r = [] then map (\<lambda>ref. grant_ref_json ref 1 ref 1) (rv_refs r)
      else map (\<lambda>g. grant_ref_json (g2_GrantID (sd_grant g)) (g2_Version (sd_grant g)) (sg2_Digest (sd_seal g)) (sd_revision g)) (rv_chain r))"

definition debit_ref_json :: "budget_debit_row \<Rightarrow> string" where
  "debit_ref_json d = json_object
     [(''account_id'', json_string (bd_account_id d)), (''operation_key'', json_string (bd_operation_key d)),
      (''sequence'', decimal (bd_sequence d)), (''digest'', json_string (sg2_Digest (bd_seal d)))]"

definition debit_less :: "budget_debit_row \<Rightarrow> budget_debit_row \<Rightarrow> bool" where
  "debit_less x y = (if bd_account_id x \<noteq> bd_account_id y then string_less (bd_account_id x) (bd_account_id y)
     else string_less (bd_operation_key x) (bd_operation_key y))"

definition debitSetDigestTx :: "codec \<Rightarrow> authority_store \<Rightarrow> string \<Rightarrow> go_error + string" where
  "debitSetDigestTx cd a actionID =
     (let rows = sort_by debit_less (filter (\<lambda>d. bd_action_id d = actionID) (as_debits a)) in
      demand (rows \<noteq> []) ErrBudgetEvidenceCorrupt (Inr (HashCanonical cd (json_array (map debit_ref_json rows)))))"

definition decision_json :: "string \<Rightarrow> store_Decision \<Rightarrow> time \<Rightarrow> string" where
  "decision_json actionID d at = json_object
     [(''action_id'', json_string actionID), (''outcome'', json_string (dc_Outcome d)), (''rule'', json_string (dc_Rule d)),
      (''decided_at'', json_string (rfc3339nano at)), (''policy_version'', decimal (dc_PolicyVersion d)),
      (''policy_digest'', json_string (dc_PolicyDigest d))]"

definition start_json :: "authorityStartRecord \<Rightarrow> string" where
  "start_json r = json_object
     [(''action_id'', json_string (st_ActionID r)), (''generation'', decimal (st_Generation r)), (''intent_id'', json_string (st_IntentID r)),
      (''intent_version'', decimal (st_IntentVersion r)), (''intent_digest'', json_string (st_IntentDigest r)),
      (''grant_chain'', json_string (st_GrantChain r)), (''debit_set_digest'', json_string (st_DebitSetDigest r)),
      (''identity_evidence_digest'', json_string (st_IdentityEvidenceDigest r)), (''config_generation'', decimal (st_ConfigGeneration r)),
      (''decision_digest'', json_string (st_DecisionDigest r)), (''policy_version'', decimal (st_PolicyVersion r)),
      (''policy_digest'', json_string (st_PolicyDigest r)), (''authorization_time'', json_string (rfc3339nano (st_AuthorizationTime r)))]"

definition insertAuthorizationStartTx ::
    "codec \<Rightarrow> string \<Rightarrow> resolvedAuthority \<Rightarrow> string \<Rightarrow> int \<Rightarrow> string \<Rightarrow> time \<Rightarrow> authority_store \<Rightarrow> go_error + authority_store" where
  "insertAuthorizationStartTx cd actionID r identityDigest policyVersion policyDigest at a =
     andthen (debitSetDigestTx cd a actionID) (\<lambda>debits.
     case (map_of (sr_decisions (as_store a)) actionID, map_of (as_decided_at a) actionID) of
       (Some d, Some decidedAt) \<Rightarrow>
         demand (dc_PolicyVersion d = policyVersion \<and> dc_PolicyDigest d = policyDigest) ErrAuthorizationSnapshotCorrupt (
         let intent = rv_intent r;
             record = \<lparr>st_ActionID = actionID, st_Generation = authorityEvidenceEpoch, st_IntentID = i2_IntentID intent,
               st_IntentVersion = i2_Version intent, st_IntentDigest = intent_Digest cd intent, st_GrantChain = resolvedGrantChain r,
               st_DebitSetDigest = debits, st_IdentityEvidenceDigest = identityDigest, st_ConfigGeneration = rv_configGeneration r,
               st_DecisionDigest = HashCanonical cd (decision_json actionID d decidedAt), st_PolicyVersion = policyVersion,
               st_PolicyDigest = policyDigest, st_AuthorizationTime = at\<rparr> in
         andthen (signAuthorityTx cd authorityStartDomain (start_json record) a) (\<lambda>seal.
         demand (map_of (as_starts a) actionID = None) ErrActionAlreadyStarted
           (Inr (a\<lparr>as_starts := as_starts a @ [(actionID, record, seal)]\<rparr>))))
     | _ \<Rightarrow> Inl ErrAuthorizationSnapshotCorrupt)"

definition insertAuthorizationSnapshotTx ::
    "codec \<Rightarrow> AuthorizationSnapshotV1 \<Rightarrow> string \<Rightarrow> authority_store \<Rightarrow> go_error + authority_store" where
  "insertAuthorizationSnapshotTx cd snapshot evidenceDigest a =
     demand (snapshot_Validate snapshot = None \<and> evidenceDigest \<noteq> '''' \<and> au_IdentityEvidenceDigest snapshot = evidenceDigest)
       ErrAuthorizationSnapshotCorrupt (
     andthen (signAuthorityTx cd AuthorizationSnapshotV1Domain (snapshot_CanonicalBytes snapshot) a) (\<lambda>seal.
     demand (map_of (as_snapshots a) (au_ActionID snapshot) = None \<and>
         map_of (as_intents a) (au_IntentID snapshot, au_IntentVersion snapshot) \<noteq> None) (constraint_failed ''authorization_snapshots'')
       (Inr (a\<lparr>as_snapshots := as_snapshots a @ [(au_ActionID snapshot, snapshot, seal)]\<rparr>))))"

definition start_envelope ::
    "codec \<Rightarrow> string \<Rightarrow> AuthorityStartRequest \<Rightarrow> resolvedAuthority \<Rightarrow> Evidence \<Rightarrow> action_Envelope" where
  "start_envelope cd actionID q r e =
     (NewEnvelope cd actionID (if sq_CorrelationID q = '''' then actionID else sq_CorrelationID q)
        \<lparr>so_Kind = ''agent_brain'', so_Protocol = (if sq_SourceProtocol q = '''' then ''authority'' else sq_SourceProtocol q),
         so_Channel = sq_Channel q\<rparr> (sq_Operation q) (sq_Arguments q) (sq_At q))
       \<lparr>ac_Effect := sq_EffectClass q, ac_Principal := \<lparr>pf_PrincipalID = ev_ActorPrincipalID e, pf_EvidenceID = ev_EvidenceID e,
          pf_ResponsibleHumanID = ev_ResponsiblePrincipalID e\<rparr>, ac_IntentID := i2_IntentID (rv_intent r), ac_AuthorityRefs := rv_refs r\<rparr>"

definition start_snapshot :: "codec \<Rightarrow> string \<Rightarrow> AuthorityStartRequest \<Rightarrow> resolvedAuthority \<Rightarrow> Evidence \<Rightarrow> string \<Rightarrow> AuthorizationSnapshotV1" where
  "start_snapshot cd actionID q r e identityDigest =
     \<lparr>au_Kind = AuthorizationSnapshotStart, au_ActionID = actionID, au_ApprovalID = '''', au_ConversationID = sq_ConversationID q,
      au_RequesterPrincipalID = ev_RequesterPrincipalID e, au_ActorPrincipalID = ev_ActorPrincipalID e,
      au_IdentityEvidenceDigest = identityDigest, au_IntentID = i2_IntentID (rv_intent r), au_IntentVersion = i2_Version (rv_intent r),
      au_IntentDigest = intent_Digest cd (rv_intent r), au_IntentPurpose = i2_Purpose (rv_intent r), au_PrincipalChain = rv_principalChain r,
      au_BudgetKind = (if rv_remainingBefore r = None then AuthorizationBudgetUnlimited else AuthorizationBudgetFinite),
      au_BudgetRemaining = rv_remainingBefore r, au_RecordedAt = sq_At q\<rparr>"

text \<open>The action with its signed identity and its decision.\<close>

definition born_started ::
    "codec \<Rightarrow> string \<Rightarrow> AuthorityStartRequest \<Rightarrow> resolvedAuthority \<Rightarrow> Evidence \<Rightarrow> authority_store \<Rightarrow> go_error + string \<times> authority_store" where
  "born_started cd actionID q r e a =
     (let env = start_envelope cd actionID q r e; s = as_store a;
          d = \<lparr>dc_Outcome = ''allow'', dc_Rule = ''authority'', dc_PolicyVersion = sq_PolicyVersion q, dc_PolicyDigest = sq_PolicyDigest q\<rparr> in
      unless_error (validateResolvedEvidenceTx cd s e env (sq_At q)) (
      andthen (signEvidenceTx cd e s) (\<lambda>sgd.
      andthen (insert_action env StateAuthorized (Some (ev_ActorPrincipalID e)) (Some (i2_IntentID (rv_intent r))) (rv_refs r) None
          (snapshot_of sgd) d s) (\<lambda>s.
      andthen (insertEvidenceTx sgd s) (\<lambda>s.
        Inr (sg_Digest sgd, a\<lparr>as_store := s, as_decided_at := as_decided_at a @ [(actionID, sq_At q)]\<rparr>))))))"

definition start_body ::
    "codec \<Rightarrow> authority_env \<Rightarrow> AuthorityStartRequest \<Rightarrow> Evidence \<Rightarrow> authority_store \<Rightarrow> go_error + resolvedAuthority \<times> authority_store" where
  "start_body cd ae q e a =
     (let actionID = ae_action_id ae in
      demand (map_of (as_starts a) actionID = None) ErrActionAlreadyStarted (
      andthen (resolveAuthorityTx cd ae (ev_ActorPrincipalID e) (sq_Channel q) (sq_ConversationID q) (sq_Operation q) (sq_Arguments q)
          (sq_EffectClass q) (sq_At q) False a) (\<lambda>(r, a).
      andthen (debit_all cd actionID (rv_operationKey r) (sq_At q) (rv_accounts r) (rv_remainingBefore r, a)) (\<lambda>(least, a).
      let r = r\<lparr>rv_remainingBefore := least\<rparr> in
      unless_error (sq_Probe q AuthorityProbeAfterDebitBeforeCommit) (
      andthen (born_started cd actionID q r e a) (\<lambda>(identityDigest, a).
      andthen (insertAuthorizationStartTx cd actionID r identityDigest (sq_PolicyVersion q) (sq_PolicyDigest q) (sq_At q) a) (\<lambda>a.
      andthen (insertAuthorizationSnapshotTx cd (start_snapshot cd actionID q r e identityDigest) identityDigest a) (\<lambda>a.
      unless_error (sq_Probe q AuthorityProbeBeforeCommit) (Inr (r, a))))))))))"

definition StartAuthorization ::
    "codec \<Rightarrow> authority_env \<Rightarrow> AuthorityStartRequest \<Rightarrow> authority_store \<Rightarrow> (go_error + AuthorityStartResult) \<times> authority_store" where
  "StartAuthorization cd ae q a =
     (case sq_ResolveEvidence q of
        None \<Rightarrow> (Inl ErrIdentityEvidenceMissing, a)
      | Some resolve \<Rightarrow>
          if sq_ApprovalID q \<noteq> '''' then (Inl ErrAuthorizationSnapshotCorrupt, a)
          else (case authority_tx ae (\<lambda>a.
              andthen (resolve (ae_action_id ae)) (\<lambda>e.
              demand (sq_ActorPrincipalID q = '''' \<or> sq_ActorPrincipalID q = ev_ActorPrincipalID e) ErrIssuerMismatch (
              andthen (start_body cd ae q e a) (\<lambda>(r, a). Inr ((e, r), a))))) a of
            (Inl err, a') \<Rightarrow> (Inl err, a')
          | (Inr (e, r), a') \<Rightarrow>
              (case sq_Probe q AuthorityProbeAfterCommitBeforeReturn of
                 Some err \<Rightarrow> (Inl err, a')
               | None \<Rightarrow> (Inr \<lparr>sx_ActionID = ae_action_id ae, sx_IntentID = i2_IntentID (rv_intent r), sx_AuthorityRefs = rv_refs r,
                   sx_RemainingBefore = rv_remainingBefore r, sx_Evidence = e\<rparr>, a'))))"

section \<open>Binding an execution to a grant\<close>

definition BindExecutionWithGrant ::
    "codec \<Rightarrow> authority_env \<Rightarrow> ExecutionBinding \<Rightarrow> string \<Rightarrow> time \<Rightarrow> authority_store \<Rightarrow> (go_error + string) \<times> authority_store" where
  "BindExecutionWithGrant cd ae b grantID at a =
     (if eb_Status b \<noteq> BindingActive then (Inl (Errorf ''action/sqlite: bind handed status %q: %w'' [ErrBindingNotActive]), a)
      else if grantID = '''' then (Inl ErrGrantIDRequired, a)
      else authority_tx ae (\<lambda>a.
        andthen (activeIntentTx cd a (eb_IntentID b) (eb_IntentVersion b) (eb_IntentDigest b) at) (\<lambda>intent.
        case map_of (as_grant_heads a) grantID of
          None \<Rightarrow> Inl (Errorf ''action/sqlite: no grant %q: %w'' [ErrAuthorityMissing])
        | Some h \<Rightarrow>
            (case authorityChainTx cd a grantID (gh_active_version h) at of
               Inl e \<Rightarrow> Inl (if errors_Is e ErrNoRows
                 then Errorf ''action/sqlite: grant %q names active version %d, which does not exist: %w'' [ErrAuthorityEvidenceCorrupt] else e)
             | Inr chain \<Rightarrow>
                 unless_error (validateStoredAuthorityChain cd (ae_lib ae) chain intent) (
                 let leaf = sd_grant (last chain) in
                 demand (g2_SubjectPrincipalID leaf = eb_ActorPrincipalID b) (Errorf ''action/sqlite: grant %q is held by %q, not by %q: %w'' [ErrIssuerMismatch]) (
                 demand (eb_Channel b \<noteq> ''*'') (Errorf ''action/sqlite: %q is a grant's wildcard, not a channel a binding can name: %w'' [ErrAttenuationViolated]) (
                 demand (list_all (\<lambda>g. containsAuthorityString (g2_Channels (sd_grant g)) (eb_Channel b)) chain)
                   (Errorf ''action/sqlite: grant %q carries channels %v, not %q: %w'' [ErrAttenuationViolated]) (
                 demand (as_activation a \<noteq> '''' \<longrightarrow> i2_ProfileID intent = as_profile a)
                   (Errorf ''action/sqlite: intent %q belongs to profile %q, not to the armed %q: %w'' [ErrAuthorizationSnapshotCorrupt]) (
                 unless_error (if as_activation a = '''' then None else verifyAuthorityActivationTx cd a (as_profile a) (as_activation a)) (
                 let b1 = b\<lparr>eb_GrantID := g2_GrantID leaf, eb_GrantVersion := g2_Version leaf, eb_GrantDigest := grant_Digest cd leaf\<rparr>;
                     (revoked, b2, rows) = (case find (\<lambda>q. eb_Status q = BindingActive \<and> selector q = selector b1) (as_bindings a) of
                         None \<Rightarrow> ('''', b1\<lparr>eb_Revision := 1\<rparr>, as_bindings a)
                       | Some p \<Rightarrow> (eb_BindingID p, b1\<lparr>eb_Revision := eb_Revision p + 1\<rparr>,
                           map (\<lambda>q. if eb_BindingID q = eb_BindingID p \<and> eb_Status q = BindingActive then q\<lparr>eb_Status := BindingRevoked\<rparr> else q) (as_bindings a)));
                     a1 = a\<lparr>as_bindings := rows\<rparr> in
                 demand (exec_binding_admitted b2 a1) (Errorf ''action/sqlite: insert binding %q: %w'' [constraint_failed ''execution_bindings''])
                   (Inr (revoked, a1\<lparr>as_bindings := as_bindings a1 @ [b2]\<rparr>))))))))))) a)"

end
