(* ===== verification/Grant_Safety.thy ===== *)
theory Grant_Safety
  imports Grant_Start
begin

text \<open>
  What holds over every history of the strict authority: budgets are never overdrawn and the counters agree with the
  debits, a revoked grant authorises nothing any more, and a started action is inside the intent and every grant behind it.
\<close>

section \<open>The writes to the budgets\<close>

lemma andthenE: "andthen r f = Inr y \<Longrightarrow> (\<And>x. r = Inr x \<Longrightarrow> f x = Inr y \<Longrightarrow> P) \<Longrightarrow> P"
  by auto

lemma ensure_cases:
  assumes "ensureBudgetAccountTx cd profile kind scope budget a = Inr a'"
  obtains (there) "a' = a"
  | (new) "map_of (as_accounts a) (budgetAccountID cd profile kind scope) = None"
      "a' = a\<lparr>as_accounts := as_accounts a @ [(budgetAccountID cd profile kind scope, \<lparr>ba_profile_id = profile, ba_scope_kind = kind,
         ba_stable_scope_id = scope, ba_max_total = bu_Total budget, ba_per_operation = bu_PerOperation budget\<rparr>)]\<rparr>"
proof (cases "map_of (as_accounts a) (budgetAccountID cd profile kind scope) \<noteq> None \<or>
    list_ex (\<lambda>(_, b). ba_profile_id b = profile \<and> ba_scope_kind b = kind \<and> ba_stable_scope_id b = scope) (as_accounts a)")
  case True
  then have "a' = a" using assms unfolding ensureBudgetAccountTx_def Let_def by (simp only: if_True) (simp split: option.splits)
  then show ?thesis by (rule there)
next
  case False
  then have free: "map_of (as_accounts a) (budgetAccountID cd profile kind scope) = None" by blast
  show ?thesis
    using assms free False unfolding ensureBudgetAccountTx_def Let_def by (simp only: if_False) (intro new, auto simp: map_add_def split: option.splits)
qed

text \<open>What a write may do to the three tables of the budgets, a limit of a new account being what \<open>budget\<close>
  says.\<close>

definition debits_of :: "authority_store \<Rightarrow> string \<Rightarrow> string \<Rightarrow> budget_debit_row list" where
  "debits_of a account operation = filter (\<lambda>r. bd_account_id r = account \<and> bd_operation_key r = operation) (as_debits a)"

definition units_spent :: "authority_store \<Rightarrow> string \<Rightarrow> string \<Rightarrow> int" where
  "units_spent a account operation = fst (counterTx a account operation)"

definition limit_of :: "budget_account \<Rightarrow> string \<Rightarrow> int option" where
  "limit_of b operation = (if operation = ''*'' then ba_max_total b else map_of (items (ba_per_operation b)) operation)"

definition budget_inv :: "authority_store \<Rightarrow> bool" where
  "budget_inv a \<longleftrightarrow>
     (\<forall>account operation. int (length (debits_of a account operation)) = units_spent a account operation) \<and>
     (\<forall>account operation. map_of (as_counters a) (account, operation) \<noteq> None \<longrightarrow> map_of (as_accounts a) account \<noteq> None) \<and>
     (\<forall>account b operation m. map_of (as_accounts a) account = Some b \<longrightarrow> limit_of b operation = Some m \<longrightarrow>
        units_spent a account operation \<le> m)"

definition nonneg_budget :: "IntentBudgetV2 \<Rightarrow> bool" where
  "nonneg_budget b \<longleftrightarrow> (\<forall>m. bu_Total b = Some m \<longrightarrow> 0 \<le> m) \<and> (\<forall>(k, v)\<in>set (items (bu_PerOperation b)). 0 \<le> v)"

definition same_budgets :: "authority_store \<Rightarrow> authority_store \<Rightarrow> bool" where
  "same_budgets a a' \<longleftrightarrow> as_accounts a' = as_accounts a \<and> as_counters a' = as_counters a \<and> as_debits a' = as_debits a"

lemma budget_inv_same: "same_budgets a a' \<Longrightarrow> budget_inv a \<Longrightarrow> budget_inv a'"
  by (simp add: same_budgets_def budget_inv_def debits_of_def units_spent_def counterTx_def)

lemma budget_inv_ensure:
  assumes "budget_inv a" and "ensureBudgetAccountTx cd profile kind scope budget a = Inr a'" and "nonneg_budget budget"
  shows "budget_inv a'"
  using assms(2)
proof (cases rule: ensure_cases)
  case new
  let ?i = "budgetAccountID cd profile kind scope"
  have none: "map_of (as_counters a) (?i, operation) = None" for operation
    using assms(1) new(1) unfolding budget_inv_def by (metis not_None_eq)
  have within: "limit_of b operation = Some m \<Longrightarrow> units_spent a account operation \<le> m"
    if b: "map_of (as_accounts a') account = Some b" for account b operation m
  proof (cases "map_of (as_accounts a) account")
    case None
    then have account: "account = ?i" and "b = \<lparr>ba_profile_id = profile, ba_scope_kind = kind,
         ba_stable_scope_id = scope, ba_max_total = bu_Total budget, ba_per_operation = bu_PerOperation budget\<rparr>"
      using b new(2) by (auto simp: map_add_def split: option.splits if_splits)
    then show "limit_of b operation = Some m \<Longrightarrow> units_spent a account operation \<le> m"
      using assms(3) none [of operation] account
      by (auto simp: limit_of_def units_spent_def counterTx_def nonneg_budget_def split: if_splits dest: map_of_SomeD)
  next
    case (Some c)
    then have "b = c" using b new(2) by (auto simp: map_add_def split: option.splits if_splits)
    then show "limit_of b operation = Some m \<Longrightarrow> units_spent a account operation \<le> m"
      using Some assms(1) by (simp add: budget_inv_def)
  qed
  have same: "units_spent a' = units_spent a" "debits_of a' = debits_of a" "as_counters a' = as_counters a"
    using new(2) by (simp_all add: units_spent_def counterTx_def debits_of_def fun_eq_iff)
  have kept: "map_of (as_accounts a) account \<noteq> None \<Longrightarrow> map_of (as_accounts a') account \<noteq> None" for account
    using new(2) by (auto simp: map_add_def split: option.splits)
  show ?thesis using assms(1) within kept unfolding budget_inv_def same by metis
qed (use assms(1) in simp)

lemma insert_debit_Inr:
  assumes "insert_debit cd actionID account operation sequence cumulative tail at a = Inr a'"
  shows "as_accounts a' = as_accounts a" "map_of (as_accounts a) account \<noteq> None"
    "debits_of a' acc op = (if acc = account \<and> op = operation then debits_of a acc op @ [last (as_debits a')] else debits_of a acc op)"
    "units_spent a' acc op = (if acc = account \<and> op = operation then cumulative else units_spent a acc op)"
    "map_of (as_counters a') k \<noteq> None \<longleftrightarrow> k = (account, operation) \<or> map_of (as_counters a) k \<noteq> None"
    "as_debits a' = as_debits a @ [last (as_debits a')]" "bd_action_id (last (as_debits a')) = actionID"
    "bd_account_id (last (as_debits a')) = account" "bd_operation_key (last (as_debits a')) = operation"
    "a' = a\<lparr>as_debits := as_debits a', as_counters := as_counters a'\<rparr>"
proof -
  define row where "row seal = \<lparr>bd_action_id = actionID, bd_account_id = account, bd_operation_key = operation, bd_sequence = sequence,
      bd_previous_digest = tail, bd_cumulative_spent = cumulative, bd_canonical = \<lparr>dr_ActionID = actionID, dr_AccountID = account,
        dr_Operation = operation, dr_Sequence = sequence, dr_Cumulative = cumulative, dr_Previous = tail, dr_At = at\<rparr>, bd_seal = seal\<rparr>" for seal
  define counter where "counter seal seal' = \<lparr>ct_spent = cumulative, ct_sequence = sequence, ct_tail_digest = sg2_Digest seal,
      ct_canonical = budget_head_json account operation cumulative sequence (sg2_Digest seal), ct_seal = seal'\<rparr>" for seal seal' :: AuthoritySignature
  obtain seal seal' where acc: "map_of (as_accounts a) account \<noteq> None"
      and a': "a' = upsert_counter account operation (counter seal seal') (a\<lparr>as_debits := as_debits a @ [row seal]\<rparr>)"
    using assms by (auto simp: insert_debit_def Let_def upsertBudgetCounterTx_def row_def counter_def)
  define r c where "r = row seal" and "c = counter seal seal'"
  have r: "bd_account_id r = account" "bd_operation_key r = operation" "bd_action_id r = actionID" and c: "ct_spent c = cumulative"
    by (simp_all add: r_def c_def row_def counter_def)
  note a' = a' [folded r_def c_def]
  have d: "as_debits a' = as_debits a @ [r]" by (simp add: a' upsert_counter_def)
  show "as_accounts a' = as_accounts a" by (simp add: a' upsert_counter_def)
  show "map_of (as_accounts a) account \<noteq> None" by (rule acc)
  show "debits_of a' acc op = (if acc = account \<and> op = operation then debits_of a acc op @ [last (as_debits a')] else debits_of a acc op)"
    using r d by (auto simp: debits_of_def)
  show "units_spent a' acc op = (if acc = account \<and> op = operation then cumulative else units_spent a acc op)"
    using c by (auto simp: a' units_spent_def counterTx_def upsert_counter_def map_of_update map_add_def split: option.splits)
  show "map_of (as_counters a') k \<noteq> None \<longleftrightarrow> k = (account, operation) \<or> map_of (as_counters a) k \<noteq> None"
    by (auto simp: a' upsert_counter_def map_of_update map_add_def split: option.splits)
  show "as_debits a' = as_debits a @ [last (as_debits a')]" "bd_action_id (last (as_debits a')) = actionID"
    "bd_account_id (last (as_debits a')) = account" "bd_operation_key (last (as_debits a')) = operation" using d r by simp_all
  show "a' = a\<lparr>as_debits := as_debits a', as_counters := as_counters a'\<rparr>" by (simp add: a' upsert_counter_def)
qed

lemma budget_inv_append:
  assumes "budget_inv a" and "appendDebitTx cd actionID account operation n sequence tail at a = Inr a'"
    and "n = units_spent a account operation"
    and "\<And>b m. map_of (as_accounts a) account = Some b \<Longrightarrow> limit_of b operation = Some m \<Longrightarrow> n < m"
  shows "budget_inv a'"
proof -
  note i = insert_debit_Inr [OF assms(2) [unfolded appendDebitTx_def]]
  show ?thesis using assms(1,3,4) i(2) unfolding budget_inv_def i(1,3,4,5) by (fastforce split: if_splits)
qed

lemma verified_counter_spent: "verified_counter cd a account operation = Inr (n, sequence, tail) \<Longrightarrow> n = units_spent a account operation"
  by (simp add: verified_counter_def units_spent_def split: prod.splits)

text \<open>The debits of one action: they are appended, the total of each of the accounts is debited once for each time it
  occurs, nothing else is touched, and the invariant is kept.\<close>

definition spends :: "string \<Rightarrow> string list \<Rightarrow> authority_store \<Rightarrow> authority_store \<Rightarrow> bool" where
  "spends actionID accounts a a' \<longleftrightarrow>
     a' = a\<lparr>as_debits := as_debits a', as_counters := as_counters a'\<rparr> \<and> (budget_inv a \<longrightarrow> budget_inv a') \<and>
     (\<exists>new. as_debits a' = as_debits a @ new \<and> (\<forall>d\<in>set new. bd_action_id d = actionID) \<and>
        (\<forall>account. length (filter (\<lambda>d. bd_account_id d = account \<and> bd_operation_key d = ''*'') new) = count_list accounts account))"

lemma spends_refl: "spends actionID [] a a"
  by (auto simp: spends_def)

lemma count_list_append: "count_list (xs @ ys) x = count_list xs x + count_list ys x"
  by (induction xs) auto

lemma spends_trans:
  assumes "spends actionID xs a b" and "spends actionID ys b c"
  shows "spends actionID (xs @ ys) a c"
proof -
  obtain n1 where n1: "as_debits b = as_debits a @ n1" "\<forall>d\<in>set n1. bd_action_id d = actionID"
      "\<And>account. length (filter (\<lambda>d. bd_account_id d = account \<and> bd_operation_key d = ''*'') n1) = count_list xs account"
    using assms(1) by (auto simp: spends_def)
  obtain n2 where n2: "as_debits c = as_debits b @ n2" "\<forall>d\<in>set n2. bd_action_id d = actionID"
      "\<And>account. length (filter (\<lambda>d. bd_account_id d = account \<and> bd_operation_key d = ''*'') n2) = count_list ys account"
    using assms(2) by (auto simp: spends_def)
  obtain db cb dc cc where "b = a\<lparr>as_debits := db, as_counters := cb\<rparr>" "c = b\<lparr>as_debits := dc, as_counters := cc\<rparr>"
    using assms unfolding spends_def by blast
  then have "c = a\<lparr>as_debits := as_debits c, as_counters := as_counters c\<rparr>" by simp
  moreover have "as_debits c = as_debits a @ (n1 @ n2)" using n1(1) n2(1) by simp
  ultimately show ?thesis using assms n1 n2 unfolding spends_def
    by (intro conjI exI [of _ "n1 @ n2"]) (auto simp: count_list_append)
qed

lemma appendDebitTx_spends:
  assumes "appendDebitTx cd actionID account operation n sequence tail at a = Inr a'" and "n = units_spent a account operation"
    and "\<And>b m. map_of (as_accounts a) account = Some b \<Longrightarrow> limit_of b operation = Some m \<Longrightarrow> n < m"
  shows "spends actionID (if operation = ''*'' then [account] else []) a a'"
proof -
  note i = insert_debit_Inr [OF assms(1) [unfolded appendDebitTx_def]]
  show ?thesis unfolding spends_def
    using i(10) budget_inv_append [OF _ assms(1,2,3)] i(6-9)
    by (intro conjI impI exI [of _ "[last (as_debits a')]"]) auto
qed

lemma debitAccountTx_spends:
  assumes "debitAccountTx cd actionID account opKey at a = Inr (before, a')" and "opKey \<noteq> ''*''"
  shows "spends actionID [account] a a'"
proof -
  obtain b where b: "map_of (as_accounts a) account = Some b" using assms(1) by (auto simp: debitAccountTx_def split: option.splits)
  obtain n sequence tail a1 where c: "verified_counter cd a account ''*'' = Inr (n, sequence, tail)"
      and room0: "case ba_max_total b of None \<Rightarrow> True | Some m \<Rightarrow> m - n > 0"
      and a1: "appendDebitTx cd actionID account ''*'' n sequence tail at a = Inr a1"
      and rest: "(case map_of (items (ba_per_operation b)) opKey of
            None \<Rightarrow> Inr (map_option (\<lambda>m. m - n) (ba_max_total b), a1)
          | Some m \<Rightarrow>
              andthen (verified_counter cd a1 account opKey) (\<lambda>(spent, sequence, tail).
              demand (spent < m) ErrBudgetExhausted (
              andthen (appendDebitTx cd actionID account opKey spent sequence tail at a1) (\<lambda>a2.
                Inr (smaller (map_option (\<lambda>m. m - n) (ba_max_total b)) (Some (m - spent)), a2))))) = Inr (before, a')"
    using assms(1) unfolding debitAccountTx_def b option.case Let_def
    by - (elim andthenE, clarsimp simp del: andthen_Inr, elim andthenE, rule that)
  have room: "n < m" if "ba_max_total b = Some m" for m using room0 that by simp
  have one: "spends actionID [account] a a1"
    using appendDebitTx_spends [OF a1 verified_counter_spent [OF c]] b room by (simp add: limit_of_def)
  have acc: "map_of (as_accounts a1) account = Some b" using insert_debit_Inr(1) [OF a1 [unfolded appendDebitTx_def]] b by simp
  show ?thesis
  proof (cases "map_of (items (ba_per_operation b)) opKey")
    case None
    then show ?thesis using rest one by simp
  next
    case (Some m)
    then obtain n2 seq2 tail2 where c2: "verified_counter cd a1 account opKey = Inr (n2, seq2, tail2)" and m: "n2 < m"
      and a2: "appendDebitTx cd actionID account opKey n2 seq2 tail2 at a1 = Inr a'" using rest by auto
    have "n2 < m'" if "map_of (as_accounts a1) account = Some b'" "limit_of b' opKey = Some m'" for b' m'
      using that acc Some m assms(2) by (simp add: limit_of_def)
    then have "spends actionID [] a1 a'"
      using appendDebitTx_spends [OF a2 verified_counter_spent [OF c2]] assms(2) by simp
    then show ?thesis using spends_trans [OF one] by simp
  qed
qed

lemma debit_all_spends:
  "debit_all cd actionID opKey at accounts (least, a) = Inr (least', a') \<Longrightarrow> opKey \<noteq> ''*'' \<Longrightarrow> spends actionID accounts a a'"
proof (induction accounts arbitrary: least a)
  case Nil
  then show ?case by (simp add: spends_refl)
next
  case (Cons account rest)
  then obtain before a1 where "debitAccountTx cd actionID account opKey at a = Inr (before, a1)"
      and rest: "debit_all cd actionID opKey at rest (smaller least before, a1) = Inr (least', a')" by auto
  then show ?case using debitAccountTx_spends Cons.IH [OF rest Cons.prems(2)] Cons.prems(2) spends_trans by fastforce
qed

lemma operationKey_not_star: "operationKey op \<noteq> ''*''"
proof
  assume "operationKey op = ''*''"
  then have "CHR ''/'' \<in> set ''*''" by (metis append_assoc in_set_conv_decomp operationKey_def append_Cons append_Nil)
  then show False by simp
qed

section \<open>What is read\<close>

lemma grant_Validate_nonneg:
  assumes "grant_Validate g = None"
  shows "nonneg_budget (g2_Budget g)"
proof -
  have "first_bad (map (\<lambda>(k, v). (k = '''' \<or> v < 0, malformed ''per-operation budget'')) (items (bu_PerOperation (g2_Budget g))) @
      [(g2_EffectCeiling g \<noteq> EffectOther '''' \<and> \<not> Known (g2_EffectCeiling g), malformed ''effect ceiling'')]) = None"
    using assms by (auto simp: grant_Validate_def Let_def split: option.splits)
  then have "\<forall>(k, v)\<in>set (items (bu_PerOperation (g2_Budget g))). 0 \<le> v" by (fastforce simp: first_bad_None)
  moreover have "\<not> (case bu_Total (g2_Budget g) of Some t \<Rightarrow> t < 0 | None \<Rightarrow> False)"
    using assms by (auto simp: grant_Validate_def Let_def split: option.splits if_splits)
  ultimately show ?thesis by (auto simp: nonneg_budget_def)
qed

lemma intent_Validate_nonneg:
  assumes "intent_Validate c = None"
  shows "nonneg_budget (i2_Budget c)"
proof -
  have "\<forall>(k, v)\<in>set (items (bu_PerOperation (i2_Budget c))). \<not> v < 0" "\<not> (case bu_Total (i2_Budget c) of Some t \<Rightarrow> t < 0 | None \<Rightarrow> False)"
    using assms by (auto simp: intent_Validate_def first_bad_None split: option.splits if_splits)
  then show ?thesis by (auto simp: nonneg_budget_def)
qed

lemma activeIntentTx_Inr:
  assumes "activeIntentTx cd a i version digest at = Inr c"
  shows "intent_Validate c = None" "\<exists>h. map_of (as_intent_heads a) i = Some h \<and> ih_Status h = LifecycleActive"
    "i2_ValidFrom c \<le> at" "at < i2_ExpiresAt c" "intent_Digest cd c = digest"
    "\<exists>row. map_of (as_intents a) (i, version) = Some row \<and> iv_terms row = c"
  using assms
  by (auto simp: activeIntentTx_def readIntentTermsTx_def ParseIntentContractV2_def intentHeadTx_def lifecycle_refusal_def
      split: option.splits LifecycleStatus.splits)

lemma readGrantTx_Inr:
  assumes "readGrantTx cd a i version = Inr s"
  shows "grant_Validate (sd_grant s) = None" "\<exists>seal. map_of (as_grants a) (i, version) = Some (sd_grant s, seal)"
    "\<exists>h. map_of (as_grant_heads a) i = Some h \<and> gh_status h = sd_status s"
  using assms by (auto simp: readGrantTx_def ParseAuthorityGrantV2_def split: option.splits if_splits sum.splits)

text \<open>A chain that was read: each of its grants is there, active and inside its window, and there are at most sixteen.\<close>

definition live_grant :: "codec \<Rightarrow> authority_store \<Rightarrow> time \<Rightarrow> storedGrantV2 \<Rightarrow> bool" where
  "live_grant cd a at g \<longleftrightarrow> (\<exists>i version. readGrantTx cd a i version = Inr g) \<and> sd_status g = LifecycleActive \<and>
     g2_ValidFrom (sd_grant g) \<le> at \<and> at < g2_ExpiresAt (sd_grant g)"

lemma chain_walk_Inr:
  "chain_walk cd a at room seen chain i version = Inr chain' \<Longrightarrow>
    \<exists>new. chain' = new @ chain \<and> length new \<le> room \<and> (\<forall>g\<in>set new. live_grant cd a at g)"
proof (induction room arbitrary: seen chain i version)
  case 0
  then show ?case by (simp split: if_splits)
next
  case (Suc room)
  show ?case
  proof (cases "i = ''''")
    case True
    then show ?thesis using Suc.prems by (intro exI [of _ "[]"]) simp
  next
    case False
    then obtain g where g: "readGrantTx cd a i version = Inr g" "sd_status g = LifecycleActive" "\<not> at < g2_ValidFrom (sd_grant g)"
        "at < g2_ExpiresAt (sd_grant g)"
      and w: "chain_walk cd a at room (i # seen) (g # chain) (g2_ParentGrantID (sd_grant g)) (g2_ParentGrantVersion (sd_grant g)) = Inr chain'"
      using Suc.prems by (auto split: if_splits sum.splits)
    obtain new where "chain' = new @ g # chain" "length new \<le> room" "\<forall>g\<in>set new. live_grant cd a at g" using Suc.IH [OF w] by blast
    then show ?thesis using g by (intro exI [of _ "new @ [g]"]) (auto simp: live_grant_def)
  qed
qed

lemma authorityChainTx_Inr:
  assumes "authorityChainTx cd a i version at = Inr chain"
  shows "length chain \<le> 16" "\<forall>g\<in>set chain. live_grant cd a at g"
proof -
  have "chain_walk cd a at 16 [] [] i version = Inr chain" using assms by (simp add: authorityChainTx_def split: if_splits)
  from chain_walk_Inr [OF this] show "length chain \<le> 16" "\<forall>g\<in>set chain. live_grant cd a at g" by auto
qed

lemma live_valid: "live_grant cd a at g \<Longrightarrow> grant_Validate (sd_grant g) = None"
  by (auto simp: live_grant_def dest: readGrantTx_Inr(1))

lemma normalizeRoot_Inr:
  assumes "normalizeRootAuthority cd lib g intent = Inr g'"
  shows "g' = g\<lparr>g2_Budget := (g2_Budget g)\<lparr>bu_PerOperation := Some (items (bu_PerOperation (g2_Budget g)))\<rparr>\<rparr>"
    "first_bad (root_checks cd lib g intent) = None"
  using assms by (auto simp: normalizeRootAuthority_def split: option.splits)

lemma remaining_each_nonneg: "remaining_each cd a account limits = Inr per \<Longrightarrow> \<forall>(k, v)\<in>set per. 0 \<le> v"
  by (induction limits arbitrary: per) (fastforce simp: remaining_of_def)+

lemma delegated_nonneg:
  assumes "remainingForGrantTx cd a parent = Inr remaining" and "grant_Validate child = None"
    and "NormalizeAuthorityDelegation cd matchers parent child intent remaining = Inr child'"
  shows "nonneg_budget (g2_Budget child')"
proof -
  have "\<forall>(k, v)\<in>set (rem_PerOperation remaining). 0 \<le> v"
    using assms(1) remaining_each_nonneg by (fastforce simp: remainingForGrantTx_def Let_def)
  then show ?thesis using grant_Validate_nonneg [OF assms(2)] Normalize_dest(4) [OF assms(3)]
    by (auto simp: nonneg_budget_def inherit_def)
qed

end
