(* ===== verification/Grant_History.thy ===== *)
theory Grant_History
  imports Grant_Safety
begin

text \<open>
  The histories of the strict authority: every door of the store as a step, the invariants all of them keep, and what a
  successful \<open>StartAuthorization\<close> rests on.
\<close>

section \<open>What every write keeps\<close>

definition grants_keyed :: "authority_store \<Rightarrow> bool" where
  "grants_keyed a \<longleftrightarrow> (\<forall>((i, version), g, seal)\<in>set (as_grants a). g2_GrantID g = i \<and> g2_Version g = version)"

definition closed_kept :: "authority_store \<Rightarrow> authority_store \<Rightarrow> bool" where
  "closed_kept a a' \<longleftrightarrow>
     (\<forall>i h. map_of (as_grant_heads a) i = Some h \<longrightarrow> gh_status h = LifecycleRevoked \<longrightarrow> map_of (as_grant_heads a') i = Some h) \<and>
     (\<forall>i h. map_of (as_intent_heads a) i = Some h \<longrightarrow> Lifecycle_Terminal (ih_Status h) \<longrightarrow> map_of (as_intent_heads a') i = Some h)"

definition sound :: "authority_store \<Rightarrow> authority_store \<Rightarrow> bool" where
  "sound a a' \<longleftrightarrow> (budget_inv a \<longrightarrow> budget_inv a') \<and> (grants_keyed a \<longrightarrow> grants_keyed a') \<and> closed_kept a a'"

definition same_authority :: "authority_store \<Rightarrow> authority_store \<Rightarrow> bool" where
  "same_authority a a' \<longleftrightarrow> same_budgets a a' \<and> as_grants a' = as_grants a \<and> as_grant_heads a' = as_grant_heads a \<and>
     as_intent_heads a' = as_intent_heads a"

lemma case_sum_Inr: "(case r of Inl e \<Rightarrow> Inl (f e) | Inr x \<Rightarrow> g x) = Inr y \<longleftrightarrow> (\<exists>x. r = Inr x \<and> g x = Inr y)"
  by (cases r) simp_all

lemma sound_refl [simp]: "sound a a"
  by (simp add: sound_def closed_kept_def)

lemma sound_trans [trans]: "sound a b \<Longrightarrow> sound b c \<Longrightarrow> sound a c"
  by (simp add: sound_def closed_kept_def)

lemma sound_same: "same_authority a a' \<Longrightarrow> sound a a'"
  using budget_inv_same by (auto simp: sound_def closed_kept_def grants_keyed_def same_authority_def)

lemmas same_simps = same_authority_def same_budgets_def

lemma sound_lock: "sound a (a\<lparr>as_lock := n\<rparr>)"
  by (rule sound_same) (simp add: same_simps)

lemma sound_lock_then: "sound (a\<lparr>as_lock := n\<rparr>) a' \<Longrightarrow> sound a a'"
  using sound_lock sound_trans by blast

lemma ensure_frame:
  "ensureBudgetAccountTx cd profile kind scope budget a = Inr a' \<Longrightarrow> a' = a\<lparr>as_accounts := as_accounts a'\<rparr>"
  by (erule ensure_cases) auto

lemma sound_ensure:
  assumes "ensureBudgetAccountTx cd profile kind scope budget a = Inr a'" and "nonneg_budget budget"
  shows "sound a a'"
proof -
  obtain xs where "a' = a\<lparr>as_accounts := xs\<rparr>" using ensure_frame [OF assms(1)] by metis
  then have "closed_kept a a'" "grants_keyed a \<longrightarrow> grants_keyed a'" by (simp_all add: closed_kept_def grants_keyed_def)
  then show ?thesis using budget_inv_ensure [OF _ assms] by (simp add: sound_def)
qed

lemma sound_spends:
  assumes "spends actionID accounts a a'"
  shows "sound a a'"
proof -
  obtain ds cs where "a' = a\<lparr>as_debits := ds, as_counters := cs\<rparr>" and "budget_inv a \<longrightarrow> budget_inv a'"
    using assms unfolding spends_def by metis
  then show ?thesis by (simp add: sound_def closed_kept_def grants_keyed_def)
qed

lemma insertGrantTx_Inr:
  assumes "insertGrantTx cd ae g actorActionID actor administrative reason at a = Inr a'"
  shows "sound a a'" "map_of (as_grant_heads a) (g2_GrantID g) = None" "map_of (as_grants a) (g2_GrantID g, g2_Version g) = None"
    "\<exists>h. map_of (as_grant_heads a') (g2_GrantID g) = Some h \<and> gh_status h = LifecycleActive"
    "\<exists>seal. map_of (as_grants a') (g2_GrantID g, g2_Version g) = Some (g, seal)"
proof -
  obtain seal events h where free: "map_of (as_grant_heads a) (g2_GrantID g) = None" "map_of (as_grants a) (g2_GrantID g, g2_Version g) = None"
    and a': "a' = a\<lparr>as_grants := as_grants a @ [((g2_GrantID g, g2_Version g), g, seal)], as_grant_events := events,
        as_grant_heads := as_grant_heads a @ [(g2_GrantID g, h)]\<rparr>"
    and h: "gh_status h = LifecycleActive"
    using assms by (clarsimp simp: insertGrantTx_def Let_def)
  have "budget_inv a \<longrightarrow> budget_inv a'" using budget_inv_same [of a a'] by (simp add: a' same_budgets_def)
  moreover have "grants_keyed a \<longrightarrow> grants_keyed a'" by (auto simp: grants_keyed_def a')
  moreover have "closed_kept a a'" using free(1) by (auto simp: closed_kept_def a' map_add_def split: option.splits)
  ultimately show "sound a a'" by (simp add: sound_def)
  show "map_of (as_grant_heads a) (g2_GrantID g) = None" "map_of (as_grants a) (g2_GrantID g, g2_Version g) = None" by (fact free)+
  show "\<exists>h. map_of (as_grant_heads a') (g2_GrantID g) = Some h \<and> gh_status h = LifecycleActive"
    "\<exists>seal. map_of (as_grants a') (g2_GrantID g, g2_Version g) = Some (g, seal)" using free h by (auto simp: a' map_add_def)
qed

section \<open>The doors of grants\<close>

lemma sound_issue:
  assumes "issueAuthority cd ae g actorActionID reason administrative at a = (r, a')"
  shows "sound a a'"
proof (cases "grant_Validate g")
  case None
  note t = assms [unfolded issueAuthority_def None option.case]
  from t show ?thesis
  proof (cases rule: authority_tx_cases)
    case (ran x)
    obtain intent g' actor a1 a2 where i: "activeIntentTx cd (a\<lparr>as_lock := as_lock a + 1\<rparr>) (g2_IntentID g) (g2_IntentVersion g) (g2_IntentDigest g) at = Inr intent"
        and n: "normalizeRootAuthority cd (ae_lib ae) g intent = Inr g'"
        and g: "insertGrantTx cd ae g' actorActionID actor administrative reason at (a\<lparr>as_lock := as_lock a + 1\<rparr>) = Inr a1"
        and e1: "ensureBudgetAccountTx cd (i2_ProfileID intent) ''intent'' (i2_IntentID intent) (i2_Budget intent) a1 = Inr a2"
        and e2: "ensureBudgetAccountTx cd (g2_ProfileID g') ''grant'' (g2_GrantID g') (g2_Budget g') a2 = Inr a'"
      using ran(2) by auto
    have "nonneg_budget (g2_Budget g')"
      using grant_Validate_nonneg [OF None] normalizeRoot_Inr(1) [OF n] by (simp add: nonneg_budget_def)
    then have "sound a2 a'" by (rule sound_ensure [OF e2])
    moreover have "sound a1 a2" by (rule sound_ensure [OF e1 intent_Validate_nonneg [OF activeIntentTx_Inr(1) [OF i]]])
    ultimately have "sound (a\<lparr>as_lock := as_lock a + 1\<rparr>) a'" using insertGrantTx_Inr(1) [OF g] sound_trans by blast
    then show ?thesis by (rule sound_lock_then)
  qed simp
qed (use assms in \<open>simp add: issueAuthority_def\<close>)

lemma sound_delegate:
  assumes "delegateAuthority cd ae child actorActionID reason administrative at a = (r, a')"
  shows "sound a a'"
proof (cases "grant_Validate child")
  case None
  note t = assms [unfolded delegateAuthority_def None option.case]
  from t show ?thesis
  proof (cases rule: authority_tx_cases)
    case (ran x)
    let ?a = "a\<lparr>as_lock := as_lock a + 1\<rparr>"
    obtain parents :: "storedGrantV2 list" and intent remaining child' actor a1
      where rem: "remainingForGrantTx cd ?a (sd_grant (last parents)) = Inr remaining"
        and n: "NormalizeAuthorityDelegation cd (defaultAuthorityMatchers (ae_lib ae)) (sd_grant (last parents)) child intent remaining = Inr child'"
        and g: "insertGrantTx cd ae child' actorActionID actor administrative reason at ?a = Inr a1"
        and e: "ensureBudgetAccountTx cd (g2_ProfileID child') ''grant'' (g2_GrantID child') (g2_Budget child') a1 = Inr a'"
      using ran(2) by (auto simp: Let_def case_sum_Inr)
    have "sound a1 a'" by (rule sound_ensure [OF e delegated_nonneg [OF rem None n]])
    then have "sound ?a a'" using insertGrantTx_Inr(1) [OF g] sound_trans by blast
    then show ?thesis by (rule sound_lock_then)
  qed simp
qed (use assms in \<open>simp add: delegateAuthority_def\<close>)

lemma readGrantHeadTx_Inr:
  assumes "readGrantHeadTx cd a i = Inr s"
  shows "\<exists>h. map_of (as_grant_heads a) i = Some h \<and> gh_status h = sd_status s"
  using assms by (auto simp: readGrantHeadTx_def split: option.splits dest: readGrantTx_Inr(3))

lemma revoke_Inr:
  assumes "revokeAuthority cd ae grantID actorActionID reason administrative at a = (r, a')"
  shows "sound a a'" "\<forall>x. r = Inr x \<longrightarrow> (\<exists>h. map_of (as_grant_heads a') grantID = Some h \<and> gh_status h = LifecycleRevoked)"
proof -
  note t = assms [unfolded revokeAuthority_def]
  have "sound a a' \<and> (\<forall>x. r = Inr x \<longrightarrow> (\<exists>h. map_of (as_grant_heads a') grantID = Some h \<and> gh_status h = LifecycleRevoked))"
    using t
  proof (cases rule: authority_tx_cases)
    case (ran x)
    let ?a = "a\<lparr>as_lock := as_lock a + 1\<rparr>"
    obtain stored events f where s: "readGrantHeadTx cd ?a grantID = Inr stored" and live: "sd_status stored \<noteq> LifecycleRevoked"
        and f: "\<And>h. gh_status (f h) = LifecycleRevoked"
        and a': "a' = ?a\<lparr>as_grant_events := events, as_grant_heads := map (\<lambda>(k, h). (k, if k = grantID then f h else h)) (as_grant_heads a)\<rparr>"
      using ran(2)
      by (clarsimp simp: Let_def case_sum_Inr) (rule that, assumption, assumption, auto)
    obtain h where h: "map_of (as_grant_heads a) grantID = Some h" "gh_status h \<noteq> LifecycleRevoked"
      using readGrantHeadTx_Inr [OF s] live by auto
    have "budget_inv a \<longrightarrow> budget_inv a'" using budget_inv_same [of a a'] by (simp add: a' same_budgets_def)
    moreover have "grants_keyed a \<longrightarrow> grants_keyed a'" by (simp add: grants_keyed_def a')
    moreover have "closed_kept a a'" using h by (auto simp: closed_kept_def a' map_of_update)
    ultimately show ?thesis using h f by (simp add: sound_def a' map_of_update)
  qed simp
  then show "sound a a'" "\<forall>x. r = Inr x \<longrightarrow> (\<exists>h. map_of (as_grant_heads a') grantID = Some h \<and> gh_status h = LifecycleRevoked)" by auto
qed

section \<open>The doors of intents and bindings\<close>

lemma insertIntentEventTx_frame: "insertIntentEventTx sgd a = Inr a' \<Longrightarrow> \<exists>es. a' = a\<lparr>as_intent_events := es\<rparr>"
  by (auto simp: insertIntentEventTx_def Let_def)

lemma appendIntentMutationReceiptTx_frame: "appendIntentMutationReceiptTx cd sv sgd digest a = Inr a' \<Longrightarrow> \<exists>s. a' = a\<lparr>as_store := s\<rparr>"
  by (auto simp: appendIntentMutationReceiptTx_def Let_def)

lemma sound_heads:
  assumes "same_budgets a a'" and "as_grants a' = as_grants a" and "as_grant_heads a' = as_grant_heads a"
    and "\<And>i h. map_of (as_intent_heads a) i = Some h \<Longrightarrow> Lifecycle_Terminal (ih_Status h) \<Longrightarrow> map_of (as_intent_heads a') i = Some h"
  shows "sound a a'"
  using assms budget_inv_same by (auto simp: sound_def grants_keyed_def closed_kept_def)

lemma sound_create_intent:
  assumes "CreateIntentV2 cd ae c actor at a = (r, a')"
  shows "sound a a'"
proof -
  consider (stop) "a' = a" | (tx) sgd where "plain_tx ae (\<lambda>a.
               unless_error (verifyNewEventTx cd a sgd) (
               demand (map_of (as_intents a) (i2_IntentID c, i2_Version c) = None \<and> i2_Version c > 0 \<and>
                   \<not> list_ex (\<lambda>((i, _), row). i = i2_IntentID c \<and> iv_digest row = intent_Digest cd c) (as_intents a))
                 (constraint_failed ''intent_versions'') (
               andthen (insertIntentEventTx sgd (a\<lparr>as_intents := as_intents a @ [((i2_IntentID c, i2_Version c),
                   \<lparr>iv_terms = c, iv_digest = intent_Digest cd c, iv_signing_key_id = '''', iv_signature = ''''\<rparr>)]\<rparr>)) (\<lambda>a.
               andthen (appendIntentMutationReceiptTx cd (ae_sv ae) sgd (intent_Digest cd c) a) (\<lambda>a.
               demand (map_of (as_intent_heads a) (i2_IntentID c) = None) (constraint_failed ''intent_heads'')
                 (Inr ((), a\<lparr>as_intent_heads := as_intent_heads a @ [(i2_IntentID c, \<lparr>ih_ActiveVersion = i2_Version c, ih_Revision = 1,
                    ih_LastEventDigest = sn_Digest sgd, ih_Status = LifecycleDraft\<rparr>)]\<rparr>))))))) a = (r, a')"
    using assms unfolding CreateIntentV2_def by (auto split: option.splits sum.splits)
  then show ?thesis
  proof cases
    case tx
    then show ?thesis
    proof (cases rule: plain_tx_cases)
      case (ran x)
      then obtain a1 a2 rows h where e: "insertIntentEventTx sgd (a\<lparr>as_intents := rows\<rparr>) = Inr a1"
          and p: "appendIntentMutationReceiptTx cd (ae_sv ae) sgd (intent_Digest cd c) a1 = Inr a2"
          and free: "map_of (as_intent_heads a2) (i2_IntentID c) = None"
          and a': "a' = a2\<lparr>as_intent_heads := as_intent_heads a2 @ [(i2_IntentID c, h)]\<rparr>"
        by clarsimp
      obtain es s where "a2 = a\<lparr>as_intents := rows, as_intent_events := es, as_store := s\<rparr>"
        using insertIntentEventTx_frame [OF e] appendIntentMutationReceiptTx_frame [OF p] by auto
      then show ?thesis using free by (intro sound_heads) (auto simp: same_budgets_def a' map_add_def split: option.splits)
    qed simp
  qed simp
qed

lemma terminal_intent_stays: "Lifecycle_Terminal s \<Longrightarrow> IntentV2LifecycleTransition s t \<noteq> None"
  by (auto simp: Lifecycle_Terminal_def IntentV2LifecycleTransition_def LifecycleTransition_def lifecycleTransitions_def)

lemma sound_activate_intent:
  assumes "ActivateIntentV2 cd ae i version actor at a = (r, a')"
  shows "sound a a'"
proof (cases "as_contractSigner a = None \<or> as_eventSigner a = None")
  case True
  then show ?thesis using assms by (auto simp: ActivateIntentV2_def split: option.splits)
next
  case False
  then obtain signC where c: "as_contractSigner a = Some signC" and e: "(as_eventSigner a = None) = False" by auto
  from assms [unfolded ActivateIntentV2_def c e option.case if_False] show ?thesis
  proof (cases rule: plain_tx_cases)
    case (ran x)
    then obtain head rows sgd digest a1 a2 h where t: "intentHeadTx a i = Inr head" "IntentV2LifecycleTransition (ih_Status head) LifecycleActive = None"
        and e: "insertIntentEventTx sgd (a\<lparr>as_intents := rows\<rparr>) = Inr a1"
        and p: "appendIntentMutationReceiptTx cd (ae_sv ae) sgd digest a1 = Inr a2" and a': "a' = update_intent_head i h a2"
      by (auto simp: Let_def case_prod_beta)
    obtain es s where "a2 = a\<lparr>as_intents := rows, as_intent_events := es, as_store := s\<rparr>"
      using insertIntentEventTx_frame [OF e] appendIntentMutationReceiptTx_frame [OF p] by auto
    moreover have "\<not> Lifecycle_Terminal (ih_Status head)" using t(2) terminal_intent_stays by metis
    ultimately show ?thesis using t(1)
      by (intro sound_heads) (auto simp: same_budgets_def a' update_intent_head_def map_of_update intentHeadTx_def split: option.splits)
  qed simp
qed

lemma sound_transition_intent:
  assumes "transitionIntentV2 cd ae i actor to at a = (r, a')"
  shows "sound a a'"
proof (cases "as_eventSigner a = None")
  case False
  then have e: "(as_eventSigner a = None) = False" by simp
  from assms [unfolded transitionIntentV2_def e if_False] show ?thesis
  proof (cases rule: plain_tx_cases)
    case (ran x)
    then obtain head sgd digest a1 a2 h where t: "intentHeadTx a i = Inr head" "IntentV2LifecycleTransition (ih_Status head) to = None"
        and e: "insertIntentEventTx sgd a = Inr a1"
        and p: "appendIntentMutationReceiptTx cd (ae_sv ae) sgd digest a1 = Inr a2" and a': "a' = update_intent_head i h a2"
      by (clarsimp simp: Let_def split: option.splits)
    obtain es s where "a2 = a\<lparr>as_intent_events := es, as_store := s\<rparr>"
      using insertIntentEventTx_frame [OF e] appendIntentMutationReceiptTx_frame [OF p] by auto
    moreover have "\<not> Lifecycle_Terminal (ih_Status head)" using t(2) terminal_intent_stays by metis
    ultimately show ?thesis using t(1)
      by (intro sound_heads) (auto simp: same_budgets_def a' update_intent_head_def map_of_update intentHeadTx_def split: option.splits)
  qed simp
qed (use assms in \<open>simp add: transitionIntentV2_def\<close>)

lemma sound_put_binding:
  assumes "PutExecutionBinding cd ae b a = (r, a')"
  shows "sound a a'"
proof (cases "eb_Status b \<noteq> BindingActive \<and> eb_Status b \<noteq> BindingRevoked")
  case False
  note t = assms [unfolded PutExecutionBinding_def if_not_P [OF False]]
  from t show ?thesis
    by (cases rule: plain_tx_cases) (auto simp: Let_def same_simps intro!: sound_same)
qed (use assms in \<open>simp add: PutExecutionBinding_def\<close>)

lemma sound_bind:
  assumes "BindExecutionWithGrant cd ae b grantID at a = (r, a')"
  shows "sound a a'"
proof (cases "eb_Status b \<noteq> BindingActive \<or> grantID = ''''")
  case False
  then have f: "(eb_Status b \<noteq> BindingActive) = False" "(grantID = '''') = False" by simp_all
  from assms [unfolded BindExecutionWithGrant_def f if_False] show ?thesis
  proof (cases rule: authority_tx_cases)
    case (ran x)
    then have "\<exists>bs. a' = a\<lparr>as_lock := as_lock a + 1, as_bindings := bs\<rparr>"
      by (elim andthenE) (auto simp: Let_def case_sum_Inr split: option.splits prod.splits)
    then show ?thesis by (auto simp: same_simps intro!: sound_same)
  qed simp
qed (use assms in \<open>simp add: BindExecutionWithGrant_def split: if_splits\<close>)

section \<open>The clauses of the configuration\<close>

lemma nonneg_none [simp]: "nonneg_budget \<lparr>bu_Total = None, bu_PerOperation = None\<rparr>"
  by (simp add: nonneg_budget_def)

lemma sound_insert_clauses: "insert_clauses cd profileID brain generation cs a = Inr a' \<Longrightarrow> sound a a'"
proof (induction cs arbitrary: a)
  case (Cons c cs)
  then obtain rows a1 where e: "ensureBudgetAccountTx cd profileID ''config'' (configAccountScope brain (cc_ToolName c))
        \<lparr>bu_Total = None, bu_PerOperation = None\<rparr> (a\<lparr>as_clauses := rows\<rparr>) = Inr a1"
      and rest: "insert_clauses cd profileID brain generation cs a1 = Inr a'" by auto
  have "sound a (a\<lparr>as_clauses := rows\<rparr>)" by (rule sound_same) (simp add: same_simps)
  also have "sound (a\<lparr>as_clauses := rows\<rparr>) a1" using sound_ensure [OF e] by simp
  also have "sound a1 a'" by (rule Cons.IH [OF rest])
  finally show ?case .
qed simp

lemma sound_put_config_head: "sound a (put_config_head k h a)"
  by (rule sound_same) (simp add: put_config_head_def same_simps)

lemma sound_sync:
  assumes "SyncConfigAuthorityClauses cd ae profileID brain clauses a = (r, a')"
  shows "sound a a'"
proof -
  define ordered where "ordered = sort_by (\<lambda>x y. string_less (cc_ClauseID x) (cc_ClauseID y)) clauses"
  show ?thesis
  proof (cases "(profileID = '''' \<or> brain = '''' \<or> as_activation a = '''' \<or> as_profile a \<noteq> profileID) \<or>
      \<not> list_all (clause_fits cd profileID brain) ordered \<or> \<not> distinct (map cc_ToolName ordered)")
    case True
    then show ?thesis using assms by (auto simp: SyncConfigAuthorityClauses_def Let_def ordered_def split: if_splits)
  next
    case False
    then have f: "(profileID = '''' \<or> brain = '''' \<or> as_activation a = '''' \<or> as_profile a \<noteq> profileID) = False"
      "(\<not> list_all (clause_fits cd profileID brain) ordered \<or> \<not> distinct (map cc_ToolName ordered)) = False" by blast+
    from assms [unfolded SyncConfigAuthorityClauses_def Let_def, folded ordered_def, unfolded f if_False] show ?thesis
    proof (cases rule: authority_tx_cases)
      case (ran x)
      let ?a = "a\<lparr>as_lock := as_lock a + 1\<rparr>"
      consider "a' = ?a" | a1 generation k h where "insert_clauses cd profileID brain generation ordered ?a = Inr a1" "a' = put_config_head k h a1"
        using ran(2) by (auto split: if_splits)
      then have "sound ?a a'" using sound_insert_clauses sound_put_config_head sound_trans by cases (simp, blast)
      then show ?thesis by (rule sound_lock_then)
    qed simp
  qed
qed

section \<open>The authority behind a start\<close>

text \<open>An intent and a grant in force: their row is there, the signature over its terms verifies, its head is active and is
  where its chain of signed events ends, and the instant is in the window.\<close>

definition intent_in_force :: "codec \<Rightarrow> authority_store \<Rightarrow> time \<Rightarrow> IntentContractV2 \<Rightarrow> bool" where
  "intent_in_force cd a at c \<longleftrightarrow> (\<exists>i version row h. map_of (as_intents a) (i, version) = Some row \<and> iv_terms row = c \<and>
     verify_terms cd a c (intent_Digest cd c) row = None \<and> map_of (as_intent_heads a) i = Some h \<and> ih_Status h = LifecycleActive \<and>
     verifyIntentHistoryOn cd a i h = None) \<and> i2_ValidFrom c \<le> at \<and> at < i2_ExpiresAt c"

definition in_force :: "codec \<Rightarrow> authority_store \<Rightarrow> time \<Rightarrow> AuthorityGrantV2 \<Rightarrow> bool" where
  "in_force cd a at g \<longleftrightarrow> (\<exists>i version seal h pub active. map_of (as_grants a) (i, version) = Some (g, seal) \<and>
     publicKeyTx (as_store a) (sg2_SigningKeyID seal) = Inr (pub, active) \<and> VerifyAuthorityGrantV2 cd pub g seal = None \<and>
     map_of (as_grant_heads a) i = Some h \<and> gh_status h = LifecycleActive \<and> verifyGrantHistoryTx cd a i version h = None) \<and>
     g2_ValidFrom g \<le> at \<and> at < g2_ExpiresAt g"

lemma active_in_force:
  assumes "activeIntentTx cd a i version digest at = Inr c"
  shows "intent_in_force cd a at c"
proof -
  have "\<exists>row h. map_of (as_intents a) (i, version) = Some row \<and> iv_terms row = c \<and> verify_terms cd a c digest row = None \<and>
      map_of (as_intent_heads a) i = Some h \<and> ih_Status h = LifecycleActive \<and> verifyIntentHistoryOn cd a i h = None"
    using assms
    by (auto simp: activeIntentTx_def readIntentTermsTx_def ParseIntentContractV2_def intentHeadTx_def lifecycle_refusal_def
        split: option.splits LifecycleStatus.splits)
  then show ?thesis using activeIntentTx_Inr(3,4,5) [OF assms] unfolding intent_in_force_def by metis
qed

lemma live_in_force:
  assumes "live_grant cd a at g"
  shows "in_force cd a at (sd_grant g)"
proof -
  obtain i version where r: "readGrantTx cd a i version = Inr g" and g: "sd_status g = LifecycleActive"
      "g2_ValidFrom (sd_grant g) \<le> at" "at < g2_ExpiresAt (sd_grant g)"
    using assms unfolding live_grant_def by blast
  have "\<exists>seal h pub active. map_of (as_grants a) (i, version) = Some (sd_grant g, seal) \<and>
      publicKeyTx (as_store a) (sg2_SigningKeyID seal) = Inr (pub, active) \<and> VerifyAuthorityGrantV2 cd pub (sd_grant g) seal = None \<and>
      map_of (as_grant_heads a) i = Some h \<and> gh_status h = sd_status g \<and> verifyGrantHistoryTx cd a i version h = None"
    using r by (auto simp: readGrantTx_def ParseAuthorityGrantV2_def split: option.splits if_splits sum.splits)
  with g show ?thesis unfolding in_force_def by metis
qed

definition grant_account :: "codec \<Rightarrow> storedGrantV2 \<Rightarrow> string" where
  "grant_account cd g = budgetAccountID cd (g2_ProfileID (sd_grant g)) ''grant'' (g2_GrantID (sd_grant g))"

lemma admit_chain_Inr:
  assumes "admit_chain cd op channel effect approved chain (r, a) = Inr (r', a')"
    and "\<forall>g\<in>set chain. grant_Validate (sd_grant g) = None"
  shows "sound a a'" "a' = a\<lparr>as_accounts := as_accounts a'\<rparr>"
    "\<forall>g\<in>set chain. grant_admits (sd_grant g) op channel effect \<and> (g2_ApprovalRequired (sd_grant g) \<longrightarrow> approved)"
    "rv_accounts r' = rv_accounts r @ map (grant_account cd) chain" "rv_refs r' = rv_refs r @ map (\<lambda>g. g2_GrantID (sd_grant g)) chain"
    "rv_intent r' = rv_intent r" "rv_chain r' = rv_chain r" "rv_operationKey r' = rv_operationKey r"
proof -
  have "sound a a' \<and> a' = a\<lparr>as_accounts := as_accounts a'\<rparr> \<and>
    (\<forall>g\<in>set chain. grant_admits (sd_grant g) op channel effect \<and> (g2_ApprovalRequired (sd_grant g) \<longrightarrow> approved)) \<and>
    rv_accounts r' = rv_accounts r @ map (grant_account cd) chain \<and> rv_refs r' = rv_refs r @ map (\<lambda>g. g2_GrantID (sd_grant g)) chain \<and>
    rv_intent r' = rv_intent r \<and> rv_chain r' = rv_chain r \<and> rv_operationKey r' = rv_operationKey r"
    using assms
  proof (induction chain arbitrary: r a)
    case (Cons g chain)
    obtain a1 r1 where e: "ensureBudgetAccountTx cd (g2_ProfileID (sd_grant g)) ''grant'' (g2_GrantID (sd_grant g)) (g2_Budget (sd_grant g)) a = Inr a1"
        and ok: "grant_admits (sd_grant g) op channel effect" "g2_ApprovalRequired (sd_grant g) \<longrightarrow> approved"
        and r1: "rv_accounts r1 = rv_accounts r @ [grant_account cd g]" "rv_refs r1 = rv_refs r @ [g2_GrantID (sd_grant g)]"
          "rv_intent r1 = rv_intent r" "rv_chain r1 = rv_chain r" "rv_operationKey r1 = rv_operationKey r"
        and rest: "admit_chain cd op channel effect approved chain (r1, a1) = Inr (r', a')"
      using Cons.prems(1) by (clarsimp simp: Let_def) (rule that [unfolded grant_account_def], assumption+, simp_all)
    have "sound a a1" using sound_ensure [OF e grant_Validate_nonneg] Cons.prems(2) by simp
    moreover note ih = Cons.IH [OF rest] Cons.prems(2)
    moreover obtain xs where "a1 = a\<lparr>as_accounts := xs\<rparr>" using ensure_frame [OF e] by metis
    ultimately show ?case using ok r1 sound_trans by auto
  qed simp
  then show "sound a a'" "a' = a\<lparr>as_accounts := as_accounts a'\<rparr>"
    "\<forall>g\<in>set chain. grant_admits (sd_grant g) op channel effect \<and> (g2_ApprovalRequired (sd_grant g) \<longrightarrow> approved)"
    "rv_accounts r' = rv_accounts r @ map (grant_account cd) chain" "rv_refs r' = rv_refs r @ map (\<lambda>g. g2_GrantID (sd_grant g)) chain"
    "rv_intent r' = rv_intent r" "rv_chain r' = rv_chain r" "rv_operationKey r' = rv_operationKey r" by blast+
qed

text \<open>A clause of the configuration in force for a brain: it stands in the signed generation that the signed head of the brain
  names as its current one, its own signature verifies, and it is the only clause of that generation for the tool and the channel.\<close>

definition of_generation :: "string \<Rightarrow> string \<Rightarrow> int \<Rightarrow> config_clause_row \<Rightarrow> bool" where
  "of_generation profile brain generation row \<longleftrightarrow>
     cr_profile_id row = profile \<and> cr_brain_principal_id row = brain \<and> cr_generation row = generation"

definition clause_covers :: "string \<Rightarrow> string \<Rightarrow> ConfigAuthorityClause \<Rightarrow> bool" where
  "clause_covers tool channel c \<longleftrightarrow> cc_ToolName c = tool \<and> containsAuthorityString (cc_Channels c) channel"

definition clause_in_force :: "codec \<Rightarrow> authority_store \<Rightarrow> string \<Rightarrow> string \<Rightarrow> string \<Rightarrow> string \<Rightarrow> ConfigAuthorityClause \<Rightarrow> bool" where
  "clause_in_force cd a profile brain tool channel clause \<longleftrightarrow>
     (\<exists>h. map_of (as_config_heads a) (profile, brain) = Some h \<and>
        ch_canonical h = config_head_json profile brain (ch_generation h) (ch_clause_set_digest h) (ch_ClauseIDs h) \<and>
        verified_bytes cd a configAuthorityHeadDomain (ch_canonical h) (ch_seal h) \<and> cc_ClauseID clause \<in> set (ch_ClauseIDs h) \<and>
        (\<exists>row\<in>set (as_clauses a). of_generation profile brain (ch_generation h) row \<and> cr_clause row = clause \<and> clause_row_ok cd a row) \<and>
        clause_covers tool channel clause \<and>
        (\<forall>row\<in>set (as_clauses a). of_generation profile brain (ch_generation h) row \<and> clause_covers tool channel (cr_clause row) \<longrightarrow>
           cr_clause row = clause))"

lemma verified_bytes_frame [simp]:
  "verified_bytes cd (a\<lparr>as_accounts := xs\<rparr>) = verified_bytes cd a" "verified_bytes cd (a\<lparr>as_lock := n\<rparr>) = verified_bytes cd a"
  by (simp_all add: verified_bytes_def fun_eq_iff)

lemma clause_in_force_frame [simp]:
  "clause_in_force cd (a\<lparr>as_accounts := xs\<rparr>) = clause_in_force cd a" "clause_in_force cd (a\<lparr>as_lock := n\<rparr>) = clause_in_force cd a"
  by (simp_all add: clause_in_force_def clause_row_ok_def fun_eq_iff)

lemma root_ok_lock [simp]: "root_ok cd (a\<lparr>as_lock := n\<rparr>) = root_ok cd a"
proof -
  have "as_store (a\<lparr>as_lock := n\<rparr>) = as_store a" by simp
  then show ?thesis unfolding root_ok_def by (simp only:)
qed

lemma birth_walk_lock [simp]: "birth_walk cd (a\<lparr>as_lock := n\<rparr>) p act rs x y z = birth_walk cd a p act rs x y z"
  by (induction rs arbitrary: x y z) (simp_all only: birth_walk.simps root_ok_lock verified_bytes_frame)

lemma activation_lock [simp]: "verifyAuthorityActivationTx cd (a\<lparr>as_lock := n\<rparr>) p act = verifyAuthorityActivationTx cd a p act"
proof -
  have "as_snapshots (a\<lparr>as_lock := n\<rparr>) = as_snapshots a" by simp
  then have "approval_born (a\<lparr>as_lock := n\<rparr>) = approval_born a" unfolding approval_born_def by (simp only:)
  moreover have "as_store (a\<lparr>as_lock := n\<rparr>) = as_store a" "as_births (a\<lparr>as_lock := n\<rparr>) = as_births a"
    "as_birth_heads (a\<lparr>as_lock := n\<rparr>) = as_birth_heads a" by simp_all
  ultimately show ?thesis unfolding verifyAuthorityActivationTx_def births_of_def by (simp only: verified_bytes_frame birth_walk_lock)
qed

text \<open>What a resolution rests on.\<close>

definition resolved_within ::
    "codec \<Rightarrow> use_lib \<Rightarrow> string \<Rightarrow> string \<Rightarrow> action_Operation \<Rightarrow> string \<Rightarrow> EffectClass \<Rightarrow> time \<Rightarrow> bool \<Rightarrow> authority_store \<Rightarrow>
     resolvedAuthority \<Rightarrow> bool" where
  "resolved_within cd lib actor channel operation arguments effect at approved a r \<longleftrightarrow>
     (let intent = rv_intent r; chain = rv_chain r in
      intent_in_force cd a at intent \<and> operationSubset [operation] (items (i2_Operations intent)) \<and>
      effect \<in> set (items (i2_EffectClasses intent)) \<and> (i2_ApprovalRequired intent \<longrightarrow> approved) \<and>
      validateAuthorityActualUse lib intent chain (ao_Name operation) arguments = None \<and>
      (\<forall>g\<in>set chain. in_force cd a at (sd_grant g) \<and> grant_admits (sd_grant g) operation channel effect \<and>
         (g2_ApprovalRequired (sd_grant g) \<longrightarrow> approved)) \<and>
      (if chain = []
       then as_activation a \<noteq> '''' \<and> verifyAuthorityActivationTx cd a (as_profile a) (as_activation a) = None \<and>
            i2_ProfileID intent = as_profile a \<and> ao_Namespace operation = ''tool'' \<and>
            (\<exists>clause. clause_in_force cd a (i2_ProfileID intent) actor (ao_Name operation) channel clause \<and> rv_refs r = [cc_ClauseID clause]) \<and>
            rv_accounts r = [budgetAccountID cd (i2_ProfileID intent) ''intent'' (i2_IntentID intent),
              budgetAccountID cd (i2_ProfileID intent) ''config'' (configAccountScope actor (ao_Name operation))]
       else length chain \<le> 16 \<and> g2_SubjectPrincipalID (sd_grant (last chain)) = actor \<and>
            validateStoredAuthorityChain cd lib chain intent = None \<and> rv_refs r = map (\<lambda>g. g2_GrantID (sd_grant g)) chain \<and>
            rv_accounts r = budgetAccountID cd (i2_ProfileID intent) ''intent'' (i2_IntentID intent) # map (grant_account cd) chain))"

lemma resolved_within_remaining: "resolved_within cd lib actor channel operation arguments effect at approved a (r\<lparr>rv_remainingBefore := x\<rparr>) =
    resolved_within cd lib actor channel operation arguments effect at approved a r"
  unfolding resolved_within_def Let_def by (cases r) (simp only: resolvedAuthority.simps)

lemma in_force_frame [simp]:
  "in_force cd (a\<lparr>as_accounts := xs\<rparr>) = in_force cd a" "in_force cd (a\<lparr>as_lock := n\<rparr>) = in_force cd a"
  "intent_in_force cd (a\<lparr>as_lock := n\<rparr>) = intent_in_force cd a"
  by (simp_all add: in_force_def intent_in_force_def verifyGrantHistoryTx_def grant_history_def verifyIntentHistoryOn_def
      intent_history_def verify_terms_def fun_eq_iff)

lemma set_sort_by: "set (sort_by lt xs) = set xs"
  by (induction xs) (simp_all add: sort_by_def)

lemma set_clauses_of: "set (clauses_of a profile brain generation) = {row\<in>set (as_clauses a). of_generation profile brain generation row}"
  by (auto simp: clauses_of_def of_generation_def set_sort_by)

lemma configAuthorityClauseTx_Inr:
  assumes "configAuthorityClauseTx cd a profile brain tool channel = Inr c"
  shows "clause_in_force cd a profile brain tool channel c"
proof -
  obtain cs where cs: "configAuthorityClausesTx cd a profile brain = Inr cs"
      and f: "filter (clause_covers tool channel) cs = [c]"
    using assms unfolding configAuthorityClauseTx_def clause_covers_def by (elim andthenE) (simp split: list.splits)
  from cs obtain h where h: "map_of (as_config_heads a) (profile, brain) = Some h"
      "ch_canonical h = config_head_json profile brain (ch_generation h) (ch_clause_set_digest h) (ch_ClauseIDs h)"
      "verified_bytes cd a configAuthorityHeadDomain (ch_canonical h) (ch_seal h)"
    and rows: "list_all (clause_row_ok cd a) (clauses_of a profile brain (ch_generation h))"
      "map (\<lambda>r. cc_ClauseID (cr_clause r)) (clauses_of a profile brain (ch_generation h)) = ch_ClauseIDs h"
      "cs = map cr_clause (clauses_of a profile brain (ch_generation h))"
    by (auto simp: configAuthorityClausesTx_def Let_def split: option.splits)
  have only: "c' = c" if "c' \<in> set cs" "clause_covers tool channel c'" for c'
  proof -
    have "c' \<in> set (filter (clause_covers tool channel) cs)" using that by simp
    then show ?thesis by (simp add: f)
  qed
  have "c \<in> set (filter (clause_covers tool channel) cs)" by (simp add: f)
  then have c: "c \<in> set cs" "clause_covers tool channel c" by simp_all
  obtain row where row: "row \<in> set (clauses_of a profile brain (ch_generation h))" "cr_clause row = c" using c(1) rows(3) by auto
  have stands: "\<exists>row\<in>set (as_clauses a). of_generation profile brain (ch_generation h) row \<and> cr_clause row = c \<and> clause_row_ok cd a row"
    using row rows(1) unfolding list_all_iff set_clauses_of by blast
  have id: "cc_ClauseID c \<in> set (ch_ClauseIDs h)" using row rows(2) by (metis (mono_tags, lifting) image_eqI list.set_map)
  have alone: "\<forall>row\<in>set (as_clauses a). of_generation profile brain (ch_generation h) row \<and> clause_covers tool channel (cr_clause row) \<longrightarrow>
      cr_clause row = c"
  proof (intro ballI impI)
    fix row' assume "row' \<in> set (as_clauses a)" "of_generation profile brain (ch_generation h) row' \<and> clause_covers tool channel (cr_clause row')"
    then have "cr_clause row' \<in> set cs" "clause_covers tool channel (cr_clause row')" unfolding rows(3) by (simp_all add: set_clauses_of)
    then show "cr_clause row' = c" by (rule only)
  qed
  show ?thesis unfolding clause_in_force_def by (intro exI [of _ h] conjI) (fact h id stands c(2) alone)+
qed

lemma resolve_clause_Inr:
  assumes "resolve_clause cd actor channel operation r a = Inr (r', a')"
  shows "sound a a'" "a' = a\<lparr>as_accounts := as_accounts a'\<rparr>" "as_activation a \<noteq> ''''"
    "ao_Namespace operation = ''tool''"
    "\<exists>clause. clause_in_force cd a (i2_ProfileID (rv_intent r)) actor (ao_Name operation) channel clause \<and> rv_refs r' = [cc_ClauseID clause]"
    "rv_accounts r' = rv_accounts r @ [budgetAccountID cd (i2_ProfileID (rv_intent r)) ''config'' (configAccountScope actor (ao_Name operation))]"
    "rv_intent r' = rv_intent r" "rv_chain r' = rv_chain r" "rv_operationKey r' = rv_operationKey r"
proof -
  obtain c h where c: "configAuthorityClauseTx cd a (i2_ProfileID (rv_intent r)) actor (ao_Name operation) channel = Inr c"
      and e: "ensureBudgetAccountTx cd (i2_ProfileID (rv_intent r)) ''config'' (configAccountScope actor (ao_Name operation))
        \<lparr>bu_Total = None, bu_PerOperation = None\<rparr> a = Inr a'"
      and r': "r' = r\<lparr>rv_refs := [cc_ClauseID c], rv_configGeneration := h, rv_principalChain := [i2_OwnerPrincipalID (rv_intent r), actor],
         rv_accounts := rv_accounts r @ [budgetAccountID cd (i2_ProfileID (rv_intent r)) ''config'' (configAccountScope actor (ao_Name operation))]\<rparr>"
      and act: "as_activation a \<noteq> ''''" "ao_Namespace operation = ''tool''"
    using assms by (auto simp: resolve_clause_def Let_def split: option.splits)
  show "sound a a'" using sound_ensure [OF e] by simp
  show "a' = a\<lparr>as_accounts := as_accounts a'\<rparr>" by (rule ensure_frame [OF e])
  show "as_activation a \<noteq> ''''" "ao_Namespace operation = ''tool''" by (fact act)+
  show "\<exists>clause. clause_in_force cd a (i2_ProfileID (rv_intent r)) actor (ao_Name operation) channel clause \<and> rv_refs r' = [cc_ClauseID clause]"
    using configAuthorityClauseTx_Inr [OF c] r' by auto
  show "rv_accounts r' = rv_accounts r @ [budgetAccountID cd (i2_ProfileID (rv_intent r)) ''config'' (configAccountScope actor (ao_Name operation))]"
    "rv_intent r' = rv_intent r" "rv_chain r' = rv_chain r" "rv_operationKey r' = rv_operationKey r" by (simp_all add: r')
qed

lemma resolve_chain_Inr:
  assumes "resolve_chain cd ae binding actor channel op effect at approved r a = Inr (r', a')"
  shows "sound a a'" "a' = a\<lparr>as_accounts := as_accounts a'\<rparr>" "rv_chain r' \<noteq> []" "length (rv_chain r') \<le> 16"
    "\<forall>g\<in>set (rv_chain r'). in_force cd a at (sd_grant g) \<and> grant_admits (sd_grant g) op channel effect \<and> (g2_ApprovalRequired (sd_grant g) \<longrightarrow> approved)"
    "g2_SubjectPrincipalID (sd_grant (last (rv_chain r'))) = actor"
    "validateStoredAuthorityChain cd (ae_lib ae) (rv_chain r') (rv_intent r) = None"
    "rv_accounts r' = rv_accounts r @ map (grant_account cd) (rv_chain r')"
    "rv_refs r' = rv_refs r @ map (\<lambda>g. g2_GrantID (sd_grant g)) (rv_chain r')"
    "rv_intent r' = rv_intent r" "rv_operationKey r' = rv_operationKey r"
proof -
  obtain chain ps where c: "authorityChainTx cd a (eb_GrantID binding) (eb_GrantVersion binding) at = Inr chain" and ne: "chain \<noteq> []"
      and v: "validateStoredAuthorityChain cd (ae_lib ae) chain (rv_intent r) = None"
      and adm: "admit_chain cd op channel effect approved chain (r\<lparr>rv_chain := chain, rv_principalChain := ps\<rparr>, a) = Inr (r', a')"
      and last_actor: "g2_SubjectPrincipalID (sd_grant (last chain)) = actor"
    using assms by (auto simp: resolve_chain_def case_sum_Inr)
  have valid: "\<forall>g\<in>set chain. grant_Validate (sd_grant g) = None" using authorityChainTx_Inr(2) [OF c] live_valid by blast
  note m = admit_chain_Inr [OF adm valid]
  have ch: "rv_chain r' = chain" using m(7) by simp
  show "sound a a'" "a' = a\<lparr>as_accounts := as_accounts a'\<rparr>" by (fact m)+
  show "rv_chain r' \<noteq> []" "length (rv_chain r') \<le> 16" using ne authorityChainTx_Inr(1) [OF c] by (simp_all add: ch)
  show "\<forall>g\<in>set (rv_chain r'). in_force cd a at (sd_grant g) \<and> grant_admits (sd_grant g) op channel effect \<and> (g2_ApprovalRequired (sd_grant g) \<longrightarrow> approved)"
    using m(3) authorityChainTx_Inr(2) [OF c] live_in_force by (auto simp: ch)
  show "g2_SubjectPrincipalID (sd_grant (last (rv_chain r'))) = actor"
    "validateStoredAuthorityChain cd (ae_lib ae) (rv_chain r') (rv_intent r) = None" using last_actor v by (simp_all add: ch)
  show "rv_accounts r' = rv_accounts r @ map (grant_account cd) (rv_chain r')"
    "rv_refs r' = rv_refs r @ map (\<lambda>g. g2_GrantID (sd_grant g)) (rv_chain r')"
    "rv_intent r' = rv_intent r" "rv_operationKey r' = rv_operationKey r" using m(4,5,6,8) by (simp_all add: ch)
qed

lemma resolveAuthorityTx_Inr:
  assumes "resolveAuthorityTx cd ae actor channel conversation operation arguments effect at approved a = Inr (r, a')"
  shows "sound a a'" "a' = a\<lparr>as_accounts := as_accounts a'\<rparr>" "rv_operationKey r = operationKey operation"
    "resolved_within cd (ae_lib ae) actor channel operation arguments effect at approved a r"
proof -
  obtain binding intent r0 a1 r1 where i: "activeIntentTx cd a (eb_IntentID binding) (eb_IntentVersion binding) (eb_IntentDigest binding) at = Inr intent"
      and ok: "operationSubset [operation] (items (i2_Operations intent))" "effect \<in> set (items (i2_EffectClasses intent))"
        "i2_ApprovalRequired intent \<longrightarrow> approved"
      and armed: "as_activation a \<noteq> '''' \<longrightarrow> i2_ProfileID intent = as_profile a"
        "(if as_activation a = '''' then None else verifyAuthorityActivationTx cd a (as_profile a) (as_activation a)) = None"
      and r0: "rv_intent r0 = intent" "rv_chain r0 = []" "rv_refs r0 = []" "rv_operationKey r0 = operationKey operation"
        "rv_accounts r0 = [budgetAccountID cd (i2_ProfileID intent) ''intent'' (i2_IntentID intent)]"
      and e: "ensureBudgetAccountTx cd (i2_ProfileID intent) ''intent'' (i2_IntentID intent) (i2_Budget intent) a = Inr a1"
      and n: "(if eb_GrantID binding = '''' then resolve_clause cd actor channel operation r0 a1
              else resolve_chain cd ae binding actor channel operation effect at approved r0 a1) = Inr (r1, a')"
      and u: "validateAuthorityActualUse (ae_lib ae) intent (rv_chain r1) (ao_Name operation) arguments = None"
      and r: "\<exists>least. r = r1\<lparr>rv_remainingBefore := least\<rparr>"
    using assms unfolding resolveAuthorityTx_def Let_def
    by clarsimp (rule that, assumption+, simp_all, blast)
  obtain xs where a1: "a1 = a\<lparr>as_accounts := xs\<rparr>" using ensure_frame [OF e] by metis
  have s: "sound a a1" by (rule sound_ensure [OF e intent_Validate_nonneg [OF activeIntentTx_Inr(1) [OF i]]])
  obtain least where r: "r = r1\<lparr>rv_remainingBefore := least\<rparr>" using r by blast
  note base = active_in_force [OF i] ok u r0
  have "sound a1 a' \<and> a' = a1\<lparr>as_accounts := as_accounts a'\<rparr> \<and> rv_operationKey r = operationKey operation \<and>
    resolved_within cd (ae_lib ae) actor channel operation arguments effect at approved a r"
  proof (cases "eb_GrantID binding = ''''")
    case True
    then have n: "resolve_clause cd actor channel operation r0 a1 = Inr (r1, a')" using n by simp
    from resolve_clause_Inr [OF n] base armed show ?thesis by (simp add: resolved_within_def r a1)
  next
    case False
    then have n: "resolve_chain cd ae binding actor channel operation effect at approved r0 a1 = Inr (r1, a')" using n by simp
    from resolve_chain_Inr [OF n] base show ?thesis by (simp add: resolved_within_def r a1)
  qed
  then show "sound a a'" "a' = a\<lparr>as_accounts := as_accounts a'\<rparr>" "rv_operationKey r = operationKey operation"
    "resolved_within cd (ae_lib ae) actor channel operation arguments effect at approved a r"
    using s sound_trans a1 by auto
qed

section \<open>A start\<close>

lemma born_started_frame:
  "born_started cd actionID q r e a = Inr (digest, a') \<Longrightarrow> \<exists>s ds. a' = a\<lparr>as_store := s, as_decided_at := ds\<rparr>"
  by (auto simp: born_started_def Let_def)

lemma insertAuthorizationStartTx_Inr:
  assumes "insertAuthorizationStartTx cd actionID r identityDigest policyVersion policyDigest at a = Inr a'"
  shows "\<exists>record seal. a' = a\<lparr>as_starts := as_starts a @ [(actionID, record, seal)]\<rparr>"
  using assms unfolding insertAuthorizationStartTx_def by (elim andthenE) (auto simp: Let_def split: option.splits)

lemma insertAuthorizationSnapshotTx_frame:
  "insertAuthorizationSnapshotTx cd snapshot digest a = Inr a' \<Longrightarrow> \<exists>xs. a' = a\<lparr>as_snapshots := xs\<rparr>"
  by (auto simp: insertAuthorizationSnapshotTx_def)

lemma start_body_Inr:
  assumes "start_body cd ae q e a = Inr (r, a')"
  shows "sound a a'" "resolved_within cd (ae_lib ae) (ev_ActorPrincipalID e) (sq_Channel q) (sq_Operation q) (sq_Arguments q)
      (sq_EffectClass q) (sq_At q) False a r"
    "map_of (as_starts a) (ae_action_id ae) = None" "map_of (as_starts a') (ae_action_id ae) \<noteq> None"
    "\<exists>new. as_debits a' = as_debits a @ new \<and> (\<forall>d\<in>set new. bd_action_id d = ae_action_id ae) \<and>
       (\<forall>account. length (filter (\<lambda>d. bd_account_id d = account \<and> bd_operation_key d = ''*'') new) = count_list (rv_accounts r) account)"
    "\<exists>r0 a1. resolveAuthorityTx cd ae (ev_ActorPrincipalID e) (sq_Channel q) (sq_ConversationID q) (sq_Operation q) (sq_Arguments q)
       (sq_EffectClass q) (sq_At q) False a = Inr (r0, a1) \<and> rv_refs r = rv_refs r0 \<and> rv_chain r = rv_chain r0 \<and> rv_intent r = rv_intent r0"
proof -
  let ?id = "ae_action_id ae"
  obtain r0 a1 least a2 digest a3 a4 where free: "map_of (as_starts a) ?id = None"
      and resolved: "resolveAuthorityTx cd ae (ev_ActorPrincipalID e) (sq_Channel q) (sq_ConversationID q) (sq_Operation q) (sq_Arguments q)
          (sq_EffectClass q) (sq_At q) False a = Inr (r0, a1)"
      and d: "debit_all cd ?id (rv_operationKey r0) (sq_At q) (rv_accounts r0) (rv_remainingBefore r0, a1) = Inr (least, a2)"
      and r: "r = r0\<lparr>rv_remainingBefore := least\<rparr>"
      and b: "born_started cd ?id q r e a2 = Inr (digest, a3)"
      and st: "insertAuthorizationStartTx cd ?id r digest (sq_PolicyVersion q) (sq_PolicyDigest q) (sq_At q) a3 = Inr a4"
      and sn: "insertAuthorizationSnapshotTx cd (start_snapshot cd ?id q r e digest) digest a4 = Inr a'"
    using assms unfolding start_body_def Let_def by clarsimp
  note res = resolveAuthorityTx_Inr [OF resolved]
  have sp: "spends ?id (rv_accounts r0) a1 a2" using debit_all_spends [OF d] res(3) operationKey_not_star by simp
  obtain xs where a1: "a1 = a\<lparr>as_accounts := xs\<rparr>" using res(2) by metis
  obtain ds cs where a2: "a2 = a1\<lparr>as_debits := ds, as_counters := cs\<rparr>" using sp unfolding spends_def by metis
  obtain s at rc seal sns where a': "a' = a2\<lparr>as_store := s, as_decided_at := at, as_starts := as_starts a2 @ [(?id, rc, seal)], as_snapshots := sns\<rparr>"
    using born_started_frame [OF b] insertAuthorizationStartTx_Inr [OF st] insertAuthorizationSnapshotTx_frame [OF sn] by auto
  have "sound a a1" by (fact res(1))
  also have "sound a1 a2" by (rule sound_spends [OF sp])
  also have "sound a2 a'" by (rule sound_same) (simp add: same_simps a')
  finally show "sound a a'" .
  show "resolved_within cd (ae_lib ae) (ev_ActorPrincipalID e) (sq_Channel q) (sq_Operation q) (sq_Arguments q)
      (sq_EffectClass q) (sq_At q) False a r" using res(4) unfolding r resolved_within_remaining .
  show "map_of (as_starts a) ?id = None" by (fact free)
  show "map_of (as_starts a') ?id \<noteq> None" by (simp add: a' map_add_def split: option.splits)
  show "\<exists>new. as_debits a' = as_debits a @ new \<and> (\<forall>d\<in>set new. bd_action_id d = ?id) \<and>
       (\<forall>account. length (filter (\<lambda>d. bd_account_id d = account \<and> bd_operation_key d = ''*'') new) = count_list (rv_accounts r) account)"
    using sp unfolding spends_def by (simp add: a' a1 r)
  show "\<exists>r0 a1. resolveAuthorityTx cd ae (ev_ActorPrincipalID e) (sq_Channel q) (sq_ConversationID q) (sq_Operation q) (sq_Arguments q)
       (sq_EffectClass q) (sq_At q) False a = Inr (r0, a1) \<and> rv_refs r = rv_refs r0 \<and> rv_chain r = rv_chain r0 \<and> rv_intent r = rv_intent r0"
    using resolved by (intro exI [of _ r0] exI [of _ a1]) (simp add: r)
qed

lemma StartAuthorization_cases:
  assumes "StartAuthorization cd ae q a = (res, a')"
  obtains (kept) err where "res = Inl err" "a' = a"
  | (ran) resolve e r where "sq_ResolveEvidence q = Some resolve" "resolve (ae_action_id ae) = Inr e"
      "sq_ActorPrincipalID q = '''' \<or> sq_ActorPrincipalID q = ev_ActorPrincipalID e"
      "start_body cd ae q e (a\<lparr>as_lock := as_lock a + 1\<rparr>) = Inr (r, a')"
      "\<forall>x. res = Inr x \<longrightarrow> x = \<lparr>sx_ActionID = ae_action_id ae, sx_IntentID = i2_IntentID (rv_intent r), sx_AuthorityRefs = rv_refs r,
         sx_RemainingBefore = rv_remainingBefore r, sx_Evidence = e\<rparr>"
proof (cases "sq_ResolveEvidence q = None \<or> sq_ApprovalID q \<noteq> ''''")
  case True
  then show ?thesis using assms kept by (auto simp: StartAuthorization_def split: option.splits)
next
  case False
  then obtain resolve where q: "sq_ResolveEvidence q = Some resolve" "sq_ApprovalID q = ''''" by auto
  define body where "body = (\<lambda>a. andthen (resolve (ae_action_id ae)) (\<lambda>e.
              demand (sq_ActorPrincipalID q = '''' \<or> sq_ActorPrincipalID q = ev_ActorPrincipalID e) ErrIssuerMismatch (
              andthen (start_body cd ae q e a) (\<lambda>(r, a). Inr ((e, r), a)))))"
  obtain out where t: "authority_tx ae body a = (out, a')"
      and out: "res = (case out of Inl err \<Rightarrow> Inl err | Inr (e, r) \<Rightarrow> (case sq_Probe q AuthorityProbeAfterCommitBeforeReturn of
         Some err \<Rightarrow> Inl err | None \<Rightarrow> Inr \<lparr>sx_ActionID = ae_action_id ae, sx_IntentID = i2_IntentID (rv_intent r), sx_AuthorityRefs = rv_refs r,
           sx_RemainingBefore = rv_remainingBefore r, sx_Evidence = e\<rparr>))"
    using assms q by (auto simp: StartAuthorization_def body_def [symmetric] split: sum.splits prod.splits option.splits)
  from t show ?thesis
  proof (cases rule: authority_tx_cases)
    case (kept err)
    then show ?thesis using out that(1) by simp
  next
    case (ran x)
    then obtain e r where "resolve (ae_action_id ae) = Inr e" "sq_ActorPrincipalID q = '''' \<or> sq_ActorPrincipalID q = ev_ActorPrincipalID e"
        "start_body cd ae q e (a\<lparr>as_lock := as_lock a + 1\<rparr>) = Inr (r, a')" "x = (e, r)"
      by (auto simp: body_def)
    then show ?thesis using that(2) [OF q(1)] out ran(1) by (simp split: option.splits)
  qed
qed

lemma sound_start:
  assumes "StartAuthorization cd ae q a = (res, a')"
  shows "sound a a'"
  using assms by (cases rule: StartAuthorization_cases) (auto dest: start_body_Inr(1) intro: sound_lock_then)

section \<open>The contract of a door\<close>

text \<open>What every door of the store promises, whatever it is called with and however it ends; what a caller may
  conclude from it is proved once.\<close>

locale authority_door =
  fixes run :: "'x \<Rightarrow> authority_store \<Rightarrow> 'r \<times> authority_store"
  assumes door_sound: "run x a = (r, a') \<Longrightarrow> sound a a'"
begin

lemma door_snd: "sound a (snd (run x a))"
  by (rule door_sound [of x a "fst (run x a)"]) simp

lemma door_calls: "sound a (fold (\<lambda>x a. snd (run x a)) xs a)"
  by (induction xs arbitrary: a) (auto intro: sound_trans door_snd)

lemma door_budgets: "budget_inv a \<Longrightarrow> budget_inv (fold (\<lambda>x a. snd (run x a)) xs a)"
  using door_calls by (simp add: sound_def)

end

interpretation issue_door: authority_door "\<lambda>(cd, ae, g, act, reason, administrative, at). issueAuthority cd ae g act reason administrative at"
  by unfold_locales (auto intro: sound_issue)

interpretation delegate_door: authority_door "\<lambda>(cd, ae, g, act, reason, administrative, at). delegateAuthority cd ae g act reason administrative at"
  by unfold_locales (auto intro: sound_delegate)

interpretation revoke_door: authority_door "\<lambda>(cd, ae, i, act, reason, administrative, at). revokeAuthority cd ae i act reason administrative at"
  by unfold_locales (auto intro: revoke_Inr(1))

interpretation create_door: authority_door "\<lambda>(cd, ae, c, actor, at). CreateIntentV2 cd ae c actor at"
  by unfold_locales (auto intro: sound_create_intent)

interpretation activate_door: authority_door "\<lambda>(cd, ae, i, version, actor, at). ActivateIntentV2 cd ae i version actor at"
  by unfold_locales (auto intro: sound_activate_intent)

interpretation transition_door: authority_door "\<lambda>(cd, ae, i, actor, to, at). transitionIntentV2 cd ae i actor to at"
  by unfold_locales (auto intro: sound_transition_intent)

interpretation put_door: authority_door "\<lambda>(cd, ae, b). PutExecutionBinding cd ae b"
  by unfold_locales (auto intro: sound_put_binding)

interpretation bind_door: authority_door "\<lambda>(cd, ae, b, grantID, at). BindExecutionWithGrant cd ae b grantID at"
  by unfold_locales (auto intro: sound_bind)

interpretation sync_door: authority_door "\<lambda>(cd, ae, profileID, brain, clauses). SyncConfigAuthorityClauses cd ae profileID brain clauses"
  by unfold_locales (auto intro: sound_sync)

interpretation start_door: authority_door "\<lambda>(cd, ae, q). StartAuthorization cd ae q"
  by unfold_locales (auto intro: sound_start)

section \<open>Histories\<close>

text \<open>A door of the store, with the outcome it has; \<open>elsewhere\<close> is what the rest of the program does to the action
  store, the approvals, the activation and the signers. Two doors that write the budget tables are not among them: the import
  of the older grants (\<open>ImportLegacyAuthority\<close>) and \<open>StartApprovedAuthorization\<close>, neither of which is modelled.\<close>

inductive authority_step :: "codec \<Rightarrow> authority_store \<Rightarrow> authority_store \<Rightarrow> bool" for cd where
  issue: "issueAuthority cd ae g actorActionID reason administrative at a = (r, a') \<Longrightarrow> authority_step cd a a'"
| delegate: "delegateAuthority cd ae g actorActionID reason administrative at a = (r, a') \<Longrightarrow> authority_step cd a a'"
| revoke: "revokeAuthority cd ae i actorActionID reason administrative at a = (r, a') \<Longrightarrow> authority_step cd a a'"
| create_intent: "CreateIntentV2 cd ae c actor at a = (r, a') \<Longrightarrow> authority_step cd a a'"
| activate_intent: "ActivateIntentV2 cd ae i version actor at a = (r, a') \<Longrightarrow> authority_step cd a a'"
| transition_intent: "transitionIntentV2 cd ae i actor to at a = (r, a') \<Longrightarrow> authority_step cd a a'"
| put_binding: "PutExecutionBinding cd ae b a = (r, a') \<Longrightarrow> authority_step cd a a'"
| bind: "BindExecutionWithGrant cd ae b grantID at a = (s, a') \<Longrightarrow> authority_step cd a a'"
| sync: "SyncConfigAuthorityClauses cd ae profileID brain clauses a = (n, a') \<Longrightarrow> authority_step cd a a'"
| start: "StartAuthorization cd ae q a = (res, a') \<Longrightarrow> authority_step cd a a'"
| elsewhere: "authority_step cd a (a\<lparr>as_store := s, as_snapshots := sns, as_births := bs, as_birth_heads := hs, as_imports := is,
    as_signer := sg, as_contractSigner := sc, as_eventSigner := se, as_profile := p, as_activation := act\<rparr>)"

lemma step_sound: "authority_step cd a a' \<Longrightarrow> sound a a'"
proof (induction rule: authority_step.induct)
  case (elsewhere a)
  show ?case by (rule sound_same) (simp add: same_simps)
qed (simp_all add: issue_door.door_sound [of "(_, _, _, _, _, _, _)", simplified] delegate_door.door_sound [of "(_, _, _, _, _, _, _)", simplified]
    revoke_door.door_sound [of "(_, _, _, _, _, _, _)", simplified] create_door.door_sound [of "(_, _, _, _, _)", simplified]
    activate_door.door_sound [of "(_, _, _, _, _, _)", simplified] transition_door.door_sound [of "(_, _, _, _, _, _)", simplified]
    put_door.door_sound [of "(_, _, _)", simplified] bind_door.door_sound [of "(_, _, _, _, _)", simplified]
    sync_door.door_sound [of "(_, _, _, _, _)", simplified] start_door.door_sound [of "(_, _, _)", simplified])

lemma run_sound: "(authority_step cd)\<^sup>*\<^sup>* a a' \<Longrightarrow> sound a a'"
  by (induction rule: rtranclp_induct) (auto intro: step_sound sound_trans)

lemma budget_inv_fresh: "as_accounts a = [] \<Longrightarrow> as_counters a = [] \<Longrightarrow> as_debits a = [] \<Longrightarrow> budget_inv a"
  by (simp add: budget_inv_def debits_of_def units_spent_def counterTx_def)

text \<open>C5: Over every history of the strict authority that starts with empty budget tables (issues, delegations,
  revocations, intents, bindings, syncs of the configuration, starts, each with whatever faults and failed commits), the
  counter of an account and an operation is the number of debits recorded for it, and it never exceeds the limit of the
  account: its total, for the key of all operations, and the limit of one operation.\<close>

theorem budgets_never_overdrawn:
  assumes "as_accounts a = []" and "as_counters a = []" and "as_debits a = []" and "(authority_step cd)\<^sup>*\<^sup>* a a'"
    and "map_of (as_accounts a') account = Some b" and "limit_of b operation = Some m"
  shows "int (length (debits_of a' account operation)) = units_spent a' account operation \<and> units_spent a' account operation \<le> m"
  using run_sound [OF assms(4)] budget_inv_fresh [OF assms(1-3)] assms(5,6) by (simp add: sound_def budget_inv_def)

definition revoked :: "authority_store \<Rightarrow> string \<Rightarrow> bool" where
  "revoked a i \<longleftrightarrow> (\<exists>h. map_of (as_grant_heads a) i = Some h \<and> gh_status h = LifecycleRevoked)"

lemma revoked_stays: "(authority_step cd)\<^sup>*\<^sup>* a a' \<Longrightarrow> revoked a i \<Longrightarrow> revoked a' i"
  using run_sound unfolding sound_def closed_kept_def revoked_def by blast

lemma in_force_not_revoked:
  assumes "grants_keyed a" and "in_force cd a at g"
  shows "\<not> revoked a (g2_GrantID g)"
proof -
  obtain i version seal h where row: "map_of (as_grants a) (i, version) = Some (g, seal)" and h: "map_of (as_grant_heads a) i = Some h"
      "gh_status h = LifecycleActive" using assms(2) by (auto simp: in_force_def)
  have "g2_GrantID g = i" using assms(1) map_of_SomeD [OF row] by (auto simp: grants_keyed_def)
  then show ?thesis using h by (simp add: revoked_def)
qed

lemma resolved_within_lock:
  "resolved_within cd lib actor channel operation arguments effect at approved (a\<lparr>as_lock := n\<rparr>) r =
   resolved_within cd lib actor channel operation arguments effect at approved a r"
  by (simp add: resolved_within_def)

lemma chain_not_revoked:
  assumes "resolved_within cd lib actor channel operation arguments effect at approved a r" and "grants_keyed a" and "revoked a i"
  shows "i \<notin> (\<lambda>g. g2_GrantID (sd_grant g)) ` set (rv_chain r)"
proof
  assume "i \<in> (\<lambda>g. g2_GrantID (sd_grant g)) ` set (rv_chain r)"
  then obtain g where "g \<in> set (rv_chain r)" "i = g2_GrantID (sd_grant g)" by blast
  then show False using assms in_force_not_revoked [OF assms(2), of cd at "sd_grant g"] by (auto simp: resolved_within_def Let_def)
qed

text \<open>C6: A revocation that succeeds leaves the grant revoked, and no later step of any history makes it active again. A
  start that succeeds after that history has resolved its authority, and that grant is not in the chain of grants the
  resolution found, neither at its end nor as an ancestor of a delegated grant, whatever its identifier looks like. The
  references of the start are those of the resolution: the identifiers of the chain, none of which is the revoked one,
  or, where there is no chain, the one clause of the configuration in force for the actor, the tool and the channel. The
  history starts on a store whose grants are filed under their own identifiers, as every door files them.\<close>

theorem revoked_grant_authorises_nothing:
  assumes "grants_keyed a" and "revokeAuthority cd ae i actorActionID reason administrative at a = (Inr (), b)"
    and "(authority_step cd)\<^sup>*\<^sup>* b a'" and "StartAuthorization cd ae' q a' = (Inr res, a'')"
  shows "revoked b i \<and> revoked a' i \<and>
    (\<exists>r a1. resolveAuthorityTx cd ae' (ev_ActorPrincipalID (sx_Evidence res)) (sq_Channel q) (sq_ConversationID q) (sq_Operation q)
        (sq_Arguments q) (sq_EffectClass q) (sq_At q) False (a'\<lparr>as_lock := as_lock a' + 1\<rparr>) = Inr (r, a1) \<and>
      sx_AuthorityRefs res = rv_refs r \<and> i \<notin> (\<lambda>g. g2_GrantID (sd_grant g)) ` set (rv_chain r) \<and>
      (if rv_chain r = []
       then \<exists>clause. clause_in_force cd a' (i2_ProfileID (rv_intent r)) (ev_ActorPrincipalID (sx_Evidence res)) (ao_Name (sq_Operation q))
              (sq_Channel q) clause \<and> rv_refs r = [cc_ClauseID clause]
       else rv_refs r = map (\<lambda>g. g2_GrantID (sd_grant g)) (rv_chain r) \<and> i \<notin> set (rv_refs r)))"
proof -
  have b: "revoked b i" "grants_keyed b" using revoke_Inr [OF assms(2)] assms(1) by (simp_all add: revoked_def sound_def)
  have a': "revoked a' i" "grants_keyed a'" using revoked_stays [OF assms(3) b(1)] run_sound [OF assms(3)] b(2) by (simp_all add: sound_def)
  obtain resolve e r where ran: "start_body cd ae' q e (a'\<lparr>as_lock := as_lock a' + 1\<rparr>) = Inr (r, a'')"
      and res: "sx_Evidence res = e" "sx_AuthorityRefs res = rv_refs r"
    using assms(4) by (cases rule: StartAuthorization_cases) simp_all
  obtain r0 a1 where r0: "resolveAuthorityTx cd ae' (ev_ActorPrincipalID e) (sq_Channel q) (sq_ConversationID q) (sq_Operation q)
        (sq_Arguments q) (sq_EffectClass q) (sq_At q) False (a'\<lparr>as_lock := as_lock a' + 1\<rparr>) = Inr (r0, a1)" "rv_refs r = rv_refs r0"
    using start_body_Inr(6) [OF ran] by blast
  note w = resolveAuthorityTx_Inr(4) [OF r0(1), unfolded resolved_within_lock]
  have no: "i \<notin> (\<lambda>g. g2_GrantID (sd_grant g)) ` set (rv_chain r0)" by (rule chain_not_revoked [OF w a'(2,1)])
  show ?thesis using b(1) a'(1) r0 res no w
    by (intro conjI exI [of _ r0] exI [of _ a1]) (auto simp: resolved_within_def Let_def, blast?)
qed

text \<open>What one start did.\<close>

definition used_within :: "use_lib \<Rightarrow> resolvedAuthority \<Rightarrow> string \<Rightarrow> string \<Rightarrow> OperationUse \<Rightarrow> bool" where
  "used_within lib r operation arguments use \<longleftrightarrow> actual_use lib (rv_intent r) (rv_chain r) operation arguments = Inr use \<and>
     (\<forall>g\<in>set (intent_terms (rv_intent r) # map sd_grant (rv_chain r)). ValidateAuthorityUse g use (defaultAuthorityMatchers lib) = None)"

lemma validateAuthorityActualUse_None:
  assumes "validateAuthorityActualUse lib (rv_intent r) (rv_chain r) operation arguments = None"
  shows "\<exists>use. used_within lib r operation arguments use"
proof -
  obtain use where u: "actual_use lib (rv_intent r) (rv_chain r) operation arguments = Inr use"
    using assms by (auto simp: validateAuthorityActualUse_def split: sum.splits)
  let ?gs = "intent_terms (rv_intent r) # map sd_grant (rv_chain r)" and ?bad = "\<lambda>g. ValidateAuthorityUse g use (defaultAuthorityMatchers lib) \<noteq> None"
  have "List.find ?bad ?gs = None"
  proof (cases "List.find ?bad ?gs")
    case (Some g)
    then have "?bad g" unfolding find_Some_iff by metis
    then show ?thesis using assms u Some by (simp add: validateAuthorityActualUse_def del: find.simps)
  qed simp
  then have "\<not> ?bad g" if "g \<in> set ?gs" for g using that unfolding find_None_iff by blast
  then have "used_within lib r operation arguments use" unfolding used_within_def using u by simp
  then show ?thesis by blast
qed

text \<open>C4: A start that succeeds is of an actor its evidence resolves to, under an intent in force (the signature over its
  terms verifies, its signed events end in the active head, the instant is inside its window) that admits the operation and its
  effect without approval. Behind it is, under an activation of the strict mode that verifies, the one clause for the tool and
  the channel in the generation that the signed head of the actor's configuration names as current, itself signed; or a
  chain of at most sixteen grants, each in force in the same sense and admitting operation, channel and effect without
  approval, the root inside the intent, each link an attenuation, the last one held by the actor. What the arguments really
  use is within the intent and every grant. The action had not started and now has, and its debits are the only new ones:
  the total of the intent and of every grant (or of the configuration) is debited, once for each time it stands in the chain.\<close>

theorem started_inside_authority:
  assumes "StartAuthorization cd ae q a = (Inr res, a')"
  shows "\<exists>resolve r use new. sq_ResolveEvidence q = Some resolve \<and> resolve (ae_action_id ae) = Inr (sx_Evidence res) \<and>
    (sq_ActorPrincipalID q = '''' \<or> sq_ActorPrincipalID q = ev_ActorPrincipalID (sx_Evidence res)) \<and>
    sx_IntentID res = i2_IntentID (rv_intent r) \<and> sx_AuthorityRefs res = rv_refs r \<and>
    resolved_within cd (ae_lib ae) (ev_ActorPrincipalID (sx_Evidence res)) (sq_Channel q) (sq_Operation q) (sq_Arguments q)
      (sq_EffectClass q) (sq_At q) False a r \<and>
    used_within (ae_lib ae) r (ao_Name (sq_Operation q)) (sq_Arguments q) use \<and>
    map_of (as_starts a) (ae_action_id ae) = None \<and> map_of (as_starts a') (ae_action_id ae) \<noteq> None \<and>
    as_debits a' = as_debits a @ new \<and> (\<forall>d\<in>set new. bd_action_id d = ae_action_id ae) \<and>
    (\<forall>account. length (filter (\<lambda>d. bd_account_id d = account \<and> bd_operation_key d = ''*'') new) = count_list (rv_accounts r) account)"
  using assms
proof (cases rule: StartAuthorization_cases)
  case (ran resolve e r)
  have w: "resolved_within cd (ae_lib ae) (ev_ActorPrincipalID e) (sq_Channel q) (sq_Operation q) (sq_Arguments q)
      (sq_EffectClass q) (sq_At q) False a r" using start_body_Inr(2) [OF ran(4)] by (simp only: resolved_within_lock)
  then obtain use where "used_within (ae_lib ae) r (ao_Name (sq_Operation q)) (sq_Arguments q) use"
    using validateAuthorityActualUse_None unfolding resolved_within_def Let_def by blast
  moreover obtain new where "as_debits a' = as_debits a @ new" "\<forall>d\<in>set new. bd_action_id d = ae_action_id ae"
      "\<forall>account. length (filter (\<lambda>d. bd_account_id d = account \<and> bd_operation_key d = ''*'') new) = count_list (rv_accounts r) account"
    using start_body_Inr(5) [OF ran(4)] by auto
  moreover have "sx_Evidence res = e" "sx_IntentID res = i2_IntentID (rv_intent r)" "sx_AuthorityRefs res = rv_refs r" using ran(5) by simp_all
  moreover have "map_of (as_starts a) (ae_action_id ae) = None" using start_body_Inr(3) [OF ran(4)] by simp
  ultimately show ?thesis using ran(1,2,3) w start_body_Inr(4) [OF ran(4)]
    by (intro exI [of _ resolve] exI [of _ r] exI [of _ use] exI [of _ new]) simp
qed simp

section \<open>What the readers refuse and accept\<close>

lemma hex_prefix_suffix: "hex_prefix (xs @ ''zz'') = hex_prefix xs"
  by (induction xs rule: hex_prefix.induct) (auto simp: hex_value_def split: option.splits)

text \<open>The signature of an intent event is decoded without looking at the error of the decoder: text after it that is not
  hexadecimal changes nothing.\<close>

lemma event_signature_suffix:
  "VerifyIntentEventV1 cd pub (s\<lparr>sn_Signature := sn_Signature s @ ''zz''\<rparr>) = VerifyIntentEventV1 cd pub s"
  by (simp add: VerifyIntentEventV1_def hex_prefix_suffix Let_def)

text \<open>Terms longer than the parser admits can be issued, and are then refused as corrupt by every reader.\<close>

lemma oversize_grant_unreadable:
  assumes "insertGrantTx cd ae g actorActionID actor administrative reason at a = Inr a'" and "maxIntentBytes < length (grant_CanonicalBytes g)"
  shows "readGrantTx cd a' (g2_GrantID g) (g2_Version g) = Inl ErrAuthorityEvidenceCorrupt"
proof -
  have "map_of (as_grant_heads a) (g2_GrantID g) = None" "map_of (as_grants a) (g2_GrantID g, g2_Version g) = None"
    using insertGrantTx_Inr(2,3) [OF assms(1)] by simp_all
  then show ?thesis using assms by (auto simp: insertGrantTx_def Let_def readGrantTx_def ParseAuthorityGrantV2_def map_add_def)
qed

end
