(* ===== verification/Grant_Samples.thy ===== *)
theory Grant_Samples
  imports Grant_History Identity_Samples
begin

text \<open>
  A store with an active intent and two grants of one use, on which a grant is revoked, a start is run and the theorems about
  histories of the strict authority are applied.
\<close>

section \<open>The store\<close>

abbreviation start_codec :: codec where "start_codec \<equiv> id_codec sample_worker"

abbreviation start_key :: string where "start_key \<equiv> SigningKeyID seal_codec seal_pub"

definition start_op :: action_Operation where "start_op = tool_op ''echo''"

definition start_intent :: IntentContractV2 where
  "start_intent = \<lparr>i2_IntentID = ''i'', i2_SchemaVersion = 2, i2_Version = 1, i2_ProfileID = ''p'', i2_OwnerPrincipalID = ''o'',
     i2_Purpose = ''tidy'', i2_Operations = Some [start_op], i2_AllowedResources = None, i2_DeniedResources = None,
     i2_DataScope = None, i2_OutputDestinations = None, i2_EffectClasses = Some [EffectPure],
     i2_Budget = \<lparr>bu_Total = Some 1, bu_PerOperation = None\<rparr>, i2_ValidFrom = 10, i2_ExpiresAt = 200,
     i2_ApprovalRequired = False, i2_MaxDelegationDepth = 2\<rparr>"

text \<open>The grant \<open>g\<close> the execution is bound to, and a grant \<open>x\<close> of the same terms, which is revoked later.\<close>

definition grant_of :: "string \<Rightarrow> AuthorityGrantV2" where
  "grant_of i = \<lparr>g2_GrantID = i, g2_SchemaVersion = 2, g2_Version = 1, g2_ProfileID = ''p'', g2_IntentID = ''i'',
     g2_IntentVersion = 1, g2_IntentDigest = intent_Digest start_codec start_intent, g2_IssuerPrincipalID = ''o'',
     g2_SubjectPrincipalID = ''p1'', g2_ParentGrantID = '''', g2_ParentGrantVersion = 0,
     g2_Operations = [start_op], g2_Channels = [''*''], g2_AllowedResources = [], g2_DeniedResources = [], g2_AllowedData = [],
     g2_DeniedData = [], g2_OutputDestinations = [], g2_EffectClasses = [EffectPure],
     g2_EffectCeiling = EffectPure, g2_Budget = \<lparr>bu_Total = Some 1, bu_PerOperation = Some []\<rparr>, g2_ValidFrom = 10,
     g2_ExpiresAt = 200, g2_DelegationDepthRemaining = 1, g2_ApprovalRequired = False\<rparr>"

abbreviation start_grant :: AuthorityGrantV2 where "start_grant \<equiv> grant_of ''g''"

lemma json_escape_length: "length (json_escape bs) \<le> 6 * length bs"
proof (induction bs rule: json_escape.induct)
  case (1 bs)
  show ?case
  proof (cases bs)
    case (Cons b r)
    have w: "0 < rune_width bs" using Cons rune_width_pos by simp
    have a: "length (json_ascii b) \<le> 6" by (simp add: json_ascii_def)
    consider "b < 128" | "\<not> b < 128" "rune_width bs = 1" | "\<not> b < 128" "rune_width bs \<noteq> 1" by blast
    then show ?thesis
    proof cases
      case 1
      then show ?thesis using "1.IH"(1) [OF Cons] a by (simp add: Cons json_escape.simps [of "b # r"])
    next
      case 2
      then show ?thesis using "1.IH"(2) [OF Cons] by (simp add: Cons json_escape.simps [of "b # r"])
    next
      case 3
      then have "length (json_escape (drop (rune_width bs) bs)) \<le> 6 * length (drop (rune_width bs) bs)" using "1.IH"(3) [OF Cons] by simp
      moreover have "6 + 6 * length (drop (rune_width bs) bs) \<le> 6 * length bs" using w Cons by (cases "rune_width bs \<le> length bs") auto
      moreover have "length (take (rune_width bs) bs) + 6 * length (drop (rune_width bs) bs) \<le> 6 * length bs" by simp
      ultimately show ?thesis using 3 unfolding json_escape.simps [of bs] by (auto simp: Cons)
    qed
  qed (simp add: json_escape.simps)
qed

lemma json_string_length: "length (json_string s) \<le> 6 * length s + 2"
  using json_escape_length [of "map of_char s"] by (simp add: json_string_def)

lemma decimal_nat_short: "length (decimal_nat n) \<le> Suc n"
proof (induction n rule: decimal_nat.induct)
  case (1 n)
  show ?case
  proof (cases "n < 10")
    case False
    then have "length (decimal_nat (n div 10)) \<le> Suc (n div 10)" and "Suc (n div 10) \<le> n" using 1 by auto
    then show ?thesis using False by (subst decimal_nat.simps) simp
  qed (simp add: decimal_nat.simps)
qed

lemma padded_short: "length (padded w k) \<le> w + nat \<bar>k\<bar> + 2"
  using decimal_nat_short [of "nat \<bar>k\<bar>"] by (auto simp: padded_def Let_def)

lemma fraction_short: "length (fraction k) \<le> nat \<bar>k\<bar> + 12"
proof -
  have "length (dropWhile (\<lambda>c. c = CHR ''0'') (rev (padded 9 k))) \<le> length (padded 9 k)"
    by (metis length_dropWhile_le length_rev)
  then show ?thesis using padded_short [of 9 k] by (simp add: fraction_def)
qed

lemma first_day: "civil 0 = (1, 1, 1)"
  by code_simp

lemma early_times:
  assumes "0 < t" and "t < 1000"
  shows "length (timeTerm t) \<le> nat t + 60"
proof -
  have "t div 86400000000000 = 0" "t mod 86400000000000 = t" "t div 1000000000 = 0" "t mod 1000000000 = t" using assms by simp_all
  then have "timeTerm t = padded 4 1 @ ''-'' @ padded 2 1 @ ''-'' @ padded 2 1 @ ''T'' @ padded 2 0 @ '':'' @ padded 2 0 @ '':'' @ padded 2 0 @
      fraction t @ ''Z''" using assms(1) by (simp add: timeTerm_def IsZero_def rfc3339nano_def first_day)
  then show ?thesis using padded_short [of 4 1] padded_short [of 2 1] padded_short [of 2 0] fraction_short [of t] assms by simp
qed

lemma decimal_short: "0 \<le> k \<Longrightarrow> length (decimal k) \<le> nat k + 1"
  using decimal_nat_short [of "nat k"] by (simp add: decimal_def)

lemma join_short: "\<forall>x\<in>set xs. length x \<le> n \<Longrightarrow> length (strings_Join xs [c]) \<le> length xs * Suc n"
  by (induction xs "[c]" rule: strings_Join.induct) auto

lemma json_object_short:
  assumes "\<forall>(k, v)\<in>set fs. length k \<le> 30 \<and> length v \<le> n" and "m = 2 + length fs * (184 + n)"
  shows "length (json_object fs) \<le> m"
proof -
  have "\<forall>x\<in>set (map (\<lambda>(k, v). json_string k @ '':'' @ v) fs). length x \<le> n + 183"
  proof
    fix x assume "x \<in> set (map (\<lambda>(k, v). json_string k @ '':'' @ v) fs)"
    then obtain k v where x: "x = json_string k @ '':'' @ v" "(k, v) \<in> set fs" by auto
    then have "length k \<le> 30" "length v \<le> n" using assms(1) by auto
    then show "length x \<le> n + 183" using x(1) json_string_length [of k] by simp
  qed
  from join_short [OF this, of "CHR '',''"] show ?thesis using assms(2) by (simp add: json_object_def)
qed

lemma sort_by_single: "sort_by lt [x] = [x]" "sort_by lt [] = []"
  by (simp_all add: sort_by_def)

lemma json_array_single: "json_array [x] = ''['' @ x @ '']''" "json_array [] = ''[]''"
  by (simp_all add: json_array_def)

lemma json_object_nil: "json_object [] = ''{}''"
  by (simp add: json_object_def)

lemmas text_short = json_string_length [THEN order_trans] decimal_short [THEN order_trans]

lemma start_op_short: "length (operation_json start_op) \<le> 1000"
  unfolding operation_json_def
  by (rule order_trans [OF json_object_short [where n = 100, OF _ refl]])
    (auto simp: start_op_def tool_op_def intro!: text_short)

lemma start_budget_short: "length (budget_json \<lparr>bu_Total = Some 1, bu_PerOperation = None\<rparr>) \<le> 1000"
    "length (budget_json \<lparr>bu_Total = Some 1, bu_PerOperation = Some []\<rparr>) \<le> 1000"
  unfolding budget_json_def
  by (rule order_trans [OF json_object_short [where n = 100, OF _ refl]],
      auto simp: sort_by_single json_object_nil intro!: text_short)+

lemma start_approval_short: "length (approval_json False) \<le> 300"
  unfolding approval_json_def
  by (rule order_trans [OF json_object_short [where n = 10, OF _ refl]]) (auto simp: json_bool_def)

lemma start_time_short: "length (json_string (timeTerm 10)) \<le> 2000" "length (json_string (timeTerm 200)) \<le> 2000"
  using json_string_length [of "timeTerm 10"] json_string_length [of "timeTerm 200"] early_times [of 10] early_times [of 200] by simp_all

lemma flat_hash: "length (cd_sha256 start_codec s) = 64" "intent_Digest start_codec c \<noteq> ''''" "grant_Digest start_codec g \<noteq> ''''"
  "length (intent_Digest start_codec c) = 71"
  by (simp_all add: id_codec_def seal_codec_def flat_codec_def intent_Digest_def grant_Digest_def digestAuthorityBytes_def)

lemma start_intent_short: "length (intent_CanonicalBytes start_intent) \<le> maxIntentBytes"
  unfolding intent_CanonicalBytes_def
proof (rule order_trans [OF json_object_short [where n = 3600, OF _ refl]])
  show "\<forall>(k, v)\<in>set [(''intent_id'', json_string (i2_IntentID start_intent)), (''schema_version'', ''2''), (''version'', decimal (i2_Version start_intent)),
      (''profile_id'', json_string (i2_ProfileID start_intent)), (''owner_principal_id'', json_string (i2_OwnerPrincipalID start_intent)),
      (''purpose'', json_string (i2_Purpose start_intent)),
      (''operations'', json_slice operation_json (map_option (sort_by operation_less) (i2_Operations start_intent))),
      (''allowed_resources'', json_slice resource_json (map_option (sort_by resource_less) (i2_AllowedResources start_intent))),
      (''denied_resources'', json_slice resource_json (map_option (sort_by resource_less) (i2_DeniedResources start_intent))),
      (''data_scope'', json_slice json_string (map_option sortedSet (i2_DataScope start_intent))),
      (''output_destinations'', json_slice json_string (map_option sortedSet (i2_OutputDestinations start_intent))),
      (''effect_classes'', json_slice effect_json (map_option (sort_by effect_less) (i2_EffectClasses start_intent))),
      (''budget'', budget_json (i2_Budget start_intent)),
      (''valid_from'', json_string (timeTerm (i2_ValidFrom start_intent))), (''expires_at'', json_string (timeTerm (i2_ExpiresAt start_intent))),
      (''approval'', approval_json (i2_ApprovalRequired start_intent)), (''max_delegation_depth'', decimal (i2_MaxDelegationDepth start_intent))].
     length k \<le> 30 \<and> length v \<le> 3600"
    using start_op_short start_budget_short start_approval_short start_time_short decimal_short [of 1] decimal_short [of 2]
    by (auto simp: start_intent_def json_slice_def json_array_single sort_by_single effect_json_def EffectClass_string_def
        intro!: json_string_length [THEN order_trans])
qed (simp add: maxIntentBytes_def)

lemma start_grant_short: "i \<in> {''g'', ''x''} \<Longrightarrow> length (grant_CanonicalBytes (grant_of i)) \<le> maxIntentBytes"
  unfolding grant_CanonicalBytes_def
  apply (rule order_trans [OF json_object_short [where n = 2400, OF _ refl]])
  using start_op_short start_budget_short start_approval_short start_time_short decimal_short [of 1] decimal_short [of 0] flat_hash(4) [of start_intent]
   apply (auto simp: grant_of_def json_strings_def sortedSet_def json_array_single sort_by_single effect_json_def EffectClass_string_def
        intro!: json_string_length [THEN order_trans])[1]
  apply (simp add: maxIntentBytes_def)
  done

text \<open>Every seal has the digest of its text and the signature the codec accepts.\<close>

definition start_seal :: "string \<Rightarrow> AuthoritySignature" where
  "start_seal text = \<lparr>sg2_Digest = digestAuthorityBytes start_codec text, sg2_SigningKeyID = start_key, sg2_Signature = ''00''\<rparr>"

definition start_event :: "int \<Rightarrow> LifecycleStatus \<Rightarrow> LifecycleStatus \<Rightarrow> string \<Rightarrow> SignedIntentEventV1" where
  "start_event revision from to previous =
     (let e = \<lparr>nv_EventID = ''e'' @ decimal revision, nv_IntentID = ''i'', nv_Version = 1, nv_Revision = revision, nv_From = from, nv_To = to,
          nv_ActorPrincipalID = ''o'', nv_EvidenceDigest = '''', nv_OccurredAt = 10, nv_PreviousEventDigest = previous\<rparr> in
      \<lparr>sn_Event = e, sn_Digest = ''sha256:'' @ cd_sha256 start_codec (intentEvent_canonicalBytes e), sn_SigningKeyID = start_key, sn_Signature = ''00''\<rparr>)"

definition start_drafted :: SignedIntentEventV1 where "start_drafted = start_event 1 no_status LifecycleDraft ''''"

definition start_activated :: SignedIntentEventV1 where
  "start_activated = start_event 2 LifecycleDraft LifecycleActive (sn_Digest start_drafted)"

definition issued_text :: "string \<Rightarrow> string \<Rightarrow> string" where
  "issued_text i act = canonicalGrantEvent i 1 1 no_status LifecycleActive act ''o'' False '''' 10 ''''"

definition issued :: "string \<Rightarrow> string \<Rightarrow> string \<Rightarrow> grant_event_row" where
  "issued i ev act = \<lparr>ge_event_id = ev, ge_grant_id = i, ge_grant_version = 1, ge_revision = 1, ge_from = no_status, ge_to = LifecycleActive,
     ge_actor_action_id = act, ge_actor = ''o'', ge_administrative = False, ge_reason = '''', ge_occurred_at = 10, ge_previous = '''',
     ge_canonical = issued_text i act, ge_seal = start_seal (issued_text i act)\<rparr>"

definition head_of :: "string \<Rightarrow> string \<Rightarrow> grant_head" where
  "head_of i act = \<lparr>gh_active_version = 1, gh_revision = 1, gh_last_event_digest = sg2_Digest (start_seal (issued_text i act)),
     gh_status = LifecycleActive\<rparr>"

abbreviation start_issued :: grant_event_row where "start_issued \<equiv> issued ''g'' ''ge1'' ''act_1''"
abbreviation start_head :: grant_head where "start_head \<equiv> head_of ''g'' ''act_1''"

definition start_binding :: ExecutionBinding where
  "start_binding = \<lparr>eb_BindingID = ''b'', eb_ActorPrincipalID = ''p1'', eb_Channel = ''telegram'', eb_ConversationID = '''', eb_IntentID = ''i'',
     eb_IntentVersion = 1, eb_IntentDigest = intent_Digest start_codec start_intent, eb_GrantID = ''g'', eb_GrantVersion = 1,
     eb_GrantDigest = grant_Digest start_codec start_grant, eb_Revision = 1, eb_Status = BindingActive\<rparr>"

definition start_store :: authority_store where
  "start_store = \<lparr>as_store = id_store sample_worker, as_decided_at = [],
     as_intents = [((''i'', 1), \<lparr>iv_terms = start_intent, iv_digest = intent_Digest start_codec start_intent, iv_signing_key_id = start_key,
       iv_signature = ''00''\<rparr>)],
     as_intent_events = [start_drafted, start_activated],
     as_intent_heads = [(''i'', \<lparr>ih_ActiveVersion = 1, ih_Revision = 2, ih_LastEventDigest = sn_Digest start_activated, ih_Status = LifecycleActive\<rparr>)],
     as_bindings = [start_binding], as_grants = [((''g'', 1), start_grant, start_seal (grant_CanonicalBytes start_grant)),
       ((''x'', 1), grant_of ''x'', start_seal (grant_CanonicalBytes (grant_of ''x'')))],
     as_grant_events = [start_issued, issued ''x'' ''ge0'' ''act_0''],
     as_grant_heads = [(''g'', start_head), (''x'', head_of ''x'' ''act_0'')],
     as_accounts = [], as_counters = [], as_debits = [], as_starts = [], as_snapshots = [], as_births = [], as_birth_heads = [], as_clauses = [],
     as_config_heads = [], as_imports = [], as_lock = 0, as_signer = Some (\<lambda>domain. start_seal), as_contractSigner = None,
     as_eventSigner = None, as_profile = '''', as_activation = ''''\<rparr>"

definition start_env :: authority_env where
  "start_env = \<lparr>ae_sv = quiet_env, ae_lib = sample_use_lib, ae_busy = (\<lambda>_. False), ae_attempts = [], ae_statement = None, ae_commit = None,
     ae_action_id = ''act_9'', ae_event_id = ''ge2''\<rparr>"

definition start_request :: AuthorityStartRequest where
  "start_request = \<lparr>sq_ActorPrincipalID = ''p1'', sq_CorrelationID = ''m1'', sq_SourceProtocol = '''', sq_Channel = ''telegram'',
     sq_ConversationID = '''', sq_Operation = start_op, sq_Arguments = ''{}'', sq_EffectClass = EffectPure, sq_At = 120, sq_ApprovalID = '''',
     sq_PolicyVersion = 1, sq_PolicyDigest = ''d'', sq_ResolveEvidence = Some (\<lambda>_. Inr worker_evidence), sq_Probe = (\<lambda>_. None)\<rparr>"

section \<open>Reading it\<close>

text \<open>A store that reads like the sample: its budgets, its lock, the clauses of its configuration and what became of the
  grant \<open>x\<close> may differ.\<close>

definition start_like :: "authority_store \<Rightarrow> bool" where
  "start_like a \<longleftrightarrow> as_store a = id_store sample_worker \<and> as_intents a = as_intents start_store \<and>
     as_intent_events a = as_intent_events start_store \<and> as_intent_heads a = as_intent_heads start_store \<and>
     as_grants a = as_grants start_store \<and>
     (\<exists>es. as_grant_events a = as_grant_events start_store @ es \<and> (\<forall>e\<in>set es. ge_grant_id e = ''x'')) \<and>
     (\<exists>h. as_grant_heads a = [(''g'', start_head), (''x'', h)]) \<and> as_bindings a = as_bindings start_store \<and>
     as_signer a = Some (\<lambda>domain. start_seal) \<and> as_activation a = '''' \<and> as_starts a = [] \<and> as_snapshots a = [] \<and> as_decided_at a = []"

lemma start_like_simps:
  assumes "start_like a"
  shows "as_store a = id_store sample_worker" "as_intents a = as_intents start_store" "as_intent_events a = as_intent_events start_store"
    "as_intent_heads a = as_intent_heads start_store" "as_grants a = as_grants start_store" "as_bindings a = as_bindings start_store" "as_signer a = Some (\<lambda>domain. start_seal)"
    "as_activation a = ''''" "as_starts a = []" "as_snapshots a = []" "as_decided_at a = []"
  using assms by (simp_all add: start_like_def)

lemma start_like_update [simp]:
  "start_like (a\<lparr>as_lock := n\<rparr>) = start_like a" "start_like (a\<lparr>as_accounts := xs\<rparr>) = start_like a"
  "start_like (a\<lparr>as_counters := cs\<rparr>) = start_like a" "start_like (a\<lparr>as_debits := ds\<rparr>) = start_like a" "start_like start_store"
  by (simp_all add: start_like_def) (simp add: start_store_def)

lemma start_verifies: "VerifyAuthorityBytes start_codec seal_pub domain text (start_seal text) = None"
  using id_verify by (simp add: VerifyAuthorityBytes_def start_seal_def id_codec_key)

lemma start_signs_keys:
  assumes "as_signer a = Some (\<lambda>domain. start_seal)" and "sr_keys (as_store a) = sr_keys (id_store sample_worker)"
  shows "signAuthorityTx start_codec domain text a = Inr (start_seal text)"
proof -
  have "sg2_SigningKeyID (start_seal text) = start_key" by (simp add: start_seal_def)
  then show ?thesis using start_verifies id_store_key [of sample_worker] publicKeyTx_cong [OF assms(2)] assms(1)
    by (simp add: signAuthorityTx_def Let_def del: andthen_Inr)
qed

lemma start_signs: "start_like a \<Longrightarrow> signAuthorityTx start_codec domain text a = Inr (start_seal text)"
  by (simp add: start_signs_keys start_like_simps)

lemma start_event_ok: "VerifyIntentEventV1 start_codec seal_pub (start_event revision from to previous) = None"
proof -
  have "hex_prefix ''00'' = [byte 0]" by (simp add: hex_value_def)
  then show ?thesis by (simp add: VerifyIntentEventV1_def start_event_def Let_def id_codec_key) (simp add: id_codec_def)
qed

lemma start_fields:
  "as_intents start_store = [((''i'', 1), \<lparr>iv_terms = start_intent, iv_digest = intent_Digest start_codec start_intent, iv_signing_key_id = start_key,
       iv_signature = ''00''\<rparr>)]"
  "as_intent_events start_store = [start_drafted, start_activated]"
  "as_intent_heads start_store = [(''i'', \<lparr>ih_ActiveVersion = 1, ih_Revision = 2, ih_LastEventDigest = sn_Digest start_activated, ih_Status = LifecycleActive\<rparr>)]"
  "as_bindings start_store = [start_binding]" "as_grants start_store = [((''g'', 1), start_grant, start_seal (grant_CanonicalBytes start_grant)),
     ((''x'', 1), grant_of ''x'', start_seal (grant_CanonicalBytes (grant_of ''x'')))]"
  "as_grant_events start_store = [start_issued, issued ''x'' ''ge0'' ''act_0'']"
  "as_grant_heads start_store = [(''g'', start_head), (''x'', head_of ''x'' ''act_0'')]"
  by (simp_all add: start_store_def)

lemma start_like_grant:
  assumes "start_like a"
  shows "grant_history a ''g'' = [start_issued]" "map_of (as_grant_heads a) ''g'' = Some start_head"
    "grantOriginActorTx a ''g'' 1 = Inr (''o'', False)"
proof -
  obtain es h where es: "as_grant_events a = as_grant_events start_store @ es" "\<forall>e\<in>set es. ge_grant_id e = ''x''"
      and h: "as_grant_heads a = [(''g'', start_head), (''x'', h)]"
    using assms unfolding start_like_def by blast
  have "filter (\<lambda>e. ge_grant_id e = ''g'') es = []" using es(2) by (simp add: filter_empty_conv)
  then show "grant_history a ''g'' = [start_issued]" by (simp add: grant_history_def es(1) start_fields issued_def sort_by_single)
  show "map_of (as_grant_heads a) ''g'' = Some start_head" by (simp add: h)
  show "grantOriginActorTx a ''g'' 1 = Inr (''o'', False)" by (simp add: grantOriginActorTx_def es(1) start_fields issued_def)
qed

lemma start_intent_valid: "intent_Validate start_intent = None"
  by (simp add: intent_Validate_def start_intent_def maxIntentPurpose_def maxIntentSetEntries_def IsZero_def validateIntentSets_def Let_def
      start_op_def tool_op_def intent_member_def Known_def effectRanks_def)

lemma start_grant_valid: "i \<in> {''g'', ''x''} \<Longrightarrow> grant_Validate (grant_of i) = None"
  using flat_hash(2)
  by (auto simp: grant_Validate_def grant_of_def maxAuthorityDepth_def maxIntentSetEntries_def Let_def IsZero_def grant_members_def grant_member_def
      grant_string_def start_op_def tool_op_def Known_def effectRanks_def)

lemma start_history:
  assumes "start_like a"
  shows "verifyIntentHistoryOn start_codec a ''i'' \<lparr>ih_ActiveVersion = 1, ih_Revision = 2, ih_LastEventDigest = sn_Digest start_activated, ih_Status = LifecycleActive\<rparr> = None"
proof -
  have key: "publicKeyTx (id_store sample_worker) start_key = Inr (seal_pub, False)" by (rule id_store_key)
  have f: "nv_IntentID (sn_Event start_drafted) = ''i''" "nv_IntentID (sn_Event start_activated) = ''i''"
    "sn_SigningKeyID start_drafted = start_key" "sn_SigningKeyID start_activated = start_key"
    "nv_Revision (sn_Event start_drafted) = 1" "nv_Revision (sn_Event start_activated) = 2"
    "nv_PreviousEventDigest (sn_Event start_drafted) = ''''" "nv_PreviousEventDigest (sn_Event start_activated) = sn_Digest start_drafted"
    "nv_From (sn_Event start_drafted) = no_status" "nv_From (sn_Event start_activated) = LifecycleDraft"
    "nv_To (sn_Event start_drafted) = LifecycleDraft" "nv_To (sn_Event start_activated) = LifecycleActive"
    by (simp_all add: start_drafted_def start_activated_def start_event_def Let_def)
  have same: "g\<lparr>sn_Event := (sn_Event g)\<lparr>nv_IntentID := ''i''\<rparr>\<rparr> = g" if "nv_IntentID (sn_Event g) = ''i''" for g :: SignedIntentEventV1
    using that by simp
  have v: "VerifyIntentEventV1 start_codec seal_pub (start_drafted\<lparr>sn_Event := (sn_Event start_drafted)\<lparr>nv_IntentID := ''i''\<rparr>\<rparr>) = None"
    "VerifyIntentEventV1 start_codec seal_pub (start_activated\<lparr>sn_Event := (sn_Event start_activated)\<lparr>nv_IntentID := ''i''\<rparr>\<rparr>) = None"
    unfolding same [OF f(1)] same [OF f(2)] unfolding start_drafted_def start_activated_def by (rule start_event_ok)+
  have h: "intent_history a ''i'' = [start_drafted, start_activated]"
    using f by (simp add: intent_history_def start_like_simps [OF assms] start_fields id_store_def sort_by_def)
  have "intent_link start_codec (id_store sample_worker) ''i'' start_drafted (0, '''', no_status) = Inr (1, sn_Digest start_drafted, LifecycleDraft)"
    using f key v(1) by (simp add: intent_link_def Let_def)
  moreover have "intent_link start_codec (id_store sample_worker) ''i'' start_activated (1, sn_Digest start_drafted, LifecycleDraft) =
      Inr (2, sn_Digest start_activated, LifecycleActive)"
    using f key v(2)
    by (simp add: intent_link_def Let_def IntentV2LifecycleTransition_def LifecycleTransition_def lifecycleTransitions_def)
  ultimately show ?thesis by (simp add: verifyIntentHistoryOn_def h start_like_simps [OF assms])
qed

lemma start_active:
  assumes "start_like a"
  shows "activeIntentTx start_codec a ''i'' 1 (intent_Digest start_codec start_intent) 120 = Inr start_intent"
proof -
  have parse: "ParseIntentContractV2 start_intent = Inr start_intent"
    using start_intent_valid start_intent_short by (simp add: ParseIntentContractV2_def)
  have verify: "verify_terms start_codec a start_intent (intent_Digest start_codec start_intent)
      \<lparr>iv_terms = start_intent, iv_digest = intent_Digest start_codec start_intent, iv_signing_key_id = start_key, iv_signature = ''00''\<rparr> = None"
    using id_store_key [of sample_worker] id_verify start_intent_valid
    by (simp add: verify_terms_def start_like_simps [OF assms] VerifyIntentContractV2_def id_codec_key)
  have "start_key \<noteq> ''''" by (simp add: SigningKeyID_def)
  moreover have "i2_ValidFrom start_intent = 10" "i2_ExpiresAt start_intent = 200" by (simp_all add: start_intent_def)
  ultimately show ?thesis
    using parse verify start_history [OF assms]
    by (simp add: activeIntentTx_def readIntentTermsTx_def intentHeadTx_def lifecycle_refusal_def start_like_simps [OF assms] start_fields
        del: andthen_Inr unless_error_Inr)
qed

definition stored_of :: "string \<Rightarrow> string \<Rightarrow> storedGrantV2" where
  "stored_of i act = \<lparr>sd_grant = grant_of i, sd_seal = start_seal (grant_CanonicalBytes (grant_of i)), sd_status = LifecycleActive, sd_revision = 1,
     sd_lastEventDigest = sg2_Digest (start_seal (issued_text i act))\<rparr>"

abbreviation start_stored :: storedGrantV2 where "start_stored \<equiv> stored_of ''g'' ''act_1''"

lemma grant_read:
  assumes "i \<in> {''g'', ''x''}" and "sr_keys (as_store a) = sr_keys (id_store sample_worker)"
    and "map_of (as_grants a) (i, 1) = Some (grant_of i, start_seal (grant_CanonicalBytes (grant_of i)))"
    and "map_of (as_grant_heads a) i = Some (head_of i act)" and "grant_history a i = [issued i ev act]"
  shows "readGrantTx start_codec a i 1 = Inr (stored_of i act)"
proof -
  have k: "sg2_SigningKeyID (start_seal t) = start_key" for t by (simp add: start_seal_def)
  have key: "publicKeyTx (as_store a) start_key = Inr (seal_pub, False)" using id_store_key publicKeyTx_cong [OF assms(2)] by simp
  have parse: "ParseAuthorityGrantV2 (grant_of i) = Inr (grant_of i)"
    using start_grant_valid [OF assms(1)] start_grant_short [OF assms(1)] by (simp add: ParseAuthorityGrantV2_def)
  have verify: "VerifyAuthorityGrantV2 start_codec seal_pub (grant_of i) (start_seal (grant_CanonicalBytes (grant_of i))) = None"
    using start_verifies start_grant_valid [OF assms(1)] by (simp add: VerifyAuthorityGrantV2_def)
  have "grant_link start_codec (as_store a) i 1 (issued i ev act) (0, '''', no_status) =
      Inr (1, sg2_Digest (start_seal (issued_text i act)), LifecycleActive)"
    using start_verifies key k by (simp add: grant_link_def issued_def issued_text_def)
  then have history: "verifyGrantHistoryTx start_codec a i 1 (head_of i act) = None"
    by (simp add: verifyGrantHistoryTx_def assms(5) head_of_def)
  show ?thesis using parse verify history key
    by (simp add: readGrantTx_def assms(3,4) k del: andthen_Inr unless_error_Inr) (simp add: head_of_def stored_of_def)
qed

lemma start_read: "start_like a \<Longrightarrow> readGrantTx start_codec a ''g'' 1 = Inr start_stored"
  by (rule grant_read) (simp_all add: start_like_grant, simp_all add: start_like_simps start_fields)

lemma start_chain:
  assumes "start_like a"
  shows "authorityChainTx start_codec a ''g'' 1 120 = Inr [start_stored]"
proof -
  have "g2_ParentGrantID start_grant = ''''" "g2_ValidFrom start_grant = 10" "g2_ExpiresAt start_grant = 200" "sd_grant start_stored = start_grant"
    "sd_status start_stored = LifecycleActive" by (simp_all add: grant_of_def stored_of_def)
  then show ?thesis using start_read [OF assms] by (simp add: authorityChainTx_def eval_nat_numeral)
qed

lemma start_root: "validateStoredAuthorityChain start_codec sample_use_lib [start_stored] start_intent = None"
proof -
  have "first_bad (root_checks start_codec sample_use_lib start_grant start_intent) = None"
    by (simp add: root_checks_def Let_def grant_of_def start_intent_def operationSubset_def effectSubset_def resourcesIncluded_def
        resourceSuperset_def)
  then have "normalizeRootAuthority start_codec sample_use_lib start_grant start_intent = Inr start_grant"
    by (simp add: normalizeRootAuthority_def) (simp add: grant_of_def)
  then show ?thesis by (simp add: validateStoredAuthorityChain_def stored_of_def)
qed

abbreviation start_account :: string where "start_account \<equiv> budgetAccountID start_codec ''p'' ''intent'' ''i''"
abbreviation grant_account1 :: string where "grant_account1 \<equiv> budgetAccountID start_codec ''p'' ''grant'' ''g''"

lemma start_accounts_differ: "start_account \<noteq> grant_account1"
  by (simp add: budgetAccountID_def HashCanonical_def CanonicalParams_def id_codec_def seal_codec_def flat_codec_def plain_codec_def)

definition start_accounts :: "(string \<times> budget_account) list" where
  "start_accounts = [(start_account, \<lparr>ba_profile_id = ''p'', ba_scope_kind = ''intent'', ba_stable_scope_id = ''i'', ba_max_total = Some 1, ba_per_operation = None\<rparr>),
     (grant_account1, \<lparr>ba_profile_id = ''p'', ba_scope_kind = ''grant'', ba_stable_scope_id = ''g'', ba_max_total = Some 1, ba_per_operation = Some []\<rparr>)]"

definition start_resolved :: resolvedAuthority where
  "start_resolved = \<lparr>rv_intent = start_intent, rv_chain = [start_stored], rv_refs = [''g''], rv_principalChain = [''o'', ''p1''],
     rv_accounts = [start_account, grant_account1], rv_operationKey = operationKey start_op, rv_configGeneration = 0, rv_remainingBefore = Some 1\<rparr>"

lemma start_use: "validateAuthorityActualUse sample_use_lib start_intent [start_stored] ''echo'' ''{}'' = None"
proof -
  obtain registry where r: "RegisterBuiltInOperationUse sample_use_lib (\<lambda>_. None) = Inr registry" and none: "registry ''echo'' = None"
    by (simp add: RegisterBuiltInOperationUse_def Register_def)
  have "Analyze registry ''echo'' ''{}'' = Inl ErrOperationUseNoAnalyzer" using none by (simp add: Analyze_def)
  then have "actual_use sample_use_lib start_intent [start_stored] ''echo'' ''{}'' = Inr no_use"
    using r by (simp add: actual_use_def restricted_terms_def intent_terms_def start_intent_def stored_of_def grant_of_def del: andthen_Inr)
  then show ?thesis
    by (simp add: validateAuthorityActualUse_def ValidateAuthorityUse_def no_use_def intent_terms_def resourcesIncluded_def stringSubset_def)
qed

section \<open>Running it\<close>

lemma fresh_counter:
  assumes "map_of (as_counters a) (account, operation) = None" and "\<forall>d\<in>set (as_debits a). bd_account_id d \<noteq> account"
  shows "verified_counter cd a account operation = Inr (0, 0, '''')"
  using assms by (auto simp: verified_counter_def counterTx_def verifyDebitTailTx_def list_ex_iff)

lemma start_resolves:
  assumes "start_like a" and "as_accounts a = []" and "as_counters a = []" and "as_debits a = []"
  shows "resolveAuthorityTx start_codec start_env ''p1'' ''telegram'' '''' start_op ''{}'' EffectPure 120 False a =
    Inr (start_resolved, a\<lparr>as_accounts := start_accounts\<rparr>)"
proof -
  let ?r = "\<lparr>rv_intent = start_intent, rv_chain = [], rv_refs = [], rv_principalChain = [], rv_accounts = [start_account],
     rv_operationKey = operationKey start_op, rv_configGeneration = 0, rv_remainingBefore = None\<rparr>"
  let ?a1 = "a\<lparr>as_accounts := [hd start_accounts]\<rparr>" and ?a2 = "a\<lparr>as_accounts := start_accounts\<rparr>"
  let ?r1 = "start_resolved\<lparr>rv_remainingBefore := None\<rparr>"
  have like: "start_like ?a1" using assms(1) by simp
  have b: "bindingAuthorityTx a ''p1'' ''telegram'' '''' = Inr start_binding"
    using flat_hash(3) by (simp add: bindingAuthorityTx_def binding_hits_def Let_def start_like_simps [OF assms(1)] start_fields start_binding_def)
  have fields: "eb_IntentID start_binding = ''i''" "eb_IntentVersion start_binding = 1" "eb_IntentDigest start_binding = intent_Digest start_codec start_intent"
    "eb_GrantID start_binding = ''g''" "eb_GrantVersion start_binding = 1" "eb_GrantDigest start_binding = grant_Digest start_codec start_grant"
    by (simp_all add: start_binding_def)
  have i: "i2_ProfileID start_intent = ''p''" "i2_IntentID start_intent = ''i''" "items (i2_Operations start_intent) = [start_op]"
    "items (i2_EffectClasses start_intent) = [EffectPure]" "\<not> i2_ApprovalRequired start_intent"
    "i2_Budget start_intent = \<lparr>bu_Total = Some 1, bu_PerOperation = None\<rparr>" by (simp_all add: start_intent_def)
  have g: "sd_grant start_stored = start_grant" "g2_GrantID start_grant = ''g''" "g2_Version start_grant = 1" "g2_ProfileID start_grant = ''p''"
    "g2_Budget start_grant = \<lparr>bu_Total = Some 1, bu_PerOperation = Some []\<rparr>" "\<not> g2_ApprovalRequired start_grant"
    "g2_SubjectPrincipalID start_grant = ''p1''" "g2_IssuerPrincipalID start_grant = ''o''" by (simp_all add: stored_of_def grant_of_def)
  have e1: "ensureBudgetAccountTx start_codec ''p'' ''intent'' ''i'' \<lparr>bu_Total = Some 1, bu_PerOperation = None\<rparr> a = Inr ?a1"
    using assms(2) by (simp add: ensureBudgetAccountTx_def Let_def start_accounts_def)
  have e2: "ensureBudgetAccountTx start_codec ''p'' ''grant'' ''g'' \<lparr>bu_Total = Some 1, bu_PerOperation = Some []\<rparr> ?a1 = Inr ?a2"
    using start_accounts_differ by (simp add: ensureBudgetAccountTx_def Let_def start_accounts_def)
  have adm: "grant_admits start_grant start_op ''telegram'' EffectPure"
    by (simp add: grant_admits_def grant_of_def operationSubset_def containsAuthorityString_def)
  have origin: "grantOriginActorTx ?a1 ''g'' 1 = Inr (''o'', False)" by (rule start_like_grant(3) [OF like])
  have c: "resolve_chain start_codec start_env start_binding ''p1'' ''telegram'' start_op EffectPure 120 False ?r ?a1 = Inr (?r1, ?a2)"
    using start_chain [OF like] start_root adm origin e2 g
    by (simp add: resolve_chain_def fields start_env_def Let_def add_principal_def start_resolved_def del: andthen_Inr)
  have rem: "remaining_all start_codec ?a2 (operationKey start_op) [start_account, grant_account1] None = Inr (Some 1)"
    using assms(3,4) start_accounts_differ fresh_counter
    by (simp add: remainingBeforeAccountTx_def start_accounts_def remaining_of_def smaller_def del: andthen_Inr)
  have "validateAuthorityActualUse sample_use_lib start_intent [start_stored] (ao_Name start_op) ''{}'' = None"
    using start_use by (simp add: start_op_def tool_op_def)
  then show ?thesis
    using b start_active [OF assms(1)] e1 c rem i
    by (simp add: resolveAuthorityTx_def fields start_like_simps [OF assms(1)] operationSubset_def Let_def del: andthen_Inr unless_error_Inr)
      (simp add: start_env_def start_resolved_def)
qed

definition start_debit :: "string \<Rightarrow> budget_debit_row" where
  "start_debit account =
     (let d = \<lparr>dr_ActionID = ''act_9'', dr_AccountID = account, dr_Operation = ''*'', dr_Sequence = 1, dr_Cumulative = 1, dr_Previous = '''', dr_At = 120\<rparr> in
      \<lparr>bd_action_id = ''act_9'', bd_account_id = account, bd_operation_key = ''*'', bd_sequence = 1, bd_previous_digest = '''', bd_cumulative_spent = 1,
       bd_canonical = d, bd_seal = start_seal (debit_json d)\<rparr>)"

definition start_counter :: "string \<Rightarrow> budget_counter_row" where
  "start_counter account =
     (let text = budget_head_json account ''*'' 1 1 (sg2_Digest (bd_seal (start_debit account))) in
      \<lparr>ct_spent = 1, ct_sequence = 1, ct_tail_digest = sg2_Digest (bd_seal (start_debit account)), ct_canonical = text, ct_seal = start_seal text\<rparr>)"

lemma start_debits:
  assumes "start_like a" and "map_of (as_counters a) (account, ''*'') = None" and "\<forall>d\<in>set (as_debits a). bd_account_id d \<noteq> account"
    and "map_of (as_accounts a) account = Some b" and "ba_max_total b = Some 1" and "items (ba_per_operation b) = []"
  shows "debitAccountTx start_codec ''act_9'' account opKey 120 a =
    Inr (Some 1, a\<lparr>as_debits := as_debits a @ [start_debit account], as_counters := as_counters a @ [((account, ''*''), start_counter account)]\<rparr>)"
proof -
  have "debit_admitted (start_debit account) a" using assms(3,4) by (auto simp: debit_admitted_def start_debit_def Let_def list_ex_iff)
  then have "appendDebitTx start_codec ''act_9'' account ''*'' 0 0 '''' 120 a =
      Inr (a\<lparr>as_debits := as_debits a @ [start_debit account], as_counters := as_counters a @ [((account, ''*''), start_counter account)]\<rparr>)"
    using start_signs [OF assms(1)] start_signs [of "a\<lparr>as_debits := ds\<rparr>" for ds] assms(1,2,4)
    by (simp add: appendDebitTx_def insert_debit_def upsertBudgetCounterTx_def upsert_counter_def start_debit_def start_counter_def Let_def del: andthen_Inr)
  then show ?thesis using fresh_counter [OF assms(2,3)] assms(4,5,6) by (simp add: debitAccountTx_def Let_def del: andthen_Inr)
qed

definition start_paid :: "authority_store \<Rightarrow> authority_store" where
  "start_paid a = a\<lparr>as_accounts := start_accounts, as_debits := [start_debit start_account, start_debit grant_account1],
     as_counters := [((start_account, ''*''), start_counter start_account), ((grant_account1, ''*''), start_counter grant_account1)]\<rparr>"

lemma start_pays:
  assumes "start_like a" and "as_counters a = []" and "as_debits a = []"
  shows "debit_all start_codec ''act_9'' opKey 120 [start_account, grant_account1] (Some 1, a\<lparr>as_accounts := start_accounts\<rparr>) =
    Inr (Some 1, start_paid a)"
proof -
  let ?a = "a\<lparr>as_accounts := start_accounts\<rparr>"
  let ?a1 = "?a\<lparr>as_debits := [start_debit start_account], as_counters := [((start_account, ''*''), start_counter start_account)]\<rparr>"
  have acc: "bd_account_id (start_debit x) = x" for x by (simp add: start_debit_def Let_def)
  have "debitAccountTx start_codec ''act_9'' start_account opKey 120 ?a = Inr (Some 1, ?a1)"
    using start_debits [of ?a start_account "snd (hd start_accounts)" opKey] assms by (simp add: start_accounts_def)
  moreover have "debitAccountTx start_codec ''act_9'' grant_account1 opKey 120 ?a1 = Inr (Some 1, start_paid a)"
    using start_debits [of ?a1 grant_account1 "snd (last start_accounts)" opKey] assms start_accounts_differ acc by (simp add: start_accounts_def start_paid_def)
  ultimately show ?thesis by (simp add: smaller_def del: andthen_Inr)
qed

lemma start_born:
  assumes "start_like a"
  shows "\<exists>s digest. born_started start_codec ''act_9'' start_request start_resolved worker_evidence a =
      Inr (digest, a\<lparr>as_store := s, as_decided_at := [(''act_9'', 120)]\<rparr>) \<and> digest \<noteq> '''' \<and>
    sr_keys s = sr_keys (id_store sample_worker) \<and>
    map_of (sr_decisions s) ''act_9'' = Some \<lparr>dc_Outcome = ''allow'', dc_Rule = ''authority'', dc_PolicyVersion = 1, dc_PolicyDigest = ''d''\<rparr>"
proof -
  let ?cd = "start_codec" and ?s = "id_store sample_worker"
  let ?g = "SignEvidence ?cd seal_pub (\<lambda>_. ''00'') worker_evidence"
  let ?env = "start_envelope ?cd ''act_9'' start_request start_resolved worker_evidence"
  have g: "sg_Evidence ?g = worker_evidence" "sg_SigningKeyID ?g = start_key" "sg_Digest ?g \<noteq> ''''"
    by (simp_all add: SignEvidence_def Let_def id_codec_key identity_hash_def)
  have env: "ac_ActionID ?env = ''act_9''" "ac_CorrelationID ?env = ''m1''" "so_Channel (ac_Source ?env) = ''telegram''"
    "pf_PrincipalID (ac_Principal ?env) = ''p1''" "pf_ResponsibleHumanID (ac_Principal ?env) = ''''"
    by (simp_all add: start_envelope_def NewEnvelope_def start_request_def worker_evidence_def)
  have w: "ac_CorrelationID worker_env = ''m1''" "so_Channel (ac_Source worker_env) = ''telegram''"
    by (simp_all add: worker_env_def sample_parked_def NewEnvelope_def)
  have v: "validateResolvedEvidenceTx ?cd ?s worker_evidence ?env 120 = None"
    using worker_valid unfolding validateResolvedEvidenceTx_def validateResolvedEvidenceAtTx_def by (simp add: env w worker_fields)
  have f: "sr_actions ?s = []" "sr_decisions ?s = []" "sr_identity ?s = []" "sr_bindings ?s = [(''b1'', worker_binding)]"
    "sr_principals ?s = [(''p1'', sample_worker)]" "map_of (sr_keys ?s) start_key \<noteq> None"
    by (simp_all add: id_store_def bare_store_def)
  have e: "ev_ActionID worker_evidence = ''act_9''" "ev_RequesterPrincipalID worker_evidence = ''p1''" "ev_ActorPrincipalID worker_evidence = ''p1''"
    "ev_ResponsiblePrincipalID worker_evidence = ''''" "ev_BindingID worker_evidence = ''b1''" "ev_BindingGeneration worker_evidence = 1"
    by (simp_all add: worker_evidence_def)
  define d where "d = \<lparr>dc_Outcome = ''allow'', dc_Rule = ''authority'', dc_PolicyVersion = (1::int), dc_PolicyDigest = ''d''\<rparr>"
  have q: "sq_At start_request = 120" "sq_PolicyVersion start_request = 1" "sq_PolicyDigest start_request = ''d''" by (simp_all add: start_request_def)
  obtain row where ins: "insert_action ?env StateAuthorized (Some ''p1'') (Some (i2_IntentID (rv_intent start_resolved))) (rv_refs start_resolved) None
      (snapshot_of ?g) d ?s = Inr (?s\<lparr>sr_actions := [(''act_9'', row)], sr_decisions := [(''act_9'', d)]\<rparr>)"
    by (simp add: insert_action_def f env)
  let ?s1 = "?s\<lparr>sr_actions := [(''act_9'', row)], sr_decisions := [(''act_9'', d)]\<rparr>"
  have "insertEvidenceTx ?g ?s1 = Inr (?s1\<lparr>sr_identity := [(ev_EvidenceID worker_evidence, ?g)]\<rparr>)"
    using f(6) by (simp add: insertEvidenceTx_def evidence_row_admitted_def principalTx_def f e g)
  then have "born_started ?cd ''act_9'' start_request start_resolved worker_evidence a =
      Inr (sg_Digest ?g, a\<lparr>as_store := ?s1\<lparr>sr_identity := [(ev_EvidenceID worker_evidence, ?g)]\<rparr>, as_decided_at := [(''act_9'', 120)]\<rparr>)"
    using v worker_signs ins
    by (simp add: born_started_def start_like_simps [OF assms] Let_def q e d_def [symmetric] del: andthen_Inr unless_error_Inr)
  then show ?thesis using g(3) unfolding d_def by fastforce
qed

lemma start_paid_simps:
  "start_like (start_paid a) = start_like a" "as_debits (start_paid a) = [start_debit start_account, start_debit grant_account1]"
  "as_accounts (start_paid a) = start_accounts"
  "as_counters (start_paid a) = [((start_account, ''*''), start_counter start_account), ((grant_account1, ''*''), start_counter grant_account1)]"
  by (simp_all add: start_paid_def)

lemma start_records:
  assumes "start_like a" and "sr_keys s = sr_keys (id_store sample_worker)"
    and "map_of (sr_decisions s) ''act_9'' = Some \<lparr>dc_Outcome = ''allow'', dc_Rule = ''authority'', dc_PolicyVersion = 1, dc_PolicyDigest = ''d''\<rparr>"
  shows "\<exists>entry. insertAuthorizationStartTx start_codec ''act_9'' r digest 1 ''d'' 120 ((start_paid a)\<lparr>as_store := s, as_decided_at := [(''act_9'', 120)]\<rparr>) =
    Inr ((start_paid a)\<lparr>as_store := s, as_decided_at := [(''act_9'', 120)], as_starts := [(''act_9'', entry, start_seal (start_json entry))]\<rparr>)"
proof -
  let ?a = "(start_paid a)\<lparr>as_store := s, as_decided_at := [(''act_9'', 120)]\<rparr>"
  have like: "start_like (start_paid a)" using assms(1) by (simp add: start_paid_simps)
  have "filter (\<lambda>d. bd_action_id d = ''act_9'') (as_debits ?a) \<noteq> []" by (simp add: start_paid_simps start_debit_def Let_def)
  moreover have "sort_by debit_less xs = [] \<longleftrightarrow> xs = []" for xs using set_insert_by by (cases xs) (auto simp: sort_by_def simp flip: set_empty)
  ultimately obtain debits where d: "debitSetDigestTx start_codec ?a ''act_9'' = Inr debits" by (simp add: debitSetDigestTx_def Let_def)
  have sign: "signAuthorityTx start_codec domain txt1 ?a = Inr (start_seal txt1)" for domain txt1
    by (rule start_signs_keys) (simp_all add: assms(2) start_like_simps [OF like])
  show ?thesis
    unfolding insertAuthorizationStartTx_def d sign andthen_simps Let_def
    by (simp add: assms(3) start_like_simps [OF like]) (rule exI, rule refl)
qed

lemma start_snaps:
  assumes "start_like a" and "sr_keys s = sr_keys (id_store sample_worker)" and "digest \<noteq> ''''"
  shows "\<exists>sns. insertAuthorizationSnapshotTx start_codec (start_snapshot start_codec ''act_9'' start_request start_resolved worker_evidence digest) digest
      (a\<lparr>as_store := s, as_decided_at := ds, as_starts := sts\<rparr>) = Inr (a\<lparr>as_store := s, as_decided_at := ds, as_starts := sts, as_snapshots := sns\<rparr>)"
proof -
  let ?sn = "start_snapshot start_codec ''act_9'' start_request start_resolved worker_evidence digest"
  have "snapshot_Validate ?sn = None" using flat_hash(2)
    by (simp add: snapshot_Validate_def start_snapshot_def start_resolved_def start_intent_def worker_evidence_def start_request_def IsZero_def)
  moreover have "au_IdentityEvidenceDigest ?sn = digest" "au_ActionID ?sn = ''act_9''" "au_IntentID ?sn = ''i''" "au_IntentVersion ?sn = 1"
    by (simp_all add: start_snapshot_def start_resolved_def start_intent_def)
  ultimately show ?thesis using assms start_signs_keys [of "a\<lparr>as_store := s, as_decided_at := ds, as_starts := sts\<rparr>"]
    by (simp add: insertAuthorizationSnapshotTx_def start_like_simps start_fields del: andthen_Inr) (rule exI, rule refl)
qed

lemma start_runs:
  assumes "start_like a" and "as_accounts a = []" and "as_counters a = []" and "as_debits a = []" and "0 \<le> as_lock a"
  shows "\<exists>res a'. StartAuthorization start_codec start_env start_request a = (Inr res, a') \<and> sx_AuthorityRefs res = [''g''] \<and>
     as_accounts a' = start_accounts \<and> as_debits a' = [start_debit start_account, start_debit grant_account1] \<and>
     as_counters a' = [((start_account, ''*''), start_counter start_account), ((grant_account1, ''*''), start_counter grant_account1)]"
proof -
  let ?a = "a\<lparr>as_lock := as_lock a + 1\<rparr>"
  have e: "as_accounts ?a = []" "as_counters ?a = []" "as_debits ?a = []" using assms(2-4) by simp_all
  have like: "start_like ?a" "start_like (start_paid ?a)" using assms(1) by (simp_all add: start_paid_simps)
  obtain s digest where b: "born_started start_codec ''act_9'' start_request start_resolved worker_evidence (start_paid ?a) =
      Inr (digest, (start_paid ?a)\<lparr>as_store := s, as_decided_at := [(''act_9'', 120)]\<rparr>)" "digest \<noteq> ''''" "sr_keys s = sr_keys (id_store sample_worker)"
      "map_of (sr_decisions s) ''act_9'' = Some \<lparr>dc_Outcome = ''allow'', dc_Rule = ''authority'', dc_PolicyVersion = 1, dc_PolicyDigest = ''d''\<rparr>"
    using start_born [OF like(2)] by blast
  obtain entry where st: "insertAuthorizationStartTx start_codec ''act_9'' start_resolved digest 1 ''d'' 120
      ((start_paid ?a)\<lparr>as_store := s, as_decided_at := [(''act_9'', 120)]\<rparr>) =
      Inr ((start_paid ?a)\<lparr>as_store := s, as_decided_at := [(''act_9'', 120)], as_starts := [(''act_9'', entry, start_seal (start_json entry))]\<rparr>)"
    using start_records [OF like(1) b(3,4)] by blast
  obtain sns where sn: "insertAuthorizationSnapshotTx start_codec (start_snapshot start_codec ''act_9'' start_request start_resolved worker_evidence digest) digest
      ((start_paid ?a)\<lparr>as_store := s, as_decided_at := [(''act_9'', 120)], as_starts := [(''act_9'', entry, start_seal (start_json entry))]\<rparr>) =
      Inr ((start_paid ?a)\<lparr>as_store := s, as_decided_at := [(''act_9'', 120)], as_starts := [(''act_9'', entry, start_seal (start_json entry))],
        as_snapshots := sns\<rparr>)"
    using start_snaps [OF like(2) b(3,2)] by blast
  have q: "sq_Channel start_request = ''telegram''" "sq_ConversationID start_request = ''''" "sq_Operation start_request = start_op"
    "sq_Arguments start_request = ''{}''" "sq_EffectClass start_request = EffectPure" "sq_At start_request = 120" "sq_PolicyVersion start_request = 1"
    "sq_PolicyDigest start_request = ''d''" "sq_Probe start_request = (\<lambda>_. None)" "sq_ResolveEvidence start_request = Some (\<lambda>_. Inr worker_evidence)"
    "sq_ActorPrincipalID start_request = ''p1''" "sq_ApprovalID start_request = ''''" "ae_action_id start_env = ''act_9''"
    "ev_ActorPrincipalID worker_evidence = ''p1''"
    by (simp_all add: start_request_def start_env_def worker_evidence_def)
  have r: "rv_operationKey start_resolved = operationKey start_op" "rv_accounts start_resolved = [start_account, grant_account1]"
    "rv_remainingBefore start_resolved = Some 1" "start_resolved\<lparr>rv_remainingBefore := Some 1\<rparr> = start_resolved" "rv_refs start_resolved = [''g'']"
    by (simp_all add: start_resolved_def)
  have body: "start_body start_codec start_env start_request worker_evidence ?a =
      Inr (start_resolved, (start_paid ?a)\<lparr>as_store := s, as_decided_at := [(''act_9'', 120)], as_starts := [(''act_9'', entry, start_seal (start_json entry))],
        as_snapshots := sns\<rparr>)"
    using start_resolves [OF like(1) e(1-3)] start_pays [OF like(1) e(2,3)] b(1) st sn
    by (simp add: start_body_def q r Let_def start_like_simps [OF like(1)] del: andthen_Inr unless_error_Inr debit_all.simps)
  have tx: "beginAuthorityWrite start_env a = Inr ?a" "ae_statement start_env = None" "ae_commit start_env = None"
    using assms(5) by (simp_all add: beginAuthorityWrite_def start_env_def)
  show ?thesis using body tx
    by (simp add: StartAuthorization_def q authority_tx_def r start_paid_simps del: andthen_Inr)
qed

lemma start_runs_first:
  "\<exists>res a'. StartAuthorization start_codec start_env start_request start_store = (Inr res, a') \<and> sx_AuthorityRefs res = [''g''] \<and>
     as_accounts a' = start_accounts \<and> as_debits a' = [start_debit start_account, start_debit grant_account1] \<and>
     as_counters a' = [((start_account, ''*''), start_counter start_account), ((grant_account1, ''*''), start_counter grant_account1)]"
  by (rule start_runs) (simp_all, simp_all add: start_store_def)

section \<open>Revoking\<close>

text \<open>The holder of the grant \<open>x\<close> gives it up: the act is recorded with signed evidence, then the door is called with it.\<close>

definition revoke_env :: action_Envelope where
  "revoke_env = worker_env\<lparr>ac_Operation := \<lparr>ao_Namespace = ''authority'', ao_Name = ''revoke'', ao_Version = 1\<rparr>,
     ac_ParametersDigest := Digest start_codec \<lparr>ao_Namespace = ''authority'', ao_Name = ''revoke'', ao_Version = 1\<rparr>
       (CanonicalAuthorityRevoke ''x'' ''left'')\<rparr>"

lemma revoke_recorded:
  obtains s row where "validateActionIdentityV2Tx start_codec s ''act_9'' 120 = Inr worker_evidence" and "map_of (sr_actions s) ''act_9'' = Some row"
    and "ar_env row = revoke_env" and "principal_column row = ''p1''" and "sr_keys s = sr_keys (id_store sample_worker)"
proof -
  let ?s = "id_store sample_worker" and ?g = "SignEvidence start_codec seal_pub (\<lambda>_. ''00'') worker_evidence"
  have g: "sg_Evidence ?g = worker_evidence" "sg_SigningKeyID ?g = start_key" by (simp_all add: SignEvidence_def Let_def id_codec_key)
  have env: "ac_ActionID revoke_env = ''act_9''" "pf_PrincipalID (ac_Principal revoke_env) = ''p1''"
    by (simp_all add: revoke_env_def worker_fields)
  have valid: "validateResolvedEvidenceTx start_codec ?s worker_evidence revoke_env 120 = None"
    using worker_valid by (simp add: validateResolvedEvidenceTx_def validateResolvedEvidenceAtTx_def revoke_env_def)
  have "\<exists>s'. insert_authenticated start_codec quiet_env revoke_env StateAuthorized [] parked_decision worker_evidence ?s = Inr s'"
    using worker_signs valid g env
    by (simp add: insert_authenticated_def quiet_env_def insert_action_def insertEvidenceTx_def evidence_row_admitted_def principalTx_def)
      (simp add: id_store_def bare_store_def worker_evidence_def)
  then obtain s' where s': "insert_authenticated start_codec quiet_env revoke_env StateAuthorized [] parked_decision worker_evidence ?s = Inr s'" by blast
  have "\<forall>pub m. \<not> cd_ed25519_Verify start_codec pub m []" by (simp add: id_codec_def)
  then have v: "validateActionIdentityV2Tx start_codec s' ''act_9'' 120 = Inr worker_evidence"
    using authenticated_validates(2) [OF s'] by (simp add: env quiet_env_def)
  obtain row where "map_of (sr_actions s') ''act_9'' = Some row" "ar_env row = revoke_env" "principal_column row = ''p1''"
    using authenticated_born(1) [OF s'] env by (auto simp: worker_evidence_def)
  then show ?thesis using that v authenticated_born(2) [OF s'] by blast
qed

lemma revoke_runs:
  assumes "validateActionIdentityV2Tx start_codec s ''act_9'' 120 = Inr worker_evidence" and "map_of (sr_actions s) ''act_9'' = Some row"
    and "ar_env row = revoke_env" and "principal_column row = ''p1''" and "sr_keys s = sr_keys (id_store sample_worker)"
  shows "\<exists>e h. ge_grant_id e = ''x'' \<and>
    revokeAuthority start_codec start_env ''x'' ''act_9'' ''left'' False 120 (start_store\<lparr>as_store := s\<rparr>) =
      (Inr (), start_store\<lparr>as_store := s, as_lock := 1, as_grant_events := as_grant_events start_store @ [e],
         as_grant_heads := [(''g'', start_head), (''x'', h)]\<rparr>)"
proof -
  let ?a = "start_store\<lparr>as_store := s, as_lock := 1\<rparr>"
  have read: "readGrantHeadTx start_codec ?a ''x'' = Inr (stored_of ''x'' ''act_0'')"
  proof -
    have "readGrantTx start_codec ?a ''x'' 1 = Inr (stored_of ''x'' ''act_0'')"
      by (rule grant_read [where ev = "''ge0''"])
        (simp_all add: assms(5) start_fields, simp add: grant_history_def start_fields issued_def sort_by_single)
    then show ?thesis by (simp add: readGrantHeadTx_def start_fields) (simp add: head_of_def)
  qed
  have used: "\<not> act_used ?a ''act_9''" by (simp add: act_used_def start_fields issued_def) (simp add: start_store_def)
  have actor: "validateAuthorityActorTx start_codec ?a ''act_9'' ''revoke'' (CanonicalAuthorityRevoke ''x'' ''left'') False 120 = Inr ''p1''"
    using assms(1-4) used by (simp add: validateAuthorityActorTx_def revoke_env_def worker_evidence_def del: andthen_Inr)
  have sign: "signAuthorityTx start_codec domain txt1 ?a = Inr (start_seal txt1)" for domain txt1
    by (rule start_signs_keys) (simp_all add: assms(5), simp add: start_store_def)
  have owned: "beginAuthorityWrite start_env (start_store\<lparr>as_store := s\<rparr>) = Inr ?a"
    by (simp add: beginAuthorityWrite_def start_env_def) (simp add: start_store_def)
  have f: "sd_grant (stored_of ''x'' ''act_0'') = grant_of ''x''" "sd_status (stored_of ''x'' ''act_0'') = LifecycleActive"
    "g2_SubjectPrincipalID (grant_of ''x'') = ''p1''" by (simp_all add: stored_of_def grant_of_def)
  have ids: "ae_event_id start_env = ''ge2''" "ae_statement start_env = None" "ae_commit start_env = None" by (simp_all add: start_env_def)
  have fresh: "''ge2'' \<notin> ge_event_id ` set (as_grant_events ?a)" "''act_9'' \<notin> ge_actor_action_id ` set (as_grant_events ?a)"
    by (simp_all add: start_fields issued_def)
  show ?thesis
    unfolding revokeAuthority_def authority_tx_def owned
    using read actor sign fresh by (simp add: f ids Let_def start_fields del: andthen_Inr) (rule exI, rule conjI [rotated], rule exI, rule refl, simp)
qed

section \<open>The theorems on it\<close>

theorem budgets_never_overdrawn_witness:
  "\<exists>a. (authority_step start_codec)\<^sup>*\<^sup>* start_store a \<and> length (debits_of a start_account ''*'') = 1 \<and>
     int (length (debits_of a start_account ''*'')) = units_spent a start_account ''*'' \<and> units_spent a start_account ''*'' \<le> 1"
proof -
  obtain res a where run: "StartAuthorization start_codec start_env start_request start_store = (Inr res, a)" and acc: "as_accounts a = start_accounts"
      and d: "as_debits a = [start_debit start_account, start_debit grant_account1]"
    using start_runs_first by blast
  have step: "(authority_step start_codec)\<^sup>*\<^sup>* start_store a" using authority_step.start [OF run] by blast
  have "int (length (debits_of a start_account ''*'')) = units_spent a start_account ''*'' \<and> units_spent a start_account ''*'' \<le> 1"
    by (rule budgets_never_overdrawn [OF _ _ _ step, where b = "snd (hd start_accounts)"])
      (simp_all add: start_store_def acc start_accounts_def limit_of_def)
  moreover have "length (debits_of a start_account ''*'') = 1"
    using start_accounts_differ by (simp add: debits_of_def d) (simp add: start_debit_def Let_def)
  ultimately show ?thesis using step by blast
qed

theorem revoked_grant_authorises_nothing_witness:
  "\<exists>a b a' res a''. \<not> revoked a ''x'' \<and> revokeAuthority start_codec start_env ''x'' ''act_9'' ''left'' False 120 a = (Inr (), b) \<and>
     (authority_step start_codec)\<^sup>*\<^sup>* b a' \<and> StartAuthorization start_codec start_env start_request a' = (Inr res, a'') \<and>
     sx_AuthorityRefs res = [''g''] \<and> revoked b ''x'' \<and> revoked a' ''x''"
proof -
  obtain s row where s: "validateActionIdentityV2Tx start_codec s ''act_9'' 120 = Inr worker_evidence" "map_of (sr_actions s) ''act_9'' = Some row"
      "ar_env row = revoke_env" "principal_column row = ''p1''" "sr_keys s = sr_keys (id_store sample_worker)"
    by (rule revoke_recorded)
  let ?a = "start_store\<lparr>as_store := s\<rparr>"
  obtain e h where e: "ge_grant_id e = ''x''" and run: "revokeAuthority start_codec start_env ''x'' ''act_9'' ''left'' False 120 ?a =
      (Inr (), ?a\<lparr>as_lock := 1, as_grant_events := as_grant_events start_store @ [e], as_grant_heads := [(''g'', start_head), (''x'', h)]\<rparr>)"
    using revoke_runs [OF s] by auto
  let ?b = "?a\<lparr>as_lock := 1, as_grant_events := as_grant_events start_store @ [e], as_grant_heads := [(''g'', start_head), (''x'', h)]\<rparr>"
  let ?c = "?b\<lparr>as_store := id_store sample_worker, as_snapshots := [], as_births := [], as_birth_heads := [], as_imports := [],
    as_signer := Some (\<lambda>domain. start_seal), as_contractSigner := None, as_eventSigner := None, as_profile := '''', as_activation := ''''\<rparr>"
  have step: "(authority_step start_codec)\<^sup>*\<^sup>* ?b ?c" by (intro r_into_rtranclp authority_step.elsewhere)
  have "start_like ?c" using e by (simp add: start_like_def) (simp add: start_store_def)
  moreover have "as_accounts ?c = []" "as_counters ?c = []" "as_debits ?c = []" "0 \<le> as_lock ?c" by (simp_all add: start_store_def)
  ultimately obtain res a' where start: "StartAuthorization start_codec start_env start_request ?c = (Inr res, a')" "sx_AuthorityRefs res = [''g'']"
    using start_runs by blast
  have keyed: "grants_keyed ?a" by (simp add: grants_keyed_def start_fields grant_of_def)
  have live: "\<not> revoked ?a ''x''" by (simp add: revoked_def start_fields head_of_def)
  have "revoked ?b ''x'' \<and> revoked ?c ''x''"
    using revoked_grant_authorises_nothing [OF keyed run step start(1)] by blast
  with live run step start show ?thesis by blast
qed

theorem started_inside_authority_witness:
  "\<exists>res a new. StartAuthorization start_codec start_env start_request start_store = (Inr res, a) \<and> as_debits a = as_debits start_store @ new \<and>
     (\<forall>d\<in>set new. bd_action_id d = ''act_9'') \<and> map_of (as_starts a) ''act_9'' \<noteq> None"
proof -
  obtain res a where run: "StartAuthorization start_codec start_env start_request start_store = (Inr res, a)" using start_runs_first by blast
  have "ae_action_id start_env = ''act_9''" by (simp add: start_env_def)
  then show ?thesis using started_inside_authority [OF run] run by auto
qed

end
