(* ===== verification/Store_Outcomes.thy ===== *)
theory Store_Outcomes
  imports Store_Samples
begin

text \<open>
  How an action of the store (\<open>internal/action/sqlite\<close>) comes to an outcome: what each operation does to the
  states of the rows, recovery after a crash and the expiry sweep included, and the prefix of a history in which an action
  with an outcome was authorised.
\<close>

section \<open>What an operation does to the states\<close>

text \<open>Every row after comes from a row before of the same envelope, by a move of its state in \<open>R\<close>.\<close>

definition state_moves :: "(State \<Rightarrow> State \<Rightarrow> bool) \<Rightarrow> Store \<Rightarrow> Store \<Rightarrow> bool" where
  "state_moves R s s' \<longleftrightarrow> (\<forall>i row'. map_of (sr_actions s') i = Some row' \<longrightarrow>
     (\<exists>row. map_of (sr_actions s) i = Some row \<and> ar_env row' = ar_env row \<and> R (ar_state row) (ar_state row')))"

text \<open>The moves of the sweep, and those of recovery.\<close>

definition sweeps :: "State \<Rightarrow> State \<Rightarrow> bool" where
  "sweeps u t \<longleftrightarrow> t = u \<or> u = StatePendingApproval \<and> t = StateRejected"

definition settled_states :: "State set" where
  "settled_states = {StateDenied, StateShadowed, StateSucceeded, StateFailed, StateRejected, StatePendingApproval, StateApproved,
     StateOutcomeUnknown, StateAuthorized}"

definition recovers :: "State \<Rightarrow> State \<Rightarrow> bool" where
  "recovers u t \<longleftrightarrow> t = u \<or> u \<in> {StateApproved, StateAuthorized} \<and> t = StateOutcomeUnknown \<or> u \<notin> settled_states \<and> t = StateFailed"

text \<open>One move of an operation.\<close>

definition state_step :: "State \<Rightarrow> State \<Rightarrow> bool" where
  "state_step u t \<longleftrightarrow> t = u \<or> Transition u t = None \<or> u \<notin> settled_states \<and> t = StateFailed"

lemma state_step_of:
  "sweeps u t \<Longrightarrow> state_step u t" "recovers u t \<Longrightarrow> state_step u t" "Transition u t = None \<Longrightarrow> state_step u t" "state_step u u"
  by (auto simp: sweeps_def recovers_def state_step_def Transition_def transitions_def)

lemma state_moves_mono: "(\<And>u t. R u t \<Longrightarrow> Q u t) \<Longrightarrow> state_moves R s s' \<Longrightarrow> state_moves Q s s'"
  unfolding state_moves_def by blast

text \<open>What is shared by the moves of a loop over rows.\<close>

locale row_moves =
  fixes R :: "State \<Rightarrow> State \<Rightarrow> bool"
  assumes stays: "R u u" and follows: "R u v \<Longrightarrow> R v t \<Longrightarrow> R u t"
begin

lemma same: "sr_actions s' = sr_actions s \<Longrightarrow> state_moves R s s'"
  using stays by (simp add: state_moves_def)

lemma twice:
  assumes "state_moves R s s'" and "state_moves R s' s''"
  shows "state_moves R s s''"
  unfolding state_moves_def
proof (intro allI impI)
  fix i row'' assume "map_of (sr_actions s'') i = Some row''"
  then obtain row' where r': "map_of (sr_actions s') i = Some row'" "ar_env row'' = ar_env row'" "R (ar_state row') (ar_state row'')"
    using assms(2) unfolding state_moves_def by blast
  then obtain row where "map_of (sr_actions s) i = Some row" "ar_env row' = ar_env row" "R (ar_state row) (ar_state row')"
    using assms(1) unfolding state_moves_def by blast
  then show "\<exists>row. map_of (sr_actions s) i = Some row \<and> ar_env row'' = ar_env row \<and> R (ar_state row) (ar_state row'')"
    using r' follows by auto
qed

end

interpretation sweeping: row_moves sweeps
  by unfold_locales (auto simp: sweeps_def)

interpretation recovering: row_moves recovers
  by unfold_locales (auto simp: recovers_def settled_states_def)

lemma append_receipt_actions: "append_receipt cd r s = Inr s' \<Longrightarrow> sr_actions s' = sr_actions s"
  by (auto simp: append_receipt_def split: sum.splits)

lemma tombstoneTx_actions: "tombstoneTx cd a decider decision at s = Inr s' \<Longrightarrow> sr_actions s' = sr_actions s"
  by (auto simp: tombstoneTx_def Let_def split: option.splits if_splits)

lemma sweeping_reject: "rejectParkedActionTx cd sv b at s = Inr s' \<Longrightarrow> state_moves sweeps s s'"
  by (drule rejectParkedActionTx_Inr(2)) (auto simp: state_moves_def sweeps_def split: if_splits)

lemma sweeping_one: "sweepExpiredOne cd sv i at s = Inr (won, s') \<Longrightarrow> state_moves sweeps s s'"
  by (auto simp: sweepExpiredOne_def dest!: closeApprovalTx_Inr(2) sweeping_reject split: sum.splits prod.splits if_splits
      intro: sweeping.same sweeping.twice)

lemma sweeping_loop: "state_moves sweeps s (snd (sweep_loop cd sv at ids m n s))"
  by (induction cd sv at ids m n s rule: sweep_loop.induct)
    (auto split: option.splits driver_fault.splits sum.splits prod.splits bool.splits intro: sweeping.same sweeping.twice dest: sweeping_one)

lemma sweeping_Sweep: "state_moves sweeps s (snd (SweepExpiredApprovals cd sv at s))"
  by (simp add: SweepExpiredApprovals_def sweeping_loop sweeping.same split: option.splits)

lemma map_of_filter_keys: "map_of (filter (\<lambda>(k, _). k \<notin> ids) xs) i = (if i \<in> ids then None else map_of xs i)"
  by (induction xs) auto

lemma sweeping_Prune: "state_moves sweeps s (snd (Prune sv s))"
  unfolding Prune_def
  by (rule transact_cases) (auto simp: Let_def state_moves_def delete_actions_def map_of_filter_keys sweeping.stays split: if_splits)

lemma sweeping_noteWrite: "state_moves sweeps s (noteWrite cd sv s)"
proof -
  let ?s = "s\<lparr>sr_writes := sr_writes s + 1\<rparr>"
  obtain r t where p: "Prune (sv\<lparr>sv_tx := sv_prune sv\<rparr>) ?s = (r, t)" by fastforce
  have "state_moves sweeps s t"
    using sweeping_Prune [of ?s "sv\<lparr>sv_tx := sv_prune sv\<rparr>"] p sweeping.twice [OF sweeping.same [of ?s s]] by auto
  then show ?thesis using p sweeping_Sweep [of t cd sv "sv_now sv"] sweeping.same [of ?s s]
    by (auto simp: noteWrite_def Let_def split: sum.splits intro: sweeping.twice)
qed

lemma recovering_one: "closeCrashOrphan cd sv o' i at s = Inr (x, s') \<Longrightarrow> state_moves recovers s s'"
  by (auto simp: closeCrashOrphan_def orphan_predicate_def orphan_close_def state_moves_def recovers_def settled_states_def Let_def
      dest!: append_receipt_actions split: option.splits if_splits sum.splits prod.splits orphan.splits)

lemma recovering_loop: "state_moves recovers s (snd (recover_loop cd sv keep o' ids n s))"
  by (induction cd sv keep o' ids n s rule: recover_loop.induct)
    (auto split: option.splits driver_fault.splits sum.splits intro: recovering.same recovering.twice dest: recovering_one)

lemma recovering_passes: "state_moves recovers s (snd (recover_passes cd sv keep os n s))"
proof (induction os arbitrary: n s)
  case (Cons o' os)
  obtain m e t where l: "recover_loop cd sv keep o' (map fst (filter (orphan_predicate o' s) (sr_actions s))) n s = ((m, e), t)"
    using prod.exhaust by metis
  then have "state_moves recovers s t" using recovering_loop by (metis snd_conv)
  with l Cons.IH show ?case by (auto split: option.splits intro: recovering.twice)
qed (simp add: recovering.same)

lemma recovering_Recover: "state_moves recovers s (snd (RecoverPreviousLife cd sv refused keep s))"
  by (simp add: RecoverPreviousLife_def recovering_passes recovering.same del: recover_passes.simps split: option.splits)

section \<open>The effect of an operation\<close>

text \<open>A row is one that was there, by at most one move, or a new one.\<close>

definition op_effect :: "(string \<Rightarrow> action_row \<Rightarrow> bool) \<Rightarrow> Store \<Rightarrow> Store \<Rightarrow> bool" where
  "op_effect born s s' \<longleftrightarrow> (\<forall>i row'. map_of (sr_actions s') i = Some row' \<longrightarrow>
     (\<exists>row. map_of (sr_actions s) i = Some row \<and> ar_env row' = ar_env row \<and> state_step (ar_state row) (ar_state row')) \<or>
     map_of (sr_actions s) i = None \<and> born i row')"

definition birth_states :: "State set" where
  "birth_states = {StateDenied, StateShadowed, StateAuthorized, StatePendingApproval, StateRejected}"

definition inserts :: "Store \<Rightarrow> Store \<Rightarrow> bool" where
  "inserts s t \<longleftrightarrow> (\<exists>j row. map_of (sr_actions s) j = None \<and> ar_state row \<in> birth_states \<and>
     map_of (sr_actions t) = (map_of (sr_actions s))(j \<mapsto> row))"

lemma op_effect_moves: "state_moves R s s' \<Longrightarrow> (\<And>u t. R u t \<Longrightarrow> state_step u t) \<Longrightarrow> op_effect born s s'"
  unfolding state_moves_def op_effect_def by blast

lemma op_effect_same: "sr_actions s' = sr_actions s \<Longrightarrow> op_effect born s s'"
  by (rule op_effect_moves [OF sweeping.same]) (auto intro: state_step_of)

lemma op_effect_refl [simp, intro]: "op_effect born s s"
  by (rule op_effect_same) simp

lemma insert_action_row:
  assumes "insert_action env st prin intent refs fin birth d s = Inr t"
  shows "map_of (sr_actions s) (ac_ActionID env) = None"
    and "\<exists>row. ar_env row = env \<and> ar_state row = st \<and> map_of (sr_actions t) = (map_of (sr_actions s))(ac_ActionID env \<mapsto> row)"
proof -
  show "map_of (sr_actions s) (ac_ActionID env) = None" using assms by (simp add: insert_action_def split: if_splits)
  then have put: "map_of (sr_actions s @ [(ac_ActionID env, row)]) = (map_of (sr_actions s))(ac_ActionID env \<mapsto> row)" for row
    by (simp add: map_add_def fun_eq_iff split: option.splits)
  obtain row where "ar_env row = env" "ar_state row = st" "sr_actions t = sr_actions s @ [(ac_ActionID env, row)]"
    using assms by (auto simp: insert_action_def split: if_splits intro: that [rotated 2])
  then show "\<exists>row. ar_env row = env \<and> ar_state row = st \<and> map_of (sr_actions t) = (map_of (sr_actions s))(ac_ActionID env \<mapsto> row)"
    using put by metis
qed

lemma inserts_action: "insert_action env st prin intent refs fin birth d s = Inr t \<Longrightarrow> st \<in> birth_states \<Longrightarrow> inserts s t"
  using insert_action_row unfolding inserts_def by metis

lemma inserts_same: "inserts s t \<Longrightarrow> sr_actions u = sr_actions t \<Longrightarrow> inserts s u"
  by (simp add: inserts_def)

lemma op_effect_inserts:
  assumes "inserts s t" and "state_moves sweeps t s'"
  shows "op_effect (\<lambda>i row. ar_state row \<in> birth_states) s s'"
  unfolding op_effect_def
proof (intro allI impI)
  fix i row' assume "map_of (sr_actions s') i = Some row'"
  then obtain row where row: "map_of (sr_actions t) i = Some row" "ar_env row' = ar_env row" "sweeps (ar_state row) (ar_state row')"
    using assms(2) unfolding state_moves_def by blast
  obtain j new where new: "map_of (sr_actions s) j = None" "ar_state new \<in> birth_states"
      "map_of (sr_actions t) = (map_of (sr_actions s))(j \<mapsto> new)"
    using assms(1) unfolding inserts_def by blast
  show "(\<exists>row. map_of (sr_actions s) i = Some row \<and> ar_env row' = ar_env row \<and> state_step (ar_state row) (ar_state row')) \<or>
     map_of (sr_actions s) i = None \<and> ar_state row' \<in> birth_states"
  proof (cases "i = j")
    case True
    then show ?thesis using row new by (auto simp: sweeps_def birth_states_def)
  next
    case False
    then show ?thesis using row new(3) state_step_of(1) by auto
  qed
qed

lemma op_effect_committed:
  assumes "\<And>x t. f s = Inr (x, t) \<Longrightarrow> inserts s t"
  shows "op_effect (\<lambda>i row. ar_state row \<in> birth_states) s (snd (committed cd sv (transact sv f s)))"
proof (cases "transact sv f s")
  case (Pair r t)
  then consider e where "r = Inl e" "t = s" | x where "r = Inr x" "f s = Inr (x, t)"
    by (auto simp: transact_def split: option.splits sum.splits prod.splits)
  then show ?thesis
  proof cases
    case 1
    then show ?thesis using Pair op_effect_same by (simp add: committed_def)
  next
    case 2
    then show ?thesis using Pair op_effect_inserts [OF assms sweeping_noteWrite] by (simp add: committed_def)
  qed
qed

lemma receipt_if_terminal_actions: "receipt_if_terminal cd sv env d state s = Inr t \<Longrightarrow> sr_actions t = sr_actions s"
  by (auto simp: receipt_if_terminal_def dest: append_receipt_actions split: if_splits sum.splits)

lemma decision_state_birth: "is_decision_state state \<Longrightarrow> state \<in> birth_states" "StatePendingApproval \<in> birth_states"
  by (auto simp: is_decision_state_def birth_states_def)

lemma insert_authenticated_inserts:
  "insert_authenticated cd sv env state refs d e s = Inr t \<Longrightarrow> state \<in> birth_states \<Longrightarrow> inserts s t"
  by (drule insert_authenticated_Inr) (auto intro: inserts_same [OF inserts_action])

lemma effect_RecordAttempt:
  "op_effect (\<lambda>i row. ar_state row \<in> birth_states) s (snd (store_RecordAttempt cd sv env d state s))"
  unfolding store_RecordAttempt_def
  by (auto intro!: op_effect_committed dest!: receipt_if_terminal_actions inserts_action [OF _ decision_state_birth(1)]
      intro: inserts_same split: sum.splits)

lemma effect_RecordAttemptIdentified:
  "op_effect (\<lambda>i row. ar_state row \<in> birth_states) s (snd (store_RecordAttemptIdentified cd sv env d state ident s))"
  unfolding store_RecordAttemptIdentified_def
  by (auto intro!: op_effect_committed dest!: receipt_if_terminal_actions inserts_action [OF _ decision_state_birth(1)]
      simp: Let_def split: sum.splits if_splits) (metis inserts_same)

lemma effect_RecordAttemptAuthenticated:
  "op_effect (\<lambda>i row. ar_state row \<in> birth_states) s (snd (RecordAttemptAuthenticated cd sv env d state e s))"
  unfolding RecordAttemptAuthenticated_def
  by (auto intro!: op_effect_committed simp: recordAuthenticatedTx_def
      dest!: receipt_if_terminal_actions insert_authenticated_inserts [OF _ decision_state_birth(1)]
      intro: inserts_same split: sum.splits)

lemma insert_approval_actions: "insert_approval cd a p raw s = Inr t \<Longrightarrow> sr_actions t = sr_actions s"
  by (auto simp: insert_approval_def split: if_splits)

lemma park_inserts: "park_action cd sv env d ev s = Inr t \<Longrightarrow> inserts s t"
  using decision_state_birth(2)
  by (auto simp: park_action_def split: option.splits intro: inserts_action insert_authenticated_inserts)

lemma effect_CreateParts:
  "op_effect (\<lambda>i row. ar_state row \<in> birth_states) s (snd (createApprovalPartsWithIdentity cd sv env d a p raw ev s))"
  unfolding createApprovalPartsWithIdentity_def
  by (auto intro!: op_effect_committed dest!: park_inserts insert_approval_actions intro: inserts_same
      split: option.splits sum.splits if_splits)

lemma effect_Finish: "op_effect born s (snd (store_FinishWithResult cd uni sv i to at dig s))"
proof -
  have tx: "op_effect born s s'" if "finishWithResultTx cd sv i to at dig s = Inr s'" for s'
    using that by (auto simp: finishWithResultTx_def op_effect_def Let_def state_step_of dest!: append_receipt_actions
        split: option.splits if_splits sum.splits)
  have "op_effect born s (snd (transact sv (\<lambda>s. map_sum (\<lambda>e. e) (\<lambda>s'. ((), s')) (finishWithResultTx cd sv i to at dig s)) s))"
    by (rule transact_cases) (auto simp: map_sum_def op_effect_same split: sum.splits dest: tx)
  then show ?thesis by (auto simp: store_FinishWithResult_def op_effect_same split: prod.splits sum.splits)
qed

text \<open>A human's decision moves the parked action, and its own record is an action that is born succeeded.\<close>

definition decision_act :: "store_op \<Rightarrow> string \<Rightarrow> action_row \<Rightarrow> bool" where
  "decision_act op i row \<longleftrightarrow> (case op of
      OpDecide sv a decision at env ident comment law \<Rightarrow>
        ac_ActionID env = i \<and> ar_env row = env\<lparr>ac_RequestedAt := at\<rparr> \<and> ar_state row = StateSucceeded
    | _ \<Rightarrow> False)"

lemma effect_consume:
  assumes "consume_approval cd sv a decision at env ident comment s = Inr (x, s')"
  shows "op_effect (\<lambda>i row. ac_ActionID env = i \<and> ar_env row = env\<lparr>ac_RequestedAt := at\<rparr> \<and> ar_state row = StateSucceeded) s s'"
proof -
  obtain proofID s1 where s1: "recordDecisionActTx cd sv env ident at s = Inr (proofID, s1)"
    using assms by (auto simp: consume_approval_def split: sum.splits)
  obtain act where act: "map_of (sr_actions s) (ac_ActionID env) = None" "ar_env act = env\<lparr>ac_RequestedAt := at\<rparr>"
      "ar_state act = StateSucceeded" "map_of (sr_actions s1) = (map_of (sr_actions s))(ac_ActionID env \<mapsto> act)"
  proof -
    obtain prin intent d u where i: "insert_action (env\<lparr>ac_RequestedAt := at\<rparr>) StateSucceeded prin intent [] (Some at) legacy_snapshot d s = Inr u"
        and u: "sr_actions s1 = sr_actions u"
      using s1 by (auto simp: recordDecisionActTx_def Let_def split: sum.splits dest!: append_receipt_actions)
    show ?thesis using insert_action_row [OF i] u that by auto
  qed
  define s2 where "s2 = update_approval (ap_ApprovalID a) (\<lambda>w. w\<lparr>aw_approval :=
                 (seal_decision (ai_PrincipalID ident) decision at (aw_approval w))
                   \<lparr>ap_Status := decided_status decision, ap_Comment := comment, ap_DecisionReceiptID := proofID\<rparr>\<rparr>) s1"
  from assms s1 obtain s3 where s3: "tombstoneTx cd a (ai_PrincipalID ident) decision at s2 = Inr s3"
    and rest: "transitionTx (ap_ActionID a) StatePendingApproval StateApproved s3 = Inr s' \<or>
      (\<exists>s4. rejectParkedActionTx cd sv (ap_ActionID a) at s3 = Inr s4 \<and>
        s' = update_approval (ap_ApprovalID a) (\<lambda>w. w\<lparr>aw_params := []\<rparr>) s4)"
    by (auto simp: consume_approval_def Let_def s2_def split: sum.splits if_splits)
  have same: "sr_actions s3 = sr_actions s1" using tombstoneTx_actions [OF s3] by (simp add: s2_def)
  obtain t t' where row: "map_of (sr_actions s1) (ap_ActionID a) = Some t" "ar_state t = StatePendingApproval"
      and moved: "map_of (sr_actions s') = (map_of (sr_actions s1))(ap_ActionID a \<mapsto> t')" "ar_env t' = ar_env t"
        "state_step StatePendingApproval (ar_state t')"
    using rest
  proof
    assume "transitionTx (ap_ActionID a) StatePendingApproval StateApproved s3 = Inr s'"
    from evolves_transition [OF this] obtain row where r: "map_of (sr_actions s1) (ap_ActionID a) = Some row"
        "ar_state row = StatePendingApproval" "s' = update_action (ap_ActionID a) (\<lambda>row. row\<lparr>ar_state := StateApproved\<rparr>) s3"
      by (auto simp: same)
    then have "map_of (sr_actions s') = (map_of (sr_actions s1))(ap_ActionID a \<mapsto> row\<lparr>ar_state := StateApproved\<rparr>)"
      by (auto simp: fun_eq_iff same)
    then show ?thesis using r that [of row "row\<lparr>ar_state := StateApproved\<rparr>"] by (simp add: state_step_def Transition_def transitions_def)
  next
    assume "\<exists>s4. rejectParkedActionTx cd sv (ap_ActionID a) at s3 = Inr s4 \<and>
        s' = update_approval (ap_ApprovalID a) (\<lambda>w. w\<lparr>aw_params := []\<rparr>) s4"
    then obtain s4 where s4: "rejectParkedActionTx cd sv (ap_ActionID a) at s3 = Inr s4" "sr_actions s' = sr_actions s4" by auto
    from rejectParkedActionTx_Inr(2) [OF s4(1)] obtain row where r: "map_of (sr_actions s1) (ap_ActionID a) = Some row"
        "ar_state row = StatePendingApproval" "map_of (sr_actions s') = (map_of (sr_actions s1))(ap_ActionID a \<mapsto>
           row\<lparr>ar_state := StateRejected, ar_finished_at := Some at\<rparr>)" by (auto simp: same s4(2))
    then show ?thesis using that [OF r(1,2,3)] by (simp add: state_step_def Transition_def transitions_def)
  qed
  show ?thesis
    unfolding op_effect_def
  proof (intro allI impI)
    fix i row' assume "map_of (sr_actions s') i = Some row'"
    then show "(\<exists>row. map_of (sr_actions s) i = Some row \<and> ar_env row' = ar_env row \<and> state_step (ar_state row) (ar_state row')) \<or>
      map_of (sr_actions s) i = None \<and> ac_ActionID env = i \<and> ar_env row' = env\<lparr>ac_RequestedAt := at\<rparr> \<and> ar_state row' = StateSucceeded"
      using moved row act by (auto simp: state_step_of split: if_splits)
  qed
qed

lemma op_effect_mono: "op_effect P s s' \<Longrightarrow> (\<And>i row. P i row \<Longrightarrow> Q i row) \<Longrightarrow> op_effect Q s s'"
  unfolding op_effect_def by blast

lemma effect_decide_tx:
  assumes "decide_tx cd sv a decision at env ident comment law s = Inr (x, s')"
  shows "op_effect (decision_act (OpDecide sv a decision at env ident comment law)) s s'"
proof -
  obtain w where w: "map_of (sr_approvals s) a = Some w"
    using assms(1) by (auto simp: decide_tx_def approvalTx_def split: option.splits)
  consider "s' = s"
    | won s1 where "closeApprovalTx cd (aw_approval w) ApprovalExpired [] DecisionClock at [] [] s = Inr (won, s1)"
        "rejectParkedActionTx cd sv (ap_ActionID (aw_approval w)) at s1 = Inr s'"
    | "consume_approval cd sv (aw_approval w) decision at env ident comment s = Inr (x, s')"
    using assms(1) w unfolding decide_tx_def approvalTx_def
    by (auto simp: Let_def split: option.splits if_splits sum.splits prod.splits)
  then show ?thesis
  proof cases
    case 2
    then have "state_moves sweeps s s'"
      using sweeping.twice [OF sweeping.same [OF closeApprovalTx_Inr(2) [OF 2(1)]] sweeping_reject [OF 2(2)]] by simp
    then show ?thesis by (rule op_effect_moves) (rule state_step_of)
  next
    case 3
    from op_effect_mono [OF effect_consume [OF this]] show ?thesis by (simp add: decision_act_def)
  qed simp
qed

lemma effect_Decide:
  "op_effect (decision_act (OpDecide sv a decision at env ident comment law)) s
     (snd (decideApprovalWithLaw cd sv a decision at env ident comment law s))"
proof -
  have "op_effect (decision_act (OpDecide sv a decision at env ident comment law)) s
      (snd (transact sv (decide_tx cd sv a decision at env ident comment law) s))"
    by (rule transact_cases) (auto intro: effect_decide_tx)
  then show ?thesis by (auto simp: decideApprovalWithLaw_def split: option.splits)
qed

lemma effect_Claim: "op_effect born s (snd (ClaimApprovalParamsUnderDigest cd sv i law dig seen s))"
  unfolding ClaimApprovalParamsUnderDigest_def
  by (rule transact_cases) (auto intro!: op_effect_same dest!: claim_tx_Inr)

lemma effect_registry:
  assumes "registry_op cd s s'"
  shows "op_effect born s s'"
proof -
  have "s' = s\<lparr>sr_keys := sr_keys s', sr_principals := sr_principals s',
     sr_principal_events := sr_principal_events s', sr_bindings := sr_bindings s'\<rparr>"
    using assms unfolding registry_op_def by blast
  then have "sr_actions s' = sr_actions s" by (rule ssubst) simp
  then show ?thesis by (rule op_effect_same)
qed

text \<open>Every operation: a row moves by one step, or is born in a birth state, or is a human's decision.\<close>

lemma effect_born:
  "op_effect (\<lambda>i row. ar_state row \<in> birth_states) s s' \<Longrightarrow> op_effect (\<lambda>i row. ar_state row \<in> birth_states \<or> decision_act op i row) s s'"
  by (erule op_effect_mono) simp

lemma effect_act:
  "op_effect (decision_act op) s s' \<Longrightarrow> op_effect (\<lambda>i row. ar_state row \<in> birth_states \<or> decision_act op i row) s s'"
  by (erule op_effect_mono) simp

lemmas effect_swept = op_effect_moves [OF sweeping_Sweep state_step_of(1)] op_effect_moves [OF sweeping_Prune state_step_of(1)]
  op_effect_moves [OF recovering_Recover state_step_of(2)]

lemmas effect_registered = effect_registry [OF RegisterIdentity_op] effect_registry [OF DisablePrincipal_op]
  effect_registry [OF PutSigningKey_op] effect_registry [OF RotateSigningKey_op]

lemmas effects = effect_Finish effect_Claim effect_swept effect_registered effect_born [OF effect_RecordAttempt]
  effect_born [OF effect_RecordAttemptIdentified] effect_born [OF effect_RecordAttemptAuthenticated]
  effect_born [OF effect_CreateParts] effect_act [OF effect_Decide]

lemma run_op_effect: "op_effect (\<lambda>i row. ar_state row \<in> birth_states \<or> decision_act op i row) s (run_op cd uni op s)"
  by (cases op) (simp_all only: run_op.simps create_defs effects)

section \<open>Histories\<close>

text \<open>The row of an action after the first \<open>n\<close> operations of a history.\<close>

definition row_after :: "codec \<Rightarrow> (string \<Rightarrow> string) \<Rightarrow> store_op list \<Rightarrow> Store \<Rightarrow> string \<Rightarrow> nat \<Rightarrow> action_row option" where
  "row_after cd uni ops s i n = map_of (sr_actions (run_ops cd uni (take n ops) s)) i"

definition parked_before :: "codec \<Rightarrow> (string \<Rightarrow> string) \<Rightarrow> store_op list \<Rightarrow> Store \<Rightarrow> string \<Rightarrow> action_row \<Rightarrow> nat \<Rightarrow> bool" where
  "parked_before cd uni ops s i row n \<longleftrightarrow> (\<exists>m<n. \<exists>r. row_after cd uni ops s i m = Some r \<and> ar_env r = ar_env row \<and>
     ar_state r = StatePendingApproval)"

definition authorised_before :: "codec \<Rightarrow> (string \<Rightarrow> string) \<Rightarrow> store_op list \<Rightarrow> Store \<Rightarrow> string \<Rightarrow> action_row \<Rightarrow> bool" where
  "authorised_before cd uni ops s i row \<longleftrightarrow> (\<exists>n<length ops. \<exists>r r'.
     row_after cd uni ops s i n = Some r \<and> ar_env r = ar_env row \<and>
     row_after cd uni ops s i (Suc n) = Some r' \<and> ar_env r' = ar_env row \<and> ar_state r' = ar_state row \<and>
     (ar_state r = StateAuthorized \<or> ar_state r = StateApproved \<and> parked_before cd uni ops s i row n))"

lemma row_after_snoc [simp]:
  "n \<le> length ops \<Longrightarrow> row_after cd uni (ops @ [op]) s i n = row_after cd uni ops s i n"
  "row_after cd uni (ops @ [op]) s i (Suc (length ops)) = map_of (sr_actions (run_op cd uni op (run_ops cd uni ops s))) i"
  "row_after cd uni ops s i (length ops) = map_of (sr_actions (run_ops cd uni ops s)) i"
  by (simp_all add: row_after_def run_ops_def)

lemma parked_before_snoc: "n \<le> length ops \<Longrightarrow> parked_before cd uni (ops @ [op]) s i row n = parked_before cd uni ops s i row n"
  by (auto simp: parked_before_def)

lemma parked_before_le: "parked_before cd uni ops s i row m \<Longrightarrow> m \<le> n \<Longrightarrow> parked_before cd uni ops s i row n"
  by (force simp: parked_before_def)

lemma before_env:
  "ar_env row' = ar_env row \<Longrightarrow> parked_before cd uni ops s i row' n = parked_before cd uni ops s i row n"
  "ar_env row' = ar_env row \<Longrightarrow> ar_state row' = ar_state row \<Longrightarrow>
     authorised_before cd uni ops s i row' = authorised_before cd uni ops s i row"
  by (simp_all add: parked_before_def authorised_before_def)

lemma authorised_before_snoc: "authorised_before cd uni ops s i row \<Longrightarrow> authorised_before cd uni (ops @ [op]) s i row"
  unfolding authorised_before_def
  by (elim exE conjE, rule_tac x = n in exI) (auto simp: parked_before_snoc)

definition outcome_states :: "State set" where "outcome_states = {StateSucceeded, StateFailed, StateOutcomeUnknown}"

text \<open>What the state of a row says of the history behind it.\<close>

definition history_of :: "codec \<Rightarrow> (string \<Rightarrow> string) \<Rightarrow> store_op list \<Rightarrow> Store \<Rightarrow> string \<Rightarrow> action_row \<Rightarrow> bool" where
  "history_of cd uni ops s i row \<longleftrightarrow> ar_state row \<in> settled_states \<and>
     (ar_state row = StateApproved \<longrightarrow> parked_before cd uni ops s i row (length ops)) \<and>
     (ar_state row \<in> outcome_states \<longrightarrow> authorised_before cd uni ops s i row \<or> (\<exists>op\<in>set ops. decision_act op i row))"

lemma decision_act_cong: "ar_env row' = ar_env row \<Longrightarrow> ar_state row' = ar_state row \<Longrightarrow> decision_act op i row' = decision_act op i row"
  by (simp add: decision_act_def split: store_op.splits)

lemma settled_transition: "Transition u t = None \<Longrightarrow> u \<in> settled_states \<Longrightarrow> t \<in> settled_states"
  by (auto simp: Transition_None transitions_def settled_states_def split: State.splits)

lemma history_step:
  assumes row: "map_of (sr_actions (run_ops cd uni ops s)) i = Some row" and h: "history_of cd uni ops s i row"
    and row': "map_of (sr_actions (run_op cd uni op (run_ops cd uni ops s))) i = Some row'" and env: "ar_env row' = ar_env row"
    and step: "state_step (ar_state row) (ar_state row')"
  shows "history_of cd uni (ops @ [op]) s i row'"
proof (cases "ar_state row' = ar_state row")
  case True
  note same = before_env [OF env] decision_act_cong [OF env]
  show ?thesis using h True same parked_before_snoc [of "length ops" ops cd uni op s i row]
    by (auto simp: history_of_def intro: authorised_before_snoc parked_before_le [OF _ le_SucI])
next
  case False
  then have t: "Transition (ar_state row) (ar_state row') = None" using step h by (auto simp: state_step_def history_of_def)
  have "authorised_before cd uni (ops @ [op]) s i row'" if "ar_state row' \<in> outcome_states"
  proof -
    have "ar_state row = StateAuthorized \<or> ar_state row = StateApproved"
      using transitions_into(1) [OF t] that by (auto simp: outcome_states_def)
    then have "ar_state row = StateAuthorized \<or> ar_state row = StateApproved \<and> parked_before cd uni (ops @ [op]) s i row' (length ops)"
      using h before_env(1) [OF env] by (auto simp: history_of_def parked_before_snoc)
    then show ?thesis unfolding authorised_before_def using row row' env by (intro exI [of _ "length ops"]) auto
  qed
  moreover have "parked_before cd uni (ops @ [op]) s i row' (length (ops @ [op]))" if "ar_state row' = StateApproved"
    unfolding parked_before_def using transitions_into(2) t that row env by (intro exI [of _ "length ops"]) auto
  ultimately show ?thesis using settled_transition [OF t] h by (auto simp: history_of_def)
qed

lemma history_born:
  assumes "ar_state row \<in> birth_states \<or> decision_act op i row"
  shows "history_of cd uni (ops @ [op]) s i row"
  using assms
proof
  assume "ar_state row \<in> birth_states"
  then show ?thesis by (auto simp: history_of_def birth_states_def settled_states_def outcome_states_def)
next
  assume act: "decision_act op i row"
  then have "ar_state row = StateSucceeded" by (cases op) (simp_all add: decision_act_def)
  then show ?thesis using act by (simp add: history_of_def settled_states_def)
qed

lemma histories:
  "map_of (sr_actions s) i = None \<Longrightarrow> map_of (sr_actions (run_ops cd uni ops s)) i = Some row \<Longrightarrow> history_of cd uni ops s i row"
proof (induction ops arbitrary: row rule: rev_induct)
  case (snoc op ops)
  have row: "map_of (sr_actions (run_op cd uni op (run_ops cd uni ops s))) i = Some row" using snoc.prems(2) by (simp add: run_ops_def)
  then show ?case
    using run_op_effect [of op "run_ops cd uni ops s" cd uni] history_step [OF _ snoc.IH [OF snoc.prems(1)] row] history_born
    unfolding op_effect_def by blast
qed (simp add: run_ops_def)

text \<open>A request is parked, a human approves it, and its run is closed as a success.\<close>

definition finish_op :: store_op where "finish_op = OpFinish quiet_env ''act_9'' StateSucceeded 130 []"

definition finished_store :: Store where
  "finished_store = approved_store\<lparr>sr_actions :=
     [(''act_9'', parked_action\<lparr>ar_state := StateSucceeded, ar_finished_at := Some 130\<rparr>), (''act_op'', operator_row)]\<rparr>"

lemma sample_finished: "snd (store_FinishWithResult plain_codec (\<lambda>x. x) quiet_env ''act_9'' StateSucceeded 130 [] approved_store) = finished_store"
  by (simp add: store_FinishWithResult_def finishWithResultTx_def transact_def quiet_env_def approved_store_def
      finished_store_def parked_store_def bare_store_def parked_action_def update_action_def HasPrefix_def Transition_def transitions_def
      operator_row_def ToLower_def)

lemma sample_history:
  "run_ops plain_codec (\<lambda>x. x) [OpPark quiet_env parked_request] bare_store = parked_store"
  "run_ops plain_codec (\<lambda>x. x) [OpPark quiet_env parked_request, approve_op] bare_store = approved_store"
  "run_ops plain_codec (\<lambda>x. x) [OpPark quiet_env parked_request, approve_op, finish_op] bare_store = finished_store"
  by (simp_all add: run_ops_def sample_parks sample_finished approve_op_def finish_op_def sample_decided)

text \<open>
  C29: No outcome without authorisation. Take any history of the operations of the action store - records of attempts in their
  three forms, parks, decisions, claims, closes with a result, sweeps, prunings, recovery after a crash, and the operations on
  principals and keys, with any faults - and an action that had no row before it. If its row says \<open>SUCCEEDED\<close>,
  \<open>FAILED\<close> or \<open>OUTCOME_UNKNOWN\<close> at the end, then some operation of the history took it to that state from
  \<open>AUTHORIZED\<close>, or from \<open>APPROVED\<close> after it had stood in \<open>PENDING_APPROVAL\<close>, with the very envelope it has
  at the end; or the row is the record that a decision of an operator leaves of itself, which is born succeeded. In particular
  the sweep of recovery, which writes \<open>FAILED\<close> and \<open>OUTCOME_UNKNOWN\<close> without the transition table, gives no action
  an outcome that was not authorised. The strict doors, which start an action under a grant, are not operations of these
  histories; \<open>Grant_History\<close> has theirs.
\<close>

theorem outcome_needs_authorisation:
  assumes "map_of (sr_actions s) i = None" and "map_of (sr_actions (run_ops cd uni ops s)) i = Some row"
    and "ar_state row \<in> {StateSucceeded, StateFailed, StateOutcomeUnknown}"
  shows "(\<exists>n<length ops. \<exists>r r'.
      row_after cd uni ops s i n = Some r \<and> ar_env r = ar_env row \<and>
      row_after cd uni ops s i (Suc n) = Some r' \<and> ar_env r' = ar_env row \<and> ar_state r' = ar_state row \<and>
      (ar_state r = StateAuthorized \<or> ar_state r = StateApproved \<and>
         (\<exists>m<n. \<exists>p. row_after cd uni ops s i m = Some p \<and> ar_env p = ar_env row \<and> ar_state p = StatePendingApproval))) \<or>
    (\<exists>op\<in>set ops. decision_act op i row)"
  using histories [OF assms(1,2)] assms(3)
  unfolding history_of_def outcome_states_def authorised_before_def parked_before_def by blast

theorem outcome_needs_authorisation_witness:
  "let ops = [OpPark quiet_env parked_request, approve_op, finish_op]; row = row_after plain_codec (\<lambda>x. x) ops bare_store ''act_9'' in
     row 0 = None \<and> map_option ar_state (row 1) = Some StatePendingApproval \<and> map_option ar_state (row 2) = Some StateApproved \<and>
     map_option ar_state (row 3) = Some StateSucceeded \<and>
     (\<exists>n<3. \<exists>r. row n = Some r \<and> ar_state r \<in> {StateAuthorized, StateApproved})"
proof -
  let ?ops = "[OpPark quiet_env parked_request, approve_op, finish_op]"
  let ?row = "parked_action\<lparr>ar_state := StateSucceeded, ar_finished_at := Some 130\<rparr>"
  have none: "map_of (sr_actions bare_store) ''act_9'' = None" by (simp add: bare_store_def)
  have there: "map_of (sr_actions (run_ops plain_codec (\<lambda>x. x) ?ops bare_store)) ''act_9'' = Some ?row"
    by (simp add: sample_history finished_store_def)
  have no_act: "\<not> (\<exists>op\<in>set ?ops. decision_act op ''act_9'' ?row)"
    by (simp add: decision_act_def approve_op_def finish_op_def)
  have len: "length ?ops = 3" by simp
  have "\<exists>n<3. \<exists>r. row_after plain_codec (\<lambda>x. x) ?ops bare_store ''act_9'' n = Some r \<and> ar_state r \<in> {StateAuthorized, StateApproved}"
    using outcome_needs_authorisation [OF none there, unfolded len] no_act by (simp del: One_nat_def) blast
  moreover have "row_after plain_codec (\<lambda>x. x) ?ops bare_store ''act_9'' 0 = None"
    "map_option ar_state (row_after plain_codec (\<lambda>x. x) ?ops bare_store ''act_9'' 1) = Some StatePendingApproval"
    "map_option ar_state (row_after plain_codec (\<lambda>x. x) ?ops bare_store ''act_9'' 2) = Some StateApproved"
    "map_option ar_state (row_after plain_codec (\<lambda>x. x) ?ops bare_store ''act_9'' 3) = Some StateSucceeded"
    using none there
    by (simp_all add: row_after_def sample_history run_ops_def [of _ _ "[]"] parked_store_def approved_store_def parked_action_def numeral_2_eq_2 numeral_3_eq_3)
  ultimately show ?thesis unfolding Let_def by simp
qed

end
