(* ===== verification/Spec2Isabelle.thy ===== *)
theory Spec2Isabelle
  imports Retry Policy Budget Dispatch_Samples Executor Approved_Samples Supervisor Agent Grant_Samples Store_Outcomes
begin

text \<open>
  Korvun is a gateway between chat channels and language models that lets a model act through tools,
  under a policy a human controls, with every action recorded in a signed ledger. This development
  models the parts of it that carry that logic, under \<open>src/internal\<close>, and proves what makes them
  correct.

  \<^bold>\<open>The program and its parts.\<close> A channel delivers an envelope (\<open>envelope\<close>) to the router
  (\<open>router\<close>). The router drops redeliveries, answers the session commands, resolves the brain of the
  conversation, keeps its memory (\<open>conversation\<close>) and puts the message into the brain's queue; what
  happens is published on a bus (\<open>bus\<close>). A brain asks several models, in parallel
  (\<open>model/fanout\<close>) or one after the other (\<open>model/sequential\<close>), each call retried
  (\<open>model/retry\<close>), and a policy (\<open>policy\<close>) decides which models and tools it may use and
  reduces the answers to one. A tool call goes through the executor (\<open>action/executor\<close>): prepared as
  an action, submitted to the gates, refused, shadowed, parked for approval or executed, and recorded in the action
  store (\<open>action/sqlite\<close>) with a receipt that is hashed, chained and signed. A parked request waits for a human
  decision (\<open>action/approval.go\<close>) and is then claimed and executed once (\<open>app\<close>). Who asked is
  resolved to a principal and sealed as signed evidence (\<open>identity\<close>). In the strict mode an action starts only
  under a signed intent and a chain of signed grants whose budgets it is charged to (\<open>action/authority_v2.go\<close>,
  \<open>action/sqlite/authority_v2.go\<close>). The brain itself (\<open>brain\<close>) is an orchestrator, which asks and reduces,
  or an agent, which loops over model and tool calls; the supervisor (\<open>supervisor\<close>) replaces the running
  application when its configuration is reloaded.

  \<^bold>\<open>The theories.\<close> Names follow the Go names; a record field carries a short prefix of its type.

  \<^item> \<open>Korvun_Prelude\<close>: Go's errors with \<open>errors.Is\<close>, instants, the part of \<open>strings\<close> in
    use, sums as results, and the collections of facts of the development. \<open>Go_Text\<close>: the text functions of the
    commands (\<open>strings.Fields\<close>, \<open>strconv.Atoi\<close>, runes).
  \<^item> \<open>Model_Dispatch\<close>: \<open>model/model.go\<close>, \<open>model/fanout\<close>, \<open>model/sequential\<close>.
    A model is a record of its operations; the order in which goroutines finish and what a cancelled call sees are
    explicit. The locale of a dispatcher is interpreted for both coordinators. \<open>Retry\<close>:
    \<open>model/retry/retry.go\<close>, durations at 64 bits.
  \<^item> \<open>Policy\<close>: \<open>policy/*.go\<close>, the model and tool selectors and both reducers.
  \<^item> \<open>Action_State\<close>, \<open>Authority\<close>, \<open>Budget\<close>: \<open>action/state.go\<close>,
    \<open>lifecycle.go\<close>, \<open>contract.go\<close>, \<open>grant.go\<close>, \<open>budget.go\<close>, and
    \<open>sqlite/budgets.go\<close> as a refinement of the ledger of budgets. \<open>Delegation\<close>:
    \<open>action/authority_v2.go\<close>, \<open>intent_v2.go\<close>, \<open>authorization_snapshot.go\<close>: the terms of the
    strict, signed grants and intents, their canonical bytes, and attenuation in every dimension.
  \<^item> \<open>Envelope\<close>, \<open>Conversation\<close>, \<open>Dedup\<close>, \<open>Bus\<close>: the message, the memory of
    conversations with its sessions, the deduplication window, and the event bus as interleaved steps.
  \<^item> \<open>Router\<close>, \<open>Session_Dispatch\<close>, \<open>Dispatch\<close>, \<open>Dispatch_Samples\<close>:
    \<open>router/*.go\<close>. The router's state is one record; each method is a function from it to its results, and a
    history is a list of method calls.
  \<^item> \<open>Identity\<close>, \<open>Identity_Seal\<close>: \<open>action/action.go\<close>, \<open>principal.go\<close>,
    \<open>provenance.go\<close>, \<open>identity/*.go\<close>: canonical actions and digests, the resolver, signed evidence and
    principal events. \<open>Approval\<close>: \<open>action/approval.go\<close>, \<open>preview.go\<close>,
    \<open>approval_bound.go\<close>. \<open>Ledger\<close>: \<open>action/receipt.go\<close>, \<open>signing.go\<close>.
  \<^item> \<open>Executor\<close>: \<open>action/executor/*.go\<close>, over a world that carries the state of the store,
    the counters of the request cells and the trace of calls.
  \<^item> \<open>Store_Tables\<close>, \<open>Identity_Store\<close>, \<open>Action_Store\<close>: \<open>action/sqlite\<close>. The
    tables are lists of row records, an operation that runs in a transaction is a function to an error or to a new store,
    and \<open>transact\<close> keeps the old store on an error. \<open>Identity_Safety\<close>, \<open>Store_Safety\<close>,
    \<open>Store_Identity\<close>: what holds over every history of these operations. \<open>Store_Outcomes\<close>:
    how an action of such a history comes to its outcome. \<open>Store_Samples\<close>, \<open>Identity_Samples\<close>: concrete
    stores.
  \<^item> \<open>Approved_Run\<close>, \<open>Approved_Samples\<close>: \<open>ResumeApproved\<close> of the executor and
    \<open>ExecuteApprovedAction\<close> of the application on the store of \<open>Action_Store\<close>, through the
    locale \<open>claim_store\<close> that says what the executor relies on.
  \<^item> \<open>Grant_Tables\<close>, \<open>Intent_Store\<close>, \<open>Grant_Store\<close>, \<open>Grant_Start\<close>:
    the strict authority of the store (\<open>sqlite/intent_v2.go\<close>, \<open>authority_v2.go\<close>,
    \<open>config_authority.go\<close>): the tables of intents, grants, events, accounts and debits beside those of
    \<open>Action_Store\<close>; signing, approving and revoking an intent; issuing, delegating and revoking a grant;
    charging the budgets along the chain of a grant; and \<open>StartAuthorization\<close>. \<open>Grant_Safety\<close>,
    \<open>Grant_History\<close>: the invariant that the locale \<open>authority_door\<close> asks of every operation, its
    interpretation for each of them, and the histories as an inductive step relation. \<open>Grant_Samples\<close>: a
    concrete store and a start on it.
  \<^item> \<open>Brain_Text\<close>, \<open>Orchestrator\<close>, \<open>Agent\<close>: \<open>brain/*.go\<close>. The texts of
    a brain with the parser of its tool protocol, the brain that dispatches and reduces (over \<open>Model_Dispatch\<close>,
    \<open>Policy\<close> and \<open>Conversation\<close>), and the agent's bounded loop of model and tool calls over
    \<open>Executor\<close>.
  \<^item> \<open>Supervisor\<close>: \<open>supervisor/supervisor.go\<close>, the reload of the running application as steps of
    its loop interleaved with the requests.

  \<^bold>\<open>What is shown.\<close> Privacy: a private brain hears only from local models (below). Authority: a tool runs only
  for a request that validates and was not used before, and where the executor is governed only under a grant that allows it on that
  channel; each request dispatches at most once; an approved action runs at most once over any history of approvals, claims and
  executions outside the strict mode; no action has an outcome that was not authorised; a delegated grant never widens its parent; budgets are never
  exceeded. Strict authority: a start that succeeds is inside its signed intent and every signed grant of its chain, or rests on the
  one clause of its brain's current signed configuration; over every history of the doors modelled
  no account is overdrawn and the counters agree with the debits, and a revoked grant authorises nothing any more, nor
  does anything delegated from it. Record: the ledger is append only and tamper evident, closed actions and decided approvals are final, a close
  leaves its receipt, receipts verify forever under the keys of the registry, parameters are claimed as they were parked
  and once. Identity: the rows of the principals follow their signed events, a disabled principal cannot be resumed, the
  resolver is exact. Messages: a message reaches only the brain of its route, a duplicate within the capacity of the window
  is caught, a failed dispatch can be retried, a takeover silences the brains, the tables of the router stay sound, the bus
  never sends on a closed channel. Models: the coordinators give one outcome per model, keep an answer under cancellation,
  stop at the first success; the retry loop ends within its attempts; the reducers are correct and deterministic. Brains:
  an agent calls only the tools its plan permits and hands on only guarded replies, every message is answered, a printed
  tool call is parsed back, composed notes stay within their budget. Supervisor: before an application is
  started the one before was told to shut down, and none still holds its workers or its store unless that shutdown reported an
  error; a reload reports its states in order and settles within nine steps.

  \<^bold>\<open>Parameters.\<close> JSON normalisation and quoting, SHA-256, Ed25519, the strict JSON decoder and the random identifiers are
  the record \<open>codec\<close> or arguments; a theorem that needs a law of one of them (no collision among the receipts at
  hand, a hexadecimal hash) names it as a hypothesis. Clocks, store failures, the choice of ready select arms, the models and
  the tools are arguments of the operations. No loop of the modelled code needs fuel: recursion is structural or has a
  termination proof, the retry loop is bounded by its attempts, the agent by its iterations, and the walk up the chain of a
  grant by the code's own limit of 16 links, beyond which it is an error.

  \<^bold>\<open>Not modelled.\<close> Channels, provider adapters and the tools themselves (third-party wire formats, files,
  network), the command line, the HTTP surface, the desktop shell, metrics and build information; the construction of the
  parts from the configuration; the SQLite conversation store; schema migrations and cells of a wrong storage class in the
  action store; of the strict authority the switch of the mode with its import of the older grants, parking under it and
  starting what was approved after parking, the audit of starts at opening and the plain reads; the table of the older
  contracts and the judge of damaged ledgers; parsing canonical bytes back. Where a modelled operation reads one of these, what it reads is a parameter.
\<close>

section \<open>Privacy, end to end\<close>

text \<open>
  C1: A private brain never hears from a cloud model. If the models of a catalog are selected for
  \<open>Private\<close> and a request is dispatched to them, in parallel or serially, then every outcome
  is the result of a call to a catalog entry declared \<open>Local\<close>; and a reply that the priority
  or the consensus policy accepts was generated, for that very request, by such an entry.
\<close>

theorem private_replies_are_local:
  assumes "SelectModels catalog Private = Inr (map Some ms)"
    and "fan_dispatch co req ms ocs \<or> seq_dispatch tmo req ms ocs"
  shows "(\<forall>oc\<in>set ocs. \<exists>e\<in>set catalog. cat_Locality e = Local \<and>
        (\<exists>m d. cat_Model e = Some m \<and> called_by d req m oc)) \<and>
    (priority_policy order ocs = (dec, None) \<or> consensus_policy uni r ocs = (dec, None) \<longrightarrow>
      (\<exists>e\<in>set catalog. cat_Locality e = Local \<and>
        (\<exists>m c. cat_Model e = Some m \<and> m_Generate m c req = Returned (dec_Response dec, None) \<and>
           dec_Response dec \<noteq> None)))"
proof -
  have local: "\<exists>e\<in>set catalog. cat_Locality e = Local \<and> cat_Model e = Some m" if "m \<in> set ms" for m
  proof -
    have "Some m \<in> set (map cat_Model (filter (\<lambda>e. cat_Locality e = Local) catalog))"
      using SelectModels_Private(1) [OF assms(1)] that by (metis image_eqI list.set_map)
    then show ?thesis by auto
  qed
  have "\<exists>m\<in>set ms. \<exists>d. called_by d req m oc" if "oc \<in> set ocs" for oc
    using assms(2) that fan.outcome_of_given_model seq.outcome_of_given_model by blast
  then have 1: "\<forall>oc\<in>set ocs. \<exists>e\<in>set catalog. cat_Locality e = Local \<and>
      (\<exists>m d. cat_Model e = Some m \<and> called_by d req m oc)"
    using local by blast
  have "\<exists>m\<in>set ms. \<exists>c. m_Generate m c req = Returned (dec_Response dec, None) \<and> dec_Response dec \<noteq> None"
    if "priority_policy order ocs = (dec, None) \<or> consensus_policy uni r ocs = (dec, None)"
    using assms(2) that
    by (elim disjE) (rule fan_priority.reply_of_given_model fan_consensus.reply_of_given_model
        seq_priority.reply_of_given_model seq_consensus.reply_of_given_model; assumption)+
  with 1 local show ?thesis by blast
qed

theorem private_replies_are_local_witness:
  "\<exists>ocs. seq_dispatch 0 sample_request [answering ''ollama'' ''hello''] ocs \<and>
     (\<forall>oc\<in>set ocs. \<exists>e\<in>set [\<lparr>cat_Model = Some (answering ''groq'' ''x''), cat_Locality = Cloud\<rparr>,
                              \<lparr>cat_Model = Some (answering ''ollama'' ''hello''), cat_Locality = Local\<rparr>].
        cat_Locality e = Local)"
proof -
  let ?cat = "[\<lparr>cat_Model = Some (answering ''groq'' ''x''), cat_Locality = Cloud\<rparr>,
     \<lparr>cat_Model = Some (answering ''ollama'' ''hello''), cat_Locality = Local\<rparr>]"
  let ?ms = "[answering ''ollama'' ''hello'']"
  have s: "SelectModels ?cat Private = Inr (map Some ?ms)"
    by (simp add: SelectModels_def select_keep_def)
  have d: "seq_dispatch 0 sample_request ?ms (seq_loop 0 sample_request sample_env 0 ?ms)"
    unfolding seq_dispatch_def sequential_Run_def
    by (intro exI [of _ sample_ctx] exI [of _ sample_env]) (simp add: sample_valid_models)
  show ?thesis using private_replies_are_local [OF s disjI2 [OF d]] d by blast
qed

end
